(* ===== verification/Spdm_Prelude.thy ===== *)
theory Spdm_Prelude
  imports "HOL-Library.Word" "HOL-Library.Monad_Syntax"
begin

text \<open>
  Prelude of the rust-spdm development: the machine integer types, Rust's
  \<open>Result\<close> with an explicit panic outcome, slices and their in-place update, and the
  generic facts on lists and words that the components share.

  \<^item> \<open>u8\<close> ... \<open>u128\<close> are fixed-width words, so addition wraps as it does in a release build;
    \<open>usize\<close> values (lengths and offsets of in-memory buffers) are \<open>nat\<close>.
  \<^item> \<open>result\<close> has the two outcomes of \<open>Result\<close> and a third one for a panic (a failed
    assertion, a slice out of range, an \<open>unwrap\<close> of nothing).
  \<^item> The collection \<open>wire\<close> holds what a codec proof needs of its parts.
\<close>

unbundle bit_operations_syntax

named_theorems wire \<open>byte layout of encoders and behaviour of readers on it\<close>
named_theorems state_simps \<open>effect of the operations on the parts of the state\<close>

type_synonym u8 = "8 word"
type_synonym u16 = "16 word"
type_synonym u32 = "32 word"
type_synonym u64 = "64 word"
type_synonym u128 = "128 word"
type_synonym bytes = "u8 list"

section \<open>Result\<close>

datatype ('a, 'e) result = Ok 'a | Err 'e | Panic

fun rbind :: "('a, 'e) result \<Rightarrow> ('a \<Rightarrow> ('b, 'e) result) \<Rightarrow> ('b, 'e) result" where
  "rbind (Ok x) f = f x"
| "rbind (Err e) f = Err e"
| "rbind Panic f = Panic"

fun map_err :: "('e \<Rightarrow> 'f) \<Rightarrow> ('a, 'e) result \<Rightarrow> ('a, 'f) result" where
  "map_err f (Ok x) = Ok x"
| "map_err f (Err e) = Err (f e)"
| "map_err f Panic = Panic"

fun is_ok :: "('a, 'e) result \<Rightarrow> bool" where
  "is_ok (Ok x) = True"
| "is_ok (Err e) = False"
| "is_ok Panic = False"

fun ok_or :: "'e \<Rightarrow> 'a option \<Rightarrow> ('a, 'e) result" where
  "ok_or e (Some x) = Ok x"
| "ok_or e None = Err e"

fun unwrap :: "'a option \<Rightarrow> ('a, 'e) result" where
  "unwrap (Some x) = Ok x"
| "unwrap None = Panic"

text \<open>
  The operator \<open>?\<close> on an \<open>Option\<close> in a function that returns \<open>Option\<close> and may panic: the outcome
  is \<open>Ok None\<close>, \<open>Ok (Some x)\<close> or \<open>Panic\<close>.
\<close>

fun obind :: "('a option, 'e) result \<Rightarrow> ('a \<Rightarrow> ('b option, 'e) result) \<Rightarrow> ('b option, 'e) result" where
  "obind (Ok (Some x)) f = f x"
| "obind (Ok None) f = Ok None"
| "obind (Err e) f = Err e"
| "obind Panic f = Panic"

text \<open>
  A sequence of fallible assignments to a state: the first one that fails ends the function, and
  the assignments made before it stay.
\<close>

fun run_steps :: "('s \<Rightarrow> ('s, 'e) result) list \<Rightarrow> 's \<Rightarrow> (unit, 'e) result \<times> 's" where
  "run_steps [] s = (Ok (), s)"
| "run_steps (f # fs) s =
    (case f s of
      Ok s' \<Rightarrow> run_steps fs s'
    | Err e \<Rightarrow> (Err e, s)
    | Panic \<Rightarrow> (Panic, s))"

lemma obind_eq_Some [simp]:
  "obind m f = Ok (Some y) \<longleftrightarrow> (\<exists>x. m = Ok (Some x) \<and> f x = Ok (Some y))"
  by (cases "(m, f)" rule: obind.cases) auto

lemma run_steps_invariant:
  assumes "P s" and "\<And>f s s'. f \<in> set fs \<Longrightarrow> f s = Ok s' \<Longrightarrow> P s \<Longrightarrow> P s'"
  shows "P (snd (run_steps fs s))"
  using assms by (induction fs arbitrary: s) (auto split: result.splits)

lemma rbind_eq_Ok [simp]: "rbind m f = Ok y \<longleftrightarrow> (\<exists>x. m = Ok x \<and> f x = Ok y)"
  by (cases m) auto

lemma rbind_assoc: "rbind (rbind m f) g = rbind m (\<lambda>x. rbind (f x) g)"
  by (cases m) auto

lemma map_err_eq_Ok [simp]: "map_err f m = Ok x \<longleftrightarrow> m = Ok x"
  by (cases m) auto

lemma map_err_Panic [simp]: "map_err f m = Panic \<longleftrightarrow> m = Panic"
  by (cases m) auto

lemma ok_or_eq_Ok [simp]: "ok_or e m = Ok x \<longleftrightarrow> m = Some x"
  by (cases m) auto

lemma ok_or_not_Panic [simp]: "ok_or e m \<noteq> Panic"
  by (cases m) auto

lemma is_ok_iff: "is_ok m \<longleftrightarrow> (\<exists>x. m = Ok x)"
  by (cases m) auto

section \<open>Slices\<close>

text \<open>The element-by-element store loop \<open>for (i, v) in ...: buf[offs + i] = v\<close>.\<close>

fun write_at :: "'a list \<Rightarrow> nat \<Rightarrow> 'a list \<Rightarrow> 'a list" where
  "write_at buf i [] = buf"
| "write_at buf i (v # vs) = write_at (buf[i := v]) (Suc i) vs"

definition slice :: "'a list \<Rightarrow> nat \<Rightarrow> nat \<Rightarrow> 'a list" where
  "slice xs i j = take (j - i) (drop i xs)"

lemma length_write_at [simp]: "length (write_at buf i vs) = length buf"
  by (induction vs arbitrary: buf i) auto

lemma write_at_eq:
  "i + length vs \<le> length buf \<Longrightarrow>
    write_at buf i vs = take i buf @ vs @ drop (i + length vs) buf"
proof (induction vs arbitrary: buf i)
  case (Cons v vs)
  from Cons.prems have "i < length buf" by simp
  then have "take (Suc i) (buf[i := v]) = take i buf @ [v]"
    by (simp add: take_Suc_conv_app_nth)
  with Cons show ?case by simp
qed simp

lemma write_at_append:
  "write_at buf i (us @ vs) = write_at (write_at buf i us) (i + length us) vs"
  by (induction us arbitrary: buf i) auto

lemma take_write_at [simp]:
  "i + length vs \<le> length buf \<Longrightarrow> take (i + length vs) (write_at buf i vs) = take i buf @ vs"
  by (simp add: write_at_eq)

lemma drop_write_at [simp]:
  "i + length vs \<le> length buf \<Longrightarrow>
    drop (i + length vs) (write_at buf i vs) = drop (i + length vs) buf"
  by (simp add: write_at_eq)

lemma length_slice [simp]: "length (slice xs i j) = min (j - i) (length xs - i)"
  by (simp add: slice_def)

lemma slice_all [simp]: "slice xs 0 (length xs) = xs"
  by (simp add: slice_def)

section \<open>Bytes of a word, least significant first\<close>

definition le_bytes :: "nat \<Rightarrow> 'a::len word \<Rightarrow> bytes" where
  "le_bytes n w = map (\<lambda>i. ucast (drop_bit (8 * i) w)) [0..<n]"

fun from_le_bytes :: "bytes \<Rightarrow> 'a::len word" where
  "from_le_bytes [] = 0"
| "from_le_bytes (b # bs) = ucast b OR push_bit 8 (from_le_bytes bs)"

lemma length_le_bytes [simp]: "length (le_bytes n w) = n"
  by (simp add: le_bytes_def)

lemma le_bytes_0 [simp]: "le_bytes 0 w = []"
  by (simp add: le_bytes_def)

lemma le_bytes_Suc: "le_bytes (Suc n) w = ucast w # le_bytes n (drop_bit 8 w)"
proof -
  have "[0..<Suc n] = 0 # map Suc [0..<n]"
    by (simp add: map_Suc_upt upt_conv_Cons)
  then show ?thesis
    by (simp add: le_bytes_def add.commute)
qed

lemma le_bytes_numeral:
  "le_bytes (numeral k) w = ucast w # le_bytes (pred_numeral k) (drop_bit 8 w)"
  by (simp add: le_bytes_Suc numeral_eq_Suc)

lemma le_bytes_1 [simp]: "le_bytes (Suc 0) w = [ucast w]"
  by (simp add: le_bytes_Suc)

lemma from_le_bytes_le_bytes:
  "from_le_bytes (le_bytes n w) = take_bit (8 * n) (w :: 'a::len word)"
proof (induction n arbitrary: w)
  case (Suc n)
  have "ucast (ucast w :: u8) OR push_bit 8 (take_bit (8 * n) (drop_bit 8 w))
      = take_bit (8 * Suc n) w"
    by (rule bit_word_eqI) (auto simp: bit_simps not_less)
  with Suc show ?case by (simp add: le_bytes_Suc)
qed simp

lemma from_le_bytes_id [simp]:
  "LENGTH('a::len) \<le> 8 * n \<Longrightarrow> from_le_bytes (le_bytes n w) = (w :: 'a word)"
  by (simp add: from_le_bytes_le_bytes take_bit_word_eq_self)

lemma le_bytes_inject:
  "LENGTH('a::len) \<le> 8 * n \<Longrightarrow> le_bytes n v = le_bytes n w \<longleftrightarrow> v = (w :: 'a word)"
  by (metis from_le_bytes_id)

end
