(* ===== verification/Codec.thy ===== *)
theory Codec
  imports Spdm_Prelude
begin

text \<open>
  The codec crate: \<open>codec/src/codec.rs\<close> (byte reader and writer, integer codecs) and
  \<open>codec/src/macros.rs\<close> (the enumeration builder).

  \<^item> \<open>reader\<close> and \<open>writer\<close> are the structs of the source. A read returns the value and the
    advanced reader, or \<open>None\<close>; no caller looks at a reader after \<open>None\<close>. An encoder returns
    its result and the writer, because what a failed encoder leaves in the buffer is visible.
  \<^item> \<open>emits\<close> says that an encoder produces a given byte string, and what it leaves behind when
    the buffer is too small. The locale \<open>codec\<close> is the contract of the trait \<open>Codec\<close>; it is
    interpreted by every integer width here and by the wire types of the other theories.
\<close>

section \<open>Definitions\<close>

subsection \<open>Reader\<close>

record reader =
  r_buf :: bytes
  r_offs :: nat

type_synonym 'a rd = "reader \<Rightarrow> ('a \<times> reader) option"

definition reader_init :: "bytes \<Rightarrow> reader" where
  "reader_init bs = \<lparr>r_buf = bs, r_offs = 0\<rparr>"

definition reader_left :: "reader \<Rightarrow> nat" where
  "reader_left r = length (r_buf r) - r_offs r"

definition reader_any_left :: "reader \<Rightarrow> bool" where
  "reader_any_left r \<longleftrightarrow> r_offs r < length (r_buf r)"

definition reader_used :: "reader \<Rightarrow> nat" where
  "reader_used r = r_offs r"

definition reader_rest :: "reader \<Rightarrow> bytes \<times> reader" where
  "reader_rest r = (drop (r_offs r) (r_buf r), r\<lparr>r_offs := length (r_buf r)\<rparr>)"

definition reader_take :: "nat \<Rightarrow> bytes rd" where
  "reader_take n r =
    (if reader_left r < n then None
     else Some (slice (r_buf r) (r_offs r) (r_offs r + n), r\<lparr>r_offs := r_offs r + n\<rparr>))"

definition reader_sub :: "nat \<Rightarrow> reader rd" where
  "reader_sub n r = do { (bs, r) \<leftarrow> reader_take n r; Some (reader_init bs, r) }"

definition read_bytes :: "'a rd \<Rightarrow> bytes \<Rightarrow> 'a option" where
  "read_bytes rd bs = map_option fst (rd (reader_init bs))"

subsection \<open>Writer\<close>

record writer =
  w_buf :: bytes
  w_offs :: nat

definition writer_init :: "bytes \<Rightarrow> writer" where
  "writer_init bs = \<lparr>w_buf = bs, w_offs = 0\<rparr>"

definition writer_left :: "writer \<Rightarrow> nat" where
  "writer_left w = length (w_buf w) - w_offs w"

definition writer_used :: "writer \<Rightarrow> nat" where
  "writer_used w = w_offs w"

definition writer_used_slice :: "writer \<Rightarrow> bytes" where
  "writer_used_slice w = take (w_offs w) (w_buf w)"

definition writer_extend_from_slice :: "bytes \<Rightarrow> writer \<Rightarrow> nat option \<times> writer" where
  "writer_extend_from_slice v w =
    (if writer_left w < length v then (None, w)
     else (Some (length v),
       w\<lparr>w_buf := write_at (w_buf w) (w_offs w) v, w_offs := w_offs w + length v\<rparr>))"

definition writer_push :: "u8 \<Rightarrow> writer \<Rightarrow> u8 option \<times> writer" where
  "writer_push v w =
    (if writer_left w < 1 then (None, w)
     else (Some v, w\<lparr>w_buf := (w_buf w)[w_offs w := v], w_offs := w_offs w + 1\<rparr>))"

subsection \<open>Encoders\<close>

datatype EncodeErr = EncodeErr

type_synonym 'e enc = "writer \<Rightarrow> (nat, 'e) result \<times> writer"

text \<open>\<open>cnt += a.encode(bytes)?; cnt += b.encode(bytes)?; ... Ok(cnt)\<close>\<close>

fun encs :: "'e enc list \<Rightarrow> 'e enc" where
  "encs [] w = (Ok 0, w)"
| "encs (e # es) w =
    (case e w of
      (Ok n, w) \<Rightarrow>
        (case encs es w of
          (Ok m, w) \<Rightarrow> (Ok (n + m), w)
        | (Err x, w) \<Rightarrow> (Err x, w)
        | (Panic, w) \<Rightarrow> (Panic, w))
    | (Err x, w) \<Rightarrow> (Err x, w)
    | (Panic, w) \<Rightarrow> (Panic, w))"

definition enc_map_err :: "('e \<Rightarrow> 'f) \<Rightarrow> 'e enc \<Rightarrow> 'f enc" where
  "enc_map_err f e w = (case e w of (r, w) \<Rightarrow> (map_err f r, w))"

definition bytes_encode :: "bytes \<Rightarrow> EncodeErr enc" where
  "bytes_encode bs w =
    (case writer_extend_from_slice bs w of (r, w) \<Rightarrow> (ok_or EncodeErr r, w))"

definition push_encode :: "u8 \<Rightarrow> EncodeErr enc" where
  "push_encode b w =
    (case writer_push b w of
      (None, w) \<Rightarrow> (Err EncodeErr, w)
    | (Some _, w) \<Rightarrow> (Ok 1, w))"

subsection \<open>Integers\<close>

definition decode_u8 :: "bytes \<Rightarrow> u8" where
  "decode_u8 bs = bs ! 0"

definition u8_encode :: "u8 \<Rightarrow> EncodeErr enc" where
  "u8_encode v = push_encode v"

definition u8_read :: "u8 rd" where
  "u8_read r = do { (bs, r) \<leftarrow> reader_take 1 r; Some (decode_u8 bs, r) }"

definition put_u16 :: "u16 \<Rightarrow> bytes" where
  "put_u16 v = [ucast v, ucast (drop_bit 8 v)]"

definition decode_u16 :: "bytes \<Rightarrow> u16" where
  "decode_u16 bs = ucast (bs ! 0) OR push_bit 8 (ucast (bs ! 1))"

definition u16_encode :: "u16 \<Rightarrow> EncodeErr enc" where
  "u16_encode v = bytes_encode (put_u16 v)"

definition u16_read :: "u16 rd" where
  "u16_read r = do { (bs, r) \<leftarrow> reader_take 2 r; Some (decode_u16 bs, r) }"

datatype u24 = u24 (u24_get: u32)

definition u24_new :: "u32 \<Rightarrow> (u24, 'e) result" where
  "u24_new v = (if drop_bit 24 v = 0 then Ok (u24 v) else Panic)"

definition u24_decode :: "bytes \<Rightarrow> u24" where
  "u24_decode bs =
    u24 (ucast (bs ! 0) OR push_bit 8 (ucast (bs ! 1)) OR push_bit 16 (ucast (bs ! 2)))"

definition u24_encode :: "u24 \<Rightarrow> EncodeErr enc" where
  "u24_encode v = encs
    [push_encode (ucast (u24_get v)),
     push_encode (ucast (drop_bit 8 (u24_get v))),
     push_encode (ucast (drop_bit 16 (u24_get v)))]"

definition u24_read :: "u24 rd" where
  "u24_read r = do { (bs, r) \<leftarrow> reader_take 3 r; Some (u24_decode bs, r) }"

definition decode_u32 :: "bytes \<Rightarrow> u32" where
  "decode_u32 bs =
    ucast (bs ! 0) OR push_bit 8 (ucast (bs ! 1)) OR push_bit 16 (ucast (bs ! 2))
      OR push_bit 24 (ucast (bs ! 3))"

definition u32_encode :: "u32 \<Rightarrow> EncodeErr enc" where
  "u32_encode v = encs
    [push_encode (ucast v),
     push_encode (ucast (drop_bit 8 v)),
     push_encode (ucast (drop_bit 16 v)),
     push_encode (ucast (drop_bit 24 v))]"

definition u32_read :: "u32 rd" where
  "u32_read r = do { (bs, r) \<leftarrow> reader_take 4 r; Some (decode_u32 bs, r) }"

definition put_u64 :: "u64 \<Rightarrow> bytes" where
  "put_u64 v =
    [ucast v, ucast (drop_bit 8 v), ucast (drop_bit 16 v), ucast (drop_bit 24 v),
     ucast (drop_bit 32 v), ucast (drop_bit 40 v), ucast (drop_bit 48 v),
     ucast (drop_bit 56 v)]"

definition decode_u64 :: "bytes \<Rightarrow> u64" where
  "decode_u64 bs =
    ucast (bs ! 0) OR push_bit 8 (ucast (bs ! 1)) OR push_bit 16 (ucast (bs ! 2))
      OR push_bit 24 (ucast (bs ! 3)) OR push_bit 32 (ucast (bs ! 4))
      OR push_bit 40 (ucast (bs ! 5)) OR push_bit 48 (ucast (bs ! 6))
      OR push_bit 56 (ucast (bs ! 7))"

definition u64_encode :: "u64 \<Rightarrow> EncodeErr enc" where
  "u64_encode v = bytes_encode (put_u64 v)"

definition u64_read :: "u64 rd" where
  "u64_read r = do { (bs, r) \<leftarrow> reader_take 8 r; Some (decode_u64 bs, r) }"

definition u128_encode :: "u128 \<Rightarrow> EncodeErr enc" where
  "u128_encode v = bytes_encode (le_bytes 16 v)"

definition u128_read :: "u128 rd" where
  "u128_read r = do { (bs, r) \<leftarrow> reader_take 16 r; Some (from_le_bytes bs, r) }"

subsection \<open>Enumerations and flag sets\<close>

text \<open>
  \<open>enum_builder!\<close> generates \<open>get_uN\<close> and a \<open>Codec\<close> instance from a table of values; \<open>of\<close> stands
  for the generated match, which ends in the arm \<open>Unknown(x)\<close>. A flag set is the word of its
  bits; \<open>from_bits\<close> is the constructor of the bitflags macro, which refuses undeclared bits.
\<close>

definition enum_u8_encode :: "('a \<Rightarrow> u8) \<Rightarrow> 'a \<Rightarrow> EncodeErr enc" where
  "enum_u8_encode get x = u8_encode (get x)"

definition enum_u8_read :: "(u8 \<Rightarrow> 'a) \<Rightarrow> 'a rd" where
  "enum_u8_read of_u8 r = do { (v, r) \<leftarrow> u8_read r; Some (of_u8 v, r) }"

definition enum_u16_encode :: "('a \<Rightarrow> u16) \<Rightarrow> 'a \<Rightarrow> EncodeErr enc" where
  "enum_u16_encode get x = u16_encode (get x)"

definition enum_u16_read :: "(u16 \<Rightarrow> 'a) \<Rightarrow> 'a rd" where
  "enum_u16_read of_u16 r = do { (v, r) \<leftarrow> u16_read r; Some (of_u16 v, r) }"

definition from_bits :: "'a::len word \<Rightarrow> 'a word \<Rightarrow> 'a word option" where
  "from_bits all b = (if b AND NOT all = 0 then Some b else None)"

definition flags_u8_read :: "u8 \<Rightarrow> u8 \<Rightarrow> u8 rd" where
  "flags_u8_read all vmask r =
    do { (b, r) \<leftarrow> u8_read r; f \<leftarrow> from_bits all (b AND vmask); Some (f, r) }"

definition flags_u16_read :: "u16 \<Rightarrow> u16 \<Rightarrow> u16 rd" where
  "flags_u16_read all vmask r =
    do { (b, r) \<leftarrow> u16_read r; f \<leftarrow> from_bits all (b AND vmask); Some (f, r) }"

definition flags_u32_read :: "u32 \<Rightarrow> u32 \<Rightarrow> u32 rd" where
  "flags_u32_read all vmask r =
    do { (b, r) \<leftarrow> u32_read r; f \<leftarrow> from_bits all (b AND vmask); Some (f, r) }"

subsection \<open>Positions and contracts\<close>

text \<open>
  \<open>rd_at pre post\<close> is the reader that has consumed \<open>pre\<close> and has \<open>post\<close> left; \<open>wr_at out room\<close>
  the writer that holds \<open>out\<close> and has the bytes \<open>room\<close> of its buffer left to overwrite.
\<close>

definition rd_at :: "bytes \<Rightarrow> bytes \<Rightarrow> reader" where
  "rd_at pre post = \<lparr>r_buf = pre @ post, r_offs = length pre\<rparr>"

definition wr_at :: "bytes \<Rightarrow> bytes \<Rightarrow> writer" where
  "wr_at out room = \<lparr>w_buf = out @ room, w_offs = length out\<rparr>"

definition writer_ok :: "writer \<Rightarrow> bool" where
  "writer_ok w \<longleftrightarrow> w_offs w \<le> length (w_buf w)"

definition emits :: "'e enc \<Rightarrow> bytes \<Rightarrow> bool" where
  "emits e bs \<longleftrightarrow>
    (\<forall>out room.
      (length bs \<le> length room \<longrightarrow>
        e (wr_at out room) = (Ok (length bs), wr_at (out @ bs) (drop (length bs) room))) \<and>
      (length room < length bs \<longrightarrow>
        (\<exists>err k. k \<le> length room \<and>
          e (wr_at out room) = (Err err, wr_at (out @ take k bs) (drop k room)))))"

locale codec =
  fixes encode :: "'a \<Rightarrow> 'e enc"
    and read :: "'a rd"
    and image :: "'a \<Rightarrow> bytes"
    and valid :: "'a \<Rightarrow> bool"
  assumes encode_emits: "valid x \<Longrightarrow> emits (encode x) (image x)"
    and read_image:
      "valid x \<Longrightarrow> read (rd_at pre (image x @ post)) = Some (x, rd_at (pre @ image x) post)"

locale enum_u8 =
  fixes get :: "'a \<Rightarrow> u8"
    and of_u8 :: "u8 \<Rightarrow> 'a"
  assumes get_of: "get (of_u8 v) = v"

locale enum_u16 =
  fixes get :: "'a \<Rightarrow> u16"
    and of_u16 :: "u16 \<Rightarrow> 'a"
  assumes get_of: "get (of_u16 v) = v"

section \<open>Reader and writer\<close>

lemma reader_init_rd_at: "reader_init bs = rd_at [] bs"
  by (simp add: reader_init_def rd_at_def)

lemma writer_init_wr_at: "writer_init bs = wr_at [] bs"
  by (simp add: writer_init_def wr_at_def)

lemma reader_left_rd_at [simp]: "reader_left (rd_at pre post) = length post"
  by (simp add: reader_left_def rd_at_def)

lemma reader_used_rd_at [simp]: "reader_used (rd_at pre post) = length pre"
  by (simp add: reader_used_def rd_at_def)

lemma reader_any_left_rd_at [simp]: "reader_any_left (rd_at pre post) \<longleftrightarrow> post \<noteq> []"
  by (simp add: reader_any_left_def rd_at_def)

lemma reader_rest_rd_at [simp]: "reader_rest (rd_at pre post) = (post, rd_at (pre @ post) [])"
  by (simp add: reader_rest_def rd_at_def)

lemma reader_take_rd_at:
  "reader_take n (rd_at pre post) =
    (if length post < n then None else Some (take n post, rd_at (pre @ take n post) (drop n post)))"
  by (auto simp: reader_take_def rd_at_def reader_left_def slice_def)

lemma reader_take_append [simp]:
  "length bs = n \<Longrightarrow> reader_take n (rd_at pre (bs @ post)) = Some (bs, rd_at (pre @ bs) post)"
  by (simp add: reader_take_rd_at)

lemma writer_left_wr_at [simp]: "writer_left (wr_at out room) = length room"
  by (simp add: writer_left_def wr_at_def)

lemma writer_used_wr_at [simp]: "writer_used (wr_at out room) = length out"
  by (simp add: writer_used_def wr_at_def)

lemma writer_used_slice_wr_at [simp]: "writer_used_slice (wr_at out room) = out"
  by (simp add: writer_used_slice_def wr_at_def)

lemma writer_ok_wr_at [simp]: "writer_ok (wr_at out room)"
  by (simp add: writer_ok_def wr_at_def)

lemma writer_ok_cases:
  assumes "writer_ok w"
  obtains out room where "w = wr_at out room"
proof
  show "w = wr_at (take (w_offs w) (w_buf w)) (drop (w_offs w) (w_buf w))"
    using assms by (cases w) (simp add: writer_ok_def wr_at_def min_def)
qed

lemma extend_wr_at:
  "writer_extend_from_slice bs (wr_at out room) =
    (if length room < length bs then (None, wr_at out room)
     else (Some (length bs), wr_at (out @ bs) (drop (length bs) room)))"
  by (auto simp: writer_extend_from_slice_def writer_left_def wr_at_def write_at_eq)

lemma push_wr_at:
  "writer_push b (wr_at out room) =
    (if room = [] then (None, wr_at out room) else (Some b, wr_at (out @ [b]) (tl room)))"
  by (cases room) (auto simp: writer_push_def writer_left_def wr_at_def list_update_append)

section \<open>Encoders\<close>

lemma emitsI:
  assumes "\<And>out room. length bs \<le> length room \<Longrightarrow>
      e (wr_at out room) = (Ok (length bs), wr_at (out @ bs) (drop (length bs) room))"
    and "\<And>out room. length room < length bs \<Longrightarrow>
      \<exists>err k. k \<le> length room \<and>
        e (wr_at out room) = (Err err, wr_at (out @ take k bs) (drop k room))"
  shows "emits e bs"
  using assms by (simp add: emits_def)

lemma emits_Ok:
  "emits e bs \<Longrightarrow> length bs \<le> length room \<Longrightarrow>
    e (wr_at out room) = (Ok (length bs), wr_at (out @ bs) (drop (length bs) room))"
  by (simp add: emits_def)

lemma emits_Err:
  assumes "emits e bs" and "length room < length bs"
  obtains err k where "k \<le> length room"
    "e (wr_at out room) = (Err err, wr_at (out @ take k bs) (drop k room))"
  using assms unfolding emits_def by blast

lemma emits_bytes [wire]: "emits (bytes_encode bs) bs"
  by (rule emitsI) (auto simp: bytes_encode_def extend_wr_at intro: exI [of _ 0])

lemma emits_push [wire]: "emits (push_encode b) [b]"
  by (rule emitsI) (auto simp: push_encode_def push_wr_at drop_Suc Suc_le_eq)

lemma emits_encs_Nil [wire]: "emits (encs []) []"
  by (rule emitsI) auto

lemma emits_encs_Cons:
  assumes e: "emits e bs" and es: "emits (encs es) cs"
  shows "emits (encs (e # es)) (bs @ cs)"
proof (rule emitsI)
  fix out room
  assume "length (bs @ cs) \<le> length (room :: bytes)"
  then show "encs (e # es) (wr_at out room) =
      (Ok (length (bs @ cs)), wr_at (out @ bs @ cs) (drop (length (bs @ cs)) room))"
    by (simp add: emits_Ok [OF e] emits_Ok [OF es] add.commute)
next
  fix out room
  assume *: "length (room :: bytes) < length (bs @ cs)"
  show "\<exists>err k. k \<le> length room \<and> encs (e # es) (wr_at out room) =
      (Err err, wr_at (out @ take k (bs @ cs)) (drop k room))"
  proof (cases "length room < length bs")
    case True
    then obtain err k where "k \<le> length room"
      "e (wr_at out room) = (Err err, wr_at (out @ take k bs) (drop k room))"
      by (rule emits_Err [OF e])
    with True show ?thesis by (intro exI [of _ err] exI [of _ k]) simp
  next
    case False
    with * have "length (drop (length bs) room) < length cs" by simp
    then obtain err k where "k \<le> length (drop (length bs) room)"
      "encs es (wr_at (out @ bs) (drop (length bs) room)) =
        (Err err, wr_at ((out @ bs) @ take k cs) (drop k (drop (length bs) room)))"
      by (rule emits_Err [OF es])
    with False show ?thesis
      by (intro exI [of _ err] exI [of _ "length bs + k"]) (simp add: emits_Ok [OF e] add.commute)
  qed
qed

lemma emits_encs:
  "list_all2 emits es bss \<Longrightarrow> emits (encs es) (concat bss)"
  by (induction rule: list_all2_induct)
    (auto simp del: encs.simps intro: emits_encs_Cons emits_encs_Nil)

lemma emits_map_err:
  assumes "emits e bs"
  shows "emits (enc_map_err f e) bs"
proof (rule emitsI)
  fix out room
  assume "length (room :: bytes) < length bs"
  then obtain err k where "k \<le> length room"
      "e (wr_at out room) = (Err err, wr_at (out @ take k bs) (drop k room))"
    by (rule emits_Err [OF assms])
  then show "\<exists>err k. k \<le> length room \<and>
      enc_map_err f e (wr_at out room) = (Err err, wr_at (out @ take k bs) (drop k room))"
    by (intro exI [of _ "f err"] exI [of _ k]) (simp add: enc_map_err_def)
qed (simp add: enc_map_err_def emits_Ok [OF assms])

lemma emits_encs2:
  "emits e bs \<Longrightarrow> emits f cs \<Longrightarrow> emits (encs [e, f]) (bs @ cs)"
  using emits_encs [of "[e, f]" "[bs, cs]"] by simp

lemma writer_ok_emits:
  assumes "emits e bs" and "writer_ok w"
  shows "writer_ok (snd (e w))" and "fst (e w) \<noteq> Panic"
    and "fst (e w) = Ok n \<longleftrightarrow> n = length bs \<and> length bs \<le> writer_left w"
    and "length (w_buf (snd (e w))) = length (w_buf w)"
proof -
  obtain out room where w: "w = wr_at out room"
    using assms(2) by (rule writer_ok_cases)
  consider "length bs \<le> length room" | err k where "k \<le> length room" "length room < length bs"
      "e (wr_at out room) = (Err err, wr_at (out @ take k bs) (drop k room))"
    using emits_Err [OF assms(1)] by (metis not_less)
  then have "writer_ok (snd (e w)) \<and> fst (e w) \<noteq> Panic \<and>
      (fst (e w) = Ok n \<longleftrightarrow> n = length bs \<and> length bs \<le> writer_left w) \<and>
      length (w_buf (snd (e w))) = length (w_buf w)"
    by cases (auto simp: w emits_Ok [OF assms(1)], auto simp: wr_at_def)
  then show "writer_ok (snd (e w))" "fst (e w) \<noteq> Panic"
      "fst (e w) = Ok n \<longleftrightarrow> n = length bs \<and> length bs \<le> writer_left w"
      "length (w_buf (snd (e w))) = length (w_buf w)"
    by simp_all
qed

section \<open>The contract of \<open>Codec\<close>\<close>

context codec
begin

lemma encode_Ok_iff:
  "valid x \<Longrightarrow> writer_ok w \<Longrightarrow>
    fst (encode x w) = Ok n \<longleftrightarrow> n = length (image x) \<and> n \<le> writer_left w"
  using writer_ok_emits(3) [OF encode_emits] by auto

lemma encode_appends:
  assumes "valid x" "writer_ok w" "encode x w = (Ok n, w')"
  shows "writer_used_slice w' = writer_used_slice w @ image x"
proof -
  obtain out room where w: "w = wr_at out room"
    using assms(2) by (rule writer_ok_cases)
  have "length (image x) \<le> length room"
    using encode_Ok_iff [OF assms(1,2), of n] assms(3) by (simp add: w)
  with assms show ?thesis
    by (auto simp: w emits_Ok [OF encode_emits])
qed

lemma round_trip:
  assumes "valid x" "writer_ok w" "encode x w = (Ok n, w')"
  shows "read (rd_at pre (drop (writer_used w) (writer_used_slice w') @ post)) =
    Some (x, rd_at (pre @ image x) post)"
proof -
  have "length (writer_used_slice w) = writer_used w"
    using assms(2) by (auto elim: writer_ok_cases)
  then have "drop (writer_used w) (writer_used_slice w') = image x"
    by (simp add: encode_appends [OF assms])
  then show ?thesis by (simp add: read_image assms(1))
qed

lemma prefix_free:
  assumes "valid x" "valid y" "image x @ s = image y @ t"
  shows "x = y \<and> s = t"
proof -
  have "Some (x, rd_at ([] @ image x) s) = Some (y, rd_at ([] @ image y) t)"
    using assms by (metis read_image)
  with assms(3) show ?thesis by auto
qed

end

section \<open>Integer codecs\<close>

lemma put_u16_le_bytes: "put_u16 v = le_bytes 2 v"
  by (simp add: put_u16_def le_bytes_Suc numeral_eq_Suc)

lemma put_u64_le_bytes: "put_u64 v = le_bytes 8 v"
  by (simp add: put_u64_def le_bytes_Suc numeral_eq_Suc)

lemma decode_u16_le: "decode_u16 [a, b] = from_le_bytes [a, b]"
  by (simp add: decode_u16_def)

lemma decode_u32_le: "decode_u32 [a, b, c, d] = from_le_bytes [a, b, c, d]"
  by (simp add: decode_u32_def push_bit_or or.assoc)

lemma decode_u64_le:
  "decode_u64 [a, b, c, d, e, f, g, h] = from_le_bytes [a, b, c, d, e, f, g, h]"
  by (simp add: decode_u64_def push_bit_or or.assoc)

lemma u24_decode_le: "u24_decode [a, b, c] = u24 (from_le_bytes [a, b, c])"
  by (simp add: u24_decode_def push_bit_or or.assoc)

lemma decode_u16_le_bytes [simp]: "decode_u16 (le_bytes 2 v) = v"
  using from_le_bytes_id [of 2 v]
  by (simp add: le_bytes_Suc numeral_eq_Suc decode_u16_le del: from_le_bytes.simps from_le_bytes_id)

lemma decode_u32_le_bytes [simp]: "decode_u32 (le_bytes 4 v) = v"
  using from_le_bytes_id [of 4 v]
  by (simp add: le_bytes_Suc numeral_eq_Suc decode_u32_le del: from_le_bytes.simps from_le_bytes_id)

lemma decode_u64_le_bytes [simp]: "decode_u64 (le_bytes 8 v) = v"
  using from_le_bytes_id [of 8 v]
  by (simp add: le_bytes_Suc numeral_eq_Suc decode_u64_le del: from_le_bytes.simps from_le_bytes_id)

lemma u24_decode_le_bytes [simp]:
  "drop_bit 24 (u24_get v) = 0 \<Longrightarrow> u24_decode (le_bytes 3 (u24_get v)) = v"
  using from_le_bytes_le_bytes [of 3 "u24_get v"] bits_ident [of 24 "u24_get v"]
  by (simp add: le_bytes_Suc numeral_eq_Suc u24_decode_le del: from_le_bytes.simps)

lemma emits_u8 [wire]: "emits (u8_encode v) [v]"
  by (simp add: u8_encode_def emits_push)

lemma emits_u16 [wire]: "emits (u16_encode v) (le_bytes 2 v)"
  by (simp add: u16_encode_def put_u16_le_bytes emits_bytes)

lemma emits_u24 [wire]: "emits (u24_encode v) (le_bytes 3 (u24_get v))"
  unfolding u24_encode_def
  by (rule emits_encs [where bss = "map (\<lambda>b. [b]) (le_bytes 3 (u24_get v))", simplified concat_map_singleton map_ident])
    (simp add: le_bytes_Suc numeral_eq_Suc emits_push)

lemma emits_u32 [wire]: "emits (u32_encode v) (le_bytes 4 v)"
  unfolding u32_encode_def
  by (rule emits_encs [where bss = "map (\<lambda>b. [b]) (le_bytes 4 v)", simplified concat_map_singleton map_ident])
    (simp add: le_bytes_Suc numeral_eq_Suc emits_push)

lemma emits_u64 [wire]: "emits (u64_encode v) (le_bytes 8 v)"
  by (simp add: u64_encode_def put_u64_le_bytes emits_bytes)

lemma emits_u128 [wire]: "emits (u128_encode v) (le_bytes 16 v)"
  by (simp add: u128_encode_def emits_bytes)

lemma u8_read_rd_at [simp]: "u8_read (rd_at pre (b # post)) = Some (b, rd_at (pre @ [b]) post)"
  by (simp add: u8_read_def reader_take_rd_at decode_u8_def)

lemma u16_read_rd_at [simp]:
  "u16_read (rd_at pre (le_bytes 2 v @ post)) = Some (v, rd_at (pre @ le_bytes 2 v) post)"
  by (simp add: u16_read_def)

lemma u24_read_rd_at [simp]:
  "drop_bit 24 (u24_get v) = 0 \<Longrightarrow>
    u24_read (rd_at pre (le_bytes 3 (u24_get v) @ post)) =
      Some (v, rd_at (pre @ le_bytes 3 (u24_get v)) post)"
  by (simp add: u24_read_def)

lemma u32_read_rd_at [simp]:
  "u32_read (rd_at pre (le_bytes 4 v @ post)) = Some (v, rd_at (pre @ le_bytes 4 v) post)"
  by (simp add: u32_read_def)

lemma u64_read_rd_at [simp]:
  "u64_read (rd_at pre (le_bytes 8 v @ post)) = Some (v, rd_at (pre @ le_bytes 8 v) post)"
  by (simp add: u64_read_def)

lemma u128_read_rd_at [simp]:
  "u128_read (rd_at pre (le_bytes 16 v @ post)) = Some (v, rd_at (pre @ le_bytes 16 v) post)"
  by (simp add: u128_read_def)

interpretation c_u8: codec u8_encode u8_read "\<lambda>v. [v]" "\<lambda>_. True"
  by unfold_locales (simp_all add: emits_u8)

interpretation c_u16: codec u16_encode u16_read "le_bytes 2" "\<lambda>_. True"
  by unfold_locales (simp_all add: emits_u16)

interpretation c_u24: codec u24_encode u24_read "\<lambda>v. le_bytes 3 (u24_get v)"
    "\<lambda>v. drop_bit 24 (u24_get v) = 0"
  by unfold_locales (simp_all add: emits_u24)

interpretation c_u32: codec u32_encode u32_read "le_bytes 4" "\<lambda>_. True"
  by unfold_locales (simp_all add: emits_u32)

interpretation c_u64: codec u64_encode u64_read "le_bytes 8" "\<lambda>_. True"
  by unfold_locales (simp_all add: emits_u64)

interpretation c_u128: codec u128_encode u128_read "le_bytes 16" "\<lambda>_. True"
  by unfold_locales (simp_all add: emits_u128)

section \<open>Enumerations and flag sets\<close>

lemma from_bits_subset [simp]:
  "x AND vmask = x \<Longrightarrow> vmask AND NOT all = 0 \<Longrightarrow> from_bits all x = Some x"
  for x :: "'a::len word"
  by (simp add: from_bits_def) (metis and.assoc and_zero_eq)

sublocale enum_u8 \<subseteq> enum_codec: codec "enum_u8_encode get" "enum_u8_read of_u8"
    "\<lambda>x. [get x]" "\<lambda>x. of_u8 (get x) = x"
  by unfold_locales (simp_all add: enum_u8_encode_def enum_u8_read_def emits_u8)

sublocale enum_u16 \<subseteq> enum_codec: codec "enum_u16_encode get" "enum_u16_read of_u16"
    "\<lambda>x. le_bytes 2 (get x)" "\<lambda>x. of_u16 (get x) = x"
  by unfold_locales (simp_all add: enum_u16_encode_def enum_u16_read_def emits_u16)

lemma flags_u8_read_rd_at [simp]:
  "x AND vmask = x \<Longrightarrow> vmask AND NOT all = 0 \<Longrightarrow>
    flags_u8_read all vmask (rd_at pre (x # post)) = Some (x, rd_at (pre @ [x]) post)"
  by (simp add: flags_u8_read_def)

lemma flags_u16_read_rd_at [simp]:
  "x AND vmask = x \<Longrightarrow> vmask AND NOT all = 0 \<Longrightarrow>
    flags_u16_read all vmask (rd_at pre (le_bytes 2 x @ post)) =
      Some (x, rd_at (pre @ le_bytes 2 x) post)"
  by (simp add: flags_u16_read_def)

lemma flags_u32_read_rd_at [simp]:
  "x AND vmask = x \<Longrightarrow> vmask AND NOT all = 0 \<Longrightarrow>
    flags_u32_read all vmask (rd_at pre (le_bytes 4 x @ post)) =
      Some (x, rd_at (pre @ le_bytes 4 x) post)"
  by (simp add: flags_u32_read_def)

end
