(* ===== verification/Status.thy ===== *)
theory Status
  imports Codec
begin

text \<open>
  The status type of the library, \<open>spdmlib/src/error.rs\<close>: severity, status codes grouped by
  source, their 32-bit encoding, and the named constants. \<open>SpdmResult\<close> is \<open>result\<close> with
  \<open>SpdmStatus\<close> as error.
\<close>

section \<open>Definitions\<close>

datatype StatusSeverity = Severity_SUCCESS | Severity_ERROR

datatype StatusCodeCore =
    Core_SUCCESS
  | INVALID_PARAMETER
  | UNSUPPORTED_CAP
  | INVALID_STATE_LOCAL
  | INVALID_STATE_PEER
  | INVALID_MSG_FIELD
  | INVALID_MSG_SIZE
  | NEGOTIATION_FAIL
  | BUSY_PEER
  | NOT_READY_PEER
  | ERROR_PEER
  | RESYNCH_PEER
  | BUFFER_FULL
  | BUFFER_TOO_SMALL
  | SESSION_NUMBER_EXCEED
  | SESSION_MSG_ERROR
  | ACQUIRE_FAIL
  | SESSION_TRY_DISCARD_KEY_UPDATE
  | DECODE_AEAD_FAIL

datatype StatusCodeCrypto =
    CRYPTO_ERROR
  | VERIF_FAIL
  | SEQUENCE_NUMBER_OVERFLOW
  | VERIF_NO_AUTHORITY

datatype StatusCodeCertParse =
    INVALID_CERT

datatype StatusCodeTransport =
    SEND_FAIL
  | RECEIVE_FAIL
  | DECAP_FAIL
  | DECAP_APP_FAIL
  | ENCAP_FAIL
  | ENCAP_APP_FAIL

datatype StatusCodeMeasCollect =
    MEAS_INVALID_INDEX
  | MEAS_INTERNAL_ERROR

datatype StatusCodeRNG =
    LOW_ENTROPY

datatype StatusCode =
    SUCCESS
  | CORE StatusCodeCore
  | CRYPTO StatusCodeCrypto
  | CERT_PARSE StatusCodeCertParse
  | TRANSPORT StatusCodeTransport
  | MEAS_COLLECT StatusCodeMeasCollect
  | RNG StatusCodeRNG

record SpdmStatus =
  severity :: StatusSeverity
  status_code :: StatusCode

type_synonym 'a SpdmResult = "('a, SpdmStatus) result"

text \<open>The casts \<open>as u8\<close> and \<open>as u16\<close>, and the \<open>TryFrom\<close> instances.\<close>

fun StatusSeverity_u8 :: "StatusSeverity \<Rightarrow> u8" where
  "StatusSeverity_u8 Severity_SUCCESS = 0"
| "StatusSeverity_u8 Severity_ERROR = 8"

definition StatusSeverity_try_from :: "u8 \<Rightarrow> StatusSeverity option" where
  "StatusSeverity_try_from v = map_of [(0, Severity_SUCCESS), (8, Severity_ERROR)] v"

fun StatusCodeCore_u16 :: "StatusCodeCore \<Rightarrow> u16" where
  "StatusCodeCore_u16 Core_SUCCESS = 0"
| "StatusCodeCore_u16 INVALID_PARAMETER = 1"
| "StatusCodeCore_u16 UNSUPPORTED_CAP = 2"
| "StatusCodeCore_u16 INVALID_STATE_LOCAL = 3"
| "StatusCodeCore_u16 INVALID_STATE_PEER = 4"
| "StatusCodeCore_u16 INVALID_MSG_FIELD = 5"
| "StatusCodeCore_u16 INVALID_MSG_SIZE = 6"
| "StatusCodeCore_u16 NEGOTIATION_FAIL = 7"
| "StatusCodeCore_u16 BUSY_PEER = 8"
| "StatusCodeCore_u16 NOT_READY_PEER = 9"
| "StatusCodeCore_u16 ERROR_PEER = 10"
| "StatusCodeCore_u16 RESYNCH_PEER = 11"
| "StatusCodeCore_u16 BUFFER_FULL = 12"
| "StatusCodeCore_u16 BUFFER_TOO_SMALL = 13"
| "StatusCodeCore_u16 SESSION_NUMBER_EXCEED = 14"
| "StatusCodeCore_u16 SESSION_MSG_ERROR = 15"
| "StatusCodeCore_u16 ACQUIRE_FAIL = 16"
| "StatusCodeCore_u16 SESSION_TRY_DISCARD_KEY_UPDATE = 17"
| "StatusCodeCore_u16 DECODE_AEAD_FAIL = 0xFE"

definition StatusCodeCore_try_from :: "u16 \<Rightarrow> StatusCodeCore option" where
  "StatusCodeCore_try_from v = map_of
    [(0, Core_SUCCESS),
     (1, INVALID_PARAMETER),
     (2, UNSUPPORTED_CAP),
     (3, INVALID_STATE_LOCAL),
     (4, INVALID_STATE_PEER),
     (5, INVALID_MSG_FIELD),
     (6, INVALID_MSG_SIZE),
     (7, NEGOTIATION_FAIL),
     (8, BUSY_PEER),
     (9, NOT_READY_PEER),
     (10, ERROR_PEER),
     (11, RESYNCH_PEER),
     (12, BUFFER_FULL),
     (13, BUFFER_TOO_SMALL),
     (14, SESSION_NUMBER_EXCEED),
     (15, SESSION_MSG_ERROR),
     (16, ACQUIRE_FAIL),
     (17, SESSION_TRY_DISCARD_KEY_UPDATE),
     (0xFE, DECODE_AEAD_FAIL)] v"

fun StatusCodeCrypto_u16 :: "StatusCodeCrypto \<Rightarrow> u16" where
  "StatusCodeCrypto_u16 CRYPTO_ERROR = 0"
| "StatusCodeCrypto_u16 VERIF_FAIL = 1"
| "StatusCodeCrypto_u16 SEQUENCE_NUMBER_OVERFLOW = 2"
| "StatusCodeCrypto_u16 VERIF_NO_AUTHORITY = 3"

definition StatusCodeCrypto_try_from :: "u16 \<Rightarrow> StatusCodeCrypto option" where
  "StatusCodeCrypto_try_from v = map_of
    [(0, CRYPTO_ERROR),
     (1, VERIF_FAIL),
     (2, SEQUENCE_NUMBER_OVERFLOW),
     (3, VERIF_NO_AUTHORITY)] v"

fun StatusCodeCertParse_u16 :: "StatusCodeCertParse \<Rightarrow> u16" where
  "StatusCodeCertParse_u16 INVALID_CERT = 0"

definition StatusCodeCertParse_try_from :: "u16 \<Rightarrow> StatusCodeCertParse option" where
  "StatusCodeCertParse_try_from v = map_of
    [(0, INVALID_CERT)] v"

fun StatusCodeTransport_u16 :: "StatusCodeTransport \<Rightarrow> u16" where
  "StatusCodeTransport_u16 SEND_FAIL = 0"
| "StatusCodeTransport_u16 RECEIVE_FAIL = 1"
| "StatusCodeTransport_u16 DECAP_FAIL = 0xFE"
| "StatusCodeTransport_u16 DECAP_APP_FAIL = 0xFD"
| "StatusCodeTransport_u16 ENCAP_FAIL = 0xFC"
| "StatusCodeTransport_u16 ENCAP_APP_FAIL = 0xFB"

definition StatusCodeTransport_try_from :: "u16 \<Rightarrow> StatusCodeTransport option" where
  "StatusCodeTransport_try_from v = map_of
    [(0, SEND_FAIL),
     (1, RECEIVE_FAIL),
     (0xFE, DECAP_FAIL),
     (0xFD, DECAP_APP_FAIL),
     (0xFC, ENCAP_FAIL),
     (0xFB, ENCAP_APP_FAIL)] v"

fun StatusCodeMeasCollect_u16 :: "StatusCodeMeasCollect \<Rightarrow> u16" where
  "StatusCodeMeasCollect_u16 MEAS_INVALID_INDEX = 0"
| "StatusCodeMeasCollect_u16 MEAS_INTERNAL_ERROR = 1"

definition StatusCodeMeasCollect_try_from :: "u16 \<Rightarrow> StatusCodeMeasCollect option" where
  "StatusCodeMeasCollect_try_from v = map_of
    [(0, MEAS_INVALID_INDEX),
     (1, MEAS_INTERNAL_ERROR)] v"

fun StatusCodeRNG_u16 :: "StatusCodeRNG \<Rightarrow> u16" where
  "StatusCodeRNG_u16 LOW_ENTROPY = 0"

definition StatusCodeRNG_try_from :: "u16 \<Rightarrow> StatusCodeRNG option" where
  "StatusCodeRNG_try_from v = map_of
    [(0, LOW_ENTROPY)] v"

definition StatusCode_try_from :: "u24 \<Rightarrow> StatusCode option" where
  "StatusCode_try_from v =
    (let source = ucast (drop_bit 16 (u24_get v AND 0xFF0000)) :: u8;
         code = ucast (u24_get v AND 0x00FFFF) :: u16
     in if source = 0 then Some SUCCESS
        else if source = 1 then map_option CORE (StatusCodeCore_try_from code)
        else if source = 2 then map_option CRYPTO (StatusCodeCrypto_try_from code)
        else if source = 3 then map_option CERT_PARSE (StatusCodeCertParse_try_from code)
        else if source = 4 then map_option TRANSPORT (StatusCodeTransport_try_from code)
        else if source = 5 then map_option MEAS_COLLECT (StatusCodeMeasCollect_try_from code)
        else if source = 6 then map_option RNG (StatusCodeRNG_try_from code)
        else None)"

fun StatusCode_try_into :: "StatusCode \<Rightarrow> (u24, unit) result" where
  "StatusCode_try_into SUCCESS = u24_new 0"
| "StatusCode_try_into (CORE c) = u24_new (push_bit 16 1 + ucast (StatusCodeCore_u16 c))"
| "StatusCode_try_into (CRYPTO c) = u24_new (push_bit 16 2 + ucast (StatusCodeCrypto_u16 c))"
| "StatusCode_try_into (CERT_PARSE c) = u24_new (push_bit 16 3 + ucast (StatusCodeCertParse_u16 c))"
| "StatusCode_try_into (TRANSPORT c) = u24_new (push_bit 16 4 + ucast (StatusCodeTransport_u16 c))"
| "StatusCode_try_into (MEAS_COLLECT c) = u24_new (push_bit 16 5 + ucast (StatusCodeMeasCollect_u16 c))"
| "StatusCode_try_into (RNG c) = u24_new (push_bit 16 6 + ucast (StatusCodeRNG_u16 c))"

definition SpdmStatus_encode :: "SpdmStatus \<Rightarrow> EncodeErr enc" where
  "SpdmStatus_encode s w =
    (case StatusCode_try_into (status_code s) of
      Ok c \<Rightarrow>
        u32_encode (push_bit 28 (ucast (StatusSeverity_u8 (severity s) AND 0x0F)) + u24_get c) w
    | Err _ \<Rightarrow> (Panic, w)
    | Panic \<Rightarrow> (Panic, w))"

definition SpdmStatus_read :: "SpdmStatus rd" where
  "SpdmStatus_read r = do {
     (sc, r) \<leftarrow> u32_read r;
     sev \<leftarrow> StatusSeverity_try_from (ucast (drop_bit 28 (sc AND 0xF0000000)));
     (if sc AND 0x0F000000 \<noteq> 0 then None
      else do {
        c \<leftarrow> StatusCode_try_from (u24 (sc AND 0x00FFFFFF));
        Some (\<lparr>severity = sev, status_code = c\<rparr>, r)
      })
   }"

definition SpdmStatus_get_u32 :: "SpdmStatus \<Rightarrow> u32" where
  "SpdmStatus_get_u32 s =
    from_le_bytes (w_buf (snd (SpdmStatus_encode s (writer_init (replicate 4 0)))))"

definition SpdmStatus_from_u32 :: "u32 \<Rightarrow> SpdmStatus option" where
  "SpdmStatus_from_u32 v = read_bytes SpdmStatus_read (le_bytes 4 v)"

definition spdm_status_is_success :: "SpdmStatus \<Rightarrow> bool" where
  "spdm_status_is_success s \<longleftrightarrow> severity s = Severity_SUCCESS"

definition spdm_status_is_error :: "SpdmStatus \<Rightarrow> bool" where
  "spdm_status_is_error s \<longleftrightarrow> severity s = Severity_ERROR"

subsection \<open>Constants\<close>

definition SPDM_STATUS_SUCCESS :: SpdmStatus where
  "SPDM_STATUS_SUCCESS = \<lparr>severity = Severity_SUCCESS, status_code = SUCCESS\<rparr>"

definition SPDM_STATUS_INVALID_PARAMETER :: SpdmStatus where
  "SPDM_STATUS_INVALID_PARAMETER = \<lparr>severity = Severity_ERROR, status_code = CORE INVALID_STATE_LOCAL\<rparr>"

definition SPDM_STATUS_UNSUPPORTED_CAP :: SpdmStatus where
  "SPDM_STATUS_UNSUPPORTED_CAP = \<lparr>severity = Severity_ERROR, status_code = CORE UNSUPPORTED_CAP\<rparr>"

definition SPDM_STATUS_INVALID_STATE_LOCAL :: SpdmStatus where
  "SPDM_STATUS_INVALID_STATE_LOCAL = \<lparr>severity = Severity_ERROR, status_code = CORE INVALID_STATE_LOCAL\<rparr>"

definition SPDM_STATUS_INVALID_STATE_PEER :: SpdmStatus where
  "SPDM_STATUS_INVALID_STATE_PEER = \<lparr>severity = Severity_ERROR, status_code = CORE INVALID_STATE_PEER\<rparr>"

definition SPDM_STATUS_INVALID_MSG_FIELD :: SpdmStatus where
  "SPDM_STATUS_INVALID_MSG_FIELD = \<lparr>severity = Severity_ERROR, status_code = CORE INVALID_MSG_FIELD\<rparr>"

definition SPDM_STATUS_INVALID_MSG_SIZE :: SpdmStatus where
  "SPDM_STATUS_INVALID_MSG_SIZE = \<lparr>severity = Severity_ERROR, status_code = CORE INVALID_MSG_SIZE\<rparr>"

definition SPDM_STATUS_NEGOTIATION_FAIL :: SpdmStatus where
  "SPDM_STATUS_NEGOTIATION_FAIL = \<lparr>severity = Severity_ERROR, status_code = CORE NEGOTIATION_FAIL\<rparr>"

definition SPDM_STATUS_BUSY_PEER :: SpdmStatus where
  "SPDM_STATUS_BUSY_PEER = \<lparr>severity = Severity_ERROR, status_code = CORE BUSY_PEER\<rparr>"

definition SPDM_STATUS_NOT_READY_PEER :: SpdmStatus where
  "SPDM_STATUS_NOT_READY_PEER = \<lparr>severity = Severity_ERROR, status_code = CORE NOT_READY_PEER\<rparr>"

definition SPDM_STATUS_ERROR_PEER :: SpdmStatus where
  "SPDM_STATUS_ERROR_PEER = \<lparr>severity = Severity_ERROR, status_code = CORE ERROR_PEER\<rparr>"

definition SPDM_STATUS_RESYNCH_PEER :: SpdmStatus where
  "SPDM_STATUS_RESYNCH_PEER = \<lparr>severity = Severity_ERROR, status_code = CORE RESYNCH_PEER\<rparr>"

definition SPDM_STATUS_BUFFER_FULL :: SpdmStatus where
  "SPDM_STATUS_BUFFER_FULL = \<lparr>severity = Severity_ERROR, status_code = CORE BUFFER_FULL\<rparr>"

definition SPDM_STATUS_BUFFER_TOO_SMALL :: SpdmStatus where
  "SPDM_STATUS_BUFFER_TOO_SMALL = \<lparr>severity = Severity_ERROR, status_code = CORE BUFFER_TOO_SMALL\<rparr>"

definition SPDM_STATUS_SESSION_NUMBER_EXCEED :: SpdmStatus where
  "SPDM_STATUS_SESSION_NUMBER_EXCEED = \<lparr>severity = Severity_ERROR, status_code = CORE SESSION_NUMBER_EXCEED\<rparr>"

definition SPDM_STATUS_SESSION_MSG_ERROR :: SpdmStatus where
  "SPDM_STATUS_SESSION_MSG_ERROR = \<lparr>severity = Severity_ERROR, status_code = CORE SESSION_MSG_ERROR\<rparr>"

definition SPDM_STATUS_ACQUIRE_FAIL :: SpdmStatus where
  "SPDM_STATUS_ACQUIRE_FAIL = \<lparr>severity = Severity_ERROR, status_code = CORE ACQUIRE_FAIL\<rparr>"

definition SPDM_STATUS_SESSION_TRY_DISCARD_KEY_UPDATE :: SpdmStatus where
  "SPDM_STATUS_SESSION_TRY_DISCARD_KEY_UPDATE = \<lparr>severity = Severity_ERROR, status_code = CORE SESSION_TRY_DISCARD_KEY_UPDATE\<rparr>"

definition SPDM_STATUS_DECODE_AEAD_FAIL :: SpdmStatus where
  "SPDM_STATUS_DECODE_AEAD_FAIL = \<lparr>severity = Severity_ERROR, status_code = CORE DECODE_AEAD_FAIL\<rparr>"

definition SPDM_STATUS_CRYPTO_ERROR :: SpdmStatus where
  "SPDM_STATUS_CRYPTO_ERROR = \<lparr>severity = Severity_ERROR, status_code = CRYPTO CRYPTO_ERROR\<rparr>"

definition SPDM_STATUS_VERIF_FAIL :: SpdmStatus where
  "SPDM_STATUS_VERIF_FAIL = \<lparr>severity = Severity_ERROR, status_code = CRYPTO VERIF_FAIL\<rparr>"

definition SPDM_STATUS_SEQUENCE_NUMBER_OVERFLOW :: SpdmStatus where
  "SPDM_STATUS_SEQUENCE_NUMBER_OVERFLOW = \<lparr>severity = Severity_ERROR, status_code = CRYPTO SEQUENCE_NUMBER_OVERFLOW\<rparr>"

definition SPDM_STATUS_VERIF_NO_AUTHORITY :: SpdmStatus where
  "SPDM_STATUS_VERIF_NO_AUTHORITY = \<lparr>severity = Severity_ERROR, status_code = CRYPTO VERIF_NO_AUTHORITY\<rparr>"

definition SPDM_STATUS_INVALID_CERT :: SpdmStatus where
  "SPDM_STATUS_INVALID_CERT = \<lparr>severity = Severity_ERROR, status_code = CERT_PARSE INVALID_CERT\<rparr>"

definition SPDM_STATUS_SEND_FAIL :: SpdmStatus where
  "SPDM_STATUS_SEND_FAIL = \<lparr>severity = Severity_ERROR, status_code = TRANSPORT SEND_FAIL\<rparr>"

definition SPDM_STATUS_RECEIVE_FAIL :: SpdmStatus where
  "SPDM_STATUS_RECEIVE_FAIL = \<lparr>severity = Severity_ERROR, status_code = TRANSPORT RECEIVE_FAIL\<rparr>"

definition SPDM_STATUS_DECAP_FAIL :: SpdmStatus where
  "SPDM_STATUS_DECAP_FAIL = \<lparr>severity = Severity_ERROR, status_code = TRANSPORT DECAP_FAIL\<rparr>"

definition SPDM_STATUS_DECAP_APP_FAIL :: SpdmStatus where
  "SPDM_STATUS_DECAP_APP_FAIL = \<lparr>severity = Severity_ERROR, status_code = TRANSPORT DECAP_APP_FAIL\<rparr>"

definition SPDM_STATUS_ENCAP_FAIL :: SpdmStatus where
  "SPDM_STATUS_ENCAP_FAIL = \<lparr>severity = Severity_ERROR, status_code = TRANSPORT ENCAP_FAIL\<rparr>"

definition SPDM_STATUS_ENCAP_APP_FAIL :: SpdmStatus where
  "SPDM_STATUS_ENCAP_APP_FAIL = \<lparr>severity = Severity_ERROR, status_code = TRANSPORT ENCAP_APP_FAIL\<rparr>"

definition SPDM_STATUS_MEAS_INVALID_INDEX :: SpdmStatus where
  "SPDM_STATUS_MEAS_INVALID_INDEX = \<lparr>severity = Severity_ERROR, status_code = MEAS_COLLECT MEAS_INVALID_INDEX\<rparr>"

definition SPDM_STATUS_MEAS_INTERNAL_ERROR :: SpdmStatus where
  "SPDM_STATUS_MEAS_INTERNAL_ERROR = \<lparr>severity = Severity_ERROR, status_code = MEAS_COLLECT MEAS_INTERNAL_ERROR\<rparr>"

definition SPDM_STATUS_LOW_ENTROPY :: SpdmStatus where
  "SPDM_STATUS_LOW_ENTROPY = \<lparr>severity = Severity_ERROR, status_code = RNG LOW_ENTROPY\<rparr>"

text \<open>The operator \<open>?\<close> on a status: \<open>None\<close> continues, \<open>Some s\<close> returns \<open>s\<close>.\<close>

definition SpdmStatus_branch :: "SpdmStatus \<Rightarrow> SpdmStatus option" where
  "SpdmStatus_branch s = (if s = SPDM_STATUS_SUCCESS then None else Some s)"

section \<open>The 32-bit encoding\<close>

lemmas status_codes_u16 =
  StatusCodeCore_try_from_def StatusCodeCrypto_try_from_def StatusCodeCertParse_try_from_def
  StatusCodeTransport_try_from_def StatusCodeMeasCollect_try_from_def StatusCodeRNG_try_from_def

definition status_word :: "SpdmStatus \<Rightarrow> u32" where
  "status_word s =
    (case StatusCode_try_into (status_code s) of
      Ok c \<Rightarrow> push_bit 28 (ucast (StatusSeverity_u8 (severity s) AND 0x0F)) + u24_get c
    | _ \<Rightarrow> 0)"

definition status_parse :: "u32 \<Rightarrow> SpdmStatus option" where
  "status_parse sc = do {
     sev \<leftarrow> StatusSeverity_try_from (ucast (drop_bit 28 (sc AND 0xF0000000)));
     (if sc AND 0x0F000000 \<noteq> 0 then None
      else do {
        c \<leftarrow> StatusCode_try_from (u24 (sc AND 0x00FFFFFF));
        Some \<lparr>severity = sev, status_code = c\<rparr>
      })
   }"

lemma StatusCode_try_into_Ok: "\<exists>c. StatusCode_try_into sc = Ok c"
proof (cases sc)
  case (CORE c) then show ?thesis by (cases c) (simp_all add: u24_new_def)
next
  case (CRYPTO c) then show ?thesis by (cases c) (simp_all add: u24_new_def)
next
  case (CERT_PARSE c) then show ?thesis by (cases c) (simp_all add: u24_new_def)
next
  case (TRANSPORT c) then show ?thesis by (cases c) (simp_all add: u24_new_def)
next
  case (MEAS_COLLECT c) then show ?thesis by (cases c) (simp_all add: u24_new_def)
next
  case (RNG c) then show ?thesis by (cases c) (simp_all add: u24_new_def)
qed (simp add: u24_new_def)

lemma SpdmStatus_encode_word: "SpdmStatus_encode s = u32_encode (status_word s)"
  using StatusCode_try_into_Ok [of "status_code s"]
  by (auto simp: fun_eq_iff SpdmStatus_encode_def status_word_def)

lemma SpdmStatus_read_parse:
  "SpdmStatus_read (rd_at pre (le_bytes 4 v @ post)) =
    map_option (\<lambda>s. (s, rd_at (pre @ le_bytes 4 v) post)) (status_parse v)"
  by (simp add: SpdmStatus_read_def status_parse_def split: Option.bind_split)

lemmas status_eval =
  status_parse_def status_word_def StatusSeverity_try_from_def u24_new_def
  StatusCode_try_from_def status_codes_u16 Let_def

lemma status_parse_word: "status_parse (status_word s) = Some s"
proof (cases s)
  case (fields sev sc)
  show ?thesis
  proof (cases sc)
    case SUCCESS
    with fields show ?thesis by (cases sev) (simp_all add: status_eval)
  next
    case (CORE c)
    with fields show ?thesis by (cases sev; cases c) (simp_all add: status_eval)
  next
    case (CRYPTO c)
    with fields show ?thesis by (cases sev; cases c) (simp_all add: status_eval)
  next
    case (CERT_PARSE c)
    with fields show ?thesis by (cases sev; cases c) (simp_all add: status_eval)
  next
    case (TRANSPORT c)
    with fields show ?thesis by (cases sev; cases c) (simp_all add: status_eval)
  next
    case (MEAS_COLLECT c)
    with fields show ?thesis by (cases sev; cases c) (simp_all add: status_eval)
  next
    case (RNG c)
    with fields show ?thesis by (cases sev; cases c) (simp_all add: status_eval)
  qed
qed

lemma SpdmStatus_get_u32_word: "SpdmStatus_get_u32 s = status_word s"
  by (simp add: SpdmStatus_get_u32_def SpdmStatus_encode_word writer_init_wr_at
      emits_Ok [OF emits_u32], simp add: wr_at_def)

lemma SpdmStatus_from_u32_parse: "SpdmStatus_from_u32 v = status_parse v"
  using SpdmStatus_read_parse [of "[]" v "[]"]
  by (simp add: SpdmStatus_from_u32_def read_bytes_def reader_init_rd_at option.map_comp
      option.map_ident comp_def)

interpretation c_status: codec SpdmStatus_encode SpdmStatus_read
    "\<lambda>s. le_bytes 4 (status_word s)" "\<lambda>_. True"
  by unfold_locales (simp_all add: SpdmStatus_encode_word emits_u32 SpdmStatus_read_parse
      status_parse_word)

text \<open>
  Every status survives the 32-bit encoding: \<open>from_u32\<close> of \<open>get_u32\<close> gives back the same
  severity and code, for all severities and all codes of every source.
\<close>

theorem status_u32_round_trip: "SpdmStatus_from_u32 (SpdmStatus_get_u32 s) = Some s"
  by (simp add: SpdmStatus_from_u32_parse SpdmStatus_get_u32_word status_parse_word)

end
