(* ===== verification/Algo.thy ===== *)
theory Algo
  imports Status
begin

text \<open>
  The negotiable algorithms, first part of \<open>spdmlib/src/protocol/algo.rs\<close>: eight flag sets with
  their wire codecs, the selection \<open>prioritize\<close>, the validity checks and the digest, key and tag
  sizes; then the algorithm structure table \<open>SpdmAlgStruct\<close> of NEGOTIATE\_ALGORITHMS.

  A flag set is the word of its bits. \<open>T_VALID_MASK\<close> is the mask the reader applies, \<open>T_all\<close> the
  union of the declared constants, which \<open>from_bits\<close> checks. The locale \<open>prio_flags\<close> states what
  a priority table must be (single bits, no repetition) and derives what a selection is.
\<close>

section \<open>Definitions\<close>

subsection \<open>Sizes\<close>

abbreviation (input) SHA256_DIGEST_SIZE :: u16 where
  "SHA256_DIGEST_SIZE \<equiv> 32"

abbreviation (input) SHA384_DIGEST_SIZE :: u16 where
  "SHA384_DIGEST_SIZE \<equiv> 48"

abbreviation (input) SHA512_DIGEST_SIZE :: u16 where
  "SHA512_DIGEST_SIZE \<equiv> 64"

abbreviation (input) RSASSA_2048_KEY_SIZE :: u16 where
  "RSASSA_2048_KEY_SIZE \<equiv> 256"

abbreviation (input) RSASSA_3072_KEY_SIZE :: u16 where
  "RSASSA_3072_KEY_SIZE \<equiv> 384"

abbreviation (input) RSASSA_4096_KEY_SIZE :: u16 where
  "RSASSA_4096_KEY_SIZE \<equiv> 512"

abbreviation (input) RSAPSS_2048_KEY_SIZE :: u16 where
  "RSAPSS_2048_KEY_SIZE \<equiv> 256"

abbreviation (input) RSAPSS_3072_KEY_SIZE :: u16 where
  "RSAPSS_3072_KEY_SIZE \<equiv> 384"

abbreviation (input) RSAPSS_4096_KEY_SIZE :: u16 where
  "RSAPSS_4096_KEY_SIZE \<equiv> 512"

abbreviation (input) ECDSA_ECC_NIST_P256_KEY_SIZE :: u16 where
  "ECDSA_ECC_NIST_P256_KEY_SIZE \<equiv> 64"

abbreviation (input) ECDSA_ECC_NIST_P384_KEY_SIZE :: u16 where
  "ECDSA_ECC_NIST_P384_KEY_SIZE \<equiv> 96"

abbreviation (input) SECP_256_R1_KEY_SIZE :: u16 where
  "SECP_256_R1_KEY_SIZE \<equiv> 64"

abbreviation (input) SECP_384_R1_KEY_SIZE :: u16 where
  "SECP_384_R1_KEY_SIZE \<equiv> 96"

abbreviation (input) AEAD_AES_128_GCM_KEY_SIZE :: u16 where
  "AEAD_AES_128_GCM_KEY_SIZE \<equiv> 16"

abbreviation (input) AEAD_AES_256_GCM_KEY_SIZE :: u16 where
  "AEAD_AES_256_GCM_KEY_SIZE \<equiv> 32"

abbreviation (input) AEAD_CHACHA20_POLY1305_KEY_SIZE :: u16 where
  "AEAD_CHACHA20_POLY1305_KEY_SIZE \<equiv> 32"

abbreviation (input) AEAD_AES_128_GCM_IV_SIZE :: u16 where
  "AEAD_AES_128_GCM_IV_SIZE \<equiv> 12"

abbreviation (input) AEAD_AES_256_GCM_IV_SIZE :: u16 where
  "AEAD_AES_256_GCM_IV_SIZE \<equiv> 12"

abbreviation (input) AEAD_CHACHA20_POLY1305_IV_SIZE :: u16 where
  "AEAD_CHACHA20_POLY1305_IV_SIZE \<equiv> 12"

abbreviation (input) AEAD_AES_128_GCM_TAG_SIZE :: u16 where
  "AEAD_AES_128_GCM_TAG_SIZE \<equiv> 16"

abbreviation (input) AEAD_AES_256_GCM_TAG_SIZE :: u16 where
  "AEAD_AES_256_GCM_TAG_SIZE \<equiv> 16"

abbreviation (input) AEAD_CHACHA20_POLY1305_TAG_SIZE :: u16 where
  "AEAD_CHACHA20_POLY1305_TAG_SIZE \<equiv> 16"

abbreviation (input) SPDM_NONCE_SIZE :: nat where
  "SPDM_NONCE_SIZE \<equiv> 32"

abbreviation (input) SPDM_RANDOM_SIZE :: nat where
  "SPDM_RANDOM_SIZE \<equiv> 32"

abbreviation (input) SPDM_MAX_HASH_SIZE :: nat where
  "SPDM_MAX_HASH_SIZE \<equiv> 64"

abbreviation (input) SPDM_MAX_ASYM_KEY_SIZE :: nat where
  "SPDM_MAX_ASYM_KEY_SIZE \<equiv> 512"

abbreviation (input) SPDM_MAX_DHE_KEY_SIZE :: nat where
  "SPDM_MAX_DHE_KEY_SIZE \<equiv> 96"

abbreviation (input) SPDM_MAX_AEAD_KEY_SIZE :: nat where
  "SPDM_MAX_AEAD_KEY_SIZE \<equiv> 32"

abbreviation (input) SPDM_MAX_AEAD_IV_SIZE :: nat where
  "SPDM_MAX_AEAD_IV_SIZE \<equiv> 12"

abbreviation (input) SPDM_MAX_HKDF_OKM_SIZE :: nat where
  "SPDM_MAX_HKDF_OKM_SIZE \<equiv> 64"

subsection \<open>Operations shared by the flag sets\<close>

fun first_common :: "'a::len word list \<Rightarrow> 'a word \<Rightarrow> 'a word" where
  "first_common [] self = 0"
| "first_common (v # vs) self = (if self AND v \<noteq> 0 then v else first_common vs self)"

definition prioritize :: "'a::len word list \<Rightarrow> 'a word \<Rightarrow> 'a word \<Rightarrow> 'a word" where
  "prioritize prio_table self peer = first_common prio_table (self AND peer)"

definition is_no_more_than_one_selected :: "'a::len word \<Rightarrow> bool" where
  "is_no_more_than_one_selected b \<longleftrightarrow> b = 0 \<or> b AND (b - 1) = 0"

definition is_valid :: "'a::len word \<Rightarrow> 'a word \<Rightarrow> bool" where
  "is_valid vmask b \<longleftrightarrow> b AND vmask \<noteq> 0"

subsection \<open>SpdmMeasurementSpecification\<close>

type_synonym SpdmMeasurementSpecification = u8

abbreviation (input) SpdmMeasurementSpecification_DMTF :: SpdmMeasurementSpecification where
  "SpdmMeasurementSpecification_DMTF \<equiv> 1"

definition SpdmMeasurementSpecification_VALID_MASK :: SpdmMeasurementSpecification where
  "SpdmMeasurementSpecification_VALID_MASK =
    SpdmMeasurementSpecification_DMTF"

definition SpdmMeasurementSpecification_all :: SpdmMeasurementSpecification where
  "SpdmMeasurementSpecification_all =
    SpdmMeasurementSpecification_DMTF
    OR SpdmMeasurementSpecification_VALID_MASK"

definition SpdmMeasurementSpecification_encode :: "SpdmMeasurementSpecification \<Rightarrow> EncodeErr enc" where
  "SpdmMeasurementSpecification_encode = u8_encode"

definition SpdmMeasurementSpecification_read :: "SpdmMeasurementSpecification rd" where
  "SpdmMeasurementSpecification_read = flags_u8_read SpdmMeasurementSpecification_all SpdmMeasurementSpecification_VALID_MASK"

definition SpdmMeasurementSpecification_prio_table :: "SpdmMeasurementSpecification list" where
  "SpdmMeasurementSpecification_prio_table =
    [SpdmMeasurementSpecification_DMTF]"

definition SpdmMeasurementSpecification_prioritize :: "SpdmMeasurementSpecification \<Rightarrow> SpdmMeasurementSpecification \<Rightarrow> SpdmMeasurementSpecification" where
  "SpdmMeasurementSpecification_prioritize self peer = prioritize SpdmMeasurementSpecification_prio_table self peer"

definition SpdmMeasurementSpecification_is_valid :: "SpdmMeasurementSpecification \<Rightarrow> bool" where
  "SpdmMeasurementSpecification_is_valid self = is_valid SpdmMeasurementSpecification_VALID_MASK self"

definition SpdmMeasurementSpecification_is_valid_one_select :: "SpdmMeasurementSpecification \<Rightarrow> bool" where
  "SpdmMeasurementSpecification_is_valid_one_select self \<longleftrightarrow> is_no_more_than_one_selected self \<and> SpdmMeasurementSpecification_is_valid self"

subsection \<open>SpdmMeasurementHashAlgo\<close>

type_synonym SpdmMeasurementHashAlgo = u32

abbreviation (input) SpdmMeasurementHashAlgo_RAW_BIT_STREAM :: SpdmMeasurementHashAlgo where
  "SpdmMeasurementHashAlgo_RAW_BIT_STREAM \<equiv> 1"

abbreviation (input) SpdmMeasurementHashAlgo_TPM_ALG_SHA_256 :: SpdmMeasurementHashAlgo where
  "SpdmMeasurementHashAlgo_TPM_ALG_SHA_256 \<equiv> 2"

abbreviation (input) SpdmMeasurementHashAlgo_TPM_ALG_SHA_384 :: SpdmMeasurementHashAlgo where
  "SpdmMeasurementHashAlgo_TPM_ALG_SHA_384 \<equiv> 4"

abbreviation (input) SpdmMeasurementHashAlgo_TPM_ALG_SHA_512 :: SpdmMeasurementHashAlgo where
  "SpdmMeasurementHashAlgo_TPM_ALG_SHA_512 \<equiv> 8"

abbreviation (input) SpdmMeasurementHashAlgo_TPM_ALG_SHA3_256 :: SpdmMeasurementHashAlgo where
  "SpdmMeasurementHashAlgo_TPM_ALG_SHA3_256 \<equiv> 16"

abbreviation (input) SpdmMeasurementHashAlgo_TPM_ALG_SHA3_384 :: SpdmMeasurementHashAlgo where
  "SpdmMeasurementHashAlgo_TPM_ALG_SHA3_384 \<equiv> 32"

abbreviation (input) SpdmMeasurementHashAlgo_TPM_ALG_SHA3_512 :: SpdmMeasurementHashAlgo where
  "SpdmMeasurementHashAlgo_TPM_ALG_SHA3_512 \<equiv> 64"

abbreviation (input) SpdmMeasurementHashAlgo_TPM_ALG_SM3 :: SpdmMeasurementHashAlgo where
  "SpdmMeasurementHashAlgo_TPM_ALG_SM3 \<equiv> 128"

definition SpdmMeasurementHashAlgo_VALID_MASK :: SpdmMeasurementHashAlgo where
  "SpdmMeasurementHashAlgo_VALID_MASK =
    SpdmMeasurementHashAlgo_RAW_BIT_STREAM
    OR SpdmMeasurementHashAlgo_TPM_ALG_SHA_256
    OR SpdmMeasurementHashAlgo_TPM_ALG_SHA_384
    OR SpdmMeasurementHashAlgo_TPM_ALG_SHA_512
    OR SpdmMeasurementHashAlgo_TPM_ALG_SHA3_256
    OR SpdmMeasurementHashAlgo_TPM_ALG_SHA3_256
    OR SpdmMeasurementHashAlgo_TPM_ALG_SHA3_256
    OR SpdmMeasurementHashAlgo_TPM_ALG_SM3"

definition SpdmMeasurementHashAlgo_all :: SpdmMeasurementHashAlgo where
  "SpdmMeasurementHashAlgo_all =
    SpdmMeasurementHashAlgo_RAW_BIT_STREAM
    OR SpdmMeasurementHashAlgo_TPM_ALG_SHA_256
    OR SpdmMeasurementHashAlgo_TPM_ALG_SHA_384
    OR SpdmMeasurementHashAlgo_TPM_ALG_SHA_512
    OR SpdmMeasurementHashAlgo_TPM_ALG_SHA3_256
    OR SpdmMeasurementHashAlgo_TPM_ALG_SHA3_384
    OR SpdmMeasurementHashAlgo_TPM_ALG_SHA3_512
    OR SpdmMeasurementHashAlgo_TPM_ALG_SM3
    OR SpdmMeasurementHashAlgo_VALID_MASK"

definition SpdmMeasurementHashAlgo_encode :: "SpdmMeasurementHashAlgo \<Rightarrow> EncodeErr enc" where
  "SpdmMeasurementHashAlgo_encode = u32_encode"

definition SpdmMeasurementHashAlgo_read :: "SpdmMeasurementHashAlgo rd" where
  "SpdmMeasurementHashAlgo_read = flags_u32_read SpdmMeasurementHashAlgo_all SpdmMeasurementHashAlgo_VALID_MASK"

definition SpdmMeasurementHashAlgo_get_size :: "SpdmMeasurementHashAlgo \<Rightarrow> u16 SpdmResult" where
  "SpdmMeasurementHashAlgo_get_size self = unwrap (map_of
    [(SpdmMeasurementHashAlgo_RAW_BIT_STREAM, 0),
     (SpdmMeasurementHashAlgo_TPM_ALG_SHA_256, SHA256_DIGEST_SIZE),
     (SpdmMeasurementHashAlgo_TPM_ALG_SHA_384, SHA384_DIGEST_SIZE),
     (SpdmMeasurementHashAlgo_TPM_ALG_SHA_512, SHA512_DIGEST_SIZE),
     (SpdmMeasurementHashAlgo_TPM_ALG_SHA3_256, 32),
     (SpdmMeasurementHashAlgo_TPM_ALG_SHA3_384, 48),
     (SpdmMeasurementHashAlgo_TPM_ALG_SHA3_512, 64),
     (SpdmMeasurementHashAlgo_TPM_ALG_SM3, 32)] self)"

definition SpdmMeasurementHashAlgo_is_valid :: "SpdmMeasurementHashAlgo \<Rightarrow> bool" where
  "SpdmMeasurementHashAlgo_is_valid self = is_valid SpdmMeasurementHashAlgo_VALID_MASK self"

definition SpdmMeasurementHashAlgo_is_valid_one_select :: "SpdmMeasurementHashAlgo \<Rightarrow> bool" where
  "SpdmMeasurementHashAlgo_is_valid_one_select self \<longleftrightarrow> is_no_more_than_one_selected self \<and> SpdmMeasurementHashAlgo_is_valid self"

subsection \<open>SpdmBaseAsymAlgo\<close>

type_synonym SpdmBaseAsymAlgo = u32

abbreviation (input) SpdmBaseAsymAlgo_TPM_ALG_RSASSA_2048 :: SpdmBaseAsymAlgo where
  "SpdmBaseAsymAlgo_TPM_ALG_RSASSA_2048 \<equiv> 1"

abbreviation (input) SpdmBaseAsymAlgo_TPM_ALG_RSAPSS_2048 :: SpdmBaseAsymAlgo where
  "SpdmBaseAsymAlgo_TPM_ALG_RSAPSS_2048 \<equiv> 2"

abbreviation (input) SpdmBaseAsymAlgo_TPM_ALG_RSASSA_3072 :: SpdmBaseAsymAlgo where
  "SpdmBaseAsymAlgo_TPM_ALG_RSASSA_3072 \<equiv> 4"

abbreviation (input) SpdmBaseAsymAlgo_TPM_ALG_RSAPSS_3072 :: SpdmBaseAsymAlgo where
  "SpdmBaseAsymAlgo_TPM_ALG_RSAPSS_3072 \<equiv> 8"

abbreviation (input) SpdmBaseAsymAlgo_TPM_ALG_ECDSA_ECC_NIST_P256 :: SpdmBaseAsymAlgo where
  "SpdmBaseAsymAlgo_TPM_ALG_ECDSA_ECC_NIST_P256 \<equiv> 16"

abbreviation (input) SpdmBaseAsymAlgo_TPM_ALG_RSASSA_4096 :: SpdmBaseAsymAlgo where
  "SpdmBaseAsymAlgo_TPM_ALG_RSASSA_4096 \<equiv> 32"

abbreviation (input) SpdmBaseAsymAlgo_TPM_ALG_RSAPSS_4096 :: SpdmBaseAsymAlgo where
  "SpdmBaseAsymAlgo_TPM_ALG_RSAPSS_4096 \<equiv> 64"

abbreviation (input) SpdmBaseAsymAlgo_TPM_ALG_ECDSA_ECC_NIST_P384 :: SpdmBaseAsymAlgo where
  "SpdmBaseAsymAlgo_TPM_ALG_ECDSA_ECC_NIST_P384 \<equiv> 128"

definition SpdmBaseAsymAlgo_VALID_MASK :: SpdmBaseAsymAlgo where
  "SpdmBaseAsymAlgo_VALID_MASK =
    SpdmBaseAsymAlgo_TPM_ALG_RSASSA_2048
    OR SpdmBaseAsymAlgo_TPM_ALG_RSAPSS_2048
    OR SpdmBaseAsymAlgo_TPM_ALG_RSASSA_3072
    OR SpdmBaseAsymAlgo_TPM_ALG_RSAPSS_3072
    OR SpdmBaseAsymAlgo_TPM_ALG_ECDSA_ECC_NIST_P256
    OR SpdmBaseAsymAlgo_TPM_ALG_RSASSA_4096
    OR SpdmBaseAsymAlgo_TPM_ALG_RSAPSS_4096
    OR SpdmBaseAsymAlgo_TPM_ALG_ECDSA_ECC_NIST_P384"

definition SpdmBaseAsymAlgo_all :: SpdmBaseAsymAlgo where
  "SpdmBaseAsymAlgo_all =
    SpdmBaseAsymAlgo_TPM_ALG_RSASSA_2048
    OR SpdmBaseAsymAlgo_TPM_ALG_RSAPSS_2048
    OR SpdmBaseAsymAlgo_TPM_ALG_RSASSA_3072
    OR SpdmBaseAsymAlgo_TPM_ALG_RSAPSS_3072
    OR SpdmBaseAsymAlgo_TPM_ALG_ECDSA_ECC_NIST_P256
    OR SpdmBaseAsymAlgo_TPM_ALG_RSASSA_4096
    OR SpdmBaseAsymAlgo_TPM_ALG_RSAPSS_4096
    OR SpdmBaseAsymAlgo_TPM_ALG_ECDSA_ECC_NIST_P384
    OR SpdmBaseAsymAlgo_VALID_MASK"

definition SpdmBaseAsymAlgo_encode :: "SpdmBaseAsymAlgo \<Rightarrow> EncodeErr enc" where
  "SpdmBaseAsymAlgo_encode = u32_encode"

definition SpdmBaseAsymAlgo_read :: "SpdmBaseAsymAlgo rd" where
  "SpdmBaseAsymAlgo_read = flags_u32_read SpdmBaseAsymAlgo_all SpdmBaseAsymAlgo_VALID_MASK"

definition SpdmBaseAsymAlgo_prio_table :: "SpdmBaseAsymAlgo list" where
  "SpdmBaseAsymAlgo_prio_table =
    [SpdmBaseAsymAlgo_TPM_ALG_ECDSA_ECC_NIST_P384,
     SpdmBaseAsymAlgo_TPM_ALG_ECDSA_ECC_NIST_P256,
     SpdmBaseAsymAlgo_TPM_ALG_RSAPSS_4096,
     SpdmBaseAsymAlgo_TPM_ALG_RSAPSS_3072,
     SpdmBaseAsymAlgo_TPM_ALG_RSAPSS_2048,
     SpdmBaseAsymAlgo_TPM_ALG_RSASSA_4096,
     SpdmBaseAsymAlgo_TPM_ALG_RSASSA_3072,
     SpdmBaseAsymAlgo_TPM_ALG_RSASSA_2048]"

definition SpdmBaseAsymAlgo_prioritize :: "SpdmBaseAsymAlgo \<Rightarrow> SpdmBaseAsymAlgo \<Rightarrow> SpdmBaseAsymAlgo" where
  "SpdmBaseAsymAlgo_prioritize self peer = prioritize SpdmBaseAsymAlgo_prio_table self peer"

definition SpdmBaseAsymAlgo_get_size :: "SpdmBaseAsymAlgo \<Rightarrow> u16 SpdmResult" where
  "SpdmBaseAsymAlgo_get_size self = unwrap (map_of
    [(SpdmBaseAsymAlgo_TPM_ALG_RSASSA_2048, RSASSA_2048_KEY_SIZE),
     (SpdmBaseAsymAlgo_TPM_ALG_RSAPSS_2048, RSAPSS_2048_KEY_SIZE),
     (SpdmBaseAsymAlgo_TPM_ALG_RSASSA_3072, RSASSA_3072_KEY_SIZE),
     (SpdmBaseAsymAlgo_TPM_ALG_RSAPSS_3072, RSAPSS_3072_KEY_SIZE),
     (SpdmBaseAsymAlgo_TPM_ALG_RSASSA_4096, RSASSA_4096_KEY_SIZE),
     (SpdmBaseAsymAlgo_TPM_ALG_RSAPSS_4096, RSAPSS_4096_KEY_SIZE),
     (SpdmBaseAsymAlgo_TPM_ALG_ECDSA_ECC_NIST_P256, ECDSA_ECC_NIST_P256_KEY_SIZE),
     (SpdmBaseAsymAlgo_TPM_ALG_ECDSA_ECC_NIST_P384, ECDSA_ECC_NIST_P384_KEY_SIZE)] self)"

definition SpdmBaseAsymAlgo_is_valid :: "SpdmBaseAsymAlgo \<Rightarrow> bool" where
  "SpdmBaseAsymAlgo_is_valid self = is_valid SpdmBaseAsymAlgo_VALID_MASK self"

definition SpdmBaseAsymAlgo_is_valid_one_select :: "SpdmBaseAsymAlgo \<Rightarrow> bool" where
  "SpdmBaseAsymAlgo_is_valid_one_select self \<longleftrightarrow> is_no_more_than_one_selected self \<and> SpdmBaseAsymAlgo_is_valid self"

subsection \<open>SpdmBaseHashAlgo\<close>

type_synonym SpdmBaseHashAlgo = u32

abbreviation (input) SpdmBaseHashAlgo_TPM_ALG_SHA_256 :: SpdmBaseHashAlgo where
  "SpdmBaseHashAlgo_TPM_ALG_SHA_256 \<equiv> 1"

abbreviation (input) SpdmBaseHashAlgo_TPM_ALG_SHA_384 :: SpdmBaseHashAlgo where
  "SpdmBaseHashAlgo_TPM_ALG_SHA_384 \<equiv> 2"

abbreviation (input) SpdmBaseHashAlgo_TPM_ALG_SHA_512 :: SpdmBaseHashAlgo where
  "SpdmBaseHashAlgo_TPM_ALG_SHA_512 \<equiv> 4"

definition SpdmBaseHashAlgo_VALID_MASK :: SpdmBaseHashAlgo where
  "SpdmBaseHashAlgo_VALID_MASK =
    SpdmBaseHashAlgo_TPM_ALG_SHA_256
    OR SpdmBaseHashAlgo_TPM_ALG_SHA_384
    OR SpdmBaseHashAlgo_TPM_ALG_SHA_512"

definition SpdmBaseHashAlgo_all :: SpdmBaseHashAlgo where
  "SpdmBaseHashAlgo_all =
    SpdmBaseHashAlgo_TPM_ALG_SHA_256
    OR SpdmBaseHashAlgo_TPM_ALG_SHA_384
    OR SpdmBaseHashAlgo_TPM_ALG_SHA_512
    OR SpdmBaseHashAlgo_VALID_MASK"

definition SpdmBaseHashAlgo_encode :: "SpdmBaseHashAlgo \<Rightarrow> EncodeErr enc" where
  "SpdmBaseHashAlgo_encode = u32_encode"

definition SpdmBaseHashAlgo_read :: "SpdmBaseHashAlgo rd" where
  "SpdmBaseHashAlgo_read = flags_u32_read SpdmBaseHashAlgo_all SpdmBaseHashAlgo_VALID_MASK"

definition SpdmBaseHashAlgo_prio_table :: "SpdmBaseHashAlgo list" where
  "SpdmBaseHashAlgo_prio_table =
    [SpdmBaseHashAlgo_TPM_ALG_SHA_512,
     SpdmBaseHashAlgo_TPM_ALG_SHA_384,
     SpdmBaseHashAlgo_TPM_ALG_SHA_256]"

definition SpdmBaseHashAlgo_prioritize :: "SpdmBaseHashAlgo \<Rightarrow> SpdmBaseHashAlgo \<Rightarrow> SpdmBaseHashAlgo" where
  "SpdmBaseHashAlgo_prioritize self peer = prioritize SpdmBaseHashAlgo_prio_table self peer"

definition SpdmBaseHashAlgo_get_size :: "SpdmBaseHashAlgo \<Rightarrow> u16 SpdmResult" where
  "SpdmBaseHashAlgo_get_size self = unwrap (map_of
    [(SpdmBaseHashAlgo_TPM_ALG_SHA_256, SHA256_DIGEST_SIZE),
     (SpdmBaseHashAlgo_TPM_ALG_SHA_384, SHA384_DIGEST_SIZE),
     (SpdmBaseHashAlgo_TPM_ALG_SHA_512, SHA512_DIGEST_SIZE)] self)"

definition SpdmBaseHashAlgo_is_valid :: "SpdmBaseHashAlgo \<Rightarrow> bool" where
  "SpdmBaseHashAlgo_is_valid self = is_valid SpdmBaseHashAlgo_VALID_MASK self"

definition SpdmBaseHashAlgo_is_valid_one_select :: "SpdmBaseHashAlgo \<Rightarrow> bool" where
  "SpdmBaseHashAlgo_is_valid_one_select self \<longleftrightarrow> is_no_more_than_one_selected self \<and> SpdmBaseHashAlgo_is_valid self"

subsection \<open>SpdmDheAlgo\<close>

type_synonym SpdmDheAlgo = u16

abbreviation (input) SpdmDheAlgo_SECP_256_R1 :: SpdmDheAlgo where
  "SpdmDheAlgo_SECP_256_R1 \<equiv> 8"

abbreviation (input) SpdmDheAlgo_SECP_384_R1 :: SpdmDheAlgo where
  "SpdmDheAlgo_SECP_384_R1 \<equiv> 16"

definition SpdmDheAlgo_VALID_MASK :: SpdmDheAlgo where
  "SpdmDheAlgo_VALID_MASK =
    SpdmDheAlgo_SECP_256_R1
    OR SpdmDheAlgo_SECP_384_R1"

definition SpdmDheAlgo_all :: SpdmDheAlgo where
  "SpdmDheAlgo_all =
    SpdmDheAlgo_SECP_256_R1
    OR SpdmDheAlgo_SECP_384_R1
    OR SpdmDheAlgo_VALID_MASK"

definition SpdmDheAlgo_encode :: "SpdmDheAlgo \<Rightarrow> EncodeErr enc" where
  "SpdmDheAlgo_encode = u16_encode"

definition SpdmDheAlgo_read :: "SpdmDheAlgo rd" where
  "SpdmDheAlgo_read = flags_u16_read SpdmDheAlgo_all SpdmDheAlgo_VALID_MASK"

definition SpdmDheAlgo_prio_table :: "SpdmDheAlgo list" where
  "SpdmDheAlgo_prio_table =
    [SpdmDheAlgo_SECP_384_R1,
     SpdmDheAlgo_SECP_256_R1]"

definition SpdmDheAlgo_prioritize :: "SpdmDheAlgo \<Rightarrow> SpdmDheAlgo \<Rightarrow> SpdmDheAlgo" where
  "SpdmDheAlgo_prioritize self peer = prioritize SpdmDheAlgo_prio_table self peer"

definition SpdmDheAlgo_get_size :: "SpdmDheAlgo \<Rightarrow> u16 SpdmResult" where
  "SpdmDheAlgo_get_size self = unwrap (map_of
    [(SpdmDheAlgo_SECP_256_R1, SECP_256_R1_KEY_SIZE),
     (SpdmDheAlgo_SECP_384_R1, SECP_384_R1_KEY_SIZE)] self)"

definition SpdmDheAlgo_is_valid :: "SpdmDheAlgo \<Rightarrow> bool" where
  "SpdmDheAlgo_is_valid self = is_valid SpdmDheAlgo_VALID_MASK self"

definition SpdmDheAlgo_is_valid_one_select :: "SpdmDheAlgo \<Rightarrow> bool" where
  "SpdmDheAlgo_is_valid_one_select self \<longleftrightarrow> is_no_more_than_one_selected self \<and> SpdmDheAlgo_is_valid self"

subsection \<open>SpdmAeadAlgo\<close>

type_synonym SpdmAeadAlgo = u16

abbreviation (input) SpdmAeadAlgo_AES_128_GCM :: SpdmAeadAlgo where
  "SpdmAeadAlgo_AES_128_GCM \<equiv> 1"

abbreviation (input) SpdmAeadAlgo_AES_256_GCM :: SpdmAeadAlgo where
  "SpdmAeadAlgo_AES_256_GCM \<equiv> 2"

abbreviation (input) SpdmAeadAlgo_CHACHA20_POLY1305 :: SpdmAeadAlgo where
  "SpdmAeadAlgo_CHACHA20_POLY1305 \<equiv> 4"

definition SpdmAeadAlgo_VALID_MASK :: SpdmAeadAlgo where
  "SpdmAeadAlgo_VALID_MASK =
    SpdmAeadAlgo_AES_128_GCM
    OR SpdmAeadAlgo_AES_256_GCM
    OR SpdmAeadAlgo_CHACHA20_POLY1305"

definition SpdmAeadAlgo_all :: SpdmAeadAlgo where
  "SpdmAeadAlgo_all =
    SpdmAeadAlgo_AES_128_GCM
    OR SpdmAeadAlgo_AES_256_GCM
    OR SpdmAeadAlgo_CHACHA20_POLY1305
    OR SpdmAeadAlgo_VALID_MASK"

definition SpdmAeadAlgo_encode :: "SpdmAeadAlgo \<Rightarrow> EncodeErr enc" where
  "SpdmAeadAlgo_encode = u16_encode"

definition SpdmAeadAlgo_read :: "SpdmAeadAlgo rd" where
  "SpdmAeadAlgo_read = flags_u16_read SpdmAeadAlgo_all SpdmAeadAlgo_VALID_MASK"

definition SpdmAeadAlgo_prio_table :: "SpdmAeadAlgo list" where
  "SpdmAeadAlgo_prio_table =
    [SpdmAeadAlgo_AES_256_GCM,
     SpdmAeadAlgo_AES_128_GCM,
     SpdmAeadAlgo_CHACHA20_POLY1305]"

definition SpdmAeadAlgo_prioritize :: "SpdmAeadAlgo \<Rightarrow> SpdmAeadAlgo \<Rightarrow> SpdmAeadAlgo" where
  "SpdmAeadAlgo_prioritize self peer = prioritize SpdmAeadAlgo_prio_table self peer"

definition SpdmAeadAlgo_get_key_size :: "SpdmAeadAlgo \<Rightarrow> u16 SpdmResult" where
  "SpdmAeadAlgo_get_key_size self = unwrap (map_of
    [(SpdmAeadAlgo_AES_128_GCM, AEAD_AES_128_GCM_KEY_SIZE),
     (SpdmAeadAlgo_AES_256_GCM, AEAD_AES_256_GCM_KEY_SIZE),
     (SpdmAeadAlgo_CHACHA20_POLY1305, AEAD_CHACHA20_POLY1305_KEY_SIZE)] self)"

definition SpdmAeadAlgo_get_iv_size :: "SpdmAeadAlgo \<Rightarrow> u16 SpdmResult" where
  "SpdmAeadAlgo_get_iv_size self = unwrap (map_of
    [(SpdmAeadAlgo_AES_128_GCM, AEAD_AES_128_GCM_IV_SIZE),
     (SpdmAeadAlgo_AES_256_GCM, AEAD_AES_256_GCM_IV_SIZE),
     (SpdmAeadAlgo_CHACHA20_POLY1305, AEAD_CHACHA20_POLY1305_IV_SIZE)] self)"

definition SpdmAeadAlgo_get_tag_size :: "SpdmAeadAlgo \<Rightarrow> u16 SpdmResult" where
  "SpdmAeadAlgo_get_tag_size self = unwrap (map_of
    [(SpdmAeadAlgo_AES_128_GCM, AEAD_AES_128_GCM_TAG_SIZE),
     (SpdmAeadAlgo_AES_256_GCM, AEAD_AES_256_GCM_TAG_SIZE),
     (SpdmAeadAlgo_CHACHA20_POLY1305, AEAD_CHACHA20_POLY1305_TAG_SIZE)] self)"

definition SpdmAeadAlgo_is_valid :: "SpdmAeadAlgo \<Rightarrow> bool" where
  "SpdmAeadAlgo_is_valid self = is_valid SpdmAeadAlgo_VALID_MASK self"

definition SpdmAeadAlgo_is_valid_one_select :: "SpdmAeadAlgo \<Rightarrow> bool" where
  "SpdmAeadAlgo_is_valid_one_select self \<longleftrightarrow> is_no_more_than_one_selected self \<and> SpdmAeadAlgo_is_valid self"

subsection \<open>SpdmReqAsymAlgo\<close>

type_synonym SpdmReqAsymAlgo = u16

abbreviation (input) SpdmReqAsymAlgo_TPM_ALG_RSASSA_2048 :: SpdmReqAsymAlgo where
  "SpdmReqAsymAlgo_TPM_ALG_RSASSA_2048 \<equiv> 1"

abbreviation (input) SpdmReqAsymAlgo_TPM_ALG_RSAPSS_2048 :: SpdmReqAsymAlgo where
  "SpdmReqAsymAlgo_TPM_ALG_RSAPSS_2048 \<equiv> 2"

abbreviation (input) SpdmReqAsymAlgo_TPM_ALG_RSASSA_3072 :: SpdmReqAsymAlgo where
  "SpdmReqAsymAlgo_TPM_ALG_RSASSA_3072 \<equiv> 4"

abbreviation (input) SpdmReqAsymAlgo_TPM_ALG_RSAPSS_3072 :: SpdmReqAsymAlgo where
  "SpdmReqAsymAlgo_TPM_ALG_RSAPSS_3072 \<equiv> 8"

abbreviation (input) SpdmReqAsymAlgo_TPM_ALG_ECDSA_ECC_NIST_P256 :: SpdmReqAsymAlgo where
  "SpdmReqAsymAlgo_TPM_ALG_ECDSA_ECC_NIST_P256 \<equiv> 16"

abbreviation (input) SpdmReqAsymAlgo_TPM_ALG_RSASSA_4096 :: SpdmReqAsymAlgo where
  "SpdmReqAsymAlgo_TPM_ALG_RSASSA_4096 \<equiv> 32"

abbreviation (input) SpdmReqAsymAlgo_TPM_ALG_RSAPSS_4096 :: SpdmReqAsymAlgo where
  "SpdmReqAsymAlgo_TPM_ALG_RSAPSS_4096 \<equiv> 64"

abbreviation (input) SpdmReqAsymAlgo_TPM_ALG_ECDSA_ECC_NIST_P384 :: SpdmReqAsymAlgo where
  "SpdmReqAsymAlgo_TPM_ALG_ECDSA_ECC_NIST_P384 \<equiv> 128"

definition SpdmReqAsymAlgo_VALID_MASK :: SpdmReqAsymAlgo where
  "SpdmReqAsymAlgo_VALID_MASK =
    SpdmReqAsymAlgo_TPM_ALG_RSASSA_2048
    OR SpdmReqAsymAlgo_TPM_ALG_RSAPSS_2048
    OR SpdmReqAsymAlgo_TPM_ALG_RSASSA_3072
    OR SpdmReqAsymAlgo_TPM_ALG_RSAPSS_3072
    OR SpdmReqAsymAlgo_TPM_ALG_ECDSA_ECC_NIST_P256
    OR SpdmReqAsymAlgo_TPM_ALG_RSASSA_4096
    OR SpdmReqAsymAlgo_TPM_ALG_RSAPSS_4096
    OR SpdmReqAsymAlgo_TPM_ALG_ECDSA_ECC_NIST_P384"

definition SpdmReqAsymAlgo_all :: SpdmReqAsymAlgo where
  "SpdmReqAsymAlgo_all =
    SpdmReqAsymAlgo_TPM_ALG_RSASSA_2048
    OR SpdmReqAsymAlgo_TPM_ALG_RSAPSS_2048
    OR SpdmReqAsymAlgo_TPM_ALG_RSASSA_3072
    OR SpdmReqAsymAlgo_TPM_ALG_RSAPSS_3072
    OR SpdmReqAsymAlgo_TPM_ALG_ECDSA_ECC_NIST_P256
    OR SpdmReqAsymAlgo_TPM_ALG_RSASSA_4096
    OR SpdmReqAsymAlgo_TPM_ALG_RSAPSS_4096
    OR SpdmReqAsymAlgo_TPM_ALG_ECDSA_ECC_NIST_P384
    OR SpdmReqAsymAlgo_VALID_MASK"

definition SpdmReqAsymAlgo_encode :: "SpdmReqAsymAlgo \<Rightarrow> EncodeErr enc" where
  "SpdmReqAsymAlgo_encode = u16_encode"

definition SpdmReqAsymAlgo_read :: "SpdmReqAsymAlgo rd" where
  "SpdmReqAsymAlgo_read = flags_u16_read SpdmReqAsymAlgo_all SpdmReqAsymAlgo_VALID_MASK"

definition SpdmReqAsymAlgo_prio_table :: "SpdmReqAsymAlgo list" where
  "SpdmReqAsymAlgo_prio_table =
    [SpdmReqAsymAlgo_TPM_ALG_ECDSA_ECC_NIST_P384,
     SpdmReqAsymAlgo_TPM_ALG_ECDSA_ECC_NIST_P256,
     SpdmReqAsymAlgo_TPM_ALG_RSAPSS_4096,
     SpdmReqAsymAlgo_TPM_ALG_RSAPSS_3072,
     SpdmReqAsymAlgo_TPM_ALG_RSAPSS_2048,
     SpdmReqAsymAlgo_TPM_ALG_RSASSA_4096,
     SpdmReqAsymAlgo_TPM_ALG_RSASSA_3072,
     SpdmReqAsymAlgo_TPM_ALG_RSASSA_2048]"

definition SpdmReqAsymAlgo_prioritize :: "SpdmReqAsymAlgo \<Rightarrow> SpdmReqAsymAlgo \<Rightarrow> SpdmReqAsymAlgo" where
  "SpdmReqAsymAlgo_prioritize self peer = prioritize SpdmReqAsymAlgo_prio_table self peer"

definition SpdmReqAsymAlgo_get_size :: "SpdmReqAsymAlgo \<Rightarrow> u16 SpdmResult" where
  "SpdmReqAsymAlgo_get_size self = unwrap (map_of
    [(SpdmReqAsymAlgo_TPM_ALG_RSASSA_2048, RSASSA_2048_KEY_SIZE),
     (SpdmReqAsymAlgo_TPM_ALG_RSAPSS_2048, RSAPSS_2048_KEY_SIZE),
     (SpdmReqAsymAlgo_TPM_ALG_RSASSA_3072, RSASSA_3072_KEY_SIZE),
     (SpdmReqAsymAlgo_TPM_ALG_RSAPSS_3072, RSAPSS_3072_KEY_SIZE),
     (SpdmReqAsymAlgo_TPM_ALG_RSASSA_4096, RSASSA_4096_KEY_SIZE),
     (SpdmReqAsymAlgo_TPM_ALG_RSAPSS_4096, RSAPSS_4096_KEY_SIZE),
     (SpdmReqAsymAlgo_TPM_ALG_ECDSA_ECC_NIST_P256, ECDSA_ECC_NIST_P256_KEY_SIZE),
     (SpdmReqAsymAlgo_TPM_ALG_ECDSA_ECC_NIST_P384, ECDSA_ECC_NIST_P384_KEY_SIZE)] self)"

definition SpdmReqAsymAlgo_is_valid :: "SpdmReqAsymAlgo \<Rightarrow> bool" where
  "SpdmReqAsymAlgo_is_valid self = is_valid SpdmReqAsymAlgo_VALID_MASK self"

definition SpdmReqAsymAlgo_is_valid_one_select :: "SpdmReqAsymAlgo \<Rightarrow> bool" where
  "SpdmReqAsymAlgo_is_valid_one_select self \<longleftrightarrow> is_no_more_than_one_selected self \<and> SpdmReqAsymAlgo_is_valid self"

subsection \<open>SpdmKeyScheduleAlgo\<close>

type_synonym SpdmKeyScheduleAlgo = u16

abbreviation (input) SpdmKeyScheduleAlgo_SPDM_KEY_SCHEDULE :: SpdmKeyScheduleAlgo where
  "SpdmKeyScheduleAlgo_SPDM_KEY_SCHEDULE \<equiv> 1"

definition SpdmKeyScheduleAlgo_VALID_MASK :: SpdmKeyScheduleAlgo where
  "SpdmKeyScheduleAlgo_VALID_MASK =
    SpdmKeyScheduleAlgo_SPDM_KEY_SCHEDULE"

definition SpdmKeyScheduleAlgo_all :: SpdmKeyScheduleAlgo where
  "SpdmKeyScheduleAlgo_all =
    SpdmKeyScheduleAlgo_SPDM_KEY_SCHEDULE
    OR SpdmKeyScheduleAlgo_VALID_MASK"

definition SpdmKeyScheduleAlgo_encode :: "SpdmKeyScheduleAlgo \<Rightarrow> EncodeErr enc" where
  "SpdmKeyScheduleAlgo_encode = u16_encode"

definition SpdmKeyScheduleAlgo_read :: "SpdmKeyScheduleAlgo rd" where
  "SpdmKeyScheduleAlgo_read = flags_u16_read SpdmKeyScheduleAlgo_all SpdmKeyScheduleAlgo_VALID_MASK"

definition SpdmKeyScheduleAlgo_prio_table :: "SpdmKeyScheduleAlgo list" where
  "SpdmKeyScheduleAlgo_prio_table =
    [SpdmKeyScheduleAlgo_SPDM_KEY_SCHEDULE]"

definition SpdmKeyScheduleAlgo_prioritize :: "SpdmKeyScheduleAlgo \<Rightarrow> SpdmKeyScheduleAlgo \<Rightarrow> SpdmKeyScheduleAlgo" where
  "SpdmKeyScheduleAlgo_prioritize self peer = prioritize SpdmKeyScheduleAlgo_prio_table self peer"

definition SpdmKeyScheduleAlgo_is_valid :: "SpdmKeyScheduleAlgo \<Rightarrow> bool" where
  "SpdmKeyScheduleAlgo_is_valid self = is_valid SpdmKeyScheduleAlgo_VALID_MASK self"

definition SpdmKeyScheduleAlgo_is_valid_one_select :: "SpdmKeyScheduleAlgo \<Rightarrow> bool" where
  "SpdmKeyScheduleAlgo_is_valid_one_select self \<longleftrightarrow> is_no_more_than_one_selected self \<and> SpdmKeyScheduleAlgo_is_valid self"

subsection \<open>Algorithm structures\<close>

datatype SpdmAlgType =
    SpdmAlgTypeDHE
  | SpdmAlgTypeAEAD
  | SpdmAlgTypeReqAsym
  | SpdmAlgTypeKeySchedule
  | SpdmAlgTypeUnknown u8

fun SpdmAlgType_get_u8 :: "SpdmAlgType \<Rightarrow> u8" where
  "SpdmAlgType_get_u8 SpdmAlgTypeDHE = 0x2"
| "SpdmAlgType_get_u8 SpdmAlgTypeAEAD = 0x3"
| "SpdmAlgType_get_u8 SpdmAlgTypeReqAsym = 0x4"
| "SpdmAlgType_get_u8 SpdmAlgTypeKeySchedule = 0x5"
| "SpdmAlgType_get_u8 (SpdmAlgTypeUnknown x) = x"

definition SpdmAlgType_of_u8 :: "u8 \<Rightarrow> SpdmAlgType" where
  "SpdmAlgType_of_u8 x =
    (if x = 0x2 then SpdmAlgTypeDHE
     else if x = 0x3 then SpdmAlgTypeAEAD
     else if x = 0x4 then SpdmAlgTypeReqAsym
     else if x = 0x5 then SpdmAlgTypeKeySchedule
     else SpdmAlgTypeUnknown x)"

datatype SpdmAlg =
    SpdmAlgoDhe SpdmDheAlgo
  | SpdmAlgoAead SpdmAeadAlgo
  | SpdmAlgoReqAsym SpdmReqAsymAlgo
  | SpdmAlgoKeySchedule SpdmKeyScheduleAlgo
  | SpdmAlgoUnknown

record SpdmAlgStruct =
  alg_type :: SpdmAlgType
  alg_supported :: SpdmAlg

fun SpdmAlg_encode :: "SpdmAlg \<Rightarrow> EncodeErr enc" where
  "SpdmAlg_encode (SpdmAlgoDhe a) = SpdmDheAlgo_encode a"
| "SpdmAlg_encode (SpdmAlgoAead a) = SpdmAeadAlgo_encode a"
| "SpdmAlg_encode (SpdmAlgoReqAsym a) = SpdmReqAsymAlgo_encode a"
| "SpdmAlg_encode (SpdmAlgoKeySchedule a) = SpdmKeyScheduleAlgo_encode a"
| "SpdmAlg_encode SpdmAlgoUnknown = encs []"

definition SpdmAlgStruct_encode :: "SpdmAlgStruct \<Rightarrow> EncodeErr enc" where
  "SpdmAlgStruct_encode s = encs
    [enum_u8_encode SpdmAlgType_get_u8 (alg_type s),
     u8_encode (ucast (push_bit 4 (2 :: u32))),
     SpdmAlg_encode (alg_supported s)]"

definition SpdmAlgStruct_read :: "SpdmAlgStruct rd" where
  "SpdmAlgStruct_read r = do {
     (ty, r) \<leftarrow> enum_u8_read SpdmAlgType_of_u8 r;
     (alg_count, r) \<leftarrow> u8_read r;
     let alg_fixed_count = (ucast ((drop_bit 4 (ucast alg_count :: u32)) AND 0xF) :: u8);
     let alg_ext_count = alg_count AND 0xF;
     (if alg_fixed_count \<noteq> 2 then None
      else if alg_ext_count \<noteq> 0 then None
      else do {
        (alg, r) \<leftarrow>
          (case ty of
            SpdmAlgTypeDHE \<Rightarrow> map_option (apfst SpdmAlgoDhe) (SpdmDheAlgo_read r)
          | SpdmAlgTypeAEAD \<Rightarrow> map_option (apfst SpdmAlgoAead) (SpdmAeadAlgo_read r)
          | SpdmAlgTypeReqAsym \<Rightarrow> map_option (apfst SpdmAlgoReqAsym) (SpdmReqAsymAlgo_read r)
          | SpdmAlgTypeKeySchedule \<Rightarrow>
              map_option (apfst SpdmAlgoKeySchedule) (SpdmKeyScheduleAlgo_read r)
          | SpdmAlgTypeUnknown _ \<Rightarrow> None);
        Some (\<lparr>alg_type = ty, alg_supported = alg\<rparr>, r)
      })
   }"

subsection \<open>What a selection is\<close>

definition selects :: "'a::len word list \<Rightarrow> 'a word \<Rightarrow> 'a word \<Rightarrow> 'a word \<Rightarrow> bool" where
  "selects prio_table self peer sel \<longleftrightarrow>
    (if \<exists>v\<in>set prio_table. self AND peer AND v \<noteq> 0
     then sel AND self = sel \<and> sel AND peer = sel \<and>
       (\<exists>better worse. prio_table = better @ sel # worse \<and>
         (\<forall>v\<in>set better. self AND peer AND v = 0))
     else sel = 0)"

locale prio_flags =
  fixes prio_table :: "'a::len word list"
    and vmask :: "'a word"
  assumes table_single: "v \<in> set prio_table \<Longrightarrow> v \<noteq> 0 \<and> is_no_more_than_one_selected v"
    and mask_table: "vmask = foldr (OR) prio_table 0"

section \<open>Single flags\<close>

lemma nat_and_pred_eq_0_iff: "0 < m \<Longrightarrow> m AND (m - 1) = 0 \<longleftrightarrow> (\<exists>n. m = 2 ^ n)" for m :: nat
proof (induction m rule: less_induct)
  case (less m)
  show ?case
  proof (cases "even m")
    case True
    then obtain k where k: "m = 2 * k" by blast
    with less.prems have "0 < k" "k < m" by auto
    have "(2 * k - 1) div 2 = k - 1" using \<open>0 < k\<close> by arith
    then have "m AND (m - 1) = 2 * (k AND (k - 1))"
      using and_nat_rec [of "2 * k" "2 * k - 1"] by (simp add: k)
    moreover have "(\<exists>n. m = 2 ^ n) \<longleftrightarrow> (\<exists>n. k = 2 ^ n)"
    proof
      assume "\<exists>n. m = 2 ^ n"
      then obtain n where n: "m = 2 ^ n" ..
      with True obtain n' where "n = Suc n'" by (cases n) auto
      with n k show "\<exists>n. k = 2 ^ n" by auto
    next
      assume "\<exists>n. k = 2 ^ n"
      then obtain n where "k = 2 ^ n" ..
      with k have "m = 2 ^ Suc n" by simp
      then show "\<exists>n. m = 2 ^ n" ..
    qed
    ultimately show ?thesis using less.IH [OF \<open>k < m\<close> \<open>0 < k\<close>] by simp
  next
    case False
    then obtain k where k: "m = 2 * k + 1" by (rule oddE)
    then have "m AND (m - 1) = 2 * k"
      using and_nat_rec [of "2 * k + 1" "2 * k"] by simp
    moreover have "m = 1" if "m = 2 ^ n" for n
      using that False by (cases n) auto
    then have "(\<exists>n. m = 2 ^ n) \<longleftrightarrow> m = 1" by (metis power_0)
    ultimately show ?thesis using k by simp
  qed
qed

lemma word_and_pred_eq_0_iff:
  "b \<noteq> 0 \<Longrightarrow> b AND (b - 1) = 0 \<longleftrightarrow> (\<exists>n < LENGTH('a). b = 2 ^ n)" for b :: "'a::len word"
proof -
  assume b: "b \<noteq> 0"
  then have pos: "0 < unat b" by (simp add: unat_gt_0)
  have "b AND (b - 1) = 0 \<longleftrightarrow> unat (b AND (b - 1)) = 0"
    by (simp add: unat_eq_zero)
  also have "unat (b AND (b - 1)) = unat b AND (unat b - 1)"
    using b by (simp add: unsigned_and_eq unat_minus_one)
  also have "\<dots> = 0 \<longleftrightarrow> (\<exists>n. unat b = 2 ^ n)"
    using pos by (rule nat_and_pred_eq_0_iff)
  also have "\<dots> \<longleftrightarrow> (\<exists>n < LENGTH('a). b = 2 ^ n)"
  proof
    assume "\<exists>n. unat b = 2 ^ n"
    then obtain n where n: "unat b = 2 ^ n" ..
    have "unat b < 2 ^ LENGTH('a)" by (rule unsigned_less)
    then have "2 ^ n < (2 ^ LENGTH('a) :: nat)" by (simp only: n)
    then have len: "n < LENGTH('a)" by (rule nat_power_less_imp_less [rotated]) simp
    have "of_nat (unat b) = (2 ^ n :: 'a word)"
      by (simp only: n of_nat_power of_nat_numeral)
    with len show "\<exists>n < LENGTH('a). b = 2 ^ n" by auto
  next
    assume "\<exists>n < LENGTH('a). b = 2 ^ n"
    then obtain n where n: "n < LENGTH('a)" "b = 2 ^ n" by blast
    have "unat (of_nat (2 ^ n) :: 'a word) = 2 ^ n"
      by (simp only: unsigned_of_nat) (simp add: take_bit_nat_eq_self n)
    with n show "\<exists>n. unat b = 2 ^ n" by auto
  qed
  finally show ?thesis .
qed

lemma one_selected_iff:
  "is_no_more_than_one_selected b \<longleftrightarrow> b = 0 \<or> (\<exists>n < LENGTH('a). b = 2 ^ n)" for b :: "'a::len word"
  using word_and_pred_eq_0_iff [of b] by (auto simp: is_no_more_than_one_selected_def)

lemma bit_and_power_of_two: "x AND 2 ^ n \<noteq> 0 \<Longrightarrow> 2 ^ n AND x = 2 ^ n" for x :: "'a::len word"
  by (rule bit_word_eqI) (auto simp: bit_simps and_exp_eq_0_iff_not_bit)

section \<open>Selection\<close>

lemma first_common_cases:
  "(first_common vs x = 0 \<and> (\<forall>v\<in>set vs. x AND v = 0)) \<or>
   (\<exists>better worse. vs = better @ first_common vs x # worse \<and> x AND first_common vs x \<noteq> 0 \<and>
      (\<forall>v\<in>set better. x AND v = 0))"
proof (induction vs)
  case (Cons v vs)
  show ?case
  proof (cases "x AND v = 0")
    case True
    from Cons.IH show ?thesis
    proof (elim disjE exE conjE)
      fix better worse
      assume "vs = better @ first_common vs x # worse" "x AND first_common vs x \<noteq> 0"
        "\<forall>v\<in>set better. x AND v = 0"
      with True show ?thesis
        by (intro disjI2 exI [of _ "v # better"] exI [of _ worse]) auto
    qed (use True in auto)
  next
    case False
    then show ?thesis by (intro disjI2 exI [of _ "[]"] exI [of _ vs]) simp
  qed
qed simp

lemma and_foldr_or: "x AND foldr (OR) vs 0 \<noteq> 0 \<longleftrightarrow> (\<exists>v\<in>set vs. x AND v \<noteq> 0)"
  for x :: "'a::len word"
proof (induction vs)
  case (Cons v vs)
  then show ?case
    by (auto simp: bit.conj_disj_distrib) (metis or_eq_0_iff)+
qed simp

context prio_flags
begin

lemma table_bit: "v \<in> set prio_table \<Longrightarrow> \<exists>n < LENGTH('a). v = 2 ^ n"
  using table_single one_selected_iff by blast

lemma prioritize_selects: "selects prio_table self peer (prioritize prio_table self peer)"
proof -
  let ?x = "self AND peer" and ?s = "prioritize prio_table self peer"
  consider "?s = 0" "\<forall>v\<in>set prio_table. ?x AND v = 0"
    | better worse where "prio_table = better @ ?s # worse" "?x AND ?s \<noteq> 0"
      "\<forall>v\<in>set better. ?x AND v = 0"
    using first_common_cases [of prio_table ?x] unfolding prioritize_def by blast
  then show ?thesis
  proof cases
    case 2
    have s: "?s \<in> set prio_table" by (subst 2) simp
    then obtain n where "?s = 2 ^ n" using table_bit by blast
    then have "?s AND ?x = ?s" using 2 bit_and_power_of_two by metis
    then have "?s AND self = ?s" "?s AND peer = ?s"
      by (metis and.assoc and.commute and.idem)+
    with 2 s show ?thesis unfolding selects_def by (auto simp: and.assoc)
  qed (simp add: selects_def and.assoc)
qed

lemma prioritize_in_table:
  assumes "self AND peer AND vmask \<noteq> 0"
  shows "prioritize prio_table self peer \<in> set prio_table"
proof -
  have "\<exists>v\<in>set prio_table. self AND peer AND v \<noteq> 0"
    using and_foldr_or [of "self AND peer" prio_table] assms by (simp add: and.assoc mask_table)
  then obtain better worse where "prio_table = better @ prioritize prio_table self peer # worse"
    using prioritize_selects [of self peer] unfolding selects_def by auto
  then show ?thesis by (metis in_set_conv_decomp)
qed

lemma prioritize_one_select:
  assumes "self AND peer AND vmask \<noteq> 0"
  shows "is_no_more_than_one_selected (prioritize prio_table self peer)"
    and "is_valid vmask (prioritize prio_table self peer)"
proof -
  note s = table_single [OF prioritize_in_table [OF assms]]
  then show "is_no_more_than_one_selected (prioritize prio_table self peer)" by simp
  have "prioritize prio_table self peer AND prioritize prio_table self peer \<noteq> 0"
    using s by simp
  then show "is_valid vmask (prioritize prio_table self peer)"
    using and_foldr_or prioritize_in_table [OF assms] unfolding is_valid_def mask_table by blast
qed

lemma prioritize_none: "self AND peer AND vmask = 0 \<Longrightarrow> prioritize prio_table self peer = 0"
  using first_common_cases [of prio_table "self AND peer"] and_foldr_or [of "self AND peer" prio_table]
  by (auto simp: prioritize_def mask_table and.assoc) (metis in_set_conv_decomp)

end

interpretation p_ms: prio_flags SpdmMeasurementSpecification_prio_table SpdmMeasurementSpecification_VALID_MASK
  by unfold_locales
    (auto simp: SpdmMeasurementSpecification_prio_table_def SpdmMeasurementSpecification_VALID_MASK_def is_no_more_than_one_selected_def)

interpretation p_asym: prio_flags SpdmBaseAsymAlgo_prio_table SpdmBaseAsymAlgo_VALID_MASK
  by unfold_locales
    (auto simp: SpdmBaseAsymAlgo_prio_table_def SpdmBaseAsymAlgo_VALID_MASK_def is_no_more_than_one_selected_def)

interpretation p_hash: prio_flags SpdmBaseHashAlgo_prio_table SpdmBaseHashAlgo_VALID_MASK
  by unfold_locales
    (auto simp: SpdmBaseHashAlgo_prio_table_def SpdmBaseHashAlgo_VALID_MASK_def is_no_more_than_one_selected_def)

interpretation p_dhe: prio_flags SpdmDheAlgo_prio_table SpdmDheAlgo_VALID_MASK
  by unfold_locales
    (auto simp: SpdmDheAlgo_prio_table_def SpdmDheAlgo_VALID_MASK_def is_no_more_than_one_selected_def)

interpretation p_aead: prio_flags SpdmAeadAlgo_prio_table SpdmAeadAlgo_VALID_MASK
  by unfold_locales
    (auto simp: SpdmAeadAlgo_prio_table_def SpdmAeadAlgo_VALID_MASK_def is_no_more_than_one_selected_def)

interpretation p_req: prio_flags SpdmReqAsymAlgo_prio_table SpdmReqAsymAlgo_VALID_MASK
  by unfold_locales
    (auto simp: SpdmReqAsymAlgo_prio_table_def SpdmReqAsymAlgo_VALID_MASK_def is_no_more_than_one_selected_def)

interpretation p_ks: prio_flags SpdmKeyScheduleAlgo_prio_table SpdmKeyScheduleAlgo_VALID_MASK
  by unfold_locales
    (auto simp: SpdmKeyScheduleAlgo_prio_table_def SpdmKeyScheduleAlgo_VALID_MASK_def is_no_more_than_one_selected_def)

section \<open>Wire codecs\<close>

lemmas flag_masks =
  SpdmMeasurementSpecification_VALID_MASK_def SpdmMeasurementSpecification_all_def
  SpdmMeasurementHashAlgo_VALID_MASK_def SpdmMeasurementHashAlgo_all_def
  SpdmBaseAsymAlgo_VALID_MASK_def SpdmBaseAsymAlgo_all_def
  SpdmBaseHashAlgo_VALID_MASK_def SpdmBaseHashAlgo_all_def
  SpdmDheAlgo_VALID_MASK_def SpdmDheAlgo_all_def
  SpdmAeadAlgo_VALID_MASK_def SpdmAeadAlgo_all_def
  SpdmReqAsymAlgo_VALID_MASK_def SpdmReqAsymAlgo_all_def
  SpdmKeyScheduleAlgo_VALID_MASK_def SpdmKeyScheduleAlgo_all_def

interpretation c_ms: codec SpdmMeasurementSpecification_encode SpdmMeasurementSpecification_read
    "\<lambda>x. [x]" "\<lambda>x. x AND SpdmMeasurementSpecification_VALID_MASK = x"
  by unfold_locales
    (simp_all add: SpdmMeasurementSpecification_encode_def SpdmMeasurementSpecification_read_def emits_u8 flag_masks)

interpretation c_mh: codec SpdmMeasurementHashAlgo_encode SpdmMeasurementHashAlgo_read
    "le_bytes 4" "\<lambda>x. x AND SpdmMeasurementHashAlgo_VALID_MASK = x"
  by unfold_locales
    (simp_all add: SpdmMeasurementHashAlgo_encode_def SpdmMeasurementHashAlgo_read_def emits_u32 flag_masks)

interpretation c_asym: codec SpdmBaseAsymAlgo_encode SpdmBaseAsymAlgo_read
    "le_bytes 4" "\<lambda>x. x AND SpdmBaseAsymAlgo_VALID_MASK = x"
  by unfold_locales
    (simp_all add: SpdmBaseAsymAlgo_encode_def SpdmBaseAsymAlgo_read_def emits_u32 flag_masks)

interpretation c_hash: codec SpdmBaseHashAlgo_encode SpdmBaseHashAlgo_read
    "le_bytes 4" "\<lambda>x. x AND SpdmBaseHashAlgo_VALID_MASK = x"
  by unfold_locales
    (simp_all add: SpdmBaseHashAlgo_encode_def SpdmBaseHashAlgo_read_def emits_u32 flag_masks)

interpretation c_dhe: codec SpdmDheAlgo_encode SpdmDheAlgo_read
    "le_bytes 2" "\<lambda>x. x AND SpdmDheAlgo_VALID_MASK = x"
  by unfold_locales
    (simp_all add: SpdmDheAlgo_encode_def SpdmDheAlgo_read_def emits_u16 flag_masks)

interpretation c_aead: codec SpdmAeadAlgo_encode SpdmAeadAlgo_read
    "le_bytes 2" "\<lambda>x. x AND SpdmAeadAlgo_VALID_MASK = x"
  by unfold_locales
    (simp_all add: SpdmAeadAlgo_encode_def SpdmAeadAlgo_read_def emits_u16 flag_masks)

interpretation c_req: codec SpdmReqAsymAlgo_encode SpdmReqAsymAlgo_read
    "le_bytes 2" "\<lambda>x. x AND SpdmReqAsymAlgo_VALID_MASK = x"
  by unfold_locales
    (simp_all add: SpdmReqAsymAlgo_encode_def SpdmReqAsymAlgo_read_def emits_u16 flag_masks)

interpretation c_ks: codec SpdmKeyScheduleAlgo_encode SpdmKeyScheduleAlgo_read
    "le_bytes 2" "\<lambda>x. x AND SpdmKeyScheduleAlgo_VALID_MASK = x"
  by unfold_locales
    (simp_all add: SpdmKeyScheduleAlgo_encode_def SpdmKeyScheduleAlgo_read_def emits_u16 flag_masks)

lemma SpdmAlgType_get_of [simp]: "SpdmAlgType_get_u8 (SpdmAlgType_of_u8 v) = v"
  by (simp add: SpdmAlgType_of_u8_def)

interpretation e_algtype: enum_u8 SpdmAlgType_get_u8 SpdmAlgType_of_u8
  by unfold_locales simp

definition SpdmAlgStruct_valid :: "SpdmAlgStruct \<Rightarrow> bool" where
  "SpdmAlgStruct_valid s \<longleftrightarrow>
    (case (alg_type s, alg_supported s) of
      (SpdmAlgTypeDHE, SpdmAlgoDhe a) \<Rightarrow> a AND SpdmDheAlgo_VALID_MASK = a
    | (SpdmAlgTypeAEAD, SpdmAlgoAead a) \<Rightarrow> a AND SpdmAeadAlgo_VALID_MASK = a
    | (SpdmAlgTypeReqAsym, SpdmAlgoReqAsym a) \<Rightarrow> a AND SpdmReqAsymAlgo_VALID_MASK = a
    | (SpdmAlgTypeKeySchedule, SpdmAlgoKeySchedule a) \<Rightarrow> a AND SpdmKeyScheduleAlgo_VALID_MASK = a
    | _ \<Rightarrow> False)"

fun SpdmAlg_bits :: "SpdmAlg \<Rightarrow> u16" where
  "SpdmAlg_bits (SpdmAlgoDhe a) = a"
| "SpdmAlg_bits (SpdmAlgoAead a) = a"
| "SpdmAlg_bits (SpdmAlgoReqAsym a) = a"
| "SpdmAlg_bits (SpdmAlgoKeySchedule a) = a"
| "SpdmAlg_bits SpdmAlgoUnknown = 0"

definition SpdmAlgStruct_image :: "SpdmAlgStruct \<Rightarrow> bytes" where
  "SpdmAlgStruct_image s =
    [SpdmAlgType_get_u8 (alg_type s), 0x20] @ le_bytes 2 (SpdmAlg_bits (alg_supported s))"

lemma SpdmAlgStruct_valid_cases:
  assumes "SpdmAlgStruct_valid s"
  obtains (dhe) a where "s = \<lparr>alg_type = SpdmAlgTypeDHE, alg_supported = SpdmAlgoDhe a\<rparr>"
      "a AND SpdmDheAlgo_VALID_MASK = a"
    | (aead) a where "s = \<lparr>alg_type = SpdmAlgTypeAEAD, alg_supported = SpdmAlgoAead a\<rparr>"
      "a AND SpdmAeadAlgo_VALID_MASK = a"
    | (req) a where "s = \<lparr>alg_type = SpdmAlgTypeReqAsym, alg_supported = SpdmAlgoReqAsym a\<rparr>"
      "a AND SpdmReqAsymAlgo_VALID_MASK = a"
    | (ks) a where "s = \<lparr>alg_type = SpdmAlgTypeKeySchedule, alg_supported = SpdmAlgoKeySchedule a\<rparr>"
      "a AND SpdmKeyScheduleAlgo_VALID_MASK = a"
  using assms by (cases s) (auto simp: SpdmAlgStruct_valid_def split: SpdmAlgType.splits SpdmAlg.splits)

lemma emits_SpdmAlg:
  "SpdmAlgStruct_valid s \<Longrightarrow>
    emits (SpdmAlg_encode (alg_supported s)) (le_bytes 2 (SpdmAlg_bits (alg_supported s)))"
  by (erule SpdmAlgStruct_valid_cases)
    (simp_all add: SpdmDheAlgo_encode_def SpdmAeadAlgo_encode_def SpdmReqAsymAlgo_encode_def
      SpdmKeyScheduleAlgo_encode_def emits_u16)

lemma emits_SpdmAlgStruct:
  assumes "SpdmAlgStruct_valid s"
  shows "emits (SpdmAlgStruct_encode s) (SpdmAlgStruct_image s)"
proof -
  have "list_all2 emits
      [enum_u8_encode SpdmAlgType_get_u8 (alg_type s), u8_encode (ucast (push_bit 4 (2 :: u32))),
       SpdmAlg_encode (alg_supported s)]
      [[SpdmAlgType_get_u8 (alg_type s)], [0x20],
       le_bytes 2 (SpdmAlg_bits (alg_supported s))]"
    using emits_u8 [of "0x20"] assms by (simp add: enum_u8_encode_def emits_u8 emits_SpdmAlg)
  from emits_encs [OF this] show ?thesis
    by (simp add: SpdmAlgStruct_encode_def SpdmAlgStruct_image_def)
qed

lemma SpdmAlgStruct_read_image:
  "SpdmAlgStruct_valid s \<Longrightarrow>
    SpdmAlgStruct_read (rd_at pre (SpdmAlgStruct_image s @ post)) =
      Some (s, rd_at (pre @ SpdmAlgStruct_image s) post)"
  by (erule SpdmAlgStruct_valid_cases)
    (simp_all add: SpdmAlgStruct_image_def SpdmAlgStruct_read_def enum_u8_read_def
      SpdmAlgType_of_u8_def c_dhe.read_image c_aead.read_image c_req.read_image c_ks.read_image)

interpretation c_algstruct: codec SpdmAlgStruct_encode SpdmAlgStruct_read
    SpdmAlgStruct_image SpdmAlgStruct_valid
  by unfold_locales (simp_all add: emits_SpdmAlgStruct SpdmAlgStruct_read_image)

section \<open>Properties\<close>

text \<open>
  C22: For each of the seven negotiable flag sets, \<open>prioritize\<close> selects exactly the first entry of
  the priority table that both sides support: the result is contained in both sets and no better
  entry is common; with no common entry the result is empty.
\<close>

theorem prioritize_selects_best:
  "selects SpdmMeasurementSpecification_prio_table ms ms' (SpdmMeasurementSpecification_prioritize ms ms')
   \<and> selects SpdmBaseAsymAlgo_prio_table sig sig' (SpdmBaseAsymAlgo_prioritize sig sig')
   \<and> selects SpdmBaseHashAlgo_prio_table hash hash' (SpdmBaseHashAlgo_prioritize hash hash')
   \<and> selects SpdmDheAlgo_prio_table dhe dhe' (SpdmDheAlgo_prioritize dhe dhe')
   \<and> selects SpdmAeadAlgo_prio_table aead aead' (SpdmAeadAlgo_prioritize aead aead')
   \<and> selects SpdmReqAsymAlgo_prio_table req req' (SpdmReqAsymAlgo_prioritize req req')
   \<and> selects SpdmKeyScheduleAlgo_prio_table ks ks' (SpdmKeyScheduleAlgo_prioritize ks ks')"
  by (simp add: SpdmMeasurementSpecification_prioritize_def SpdmBaseAsymAlgo_prioritize_def
      SpdmBaseHashAlgo_prioritize_def SpdmDheAlgo_prioritize_def SpdmAeadAlgo_prioritize_def
      SpdmReqAsymAlgo_prioritize_def SpdmKeyScheduleAlgo_prioritize_def
      p_ms.prioritize_selects p_asym.prioritize_selects p_hash.prioritize_selects
      p_dhe.prioritize_selects p_aead.prioritize_selects p_req.prioritize_selects
      p_ks.prioritize_selects)

text \<open>
  C33: When requester and responder share a hash algorithm and an AEAD algorithm, the negotiated
  values are single valid selections, so the size functions return a size and do not panic, and
  the nonce of the selected AEAD has 12 bytes and its tag 16.
\<close>

theorem negotiated_sizes_defined:
  assumes "self AND peer AND SpdmBaseHashAlgo_VALID_MASK \<noteq> 0"
    and "self' AND peer' AND SpdmAeadAlgo_VALID_MASK \<noteq> 0"
  shows "SpdmBaseHashAlgo_is_valid_one_select (SpdmBaseHashAlgo_prioritize self peer)
    \<and> (\<exists>n\<in>{32, 48, 64}. SpdmBaseHashAlgo_get_size (SpdmBaseHashAlgo_prioritize self peer) = Ok n)
    \<and> SpdmAeadAlgo_is_valid_one_select (SpdmAeadAlgo_prioritize self' peer')
    \<and> (\<exists>n\<in>{16, 32}. SpdmAeadAlgo_get_key_size (SpdmAeadAlgo_prioritize self' peer') = Ok n)
    \<and> SpdmAeadAlgo_get_iv_size (SpdmAeadAlgo_prioritize self' peer') = Ok 12
    \<and> SpdmAeadAlgo_get_tag_size (SpdmAeadAlgo_prioritize self' peer') = Ok 16"
proof -
  have h: "SpdmBaseHashAlgo_prioritize self peer \<in> set SpdmBaseHashAlgo_prio_table"
    using p_hash.prioritize_in_table [OF assms(1)] by (simp add: SpdmBaseHashAlgo_prioritize_def)
  have a: "SpdmAeadAlgo_prioritize self' peer' \<in> set SpdmAeadAlgo_prio_table"
    using p_aead.prioritize_in_table [OF assms(2)] by (simp add: SpdmAeadAlgo_prioritize_def)
  show ?thesis
    using h a
    by (auto simp: SpdmBaseHashAlgo_prio_table_def SpdmAeadAlgo_prio_table_def
        SpdmBaseHashAlgo_is_valid_one_select_def SpdmAeadAlgo_is_valid_one_select_def
        SpdmBaseHashAlgo_is_valid_def SpdmAeadAlgo_is_valid_def is_valid_def flag_masks
        is_no_more_than_one_selected_def SpdmBaseHashAlgo_get_size_def
        SpdmAeadAlgo_get_key_size_def SpdmAeadAlgo_get_iv_size_def SpdmAeadAlgo_get_tag_size_def)
qed

theorem negotiated_sizes_defined_witness:
  "SpdmBaseHashAlgo_get_size (SpdmBaseHashAlgo_prioritize 3 6) = Ok 48 \<and>
   SpdmAeadAlgo_get_tag_size (SpdmAeadAlgo_prioritize 7 5) = Ok 16"
proof -
  have "(3 :: SpdmBaseHashAlgo) AND 6 AND SpdmBaseHashAlgo_VALID_MASK \<noteq> 0"
    and "(7 :: SpdmAeadAlgo) AND 5 AND SpdmAeadAlgo_VALID_MASK \<noteq> 0"
    by (simp_all add: flag_masks)
  from negotiated_sizes_defined [OF this] show ?thesis
    by (simp add: SpdmBaseHashAlgo_prioritize_def prioritize_def SpdmBaseHashAlgo_prio_table_def
        SpdmBaseHashAlgo_get_size_def)
qed

text \<open>
  C36: The reader of the measurement hash algorithm drops SHA3-384 and SHA3-512: its mask names
  SHA3-256 three times, so a peer that selects one of the two declared algorithms is read as
  having selected none, and the codec does not round trip on them.
\<close>

theorem measurement_hash_sha3_lost:
  "SpdmMeasurementHashAlgo_read (rd_at pre (le_bytes 4 SpdmMeasurementHashAlgo_TPM_ALG_SHA3_384 @ post))
     = Some (0, rd_at (pre @ le_bytes 4 SpdmMeasurementHashAlgo_TPM_ALG_SHA3_384) post) \<and>
   SpdmMeasurementHashAlgo_read (rd_at pre (le_bytes 4 SpdmMeasurementHashAlgo_TPM_ALG_SHA3_512 @ post))
     = Some (0, rd_at (pre @ le_bytes 4 SpdmMeasurementHashAlgo_TPM_ALG_SHA3_512) post) \<and>
   SpdmMeasurementHashAlgo_get_size SpdmMeasurementHashAlgo_TPM_ALG_SHA3_384 = Ok 48"
  by (simp add: SpdmMeasurementHashAlgo_read_def flags_u32_read_def from_bits_def flag_masks
      SpdmMeasurementHashAlgo_get_size_def)

end
