(* ===== verification/Protocol_Data.thy ===== *)
theory Protocol_Data
  imports Algo
begin

text \<open>
  The remaining protocol data: compile-time sizes (\<open>spdmlib/etc/config.json\<close>, turned into
  constants by \<open>spdmlib/build.rs\<close>), \<open>protocol/version.rs\<close>, \<open>protocol/capability.rs\<close>, and the
  second part of \<open>protocol/algo.rs\<close>: nonces, certificate chain buffers and the fixed-capacity
  secret buffers with their conversions from HKDF output.

  Every struct made of \<open>data_size: u16\<close> and \<open>data: [u8; N]\<close> is a \<open>sized_data\<close>; \<open>sized_ok N\<close> says
  that the array has its N elements and that the size lies within it.
\<close>

section \<open>Definitions\<close>

subsection \<open>Configuration\<close>

record SpdmConfig =
  max_cert_chain_data_size :: nat
  max_measurement_record_size :: nat
  max_measurement_val_len :: nat
  max_psk_context_size :: nat
  max_psk_hint_size :: nat
  max_session_count :: nat
  sender_buffer_size :: nat
  receiver_buffer_size :: nat
  max_spdm_msg_size :: nat
  heartbeat_period_value :: u8

definition validate_content :: "SpdmConfig \<Rightarrow> bool" where
  "validate_content c \<longleftrightarrow>
    max_spdm_msg_size c \<ge> 42 \<and>
    receiver_buffer_size c > max_spdm_msg_size c + 24 \<and>
    sender_buffer_size c > max_spdm_msg_size c + 24 \<and>
    max_cert_chain_data_size c \<le> 0xFFFF \<and>
    max_measurement_record_size c \<le> 0xFFFFFF \<and>
    max_measurement_val_len c \<le> 0xFFFF - 7 \<and>
    max_measurement_record_size c \<ge> 7 + max_measurement_val_len c \<and>
    max_measurement_val_len c \<ge> 32 \<and>
    max_measurement_record_size c < max_spdm_msg_size c \<and>
    max_psk_context_size c \<ge> 32 \<and>
    max_psk_context_size c \<le> 0xFFFF \<and>
    max_psk_hint_size c \<le> 0xFFFF \<and>
    max_psk_context_size c + max_psk_hint_size c < max_spdm_msg_size c"

definition config :: SpdmConfig where
  "config = \<lparr>
    max_cert_chain_data_size = 4096,
    max_measurement_record_size = 4000,
    max_measurement_val_len = 1024,
    max_psk_context_size = 64,
    max_psk_hint_size = 32,
    max_session_count = 4,
    sender_buffer_size = 4160,
    receiver_buffer_size = 4160,
    max_spdm_msg_size = 4096,
    heartbeat_period_value = 0\<rparr>"

definition MAX_SPDM_CERT_CHAIN_DATA_SIZE :: nat where
  "MAX_SPDM_CERT_CHAIN_DATA_SIZE = max_cert_chain_data_size config"

definition MAX_SPDM_PSK_CONTEXT_SIZE :: nat where
  "MAX_SPDM_PSK_CONTEXT_SIZE = max_psk_context_size config"

definition MAX_SPDM_PSK_HINT_SIZE :: nat where
  "MAX_SPDM_PSK_HINT_SIZE = max_psk_hint_size config"

definition MAX_SPDM_SESSION_COUNT :: nat where
  "MAX_SPDM_SESSION_COUNT = max_session_count config"

definition SENDER_BUFFER_SIZE :: nat where
  "SENDER_BUFFER_SIZE = sender_buffer_size config"

definition RECEIVER_BUFFER_SIZE :: nat where
  "RECEIVER_BUFFER_SIZE = receiver_buffer_size config"

definition MAX_SPDM_MSG_SIZE :: nat where
  "MAX_SPDM_MSG_SIZE = max_spdm_msg_size config"

definition HEARTBEAT_PERIOD :: u8 where
  "HEARTBEAT_PERIOD = heartbeat_period_value config"

subsection \<open>Versions\<close>

datatype SpdmVersion =
    SpdmVersion10
  | SpdmVersion11
  | SpdmVersion12
  | SpdmVersionUnknown u8

fun SpdmVersion_get_u8 :: "SpdmVersion \<Rightarrow> u8" where
  "SpdmVersion_get_u8 SpdmVersion10 = 0x10"
| "SpdmVersion_get_u8 SpdmVersion11 = 0x11"
| "SpdmVersion_get_u8 SpdmVersion12 = 0x12"
| "SpdmVersion_get_u8 (SpdmVersionUnknown x) = x"

definition SpdmVersion_of_u8 :: "u8 \<Rightarrow> SpdmVersion" where
  "SpdmVersion_of_u8 x =
    (if x = 0x10 then SpdmVersion10
     else if x = 0x11 then SpdmVersion11
     else if x = 0x12 then SpdmVersion12
     else SpdmVersionUnknown x)"

definition SpdmVersion_default :: SpdmVersion where
  "SpdmVersion_default = SpdmVersionUnknown 0"

definition MAX_SPDM_VERSION_COUNT :: nat where
  "MAX_SPDM_VERSION_COUNT = 3"

definition SPDM_VERSION_1_2_SIGNING_PREFIX_CONTEXT :: bytes where
  "SPDM_VERSION_1_2_SIGNING_PREFIX_CONTEXT =
    [0x64, 0x6d, 0x74, 0x66, 0x2d, 0x73, 0x70, 0x64, 0x6d, 0x2d, 0x76, 0x31,
     0x2e, 0x32, 0x2e, 0x2a, 0x64, 0x6d, 0x74, 0x66, 0x2d, 0x73, 0x70, 0x64,
     0x6d, 0x2d, 0x76, 0x31, 0x2e, 0x32, 0x2e, 0x2a, 0x64, 0x6d, 0x74, 0x66,
     0x2d, 0x73, 0x70, 0x64, 0x6d, 0x2d, 0x76, 0x31, 0x2e, 0x32, 0x2e, 0x2a,
     0x64, 0x6d, 0x74, 0x66, 0x2d, 0x73, 0x70, 0x64, 0x6d, 0x2d, 0x76, 0x31,
     0x2e, 0x32, 0x2e, 0x2a]"

definition SPDM_CHALLENGE_AUTH_SIGN_CONTEXT :: bytes where
  "SPDM_CHALLENGE_AUTH_SIGN_CONTEXT =
    [0x72, 0x65, 0x73, 0x70, 0x6f, 0x6e, 0x64, 0x65, 0x72, 0x2d, 0x63, 0x68,
     0x61, 0x6c, 0x6c, 0x65, 0x6e, 0x67, 0x65, 0x5f, 0x61, 0x75, 0x74, 0x68,
     0x20, 0x73, 0x69, 0x67, 0x6e, 0x69, 0x6e, 0x67]"

definition SPDM_MUT_CHALLENGE_AUTH_SIGN_CONTEXT :: bytes where
  "SPDM_MUT_CHALLENGE_AUTH_SIGN_CONTEXT =
    [0x72, 0x65, 0x71, 0x75, 0x65, 0x73, 0x74, 0x65, 0x72, 0x2d, 0x63, 0x68,
     0x61, 0x6c, 0x6c, 0x65, 0x6e, 0x67, 0x65, 0x5f, 0x61, 0x75, 0x74, 0x68,
     0x20, 0x73, 0x69, 0x67, 0x6e, 0x69, 0x6e, 0x67]"

definition SPDM_MEASUREMENTS_SIGN_CONTEXT :: bytes where
  "SPDM_MEASUREMENTS_SIGN_CONTEXT =
    [0x72, 0x65, 0x73, 0x70, 0x6f, 0x6e, 0x64, 0x65, 0x72, 0x2d, 0x6d, 0x65,
     0x61, 0x73, 0x75, 0x72, 0x65, 0x6d, 0x65, 0x6e, 0x74, 0x73, 0x20, 0x73,
     0x69, 0x67, 0x6e, 0x69, 0x6e, 0x67]"

definition SPDM_KEY_EXCHANGE_RESPONSE_SIGN_CONTEXT :: bytes where
  "SPDM_KEY_EXCHANGE_RESPONSE_SIGN_CONTEXT =
    [0x72, 0x65, 0x73, 0x70, 0x6f, 0x6e, 0x64, 0x65, 0x72, 0x2d, 0x6b, 0x65,
     0x79, 0x5f, 0x65, 0x78, 0x63, 0x68, 0x61, 0x6e, 0x67, 0x65, 0x5f, 0x72,
     0x73, 0x70, 0x20, 0x73, 0x69, 0x67, 0x6e, 0x69, 0x6e, 0x67]"

definition SPDM_VERSION_1_2_KEY_EXCHANGE_REQUESTER_CONTEXT :: bytes where
  "SPDM_VERSION_1_2_KEY_EXCHANGE_REQUESTER_CONTEXT =
    [0x52, 0x65, 0x71, 0x75, 0x65, 0x73, 0x74, 0x65, 0x72, 0x2d, 0x4b, 0x45,
     0x50, 0x2d, 0x64, 0x6d, 0x74, 0x66, 0x2d, 0x73, 0x70, 0x64, 0x6d, 0x2d,
     0x76, 0x31, 0x2e, 0x32]"

definition SPDM_VERSION_1_2_KEY_EXCHANGE_RESPONDER_CONTEXT :: bytes where
  "SPDM_VERSION_1_2_KEY_EXCHANGE_RESPONDER_CONTEXT =
    [0x52, 0x65, 0x73, 0x70, 0x6f, 0x6e, 0x64, 0x65, 0x72, 0x2d, 0x4b, 0x45,
     0x50, 0x2d, 0x64, 0x6d, 0x74, 0x66, 0x2d, 0x73, 0x70, 0x64, 0x6d, 0x2d,
     0x76, 0x31, 0x2e, 0x32]"

definition SPDM_FINISH_SIGN_CONTEXT :: bytes where
  "SPDM_FINISH_SIGN_CONTEXT =
    [0x72, 0x65, 0x71, 0x75, 0x65, 0x73, 0x74, 0x65, 0x72, 0x2d, 0x66, 0x69,
     0x6e, 0x69, 0x73, 0x68, 0x20, 0x73, 0x69, 0x67, 0x6e, 0x69, 0x6e, 0x67]"

definition SPDM_VERSION_1_2_SIGNING_CONTEXT_ZEROPAD_2 :: bytes where
  "SPDM_VERSION_1_2_SIGNING_CONTEXT_ZEROPAD_2 =
    [0x0, 0x0]"

definition SPDM_VERSION_1_2_SIGNING_CONTEXT_ZEROPAD_4 :: bytes where
  "SPDM_VERSION_1_2_SIGNING_CONTEXT_ZEROPAD_4 =
    [0x0, 0x0, 0x0, 0x0]"

definition SPDM_VERSION_1_2_SIGNING_CONTEXT_ZEROPAD_6 :: bytes where
  "SPDM_VERSION_1_2_SIGNING_CONTEXT_ZEROPAD_6 =
    [0x0, 0x0, 0x0, 0x0, 0x0, 0x0]"

definition SPDM_VERSION_1_2_SIGNING_CONTEXT_ZEROPAD_8 :: bytes where
  "SPDM_VERSION_1_2_SIGNING_CONTEXT_ZEROPAD_8 =
    [0x0, 0x0, 0x0, 0x0, 0x0, 0x0, 0x0, 0x0]"

definition SPDM_VERSION_1_2_SIGNING_CONTEXT_ZEROPAD_12 :: bytes where
  "SPDM_VERSION_1_2_SIGNING_CONTEXT_ZEROPAD_12 =
    [0x0, 0x0, 0x0, 0x0, 0x0, 0x0, 0x0, 0x0, 0x0, 0x0, 0x0, 0x0]"

definition SPDM_VERSION_1_2_SIGNING_CONTEXT_SIZE :: nat where
  "SPDM_VERSION_1_2_SIGNING_CONTEXT_SIZE = 100"

subsection \<open>Capability flags\<close>

type_synonym SpdmRequestCapabilityFlags = u32

abbreviation (input) SpdmRequestCap_CERT_CAP :: SpdmRequestCapabilityFlags where
  "SpdmRequestCap_CERT_CAP \<equiv> 0x2"

abbreviation (input) SpdmRequestCap_CHAL_CAP :: SpdmRequestCapabilityFlags where
  "SpdmRequestCap_CHAL_CAP \<equiv> 0x4"

abbreviation (input) SpdmRequestCap_ENCRYPT_CAP :: SpdmRequestCapabilityFlags where
  "SpdmRequestCap_ENCRYPT_CAP \<equiv> 0x40"

abbreviation (input) SpdmRequestCap_MAC_CAP :: SpdmRequestCapabilityFlags where
  "SpdmRequestCap_MAC_CAP \<equiv> 0x80"

abbreviation (input) SpdmRequestCap_MUT_AUTH_CAP :: SpdmRequestCapabilityFlags where
  "SpdmRequestCap_MUT_AUTH_CAP \<equiv> 0x100"

abbreviation (input) SpdmRequestCap_KEY_EX_CAP :: SpdmRequestCapabilityFlags where
  "SpdmRequestCap_KEY_EX_CAP \<equiv> 0x200"

abbreviation (input) SpdmRequestCap_PSK_CAP :: SpdmRequestCapabilityFlags where
  "SpdmRequestCap_PSK_CAP \<equiv> 0x400"

abbreviation (input) SpdmRequestCap_PSK_RSVD :: SpdmRequestCapabilityFlags where
  "SpdmRequestCap_PSK_RSVD \<equiv> 0x800"

abbreviation (input) SpdmRequestCap_ENCAP_CAP :: SpdmRequestCapabilityFlags where
  "SpdmRequestCap_ENCAP_CAP \<equiv> 0x1000"

abbreviation (input) SpdmRequestCap_HBEAT_CAP :: SpdmRequestCapabilityFlags where
  "SpdmRequestCap_HBEAT_CAP \<equiv> 0x2000"

abbreviation (input) SpdmRequestCap_KEY_UPD_CAP :: SpdmRequestCapabilityFlags where
  "SpdmRequestCap_KEY_UPD_CAP \<equiv> 0x4000"

abbreviation (input) SpdmRequestCap_HANDSHAKE_IN_THE_CLEAR_CAP :: SpdmRequestCapabilityFlags where
  "SpdmRequestCap_HANDSHAKE_IN_THE_CLEAR_CAP \<equiv> 0x8000"

abbreviation (input) SpdmRequestCap_PUB_KEY_ID_CAP :: SpdmRequestCapabilityFlags where
  "SpdmRequestCap_PUB_KEY_ID_CAP \<equiv> 0x10000"

abbreviation (input) SpdmRequestCap_CHUNK_CAP :: SpdmRequestCapabilityFlags where
  "SpdmRequestCap_CHUNK_CAP \<equiv> 0x20000"

definition SpdmRequestCapabilityFlags_VALID_MASK :: SpdmRequestCapabilityFlags where
  "SpdmRequestCapabilityFlags_VALID_MASK =
    SpdmRequestCap_CERT_CAP
    OR SpdmRequestCap_CHAL_CAP
    OR SpdmRequestCap_ENCRYPT_CAP
    OR SpdmRequestCap_MAC_CAP
    OR SpdmRequestCap_MUT_AUTH_CAP
    OR SpdmRequestCap_KEY_EX_CAP
    OR SpdmRequestCap_PSK_CAP
    OR SpdmRequestCap_PSK_RSVD
    OR SpdmRequestCap_ENCAP_CAP
    OR SpdmRequestCap_HBEAT_CAP
    OR SpdmRequestCap_KEY_UPD_CAP
    OR SpdmRequestCap_HANDSHAKE_IN_THE_CLEAR_CAP
    OR SpdmRequestCap_PUB_KEY_ID_CAP
    OR SpdmRequestCap_CHUNK_CAP"

definition SpdmRequestCapabilityFlags_encode :: "SpdmRequestCapabilityFlags \<Rightarrow> EncodeErr enc" where
  "SpdmRequestCapabilityFlags_encode = u32_encode"

definition SpdmRequestCapabilityFlags_read :: "SpdmRequestCapabilityFlags rd" where
  "SpdmRequestCapabilityFlags_read = flags_u32_read SpdmRequestCapabilityFlags_VALID_MASK SpdmRequestCapabilityFlags_VALID_MASK"

type_synonym SpdmResponseCapabilityFlags = u32

abbreviation (input) SpdmResponseCap_CACHE_CAP :: SpdmResponseCapabilityFlags where
  "SpdmResponseCap_CACHE_CAP \<equiv> 0x1"

abbreviation (input) SpdmResponseCap_CERT_CAP :: SpdmResponseCapabilityFlags where
  "SpdmResponseCap_CERT_CAP \<equiv> 0x2"

abbreviation (input) SpdmResponseCap_CHAL_CAP :: SpdmResponseCapabilityFlags where
  "SpdmResponseCap_CHAL_CAP \<equiv> 0x4"

abbreviation (input) SpdmResponseCap_MEAS_CAP_NO_SIG :: SpdmResponseCapabilityFlags where
  "SpdmResponseCap_MEAS_CAP_NO_SIG \<equiv> 0x8"

abbreviation (input) SpdmResponseCap_MEAS_CAP_SIG :: SpdmResponseCapabilityFlags where
  "SpdmResponseCap_MEAS_CAP_SIG \<equiv> 0x10"

abbreviation (input) SpdmResponseCap_MEAS_FRESH_CAP :: SpdmResponseCapabilityFlags where
  "SpdmResponseCap_MEAS_FRESH_CAP \<equiv> 0x20"

abbreviation (input) SpdmResponseCap_ENCRYPT_CAP :: SpdmResponseCapabilityFlags where
  "SpdmResponseCap_ENCRYPT_CAP \<equiv> 0x40"

abbreviation (input) SpdmResponseCap_MAC_CAP :: SpdmResponseCapabilityFlags where
  "SpdmResponseCap_MAC_CAP \<equiv> 0x80"

abbreviation (input) SpdmResponseCap_MUT_AUTH_CAP :: SpdmResponseCapabilityFlags where
  "SpdmResponseCap_MUT_AUTH_CAP \<equiv> 0x100"

abbreviation (input) SpdmResponseCap_KEY_EX_CAP :: SpdmResponseCapabilityFlags where
  "SpdmResponseCap_KEY_EX_CAP \<equiv> 0x200"

abbreviation (input) SpdmResponseCap_PSK_CAP_WITHOUT_CONTEXT :: SpdmResponseCapabilityFlags where
  "SpdmResponseCap_PSK_CAP_WITHOUT_CONTEXT \<equiv> 0x400"

abbreviation (input) SpdmResponseCap_PSK_CAP_WITH_CONTEXT :: SpdmResponseCapabilityFlags where
  "SpdmResponseCap_PSK_CAP_WITH_CONTEXT \<equiv> 0x800"

abbreviation (input) SpdmResponseCap_ENCAP_CAP :: SpdmResponseCapabilityFlags where
  "SpdmResponseCap_ENCAP_CAP \<equiv> 0x1000"

abbreviation (input) SpdmResponseCap_HBEAT_CAP :: SpdmResponseCapabilityFlags where
  "SpdmResponseCap_HBEAT_CAP \<equiv> 0x2000"

abbreviation (input) SpdmResponseCap_KEY_UPD_CAP :: SpdmResponseCapabilityFlags where
  "SpdmResponseCap_KEY_UPD_CAP \<equiv> 0x4000"

abbreviation (input) SpdmResponseCap_HANDSHAKE_IN_THE_CLEAR_CAP :: SpdmResponseCapabilityFlags where
  "SpdmResponseCap_HANDSHAKE_IN_THE_CLEAR_CAP \<equiv> 0x8000"

abbreviation (input) SpdmResponseCap_PUB_KEY_ID_CAP :: SpdmResponseCapabilityFlags where
  "SpdmResponseCap_PUB_KEY_ID_CAP \<equiv> 0x10000"

abbreviation (input) SpdmResponseCap_CHUNK_CAP :: SpdmResponseCapabilityFlags where
  "SpdmResponseCap_CHUNK_CAP \<equiv> 0x20000"

abbreviation (input) SpdmResponseCap_ALIAS_CERT_CAP :: SpdmResponseCapabilityFlags where
  "SpdmResponseCap_ALIAS_CERT_CAP \<equiv> 0x40000"

abbreviation (input) SpdmResponseCap_SET_CERT_CAP :: SpdmResponseCapabilityFlags where
  "SpdmResponseCap_SET_CERT_CAP \<equiv> 0x80000"

abbreviation (input) SpdmResponseCap_CSR_CAP :: SpdmResponseCapabilityFlags where
  "SpdmResponseCap_CSR_CAP \<equiv> 0x100000"

abbreviation (input) SpdmResponseCap_CERT_INSTALL_RESET_CAP :: SpdmResponseCapabilityFlags where
  "SpdmResponseCap_CERT_INSTALL_RESET_CAP \<equiv> 0x200000"

definition SpdmResponseCapabilityFlags_VALID_MASK :: SpdmResponseCapabilityFlags where
  "SpdmResponseCapabilityFlags_VALID_MASK =
    SpdmResponseCap_CACHE_CAP
    OR SpdmResponseCap_CERT_CAP
    OR SpdmResponseCap_CHAL_CAP
    OR SpdmResponseCap_MEAS_CAP_NO_SIG
    OR SpdmResponseCap_MEAS_CAP_SIG
    OR SpdmResponseCap_MEAS_FRESH_CAP
    OR SpdmResponseCap_ENCRYPT_CAP
    OR SpdmResponseCap_MAC_CAP
    OR SpdmResponseCap_MUT_AUTH_CAP
    OR SpdmResponseCap_KEY_EX_CAP
    OR SpdmResponseCap_PSK_CAP_WITHOUT_CONTEXT
    OR SpdmResponseCap_PSK_CAP_WITH_CONTEXT
    OR SpdmResponseCap_ENCAP_CAP
    OR SpdmResponseCap_HBEAT_CAP
    OR SpdmResponseCap_KEY_UPD_CAP
    OR SpdmResponseCap_HANDSHAKE_IN_THE_CLEAR_CAP
    OR SpdmResponseCap_PUB_KEY_ID_CAP
    OR SpdmResponseCap_CHUNK_CAP
    OR SpdmResponseCap_ALIAS_CERT_CAP
    OR SpdmResponseCap_SET_CERT_CAP
    OR SpdmResponseCap_CSR_CAP
    OR SpdmResponseCap_CERT_INSTALL_RESET_CAP"

definition SpdmResponseCapabilityFlags_encode :: "SpdmResponseCapabilityFlags \<Rightarrow> EncodeErr enc" where
  "SpdmResponseCapabilityFlags_encode = u32_encode"

definition SpdmResponseCapabilityFlags_read :: "SpdmResponseCapabilityFlags rd" where
  "SpdmResponseCapabilityFlags_read = flags_u32_read SpdmResponseCapabilityFlags_VALID_MASK SpdmResponseCapabilityFlags_VALID_MASK"

subsection \<open>Fixed-capacity buffers\<close>

record sized_data =
  data_size :: u16
  data :: bytes

definition sized_default :: "nat \<Rightarrow> sized_data" where
  "sized_default n = \<lparr>data_size = 0, data = replicate n 0\<rparr>"

definition as_ref :: "sized_data \<Rightarrow> bytes" where
  "as_ref s = take (unat (data_size s)) (data s)"

definition sized_from :: "nat \<Rightarrow> bytes \<Rightarrow> sized_data SpdmResult" where
  "sized_from n v =
    (if length v \<le> n
     then Ok \<lparr>data_size = of_nat (length v), data = write_at (replicate n 0) 0 v\<rparr>
     else Panic)"

text \<open>\<open>from_spdm_hkdf_okm\<close> and \<open>from_spdm_hkdf_prk\<close>, with the capacity of the target type.\<close>

definition from_hkdf :: "nat \<Rightarrow> sized_data \<Rightarrow> sized_data option" where
  "from_hkdf n src =
    (if data_size src = 0 \<or> data_size src > of_nat n then None
     else Some \<lparr>data_size = data_size src,
       data = write_at (replicate n 0) 0 (take (unat (data_size src)) (data src))\<rparr>)"

definition sized_ok :: "nat \<Rightarrow> sized_data \<Rightarrow> bool" where
  "sized_ok n s \<longleftrightarrow> length (data s) = n \<and> unat (data_size s) \<le> n"

type_synonym SpdmDigestStruct = sized_data
type_synonym SpdmSignatureStruct = sized_data
type_synonym SpdmCertChainData = sized_data
type_synonym SpdmCertChainBuffer = sized_data
type_synonym SpdmDheExchangeStruct = sized_data
type_synonym SpdmPskContextStruct = sized_data
type_synonym SpdmPskHintStruct = sized_data
type_synonym SpdmDheFinalKeyStruct = sized_data
type_synonym SpdmHandshakeSecretStruct = sized_data
type_synonym SpdmDirectionHandshakeSecretStruct = sized_data
type_synonym SpdmFinishedKeyStruct = sized_data
type_synonym SpdmMasterSecretStruct = sized_data
type_synonym SpdmDirectionDataSecretStruct = sized_data
type_synonym SpdmAeadKeyStruct = sized_data
type_synonym SpdmAeadIvStruct = sized_data
type_synonym SpdmExportMasterSecretStruct = sized_data
type_synonym SpdmZeroFilledStruct = sized_data
type_synonym SpdmHkdfPseudoRandomKey = sized_data
type_synonym SpdmHkdfOutputKeyingMaterial = sized_data

definition SpdmHandshakeSecretStruct_from_spdm_hkdf_okm :: "SpdmHkdfOutputKeyingMaterial \<Rightarrow> SpdmHandshakeSecretStruct option" where
  "SpdmHandshakeSecretStruct_from_spdm_hkdf_okm okm = from_hkdf SPDM_MAX_HASH_SIZE okm"

definition SpdmHandshakeSecretStruct_from_spdm_hkdf_prk :: "SpdmHkdfPseudoRandomKey \<Rightarrow> SpdmHandshakeSecretStruct option" where
  "SpdmHandshakeSecretStruct_from_spdm_hkdf_prk prk = from_hkdf SPDM_MAX_HASH_SIZE prk"

definition SpdmDirectionHandshakeSecretStruct_from_spdm_hkdf_okm :: "SpdmHkdfOutputKeyingMaterial \<Rightarrow> SpdmDirectionHandshakeSecretStruct option" where
  "SpdmDirectionHandshakeSecretStruct_from_spdm_hkdf_okm okm = from_hkdf SPDM_MAX_HASH_SIZE okm"

definition SpdmDirectionHandshakeSecretStruct_from_spdm_hkdf_prk :: "SpdmHkdfPseudoRandomKey \<Rightarrow> SpdmDirectionHandshakeSecretStruct option" where
  "SpdmDirectionHandshakeSecretStruct_from_spdm_hkdf_prk prk = from_hkdf SPDM_MAX_HASH_SIZE prk"

definition SpdmMasterSecretStruct_from_spdm_hkdf_okm :: "SpdmHkdfOutputKeyingMaterial \<Rightarrow> SpdmMasterSecretStruct option" where
  "SpdmMasterSecretStruct_from_spdm_hkdf_okm okm = from_hkdf SPDM_MAX_HASH_SIZE okm"

definition SpdmMasterSecretStruct_from_spdm_hkdf_prk :: "SpdmHkdfPseudoRandomKey \<Rightarrow> SpdmMasterSecretStruct option" where
  "SpdmMasterSecretStruct_from_spdm_hkdf_prk prk = from_hkdf SPDM_MAX_HASH_SIZE prk"

definition SpdmDirectionDataSecretStruct_from_spdm_hkdf_okm :: "SpdmHkdfOutputKeyingMaterial \<Rightarrow> SpdmDirectionDataSecretStruct option" where
  "SpdmDirectionDataSecretStruct_from_spdm_hkdf_okm okm = from_hkdf SPDM_MAX_HASH_SIZE okm"

definition SpdmDirectionDataSecretStruct_from_spdm_hkdf_prk :: "SpdmHkdfPseudoRandomKey \<Rightarrow> SpdmDirectionDataSecretStruct option" where
  "SpdmDirectionDataSecretStruct_from_spdm_hkdf_prk prk = from_hkdf SPDM_MAX_HASH_SIZE prk"

definition SpdmAeadKeyStruct_from_spdm_hkdf_okm :: "SpdmHkdfOutputKeyingMaterial \<Rightarrow> SpdmAeadKeyStruct option" where
  "SpdmAeadKeyStruct_from_spdm_hkdf_okm okm = from_hkdf SPDM_MAX_AEAD_KEY_SIZE okm"

definition SpdmAeadKeyStruct_from_spdm_hkdf_prk :: "SpdmHkdfPseudoRandomKey \<Rightarrow> SpdmAeadKeyStruct option" where
  "SpdmAeadKeyStruct_from_spdm_hkdf_prk prk = from_hkdf SPDM_MAX_AEAD_KEY_SIZE prk"

definition SpdmAeadIvStruct_from_spdm_hkdf_okm :: "SpdmHkdfOutputKeyingMaterial \<Rightarrow> SpdmAeadIvStruct option" where
  "SpdmAeadIvStruct_from_spdm_hkdf_okm okm = from_hkdf SPDM_MAX_AEAD_IV_SIZE okm"

definition SpdmAeadIvStruct_from_spdm_hkdf_prk :: "SpdmHkdfPseudoRandomKey \<Rightarrow> SpdmAeadIvStruct option" where
  "SpdmAeadIvStruct_from_spdm_hkdf_prk prk = from_hkdf SPDM_MAX_AEAD_IV_SIZE prk"

definition SpdmFinishedKeyStruct_from_spdm_hkdf_okm :: "SpdmHkdfOutputKeyingMaterial \<Rightarrow> SpdmFinishedKeyStruct option" where
  "SpdmFinishedKeyStruct_from_spdm_hkdf_okm okm = from_hkdf SPDM_MAX_HASH_SIZE okm"

definition SpdmFinishedKeyStruct_from_spdm_hkdf_prk :: "SpdmHkdfPseudoRandomKey \<Rightarrow> SpdmFinishedKeyStruct option" where
  "SpdmFinishedKeyStruct_from_spdm_hkdf_prk prk = from_hkdf SPDM_MAX_HASH_SIZE prk"

definition SpdmExportMasterSecretStruct_from_spdm_hkdf_okm :: "SpdmHkdfOutputKeyingMaterial \<Rightarrow> SpdmExportMasterSecretStruct option" where
  "SpdmExportMasterSecretStruct_from_spdm_hkdf_okm okm = from_hkdf SPDM_MAX_HASH_SIZE okm"

definition SpdmExportMasterSecretStruct_from_spdm_hkdf_prk :: "SpdmHkdfPseudoRandomKey \<Rightarrow> SpdmExportMasterSecretStruct option" where
  "SpdmExportMasterSecretStruct_from_spdm_hkdf_prk prk = from_hkdf SPDM_MAX_HASH_SIZE prk"

datatype SpdmHkdfInputKeyingMaterial =
    Ikm_ZeroFilled SpdmZeroFilledStruct
  | Ikm_DheFinalKey SpdmDheFinalKeyStruct
  | Ikm_HandshakeSecret SpdmHandshakeSecretStruct
  | Ikm_DirectionHandshakeSecret SpdmDirectionHandshakeSecretStruct
  | Ikm_FinishedKey SpdmFinishedKeyStruct
  | Ikm_Digest SpdmDigestStruct
  | Ikm_MasterSecret SpdmMasterSecretStruct
  | Ikm_DirectionDataSecret SpdmDirectionDataSecretStruct

fun ikm_inner :: "SpdmHkdfInputKeyingMaterial \<Rightarrow> sized_data" where
  "ikm_inner (Ikm_ZeroFilled inner) = inner"
| "ikm_inner (Ikm_DheFinalKey inner) = inner"
| "ikm_inner (Ikm_HandshakeSecret inner) = inner"
| "ikm_inner (Ikm_DirectionHandshakeSecret inner) = inner"
| "ikm_inner (Ikm_FinishedKey inner) = inner"
| "ikm_inner (Ikm_Digest inner) = inner"
| "ikm_inner (Ikm_MasterSecret inner) = inner"
| "ikm_inner (Ikm_DirectionDataSecret inner) = inner"

definition ikm_as_ref :: "SpdmHkdfInputKeyingMaterial \<Rightarrow> bytes" where
  "ikm_as_ref ikm = as_ref (ikm_inner ikm)"

definition ikm_get_data_size :: "SpdmHkdfInputKeyingMaterial \<Rightarrow> u16" where
  "ikm_get_data_size ikm = data_size (ikm_inner ikm)"

definition SpdmHkdfPseudoRandomKey_from_input_keying_material ::
    "SpdmHkdfInputKeyingMaterial \<Rightarrow> SpdmHkdfPseudoRandomKey option" where
  "SpdmHkdfPseudoRandomKey_from_input_keying_material ikm =
    from_hkdf SPDM_MAX_HASH_SIZE (ikm_inner ikm)"

subsection \<open>Certificate chain buffer\<close>

text \<open>
  \<open>SpdmCertChainBuffer::new\<close>. The array has 4 + SPDM\_MAX\_HASH\_SIZE + MAX\_SPDM\_CERT\_CHAIN\_DATA\_SIZE
  bytes; the slice assignments panic when hash and certificates do not fit in it.
\<close>

definition SpdmCertChainBuffer_capacity :: nat where
  "SpdmCertChainBuffer_capacity = 4 + SPDM_MAX_HASH_SIZE + MAX_SPDM_CERT_CHAIN_DATA_SIZE"

definition SpdmCertChainBuffer_new ::
    "bytes \<Rightarrow> bytes \<Rightarrow> SpdmCertChainBuffer option SpdmResult" where
  "SpdmCertChainBuffer_new cert_chain root_cert_hash =
    (if length cert_chain + 4 + length root_cert_hash > 0xFFFF then Ok None
     else if 4 + length root_cert_hash + length cert_chain > SpdmCertChainBuffer_capacity
     then Panic
     else
       (let total_len = of_nat (length cert_chain + length root_cert_hash + 4) :: u16;
            d = replicate SpdmCertChainBuffer_capacity 0;
            d = write_at d 0 (le_bytes 2 total_len);
            d = write_at d 2 [0, 0];
            d = write_at d 4 root_cert_hash;
            d = write_at d (4 + length root_cert_hash) cert_chain
        in Ok (Some \<lparr>data_size = of_nat (4 + length root_cert_hash + length cert_chain), data = d\<rparr>)))"

subsection \<open>Nonces\<close>

fun read_array :: "nat \<Rightarrow> bytes rd" where
  "read_array 0 r = Some ([], r)"
| "read_array (Suc n) r = do { (b, r) \<leftarrow> u8_read r; (bs, r) \<leftarrow> read_array n r; Some (b # bs, r) }"

definition encode_array :: "bytes \<Rightarrow> EncodeErr enc" where
  "encode_array bs = encs (map u8_encode bs)"

type_synonym SpdmNonceStruct = bytes
type_synonym SpdmRandomStruct = bytes

definition SpdmNonceStruct_encode :: "SpdmNonceStruct \<Rightarrow> EncodeErr enc" where
  "SpdmNonceStruct_encode d = encode_array d"

definition SpdmNonceStruct_read :: "SpdmNonceStruct rd" where
  "SpdmNonceStruct_read = read_array SPDM_NONCE_SIZE"

definition SpdmRandomStruct_encode :: "SpdmRandomStruct \<Rightarrow> EncodeErr enc" where
  "SpdmRandomStruct_encode d = encode_array d"

definition SpdmRandomStruct_read :: "SpdmRandomStruct rd" where
  "SpdmRandomStruct_read = read_array SPDM_RANDOM_SIZE"

datatype SpdmMeasurementSummaryHashType =
    SpdmMeasurementSummaryHashTypeNone
  | SpdmMeasurementSummaryHashTypeTcb
  | SpdmMeasurementSummaryHashTypeAll
  | SpdmMeasurementSummaryHashTypeUnknown u8

fun SpdmMeasurementSummaryHashType_get_u8 :: "SpdmMeasurementSummaryHashType \<Rightarrow> u8" where
  "SpdmMeasurementSummaryHashType_get_u8 SpdmMeasurementSummaryHashTypeNone = 0x0"
| "SpdmMeasurementSummaryHashType_get_u8 SpdmMeasurementSummaryHashTypeTcb = 0x1"
| "SpdmMeasurementSummaryHashType_get_u8 SpdmMeasurementSummaryHashTypeAll = 0xFF"
| "SpdmMeasurementSummaryHashType_get_u8 (SpdmMeasurementSummaryHashTypeUnknown x) = x"

definition SpdmMeasurementSummaryHashType_of_u8 :: "u8 \<Rightarrow> SpdmMeasurementSummaryHashType" where
  "SpdmMeasurementSummaryHashType_of_u8 x =
    (if x = 0x0 then SpdmMeasurementSummaryHashTypeNone
     else if x = 0x1 then SpdmMeasurementSummaryHashTypeTcb
     else if x = 0xFF then SpdmMeasurementSummaryHashTypeAll
     else SpdmMeasurementSummaryHashTypeUnknown x)"

definition signing_context_string :: "string \<Rightarrow> bytes" where
  "signing_context_string s = map of_char s"

section \<open>Configuration\<close>

lemma config_valid: "validate_content config"
  by (simp add: validate_content_def config_def)

section \<open>Fixed-capacity buffers\<close>

lemma sized_default_ok [simp]: "sized_ok n (sized_default n)"
  by (simp add: sized_ok_def sized_default_def)

lemma as_ref_default [simp]: "as_ref (sized_default n) = []"
  by (simp add: as_ref_def sized_default_def)

lemma length_as_ref: "sized_ok n s \<Longrightarrow> length (as_ref s) = unat (data_size s)"
  by (simp add: sized_ok_def as_ref_def)

lemma unat_of_nat_u16 [simp]: "k \<le> 0xFFFF \<Longrightarrow> unat (of_nat k :: u16) = k"
  by (simp add: unat_of_nat)

lemma sized_from_Ok:
  assumes "sized_from n v = Ok s" and "n \<le> 0xFFFF"
  shows "sized_ok n s" and "as_ref s = v"
  using assms by (auto simp: sized_from_def sized_ok_def as_ref_def write_at_eq split: if_splits)

lemma sized_from_Panic_iff: "sized_from n v = Panic \<longleftrightarrow> n < length v"
  by (auto simp: sized_from_def)

lemma from_hkdf_Some:
  assumes "from_hkdf n src = Some s" and "sized_ok m src" and "n \<le> m" and "m \<le> 0xFFFF"
  shows "sized_ok n s" and "as_ref s = as_ref src" and "as_ref s \<noteq> []"
proof -
  have le: "\<not> of_nat n < data_size src" and ne: "data_size src \<noteq> 0"
    and s: "s = \<lparr>data_size = data_size src,
       data = write_at (replicate n 0) 0 (take (unat (data_size src)) (data src))\<rparr>"
    using assms(1) by (auto simp: from_hkdf_def split: if_splits)
  have size: "unat (data_size src) \<le> n"
    using le assms(3,4) by (simp add: word_less_nat_alt)
  moreover have "length (data src) = m" using assms(2) by (simp add: sized_ok_def)
  ultimately show "sized_ok n s" "as_ref s = as_ref src" "as_ref s \<noteq> []"
    using assms(3) ne by (auto simp: s sized_ok_def as_ref_def write_at_eq min_def unat_eq_zero)
qed

section \<open>Codecs\<close>

lemma SpdmVersion_get_of [simp]: "SpdmVersion_get_u8 (SpdmVersion_of_u8 v) = v"
  by (simp add: SpdmVersion_of_u8_def)

lemma SpdmMeasurementSummaryHashType_get_of [simp]:
  "SpdmMeasurementSummaryHashType_get_u8 (SpdmMeasurementSummaryHashType_of_u8 v) = v"
  by (simp add: SpdmMeasurementSummaryHashType_of_u8_def)

interpretation e_version: enum_u8 SpdmVersion_get_u8 SpdmVersion_of_u8
  by unfold_locales simp

interpretation e_summary: enum_u8 SpdmMeasurementSummaryHashType_get_u8
    SpdmMeasurementSummaryHashType_of_u8
  by unfold_locales simp

interpretation c_reqcap: codec SpdmRequestCapabilityFlags_encode SpdmRequestCapabilityFlags_read
    "le_bytes 4" "\<lambda>x. x AND SpdmRequestCapabilityFlags_VALID_MASK = x"
  by unfold_locales
    (simp_all add: SpdmRequestCapabilityFlags_encode_def SpdmRequestCapabilityFlags_read_def emits_u32)

interpretation c_rspcap: codec SpdmResponseCapabilityFlags_encode SpdmResponseCapabilityFlags_read
    "le_bytes 4" "\<lambda>x. x AND SpdmResponseCapabilityFlags_VALID_MASK = x"
  by unfold_locales
    (simp_all add: SpdmResponseCapabilityFlags_encode_def SpdmResponseCapabilityFlags_read_def
      emits_u32)

lemma emits_encode_array [wire]: "emits (encode_array bs) bs"
proof -
  have "list_all2 emits (map u8_encode bs) (map (\<lambda>b. [b]) bs)"
    by (simp add: list_all2_conv_all_nth emits_u8)
  from emits_encs [OF this] show ?thesis
    by (simp add: encode_array_def)
qed

lemma read_array_rd_at [simp]:
  "length bs = n \<Longrightarrow> read_array n (rd_at pre (bs @ post)) = Some (bs, rd_at (pre @ bs) post)"
  by (induction n arbitrary: bs pre) (auto simp: length_Suc_conv)

lemma read_array_Some_length: "read_array n r = Some (bs, r') \<Longrightarrow> length bs = n"
  by (induction n arbitrary: r bs) (auto split: Option.bind_splits prod.splits)

interpretation c_nonce: codec SpdmNonceStruct_encode SpdmNonceStruct_read "\<lambda>d. d"
    "\<lambda>d. length d = SPDM_NONCE_SIZE"
  by unfold_locales (simp_all add: SpdmNonceStruct_encode_def SpdmNonceStruct_read_def emits_encode_array)

interpretation c_random: codec SpdmRandomStruct_encode SpdmRandomStruct_read "\<lambda>d. d"
    "\<lambda>d. length d = SPDM_RANDOM_SIZE"
  by unfold_locales (simp_all add: SpdmRandomStruct_encode_def SpdmRandomStruct_read_def emits_encode_array)

section \<open>Certificate chain buffer\<close>

lemma SpdmCertChainBuffer_capacity_val: "SpdmCertChainBuffer_capacity = 4164"
  by (simp add: SpdmCertChainBuffer_capacity_def MAX_SPDM_CERT_CHAIN_DATA_SIZE_def config_def)

lemma SpdmCertChainBuffer_new_Some:
  assumes "4 + length hash + length certs \<le> SpdmCertChainBuffer_capacity"
  obtains b where "SpdmCertChainBuffer_new certs hash = Ok (Some b)"
    "as_ref b = le_bytes 2 (of_nat (length certs + length hash + 4) :: u16) @ [0, 0] @ hash @ certs"
    "sized_ok SpdmCertChainBuffer_capacity b"
proof -
  let ?c = SpdmCertChainBuffer_capacity
  define n where "n = 4 + length hash + length certs"
  define h where "h = le_bytes 2 (of_nat (length certs + length hash + 4) :: u16)"
  define d where "d = write_at (write_at (write_at (write_at (replicate ?c 0) 0 h) 2 [0, 0]) 4 hash)
      (4 + length hash) certs"
  have n: "n \<le> ?c" "n \<le> 0xFFFF"
    using assms by (simp_all add: n_def SpdmCertChainBuffer_capacity_val)
  have h: "length h = 2" by (simp add: h_def)
  then have "d = write_at (replicate ?c 0) 0 (h @ [0, 0] @ hash @ certs)"
    by (simp add: d_def write_at_append numeral_eq_Suc add.assoc)
  then have "take n d = h @ [0, 0] @ hash @ certs"
    using n h by (simp add: write_at_eq n_def)
  moreover have "SpdmCertChainBuffer_new certs hash = Ok (Some \<lparr>data_size = of_nat n, data = d\<rparr>)"
    using n unfolding SpdmCertChainBuffer_new_def Let_def n_def d_def h_def by simp
  moreover have "length d = ?c" by (simp add: d_def)
  ultimately show ?thesis
    using n that [of "\<lparr>data_size = of_nat n, data = d\<rparr>"]
    by (simp add: as_ref_def sized_ok_def h_def)
qed

section \<open>Properties\<close>

text \<open>
  A certificate chain that fits the buffer is laid out as DSP0274 requires: two bytes of total
  length, two reserved zero bytes, the root hash, the certificates, and the recorded size is the
  number of these bytes.
\<close>

theorem cert_chain_buffer_layout:
  assumes "4 + length hash + length certs \<le> SpdmCertChainBuffer_capacity"
  shows "\<exists>b. SpdmCertChainBuffer_new certs hash = Ok (Some b) \<and>
    as_ref b = le_bytes 2 (of_nat (length certs + length hash + 4) :: u16) @ [0, 0] @ hash @ certs \<and>
    unat (data_size b) = length certs + length hash + 4"
proof -
  obtain b where b: "SpdmCertChainBuffer_new certs hash = Ok (Some b)"
    "as_ref b = le_bytes 2 (of_nat (length certs + length hash + 4) :: u16) @ [0, 0] @ hash @ certs"
    "sized_ok SpdmCertChainBuffer_capacity b"
    by (rule SpdmCertChainBuffer_new_Some [OF assms])
  with length_as_ref [OF b(3)] show ?thesis by (intro exI [of _ b]) simp
qed

theorem cert_chain_buffer_layout_witness:
  "\<exists>b. SpdmCertChainBuffer_new [0x30, 0x82] [7, 8, 9] = Ok (Some b) \<and>
    as_ref b = [9, 0, 0, 0, 7, 8, 9, 0x30, 0x82] \<and> unat (data_size b) = 9"
  using cert_chain_buffer_layout [of "[7, 8, 9]" "[0x30, 0x82]"]
  by (simp add: SpdmCertChainBuffer_capacity_val le_bytes_numeral)

text \<open>
  The SPDM 1.2 signing contexts are the strings the specification names, and prefix, zero
  padding and context together always have the 100 bytes the signing buffers reserve.
\<close>

theorem signing_contexts:
  "SPDM_CHALLENGE_AUTH_SIGN_CONTEXT = signing_context_string ''responder-challenge_auth signing'' \<and>
   SPDM_MUT_CHALLENGE_AUTH_SIGN_CONTEXT = signing_context_string ''requester-challenge_auth signing'' \<and>
   SPDM_MEASUREMENTS_SIGN_CONTEXT = signing_context_string ''responder-measurements signing'' \<and>
   SPDM_KEY_EXCHANGE_RESPONSE_SIGN_CONTEXT =
     signing_context_string ''responder-key_exchange_rsp signing'' \<and>
   SPDM_FINISH_SIGN_CONTEXT = signing_context_string ''requester-finish signing'' \<and>
   SPDM_VERSION_1_2_SIGNING_PREFIX_CONTEXT =
     concat (replicate 4 (signing_context_string ''dmtf-spdm-v1.2.*'')) \<and>
   map (\<lambda>(pad, ctx). length (SPDM_VERSION_1_2_SIGNING_PREFIX_CONTEXT @ pad @ ctx))
     [(SPDM_VERSION_1_2_SIGNING_CONTEXT_ZEROPAD_4, SPDM_CHALLENGE_AUTH_SIGN_CONTEXT),
      (SPDM_VERSION_1_2_SIGNING_CONTEXT_ZEROPAD_4, SPDM_MUT_CHALLENGE_AUTH_SIGN_CONTEXT),
      (SPDM_VERSION_1_2_SIGNING_CONTEXT_ZEROPAD_6, SPDM_MEASUREMENTS_SIGN_CONTEXT),
      (SPDM_VERSION_1_2_SIGNING_CONTEXT_ZEROPAD_2, SPDM_KEY_EXCHANGE_RESPONSE_SIGN_CONTEXT),
      (SPDM_VERSION_1_2_SIGNING_CONTEXT_ZEROPAD_12, SPDM_FINISH_SIGN_CONTEXT)] =
     replicate 5 SPDM_VERSION_1_2_SIGNING_CONTEXT_SIZE"
  by code_simp

end
