(* ===== verification/Managed_Buffer.thy ===== *)
theory Managed_Buffer
  imports Protocol_Data
begin

text \<open>
  The transcript buffers of \<open>spdmlib/src/common/mod.rs\<close>. The ten structs \<open>ManagedBufferA\<close> to
  \<open>ManagedBuffer12Sign\<close> have the same implementation with different capacities; \<open>managed_buffer\<close>
  is the pair of used length and array, and each struct has its capacity and default value.

  The locale \<open>transcript_buffer\<close> is the contract the transcripts rely on: appending either adds
  the bytes at the end or refuses and changes nothing, and resetting empties the buffer.
\<close>

section \<open>Definitions\<close>

definition MAX_SPDM_OPAQUE_SIZE :: nat where
  "MAX_SPDM_OPAQUE_SIZE = 1024"

definition SPDM_MAX_SLOT_NUMBER :: nat where
  "SPDM_MAX_SLOT_NUMBER = 8"

definition MAX_MANAGED_BUFFER_A_SIZE :: nat where
  "MAX_MANAGED_BUFFER_A_SIZE = 150 + 2 * MAX_SPDM_VERSION_COUNT"

definition MAX_MANAGED_BUFFER_B_SIZE :: nat where
  "MAX_MANAGED_BUFFER_B_SIZE =
    24 + SPDM_MAX_HASH_SIZE * SPDM_MAX_SLOT_NUMBER + MAX_SPDM_CERT_CHAIN_DATA_SIZE"

definition MAX_MANAGED_BUFFER_C_SIZE :: nat where
  "MAX_MANAGED_BUFFER_C_SIZE =
    78 + SPDM_MAX_HASH_SIZE * 2 + SPDM_MAX_ASYM_KEY_SIZE + MAX_SPDM_OPAQUE_SIZE"

definition MAX_MANAGED_BUFFER_M_SIZE :: nat where
  "MAX_MANAGED_BUFFER_M_SIZE =
    47 + SPDM_NONCE_SIZE + max_measurement_record_size config + SPDM_MAX_ASYM_KEY_SIZE
      + MAX_SPDM_OPAQUE_SIZE"

definition MAX_MANAGED_BUFFER_K_SIZE :: nat where
  "MAX_MANAGED_BUFFER_K_SIZE =
    84 + SPDM_MAX_DHE_KEY_SIZE * 2 + SPDM_MAX_HASH_SIZE * 2 + SPDM_MAX_ASYM_KEY_SIZE
      + MAX_SPDM_OPAQUE_SIZE * 2"

definition MAX_MANAGED_BUFFER_F_SIZE :: nat where
  "MAX_MANAGED_BUFFER_F_SIZE = 8 + SPDM_MAX_HASH_SIZE * 2 + SPDM_MAX_ASYM_KEY_SIZE"

definition MAX_MANAGED_BUFFER_M1M2_SIZE :: nat where
  "MAX_MANAGED_BUFFER_M1M2_SIZE =
    MAX_MANAGED_BUFFER_A_SIZE + MAX_MANAGED_BUFFER_B_SIZE + MAX_MANAGED_BUFFER_C_SIZE"

definition MAX_MANAGED_BUFFER_L1L2_SIZE :: nat where
  "MAX_MANAGED_BUFFER_L1L2_SIZE = MAX_MANAGED_BUFFER_A_SIZE + MAX_MANAGED_BUFFER_M_SIZE"

definition MAX_MANAGED_BUFFER_TH_SIZE :: nat where
  "MAX_MANAGED_BUFFER_TH_SIZE =
    MAX_MANAGED_BUFFER_A_SIZE + MAX_SPDM_CERT_CHAIN_DATA_SIZE + MAX_MANAGED_BUFFER_K_SIZE
      + MAX_SPDM_CERT_CHAIN_DATA_SIZE + MAX_MANAGED_BUFFER_F_SIZE"

definition MAX_MANAGED_BUFFER_12SIGN_SIZE :: nat where
  "MAX_MANAGED_BUFFER_12SIGN_SIZE = 64 + 36 + SPDM_MAX_HASH_SIZE"

record managed_buffer =
  mb_used :: nat
  mb_data :: bytes

definition append_message :: "bytes \<Rightarrow> managed_buffer \<Rightarrow> nat option \<times> managed_buffer" where
  "append_message bs m =
    (let used = mb_used m;
         (r, w) = writer_extend_from_slice bs (writer_init (drop used (mb_data m)))
     in case r of
       None \<Rightarrow> (None, m)
     | Some write_len \<Rightarrow>
         (Some (writer_used w),
          m\<lparr>mb_used := used + write_len, mb_data := take used (mb_data m) @ w_buf w\<rparr>))"

definition reset_message :: "managed_buffer \<Rightarrow> managed_buffer" where
  "reset_message m = m\<lparr>mb_used := 0\<rparr>"

definition mb_as_ref :: "managed_buffer \<Rightarrow> bytes" where
  "mb_as_ref m = take (mb_used m) (mb_data m)"

definition mb_default :: "nat \<Rightarrow> managed_buffer" where
  "mb_default n = \<lparr>mb_used = 0, mb_data = replicate n 0\<rparr>"

type_synonym ManagedBufferA = managed_buffer

definition ManagedBufferA_default :: ManagedBufferA where
  "ManagedBufferA_default = mb_default MAX_MANAGED_BUFFER_A_SIZE"

type_synonym ManagedBufferB = managed_buffer

definition ManagedBufferB_default :: ManagedBufferB where
  "ManagedBufferB_default = mb_default MAX_MANAGED_BUFFER_B_SIZE"

type_synonym ManagedBufferC = managed_buffer

definition ManagedBufferC_default :: ManagedBufferC where
  "ManagedBufferC_default = mb_default MAX_MANAGED_BUFFER_C_SIZE"

type_synonym ManagedBufferM = managed_buffer

definition ManagedBufferM_default :: ManagedBufferM where
  "ManagedBufferM_default = mb_default MAX_MANAGED_BUFFER_M_SIZE"

type_synonym ManagedBufferK = managed_buffer

definition ManagedBufferK_default :: ManagedBufferK where
  "ManagedBufferK_default = mb_default MAX_MANAGED_BUFFER_K_SIZE"

type_synonym ManagedBufferF = managed_buffer

definition ManagedBufferF_default :: ManagedBufferF where
  "ManagedBufferF_default = mb_default MAX_MANAGED_BUFFER_F_SIZE"

type_synonym ManagedBufferM1M2 = managed_buffer

definition ManagedBufferM1M2_default :: ManagedBufferM1M2 where
  "ManagedBufferM1M2_default = mb_default MAX_MANAGED_BUFFER_M1M2_SIZE"

type_synonym ManagedBufferL1L2 = managed_buffer

definition ManagedBufferL1L2_default :: ManagedBufferL1L2 where
  "ManagedBufferL1L2_default = mb_default MAX_MANAGED_BUFFER_L1L2_SIZE"

type_synonym ManagedBufferTH = managed_buffer

definition ManagedBufferTH_default :: ManagedBufferTH where
  "ManagedBufferTH_default = mb_default MAX_MANAGED_BUFFER_TH_SIZE"

type_synonym ManagedBuffer12Sign = managed_buffer

definition ManagedBuffer12Sign_default :: ManagedBuffer12Sign where
  "ManagedBuffer12Sign_default = mb_default MAX_MANAGED_BUFFER_12SIGN_SIZE"

definition mb_ok :: "nat \<Rightarrow> managed_buffer \<Rightarrow> bool" where
  "mb_ok n m \<longleftrightarrow> length (mb_data m) = n \<and> mb_used m \<le> n"

fun append_messages :: "bytes list \<Rightarrow> managed_buffer \<Rightarrow> bool \<times> managed_buffer" where
  "append_messages [] m = (True, m)"
| "append_messages (bs # bss) m =
    (case append_message bs m of
      (None, m) \<Rightarrow> (False, m)
    | (Some _, m) \<Rightarrow> append_messages bss m)"

locale transcript_buffer =
  fixes append :: "bytes \<Rightarrow> 'b \<Rightarrow> nat option \<times> 'b"
    and reset :: "'b \<Rightarrow> 'b"
    and content :: "'b \<Rightarrow> bytes"
    and inv :: "'b \<Rightarrow> bool"
    and capacity :: nat
  assumes append_fits: "inv b \<Longrightarrow> length (content b) + length bs \<le> capacity \<Longrightarrow>
      \<exists>b'. append bs b = (Some (length bs), b') \<and> content b' = content b @ bs \<and> inv b'"
    and append_full: "inv b \<Longrightarrow> capacity < length (content b) + length bs \<Longrightarrow>
      append bs b = (None, b)"
    and reset_empty: "inv b \<Longrightarrow> content (reset b) = [] \<and> inv (reset b)"
    and bounded: "inv b \<Longrightarrow> length (content b) \<le> capacity"

section \<open>Append and reset\<close>

lemma mb_default_ok [simp]: "mb_ok n (mb_default n)"
  by (simp add: mb_ok_def mb_default_def)

lemma mb_default_empty [simp]: "mb_as_ref (mb_default n) = []"
  by (simp add: mb_as_ref_def mb_default_def)

lemma append_message_fits:
  assumes "mb_ok n m" and "length (mb_as_ref m) + length bs \<le> n"
  shows "append_message bs m =
    (Some (length bs), m\<lparr>mb_used := mb_used m + length bs,
      mb_data := take (mb_used m) (mb_data m) @ bs @ drop (mb_used m + length bs) (mb_data m)\<rparr>)"
  using assms
  by (simp add: append_message_def mb_ok_def mb_as_ref_def writer_init_wr_at extend_wr_at Let_def)
    (simp add: wr_at_def add.commute)

lemma append_message_full:
  "mb_ok n m \<Longrightarrow> n < length (mb_as_ref m) + length bs \<Longrightarrow> append_message bs m = (None, m)"
  by (auto simp: append_message_def mb_ok_def mb_as_ref_def writer_init_wr_at extend_wr_at Let_def)

interpretation mb: transcript_buffer append_message reset_message mb_as_ref "mb_ok n" n for n
proof unfold_locales
  fix b and bs :: bytes
  assume "mb_ok n b" "length (mb_as_ref b) + length bs \<le> n"
  then show "\<exists>b'. append_message bs b = (Some (length bs), b') \<and>
      mb_as_ref b' = mb_as_ref b @ bs \<and> mb_ok n b'"
    by (auto simp: append_message_fits) (auto simp: mb_as_ref_def mb_ok_def)
qed (auto simp: append_message_full reset_message_def mb_as_ref_def mb_ok_def)

lemma append_message_cases:
  assumes "mb_ok n m"
  obtains (fits) m' where "append_message bs m = (Some (length bs), m')"
      "mb_as_ref m' = mb_as_ref m @ bs" "mb_ok n m'" "length (mb_as_ref m) + length bs \<le> n"
    | (full) "append_message bs m = (None, m)" "n < length (mb_as_ref m) + length bs"
  using mb.append_fits [OF assms, of bs] mb.append_full [OF assms, of bs]
  by (meson not_less)

section \<open>Properties\<close>

lemma append_messages_outcome:
  assumes "mb_ok n m" and "length (mb_as_ref m) \<le> n"
  shows "if length (mb_as_ref m) + length (concat bss) \<le> n
    then fst (append_messages bss m) \<and>
      mb_as_ref (snd (append_messages bss m)) = mb_as_ref m @ concat bss
    else \<not> fst (append_messages bss m) \<and>
      (\<exists>k < length bss. mb_as_ref (snd (append_messages bss m)) = mb_as_ref m @ concat (take k bss) \<and>
        n < length (mb_as_ref m) + length (concat (take (Suc k) bss)))"
  using assms
proof (induction bss arbitrary: m)
  case (Cons bs bss)
  from Cons.prems(1) show ?case
  proof (cases rule: append_message_cases [where bs = bs])
    case (fits m')
    let ?r = "append_messages bss m'"
    from Cons.IH [of m'] fits have IH: "if length (mb_as_ref m') + length (concat bss) \<le> n
      then fst ?r \<and> mb_as_ref (snd ?r) = mb_as_ref m' @ concat bss
      else \<not> fst ?r \<and> (\<exists>k < length bss. mb_as_ref (snd ?r) = mb_as_ref m' @ concat (take k bss) \<and>
        n < length (mb_as_ref m') + length (concat (take (Suc k) bss)))"
      by simp
    show ?thesis
    proof (cases "length (mb_as_ref m) + length (concat (bs # bss)) \<le> n")
      case True
      with IH fits show ?thesis by (simp add: add.assoc)
    next
      case False
      with IH fits obtain k where "\<not> fst ?r" "k < length bss"
        "mb_as_ref (snd ?r) = mb_as_ref m' @ concat (take k bss)"
        "n < length (mb_as_ref m') + length (concat (take (Suc k) bss))"
        by (auto split: if_splits simp: add.assoc)
      with False fits show ?thesis by (auto intro!: exI [of _ "Suc k"])
    qed
  next
    case full
    then show ?thesis by (auto intro!: exI [of _ 0])
  qed
qed simp

text \<open>
  A sequence of messages is accepted by a fresh transcript buffer exactly when the messages
  together fit its capacity, and then the buffer holds their concatenation; otherwise it holds
  the messages before the first one that does not fit.
\<close>

theorem managed_buffer_transcript:
  "if length (concat bss) \<le> n
   then fst (append_messages bss (mb_default n)) \<and>
     mb_as_ref (snd (append_messages bss (mb_default n))) = concat bss
   else \<not> fst (append_messages bss (mb_default n)) \<and>
     (\<exists>k < length bss.
       mb_as_ref (snd (append_messages bss (mb_default n))) = concat (take k bss) \<and>
       n < length (concat (take (Suc k) bss)))"
  using append_messages_outcome [of n "mb_default n" bss] by (simp split: if_splits)

end
