(* ===== verification/Key_Schedule.thy ===== *)
theory Key_Schedule
  imports Managed_Buffer "HOL-Library.Sublist"
begin

text \<open>
  The cryptographic callbacks and the key schedule, \<open>spdmlib/src/common/key_schedule.rs\<close>.

  \<^item> \<open>crypto\<close> collects the functions the library calls through \<open>crypto\<close> and \<open>secret\<close> (hash, HMAC,
    HKDF, AEAD, signatures, pre-shared keys). They are registered at run time and implemented by
    third-party packages, so they are a parameter of every definition that uses them; \<open>'h\<close> is the
    type of a running hash.
  \<^item> \<open>hash_ctx_law\<close> and \<open>aead_law\<close> name what the library relies on: finalising a running hash gives
    the hash of all bytes it was fed, and decryption undoes encryption.
  \<^item> A derivation function returns \<open>Option\<close> in the source and can panic in \<open>get_size\<close> or \<open>unwrap\<close>,
    hence the type \<open>'a option SpdmResult\<close>.
\<close>

section \<open>Definitions\<close>

subsection \<open>Callbacks\<close>

record 'h crypto =
  hash_all :: "SpdmBaseHashAlgo \<Rightarrow> bytes \<Rightarrow> SpdmDigestStruct option"
  hash_ctx_init :: "SpdmBaseHashAlgo \<Rightarrow> 'h option"
  hash_ctx_update :: "'h \<Rightarrow> bytes \<Rightarrow> 'h SpdmResult"
  hash_ctx_finalize :: "'h \<Rightarrow> SpdmDigestStruct option"
  hmac :: "SpdmBaseHashAlgo \<Rightarrow> bytes \<Rightarrow> bytes \<Rightarrow> SpdmDigestStruct option"
  hmac_verify :: "SpdmBaseHashAlgo \<Rightarrow> bytes \<Rightarrow> bytes \<Rightarrow> SpdmDigestStruct \<Rightarrow> unit SpdmResult"
  hkdf_extract ::
    "SpdmBaseHashAlgo \<Rightarrow> bytes \<Rightarrow> SpdmHkdfInputKeyingMaterial \<Rightarrow> SpdmHkdfPseudoRandomKey option"
  hkdf_expand ::
    "SpdmBaseHashAlgo \<Rightarrow> SpdmHkdfPseudoRandomKey \<Rightarrow> bytes \<Rightarrow> u16 \<Rightarrow>
      SpdmHkdfOutputKeyingMaterial option"
  aead_encrypt ::
    "SpdmAeadAlgo \<Rightarrow> SpdmAeadKeyStruct \<Rightarrow> SpdmAeadIvStruct \<Rightarrow> bytes \<Rightarrow> bytes \<Rightarrow>
      (bytes \<times> bytes) SpdmResult"
  aead_decrypt ::
    "SpdmAeadAlgo \<Rightarrow> SpdmAeadKeyStruct \<Rightarrow> SpdmAeadIvStruct \<Rightarrow> bytes \<Rightarrow> bytes \<Rightarrow> bytes \<Rightarrow>
      bytes SpdmResult"
  asym_verify ::
    "SpdmBaseHashAlgo \<Rightarrow> SpdmBaseAsymAlgo \<Rightarrow> bytes \<Rightarrow> bytes \<Rightarrow> SpdmSignatureStruct \<Rightarrow>
      unit SpdmResult"
  psk_handshake_secret_hkdf_expand ::
    "SpdmVersion \<Rightarrow> SpdmBaseHashAlgo \<Rightarrow> SpdmPskHintStruct \<Rightarrow> bytes \<Rightarrow>
      SpdmHkdfOutputKeyingMaterial option"
  psk_master_secret_hkdf_expand ::
    "SpdmVersion \<Rightarrow> SpdmBaseHashAlgo \<Rightarrow> SpdmPskHintStruct \<Rightarrow> bytes \<Rightarrow>
      SpdmHkdfOutputKeyingMaterial option"
  get_cert_from_cert_chain :: "bytes \<Rightarrow> int \<Rightarrow> (nat \<times> nat) SpdmResult"

definition hash_ctx_law :: "'h crypto \<Rightarrow> ('h \<Rightarrow> SpdmBaseHashAlgo \<times> bytes) \<Rightarrow> bool" where
  "hash_ctx_law cr fed \<longleftrightarrow>
    (\<forall>a h. hash_ctx_init cr a = Some h \<longrightarrow> fed h = (a, [])) \<and>
    (\<forall>h bs h'. hash_ctx_update cr h bs = Ok h' \<longrightarrow> fed h' = (fst (fed h), snd (fed h) @ bs)) \<and>
    (\<forall>h. hash_ctx_finalize cr h = hash_all cr (fst (fed h)) (snd (fed h)))"

definition aead_law :: "'h crypto \<Rightarrow> bool" where
  "aead_law cr \<longleftrightarrow>
    (\<forall>algo key iv aad pt ct tag. aead_encrypt cr algo key iv aad pt = Ok (ct, tag) \<longrightarrow>
      length ct = length pt \<and> length tag = 16 \<and>
      aead_decrypt cr algo key iv aad ct tag = Ok pt)"

subsection \<open>Labels\<close>

definition MAX_BIN_CONCAT_BUF_SIZE :: nat where
  "MAX_BIN_CONCAT_BUF_SIZE = 2 + 8 + 12 + SPDM_MAX_HASH_SIZE"

definition SALT_0 :: bytes where
  "SALT_0 = replicate SPDM_MAX_HASH_SIZE 0"

definition ascii :: "string \<Rightarrow> bytes" where
  "ascii s = map of_char s"

definition BIN_STR0_LABEL :: bytes where "BIN_STR0_LABEL = ascii ''derived''"
definition BIN_STR1_LABEL :: bytes where "BIN_STR1_LABEL = ascii ''req hs data''"
definition BIN_STR2_LABEL :: bytes where "BIN_STR2_LABEL = ascii ''rsp hs data''"
definition BIN_STR3_LABEL :: bytes where "BIN_STR3_LABEL = ascii ''req app data''"
definition BIN_STR4_LABEL :: bytes where "BIN_STR4_LABEL = ascii ''rsp app data''"
definition BIN_STR5_LABEL :: bytes where "BIN_STR5_LABEL = ascii ''key''"
definition BIN_STR6_LABEL :: bytes where "BIN_STR6_LABEL = ascii ''iv''"
definition BIN_STR7_LABEL :: bytes where "BIN_STR7_LABEL = ascii ''finished''"
definition BIN_STR8_LABEL :: bytes where "BIN_STR8_LABEL = ascii ''exp master''"
definition BIN_STR9_LABEL :: bytes where "BIN_STR9_LABEL = ascii ''traffic upd''"

definition SPDM_VERSION_VALUE :: bytes where
  "SPDM_VERSION_VALUE = ascii ''spdm .  ''"

definition binconcat ::
    "u16 \<Rightarrow> SpdmVersion \<Rightarrow> bytes \<Rightarrow> bytes option \<Rightarrow> bytes \<Rightarrow> bytes option" where
  "binconcat len spdm_version label ctx buffer =
    (let n = length label + (case ctx of None \<Rightarrow> 0 | Some c \<Rightarrow> length c)
     in if n > length buffer - 2 - 8 then None
        else
          (let v = SpdmVersion_get_u8 spdm_version;
               version = SPDM_VERSION_VALUE[4 := drop_bit 4 v + 0x30, 6 := (v AND 0x0F) + 0x30]
           in case u16_encode len (writer_init buffer) of
                (Ok _, w) \<Rightarrow>
                  (let w = snd (writer_extend_from_slice version w);
                       w = snd (writer_extend_from_slice label w);
                       w = (case ctx of None \<Rightarrow> w | Some c \<Rightarrow> snd (writer_extend_from_slice c w))
                   in Some (writer_used_slice w))
              | (_, w) \<Rightarrow> None))"

definition bin_str :: "u16 \<Rightarrow> SpdmVersion \<Rightarrow> bytes \<Rightarrow> bytes option \<Rightarrow> bytes option" where
  "bin_str len v label ctx = binconcat len v label ctx (replicate MAX_BIN_CONCAT_BUF_SIZE 0)"

text \<open>\<open>hkdf_expand(algo, &from_input_keying_material(ikm)?, info, size)\<close>\<close>

definition expand_ikm ::
    "'h crypto \<Rightarrow> SpdmBaseHashAlgo \<Rightarrow> SpdmHkdfInputKeyingMaterial \<Rightarrow> bytes \<Rightarrow> u16 \<Rightarrow>
      SpdmHkdfOutputKeyingMaterial option" where
  "expand_ikm cr hash_algo ikm info out_size = do {
     prk \<leftarrow> SpdmHkdfPseudoRandomKey_from_input_keying_material ikm;
     hkdf_expand cr hash_algo prk info out_size
   }"

subsection \<open>Derivations\<close>

definition derive_handshake_secret ::
    "'h crypto \<Rightarrow> SpdmVersion \<Rightarrow> SpdmBaseHashAlgo \<Rightarrow> SpdmDheFinalKeyStruct \<Rightarrow>
      SpdmHandshakeSecretStruct option SpdmResult" where
  "derive_handshake_secret cr v hash_algo key =
    rbind (SpdmBaseHashAlgo_get_size hash_algo) (\<lambda>n.
    obind (Ok (hkdf_extract cr hash_algo (take (unat n) SALT_0) (Ikm_DheFinalKey key))) (\<lambda>prk.
    Ok (SpdmHandshakeSecretStruct_from_spdm_hkdf_prk prk)))"

definition derive_master_secret ::
    "'h crypto \<Rightarrow> SpdmVersion \<Rightarrow> SpdmBaseHashAlgo \<Rightarrow> SpdmHandshakeSecretStruct \<Rightarrow>
      SpdmMasterSecretStruct option SpdmResult" where
  "derive_master_secret cr v hash_algo key =
    rbind (SpdmBaseHashAlgo_get_size hash_algo) (\<lambda>n.
    obind (Ok (bin_str n v BIN_STR0_LABEL None)) (\<lambda>bin_str0.
    obind (Ok (expand_ikm cr hash_algo (Ikm_HandshakeSecret key) bin_str0 n)) (\<lambda>salt_1.
    obind (Ok (hkdf_extract cr hash_algo (as_ref salt_1)
      (Ikm_ZeroFilled \<lparr>data_size = n, data = replicate SPDM_MAX_HASH_SIZE 0\<rparr>))) (\<lambda>prk.
    Ok (SpdmMasterSecretStruct_from_spdm_hkdf_prk prk)))))"

text \<open>The choice between the negotiated secret and the pre-shared key, shared by five derivations.\<close>

definition expand_key_or_psk ::
    "bool \<Rightarrow> (sized_data \<Rightarrow> sized_data option) \<Rightarrow> (SpdmPskHintStruct \<Rightarrow> sized_data option) \<Rightarrow>
      sized_data option \<Rightarrow> SpdmPskHintStruct option \<Rightarrow> sized_data option SpdmResult" where
  "expand_key_or_psk use_psk from_key from_psk key psk_hint =
    (if \<not> use_psk
     then (case key of Some k \<Rightarrow> Ok (from_key k) | None \<Rightarrow> Ok None)
     else rbind (unwrap psk_hint) (\<lambda>hint. Ok (from_psk hint)))"

definition derive_request_handshake_secret ::
    "'h crypto \<Rightarrow> bool \<Rightarrow> SpdmVersion \<Rightarrow> SpdmBaseHashAlgo \<Rightarrow> SpdmHandshakeSecretStruct option \<Rightarrow>
      SpdmPskHintStruct option \<Rightarrow> bytes \<Rightarrow> SpdmDirectionHandshakeSecretStruct option SpdmResult" where
  "derive_request_handshake_secret cr use_psk v hash_algo key psk_hint th1 =
    rbind (SpdmBaseHashAlgo_get_size hash_algo) (\<lambda>n.
    obind (Ok (bin_str n v BIN_STR1_LABEL (Some th1))) (\<lambda>bin_str1.
    obind (expand_key_or_psk use_psk
      (\<lambda>k. expand_ikm cr hash_algo (Ikm_HandshakeSecret k) bin_str1 n)
      (\<lambda>hint. psk_handshake_secret_hkdf_expand cr v hash_algo hint bin_str1) key psk_hint) (\<lambda>okm.
    Ok (SpdmDirectionHandshakeSecretStruct_from_spdm_hkdf_okm okm))))"

definition derive_response_handshake_secret ::
    "'h crypto \<Rightarrow> bool \<Rightarrow> SpdmVersion \<Rightarrow> SpdmBaseHashAlgo \<Rightarrow> SpdmHandshakeSecretStruct option \<Rightarrow>
      SpdmPskHintStruct option \<Rightarrow> bytes \<Rightarrow> SpdmDirectionHandshakeSecretStruct option SpdmResult" where
  "derive_response_handshake_secret cr use_psk v hash_algo key psk_hint th1 =
    rbind (SpdmBaseHashAlgo_get_size hash_algo) (\<lambda>n.
    obind (Ok (bin_str n v BIN_STR2_LABEL (Some th1))) (\<lambda>bin_str2.
    obind (expand_key_or_psk use_psk
      (\<lambda>k. expand_ikm cr hash_algo (Ikm_HandshakeSecret k) bin_str2 n)
      (\<lambda>hint. psk_handshake_secret_hkdf_expand cr v hash_algo hint bin_str2) key psk_hint) (\<lambda>okm.
    Ok (SpdmDirectionHandshakeSecretStruct_from_spdm_hkdf_okm okm))))"

definition derive_finished_key ::
    "'h crypto \<Rightarrow> SpdmVersion \<Rightarrow> SpdmBaseHashAlgo \<Rightarrow> SpdmDirectionHandshakeSecretStruct \<Rightarrow>
      SpdmFinishedKeyStruct option SpdmResult" where
  "derive_finished_key cr v hash_algo key =
    rbind (SpdmBaseHashAlgo_get_size hash_algo) (\<lambda>n.
    obind (Ok (bin_str n v BIN_STR7_LABEL None)) (\<lambda>bin_str7.
    obind (Ok (expand_ikm cr hash_algo (Ikm_DirectionHandshakeSecret key) bin_str7 n)) (\<lambda>okm.
    Ok (SpdmFinishedKeyStruct_from_spdm_hkdf_okm okm))))"

datatype SpdmMajorSecret =
    Major_DirectionHandshakeSecret SpdmDirectionHandshakeSecretStruct
  | Major_DirectionDataSecret SpdmDirectionDataSecretStruct

fun major_ikm :: "SpdmMajorSecret \<Rightarrow> SpdmHkdfInputKeyingMaterial" where
  "major_ikm (Major_DirectionHandshakeSecret k) = Ikm_DirectionHandshakeSecret k"
| "major_ikm (Major_DirectionDataSecret k) = Ikm_DirectionDataSecret k"

definition derive_aead_key_iv ::
    "'h crypto \<Rightarrow> SpdmVersion \<Rightarrow> SpdmBaseHashAlgo \<Rightarrow> SpdmAeadAlgo \<Rightarrow> SpdmMajorSecret \<Rightarrow>
      (SpdmAeadKeyStruct \<times> SpdmAeadIvStruct) option SpdmResult" where
  "derive_aead_key_iv cr v hash_algo aead_algo key =
    rbind (SpdmAeadAlgo_get_key_size aead_algo) (\<lambda>key_size.
    obind (Ok (bin_str key_size v BIN_STR5_LABEL None)) (\<lambda>bin_str5.
    obind (Ok (expand_ikm cr hash_algo (major_ikm key) bin_str5 (of_nat SPDM_MAX_AEAD_KEY_SIZE))) (\<lambda>okm.
    obind (Ok (SpdmAeadKeyStruct_from_spdm_hkdf_okm okm)) (\<lambda>encrypt_key.
    rbind (SpdmAeadAlgo_get_iv_size aead_algo) (\<lambda>iv_size.
    obind (Ok (bin_str iv_size v BIN_STR6_LABEL None)) (\<lambda>bin_str6.
    obind (Ok (expand_ikm cr hash_algo (major_ikm key) bin_str6 (of_nat SPDM_MAX_AEAD_IV_SIZE))) (\<lambda>okm.
    obind (Ok (SpdmAeadIvStruct_from_spdm_hkdf_okm okm)) (\<lambda>iv.
    Ok (Some (encrypt_key, iv))))))))))"

definition derive_request_data_secret ::
    "'h crypto \<Rightarrow> bool \<Rightarrow> SpdmVersion \<Rightarrow> SpdmBaseHashAlgo \<Rightarrow> SpdmMasterSecretStruct option \<Rightarrow>
      SpdmPskHintStruct option \<Rightarrow> bytes \<Rightarrow> SpdmDirectionDataSecretStruct option SpdmResult" where
  "derive_request_data_secret cr use_psk v hash_algo key psk_hint th2 =
    rbind (SpdmBaseHashAlgo_get_size hash_algo) (\<lambda>n.
    obind (Ok (bin_str n v BIN_STR3_LABEL (Some th2))) (\<lambda>bin_str3.
    obind (expand_key_or_psk use_psk
      (\<lambda>k. expand_ikm cr hash_algo (Ikm_MasterSecret k) bin_str3 n)
      (\<lambda>hint. psk_master_secret_hkdf_expand cr v hash_algo hint bin_str3) key psk_hint) (\<lambda>okm.
    Ok (SpdmDirectionDataSecretStruct_from_spdm_hkdf_okm okm))))"

definition derive_response_data_secret ::
    "'h crypto \<Rightarrow> bool \<Rightarrow> SpdmVersion \<Rightarrow> SpdmBaseHashAlgo \<Rightarrow> SpdmMasterSecretStruct option \<Rightarrow>
      SpdmPskHintStruct option \<Rightarrow> bytes \<Rightarrow> SpdmDirectionDataSecretStruct option SpdmResult" where
  "derive_response_data_secret cr use_psk v hash_algo key psk_hint th2 =
    rbind (SpdmBaseHashAlgo_get_size hash_algo) (\<lambda>n.
    obind (Ok (bin_str n v BIN_STR4_LABEL (Some th2))) (\<lambda>bin_str4.
    obind (expand_key_or_psk use_psk
      (\<lambda>k. expand_ikm cr hash_algo (Ikm_MasterSecret k) bin_str4 n)
      (\<lambda>hint. psk_master_secret_hkdf_expand cr v hash_algo hint bin_str4) key psk_hint) (\<lambda>okm.
    Ok (SpdmDirectionDataSecretStruct_from_spdm_hkdf_okm okm))))"

definition derive_export_master_secret ::
    "'h crypto \<Rightarrow> bool \<Rightarrow> SpdmVersion \<Rightarrow> SpdmBaseHashAlgo \<Rightarrow> SpdmMasterSecretStruct option \<Rightarrow>
      SpdmPskHintStruct option \<Rightarrow> SpdmExportMasterSecretStruct option SpdmResult" where
  "derive_export_master_secret cr use_psk v hash_algo key psk_hint =
    rbind (SpdmBaseHashAlgo_get_size hash_algo) (\<lambda>n.
    obind (Ok (bin_str n v BIN_STR8_LABEL None)) (\<lambda>bin_str8.
    obind (expand_key_or_psk use_psk
      (\<lambda>k. expand_ikm cr hash_algo (Ikm_MasterSecret k) bin_str8 n)
      (\<lambda>hint. psk_master_secret_hkdf_expand cr v hash_algo hint bin_str8) key psk_hint) (\<lambda>okm.
    Ok (SpdmExportMasterSecretStruct_from_spdm_hkdf_okm okm))))"

definition derive_update_secret ::
    "'h crypto \<Rightarrow> SpdmVersion \<Rightarrow> SpdmBaseHashAlgo \<Rightarrow> SpdmDirectionDataSecretStruct \<Rightarrow>
      SpdmDirectionDataSecretStruct option SpdmResult" where
  "derive_update_secret cr v hash_algo key =
    rbind (SpdmBaseHashAlgo_get_size hash_algo) (\<lambda>n.
    obind (Ok (bin_str n v BIN_STR9_LABEL None)) (\<lambda>bin_str9.
    obind (Ok (expand_ikm cr hash_algo (Ikm_DirectionDataSecret key) bin_str9 n)) (\<lambda>okm.
    Ok (SpdmDirectionDataSecretStruct_from_spdm_hkdf_okm okm))))"

subsection \<open>Reference layout\<close>

definition version_string :: "SpdmVersion \<Rightarrow> bytes" where
  "version_string v =
    [0x73, 0x70, 0x64, 0x6D, drop_bit 4 (SpdmVersion_get_u8 v) + 0x30, 0x2E,
     (SpdmVersion_get_u8 v AND 0x0F) + 0x30, 0x20]"

definition bin_str_layout :: "u16 \<Rightarrow> SpdmVersion \<Rightarrow> bytes \<Rightarrow> bytes option \<Rightarrow> bytes" where
  "bin_str_layout len v label ctx =
    le_bytes 2 len @ version_string v @ label @ (case ctx of None \<Rightarrow> [] | Some c \<Rightarrow> c)"

definition key_labels :: "bytes list" where
  "key_labels = [BIN_STR0_LABEL, BIN_STR1_LABEL, BIN_STR2_LABEL, BIN_STR3_LABEL, BIN_STR4_LABEL,
    BIN_STR5_LABEL, BIN_STR6_LABEL, BIN_STR7_LABEL, BIN_STR8_LABEL, BIN_STR9_LABEL]"

fun prefix_free :: "'a list list \<Rightarrow> bool" where
  "prefix_free [] \<longleftrightarrow> True"
| "prefix_free (x # xs) \<longleftrightarrow> list_all (\<lambda>y. \<not> prefix x y \<and> \<not> prefix y x) xs \<and> prefix_free xs"

definition hkdf_law :: "'h crypto \<Rightarrow> bool" where
  "hkdf_law cr \<longleftrightarrow>
    (\<forall>a prk info n okm. hkdf_expand cr a prk info n = Some okm \<longrightarrow>
      sized_ok SPDM_MAX_HKDF_OKM_SIZE okm \<and> data_size okm = n)"

subsection \<open>A sample instance\<close>

text \<open>
  A concrete value of the callbacks that satisfies the laws. It computes nothing secret; it only
  serves to evaluate the definitions on concrete inputs.
\<close>

definition sample_digest :: "bytes \<Rightarrow> SpdmDigestStruct" where
  "sample_digest bs = \<lparr>data_size = 32, data = take 32 (bs @ replicate 32 0) @ replicate 32 0\<rparr>"

definition sample_secret :: "u16 \<Rightarrow> sized_data option" where
  "sample_secret n =
    (if n \<le> 64 then Some \<lparr>data_size = n, data = replicate 64 0x11\<rparr> else None)"

definition sample_crypto :: "(SpdmBaseHashAlgo \<times> bytes) crypto" where
  "sample_crypto = \<lparr>
    hash_all = (\<lambda>a bs. Some (sample_digest bs)),
    hash_ctx_init = (\<lambda>a. Some (a, [])),
    hash_ctx_update = (\<lambda>h bs. Ok (fst h, snd h @ bs)),
    hash_ctx_finalize = (\<lambda>h. Some (sample_digest (snd h))),
    hmac = (\<lambda>a key bs. Some (sample_digest bs)),
    hmac_verify = (\<lambda>a key bs mac.
      if as_ref mac = as_ref (sample_digest bs) then Ok () else Err SPDM_STATUS_VERIF_FAIL),
    hkdf_extract = (\<lambda>a salt ikm. sample_secret 32),
    hkdf_expand = (\<lambda>a prk info n. sample_secret n),
    aead_encrypt = (\<lambda>a key iv aad pt. Ok (pt, replicate 16 0x5A)),
    aead_decrypt = (\<lambda>a key iv aad ct tag.
      if tag = replicate 16 0x5A then Ok ct else Err SPDM_STATUS_VERIF_FAIL),
    asym_verify = (\<lambda>h a der bs sig. Ok ()),
    psk_handshake_secret_hkdf_expand = (\<lambda>v a hint info. sample_secret 32),
    psk_master_secret_hkdf_expand = (\<lambda>v a hint info. sample_secret 32),
    get_cert_from_cert_chain = (\<lambda>chain i. Ok (0, length chain))\<rparr>"

section \<open>Binary concatenation\<close>

lemma version_value_update:
  "SPDM_VERSION_VALUE[4 := a, 6 := b] = [0x73, 0x70, 0x64, 0x6D, a, 0x2E, b, 0x20]"
  by (simp add: SPDM_VERSION_VALUE_def ascii_def numeral_eq_Suc)

lemma binconcat_fits:
  assumes "length label + length (case ctx of None \<Rightarrow> [] | Some c \<Rightarrow> c) + 10 \<le> length buffer"
  shows "binconcat len v label ctx buffer = Some (bin_str_layout len v label ctx)"
  using assms
  by (cases ctx)
    (auto simp: binconcat_def version_value_update writer_init_wr_at emits_Ok [OF emits_u16]
      extend_wr_at bin_str_layout_def version_string_def Let_def)

lemma binconcat_full:
  assumes "length buffer < length label + length (case ctx of None \<Rightarrow> [] | Some c \<Rightarrow> c) + 10"
    and "10 \<le> length buffer"
  shows "binconcat len v label ctx buffer = None"
  using assms by (cases ctx) (auto simp: binconcat_def Let_def)

lemma MAX_BIN_CONCAT_BUF_SIZE_val: "MAX_BIN_CONCAT_BUF_SIZE = 86"
  by (simp add: MAX_BIN_CONCAT_BUF_SIZE_def)

lemma bin_str_eq:
  "bin_str len v label ctx =
    (if length label + length (case ctx of None \<Rightarrow> [] | Some c \<Rightarrow> c) \<le> 76
     then Some (bin_str_layout len v label ctx) else None)"
  using binconcat_fits [of label ctx "replicate MAX_BIN_CONCAT_BUF_SIZE 0"]
    binconcat_full [of "replicate MAX_BIN_CONCAT_BUF_SIZE 0" label ctx]
  by (auto simp: bin_str_def MAX_BIN_CONCAT_BUF_SIZE_val)

lemma prefix_free_append:
  "prefix_free xs \<Longrightarrow> x \<in> set xs \<Longrightarrow> y \<in> set xs \<Longrightarrow> x @ s = y @ t \<Longrightarrow> x = y"
  by (induction xs) (auto simp: list_all_iff dest: prefix_same_cases [OF prefixI [OF refl] prefixI])

lemma key_labels_prefix_free: "prefix_free key_labels"
  by code_simp

lemma key_labels_length: "label \<in> set key_labels \<Longrightarrow> length label \<le> 12"
proof -
  have "list_all (\<lambda>l. length l \<le> 12) key_labels" by code_simp
  then show "label \<in> set key_labels \<Longrightarrow> length label \<le> 12" by (auto simp: list_all_iff)
qed

lemma bin_str_Some:
  assumes "label \<in> set key_labels" and "length (case ctx of None \<Rightarrow> [] | Some c \<Rightarrow> c) \<le> 64"
  shows "bin_str len v label ctx = Some (bin_str_layout len v label ctx)"
  using key_labels_length [OF assms(1)] assms(2) by (simp add: bin_str_eq)

section \<open>Sizes and panics\<close>

lemma expand_key_or_psk_no_panic:
  "(use_psk \<Longrightarrow> psk_hint \<noteq> None) \<Longrightarrow> expand_key_or_psk use_psk f g key psk_hint \<noteq> Panic"
  by (auto simp: expand_key_or_psk_def split: option.splits)

lemma obind_no_panic: "m \<noteq> Panic \<Longrightarrow> (\<And>x. f x \<noteq> Panic) \<Longrightarrow> obind m f \<noteq> Panic"
  by (cases "(m, f)" rule: obind.cases) auto

lemma rbind_no_panic: "m \<noteq> Panic \<Longrightarrow> (\<And>x. f x \<noteq> Panic) \<Longrightarrow> rbind m f \<noteq> Panic"
  by (cases m) auto

lemma expand_ikm_sized:
  "hkdf_law cr \<Longrightarrow> expand_ikm cr a ikm info n = Some okm \<Longrightarrow>
    sized_ok SPDM_MAX_HKDF_OKM_SIZE okm \<and> data_size okm = n"
  by (auto simp: expand_ikm_def hkdf_law_def split: Option.bind_splits)

lemma derive_aead_key_iv_sized:
  assumes "hkdf_law cr" and "derive_aead_key_iv cr v a aead key = Ok (Some (k, iv))"
  shows "sized_ok 32 k \<and> length (as_ref k) = 32 \<and> sized_ok 12 iv \<and> length (as_ref iv) = 12"
proof -
  from assms(2) obtain s5 s6 okm okm' where
    okm: "expand_ikm cr a (major_ikm key) s5 (of_nat SPDM_MAX_AEAD_KEY_SIZE) = Some okm"
      "from_hkdf SPDM_MAX_AEAD_KEY_SIZE okm = Some k"
    and okm': "expand_ikm cr a (major_ikm key) s6 (of_nat SPDM_MAX_AEAD_IV_SIZE) = Some okm'"
      "from_hkdf SPDM_MAX_AEAD_IV_SIZE okm' = Some iv"
    by (auto simp: derive_aead_key_iv_def SpdmAeadKeyStruct_from_spdm_hkdf_okm_def
        SpdmAeadIvStruct_from_spdm_hkdf_okm_def)
  note s = expand_ikm_sized [OF assms(1) okm(1)] and s' = expand_ikm_sized [OF assms(1) okm'(1)]
  have "length (as_ref okm) = 32" "length (as_ref okm') = 12"
    using s s' by (auto simp: length_as_ref)
  with from_hkdf_Some [OF okm(2) conjunct1 [OF s]] from_hkdf_Some [OF okm'(2) conjunct1 [OF s']]
  show ?thesis by simp
qed

section \<open>Properties\<close>

text \<open>
  C29: With a transcript hash of at most 64 bytes every key-derivation string is produced, and it
  determines its purpose: two strings are equal only if length, label and transcript hash are.
  In particular no request-direction string equals a response-direction one.
\<close>

theorem key_derivation_strings_separated:
  assumes "label \<in> set key_labels" and "label' \<in> set key_labels"
    and "length (case ctx of None \<Rightarrow> [] | Some c \<Rightarrow> c) \<le> 64"
    and "length (case ctx' of None \<Rightarrow> [] | Some c \<Rightarrow> c) \<le> 64"
  shows "\<exists>s s'. bin_str len v label ctx = Some s \<and> bin_str len' v' label' ctx' = Some s' \<and>
    (s = s' \<longrightarrow> len = len' \<and> label = label' \<and>
      (case ctx of None \<Rightarrow> [] | Some c \<Rightarrow> c) = (case ctx' of None \<Rightarrow> [] | Some c \<Rightarrow> c))"
proof -
  let ?c = "case ctx of None \<Rightarrow> [] | Some c \<Rightarrow> c" and ?c' = "case ctx' of None \<Rightarrow> [] | Some c \<Rightarrow> c"
  have "len = len' \<and> label = label' \<and> ?c = ?c'"
    if "bin_str_layout len v label ctx = bin_str_layout len' v' label' ctx'"
  proof -
    from that have "le_bytes 2 len = le_bytes 2 len'" "label @ ?c = label' @ ?c'"
      by (auto simp: bin_str_layout_def version_string_def append_eq_append_conv)
    with prefix_free_append [OF key_labels_prefix_free assms(1,2)] show ?thesis
      by (auto simp: le_bytes_inject)
  qed
  then show ?thesis by (simp add: bin_str_Some assms)
qed

theorem key_derivation_strings_separated_witness:
  "BIN_STR1_LABEL \<in> set key_labels \<and>
   bin_str 32 SpdmVersion12 BIN_STR1_LABEL (Some [1, 2]) \<noteq>
     bin_str 32 SpdmVersion12 BIN_STR2_LABEL (Some [1, 2])"
proof -
  have l: "BIN_STR1_LABEL \<in> set key_labels" "BIN_STR2_LABEL \<in> set key_labels"
    by (simp_all add: key_labels_def)
  have "BIN_STR1_LABEL \<noteq> BIN_STR2_LABEL" by code_simp
  with key_derivation_strings_separated [OF l, of "Some [1, 2]" "Some [1, 2]" 32 SpdmVersion12 32
      SpdmVersion12] l
  show ?thesis by auto
qed

text \<open>
  If HKDF-Expand returns the number of bytes asked for, every derived AEAD key struct holds
  32 key bytes and every derived salt exactly 12 bytes in a 12-byte array, as the nonce
  construction of the secured messages needs.
\<close>

theorem aead_key_and_salt_sizes:
  assumes "hkdf_law cr" and "derive_aead_key_iv cr v a aead key = Ok (Some (k, iv))"
  shows "length (as_ref k) = 32 \<and> length (as_ref iv) = 12 \<and> length (data iv) = 12"
  using derive_aead_key_iv_sized [OF assms] by (simp add: sized_ok_def)

lemma sample_laws:
  "hash_ctx_law sample_crypto (\<lambda>h. h)" "aead_law sample_crypto" "hkdf_law sample_crypto"
  by (auto simp: hash_ctx_law_def aead_law_def hkdf_law_def sample_crypto_def sample_secret_def
      sized_ok_def word_le_nat_alt split: if_splits)

theorem aead_key_and_salt_sizes_witness:
  "\<exists>k iv. derive_aead_key_iv sample_crypto SpdmVersion12 1 2
      (Major_DirectionDataSecret \<lparr>data_size = 32, data = replicate 64 3\<rparr>) = Ok (Some (k, iv)) \<and>
    length (as_ref k) = 32 \<and> length (as_ref iv) = 12 \<and> length (data iv) = 12"
proof -
  let ?s = "Major_DirectionDataSecret \<lparr>data_size = 32, data = replicate 64 3\<rparr>"
  have "\<exists>k iv. derive_aead_key_iv sample_crypto SpdmVersion12 1 2 ?s = Ok (Some (k, iv))"
    by (simp add: derive_aead_key_iv_def SpdmAeadAlgo_get_key_size_def SpdmAeadAlgo_get_iv_size_def
        bin_str_Some key_labels_def expand_ikm_def sample_crypto_def sample_secret_def
        SpdmHkdfPseudoRandomKey_from_input_keying_material_def from_hkdf_def
        SpdmAeadKeyStruct_from_spdm_hkdf_okm_def SpdmAeadIvStruct_from_spdm_hkdf_okm_def)
  then show ?thesis using aead_key_and_salt_sizes [OF sample_laws(3)] by blast
qed

end
