(* ===== verification/Session.thy ===== *)
theory Session
  imports Key_Schedule
begin

text \<open>
  One SPDM session, \<open>spdmlib/src/common/session.rs\<close>: its secrets and sequence numbers, the key
  derivations at the two stages of the handshake, key update with backup, and the AEAD-protected
  message format.

  \<^item> The records are the structs of the source, with a prefix where two structs have a field of the
    same name. The default features are modelled, so the transcript of a session is a running hash
    of type \<open>'h\<close>.
  \<^item> A function that assigns to \<open>self\<close> returns the new session beside its result. \<open>run_steps\<close> keeps
    the assignments made before an early return.
  \<^item> \<open>encode_msg\<close> and \<open>decode_msg\<close> return the bytes they store at the start of the caller's buffer;
    the caller's buffer is represented by its capacity, and a slice beyond it is a panic.
  \<^item> The sequence number is a 64-bit word and \<open>+= 1\<close> wraps, as in a release build.
\<close>

section \<open>Definitions\<close>

subsection \<open>State\<close>

datatype SpdmSessionState =
    SpdmSessionNotStarted
  | SpdmSessionHandshaking
  | SpdmSessionEstablished
  | SpdmSessionStateUnknown u8

record SpdmSessionCryptoParam =
  base_hash_algo :: SpdmBaseHashAlgo
  dhe_algo :: SpdmDheAlgo
  aead_algo :: SpdmAeadAlgo
  key_schedule_algo :: SpdmKeyScheduleAlgo

record SpdmSessionDheSecretRoot =
  dhe_secret :: SpdmDheFinalKeyStruct
  root_handshake_secret :: SpdmHandshakeSecretStruct
  root_master_secret :: SpdmMasterSecretStruct

record SpdmSessionSecretParam =
  encryption_key :: SpdmAeadKeyStruct
  salt :: SpdmAeadIvStruct
  sequence_number :: u64

record SpdmSessionHandshakeSecret =
  request_handshake_secret :: SpdmDirectionHandshakeSecretStruct
  response_handshake_secret :: SpdmDirectionHandshakeSecretStruct
  request_finished_key :: SpdmFinishedKeyStruct
  response_finished_key :: SpdmFinishedKeyStruct
  hs_request_direction :: SpdmSessionSecretParam
  hs_response_direction :: SpdmSessionSecretParam

record SpdmSessionAppliationSecret =
  request_data_secret :: SpdmDirectionDataSecretStruct
  response_data_secret :: SpdmDirectionDataSecretStruct
  app_request_direction :: SpdmSessionSecretParam
  app_response_direction :: SpdmSessionSecretParam
  export_master_secret :: SpdmExportMasterSecretStruct

record SpdmSessionTransportParam =
  sequence_number_count :: u8
  max_random_count :: u16

record 'h SpdmSessionRuntimeInfo =
  psk_hint :: "SpdmPskHintStruct option"
  s_message_a :: ManagedBufferA
  message_f_initialized :: bool
  rsp_cert_hash :: "SpdmDigestStruct option"
  req_cert_hash :: "SpdmDigestStruct option"
  digest_context_th :: "'h option"
  s_digest_context_l1l2 :: "'h option"

type_synonym SpdmKeyExchangeMutAuthAttributes = u8

record 'h SpdmSession =
  session_id :: u32
  use_psk :: bool
  mut_auth_requested :: SpdmKeyExchangeMutAuthAttributes
  session_state :: SpdmSessionState
  crypto_param :: SpdmSessionCryptoParam
  dhe_secret_root :: SpdmSessionDheSecretRoot
  handshake_secret :: SpdmSessionHandshakeSecret
  application_secret :: SpdmSessionAppliationSecret
  application_secret_backup :: SpdmSessionAppliationSecret
  transport_param :: SpdmSessionTransportParam
  s_runtime_info :: "'h SpdmSessionRuntimeInfo"
  slot_id :: u8
  heartbeat_period :: u8
  secure_spdm_version_sel :: u8

definition INVALID_SESSION_ID :: u32 where
  "INVALID_SESSION_ID = 0"

definition DMTF_SECURE_SPDM_VERSION_11 :: u8 where
  "DMTF_SECURE_SPDM_VERSION_11 = 0x11"

definition SpdmSessionCryptoParam_default :: SpdmSessionCryptoParam where
  "SpdmSessionCryptoParam_default =
    \<lparr>base_hash_algo = 0, dhe_algo = 0, aead_algo = 0, key_schedule_algo = 0\<rparr>"

definition SpdmSessionDheSecretRoot_default :: SpdmSessionDheSecretRoot where
  "SpdmSessionDheSecretRoot_default = \<lparr>
    dhe_secret = sized_default SPDM_MAX_DHE_KEY_SIZE,
    root_handshake_secret = sized_default SPDM_MAX_HASH_SIZE,
    root_master_secret = sized_default SPDM_MAX_HASH_SIZE\<rparr>"

definition SpdmSessionSecretParam_default :: SpdmSessionSecretParam where
  "SpdmSessionSecretParam_default = \<lparr>
    encryption_key = sized_default SPDM_MAX_AEAD_KEY_SIZE,
    salt = sized_default SPDM_MAX_AEAD_IV_SIZE,
    sequence_number = 0\<rparr>"

definition SpdmSessionHandshakeSecret_default :: SpdmSessionHandshakeSecret where
  "SpdmSessionHandshakeSecret_default = \<lparr>
    request_handshake_secret = sized_default SPDM_MAX_HASH_SIZE,
    response_handshake_secret = sized_default SPDM_MAX_HASH_SIZE,
    request_finished_key = sized_default SPDM_MAX_HASH_SIZE,
    response_finished_key = sized_default SPDM_MAX_HASH_SIZE,
    hs_request_direction = SpdmSessionSecretParam_default,
    hs_response_direction = SpdmSessionSecretParam_default\<rparr>"

definition SpdmSessionAppliationSecret_default :: SpdmSessionAppliationSecret where
  "SpdmSessionAppliationSecret_default = \<lparr>
    request_data_secret = sized_default SPDM_MAX_HASH_SIZE,
    response_data_secret = sized_default SPDM_MAX_HASH_SIZE,
    app_request_direction = SpdmSessionSecretParam_default,
    app_response_direction = SpdmSessionSecretParam_default,
    export_master_secret = sized_default SPDM_MAX_HASH_SIZE\<rparr>"

definition SpdmSessionTransportParam_default :: SpdmSessionTransportParam where
  "SpdmSessionTransportParam_default = \<lparr>sequence_number_count = 0, max_random_count = 0\<rparr>"

definition SpdmSessionRuntimeInfo_default :: "'h SpdmSessionRuntimeInfo" where
  "SpdmSessionRuntimeInfo_default = \<lparr>
    psk_hint = None,
    s_message_a = ManagedBufferA_default,
    message_f_initialized = False,
    rsp_cert_hash = None,
    req_cert_hash = None,
    digest_context_th = None,
    s_digest_context_l1l2 = None\<rparr>"

subsection \<open>Lifecycle and accessors\<close>

definition SpdmSession_new :: "'h SpdmSession" where
  "SpdmSession_new = \<lparr>
    session_id = INVALID_SESSION_ID,
    use_psk = False,
    mut_auth_requested = 0,
    session_state = SpdmSessionNotStarted,
    crypto_param = SpdmSessionCryptoParam_default,
    dhe_secret_root = SpdmSessionDheSecretRoot_default,
    handshake_secret = SpdmSessionHandshakeSecret_default,
    application_secret = SpdmSessionAppliationSecret_default,
    application_secret_backup = SpdmSessionAppliationSecret_default,
    transport_param = SpdmSessionTransportParam_default,
    s_runtime_info = SpdmSessionRuntimeInfo_default,
    slot_id = 0,
    heartbeat_period = 0,
    secure_spdm_version_sel = DMTF_SECURE_SPDM_VERSION_11\<rparr>"

definition set_default :: "'h SpdmSession \<Rightarrow> 'h SpdmSession" where
  "set_default s = s\<lparr>
    session_id := INVALID_SESSION_ID,
    use_psk := False,
    session_state := SpdmSessionNotStarted,
    crypto_param := SpdmSessionCryptoParam_default,
    dhe_secret_root := SpdmSessionDheSecretRoot_default,
    handshake_secret := SpdmSessionHandshakeSecret_default,
    application_secret := SpdmSessionAppliationSecret_default,
    application_secret_backup := SpdmSessionAppliationSecret_default,
    transport_param := SpdmSessionTransportParam_default,
    s_runtime_info := SpdmSessionRuntimeInfo_default,
    heartbeat_period := 0,
    secure_spdm_version_sel := DMTF_SECURE_SPDM_VERSION_11,
    mut_auth_requested := 0\<rparr>"

definition session_setup :: "u32 \<Rightarrow> 'h SpdmSession \<Rightarrow> unit SpdmResult \<times> 'h SpdmSession" where
  "session_setup sid s =
    (if session_id s = INVALID_SESSION_ID
     then (Ok (), (set_default s)\<lparr>session_id := sid\<rparr>)
     else (Panic, s))"

definition session_teardown :: "u32 \<Rightarrow> 'h SpdmSession \<Rightarrow> unit SpdmResult \<times> 'h SpdmSession" where
  "session_teardown sid s =
    (if session_id s = sid then (Ok (), set_default s) else (Panic, s))"

definition set_crypto_param ::
    "SpdmBaseHashAlgo \<Rightarrow> SpdmDheAlgo \<Rightarrow> SpdmAeadAlgo \<Rightarrow> SpdmKeyScheduleAlgo \<Rightarrow>
      'h SpdmSession \<Rightarrow> 'h SpdmSession" where
  "set_crypto_param h d a k s = s\<lparr>crypto_param := (crypto_param s)\<lparr>
    base_hash_algo := h, dhe_algo := d, aead_algo := a, key_schedule_algo := k\<rparr>\<rparr>"

definition set_transport_param :: "u8 \<Rightarrow> u16 \<Rightarrow> 'h SpdmSession \<Rightarrow> 'h SpdmSession" where
  "set_transport_param c m s = s\<lparr>transport_param := (transport_param s)\<lparr>
    sequence_number_count := c, max_random_count := m\<rparr>\<rparr>"

definition set_session_state :: "SpdmSessionState \<Rightarrow> 'h SpdmSession \<Rightarrow> 'h SpdmSession" where
  "set_session_state st s = s\<lparr>session_state := st\<rparr>"

definition set_request_direction_sequence_number :: "u64 \<Rightarrow> 'h SpdmSession \<Rightarrow> 'h SpdmSession" where
  "set_request_direction_sequence_number n s =
    (let app = application_secret s in
     s\<lparr>application_secret := app\<lparr>app_request_direction :=
       (app_request_direction app)\<lparr>sequence_number := n\<rparr>\<rparr>\<rparr>)"

definition set_response_direction_sequence_number :: "u64 \<Rightarrow> 'h SpdmSession \<Rightarrow> 'h SpdmSession" where
  "set_response_direction_sequence_number n s =
    (let app = application_secret s in
     s\<lparr>application_secret := app\<lparr>app_response_direction :=
       (app_response_direction app)\<lparr>sequence_number := n\<rparr>\<rparr>\<rparr>)"

subsection \<open>Key derivation\<close>

definition or_crypto_error :: "'a option SpdmResult \<Rightarrow> 'a SpdmResult" where
  "or_crypto_error m = rbind m (ok_or SPDM_STATUS_CRYPTO_ERROR)"

definition set_dhe_secret ::
    "'h crypto \<Rightarrow> SpdmVersion \<Rightarrow> SpdmDheFinalKeyStruct \<Rightarrow> 'h SpdmSession \<Rightarrow>
      unit SpdmResult \<times> 'h SpdmSession" where
  "set_dhe_secret cr v dhe s =
    (let s = s\<lparr>dhe_secret_root := (dhe_secret_root s)\<lparr>dhe_secret := dhe\<rparr>\<rparr>;
         h = base_hash_algo (crypto_param s)
     in run_steps [\<lambda>s.
       rbind (or_crypto_error (derive_handshake_secret cr v h (dhe_secret (dhe_secret_root s)))) (\<lambda>hs.
       rbind (or_crypto_error (derive_master_secret cr v h hs)) (\<lambda>ms.
       Ok (s\<lparr>dhe_secret_root := (dhe_secret_root s)\<lparr>
         root_handshake_secret := hs, root_master_secret := ms\<rparr>\<rparr>)))] s)"

definition hs_key_or_none :: "'h SpdmSession \<Rightarrow> SpdmHandshakeSecretStruct option" where
  "hs_key_or_none s =
    (if use_psk s then None else Some (root_handshake_secret (dhe_secret_root s)))"

definition ms_key_or_none :: "'h SpdmSession \<Rightarrow> SpdmMasterSecretStruct option" where
  "ms_key_or_none s =
    (if use_psk s then None else Some (root_master_secret (dhe_secret_root s)))"

abbreviation upd_hs ::
    "(SpdmSessionHandshakeSecret \<Rightarrow> SpdmSessionHandshakeSecret) \<Rightarrow> 'h SpdmSession \<Rightarrow> 'h SpdmSession" where
  "upd_hs f s \<equiv> s\<lparr>handshake_secret := f (handshake_secret s)\<rparr>"

abbreviation upd_app ::
    "(SpdmSessionAppliationSecret \<Rightarrow> SpdmSessionAppliationSecret) \<Rightarrow> 'h SpdmSession \<Rightarrow> 'h SpdmSession" where
  "upd_app f s \<equiv> s\<lparr>application_secret := f (application_secret s)\<rparr>"

abbreviation upd_backup ::
    "(SpdmSessionAppliationSecret \<Rightarrow> SpdmSessionAppliationSecret) \<Rightarrow> 'h SpdmSession \<Rightarrow> 'h SpdmSession" where
  "upd_backup f s \<equiv> s\<lparr>application_secret_backup := f (application_secret_backup s)\<rparr>"

definition set_key_salt ::
    "SpdmAeadKeyStruct \<times> SpdmAeadIvStruct \<Rightarrow> SpdmSessionSecretParam \<Rightarrow> SpdmSessionSecretParam" where
  "set_key_salt res p = p\<lparr>encryption_key := fst res, salt := snd res\<rparr>"

definition generate_handshake_secret ::
    "'h crypto \<Rightarrow> SpdmVersion \<Rightarrow> SpdmDigestStruct \<Rightarrow> 'h SpdmSession \<Rightarrow>
      unit SpdmResult \<times> 'h SpdmSession" where
  "generate_handshake_secret cr v th1 s =
    (let h = base_hash_algo (crypto_param s); a = aead_algo (crypto_param s)
     in run_steps
       [\<lambda>s. rbind (or_crypto_error (derive_request_handshake_secret cr (use_psk s) v h
            (hs_key_or_none s) (psk_hint (s_runtime_info s)) (as_ref th1))) (\<lambda>rhs.
          Ok (upd_hs (request_handshake_secret_update (\<lambda>_. rhs)) s)),
        \<lambda>s. rbind (or_crypto_error (derive_response_handshake_secret cr (use_psk s) v h
            (hs_key_or_none s) (psk_hint (s_runtime_info s)) (as_ref th1))) (\<lambda>rhs.
          Ok (upd_hs (response_handshake_secret_update (\<lambda>_. rhs)) s)),
        \<lambda>s. rbind (or_crypto_error (derive_finished_key cr v h
            (request_handshake_secret (handshake_secret s)))) (\<lambda>rfk.
          Ok (upd_hs (request_finished_key_update (\<lambda>_. rfk)) s)),
        \<lambda>s. rbind (or_crypto_error (derive_finished_key cr v h
            (response_handshake_secret (handshake_secret s)))) (\<lambda>rfk.
          Ok (upd_hs (response_finished_key_update (\<lambda>_. rfk)) s)),
        \<lambda>s. rbind (or_crypto_error (derive_aead_key_iv cr v h a
            (Major_DirectionHandshakeSecret (request_handshake_secret (handshake_secret s))))) (\<lambda>res.
          Ok (upd_hs (hs_request_direction_update (set_key_salt res)) s)),
        \<lambda>s. rbind (or_crypto_error (derive_aead_key_iv cr v h a
            (Major_DirectionHandshakeSecret (response_handshake_secret (handshake_secret s))))) (\<lambda>res.
          Ok (upd_hs (hs_response_direction_update (set_key_salt res)) s))] s)"

definition generate_data_secret ::
    "'h crypto \<Rightarrow> SpdmVersion \<Rightarrow> SpdmDigestStruct \<Rightarrow> 'h SpdmSession \<Rightarrow>
      unit SpdmResult \<times> 'h SpdmSession" where
  "generate_data_secret cr v th2 s =
    (let h = base_hash_algo (crypto_param s); a = aead_algo (crypto_param s)
     in run_steps
       [\<lambda>s. rbind (or_crypto_error (derive_request_data_secret cr (use_psk s) v h
            (ms_key_or_none s) (psk_hint (s_runtime_info s)) (as_ref th2))) (\<lambda>rds.
          Ok (upd_app (request_data_secret_update (\<lambda>_. rds)) s)),
        \<lambda>s. rbind (or_crypto_error (derive_response_data_secret cr (use_psk s) v h
            (ms_key_or_none s) (psk_hint (s_runtime_info s)) (as_ref th2))) (\<lambda>rds.
          Ok (upd_app (response_data_secret_update (\<lambda>_. rds)) s)),
        \<lambda>s. rbind (or_crypto_error (derive_aead_key_iv cr v h a
            (Major_DirectionDataSecret (request_data_secret (application_secret s))))) (\<lambda>res.
          Ok (upd_app (app_request_direction_update (set_key_salt res)) s)),
        \<lambda>s. rbind (or_crypto_error (derive_aead_key_iv cr v h a
            (Major_DirectionDataSecret (response_data_secret (application_secret s))))) (\<lambda>res.
          Ok (upd_app (app_response_direction_update (set_key_salt res)) s)),
        \<lambda>s. rbind (or_crypto_error (derive_export_master_secret cr (use_psk s) v h
            (ms_key_or_none s) (psk_hint (s_runtime_info s)))) (\<lambda>ems.
          Ok (upd_app (export_master_secret_update (\<lambda>_. ems)) s))] s)"

text \<open>
  \<open>create_data_secret_update\<close>: per direction, back up the secret and the direction parameters,
  derive the updated secret, then key and salt, and restart the sequence number.
\<close>

definition update_request_steps ::
    "'h crypto \<Rightarrow> SpdmVersion \<Rightarrow> SpdmBaseHashAlgo \<Rightarrow> SpdmAeadAlgo \<Rightarrow>
      ('h SpdmSession \<Rightarrow> 'h SpdmSession SpdmResult) list" where
  "update_request_steps cr v h a =
    [\<lambda>s. Ok (upd_backup (\<lambda>b. b\<lparr>
        request_data_secret := request_data_secret (application_secret s),
        app_request_direction := app_request_direction (application_secret s)\<rparr>) s),
     \<lambda>s. rbind (or_crypto_error (derive_update_secret cr v h
         (request_data_secret (application_secret s)))) (\<lambda>us.
       Ok (upd_app (request_data_secret_update (\<lambda>_. us)) s)),
     \<lambda>s. rbind (or_crypto_error (derive_aead_key_iv cr v h a
         (Major_DirectionDataSecret (request_data_secret (application_secret s))))) (\<lambda>res.
       Ok (upd_app (app_request_direction_update (\<lambda>p.
         (set_key_salt res p)\<lparr>sequence_number := 0\<rparr>)) s))]"

definition update_response_steps ::
    "'h crypto \<Rightarrow> SpdmVersion \<Rightarrow> SpdmBaseHashAlgo \<Rightarrow> SpdmAeadAlgo \<Rightarrow>
      ('h SpdmSession \<Rightarrow> 'h SpdmSession SpdmResult) list" where
  "update_response_steps cr v h a =
    [\<lambda>s. Ok (upd_backup (\<lambda>b. b\<lparr>
        response_data_secret := response_data_secret (application_secret s),
        app_response_direction := app_response_direction (application_secret s)\<rparr>) s),
     \<lambda>s. rbind (or_crypto_error (derive_update_secret cr v h
         (response_data_secret (application_secret s)))) (\<lambda>us.
       Ok (upd_app (response_data_secret_update (\<lambda>_. us)) s)),
     \<lambda>s. rbind (or_crypto_error (derive_aead_key_iv cr v h a
         (Major_DirectionDataSecret (response_data_secret (application_secret s))))) (\<lambda>res.
       Ok (upd_app (app_response_direction_update (\<lambda>p.
         (set_key_salt res p)\<lparr>sequence_number := 0\<rparr>)) s))]"

definition create_data_secret_update ::
    "'h crypto \<Rightarrow> SpdmVersion \<Rightarrow> bool \<Rightarrow> bool \<Rightarrow> 'h SpdmSession \<Rightarrow>
      unit SpdmResult \<times> 'h SpdmSession" where
  "create_data_secret_update cr v update_requester update_responder s =
    (let h = base_hash_algo (crypto_param s); a = aead_algo (crypto_param s)
     in run_steps
       ((if update_requester then update_request_steps cr v h a else []) @
        (if update_responder then update_response_steps cr v h a else [])) s)"

definition activate_data_secret_update ::
    "SpdmVersion \<Rightarrow> bool \<Rightarrow> bool \<Rightarrow> bool \<Rightarrow> 'h SpdmSession \<Rightarrow> unit SpdmResult \<times> 'h SpdmSession" where
  "activate_data_secret_update v update_requester update_responder use_new_key s =
    (Ok (),
     if \<not> use_new_key then
       (let b = application_secret_backup s;
            s = (if update_requester
              then upd_app (\<lambda>p. p\<lparr>request_data_secret := request_data_secret b,
                app_request_direction := app_request_direction b\<rparr>) s else s)
        in if update_responder
           then upd_app (\<lambda>p. p\<lparr>response_data_secret := response_data_secret b,
             app_response_direction := app_response_direction b\<rparr>) s else s)
     else
       (let s = (if update_requester
              then upd_backup (\<lambda>p. p\<lparr>request_data_secret := sized_default SPDM_MAX_HASH_SIZE,
                app_request_direction := SpdmSessionSecretParam_default\<rparr>) s else s)
        in if update_responder
           then upd_backup (\<lambda>p. p\<lparr>response_data_secret := sized_default SPDM_MAX_HASH_SIZE,
             app_response_direction := SpdmSessionSecretParam_default\<rparr>) s else s))"

definition generate_hmac_with_response_finished_key ::
    "'h crypto \<Rightarrow> bytes \<Rightarrow> 'h SpdmSession \<Rightarrow> SpdmDigestStruct SpdmResult" where
  "generate_hmac_with_response_finished_key cr message_hash s =
    ok_or SPDM_STATUS_CRYPTO_ERROR (hmac cr (base_hash_algo (crypto_param s))
      (as_ref (response_finished_key (handshake_secret s))) message_hash)"

definition generate_hmac_with_request_finished_key ::
    "'h crypto \<Rightarrow> bytes \<Rightarrow> 'h SpdmSession \<Rightarrow> SpdmDigestStruct SpdmResult" where
  "generate_hmac_with_request_finished_key cr message_hash s =
    ok_or SPDM_STATUS_CRYPTO_ERROR (hmac cr (base_hash_algo (crypto_param s))
      (as_ref (request_finished_key (handshake_secret s))) message_hash)"

definition verify_hmac_with_response_finished_key ::
    "'h crypto \<Rightarrow> bytes \<Rightarrow> SpdmDigestStruct \<Rightarrow> 'h SpdmSession \<Rightarrow> unit SpdmResult" where
  "verify_hmac_with_response_finished_key cr message_hash mac s =
    hmac_verify cr (base_hash_algo (crypto_param s))
      (as_ref (response_finished_key (handshake_secret s))) message_hash mac"

definition verify_hmac_with_request_finished_key ::
    "'h crypto \<Rightarrow> bytes \<Rightarrow> SpdmDigestStruct \<Rightarrow> 'h SpdmSession \<Rightarrow> unit SpdmResult" where
  "verify_hmac_with_request_finished_key cr message_hash mac s =
    hmac_verify cr (base_hash_algo (crypto_param s))
      (as_ref (request_finished_key (handshake_secret s))) message_hash mac"

definition export_keys :: "'h SpdmSession \<Rightarrow> SpdmSessionSecretParam \<times> SpdmSessionSecretParam" where
  "export_keys s =
    (app_request_direction (application_secret s), app_response_direction (application_secret s))"

subsection \<open>Secured messages\<close>

text \<open>The sequence number bytes of the header and the nonce, \<open>salt.data[i] ^= (seq >> 8*i) & 0xFF\<close>.\<close>

definition seq_byte :: "u64 \<Rightarrow> nat \<Rightarrow> u8" where
  "seq_byte seq i = ucast (drop_bit (8 * i) seq AND 0xFF)"

definition nonce :: "SpdmAeadIvStruct \<Rightarrow> u64 \<Rightarrow> SpdmAeadIvStruct" where
  "nonce slt seq = slt\<lparr>data :=
    map (\<lambda>(i, b). if i < 8 then b XOR seq_byte seq i else b) (enumerate 0 (data slt))\<rparr>"

definition encode_aad :: "'h SpdmSession \<Rightarrow> SpdmSessionSecretParam \<Rightarrow> u16 \<Rightarrow> EncodeErr enc" where
  "encode_aad s p len = encs
    ([u32_encode (session_id s)] @
     map (\<lambda>i. u8_encode (seq_byte (sequence_number p) i))
       [0..<unat (sequence_number_count (transport_param s))] @
     [u16_encode len])"

definition encode_msg ::
    "'h crypto \<Rightarrow> 'h SpdmSession \<Rightarrow> bytes \<Rightarrow> nat \<Rightarrow> SpdmSessionSecretParam \<Rightarrow> bytes SpdmResult" where
  "encode_msg cr s app_buffer capacity p =
    rbind (SpdmAeadAlgo_get_tag_size (aead_algo (crypto_param s))) (\<lambda>tag_size16.
    (let algo = aead_algo (crypto_param s);
         cnt = unat (sequence_number_count (transport_param s));
         tag_size = unat tag_size16;
         cipher_text_size = length app_buffer + 2;
         app_length = of_nat (length app_buffer) :: u16;
         len = of_nat cipher_text_size + tag_size16
     in if sequence_number p = 0xFFFFFFFFFFFFFFFF then Err SPDM_STATUS_SEQUENCE_NUMBER_OVERFLOW
        else case encode_aad s p len (writer_init (replicate 14 0)) of
          (Err _, w) \<Rightarrow> Err SPDM_STATUS_BUFFER_TOO_SMALL
        | (Panic, w) \<Rightarrow> Panic
        | (Ok _, w) \<Rightarrow>
            (let aad = writer_used_slice w; aad_size = writer_used w
             in if aad_size \<noteq> 6 + cnt then Panic
                else if cipher_text_size > SENDER_BUFFER_SIZE then Panic
                else if tag_size > 16 \<or> aad_size + cipher_text_size > capacity then Panic
                else rbind (aead_encrypt cr algo (encryption_key p)
                    (nonce (salt p) (sequence_number p)) aad
                    (le_bytes 2 app_length @ app_buffer)) (\<lambda>(ct, tag).
                  if length tag \<noteq> tag_size \<or> length ct \<noteq> cipher_text_size then Panic
                  else if tag_size \<noteq> 16 \<or> aad_size + cipher_text_size + tag_size > capacity
                  then Panic
                  else Ok (aad @ ct @ tag)))))"

fun check_bytes :: "bytes \<Rightarrow> reader \<Rightarrow> reader option" where
  "check_bytes [] r = Some r"
| "check_bytes (b # bs) r =
    (case u8_read r of
      None \<Rightarrow> None
    | Some (c, r) \<Rightarrow> if c \<noteq> b then None else check_bytes bs r)"

definition decode_msg ::
    "'h crypto \<Rightarrow> 'h SpdmSession \<Rightarrow> bytes \<Rightarrow> nat \<Rightarrow> SpdmSessionSecretParam \<Rightarrow> bytes SpdmResult" where
  "decode_msg cr s secured_buffer capacity p =
    rbind (SpdmAeadAlgo_get_tag_size (aead_algo (crypto_param s))) (\<lambda>tag_size16.
    (let algo = aead_algo (crypto_param s);
         cnt = unat (sequence_number_count (transport_param s));
         tag_size = unat tag_size16
     in if sequence_number p = 0xFFFFFFFFFFFFFFFF then Err SPDM_STATUS_SEQUENCE_NUMBER_OVERFLOW
        else
          rbind (ok_or SPDM_STATUS_DECODE_AEAD_FAIL (u32_read (reader_init secured_buffer)))
          (\<lambda>(read_session_id, r).
          if read_session_id \<noteq> session_id s then Err SPDM_STATUS_DECODE_AEAD_FAIL
          else
          rbind (ok_or SPDM_STATUS_DECODE_AEAD_FAIL
            (check_bytes (map (seq_byte (sequence_number p)) [0..<cnt]) r)) (\<lambda>r.
          rbind (ok_or SPDM_STATUS_DECODE_AEAD_FAIL (u16_read r)) (\<lambda>(len, r).
          (let aad_size = reader_used r; cipher_text_size = unat len - tag_size
           in if aad_size \<noteq> 6 + cnt then Panic
              else if length secured_buffer < unat len + aad_size
              then Err SPDM_STATUS_DECODE_AEAD_FAIL
              else if unat len < tag_size then Err SPDM_STATUS_DECODE_AEAD_FAIL
              else if cipher_text_size > RECEIVER_BUFFER_SIZE then Panic
              else rbind (aead_decrypt cr algo (encryption_key p)
                  (nonce (salt p) (sequence_number p))
                  (slice secured_buffer 0 aad_size)
                  (slice secured_buffer aad_size (aad_size + cipher_text_size))
                  (slice secured_buffer (aad_size + cipher_text_size)
                    (aad_size + cipher_text_size + tag_size))) (\<lambda>pt.
                (let plain_text_buf = pt @ replicate (RECEIVER_BUFFER_SIZE - length pt) 0
                 in rbind (ok_or SPDM_STATUS_DECODE_AEAD_FAIL (u16_read (reader_init plain_text_buf)))
                    (\<lambda>(app_length, r).
                    if length pt < unat app_length + 2 then Err SPDM_STATUS_DECODE_AEAD_FAIL
                    else if unat app_length > capacity then Panic
                    else Ok (slice plain_text_buf 2 (unat app_length + 2)))))))))))"

definition next_seq :: "SpdmSessionSecretParam \<Rightarrow> SpdmSessionSecretParam" where
  "next_seq p = p\<lparr>sequence_number := sequence_number p + 1\<rparr>"

definition encode_spdm_secured_message ::
    "'h crypto \<Rightarrow> bytes \<Rightarrow> nat \<Rightarrow> bool \<Rightarrow> 'h SpdmSession \<Rightarrow> bytes SpdmResult \<times> 'h SpdmSession" where
  "encode_spdm_secured_message cr app_buffer capacity is_requester s =
    (case session_state s of
      SpdmSessionNotStarted \<Rightarrow> (Err SPDM_STATUS_INVALID_STATE_LOCAL, s)
    | SpdmSessionHandshaking \<Rightarrow>
        if is_requester
        then (encode_msg cr s app_buffer capacity (hs_request_direction (handshake_secret s)),
          upd_hs (hs_request_direction_update next_seq) s)
        else (encode_msg cr s app_buffer capacity (hs_response_direction (handshake_secret s)),
          upd_hs (hs_response_direction_update next_seq) s)
    | SpdmSessionEstablished \<Rightarrow>
        if is_requester
        then (encode_msg cr s app_buffer capacity (app_request_direction (application_secret s)),
          upd_app (app_request_direction_update next_seq) s)
        else (encode_msg cr s app_buffer capacity (app_response_direction (application_secret s)),
          upd_app (app_response_direction_update next_seq) s)
    | SpdmSessionStateUnknown _ \<Rightarrow> (Panic, s))"

definition decode_spdm_secured_message ::
    "'h crypto \<Rightarrow> bytes \<Rightarrow> nat \<Rightarrow> bool \<Rightarrow> 'h SpdmSession \<Rightarrow> bytes SpdmResult \<times> 'h SpdmSession" where
  "decode_spdm_secured_message cr secured_buffer capacity is_requester s =
    (case session_state s of
      SpdmSessionNotStarted \<Rightarrow> (Err SPDM_STATUS_INVALID_STATE_LOCAL, s)
    | SpdmSessionHandshaking \<Rightarrow>
        if is_requester
        then (decode_msg cr s secured_buffer capacity (hs_request_direction (handshake_secret s)),
          upd_hs (hs_request_direction_update next_seq) s)
        else (decode_msg cr s secured_buffer capacity (hs_response_direction (handshake_secret s)),
          upd_hs (hs_response_direction_update next_seq) s)
    | SpdmSessionEstablished \<Rightarrow>
        if is_requester
        then (decode_msg cr s secured_buffer capacity (app_request_direction (application_secret s)),
          upd_app (app_request_direction_update next_seq) s)
        else (decode_msg cr s secured_buffer capacity (app_response_direction (application_secret s)),
          upd_app (app_response_direction_update next_seq) s)
    | SpdmSessionStateUnknown _ \<Rightarrow> (Err SPDM_STATUS_INVALID_STATE_LOCAL, s))"

subsection \<open>Specification of the message format\<close>

definition sec_header :: "'h SpdmSession \<Rightarrow> SpdmSessionSecretParam \<Rightarrow> u16 \<Rightarrow> bytes" where
  "sec_header s p len =
    le_bytes 4 (session_id s) @
    map (seq_byte (sequence_number p)) [0..<unat (sequence_number_count (transport_param s))] @
    le_bytes 2 len"

text \<open>Two sessions that agree on everything the message format depends on.\<close>

definition same_channel :: "'h SpdmSession \<Rightarrow> 'h SpdmSession \<Rightarrow> bool" where
  "same_channel s s' \<longleftrightarrow>
    session_id s = session_id s' \<and>
    session_state s = session_state s' \<and>
    aead_algo (crypto_param s) = aead_algo (crypto_param s') \<and>
    sequence_number_count (transport_param s) = sequence_number_count (transport_param s') \<and>
    hs_request_direction (handshake_secret s) = hs_request_direction (handshake_secret s') \<and>
    hs_response_direction (handshake_secret s) = hs_response_direction (handshake_secret s') \<and>
    app_request_direction (application_secret s) = app_request_direction (application_secret s') \<and>
    app_response_direction (application_secret s) = app_response_direction (application_secret s')"

text \<open>A run of messages over a channel: who sends, and what; the receiver decodes each in order.\<close>

fun channel_run ::
    "'h crypto \<Rightarrow> nat \<Rightarrow> (bool \<times> bytes) list \<Rightarrow> 'h SpdmSession \<Rightarrow> 'h SpdmSession \<Rightarrow>
      (bytes SpdmResult) list \<times> 'h SpdmSession \<times> 'h SpdmSession" where
  "channel_run cr capacity [] s s' = ([], s, s')"
| "channel_run cr capacity ((is_requester, app) # ms) s s' =
    (case encode_spdm_secured_message cr app capacity is_requester s of
      (Ok m, s) \<Rightarrow>
        (case decode_spdm_secured_message cr m capacity is_requester s' of
          (r, s') \<Rightarrow>
            (case channel_run cr capacity ms s s' of (rs, s, s') \<Rightarrow> (r # rs, s, s')))
    | (_, s) \<Rightarrow> ([], s, s'))"

section \<open>Nonces\<close>

lemma seq_byte_le_bytes: "i < n \<Longrightarrow> le_bytes n seq ! i = seq_byte seq i"
proof -
  have "(ucast (x AND 0xFF :: u64) :: u8) = ucast x" for x
  proof (rule bit_word_eqI)
    fix n
    assume "n < LENGTH(8)"
    then show "bit (ucast (x AND 0xFF :: u64) :: u8) n = bit (ucast x :: u8) n"
      using bit_mask_iff [of 8 n, where 'a = u64]
      by (auto simp: bit_simps mask_eq_exp_minus_1)
  qed
  then show "i < n \<Longrightarrow> le_bytes n seq ! i = seq_byte seq i"
    by (simp add: le_bytes_def seq_byte_def)
qed

lemma nth_nonce:
  "i < length (data slt) \<Longrightarrow>
    data (nonce slt seq) ! i = (if i < 8 then data slt ! i XOR seq_byte seq i else data slt ! i)"
  by (simp add: nonce_def nth_enumerate_eq)

lemma nonce_inject:
  assumes "nonce slt seq = nonce slt seq'" and "8 \<le> length (data slt)"
  shows "seq = seq'"
proof -
  have "seq_byte seq i = seq_byte seq' i" if "i < 8" for i
  proof -
    have "data (nonce slt seq) ! i = data (nonce slt seq') ! i" using assms(1) by simp
    then have "data slt ! i XOR seq_byte seq i = data slt ! i XOR seq_byte seq' i"
      using that assms(2) by (simp add: nth_nonce)
    then have "data slt ! i XOR (data slt ! i XOR seq_byte seq i) =
        data slt ! i XOR (data slt ! i XOR seq_byte seq' i)" by simp
    then show ?thesis by (simp add: xor.assoc [symmetric])
  qed
  then have "le_bytes 8 seq = le_bytes 8 seq'"
    by (intro nth_equalityI) (simp_all add: seq_byte_le_bytes)
  then show ?thesis by (simp add: le_bytes_inject)
qed

section \<open>Message format\<close>

lemma SENDER_BUFFER_SIZE_val: "SENDER_BUFFER_SIZE = 4160"
  by (simp add: SENDER_BUFFER_SIZE_def config_def)

lemma RECEIVER_BUFFER_SIZE_val: "RECEIVER_BUFFER_SIZE = 4160"
  by (simp add: RECEIVER_BUFFER_SIZE_def config_def)

lemma length_sec_header [simp]:
  "length (sec_header s p len) = 6 + unat (sequence_number_count (transport_param s))"
  by (simp add: sec_header_def)

lemma emits_aad: "emits (encode_aad s p len) (sec_header s p len)"
proof -
  let ?n = "unat (sequence_number_count (transport_param s))"
  have "list_all2 emits
      ([u32_encode (session_id s)] @
        map (\<lambda>i. u8_encode (seq_byte (sequence_number p) i)) [0..<?n] @ [u16_encode len])
      ([le_bytes 4 (session_id s)] @
        map (\<lambda>i. [seq_byte (sequence_number p) i]) [0..<?n] @ [le_bytes 2 len])"
    by (intro list_all2_appendI) (simp_all add: emits_u32 emits_u16 list_all2_conv_all_nth emits_u8)
  from emits_encs [OF this] show ?thesis
    by (simp add: encode_aad_def sec_header_def)
qed

lemma tag_size_16:
  "SpdmAeadAlgo_get_tag_size a = Ok n \<Longrightarrow> n = 16" and
  tag_size_Err: "SpdmAeadAlgo_get_tag_size a \<noteq> Err e"
  by (auto simp: SpdmAeadAlgo_get_tag_size_def split: if_splits)

definition sec_length :: "bytes \<Rightarrow> u16" where
  "sec_length app = of_nat (length app + 2) + 16"

lemma unat_sec_length: "length app + 2 \<le> SENDER_BUFFER_SIZE \<Longrightarrow> unat (sec_length app) = length app + 18"
proof -
  assume "length app + 2 \<le> SENDER_BUFFER_SIZE"
  then have "length app + 18 \<le> 0xFFFF" by (simp add: SENDER_BUFFER_SIZE_val)
  moreover have "sec_length app = of_nat (length app + 18)" by (simp add: sec_length_def)
  ultimately show ?thesis by (metis unat_of_nat_u16)
qed

lemma encode_msg_OkE:
  assumes "encode_msg cr s app capacity p = Ok m"
  obtains ct tag where
    "m = sec_header s p (sec_length app) @ ct @ tag"
    "aead_encrypt cr (aead_algo (crypto_param s)) (encryption_key p)
      (nonce (salt p) (sequence_number p)) (sec_header s p (sec_length app))
      (le_bytes 2 (of_nat (length app) :: u16) @ app) = Ok (ct, tag)"
    "length ct = length app + 2" "length tag = 16"
    "SpdmAeadAlgo_get_tag_size (aead_algo (crypto_param s)) = Ok 16"
    "sequence_number p \<noteq> 0xFFFFFFFFFFFFFFFF"
    "length app + 2 \<le> SENDER_BUFFER_SIZE" "length m \<le> capacity"
proof -
  let ?n = "unat (sequence_number_count (transport_param s))"
  from assms obtain tag16 where t: "SpdmAeadAlgo_get_tag_size (aead_algo (crypto_param s)) = Ok tag16"
    by (auto simp: encode_msg_def)
  then have "tag16 = 16" by (rule tag_size_16)
  with t have t16: "SpdmAeadAlgo_get_tag_size (aead_algo (crypto_param s)) = Ok 16" by simp
  note e = assms [unfolded encode_msg_def t16 rbind.simps Let_def sec_length_def [symmetric]
      writer_init_wr_at]
  show ?thesis
  proof (cases "?n \<le> 8")
    case True
    then have "length (sec_header s p (sec_length app)) \<le> length (replicate 14 (0::u8))" by simp
    note a = emits_Ok [OF emits_aad this, of "[]"]
    show ?thesis
      using e that t16 unfolding a by (auto split: if_splits prod.splits)
  next
    case False
    then have "length (replicate 14 (0::u8)) < length (sec_header s p (sec_length app))" by simp
    then obtain x k where "encode_aad s p (sec_length app) (wr_at [] (replicate 14 0)) =
        (Err x, wr_at ([] @ take k (sec_header s p (sec_length app))) (drop k (replicate 14 0)))"
      using emits_Err [OF emits_aad] by metis
    then show ?thesis using e by (auto split: if_splits)
  qed
qed

lemma check_bytes_rd_at [simp]:
  "check_bytes bs (rd_at pre (bs @ post)) = Some (rd_at (pre @ bs) post)"
  by (induction bs arbitrary: pre) auto

lemma decode_msg_image:
  assumes "SpdmAeadAlgo_get_tag_size (aead_algo (crypto_param s)) = Ok 16"
    and "sequence_number p \<noteq> 0xFFFFFFFFFFFFFFFF"
    and "length app + 2 \<le> SENDER_BUFFER_SIZE" and "length app \<le> capacity"
    and "length ct = length app + 2" and "length tag = 16"
    and "aead_decrypt cr (aead_algo (crypto_param s)) (encryption_key p)
      (nonce (salt p) (sequence_number p)) (sec_header s p (sec_length app)) ct tag =
        Ok (le_bytes 2 (of_nat (length app) :: u16) @ app)"
  shows "decode_msg cr s (sec_header s p (sec_length app) @ ct @ tag @ pad) capacity p = Ok app"
proof -
  let ?h = "sec_header s p (sec_length app)"
  let ?buf = "?h @ ct @ tag @ pad"
  have len: "unat (sec_length app) = length app + 18" by (rule unat_sec_length) (fact assms)
  let ?seqs = "map (seq_byte (sequence_number p)) [0..<unat (sequence_number_count (transport_param s))]"
  let ?r1 = "rd_at (le_bytes 4 (session_id s)) (?seqs @ le_bytes 2 (sec_length app) @ ct @ tag @ pad)"
  have reads: "u32_read (rd_at [] ?buf) = Some (session_id s, ?r1)"
    "check_bytes ?seqs ?r1 =
      Some (rd_at (le_bytes 4 (session_id s) @ ?seqs) (le_bytes 2 (sec_length app) @ ct @ tag @ pad))"
    "u16_read (rd_at (le_bytes 4 (session_id s) @ ?seqs) (le_bytes 2 (sec_length app) @ ct @ tag @ pad)) =
      Some (sec_length app, rd_at ?h (ct @ tag @ pad))"
    by (simp_all add: sec_header_def)
  have slices: "slice ?buf 0 (length ?h) = ?h"
    "slice ?buf (length ?h) (length ?h + (length app + 2)) = ct"
    "slice ?buf (length ?h + (length app + 2)) (length ?h + (length app + 2) + 16) = tag"
    using assms by (simp_all add: slice_def)
  have app: "unat (of_nat (length app) :: u16) = length app"
    using assms(3) by (simp add: SENDER_BUFFER_SIZE_val)
  show ?thesis
    using assms len slices app
    by (simp add: decode_msg_def reader_init_rd_at Let_def reads SENDER_BUFFER_SIZE_val
        RECEIVER_BUFFER_SIZE_val slice_def del: rbind_eq_Ok)
qed

section \<open>Channels\<close>

text \<open>The parameters of the direction a session currently uses, and storing into that direction.\<close>

definition direction :: "bool \<Rightarrow> 'h SpdmSession \<Rightarrow> SpdmSessionSecretParam" where
  "direction is_requester s =
    (if session_state s = SpdmSessionHandshaking
     then if is_requester then hs_request_direction (handshake_secret s)
       else hs_response_direction (handshake_secret s)
     else if is_requester then app_request_direction (application_secret s)
       else app_response_direction (application_secret s))"

definition set_direction ::
    "bool \<Rightarrow> SpdmSessionSecretParam \<Rightarrow> 'h SpdmSession \<Rightarrow> 'h SpdmSession" where
  "set_direction is_requester p s =
    (if session_state s = SpdmSessionHandshaking
     then upd_hs (if is_requester then hs_request_direction_update (\<lambda>_. p)
       else hs_response_direction_update (\<lambda>_. p)) s
     else upd_app (if is_requester then app_request_direction_update (\<lambda>_. p)
       else app_response_direction_update (\<lambda>_. p)) s)"

definition active :: "'h SpdmSession \<Rightarrow> bool" where
  "active s \<longleftrightarrow> session_state s = SpdmSessionHandshaking \<or> session_state s = SpdmSessionEstablished"

lemma encode_secured_active:
  "active s \<Longrightarrow> encode_spdm_secured_message cr app capacity req s =
    (encode_msg cr s app capacity (direction req s), set_direction req (next_seq (direction req s)) s)"
  by (auto simp: active_def encode_spdm_secured_message_def direction_def set_direction_def)

lemma decode_secured_active:
  "active s \<Longrightarrow> decode_spdm_secured_message cr m capacity req s =
    (decode_msg cr s m capacity (direction req s), set_direction req (next_seq (direction req s)) s)"
  by (auto simp: active_def decode_spdm_secured_message_def direction_def set_direction_def)

lemma encode_secured_Ok_active:
  "encode_spdm_secured_message cr app capacity req s = (Ok m, s1) \<Longrightarrow> active s"
  by (auto simp: encode_spdm_secured_message_def active_def split: SpdmSessionState.splits)

lemma set_direction_simps [state_simps]:
  "direction req (set_direction req p s) = p"
  "session_state (set_direction req p s) = session_state s"
  "active (set_direction req p s) = active s"
  by (auto simp: direction_def set_direction_def active_def)

lemma same_channel_direction:
  "same_channel s s' \<Longrightarrow> direction req s = direction req s'"
  "same_channel s s' \<Longrightarrow> active s = active s'"
  "same_channel s s' \<Longrightarrow> sec_header s p len = sec_header s' p len"
  by (auto simp: same_channel_def direction_def active_def sec_header_def)

lemma same_channel_set_direction:
  "same_channel s s' \<Longrightarrow> same_channel (set_direction req p s) (set_direction req p s')"
  by (auto simp: same_channel_def set_direction_def)

lemma secured_step:
  assumes law: "aead_law cr" and same: "same_channel s s'"
    and enc: "encode_spdm_secured_message cr app capacity req s = (Ok m, s1)"
    and cap: "length app \<le> capacity'"
  shows "\<exists>s1'. decode_spdm_secured_message cr (m @ pad) capacity' req s' = (Ok app, s1') \<and>
    same_channel s1 s1'"
proof -
  let ?p = "direction req s"
  note act = encode_secured_Ok_active [OF enc]
  with enc have e: "encode_msg cr s app capacity ?p = Ok m"
    and s1: "s1 = set_direction req (next_seq ?p) s"
    by (auto simp: encode_secured_active)
  have p': "direction req s' = ?p" and act': "active s'"
    using same act by (auto simp: same_channel_direction)
  from e obtain ct tag where m: "m = sec_header s ?p (sec_length app) @ ct @ tag"
    and enc': "aead_encrypt cr (aead_algo (crypto_param s)) (encryption_key ?p)
      (nonce (salt ?p) (sequence_number ?p)) (sec_header s ?p (sec_length app))
      (le_bytes 2 (of_nat (length app) :: u16) @ app) = Ok (ct, tag)"
    and sizes: "length ct = length app + 2" "length tag = 16"
      "SpdmAeadAlgo_get_tag_size (aead_algo (crypto_param s)) = Ok 16"
      "sequence_number ?p \<noteq> 0xFFFFFFFFFFFFFFFF" "length app + 2 \<le> SENDER_BUFFER_SIZE"
    by (rule encode_msg_OkE)
  have algo: "aead_algo (crypto_param s') = aead_algo (crypto_param s)"
    and hdr: "sec_header s' ?p (sec_length app) = sec_header s ?p (sec_length app)"
    using same by (auto simp: same_channel_def sec_header_def)
  have "decode_msg cr s' (sec_header s' ?p (sec_length app) @ ct @ tag @ pad) capacity' ?p = Ok app"
    using law enc' sizes cap by (intro decode_msg_image) (auto simp: algo hdr aead_law_def)
  then show ?thesis
    using same_channel_set_direction [OF same, of req "next_seq ?p"]
    by (simp add: decode_secured_active [OF act'] p' m hdr s1)
qed

lemma channel_run_prefix:
  assumes "aead_law cr" "same_channel s s'" "list_all (\<lambda>(_, app). length app \<le> capacity) ms"
  shows "prefix (fst (channel_run cr capacity ms s s')) (map (\<lambda>a. Ok (snd a)) ms)"
  using assms
proof (induction ms arbitrary: s s')
  case (Cons a ms)
  obtain req app where a: "a = (req, app)" by (cases a)
  obtain r s1 where enc: "encode_spdm_secured_message cr app capacity req s = (r, s1)"
    by (cases "encode_spdm_secured_message cr app capacity req s")
  show ?case
  proof (cases r)
    case (Ok m)
    with enc Cons.prems a obtain s1' where
      d: "decode_spdm_secured_message cr m capacity req s' = (Ok app, s1')" "same_channel s1 s1'"
      using secured_step [of cr s s' app capacity req m s1 capacity "[]"] by auto
    then have "prefix (fst (channel_run cr capacity ms s1 s1')) (map (\<lambda>a. Ok (snd a)) ms)"
      using Cons by auto
    with enc Ok d show ?thesis by (auto simp: a split: prod.splits)
  qed (auto simp: a enc)
qed simp

section \<open>Sequence numbers\<close>

fun send_all ::
    "'h crypto \<Rightarrow> nat \<Rightarrow> bool \<Rightarrow> bytes list \<Rightarrow> 'h SpdmSession \<Rightarrow> 'h SpdmSession" where
  "send_all cr capacity req [] s = s"
| "send_all cr capacity req (app # apps) s =
    send_all cr capacity req apps (snd (encode_spdm_secured_message cr app capacity req s))"

lemma send_all_direction:
  "active s \<Longrightarrow>
    active (send_all cr capacity req apps s) \<and>
    direction req (send_all cr capacity req apps s) =
      (direction req s)\<lparr>sequence_number := sequence_number (direction req s) + of_nat (length apps)\<rparr>"
  by (induction apps arbitrary: s)
    (auto simp: encode_secured_active set_direction_simps next_seq_def add.assoc add.commute)

lemma of_nat_u64_inject:
  "i < 2 ^ 64 \<Longrightarrow> j < 2 ^ 64 \<Longrightarrow> (of_nat i :: u64) = of_nat j \<longleftrightarrow> i = j"
proof -
  have "unat (of_nat k :: u64) = k" if "k < 2 ^ 64" for k
    using that by (simp add: unsigned_of_nat take_bit_nat_eq_self)
  then show "i < 2 ^ 64 \<Longrightarrow> j < 2 ^ 64 \<Longrightarrow> (of_nat i :: u64) = of_nat j \<longleftrightarrow> i = j" by metis
qed

section \<open>Key derivation and update\<close>

lemma run_steps_Ok_Cons:
  "run_steps (f # fs) s = (Ok (), s') \<longleftrightarrow> (\<exists>s1. f s = Ok s1 \<and> run_steps fs s1 = (Ok (), s'))"
  by (auto split: result.splits)

lemma or_crypto_error_eq_Ok [simp]: "or_crypto_error m = Ok x \<longleftrightarrow> m = Ok (Some x)"
  by (cases m) (auto simp: or_crypto_error_def)

section \<open>Properties\<close>

text \<open>
  Secured messages round trip. If decryption undoes encryption and the two ends agree on the
  channel, then whatever the sender's session encodes, the receiver's session decodes to exactly
  the application data, also with alignment bytes after it, and the two ends still agree.
\<close>

theorem secured_message_round_trip:
  assumes "aead_law cr" and "same_channel s s'"
    and "encode_spdm_secured_message cr app capacity req s = (Ok m, s1)"
    and "length app \<le> capacity'"
  shows "\<exists>s1'. decode_spdm_secured_message cr (m @ pad) capacity' req s' = (Ok app, s1') \<and>
    same_channel s1 s1'"
  using assms by (rule secured_step)

definition sample_session :: "(SpdmBaseHashAlgo \<times> bytes) SpdmSession" where
  "sample_session = (set_session_state SpdmSessionEstablished
    (set_crypto_param 1 8 2 1 (snd (session_setup 0xFFFDFFFD SpdmSession_new))))"

lemma sample_session_simps:
  "session_id sample_session = 0xFFFDFFFD" "session_state sample_session = SpdmSessionEstablished"
  "aead_algo (crypto_param sample_session) = 2" "base_hash_algo (crypto_param sample_session) = 1"
  "sequence_number_count (transport_param sample_session) = 0"
  "app_request_direction (application_secret sample_session) = SpdmSessionSecretParam_default"
  "app_response_direction (application_secret sample_session) = SpdmSessionSecretParam_default"
  by (simp_all add: sample_session_def set_session_state_def set_crypto_param_def session_setup_def
      SpdmSession_new_def set_default_def INVALID_SESSION_ID_def SpdmSessionTransportParam_default_def
      SpdmSessionAppliationSecret_default_def)

lemma sample_encode:
  "encode_spdm_secured_message sample_crypto [0x10, 0xE8] 100 True sample_session =
    (Ok ([0xFD, 0xFF, 0xFD, 0xFF, 0x14, 0, 2, 0, 0x10, 0xE8] @ replicate 16 0x5A),
     set_direction True (next_seq (direction True sample_session)) sample_session)"
proof -
  have a: "active sample_session" by (simp add: active_def sample_session_simps)
  have seq: "sequence_number (direction True sample_session) = 0"
    by (simp add: direction_def sample_session_simps SpdmSessionSecretParam_default_def)
  have hdr: "sec_header sample_session (direction True sample_session) len =
      [0xFD, 0xFF, 0xFD, 0xFF] @ le_bytes 2 len" for len
    by (simp add: sec_header_def sample_session_simps le_bytes_numeral)
  have "encode_msg sample_crypto sample_session [0x10, 0xE8] 100 (direction True sample_session) =
      Ok ([0xFD, 0xFF, 0xFD, 0xFF, 0x14, 0, 2, 0, 0x10, 0xE8] @ replicate 16 0x5A)"
    by (simp add: encode_msg_def sample_session_simps SpdmAeadAlgo_get_tag_size_def seq
        writer_init_wr_at emits_Ok [OF emits_aad] hdr sample_crypto_def SENDER_BUFFER_SIZE_val
        le_bytes_numeral Let_def)
  with a show ?thesis by (simp add: encode_secured_active)
qed

theorem secured_message_round_trip_witness:
  "\<exists>s1'. decode_spdm_secured_message sample_crypto
      ([0xFD, 0xFF, 0xFD, 0xFF, 0x14, 0, 2, 0, 0x10, 0xE8] @ replicate 16 0x5A @ [0, 0]) 100 True
      sample_session = (Ok [0x10, 0xE8], s1')"
proof -
  have "same_channel sample_session sample_session" by (simp add: same_channel_def)
  from secured_message_round_trip [OF sample_laws(2) this sample_encode, of 100 "[0, 0]"]
  show ?thesis by auto
qed





text \<open>
  C35: After the last sequence number the counter wraps. Encoding with sequence number 2^64 - 1 is
  refused with SEQUENCE\_NUMBER\_OVERFLOW, but the increment after it still happens and, without
  overflow checks, restarts the counter at 0 under the same key and salt, so a further message
  would reuse the nonce of the first one.
\<close>

theorem sequence_number_wraps:
  assumes "active s" and "sequence_number (direction req s) = 0xFFFFFFFFFFFFFFFF"
    and "SpdmAeadAlgo_get_tag_size (aead_algo (crypto_param s)) = Ok 16"
  shows "\<exists>s1. encode_spdm_secured_message cr app capacity req s =
      (Err SPDM_STATUS_SEQUENCE_NUMBER_OVERFLOW, s1) \<and>
    direction req s1 = (direction req s)\<lparr>sequence_number := 0\<rparr>"
  using assms
  by (simp add: encode_secured_active encode_msg_def Let_def set_direction_simps next_seq_def)

theorem sequence_number_wraps_witness:
  "\<exists>s1. encode_spdm_secured_message sample_crypto [1] 100 True
      (set_request_direction_sequence_number 0xFFFFFFFFFFFFFFFF sample_session) =
        (Err SPDM_STATUS_SEQUENCE_NUMBER_OVERFLOW, s1) \<and> sequence_number (direction True s1) = 0"
proof -
  let ?s = "set_request_direction_sequence_number 0xFFFFFFFFFFFFFFFF sample_session"
  have "active ?s" "sequence_number (direction True ?s) = 0xFFFFFFFFFFFFFFFF"
    "SpdmAeadAlgo_get_tag_size (aead_algo (crypto_param ?s)) = Ok 16"
    by (simp_all add: set_request_direction_sequence_number_def active_def sample_session_simps
        direction_def Let_def SpdmAeadAlgo_get_tag_size_def)
  from sequence_number_wraps [OF this, of sample_crypto "[1]" 100]
  show ?thesis by (elim exE conjE) (intro exI conjI, assumption, simp)
qed

text \<open>
  A key update can be rolled back: creating the update and then activating it with the old
  key restores, for the updated directions, the data secret, key, salt and sequence number; the
  directions that were not updated are never touched.
\<close>

theorem key_update_rollback:
  assumes "create_data_secret_update cr v update_requester update_responder s = (Ok (), s1)"
  shows "application_secret (snd (activate_data_secret_update v update_requester update_responder
    False s1)) = application_secret s"
  using assms
  by (cases update_requester; cases update_responder)
    (auto simp: create_data_secret_update_def Let_def update_request_steps_def
      update_response_steps_def run_steps_Ok_Cons activate_data_secret_update_def simp del: run_steps.simps(2))

definition sample_keyed :: "(SpdmBaseHashAlgo \<times> bytes) SpdmSession" where
  "sample_keyed = upd_app (\<lambda>p. p\<lparr>
    request_data_secret := \<lparr>data_size = 32, data = replicate 64 3\<rparr>,
    response_data_secret := \<lparr>data_size = 32, data = replicate 64 4\<rparr>\<rparr>) sample_session"

lemma sample_derive:
  "as_ref k \<noteq> [] \<Longrightarrow> sized_ok 64 k \<Longrightarrow>
    \<exists>k'. derive_update_secret sample_crypto v 1 k = Ok (Some k') \<and> as_ref k' \<noteq> [] \<and> sized_ok 64 k'"
  "as_ref k \<noteq> [] \<Longrightarrow> sized_ok 64 k \<Longrightarrow>
    \<exists>key iv. derive_aead_key_iv sample_crypto v 1 2 (Major_DirectionDataSecret k) = Ok (Some (key, iv))"
proof -
  assume k: "as_ref k \<noteq> []" "sized_ok 64 k"
  then have prk: "data_size k \<noteq> 0" "\<not> 64 < data_size k"
    by (auto simp: as_ref_def sized_ok_def word_less_nat_alt)
  show "\<exists>k'. derive_update_secret sample_crypto v 1 k = Ok (Some k') \<and> as_ref k' \<noteq> [] \<and> sized_ok 64 k'"
    by (simp add: derive_update_secret_def SpdmBaseHashAlgo_get_size_def bin_str_Some key_labels_def
        expand_ikm_def SpdmHkdfPseudoRandomKey_from_input_keying_material_def prk sample_crypto_def
        sample_secret_def SpdmDirectionDataSecretStruct_from_spdm_hkdf_okm_def from_hkdf_def
        as_ref_def sized_ok_def write_at_eq)
  show "\<exists>key iv. derive_aead_key_iv sample_crypto v 1 2 (Major_DirectionDataSecret k) = Ok (Some (key, iv))"
    by (simp add: derive_aead_key_iv_def SpdmAeadAlgo_get_key_size_def SpdmAeadAlgo_get_iv_size_def
        bin_str_Some key_labels_def expand_ikm_def prk sample_crypto_def sample_secret_def
        SpdmHkdfPseudoRandomKey_from_input_keying_material_def from_hkdf_def
        SpdmAeadKeyStruct_from_spdm_hkdf_okm_def SpdmAeadIvStruct_from_spdm_hkdf_okm_def)
qed

lemma sample_create_update:
  "\<exists>s1. create_data_secret_update sample_crypto SpdmVersion12 True True sample_keyed = (Ok (), s1)"
proof -
  let ?k = "\<lparr>data_size = 32, data = replicate 64 3\<rparr> :: sized_data"
  let ?l = "\<lparr>data_size = 32, data = replicate 64 4\<rparr> :: sized_data"
  have ok: "as_ref ?k \<noteq> []" "sized_ok 64 ?k" "as_ref ?l \<noteq> []" "sized_ok 64 ?l"
    by (simp_all add: as_ref_def sized_ok_def)
  obtain k' where k': "derive_update_secret sample_crypto SpdmVersion12 1 ?k = Ok (Some k')"
      "as_ref k' \<noteq> []" "sized_ok 64 k'" using sample_derive(1) [OF ok(1,2)] by blast
  obtain l' where l': "derive_update_secret sample_crypto SpdmVersion12 1 ?l = Ok (Some l')"
      "as_ref l' \<noteq> []" "sized_ok 64 l'" using sample_derive(1) [OF ok(3,4)] by blast
  obtain a b where "derive_aead_key_iv sample_crypto SpdmVersion12 1 2 (Major_DirectionDataSecret k') =
      Ok (Some (a, b))" using sample_derive(2) [OF k'(2,3)] by blast
  moreover obtain c d where "derive_aead_key_iv sample_crypto SpdmVersion12 1 2
      (Major_DirectionDataSecret l') = Ok (Some (c, d))" using sample_derive(2) [OF l'(2,3)] by blast
  ultimately show ?thesis using k' l'
    by (simp add: create_data_secret_update_def update_request_steps_def update_response_steps_def
        sample_keyed_def sample_session_simps or_crypto_error_def Let_def)
qed

theorem key_update_rollback_witness:
  "\<exists>s1. create_data_secret_update sample_crypto SpdmVersion12 True True sample_keyed = (Ok (), s1) \<and>
    application_secret (snd (activate_data_secret_update SpdmVersion12 True True False s1)) =
      application_secret sample_keyed"
  using sample_create_update key_update_rollback by blast



text \<open>
  C34: Teardown by the owner leaves nothing of the session behind except the slot number: the
  result is a fresh session in which only \<open>slot_id\<close> keeps its old value.
\<close>

theorem teardown_resets_all_but_slot:
  "session_teardown (session_id s) s = (Ok (), SpdmSession_new\<lparr>slot_id := slot_id s\<rparr>)"
  by (simp add: session_teardown_def set_default_def SpdmSession_new_def)

end
