(* ===== verification/Message_Codes.thy ===== *)
theory Message_Codes
  imports Session
begin

text \<open>
  Request and response codes and the four-byte frame of every SPDM message: the message header
  and the general payload of \<open>spdmlib/src/message/mod.rs\<close>.
\<close>

section \<open>Definitions\<close>

datatype SpdmRequestResponseCode =
    SpdmResponseDigests
  | SpdmResponseCertificate
  | SpdmResponseChallengeAuth
  | SpdmResponseVersion
  | SpdmResponseMeasurements
  | SpdmResponseCapabilities
  | SpdmResponseAlgorithms
  | SpdmResponseVendorDefinedResponse
  | SpdmResponseError
  | SpdmResponseKeyExchangeRsp
  | SpdmResponseFinishRsp
  | SpdmResponsePskExchangeRsp
  | SpdmResponsePskFinishRsp
  | SpdmResponseHeartbeatAck
  | SpdmResponseKeyUpdateAck
  | SpdmResponseEncapsulatedRequest
  | SpdmResponseEncapsulatedResponseAck
  | SpdmResponseEndSessionAck
  | SpdmRequestGetDigests
  | SpdmRequestGetCertificate
  | SpdmRequestChallenge
  | SpdmRequestGetVersion
  | SpdmRequestGetMeasurements
  | SpdmRequestGetCapabilities
  | SpdmRequestNegotiateAlgorithms
  | SpdmRequestVendorDefinedRequest
  | SpdmRequestResponseIfReady
  | SpdmRequestKeyExchange
  | SpdmRequestFinish
  | SpdmRequestPskExchange
  | SpdmRequestPskFinish
  | SpdmRequestHeartbeat
  | SpdmRequestKeyUpdate
  | SpdmRequestGetEncapsulatedRequest
  | SpdmRequestDeliverEncapsulatedResponse
  | SpdmRequestEndSession
  | SpdmRequestResponseCodeUnknown u8

fun SpdmRequestResponseCode_get_u8 :: "SpdmRequestResponseCode \<Rightarrow> u8" where
  "SpdmRequestResponseCode_get_u8 SpdmResponseDigests = 0x01"
| "SpdmRequestResponseCode_get_u8 SpdmResponseCertificate = 0x02"
| "SpdmRequestResponseCode_get_u8 SpdmResponseChallengeAuth = 0x03"
| "SpdmRequestResponseCode_get_u8 SpdmResponseVersion = 0x04"
| "SpdmRequestResponseCode_get_u8 SpdmResponseMeasurements = 0x60"
| "SpdmRequestResponseCode_get_u8 SpdmResponseCapabilities = 0x61"
| "SpdmRequestResponseCode_get_u8 SpdmResponseAlgorithms = 0x63"
| "SpdmRequestResponseCode_get_u8 SpdmResponseVendorDefinedResponse = 0x7E"
| "SpdmRequestResponseCode_get_u8 SpdmResponseError = 0x7F"
| "SpdmRequestResponseCode_get_u8 SpdmResponseKeyExchangeRsp = 0x64"
| "SpdmRequestResponseCode_get_u8 SpdmResponseFinishRsp = 0x65"
| "SpdmRequestResponseCode_get_u8 SpdmResponsePskExchangeRsp = 0x66"
| "SpdmRequestResponseCode_get_u8 SpdmResponsePskFinishRsp = 0x67"
| "SpdmRequestResponseCode_get_u8 SpdmResponseHeartbeatAck = 0x68"
| "SpdmRequestResponseCode_get_u8 SpdmResponseKeyUpdateAck = 0x69"
| "SpdmRequestResponseCode_get_u8 SpdmResponseEncapsulatedRequest = 0x6A"
| "SpdmRequestResponseCode_get_u8 SpdmResponseEncapsulatedResponseAck = 0x6B"
| "SpdmRequestResponseCode_get_u8 SpdmResponseEndSessionAck = 0x6C"
| "SpdmRequestResponseCode_get_u8 SpdmRequestGetDigests = 0x81"
| "SpdmRequestResponseCode_get_u8 SpdmRequestGetCertificate = 0x82"
| "SpdmRequestResponseCode_get_u8 SpdmRequestChallenge = 0x83"
| "SpdmRequestResponseCode_get_u8 SpdmRequestGetVersion = 0x84"
| "SpdmRequestResponseCode_get_u8 SpdmRequestGetMeasurements = 0xE0"
| "SpdmRequestResponseCode_get_u8 SpdmRequestGetCapabilities = 0xE1"
| "SpdmRequestResponseCode_get_u8 SpdmRequestNegotiateAlgorithms = 0xE3"
| "SpdmRequestResponseCode_get_u8 SpdmRequestVendorDefinedRequest = 0xFE"
| "SpdmRequestResponseCode_get_u8 SpdmRequestResponseIfReady = 0xFF"
| "SpdmRequestResponseCode_get_u8 SpdmRequestKeyExchange = 0xE4"
| "SpdmRequestResponseCode_get_u8 SpdmRequestFinish = 0xE5"
| "SpdmRequestResponseCode_get_u8 SpdmRequestPskExchange = 0xE6"
| "SpdmRequestResponseCode_get_u8 SpdmRequestPskFinish = 0xE7"
| "SpdmRequestResponseCode_get_u8 SpdmRequestHeartbeat = 0xE8"
| "SpdmRequestResponseCode_get_u8 SpdmRequestKeyUpdate = 0xE9"
| "SpdmRequestResponseCode_get_u8 SpdmRequestGetEncapsulatedRequest = 0xEA"
| "SpdmRequestResponseCode_get_u8 SpdmRequestDeliverEncapsulatedResponse = 0xEB"
| "SpdmRequestResponseCode_get_u8 SpdmRequestEndSession = 0xEC"
| "SpdmRequestResponseCode_get_u8 (SpdmRequestResponseCodeUnknown x) = x"

definition SpdmRequestResponseCode_of_u8 :: "u8 \<Rightarrow> SpdmRequestResponseCode" where
  "SpdmRequestResponseCode_of_u8 x =
    (case map_of
      [(0x01, SpdmResponseDigests),
       (0x02, SpdmResponseCertificate),
       (0x03, SpdmResponseChallengeAuth),
       (0x04, SpdmResponseVersion),
       (0x60, SpdmResponseMeasurements),
       (0x61, SpdmResponseCapabilities),
       (0x63, SpdmResponseAlgorithms),
       (0x7E, SpdmResponseVendorDefinedResponse),
       (0x7F, SpdmResponseError),
       (0x64, SpdmResponseKeyExchangeRsp),
       (0x65, SpdmResponseFinishRsp),
       (0x66, SpdmResponsePskExchangeRsp),
       (0x67, SpdmResponsePskFinishRsp),
       (0x68, SpdmResponseHeartbeatAck),
       (0x69, SpdmResponseKeyUpdateAck),
       (0x6A, SpdmResponseEncapsulatedRequest),
       (0x6B, SpdmResponseEncapsulatedResponseAck),
       (0x6C, SpdmResponseEndSessionAck),
       (0x81, SpdmRequestGetDigests),
       (0x82, SpdmRequestGetCertificate),
       (0x83, SpdmRequestChallenge),
       (0x84, SpdmRequestGetVersion),
       (0xE0, SpdmRequestGetMeasurements),
       (0xE1, SpdmRequestGetCapabilities),
       (0xE3, SpdmRequestNegotiateAlgorithms),
       (0xFE, SpdmRequestVendorDefinedRequest),
       (0xFF, SpdmRequestResponseIfReady),
       (0xE4, SpdmRequestKeyExchange),
       (0xE5, SpdmRequestFinish),
       (0xE6, SpdmRequestPskExchange),
       (0xE7, SpdmRequestPskFinish),
       (0xE8, SpdmRequestHeartbeat),
       (0xE9, SpdmRequestKeyUpdate),
       (0xEA, SpdmRequestGetEncapsulatedRequest),
       (0xEB, SpdmRequestDeliverEncapsulatedResponse),
       (0xEC, SpdmRequestEndSession)] x
     of Some c \<Rightarrow> c | None \<Rightarrow> SpdmRequestResponseCodeUnknown x)"

record SpdmMessageHeader =
  version :: SpdmVersion
  request_response_code :: SpdmRequestResponseCode

definition SpdmMessageHeader_encode :: "SpdmMessageHeader \<Rightarrow> EncodeErr enc" where
  "SpdmMessageHeader_encode h = encs
    [enum_u8_encode SpdmVersion_get_u8 (version h),
     enum_u8_encode SpdmRequestResponseCode_get_u8 (request_response_code h)]"

definition SpdmMessageHeader_read :: "SpdmMessageHeader rd" where
  "SpdmMessageHeader_read r = do {
     (v, r) \<leftarrow> enum_u8_read SpdmVersion_of_u8 r;
     (c, r) \<leftarrow> enum_u8_read SpdmRequestResponseCode_of_u8 r;
     Some (\<lparr>version = v, request_response_code = c\<rparr>, r)
   }"

record SpdmMessageGeneralPayload =
  param1 :: u8
  param2 :: u8

definition SpdmMessageGeneralPayload_encode :: "SpdmMessageGeneralPayload \<Rightarrow> EncodeErr enc" where
  "SpdmMessageGeneralPayload_encode p = encs [u8_encode (param1 p), u8_encode (param2 p)]"

definition SpdmMessageGeneralPayload_read :: "SpdmMessageGeneralPayload rd" where
  "SpdmMessageGeneralPayload_read r = do {
     (a, r) \<leftarrow> u8_read r;
     (b, r) \<leftarrow> u8_read r;
     Some (\<lparr>param1 = a, param2 = b\<rparr>, r)
   }"

definition BUFFER_FULL_enc :: "EncodeErr enc \<Rightarrow> SpdmStatus enc" where
  "BUFFER_FULL_enc e = enc_map_err (\<lambda>_. SPDM_STATUS_BUFFER_FULL) e"

definition SpdmMessageGeneralPayload_spdm_encode ::
    "SpdmMessageGeneralPayload \<Rightarrow> SpdmStatus enc" where
  "SpdmMessageGeneralPayload_spdm_encode p =
    encs [BUFFER_FULL_enc (u8_encode 0), BUFFER_FULL_enc (u8_encode 0)]"

section \<open>Codecs\<close>

lemma SpdmRequestResponseCode_get_of [simp]:
  "SpdmRequestResponseCode_get_u8 (SpdmRequestResponseCode_of_u8 v) = v"
  by (auto simp: SpdmRequestResponseCode_of_u8_def split: option.split if_splits)

interpretation e_code: enum_u8 SpdmRequestResponseCode_get_u8 SpdmRequestResponseCode_of_u8
  by unfold_locales simp

lemma emits_BUFFER_FULL [wire]: "emits e bs \<Longrightarrow> emits (BUFFER_FULL_enc e) bs"
  by (simp add: BUFFER_FULL_enc_def emits_map_err)

definition header_image :: "SpdmMessageHeader \<Rightarrow> bytes" where
  "header_image h =
    [SpdmVersion_get_u8 (version h), SpdmRequestResponseCode_get_u8 (request_response_code h)]"

definition header_valid :: "SpdmMessageHeader \<Rightarrow> bool" where
  "header_valid h \<longleftrightarrow>
    SpdmVersion_of_u8 (SpdmVersion_get_u8 (version h)) = version h \<and>
    SpdmRequestResponseCode_of_u8 (SpdmRequestResponseCode_get_u8 (request_response_code h)) =
      request_response_code h"

interpretation c_header: codec SpdmMessageHeader_encode SpdmMessageHeader_read header_image
    header_valid
proof unfold_locales
  fix h
  have "emits (SpdmMessageHeader_encode h)
      ([SpdmVersion_get_u8 (version h)] @
       [SpdmRequestResponseCode_get_u8 (request_response_code h)])"
    unfolding SpdmMessageHeader_encode_def
    by (rule emits_encs2) (simp_all add: enum_u8_encode_def emits_u8)
  then show "emits (SpdmMessageHeader_encode h) (header_image h)"
    by (simp add: header_image_def)
qed (simp add: SpdmMessageHeader_read_def header_image_def header_valid_def enum_u8_read_def)

interpretation c_general: codec SpdmMessageGeneralPayload_encode SpdmMessageGeneralPayload_read
    "\<lambda>p. [param1 p, param2 p]" "\<lambda>_. True"
proof unfold_locales
  fix p
  have "emits (SpdmMessageGeneralPayload_encode p) ([param1 p] @ [param2 p])"
    unfolding SpdmMessageGeneralPayload_encode_def
    by (rule emits_encs2) (simp_all add: emits_u8)
  then show "emits (SpdmMessageGeneralPayload_encode p) [param1 p, param2 p]" by simp
qed (simp add: SpdmMessageGeneralPayload_read_def)

end
