(* ===== verification/Spdm_Context.thy ===== *)
theory Spdm_Context
  imports Message_Codes
begin

text \<open>
  The connection context, \<open>spdmlib/src/common/mod.rs\<close>: negotiated parameters, connection state,
  provisioned and peer certificate slots, the table of sessions, and the transcripts.

  \<^item> \<open>SpdmContext\<close> has the fields of the struct; device I/O and transport are parameters of the
    functions that use them. A method that changes \<open>self\<close> returns the new context.
  \<^item> \<open>get_session_via_id\<close> returns a mutable reference to the first matching table entry; an update
    through that reference is \<open>upd_session_via_id\<close>.
  \<^item> Both variants of the session transcript are modelled: the running hash of the default feature
    \<open>hashed-transcript-data\<close> (\<open>append_message_k\<close>, \<open>append_message_f\<close>, \<open>calc_rsp_transcript_hash\<close>) and the
    stored messages of the variant without it (\<open>calc_rsp_transcript_data\<close>), which serves as its
    specification.
\<close>

section \<open>Definitions\<close>

subsection \<open>State\<close>

datatype SpdmConnectionState =
    SpdmConnectionNotStarted
  | SpdmConnectionAfterVersion
  | SpdmConnectionAfterCapabilities
  | SpdmConnectionNegotiated
  | SpdmConnectionAfterDigest
  | SpdmConnectionAfterCertificate
  | SpdmConnectionAuthenticated
  | SpdmConnectionStateUnknown u8

fun SpdmConnectionState_get_u8 :: "SpdmConnectionState \<Rightarrow> u8" where
  "SpdmConnectionState_get_u8 SpdmConnectionNotStarted = 0x0"
| "SpdmConnectionState_get_u8 SpdmConnectionAfterVersion = 0x1"
| "SpdmConnectionState_get_u8 SpdmConnectionAfterCapabilities = 0x2"
| "SpdmConnectionState_get_u8 SpdmConnectionNegotiated = 0x3"
| "SpdmConnectionState_get_u8 SpdmConnectionAfterDigest = 0x4"
| "SpdmConnectionState_get_u8 SpdmConnectionAfterCertificate = 0x5"
| "SpdmConnectionState_get_u8 SpdmConnectionAuthenticated = 0x5"
| "SpdmConnectionState_get_u8 (SpdmConnectionStateUnknown x) = x"

definition INVALID_SLOT :: u8 where
  "INVALID_SLOT = 0xFF"

definition INITIAL_SESSION_ID :: u16 where
  "INITIAL_SESSION_ID = 0xFFFD"

definition INVALID_HALF_SESSION_ID :: u16 where
  "INVALID_HALF_SESSION_ID = 0"

type_synonym SpdmOpaqueSupport = u8
type_synonym SpdmMeasurementContentChanged = u8

record SpdmConfigInfo =
  spdm_version :: "SpdmVersion list"
  req_capabilities :: SpdmRequestCapabilityFlags
  rsp_capabilities :: SpdmResponseCapabilityFlags
  req_ct_exponent :: u8
  rsp_ct_exponent :: u8
  measurement_specification :: SpdmMeasurementSpecification
  measurement_hash_algo :: SpdmMeasurementHashAlgo
  c_base_hash_algo :: SpdmBaseHashAlgo
  c_base_asym_algo :: SpdmBaseAsymAlgo
  c_dhe_algo :: SpdmDheAlgo
  c_aead_algo :: SpdmAeadAlgo
  c_req_asym_algo :: SpdmReqAsymAlgo
  c_key_schedule_algo :: SpdmKeyScheduleAlgo
  opaque_support :: SpdmOpaqueSupport
  session_policy :: u8
  runtime_content_change_support :: bool
  data_transfer_size :: u32
  c_max_spdm_msg_size :: u32
  c_heartbeat_period :: u8
  secure_spdm_version :: bytes

record SpdmNegotiateInfo =
  spdm_version_sel :: SpdmVersion
  req_capabilities_sel :: SpdmRequestCapabilityFlags
  rsp_capabilities_sel :: SpdmResponseCapabilityFlags
  req_ct_exponent_sel :: u8
  rsp_ct_exponent_sel :: u8
  measurement_specification_sel :: SpdmMeasurementSpecification
  measurement_hash_sel :: SpdmMeasurementHashAlgo
  base_hash_sel :: SpdmBaseHashAlgo
  base_asym_sel :: SpdmBaseAsymAlgo
  dhe_sel :: SpdmDheAlgo
  aead_sel :: SpdmAeadAlgo
  req_asym_sel :: SpdmReqAsymAlgo
  key_schedule_sel :: SpdmKeyScheduleAlgo
  opaque_data_support :: SpdmOpaqueSupport
  termination_policy_set :: bool
  req_data_transfer_size_sel :: u32
  req_max_spdm_msg_size_sel :: u32
  rsp_data_transfer_size_sel :: u32
  rsp_max_spdm_msg_size_sel :: u32

record 'h SpdmRuntimeInfo =
  connection_state :: SpdmConnectionState
  last_session_id :: "u32 option"
  local_used_cert_chain_slot_id :: u8
  peer_used_cert_chain_slot_id :: u8
  need_measurement_summary_hash :: bool
  need_measurement_signature :: bool
  message_a :: ManagedBufferA
  digest_context_m1m2 :: "'h option"
  digest_context_l1l2 :: "'h option"
  content_changed :: SpdmMeasurementContentChanged

record SpdmProvisionInfo =
  my_cert_chain_data :: "SpdmCertChainData option list"
  my_cert_chain :: "SpdmCertChainBuffer option list"
  peer_root_cert_data :: "SpdmCertChainData option"

record SpdmPeerInfo =
  peer_cert_chain :: "SpdmCertChainBuffer option list"
  peer_cert_chain_temp :: "SpdmCertChainBuffer option"

record 'h SpdmContext =
  config_info :: SpdmConfigInfo
  negotiate_info :: SpdmNegotiateInfo
  runtime_info :: "'h SpdmRuntimeInfo"
  provision_info :: SpdmProvisionInfo
  peer_info :: SpdmPeerInfo
  session :: "'h SpdmSession list"

definition SpdmNegotiateInfo_default :: SpdmNegotiateInfo where
  "SpdmNegotiateInfo_default = \<lparr>
    spdm_version_sel = SpdmVersion_default,
    req_capabilities_sel = 0, rsp_capabilities_sel = 0,
    req_ct_exponent_sel = 0, rsp_ct_exponent_sel = 0,
    measurement_specification_sel = 0, measurement_hash_sel = 0,
    base_hash_sel = 0, base_asym_sel = 0, dhe_sel = 0, aead_sel = 0,
    req_asym_sel = 0, key_schedule_sel = 0,
    opaque_data_support = 0, termination_policy_set = False,
    req_data_transfer_size_sel = 0, req_max_spdm_msg_size_sel = 0,
    rsp_data_transfer_size_sel = 0, rsp_max_spdm_msg_size_sel = 0\<rparr>"

definition SpdmRuntimeInfo_default :: "'h SpdmRuntimeInfo" where
  "SpdmRuntimeInfo_default = \<lparr>
    connection_state = SpdmConnectionNotStarted,
    last_session_id = None,
    local_used_cert_chain_slot_id = 0,
    peer_used_cert_chain_slot_id = 0,
    need_measurement_summary_hash = False,
    need_measurement_signature = False,
    message_a = ManagedBufferA_default,
    digest_context_m1m2 = None,
    digest_context_l1l2 = None,
    content_changed = 0\<rparr>"

definition SpdmPeerInfo_default :: SpdmPeerInfo where
  "SpdmPeerInfo_default = \<lparr>
    peer_cert_chain = replicate SPDM_MAX_SLOT_NUMBER None,
    peer_cert_chain_temp = None\<rparr>"

definition SpdmContext_new :: "SpdmConfigInfo \<Rightarrow> SpdmProvisionInfo \<Rightarrow> 'h SpdmContext" where
  "SpdmContext_new cfg prov = \<lparr>
    config_info = cfg,
    negotiate_info = SpdmNegotiateInfo_default,
    runtime_info = SpdmRuntimeInfo_default,
    provision_info = prov,
    peer_info = SpdmPeerInfo_default,
    session = replicate MAX_SPDM_SESSION_COUNT SpdmSession_new\<rparr>"

abbreviation upd_rt ::
    "('h SpdmRuntimeInfo \<Rightarrow> 'h SpdmRuntimeInfo) \<Rightarrow> 'h SpdmContext \<Rightarrow> 'h SpdmContext" where
  "upd_rt f c \<equiv> c\<lparr>runtime_info := f (runtime_info c)\<rparr>"

abbreviation upd_neg ::
    "(SpdmNegotiateInfo \<Rightarrow> SpdmNegotiateInfo) \<Rightarrow> 'h SpdmContext \<Rightarrow> 'h SpdmContext" where
  "upd_neg f c \<equiv> c\<lparr>negotiate_info := f (negotiate_info c)\<rparr>"

subsection \<open>Resets\<close>

definition reset_runtime_info :: "'h SpdmContext \<Rightarrow> 'h SpdmContext" where
  "reset_runtime_info c = c\<lparr>runtime_info := SpdmRuntimeInfo_default\<rparr>"

definition reset_negotiate_info :: "'h SpdmContext \<Rightarrow> 'h SpdmContext" where
  "reset_negotiate_info c = c\<lparr>negotiate_info := SpdmNegotiateInfo_default\<rparr>"

definition reset_peer_info :: "'h SpdmContext \<Rightarrow> 'h SpdmContext" where
  "reset_peer_info c = c\<lparr>peer_info := SpdmPeerInfo_default\<rparr>"

definition reset_context :: "'h SpdmContext \<Rightarrow> 'h SpdmContext" where
  "reset_context c =
    (let c = reset_peer_info (reset_negotiate_info (reset_runtime_info c))
     in c\<lparr>session := map set_default (session c)\<rparr>)"

definition set_connection_state :: "SpdmConnectionState \<Rightarrow> 'h SpdmContext \<Rightarrow> 'h SpdmContext" where
  "set_connection_state st = upd_rt (connection_state_update (\<lambda>_. st))"

definition set_last_session_id :: "u32 option \<Rightarrow> 'h SpdmContext \<Rightarrow> 'h SpdmContext" where
  "set_last_session_id sid = upd_rt (last_session_id_update (\<lambda>_. sid))"

definition set_peer_used_cert_chain_slot_id :: "u8 \<Rightarrow> 'h SpdmContext \<Rightarrow> 'h SpdmContext" where
  "set_peer_used_cert_chain_slot_id i = upd_rt (peer_used_cert_chain_slot_id_update (\<lambda>_. i))"

definition set_local_used_cert_chain_slot_id :: "u8 \<Rightarrow> 'h SpdmContext \<Rightarrow> 'h SpdmContext" where
  "set_local_used_cert_chain_slot_id i = upd_rt (local_used_cert_chain_slot_id_update (\<lambda>_. i))"

subsection \<open>Session table\<close>

fun update_first :: "('a \<Rightarrow> bool) \<Rightarrow> ('a \<Rightarrow> 'a) \<Rightarrow> 'a list \<Rightarrow> 'a list" where
  "update_first P f [] = []"
| "update_first P f (x # xs) = (if P x then f x # xs else x # update_first P f xs)"

definition get_session_via_id :: "'h SpdmContext \<Rightarrow> u32 \<Rightarrow> 'h SpdmSession option" where
  "get_session_via_id c sid = List.find (\<lambda>s. session_id s = sid) (session c)"

definition upd_session_via_id ::
    "u32 \<Rightarrow> ('h SpdmSession \<Rightarrow> 'h SpdmSession) \<Rightarrow> 'h SpdmContext \<Rightarrow> 'h SpdmContext" where
  "upd_session_via_id sid f c =
    c\<lparr>session := update_first (\<lambda>s. session_id s = sid) f (session c)\<rparr>"

definition get_next_avaiable_session :: "'h SpdmContext \<Rightarrow> 'h SpdmSession option" where
  "get_next_avaiable_session c = get_session_via_id c 0"

definition get_session_status :: "'h SpdmContext \<Rightarrow> (u32 \<times> SpdmSessionState) list" where
  "get_session_status c = map (\<lambda>s. (session_id s, session_state s)) (session c)"

definition half_session_id :: "bool \<Rightarrow> u32 \<Rightarrow> u16" where
  "half_session_id is_requester sid =
    (let shift = if is_requester then 0 else 16
     in ucast (drop_bit shift (sid AND push_bit shift 0xFFFF)))"

fun next_half_loop :: "bool \<Rightarrow> nat \<Rightarrow> 'h SpdmSession list \<Rightarrow> u16 SpdmResult" where
  "next_half_loop is_requester index [] = Err SPDM_STATUS_SESSION_NUMBER_EXCEED"
| "next_half_loop is_requester index (s # ss) =
    (if half_session_id is_requester (session_id s) = INVALID_HALF_SESSION_ID
     then Ok (INITIAL_SESSION_ID - of_nat index)
     else next_half_loop is_requester (Suc index) ss)"

definition get_next_half_session_id :: "'h SpdmContext \<Rightarrow> bool \<Rightarrow> u16 SpdmResult" where
  "get_next_half_session_id c is_requester =
    next_half_loop is_requester 0 (take MAX_SPDM_SESSION_COUNT (session c))"

subsection \<open>Certificate slots\<close>

definition index_panic :: "'a list \<Rightarrow> nat \<Rightarrow> 'a SpdmResult" where
  "index_panic xs i = (if i < length xs then Ok (xs ! i) else Panic)"

text \<open>One iteration of the slot loop of \<open>construct_my_cert_chain\<close>.\<close>

definition construct_cert_chain_slot ::
    "'h crypto \<Rightarrow> nat \<Rightarrow> 'h SpdmContext \<Rightarrow> 'h SpdmContext SpdmResult" where
  "construct_cert_chain_slot cr i c =
    rbind (index_panic (my_cert_chain (provision_info c)) i) (\<lambda>chain.
    rbind (index_panic (my_cert_chain_data (provision_info c)) i) (\<lambda>chain_data.
    (case (chain, chain_data) of
      (None, Some cert_chain) \<Rightarrow>
        (case get_cert_from_cert_chain cr (as_ref cert_chain) 0 of
          Ok (b, e) \<Rightarrow>
            if b > e \<or> e > length (data cert_chain) then Panic
            else (case hash_all cr (base_hash_sel (negotiate_info c)) (slice (data cert_chain) b e) of
              None \<Rightarrow> Err SPDM_STATUS_CRYPTO_ERROR
            | Some root_hash \<Rightarrow>
                (let size = 4 + data_size root_hash + data_size cert_chain;
                     h = as_ref root_hash
                 in if 4 + length h > SpdmCertChainBuffer_capacity
                       \<or> unat size \<noteq> 4 + length h + length (as_ref cert_chain)
                       \<or> unat size > SpdmCertChainBuffer_capacity
                    then Panic
                    else
                      (let d = replicate SpdmCertChainBuffer_capacity 0;
                           d = write_at d 0 [ucast (size AND 0xFF), ucast (drop_bit 8 size)];
                           d = write_at d 4 h;
                           d = write_at d (4 + length h) (as_ref cert_chain)
                       in Ok (c\<lparr>provision_info := (provision_info c)\<lparr>my_cert_chain :=
                         (my_cert_chain (provision_info c))[i := Some \<lparr>data_size = size, data = d\<rparr>]\<rparr>\<rparr>))))
        | _ \<Rightarrow> Panic)
    | _ \<Rightarrow> Ok c)))"

definition construct_my_cert_chain ::
    "'h crypto \<Rightarrow> 'h SpdmContext \<Rightarrow> unit SpdmResult \<times> 'h SpdmContext" where
  "construct_my_cert_chain cr c =
    run_steps (map (construct_cert_chain_slot cr) [0..<SPDM_MAX_SLOT_NUMBER]) c"

definition get_certchain_hash_local ::
    "'h crypto \<Rightarrow> 'h SpdmContext \<Rightarrow> bool \<Rightarrow> nat \<Rightarrow> SpdmDigestStruct option SpdmResult" where
  "get_certchain_hash_local cr c psk slot =
    (if \<not> psk
     then obind (index_panic (my_cert_chain (provision_info c)) slot) (\<lambda>chain.
       obind (Ok (hash_all cr (base_hash_sel (negotiate_info c)) (as_ref chain))) (\<lambda>h.
       rbind (sized_from SPDM_MAX_HASH_SIZE (as_ref h)) (\<lambda>d. Ok (Some d))))
     else Ok None)"

definition get_certchain_hash_peer ::
    "'h crypto \<Rightarrow> 'h SpdmContext \<Rightarrow> bool \<Rightarrow> nat \<Rightarrow> SpdmDigestStruct option SpdmResult" where
  "get_certchain_hash_peer cr c psk slot =
    (if \<not> psk
     then obind (index_panic (peer_cert_chain (peer_info c)) slot) (\<lambda>chain.
       obind (Ok (hash_all cr (base_hash_sel (negotiate_info c)) (as_ref chain))) (\<lambda>h.
       rbind (sized_from SPDM_MAX_HASH_SIZE (as_ref h)) (\<lambda>d. Ok (Some d))))
     else Ok None)"

subsection \<open>Transcripts as running hashes\<close>

text \<open>
  \<open>digest_append\<close> is the body shared by the append functions: create the hash context on first use,
  feed it the messages that precede, then feed it the new message. Every assignment done before a
  failing step is kept.
\<close>

definition feed :: "'h crypto \<Rightarrow> bytes \<Rightarrow> 'h option \<Rightarrow> 'h option SpdmResult" where
  "feed cr bs d = rbind (unwrap d) (\<lambda>h. rbind (hash_ctx_update cr h bs) (\<lambda>h'. Ok (Some h')))"

definition open_digest ::
    "'h crypto \<Rightarrow> SpdmBaseHashAlgo \<Rightarrow> SpdmStatus \<Rightarrow> 'h option \<Rightarrow> 'h option SpdmResult" where
  "open_digest cr algo e d =
    (case hash_ctx_init cr algo of None \<Rightarrow> Err e | Some h \<Rightarrow> Ok (Some h))"

definition digest_append ::
    "'h crypto \<Rightarrow> SpdmBaseHashAlgo \<Rightarrow> SpdmStatus \<Rightarrow> bytes list \<Rightarrow> bytes \<Rightarrow> 'h option \<Rightarrow>
      unit SpdmResult \<times> 'h option" where
  "digest_append cr algo e pre bs d =
    run_steps ((if Option.is_none d then open_digest cr algo e # map (feed cr) pre else [])
      @ [feed cr bs]) d"

definition on_session ::
    "u32 \<Rightarrow> 'a SpdmResult \<Rightarrow> ('h SpdmSession \<Rightarrow> 'a SpdmResult \<times> 'h SpdmSession) \<Rightarrow> 'h SpdmContext \<Rightarrow>
      'a SpdmResult \<times> 'h SpdmContext" where
  "on_session sid none f c =
    (case get_session_via_id c sid of
      None \<Rightarrow> (none, c)
    | Some s \<Rightarrow> (let (r, s') = f s in (r, upd_session_via_id sid (\<lambda>_. s') c)))"

definition append_message_a :: "bytes \<Rightarrow> 'h SpdmContext \<Rightarrow> unit SpdmResult \<times> 'h SpdmContext" where
  "append_message_a bs c =
    (case append_message bs (message_a (runtime_info c)) of
      (None, m) \<Rightarrow> (Err SPDM_STATUS_BUFFER_FULL, upd_rt (message_a_update (\<lambda>_. m)) c)
    | (Some _, m) \<Rightarrow> (Ok (), upd_rt (message_a_update (\<lambda>_. m)) c))"

definition reset_message_a :: "'h SpdmContext \<Rightarrow> 'h SpdmContext" where
  "reset_message_a = upd_rt (message_a_update reset_message)"

definition append_message_b ::
    "'h crypto \<Rightarrow> bytes \<Rightarrow> 'h SpdmContext \<Rightarrow> unit SpdmResult \<times> 'h SpdmContext" where
  "append_message_b cr bs c =
    (let (r, d) = digest_append cr (base_hash_sel (negotiate_info c)) SPDM_STATUS_INVALID_STATE_LOCAL
           [mb_as_ref (message_a (runtime_info c))] bs (digest_context_m1m2 (runtime_info c))
     in (r, upd_rt (digest_context_m1m2_update (\<lambda>_. d)) c))"

definition reset_message_b :: "'h SpdmContext \<Rightarrow> 'h SpdmContext" where
  "reset_message_b = upd_rt (digest_context_m1m2_update (\<lambda>_. None))"

definition append_message_c ::
    "'h crypto \<Rightarrow> bytes \<Rightarrow> 'h SpdmContext \<Rightarrow> unit SpdmResult \<times> 'h SpdmContext" where
  "append_message_c cr bs c =
    (let (r, d) = digest_append cr (base_hash_sel (negotiate_info c)) SPDM_STATUS_CRYPTO_ERROR
           [mb_as_ref (message_a (runtime_info c))] bs (digest_context_m1m2 (runtime_info c))
     in (r, upd_rt (digest_context_m1m2_update (\<lambda>_. d)) c))"

definition reset_message_c :: "'h SpdmContext \<Rightarrow> 'h SpdmContext" where
  "reset_message_c = upd_rt (digest_context_m1m2_update (\<lambda>_. None))"

definition append_message_m ::
    "'h crypto \<Rightarrow> u32 option \<Rightarrow> bytes \<Rightarrow> 'h SpdmContext \<Rightarrow> unit SpdmResult \<times> 'h SpdmContext" where
  "append_message_m cr sid bs c =
    (let algo = base_hash_sel (negotiate_info c);
         pre =
           (if SpdmVersion_get_u8 (spdm_version_sel (negotiate_info c)) \<ge> SpdmVersion_get_u8 SpdmVersion12
            then [mb_as_ref (message_a (runtime_info c))] else [])
     in case sid of
       Some sid \<Rightarrow> on_session sid (Err SPDM_STATUS_INVALID_STATE_LOCAL)
         (\<lambda>s. let (r, d) = digest_append cr algo SPDM_STATUS_CRYPTO_ERROR pre bs
                    (s_digest_context_l1l2 (s_runtime_info s))
              in (r, s\<lparr>s_runtime_info := (s_runtime_info s)\<lparr>s_digest_context_l1l2 := d\<rparr>\<rparr>)) c
     | None \<Rightarrow>
         (let (r, d) = digest_append cr algo SPDM_STATUS_CRYPTO_ERROR pre bs
                (digest_context_l1l2 (runtime_info c))
          in (r, upd_rt (digest_context_l1l2_update (\<lambda>_. d)) c)))"

definition reset_message_m :: "u32 option \<Rightarrow> 'h SpdmContext \<Rightarrow> 'h SpdmContext" where
  "reset_message_m sid c =
    (case sid of
      Some sid \<Rightarrow> upd_session_via_id sid
        (\<lambda>s. s\<lparr>s_runtime_info := (s_runtime_info s)\<lparr>s_digest_context_l1l2 := None\<rparr>\<rparr>) c
    | None \<Rightarrow> upd_rt (digest_context_l1l2_update (\<lambda>_. None)) c)"

definition upd_th ::
    "('h option \<Rightarrow> 'h option SpdmResult) \<Rightarrow> 'h SpdmSession \<Rightarrow> 'h SpdmSession SpdmResult" where
  "upd_th f s = rbind (f (digest_context_th (s_runtime_info s)))
    (\<lambda>d. Ok (s\<lparr>s_runtime_info := (s_runtime_info s)\<lparr>digest_context_th := d\<rparr>\<rparr>))"

definition session_append_k ::
    "'h crypto \<Rightarrow> bytes \<Rightarrow> 'h SpdmSession \<Rightarrow> unit SpdmResult \<times> 'h SpdmSession" where
  "session_append_k cr bs s =
    (let ri = s_runtime_info s;
         pre = mb_as_ref (s_message_a ri) #
           (case rsp_cert_hash ri of None \<Rightarrow> [] | Some h \<Rightarrow> [as_ref h]);
         (r, d) = digest_append cr (base_hash_algo (crypto_param s)) SPDM_STATUS_CRYPTO_ERROR
           pre bs (digest_context_th ri)
     in (r, s\<lparr>s_runtime_info := ri\<lparr>digest_context_th := d\<rparr>\<rparr>))"

definition append_message_k ::
    "'h crypto \<Rightarrow> u32 \<Rightarrow> bytes \<Rightarrow> 'h SpdmContext \<Rightarrow> unit SpdmResult \<times> 'h SpdmContext" where
  "append_message_k cr sid bs c = on_session sid Panic (session_append_k cr bs) c"

definition reset_message_k :: "u32 \<Rightarrow> 'h SpdmContext \<Rightarrow> unit SpdmResult \<times> 'h SpdmContext" where
  "reset_message_k sid c = on_session sid Panic
    (\<lambda>s. (Ok (), s\<lparr>s_runtime_info := (s_runtime_info s)\<lparr>digest_context_th := None\<rparr>\<rparr>)) c"

definition mut_cert_digest ::
    "'h crypto \<Rightarrow> bool \<Rightarrow> 'h SpdmContext \<Rightarrow> 'h SpdmSession \<Rightarrow> SpdmDigestStruct option SpdmResult" where
  "mut_cert_digest cr is_requester c s =
    (if \<not> use_psk s \<and> mut_auth_requested s \<noteq> 0 then
       rbind
         (if is_requester
          then index_panic (my_cert_chain (provision_info c))
            (unat (local_used_cert_chain_slot_id (runtime_info c)))
          else index_panic (peer_cert_chain (peer_info c))
            (unat (peer_used_cert_chain_slot_id (runtime_info c))))
         (\<lambda>chain. case chain of
           Some cert_chain \<Rightarrow>
             rbind (ok_or SPDM_STATUS_CRYPTO_ERROR
                 (hash_all cr (base_hash_sel (negotiate_info c)) (as_ref cert_chain)))
               (\<lambda>h. Ok (Some h))
         | None \<Rightarrow> Err SPDM_STATUS_INVALID_STATE_LOCAL)
     else Ok None)"

definition session_append_f ::
    "'h crypto \<Rightarrow> SpdmDigestStruct option \<Rightarrow> bytes \<Rightarrow> 'h SpdmSession \<Rightarrow> unit SpdmResult \<times> 'h SpdmSession" where
  "session_append_f cr md bs s =
    run_steps
      ((if message_f_initialized (s_runtime_info s) then []
        else (case md of None \<Rightarrow> [] | Some d \<Rightarrow> [upd_th (feed cr (as_ref d))]) @
          [\<lambda>s. Ok (s\<lparr>s_runtime_info := (s_runtime_info s)\<lparr>message_f_initialized := True\<rparr>\<rparr>)])
       @ [upd_th (feed cr bs)]) s"

definition append_message_f ::
    "'h crypto \<Rightarrow> bool \<Rightarrow> u32 \<Rightarrow> bytes \<Rightarrow> 'h SpdmContext \<Rightarrow> unit SpdmResult \<times> 'h SpdmContext" where
  "append_message_f cr is_requester sid bs c =
    (case get_session_via_id c sid of
      None \<Rightarrow> (Panic, c)
    | Some s \<Rightarrow>
        if Option.is_none (digest_context_th (s_runtime_info s))
        then (Err SPDM_STATUS_INVALID_STATE_LOCAL, c)
        else
          (case (if message_f_initialized (s_runtime_info s) then Ok None
                 else mut_cert_digest cr is_requester c s) of
            Ok md \<Rightarrow> on_session sid Panic (session_append_f cr md bs) c
          | Err e \<Rightarrow> (Err e, c)
          | Panic \<Rightarrow> (Panic, c)))"

definition reset_message_f :: "u32 \<Rightarrow> 'h SpdmContext \<Rightarrow> unit SpdmResult \<times> 'h SpdmContext" where
  "reset_message_f sid c = on_session sid Panic
    (\<lambda>s. (Ok (), s\<lparr>s_runtime_info := (s_runtime_info s)\<lparr>digest_context_th := None\<rparr>\<rparr>)) c"

definition calc_transcript_hash ::
    "'h crypto \<Rightarrow> 'h SpdmSession \<Rightarrow> SpdmDigestStruct SpdmResult" where
  "calc_transcript_hash cr s =
    rbind (ok_or SPDM_STATUS_INVALID_STATE_LOCAL (digest_context_th (s_runtime_info s))) (\<lambda>h.
      ok_or SPDM_STATUS_CRYPTO_ERROR (hash_ctx_finalize cr h))"

definition calc_req_transcript_hash ::
    "'h crypto \<Rightarrow> 'h SpdmContext \<Rightarrow> bool \<Rightarrow> u8 \<Rightarrow> bool \<Rightarrow> 'h SpdmSession \<Rightarrow> SpdmDigestStruct SpdmResult" where
  "calc_req_transcript_hash cr c psk slot is_mut_auth s = calc_transcript_hash cr s"

definition calc_rsp_transcript_hash ::
    "'h crypto \<Rightarrow> 'h SpdmContext \<Rightarrow> bool \<Rightarrow> u8 \<Rightarrow> bool \<Rightarrow> 'h SpdmSession \<Rightarrow> SpdmDigestStruct SpdmResult" where
  "calc_rsp_transcript_hash cr c psk slot is_mut_auth s = calc_transcript_hash cr s"

definition reset_buffer_via_request_code ::
    "SpdmRequestResponseCode \<Rightarrow> u32 option \<Rightarrow> 'h SpdmContext \<Rightarrow> 'h SpdmContext" where
  "reset_buffer_via_request_code opcode sid c =
    (let c = (if opcode \<noteq> SpdmRequestGetMeasurements then reset_message_m sid c else c)
     in if opcode \<in> {SpdmRequestGetMeasurements, SpdmRequestKeyExchange, SpdmRequestFinish,
             SpdmRequestPskExchange, SpdmRequestPskFinish, SpdmRequestKeyUpdate,
             SpdmRequestHeartbeat, SpdmRequestEndSession}
        then (if SpdmConnectionState_get_u8 (connection_state (runtime_info c))
                 < SpdmConnectionState_get_u8 SpdmConnectionAuthenticated
              then reset_message_c (reset_message_b c) else c)
        else if opcode = SpdmRequestGetDigests then reset_message_b c
        else c)"

subsection \<open>Transcripts as stored messages\<close>

definition th_append :: "bytes \<Rightarrow> ManagedBufferTH \<Rightarrow> ManagedBufferTH SpdmResult" where
  "th_append bs m =
    (case append_message bs m of
      (None, _) \<Rightarrow> Err SPDM_STATUS_BUFFER_FULL
    | (Some _, m') \<Rightarrow> Ok m')"

definition chain_digest ::
    "'h crypto \<Rightarrow> 'h SpdmContext \<Rightarrow> SpdmStatus \<Rightarrow> SpdmCertChainBuffer option list \<Rightarrow> u8 \<Rightarrow>
      SpdmDigestStruct SpdmResult" where
  "chain_digest cr c e slots slot =
    rbind (index_panic slots (unat slot)) (\<lambda>chain.
    rbind (ok_or e chain) (\<lambda>cert_chain.
    ok_or SPDM_STATUS_CRYPTO_ERROR
      (hash_all cr (base_hash_sel (negotiate_info c)) (as_ref cert_chain))))"

definition calc_req_transcript_data ::
    "'h crypto \<Rightarrow> 'h SpdmContext \<Rightarrow> bool \<Rightarrow> u8 \<Rightarrow> bool \<Rightarrow> ManagedBufferK \<Rightarrow> ManagedBufferF option \<Rightarrow>
      ManagedBufferTH SpdmResult" where
  "calc_req_transcript_data cr c psk slot is_mut_auth message_k message_f =
    rbind (th_append (mb_as_ref (message_a (runtime_info c))) ManagedBufferTH_default) (\<lambda>m.
    rbind (if \<not> psk
       then rbind (chain_digest cr c SPDM_STATUS_INVALID_PARAMETER (peer_cert_chain (peer_info c)) slot)
         (\<lambda>h. th_append (as_ref h) m)
       else Ok m) (\<lambda>m.
    rbind (th_append (mb_as_ref message_k) m) (\<lambda>m.
    rbind (if \<not> psk \<and> is_mut_auth
       then rbind (chain_digest cr c SPDM_STATUS_INVALID_PARAMETER (my_cert_chain (provision_info c))
           (local_used_cert_chain_slot_id (runtime_info c)))
         (\<lambda>h. th_append (as_ref h) m)
       else Ok m) (\<lambda>m.
    (case message_f of
      Some f \<Rightarrow> th_append (mb_as_ref f) m
    | None \<Rightarrow> Ok m)))))"

definition calc_rsp_transcript_data ::
    "'h crypto \<Rightarrow> 'h SpdmContext \<Rightarrow> bool \<Rightarrow> u8 \<Rightarrow> bool \<Rightarrow> ManagedBufferK \<Rightarrow> ManagedBufferF option \<Rightarrow>
      ManagedBufferTH SpdmResult" where
  "calc_rsp_transcript_data cr c psk slot is_mut_auth message_k message_f =
    rbind (th_append (mb_as_ref (message_a (runtime_info c))) ManagedBufferTH_default) (\<lambda>m.
    rbind (if \<not> psk
       then rbind (chain_digest cr c SPDM_STATUS_INVALID_STATE_LOCAL (my_cert_chain (provision_info c)) slot)
         (\<lambda>h. th_append (as_ref h) m)
       else Ok m) (\<lambda>m.
    rbind (th_append (mb_as_ref message_k) m) (\<lambda>m.
    rbind (if \<not> psk \<and> is_mut_auth
       then rbind (chain_digest cr c SPDM_STATUS_INVALID_PARAMETER (peer_cert_chain (peer_info c))
           (peer_used_cert_chain_slot_id (runtime_info c)))
         (\<lambda>h. th_append (as_ref h) m)
       else Ok m) (\<lambda>m.
    (case message_f of
      Some f \<Rightarrow> th_append (mb_as_ref f) m
    | None \<Rightarrow> Ok m)))))"

definition calc_req_transcript_hash_stored ::
    "'h crypto \<Rightarrow> 'h SpdmContext \<Rightarrow> bool \<Rightarrow> u8 \<Rightarrow> bool \<Rightarrow> ManagedBufferK \<Rightarrow> ManagedBufferF \<Rightarrow>
      SpdmDigestStruct SpdmResult" where
  "calc_req_transcript_hash_stored cr c psk slot is_mut_auth message_k message_f =
    rbind (calc_req_transcript_data cr c psk slot is_mut_auth message_k (Some message_f)) (\<lambda>m.
    ok_or SPDM_STATUS_CRYPTO_ERROR (hash_all cr (base_hash_sel (negotiate_info c)) (mb_as_ref m)))"

definition calc_rsp_transcript_hash_stored ::
    "'h crypto \<Rightarrow> 'h SpdmContext \<Rightarrow> bool \<Rightarrow> u8 \<Rightarrow> bool \<Rightarrow> ManagedBufferK \<Rightarrow> ManagedBufferF \<Rightarrow>
      SpdmDigestStruct SpdmResult" where
  "calc_rsp_transcript_hash_stored cr c psk slot is_mut_auth message_k message_f =
    rbind (calc_rsp_transcript_data cr c psk slot is_mut_auth message_k (Some message_f)) (\<lambda>m.
    ok_or SPDM_STATUS_CRYPTO_ERROR (hash_all cr (base_hash_sel (negotiate_info c)) (mb_as_ref m)))"

subsection \<open>Auxiliary notions of the statements\<close>

fun append_all ::
    "(bytes \<Rightarrow> 'c \<Rightarrow> unit SpdmResult \<times> 'c) \<Rightarrow> bytes list \<Rightarrow> 'c \<Rightarrow> unit SpdmResult \<times> 'c" where
  "append_all app [] c = (Ok (), c)"
| "append_all app (bs # bss) c =
    (case app bs c of
      (Ok _, c') \<Rightarrow> append_all app bss c'
    | (r, c') \<Rightarrow> (r, c'))"

definition set_th :: "'h option \<Rightarrow> 'h SpdmSession \<Rightarrow> 'h SpdmSession" where
  "set_th d s = s\<lparr>s_runtime_info := (s_runtime_info s)\<lparr>digest_context_th := d\<rparr>\<rparr>"

definition set_f_init :: "'h SpdmSession \<Rightarrow> 'h SpdmSession" where
  "set_f_init s = s\<lparr>s_runtime_info := (s_runtime_info s)\<lparr>message_f_initialized := True\<rparr>\<rparr>"

definition half_ids_inv :: "bool \<Rightarrow> 'h SpdmContext \<Rightarrow> bool" where
  "half_ids_inv r c \<longleftrightarrow>
    length (session c) = MAX_SPDM_SESSION_COUNT \<and>
    (\<forall>i < length (session c).
      session_id (session c ! i) = 0 \<or>
      half_session_id r (session_id (session c ! i)) = INITIAL_SESSION_ID - of_nat i)"

locale keyed_table =
  fixes get :: "'t \<Rightarrow> 'k \<Rightarrow> 'v option"
    and upd :: "'k \<Rightarrow> ('v \<Rightarrow> 'v) \<Rightarrow> 't \<Rightarrow> 't"
    and key :: "'v \<Rightarrow> 'k"
  assumes get_key: "get t k = Some v \<Longrightarrow> key v = k"
    and get_upd_same: "get t k = Some v \<Longrightarrow> key (f v) = k \<Longrightarrow> get (upd k f t) k = Some (f v)"
    and get_upd_other: "k' \<noteq> k \<Longrightarrow> (\<And>v. get t k = Some v \<Longrightarrow> key (f v) = k) \<Longrightarrow>
      get (upd k f t) k' = get t k'"
    and upd_absent: "get t k = None \<Longrightarrow> upd k f t = t"
begin

lemma get_upd:
  assumes "\<And>v. key v = k \<Longrightarrow> key (f v) = k"
  shows "get (upd k f t) k' = (if k' = k then map_option f (get t k) else get t k')"
  using assms by (cases "get t k") (auto simp: upd_absent intro!: get_upd_same get_upd_other dest: get_key)

end

section \<open>Session table\<close>

lemma find_update_first_same:
  "List.find (\<lambda>s. key s = k) xs = Some v \<Longrightarrow> key (f v) = k \<Longrightarrow>
    List.find (\<lambda>s. key s = k) (update_first (\<lambda>s. key s = k) f xs) = Some (f v)"
  by (induction xs) (auto split: if_splits)

lemma find_update_first_other:
  assumes "k' \<noteq> k" "\<And>v. List.find (\<lambda>s. key s = k) xs = Some v \<Longrightarrow> key (f v) = k"
  shows "List.find (\<lambda>s. key s = k') (update_first (\<lambda>s. key s = k) f xs) =
    List.find (\<lambda>s. key s = k') xs"
  using assms by (induction xs) auto

lemma update_first_absent:
  "List.find P xs = None \<Longrightarrow> update_first P f xs = xs"
  by (induction xs) (auto split: if_splits)

lemma length_update_first [simp]: "length (update_first P f xs) = length xs"
  by (induction xs) auto

interpretation st: keyed_table get_session_via_id upd_session_via_id session_id
proof unfold_locales
  fix t :: "'a SpdmContext" and k v
  assume "get_session_via_id t k = Some v"
  then show "session_id v = k" by (auto simp: get_session_via_id_def find_Some_iff)
qed (auto simp: get_session_via_id_def upd_session_via_id_def find_update_first_same
    find_update_first_other update_first_absent)

lemma upd_session_only_sessions:
  "\<exists>ss. upd_session_via_id sid f c = c\<lparr>session := ss\<rparr> \<and> length ss = length (session c)"
  by (auto simp: upd_session_via_id_def)

lemma on_session_OkE:
  assumes "on_session sid none f c = (Ok x, c')" and "get_session_via_id c sid = Some s"
    and "session_id (snd (f s)) = sid"
  obtains s' ss where "f s = (Ok x, s')" "c' = c\<lparr>session := ss\<rparr>" "get_session_via_id c' sid = Some s'"
proof -
  from assms obtain s' where s': "f s = (Ok x, s')" "c' = upd_session_via_id sid (\<lambda>_. s') c"
    by (auto simp: on_session_def split: prod.splits)
  moreover from s' assms have "get_session_via_id c' sid = Some s'"
    by (simp add: st.get_upd_same)
  ultimately show ?thesis using that upd_session_only_sessions [of sid "\<lambda>_. s'" c] by metis
qed

lemma next_half_loop_OkE:
  assumes "next_half_loop r i ss = Ok h"
  obtains j where "j < length ss" "half_session_id r (session_id (ss ! j)) = 0"
    "\<And>k. k < j \<Longrightarrow> half_session_id r (session_id (ss ! k)) \<noteq> 0" "h = INITIAL_SESSION_ID - of_nat (i + j)"
proof -
  have "\<exists>j < length ss. half_session_id r (session_id (ss ! j)) = 0 \<and>
      (\<forall>k < j. half_session_id r (session_id (ss ! k)) \<noteq> 0) \<and> h = INITIAL_SESSION_ID - of_nat (i + j)"
    using assms
  proof (induction r i ss rule: next_half_loop.induct)
    case (2 r i s ss)
    show ?case
    proof (cases "half_session_id r (session_id s) = 0")
      case True
      with 2 show ?thesis by (auto simp: INVALID_HALF_SESSION_ID_def intro!: exI [of _ 0])
    next
      case False
      with 2 obtain j where "j < length ss" "half_session_id r (session_id (ss ! j)) = 0"
        "\<forall>k < j. half_session_id r (session_id (ss ! k)) \<noteq> 0"
        "h = INITIAL_SESSION_ID - of_nat (Suc i + j)"
        by (auto simp: INVALID_HALF_SESSION_ID_def)
      moreover from this False have
        "\<forall>k < Suc j. half_session_id r (session_id ((s # ss) ! k)) \<noteq> 0"
        by (auto simp: less_Suc_eq_0_disj)
      ultimately show ?thesis by (intro exI [of _ "Suc j"]) simp
    qed
  qed simp
  with that show ?thesis by blast
qed

lemma next_half_loop_Ok_iff:
  "(\<exists>h. next_half_loop r i ss = Ok h) \<longleftrightarrow> (\<exists>s \<in> set ss. half_session_id r (session_id s) = 0)"
  by (induction r i ss rule: next_half_loop.induct) (auto simp: INVALID_HALF_SESSION_ID_def)

lemma update_first_nth:
  assumes "j < length xs" "P (xs ! j)" "\<And>k. k < j \<Longrightarrow> \<not> P (xs ! k)"
  shows "update_first P f xs = xs[j := f (xs ! j)]"
  using assms
proof (induction xs arbitrary: j)
  case (Cons x xs)
  show ?case
  proof (cases j)
    case (Suc j')
    have "\<not> P x" "\<And>k. k < j' \<Longrightarrow> \<not> P (xs ! k)"
      using Cons.prems(3) [of 0] Cons.prems(3) [of "Suc k" for k] Suc by auto
    with Cons Suc show ?thesis by simp
  qed (use Cons.prems in simp)
qed simp

lemma initial_ids:
  "i < MAX_SPDM_SESSION_COUNT \<Longrightarrow> INITIAL_SESSION_ID - of_nat i \<noteq> 0"
  "i < MAX_SPDM_SESSION_COUNT \<Longrightarrow> j < MAX_SPDM_SESSION_COUNT \<Longrightarrow>
    INITIAL_SESSION_ID - of_nat i = INITIAL_SESSION_ID - of_nat j \<Longrightarrow> i = j"
proof -
  have four: "k = 0 \<or> k = 1 \<or> k = 2 \<or> k = 3" if "k < MAX_SPDM_SESSION_COUNT" for k
    using that by (auto simp: MAX_SPDM_SESSION_COUNT_def config_def)
  show "i < MAX_SPDM_SESSION_COUNT \<Longrightarrow> INITIAL_SESSION_ID - of_nat i \<noteq> 0"
    by (drule four, elim disjE) (simp_all add: INITIAL_SESSION_ID_def)
  show "i < MAX_SPDM_SESSION_COUNT \<Longrightarrow> j < MAX_SPDM_SESSION_COUNT \<Longrightarrow>
    INITIAL_SESSION_ID - of_nat i = INITIAL_SESSION_ID - of_nat j \<Longrightarrow> i = j"
    by (drule four, drule four, elim disjE) (simp_all add: INITIAL_SESSION_ID_def)
qed

lemma half_session_id_0 [simp]: "half_session_id r 0 = 0"
  by (simp add: half_session_id_def Let_def)

lemma half_ids_zero:
  assumes "half_ids_inv r c" "i < length (session c)"
  shows "half_session_id r (session_id (session c ! i)) = 0 \<longleftrightarrow> session_id (session c ! i) = 0"
  using assms initial_ids(1) [of i] by (auto simp: half_ids_inv_def)

lemma half_ids_take:
  "half_ids_inv r c \<Longrightarrow> take MAX_SPDM_SESSION_COUNT (session c) = session c"
  by (simp add: half_ids_inv_def)

lemma next_half_position:
  assumes inv: "half_ids_inv r c" and "get_next_half_session_id c r = Ok h"
  obtains j where "j < length (session c)" "session_id (session c ! j) = 0"
    "\<And>k. k < j \<Longrightarrow> session_id (session c ! k) \<noteq> 0" "h = INITIAL_SESSION_ID - of_nat j"
  using assms(2) unfolding get_next_half_session_id_def half_ids_take [OF inv]
  by (elim next_half_loop_OkE) (auto simp: half_ids_zero [OF inv])

text \<open>A session opened with the next half identifier: no other session has its identifier.\<close>

lemma half_ids_open:
  assumes inv: "half_ids_inv r c" and "get_next_half_session_id c r = Ok (half_session_id r sid)"
    and f: "\<And>s. session_id s = 0 \<Longrightarrow> session_id (f s) = sid \<or> session_id (f s) = 0"
  shows "half_ids_inv r (upd_session_via_id 0 f c)" "get_session_via_id c sid = None" "sid \<noteq> 0"
proof -
  from next_half_position [OF assms(1,2)] obtain j where
    j: "j < length (session c)" "session_id (session c ! j) = 0"
    "\<And>k. k < j \<Longrightarrow> session_id (session c ! k) \<noteq> 0" "half_session_id r sid = INITIAL_SESSION_ID - of_nat j"
    by metis
  have len: "length (session c) = MAX_SPDM_SESSION_COUNT" using inv by (simp add: half_ids_inv_def)
  have "session (upd_session_via_id 0 f c) = (session c)[j := f (session c ! j)]"
    using j by (simp add: upd_session_via_id_def update_first_nth)
  then show "half_ids_inv r (upd_session_via_id 0 f c)"
    using j inv f [OF j(2)] by (auto simp: half_ids_inv_def nth_list_update)
  show "sid \<noteq> 0" using j(4) initial_ids(1) [of j] j(1) len by auto
  have "session_id (session c ! i) \<noteq> sid" if "i < length (session c)" for i
  proof
    assume "session_id (session c ! i) = sid"
    with \<open>sid \<noteq> 0\<close> that inv j(4) have "INITIAL_SESSION_ID - of_nat i = INITIAL_SESSION_ID - of_nat j"
      by (auto simp: half_ids_inv_def)
    with initial_ids(2) [of i j] that j(1,2) len \<open>sid \<noteq> 0\<close> \<open>session_id (session c ! i) = sid\<close> show False by auto
  qed
  then show "get_session_via_id c sid = None"
    by (auto simp: get_session_via_id_def find_None_iff in_set_conv_nth)
qed

lemma half_ids_kept:
  assumes "half_ids_inv r c" "list_all2 (\<lambda>s s'. session_id s' = session_id s \<or> session_id s' = 0) (session c) (session c')"
  shows "half_ids_inv r c'"
  using assms by (auto simp: half_ids_inv_def list_all2_conv_all_nth) metis

section \<open>Construction of the certificate chains\<close>

definition chain_layout ::
    "'h crypto \<Rightarrow> SpdmBaseHashAlgo \<Rightarrow> SpdmCertChainData \<Rightarrow> SpdmCertChainBuffer \<Rightarrow> bool" where
  "chain_layout cr algo cd b \<longleftrightarrow>
    (\<exists>x y h. get_cert_from_cert_chain cr (as_ref cd) 0 = Ok (x, y) \<and>
      hash_all cr algo (slice (data cd) x y) = Some h \<and>
      as_ref b = le_bytes 2 (data_size b) @ [0, 0] @ as_ref h @ as_ref cd \<and>
      unat (data_size b) = length (as_ref b))"

lemma chain_buffer_bytes:
  fixes size :: u16
  assumes "unat size = 4 + length h + length cd" "unat size \<le> n"
  shows "take (unat size) (write_at (write_at (write_at (replicate n 0) 0
      [ucast (size AND 0xFF), ucast (drop_bit 8 size)]) 4 h) (4 + length h) cd) =
    le_bytes 2 size @ [0, 0] @ h @ cd"
proof -
  have ff: "(0xFF :: u16) = mask 8" by (simp add: mask_eq_exp_minus_1)
  have mask: "(ucast (size AND 0xFF) :: u8) = ucast size"
    unfolding ff by (rule bit_word_eqI) (auto simp: bit_simps)
  obtain k where n: "n = 4 + length h + length cd + k"
    using assms le_Suc_ex [of "unat size" n] by auto
  have "replicate n (0::u8) = [0, 0] @ [0, 0] @ replicate (length h) 0 @ replicate (length cd) 0 @ replicate k 0"
    by (simp add: n numeral_eq_Suc replicate_add)
  moreover have le: "le_bytes 2 size = [ucast size, ucast (drop_bit 8 size)]"
    by (simp add: le_bytes_numeral)
  ultimately show ?thesis unfolding le using assms
    by (simp add: write_at_eq n mask numeral_eq_Suc)
qed

definition same_but_chains :: "'h SpdmContext \<Rightarrow> 'h SpdmContext \<Rightarrow> bool" where
  "same_but_chains c c' \<longleftrightarrow>
    (\<exists>ch. c' = c\<lparr>provision_info := (provision_info c)\<lparr>my_cert_chain := ch\<rparr>\<rparr> \<and>
      length ch = length (my_cert_chain (provision_info c)))"

definition slot_done :: "'h crypto \<Rightarrow> 'h SpdmContext \<Rightarrow> 'h SpdmContext \<Rightarrow> nat \<Rightarrow> bool" where
  "slot_done cr c c' i \<longleftrightarrow>
    i < length (my_cert_chain (provision_info c)) \<and>
    (case (my_cert_chain (provision_info c) ! i, my_cert_chain_data (provision_info c) ! i) of
      (None, Some cd) \<Rightarrow> \<exists>b. my_cert_chain (provision_info c') ! i = Some b \<and>
        chain_layout cr (base_hash_sel (negotiate_info c)) cd b
    | (x, _) \<Rightarrow> my_cert_chain (provision_info c') ! i = x)"

lemma construct_slot_Ok:
  assumes "construct_cert_chain_slot cr i c = Ok c'"
  shows "same_but_chains c c'" and "slot_done cr c c' i"
    and "j \<noteq> i \<Longrightarrow> my_cert_chain (provision_info c') ! j = my_cert_chain (provision_info c) ! j"
proof -
  let ?ch = "my_cert_chain (provision_info c)" and ?cds = "my_cert_chain_data (provision_info c)"
  from assms have i: "i < length ?ch" "i < length ?cds"
    by (auto simp: construct_cert_chain_slot_def index_panic_def split: if_splits)
  have "same_but_chains c c' \<and> slot_done cr c c' i \<and>
    (j \<noteq> i \<longrightarrow> my_cert_chain (provision_info c') ! j = ?ch ! j)"
  proof (cases "?ch ! i = None \<and> ?cds ! i \<noteq> None")
    case False
    with assms i have "c' = c"
      by (cases "?ch ! i"; cases "?cds ! i") (auto simp: construct_cert_chain_slot_def index_panic_def)
    with False i show ?thesis
      by (auto simp: same_but_chains_def slot_done_def split: option.splits
          intro: exI [of _ ?ch])
  next
    case True
    then obtain cd where cd: "?ch ! i = None" "?cds ! i = Some cd" by auto
    from assms i cd obtain x y h where xy: "get_cert_from_cert_chain cr (as_ref cd) 0 = Ok (x, y)"
      "hash_all cr (base_hash_sel (negotiate_info c)) (slice (data cd) x y) = Some h"
      by (auto simp: construct_cert_chain_slot_def index_panic_def split: result.splits
          if_splits option.splits)
    define size where "size = 4 + data_size h + data_size cd"
    define b where "b = \<lparr>data_size = size, data = write_at (write_at (write_at
      (replicate SpdmCertChainBuffer_capacity 0) 0
      [ucast (size AND 0xFF), ucast (drop_bit 8 size)]) 4 (as_ref h)) (4 + length (as_ref h)) (as_ref cd)\<rparr>"
    from assms i cd xy have s: "unat size = 4 + length (as_ref h) + length (as_ref cd)"
        "unat size \<le> SpdmCertChainBuffer_capacity"
      and c': "c' = c\<lparr>provision_info := (provision_info c)\<lparr>my_cert_chain := ?ch[i := Some b]\<rparr>\<rparr>"
      by (auto simp: construct_cert_chain_slot_def index_panic_def Let_def size_def b_def
          split: if_splits)
    have "chain_layout cr (base_hash_sel (negotiate_info c)) cd b"
      using xy s chain_buffer_bytes [OF s]
      by (auto simp: chain_layout_def b_def as_ref_def)
    with i cd c' show ?thesis
      by (auto simp: same_but_chains_def slot_done_def)
  qed
  then show "same_but_chains c c'" "slot_done cr c c' i"
    "j \<noteq> i \<Longrightarrow> my_cert_chain (provision_info c') ! j = ?ch ! j" by auto
qed

lemma run_steps_snoc_Ok:
  "run_steps (fs @ [f]) s = (Ok (), s') \<longleftrightarrow> (\<exists>s1. run_steps fs s = (Ok (), s1) \<and> f s1 = Ok s')"
  by (induction fs arbitrary: s) (auto split: result.splits)

lemma same_but_chains_trans:
  "same_but_chains c c1 \<Longrightarrow> same_but_chains c1 c2 \<Longrightarrow> same_but_chains c c2"
  by (auto simp: same_but_chains_def)

lemma slot_done_cong:
  assumes "same_but_chains c c1" "my_cert_chain (provision_info c1) ! i = my_cert_chain (provision_info c) ! i"
  shows "slot_done cr c1 c' i = slot_done cr c c' i"
proof -
  from assms(1) have "my_cert_chain_data (provision_info c1) = my_cert_chain_data (provision_info c)"
    "negotiate_info c1 = negotiate_info c"
    "length (my_cert_chain (provision_info c1)) = length (my_cert_chain (provision_info c))"
    by (auto simp: same_but_chains_def)
  with assms(2) show ?thesis by (simp add: slot_done_def split: option.splits)
qed

lemma slot_done_result:
  "my_cert_chain (provision_info c') ! i = my_cert_chain (provision_info c1) ! i \<Longrightarrow>
    slot_done cr c c' i = slot_done cr c c1 i"
  by (simp add: slot_done_def split: option.splits)

lemma construct_slots:
  assumes "run_steps (map (construct_cert_chain_slot cr) [0..<n]) c = (Ok (), c')"
  shows "same_but_chains c c' \<and> (\<forall>i<n. slot_done cr c c' i) \<and>
    (\<forall>i\<ge>n. my_cert_chain (provision_info c') ! i = my_cert_chain (provision_info c) ! i)"
  using assms
proof (induction n arbitrary: c')
  case 0
  then show ?case by (auto simp: same_but_chains_def intro: exI [of _ "my_cert_chain (provision_info c)"])
next
  case (Suc n)
  then obtain c1 where c1: "run_steps (map (construct_cert_chain_slot cr) [0..<n]) c = (Ok (), c1)"
    "construct_cert_chain_slot cr n c1 = Ok c'" by (auto simp: run_steps_snoc_Ok)
  note IH = Suc.IH [OF c1(1)] and step = construct_slot_Ok [OF c1(2)]
  from IH have "slot_done cr c c' n" using step(2) slot_done_cong [of c c1 n cr c'] by auto
  moreover have "slot_done cr c c' i" if "i < n" for i
    using IH slot_done_result [OF step(3)] that by simp
  moreover have "same_but_chains c c'" using IH step(1) same_but_chains_trans by blast
  ultimately show ?case using IH step(3) by (auto simp: less_Suc_eq)
qed

section \<open>Running hashes\<close>

lemma feed_OkE:
  assumes "hash_ctx_law cr fed" "feed cr bs (Some h) = Ok d"
  obtains h' where "d = Some h'" "fed h' = (fst (fed h), snd (fed h) @ bs)"
  using assms by (auto simp: feed_def hash_ctx_law_def)

lemma run_feed:
  assumes "hash_ctx_law cr fed" "run_steps (map (feed cr) bss) (Some h) = (Ok (), d)"
  shows "\<exists>h'. d = Some h' \<and> fed h' = (fst (fed h), snd (fed h) @ concat bss)"
  using assms(2)
proof (induction bss arbitrary: h)
  case (Cons bs bss)
  from Cons.prems obtain d1 where d1: "feed cr bs (Some h) = Ok d1"
    "run_steps (map (feed cr) bss) d1 = (Ok (), d)"
    by (auto split: result.splits)
  with feed_OkE [OF assms(1) d1(1)] obtain h1 where
    "d1 = Some h1" "fed h1 = (fst (fed h), snd (fed h) @ bs)" by metis
  with Cons.IH [of h1] d1 show ?case by auto
qed auto

lemma digest_append_fed:
  assumes law: "hash_ctx_law cr fed" and "digest_append cr algo e pre bs d = (Ok (), d')"
  shows "\<exists>h'. d' = Some h' \<and>
    fed h' = (case d of None \<Rightarrow> (algo, concat pre @ bs)
      | Some h \<Rightarrow> (fst (fed h), snd (fed h) @ bs))"
proof (cases d)
  case None
  then obtain h where "hash_ctx_init cr algo = Some h"
    "run_steps (map (feed cr) (pre @ [bs])) (Some h) = (Ok (), d')"
    using assms(2) by (auto simp: digest_append_def open_digest_def split: option.splits)
  moreover from this law have "fed h = (algo, [])" by (simp add: hash_ctx_law_def)
  ultimately show ?thesis using run_feed [OF law, of "pre @ [bs]" h d'] None by auto
next
  case (Some h)
  then have "run_steps (map (feed cr) [bs]) (Some h) = (Ok (), d')"
    using assms(2) by (simp add: digest_append_def)
  with run_feed [OF law this] Some show ?thesis by auto
qed


section \<open>The session transcript\<close>

lemma session_id_set_th [simp]: "session_id (set_th d s) = session_id s"
  by (simp add: set_th_def)

lemma session_append_k_eq:
  "session_append_k cr bs s =
    (let r = digest_append cr (base_hash_algo (crypto_param s)) SPDM_STATUS_CRYPTO_ERROR
       (mb_as_ref (s_message_a (s_runtime_info s)) #
         (case rsp_cert_hash (s_runtime_info s) of None \<Rightarrow> [] | Some h \<Rightarrow> [as_ref h]))
       bs (digest_context_th (s_runtime_info s))
     in (fst r, set_th (snd r) s))"
  by (simp add: session_append_k_def set_th_def Let_def split: prod.splits)

definition th_prefix :: "'h SpdmSession \<Rightarrow> bytes" where
  "th_prefix s = mb_as_ref (s_message_a (s_runtime_info s)) @
    (case rsp_cert_hash (s_runtime_info s) of None \<Rightarrow> [] | Some h \<Rightarrow> as_ref h)"

lemma append_message_k_step:
  assumes law: "hash_ctx_law cr fed" and s: "get_session_via_id c sid = Some s"
    and app: "append_message_k cr sid bs c = (Ok (), c')"
  shows "\<exists>h ss. c' = c\<lparr>session := ss\<rparr> \<and> get_session_via_id c' sid = Some (set_th (Some h) s) \<and>
    fed h = (case digest_context_th (s_runtime_info s) of
        None \<Rightarrow> (base_hash_algo (crypto_param s), th_prefix s @ bs)
      | Some h0 \<Rightarrow> (fst (fed h0), snd (fed h0) @ bs))"
proof -
  have "session_id (snd (session_append_k cr bs s)) = sid"
    using s by (simp add: session_append_k_eq Let_def st.get_key)
  from on_session_OkE [OF app [unfolded append_message_k_def] s this] obtain s' ss where
    s': "session_append_k cr bs s = (Ok (), s')" "c' = c\<lparr>session := ss\<rparr>"
      "get_session_via_id c' sid = Some s'" by metis
  define r where "r = digest_append cr (base_hash_algo (crypto_param s)) SPDM_STATUS_CRYPTO_ERROR
       (mb_as_ref (s_message_a (s_runtime_info s)) #
         (case rsp_cert_hash (s_runtime_info s) of None \<Rightarrow> [] | Some h \<Rightarrow> [as_ref h]))
       bs (digest_context_th (s_runtime_info s))"
  from s'(1) have "fst r = Ok ()" and s2: "s' = set_th (snd r) s"
    by (auto simp: session_append_k_eq Let_def r_def)
  then have "r = (Ok (), snd r)" by (metis prod.collapse)
  from digest_append_fed [OF law this [unfolded r_def]] show ?thesis
    using s' s2 by (auto simp: th_prefix_def r_def split: option.splits)
qed

lemma append_all_k:
  assumes law: "hash_ctx_law cr fed"
    and "get_session_via_id c sid = Some s" "digest_context_th (s_runtime_info s) = Some h"
    and "append_all (append_message_k cr sid) ks c = (Ok (), c')"
  shows "\<exists>h' ss. c' = c\<lparr>session := ss\<rparr> \<and> get_session_via_id c' sid = Some (set_th (Some h') s) \<and>
    fed h' = (fst (fed h), snd (fed h) @ concat ks)"
  using assms(2-)
proof (induction ks arbitrary: c s h)
  case Nil
  then have "set_th (Some h) s = s" by (simp add: set_th_def)
  with Nil show ?case by (auto intro: exI [of _ h] exI [of _ "session c"])
next
  case (Cons bs ks)
  then obtain c1 where app: "append_message_k cr sid bs c = (Ok (), c1)"
    "append_all (append_message_k cr sid) ks c1 = (Ok (), c')"
    by (auto split: prod.splits result.splits)
  from append_message_k_step [OF law Cons.prems(1) app(1)] Cons.prems(2) obtain h1 ss where
    1: "c1 = c\<lparr>session := ss\<rparr>" "get_session_via_id c1 sid = Some (set_th (Some h1) s)"
      "fed h1 = (fst (fed h), snd (fed h) @ bs)" by auto
  from Cons.IH [OF 1(2) _ app(2), of h1] 1 show ?case
    by (auto simp: set_th_def)
qed

lemma append_all_k_first:
  assumes law: "hash_ctx_law cr fed"
    and s: "get_session_via_id c sid = Some s" "digest_context_th (s_runtime_info s) = None"
    and app: "append_all (append_message_k cr sid) ks c = (Ok (), c')" and "ks \<noteq> []"
  shows "\<exists>h' ss. c' = c\<lparr>session := ss\<rparr> \<and> get_session_via_id c' sid = Some (set_th (Some h') s) \<and>
    fed h' = (base_hash_algo (crypto_param s), th_prefix s @ concat ks)"
proof -
  from app \<open>ks \<noteq> []\<close> obtain k ks' c1 where app: "ks = k # ks'"
    "append_message_k cr sid k c = (Ok (), c1)"
    "append_all (append_message_k cr sid) ks' c1 = (Ok (), c')"
    by (cases ks) (auto split: prod.splits result.splits)
  from append_message_k_step [OF law s(1) app(2)] s(2) obtain h1 ss where
    1: "c1 = c\<lparr>session := ss\<rparr>" "get_session_via_id c1 sid = Some (set_th (Some h1) s)"
      "fed h1 = (base_hash_algo (crypto_param s), th_prefix s @ k)" by auto
  from append_all_k [OF law 1(2) _ app(3), of h1] 1 app(1) show ?thesis
    by (auto simp: set_th_def)
qed

lemma upd_th_feed:
  assumes "hash_ctx_law cr fed" "digest_context_th (s_runtime_info s) = Some h"
    and "upd_th (feed cr bs) s = Ok s'"
  shows "\<exists>h'. s' = set_th (Some h') s \<and> fed h' = (fst (fed h), snd (fed h) @ bs)"
proof -
  from assms obtain d where d: "feed cr bs (Some h) = Ok d" "s' = set_th d s"
    by (auto simp: upd_th_def set_th_def)
  with feed_OkE [OF assms(1) d(1)] show ?thesis by metis
qed

definition opt_bytes :: "SpdmDigestStruct option \<Rightarrow> bytes" where
  "opt_bytes md = (case md of None \<Rightarrow> [] | Some d \<Rightarrow> as_ref d)"

lemma set_th_set_th [simp]: "set_th d (set_th d' s) = set_th d s"
  by (simp add: set_th_def)

lemma set_th_set_f_init [simp]: "set_th d (set_f_init s) = set_f_init (set_th d s)"
  by (cases "s_runtime_info s") (simp add: set_f_init_def set_th_def)

lemma set_f_init_simps [simp]:
  "session_id (set_f_init s) = session_id s"
  "message_f_initialized (s_runtime_info (set_f_init s))"
  "digest_context_th (s_runtime_info (set_f_init s)) = digest_context_th (s_runtime_info s)"
  "digest_context_th (s_runtime_info (set_th d s)) = d"
  "message_f_initialized (s_runtime_info (set_th d s)) = message_f_initialized (s_runtime_info s)"
  "set_f_init (set_f_init s) = set_f_init s"
  by (simp_all add: set_f_init_def set_th_def)

lemma set_f_init_id:
  "message_f_initialized (s_runtime_info s) \<Longrightarrow> set_f_init (set_th d s) = set_th d s"
  by (cases s, cases "s_runtime_info s") (auto simp: set_f_init_def set_th_def)

lemma session_append_f_OkE:
  assumes law: "hash_ctx_law cr fed" and th: "digest_context_th (s_runtime_info s) = Some h"
    and app: "session_append_f cr md bs s = (Ok (), s')"
    and md: "message_f_initialized (s_runtime_info s) \<Longrightarrow> md = None"
  shows "\<exists>h'. s' = set_f_init (set_th (Some h') s) \<and>
    fed h' = (fst (fed h), snd (fed h) @ opt_bytes md @ bs)"
proof (cases "message_f_initialized (s_runtime_info s)")
  case True
  with app have "upd_th (feed cr bs) s = Ok s'"
    by (auto simp: session_append_f_def split: result.splits)
  from upd_th_feed [OF law th this] True md show ?thesis
    by (auto simp: set_f_init_id opt_bytes_def)
next
  case False
  show ?thesis
  proof (cases md)
    case None
    with False app have "upd_th (feed cr bs) (set_f_init s) = Ok s'"
      by (auto simp: session_append_f_def set_f_init_def split: result.splits)
    from upd_th_feed [OF law _ this, of h] th None show ?thesis
      by (auto simp: opt_bytes_def)
  next
    case (Some d)
    with False app obtain s1 where s1: "upd_th (feed cr (as_ref d)) s = Ok s1"
      "upd_th (feed cr bs) (set_f_init s1) = Ok s'"
      by (auto simp: session_append_f_def set_f_init_def split: result.splits)
    from upd_th_feed [OF law th s1(1)] obtain h1 where
      h1: "s1 = set_th (Some h1) s" "fed h1 = (fst (fed h), snd (fed h) @ as_ref d)" by metis
    from upd_th_feed [OF law _ s1(2), of h1] h1 Some show ?thesis
      by (auto simp: opt_bytes_def)
  qed
qed


lemma mut_cert_digest_cong:
  "mut_cert_digest cr r (c\<lparr>session := ss\<rparr>) (set_th d s) = mut_cert_digest cr r c s"
  by (simp add: mut_cert_digest_def set_th_def)

lemma append_message_f_step:
  assumes law: "hash_ctx_law cr fed" and s: "get_session_via_id c sid = Some s"
    and th: "digest_context_th (s_runtime_info s) = Some h"
    and app: "append_message_f cr r sid bs c = (Ok (), c')"
  shows "\<exists>h' ss md. c' = c\<lparr>session := ss\<rparr> \<and>
    get_session_via_id c' sid = Some (set_f_init (set_th (Some h') s)) \<and>
    (if message_f_initialized (s_runtime_info s) then md = None
     else mut_cert_digest cr r c s = Ok md) \<and>
    fed h' = (fst (fed h), snd (fed h) @ opt_bytes md @ bs)"
proof -
  from app s th obtain md where md: "if message_f_initialized (s_runtime_info s) then md = None
      else mut_cert_digest cr r c s = Ok md"
    and app': "on_session sid Panic (session_append_f cr md bs) c = (Ok (), c')"
    by (auto simp: append_message_f_def split: if_splits result.splits)
  from app' s obtain s' where s': "session_append_f cr md bs s = (Ok (), s')"
    by (auto simp: on_session_def split: prod.splits)
  from session_append_f_OkE [OF law th s'] md obtain h' where
    h': "s' = set_f_init (set_th (Some h') s)"
      "fed h' = (fst (fed h), snd (fed h) @ opt_bytes md @ bs)" by (auto split: if_splits)
  have "session_id (snd (session_append_f cr md bs s)) = sid"
    using s s' h' by (simp add: st.get_key)
  from on_session_OkE [OF app' s this] obtain s'' ss where
    c': "session_append_f cr md bs s = (Ok (), s'')" "c' = c\<lparr>session := ss\<rparr>"
      "get_session_via_id c' sid = Some s''" by metis
  with s' have "s'' = s'" by simp
  with c' h' md show ?thesis by blast
qed

lemma append_all_f:
  assumes law: "hash_ctx_law cr fed"
    and "get_session_via_id c sid = Some s" "digest_context_th (s_runtime_info s) = Some h"
      "message_f_initialized (s_runtime_info s)"
    and "append_all (append_message_f cr r sid) fs c = (Ok (), c')"
  shows "\<exists>h' s' ss. c' = c\<lparr>session := ss\<rparr> \<and> get_session_via_id c' sid = Some s' \<and>
    digest_context_th (s_runtime_info s') = Some h' \<and>
    fed h' = (fst (fed h), snd (fed h) @ concat fs)"
  using assms(2-)
proof (induction fs arbitrary: c s h)
  case Nil
  then show ?case by (auto intro: exI [of _ "session c"])
next
  case (Cons bs fs)
  then obtain c1 where app: "append_message_f cr r sid bs c = (Ok (), c1)"
    "append_all (append_message_f cr r sid) fs c1 = (Ok (), c')"
    by (auto split: prod.splits result.splits)
  from append_message_f_step [OF law Cons.prems(1,2) app(1)] Cons.prems(3) obtain h1 ss where
    1: "c1 = c\<lparr>session := ss\<rparr>" "get_session_via_id c1 sid = Some (set_f_init (set_th (Some h1) s))"
      "fed h1 = (fst (fed h), snd (fed h) @ bs)" by (auto simp: opt_bytes_def)
  from Cons.IH [OF 1(2) _ _ app(2), of h1] obtain h' s' ss' where
    2: "c' = c1\<lparr>session := ss'\<rparr>" "get_session_via_id c' sid = Some s'"
      "digest_context_th (s_runtime_info s') = Some h'"
      "fed h' = (fst (fed h1), snd (fed h1) @ concat fs)" by auto
  from 1 2(1) have "c' = c\<lparr>session := ss'\<rparr>" by simp
  with 2 1(3) show ?case by (intro exI [of _ h'] exI [of _ s'] exI [of _ ss']) simp
qed

lemma append_all_f_first:
  assumes law: "hash_ctx_law cr fed"
    and s: "get_session_via_id c sid = Some s" "digest_context_th (s_runtime_info s) = Some h"
      "\<not> message_f_initialized (s_runtime_info s)"
    and app: "append_all (append_message_f cr r sid) fs c = (Ok (), c')" and "fs \<noteq> []"
  shows "\<exists>h' s' ss md. c' = c\<lparr>session := ss\<rparr> \<and> get_session_via_id c' sid = Some s' \<and>
    digest_context_th (s_runtime_info s') = Some h' \<and> mut_cert_digest cr r c s = Ok md \<and>
    fed h' = (fst (fed h), snd (fed h) @ opt_bytes md @ concat fs)"
proof -
  from app \<open>fs \<noteq> []\<close> obtain f fs' c1 where app: "fs = f # fs'"
    "append_message_f cr r sid f c = (Ok (), c1)"
    "append_all (append_message_f cr r sid) fs' c1 = (Ok (), c')"
    by (cases fs) (auto split: prod.splits result.splits)
  from append_message_f_step [OF law s(1,2) app(2)] s(3) obtain h1 ss md where
    1: "c1 = c\<lparr>session := ss\<rparr>" "get_session_via_id c1 sid = Some (set_f_init (set_th (Some h1) s))"
      "mut_cert_digest cr r c s = Ok md"
      "fed h1 = (fst (fed h), snd (fed h) @ opt_bytes md @ f)" by auto
  from append_all_f [OF law 1(2) _ _ app(3), of h1] obtain h' s' ss' where
    2: "c' = c1\<lparr>session := ss'\<rparr>" "get_session_via_id c' sid = Some s'"
      "digest_context_th (s_runtime_info s') = Some h'"
      "fed h' = (fst (fed h1), snd (fed h1) @ concat fs')" by auto
  from 1 2(1) have "c' = c\<lparr>session := ss'\<rparr>" by simp
  with 2 1 app(1) show ?thesis
    by (intro exI [of _ h'] exI [of _ s'] exI [of _ ss'] exI [of _ md]) simp
qed

text \<open>
  What the running hash of a session has been fed after the key exchange messages \<open>ks\<close> and the
  finish messages \<open>fs\<close>.
\<close>

lemma running_transcript:
  assumes law: "hash_ctx_law cr fed"
    and s: "get_session_via_id c sid = Some s" "digest_context_th (s_runtime_info s) = None"
      "\<not> message_f_initialized (s_runtime_info s)"
    and k: "append_all (append_message_k cr sid) ks c = (Ok (), c1)" "ks \<noteq> []"
    and f: "append_all (append_message_f cr r sid) fs c1 = (Ok (), c2)" "fs \<noteq> []"
  shows "\<exists>s2 md. get_session_via_id c2 sid = Some s2 \<and> mut_cert_digest cr r c s = Ok md \<and>
    calc_transcript_hash cr s2 = ok_or SPDM_STATUS_CRYPTO_ERROR
      (hash_all cr (base_hash_algo (crypto_param s))
        (th_prefix s @ concat ks @ opt_bytes md @ concat fs))"
proof -
  from append_all_k_first [OF law s(1,2) k] obtain h1 ss where
    1: "c1 = c\<lparr>session := ss\<rparr>" "get_session_via_id c1 sid = Some (set_th (Some h1) s)"
      "fed h1 = (base_hash_algo (crypto_param s), th_prefix s @ concat ks)" by blast
  from append_all_f_first [OF law 1(2) _ _ f, of h1] s(3) obtain h2 s2 md where
    2: "get_session_via_id c2 sid = Some s2" "digest_context_th (s_runtime_info s2) = Some h2"
      "mut_cert_digest cr r c1 (set_th (Some h1) s) = Ok md"
      "fed h2 = (fst (fed h1), snd (fed h1) @ opt_bytes md @ concat fs)" by auto
  have "hash_ctx_finalize cr h2 = hash_all cr (fst (fed h2)) (snd (fed h2))"
    using law by (simp add: hash_ctx_law_def)
  with 1 2 show ?thesis
    by (auto simp: calc_transcript_hash_def mut_cert_digest_cong intro!: exI [of _ s2] exI [of _ md])
qed


section \<open>The stored transcript\<close>

lemma th_append_fits:
  assumes "mb_ok n m" "length (mb_as_ref m) + length bs \<le> n"
  shows "\<exists>m'. th_append bs m = Ok m' \<and> mb_ok n m' \<and> mb_as_ref m' = mb_as_ref m @ bs"
  using mb.append_fits [OF assms] by (auto simp: th_append_def)

fun th_appends :: "bytes list \<Rightarrow> ManagedBufferTH \<Rightarrow> ManagedBufferTH SpdmResult" where
  "th_appends [] m = Ok m"
| "th_appends (bs # bss) m = rbind (th_append bs m) (th_appends bss)"

lemma th_appends_fit:
  assumes "mb_ok n m" "length (mb_as_ref m) + length (concat bss) \<le> n"
  shows "\<exists>m'. th_appends bss m = Ok m' \<and> mb_as_ref m' = mb_as_ref m @ concat bss"
  using assms
proof (induction bss arbitrary: m)
  case (Cons bs bss)
  then obtain m1 where "th_append bs m = Ok m1" "mb_ok n m1" "mb_as_ref m1 = mb_as_ref m @ bs"
    using th_append_fits [of n m bs] by auto
  with Cons.IH [of m1] Cons.prems show ?case by auto
qed simp

definition digest_law :: "'h crypto \<Rightarrow> bool" where
  "digest_law cr \<longleftrightarrow> (\<forall>a bs d. hash_all cr a bs = Some d \<longrightarrow> sized_ok SPDM_MAX_HASH_SIZE d)"

lemma th_capacity:
  assumes "length a \<le> MAX_MANAGED_BUFFER_A_SIZE" "length k \<le> MAX_MANAGED_BUFFER_K_SIZE"
    "length f \<le> MAX_MANAGED_BUFFER_F_SIZE" "length d \<le> SPDM_MAX_HASH_SIZE" "length d' \<le> SPDM_MAX_HASH_SIZE"
  shows "\<exists>m. th_appends [a, d, k, d', f] ManagedBufferTH_default = Ok m \<and>
      mb_as_ref m = a @ d @ k @ d' @ f"
    and "\<exists>m. th_appends [a, d, k, f] ManagedBufferTH_default = Ok m \<and>
      mb_as_ref m = a @ d @ k @ f"
    and "\<exists>m. th_appends [a, k, f] ManagedBufferTH_default = Ok m \<and>
      mb_as_ref m = a @ k @ f"
  using assms th_appends_fit [of MAX_MANAGED_BUFFER_TH_SIZE ManagedBufferTH_default "[a, d, k, d', f]"]
    th_appends_fit [of MAX_MANAGED_BUFFER_TH_SIZE ManagedBufferTH_default "[a, d, k, f]"]
    th_appends_fit [of MAX_MANAGED_BUFFER_TH_SIZE ManagedBufferTH_default "[a, k, f]"]
  by (simp_all add: ManagedBufferTH_default_def MAX_MANAGED_BUFFER_TH_SIZE_def
      MAX_SPDM_CERT_CHAIN_DATA_SIZE_def config_def)

definition transcript_buffers :: "'h SpdmContext \<Rightarrow> ManagedBufferK \<Rightarrow> ManagedBufferF \<Rightarrow> bool" where
  "transcript_buffers c mk mf \<longleftrightarrow>
    mb_ok MAX_MANAGED_BUFFER_A_SIZE (message_a (runtime_info c)) \<and>
    mb_ok MAX_MANAGED_BUFFER_K_SIZE mk \<and> mb_ok MAX_MANAGED_BUFFER_F_SIZE mf"

lemma chain_digest_bounded:
  "digest_law cr \<Longrightarrow> chain_digest cr c e ch i = Ok d \<Longrightarrow> length (as_ref d) \<le> SPDM_MAX_HASH_SIZE"
  by (auto simp: chain_digest_def digest_law_def sized_ok_def as_ref_def)

definition peer_digest :: "'h crypto \<Rightarrow> bool \<Rightarrow> 'h SpdmContext \<Rightarrow> SpdmDigestStruct SpdmResult" where
  "peer_digest cr r c =
    (if r then chain_digest cr c SPDM_STATUS_INVALID_PARAMETER (my_cert_chain (provision_info c))
       (local_used_cert_chain_slot_id (runtime_info c))
     else chain_digest cr c SPDM_STATUS_INVALID_PARAMETER (peer_cert_chain (peer_info c))
       (peer_used_cert_chain_slot_id (runtime_info c)))"

lemma mut_cert_digest_Ok:
  "mut_cert_digest cr r c s = Ok md \<Longrightarrow>
    if \<not> use_psk s \<and> mut_auth_requested s \<noteq> 0
    then \<exists>d. md = Some d \<and> peer_digest cr r c = Ok d else md = None"
  by (auto simp: mut_cert_digest_def peer_digest_def chain_digest_def split: if_splits option.splits)

definition stored_bytes ::
    "'h SpdmContext \<Rightarrow> bool \<Rightarrow> bool \<Rightarrow> SpdmDigestStruct \<Rightarrow> SpdmDigestStruct \<Rightarrow> ManagedBufferK \<Rightarrow> ManagedBufferF \<Rightarrow>
      bytes" where
  "stored_bytes c psk mut d d' mk mf =
    mb_as_ref (message_a (runtime_info c)) @ (if psk then [] else as_ref d) @ mb_as_ref mk @
    (if \<not> psk \<and> mut then as_ref d' else []) @ mb_as_ref mf"

lemma stored_parts:
  assumes "transcript_buffers c mk mf"
    and d: "\<not> psk \<Longrightarrow> D = Ok d" "\<not> psk \<Longrightarrow> length (as_ref d) \<le> SPDM_MAX_HASH_SIZE"
    and d': "\<not> psk \<Longrightarrow> mut \<Longrightarrow> D' = Ok d'" "\<not> psk \<Longrightarrow> mut \<Longrightarrow> length (as_ref d') \<le> SPDM_MAX_HASH_SIZE"
  shows "\<exists>m.
    rbind (th_append (mb_as_ref (message_a (runtime_info c))) ManagedBufferTH_default) (\<lambda>m.
    rbind (if \<not> psk then rbind D (\<lambda>h. th_append (as_ref h) m) else Ok m) (\<lambda>m.
    rbind (th_append (mb_as_ref mk) m) (\<lambda>m.
    rbind (if \<not> psk \<and> mut then rbind D' (\<lambda>h. th_append (as_ref h) m) else Ok m) (\<lambda>m.
    th_append (mb_as_ref mf) m)))) = Ok m \<and>
    mb_as_ref m = stored_bytes c psk mut d d' mk mf"
proof -
  have l: "length (mb_as_ref (message_a (runtime_info c))) \<le> MAX_MANAGED_BUFFER_A_SIZE"
    "length (mb_as_ref mk) \<le> MAX_MANAGED_BUFFER_K_SIZE"
    "length (mb_as_ref mf) \<le> MAX_MANAGED_BUFFER_F_SIZE"
    using assms(1) by (auto simp: transcript_buffers_def dest: mb.bounded)
  consider (psk) psk | (plain) "\<not> psk" "\<not> mut" | (mut) "\<not> psk" mut by blast
  then show ?thesis
  proof cases
    case psk
    with th_capacity(3) [OF l, of "[]" "[]"] show ?thesis by (auto simp: stored_bytes_def)
  next
    case plain
    with th_capacity(2) [OF l d(2), of "[]"] d show ?thesis by (auto simp: stored_bytes_def)
  next
    case mut
    with th_capacity(1) [OF l d(2) d'(2)] d d' show ?thesis by (auto simp: stored_bytes_def)
  qed
qed

lemma stored_rsp:
  assumes law: "digest_law cr" and buf: "transcript_buffers c mk mf"
    and d: "\<not> psk \<Longrightarrow> chain_digest cr c SPDM_STATUS_INVALID_STATE_LOCAL
      (my_cert_chain (provision_info c)) slot = Ok d"
    and d': "\<not> psk \<Longrightarrow> mut \<Longrightarrow> peer_digest cr False c = Ok d'"
  shows "\<exists>m. calc_rsp_transcript_data cr c psk slot mut mk (Some mf) = Ok m \<and>
    mb_as_ref m = stored_bytes c psk mut d d' mk mf"
  unfolding calc_rsp_transcript_data_def option.case
  using d' by (intro stored_parts [OF buf d chain_digest_bounded [OF law d]])
    (auto simp: peer_digest_def intro: chain_digest_bounded [OF law])

lemma stored_req:
  assumes law: "digest_law cr" and buf: "transcript_buffers c mk mf"
    and d: "\<not> psk \<Longrightarrow> chain_digest cr c SPDM_STATUS_INVALID_PARAMETER
      (peer_cert_chain (peer_info c)) slot = Ok d"
    and d': "\<not> psk \<Longrightarrow> mut \<Longrightarrow> peer_digest cr True c = Ok d'"
  shows "\<exists>m. calc_req_transcript_data cr c psk slot mut mk (Some mf) = Ok m \<and>
    mb_as_ref m = stored_bytes c psk mut d d' mk mf"
  unfolding calc_req_transcript_data_def option.case
  using d' by (intro stored_parts [OF buf d chain_digest_bounded [OF law d]])
    (auto simp: peer_digest_def intro: chain_digest_bounded [OF law])

definition session_at_start ::
    "'h crypto \<Rightarrow> bool \<Rightarrow> 'h SpdmContext \<Rightarrow> 'h SpdmSession \<Rightarrow> u8 \<Rightarrow> bool" where
  "session_at_start cr r c s slot \<longleftrightarrow>
    Option.is_none (digest_context_th (s_runtime_info s)) \<and>
    \<not> message_f_initialized (s_runtime_info s) \<and>
    base_hash_algo (crypto_param s) = base_hash_sel (negotiate_info c) \<and>
    mb_as_ref (s_message_a (s_runtime_info s)) = mb_as_ref (message_a (runtime_info c)) \<and>
    (if r then get_certchain_hash_peer cr c (use_psk s) (unat slot)
     else get_certchain_hash_local cr c (use_psk s) (unat slot)) = Ok (rsp_cert_hash (s_runtime_info s)) \<and>
    (if use_psk s then True else \<not> Option.is_none (rsp_cert_hash (s_runtime_info s)))"

lemma start_th_prefix:
  assumes "session_at_start cr r c s slot"
  shows "\<exists>d. (\<not> use_psk s \<longrightarrow>
      (if r then chain_digest cr c SPDM_STATUS_INVALID_PARAMETER (peer_cert_chain (peer_info c)) slot
       else chain_digest cr c SPDM_STATUS_INVALID_STATE_LOCAL (my_cert_chain (provision_info c)) slot) = Ok d) \<and>
    th_prefix s = mb_as_ref (message_a (runtime_info c)) @ (if use_psk s then [] else as_ref d)"
proof (cases "use_psk s")
  case True
  with assms show ?thesis
    by (auto simp: session_at_start_def th_prefix_def get_certchain_hash_local_def
        get_certchain_hash_peer_def split: if_splits)
next
  case False
  with assms obtain h where h: "rsp_cert_hash (s_runtime_info s) = Some h"
    by (auto simp: session_at_start_def Option.is_none_def)
  with False assms h show ?thesis
    by (cases r) (auto simp: session_at_start_def th_prefix_def get_certchain_hash_local_def
        get_certchain_hash_peer_def chain_digest_def dest: sized_from_Ok(2))
qed


lemma running_is_stored:
  assumes "hash_ctx_law cr fed"
    and "get_session_via_id c sid = Some s" and start: "session_at_start cr r c s slot"
    and "append_all (append_message_k cr sid) ks c = (Ok (), c1)" "ks \<noteq> []"
    and "append_all (append_message_f cr r sid) fs c1 = (Ok (), c2)" "fs \<noteq> []"
    and buf: "mb_as_ref mk = concat ks" "mb_as_ref mf = concat fs"
    and mut: "mut = (mut_auth_requested s \<noteq> 0)"
  obtains s2 d d' where "get_session_via_id c2 sid = Some s2"
    "\<not> use_psk s \<Longrightarrow>
      (if r then chain_digest cr c SPDM_STATUS_INVALID_PARAMETER (peer_cert_chain (peer_info c)) slot
       else chain_digest cr c SPDM_STATUS_INVALID_STATE_LOCAL (my_cert_chain (provision_info c)) slot) = Ok d"
    "\<not> use_psk s \<Longrightarrow> mut \<Longrightarrow> peer_digest cr r c = Ok d'"
    "calc_transcript_hash cr s2 = ok_or SPDM_STATUS_CRYPTO_ERROR
      (hash_all cr (base_hash_sel (negotiate_info c)) (stored_bytes c (use_psk s) mut d d' mk mf))"
proof -
  from start have st: "digest_context_th (s_runtime_info s) = None"
    "\<not> message_f_initialized (s_runtime_info s)"
    "base_hash_algo (crypto_param s) = base_hash_sel (negotiate_info c)"
    by (auto simp: session_at_start_def Option.is_none_def)
  from running_transcript [OF assms(1,2) st(1,2) assms(4-7)] obtain s2 md where
    run: "get_session_via_id c2 sid = Some s2" "mut_cert_digest cr r c s = Ok md"
      "calc_transcript_hash cr s2 = ok_or SPDM_STATUS_CRYPTO_ERROR
        (hash_all cr (base_hash_sel (negotiate_info c))
          (th_prefix s @ concat ks @ opt_bytes md @ concat fs))"
    unfolding st(3) by blast
  from start_th_prefix [OF start] obtain d where d: "\<not> use_psk s \<longrightarrow>
      (if r then chain_digest cr c SPDM_STATUS_INVALID_PARAMETER (peer_cert_chain (peer_info c)) slot
       else chain_digest cr c SPDM_STATUS_INVALID_STATE_LOCAL (my_cert_chain (provision_info c)) slot) = Ok d"
      "th_prefix s = mb_as_ref (message_a (runtime_info c)) @ (if use_psk s then [] else as_ref d)"
    by blast
  obtain d' where d': "\<not> use_psk s \<Longrightarrow> mut \<Longrightarrow> peer_digest cr r c = Ok d'"
    "opt_bytes md = (if \<not> use_psk s \<and> mut then as_ref d' else [])"
    using mut_cert_digest_Ok [OF run(2)] mut
    by (cases md) (auto simp: opt_bytes_def split: if_splits)
  have "th_prefix s @ concat ks @ opt_bytes md @ concat fs = stored_bytes c (use_psk s) mut d d' mk mf"
    by (simp add: stored_bytes_def d(2) d'(2) buf)
  with run(3) show ?thesis using that run(1) d(1) d'(1) by simp
qed

section \<open>Properties\<close>

text \<open>
  C7: On the responder, the transcript hash of a session computed incrementally (default build) is
  the hash of the stored transcript of the build without \<open>hashed-transcript-data\<close>: after the same
  key exchange and finish messages both variants return the same digest, whether the session is
  authenticated by a pre-shared key, by a certificate or mutually, and the stored transcript never
  overflows its buffer.
\<close>

theorem rsp_transcript_refines:
  assumes "hash_ctx_law cr fed" "digest_law cr"
    and "get_session_via_id c sid = Some s" "session_at_start cr False c s slot"
    and "append_all (append_message_k cr sid) ks c = (Ok (), c1)" "ks \<noteq> []"
    and "append_all (append_message_f cr False sid) fs c1 = (Ok (), c2)" "fs \<noteq> []"
    and "transcript_buffers c mk mf" "mb_as_ref mk = concat ks" "mb_as_ref mf = concat fs"
  shows "\<exists>s2. get_session_via_id c2 sid = Some s2 \<and>
    is_ok (calc_rsp_transcript_data cr c (use_psk s) slot (mut_auth_requested s \<noteq> 0) mk (Some mf)) \<and>
    calc_rsp_transcript_hash cr c2 (use_psk s) slot (mut_auth_requested s \<noteq> 0) s2 =
    calc_rsp_transcript_hash_stored cr c (use_psk s) slot (mut_auth_requested s \<noteq> 0) mk mf"
proof -
  define mut where "mut = (mut_auth_requested s \<noteq> 0)"
  from running_is_stored [OF assms(1,3-8,10,11) mut_def] obtain s2 d d' where
    1: "get_session_via_id c2 sid = Some s2"
      "\<not> use_psk s \<Longrightarrow> chain_digest cr c SPDM_STATUS_INVALID_STATE_LOCAL
        (my_cert_chain (provision_info c)) slot = Ok d"
      "\<not> use_psk s \<Longrightarrow> mut \<Longrightarrow> peer_digest cr False c = Ok d'"
      "calc_transcript_hash cr s2 = ok_or SPDM_STATUS_CRYPTO_ERROR
        (hash_all cr (base_hash_sel (negotiate_info c)) (stored_bytes c (use_psk s) mut d d' mk mf))"
    by (metis (full_types))
  from stored_rsp [of cr c mk mf "use_psk s" slot d mut d', OF assms(2,9) 1(2,3)] 1 show ?thesis
    unfolding mut_def [symmetric]
    by (auto simp: calc_rsp_transcript_hash_def calc_rsp_transcript_hash_stored_def)
qed

text \<open>
  C8: The same on the requester, whose transcript covers the responder's certificate chain received
  from the peer and, with mutual authentication, its own chain.
\<close>

theorem req_transcript_refines:
  assumes "hash_ctx_law cr fed" "digest_law cr"
    and "get_session_via_id c sid = Some s" "session_at_start cr True c s slot"
    and "append_all (append_message_k cr sid) ks c = (Ok (), c1)" "ks \<noteq> []"
    and "append_all (append_message_f cr True sid) fs c1 = (Ok (), c2)" "fs \<noteq> []"
    and "transcript_buffers c mk mf" "mb_as_ref mk = concat ks" "mb_as_ref mf = concat fs"
  shows "\<exists>s2. get_session_via_id c2 sid = Some s2 \<and>
    is_ok (calc_req_transcript_data cr c (use_psk s) slot (mut_auth_requested s \<noteq> 0) mk (Some mf)) \<and>
    calc_req_transcript_hash cr c2 (use_psk s) slot (mut_auth_requested s \<noteq> 0) s2 =
    calc_req_transcript_hash_stored cr c (use_psk s) slot (mut_auth_requested s \<noteq> 0) mk mf"
proof -
  define mut where "mut = (mut_auth_requested s \<noteq> 0)"
  from running_is_stored [OF assms(1,3-8,10,11) mut_def] obtain s2 d d' where
    1: "get_session_via_id c2 sid = Some s2"
      "\<not> use_psk s \<Longrightarrow> chain_digest cr c SPDM_STATUS_INVALID_PARAMETER
        (peer_cert_chain (peer_info c)) slot = Ok d"
      "\<not> use_psk s \<Longrightarrow> mut \<Longrightarrow> peer_digest cr True c = Ok d'"
      "calc_transcript_hash cr s2 = ok_or SPDM_STATUS_CRYPTO_ERROR
        (hash_all cr (base_hash_sel (negotiate_info c)) (stored_bytes c (use_psk s) mut d d' mk mf))"
    by (metis (full_types))
  from stored_req [of cr c mk mf "use_psk s" slot d mut d', OF assms(2,9) 1(2,3)] 1 show ?thesis
    unfolding mut_def [symmetric]
    by (auto simp: calc_req_transcript_hash_def calc_req_transcript_hash_stored_def)
qed

definition sample_config :: SpdmConfigInfo where
  "sample_config = \<lparr>
    spdm_version = [SpdmVersion10, SpdmVersion11, SpdmVersion12],
    req_capabilities = 0, rsp_capabilities = 0, req_ct_exponent = 0, rsp_ct_exponent = 0,
    measurement_specification = 1, measurement_hash_algo = 2, c_base_hash_algo = 1,
    c_base_asym_algo = 1, c_dhe_algo = 1, c_aead_algo = 2, c_req_asym_algo = 1,
    c_key_schedule_algo = 1, opaque_support = 0, session_policy = 0,
    runtime_content_change_support = False, data_transfer_size = 4096,
    c_max_spdm_msg_size = 4096, c_heartbeat_period = 0, secure_spdm_version = [0x11, 0]\<rparr>"

definition sample_chain :: SpdmCertChainBuffer where
  "sample_chain = \<lparr>data_size = 4, data = [4, 0, 9, 9]\<rparr>"

definition sample_context :: "(SpdmBaseHashAlgo \<times> bytes) SpdmContext" where
  "sample_context =
    (SpdmContext_new sample_config \<lparr>my_cert_chain_data = replicate 8 None,
      my_cert_chain = replicate 8 (Some sample_chain), peer_root_cert_data = None\<rparr>)
    \<lparr>peer_info := \<lparr>peer_cert_chain = replicate 8 (Some sample_chain), peer_cert_chain_temp = None\<rparr>,
     session := [SpdmSession_new, SpdmSession_new\<lparr>session_id := 7, mut_auth_requested := 1,
       s_runtime_info := SpdmSessionRuntimeInfo_default
         \<lparr>rsp_cert_hash := Some (sample_digest [4, 0, 9, 9])\<rparr>\<rparr>]\<rparr>"

definition sample_stored :: "nat \<Rightarrow> bytes \<Rightarrow> managed_buffer" where
  "sample_stored n bs = \<lparr>mb_used = length bs, mb_data = bs @ replicate (n - length bs) 0\<rparr>"

lemma sample_stored_simps [simp]:
  "mb_as_ref (sample_stored n bs) = bs" "length bs \<le> n \<Longrightarrow> mb_ok n (sample_stored n bs)"
  by (simp_all add: sample_stored_def mb_as_ref_def mb_ok_def)

lemma sample_digest_law: "digest_law sample_crypto"
  by (auto simp: digest_law_def sample_crypto_def sample_digest_def sized_ok_def)

lemma sample_get: "get_session_via_id sample_context 7 = Some (session sample_context ! 1)"
  by (simp add: get_session_via_id_def sample_context_def SpdmContext_new_def SpdmSession_new_def
      INVALID_SESSION_ID_def)

lemma sample_start:
  "session_at_start sample_crypto r sample_context (session sample_context ! 1) 0"
proof -
  have "sized_from 64 (as_ref (sample_digest [4, 0, 9, 9])) = Ok (sample_digest [4, 0, 9, 9])"
    by code_simp
  then show ?thesis
    by (simp add: session_at_start_def sample_context_def SpdmContext_new_def SpdmSession_new_def
        SpdmSessionRuntimeInfo_default_def SpdmSessionCryptoParam_default_def
        SpdmNegotiateInfo_default_def SpdmRuntimeInfo_default_def get_certchain_hash_local_def
        get_certchain_hash_peer_def index_panic_def sample_chain_def sample_crypto_def
        as_ref_def del: obind_eq_Some)
qed

lemma sample_appends:
  "\<exists>c1 c2. append_all (append_message_k sample_crypto 7) [[1], [2]] sample_context = (Ok (), c1) \<and>
    append_all (append_message_f sample_crypto r 7) [[3]] c1 = (Ok (), c2)"
  by (simp add: append_message_k_def append_message_f_def on_session_def get_session_via_id_def
      upd_session_via_id_def session_append_k_def session_append_f_def digest_append_def
      open_digest_def feed_def upd_th_def mut_cert_digest_def index_panic_def sample_context_def
      SpdmContext_new_def SpdmSession_new_def SpdmSessionRuntimeInfo_default_def
      SpdmRuntimeInfo_default_def sample_crypto_def INVALID_SESSION_ID_def Option.is_none_def Let_def)

lemma sample_buffers:
  "transcript_buffers sample_context (sample_stored MAX_MANAGED_BUFFER_K_SIZE [1, 2])
    (sample_stored MAX_MANAGED_BUFFER_F_SIZE [3])"
  by (simp add: transcript_buffers_def sample_context_def SpdmContext_new_def
      SpdmRuntimeInfo_default_def ManagedBufferA_default_def MAX_MANAGED_BUFFER_K_SIZE_def
      MAX_MANAGED_BUFFER_F_SIZE_def)

theorem rsp_transcript_refines_witness:
  "\<exists>c1 c2 s2.
    append_all (append_message_k sample_crypto 7) [[1], [2]] sample_context = (Ok (), c1) \<and>
    append_all (append_message_f sample_crypto False 7) [[3]] c1 = (Ok (), c2) \<and>
    get_session_via_id c2 7 = Some s2 \<and>
    calc_rsp_transcript_hash sample_crypto c2 (use_psk (session sample_context ! 1)) 0
      (mut_auth_requested (session sample_context ! 1) \<noteq> 0) s2 =
    calc_rsp_transcript_hash_stored sample_crypto sample_context (use_psk (session sample_context ! 1)) 0
      (mut_auth_requested (session sample_context ! 1) \<noteq> 0)
      (sample_stored MAX_MANAGED_BUFFER_K_SIZE [1, 2]) (sample_stored MAX_MANAGED_BUFFER_F_SIZE [3])"
proof -
  from sample_appends obtain c1 c2 where
    app: "append_all (append_message_k sample_crypto 7) [[1], [2]] sample_context = (Ok (), c1)"
      "append_all (append_message_f sample_crypto False 7) [[3]] c1 = (Ok (), c2)" by blast
  from rsp_transcript_refines [OF sample_laws(1) sample_digest_law sample_get sample_start app(1) _
      app(2) _ sample_buffers] app show ?thesis by fastforce
qed

theorem req_transcript_refines_witness:
  "\<exists>c1 c2 s2.
    append_all (append_message_k sample_crypto 7) [[1], [2]] sample_context = (Ok (), c1) \<and>
    append_all (append_message_f sample_crypto True 7) [[3]] c1 = (Ok (), c2) \<and>
    get_session_via_id c2 7 = Some s2 \<and>
    calc_req_transcript_hash sample_crypto c2 (use_psk (session sample_context ! 1)) 0
      (mut_auth_requested (session sample_context ! 1) \<noteq> 0) s2 =
    calc_req_transcript_hash_stored sample_crypto sample_context (use_psk (session sample_context ! 1)) 0
      (mut_auth_requested (session sample_context ! 1) \<noteq> 0)
      (sample_stored MAX_MANAGED_BUFFER_K_SIZE [1, 2]) (sample_stored MAX_MANAGED_BUFFER_F_SIZE [3])"
proof -
  from sample_appends obtain c1 c2 where
    app: "append_all (append_message_k sample_crypto 7) [[1], [2]] sample_context = (Ok (), c1)"
      "append_all (append_message_f sample_crypto True 7) [[3]] c1 = (Ok (), c2)" by blast
  from req_transcript_refines [OF sample_laws(1) sample_digest_law sample_get sample_start app(1) _
      app(2) _ sample_buffers] app show ?thesis by fastforce
qed


text \<open>
  C32: Half session identifiers are fresh. While every used entry of the session table holds the
  half identifier derived from its position, \<open>get_next_half_session_id\<close> succeeds exactly when an entry
  is free; the value it returns is not the reserved value 0, is used by no session, and starting a
  session with it in the first free entry keeps the invariant.
\<close>

theorem next_half_session_id_fresh:
  assumes "half_ids_inv r c"
  shows "((\<exists>h. get_next_half_session_id c r = Ok h) \<longleftrightarrow> \<not> Option.is_none (get_next_avaiable_session c)) \<and>
    (\<forall>h. get_next_half_session_id c r = Ok h \<longrightarrow>
      h \<noteq> INVALID_HALF_SESSION_ID \<and>
      h \<notin> (\<lambda>s. half_session_id r (session_id s)) ` set (session c) \<and>
      (\<forall>sid. half_session_id r sid = h \<longrightarrow>
        half_ids_inv r (upd_session_via_id 0 (\<lambda>s. s\<lparr>session_id := sid\<rparr>) c)))"
proof (intro conjI allI impI)
  show "(\<exists>h. get_next_half_session_id c r = Ok h) \<longleftrightarrow> \<not> Option.is_none (get_next_avaiable_session c)"
    unfolding get_next_half_session_id_def half_ids_take [OF assms] next_half_loop_Ok_iff
      get_next_avaiable_session_def get_session_via_id_def Option.is_none_def find_None_iff
    using half_ids_zero [OF assms] by (metis in_set_conv_nth)
next
  fix h assume "get_next_half_session_id c r = Ok h"
  from next_half_position [OF assms this] obtain j where
    j: "j < length (session c)" "session_id (session c ! j) = 0"
    "\<And>k. k < j \<Longrightarrow> session_id (session c ! k) \<noteq> 0" "h = INITIAL_SESSION_ID - of_nat j" by metis
  have len: "length (session c) = MAX_SPDM_SESSION_COUNT"
    using assms by (simp add: half_ids_inv_def)
  show "h \<noteq> INVALID_HALF_SESSION_ID"
    using j len initial_ids(1) [of j] by (simp add: INVALID_HALF_SESSION_ID_def)
  have "h \<noteq> half_session_id r (session_id (session c ! i))" if "i < length (session c)" for i
  proof (cases "session_id (session c ! i) = 0")
    case False
    with that assms j len initial_ids(2) [of i j] show ?thesis by (auto simp: half_ids_inv_def)
  qed (use j len initial_ids(1) [of j] in simp)
  then show "h \<notin> (\<lambda>s. half_session_id r (session_id s)) ` set (session c)"
    by (metis (no_types, lifting) imageE in_set_conv_nth)
  fix sid assume "half_session_id r sid = h"
  moreover have "session (upd_session_via_id 0 (\<lambda>s. s\<lparr>session_id := sid\<rparr>) c) =
      (session c)[j := (session c ! j)\<lparr>session_id := sid\<rparr>]"
    using j by (simp add: upd_session_via_id_def update_first_nth)
  ultimately show "half_ids_inv r (upd_session_via_id 0 (\<lambda>s. s\<lparr>session_id := sid\<rparr>) c)"
    using j assms by (auto simp: half_ids_inv_def nth_list_update)
qed

theorem next_half_session_id_fresh_witness:
  "half_ids_inv False (SpdmContext_new sample_config (provision_info sample_context)
      :: (SpdmBaseHashAlgo \<times> bytes) SpdmContext) \<and>
    get_next_half_session_id (SpdmContext_new sample_config (provision_info sample_context)
      :: (SpdmBaseHashAlgo \<times> bytes) SpdmContext) False = Ok 0xFFFD \<and>
    half_ids_inv False (upd_session_via_id 0 (\<lambda>s. s\<lparr>session_id := 0xFFFD1234\<rparr>)
      (SpdmContext_new sample_config (provision_info sample_context)
      :: (SpdmBaseHashAlgo \<times> bytes) SpdmContext))"
proof -
  let ?c = "SpdmContext_new sample_config (provision_info sample_context)
      :: (SpdmBaseHashAlgo \<times> bytes) SpdmContext"
  have inv: "half_ids_inv False ?c"
    by (simp add: half_ids_inv_def SpdmContext_new_def SpdmSession_new_def INVALID_SESSION_ID_def)
  moreover have ok: "get_next_half_session_id ?c False = Ok 0xFFFD"
    by (simp add: get_next_half_session_id_def SpdmContext_new_def SpdmSession_new_def
        INVALID_SESSION_ID_def MAX_SPDM_SESSION_COUNT_def config_def numeral_eq_Suc
        INVALID_HALF_SESSION_ID_def) (simp add: INITIAL_SESSION_ID_def)
  moreover have "half_session_id False 0xFFFD1234 = 0xFFFD"
    by (simp add: half_session_id_def Let_def)
  ultimately show ?thesis using next_half_session_id_fresh [OF inv] by blast
qed


text \<open>
  C31: When \<open>construct_my_cert_chain\<close> succeeds, every provisioned slot whose chain was not yet built holds
  the SPDM certificate chain format: its length in little endian, two reserved bytes, the digest of the
  root certificate, then the certificates; slots already built or not provisioned are unchanged, and
  nothing but the chains changes in the context.
\<close>

theorem construct_my_cert_chain_layout:
  assumes "construct_my_cert_chain cr c = (Ok (), c')" and "i < SPDM_MAX_SLOT_NUMBER"
  shows "same_but_chains c c' \<and>
    (case (my_cert_chain (provision_info c) ! i, my_cert_chain_data (provision_info c) ! i) of
      (None, Some cd) \<Rightarrow> \<exists>b. my_cert_chain (provision_info c') ! i = Some b \<and>
        chain_layout cr (base_hash_sel (negotiate_info c)) cd b
    | (x, _) \<Rightarrow> my_cert_chain (provision_info c') ! i = x)"
  using construct_slots [of cr SPDM_MAX_SLOT_NUMBER c c'] assms
  unfolding construct_my_cert_chain_def slot_done_def by blast

definition sample_provision :: SpdmProvisionInfo where
  "sample_provision = \<lparr>my_cert_chain_data =
      [Some \<lparr>data_size = 3, data = [1, 2, 3, 0]\<rparr>, None, None, None, None, None, None, None],
    my_cert_chain = [None, None, None, None, None, None, None, None], peer_root_cert_data = None\<rparr>"

lemma sample_provision_slot:
  assumes "i < 8" "my_cert_chain (provision_info c) = ch" "length ch = 8"
    "my_cert_chain_data (provision_info c) = my_cert_chain_data sample_provision"
  shows "\<exists>b. construct_cert_chain_slot sample_crypto i c = Ok c \<or>
    construct_cert_chain_slot sample_crypto i c =
      Ok (c\<lparr>provision_info := (provision_info c)\<lparr>my_cert_chain := ch[i := b]\<rparr>\<rparr>)"
proof (cases "i = 0 \<and> ch ! i = None")
  case True
  with assms show ?thesis
    by (auto simp: construct_cert_chain_slot_def index_panic_def sample_provision_def sample_crypto_def
        sample_digest_def as_ref_def SpdmCertChainBuffer_capacity_def MAX_SPDM_CERT_CHAIN_DATA_SIZE_def
        config_def Let_def)
next
  case False
  with assms show ?thesis
    by (cases "ch ! i")
      (auto simp: construct_cert_chain_slot_def index_panic_def sample_provision_def nth_Cons')
qed

theorem construct_my_cert_chain_layout_witness:
  "\<exists>b c'. construct_my_cert_chain sample_crypto (SpdmContext_new sample_config sample_provision) = (Ok (), c') \<and>
    my_cert_chain (provision_info c') ! 0 = Some b \<and>
    chain_layout sample_crypto 0 \<lparr>data_size = 3, data = [1, 2, 3, 0]\<rparr> b"
proof -
  let ?c = "SpdmContext_new sample_config sample_provision :: (SpdmBaseHashAlgo \<times> bytes) SpdmContext"
  have run: "\<exists>c'. run_steps (map (construct_cert_chain_slot sample_crypto) is) c = (Ok (), c')"
    if "set is \<subseteq> {..<8}" "length (my_cert_chain (provision_info c)) = 8"
      "my_cert_chain_data (provision_info c) = my_cert_chain_data sample_provision" for "is" c
    using that
  proof (induction "is" arbitrary: c)
    case (Cons i "is")
    with sample_provision_slot [of i c "my_cert_chain (provision_info c)"] show ?case by fastforce
  qed simp
  have "\<exists>c'. construct_my_cert_chain sample_crypto ?c = (Ok (), c')"
    unfolding construct_my_cert_chain_def
    by (rule run) (auto simp: SPDM_MAX_SLOT_NUMBER_def SpdmContext_new_def sample_provision_def)
  then obtain c' where c': "construct_my_cert_chain sample_crypto ?c = (Ok (), c')" by blast
  have "0 < SPDM_MAX_SLOT_NUMBER" by (simp add: SPDM_MAX_SLOT_NUMBER_def)
  from construct_my_cert_chain_layout [OF c' this] c' show ?thesis
    by (auto simp: SpdmContext_new_def sample_provision_def SpdmNegotiateInfo_default_def)
qed

end
