(* ===== verification/Transport.thy ===== *)
theory Transport
  imports Spdm_Context
begin

text \<open>
  The transport layer: the trait \<open>SpdmTransportEncap\<close> of \<open>spdmlib/src/common/mod.rs\<close> as a record of its
  methods, its two implementations \<open>MctpTransportEncap\<close> (\<open>mctp_transport/src/header.rs\<close>) and
  \<open>PciDoeTransportEncap\<close> (\<open>pcidoe_transport/src/header.rs\<close>), and the methods of \<open>SpdmContext\<close> that combine
  the transport with the secured messages of a session.

  \<^item> Both implementations are structs without fields, so the methods carry no state. A method that
    writes into a caller's buffer returns the buffer as it leaves it, also on failure.
  \<^item> The locale \<open>transport_layer\<close> is the contract the library relies on; it is interpreted for the
    message and the application layer of both transports.
\<close>

section \<open>Definitions\<close>

record transport =
  t_encap :: "bytes \<Rightarrow> bytes \<Rightarrow> bool \<Rightarrow> nat SpdmResult \<times> bytes"
  t_decap :: "bytes \<Rightarrow> bytes \<Rightarrow> (nat \<times> bool) SpdmResult \<times> bytes"
  t_encap_app :: "bytes \<Rightarrow> bytes \<Rightarrow> bool \<Rightarrow> nat SpdmResult \<times> bytes"
  t_decap_app :: "bytes \<Rightarrow> bytes \<Rightarrow> (nat \<times> bool) SpdmResult \<times> bytes"
  t_get_sequence_number_count :: u8
  t_get_max_random_count :: u16

subsection \<open>MCTP\<close>

datatype MctpMessageType =
    MctpMessageTypeMctpControl
  | MctpMessageTypePldm
  | MctpMessageTypeNcsi
  | MctpMessageTypeEthernet
  | MctpMessageTypeNvme
  | MctpMessageTypeSpdm
  | MctpMessageTypeSecuredMctp
  | MctpMessageTypeVendorDefinedPci
  | MctpMessageTypeVendorDefinedIana
  | MctpMessageTypeUnknown u8

fun MctpMessageType_get_u8 :: "MctpMessageType \<Rightarrow> u8" where
  "MctpMessageType_get_u8 MctpMessageTypeMctpControl = 0x00"
| "MctpMessageType_get_u8 MctpMessageTypePldm = 0x01"
| "MctpMessageType_get_u8 MctpMessageTypeNcsi = 0x02"
| "MctpMessageType_get_u8 MctpMessageTypeEthernet = 0x03"
| "MctpMessageType_get_u8 MctpMessageTypeNvme = 0x04"
| "MctpMessageType_get_u8 MctpMessageTypeSpdm = 0x05"
| "MctpMessageType_get_u8 MctpMessageTypeSecuredMctp = 0x06"
| "MctpMessageType_get_u8 MctpMessageTypeVendorDefinedPci = 0x7E"
| "MctpMessageType_get_u8 MctpMessageTypeVendorDefinedIana = 0x7F"
| "MctpMessageType_get_u8 (MctpMessageTypeUnknown x) = x"

definition MctpMessageType_of_u8 :: "u8 \<Rightarrow> MctpMessageType" where
  "MctpMessageType_of_u8 x =
    (if x = 0x00 then MctpMessageTypeMctpControl
     else if x = 0x01 then MctpMessageTypePldm
     else if x = 0x02 then MctpMessageTypeNcsi
     else if x = 0x03 then MctpMessageTypeEthernet
     else if x = 0x04 then MctpMessageTypeNvme
     else if x = 0x05 then MctpMessageTypeSpdm
     else if x = 0x06 then MctpMessageTypeSecuredMctp
     else if x = 0x7E then MctpMessageTypeVendorDefinedPci
     else if x = 0x7F then MctpMessageTypeVendorDefinedIana
     else MctpMessageTypeUnknown x)"

definition MctpMessageHeader_encode :: "MctpMessageType \<Rightarrow> EncodeErr enc" where
  "MctpMessageHeader_encode t = enum_u8_encode MctpMessageType_get_u8 t"

definition MctpMessageHeader_read :: "MctpMessageType rd" where
  "MctpMessageHeader_read = enum_u8_read MctpMessageType_of_u8"

text \<open>
  The common part of \<open>encap\<close> and \<open>encap_app\<close>: write the header, check the room, copy the payload. The
  payload occupies \<open>span\<close> bytes of the frame, of which the copy fills the first ones.
\<close>

definition put_frame ::
    "EncodeErr enc \<Rightarrow> SpdmStatus \<Rightarrow> bytes \<Rightarrow> nat \<Rightarrow> bytes \<Rightarrow> nat SpdmResult \<times> bytes" where
  "put_frame header e payload span buf =
    (case header (writer_init buf) of
      (Err _, w) \<Rightarrow> (Err e, w_buf w)
    | (Panic, w) \<Rightarrow> (Panic, w_buf w)
    | (Ok _, w) \<Rightarrow>
        (let header_size = writer_used w
         in if length (w_buf w) < header_size + span then (Err e, w_buf w)
            else (Ok (header_size + span), write_at (w_buf w) header_size payload)))"

definition mctp_encap :: "bytes \<Rightarrow> bytes \<Rightarrow> bool \<Rightarrow> nat SpdmResult \<times> bytes" where
  "mctp_encap spdm_buffer transport_buffer secured_message =
    put_frame (MctpMessageHeader_encode
        (if secured_message then MctpMessageTypeSecuredMctp else MctpMessageTypeSpdm))
      SPDM_STATUS_ENCAP_FAIL spdm_buffer (length spdm_buffer) transport_buffer"

definition mctp_decap :: "bytes \<Rightarrow> bytes \<Rightarrow> (nat \<times> bool) SpdmResult \<times> bytes" where
  "mctp_decap transport_buffer spdm_buffer =
    (case MctpMessageHeader_read (reader_init transport_buffer) of
      None \<Rightarrow> (Err SPDM_STATUS_DECAP_FAIL, spdm_buffer)
    | Some (t, r) \<Rightarrow>
        if t \<noteq> MctpMessageTypeSpdm \<and> t \<noteq> MctpMessageTypeSecuredMctp
        then (Err SPDM_STATUS_DECAP_FAIL, spdm_buffer)
        else
          (let header_size = reader_used r;
               payload_size = length transport_buffer - header_size
           in if length spdm_buffer < payload_size then (Err SPDM_STATUS_DECAP_FAIL, spdm_buffer)
              else (Ok (payload_size, t = MctpMessageTypeSecuredMctp),
                write_at spdm_buffer 0 (drop header_size transport_buffer))))"

definition mctp_encap_app :: "bytes \<Rightarrow> bytes \<Rightarrow> bool \<Rightarrow> nat SpdmResult \<times> bytes" where
  "mctp_encap_app spdm_buffer app_buffer is_app_message =
    put_frame (MctpMessageHeader_encode
        (if is_app_message then MctpMessageTypePldm else MctpMessageTypeSpdm))
      SPDM_STATUS_ENCAP_APP_FAIL spdm_buffer (length spdm_buffer) app_buffer"

definition mctp_decap_app :: "bytes \<Rightarrow> bytes \<Rightarrow> (nat \<times> bool) SpdmResult \<times> bytes" where
  "mctp_decap_app app_buffer spdm_buffer =
    (case MctpMessageHeader_read (reader_init app_buffer) of
      None \<Rightarrow> (Err SPDM_STATUS_DECAP_APP_FAIL, spdm_buffer)
    | Some (t, r) \<Rightarrow>
        if t \<noteq> MctpMessageTypeSpdm \<and> t \<noteq> MctpMessageTypePldm
        then (Err SPDM_STATUS_DECAP_APP_FAIL, spdm_buffer)
        else
          (let header_size = reader_used r;
               payload_size = length app_buffer - header_size
           in if length spdm_buffer < payload_size then (Err SPDM_STATUS_DECAP_APP_FAIL, spdm_buffer)
              else (Ok (payload_size, t = MctpMessageTypePldm),
                write_at spdm_buffer 0 (drop header_size app_buffer))))"

definition MctpTransportEncap :: transport where
  "MctpTransportEncap = \<lparr>
    t_encap = mctp_encap, t_decap = mctp_decap,
    t_encap_app = mctp_encap_app, t_decap_app = mctp_decap_app,
    t_get_sequence_number_count = 2, t_get_max_random_count = 32\<rparr>"

subsection \<open>PCI DOE\<close>

datatype PciDoeVendorId =
    PciDoeVendorIdPciSig
  | PciDoeVendorIdUnknown u16

fun PciDoeVendorId_get_u16 :: "PciDoeVendorId \<Rightarrow> u16" where
  "PciDoeVendorId_get_u16 PciDoeVendorIdPciSig = 0x0001"
| "PciDoeVendorId_get_u16 (PciDoeVendorIdUnknown x) = x"

definition PciDoeVendorId_of_u16 :: "u16 \<Rightarrow> PciDoeVendorId" where
  "PciDoeVendorId_of_u16 x = (if x = 0x0001 then PciDoeVendorIdPciSig else PciDoeVendorIdUnknown x)"

datatype PciDoeDataObjectType =
    PciDoeDataObjectTypeDoeDiscovery
  | PciDoeDataObjectTypeSpdm
  | PciDoeDataObjectTypeSecuredSpdm
  | PciDoeDataObjectTypeUnknown u8

fun PciDoeDataObjectType_get_u8 :: "PciDoeDataObjectType \<Rightarrow> u8" where
  "PciDoeDataObjectType_get_u8 PciDoeDataObjectTypeDoeDiscovery = 0x00"
| "PciDoeDataObjectType_get_u8 PciDoeDataObjectTypeSpdm = 0x01"
| "PciDoeDataObjectType_get_u8 PciDoeDataObjectTypeSecuredSpdm = 0x02"
| "PciDoeDataObjectType_get_u8 (PciDoeDataObjectTypeUnknown x) = x"

definition PciDoeDataObjectType_of_u8 :: "u8 \<Rightarrow> PciDoeDataObjectType" where
  "PciDoeDataObjectType_of_u8 x =
    (if x = 0x00 then PciDoeDataObjectTypeDoeDiscovery
     else if x = 0x01 then PciDoeDataObjectTypeSpdm
     else if x = 0x02 then PciDoeDataObjectTypeSecuredSpdm
     else PciDoeDataObjectTypeUnknown x)"

record PciDoeMessageHeader =
  vendor_id :: PciDoeVendorId
  data_object_type :: PciDoeDataObjectType
  payload_length :: u32

definition doe_length_encode :: "u32 \<Rightarrow> EncodeErr enc" where
  "doe_length_encode n w =
    (let len = drop_bit 2 (n + 8)
     in if len > 0x40000 then (Panic, w)
        else u32_encode (if len = 0x40000 then 0 else len) w)"

definition PciDoeMessageHeader_encode :: "PciDoeMessageHeader \<Rightarrow> EncodeErr enc" where
  "PciDoeMessageHeader_encode h = encs
    [enum_u16_encode PciDoeVendorId_get_u16 (vendor_id h),
     enum_u8_encode PciDoeDataObjectType_get_u8 (data_object_type h),
     u8_encode 0,
     doe_length_encode (payload_length h)]"

definition PciDoeMessageHeader_read :: "PciDoeMessageHeader rd" where
  "PciDoeMessageHeader_read r = do {
     (v, r) \<leftarrow> enum_u16_read PciDoeVendorId_of_u16 r;
     (t, r) \<leftarrow> enum_u8_read PciDoeDataObjectType_of_u8 r;
     (_, r) \<leftarrow> u8_read r;
     (len, r) \<leftarrow> u32_read r;
     (let len = len AND 0x3ffff;
          len = (if len = 0 then 0x40000 else len)
      in if len < 2 then None
         else if push_bit 2 len < 8 then None
         else Some (\<lparr>vendor_id = v, data_object_type = t, payload_length = push_bit 2 len - 8\<rparr>, r))
   }"

definition doe_encap :: "bytes \<Rightarrow> bytes \<Rightarrow> bool \<Rightarrow> nat SpdmResult \<times> bytes" where
  "doe_encap spdm_buffer transport_buffer secured_message =
    (let payload_len = length spdm_buffer;
         aligned_payload_len = (payload_len + 3) div 4 * 4
     in put_frame (PciDoeMessageHeader_encode \<lparr>
            vendor_id = PciDoeVendorIdPciSig,
            data_object_type =
              (if secured_message then PciDoeDataObjectTypeSecuredSpdm else PciDoeDataObjectTypeSpdm),
            payload_length = of_nat aligned_payload_len\<rparr>)
          SPDM_STATUS_ENCAP_FAIL spdm_buffer aligned_payload_len transport_buffer)"

definition doe_decap :: "bytes \<Rightarrow> bytes \<Rightarrow> (nat \<times> bool) SpdmResult \<times> bytes" where
  "doe_decap transport_buffer spdm_buffer =
    (case PciDoeMessageHeader_read (reader_init transport_buffer) of
      None \<Rightarrow> (Err SPDM_STATUS_DECAP_FAIL, spdm_buffer)
    | Some (h, r) \<Rightarrow>
        if vendor_id h \<noteq> PciDoeVendorIdPciSig then (Err SPDM_STATUS_DECAP_FAIL, spdm_buffer)
        else if data_object_type h \<noteq> PciDoeDataObjectTypeSpdm
          \<and> data_object_type h \<noteq> PciDoeDataObjectTypeSecuredSpdm
        then (Err SPDM_STATUS_DECAP_FAIL, spdm_buffer)
        else
          (let header_size = reader_used r;
               payload_size = unat (payload_length h)
           in if length transport_buffer < header_size + payload_size
              then (Err SPDM_STATUS_DECAP_FAIL, spdm_buffer)
              else if length spdm_buffer < payload_size
              then (Err SPDM_STATUS_DECAP_FAIL, spdm_buffer)
              else (Ok (payload_size, data_object_type h = PciDoeDataObjectTypeSecuredSpdm),
                write_at spdm_buffer 0 (slice transport_buffer header_size (header_size + payload_size)))))"

definition doe_encap_app :: "bytes \<Rightarrow> bytes \<Rightarrow> bool \<Rightarrow> nat SpdmResult \<times> bytes" where
  "doe_encap_app spdm_buffer app_buffer is_app_message =
    (if length app_buffer < length spdm_buffer then (Panic, app_buffer)
     else (Ok (length spdm_buffer), write_at app_buffer 0 spdm_buffer))"

definition doe_decap_app :: "bytes \<Rightarrow> bytes \<Rightarrow> (nat \<times> bool) SpdmResult \<times> bytes" where
  "doe_decap_app app_buffer spdm_buffer =
    (if length spdm_buffer < length app_buffer then (Panic, spdm_buffer)
     else (Ok (length app_buffer, False), write_at spdm_buffer 0 app_buffer))"

definition PciDoeTransportEncap :: transport where
  "PciDoeTransportEncap = \<lparr>
    t_encap = doe_encap, t_decap = doe_decap,
    t_encap_app = doe_encap_app, t_decap_app = doe_decap_app,
    t_get_sequence_number_count = 0, t_get_max_random_count = 0\<rparr>"

subsection \<open>Transport and session\<close>

definition encap :: "transport \<Rightarrow> bytes \<Rightarrow> bytes \<Rightarrow> nat SpdmResult \<times> bytes" where
  "encap tr send_buffer transport_buffer = t_encap tr send_buffer transport_buffer False"

definition decap :: "transport \<Rightarrow> bytes \<Rightarrow> bytes \<Rightarrow> nat SpdmResult \<times> bytes" where
  "decap tr transport_buffer receive_buffer =
    (case t_decap tr transport_buffer receive_buffer of
      (r, b) \<Rightarrow> (rbind r (\<lambda>(used, secured). if secured then Err SPDM_STATUS_DECAP_FAIL else Ok used), b))"

definition encode_secured_message ::
    "'h crypto \<Rightarrow> transport \<Rightarrow> u32 \<Rightarrow> bytes \<Rightarrow> bytes \<Rightarrow> bool \<Rightarrow> bool \<Rightarrow> 'h SpdmContext \<Rightarrow>
      (nat SpdmResult \<times> bytes) \<times> 'h SpdmContext" where
  "encode_secured_message cr tr sid send_buffer transport_buffer is_requester is_app c =
    (case t_encap_app tr send_buffer (replicate SENDER_BUFFER_SIZE 0) is_app of
      (Err e, _) \<Rightarrow> ((Err e, transport_buffer), c)
    | (Panic, _) \<Rightarrow> ((Panic, transport_buffer), c)
    | (Ok used, app_buffer) \<Rightarrow>
        (case on_session sid (Err SPDM_STATUS_INVALID_PARAMETER)
            (encode_spdm_secured_message cr (slice app_buffer 0 used) SENDER_BUFFER_SIZE is_requester) c of
          (Ok encoded, c') \<Rightarrow> (t_encap tr encoded transport_buffer True, c')
        | (Err e, c') \<Rightarrow> ((Err e, transport_buffer), c')
        | (Panic, c') \<Rightarrow> ((Panic, transport_buffer), c')))"

definition decode_secured_message ::
    "'h crypto \<Rightarrow> transport \<Rightarrow> u32 \<Rightarrow> bytes \<Rightarrow> bytes \<Rightarrow> 'h SpdmContext \<Rightarrow>
      (nat SpdmResult \<times> bytes) \<times> 'h SpdmContext" where
  "decode_secured_message cr tr sid transport_buffer receive_buffer c =
    (case t_decap tr transport_buffer (replicate RECEIVER_BUFFER_SIZE 0) of
      (Err e, _) \<Rightarrow> ((Err e, receive_buffer), c)
    | (Panic, _) \<Rightarrow> ((Panic, receive_buffer), c)
    | (Ok (used, secured), encoded) \<Rightarrow>
        if \<not> secured then ((Err SPDM_STATUS_DECAP_FAIL, receive_buffer), c)
        else
          (case on_session sid (Err SPDM_STATUS_INVALID_PARAMETER)
              (decode_spdm_secured_message cr (slice encoded 0 used) RECEIVER_BUFFER_SIZE False) c of
            (Ok app, c') \<Rightarrow>
              (case t_decap_app tr app receive_buffer of
                (r, b) \<Rightarrow> ((rbind r (\<lambda>(used, _). Ok used), b), c'))
          | (Err e, c') \<Rightarrow> ((Err e, receive_buffer), c')
          | (Panic, c') \<Rightarrow> ((Panic, receive_buffer), c')))"

subsection \<open>The contract of a transport layer\<close>

definition aligned :: "nat \<Rightarrow> nat \<Rightarrow> nat" where
  "aligned align n = (n + (align - 1)) div align * align"

locale transport_layer =
  fixes enc :: "bytes \<Rightarrow> bytes \<Rightarrow> bool \<Rightarrow> nat SpdmResult \<times> bytes"
    and dec :: "bytes \<Rightarrow> bytes \<Rightarrow> (nat \<times> bool) SpdmResult \<times> bytes"
    and flag :: "bool \<Rightarrow> bool"
    and align :: nat and overhead :: nat and limit :: nat
  assumes enc_fits: "length s \<le> limit \<Longrightarrow> overhead + aligned align (length s) \<le> length buf \<Longrightarrow>
      \<exists>buf'. enc s buf f = (Ok (overhead + aligned align (length s)), buf') \<and> length buf' = length buf"
    and enc_Ok: "length s \<le> limit \<Longrightarrow> enc s buf f = (Ok n, buf') \<Longrightarrow>
      n = overhead + aligned align (length s) \<and> n \<le> length buf"
    and dec_enc: "length s \<le> limit \<Longrightarrow> enc s buf f = (Ok n, buf') \<Longrightarrow>
      aligned align (length s) \<le> length out \<Longrightarrow>
      \<exists>pad. dec (take n buf') out = (Ok (aligned align (length s), flag f),
          s @ pad @ drop (aligned align (length s)) out) \<and>
        length (s @ pad) = aligned align (length s)"

section \<open>Frames\<close>

lemma put_frame_fits:
  assumes "emits header img" "length payload \<le> span" "length img + span \<le> length buf"
  shows "put_frame header e payload span buf =
    (Ok (length img + span), img @ payload @ drop (length img + length payload) buf)"
proof -
  have "header (writer_init buf) = (Ok (length img), wr_at img (drop (length img) buf))"
    using emits_Ok [OF assms(1), of buf "[]"] assms(3) by (simp add: writer_init_wr_at)
  with assms show ?thesis
    by (simp add: put_frame_def Let_def write_at_eq) (simp add: wr_at_def add.commute)
qed

lemma put_frame_short:
  assumes "emits header img" "length buf < length img + span"
  shows "\<exists>b. put_frame header e payload span buf = (Err e, b)"
proof (cases "length img \<le> length buf")
  case True
  then have "header (writer_init buf) = (Ok (length img), wr_at img (drop (length img) buf))"
    using emits_Ok [OF assms(1), of buf "[]"] by (simp add: writer_init_wr_at)
  with True assms show ?thesis by (simp add: put_frame_def Let_def) (simp add: wr_at_def)
next
  case False
  then obtain x k where "header (writer_init buf) = (Err x, wr_at (take k img) (drop k buf))"
    using emits_Err [OF assms(1), of buf "[]"]
    by (metis append_Nil not_le writer_init_wr_at)
  then show ?thesis by (simp add: put_frame_def)
qed

section \<open>MCTP\<close>

lemma MctpMessageType_get_of [simp]: "MctpMessageType_get_u8 (MctpMessageType_of_u8 v) = v"
  by (simp add: MctpMessageType_of_u8_def)

interpretation e_mctp: enum_u8 MctpMessageType_get_u8 MctpMessageType_of_u8
  by unfold_locales simp

lemma mctp_header:
  "emits (MctpMessageHeader_encode t) [MctpMessageType_get_u8 t]"
  "MctpMessageHeader_read (reader_init (b # bs)) = Some (MctpMessageType_of_u8 b, rd_at [b] bs)"
  by (simp_all add: MctpMessageHeader_encode_def MctpMessageHeader_read_def enum_u8_encode_def
      enum_u8_read_def emits_u8 reader_init_rd_at)

lemma aligned_1 [simp]: "aligned (Suc 0) n = n" "aligned 1 n = n"
  by (simp_all add: aligned_def)

lemma mctp_encap_cases:
  "mctp_encap s buf f = (Ok n, buf') \<Longrightarrow> n = Suc (length s) \<and> n \<le> length buf \<and>
    buf' = (if f then 6 else 5) # s @ drop (Suc (length s)) buf"
  "Suc (length s) \<le> length buf \<Longrightarrow> mctp_encap s buf f =
    (Ok (Suc (length s)), (if f then 6 else 5) # s @ drop (Suc (length s)) buf)"
proof -
  let ?h = "MctpMessageHeader_encode (if f then MctpMessageTypeSecuredMctp else MctpMessageTypeSpdm)"
  have e: "emits ?h [if f then 6 else 5]" using mctp_header(1) [of MctpMessageTypeSecuredMctp]
      mctp_header(1) [of MctpMessageTypeSpdm] by simp
  show *: "Suc (length s) \<le> length buf \<Longrightarrow> mctp_encap s buf f =
    (Ok (Suc (length s)), (if f then 6 else 5) # s @ drop (Suc (length s)) buf)"
    using put_frame_fits [OF e, of s "length s" buf] by (simp add: mctp_encap_def)
  show "mctp_encap s buf f = (Ok n, buf') \<Longrightarrow> n = Suc (length s) \<and> n \<le> length buf \<and>
    buf' = (if f then 6 else 5) # s @ drop (Suc (length s)) buf"
    using put_frame_short [OF e, of buf "length s" SPDM_STATUS_ENCAP_FAIL s] *
    by (cases "Suc (length s) \<le> length buf") (auto simp: mctp_encap_def)
qed

lemma mctp_encap_app_cases:
  "mctp_encap_app s buf f = (Ok n, buf') \<Longrightarrow> n = Suc (length s) \<and> n \<le> length buf \<and>
    buf' = (if f then 1 else 5) # s @ drop (Suc (length s)) buf"
  "Suc (length s) \<le> length buf \<Longrightarrow> mctp_encap_app s buf f =
    (Ok (Suc (length s)), (if f then 1 else 5) # s @ drop (Suc (length s)) buf)"
proof -
  let ?h = "MctpMessageHeader_encode (if f then MctpMessageTypePldm else MctpMessageTypeSpdm)"
  have e: "emits ?h [if f then 1 else 5]" using mctp_header(1) [of MctpMessageTypePldm]
      mctp_header(1) [of MctpMessageTypeSpdm] by simp
  show *: "Suc (length s) \<le> length buf \<Longrightarrow> mctp_encap_app s buf f =
    (Ok (Suc (length s)), (if f then 1 else 5) # s @ drop (Suc (length s)) buf)"
    using put_frame_fits [OF e, of s "length s" buf] by (simp add: mctp_encap_app_def)
  show "mctp_encap_app s buf f = (Ok n, buf') \<Longrightarrow> n = Suc (length s) \<and> n \<le> length buf \<and>
    buf' = (if f then 1 else 5) # s @ drop (Suc (length s)) buf"
    using put_frame_short [OF e, of buf "length s" SPDM_STATUS_ENCAP_APP_FAIL s] *
    by (cases "Suc (length s) \<le> length buf") (auto simp: mctp_encap_app_def)
qed

lemma mctp_decap_frame:
  "length s \<le> length out \<Longrightarrow>
    mctp_decap ((if f then 6 else 5) # s) out = (Ok (length s, f), s @ drop (length s) out)"
  "length s \<le> length out \<Longrightarrow>
    mctp_decap_app ((if f then 1 else 5) # s) out = (Ok (length s, f), s @ drop (length s) out)"
  by (auto simp: mctp_decap_def mctp_decap_app_def mctp_header MctpMessageType_of_u8_def Let_def
      write_at_eq)

interpretation tl_mctp: transport_layer mctp_encap mctp_decap "\<lambda>f. f" 1 1 L for L
proof unfold_locales
  fix s buf out :: bytes and n buf' f
  assume e: "mctp_encap s buf f = (Ok n, buf')" and "aligned 1 (length s) \<le> length out"
  with mctp_decap_frame(1) [of s out f] show "\<exists>pad. mctp_decap (take n buf') out =
      (Ok (aligned 1 (length s), f), s @ pad @ drop (aligned 1 (length s)) out) \<and>
      length (s @ pad) = aligned 1 (length s)"
    by (auto dest!: mctp_encap_cases(1) intro!: exI [of _ "[]"])
qed (auto simp: mctp_encap_cases(2) dest!: mctp_encap_cases(1))

interpretation tl_mctp_app: transport_layer mctp_encap_app mctp_decap_app "\<lambda>f. f" 1 1 L for L
proof unfold_locales
  fix s buf out :: bytes and n buf' f
  assume e: "mctp_encap_app s buf f = (Ok n, buf')" and "aligned 1 (length s) \<le> length out"
  with mctp_decap_frame(2) [of s out f] show "\<exists>pad. mctp_decap_app (take n buf') out =
      (Ok (aligned 1 (length s), f), s @ pad @ drop (aligned 1 (length s)) out) \<and>
      length (s @ pad) = aligned 1 (length s)"
    by (auto dest!: mctp_encap_app_cases(1) intro!: exI [of _ "[]"])
qed (auto simp: mctp_encap_app_cases(2) dest!: mctp_encap_app_cases(1))

section \<open>PCI DOE\<close>

lemma PciDoeVendorId_get_of [simp]: "PciDoeVendorId_get_u16 (PciDoeVendorId_of_u16 v) = v"
  by (simp add: PciDoeVendorId_of_u16_def)

lemma PciDoeDataObjectType_get_of [simp]:
  "PciDoeDataObjectType_get_u8 (PciDoeDataObjectType_of_u8 v) = v"
  by (simp add: PciDoeDataObjectType_of_u8_def)

interpretation e_doe_vendor: enum_u16 PciDoeVendorId_get_u16 PciDoeVendorId_of_u16
  by unfold_locales simp

interpretation e_doe_type: enum_u8 PciDoeDataObjectType_get_u8 PciDoeDataObjectType_of_u8
  by unfold_locales simp

definition doe_length :: "u32 \<Rightarrow> u32" where
  "doe_length n = (let len = drop_bit 2 (n + 8) in if len = 0x40000 then 0 else len)"

definition doe_length_ok :: "u32 \<Rightarrow> bool" where
  "doe_length_ok n \<longleftrightarrow> unat n mod 4 = 0 \<and> unat n \<le> 0xFFFF8"

lemma doe_words:
  assumes "doe_length_ok n"
  shows "unat (drop_bit 2 (n + 8)) = unat n div 4 + 2" and "drop_bit 2 (n + 8) \<le> 0x40000"
proof -
  have "unat (n + 8) = unat n + 8"
    using assms by (subst unat_add_lem [THEN iffD1]) (auto simp: doe_length_ok_def)
  then show *: "unat (drop_bit 2 (n + 8)) = unat n div 4 + 2"
    by (simp add: drop_bit_eq_div unat_div)
  have "unat n div 4 \<le> 0x3FFFE" using assms by (auto simp: doe_length_ok_def)
  with * show "drop_bit 2 (n + 8) \<le> 0x40000" by (simp add: word_le_nat_alt)
qed

lemma doe_length_emits:
  assumes "doe_length_ok n"
  shows "emits (doe_length_encode n) (le_bytes 4 (doe_length n))"
proof -
  have "\<not> drop_bit 2 (n + 8) > 0x40000" using doe_words(2) [OF assms] by simp
  then have "doe_length_encode n = u32_encode (doe_length n)"
    by (simp add: fun_eq_iff doe_length_encode_def doe_length_def Let_def)
  then show ?thesis by (simp add: emits_u32)
qed

lemma doe_length_decode:
  assumes "doe_length_ok n"
  shows "(if doe_length n AND 0x3ffff = 0 then 0x40000 else doe_length n AND 0x3ffff) = drop_bit 2 (n + 8)"
    and "\<not> drop_bit 2 (n + 8) < 2" and "\<not> push_bit 2 (drop_bit 2 (n + 8)) < 8"
    and "push_bit 2 (drop_bit 2 (n + 8)) - 8 = n"
proof -
  let ?l = "drop_bit 2 (n + 8)"
  note u = doe_words(1) [OF assms]
  have m: "unat n = 4 * (unat n div 4)" and le: "unat n div 4 \<le> 0x3FFFE"
    using assms by (auto simp: doe_length_ok_def)
  have mask: "(0x3ffff :: u32) = mask 18" by (simp add: mask_eq_exp_minus_1)
  have and_eq: "x AND 0x3ffff = x" if "unat x < 2 ^ 18" for x :: u32
  proof -
    have "x AND 0x3ffff = take_bit 18 x" unfolding mask by (simp add: take_bit_eq_mask)
    moreover have "unat (take_bit 18 x) = unat x"
      using that by (simp only: unsigned_take_bit_eq take_bit_nat_eq_self)
    ultimately show ?thesis by (metis word_unat_eq_iff)
  qed
  have ne: "?l \<noteq> 0" using u by (metis add_is_0 unat_0 zero_neq_numeral)
  show "(if doe_length n AND 0x3ffff = 0 then 0x40000 else doe_length n AND 0x3ffff) = ?l"
  proof (cases "?l = 0x40000")
    case False
    then have "unat ?l \<noteq> 0x40000" by (simp add: word_unat_eq_iff)
    with u le have "unat ?l < 2 ^ 18" by simp
    with False ne and_eq [of ?l] show ?thesis by (simp add: doe_length_def Let_def)
  qed (simp add: doe_length_def Let_def)
  show "\<not> ?l < 2" using u by (simp add: word_less_nat_alt)
  have p: "unat (push_bit 2 ?l) = unat n + 8"
    using u m le by (simp add: push_bit_eq_mult unat_mult_lem [THEN iffD1] mult.commute)
  then show "\<not> push_bit 2 ?l < 8" by (simp add: word_less_nat_alt)
  then have "unat (push_bit 2 ?l - 8) = unat n"
    using p by (simp add: unat_sub word_le_nat_alt)
  then show "push_bit 2 ?l - 8 = n" by (simp only: word_unat_eq_iff)
qed

definition doe_image :: "PciDoeMessageHeader \<Rightarrow> bytes" where
  "doe_image h = le_bytes 2 (PciDoeVendorId_get_u16 (vendor_id h)) @
    [PciDoeDataObjectType_get_u8 (data_object_type h), 0] @ le_bytes 4 (doe_length (payload_length h))"

definition doe_valid :: "PciDoeMessageHeader \<Rightarrow> bool" where
  "doe_valid h \<longleftrightarrow> doe_length_ok (payload_length h) \<and>
    PciDoeVendorId_of_u16 (PciDoeVendorId_get_u16 (vendor_id h)) = vendor_id h \<and>
    PciDoeDataObjectType_of_u8 (PciDoeDataObjectType_get_u8 (data_object_type h)) = data_object_type h"

lemma length_doe_image [simp]: "length (doe_image h) = 8"
  by (simp add: doe_image_def)

interpretation c_doe: codec PciDoeMessageHeader_encode PciDoeMessageHeader_read doe_image doe_valid
proof unfold_locales
  fix h assume v: "doe_valid h"
  then have "emits (PciDoeMessageHeader_encode h) (concat
    [le_bytes 2 (PciDoeVendorId_get_u16 (vendor_id h)),
     [PciDoeDataObjectType_get_u8 (data_object_type h)], [0], le_bytes 4 (doe_length (payload_length h))])"
    unfolding PciDoeMessageHeader_encode_def
    by (intro emits_encs)
      (simp add: enum_u16_encode_def enum_u8_encode_def emits_u16 emits_u8 doe_length_emits doe_valid_def)
  then show "emits (PciDoeMessageHeader_encode h) (doe_image h)" by (simp add: doe_image_def)
  fix pre post
  show "PciDoeMessageHeader_read (rd_at pre (doe_image h @ post)) = Some (h, rd_at (pre @ doe_image h) post)"
    using v doe_length_decode [of "payload_length h"]
    by (simp add: PciDoeMessageHeader_read_def doe_image_def doe_valid_def enum_u16_read_def
        enum_u8_read_def Let_def)
qed

abbreviation doe_header :: "bool \<Rightarrow> nat \<Rightarrow> PciDoeMessageHeader" where
  "doe_header f n \<equiv> \<lparr>vendor_id = PciDoeVendorIdPciSig,
    data_object_type =
      (if f then PciDoeDataObjectTypeSecuredSpdm else PciDoeDataObjectTypeSpdm),
    payload_length = of_nat n\<rparr>"

lemma aligned_4: "aligned 4 n mod 4 = 0" "n \<le> aligned 4 n" "n \<le> 0xFFFF8 \<Longrightarrow> aligned 4 n \<le> 0xFFFF8"
  by (auto simp: aligned_def)

lemma doe_header_valid:
  assumes "n \<le> 0xFFFF8"
  shows "doe_valid (doe_header f (aligned 4 n))"
    and "unat (of_nat (aligned 4 n) :: u32) = aligned 4 n"
proof -
  show *: "unat (of_nat (aligned 4 n) :: u32) = aligned 4 n"
    using aligned_4(3) [OF assms] by (simp add: unsigned_of_nat take_bit_nat_eq_self)
  show "doe_valid (doe_header f (aligned 4 n))"
    using aligned_4(3) [OF assms]
    by (simp add: doe_valid_def doe_length_ok_def * aligned_4(1) PciDoeVendorId_of_u16_def
        PciDoeDataObjectType_of_u8_def)
qed

lemma doe_encap_eq:
  "doe_encap s buf f =
    put_frame (PciDoeMessageHeader_encode (doe_header f (aligned 4 (length s))))
      SPDM_STATUS_ENCAP_FAIL s (aligned 4 (length s)) buf"
  by (simp add: doe_encap_def aligned_def Let_def)

lemma doe_encap_cases:
  assumes "length s \<le> 0xFFFF8"
  shows "doe_encap s buf f = (Ok n, buf') \<Longrightarrow> n = 8 + aligned 4 (length s) \<and> n \<le> length buf \<and>
      buf' = doe_image (doe_header f (aligned 4 (length s))) @ s @ drop (8 + length s) buf"
    and "8 + aligned 4 (length s) \<le> length buf \<Longrightarrow> doe_encap s buf f = (Ok (8 + aligned 4 (length s)),
      doe_image (doe_header f (aligned 4 (length s))) @ s @ drop (8 + length s) buf)"
proof -
  note e = c_doe.encode_emits [OF doe_header_valid(1) [OF assms, of f]]
  show *: "8 + aligned 4 (length s) \<le> length buf \<Longrightarrow> doe_encap s buf f = (Ok (8 + aligned 4 (length s)),
      doe_image (doe_header f (aligned 4 (length s))) @ s @ drop (8 + length s) buf)"
    using put_frame_fits [OF e aligned_4(2)] by (simp add: doe_encap_eq)
  show "doe_encap s buf f = (Ok n, buf') \<Longrightarrow> n = 8 + aligned 4 (length s) \<and> n \<le> length buf \<and>
      buf' = doe_image (doe_header f (aligned 4 (length s))) @ s @ drop (8 + length s) buf"
    using put_frame_short [OF e, of buf "aligned 4 (length s)" SPDM_STATUS_ENCAP_FAIL s] *
    by (cases "8 + aligned 4 (length s) \<le> length buf") (auto simp: doe_encap_eq)
qed

lemma doe_decap_frame:
  assumes "n \<le> 0xFFFF8" "length p = aligned 4 n" "aligned 4 n \<le> length out"
  shows "doe_decap (doe_image (doe_header f (aligned 4 n)) @ p) out =
    (Ok (aligned 4 n, f), p @ drop (aligned 4 n) out)"
  using c_doe.read_image [OF doe_header_valid(1) [OF assms(1), of f], of "[]" p] assms
    doe_header_valid(2) [OF assms(1)]
  by (simp add: doe_decap_def reader_init_rd_at Let_def slice_def write_at_eq)

interpretation tl_doe: transport_layer doe_encap doe_decap "\<lambda>f. f" 4 8 "0xFFFF8"
proof unfold_locales
  fix s buf out :: bytes and n buf' f
  assume s: "length s \<le> 0xFFFF8" and e: "doe_encap s buf f = (Ok n, buf')"
    and out: "aligned 4 (length s) \<le> length out"
  define pad where "pad = take (aligned 4 (length s) - length s) (drop (8 + length s) buf)"
  from doe_encap_cases(1) [OF s e] have n: "n = 8 + aligned 4 (length s)" "n \<le> length buf"
    "buf' = doe_image (doe_header f (aligned 4 (length s))) @ s @ drop (8 + length s) buf" by auto
  with aligned_4(2) [of "length s"] have
    t: "take n buf' = doe_image (doe_header f (aligned 4 (length s))) @ s @ pad"
      "length (s @ pad) = aligned 4 (length s)"
    by (auto simp: pad_def)
  from doe_decap_frame [OF s t(2) out, of f] t show "\<exists>pad. doe_decap (take n buf') out =
      (Ok (aligned 4 (length s), f), s @ pad @ drop (aligned 4 (length s)) out) \<and>
      length (s @ pad) = aligned 4 (length s)"
    by (intro exI [of _ pad]) simp
next
  fix s buf :: bytes and f
  assume "length s \<le> 0xFFFF8" "8 + aligned 4 (length s) \<le> length buf"
  with aligned_4(2) [of "length s"] show "\<exists>buf'. doe_encap s buf f = (Ok (8 + aligned 4 (length s)), buf') \<and>
      length buf' = length buf"
    by (auto simp: doe_encap_cases(2))
qed (auto dest: doe_encap_cases(1))

interpretation tl_doe_app: transport_layer doe_encap_app doe_decap_app "\<lambda>f. False" 1 0 L for L
proof unfold_locales
  fix s buf out :: bytes and n buf' f
  assume "doe_encap_app s buf f = (Ok n, buf')" "aligned 1 (length s) \<le> length out"
  then show "\<exists>pad. doe_decap_app (take n buf') out =
      (Ok (aligned 1 (length s), False), s @ pad @ drop (aligned 1 (length s)) out) \<and>
      length (s @ pad) = aligned 1 (length s)"
    by (auto simp: doe_encap_app_def doe_decap_app_def write_at_eq split: if_splits)
qed (auto simp: doe_encap_app_def split: if_splits)

section \<open>Secured messages over a transport\<close>

locale transport_stack =
  msg: transport_layer "t_encap tr" "t_decap tr" "\<lambda>f. f" align overhead limit +
  app: transport_layer "t_encap_app tr" "t_decap_app tr" aflag 1 aoverhead SENDER_BUFFER_SIZE
  for tr :: transport and align overhead limit :: nat and aflag :: "bool \<Rightarrow> bool" and aoverhead :: nat +
  assumes fits: "n \<le> SENDER_BUFFER_SIZE \<Longrightarrow> aligned align n \<le> RECEIVER_BUFFER_SIZE"
    and within: "SENDER_BUFFER_SIZE \<le> limit"
begin

lemma secured_delivery:
  assumes law: "aead_law cr" and len: "length m \<le> SENDER_BUFFER_SIZE" "length m \<le> length out"
    and s: "get_session_via_id c sid = Some s" and s': "get_session_via_id c' sid = Some s'"
    and same: "same_channel s s'"
    and send: "encode_secured_message cr tr sid m buf False is_app c = ((Ok n, buf'), c1)"
  shows "\<exists>c1' s1 s1'. decode_secured_message cr tr sid (take n buf') out c' =
      ((Ok (length m), m @ drop (length m) out), c1') \<and>
    get_session_via_id c1 sid = Some s1 \<and> get_session_via_id c1' sid = Some s1' \<and> same_channel s1 s1'"
proof -
  from send obtain u ab enc where
    ab: "t_encap_app tr m (replicate SENDER_BUFFER_SIZE 0) is_app = (Ok u, ab)"
    and enc: "on_session sid (Err SPDM_STATUS_INVALID_PARAMETER)
      (encode_spdm_secured_message cr (slice ab 0 u) SENDER_BUFFER_SIZE False) c = (Ok enc, c1)"
    and tb: "t_encap tr enc buf True = (Ok n, buf')"
    by (auto simp: encode_secured_message_def split: prod.splits result.splits)
  from enc s obtain s1 where
    s1: "encode_spdm_secured_message cr (slice ab 0 u) SENDER_BUFFER_SIZE False s = (Ok enc, s1)"
    by (auto simp: on_session_def split: prod.splits)
  note act = encode_secured_Ok_active [OF s1]
  have ids: "session_id s1 = sid" "session_id s' = sid"
    using s1 st.get_key [OF s] st.get_key [OF s']
    by (auto simp: encode_secured_active [OF act] set_direction_def)
  with s1 on_session_OkE [OF enc s] have g1: "get_session_via_id c1 sid = Some s1"
    by (metis prod.inject snd_conv)
  have u: "u \<le> SENDER_BUFFER_SIZE" using app.enc_Ok [OF len(1) ab] by simp
  have "length enc \<le> SENDER_BUFFER_SIZE"
    using s1 by (auto simp: encode_secured_active [OF act] elim: encode_msg_OkE)
  with msg.dec_enc [OF _ tb, of "replicate RECEIVER_BUFFER_SIZE 0"] fits within obtain pad where
    pad: "t_decap tr (take n buf') (replicate RECEIVER_BUFFER_SIZE 0) =
      (Ok (aligned align (length enc), True),
        enc @ pad @ drop (aligned align (length enc)) (replicate RECEIVER_BUFFER_SIZE 0))"
      "length (enc @ pad) = aligned align (length enc)"
    by fastforce
  then obtain rb where dec: "t_decap tr (take n buf') (replicate RECEIVER_BUFFER_SIZE 0) =
      (Ok (aligned align (length enc), True), rb)"
    and slice: "slice rb 0 (aligned align (length enc)) = enc @ pad"
    by (auto simp: slice_def)
  have "length (slice ab 0 u) \<le> RECEIVER_BUFFER_SIZE"
    using u by (simp add: SENDER_BUFFER_SIZE_val RECEIVER_BUFFER_SIZE_val)
  from secured_step [OF law same s1 this, of pad] obtain s1' where
    d: "decode_spdm_secured_message cr (enc @ pad) RECEIVER_BUFFER_SIZE False s' = (Ok (slice ab 0 u), s1')"
      "same_channel s1 s1'" by blast
  then have "session_id s1' = sid" using ids by (simp add: same_channel_def)
  then have g1': "get_session_via_id (upd_session_via_id sid (\<lambda>_. s1') c') sid = Some s1'"
    using s' by (simp add: st.get_upd_same)
  have "t_decap_app tr (slice ab 0 u) out = (Ok (length m, aflag is_app), m @ drop (length m) out)"
    using app.dec_enc [OF len(1) ab, of out] len(2) by (auto simp: slice_def)
  then have "decode_secured_message cr tr sid (take n buf') out c' =
      ((Ok (length m), m @ drop (length m) out), upd_session_via_id sid (\<lambda>_. s1') c')"
    by (simp add: decode_secured_message_def dec slice on_session_def s' d(1))
  with g1 g1' d(2) show ?thesis by blast
qed

end

lemma transport_stack_mctp: "transport_stack MctpTransportEncap 1 1 SENDER_BUFFER_SIZE (\<lambda>f. f) 1"
  using tl_mctp.transport_layer_axioms tl_mctp_app.transport_layer_axioms
  by (simp add: transport_stack_def transport_stack_axioms_def MctpTransportEncap_def
      SENDER_BUFFER_SIZE_val RECEIVER_BUFFER_SIZE_val)

lemma transport_stack_doe: "transport_stack PciDoeTransportEncap 4 8 0xFFFF8 (\<lambda>f. False) 0"
  using tl_doe.transport_layer_axioms tl_doe_app.transport_layer_axioms
  by (auto simp: transport_stack_def transport_stack_axioms_def PciDoeTransportEncap_def aligned_def
      SENDER_BUFFER_SIZE_val RECEIVER_BUFFER_SIZE_val)

interpretation ts_mctp: transport_stack MctpTransportEncap 1 1 SENDER_BUFFER_SIZE "\<lambda>f. f" 1
  by (rule transport_stack_mctp)

interpretation ts_doe: transport_stack PciDoeTransportEncap 4 8 "0xFFFF8" "\<lambda>f. False" 0
  by (rule transport_stack_doe)

section \<open>Properties\<close>

text \<open>
  C6: End to end over either transport: a message that \<open>encode_secured_message\<close> of the responder puts
  into the transport buffer, SPDM or application message, is what \<open>decode_secured_message\<close> of the
  requester returns, exactly and without the padding the transport adds, and afterwards the two
  sessions agree again.
\<close>

theorem secured_transport_delivers:
  assumes "aead_law cr" and "tr \<in> {MctpTransportEncap, PciDoeTransportEncap}"
    and "length m \<le> SENDER_BUFFER_SIZE" "length m \<le> length out"
    and "get_session_via_id c sid = Some s" "get_session_via_id c' sid = Some s'" "same_channel s s'"
    and "encode_secured_message cr tr sid m buf False is_app c = ((Ok n, buf'), c1)"
  shows "\<exists>c1' s1 s1'. decode_secured_message cr tr sid (take n buf') out c' =
      ((Ok (length m), m @ drop (length m) out), c1') \<and>
    get_session_via_id c1 sid = Some s1 \<and> get_session_via_id c1' sid = Some s1' \<and> same_channel s1 s1'"
  using assms(2) ts_mctp.secured_delivery [OF assms(1,3-7)] ts_doe.secured_delivery [OF assms(1,3-7)]
    assms(8) by blast

definition sample_channel :: "(SpdmBaseHashAlgo \<times> bytes) SpdmContext" where
  "sample_channel = sample_context\<lparr>session := [sample_session]\<rparr>"

lemma sample_channel_get: "get_session_via_id sample_channel 0xFFFDFFFD = Some sample_session"
  by (simp add: sample_channel_def get_session_via_id_def sample_session_simps)

lemma sample_encode_msg:
  "\<exists>m. encode_msg sample_crypto sample_session [1, 2, 3] SENDER_BUFFER_SIZE
      (direction False sample_session) = Ok m \<and> length m = 27"
proof -
  have seq: "sequence_number (direction False sample_session) = 0"
    by (simp add: direction_def sample_session_simps SpdmSessionSecretParam_default_def)
  have hdr: "sec_header sample_session (direction False sample_session) len =
      [0xFD, 0xFF, 0xFD, 0xFF] @ le_bytes 2 len" for len
    by (simp add: sec_header_def sample_session_simps le_bytes_numeral)
  show ?thesis
    by (simp add: encode_msg_def sample_session_simps SpdmAeadAlgo_get_tag_size_def seq
        writer_init_wr_at emits_Ok [OF emits_aad] hdr sample_crypto_def SENDER_BUFFER_SIZE_val Let_def)
qed

lemma sample_send:
  "\<exists>n buf' c1. encode_secured_message sample_crypto PciDoeTransportEncap 0xFFFDFFFD [1, 2, 3]
      (replicate 64 0) False False sample_channel = ((Ok n, buf'), c1)"
proof -
  obtain m where m: "encode_msg sample_crypto sample_session [1, 2, 3] SENDER_BUFFER_SIZE
      (direction False sample_session) = Ok m" "length m = 27" using sample_encode_msg by blast
  have a: "active sample_session" by (simp add: active_def sample_session_simps)
  note m' = m(1) [unfolded SENDER_BUFFER_SIZE_val]
  have app: "slice (write_at (replicate 4160 0) 0 [1, 2, 3]) 0 (Suc (Suc (Suc 0))) = ([1, 2, 3] :: bytes)"
    by (simp add: SENDER_BUFFER_SIZE_val write_at_eq slice_def del: write_at.simps)
  have "\<exists>n buf'. doe_encap m (replicate 64 0) True = (Ok n, buf')"
    using tl_doe.enc_fits [of m "replicate 64 0" True] m by (auto simp: aligned_def)
  then show ?thesis
    using app by (auto simp: encode_secured_message_def PciDoeTransportEncap_def doe_encap_app_def
        on_session_def sample_channel_get encode_secured_active [OF a] m' SENDER_BUFFER_SIZE_val
        simp del: write_at.simps)
qed

theorem secured_transport_delivers_witness:
  "\<exists>n buf' c1 c1'. encode_secured_message sample_crypto PciDoeTransportEncap 0xFFFDFFFD [1, 2, 3]
      (replicate 64 0) False False sample_channel = ((Ok n, buf'), c1) \<and>
    decode_secured_message sample_crypto PciDoeTransportEncap 0xFFFDFFFD (take n buf')
      (replicate 5 0) sample_channel = ((Ok 3, [1, 2, 3, 0, 0]), c1')"
proof -
  obtain n buf' c1 where s: "encode_secured_message sample_crypto PciDoeTransportEncap 0xFFFDFFFD
      [1, 2, 3] (replicate 64 0) False False sample_channel = ((Ok n, buf'), c1)"
    using sample_send by blast
  have "same_channel sample_session sample_session" by (simp add: same_channel_def)
  from secured_transport_delivers [OF sample_laws(2) _ _ _ sample_channel_get sample_channel_get this s,
      of "replicate 5 0"] s
  show ?thesis by (auto simp: SENDER_BUFFER_SIZE_val numeral_eq_Suc)
qed

text \<open>
  C30: Both transports deliver an SPDM message unchanged with its secured flag when the buffers have
  room for the frame: the MCTP frame is one byte longer than the message; the PCI DOE frame has an
  eight byte header and is padded with up to three bytes to a multiple of four, which the receiver
  cannot tell from the message.
\<close>

theorem transport_frames_round_trip:
  "(\<exists>b. mctp_encap s (replicate (Suc (length s)) x) f = (Ok (Suc (length s)), b) \<and>
      mctp_decap b (replicate (length s) y) = (Ok (length s, f), s)) \<and>
   (if length s \<le> 0xFFFF8
    then \<exists>b pad. doe_encap s (replicate (8 + aligned 4 (length s)) x) f =
        (Ok (8 + aligned 4 (length s)), b) \<and>
      doe_decap b (replicate (aligned 4 (length s)) y) = (Ok (aligned 4 (length s), f), s @ pad) \<and>
      length pad < 4
    else True)"
proof -
  let ?n = "aligned 4 (length s)" and ?buf = "replicate (8 + aligned 4 (length s)) x"
  have "\<exists>b pad. doe_encap s ?buf f = (Ok (8 + ?n), b) \<and>
      doe_decap b (replicate ?n y) = (Ok (?n, f), s @ pad) \<and> length pad < 4" if s: "length s \<le> 0xFFFF8"
  proof -
    from tl_doe.enc_fits [OF s, of ?buf f] obtain b where
      b: "doe_encap s ?buf f = (Ok (8 + ?n), b)" "length b = 8 + ?n" by auto
    from tl_doe.dec_enc [OF s b(1), of "replicate ?n y"] b(2) obtain pad where
      "doe_decap b (replicate ?n y) = (Ok (?n, f), s @ pad)" "length (s @ pad) = ?n" by auto
    moreover from this have "length pad < 4" by (simp add: aligned_def)
    ultimately show ?thesis using b by blast
  qed
  moreover have "\<exists>b. mctp_encap s (replicate (Suc (length s)) x) f = (Ok (Suc (length s)), b) \<and>
      mctp_decap b (replicate (length s) y) = (Ok (length s, f), s)"
    using mctp_encap_cases(2) [of s "replicate (Suc (length s)) x" f]
      mctp_decap_frame(1) [of s "replicate (length s) y" f] by auto
  ultimately show ?thesis by simp
qed


end
