(* ===== verification/Messages.thy ===== *)
theory Messages
  imports Transport
begin

text \<open>
  The payloads of the negotiation and session maintenance messages, \<open>spdmlib/src/message/\<close>: version,
  capability, algorithm, heartbeat, key update, end session and error messages, with their
  \<open>spdm_encode\<close> and \<open>spdm_read\<close>.

  \<^item> The layout of a payload depends on the negotiated version, which the source takes from the
    context; here it is the argument \<open>ni\<close>, the negotiated part of the context.
  \<^item> Every payload codec is an interpretation of the locale \<open>codec\<close> with the payload's wire image and
    the condition under which it is accepted, so that all round trips rest on one lemma.
\<close>

section \<open>Definitions\<close>

definition contains :: "'a::len word \<Rightarrow> 'a word \<Rightarrow> bool" where
  "contains flags f \<longleftrightarrow> flags AND f = f"

definition at_least :: "SpdmVersion \<Rightarrow> SpdmNegotiateInfo \<Rightarrow> bool" where
  "at_least v ni \<longleftrightarrow> SpdmVersion_get_u8 (spdm_version_sel ni) \<ge> SpdmVersion_get_u8 v"

definition read_reserved :: "nat \<Rightarrow> unit rd" where
  "read_reserved n r = do { (_, r) \<leftarrow> read_array n r; Some ((), r) }"

subsection \<open>Version\<close>

definition SpdmGetVersionRequestPayload_spdm_encode :: "SpdmStatus enc" where
  "SpdmGetVersionRequestPayload_spdm_encode = encs [BUFFER_FULL_enc (u8_encode 0), BUFFER_FULL_enc (u8_encode 0)]"

definition SpdmGetVersionRequestPayload_spdm_read :: "unit rd" where
  "SpdmGetVersionRequestPayload_spdm_read r = do { (_, r) \<leftarrow> u8_read r; (_, r) \<leftarrow> u8_read r; Some ((), r) }"

record SpdmVersionStruct =
  update :: u8
  v_version :: SpdmVersion

definition SpdmVersionStruct_encode :: "SpdmVersionStruct \<Rightarrow> EncodeErr enc" where
  "SpdmVersionStruct_encode v = encs [u8_encode (update v), enum_u8_encode SpdmVersion_get_u8 (v_version v)]"

definition SpdmVersionStruct_read :: "SpdmVersionStruct rd" where
  "SpdmVersionStruct_read r = do {
     (u, r) \<leftarrow> u8_read r;
     (v, r) \<leftarrow> enum_u8_read SpdmVersion_of_u8 r;
     Some (\<lparr>update = u, v_version = v\<rparr>, r)
   }"

record SpdmVersionResponsePayload =
  version_number_entry_count :: u8
  versions :: "SpdmVersionStruct list"

definition SpdmVersionResponsePayload_spdm_encode :: "SpdmVersionResponsePayload \<Rightarrow> SpdmStatus enc" where
  "SpdmVersionResponsePayload_spdm_encode p = encs (map BUFFER_FULL_enc (
    [u8_encode 0, u8_encode 0, u8_encode 0, u8_encode (version_number_entry_count p)] @
    map SpdmVersionStruct_encode (take (unat (version_number_entry_count p)) (versions p))))"

fun read_versions :: "nat \<Rightarrow> SpdmVersionStruct list rd" where
  "read_versions 0 r = Some ([], r)"
| "read_versions (Suc n) r = do {
     (v, r) \<leftarrow> SpdmVersionStruct_read r;
     (vs, r) \<leftarrow> read_versions n r;
     Some (v # vs, r)
   }"

definition SpdmVersionResponsePayload_spdm_read :: "SpdmVersionResponsePayload rd" where
  "SpdmVersionResponsePayload_spdm_read r = do {
     (_, r) \<leftarrow> u8_read r;
     (_, r) \<leftarrow> u8_read r;
     (_, r) \<leftarrow> u8_read r;
     (n, r) \<leftarrow> u8_read r;
     (if n < 1 \<or> n > of_nat MAX_SPDM_VERSION_COUNT then None
      else do {
        (vs, r) \<leftarrow> read_versions (unat n) r;
        Some (\<lparr>version_number_entry_count = n,
          versions = vs @ replicate (MAX_SPDM_VERSION_COUNT - unat n)
            \<lparr>update = 0, v_version = SpdmVersion10\<rparr>\<rparr>, r)
      })
   }"

subsection \<open>Capabilities\<close>

record SpdmGetCapabilitiesRequestPayload =
  gc_ct_exponent :: u8
  gc_flags :: SpdmRequestCapabilityFlags
  gc_data_transfer_size :: u32
  gc_max_spdm_msg_size :: u32

definition SpdmGetCapabilitiesRequestPayload_spdm_encode ::
    "SpdmNegotiateInfo \<Rightarrow> SpdmGetCapabilitiesRequestPayload \<Rightarrow> SpdmStatus enc" where
  "SpdmGetCapabilitiesRequestPayload_spdm_encode ni p = encs (map BUFFER_FULL_enc (
    [u8_encode 0, u8_encode 0] @
    (if at_least SpdmVersion11 ni
     then [u8_encode 0, u8_encode (gc_ct_exponent p), u16_encode 0,
       SpdmRequestCapabilityFlags_encode (gc_flags p)]
     else []) @
    (if at_least SpdmVersion12 ni
     then [u32_encode (gc_data_transfer_size p), u32_encode (gc_max_spdm_msg_size p)]
     else [])))"

text \<open>The checks of \<open>spdm_read\<close> on the requester's flags; the function returns \<open>None\<close> when they fail.\<close>

definition req_flags_ok :: "SpdmNegotiateInfo \<Rightarrow> SpdmRequestCapabilityFlags \<Rightarrow> bool" where
  "req_flags_ok ni flags \<longleftrightarrow>
    \<not> contains flags SpdmRequestCap_PSK_RSVD \<and>
    (if contains flags SpdmRequestCap_KEY_EX_CAP \<or> contains flags SpdmRequestCap_PSK_CAP
     then contains flags SpdmRequestCap_MAC_CAP
     else \<not> (contains flags SpdmRequestCap_MAC_CAP
       \<or> contains flags SpdmRequestCap_ENCRYPT_CAP
       \<or> contains flags SpdmRequestCap_HANDSHAKE_IN_THE_CLEAR_CAP
       \<or> contains flags SpdmRequestCap_HBEAT_CAP
       \<or> contains flags SpdmRequestCap_KEY_UPD_CAP)) \<and>
    \<not> (\<not> contains flags SpdmRequestCap_KEY_EX_CAP
       \<and> contains flags SpdmRequestCap_PSK_CAP
       \<and> contains flags SpdmRequestCap_HANDSHAKE_IN_THE_CLEAR_CAP) \<and>
    (if contains flags SpdmRequestCap_CERT_CAP \<or> contains flags SpdmRequestCap_PUB_KEY_ID_CAP
     then \<not> (contains flags SpdmRequestCap_CERT_CAP \<and> contains flags SpdmRequestCap_PUB_KEY_ID_CAP)
       \<and> \<not> (\<not> contains flags SpdmRequestCap_CHAL_CAP \<and> \<not> contains flags SpdmRequestCap_KEY_EX_CAP)
     else \<not> (contains flags SpdmRequestCap_CHAL_CAP \<or> contains flags SpdmRequestCap_MUT_AUTH_CAP)) \<and>
    \<not> (SpdmVersion_get_u8 (spdm_version_sel ni) = SpdmVersion_get_u8 SpdmVersion11
       \<and> contains flags SpdmRequestCap_MUT_AUTH_CAP
       \<and> \<not> contains flags SpdmRequestCap_ENCAP_CAP)"

definition read_sizes :: "(u32 \<times> u32) rd" where
  "read_sizes r = do {
     (d, r) \<leftarrow> u32_read r;
     (m, r) \<leftarrow> u32_read r;
     (if d < 42 \<or> m < d then None else Some ((d, m), r))
   }"

definition SpdmGetCapabilitiesRequestPayload_spdm_read ::
    "SpdmNegotiateInfo \<Rightarrow> SpdmGetCapabilitiesRequestPayload rd" where
  "SpdmGetCapabilitiesRequestPayload_spdm_read ni r = do {
     (_, r) \<leftarrow> u8_read r;
     (_, r) \<leftarrow> u8_read r;
     ((ct_exponent, flags), r) \<leftarrow>
       (if at_least SpdmVersion11 ni
        then do {
          (_, r) \<leftarrow> u8_read r;
          (ct_exponent, r) \<leftarrow> u8_read r;
          (_, r) \<leftarrow> u16_read r;
          (flags, r) \<leftarrow> SpdmRequestCapabilityFlags_read r;
          (if req_flags_ok ni flags then Some ((ct_exponent, flags), r) else None)
        }
        else Some ((0, 0), r));
     ((data_transfer_size, max_spdm_msg_size), r) \<leftarrow>
       (if at_least SpdmVersion12 ni then read_sizes r else Some ((0, 0), r));
     Some (\<lparr>gc_ct_exponent = ct_exponent, gc_flags = flags,
       gc_data_transfer_size = data_transfer_size, gc_max_spdm_msg_size = max_spdm_msg_size\<rparr>, r)
   }"

record SpdmCapabilitiesResponsePayload =
  cp_ct_exponent :: u8
  cp_flags :: SpdmResponseCapabilityFlags
  cp_data_transfer_size :: u32
  cp_max_spdm_msg_size :: u32

definition SpdmCapabilitiesResponsePayload_spdm_encode ::
    "SpdmNegotiateInfo \<Rightarrow> SpdmCapabilitiesResponsePayload \<Rightarrow> SpdmStatus enc" where
  "SpdmCapabilitiesResponsePayload_spdm_encode ni p = encs (map BUFFER_FULL_enc (
    [u8_encode 0, u8_encode 0, u8_encode 0, u8_encode (cp_ct_exponent p), u16_encode 0,
     SpdmResponseCapabilityFlags_encode (cp_flags p)] @
    (if at_least SpdmVersion12 ni
     then [u32_encode (cp_data_transfer_size p), u32_encode (cp_max_spdm_msg_size p)]
     else [])))"

definition rsp_flags_ok :: "SpdmNegotiateInfo \<Rightarrow> SpdmResponseCapabilityFlags \<Rightarrow> bool" where
  "rsp_flags_ok ni flags \<longleftrightarrow>
    \<not> (contains flags SpdmResponseCap_MEAS_CAP_NO_SIG \<and> contains flags SpdmResponseCap_MEAS_CAP_SIG) \<and>
    \<not> ((\<not> contains flags SpdmResponseCap_MEAS_CAP_NO_SIG \<and> \<not> contains flags SpdmResponseCap_MEAS_CAP_SIG)
       \<and> contains flags SpdmResponseCap_MEAS_FRESH_CAP) \<and>
    (if \<not> at_least SpdmVersion11 ni
     then (if \<not> contains flags SpdmResponseCap_MEAS_CAP_SIG
       then contains flags SpdmResponseCap_CERT_CAP = contains flags SpdmResponseCap_CHAL_CAP
       else contains flags SpdmResponseCap_CERT_CAP)
     else
       \<not> (contains flags SpdmResponseCap_PSK_CAP_WITHOUT_CONTEXT
          \<and> contains flags SpdmResponseCap_PSK_CAP_WITH_CONTEXT) \<and>
       (if contains flags SpdmResponseCap_KEY_EX_CAP
          \<or> contains flags SpdmResponseCap_PSK_CAP_WITHOUT_CONTEXT
          \<or> contains flags SpdmResponseCap_PSK_CAP_WITH_CONTEXT
        then contains flags SpdmResponseCap_MAC_CAP
        else \<not> (contains flags SpdmResponseCap_MAC_CAP
          \<or> contains flags SpdmResponseCap_ENCRYPT_CAP
          \<or> contains flags SpdmResponseCap_HANDSHAKE_IN_THE_CLEAR_CAP
          \<or> contains flags SpdmResponseCap_HBEAT_CAP
          \<or> contains flags SpdmResponseCap_KEY_UPD_CAP)) \<and>
       \<not> (\<not> contains flags SpdmResponseCap_KEY_EX_CAP
          \<and> (contains flags SpdmResponseCap_PSK_CAP_WITHOUT_CONTEXT
            \<or> contains flags SpdmResponseCap_PSK_CAP_WITH_CONTEXT)
          \<and> contains flags SpdmResponseCap_HANDSHAKE_IN_THE_CLEAR_CAP) \<and>
       (if contains flags SpdmResponseCap_CERT_CAP \<or> contains flags SpdmResponseCap_PUB_KEY_ID_CAP
        then \<not> (contains flags SpdmResponseCap_CERT_CAP \<and> contains flags SpdmResponseCap_PUB_KEY_ID_CAP)
          \<and> \<not> (\<not> contains flags SpdmResponseCap_CHAL_CAP
            \<and> \<not> contains flags SpdmResponseCap_KEY_EX_CAP
            \<and> \<not> contains flags SpdmResponseCap_MEAS_CAP_SIG)
        else \<not> (contains flags SpdmResponseCap_CHAL_CAP
          \<or> contains flags SpdmResponseCap_KEY_EX_CAP
          \<or> contains flags SpdmResponseCap_MEAS_CAP_SIG
          \<or> contains flags SpdmResponseCap_MUT_AUTH_CAP))) \<and>
    \<not> (SpdmVersion_get_u8 (spdm_version_sel ni) = SpdmVersion_get_u8 SpdmVersion11
       \<and> contains flags SpdmResponseCap_MUT_AUTH_CAP
       \<and> \<not> contains flags SpdmResponseCap_ENCAP_CAP) \<and>
    (if at_least SpdmVersion12 ni
     then \<not> (\<not> contains flags SpdmResponseCap_CERT_CAP
          \<and> (contains flags SpdmResponseCap_ALIAS_CERT_CAP \<or> contains flags SpdmResponseCap_SET_CERT_CAP))
       \<and> \<not> (contains flags SpdmResponseCap_CSR_CAP \<and> \<not> contains flags SpdmResponseCap_SET_CERT_CAP)
       \<and> \<not> (contains flags SpdmResponseCap_CERT_INSTALL_RESET_CAP
          \<and> \<not> contains flags SpdmResponseCap_CSR_CAP \<and> \<not> contains flags SpdmResponseCap_SET_CERT_CAP)
     else True)"

definition SpdmCapabilitiesResponsePayload_spdm_read ::
    "SpdmNegotiateInfo \<Rightarrow> SpdmCapabilitiesResponsePayload rd" where
  "SpdmCapabilitiesResponsePayload_spdm_read ni r = do {
     (_, r) \<leftarrow> u8_read r;
     (_, r) \<leftarrow> u8_read r;
     (_, r) \<leftarrow> u8_read r;
     (ct_exponent, r) \<leftarrow> u8_read r;
     (_, r) \<leftarrow> u16_read r;
     (flags, r) \<leftarrow> SpdmResponseCapabilityFlags_read r;
     (if \<not> rsp_flags_ok ni flags then None
      else do {
        ((d, m), r) \<leftarrow> (if at_least SpdmVersion12 ni then read_sizes r else Some ((0, 0), r));
        Some (\<lparr>cp_ct_exponent = ct_exponent, cp_flags = flags,
          cp_data_transfer_size = d, cp_max_spdm_msg_size = m\<rparr>, r)
      })
   }"

subsection \<open>Algorithms\<close>

abbreviation (input) SpdmOpaqueSupport_OPAQUE_DATA_FMT1 :: SpdmOpaqueSupport where
  "SpdmOpaqueSupport_OPAQUE_DATA_FMT1 \<equiv> 0x2"

definition SpdmOpaqueSupport_VALID_MASK :: SpdmOpaqueSupport where
  "SpdmOpaqueSupport_VALID_MASK = SpdmOpaqueSupport_OPAQUE_DATA_FMT1"

definition SpdmOpaqueSupport_encode :: "SpdmOpaqueSupport \<Rightarrow> EncodeErr enc" where
  "SpdmOpaqueSupport_encode = u8_encode"

definition SpdmOpaqueSupport_read :: "SpdmOpaqueSupport rd" where
  "SpdmOpaqueSupport_read r = do {
     (bits, r) \<leftarrow> u8_read r;
     f \<leftarrow> from_bits SpdmOpaqueSupport_VALID_MASK bits;
     Some (f, r)
   }"

definition SpdmOpaqueSupport_is_valid_one_select :: "SpdmOpaqueSupport \<Rightarrow> bool" where
  "SpdmOpaqueSupport_is_valid_one_select s \<longleftrightarrow>
    is_no_more_than_one_selected s \<and> s AND SpdmOpaqueSupport_VALID_MASK \<noteq> 0"

definition SpdmAlgStruct_default :: SpdmAlgStruct where
  "SpdmAlgStruct_default = \<lparr>alg_type = SpdmAlgTypeUnknown 0, alg_supported = SpdmAlgoUnknown\<rparr>"

record SpdmNegotiateAlgorithmsRequestPayload =
  na_measurement_specification :: SpdmMeasurementSpecification
  na_other_params_support :: SpdmOpaqueSupport
  na_base_asym_algo :: SpdmBaseAsymAlgo
  na_base_hash_algo :: SpdmBaseHashAlgo
  na_alg_struct_count :: u8
  na_alg_struct :: "SpdmAlgStruct list"

definition alg_length :: "SpdmNegotiateInfo \<Rightarrow> u16 \<Rightarrow> u8 \<Rightarrow> u16" where
  "alg_length ni fixed cnt = (if at_least SpdmVersion11 ni then fixed + ucast ((2 + 2) * cnt) else fixed)"

definition SpdmNegotiateAlgorithmsRequestPayload_spdm_encode ::
    "SpdmNegotiateInfo \<Rightarrow> SpdmNegotiateAlgorithmsRequestPayload \<Rightarrow> SpdmStatus enc" where
  "SpdmNegotiateAlgorithmsRequestPayload_spdm_encode ni p = encs (map BUFFER_FULL_enc (
    [u8_encode (if at_least SpdmVersion11 ni then na_alg_struct_count p else 0),
     u8_encode 0,
     u16_encode (alg_length ni 32 (na_alg_struct_count p)),
     SpdmMeasurementSpecification_encode (na_measurement_specification p),
     (if at_least SpdmVersion12 ni then SpdmOpaqueSupport_encode (na_other_params_support p)
      else u8_encode 0),
     SpdmBaseAsymAlgo_encode (na_base_asym_algo p),
     SpdmBaseHashAlgo_encode (na_base_hash_algo p)] @
    replicate 12 (u8_encode 0) @
    [u8_encode 0, u8_encode 0, u16_encode 0] @
    (if at_least SpdmVersion11 ni
     then map SpdmAlgStruct_encode (take (unat (na_alg_struct_count p)) (na_alg_struct p))
     else [])))"

text \<open>
  The loop over the algorithm structures: their types must increase, and each kind may appear once
  (the source keeps one flag per kind). The response reader applies a further check to each.
\<close>

fun alg_kind :: "SpdmAlg \<Rightarrow> nat option" where
  "alg_kind (SpdmAlgoDhe _) = Some 0"
| "alg_kind (SpdmAlgoAead _) = Some 1"
| "alg_kind (SpdmAlgoReqAsym _) = Some 2"
| "alg_kind (SpdmAlgoKeySchedule _) = Some 3"
| "alg_kind SpdmAlgoUnknown = None"

fun read_alg_structs :: "(SpdmAlg \<Rightarrow> bool) \<Rightarrow> nat \<Rightarrow> u8 \<Rightarrow> nat list \<Rightarrow> SpdmAlgStruct list rd" where
  "read_alg_structs ok 0 current_type present r = Some ([], r)"
| "read_alg_structs ok (Suc n) current_type present r = do {
     (alg, r) \<leftarrow> SpdmAlgStruct_read r;
     (if current_type \<ge> SpdmAlgType_get_u8 (alg_type alg) then None
      else do {
        k \<leftarrow> alg_kind (alg_supported alg);
        (if k \<in> set present \<or> \<not> ok (alg_supported alg) then None
         else do {
           (algs, r) \<leftarrow> read_alg_structs ok n (SpdmAlgType_get_u8 (alg_type alg)) (k # present) r;
           Some (alg # algs, r)
         })
      })
   }"

definition read_alg_count :: "SpdmNegotiateInfo \<Rightarrow> u8 rd" where
  "read_alg_count ni r = do {
     (n, r) \<leftarrow> u8_read r;
     (if at_least SpdmVersion11 ni then if n > 4 then None else Some (n, r) else Some (0, r))
   }"

definition read_other_params :: "SpdmNegotiateInfo \<Rightarrow> SpdmOpaqueSupport rd" where
  "read_other_params ni r =
    (if at_least SpdmVersion12 ni then SpdmOpaqueSupport_read r
     else do { (_, r) \<leftarrow> u8_read r; Some (0, r) })"

text \<open>The part common to both readers: reserved bytes, extended counts, algorithm structures.\<close>

definition read_alg_tail ::
    "SpdmNegotiateInfo \<Rightarrow> (SpdmAlg \<Rightarrow> bool) \<Rightarrow> u8 \<Rightarrow> SpdmAlgStruct list rd" where
  "read_alg_tail ni ok cnt r = do {
     (_, r) \<leftarrow> read_reserved 12 r;
     (ext_asym_count, r) \<leftarrow> u8_read r;
     (if ext_asym_count \<noteq> 0 then None
      else do {
        (ext_hash_count, r) \<leftarrow> u8_read r;
        (if ext_hash_count \<noteq> 0 then None
         else do {
           (_, r) \<leftarrow> u16_read r;
           (algs, r) \<leftarrow>
             (if at_least SpdmVersion11 ni then read_alg_structs ok (unat cnt) 0 [] r else Some ([], r));
           Some (algs @ replicate (4 - length algs) SpdmAlgStruct_default, r)
         })
      })
   }"

definition SpdmNegotiateAlgorithmsRequestPayload_spdm_read ::
    "SpdmNegotiateInfo \<Rightarrow> SpdmNegotiateAlgorithmsRequestPayload rd" where
  "SpdmNegotiateAlgorithmsRequestPayload_spdm_read ni r = do {
     (cnt, r) \<leftarrow> read_alg_count ni r;
     (_, r) \<leftarrow> u8_read r;
     (len, r) \<leftarrow> u16_read r;
     (ms, r) \<leftarrow> SpdmMeasurementSpecification_read r;
     (other, r) \<leftarrow> read_other_params ni r;
     (sig, r) \<leftarrow> SpdmBaseAsymAlgo_read r;
     (hash, r) \<leftarrow> SpdmBaseHashAlgo_read r;
     (algs, r) \<leftarrow> read_alg_tail ni (\<lambda>_. True) cnt r;
     (if len \<noteq> alg_length ni 32 cnt then None
      else Some (\<lparr>na_measurement_specification = ms, na_other_params_support = other,
        na_base_asym_algo = sig, na_base_hash_algo = hash,
        na_alg_struct_count = cnt, na_alg_struct = algs\<rparr>, r))
   }"

record SpdmAlgorithmsResponsePayload =
  ap_measurement_specification_sel :: SpdmMeasurementSpecification
  ap_other_params_selection :: SpdmOpaqueSupport
  ap_measurement_hash_algo :: SpdmMeasurementHashAlgo
  ap_base_asym_sel :: SpdmBaseAsymAlgo
  ap_base_hash_sel :: SpdmBaseHashAlgo
  ap_alg_struct_count :: u8
  ap_alg_struct :: "SpdmAlgStruct list"

definition SpdmAlgorithmsResponsePayload_spdm_encode ::
    "SpdmNegotiateInfo \<Rightarrow> SpdmAlgorithmsResponsePayload \<Rightarrow> SpdmStatus enc" where
  "SpdmAlgorithmsResponsePayload_spdm_encode ni p = encs (map BUFFER_FULL_enc (
    [u8_encode (if at_least SpdmVersion11 ni then ap_alg_struct_count p else 0),
     u8_encode 0,
     u16_encode (alg_length ni 36 (ap_alg_struct_count p)),
     SpdmMeasurementSpecification_encode (ap_measurement_specification_sel p),
     (if at_least SpdmVersion12 ni then SpdmOpaqueSupport_encode (ap_other_params_selection p)
      else u8_encode 0),
     SpdmMeasurementHashAlgo_encode (ap_measurement_hash_algo p),
     SpdmBaseAsymAlgo_encode (ap_base_asym_sel p),
     SpdmBaseHashAlgo_encode (ap_base_hash_sel p)] @
    replicate 12 (u8_encode 0) @
    [u8_encode 0, u8_encode 0, u16_encode 0] @
    (if at_least SpdmVersion11 ni
     then map SpdmAlgStruct_encode (take (unat (ap_alg_struct_count p)) (ap_alg_struct p))
     else [])))"

text \<open>The selections the requester requires, given the capabilities of both sides.\<close>

abbreviation (input) rsp_has :: "SpdmNegotiateInfo \<Rightarrow> SpdmResponseCapabilityFlags \<Rightarrow> bool" where
  "rsp_has ni f \<equiv> contains (rsp_capabilities_sel ni) f"

abbreviation (input) req_has :: "SpdmNegotiateInfo \<Rightarrow> SpdmRequestCapabilityFlags \<Rightarrow> bool" where
  "req_has ni f \<equiv> contains (req_capabilities_sel ni) f"

definition meas_enabled :: "SpdmNegotiateInfo \<Rightarrow> bool" where
  "meas_enabled ni \<longleftrightarrow> rsp_has ni SpdmResponseCap_MEAS_CAP_NO_SIG \<or> rsp_has ni SpdmResponseCap_MEAS_CAP_SIG"

definition key_ex_enabled :: "SpdmNegotiateInfo \<Rightarrow> bool" where
  "key_ex_enabled ni \<longleftrightarrow> rsp_has ni SpdmResponseCap_KEY_EX_CAP \<and> req_has ni SpdmRequestCap_KEY_EX_CAP"

definition psk_rsp :: "SpdmNegotiateInfo \<Rightarrow> bool" where
  "psk_rsp ni \<longleftrightarrow>
    rsp_has ni SpdmResponseCap_PSK_CAP_WITHOUT_CONTEXT \<or> rsp_has ni SpdmResponseCap_PSK_CAP_WITH_CONTEXT"

definition psk_enabled :: "SpdmNegotiateInfo \<Rightarrow> bool" where
  "psk_enabled ni \<longleftrightarrow> psk_rsp ni \<and> req_has ni SpdmRequestCap_PSK_CAP"

definition sig_enabled :: "SpdmNegotiateInfo \<Rightarrow> bool" where
  "sig_enabled ni \<longleftrightarrow>
    rsp_has ni SpdmResponseCap_CERT_CAP \<or> rsp_has ni SpdmResponseCap_CHAL_CAP
    \<or> rsp_has ni SpdmResponseCap_MEAS_CAP_SIG \<or> key_ex_enabled ni"

fun alg_selection_ok :: "SpdmNegotiateInfo \<Rightarrow> SpdmAlg \<Rightarrow> bool" where
  "alg_selection_ok ni (SpdmAlgoDhe v) \<longleftrightarrow>
    is_no_more_than_one_selected v \<and> \<not> (key_ex_enabled ni \<and> \<not> SpdmDheAlgo_is_valid_one_select v)"
| "alg_selection_ok ni (SpdmAlgoAead v) \<longleftrightarrow>
    is_no_more_than_one_selected v \<and>
    \<not> (((rsp_has ni SpdmResponseCap_ENCRYPT_CAP \<and> req_has ni SpdmRequestCap_ENCRYPT_CAP)
        \<or> (rsp_has ni SpdmResponseCap_MAC_CAP \<and> req_has ni SpdmRequestCap_MAC_CAP))
       \<and> \<not> SpdmAeadAlgo_is_valid_one_select v)"
| "alg_selection_ok ni (SpdmAlgoReqAsym v) \<longleftrightarrow>
    is_no_more_than_one_selected v \<and>
    \<not> ((rsp_has ni SpdmResponseCap_MUT_AUTH_CAP \<and> req_has ni SpdmRequestCap_MUT_AUTH_CAP)
       \<and> \<not> SpdmReqAsymAlgo_is_valid_one_select v)"
| "alg_selection_ok ni (SpdmAlgoKeySchedule v) \<longleftrightarrow>
    is_no_more_than_one_selected v \<and>
    \<not> ((key_ex_enabled ni \<or> psk_enabled ni) \<and> \<not> SpdmKeyScheduleAlgo_is_valid_one_select v)"
| "alg_selection_ok ni SpdmAlgoUnknown \<longleftrightarrow> False"

definition SpdmAlgorithmsResponsePayload_spdm_read ::
    "SpdmNegotiateInfo \<Rightarrow> SpdmAlgorithmsResponsePayload rd" where
  "SpdmAlgorithmsResponsePayload_spdm_read ni r = do {
     (cnt, r) \<leftarrow> read_alg_count ni r;
     (_, r) \<leftarrow> u8_read r;
     (len, r) \<leftarrow> u16_read r;
     (ms, r) \<leftarrow> SpdmMeasurementSpecification_read r;
     (if \<not> is_no_more_than_one_selected ms
        \<or> (meas_enabled ni \<and> \<not> SpdmMeasurementSpecification_is_valid_one_select ms)
      then None else do {
     (other, r) \<leftarrow> read_other_params ni r;
     (if \<not> is_no_more_than_one_selected other
        \<or> (at_least SpdmVersion12 ni \<and> (rsp_has ni SpdmResponseCap_KEY_EX_CAP \<or> psk_rsp ni)
          \<and> \<not> SpdmOpaqueSupport_is_valid_one_select other)
      then None else do {
     (mh, r) \<leftarrow> SpdmMeasurementHashAlgo_read r;
     (if \<not> is_no_more_than_one_selected mh
        \<or> (meas_enabled ni \<and> \<not> SpdmMeasurementHashAlgo_is_valid_one_select mh)
      then None else do {
     (sig, r) \<leftarrow> SpdmBaseAsymAlgo_read r;
     (if \<not> is_no_more_than_one_selected sig
        \<or> (sig_enabled ni \<and> \<not> SpdmBaseAsymAlgo_is_valid_one_select sig)
      then None else do {
     (hash, r) \<leftarrow> SpdmBaseHashAlgo_read r;
     (if \<not> is_no_more_than_one_selected hash
        \<or> ((sig_enabled ni \<or> psk_enabled ni) \<and> \<not> SpdmBaseHashAlgo_is_valid_one_select hash)
      then None else do {
     (algs, r) \<leftarrow> read_alg_tail ni (alg_selection_ok ni) cnt r;
     (if len \<noteq> alg_length ni 36 cnt then None
      else Some (\<lparr>ap_measurement_specification_sel = ms, ap_other_params_selection = other,
        ap_measurement_hash_algo = mh, ap_base_asym_sel = sig, ap_base_hash_sel = hash,
        ap_alg_struct_count = cnt, ap_alg_struct = algs\<rparr>, r)) }) }) }) }) })
   }"

subsection \<open>Session maintenance\<close>

definition SpdmHeartbeatRequestPayload_spdm_encode :: "SpdmStatus enc" where
  "SpdmHeartbeatRequestPayload_spdm_encode = encs [BUFFER_FULL_enc (u8_encode 0), BUFFER_FULL_enc (u8_encode 0)]"

definition SpdmHeartbeatRequestPayload_spdm_read :: "unit rd" where
  "SpdmHeartbeatRequestPayload_spdm_read r = do { (_, r) \<leftarrow> u8_read r; (_, r) \<leftarrow> u8_read r; Some ((), r) }"

definition SpdmHeartbeatResponsePayload_spdm_encode :: "SpdmStatus enc" where
  "SpdmHeartbeatResponsePayload_spdm_encode = encs [BUFFER_FULL_enc (u8_encode 0), BUFFER_FULL_enc (u8_encode 0)]"

definition SpdmHeartbeatResponsePayload_spdm_read :: "unit rd" where
  "SpdmHeartbeatResponsePayload_spdm_read r = do { (_, r) \<leftarrow> u8_read r; (_, r) \<leftarrow> u8_read r; Some ((), r) }"

datatype SpdmKeyUpdateOperation =
    SpdmUpdateSingleKey
  | SpdmUpdateAllKeys
  | SpdmVerifyNewKey
  | SpdmKeyUpdateOperationUnknown u8

fun SpdmKeyUpdateOperation_get_u8 :: "SpdmKeyUpdateOperation \<Rightarrow> u8" where
  "SpdmKeyUpdateOperation_get_u8 SpdmUpdateSingleKey = 0x1"
| "SpdmKeyUpdateOperation_get_u8 SpdmUpdateAllKeys = 0x2"
| "SpdmKeyUpdateOperation_get_u8 SpdmVerifyNewKey = 0x3"
| "SpdmKeyUpdateOperation_get_u8 (SpdmKeyUpdateOperationUnknown x) = x"

definition SpdmKeyUpdateOperation_of_u8 :: "u8 \<Rightarrow> SpdmKeyUpdateOperation" where
  "SpdmKeyUpdateOperation_of_u8 x =
    (if x = 0x1 then SpdmUpdateSingleKey
     else if x = 0x2 then SpdmUpdateAllKeys
     else if x = 0x3 then SpdmVerifyNewKey
     else SpdmKeyUpdateOperationUnknown x)"

record SpdmKeyUpdatePayload =
  key_update_operation :: SpdmKeyUpdateOperation
  tag :: u8

text \<open>The request and the response payload have the same fields and the same code.\<close>

definition SpdmKeyUpdateRequestPayload_spdm_encode :: "SpdmKeyUpdatePayload \<Rightarrow> SpdmStatus enc" where
  "SpdmKeyUpdateRequestPayload_spdm_encode p = encs (map BUFFER_FULL_enc
    [enum_u8_encode SpdmKeyUpdateOperation_get_u8 (key_update_operation p), u8_encode (tag p)])"

definition SpdmKeyUpdateRequestPayload_spdm_read :: "SpdmKeyUpdatePayload rd" where
  "SpdmKeyUpdateRequestPayload_spdm_read r = do {
     (operation, r) \<leftarrow> enum_u8_read SpdmKeyUpdateOperation_of_u8 r;
     (t, r) \<leftarrow> u8_read r;
     (if operation \<in> {SpdmUpdateSingleKey, SpdmUpdateAllKeys, SpdmVerifyNewKey}
      then Some (\<lparr>key_update_operation = operation, tag = t\<rparr>, r) else None)
   }"

definition SpdmKeyUpdateResponsePayload_spdm_encode :: "SpdmKeyUpdatePayload \<Rightarrow> SpdmStatus enc" where
  "SpdmKeyUpdateResponsePayload_spdm_encode = SpdmKeyUpdateRequestPayload_spdm_encode"

definition SpdmKeyUpdateResponsePayload_spdm_read :: "SpdmKeyUpdatePayload rd" where
  "SpdmKeyUpdateResponsePayload_spdm_read = SpdmKeyUpdateRequestPayload_spdm_read"

type_synonym SpdmEndSessionRequestAttributes = u8

definition SpdmEndSessionRequestAttributes_all :: SpdmEndSessionRequestAttributes where
  "SpdmEndSessionRequestAttributes_all = 0x1"

definition SpdmEndSessionRequestPayload_spdm_encode :: "SpdmEndSessionRequestAttributes \<Rightarrow> SpdmStatus enc" where
  "SpdmEndSessionRequestPayload_spdm_encode a = encs (map BUFFER_FULL_enc [u8_encode a, u8_encode 0])"

definition SpdmEndSessionRequestPayload_spdm_read :: "SpdmEndSessionRequestAttributes rd" where
  "SpdmEndSessionRequestPayload_spdm_read r = do {
     (bits, r) \<leftarrow> u8_read r;
     a \<leftarrow> from_bits SpdmEndSessionRequestAttributes_all bits;
     (_, r) \<leftarrow> u8_read r;
     Some (a, r)
   }"

definition SpdmEndSessionResponsePayload_spdm_encode :: "SpdmStatus enc" where
  "SpdmEndSessionResponsePayload_spdm_encode = encs [BUFFER_FULL_enc (u8_encode 0), BUFFER_FULL_enc (u8_encode 0)]"

definition SpdmEndSessionResponsePayload_spdm_read :: "unit rd" where
  "SpdmEndSessionResponsePayload_spdm_read r = do { (_, r) \<leftarrow> u8_read r; (_, r) \<leftarrow> u8_read r; Some ((), r) }"

subsection \<open>Error\<close>

datatype SpdmErrorCode =
    SpdmErrorInvalidRequest
  | SpdmErrorBusy
  | SpdmErrorUnexpectedRequest
  | SpdmErrorUnspecified
  | SpdmErrorDecryptError
  | SpdmErrorUnsupportedRequest
  | SpdmErrorRequestInFlight
  | SpdmErrorInvalidResponseCode
  | SpdmErrorSessionLimitExceeded
  | SpdmErrorSessionRequired
  | SpdmErrorResetRequired
  | SpdmErrorResponseTooLarge
  | SpdmErrorRequestTooLarge
  | SpdmErrorLargeResponse
  | SpdmErrorMessageLost
  | SpdmErrorVersionMismatch
  | SpdmErrorResponseNotReady
  | SpdmErrorRequestResynch
  | SpdmErrorVendorDefined
  | SpdmErrorCodeUnknown u8

fun SpdmErrorCode_get_u8 :: "SpdmErrorCode \<Rightarrow> u8" where
  "SpdmErrorCode_get_u8 SpdmErrorInvalidRequest = 0x1"
| "SpdmErrorCode_get_u8 SpdmErrorBusy = 0x3"
| "SpdmErrorCode_get_u8 SpdmErrorUnexpectedRequest = 0x4"
| "SpdmErrorCode_get_u8 SpdmErrorUnspecified = 0x5"
| "SpdmErrorCode_get_u8 SpdmErrorDecryptError = 0x6"
| "SpdmErrorCode_get_u8 SpdmErrorUnsupportedRequest = 0x7"
| "SpdmErrorCode_get_u8 SpdmErrorRequestInFlight = 0x8"
| "SpdmErrorCode_get_u8 SpdmErrorInvalidResponseCode = 0x9"
| "SpdmErrorCode_get_u8 SpdmErrorSessionLimitExceeded = 0xA"
| "SpdmErrorCode_get_u8 SpdmErrorSessionRequired = 0xB"
| "SpdmErrorCode_get_u8 SpdmErrorResetRequired = 0xC"
| "SpdmErrorCode_get_u8 SpdmErrorResponseTooLarge = 0xD"
| "SpdmErrorCode_get_u8 SpdmErrorRequestTooLarge = 0xE"
| "SpdmErrorCode_get_u8 SpdmErrorLargeResponse = 0xF"
| "SpdmErrorCode_get_u8 SpdmErrorMessageLost = 0x10"
| "SpdmErrorCode_get_u8 SpdmErrorVersionMismatch = 0x41"
| "SpdmErrorCode_get_u8 SpdmErrorResponseNotReady = 0x42"
| "SpdmErrorCode_get_u8 SpdmErrorRequestResynch = 0x43"
| "SpdmErrorCode_get_u8 SpdmErrorVendorDefined = 0xFF"
| "SpdmErrorCode_get_u8 (SpdmErrorCodeUnknown x) = x"

definition SpdmErrorCode_of_u8 :: "u8 \<Rightarrow> SpdmErrorCode" where
  "SpdmErrorCode_of_u8 x =
    (case map_of
      [(0x1, SpdmErrorInvalidRequest),
       (0x3, SpdmErrorBusy),
       (0x4, SpdmErrorUnexpectedRequest),
       (0x5, SpdmErrorUnspecified),
       (0x6, SpdmErrorDecryptError),
       (0x7, SpdmErrorUnsupportedRequest),
       (0x8, SpdmErrorRequestInFlight),
       (0x9, SpdmErrorInvalidResponseCode),
       (0xA, SpdmErrorSessionLimitExceeded),
       (0xB, SpdmErrorSessionRequired),
       (0xC, SpdmErrorResetRequired),
       (0xD, SpdmErrorResponseTooLarge),
       (0xE, SpdmErrorRequestTooLarge),
       (0xF, SpdmErrorLargeResponse),
       (0x10, SpdmErrorMessageLost),
       (0x41, SpdmErrorVersionMismatch),
       (0x42, SpdmErrorResponseNotReady),
       (0x43, SpdmErrorRequestResynch),
       (0xFF, SpdmErrorVendorDefined)] x
     of Some c \<Rightarrow> c | None \<Rightarrow> SpdmErrorCodeUnknown x)"

record SpdmErrorResponseNotReadyExtData =
  rdt_exponent :: u8
  request_code :: u8
  token :: u8
  rdtm :: u8

record SpdmErrorResponseVendorExtData =
  vx_data_size :: u8
  vx_data :: bytes

datatype SpdmErrorResponseExtData =
    SpdmErrorExtDataNone
  | SpdmErrorExtDataNotReady SpdmErrorResponseNotReadyExtData
  | SpdmErrorExtDataVendorDefined SpdmErrorResponseVendorExtData

definition SpdmErrorResponseNotReadyExtData_spdm_encode ::
    "SpdmErrorResponseNotReadyExtData \<Rightarrow> SpdmStatus enc" where
  "SpdmErrorResponseNotReadyExtData_spdm_encode d = encs (map BUFFER_FULL_enc
    [u8_encode (rdt_exponent d), u8_encode (request_code d), u8_encode (token d), u8_encode (rdtm d)])"

definition SpdmErrorResponseNotReadyExtData_spdm_read :: "SpdmErrorResponseNotReadyExtData rd" where
  "SpdmErrorResponseNotReadyExtData_spdm_read r = do {
     (a, r) \<leftarrow> u8_read r;
     (b, r) \<leftarrow> u8_read r;
     (c, r) \<leftarrow> u8_read r;
     (d, r) \<leftarrow> u8_read r;
     Some (\<lparr>rdt_exponent = a, request_code = b, token = c, rdtm = d\<rparr>, r)
   }"

definition SpdmErrorResponseVendorExtData_spdm_encode ::
    "SpdmErrorResponseVendorExtData \<Rightarrow> SpdmStatus enc" where
  "SpdmErrorResponseVendorExtData_spdm_encode d w =
    (case encs (map (\<lambda>b. BUFFER_FULL_enc (u8_encode b)) (take (unat (vx_data_size d)) (vx_data d))) w of
      (Ok _, w) \<Rightarrow> (Ok (unat (vx_data_size d)), w)
    | (r, w) \<Rightarrow> (r, w))"

fun read_up_to :: "nat \<Rightarrow> reader \<Rightarrow> bytes \<times> reader" where
  "read_up_to 0 r = ([], r)"
| "read_up_to (Suc n) r =
    (case u8_read r of
      None \<Rightarrow> ([], r)
    | Some (b, r) \<Rightarrow> (case read_up_to n r of (bs, r) \<Rightarrow> (b # bs, r)))"

definition SpdmErrorResponseVendorExtData_spdm_read :: "SpdmErrorResponseVendorExtData rd" where
  "SpdmErrorResponseVendorExtData_spdm_read r =
    (case read_up_to 32 r of
      (bs, r) \<Rightarrow> Some (\<lparr>vx_data_size = of_nat (length bs),
        vx_data = bs @ replicate (32 - length bs) 0\<rparr>, r))"

record SpdmErrorResponsePayload =
  error_code :: SpdmErrorCode
  error_data :: u8
  extended_data :: SpdmErrorResponseExtData

fun SpdmErrorResponseExtData_spdm_encode :: "SpdmErrorResponseExtData \<Rightarrow> SpdmStatus enc" where
  "SpdmErrorResponseExtData_spdm_encode SpdmErrorExtDataNone = encs []"
| "SpdmErrorResponseExtData_spdm_encode (SpdmErrorExtDataNotReady d) =
    SpdmErrorResponseNotReadyExtData_spdm_encode d"
| "SpdmErrorResponseExtData_spdm_encode (SpdmErrorExtDataVendorDefined d) =
    SpdmErrorResponseVendorExtData_spdm_encode d"

definition SpdmErrorResponsePayload_spdm_encode :: "SpdmErrorResponsePayload \<Rightarrow> SpdmStatus enc" where
  "SpdmErrorResponsePayload_spdm_encode p = encs
    [BUFFER_FULL_enc (enum_u8_encode SpdmErrorCode_get_u8 (error_code p)),
     BUFFER_FULL_enc (u8_encode (error_data p)),
     SpdmErrorResponseExtData_spdm_encode (extended_data p)]"

definition SpdmErrorResponsePayload_spdm_read :: "SpdmErrorResponsePayload rd" where
  "SpdmErrorResponsePayload_spdm_read r = do {
     (c, r) \<leftarrow> enum_u8_read SpdmErrorCode_of_u8 r;
     (d, r) \<leftarrow> u8_read r;
     (x, r) \<leftarrow>
       (if c = SpdmErrorResponseNotReady
        then map_option (apfst SpdmErrorExtDataNotReady) (SpdmErrorResponseNotReadyExtData_spdm_read r)
        else if c = SpdmErrorVendorDefined
        then map_option (apfst SpdmErrorExtDataVendorDefined) (SpdmErrorResponseVendorExtData_spdm_read r)
        else Some (SpdmErrorExtDataNone, r));
     Some (\<lparr>error_code = c, error_data = d, extended_data = x\<rparr>, r)
   }"

subsection \<open>Messages\<close>

text \<open>\<open>SpdmMessage::spdm_encode\<close>: the header, then the payload.\<close>

definition SpdmMessage_spdm_encode ::
    "SpdmVersion \<Rightarrow> SpdmRequestResponseCode \<Rightarrow> SpdmStatus enc \<Rightarrow> SpdmStatus enc" where
  "SpdmMessage_spdm_encode v code payload = encs
    [BUFFER_FULL_enc (SpdmMessageHeader_encode \<lparr>version = v, request_response_code = code\<rparr>), payload]"

section \<open>Codecs\<close>

lemma emits_full_encs:
  "list_all2 emits es bss \<Longrightarrow> emits (encs (map BUFFER_FULL_enc es)) (concat bss)"
  by (rule emits_encs) (simp add: list.rel_map list_all2_mono [OF _ emits_BUFFER_FULL])

lemma list_all2_map_emits:
  "(\<And>x. x \<in> set xs \<Longrightarrow> emits (f x) (g x)) \<Longrightarrow> list_all2 emits (map f xs) (map g xs)"
  by (simp add: list.rel_map list.rel_refl_strong)

lemma list_all2_replicate_emits: "emits e b \<Longrightarrow> list_all2 emits (replicate n e) (replicate n b)"
  by (simp add: list_all2_conv_all_nth)

lemmas emits_fields = enum_u8_encode_def emits_u8 emits_u16 emits_u32 list_all2_appendI
  c_ms.encode_emits c_mh.encode_emits c_asym.encode_emits c_hash.encode_emits
  c_reqcap.encode_emits c_rspcap.encode_emits c_algstruct.encode_emits

lemma at_least_mono: "at_least SpdmVersion12 ni \<Longrightarrow> at_least SpdmVersion11 ni"
  by (simp add: at_least_def word_le_nat_alt)

subsection \<open>Version\<close>

lemma two_zeros [wire]:
  "emits (encs [BUFFER_FULL_enc (u8_encode 0), BUFFER_FULL_enc (u8_encode 0)]) [0, 0]"
  using emits_full_encs [of "[u8_encode 0, u8_encode 0]" "[[0], [0]]"] by (simp add: emits_u8)

interpretation c_getversion: codec "\<lambda>_. SpdmGetVersionRequestPayload_spdm_encode"
    SpdmGetVersionRequestPayload_spdm_read "\<lambda>_. [0, 0]" "\<lambda>_. True"
  by unfold_locales (simp_all add: SpdmGetVersionRequestPayload_spdm_encode_def two_zeros
      SpdmGetVersionRequestPayload_spdm_read_def)

definition version_image :: "SpdmVersionStruct \<Rightarrow> bytes" where
  "version_image v = [update v, SpdmVersion_get_u8 (v_version v)]"

definition version_valid :: "SpdmVersionStruct \<Rightarrow> bool" where
  "version_valid v \<longleftrightarrow> SpdmVersion_of_u8 (SpdmVersion_get_u8 (v_version v)) = v_version v"

interpretation c_version: codec SpdmVersionStruct_encode SpdmVersionStruct_read version_image version_valid
proof unfold_locales
  fix v
  show "emits (SpdmVersionStruct_encode v) (version_image v)"
    using emits_encs2 [OF emits_u8 emits_u8]
    by (simp add: SpdmVersionStruct_encode_def version_image_def enum_u8_encode_def)
qed (simp add: SpdmVersionStruct_read_def version_image_def version_valid_def enum_u8_read_def)

definition versions_image :: "SpdmVersionResponsePayload \<Rightarrow> bytes" where
  "versions_image p = [0, 0, 0, version_number_entry_count p] @
    concat (map version_image (take (unat (version_number_entry_count p)) (versions p)))"

definition versions_valid :: "SpdmVersionResponsePayload \<Rightarrow> bool" where
  "versions_valid p \<longleftrightarrow>
    1 \<le> unat (version_number_entry_count p) \<and>
    unat (version_number_entry_count p) \<le> MAX_SPDM_VERSION_COUNT \<and>
    length (versions p) = MAX_SPDM_VERSION_COUNT \<and>
    list_all version_valid (take (unat (version_number_entry_count p)) (versions p)) \<and>
    drop (unat (version_number_entry_count p)) (versions p) =
      replicate (MAX_SPDM_VERSION_COUNT - unat (version_number_entry_count p))
        \<lparr>update = 0, v_version = SpdmVersion10\<rparr>"

lemma read_versions_image:
  "list_all version_valid vs \<Longrightarrow> read_versions (length vs) (rd_at pre (concat (map version_image vs) @ post)) =
    Some (vs, rd_at (pre @ concat (map version_image vs)) post)"
  by (induction vs arbitrary: pre) (simp_all add: c_version.read_image)

interpretation c_versions: codec SpdmVersionResponsePayload_spdm_encode
    SpdmVersionResponsePayload_spdm_read versions_image versions_valid
proof unfold_locales
  fix p assume v: "versions_valid p"
  let ?n = "unat (version_number_entry_count p)" and ?vs = "take (unat (version_number_entry_count p)) (versions p)"
  have "list_all2 emits ([u8_encode 0, u8_encode 0, u8_encode 0, u8_encode (version_number_entry_count p)] @
      map SpdmVersionStruct_encode ?vs)
    ([[0], [0], [0], [version_number_entry_count p]] @ map version_image ?vs)"
    using v by (intro list_all2_appendI list_all2_map_emits)
      (auto simp: emits_u8 versions_valid_def list_all_iff intro: c_version.encode_emits)
  from emits_full_encs [OF this] show "emits (SpdmVersionResponsePayload_spdm_encode p) (versions_image p)"
    by (simp add: SpdmVersionResponsePayload_spdm_encode_def versions_image_def)
  fix pre post
  have len: "length ?vs = ?n" using v by (simp add: versions_valid_def)
  have n: "\<not> version_number_entry_count p < 1" "\<not> version_number_entry_count p > of_nat MAX_SPDM_VERSION_COUNT"
    using v by (auto simp: versions_valid_def word_less_nat_alt MAX_SPDM_VERSION_COUNT_def)
  have "?vs @ replicate (MAX_SPDM_VERSION_COUNT - ?n) \<lparr>update = 0, v_version = SpdmVersion10\<rparr> = versions p"
    using v by (metis append_take_drop_id versions_valid_def)
  then show "SpdmVersionResponsePayload_spdm_read (rd_at pre (versions_image p @ post)) =
      Some (p, rd_at (pre @ versions_image p) post)"
    using v n read_versions_image [of ?vs "pre @ [0, 0, 0, version_number_entry_count p]" post, unfolded len]
    by (simp add: SpdmVersionResponsePayload_spdm_read_def versions_image_def versions_valid_def)
qed

subsection \<open>Capabilities\<close>

definition getcap_image :: "SpdmNegotiateInfo \<Rightarrow> SpdmGetCapabilitiesRequestPayload \<Rightarrow> bytes" where
  "getcap_image ni p = [0, 0] @
    (if at_least SpdmVersion11 ni
     then [0, gc_ct_exponent p] @ le_bytes 2 (0 :: u16) @ le_bytes 4 (gc_flags p) else []) @
    (if at_least SpdmVersion12 ni
     then le_bytes 4 (gc_data_transfer_size p) @ le_bytes 4 (gc_max_spdm_msg_size p) else [])"

definition sizes_ok :: "SpdmNegotiateInfo \<Rightarrow> u32 \<Rightarrow> u32 \<Rightarrow> bool" where
  "sizes_ok ni d m \<longleftrightarrow> (if at_least SpdmVersion12 ni then \<not> (d < 42 \<or> m < d) else d = 0 \<and> m = 0)"

definition getcap_valid :: "SpdmNegotiateInfo \<Rightarrow> SpdmGetCapabilitiesRequestPayload \<Rightarrow> bool" where
  "getcap_valid ni p \<longleftrightarrow>
    (if at_least SpdmVersion11 ni
     then gc_flags p AND SpdmRequestCapabilityFlags_VALID_MASK = gc_flags p \<and> req_flags_ok ni (gc_flags p)
     else gc_ct_exponent p = 0 \<and> gc_flags p = 0) \<and>
    sizes_ok ni (gc_data_transfer_size p) (gc_max_spdm_msg_size p)"

interpretation c_getcap: codec "SpdmGetCapabilitiesRequestPayload_spdm_encode ni"
    "SpdmGetCapabilitiesRequestPayload_spdm_read ni" "getcap_image ni" "getcap_valid ni" for ni
proof unfold_locales
  fix p assume v: "getcap_valid ni p"
  let ?a = "if at_least SpdmVersion11 ni
     then [[0], [gc_ct_exponent p], le_bytes 2 (0 :: u16), le_bytes 4 (gc_flags p)] else []"
  let ?b = "if at_least SpdmVersion12 ni
     then [le_bytes 4 (gc_data_transfer_size p), le_bytes 4 (gc_max_spdm_msg_size p)] else []"
  have "emits (SpdmGetCapabilitiesRequestPayload_spdm_encode ni p) (concat ([[0], [0]] @ ?a @ ?b))"
    unfolding SpdmGetCapabilitiesRequestPayload_spdm_encode_def
    using v by (intro emits_full_encs list_all2_appendI) (auto simp: emits_fields getcap_valid_def)
  then show "emits (SpdmGetCapabilitiesRequestPayload_spdm_encode ni p) (getcap_image ni p)"
    by (simp add: getcap_image_def split: if_splits)
  fix pre post
  show "SpdmGetCapabilitiesRequestPayload_spdm_read ni (rd_at pre (getcap_image ni p @ post)) =
      Some (p, rd_at (pre @ getcap_image ni p) post)"
    using v at_least_mono [of ni]
    by (cases "at_least SpdmVersion11 ni"; cases "at_least SpdmVersion12 ni")
      (simp_all add: SpdmGetCapabilitiesRequestPayload_spdm_read_def getcap_image_def getcap_valid_def
        sizes_ok_def read_sizes_def c_reqcap.read_image)
qed

definition cap_image :: "SpdmNegotiateInfo \<Rightarrow> SpdmCapabilitiesResponsePayload \<Rightarrow> bytes" where
  "cap_image ni p = [0, 0, 0, cp_ct_exponent p] @ le_bytes 2 (0 :: u16) @ le_bytes 4 (cp_flags p) @
    (if at_least SpdmVersion12 ni
     then le_bytes 4 (cp_data_transfer_size p) @ le_bytes 4 (cp_max_spdm_msg_size p) else [])"

definition cap_valid :: "SpdmNegotiateInfo \<Rightarrow> SpdmCapabilitiesResponsePayload \<Rightarrow> bool" where
  "cap_valid ni p \<longleftrightarrow>
    cp_flags p AND SpdmResponseCapabilityFlags_VALID_MASK = cp_flags p \<and> rsp_flags_ok ni (cp_flags p) \<and>
    sizes_ok ni (cp_data_transfer_size p) (cp_max_spdm_msg_size p)"

lemma emits_cap:
  "emits (SpdmCapabilitiesResponsePayload_spdm_encode ni p) (cap_image ni p)"
proof -
  let ?b = "if at_least SpdmVersion12 ni
     then [le_bytes 4 (cp_data_transfer_size p), le_bytes 4 (cp_max_spdm_msg_size p)] else []"
  have "emits (SpdmCapabilitiesResponsePayload_spdm_encode ni p)
      (concat ([[0], [0], [0], [cp_ct_exponent p], le_bytes 2 (0 :: u16), le_bytes 4 (cp_flags p)] @ ?b))"
    unfolding SpdmCapabilitiesResponsePayload_spdm_encode_def SpdmResponseCapabilityFlags_encode_def
    by (intro emits_full_encs list_all2_appendI) (auto simp: emits_u8 emits_u16 emits_u32)
  then show ?thesis by (simp add: cap_image_def split: if_splits)
qed

interpretation c_cap: codec "SpdmCapabilitiesResponsePayload_spdm_encode ni"
    "SpdmCapabilitiesResponsePayload_spdm_read ni" "cap_image ni" "cap_valid ni" for ni
proof unfold_locales
  fix p pre post assume v: "cap_valid ni p"
  then show "SpdmCapabilitiesResponsePayload_spdm_read ni (rd_at pre (cap_image ni p @ post)) =
      Some (p, rd_at (pre @ cap_image ni p) post)"
    by (cases "at_least SpdmVersion12 ni")
      (simp_all add: SpdmCapabilitiesResponsePayload_spdm_read_def cap_image_def cap_valid_def
        sizes_ok_def read_sizes_def c_rspcap.read_image)
qed (rule emits_cap)

subsection \<open>Algorithms\<close>

lemma from_bits_self: "x AND all = x \<Longrightarrow> from_bits all x = Some x"
  by (simp add: from_bits_def) (metis and.assoc bit.conj_cancel_right and_zero_eq)

interpretation c_opaque: codec SpdmOpaqueSupport_encode SpdmOpaqueSupport_read
    "\<lambda>x. [x]" "\<lambda>x. x AND SpdmOpaqueSupport_VALID_MASK = x"
  by unfold_locales (simp_all add: SpdmOpaqueSupport_encode_def SpdmOpaqueSupport_read_def emits_u8
      from_bits_self)

text \<open>A list of algorithm structures the readers accept: valid, of increasing type, checked by \<open>ok\<close>.\<close>

fun alg_list_ok :: "(SpdmAlg \<Rightarrow> bool) \<Rightarrow> u8 \<Rightarrow> SpdmAlgStruct list \<Rightarrow> bool" where
  "alg_list_ok ok t [] \<longleftrightarrow> True"
| "alg_list_ok ok t (a # as) \<longleftrightarrow> SpdmAlgStruct_valid a \<and> t < SpdmAlgType_get_u8 (alg_type a) \<and>
    ok (alg_supported a) \<and> alg_list_ok ok (SpdmAlgType_get_u8 (alg_type a)) as"

lemma alg_kind_type:
  "SpdmAlgStruct_valid a \<Longrightarrow> \<exists>k. alg_kind (alg_supported a) = Some k \<and>
    unat (SpdmAlgType_get_u8 (alg_type a)) = k + 2"
  by (erule SpdmAlgStruct_valid_cases) simp_all

lemma read_alg_structs_image:
  assumes "alg_list_ok ok t as" "\<forall>k \<in> set present. k + 2 \<le> unat t"
  shows "read_alg_structs ok (length as) t present (rd_at pre (concat (map SpdmAlgStruct_image as) @ post)) =
    Some (as, rd_at (pre @ concat (map SpdmAlgStruct_image as)) post)"
  using assms
proof (induction "as" arbitrary: t present pre)
  case (Cons a "as")
  from Cons.prems(1) obtain k where k: "alg_kind (alg_supported a) = Some k"
    "unat (SpdmAlgType_get_u8 (alg_type a)) = k + 2"
    using alg_kind_type [of a] by auto
  let ?t = "SpdmAlgType_get_u8 (alg_type a)"
  have lt: "unat t < unat ?t" using Cons.prems(1) by (simp add: word_less_nat_alt)
  then have "k \<notin> set present" "\<forall>k' \<in> set (k # present). k' + 2 \<le> unat ?t"
    using Cons.prems(2) k(2) by auto
  with Cons.prems(1) k Cons.IH [of ?t "k # present" "pre @ SpdmAlgStruct_image a"] show ?case
    by (auto simp: c_algstruct.read_image)
qed simp

definition alg_tail_ok :: "SpdmNegotiateInfo \<Rightarrow> (SpdmAlg \<Rightarrow> bool) \<Rightarrow> u8 \<Rightarrow> SpdmAlgStruct list \<Rightarrow> bool" where
  "alg_tail_ok ni ok cnt as \<longleftrightarrow> length as = 4 \<and>
    (if at_least SpdmVersion11 ni
     then unat cnt \<le> 4 \<and> alg_list_ok ok 0 (take (unat cnt) as) \<and>
       drop (unat cnt) as = replicate (4 - unat cnt) SpdmAlgStruct_default
     else cnt = 0 \<and> as = replicate 4 SpdmAlgStruct_default)"

definition alg_tail_image :: "SpdmNegotiateInfo \<Rightarrow> u8 \<Rightarrow> SpdmAlgStruct list \<Rightarrow> bytes" where
  "alg_tail_image ni cnt as = replicate 12 0 @ [0, 0] @ le_bytes 2 (0 :: u16) @
    (if at_least SpdmVersion11 ni then concat (map SpdmAlgStruct_image (take (unat cnt) as)) else [])"

lemma read_reserved_rd_at [simp]:
  "length bs = n \<Longrightarrow> read_reserved n (rd_at pre (bs @ post)) = Some ((), rd_at (pre @ bs) post)"
proof -
  have "read_array (length bs) (rd_at pre (bs @ post)) = Some (bs, rd_at (pre @ bs) post)"
    by (induction bs arbitrary: pre) simp_all
  then show "length bs = n \<Longrightarrow> read_reserved n (rd_at pre (bs @ post)) = Some ((), rd_at (pre @ bs) post)"
    by (auto simp: read_reserved_def)
qed

lemma read_alg_tail_image:
  assumes "alg_tail_ok ni ok cnt as"
  shows "read_alg_tail ni ok cnt (rd_at pre (alg_tail_image ni cnt as @ post)) =
    Some (as, rd_at (pre @ alg_tail_image ni cnt as) post)"
proof (cases "at_least SpdmVersion11 ni")
  case True
  let ?as = "take (unat cnt) as"
  have len: "length ?as = unat cnt" using assms True by (simp add: alg_tail_ok_def)
  have "?as @ replicate (4 - unat cnt) SpdmAlgStruct_default = as"
    using assms True by (metis alg_tail_ok_def append_take_drop_id)
  then show ?thesis
    using assms True len read_alg_structs_image [of ok 0 ?as "[]", unfolded len]
    by (simp add: read_alg_tail_def alg_tail_image_def alg_tail_ok_def)
next
  case False
  with assms show ?thesis by (simp add: read_alg_tail_def alg_tail_image_def alg_tail_ok_def)
qed

definition alg_head_image :: "SpdmNegotiateInfo \<Rightarrow> u16 \<Rightarrow> u8 \<Rightarrow> SpdmMeasurementSpecification \<Rightarrow>
    SpdmOpaqueSupport \<Rightarrow> bytes" where
  "alg_head_image ni fixed cnt ms other =
    [if at_least SpdmVersion11 ni then cnt else 0, 0] @ le_bytes 2 (alg_length ni fixed cnt) @
    [ms, if at_least SpdmVersion12 ni then other else 0]"

definition negalg_image :: "SpdmNegotiateInfo \<Rightarrow> SpdmNegotiateAlgorithmsRequestPayload \<Rightarrow> bytes" where
  "negalg_image ni p =
    alg_head_image ni 32 (na_alg_struct_count p) (na_measurement_specification p) (na_other_params_support p) @
    le_bytes 4 (na_base_asym_algo p) @ le_bytes 4 (na_base_hash_algo p) @
    alg_tail_image ni (na_alg_struct_count p) (na_alg_struct p)"

definition other_ok :: "SpdmNegotiateInfo \<Rightarrow> SpdmOpaqueSupport \<Rightarrow> bool" where
  "other_ok ni x \<longleftrightarrow> (if at_least SpdmVersion12 ni then x AND SpdmOpaqueSupport_VALID_MASK = x else x = 0)"

definition negalg_valid :: "SpdmNegotiateInfo \<Rightarrow> SpdmNegotiateAlgorithmsRequestPayload \<Rightarrow> bool" where
  "negalg_valid ni p \<longleftrightarrow>
    na_measurement_specification p AND SpdmMeasurementSpecification_VALID_MASK = na_measurement_specification p \<and>
    other_ok ni (na_other_params_support p) \<and>
    na_base_asym_algo p AND SpdmBaseAsymAlgo_VALID_MASK = na_base_asym_algo p \<and>
    na_base_hash_algo p AND SpdmBaseHashAlgo_VALID_MASK = na_base_hash_algo p \<and>
    alg_tail_ok ni (\<lambda>_. True) (na_alg_struct_count p) (na_alg_struct p)"

lemma alg_list_ok_valid: "alg_list_ok ok t as \<Longrightarrow> a \<in> set as \<Longrightarrow> SpdmAlgStruct_valid a"
  by (induction ok t "as" rule: alg_list_ok.induct) auto

lemma emits_alg_tail:
  assumes "alg_tail_ok ni ok cnt as"
  shows "\<exists>bss. list_all2 emits (replicate 12 (u8_encode 0) @ [u8_encode 0, u8_encode 0, u16_encode 0] @
      (if at_least SpdmVersion11 ni then map SpdmAlgStruct_encode (take (unat cnt) as) else [])) bss \<and>
    concat bss = alg_tail_image ni cnt as"
proof -
  let ?xs = "if at_least SpdmVersion11 ni then map SpdmAlgStruct_image (take (unat cnt) as) else []"
  have "list_all2 emits (replicate 12 (u8_encode 0) @ [u8_encode 0, u8_encode 0, u16_encode 0] @
      (if at_least SpdmVersion11 ni then map SpdmAlgStruct_encode (take (unat cnt) as) else []))
    (replicate 12 [0] @ [[0], [0], le_bytes 2 (0 :: u16)] @ ?xs)"
    using assms by (intro list_all2_appendI list_all2_replicate_emits)
      (auto simp: emits_u8 emits_u16 alg_tail_ok_def dest: alg_list_ok_valid
        intro!: list_all2_map_emits c_algstruct.encode_emits)
  moreover have "concat (replicate 12 [0] @ [[0], [0], le_bytes 2 (0 :: u16)] @ ?xs) = alg_tail_image ni cnt as"
    by (simp add: alg_tail_image_def numeral_eq_Suc)
  ultimately show ?thesis by blast
qed

lemma read_alg_head [simp]:
  "alg_tail_ok ni ok cnt as \<Longrightarrow> read_alg_count ni (rd_at pre ((if at_least SpdmVersion11 ni then cnt else 0) # post)) =
    Some (cnt, rd_at (pre @ [if at_least SpdmVersion11 ni then cnt else 0]) post)"
  "other_ok ni x \<Longrightarrow> read_other_params ni (rd_at pre ((if at_least SpdmVersion12 ni then x else 0) # post)) =
    Some (x, rd_at (pre @ [if at_least SpdmVersion12 ni then x else 0]) post)"
  using c_opaque.read_image [of x pre post]
  by (auto simp: read_alg_count_def read_other_params_def alg_tail_ok_def other_ok_def word_less_nat_alt
      split: if_splits)

interpretation c_negalg: codec "SpdmNegotiateAlgorithmsRequestPayload_spdm_encode ni"
    "SpdmNegotiateAlgorithmsRequestPayload_spdm_read ni" "negalg_image ni" "negalg_valid ni" for ni
proof unfold_locales
  fix p assume v: "negalg_valid ni p"
  let ?cnt = "na_alg_struct_count p" and ?as = "na_alg_struct p"
  have tail: "alg_tail_ok ni (\<lambda>_. True) ?cnt ?as" and other: "other_ok ni (na_other_params_support p)"
    using v by (simp_all add: negalg_valid_def)
  obtain bss where bss: "list_all2 emits (replicate 12 (u8_encode 0) @ [u8_encode 0, u8_encode 0, u16_encode 0] @
      (if at_least SpdmVersion11 ni then map SpdmAlgStruct_encode (take (unat ?cnt) ?as) else [])) bss"
    "concat bss = alg_tail_image ni ?cnt ?as"
    using emits_alg_tail [OF tail] by blast
  have "emits (SpdmNegotiateAlgorithmsRequestPayload_spdm_encode ni p) (concat
    ([[if at_least SpdmVersion11 ni then ?cnt else 0], [0], le_bytes 2 (alg_length ni 32 ?cnt),
      [na_measurement_specification p], [if at_least SpdmVersion12 ni then na_other_params_support p else 0],
      le_bytes 4 (na_base_asym_algo p), le_bytes 4 (na_base_hash_algo p)] @ bss))"
    unfolding SpdmNegotiateAlgorithmsRequestPayload_spdm_encode_def
    using v by (intro emits_full_encs list_all2_appendI bss(1))
      (auto simp: emits_fields negalg_valid_def other_ok_def intro: c_opaque.encode_emits)
  then show "emits (SpdmNegotiateAlgorithmsRequestPayload_spdm_encode ni p) (negalg_image ni p)"
    by (simp add: negalg_image_def alg_head_image_def bss(2))
  fix pre post
  show "SpdmNegotiateAlgorithmsRequestPayload_spdm_read ni (rd_at pre (negalg_image ni p @ post)) =
      Some (p, rd_at (pre @ negalg_image ni p) post)"
    using v by (simp add: SpdmNegotiateAlgorithmsRequestPayload_spdm_read_def negalg_image_def
        alg_head_image_def negalg_valid_def read_alg_head(1) [OF tail] read_alg_head(2) [OF other]
        c_ms.read_image [where pre = "_ @ _", simplified] c_asym.read_image c_hash.read_image
        read_alg_tail_image [OF tail])
qed

definition alg_image :: "SpdmNegotiateInfo \<Rightarrow> SpdmAlgorithmsResponsePayload \<Rightarrow> bytes" where
  "alg_image ni p =
    alg_head_image ni 36 (ap_alg_struct_count p) (ap_measurement_specification_sel p)
      (ap_other_params_selection p) @
    le_bytes 4 (ap_measurement_hash_algo p) @ le_bytes 4 (ap_base_asym_sel p) @ le_bytes 4 (ap_base_hash_sel p) @
    alg_tail_image ni (ap_alg_struct_count p) (ap_alg_struct p)"

text \<open>The wire format of an ALGORITHMS response, and the selections the requester accepts.\<close>

definition alg_fields_ok :: "SpdmNegotiateInfo \<Rightarrow> (SpdmAlg \<Rightarrow> bool) \<Rightarrow> SpdmAlgorithmsResponsePayload \<Rightarrow> bool" where
  "alg_fields_ok ni ok p \<longleftrightarrow>
    ap_measurement_specification_sel p AND SpdmMeasurementSpecification_VALID_MASK =
      ap_measurement_specification_sel p \<and>
    other_ok ni (ap_other_params_selection p) \<and>
    ap_measurement_hash_algo p AND SpdmMeasurementHashAlgo_VALID_MASK = ap_measurement_hash_algo p \<and>
    ap_base_asym_sel p AND SpdmBaseAsymAlgo_VALID_MASK = ap_base_asym_sel p \<and>
    ap_base_hash_sel p AND SpdmBaseHashAlgo_VALID_MASK = ap_base_hash_sel p \<and>
    alg_tail_ok ni ok (ap_alg_struct_count p) (ap_alg_struct p)"

definition selections_ok :: "SpdmNegotiateInfo \<Rightarrow> SpdmAlgorithmsResponsePayload \<Rightarrow> bool" where
  "selections_ok ni p \<longleftrightarrow>
    is_no_more_than_one_selected (ap_measurement_specification_sel p) \<and>
    (meas_enabled ni \<longrightarrow> SpdmMeasurementSpecification_is_valid_one_select (ap_measurement_specification_sel p)) \<and>
    is_no_more_than_one_selected (ap_other_params_selection p) \<and>
    (at_least SpdmVersion12 ni \<and> (rsp_has ni SpdmResponseCap_KEY_EX_CAP \<or> psk_rsp ni) \<longrightarrow>
      SpdmOpaqueSupport_is_valid_one_select (ap_other_params_selection p)) \<and>
    is_no_more_than_one_selected (ap_measurement_hash_algo p) \<and>
    (meas_enabled ni \<longrightarrow> SpdmMeasurementHashAlgo_is_valid_one_select (ap_measurement_hash_algo p)) \<and>
    is_no_more_than_one_selected (ap_base_asym_sel p) \<and>
    (sig_enabled ni \<longrightarrow> SpdmBaseAsymAlgo_is_valid_one_select (ap_base_asym_sel p)) \<and>
    is_no_more_than_one_selected (ap_base_hash_sel p) \<and>
    (sig_enabled ni \<or> psk_enabled ni \<longrightarrow> SpdmBaseHashAlgo_is_valid_one_select (ap_base_hash_sel p))"

lemma emits_alg:
  assumes "alg_fields_ok ni ok p"
  shows "emits (SpdmAlgorithmsResponsePayload_spdm_encode ni p) (alg_image ni p)"
proof -
  let ?cnt = "ap_alg_struct_count p" and ?as = "ap_alg_struct p"
  obtain bss where bss: "list_all2 emits (replicate 12 (u8_encode 0) @ [u8_encode 0, u8_encode 0, u16_encode 0] @
      (if at_least SpdmVersion11 ni then map SpdmAlgStruct_encode (take (unat ?cnt) ?as) else [])) bss"
    "concat bss = alg_tail_image ni ?cnt ?as"
    using emits_alg_tail [of ni ok ?cnt ?as] assms by (auto simp: alg_fields_ok_def)
  have "emits (SpdmAlgorithmsResponsePayload_spdm_encode ni p) (concat
    ([[if at_least SpdmVersion11 ni then ?cnt else 0], [0], le_bytes 2 (alg_length ni 36 ?cnt),
      [ap_measurement_specification_sel p],
      [if at_least SpdmVersion12 ni then ap_other_params_selection p else 0],
      le_bytes 4 (ap_measurement_hash_algo p),
      le_bytes 4 (ap_base_asym_sel p), le_bytes 4 (ap_base_hash_sel p)] @ bss))"
    unfolding SpdmAlgorithmsResponsePayload_spdm_encode_def
    using assms by (intro emits_full_encs list_all2_appendI bss(1))
      (auto simp: emits_fields alg_fields_ok_def other_ok_def intro: c_opaque.encode_emits)
  then show ?thesis by (simp add: alg_image_def alg_head_image_def bss(2))
qed

interpretation c_alg: codec "SpdmAlgorithmsResponsePayload_spdm_encode ni"
    "SpdmAlgorithmsResponsePayload_spdm_read ni" "alg_image ni"
    "\<lambda>p. alg_fields_ok ni (alg_selection_ok ni) p \<and> selections_ok ni p" for ni
proof unfold_locales
  fix p pre post
  assume v: "alg_fields_ok ni (alg_selection_ok ni) p \<and> selections_ok ni p"
  then show "emits (SpdmAlgorithmsResponsePayload_spdm_encode ni p) (alg_image ni p)"
    by (auto intro: emits_alg)
  have tail: "alg_tail_ok ni (alg_selection_ok ni) (ap_alg_struct_count p) (ap_alg_struct p)"
    and other: "other_ok ni (ap_other_params_selection p)"
    using v by (simp_all add: alg_fields_ok_def)
  show "SpdmAlgorithmsResponsePayload_spdm_read ni (rd_at pre (alg_image ni p @ post)) =
      Some (p, rd_at (pre @ alg_image ni p) post)"
    using v by (simp add: SpdmAlgorithmsResponsePayload_spdm_read_def alg_image_def
        alg_head_image_def alg_fields_ok_def read_alg_head(1) [OF tail] read_alg_head(2) [OF other]
        c_ms.read_image [where pre = "_ @ _", simplified] c_mh.read_image c_asym.read_image
        c_hash.read_image read_alg_tail_image [OF tail])
      (auto simp: selections_ok_def)
qed

subsection \<open>Session maintenance and errors\<close>

interpretation c_heartbeat: codec "\<lambda>_. SpdmHeartbeatRequestPayload_spdm_encode"
    SpdmHeartbeatRequestPayload_spdm_read "\<lambda>_. [0, 0]" "\<lambda>_. True"
  by unfold_locales (simp_all add: SpdmHeartbeatRequestPayload_spdm_encode_def two_zeros
      SpdmHeartbeatRequestPayload_spdm_read_def)

interpretation c_heartbeat_ack: codec "\<lambda>_. SpdmHeartbeatResponsePayload_spdm_encode"
    SpdmHeartbeatResponsePayload_spdm_read "\<lambda>_. [0, 0]" "\<lambda>_. True"
  by unfold_locales (simp_all add: SpdmHeartbeatResponsePayload_spdm_encode_def two_zeros
      SpdmHeartbeatResponsePayload_spdm_read_def)

lemma SpdmKeyUpdateOperation_get_of [simp]:
  "SpdmKeyUpdateOperation_get_u8 (SpdmKeyUpdateOperation_of_u8 v) = v"
  by (simp add: SpdmKeyUpdateOperation_of_u8_def)

interpretation e_operation: enum_u8 SpdmKeyUpdateOperation_get_u8 SpdmKeyUpdateOperation_of_u8
  by unfold_locales simp

interpretation c_key_update: codec SpdmKeyUpdateRequestPayload_spdm_encode
    SpdmKeyUpdateRequestPayload_spdm_read
    "\<lambda>p. [SpdmKeyUpdateOperation_get_u8 (key_update_operation p), tag p]"
    "\<lambda>p. key_update_operation p \<in> {SpdmUpdateSingleKey, SpdmUpdateAllKeys, SpdmVerifyNewKey}"
proof unfold_locales
  fix p
  show "emits (SpdmKeyUpdateRequestPayload_spdm_encode p)
      [SpdmKeyUpdateOperation_get_u8 (key_update_operation p), tag p]"
    using emits_full_encs [of "[u8_encode (SpdmKeyUpdateOperation_get_u8 (key_update_operation p)),
        u8_encode (tag p)]" "[[SpdmKeyUpdateOperation_get_u8 (key_update_operation p)], [tag p]]"]
    by (simp add: SpdmKeyUpdateRequestPayload_spdm_encode_def enum_u8_encode_def emits_u8)
qed (auto simp: SpdmKeyUpdateRequestPayload_spdm_read_def enum_u8_read_def SpdmKeyUpdateOperation_of_u8_def)

interpretation c_end_session: codec SpdmEndSessionRequestPayload_spdm_encode
    SpdmEndSessionRequestPayload_spdm_read "\<lambda>a. [a, 0]"
    "\<lambda>a. a AND SpdmEndSessionRequestAttributes_all = a"
proof unfold_locales
  fix a
  show "emits (SpdmEndSessionRequestPayload_spdm_encode a) [a, 0]"
    using emits_full_encs [of "[u8_encode a, u8_encode 0]" "[[a], [0]]"]
    by (simp add: SpdmEndSessionRequestPayload_spdm_encode_def emits_u8)
qed (simp add: SpdmEndSessionRequestPayload_spdm_read_def from_bits_self)

interpretation c_end_session_ack: codec "\<lambda>_. SpdmEndSessionResponsePayload_spdm_encode"
    SpdmEndSessionResponsePayload_spdm_read "\<lambda>_. [0, 0]" "\<lambda>_. True"
  by unfold_locales (simp_all add: SpdmEndSessionResponsePayload_spdm_encode_def two_zeros
      SpdmEndSessionResponsePayload_spdm_read_def)

lemma SpdmErrorCode_get_of [simp]: "SpdmErrorCode_get_u8 (SpdmErrorCode_of_u8 v) = v"
  by (auto simp: SpdmErrorCode_of_u8_def split: option.split if_splits)

lemma SpdmErrorCode_extended [simp]:
  "SpdmErrorCode_of_u8 0x42 = SpdmErrorResponseNotReady" "SpdmErrorCode_of_u8 0xFF = SpdmErrorVendorDefined"
  by (simp_all add: SpdmErrorCode_of_u8_def)

interpretation e_error: enum_u8 SpdmErrorCode_get_u8 SpdmErrorCode_of_u8
  by unfold_locales simp

fun ext_image :: "SpdmErrorResponseExtData \<Rightarrow> bytes" where
  "ext_image SpdmErrorExtDataNone = []"
| "ext_image (SpdmErrorExtDataNotReady d) = [rdt_exponent d, request_code d, token d, rdtm d]"
| "ext_image (SpdmErrorExtDataVendorDefined d) = vx_data d"

definition error_image :: "SpdmErrorResponsePayload \<Rightarrow> bytes" where
  "error_image p = [SpdmErrorCode_get_u8 (error_code p), error_data p] @ ext_image (extended_data p)"

text \<open>
  The extended data has to match the code. Vendor data is read to the end of the message, so that it
  only delimits itself when it has the full 32 bytes.
\<close>

definition error_valid :: "SpdmErrorResponsePayload \<Rightarrow> bool" where
  "error_valid p \<longleftrightarrow>
    SpdmErrorCode_of_u8 (SpdmErrorCode_get_u8 (error_code p)) = error_code p \<and>
    (case extended_data p of
      SpdmErrorExtDataNone \<Rightarrow> error_code p \<notin> {SpdmErrorResponseNotReady, SpdmErrorVendorDefined}
    | SpdmErrorExtDataNotReady _ \<Rightarrow> error_code p = SpdmErrorResponseNotReady
    | SpdmErrorExtDataVendorDefined d \<Rightarrow> error_code p = SpdmErrorVendorDefined \<and>
        vx_data_size d = 32 \<and> length (vx_data d) = 32)"

lemma read_up_to_image: "read_up_to (length bs) (rd_at pre (bs @ post)) = (bs, rd_at (pre @ bs) post)"
  by (induction bs arbitrary: pre) simp_all

lemma emits_vendor:
  assumes "vx_data_size d = 32" "length (vx_data d) = 32"
  shows "emits (SpdmErrorResponseVendorExtData_spdm_encode d) (vx_data d)"
proof -
  have "list_all2 emits (map (\<lambda>b. BUFFER_FULL_enc (u8_encode b)) (vx_data d)) (map (\<lambda>b. [b]) (vx_data d))"
    by (rule list_all2_map_emits) (simp add: emits_BUFFER_FULL emits_u8)
  from emits_encs [OF this] have e: "emits (encs (map (\<lambda>b. BUFFER_FULL_enc (u8_encode b)) (vx_data d))) (vx_data d)"
    by simp
  show ?thesis
  proof (rule emitsI)
    fix out room
    assume "length (vx_data d) \<le> length (room :: bytes)"
    with assms emits_Ok [OF e this, of out] show "SpdmErrorResponseVendorExtData_spdm_encode d (wr_at out room) =
        (Ok (length (vx_data d)), wr_at (out @ vx_data d) (drop (length (vx_data d)) room))"
      by (simp add: SpdmErrorResponseVendorExtData_spdm_encode_def)
  next
    fix out room
    assume "length (room :: bytes) < length (vx_data d)"
    then obtain err k where "k \<le> length room" "encs (map (\<lambda>b. BUFFER_FULL_enc (u8_encode b)) (vx_data d))
        (wr_at out room) = (Err err, wr_at (out @ take k (vx_data d)) (drop k room))"
      by (rule emits_Err [OF e])
    with assms show "\<exists>err k. k \<le> length room \<and> SpdmErrorResponseVendorExtData_spdm_encode d (wr_at out room) =
        (Err err, wr_at (out @ take k (vx_data d)) (drop k room))"
      by (auto simp: SpdmErrorResponseVendorExtData_spdm_encode_def)
  qed
qed

lemma emits_ext:
  assumes "error_valid p"
  shows "emits (SpdmErrorResponseExtData_spdm_encode (extended_data p)) (ext_image (extended_data p))"
proof (cases "extended_data p")
  case (SpdmErrorExtDataNotReady d)
  then show ?thesis
    using emits_full_encs [of "[u8_encode (rdt_exponent d), u8_encode (request_code d), u8_encode (token d),
        u8_encode (rdtm d)]" "[[rdt_exponent d], [request_code d], [token d], [rdtm d]]"]
    by (simp add: SpdmErrorResponseNotReadyExtData_spdm_encode_def emits_u8)
qed (use assms in \<open>auto simp: error_valid_def emits_encs_Nil intro: emits_vendor\<close>)

interpretation c_error: codec SpdmErrorResponsePayload_spdm_encode SpdmErrorResponsePayload_spdm_read
    error_image error_valid
proof unfold_locales
  fix p assume v: "error_valid p"
  have "emits (SpdmErrorResponsePayload_spdm_encode p) (concat [[SpdmErrorCode_get_u8 (error_code p)],
      [error_data p], ext_image (extended_data p)])"
    unfolding SpdmErrorResponsePayload_spdm_encode_def
    by (rule emits_encs) (simp add: emits_BUFFER_FULL enum_u8_encode_def emits_u8 emits_ext [OF v])
  then show "emits (SpdmErrorResponsePayload_spdm_encode p) (error_image p)" by (simp add: error_image_def)
  fix pre post
  show "SpdmErrorResponsePayload_spdm_read (rd_at pre (error_image p @ post)) =
      Some (p, rd_at (pre @ error_image p) post)"
  proof (cases "extended_data p")
    case (SpdmErrorExtDataVendorDefined d)
    with v read_up_to_image [of "vx_data d" "pre @ [SpdmErrorCode_get_u8 (error_code p), error_data p]" post]
    show ?thesis
      by (simp add: SpdmErrorResponsePayload_spdm_read_def error_image_def error_valid_def enum_u8_read_def
          SpdmErrorResponseVendorExtData_spdm_read_def)
  qed (use v in \<open>simp_all add: SpdmErrorResponsePayload_spdm_read_def error_image_def error_valid_def
      enum_u8_read_def SpdmErrorResponseNotReadyExtData_spdm_read_def\<close>)
qed

subsection \<open>Encoding, transmission and decoding\<close>

text \<open>
  A payload is transmitted when encoding it into any buffer that is large enough writes exactly the
  bytes \<open>bs\<close>, decoding those bytes returns the payload with nothing left over, and encoding into a
  smaller buffer reports an error.
\<close>

definition transmits :: "'e enc \<Rightarrow> 'a rd \<Rightarrow> 'a \<Rightarrow> bytes \<Rightarrow> bool" where
  "transmits enc rd x bs \<longleftrightarrow>
    rd (reader_init bs) = Some (x, rd_at bs []) \<and>
    (\<forall>buf. if length bs \<le> length buf
       then fst (enc (writer_init buf)) = Ok (length bs) \<and>
         writer_used_slice (snd (enc (writer_init buf))) = bs
       else \<exists>err. fst (enc (writer_init buf)) = Err err)"

context codec
begin

lemma transmission:
  assumes "valid x"
  shows "transmits (encode x) read x (image x)"
  unfolding transmits_def writer_init_wr_at reader_init_rd_at
proof (intro conjI allI)
  show "read (rd_at [] (image x)) = Some (x, rd_at (image x) [])"
    using read_image [OF assms, of "[]" "[]"] by simp
  fix buf
  show "if length (image x) \<le> length buf
    then fst (encode x (wr_at [] buf)) = Ok (length (image x)) \<and>
      writer_used_slice (snd (encode x (wr_at [] buf))) = image x
    else \<exists>err. fst (encode x (wr_at [] buf)) = Err err"
  proof (cases "length (image x) \<le> length buf")
    case True
    then show ?thesis using emits_Ok [OF encode_emits [OF assms] True, of "[]"] by simp
  next
    case False
    then show ?thesis
      using emits_Err [OF encode_emits [OF assms], of buf "[]" "\<exists>err. fst (encode x (wr_at [] buf)) = Err err"]
      by auto
  qed
qed

end

definition sample_negotiate_info :: SpdmNegotiateInfo where
  "sample_negotiate_info = SpdmNegotiateInfo_default\<lparr>
    spdm_version_sel := SpdmVersion12,
    req_capabilities_sel := SpdmRequestCap_CERT_CAP OR SpdmRequestCap_KEY_EX_CAP OR SpdmRequestCap_MAC_CAP OR
      SpdmRequestCap_ENCRYPT_CAP OR SpdmRequestCap_CHAL_CAP,
    rsp_capabilities_sel := SpdmResponseCap_CERT_CAP OR SpdmResponseCap_KEY_EX_CAP OR SpdmResponseCap_MAC_CAP OR
      SpdmResponseCap_ENCRYPT_CAP OR SpdmResponseCap_CHAL_CAP OR SpdmResponseCap_MEAS_CAP_SIG\<rparr>"

definition sample_algs :: "SpdmAlgStruct list" where
  "sample_algs = [
    \<lparr>alg_type = SpdmAlgTypeDHE, alg_supported = SpdmAlgoDhe SpdmDheAlgo_SECP_384_R1\<rparr>,
    \<lparr>alg_type = SpdmAlgTypeAEAD, alg_supported = SpdmAlgoAead SpdmAeadAlgo_AES_256_GCM\<rparr>,
    \<lparr>alg_type = SpdmAlgTypeReqAsym, alg_supported = SpdmAlgoReqAsym SpdmReqAsymAlgo_TPM_ALG_RSAPSS_2048\<rparr>,
    \<lparr>alg_type = SpdmAlgTypeKeySchedule,
     alg_supported = SpdmAlgoKeySchedule SpdmKeyScheduleAlgo_SPDM_KEY_SCHEDULE\<rparr>]"

definition sample_negalg :: SpdmNegotiateAlgorithmsRequestPayload where
  "sample_negalg = \<lparr>na_measurement_specification = SpdmMeasurementSpecification_DMTF,
    na_other_params_support = SpdmOpaqueSupport_OPAQUE_DATA_FMT1,
    na_base_asym_algo = SpdmBaseAsymAlgo_TPM_ALG_ECDSA_ECC_NIST_P384,
    na_base_hash_algo = SpdmBaseHashAlgo_TPM_ALG_SHA_384,
    na_alg_struct_count = 4, na_alg_struct = sample_algs\<rparr>"

definition sample_alg :: SpdmAlgorithmsResponsePayload where
  "sample_alg = \<lparr>ap_measurement_specification_sel = SpdmMeasurementSpecification_DMTF,
    ap_other_params_selection = SpdmOpaqueSupport_OPAQUE_DATA_FMT1,
    ap_measurement_hash_algo = SpdmMeasurementHashAlgo_TPM_ALG_SHA_384,
    ap_base_asym_sel = SpdmBaseAsymAlgo_TPM_ALG_ECDSA_ECC_NIST_P384,
    ap_base_hash_sel = SpdmBaseHashAlgo_TPM_ALG_SHA_384,
    ap_alg_struct_count = 4, ap_alg_struct = sample_algs\<rparr>"

definition sample_versions :: SpdmVersionResponsePayload where
  "sample_versions = \<lparr>version_number_entry_count = 3,
    versions = map (\<lambda>v. \<lparr>update = 0, v_version = v\<rparr>) [SpdmVersion10, SpdmVersion11, SpdmVersion12]\<rparr>"

text \<open>
  C21: The negotiation messages of both sides (VERSION, GET_CAPABILITIES, CAPABILITIES,
  NEGOTIATE_ALGORITHMS, ALGORITHMS) survive encoding and decoding in every protocol version: any
  payload that passes the decoder's checks is written in its wire format, whose optional fields depend
  on the negotiated version, and read back unchanged; a buffer too small is reported.
\<close>

theorem negotiation_messages_round_trip:
  assumes "versions_valid v" "getcap_valid ni q" "cap_valid ni c" "negalg_valid ni a"
    "alg_fields_ok ni (alg_selection_ok ni) s" "selections_ok ni s"
  shows "transmits (SpdmVersionResponsePayload_spdm_encode v) SpdmVersionResponsePayload_spdm_read v
      (versions_image v) \<and>
    transmits (SpdmGetCapabilitiesRequestPayload_spdm_encode ni q)
      (SpdmGetCapabilitiesRequestPayload_spdm_read ni) q (getcap_image ni q) \<and>
    transmits (SpdmCapabilitiesResponsePayload_spdm_encode ni c)
      (SpdmCapabilitiesResponsePayload_spdm_read ni) c (cap_image ni c) \<and>
    transmits (SpdmNegotiateAlgorithmsRequestPayload_spdm_encode ni a)
      (SpdmNegotiateAlgorithmsRequestPayload_spdm_read ni) a (negalg_image ni a) \<and>
    transmits (SpdmAlgorithmsResponsePayload_spdm_encode ni s)
      (SpdmAlgorithmsResponsePayload_spdm_read ni) s (alg_image ni s)"
  using assms
  by (simp add: c_versions.transmission c_getcap.transmission c_cap.transmission c_negalg.transmission
      c_alg.transmission)

theorem negotiation_messages_round_trip_witness:
  "transmits (SpdmAlgorithmsResponsePayload_spdm_encode sample_negotiate_info sample_alg)
      (SpdmAlgorithmsResponsePayload_spdm_read sample_negotiate_info) sample_alg
      (alg_image sample_negotiate_info sample_alg) \<and>
    length (alg_image sample_negotiate_info sample_alg) = 50"
proof -
  let ?ni = sample_negotiate_info
  let ?q = "\<lparr>gc_ct_exponent = 0, gc_flags = req_capabilities_sel ?ni,
    gc_data_transfer_size = 0x1200, gc_max_spdm_msg_size = 0x1200\<rparr>"
  let ?c = "\<lparr>cp_ct_exponent = 0, cp_flags = rsp_capabilities_sel ?ni,
    cp_data_transfer_size = 0x1200, cp_max_spdm_msg_size = 0x1200\<rparr>"
  have "versions_valid sample_versions" by code_simp
  moreover have "getcap_valid ?ni ?q" by code_simp
  moreover have "cap_valid ?ni ?c" by code_simp
  moreover have "negalg_valid ?ni sample_negalg" by code_simp
  moreover have "alg_fields_ok ?ni (alg_selection_ok ?ni) sample_alg" by code_simp
  moreover have "selections_ok ?ni sample_alg" by code_simp
  ultimately have "transmits (SpdmAlgorithmsResponsePayload_spdm_encode ?ni sample_alg)
      (SpdmAlgorithmsResponsePayload_spdm_read ?ni) sample_alg (alg_image ?ni sample_alg)"
    using negotiation_messages_round_trip by blast
  moreover have "length (alg_image ?ni sample_alg) = 50" by code_simp
  ultimately show ?thesis ..
qed

text \<open>
  The messages that maintain a session (HEARTBEAT, KEY_UPDATE and END_SESSION with their
  acknowledgements) and the ERROR response with each kind of extended data survive encoding and
  decoding, with the wire format given.
\<close>

theorem maintenance_messages_round_trip:
  assumes "key_update_operation k \<in> {SpdmUpdateSingleKey, SpdmUpdateAllKeys, SpdmVerifyNewKey}"
    and "a AND SpdmEndSessionRequestAttributes_all = a" and "error_valid e"
  shows "transmits SpdmHeartbeatRequestPayload_spdm_encode SpdmHeartbeatRequestPayload_spdm_read () [0, 0] \<and>
    transmits SpdmHeartbeatResponsePayload_spdm_encode SpdmHeartbeatResponsePayload_spdm_read () [0, 0] \<and>
    transmits (SpdmKeyUpdateRequestPayload_spdm_encode k) SpdmKeyUpdateRequestPayload_spdm_read k
      [SpdmKeyUpdateOperation_get_u8 (key_update_operation k), tag k] \<and>
    transmits (SpdmEndSessionRequestPayload_spdm_encode a) SpdmEndSessionRequestPayload_spdm_read a [a, 0] \<and>
    transmits SpdmEndSessionResponsePayload_spdm_encode SpdmEndSessionResponsePayload_spdm_read () [0, 0] \<and>
    transmits (SpdmErrorResponsePayload_spdm_encode e) SpdmErrorResponsePayload_spdm_read e (error_image e)"
  using c_heartbeat.transmission c_heartbeat_ack.transmission c_key_update.transmission [of k]
    c_end_session.transmission [of a] c_end_session_ack.transmission c_error.transmission [of e] assms
  by simp

theorem maintenance_messages_round_trip_witness:
  "transmits (SpdmErrorResponsePayload_spdm_encode
      \<lparr>error_code = SpdmErrorResponseNotReady, error_data = 0, extended_data = SpdmErrorExtDataNotReady
        \<lparr>rdt_exponent = 1, request_code = 0x83, token = 7, rdtm = 2\<rparr>\<rparr>)
    SpdmErrorResponsePayload_spdm_read
      \<lparr>error_code = SpdmErrorResponseNotReady, error_data = 0, extended_data = SpdmErrorExtDataNotReady
        \<lparr>rdt_exponent = 1, request_code = 0x83, token = 7, rdtm = 2\<rparr>\<rparr>
    [0x42, 0, 1, 0x83, 7, 2]"
  using maintenance_messages_round_trip [of "\<lparr>key_update_operation = SpdmUpdateAllKeys, tag = 5\<rparr>" 0
      "\<lparr>error_code = SpdmErrorResponseNotReady, error_data = 0, extended_data = SpdmErrorExtDataNotReady
        \<lparr>rdt_exponent = 1, request_code = 0x83, token = 7, rdtm = 2\<rparr>\<rparr>"]
  by (simp add: error_valid_def error_image_def)


end
