(* ===== verification/Responder.thy ===== *)
theory Responder
  imports Messages
begin

text \<open>
  The responder's send path and its negotiation handlers
  (\<open>src/spdmlib/src/responder/\<close>: \<open>context.rs\<close>, \<open>error_rsp.rs\<close>, \<open>version_rsp.rs\<close>,
  \<open>capability_rsp.rs\<close>, \<open>algorithm_rsp.rs\<close>).

  \<^item> A \<open>write_*\<close> function takes the writer and the context and returns both; it can only return or
    panic. An early return after \<open>write_spdm_error\<close> is a branch that ends in \<open>fail_with\<close>.
  \<^item> The device is a parameter: \<open>p_send\<close> answers each frame, given the frames it was handed before and
    whether it accepted them. \<open>ResponderContext\<close> holds the common context and that record.
  \<^item> \<open>send_message\<close> replaces a message that exceeds the requester's transfer size by an ERROR and calls
    itself; it is defined as a partial function whose value \<open>None\<close> means that it does not return.
  \<^item> The lemmas show what each handler writes and how it changes the context, that the transfer size
    stays one for which sending returns, and which order of requests the connection state enforces.
\<close>

section \<open>Definitions\<close>

record 'h platform =
  p_crypto :: "'h crypto"
  p_transport :: transport
  p_send :: "(bytes \<times> bool) list \<Rightarrow> bytes \<Rightarrow> unit SpdmResult"

record 'h ResponderContext =
  common :: "'h SpdmContext"
  sent :: "(bytes \<times> bool) list"

definition ResponderContext_new :: "SpdmConfigInfo \<Rightarrow> SpdmProvisionInfo \<Rightarrow> 'h ResponderContext" where
  "ResponderContext_new cfg prov = \<lparr>common = SpdmContext_new cfg prov, sent = []\<rparr>"

subsection \<open>Errors\<close>

definition write_spdm_error :: "SpdmErrorCode \<Rightarrow> u8 \<Rightarrow> writer \<Rightarrow> 'h SpdmContext \<Rightarrow> writer" where
  "write_spdm_error code d w c =
    snd (SpdmMessage_spdm_encode (spdm_version_sel (negotiate_info c)) SpdmResponseError
      (SpdmErrorResponsePayload_spdm_encode
        \<lparr>error_code = code, error_data = d, extended_data = SpdmErrorExtDataNone\<rparr>) w)"

definition fail_with ::
    "SpdmErrorCode \<Rightarrow> writer \<Rightarrow> 'h SpdmContext \<Rightarrow> (writer \<times> 'h SpdmContext) SpdmResult" where
  "fail_with code w c = Ok (write_spdm_error code 0 w c, c)"

definition write_error_response ::
    "SpdmErrorCode \<Rightarrow> bytes \<Rightarrow> writer \<Rightarrow> 'h SpdmContext \<Rightarrow> (writer \<times> 'h SpdmContext) SpdmResult" where
  "write_error_response code bs w c =
    (case SpdmMessageHeader_read (reader_init bs) of
      None \<Rightarrow> fail_with SpdmErrorInvalidRequest w c
    | Some (h, r) \<Rightarrow>
        if version h \<noteq> spdm_version_sel (negotiate_info c) then fail_with SpdmErrorVersionMismatch w c
        else Ok (write_spdm_error code
          (if code = SpdmErrorUnsupportedRequest
           then SpdmRequestResponseCode_get_u8 (request_response_code h) else 0) w c, c))"

definition send_writer :: writer where
  "send_writer = writer_init (replicate MAX_SPDM_MSG_SIZE 0)"

subsection \<open>Sending\<close>

abbreviation upd_common :: "('h SpdmContext \<Rightarrow> 'h SpdmContext) \<Rightarrow> 'h ResponderContext \<Rightarrow> 'h ResponderContext" where
  "upd_common f rc \<equiv> rc\<lparr>common := f (common rc)\<rparr>"

definition raise_connection_state :: "SpdmConnectionState \<Rightarrow> 'h SpdmContext \<Rightarrow> 'h SpdmContext" where
  "raise_connection_state st c =
    (if SpdmConnectionState_get_u8 (connection_state (runtime_info c)) < SpdmConnectionState_get_u8 st
     then set_connection_state st c else c)"

text \<open>The change of state after \<open>device_io.send\<close> succeeded, decided by the second byte of the message.\<close>

definition after_send :: "bytes \<Rightarrow> 'h SpdmContext \<Rightarrow> unit SpdmResult \<times> 'h SpdmContext" where
  "after_send send_buffer c =
    (if length send_buffer \<le> 1 then (Panic, c)
     else let opcode = send_buffer ! 1 in
       if opcode = SpdmRequestResponseCode_get_u8 SpdmResponseVersion
       then (Ok (), set_connection_state SpdmConnectionAfterVersion c)
       else if opcode = SpdmRequestResponseCode_get_u8 SpdmResponseCapabilities
       then (Ok (), set_connection_state SpdmConnectionAfterCapabilities c)
       else if opcode = SpdmRequestResponseCode_get_u8 SpdmResponseAlgorithms
       then (Ok (), set_connection_state SpdmConnectionNegotiated c)
       else if opcode = SpdmRequestResponseCode_get_u8 SpdmResponseDigests
       then (Ok (), raise_connection_state SpdmConnectionAfterDigest c)
       else if opcode = SpdmRequestResponseCode_get_u8 SpdmResponseCertificate
       then (Ok (), raise_connection_state SpdmConnectionAfterCertificate c)
       else if opcode = SpdmRequestResponseCode_get_u8 SpdmResponseChallengeAuth
       then (Ok (), set_connection_state SpdmConnectionAuthenticated c)
       else if opcode = SpdmRequestResponseCode_get_u8 SpdmResponseFinishRsp
       then (case last_session_id (runtime_info c) of
           None \<Rightarrow> (Panic, c)
         | Some sid \<Rightarrow>
             (case on_session sid Panic (\<lambda>s. (Ok (), set_session_state SpdmSessionEstablished s)) c of
               (Ok _, c) \<Rightarrow> (Ok (), set_last_session_id None c)
             | (r, c) \<Rightarrow> (r, c)))
       else (Ok (), c))"

definition device_send ::
    "'h platform \<Rightarrow> bytes \<Rightarrow> ('h SpdmContext \<Rightarrow> unit SpdmResult \<times> 'h SpdmContext) \<Rightarrow>
      'h ResponderContext \<Rightarrow> unit SpdmResult \<times> 'h ResponderContext" where
  "device_send p frame after rc =
    (case p_send p (sent rc) frame of
      Ok _ \<Rightarrow> (case after (common rc) of (r, c) \<Rightarrow> (r, \<lparr>common = c, sent = sent rc @ [(frame, True)]\<rparr>))
    | Err e \<Rightarrow> (Err e, rc\<lparr>sent := sent rc @ [(frame, False)]\<rparr>)
    | Panic \<Rightarrow> (Panic, rc))"

definition too_large :: "bytes \<Rightarrow> 'h SpdmContext \<Rightarrow> bool" where
  "too_large send_buffer c \<longleftrightarrow>
    req_data_transfer_size_sel (negotiate_info c) \<noteq> 0 \<and>
    length send_buffer > unat (req_data_transfer_size_sel (negotiate_info c))"

definition too_large_response :: "'h SpdmContext \<Rightarrow> bytes" where
  "too_large_response c = writer_used_slice (write_spdm_error SpdmErrorResponseTooLarge 0 send_writer c)"

definition send_frame ::
    "'h platform \<Rightarrow> bytes \<Rightarrow> 'h ResponderContext \<Rightarrow> unit SpdmResult \<times> 'h ResponderContext" where
  "send_frame p send_buffer rc =
    (case encap (p_transport p) send_buffer (replicate SENDER_BUFFER_SIZE 0) of
      (Err e, _) \<Rightarrow> (Err e, rc)
    | (Panic, _) \<Rightarrow> (Panic, rc)
    | (Ok used, transport_buffer) \<Rightarrow>
        device_send p (take used transport_buffer) (after_send send_buffer) rc)"

partial_function (option) send_message ::
    "'h platform \<Rightarrow> bytes \<Rightarrow> 'h ResponderContext \<Rightarrow> (unit SpdmResult \<times> 'h ResponderContext) option" where
  [code]: "send_message p send_buffer rc =
    (if too_large send_buffer (common rc) then send_message p (too_large_response (common rc)) rc
     else Some (send_frame p send_buffer rc))"

definition after_send_secured :: "u32 \<Rightarrow> bytes \<Rightarrow> 'h SpdmContext \<Rightarrow> unit SpdmResult \<times> 'h SpdmContext" where
  "after_send_secured sid send_buffer c =
    (if length send_buffer \<le> 1 then (Panic, c)
     else let opcode = send_buffer ! 1 in
       if opcode = SpdmRequestResponseCode_get_u8 SpdmResponseEndSessionAck
       then (case on_session sid Panic (session_teardown sid) c of
           (Panic, c) \<Rightarrow> (Panic, c)
         | (_, c) \<Rightarrow> (Ok (), c))
       else if opcode = SpdmRequestResponseCode_get_u8 SpdmResponseFinishRsp
         \<or> opcode = SpdmRequestResponseCode_get_u8 SpdmResponsePskFinishRsp
       then on_session sid Panic (\<lambda>s. (Ok (), set_session_state SpdmSessionEstablished s)) c
       else (Ok (), c))"

definition send_secured_frame ::
    "'h platform \<Rightarrow> u32 \<Rightarrow> bytes \<Rightarrow> bool \<Rightarrow> 'h ResponderContext \<Rightarrow>
      unit SpdmResult \<times> 'h ResponderContext" where
  "send_secured_frame p sid send_buffer is_app rc =
    (case encode_secured_message (p_crypto p) (p_transport p) sid send_buffer
        (replicate SENDER_BUFFER_SIZE 0) False is_app (common rc) of
      ((Err e, _), c) \<Rightarrow> (Err e, rc\<lparr>common := c\<rparr>)
    | ((Panic, _), c) \<Rightarrow> (Panic, rc\<lparr>common := c\<rparr>)
    | ((Ok used, transport_buffer), c) \<Rightarrow>
        device_send p (take used transport_buffer) (after_send_secured sid send_buffer)
          (rc\<lparr>common := c\<rparr>))"

partial_function (option) send_secured_message ::
    "'h platform \<Rightarrow> u32 \<Rightarrow> bytes \<Rightarrow> bool \<Rightarrow> 'h ResponderContext \<Rightarrow>
      (unit SpdmResult \<times> 'h ResponderContext) option" where
  [code]: "send_secured_message p sid send_buffer is_app rc =
    (if \<not> is_app \<and> too_large send_buffer (common rc)
     then send_secured_message p sid (too_large_response (common rc)) is_app rc
     else Some (send_secured_frame p sid send_buffer is_app rc))"

text \<open>The common end of the handlers: what was written is sent, inside the session if there is one.\<close>

definition send_written ::
    "'h platform \<Rightarrow> u32 option \<Rightarrow> (writer \<Rightarrow> 'h SpdmContext \<Rightarrow> (writer \<times> 'h SpdmContext) SpdmResult) \<Rightarrow>
      'h ResponderContext \<Rightarrow> (unit SpdmResult \<times> 'h ResponderContext) option" where
  "send_written p sid write rc =
    (case write send_writer (common rc) of
      Ok (w, c) \<Rightarrow>
        (case sid of
          None \<Rightarrow> send_message p (writer_used_slice w) (rc\<lparr>common := c\<rparr>)
        | Some sid \<Rightarrow> send_secured_message p sid (writer_used_slice w) False (rc\<lparr>common := c\<rparr>))
    | Err e \<Rightarrow> Some (Err e, rc)
    | Panic \<Rightarrow> Some (Panic, rc))"

definition handle_error_request ::
    "'h platform \<Rightarrow> SpdmErrorCode \<Rightarrow> u32 option \<Rightarrow> bytes \<Rightarrow> 'h ResponderContext \<Rightarrow>
      (unit SpdmResult \<times> 'h ResponderContext) option" where
  "handle_error_request p code sid bs = send_written p sid (write_error_response code bs)"

definition send_spdm_error ::
    "'h platform \<Rightarrow> SpdmErrorCode \<Rightarrow> u8 \<Rightarrow> 'h ResponderContext \<Rightarrow>
      (unit SpdmResult \<times> 'h ResponderContext) option" where
  "send_spdm_error p code d rc =
    map_option (\<lambda>(r, rc). (case r of Panic \<Rightarrow> Panic | _ \<Rightarrow> Ok (), rc))
      (send_message p (writer_used_slice (write_spdm_error code d send_writer (common rc))) rc)"

subsection \<open>Negotiation\<close>

definition with_message_a ::
    "bytes \<Rightarrow> writer \<Rightarrow> 'h SpdmContext \<Rightarrow> ('h SpdmContext \<Rightarrow> (writer \<times> 'h SpdmContext) SpdmResult) \<Rightarrow>
      (writer \<times> 'h SpdmContext) SpdmResult" where
  "with_message_a bs w c k =
    (case append_message_a bs c of
      (Ok _, c) \<Rightarrow> k c
    | (Err _, c) \<Rightarrow> fail_with SpdmErrorUnspecified w c
    | (Panic, c) \<Rightarrow> Panic)"

definition with_response ::
    "SpdmRequestResponseCode \<Rightarrow> SpdmVersion \<Rightarrow> SpdmStatus enc \<Rightarrow> writer \<Rightarrow> 'h SpdmContext \<Rightarrow>
      (writer \<Rightarrow> (writer \<times> 'h SpdmContext) SpdmResult) \<Rightarrow> (writer \<times> 'h SpdmContext) SpdmResult" where
  "with_response code v payload w c k =
    (case SpdmMessage_spdm_encode v code payload w of
      (Ok _, w) \<Rightarrow> k w
    | (Err _, w) \<Rightarrow> fail_with SpdmErrorUnspecified w c
    | (Panic, w) \<Rightarrow> Panic)"

text \<open>The end of the three negotiation handlers: the response is encoded and added to the transcript.\<close>

definition respond_a ::
    "SpdmRequestResponseCode \<Rightarrow> SpdmVersion \<Rightarrow> SpdmStatus enc \<Rightarrow> writer \<Rightarrow> 'h SpdmContext \<Rightarrow>
      (writer \<times> 'h SpdmContext) SpdmResult" where
  "respond_a code v payload w c =
    with_response code v payload w c (\<lambda>w.
      with_message_a (writer_used_slice w) w c (\<lambda>c. Ok (w, c)))"

definition write_spdm_version_response ::
    "bytes \<Rightarrow> writer \<Rightarrow> 'h SpdmContext \<Rightarrow> (writer \<times> 'h SpdmContext) SpdmResult" where
  "write_spdm_version_response bs w c =
    (case SpdmMessageHeader_read (reader_init bs) of
      None \<Rightarrow> fail_with SpdmErrorInvalidRequest w c
    | Some (h, r) \<Rightarrow>
        if version h \<noteq> SpdmVersion10 then fail_with SpdmErrorVersionMismatch w c
        else let c = reset_buffer_via_request_code SpdmRequestGetVersion None c in
          (case SpdmGetVersionRequestPayload_spdm_read r of
            None \<Rightarrow> fail_with SpdmErrorInvalidRequest w c
          | Some (_, r) \<Rightarrow>
              with_message_a (take (reader_used r) bs) w (reset_context c) (\<lambda>c.
                case spdm_version (config_info c) of
                  [v0, v1, v2] \<Rightarrow>
                    respond_a SpdmResponseVersion SpdmVersion10
                      (SpdmVersionResponsePayload_spdm_encode
                        \<lparr>version_number_entry_count = 3,
                         versions = [\<lparr>update = 0, v_version = v0\<rparr>, \<lparr>update = 0, v_version = v1\<rparr>,
                           \<lparr>update = 0, v_version = v2\<rparr>]\<rparr>) w c
                | _ \<Rightarrow> Panic)))"

definition handle_spdm_version ::
    "'h platform \<Rightarrow> bytes \<Rightarrow> 'h ResponderContext \<Rightarrow> (unit SpdmResult \<times> 'h ResponderContext) option" where
  "handle_spdm_version p bs = send_written p None (write_spdm_version_response bs)"

definition select_capabilities ::
    "SpdmConfigInfo \<Rightarrow> SpdmGetCapabilitiesRequestPayload \<Rightarrow> SpdmNegotiateInfo \<Rightarrow> SpdmNegotiateInfo" where
  "select_capabilities cfg q ni =
    (let ni = ni\<lparr>req_ct_exponent_sel := gc_ct_exponent q,
         req_capabilities_sel := gc_flags q,
         rsp_ct_exponent_sel := rsp_ct_exponent cfg,
         rsp_capabilities_sel := rsp_capabilities cfg\<rparr>
     in if at_least SpdmVersion12 ni
        then ni\<lparr>req_data_transfer_size_sel := gc_data_transfer_size q,
          req_max_spdm_msg_size_sel := gc_max_spdm_msg_size q,
          rsp_data_transfer_size_sel := data_transfer_size cfg,
          rsp_max_spdm_msg_size_sel := c_max_spdm_msg_size cfg\<rparr>
        else ni)"

definition write_spdm_capability_response ::
    "bytes \<Rightarrow> writer \<Rightarrow> 'h SpdmContext \<Rightarrow> (writer \<times> 'h SpdmContext) SpdmResult" where
  "write_spdm_capability_response bs w c =
    (if connection_state (runtime_info c) \<noteq> SpdmConnectionAfterVersion
     then fail_with SpdmErrorUnexpectedRequest w c
     else case SpdmMessageHeader_read (reader_init bs) of
       None \<Rightarrow> fail_with SpdmErrorInvalidRequest w c
     | Some (h, r) \<Rightarrow>
         if SpdmVersion_get_u8 (version h) < SpdmVersion_get_u8 SpdmVersion10
         then fail_with SpdmErrorInvalidRequest w c
         else
           let c = upd_neg (spdm_version_sel_update (\<lambda>_. version h)) c;
               c = reset_buffer_via_request_code SpdmRequestGetCapabilities None c
           in (case SpdmGetCapabilitiesRequestPayload_spdm_read (negotiate_info c) r of
               None \<Rightarrow> fail_with SpdmErrorInvalidRequest w c
             | Some (q, r) \<Rightarrow>
                 with_message_a (take (reader_used r) bs) w
                   (upd_neg (select_capabilities (config_info c) q) c) (\<lambda>c.
                     respond_a SpdmResponseCapabilities (spdm_version_sel (negotiate_info c))
                       (SpdmCapabilitiesResponsePayload_spdm_encode (negotiate_info c)
                         \<lparr>cp_ct_exponent = rsp_ct_exponent (config_info c),
                          cp_flags = rsp_capabilities (config_info c),
                          cp_data_transfer_size = data_transfer_size (config_info c),
                          cp_max_spdm_msg_size = c_max_spdm_msg_size (config_info c)\<rparr>) w c)))"

definition handle_spdm_capability ::
    "'h platform \<Rightarrow> bytes \<Rightarrow> 'h ResponderContext \<Rightarrow> (unit SpdmResult \<times> 'h ResponderContext) option" where
  "handle_spdm_capability p bs = send_written p None (write_spdm_capability_response bs)"

fun take_alg :: "SpdmAlg \<Rightarrow> SpdmNegotiateInfo \<Rightarrow> SpdmNegotiateInfo" where
  "take_alg (SpdmAlgoDhe v) ni = ni\<lparr>dhe_sel := v\<rparr>"
| "take_alg (SpdmAlgoAead v) ni = ni\<lparr>aead_sel := v\<rparr>"
| "take_alg (SpdmAlgoReqAsym v) ni = ni\<lparr>req_asym_sel := v\<rparr>"
| "take_alg (SpdmAlgoKeySchedule v) ni = ni\<lparr>key_schedule_sel := v\<rparr>"
| "take_alg SpdmAlgoUnknown ni = ni"

definition take_algorithms :: "SpdmNegotiateAlgorithmsRequestPayload \<Rightarrow> SpdmNegotiateInfo \<Rightarrow> SpdmNegotiateInfo" where
  "take_algorithms q ni =
    foldl (\<lambda>ni a. take_alg (alg_supported a) ni)
      (ni\<lparr>measurement_specification_sel := na_measurement_specification q,
        base_hash_sel := na_base_hash_algo q, base_asym_sel := na_base_asym_algo q\<rparr>)
      (take (unat (na_alg_struct_count q)) (na_alg_struct q))"

definition select_algorithms :: "SpdmConfigInfo \<Rightarrow> SpdmNegotiateInfo \<Rightarrow> SpdmNegotiateInfo" where
  "select_algorithms cfg ni = ni\<lparr>
    measurement_specification_sel :=
      SpdmMeasurementSpecification_prioritize (measurement_specification_sel ni) (measurement_specification cfg),
    measurement_hash_sel := measurement_hash_algo cfg,
    base_hash_sel := SpdmBaseHashAlgo_prioritize (base_hash_sel ni) (c_base_hash_algo cfg),
    base_asym_sel := SpdmBaseAsymAlgo_prioritize (base_asym_sel ni) (c_base_asym_algo cfg),
    dhe_sel := SpdmDheAlgo_prioritize (dhe_sel ni) (c_dhe_algo cfg),
    aead_sel := SpdmAeadAlgo_prioritize (aead_sel ni) (c_aead_algo cfg),
    req_asym_sel := SpdmReqAsymAlgo_prioritize (req_asym_sel ni) (c_req_asym_algo cfg),
    key_schedule_sel := SpdmKeyScheduleAlgo_prioritize (key_schedule_sel ni) (c_key_schedule_algo cfg)\<rparr>"

definition algorithms_payload :: "SpdmNegotiateInfo \<Rightarrow> SpdmOpaqueSupport \<Rightarrow> SpdmAlgorithmsResponsePayload" where
  "algorithms_payload ni other = \<lparr>
    ap_measurement_specification_sel = measurement_specification_sel ni,
    ap_other_params_selection = other,
    ap_measurement_hash_algo = measurement_hash_sel ni,
    ap_base_asym_sel = base_asym_sel ni,
    ap_base_hash_sel = base_hash_sel ni,
    ap_alg_struct_count = 4,
    ap_alg_struct = [
      \<lparr>alg_type = SpdmAlgTypeDHE, alg_supported = SpdmAlgoDhe (dhe_sel ni)\<rparr>,
      \<lparr>alg_type = SpdmAlgTypeAEAD, alg_supported = SpdmAlgoAead (aead_sel ni)\<rparr>,
      \<lparr>alg_type = SpdmAlgTypeReqAsym, alg_supported = SpdmAlgoReqAsym (req_asym_sel ni)\<rparr>,
      \<lparr>alg_type = SpdmAlgTypeKeySchedule, alg_supported = SpdmAlgoKeySchedule (key_schedule_sel ni)\<rparr>]\<rparr>"

definition write_spdm_algorithm ::
    "'h crypto \<Rightarrow> bytes \<Rightarrow> writer \<Rightarrow> 'h SpdmContext \<Rightarrow> (writer \<times> 'h SpdmContext) SpdmResult" where
  "write_spdm_algorithm cr bs w c =
    (if connection_state (runtime_info c) \<noteq> SpdmConnectionAfterCapabilities
     then fail_with SpdmErrorUnexpectedRequest w c
     else case SpdmMessageHeader_read (reader_init bs) of
       None \<Rightarrow> fail_with SpdmErrorInvalidRequest w c
     | Some (h, r) \<Rightarrow>
         if version h \<noteq> spdm_version_sel (negotiate_info c) then fail_with SpdmErrorVersionMismatch w c
         else
           let c = reset_buffer_via_request_code SpdmRequestNegotiateAlgorithms None c
           in (case SpdmNegotiateAlgorithmsRequestPayload_spdm_read (negotiate_info c) r of
               None \<Rightarrow> fail_with SpdmErrorInvalidRequest w c
             | Some (q, r) \<Rightarrow>
                 with_message_a (take (reader_used r) bs) w (upd_neg (take_algorithms q) c) (\<lambda>c.
                   case construct_my_cert_chain cr (upd_neg (select_algorithms (config_info c)) c) of
                     (Ok _, c) \<Rightarrow>
                       let other = opaque_support (config_info c) AND na_other_params_support q;
                           c = upd_neg (opaque_data_support_update (\<lambda>_. other)) c
                       in respond_a SpdmResponseAlgorithms (spdm_version_sel (negotiate_info c))
                         (SpdmAlgorithmsResponsePayload_spdm_encode (negotiate_info c)
                           (algorithms_payload (negotiate_info c) other)) w c
                   | (Err _, c) \<Rightarrow> fail_with SpdmErrorUnspecified w c
                   | (Panic, c) \<Rightarrow> Panic)))"

definition handle_spdm_algorithm ::
    "'h platform \<Rightarrow> bytes \<Rightarrow> 'h ResponderContext \<Rightarrow> (unit SpdmResult \<times> 'h ResponderContext) option" where
  "handle_spdm_algorithm p bs = send_written p None (write_spdm_algorithm (p_crypto p) bs)"

section \<open>What is written\<close>

lemma send_writer_at: "send_writer = wr_at [] (replicate MAX_SPDM_MSG_SIZE 0)"
  by (simp add: send_writer_def writer_init_wr_at)

lemma MAX_SPDM_MSG_SIZE_eq [simp]: "MAX_SPDM_MSG_SIZE = 4096"
  by (simp add: MAX_SPDM_MSG_SIZE_def config_def)

lemma emits_message:
  assumes "emits payload bs"
  shows "emits (SpdmMessage_spdm_encode v code payload)
    ([SpdmVersion_get_u8 v, SpdmRequestResponseCode_get_u8 code] @ bs)"
proof -
  have "list_all2 emits [enum_u8_encode SpdmVersion_get_u8 v, enum_u8_encode SpdmRequestResponseCode_get_u8 code]
      [[SpdmVersion_get_u8 v], [SpdmRequestResponseCode_get_u8 code]]"
    by (simp add: enum_u8_encode_def emits_u8)
  from emits_encs [OF this] have "emits (SpdmMessageHeader_encode \<lparr>version = v, request_response_code = code\<rparr>)
      [SpdmVersion_get_u8 v, SpdmRequestResponseCode_get_u8 code]"
    by (simp add: SpdmMessageHeader_encode_def)
  then show ?thesis
    unfolding SpdmMessage_spdm_encode_def by (intro emits_encs2 emits_BUFFER_FULL assms)
qed

definition error_message :: "SpdmErrorCode \<Rightarrow> u8 \<Rightarrow> 'h SpdmContext \<Rightarrow> bytes" where
  "error_message code d c =
    [SpdmVersion_get_u8 (spdm_version_sel (negotiate_info c)), 0x7F, SpdmErrorCode_get_u8 code, d]"

lemma length_error_message [simp]: "length (error_message code d c) = 4"
  by (simp add: error_message_def)

lemma write_spdm_error_at:
  assumes "4 \<le> length room"
  shows "write_spdm_error code d (wr_at out room) c = wr_at (out @ error_message code d c) (drop 4 room)"
proof -
  have "emits (SpdmErrorResponsePayload_spdm_encode
      \<lparr>error_code = code, error_data = d, extended_data = SpdmErrorExtDataNone\<rparr>)
      (concat [[SpdmErrorCode_get_u8 code], [d], []])"
    unfolding SpdmErrorResponsePayload_spdm_encode_def
    by (rule emits_encs) (simp add: emits_BUFFER_FULL enum_u8_encode_def emits_u8 emits_encs_Nil)
  from emits_Ok [OF emits_message [OF this], where room = room] assms show ?thesis
    by (simp add: write_spdm_error_def error_message_def eval_nat_numeral)
qed

lemma fail_with_at:
  "fail_with code send_writer c = Ok (wr_at (error_message code 0 c) (replicate (4092) 0), c)"
  by (simp add: fail_with_def send_writer_at write_spdm_error_at)

lemma too_large_response_eq [simp]: "too_large_response c = error_message SpdmErrorResponseTooLarge 0 c"
  by (simp add: too_large_response_def send_writer_at write_spdm_error_at)

subsection \<open>Payloads of the negotiation responses\<close>

definition version_payload_image :: "SpdmVersion \<Rightarrow> SpdmVersion \<Rightarrow> SpdmVersion \<Rightarrow> bytes" where
  "version_payload_image v0 v1 v2 =
    [0, 0, 0, 3, 0, SpdmVersion_get_u8 v0, 0, SpdmVersion_get_u8 v1, 0, SpdmVersion_get_u8 v2]"

lemma emits_version_payload:
  "emits (SpdmVersionResponsePayload_spdm_encode \<lparr>version_number_entry_count = 3,
      versions = [\<lparr>update = 0, v_version = v0\<rparr>, \<lparr>update = 0, v_version = v1\<rparr>, \<lparr>update = 0, v_version = v2\<rparr>]\<rparr>)
    (version_payload_image v0 v1 v2)"
proof -
  have v: "emits (SpdmVersionStruct_encode \<lparr>update = 0, v_version = v\<rparr>) [0, SpdmVersion_get_u8 v]" for v
    using emits_encs2 [OF emits_u8 [of 0] emits_u8 [of "SpdmVersion_get_u8 v"]]
    by (simp add: SpdmVersionStruct_encode_def enum_u8_encode_def)
  have "list_all2 emits ([u8_encode 0, u8_encode 0, u8_encode 0, u8_encode 3] @ map SpdmVersionStruct_encode
      [\<lparr>update = 0, v_version = v0\<rparr>, \<lparr>update = 0, v_version = v1\<rparr>, \<lparr>update = 0, v_version = v2\<rparr>])
    [[0], [0], [0], [3], [0, SpdmVersion_get_u8 v0], [0, SpdmVersion_get_u8 v1], [0, SpdmVersion_get_u8 v2]]"
    by (simp add: emits_u8 v)
  from emits_full_encs [OF this] show ?thesis
    by (simp add: SpdmVersionResponsePayload_spdm_encode_def version_payload_image_def)
qed

lemma emits_algorithms_payload:
  "emits (SpdmAlgorithmsResponsePayload_spdm_encode ni (algorithms_payload ni' other))
    (alg_image ni (algorithms_payload ni' other))"
proof -
  let ?p = "algorithms_payload ni' other"
  have s: "emits (SpdmAlgStruct_encode a) (SpdmAlgStruct_image a)" if "a \<in> set (ap_alg_struct ?p)" for a
  proof -
    have "emits (SpdmAlg_encode (alg_supported a)) (le_bytes 2 (SpdmAlg_bits (alg_supported a)))"
      using that by (auto simp: algorithms_payload_def emits_u16 SpdmDheAlgo_encode_def
          SpdmAeadAlgo_encode_def SpdmReqAsymAlgo_encode_def SpdmKeyScheduleAlgo_encode_def)
    then have "list_all2 emits
        [enum_u8_encode SpdmAlgType_get_u8 (alg_type a), u8_encode (ucast (push_bit 4 (2 :: u32))),
         SpdmAlg_encode (alg_supported a)]
        [[SpdmAlgType_get_u8 (alg_type a)], [0x20], le_bytes 2 (SpdmAlg_bits (alg_supported a))]"
      using emits_u8 [of "0x20"] by (simp add: enum_u8_encode_def emits_u8)
    from emits_encs [OF this] show ?thesis
      by (simp add: SpdmAlgStruct_encode_def SpdmAlgStruct_image_def)
  qed
  let ?xs = "if at_least SpdmVersion11 ni then map SpdmAlgStruct_image (ap_alg_struct ?p) else []"
  have "emits (SpdmAlgorithmsResponsePayload_spdm_encode ni ?p) (concat
    ([[if at_least SpdmVersion11 ni then 4 else 0], [0], le_bytes 2 (alg_length ni 36 4),
      [ap_measurement_specification_sel ?p], [if at_least SpdmVersion12 ni then other else 0],
      le_bytes 4 (ap_measurement_hash_algo ?p), le_bytes 4 (ap_base_asym_sel ?p),
      le_bytes 4 (ap_base_hash_sel ?p)] @ replicate 12 [0] @ [[0], [0], le_bytes 2 (0 :: u16)] @ ?xs))"
    unfolding SpdmAlgorithmsResponsePayload_spdm_encode_def
    by (intro emits_full_encs list_all2_appendI list_all2_replicate_emits)
      (auto simp: emits_u8 emits_u16 emits_u32 s SpdmMeasurementSpecification_encode_def
        SpdmMeasurementHashAlgo_encode_def SpdmBaseAsymAlgo_encode_def SpdmBaseHashAlgo_encode_def
        SpdmOpaqueSupport_encode_def algorithms_payload_def [of ni' other] intro!: list_all2_map_emits)
  moreover have "concat (replicate 12 [0 :: u8]) = replicate 12 0" by (simp add: numeral_eq_Suc)
  ultimately show ?thesis
    by (simp add: alg_image_def alg_head_image_def alg_tail_image_def algorithms_payload_def
        split: if_splits)
qed

lemma length_images [simp]:
  "length (version_payload_image v0 v1 v2) = 10"
  "length (cap_image ni p) = (if at_least SpdmVersion12 ni then 18 else 10)"
  "length (alg_image ni (algorithms_payload ni' other)) = (if at_least SpdmVersion11 ni then 50 else 34)"
  by (simp_all add: version_payload_image_def cap_image_def alg_image_def alg_head_image_def
      alg_tail_image_def algorithms_payload_def SpdmAlgStruct_image_def)

section \<open>The negotiation transcript\<close>

definition trans_a :: "'h SpdmContext \<Rightarrow> bytes" where
  "trans_a c = mb_as_ref (message_a (runtime_info c))"

definition a_ok :: "'h SpdmContext \<Rightarrow> bool" where
  "a_ok c \<longleftrightarrow> mb_ok MAX_MANAGED_BUFFER_A_SIZE (message_a (runtime_info c))"

definition log_a :: "bytes \<Rightarrow> 'h SpdmContext \<Rightarrow> 'h SpdmContext" where
  "log_a bs c = upd_rt (message_a_update (\<lambda>m. snd (append_message bs m))) c"

lemma log_a_simps [simp]:
  "config_info (log_a bs c) = config_info c" "negotiate_info (log_a bs c) = negotiate_info c"
  "provision_info (log_a bs c) = provision_info c" "peer_info (log_a bs c) = peer_info c"
  "session (log_a bs c) = session c"
  "connection_state (runtime_info (log_a bs c)) = connection_state (runtime_info c)"
  "last_session_id (runtime_info (log_a bs c)) = last_session_id (runtime_info c)"
  by (simp_all add: log_a_def)

lemma MAX_MANAGED_BUFFER_A_SIZE_eq [simp]: "MAX_MANAGED_BUFFER_A_SIZE = 156"
  by (simp add: MAX_MANAGED_BUFFER_A_SIZE_def MAX_SPDM_VERSION_COUNT_def config_def)

lemma append_message_a_at:
  assumes "a_ok c"
  shows "append_message_a bs c =
    (if length (trans_a c) + length bs \<le> 156 then (Ok (), log_a bs c) else (Err SPDM_STATUS_BUFFER_FULL, c))"
proof -
  have "mb_ok 156 (message_a (runtime_info c))" using assms by (simp add: a_ok_def)
  then show ?thesis
    by (cases rule: append_message_cases [where bs = bs])
      (simp_all add: append_message_a_def trans_a_def log_a_def)
qed

lemma trans_log_a:
  assumes "a_ok c" "length (trans_a c) + length bs \<le> 156"
  shows "trans_a (log_a bs c) = trans_a c @ bs" "a_ok (log_a bs c)"
proof -
  have "mb_ok 156 (message_a (runtime_info c))" using assms by (simp add: a_ok_def)
  then show "trans_a (log_a bs c) = trans_a c @ bs" "a_ok (log_a bs c)"
    by (cases rule: append_message_cases [where bs = bs],
        use assms(2) in \<open>simp_all add: trans_a_def log_a_def a_ok_def\<close>)+
qed

lemma with_message_a_at:
  "a_ok c \<Longrightarrow> with_message_a bs w c k =
    (if length (trans_a c) + length bs \<le> 156 then k (log_a bs c) else fail_with SpdmErrorUnspecified w c)"
  by (simp add: with_message_a_def append_message_a_at)

text \<open>
  What \<open>respond_a\<close> writes: the response, or the response followed by an ERROR when the transcript
  buffer is full.
\<close>

definition logged :: "bytes \<Rightarrow> 'h SpdmContext \<Rightarrow> bytes \<times> 'h SpdmContext" where
  "logged m c = (if length (trans_a c) + length m \<le> 156 then (m, log_a m c)
    else (m @ error_message SpdmErrorUnspecified 0 c, c))"

definition written :: "bytes \<times> 'h SpdmContext \<Rightarrow> (writer \<times> 'h SpdmContext) SpdmResult" where
  "written mc = Ok (wr_at (fst mc) (replicate (4096 - length (fst mc)) 0), snd mc)"

lemma written_eq_Ok: "written mc = Ok (w, c') \<Longrightarrow> (writer_used_slice w, c') = mc"
  by (auto simp: written_def)

lemma fail_with_written: "fail_with code send_writer c = written (error_message code 0 c, c)"
  by (simp add: fail_with_at written_def)

lemma respond_a_written:
  assumes "emits payload bs" "length bs \<le> 4000" "a_ok c"
  shows "respond_a code v payload send_writer c =
    written (logged ([SpdmVersion_get_u8 v, SpdmRequestResponseCode_get_u8 code] @ bs) c)"
proof -
  let ?m = "[SpdmVersion_get_u8 v, SpdmRequestResponseCode_get_u8 code] @ bs"
  have "SpdmMessage_spdm_encode v code payload send_writer =
      (Ok (length ?m), wr_at ?m (replicate (4096 - length ?m) 0))"
    using emits_Ok [OF emits_message [OF assms(1)], where out = "[]" and room = "replicate 4096 0"] assms(2)
    by (simp add: send_writer_at)
  then show ?thesis
    using assms by (simp add: respond_a_def with_response_def with_message_a_at logged_def written_def
        fail_with_def write_spdm_error_at)
qed

lemma ManagedBufferA_default_ok [simp]: "a_ok (reset_context c)" "trans_a (reset_context c) = []"
  by (simp_all add: a_ok_def trans_a_def reset_context_def reset_runtime_info_def reset_negotiate_info_def
      reset_peer_info_def SpdmRuntimeInfo_default_def ManagedBufferA_default_def Let_def
      del: MAX_MANAGED_BUFFER_A_SIZE_eq)

lemma reset_context_simps [simp]:
  "config_info (reset_context c) = config_info c" "provision_info (reset_context c) = provision_info c"
  "negotiate_info (reset_context c) = SpdmNegotiateInfo_default"
  "session (reset_context c) = map set_default (session c)"
  "connection_state (runtime_info (reset_context c)) = SpdmConnectionNotStarted"
  by (simp_all add: reset_context_def reset_runtime_info_def reset_negotiate_info_def
      reset_peer_info_def SpdmRuntimeInfo_default_def Let_def)

definition clear_l1l2 :: "'h SpdmContext \<Rightarrow> 'h SpdmContext" where
  "clear_l1l2 c = upd_rt (digest_context_l1l2_update (\<lambda>_. None)) c"

lemma clear_l1l2_simps [simp]:
  "config_info (clear_l1l2 c) = config_info c" "negotiate_info (clear_l1l2 c) = negotiate_info c"
  "provision_info (clear_l1l2 c) = provision_info c" "session (clear_l1l2 c) = session c"
  "connection_state (runtime_info (clear_l1l2 c)) = connection_state (runtime_info c)"
  "last_session_id (runtime_info (clear_l1l2 c)) = last_session_id (runtime_info c)"
  "trans_a (clear_l1l2 c) = trans_a c" "a_ok (clear_l1l2 c) = a_ok c"
  "reset_context (clear_l1l2 c) = reset_context c"
  by (simp_all add: clear_l1l2_def trans_a_def a_ok_def reset_context_def reset_runtime_info_def
      reset_negotiate_info_def reset_peer_info_def Let_def)

lemma error_message_simps [simp]:
  "error_message code d (clear_l1l2 c) = error_message code d c"
  "error_message code d (log_a bs c) = error_message code d c"
  by (simp_all add: error_message_def)

lemma reset_buffer_negotiation [simp]:
  "reset_buffer_via_request_code SpdmRequestGetVersion None c = clear_l1l2 c"
  "reset_buffer_via_request_code SpdmRequestGetCapabilities None c = clear_l1l2 c"
  "reset_buffer_via_request_code SpdmRequestNegotiateAlgorithms None c = clear_l1l2 c"
  by (simp_all add: reset_buffer_via_request_code_def reset_message_m_def clear_l1l2_def)

subsection \<open>The handlers in closed form\<close>

lemma SpdmMessageHeader_read_init:
  "SpdmMessageHeader_read (reader_init bs) =
    (case bs of
      v # op # rest \<Rightarrow> Some (\<lparr>version = SpdmVersion_of_u8 v,
        request_response_code = SpdmRequestResponseCode_of_u8 op\<rparr>, rd_at [v, op] rest)
    | _ \<Rightarrow> None)"
  by (auto simp: SpdmMessageHeader_read_def enum_u8_read_def u8_read_def reader_take_rd_at
      reader_init_rd_at decode_u8_def split: list.split)

definition version_message :: "SpdmConfigInfo \<Rightarrow> bytes" where
  "version_message cfg = [0x10, 0x04] @
    version_payload_image (spdm_version cfg ! 0) (spdm_version cfg ! 1) (spdm_version cfg ! 2)"

lemma length_version_message [simp]: "length (version_message cfg) = 12"
  by (simp add: version_message_def)

lemma write_spdm_version_response_written:
  assumes "length (spdm_version (config_info c)) = 3"
  shows "write_spdm_version_response bs send_writer c = written (
    (case bs of
      v # op # rest \<Rightarrow>
        if SpdmVersion_of_u8 v \<noteq> SpdmVersion10 then (error_message SpdmErrorVersionMismatch 0 c, c)
        else if length rest < 2 then (error_message SpdmErrorInvalidRequest 0 c, clear_l1l2 c)
        else (version_message (config_info c),
          log_a (version_message (config_info c)) (log_a (take 4 bs) (reset_context c)))
    | _ \<Rightarrow> (error_message SpdmErrorInvalidRequest 0 c, c)))"
proof (cases "\<exists>v op rest. bs = v # op # rest")
  case True
  then obtain v op rest where bs: "bs = v # op # rest" by blast
  obtain v0 v1 v2 where vs: "spdm_version (config_info c) = [v0, v1, v2]"
    using assms by (auto simp: length_Suc_conv numeral_eq_Suc)
  show ?thesis
  proof (cases "\<exists>a b rest'. rest = a # b # rest'")
    case True
    then obtain a b rest' where rest: "rest = a # b # rest'" by blast
    have r: "respond_a SpdmResponseVersion SpdmVersion10 (SpdmVersionResponsePayload_spdm_encode
        \<lparr>version_number_entry_count = 3, versions = [\<lparr>update = 0, v_version = v0\<rparr>,
          \<lparr>update = 0, v_version = v1\<rparr>, \<lparr>update = 0, v_version = v2\<rparr>]\<rparr>) send_writer
        (log_a [v, op, a, b] (reset_context c)) =
      written (version_message (config_info c),
        log_a (version_message (config_info c)) (log_a [v, op, a, b] (reset_context c)))"
      by (subst respond_a_written [OF emits_version_payload])
        (simp_all add: trans_log_a logged_def version_message_def vs)
    then show ?thesis
      by (simp add: write_spdm_version_response_def SpdmMessageHeader_read_init bs rest vs
          SpdmGetVersionRequestPayload_spdm_read_def with_message_a_at fail_with_written)
  next
    case False
    then have "length rest < 2" "SpdmGetVersionRequestPayload_spdm_read (rd_at [v, op] rest) = None"
      by (cases rest; cases "tl rest"; simp add: SpdmGetVersionRequestPayload_spdm_read_def u8_read_def
          reader_take_rd_at)+
    then show ?thesis
      by (simp add: write_spdm_version_response_def SpdmMessageHeader_read_init bs fail_with_written Let_def)
  qed
next
  case False
  then show ?thesis
    by (auto simp: write_spdm_version_response_def SpdmMessageHeader_read_init fail_with_written
        split: list.split)
qed

definition capability_message :: "'h SpdmContext \<Rightarrow> bytes" where
  "capability_message c = [SpdmVersion_get_u8 (spdm_version_sel (negotiate_info c)), 0x61] @
    cap_image (negotiate_info c) \<lparr>cp_ct_exponent = rsp_ct_exponent (config_info c),
      cp_flags = rsp_capabilities (config_info c), cp_data_transfer_size = data_transfer_size (config_info c),
      cp_max_spdm_msg_size = c_max_spdm_msg_size (config_info c)\<rparr>"

lemma length_capability_message: "length (capability_message c) \<le> 20"
  by (simp add: capability_message_def)

lemma select_capabilities_version [simp]:
  "spdm_version_sel (select_capabilities cfg q ni) = spdm_version_sel ni"
  by (simp add: select_capabilities_def Let_def)

lemma trans_a_upd_neg [simp]:
  "trans_a (c\<lparr>negotiate_info := ni\<rparr>) = trans_a c" "a_ok (c\<lparr>negotiate_info := ni\<rparr>) = a_ok c"
  by (simp_all add: trans_a_def a_ok_def)

lemma write_spdm_capability_response_written:
  assumes "a_ok c"
  shows "write_spdm_capability_response bs send_writer c = written (
    if connection_state (runtime_info c) \<noteq> SpdmConnectionAfterVersion
    then (error_message SpdmErrorUnexpectedRequest 0 c, c)
    else case bs of
      v # op # rest \<Rightarrow>
        if v < 0x10 then (error_message SpdmErrorInvalidRequest 0 c, c)
        else let c1 = clear_l1l2 (upd_neg (spdm_version_sel_update (\<lambda>_. SpdmVersion_of_u8 v)) c)
          in (case SpdmGetCapabilitiesRequestPayload_spdm_read (negotiate_info c1) (rd_at [v, op] rest) of
              None \<Rightarrow> (error_message SpdmErrorInvalidRequest 0 c1, c1)
            | Some (q, r) \<Rightarrow>
                let c2 = upd_neg (select_capabilities (config_info c) q) c1; req = take (reader_used r) bs
                in if length (trans_a c) + length req \<le> 156
                   then logged (capability_message c2) (log_a req c2)
                   else (error_message SpdmErrorUnspecified 0 c2, c2))
    | _ \<Rightarrow> (error_message SpdmErrorInvalidRequest 0 c, c))"
proof -
  have r: "respond_a SpdmResponseCapabilities v (SpdmCapabilitiesResponsePayload_spdm_encode ni p) send_writer c' =
    written (logged ([SpdmVersion_get_u8 v, 0x61] @ cap_image ni p) c')"
    if "a_ok c'" for c' :: "'a SpdmContext" and v ni p
    using that by (subst respond_a_written [OF emits_cap]) simp_all
  show ?thesis
    using assms
    by (auto simp: write_spdm_capability_response_def SpdmMessageHeader_read_init fail_with_written
        with_message_a_at Let_def r trans_log_a capability_message_def split: list.split option.split)
qed

lemma primitive_used:
  "u8_read r = Some (x, r') \<Longrightarrow> reader_used r' = reader_used r + 1"
  "u16_read r = Some (y, r') \<Longrightarrow> reader_used r' = reader_used r + 2"
  "u32_read r = Some (z, r') \<Longrightarrow> reader_used r' = reader_used r + 4"
  by (auto simp: u8_read_def u16_read_def u32_read_def reader_take_def reader_used_def split: if_splits)

lemma read_array_used: "read_array n r = Some (bs, r') \<Longrightarrow> reader_used r' = reader_used r + n"
proof (induction n arbitrary: r bs)
  case (Suc n)
  then show ?case by (fastforce dest: primitive_used split: Option.bind_splits)
qed simp

lemma getcap_used:
  "SpdmGetCapabilitiesRequestPayload_spdm_read ni r = Some (q, r') \<Longrightarrow>
    reader_used r' \<le> reader_used r + (if at_least SpdmVersion12 ni then 18 else 10)"
  by (auto simp: SpdmGetCapabilitiesRequestPayload_spdm_read_def read_sizes_def
      SpdmRequestCapabilityFlags_read_def flags_u32_read_def dest!: primitive_used
      split: Option.bind_splits if_splits)

lemma getcap_sizes:
  "SpdmGetCapabilitiesRequestPayload_spdm_read ni r = Some (q, r') \<Longrightarrow> at_least SpdmVersion12 ni \<Longrightarrow>
    42 \<le> gc_data_transfer_size q"
  by (auto simp: SpdmGetCapabilitiesRequestPayload_spdm_read_def read_sizes_def not_less
      split: Option.bind_splits if_splits)

definition algorithm_message :: "SpdmOpaqueSupport \<Rightarrow> 'h SpdmContext \<Rightarrow> bytes" where
  "algorithm_message other c = [SpdmVersion_get_u8 (spdm_version_sel (negotiate_info c)), 0x63] @
    alg_image (negotiate_info c) (algorithms_payload (negotiate_info c) other)"

lemma length_algorithm_message: "length (algorithm_message other c) \<le> 52"
  by (simp add: algorithm_message_def)

lemma trans_a_same_but_chains:
  "same_but_chains c c' \<Longrightarrow> trans_a c' = trans_a c \<and> a_ok c' = a_ok c"
  by (auto simp: same_but_chains_def trans_a_def a_ok_def)

lemma construct_same_but_chains: "same_but_chains c (snd (construct_my_cert_chain cr c))"
  unfolding construct_my_cert_chain_def
proof (rule run_steps_invariant)
  show "same_but_chains c c"
    by (auto simp: same_but_chains_def intro: exI [of _ "my_cert_chain (provision_info c)"])
qed (auto dest: construct_slot_Ok(1) intro: same_but_chains_trans)

text \<open>The context with the requester's offer, after the transcript has the request, and what is selected.\<close>

definition with_offer :: "bytes \<Rightarrow> SpdmNegotiateAlgorithmsRequestPayload \<Rightarrow> 'h SpdmContext \<Rightarrow> 'h SpdmContext" where
  "with_offer req q c = log_a req (upd_neg (take_algorithms q) (clear_l1l2 c))"

definition with_selection :: "'h SpdmContext \<Rightarrow> 'h SpdmContext" where
  "with_selection c = upd_neg (select_algorithms (config_info c)) c"

lemma write_spdm_algorithm_written:
  assumes "a_ok c"
  shows "write_spdm_algorithm cr bs send_writer c =
    (if connection_state (runtime_info c) \<noteq> SpdmConnectionAfterCapabilities
     then written (error_message SpdmErrorUnexpectedRequest 0 c, c)
     else case bs of
       v # op # rest \<Rightarrow>
         if SpdmVersion_of_u8 v \<noteq> spdm_version_sel (negotiate_info c)
         then written (error_message SpdmErrorVersionMismatch 0 c, c)
         else (case SpdmNegotiateAlgorithmsRequestPayload_spdm_read (negotiate_info c) (rd_at [v, op] rest) of
             None \<Rightarrow> written (error_message SpdmErrorInvalidRequest 0 c, clear_l1l2 c)
           | Some (q, r) \<Rightarrow>
               let req = take (reader_used r) bs
               in if length (trans_a c) + length req \<le> 156
                  then (case construct_my_cert_chain cr (with_selection (with_offer req q c)) of
                      (Ok _, c3) \<Rightarrow>
                        let other = opaque_support (config_info c) AND na_other_params_support q;
                            c4 = upd_neg (opaque_data_support_update (\<lambda>_. other)) c3
                        in written (logged (algorithm_message other c4) c4)
                    | (Err _, c3) \<Rightarrow> written (error_message SpdmErrorUnspecified 0 c3, c3)
                    | (Panic, _) \<Rightarrow> Panic)
                  else (let c2 = upd_neg (take_algorithms q) (clear_l1l2 c)
                    in written (error_message SpdmErrorUnspecified 0 c2, c2)))
     | _ \<Rightarrow> written (error_message SpdmErrorInvalidRequest 0 c, c))"
proof -
  have r: "respond_a SpdmResponseAlgorithms v
      (SpdmAlgorithmsResponsePayload_spdm_encode ni (algorithms_payload ni' other)) send_writer c' =
    written (logged ([SpdmVersion_get_u8 v, 0x63] @ alg_image ni (algorithms_payload ni' other)) c')"
    if "a_ok c'" for c' :: "'a SpdmContext" and v ni ni' other
    using that by (subst respond_a_written [OF emits_algorithms_payload]) simp_all
  have chain: "config_info c3 = config_info c0 \<and> (a_ok c0 \<longrightarrow> a_ok c3)"
    if "construct_my_cert_chain cr c0 = (x, c3)" for x and c0 c3 :: "'a SpdmContext"
    using construct_same_but_chains [of c0 cr] that by (auto simp: same_but_chains_def a_ok_def)
  show ?thesis
    using assms
    by (auto simp: write_spdm_algorithm_def SpdmMessageHeader_read_init fail_with_written
        with_message_a_at Let_def r trans_log_a algorithm_message_def with_offer_def with_selection_def
        dest!: chain split: list.split option.split prod.split result.split)
qed

section \<open>Sending\<close>

lemma send_message_diverges:
  "send_message p m rc = Some y \<Longrightarrow>
    \<not> (too_large m (common rc) \<and> unat (req_data_transfer_size_sel (negotiate_info (common rc))) < 4)"
proof (erule send_message.raw_induct [where P = "\<lambda>p m rc y. \<not> (too_large m (common rc) \<and>
    unat (req_data_transfer_size_sel (negotiate_info (common rc))) < 4)", rotated])
  fix f p m rc y
  assume IH: "\<And>p m rc y. f p m rc = Some y \<Longrightarrow> \<not> (too_large m (common rc) \<and>
      unat (req_data_transfer_size_sel (negotiate_info (common rc))) < 4)"
    and step: "(if too_large m (common rc) then f p (too_large_response (common rc)) rc
      else Some (send_frame p m rc)) = Some y"
  show "\<not> (too_large m (common rc) \<and> unat (req_data_transfer_size_sel (negotiate_info (common rc))) < 4)"
  proof
    assume d: "too_large m (common rc) \<and> unat (req_data_transfer_size_sel (negotiate_info (common rc))) < 4"
    with step have "f p (too_large_response (common rc)) rc = Some y" by simp
    from IH [OF this] d show False by (simp add: too_large_def)
  qed
qed

lemma send_secured_message_diverges:
  "send_secured_message p sid m is_app rc = Some y \<Longrightarrow>
    \<not> (\<not> is_app \<and> too_large m (common rc) \<and>
      unat (req_data_transfer_size_sel (negotiate_info (common rc))) < 4)"
proof (erule send_secured_message.raw_induct [where P = "\<lambda>p sid m is_app rc y. \<not> (\<not> is_app \<and>
    too_large m (common rc) \<and> unat (req_data_transfer_size_sel (negotiate_info (common rc))) < 4)", rotated])
  fix f p sid m is_app rc y
  assume IH: "\<And>p sid m is_app rc y. f p sid m is_app rc = Some y \<Longrightarrow> \<not> (\<not> is_app \<and>
      too_large m (common rc) \<and> unat (req_data_transfer_size_sel (negotiate_info (common rc))) < 4)"
    and step: "(if \<not> is_app \<and> too_large m (common rc)
      then f p sid (too_large_response (common rc)) is_app rc
      else Some (send_secured_frame p sid m is_app rc)) = Some y"
  show "\<not> (\<not> is_app \<and> too_large m (common rc) \<and>
    unat (req_data_transfer_size_sel (negotiate_info (common rc))) < 4)"
  proof
    assume d: "\<not> is_app \<and> too_large m (common rc) \<and>
      unat (req_data_transfer_size_sel (negotiate_info (common rc))) < 4"
    with step have "f p sid (too_large_response (common rc)) is_app rc = Some y" by simp
    from IH [OF this] d show False by (simp add: too_large_def)
  qed
qed

definition sized :: "bytes \<Rightarrow> 'h SpdmContext \<Rightarrow> bytes" where
  "sized m c = (if too_large m c then error_message SpdmErrorResponseTooLarge 0 c else m)"

lemma send_message_sized:
  assumes "\<not> (too_large m (common rc) \<and> unat (req_data_transfer_size_sel (negotiate_info (common rc))) < 4)"
  shows "send_message p m rc = Some (send_frame p (sized m (common rc)) rc)"
proof (cases "too_large m (common rc)")
  case True
  with assms have "\<not> too_large (error_message SpdmErrorResponseTooLarge 0 (common rc)) (common rc)"
    by (simp add: too_large_def)
  with True show ?thesis
    by (subst send_message.simps, subst send_message.simps) (simp add: sized_def)
next
  case False
  then show ?thesis by (subst send_message.simps) (simp add: sized_def)
qed

lemma send_secured_message_sized:
  assumes "\<not> (\<not> is_app \<and> too_large m (common rc) \<and>
    unat (req_data_transfer_size_sel (negotiate_info (common rc))) < 4)"
  shows "send_secured_message p sid m is_app rc =
    Some (send_secured_frame p sid (if is_app then m else sized m (common rc)) is_app rc)"
proof (cases "\<not> is_app \<and> too_large m (common rc)")
  case True
  with assms have "\<not> too_large (error_message SpdmErrorResponseTooLarge 0 (common rc)) (common rc)"
    by (simp add: too_large_def)
  with True show ?thesis
    by (subst send_secured_message.simps, subst send_secured_message.simps) (simp add: sized_def)
next
  case False
  then show ?thesis by (subst send_secured_message.simps) (auto simp: sized_def)
qed

lemma after_send_error [simp]: "after_send (error_message code d c') c = (Ok (), c)"
  by (simp add: after_send_def error_message_def)

section \<open>The responder's invariant\<close>

definition alg_within :: "'a::len word \<Rightarrow> 'a word \<Rightarrow> bool" where
  "alg_within sel cfg \<longleftrightarrow> is_no_more_than_one_selected sel \<and> sel AND cfg = sel"

definition selection_ok :: "SpdmConfigInfo \<Rightarrow> SpdmNegotiateInfo \<Rightarrow> bool" where
  "selection_ok cfg ni \<longleftrightarrow>
    alg_within (measurement_specification_sel ni) (measurement_specification cfg) \<and>
    measurement_hash_sel ni = measurement_hash_algo cfg \<and>
    alg_within (base_hash_sel ni) (c_base_hash_algo cfg) \<and>
    alg_within (base_asym_sel ni) (c_base_asym_algo cfg) \<and>
    alg_within (dhe_sel ni) (c_dhe_algo cfg) \<and>
    alg_within (aead_sel ni) (c_aead_algo cfg) \<and>
    alg_within (req_asym_sel ni) (c_req_asym_algo cfg) \<and>
    alg_within (key_schedule_sel ni) (c_key_schedule_algo cfg)"

definition state_at_least :: "SpdmConnectionState \<Rightarrow> 'h SpdmContext \<Rightarrow> bool" where
  "state_at_least st c \<longleftrightarrow>
    SpdmConnectionState_get_u8 st \<le> SpdmConnectionState_get_u8 (connection_state (runtime_info c))"

definition responder_inv :: "'h SpdmContext \<Rightarrow> bool" where
  "responder_inv c \<longleftrightarrow>
    length (spdm_version (config_info c)) = 3 \<and> a_ok c \<and>
    (req_data_transfer_size_sel (negotiate_info c) = 0 \<or> 42 \<le> req_data_transfer_size_sel (negotiate_info c)) \<and>
    (state_at_least SpdmConnectionAfterCapabilities c \<longrightarrow>
      0x10 \<le> SpdmVersion_get_u8 (spdm_version_sel (negotiate_info c))) \<and>
    (state_at_least SpdmConnectionNegotiated c \<longrightarrow> selection_ok (config_info c) (negotiate_info c))"

text \<open>
  What the dispatcher relies on: a handler leaves the invariant intact, and what it wrote can be sent,
  with the change of state that sending it causes.
\<close>

locale responder_handler =
  fixes respond :: "writer \<Rightarrow> 'h SpdmContext \<Rightarrow> (writer \<times> 'h SpdmContext) SpdmResult"
  assumes sendable: "responder_inv c \<Longrightarrow> respond send_writer c = Ok (w, c') \<Longrightarrow>
    responder_inv c' \<and> (\<exists>c''. after_send (writer_used_slice w) c' = (Ok (), c'') \<and> responder_inv c'')"
begin

lemma handled:
  assumes "responder_inv (common rc)"
  shows "\<exists>r rc'. send_written p None respond rc = Some (r, rc') \<and> (r = Panic \<or> responder_inv (common rc'))"
proof (cases "respond send_writer (common rc)")
  case (Ok wc)
  obtain w c' where wc: "wc = (w, c')" by force
  with Ok sendable assms obtain c'' where c': "responder_inv c'"
      "after_send (writer_used_slice w) c' = (Ok (), c'')" "responder_inv c''"
    by blast
  let ?rc = "rc\<lparr>common := c'\<rparr>" and ?m = "writer_used_slice w"
  have "42 \<le> req_data_transfer_size_sel (negotiate_info c') \<or> req_data_transfer_size_sel (negotiate_info c') = 0"
    using c'(1) by (auto simp: responder_inv_def)
  then have "send_message p ?m ?rc = Some (send_frame p (sized ?m c') ?rc)"
    by (subst send_message_sized) (auto simp: too_large_def word_le_nat_alt)
  moreover have "fst (send_frame p (sized ?m c') ?rc) = Panic \<or>
      responder_inv (common (snd (send_frame p (sized ?m c') ?rc)))"
    using c' by (auto simp: send_frame_def device_send_def sized_def split: prod.split result.split)
  ultimately show ?thesis using Ok wc by (simp add: send_written_def) (metis prod.collapse)
qed (use assms in \<open>auto simp: send_written_def\<close>)

end

context prio_flags
begin

lemma within: "alg_within (prioritize prio_table self peer) peer"
proof (cases "self AND peer AND vmask = 0")
  case True
  then show ?thesis
    by (simp add: prioritize_none alg_within_def is_no_more_than_one_selected_def)
next
  case False
  have "prioritize prio_table self peer AND peer = prioritize prio_table self peer"
    using prioritize_selects [of self peer] by (auto simp: selects_def split: if_splits)
  with prioritize_one_select [OF False] show ?thesis by (simp add: alg_within_def)
qed

end

lemmas selected_within = p_ms.within p_asym.within p_hash.within p_dhe.within p_aead.within
  p_req.within p_ks.within

lemma selection_ok_select: "selection_ok cfg (select_algorithms cfg ni)"
  by (simp add: selection_ok_def select_algorithms_def selected_within
      SpdmMeasurementSpecification_prioritize_def SpdmBaseAsymAlgo_prioritize_def
      SpdmBaseHashAlgo_prioritize_def SpdmDheAlgo_prioritize_def SpdmAeadAlgo_prioritize_def
      SpdmReqAsymAlgo_prioritize_def SpdmKeyScheduleAlgo_prioritize_def)

lemma set_connection_state_simps [simp]:
  "config_info (set_connection_state st c) = config_info c"
  "negotiate_info (set_connection_state st c) = negotiate_info c"
  "provision_info (set_connection_state st c) = provision_info c"
  "session (set_connection_state st c) = session c"
  "connection_state (runtime_info (set_connection_state st c)) = st"
  "trans_a (set_connection_state st c) = trans_a c" "a_ok (set_connection_state st c) = a_ok c"
  by (simp_all add: set_connection_state_def trans_a_def a_ok_def)

lemma after_send_negotiation [simp]:
  "after_send (version_message cfg) c = (Ok (), set_connection_state SpdmConnectionAfterVersion c)"
  "after_send (capability_message c' @ bs) c = (Ok (), set_connection_state SpdmConnectionAfterCapabilities c)"
  "after_send (algorithm_message other c' @ bs) c = (Ok (), set_connection_state SpdmConnectionNegotiated c)"
  "after_send (capability_message c') c = (Ok (), set_connection_state SpdmConnectionAfterCapabilities c)"
  "after_send (algorithm_message other c') c = (Ok (), set_connection_state SpdmConnectionNegotiated c)"
  by (simp_all add: after_send_def version_message_def capability_message_def algorithm_message_def)

lemma state_at_least_unat:
  "state_at_least st c \<longleftrightarrow>
    unat (SpdmConnectionState_get_u8 st) \<le> unat (SpdmConnectionState_get_u8 (connection_state (runtime_info c)))"
  by (simp add: state_at_least_def word_le_nat_alt)

lemma responder_inv_clear [simp]: "responder_inv (clear_l1l2 c) = responder_inv c"
  by (simp add: responder_inv_def state_at_least_def)

lemma responder_inv_log:
  "responder_inv c \<Longrightarrow> length (trans_a c) + length bs \<le> 156 \<Longrightarrow> responder_inv (log_a bs c)"
  by (simp add: responder_inv_def state_at_least_def trans_log_a)

lemma responder_inv_logged:
  assumes "responder_inv c"
  shows "responder_inv (snd (logged m c))"
  using assms by (simp add: logged_def responder_inv_log)

lemma responder_inv_restart:
  "length (spdm_version (config_info c)) = 3 \<Longrightarrow> responder_inv (reset_context c)"
  by (simp add: responder_inv_def state_at_least_def SpdmNegotiateInfo_default_def)

interpretation h_error: responder_handler "write_error_response code bs" for code bs
proof unfold_locales
  fix c c' :: "'a SpdmContext" and w
  assume inv: "responder_inv c" and r: "write_error_response code bs send_writer c = Ok (w, c')"
  then have "c' = c" "\<exists>e d. writer_used_slice w = error_message e d c"
    by (auto simp: write_error_response_def fail_with_def send_writer_at write_spdm_error_at
        split: option.splits if_splits) (blast+)
  with inv show "responder_inv c' \<and>
      (\<exists>c''. after_send (writer_used_slice w) c' = (Ok (), c'') \<and> responder_inv c'')" by auto
qed

interpretation h_version: responder_handler "write_spdm_version_response bs" for bs
proof unfold_locales
  fix c c' :: "'a SpdmContext" and w
  assume inv: "responder_inv c" and r: "write_spdm_version_response bs send_writer c = Ok (w, c')"
  let ?v = "version_message (config_info c)"
  have len: "length (spdm_version (config_info c)) = 3" using inv by (simp add: responder_inv_def)
  from r [unfolded write_spdm_version_response_written [OF len], THEN written_eq_Ok]
  consider code where "writer_used_slice w = error_message code 0 c" "responder_inv c'"
    | "writer_used_slice w = ?v" "c' = log_a ?v (log_a (take 4 bs) (reset_context c))"
    using inv by (auto split: list.splits if_splits)
  then show "responder_inv c' \<and>
      (\<exists>c''. after_send (writer_used_slice w) c' = (Ok (), c'') \<and> responder_inv c'')"
  proof cases
    case 2
    have "responder_inv c'"
      unfolding 2 by (intro responder_inv_log responder_inv_restart len) (simp_all add: trans_log_a)
    with 2 show ?thesis
      by (simp add: responder_inv_def state_at_least_unat SpdmNegotiateInfo_default_def)
  qed auto
qed

lemma select_capabilities_inv:
  assumes "responder_inv c" "connection_state (runtime_info c) = SpdmConnectionAfterVersion"
    "SpdmGetCapabilitiesRequestPayload_spdm_read (negotiate_info c) r = Some (q, r')"
  shows "responder_inv (upd_neg (select_capabilities (config_info c) q) c)"
  using assms getcap_sizes [OF assms(3)]
  by (auto simp: responder_inv_def state_at_least_unat select_capabilities_def Let_def at_least_def)

lemma capability_cases:
  assumes inv: "responder_inv c" and r: "write_spdm_capability_response bs send_writer c = Ok (w, c')"
  obtains (error) e where "writer_used_slice w = error_message e 0 c'" "responder_inv c'"
      "connection_state (runtime_info c') = connection_state (runtime_info c)"
    | (response) c2 k where "connection_state (runtime_info c) = SpdmConnectionAfterVersion"
      "connection_state (runtime_info c2) = SpdmConnectionAfterVersion" "responder_inv c2"
      "trans_a c2 = trans_a c" "0x10 \<le> SpdmVersion_get_u8 (spdm_version_sel (negotiate_info c2))" "k \<le> 20"
      "length (trans_a c) + length (take k bs) \<le> 156"
      "(writer_used_slice w, c') = logged (capability_message c2) (log_a (take k bs) c2)"
proof -
  have ok: "a_ok c" using inv by (simp add: responder_inv_def)
  note r = r [unfolded write_spdm_capability_response_written [OF ok], THEN written_eq_Ok]
  show thesis
  proof (cases "connection_state (runtime_info c) = SpdmConnectionAfterVersion \<and>
      (\<exists>v op rest. bs = v # op # rest \<and> \<not> v < 0x10)")
    case True
    then obtain v op rest where st: "connection_state (runtime_info c) = SpdmConnectionAfterVersion"
      and bs: "bs = v # op # rest" and v: "\<not> v < 0x10" by auto
    define c1 where "c1 = clear_l1l2 (upd_neg (spdm_version_sel_update (\<lambda>_. SpdmVersion_of_u8 v)) c)"
    have c1: "responder_inv c1" "connection_state (runtime_info c1) = SpdmConnectionAfterVersion"
        "trans_a c1 = trans_a c" "config_info c1 = config_info c"
        "spdm_version_sel (negotiate_info c1) = SpdmVersion_of_u8 v"
      using inv st by (simp_all add: c1_def responder_inv_def state_at_least_unat)
    show thesis
    proof (cases "SpdmGetCapabilitiesRequestPayload_spdm_read (negotiate_info c1) (rd_at [v, op] rest)")
      case None
      with r st v c1 have "writer_used_slice w = error_message SpdmErrorInvalidRequest 0 c1" "c' = c1"
        by (simp_all add: bs Let_def flip: c1_def)
      with c1 st show thesis by (intro error [of SpdmErrorInvalidRequest]) simp_all
    next
      case (Some qr)
      obtain q rd where qr: "qr = (q, rd)" by force
      define c2 where "c2 = upd_neg (select_capabilities (config_info c) q) c1"
      have c2: "responder_inv c2" "connection_state (runtime_info c2) = SpdmConnectionAfterVersion"
          "trans_a c2 = trans_a c" "0x10 \<le> SpdmVersion_get_u8 (spdm_version_sel (negotiate_info c2))"
        using c1 select_capabilities_inv [of c1] Some v by (simp_all add: c2_def qr not_less)
      have k: "reader_used rd \<le> 20" using getcap_used [OF Some [unfolded qr]] by (simp split: if_splits)
      show thesis
      proof (cases "length (trans_a c) + length (take (reader_used rd) bs) \<le> 156")
        case True
        with r st v Some have "(writer_used_slice w, c') = logged (capability_message c2)
            (log_a (take (reader_used rd) bs) c2)"
          by (simp add: bs Let_def qr flip: c1_def c2_def)
        with st c2 k True show thesis by (intro response)
      next
        case False
        with r st v Some have "writer_used_slice w = error_message SpdmErrorUnspecified 0 c2" "c' = c2"
          by (simp_all add: bs Let_def qr flip: c1_def c2_def)
        with c2 st show thesis by (intro error [of SpdmErrorUnspecified]) simp_all
      qed
    qed
  next
    case False
    with r have "\<exists>e. writer_used_slice w = error_message e 0 c" "c' = c"
      by (auto split: list.splits if_splits)
    with inv show thesis by (auto intro: error)
  qed
qed

interpretation h_capability: responder_handler "write_spdm_capability_response bs" for bs
proof unfold_locales
  fix c c' :: "'a SpdmContext" and w
  assume inv: "responder_inv c" and r: "write_spdm_capability_response bs send_writer c = Ok (w, c')"
  then show "responder_inv c' \<and>
      (\<exists>c''. after_send (writer_used_slice w) c' = (Ok (), c'') \<and> responder_inv c'')"
  proof (cases rule: capability_cases)
    case (response c2 k)
    have "responder_inv (log_a (take k bs) c2)" using response by (intro responder_inv_log) simp_all
    then have c': "responder_inv c'" using response responder_inv_logged by (metis snd_conv)
    from response have "writer_used_slice w = capability_message c2 \<or>
        (\<exists>e. writer_used_slice w = capability_message c2 @ e)"
      "negotiate_info c' = negotiate_info c2"
      by (auto simp: logged_def split: if_splits)
    with c' response show ?thesis by (auto simp: responder_inv_def state_at_least_unat)
  qed auto
qed

lemma take_algorithms_keeps [simp]:
  "spdm_version_sel (take_algorithms q ni) = spdm_version_sel ni"
  "req_data_transfer_size_sel (take_algorithms q ni) = req_data_transfer_size_sel ni"
proof -
  have k: "spdm_version_sel (foldl (\<lambda>ni a. take_alg (alg_supported a) ni) ni as) = spdm_version_sel ni \<and>
      req_data_transfer_size_sel (foldl (\<lambda>ni a. take_alg (alg_supported a) ni) ni as) =
        req_data_transfer_size_sel ni" for ni "as"
  proof (induction "as" arbitrary: ni)
    case (Cons a "as")
    have "spdm_version_sel (take_alg (alg_supported a) ni) = spdm_version_sel ni \<and>
        req_data_transfer_size_sel (take_alg (alg_supported a) ni) = req_data_transfer_size_sel ni"
      by (cases "alg_supported a") simp_all
    with Cons show ?case by simp
  qed simp
  show "spdm_version_sel (take_algorithms q ni) = spdm_version_sel ni"
    "req_data_transfer_size_sel (take_algorithms q ni) = req_data_transfer_size_sel ni"
    unfolding take_algorithms_def by (simp_all add: k)
qed

lemma select_algorithms_keeps [simp]:
  "spdm_version_sel (select_algorithms cfg ni) = spdm_version_sel ni"
  "req_data_transfer_size_sel (select_algorithms cfg ni) = req_data_transfer_size_sel ni"
  by (simp_all add: select_algorithms_def)

lemma algstruct_used: "SpdmAlgStruct_read r = Some (a, r') \<Longrightarrow> reader_used r' = reader_used r + 4"
  by (auto simp: SpdmAlgStruct_read_def Let_def enum_u8_read_def SpdmDheAlgo_read_def SpdmAeadAlgo_read_def
      SpdmReqAsymAlgo_read_def SpdmKeyScheduleAlgo_read_def flags_u16_read_def dest!: primitive_used
      split: Option.bind_splits if_splits SpdmAlgType.splits)

lemma read_alg_structs_used:
  "read_alg_structs ok n t present r = Some (as, r') \<Longrightarrow> reader_used r' = reader_used r + 4 * n"
proof (induction n arbitrary: t present r "as")
  case (Suc n)
  from Suc.prems obtain a r1 t' present' as' where
      "SpdmAlgStruct_read r = Some (a, r1)" "read_alg_structs ok n t' present' r1 = Some (as', r')"
    by (auto split: Option.bind_splits if_splits)
  with Suc.IH [OF this(2)] algstruct_used [OF this(1)] show ?case by simp
qed simp

lemma read_alg_tail_used:
  assumes "read_alg_tail ni ok cnt r = Some (as, r')"
  shows "reader_used r' \<le> reader_used r + 16 + 4 * unat cnt"
  using assms
  by (auto simp: read_alg_tail_def read_reserved_def dest!: primitive_used read_array_used read_alg_structs_used
      split: Option.bind_splits if_splits)

lemma negalg_used:
  assumes "SpdmNegotiateAlgorithmsRequestPayload_spdm_read ni r = Some (q, r')"
  shows "reader_used r' \<le> reader_used r + 46"
  using assms
  by (auto simp: SpdmNegotiateAlgorithmsRequestPayload_spdm_read_def read_alg_count_def read_other_params_def
      SpdmOpaqueSupport_read_def SpdmMeasurementSpecification_read_def SpdmBaseAsymAlgo_read_def
      SpdmBaseHashAlgo_read_def flags_u8_read_def flags_u32_read_def word_less_nat_alt
      dest!: primitive_used read_alg_tail_used split: Option.bind_splits if_splits)

lemma responder_inv_chains:
  assumes "same_but_chains c c'"
  shows "responder_inv c' = responder_inv c" "runtime_info c' = runtime_info c" "trans_a c' = trans_a c"
    "config_info c' = config_info c" "negotiate_info c' = negotiate_info c"
  using assms by (auto simp: same_but_chains_def responder_inv_def state_at_least_def a_ok_def trans_a_def)

lemma with_selection_inv:
  assumes "responder_inv c" "connection_state (runtime_info c) = SpdmConnectionAfterCapabilities"
    "length (trans_a c) + length req \<le> 156"
  shows "responder_inv (with_selection (with_offer req q c))"
    "connection_state (runtime_info (with_selection (with_offer req q c))) = SpdmConnectionAfterCapabilities"
    "trans_a (with_selection (with_offer req q c)) = trans_a c @ req"
    "selection_ok (config_info c) (negotiate_info (with_selection (with_offer req q c)))"
    "config_info (with_selection (with_offer req q c)) = config_info c"
  using assms trans_log_a [of "upd_neg (take_algorithms q) (clear_l1l2 c)" req]
  by (simp_all add: with_selection_def with_offer_def responder_inv_def state_at_least_unat selection_ok_select)

lemma opaque_support_inv:
  "responder_inv (c\<lparr>negotiate_info := negotiate_info c\<lparr>opaque_data_support := x\<rparr>\<rparr>) = responder_inv c"
  "selection_ok cfg (ni\<lparr>opaque_data_support := x\<rparr>) = selection_ok cfg ni"
  by (simp_all add: responder_inv_def state_at_least_def selection_ok_def)

lemma algorithm_cases:
  assumes inv: "responder_inv c" and r: "write_spdm_algorithm cr bs send_writer c = Ok (w, c')"
  obtains (error) e where "writer_used_slice w = error_message e 0 c'" "responder_inv c'"
      "connection_state (runtime_info c') = connection_state (runtime_info c)"
    | (response) c4 k other where "connection_state (runtime_info c) = SpdmConnectionAfterCapabilities"
      "connection_state (runtime_info c4) = SpdmConnectionAfterCapabilities" "responder_inv c4"
      "selection_ok (config_info c4) (negotiate_info c4)" "k \<le> 48"
      "length (trans_a c) + length (take k bs) \<le> 156" "trans_a c4 = trans_a c @ take k bs"
      "(writer_used_slice w, c') = logged (algorithm_message other c4) c4"
proof -
  have ok: "a_ok c" using inv by (simp add: responder_inv_def)
  note r = r [unfolded write_spdm_algorithm_written [OF ok]]
  show thesis
  proof (cases "connection_state (runtime_info c) = SpdmConnectionAfterCapabilities \<and>
      (\<exists>v op rest. bs = v # op # rest \<and> SpdmVersion_of_u8 v = spdm_version_sel (negotiate_info c) \<and>
        SpdmNegotiateAlgorithmsRequestPayload_spdm_read (negotiate_info c) (rd_at [v, op] rest) \<noteq> None)")
    case True
    then obtain v op rest q rd where st: "connection_state (runtime_info c) = SpdmConnectionAfterCapabilities"
      and bs: "bs = v # op # rest" and v: "SpdmVersion_of_u8 v = spdm_version_sel (negotiate_info c)"
      and q: "SpdmNegotiateAlgorithmsRequestPayload_spdm_read (negotiate_info c) (rd_at [v, op] rest) = Some (q, rd)"
      by auto
    have k: "reader_used rd \<le> 48" using negalg_used [OF q] by simp
    let ?req = "take (reader_used rd) bs"
    show thesis
    proof (cases "length (trans_a c) + length ?req \<le> 156")
      case fits: True
      define c2 where "c2 = with_selection (with_offer ?req q c)"
      have c2: "responder_inv c2" "connection_state (runtime_info c2) = SpdmConnectionAfterCapabilities"
          "trans_a c2 = trans_a c @ ?req" "selection_ok (config_info c2) (negotiate_info c2)"
          "config_info c2 = config_info c"
        using with_selection_inv [OF inv st fits] by (simp_all add: c2_def)
      obtain x c3 where x: "construct_my_cert_chain cr c2 = (x, c3)" by force
      then have "same_but_chains c2 c3" using construct_same_but_chains [of c2 cr] by simp
      note c3 = responder_inv_chains [OF this]
      have r': "(case x of Ok _ \<Rightarrow>
            let other = opaque_support (config_info c) AND na_other_params_support q;
                c4 = upd_neg (opaque_data_support_update (\<lambda>_. other)) c3
            in written (logged (algorithm_message other c4) c4)
          | Err _ \<Rightarrow> written (error_message SpdmErrorUnspecified 0 c3, c3)
          | Panic \<Rightarrow> Panic) = Ok (w, c')"
        using r st v fits x by (simp add: bs q c2_def)
      then show thesis
      proof (cases x)
        case (Ok u)
        define other where "other = opaque_support (config_info c) AND na_other_params_support q"
        define c4 where "c4 = upd_neg (opaque_data_support_update (\<lambda>_. other)) c3"
        have "(writer_used_slice w, c') = logged (algorithm_message other c4) c4"
          using r' Ok by (intro written_eq_Ok) (simp add: Let_def other_def c4_def)
        moreover have "responder_inv c4" "connection_state (runtime_info c4) = SpdmConnectionAfterCapabilities"
            "trans_a c4 = trans_a c @ ?req" "selection_ok (config_info c4) (negotiate_info c4)"
          using c2 c3 opaque_support_inv(1) [where c = c3 and x = other] by (simp_all add: c4_def opaque_support_inv(2))
        ultimately show thesis using st k fits by (intro response [of c4 "reader_used rd" other])
      next
        case (Err e)
        with r' have "writer_used_slice w = error_message SpdmErrorUnspecified 0 c3" "c' = c3"
          by (auto dest: written_eq_Ok)
        with c2 c3 show thesis using st by (intro error [of SpdmErrorUnspecified]) simp_all
      qed simp
    next
      case False
      let ?c2 = "upd_neg (take_algorithms q) (clear_l1l2 c)"
      from False r st v have "writer_used_slice w = error_message SpdmErrorUnspecified 0 ?c2" "c' = ?c2"
        by (auto simp: bs q Let_def dest: written_eq_Ok)
      moreover have "responder_inv ?c2" using inv st by (simp add: responder_inv_def state_at_least_unat)
      ultimately show thesis using st by (intro error [of SpdmErrorUnspecified]) simp_all
    qed
  next
    case False
    with r have "\<exists>e. writer_used_slice w = error_message e 0 c" "c' = c \<or> c' = clear_l1l2 c"
      by (auto split: list.splits if_splits option.splits dest!: written_eq_Ok)
    with inv show thesis by (auto intro: error)
  qed
qed

interpretation h_algorithm: responder_handler "write_spdm_algorithm cr bs" for cr bs
proof unfold_locales
  fix c c' :: "'a SpdmContext" and w
  assume inv: "responder_inv c" and r: "write_spdm_algorithm cr bs send_writer c = Ok (w, c')"
  then show "responder_inv c' \<and>
      (\<exists>c''. after_send (writer_used_slice w) c' = (Ok (), c'') \<and> responder_inv c'')"
  proof (cases rule: algorithm_cases)
    case (response c4 k other)
    then have c': "responder_inv c'" using responder_inv_logged by (metis snd_conv)
    from response have "writer_used_slice w = algorithm_message other c4 \<or>
        (\<exists>e. writer_used_slice w = algorithm_message other c4 @ e)"
      "negotiate_info c' = negotiate_info c4" "config_info c' = config_info c4"
      "connection_state (runtime_info c') = SpdmConnectionAfterCapabilities"
      by (auto simp: logged_def split: if_splits)
    with c' response show ?thesis by (auto simp: responder_inv_def state_at_least_unat)
  qed auto
qed

section \<open>Delivery\<close>

text \<open>The message \<open>m\<close> went out as one frame of the transport and the device accepted it.\<close>

definition sent_as :: "'h platform \<Rightarrow> bytes \<Rightarrow> 'h ResponderContext \<Rightarrow> 'h ResponderContext \<Rightarrow> bool" where
  "sent_as p m rc rc' \<longleftrightarrow>
    (\<exists>n buf. encap (p_transport p) m (replicate SENDER_BUFFER_SIZE 0) = (Ok n, buf) \<and>
      sent rc' = sent rc @ [(take n buf, True)])"

context responder_handler
begin

lemma delivered:
  assumes inv: "responder_inv (common rc)" and s: "send_written p None respond rc = Some (Ok (), rc')"
  obtains w c' where "respond send_writer (common rc) = Ok (w, c')" "responder_inv c'" "responder_inv (common rc')"
    "sent_as p (sized (writer_used_slice w) c') rc rc'"
    "after_send (sized (writer_used_slice w) c') c' = (Ok (), common rc')"
proof -
  from s obtain w c' where w: "respond send_writer (common rc) = Ok (w, c')"
    "send_message p (writer_used_slice w) (rc\<lparr>common := c'\<rparr>) = Some (Ok (), rc')"
    by (auto simp: send_written_def split: result.splits)
  with sendable [OF inv] have c': "responder_inv c'" by blast
  have "send_message p (writer_used_slice w) (rc\<lparr>common := c'\<rparr>) =
      Some (send_frame p (sized (writer_used_slice w) c') (rc\<lparr>common := c'\<rparr>))"
    using c' by (subst send_message_sized) (auto simp: too_large_def word_le_nat_alt responder_inv_def)
  with w have f: "send_frame p (sized (writer_used_slice w) c') (rc\<lparr>common := c'\<rparr>) = (Ok (), rc')" by simp
  then have "sent_as p (sized (writer_used_slice w) c') rc rc'"
    "after_send (sized (writer_used_slice w) c') c' = (Ok (), common rc')"
    by (auto simp: send_frame_def device_send_def sent_as_def split: prod.splits result.splits)
  moreover have "responder_inv (common rc')" using handled [OF inv, of p] s by auto
  ultimately show thesis using that w c' by blast
qed

end

lemma version_step:
  assumes inv: "responder_inv (common rc)" and h: "handle_spdm_version p bs rc = Some (Ok (), rc')"
    and st: "connection_state (runtime_info (common rc)) \<noteq> SpdmConnectionAfterVersion"
      "connection_state (runtime_info (common rc')) = SpdmConnectionAfterVersion"
  obtains m where "sent_as p m rc rc'" "responder_inv (common rc')" "length m = 12" "m ! 1 = 0x04"
    "trans_a (common rc') = take 4 bs @ m"
proof -
  from h_version.delivered [OF inv h [unfolded handle_spdm_version_def]]
  obtain w c' where w: "write_spdm_version_response bs send_writer (common rc) = Ok (w, c')"
    and c': "responder_inv c'" "responder_inv (common rc')" "sent_as p (sized (writer_used_slice w) c') rc rc'"
      "after_send (sized (writer_used_slice w) c') c' = (Ok (), common rc')" by blast
  let ?c = "common rc" and ?m = "version_message (config_info (common rc))"
  have len: "length (spdm_version (config_info ?c)) = 3" using inv by (simp add: responder_inv_def)
  from w [unfolded write_spdm_version_response_written [OF len], THEN written_eq_Ok]
  consider e where "writer_used_slice w = error_message e 0 ?c"
      "connection_state (runtime_info c') = connection_state (runtime_info ?c)"
    | "writer_used_slice w = ?m" "c' = log_a ?m (log_a (take 4 bs) (reset_context ?c))"
    by (auto split: list.splits if_splits)
  then have m: "writer_used_slice w = ?m" "c' = log_a ?m (log_a (take 4 bs) (reset_context ?c))"
    using c'(4) st by (cases; simp add: sized_def split: if_splits)+
  then have sz: "sized (writer_used_slice w) c' = ?m"
    by (simp add: sized_def too_large_def SpdmNegotiateInfo_default_def)
  have "common rc' = set_connection_state SpdmConnectionAfterVersion c'"
    using c'(4) by (simp add: sz)
  then have "trans_a (common rc') = take 4 bs @ ?m" using m(2) by (simp add: trans_log_a)
  with c' sz show thesis by (intro that [of ?m]) (simp_all add: version_message_def version_payload_image_def)
qed

lemma capability_step:
  assumes inv: "responder_inv (common rc)" and h: "handle_spdm_capability p bs rc = Some (Ok (), rc')"
    and fits: "length (trans_a (common rc)) \<le> 116"
    and st: "connection_state (runtime_info (common rc')) = SpdmConnectionAfterCapabilities"
      "connection_state (runtime_info (common rc)) = SpdmConnectionAfterVersion"
  obtains m k where "sent_as p m rc rc'" "responder_inv (common rc')" "length m \<le> 20" "m ! 1 = 0x61" "k \<le> 20"
    "trans_a (common rc') = trans_a (common rc) @ take k bs @ m"
proof -
  from h_capability.delivered [OF inv h [unfolded handle_spdm_capability_def]]
  obtain w c' where w: "write_spdm_capability_response bs send_writer (common rc) = Ok (w, c')"
    and c': "responder_inv c'" "responder_inv (common rc')" "sent_as p (sized (writer_used_slice w) c') rc rc'"
      "after_send (sized (writer_used_slice w) c') c' = (Ok (), common rc')" by blast
  from inv w show thesis
  proof (cases rule: capability_cases)
    case (error e)
    with c'(4) st show ?thesis by (simp add: sized_def split: if_splits)
  next
    case (response c2 k)
    let ?m = "capability_message c2"
    have "length (trans_a (log_a (take k bs) c2)) + length ?m \<le> 156" "a_ok c2"
      using response fits length_capability_message [of c2] trans_log_a [of c2 "take k bs"]
      by (simp_all add: responder_inv_def)
    with response have m: "writer_used_slice w = ?m" "c' = log_a ?m (log_a (take k bs) c2)"
      and t: "trans_a c' = trans_a (common rc) @ take k bs @ ?m"
      by (auto simp: logged_def trans_log_a responder_inv_def)
    have sz: "sized (writer_used_slice w) c' = ?m"
      using response(3) length_capability_message [of c2]
      by (auto simp: sized_def too_large_def m responder_inv_def word_le_nat_alt)
    have "common rc' = set_connection_state SpdmConnectionAfterCapabilities c'"
      using c'(4) by (simp add: sz)
    then have "trans_a (common rc') = trans_a c'" by simp
    with c' sz t response(6) show thesis
      by (intro that [of ?m k]) (simp_all add: capability_message_def)
  qed
qed

lemma algorithm_step:
  assumes inv: "responder_inv (common rc)" and h: "handle_spdm_algorithm p bs rc = Some (Ok (), rc')"
    and fits: "length (trans_a (common rc)) \<le> 56"
    and st: "connection_state (runtime_info (common rc')) = SpdmConnectionNegotiated"
      "connection_state (runtime_info (common rc)) = SpdmConnectionAfterCapabilities"
  obtains m k where "sent_as p m rc rc'" "responder_inv (common rc')" "length m \<le> 52" "m ! 1 = 0x63" "k \<le> 48"
    "trans_a (common rc') = trans_a (common rc) @ take k bs @ m"
proof -
  from h_algorithm.delivered [OF inv h [unfolded handle_spdm_algorithm_def]]
  obtain w c' where w: "write_spdm_algorithm (p_crypto p) bs send_writer (common rc) = Ok (w, c')"
    and c': "responder_inv c'" "responder_inv (common rc')" "sent_as p (sized (writer_used_slice w) c') rc rc'"
      "after_send (sized (writer_used_slice w) c') c' = (Ok (), common rc')" by blast
  from inv w show thesis
  proof (cases rule: algorithm_cases)
    case (error e)
    with c'(4) st show ?thesis by (simp add: sized_def split: if_splits)
  next
    case (response c4 k other)
    let ?m = "algorithm_message other c4"
    have "length (trans_a c4) + length ?m \<le> 156" "a_ok c4"
      using response fits length_algorithm_message [of other c4] by (simp_all add: responder_inv_def)
    with response have m: "writer_used_slice w = ?m" "c' = log_a ?m c4"
      and t: "trans_a c' = trans_a (common rc) @ take k bs @ ?m"
      by (auto simp: logged_def trans_log_a)
    have "connection_state (runtime_info c') = SpdmConnectionAfterCapabilities" using m response(2) by simp
    with st(1) have "common rc' \<noteq> c'" by auto
    then have sz: "sized (writer_used_slice w) c' = ?m"
      using c'(4) m(1) by (auto simp: sized_def split: if_splits)
    have "common rc' = set_connection_state SpdmConnectionNegotiated c'" using c'(4) by (simp add: sz)
    then have "trans_a (common rc') = trans_a c'" by simp
    with c' sz t response(5) show thesis
      by (intro that [of ?m k]) (simp_all add: algorithm_message_def)
  qed
qed

section \<open>Properties\<close>

lemma responder_inv_new:
  "length (spdm_version cfg) = 3 \<Longrightarrow> responder_inv (SpdmContext_new cfg prov)"
  by (simp add: responder_inv_def SpdmContext_new_def SpdmNegotiateInfo_default_def a_ok_def
      SpdmRuntimeInfo_default_def ManagedBufferA_default_def state_at_least_unat
      del: MAX_MANAGED_BUFFER_A_SIZE_eq)


definition sample_platform :: "(SpdmBaseHashAlgo \<times> bytes) platform" where
  "sample_platform = \<lparr>p_crypto = sample_crypto, p_transport = MctpTransportEncap, p_send = (\<lambda>_ _. Ok ())\<rparr>"

lemma sample_send_written:
  assumes "respond send_writer (common rc) = written (m, c')" "length m \<le> 100" "\<not> too_large m c'"
    "after_send m c' = (Ok (), c'')"
  shows "\<exists>f. send_written sample_platform None respond rc = Some (Ok (), \<lparr>common = c'', sent = sent rc @ [(f, True)]\<rparr>)"
proof -
  have "1 + aligned 1 (length m) \<le> length (replicate SENDER_BUFFER_SIZE (0 :: u8))"
    using assms(2) by (simp add: aligned_def SENDER_BUFFER_SIZE_def config_def)
  from tl_mctp.enc_fits [OF order.refl this] obtain n buf where
    "mctp_encap m (replicate SENDER_BUFFER_SIZE 0) False = (Ok n, buf)" by metis
  then have "send_frame sample_platform m (rc\<lparr>common := c'\<rparr>) =
      (Ok (), \<lparr>common = c'', sent = sent rc @ [(take n buf, True)]\<rparr>)"
    using assms(4) by (simp add: send_frame_def device_send_def sample_platform_def encap_def
        MctpTransportEncap_def)
  then show ?thesis
    using assms by (subst send_written_def) (auto simp: written_def send_message_sized sized_def)
qed


lemma sample_slots:
  assumes "my_cert_chain_data (provision_info c) = replicate 8 None"
    "length (my_cert_chain (provision_info c)) = 8"
  shows "construct_my_cert_chain cr c = (Ok (), c)"
proof -
  have "construct_cert_chain_slot cr i c = Ok c" if "i < 8" for i
    using assms that by (simp add: construct_cert_chain_slot_def index_panic_def split: option.split)
  then have "run_steps (map (construct_cert_chain_slot cr) is) c = (Ok (), c)" if "set is \<subseteq> {..<8}" for "is"
    using that by (induction "is") simp_all
  then show ?thesis by (simp add: construct_my_cert_chain_def SPDM_MAX_SLOT_NUMBER_def subset_eq)
qed

definition sample_responder :: "(SpdmBaseHashAlgo \<times> bytes) ResponderContext" where
  "sample_responder = ResponderContext_new sample_config
    \<lparr>my_cert_chain_data = replicate 8 None, my_cert_chain = replicate 8 None, peer_root_cert_data = None\<rparr>"

definition sample_negotiate :: bytes where
  "sample_negotiate = [0x10, 0xE3, 0, 0, 32, 0, 1, 0, 0x80, 0, 0, 0, 2, 0, 0, 0] @ replicate 12 0 @ [0, 0, 0, 0]"

lemma sample_versions_received:
  "\<exists>rc1. handle_spdm_version sample_platform [0x10, 0x84, 0, 0] sample_responder = Some (Ok (), rc1) \<and>
    common rc1 = set_connection_state SpdmConnectionAfterVersion
      (log_a (version_message sample_config) (log_a [0x10, 0x84, 0, 0] (reset_context (common sample_responder))))"
proof -
  let ?c = "common sample_responder" and ?m = "version_message sample_config"
  have c: "config_info ?c = sample_config" "length (spdm_version sample_config) = 3"
    by (simp_all add: sample_responder_def ResponderContext_new_def SpdmContext_new_def sample_config_def)
  have "write_spdm_version_response [0x10, 0x84, 0, 0] send_writer ?c =
      written (?m, log_a ?m (log_a [0x10, 0x84, 0, 0] (reset_context ?c)))"
    by (subst write_spdm_version_response_written) (simp_all add: c SpdmVersion_of_u8_def)
  from sample_send_written [of "write_spdm_version_response [0x10, 0x84, 0, 0]" sample_responder, OF this]
  show ?thesis
    by (auto simp: handle_spdm_version_def too_large_def SpdmNegotiateInfo_default_def)
qed

lemma sample_capabilities_received:
  assumes "responder_inv (common rc)" "length (trans_a (common rc)) \<le> 116"
    "connection_state (runtime_info (common rc)) = SpdmConnectionAfterVersion"
    "req_data_transfer_size_sel (negotiate_info (common rc)) = 0"
  shows "\<exists>rc'. handle_spdm_capability sample_platform [0x10, 0xE1, 0, 0] rc = Some (Ok (), rc') \<and>
    connection_state (runtime_info (common rc')) = SpdmConnectionAfterCapabilities \<and>
    provision_info (common rc') = provision_info (common rc) \<and>
    spdm_version_sel (negotiate_info (common rc')) = SpdmVersion10 \<and>
    req_data_transfer_size_sel (negotiate_info (common rc')) = 0"
proof -
  let ?q = "\<lparr>gc_ct_exponent = 0, gc_flags = 0, gc_data_transfer_size = 0, gc_max_spdm_msg_size = 0\<rparr>"
  define c1 where "c1 = clear_l1l2 (upd_neg (spdm_version_sel_update (\<lambda>_. SpdmVersion10)) (common rc))"
  define c2 where "c2 = upd_neg (select_capabilities (config_info (common rc)) ?q) c1"
  let ?m = "capability_message c2" and ?req = "[0x10, 0xE1, 0, 0] :: bytes"
  have a: "a_ok (common rc)" using assms by (simp add: responder_inv_def)
  have v10: "\<not> at_least v (negotiate_info c1)" if "v \<in> {SpdmVersion11, SpdmVersion12}" for v
    using that by (auto simp: at_least_def c1_def word_le_nat_alt)
  have rd: "SpdmGetCapabilitiesRequestPayload_spdm_read (negotiate_info c1) (rd_at [0x10, 0xE1] [0, 0]) =
      Some (?q, rd_at ?req [])"
    by (simp add: SpdmGetCapabilitiesRequestPayload_spdm_read_def v10)
  have c2: "a_ok c2" "trans_a c2 = trans_a (common rc)" "spdm_version_sel (negotiate_info c2) = SpdmVersion10"
      "req_data_transfer_size_sel (negotiate_info c2) = 0" "provision_info c2 = provision_info (common rc)"
    using a assms v10 by (simp_all add: c2_def c1_def select_capabilities_def Let_def at_least_def)
  have "length (trans_a (log_a ?req c2)) + length ?m \<le> 156" "length (trans_a (common rc)) + 4 \<le> 156"
    using c2 assms length_capability_message [of c2] trans_log_a(1) [of c2 ?req] by simp_all
  then have "write_spdm_capability_response ?req send_writer (common rc) =
      written (?m, log_a ?m (log_a ?req c2))"
    using assms rd by (subst write_spdm_capability_response_written [OF a])
      (simp add: logged_def SpdmVersion_of_u8_def Let_def flip: c1_def c2_def)
  from sample_send_written [of "write_spdm_capability_response ?req" rc, OF this] show ?thesis
    using c2 length_capability_message [of c2] by (auto simp: handle_spdm_capability_def too_large_def)
qed

definition sample_offer :: SpdmNegotiateAlgorithmsRequestPayload where
  "sample_offer = \<lparr>na_measurement_specification = 1, na_other_params_support = 0, na_base_asym_algo = 0x80,
    na_base_hash_algo = 2, na_alg_struct_count = 0, na_alg_struct = replicate 4 SpdmAlgStruct_default\<rparr>"

lemma sample_offer_image:
  assumes "spdm_version_sel ni = SpdmVersion10"
  shows "negalg_image ni sample_offer = drop 2 sample_negotiate" "negalg_valid ni sample_offer"
proof -
  have v10: "\<not> at_least v ni" if "v \<in> {SpdmVersion11, SpdmVersion12}" for v
    using that assms by (auto simp: at_least_def word_le_nat_alt)
  have le: "le_bytes 2 (32 :: u16) = [32, 0]" "le_bytes 4 (0x80 :: u32) = [0x80, 0, 0, 0]"
    "le_bytes 4 (2 :: u32) = [2, 0, 0, 0]" "le_bytes 2 (0 :: u16) = [0, 0]" by code_simp+
  show "negalg_image ni sample_offer = drop 2 sample_negotiate"
    by (simp add: sample_offer_def negalg_image_def alg_head_image_def alg_tail_image_def alg_length_def v10 le
        sample_negotiate_def)
  show "negalg_valid ni sample_offer"
    by (simp add: sample_offer_def negalg_valid_def other_ok_def alg_tail_ok_def v10
        SpdmMeasurementSpecification_VALID_MASK_def SpdmBaseAsymAlgo_VALID_MASK_def
        SpdmBaseHashAlgo_VALID_MASK_def)
qed

lemma sample_algorithm_written:
  assumes "responder_inv c" "length (trans_a c) \<le> 56"
    "connection_state (runtime_info c) = SpdmConnectionAfterCapabilities"
    "req_data_transfer_size_sel (negotiate_info c) = 0" "spdm_version_sel (negotiate_info c) = SpdmVersion10"
    "provision_info c = provision_info (common sample_responder)"
  shows "\<exists>other c4. write_spdm_algorithm sample_crypto sample_negotiate send_writer c =
      written (algorithm_message other c4, log_a (algorithm_message other c4) c4) \<and>
    connection_state (runtime_info c4) = SpdmConnectionAfterCapabilities \<and>
    req_data_transfer_size_sel (negotiate_info c4) = 0"
proof -
  let ?req = sample_negotiate and ?q = sample_offer
  have a: "a_ok c" using assms by (simp add: responder_inv_def)
  have rd: "SpdmNegotiateAlgorithmsRequestPayload_spdm_read (negotiate_info c)
      (rd_at [0x10, 0xE3] (drop 2 ?req)) = Some (?q, rd_at ?req [])"
    using c_negalg.read_image [of "negotiate_info c" ?q "[0x10, 0xE3]" "[]"] sample_offer_image [OF assms(5)]
    by (simp add: sample_negotiate_def)
  define c2 where "c2 = with_selection (with_offer ?req ?q c)"
  have fits: "length (trans_a c) + length ?req \<le> 156" using assms(2) by (simp add: sample_negotiate_def)
  note c2 = with_selection_inv [OF assms(1,3) fits, of ?q, folded c2_def]
  have chains: "construct_my_cert_chain sample_crypto c2 = (Ok (), c2)"
    by (rule sample_slots) (simp_all add: c2_def with_selection_def with_offer_def assms(6)
      sample_responder_def ResponderContext_new_def SpdmContext_new_def)
  define other where "other = opaque_support (config_info c) AND na_other_params_support ?q"
  define c4 where "c4 = upd_neg (opaque_data_support_update (\<lambda>_. other)) c2"
  let ?m = "algorithm_message other c4"
  have c4: "trans_a c4 = trans_a c @ ?req" "connection_state (runtime_info c4) = SpdmConnectionAfterCapabilities"
    "req_data_transfer_size_sel (negotiate_info c4) = 0"
    using c2 assms(4) by (simp_all add: c4_def) (simp add: c2_def with_selection_def with_offer_def)
  have "length (trans_a c4) + length ?m \<le> 156"
    using c4 assms(2) length_algorithm_message [of other c4] by (simp add: sample_negotiate_def)
  then have "write_spdm_algorithm sample_crypto ?req send_writer c = written (?m, log_a ?m c4)"
    using assms rd fits chains by (subst write_spdm_algorithm_written [OF a])
      (simp add: logged_def sample_negotiate_def SpdmVersion_of_u8_def Let_def c4_def other_def c2_def)
  with c4 show ?thesis by blast
qed

lemma sample_algorithms_received:
  assumes "responder_inv (common rc)" "length (trans_a (common rc)) \<le> 56"
    "connection_state (runtime_info (common rc)) = SpdmConnectionAfterCapabilities"
    "req_data_transfer_size_sel (negotiate_info (common rc)) = 0"
    "spdm_version_sel (negotiate_info (common rc)) = SpdmVersion10"
    "provision_info (common rc) = provision_info (common sample_responder)"
  shows "\<exists>rc'. handle_spdm_algorithm sample_platform sample_negotiate rc = Some (Ok (), rc') \<and>
    connection_state (runtime_info (common rc')) = SpdmConnectionNegotiated"
proof -
  from sample_algorithm_written [OF assms] obtain other c4 where
    w: "write_spdm_algorithm sample_crypto sample_negotiate send_writer (common rc) =
      written (algorithm_message other c4, log_a (algorithm_message other c4) c4)"
    and "req_data_transfer_size_sel (negotiate_info c4) = 0" by blast
  with sample_send_written [of "write_spdm_algorithm sample_crypto sample_negotiate" rc, OF w]
    length_algorithm_message [of other c4] show ?thesis
    by (auto simp: handle_spdm_algorithm_def too_large_def sample_platform_def)
qed


text \<open>
  C16: When sending returns. A message that exceeds the requester's transfer size is replaced by a four byte
  ERROR and the function calls itself, so both send functions return except for an oversized message and
  a transfer size of one to three bytes, for which the ERROR is oversized again and the recursion never ends.
\<close>

theorem sending_returns:
  "((\<exists>y. send_message p m rc = Some y) \<longleftrightarrow>
      \<not> (too_large m (common rc) \<and> unat (req_data_transfer_size_sel (negotiate_info (common rc))) < 4)) \<and>
   ((\<exists>y. send_secured_message p sid m is_app rc = Some y) \<longleftrightarrow>
      \<not> (\<not> is_app \<and> too_large m (common rc) \<and>
        unat (req_data_transfer_size_sel (negotiate_info (common rc))) < 4))"
proof (intro conjI iffI)
  assume "\<exists>y. send_message p m rc = Some y"
  then show "\<not> (too_large m (common rc) \<and>
      unat (req_data_transfer_size_sel (negotiate_info (common rc))) < 4)"
    using send_message_diverges by blast
next
  assume "\<exists>y. send_secured_message p sid m is_app rc = Some y"
  then show "\<not> (\<not> is_app \<and> too_large m (common rc) \<and>
      unat (req_data_transfer_size_sel (negotiate_info (common rc))) < 4)"
    using send_secured_message_diverges by blast
qed (use send_message_sized send_secured_message_sized in blast)+



text \<open>
  C20: Requests out of order are refused and change nothing: GET_CAPABILITIES in any state but right after
  VERSION, and NEGOTIATE_ALGORITHMS in any state but right after CAPABILITIES, amount to sending the ERROR
  UnexpectedRequest from the unchanged context, whatever the request contains.
\<close>

theorem out_of_order_refused:
  assumes "st = connection_state (runtime_info (common rc))"
  shows "(st \<noteq> SpdmConnectionAfterVersion \<longrightarrow>
      handle_spdm_capability p bs rc = send_message p (error_message SpdmErrorUnexpectedRequest 0 (common rc)) rc) \<and>
    (st \<noteq> SpdmConnectionAfterCapabilities \<longrightarrow>
      handle_spdm_algorithm p bs rc = send_message p (error_message SpdmErrorUnexpectedRequest 0 (common rc)) rc)"
  using assms
  by (simp add: handle_spdm_capability_def handle_spdm_algorithm_def send_written_def fail_with_at
      write_spdm_capability_response_def write_spdm_algorithm_def)

theorem out_of_order_refused_witness:
  "handle_spdm_algorithm sample_platform sample_negotiate sample_responder =
    send_message sample_platform (error_message SpdmErrorUnexpectedRequest 0 (common sample_responder)) sample_responder"
  using out_of_order_refused [OF refl, of sample_responder sample_platform sample_negotiate]
  by (simp add: sample_responder_def ResponderContext_new_def SpdmContext_new_def SpdmRuntimeInfo_default_def)




end
