(* ===== verification/Opaque.thy ===== *)
theory Opaque
  imports Messages
begin

text \<open>
  Opaque data of the session messages, \<open>spdmlib/src/common/opaque.rs\<close>: the lists of secured message
  versions that KEY_EXCHANGE and PSK_EXCHANGE carry, their codecs, and the two functions by which the
  responder reads the offered versions and the requester the selected one.

  \<^item> Fixed arrays are lists of the array's length; an index beyond it is a panic.
  \<^item> The alignment padding depends on the absolute position of the reader or writer, as in the source.
  \<^item> The lemmas give the codecs' round trips and what either side reads from the constants the other
    one sends.
\<close>

section \<open>Definitions\<close>

definition MAX_SECURE_SPDM_VERSION_COUNT :: nat where
  "MAX_SECURE_SPDM_VERSION_COUNT = 2"

definition MAX_OPAQUE_LIST_ELEMENTS_COUNT :: nat where
  "MAX_OPAQUE_LIST_ELEMENTS_COUNT = 3"

definition MAX_SPDM_VENDOR_DEFINED_VENDOR_ID_LEN :: nat where
  "MAX_SPDM_VENDOR_DEFINED_VENDOR_ID_LEN = 0xFF"

definition DMTF_SPEC_ID :: u32 where
  "DMTF_SPEC_ID = 0x444D546"

definition DMTF_OPAQUE_VERSION :: u8 where
  "DMTF_OPAQUE_VERSION = 1"

definition OPAQUE_DATA_FMT1 :: SpdmOpaqueSupport where
  "OPAQUE_DATA_FMT1 = 2"

definition REQ_DMTF_OPAQUE_DATA_SUPPORT_VERSION_LIST_DSP0277 :: bytes where
  "REQ_DMTF_OPAQUE_DATA_SUPPORT_VERSION_LIST_DSP0277 =
    [0x46, 0x54, 0x4d, 0x44, DMTF_OPAQUE_VERSION, 1, 0, 0,
     0, 0, 7, 0, 1, 1, 2, 0, 0x10, 0, 0x11, 0]"

definition RSP_DMTF_OPAQUE_DATA_VERSION_SELECTION_DSP0277 :: bytes where
  "RSP_DMTF_OPAQUE_DATA_VERSION_SELECTION_DSP0277 =
    [0x46, 0x54, 0x4d, 0x44, DMTF_OPAQUE_VERSION, 1, 0, 0,
     0, 0, 4, 0, 1, 0, 0, 0x11]"

definition REQ_DMTF_OPAQUE_DATA_SUPPORT_VERSION_LIST_DSP0274_FMT1 :: bytes where
  "REQ_DMTF_OPAQUE_DATA_SUPPORT_VERSION_LIST_DSP0274_FMT1 =
    [1, 0, 0, 0, 0, 0, 7, 0, 1, 1, 2, 0, 0x10, 0, 0x11, 0]"

definition RSP_DMTF_OPAQUE_DATA_VERSION_SELECTION_DSP0274_FMT1 :: bytes where
  "RSP_DMTF_OPAQUE_DATA_VERSION_SELECTION_DSP0274_FMT1 =
    [1, 0, 0, 0, 0, 0, 4, 0, 1, 0, 0, 0x11]"

subsection \<open>Secured message versions\<close>

record SecuredMessageVersion =
  major_version :: u8
  minor_version :: u8
  update_version_number :: u8
  alpha :: u8

definition SecuredMessageVersion_default :: SecuredMessageVersion where
  "SecuredMessageVersion_default =
    \<lparr>major_version = 0, minor_version = 0, update_version_number = 0, alpha = 0\<rparr>"

definition SecuredMessageVersion_spdm_encode :: "SecuredMessageVersion \<Rightarrow> SpdmStatus enc" where
  "SecuredMessageVersion_spdm_encode v = encs (map BUFFER_FULL_enc
    [u8_encode (push_bit 4 (update_version_number v) + alpha v),
     u8_encode (push_bit 4 (major_version v) + minor_version v)])"

definition SecuredMessageVersion_spdm_read :: "SecuredMessageVersion rd" where
  "SecuredMessageVersion_spdm_read r = do {
     (ua, r) \<leftarrow> u8_read r;
     (mm, r) \<leftarrow> u8_read r;
     Some (\<lparr>major_version = drop_bit 4 mm, minor_version = mm AND 0x0F,
       update_version_number = drop_bit 4 ua, alpha = ua AND 0x0F\<rparr>, r)
   }"

definition get_secure_spdm_version :: "SecuredMessageVersion \<Rightarrow> u8" where
  "get_secure_spdm_version v = push_bit 4 (major_version v) + minor_version v"

definition from_secure_spdm_version :: "u8 \<Rightarrow> SecuredMessageVersion" where
  "from_secure_spdm_version x =
    \<lparr>major_version = drop_bit 4 x, minor_version = x AND 0x0F, update_version_number = 0, alpha = 0\<rparr>"

record SecuredMessageVersionList =
  version_count :: u8
  versions_list :: "SecuredMessageVersion list"

definition SecuredMessageVersionList_default :: SecuredMessageVersionList where
  "SecuredMessageVersionList_default = \<lparr>version_count = 0,
    versions_list = replicate MAX_SECURE_SPDM_VERSION_COUNT SecuredMessageVersion_default\<rparr>"

text \<open>\<open>for index in 0..n\<close> over an array: the elements in order, and a panic once the index leaves the array.\<close>

definition indexed_encs :: "('a \<Rightarrow> 'e enc) \<Rightarrow> nat \<Rightarrow> 'a list \<Rightarrow> 'e enc list" where
  "indexed_encs e n xs = map e (take n xs) @ (if n \<le> length xs then [] else [\<lambda>w. (Panic, w)])"

definition SecuredMessageVersionList_spdm_encode :: "SecuredMessageVersionList \<Rightarrow> SpdmStatus enc" where
  "SecuredMessageVersionList_spdm_encode l = encs (
    BUFFER_FULL_enc (u8_encode (version_count l)) #
    indexed_encs SecuredMessageVersion_spdm_encode (unat (version_count l)) (versions_list l))"

fun read_list :: "'a rd \<Rightarrow> nat \<Rightarrow> 'a list rd" where
  "read_list rd 0 r = Some ([], r)"
| "read_list rd (Suc n) r = do {
     (x, r) \<leftarrow> rd r;
     (xs, r) \<leftarrow> read_list rd n r;
     Some (x # xs, r)
   }"

text \<open>\<open>for d in array.iter_mut().take(n)\<close>: at most the array's length is read, the rest keeps its default.\<close>

definition read_into :: "'a \<Rightarrow> nat \<Rightarrow> 'a rd \<Rightarrow> nat \<Rightarrow> 'a list rd" where
  "read_into d cap rd n r = do {
     (xs, r) \<leftarrow> read_list rd (min n cap) r;
     Some (xs @ replicate (cap - n) d, r)
   }"

definition SecuredMessageVersionList_spdm_read :: "SecuredMessageVersionList rd" where
  "SecuredMessageVersionList_spdm_read r = do {
     (n, r) \<leftarrow> u8_read r;
     (vs, r) \<leftarrow> read_into SecuredMessageVersion_default MAX_SECURE_SPDM_VERSION_COUNT
       SecuredMessageVersion_spdm_read (unat n) r;
     Some (\<lparr>version_count = n, versions_list = vs\<rparr>, r)
   }"

subsection \<open>Headers and elements\<close>

record OpaqueElementHeader =
  oe_id :: u8
  vendor_len :: u8
  oe_vendor_id :: bytes

definition OpaqueElementHeader_spdm_encode :: "OpaqueElementHeader \<Rightarrow> SpdmStatus enc" where
  "OpaqueElementHeader_spdm_encode h = encs (map BUFFER_FULL_enc
    ([u8_encode (oe_id h), u8_encode (vendor_len h)] @
     indexed_encs u8_encode (unat (vendor_len h)) (oe_vendor_id h)))"

definition OpaqueElementHeader_spdm_read :: "OpaqueElementHeader rd" where
  "OpaqueElementHeader_spdm_read r = do {
     (i, r) \<leftarrow> u8_read r;
     (n, r) \<leftarrow> u8_read r;
     (v, r) \<leftarrow> read_into 0 MAX_SPDM_VENDOR_DEFINED_VENDOR_ID_LEN u8_read (unat n) r;
     Some (\<lparr>oe_id = i, vendor_len = n, oe_vendor_id = v\<rparr>, r)
   }"

definition SecuredMessageGeneralOpaqueDataHeader_spdm_encode ::
    "SpdmNegotiateInfo \<Rightarrow> u8 \<Rightarrow> SpdmStatus enc" where
  "SecuredMessageGeneralOpaqueDataHeader_spdm_encode ni total_elements =
    (if \<not> at_least SpdmVersion12 ni
     then encs (map BUFFER_FULL_enc [u32_encode DMTF_SPEC_ID, u8_encode DMTF_OPAQUE_VERSION,
       u8_encode total_elements, u16_encode 0])
     else if opaque_data_support ni = OPAQUE_DATA_FMT1
     then encs (map BUFFER_FULL_enc [u8_encode total_elements, u8_encode 0, u16_encode 0])
     else (\<lambda>w. (Err SPDM_STATUS_UNSUPPORTED_CAP, w)))"

definition SecuredMessageGeneralOpaqueDataHeader_spdm_read :: "SpdmNegotiateInfo \<Rightarrow> u8 rd" where
  "SecuredMessageGeneralOpaqueDataHeader_spdm_read ni r =
    (if \<not> at_least SpdmVersion12 ni
     then do {
       (spec_id, r) \<leftarrow> u32_read r;
       (if spec_id \<noteq> DMTF_SPEC_ID then None
        else do {
          (v, r) \<leftarrow> u8_read r;
          (if v \<noteq> DMTF_OPAQUE_VERSION then None
           else do {
             (n, r) \<leftarrow> u8_read r;
             (_, r) \<leftarrow> u16_read r;
             Some (n, r)
           })
        })
     }
     else if opaque_data_support ni = OPAQUE_DATA_FMT1
     then do {
       (n, r) \<leftarrow> u8_read r;
       (_, r) \<leftarrow> u8_read r;
       (_, r) \<leftarrow> u8_read r;
       (_, r) \<leftarrow> u8_read r;
       Some (n, r)
     }
     else None)"

definition OpaqueElementDMTFVersionSelection_spdm_encode :: "SecuredMessageVersion \<Rightarrow> SpdmStatus enc" where
  "OpaqueElementDMTFVersionSelection_spdm_encode v = encs (map BUFFER_FULL_enc
    [u8_encode 0, u8_encode 0, u16_encode 4, u8_encode 1, u8_encode 0] @
    [enc_map_err (\<lambda>_. SPDM_STATUS_BUFFER_FULL) (SecuredMessageVersion_spdm_encode v)])"

definition element_prefix_read :: "unit rd" where
  "element_prefix_read r = do {
     (_, r) \<leftarrow> u8_read r;
     (_, r) \<leftarrow> u8_read r;
     (_, r) \<leftarrow> u16_read r;
     (_, r) \<leftarrow> u8_read r;
     (_, r) \<leftarrow> u8_read r;
     Some ((), r)
   }"

definition OpaqueElementDMTFVersionSelection_spdm_read :: "SecuredMessageVersion rd" where
  "OpaqueElementDMTFVersionSelection_spdm_read r = do {
     (_, r) \<leftarrow> element_prefix_read r;
     SecuredMessageVersion_spdm_read r
   }"

definition align_padding :: "nat \<Rightarrow> nat" where
  "align_padding filled = (filled + 3) div 4 * 4 - filled"

definition OpaqueElementDMTFSupportedVersion_spdm_encode ::
    "SecuredMessageVersionList \<Rightarrow> SpdmStatus enc" where
  "OpaqueElementDMTFSupportedVersion_spdm_encode l = encs (map BUFFER_FULL_enc
    [u8_encode 0, u8_encode 0, u16_encode (3 + 2 * ucast (version_count l)), u8_encode 1, u8_encode 1] @
    [SecuredMessageVersionList_spdm_encode l,
     \<lambda>w. encs (replicate (align_padding (writer_used w)) (BUFFER_FULL_enc (u8_encode 0))) w])"

definition OpaqueElementDMTFSupportedVersion_spdm_read :: "SecuredMessageVersionList rd" where
  "OpaqueElementDMTFSupportedVersion_spdm_read r = do {
     (_, r) \<leftarrow> element_prefix_read r;
     (l, r) \<leftarrow> SecuredMessageVersionList_spdm_read r;
     (_, r) \<leftarrow> read_array (align_padding (reader_used r)) r;
     Some (l, r)
   }"

subsection \<open>Lists of elements\<close>

record 'a opaque_elements =
  total_elements :: u8
  elements :: "'a list"

type_synonym SecuredMessageDMTFVersionSelection = "SecuredMessageVersion opaque_elements"
type_synonym SecuredMessageDMTFSupportedVersion = "SecuredMessageVersionList opaque_elements"

definition SecuredMessageDMTFVersionSelection_spdm_encode ::
    "SpdmNegotiateInfo \<Rightarrow> SecuredMessageDMTFVersionSelection \<Rightarrow> SpdmStatus enc" where
  "SecuredMessageDMTFVersionSelection_spdm_encode ni s = encs (map (enc_map_err (\<lambda>_. SPDM_STATUS_BUFFER_FULL))
    (SecuredMessageGeneralOpaqueDataHeader_spdm_encode ni (total_elements s) #
     indexed_encs OpaqueElementDMTFVersionSelection_spdm_encode (unat (total_elements s)) (elements s)))"

definition SecuredMessageDMTFVersionSelection_spdm_read ::
    "SpdmNegotiateInfo \<Rightarrow> SecuredMessageDMTFVersionSelection rd" where
  "SecuredMessageDMTFVersionSelection_spdm_read ni r = do {
     (n, r) \<leftarrow> SecuredMessageGeneralOpaqueDataHeader_spdm_read ni r;
     (xs, r) \<leftarrow> read_into SecuredMessageVersion_default MAX_OPAQUE_LIST_ELEMENTS_COUNT
       OpaqueElementDMTFVersionSelection_spdm_read (unat n) r;
     Some (\<lparr>total_elements = n, elements = xs\<rparr>, r)
   }"

definition SecuredMessageDMTFSupportedVersion_spdm_encode ::
    "SpdmNegotiateInfo \<Rightarrow> SecuredMessageDMTFSupportedVersion \<Rightarrow> SpdmStatus enc" where
  "SecuredMessageDMTFSupportedVersion_spdm_encode ni s = encs (map (enc_map_err (\<lambda>_. SPDM_STATUS_BUFFER_FULL))
    (SecuredMessageGeneralOpaqueDataHeader_spdm_encode ni (total_elements s) #
     indexed_encs OpaqueElementDMTFSupportedVersion_spdm_encode (unat (total_elements s)) (elements s)))"

definition SecuredMessageDMTFSupportedVersion_spdm_read ::
    "SpdmNegotiateInfo \<Rightarrow> SecuredMessageDMTFSupportedVersion rd" where
  "SecuredMessageDMTFSupportedVersion_spdm_read ni r = do {
     (n, r) \<leftarrow> SecuredMessageGeneralOpaqueDataHeader_spdm_read ni r;
     (if n > of_nat MAX_OPAQUE_LIST_ELEMENTS_COUNT then None
      else do {
        (xs, r) \<leftarrow> read_into SecuredMessageVersionList_default MAX_OPAQUE_LIST_ELEMENTS_COUNT
          OpaqueElementDMTFSupportedVersion_spdm_read (unat n) r;
        Some (\<lparr>total_elements = n, elements = xs\<rparr>, r)
      })
   }"

subsection \<open>Opaque data\<close>

type_synonym SpdmOpaqueStruct = sized_data

definition SpdmOpaqueStruct_spdm_encode :: "SpdmOpaqueStruct \<Rightarrow> SpdmStatus enc" where
  "SpdmOpaqueStruct_spdm_encode s = encs (map BUFFER_FULL_enc
    (u16_encode (data_size s) # map u8_encode (as_ref s)))"

text \<open>The \<open>data_size\<close> bytes of a fixed array of \<open>cap\<close> bytes, \<open>None\<close> as soon as the input ends.\<close>

definition read_sized :: "nat \<Rightarrow> u16 \<Rightarrow> sized_data rd" where
  "read_sized cap n r = do {
     (xs, r) \<leftarrow> read_into 0 cap u8_read (unat n) r;
     Some (\<lparr>data_size = n, data = xs\<rparr>, r)
   }"

definition SpdmOpaqueStruct_spdm_read :: "SpdmOpaqueStruct rd" where
  "SpdmOpaqueStruct_spdm_read r = do {
     (n, r) \<leftarrow> u16_read r;
     (if n > of_nat MAX_SPDM_OPAQUE_SIZE then None else read_sized MAX_SPDM_OPAQUE_SIZE n r)
   }"

definition rsp_get_dmtf_supported_secure_spdm_version_list ::
    "SpdmNegotiateInfo \<Rightarrow> SpdmOpaqueStruct \<Rightarrow> SecuredMessageVersionList option" where
  "rsp_get_dmtf_supported_secure_spdm_version_list ni s = do {
     (l, _) \<leftarrow> SecuredMessageDMTFSupportedVersion_spdm_read ni (reader_init (as_ref s));
     Some (hd (elements l))
   }"

definition req_get_dmtf_secure_spdm_version_selection ::
    "SpdmNegotiateInfo \<Rightarrow> SpdmOpaqueStruct \<Rightarrow> SecuredMessageVersion option" where
  "req_get_dmtf_secure_spdm_version_selection ni s = do {
     (l, _) \<leftarrow> SecuredMessageDMTFVersionSelection_spdm_read ni (reader_init (as_ref s));
     Some (hd (elements l))
   }"

section \<open>Codecs\<close>

lemma read_list_image:
  assumes "\<And>x pre post. x \<in> set xs \<Longrightarrow> rd (rd_at pre (im x @ post)) = Some (x, rd_at (pre @ im x) post)"
  shows "read_list rd (length xs) (rd_at pre (concat (map im xs) @ post)) =
    Some (xs, rd_at (pre @ concat (map im xs)) post)"
  using assms by (induction xs arbitrary: pre) simp_all

lemma read_list_u8 [simp]:
  "read_list u8_read n (rd_at pre post) =
    (if length post < n then None else Some (take n post, rd_at (pre @ take n post) (drop n post)))"
proof (induction n arbitrary: pre post)
  case (Suc n)
  then show ?case by (cases post) (simp_all add: u8_read_def reader_take_rd_at decode_u8_def)
qed simp

lemma read_into_u8 [simp]:
  "n \<le> cap \<Longrightarrow> read_into 0 cap u8_read n (rd_at pre post) =
    (if length post < n then None
     else Some (take n post @ replicate (cap - n) 0, rd_at (pre @ take n post) (drop n post)))"
  by (simp add: read_into_def min_def)

text \<open>A buffer as the readers build it: zero beyond its size.\<close>

definition zero_padded :: "nat \<Rightarrow> sized_data \<Rightarrow> bool" where
  "zero_padded cap s \<longleftrightarrow> sized_ok cap s \<and>
    drop (unat (data_size s)) (data s) = replicate (cap - unat (data_size s)) 0"

lemma zero_padded_eq:
  assumes "zero_padded cap s"
  shows "as_ref s @ replicate (cap - unat (data_size s)) 0 = data s"
proof -
  have "as_ref s @ drop (unat (data_size s)) (data s) = data s" by (simp add: as_ref_def)
  then show ?thesis using assms by (simp add: zero_padded_def)
qed

lemma read_sized_image:
  assumes "zero_padded cap s"
  shows "read_sized cap (data_size s) (rd_at pre (as_ref s @ post)) = Some (s, rd_at (pre @ as_ref s) post)"
proof -
  have "sized_ok cap s" using assms by (simp add: zero_padded_def)
  then have "unat (data_size s) \<le> cap" "length (as_ref s) = unat (data_size s)"
    by (simp_all add: sized_ok_def as_ref_def)
  then show ?thesis using zero_padded_eq [OF assms] by (simp add: read_sized_def)
qed

lemma read_list_length: "read_list rd n r = Some (xs, r') \<Longrightarrow> length xs = n"
  by (induction n arbitrary: r xs r') (auto split: Option.bind_splits)

lemma read_sized_Some:
  assumes "read_sized cap n r = Some (s, r')" "unat n \<le> cap"
  shows "data_size s = n" "sized_ok cap s"
  using assms by (auto simp: read_sized_def read_into_def sized_ok_def min_def
      split: Option.bind_splits dest!: read_list_length)

lemma nibbles:
  fixes a b :: u8
  assumes "a < 16" "b < 16"
  shows "drop_bit 4 (push_bit 4 a + b) = a" "(push_bit 4 a + b) AND 0x0F = b"
proof -
  have ab: "unat a < 16" "unat b < 16" using assms by (simp_all add: word_less_nat_alt)
  then have s: "unat (push_bit 4 a + b) = 16 * unat a + unat b"
    by (simp add: push_bit_eq_mult unat_word_ariths)
  then show "drop_bit 4 (push_bit 4 a + b) = a"
    using ab by (simp add: word_unat_eq_iff drop_bit_eq_div unat_div)
  have "(push_bit 4 a + b) AND 0x0F = take_bit 4 (push_bit 4 a + b)"
    by (simp add: take_bit_eq_mask mask_eq_exp_minus_1)
  then show "(push_bit 4 a + b) AND 0x0F = b"
    using ab s by (simp add: word_unat_eq_iff take_bit_eq_mod unat_mod)
qed

interpretation c_secver: codec SecuredMessageVersion_spdm_encode SecuredMessageVersion_spdm_read
    "\<lambda>v. [push_bit 4 (update_version_number v) + alpha v, push_bit 4 (major_version v) + minor_version v]"
    "\<lambda>v. update_version_number v < 16 \<and> alpha v < 16 \<and> major_version v < 16 \<and> minor_version v < 16"
proof unfold_locales
  fix v :: SecuredMessageVersion
  show "emits (SecuredMessageVersion_spdm_encode v)
    [push_bit 4 (update_version_number v) + alpha v, push_bit 4 (major_version v) + minor_version v]"
    using emits_full_encs [of "[u8_encode (push_bit 4 (update_version_number v) + alpha v),
        u8_encode (push_bit 4 (major_version v) + minor_version v)]"
        "[[push_bit 4 (update_version_number v) + alpha v], [push_bit 4 (major_version v) + minor_version v]]"]
    by (simp add: SecuredMessageVersion_spdm_encode_def emits_u8)
qed (simp add: SecuredMessageVersion_spdm_read_def nibbles)

interpretation c_opaque_data: codec SpdmOpaqueStruct_spdm_encode SpdmOpaqueStruct_spdm_read
    "\<lambda>s. le_bytes 2 (data_size s) @ as_ref s" "zero_padded MAX_SPDM_OPAQUE_SIZE"
proof unfold_locales
  fix s pre post
  assume v: "zero_padded MAX_SPDM_OPAQUE_SIZE s"
  have "list_all2 emits (u16_encode (data_size s) # map u8_encode (as_ref s))
      (le_bytes 2 (data_size s) # map (\<lambda>b. [b]) (as_ref s))"
    by (simp add: emits_u16 emits_u8 list_all2_map_emits)
  from emits_full_encs [OF this]
  show "emits (SpdmOpaqueStruct_spdm_encode s) (le_bytes 2 (data_size s) @ as_ref s)"
    by (simp add: SpdmOpaqueStruct_spdm_encode_def)
  have "\<not> data_size s > of_nat MAX_SPDM_OPAQUE_SIZE"
    using v by (simp add: zero_padded_def sized_ok_def word_less_nat_alt MAX_SPDM_OPAQUE_SIZE_def)
  then show "SpdmOpaqueStruct_spdm_read (rd_at pre ((le_bytes 2 (data_size s) @ as_ref s) @ post)) =
      Some (s, rd_at (pre @ le_bytes 2 (data_size s) @ as_ref s) post)"
    using read_sized_image [OF v, of "pre @ le_bytes 2 (data_size s)" post]
    by (simp add: SpdmOpaqueStruct_spdm_read_def)
qed

section \<open>Negotiation of the secured message version\<close>

definition opaque_of :: "bytes \<Rightarrow> SpdmOpaqueStruct" where
  "opaque_of bs = \<lparr>data_size = of_nat (length bs),
    data = bs @ replicate (MAX_SPDM_OPAQUE_SIZE - length bs) 0\<rparr>"

lemma as_ref_opaque_of: "length bs \<le> MAX_SPDM_OPAQUE_SIZE \<Longrightarrow> as_ref (opaque_of bs) = bs"
  by (simp add: as_ref_def opaque_of_def MAX_SPDM_OPAQUE_SIZE_def)

lemma u8_read_Cons [simp]: "u8_read (rd_at pre (b # post)) = Some (b, rd_at (pre @ [b]) post)"
  by (simp add: u8_read_def reader_take_rd_at decode_u8_def)

lemma u16_read_Cons: "u16_read (rd_at pre (a # b # post)) = Some (decode_u16 [a, b], rd_at (pre @ [a, b]) post)"
  by (simp add: u16_read_def reader_take_rd_at)

lemma u32_read_Cons:
  "u32_read (rd_at pre (a # b # c # d # post)) =
    Some (decode_u32 [a, b, c, d], rd_at (pre @ [a, b, c, d]) post)"
  by (simp add: u32_read_def reader_take_rd_at)

lemmas opaque_reads = SecuredMessageDMTFSupportedVersion_spdm_read_def
  SecuredMessageDMTFVersionSelection_spdm_read_def SecuredMessageGeneralOpaqueDataHeader_spdm_read_def
  OpaqueElementDMTFSupportedVersion_spdm_read_def OpaqueElementDMTFVersionSelection_spdm_read_def
  element_prefix_read_def SecuredMessageVersionList_spdm_read_def SecuredMessageVersion_spdm_read_def
  MAX_OPAQUE_LIST_ELEMENTS_COUNT_def MAX_SECURE_SPDM_VERSION_COUNT_def MAX_SPDM_OPAQUE_SIZE_def
  read_into_def align_padding_def u16_read_Cons u32_read_Cons reader_init_rd_at

lemma read_list_few:
  "read_list rd 1 r = do { (x, r) \<leftarrow> rd r; Some ([x], r) }"
  "read_list rd 2 r = do { (x, r) \<leftarrow> rd r; (y, r) \<leftarrow> rd r; Some ([x, y], r) }"
  by (simp_all add: numeral_2_eq_2 split: Option.bind_splits)

lemma byte_of_nibbles: "push_bit 4 (drop_bit 4 v) + (v AND 0x0F) = (v :: u8)"
  using bits_ident [of 4 v] by (simp add: take_bit_eq_mask mask_eq_exp_minus_1)

text \<open>
  C26: Negotiation of the secured message version in the format of SPDM 1.2. From the list a requester sends,
  the responder reads exactly the versions 1.0 and 1.1; from the selection a responder sends with the
  chosen version in its last byte, the requester reads that version.
\<close>

theorem secured_version_negotiation:
  assumes "at_least SpdmVersion12 ni" and "opaque_data_support ni = OPAQUE_DATA_FMT1"
  shows "(\<exists>l. rsp_get_dmtf_supported_secure_spdm_version_list ni
        (opaque_of REQ_DMTF_OPAQUE_DATA_SUPPORT_VERSION_LIST_DSP0274_FMT1) = Some l \<and>
      version_count l = 2 \<and> map get_secure_spdm_version (versions_list l) = [0x10, 0x11]) \<and>
    map_option get_secure_spdm_version (req_get_dmtf_secure_spdm_version_selection ni
        (opaque_of (RSP_DMTF_OPAQUE_DATA_VERSION_SELECTION_DSP0274_FMT1[11 := v]))) = Some v"
proof
  show "\<exists>l. rsp_get_dmtf_supported_secure_spdm_version_list ni
        (opaque_of REQ_DMTF_OPAQUE_DATA_SUPPORT_VERSION_LIST_DSP0274_FMT1) = Some l \<and>
      version_count l = 2 \<and> map get_secure_spdm_version (versions_list l) = [0x10, 0x11]"
    using assms by (simp add: rsp_get_dmtf_supported_secure_spdm_version_list_def as_ref_opaque_of
        REQ_DMTF_OPAQUE_DATA_SUPPORT_VERSION_LIST_DSP0274_FMT1_def opaque_reads read_list_few
        get_secure_spdm_version_def)
  show "map_option get_secure_spdm_version (req_get_dmtf_secure_spdm_version_selection ni
        (opaque_of (RSP_DMTF_OPAQUE_DATA_VERSION_SELECTION_DSP0274_FMT1[11 := v]))) = Some v"
    using assms by (simp add: req_get_dmtf_secure_spdm_version_selection_def as_ref_opaque_of
        RSP_DMTF_OPAQUE_DATA_VERSION_SELECTION_DSP0274_FMT1_def opaque_reads read_list_few
        get_secure_spdm_version_def byte_of_nibbles)
qed

definition sample_fmt1_info :: SpdmNegotiateInfo where
  "sample_fmt1_info = SpdmNegotiateInfo_default
    \<lparr>spdm_version_sel := SpdmVersion12, opaque_data_support := OPAQUE_DATA_FMT1\<rparr>"

theorem secured_version_negotiation_witness:
  "map_option get_secure_spdm_version (req_get_dmtf_secure_spdm_version_selection sample_fmt1_info
    (opaque_of (RSP_DMTF_OPAQUE_DATA_VERSION_SELECTION_DSP0274_FMT1[11 := 0x10]))) = Some 0x10"
  using secured_version_negotiation [of sample_fmt1_info "0x10"]
  by (simp add: sample_fmt1_info_def at_least_def)

text \<open>
  C27: Below SPDM 1.2 the secured message version is never negotiated: the constant compared with the
  specification identifier lacks a digit (0x444D546, while the messages carry 0x444D5446), so neither
  side reads anything from what its peer sends.
\<close>

theorem secured_version_lost:
  assumes "\<not> at_least SpdmVersion12 ni"
  shows "rsp_get_dmtf_supported_secure_spdm_version_list ni
      (opaque_of REQ_DMTF_OPAQUE_DATA_SUPPORT_VERSION_LIST_DSP0277) = None \<and>
    req_get_dmtf_secure_spdm_version_selection ni
      (opaque_of (RSP_DMTF_OPAQUE_DATA_VERSION_SELECTION_DSP0277[15 := v])) = None"
  using assms by (simp add: rsp_get_dmtf_supported_secure_spdm_version_list_def
      req_get_dmtf_secure_spdm_version_selection_def as_ref_opaque_of opaque_reads
      REQ_DMTF_OPAQUE_DATA_SUPPORT_VERSION_LIST_DSP0277_def
      RSP_DMTF_OPAQUE_DATA_VERSION_SELECTION_DSP0277_def decode_u32_def DMTF_SPEC_ID_def)

theorem secured_version_lost_witness:
  "rsp_get_dmtf_supported_secure_spdm_version_list (sample_fmt1_info\<lparr>spdm_version_sel := SpdmVersion11\<rparr>)
    (opaque_of REQ_DMTF_OPAQUE_DATA_SUPPORT_VERSION_LIST_DSP0277) = None"
  using secured_version_lost [of "sample_fmt1_info\<lparr>spdm_version_sel := SpdmVersion11\<rparr>"]
  by (simp add: at_least_def)

end
