(* ===== verification/Auth_Messages.thy ===== *)
theory Auth_Messages
  imports Opaque
begin

text \<open>
  The payloads of the authentication and session messages, \<open>spdmlib/src/message/\<close>: digest, certificate,
  challenge, measurement, key exchange, finish, PSK exchange, PSK finish and vendor defined messages,
  with the context dependent codecs of \<open>common/spdm_codec.rs\<close>.

  \<^item> The size of a digest, signature or exchange value is that of the negotiated algorithm. The source
    panics when none is negotiated, so these readers have three outcomes: a value (\<open>Ok\<close>), \<open>None\<close>
    (\<open>Err ()\<close>) and a panic. \<open>rd_bind\<close> is the question mark operator of the source.
  \<^item> What a codec takes from the context is an argument: the negotiated values \<open>ni\<close> and the flags that
    tell whether a measurement summary or a signature is expected.
  \<^item> Every codec is an interpretation of the locale \<open>codec\<close> or \<open>sized_codec\<close>.
\<close>

section \<open>Definitions\<close>

subsection \<open>Readers that can panic\<close>

type_synonym 'a rdp = "reader \<Rightarrow> ('a \<times> reader, unit) result"

definition rd_lift :: "'a rd \<Rightarrow> 'a rdp" where
  "rd_lift rd r = (case rd r of Some xr \<Rightarrow> Ok xr | None \<Rightarrow> Err ())"

definition rd_pure :: "'a \<Rightarrow> 'a rdp" where
  "rd_pure x r = Ok (x, r)"

definition rd_none :: "'a rdp" where
  "rd_none r = Err ()"

definition rd_bind :: "'a rdp \<Rightarrow> ('a \<Rightarrow> 'b rdp) \<Rightarrow> 'b rdp" where
  "rd_bind m k r = (case m r of Ok (x, r) \<Rightarrow> k x r | Err _ \<Rightarrow> Err () | Panic \<Rightarrow> Panic)"

definition rd_size :: "u16 SpdmResult \<Rightarrow> (u16 \<Rightarrow> 'a rdp) \<Rightarrow> 'a rdp" where
  "rd_size sz k r = (case sz of Ok n \<Rightarrow> k n r | _ \<Rightarrow> Panic)"

fun rd_list :: "'a rdp \<Rightarrow> nat \<Rightarrow> 'a list rdp" where
  "rd_list m 0 = rd_pure []"
| "rd_list m (Suc n) = rd_bind m (\<lambda>x. rd_bind (rd_list m n) (\<lambda>xs. rd_pure (x # xs)))"

definition panic_enc :: "'e enc" where
  "panic_enc w = (Panic, w)"

subsection \<open>Values whose size is negotiated\<close>

definition get_hash_size :: "SpdmNegotiateInfo \<Rightarrow> u16 SpdmResult" where
  "get_hash_size ni = SpdmBaseHashAlgo_get_size (base_hash_sel ni)"

definition get_asym_key_size :: "SpdmNegotiateInfo \<Rightarrow> u16 SpdmResult" where
  "get_asym_key_size ni = SpdmBaseAsymAlgo_get_size (base_asym_sel ni)"

definition get_dhe_key_size :: "SpdmNegotiateInfo \<Rightarrow> u16 SpdmResult" where
  "get_dhe_key_size ni = SpdmDheAlgo_get_size (dhe_sel ni)"

definition full_bytes :: "bytes \<Rightarrow> SpdmStatus enc" where
  "full_bytes bs = encs (map BUFFER_FULL_enc (map u8_encode bs))"

text \<open>\<open>assert_eq!(self.data_size, sz)\<close>, then the bytes one by one.\<close>

definition asserted_encode :: "u16 SpdmResult \<Rightarrow> sized_data \<Rightarrow> SpdmStatus enc" where
  "asserted_encode sz d = (if sz = Ok (data_size d) then full_bytes (as_ref d) else panic_enc)"

definition SpdmDigestStruct_default :: SpdmDigestStruct where
  "SpdmDigestStruct_default = sized_default SPDM_MAX_HASH_SIZE"

definition SpdmDigestStruct_spdm_encode :: "SpdmNegotiateInfo \<Rightarrow> SpdmDigestStruct \<Rightarrow> SpdmStatus enc" where
  "SpdmDigestStruct_spdm_encode ni = asserted_encode (get_hash_size ni)"

definition SpdmDigestStruct_spdm_read :: "SpdmNegotiateInfo \<Rightarrow> SpdmDigestStruct rdp" where
  "SpdmDigestStruct_spdm_read ni =
    rd_size (get_hash_size ni) (\<lambda>n. rd_lift (read_sized SPDM_MAX_HASH_SIZE n))"

definition SpdmSignatureStruct_default :: SpdmSignatureStruct where
  "SpdmSignatureStruct_default = sized_default SPDM_MAX_ASYM_KEY_SIZE"

definition SpdmSignatureStruct_spdm_encode :: "SpdmNegotiateInfo \<Rightarrow> SpdmSignatureStruct \<Rightarrow> SpdmStatus enc" where
  "SpdmSignatureStruct_spdm_encode ni = asserted_encode (get_asym_key_size ni)"

definition SpdmSignatureStruct_spdm_read :: "SpdmNegotiateInfo \<Rightarrow> SpdmSignatureStruct rdp" where
  "SpdmSignatureStruct_spdm_read ni =
    rd_size (get_asym_key_size ni) (\<lambda>n. rd_lift (read_sized SPDM_MAX_ASYM_KEY_SIZE n))"

definition SpdmDheExchangeStruct_spdm_encode :: "SpdmDheExchangeStruct \<Rightarrow> SpdmStatus enc" where
  "SpdmDheExchangeStruct_spdm_encode d = full_bytes (as_ref d)"

definition SpdmDheExchangeStruct_spdm_read :: "SpdmNegotiateInfo \<Rightarrow> SpdmDheExchangeStruct rdp" where
  "SpdmDheExchangeStruct_spdm_read ni =
    rd_size (get_dhe_key_size ni) (\<lambda>n. rd_lift (read_sized SPDM_MAX_DHE_KEY_SIZE n))"

subsection \<open>Digests and certificates\<close>

definition SpdmGetDigestsRequestPayload_spdm_encode :: "SpdmStatus enc" where
  "SpdmGetDigestsRequestPayload_spdm_encode = encs [BUFFER_FULL_enc (u8_encode 0), BUFFER_FULL_enc (u8_encode 0)]"

definition SpdmGetDigestsRequestPayload_spdm_read :: "unit rd" where
  "SpdmGetDigestsRequestPayload_spdm_read r = do { (_, r) \<leftarrow> u8_read r; (_, r) \<leftarrow> u8_read r; Some ((), r) }"

record SpdmDigestsResponsePayload =
  dg_slot_mask :: u8
  dg_digests :: "SpdmDigestStruct list"

definition slot_count :: "u8 \<Rightarrow> nat" where
  "slot_count slot_mask = length (filter (\<lambda>i. slot_mask AND push_bit i 1 \<noteq> 0) [0..<8])"

definition SpdmDigestsResponsePayload_spdm_encode ::
    "SpdmNegotiateInfo \<Rightarrow> SpdmDigestsResponsePayload \<Rightarrow> SpdmStatus enc" where
  "SpdmDigestsResponsePayload_spdm_encode ni p = encs (
    [BUFFER_FULL_enc (u8_encode 0), BUFFER_FULL_enc (u8_encode (dg_slot_mask p))] @
    map (SpdmDigestStruct_spdm_encode ni) (take (slot_count (dg_slot_mask p)) (dg_digests p)))"

definition SpdmDigestsResponsePayload_spdm_read ::
    "SpdmNegotiateInfo \<Rightarrow> SpdmDigestsResponsePayload rdp" where
  "SpdmDigestsResponsePayload_spdm_read ni =
    rd_bind (rd_lift u8_read) (\<lambda>_.
    rd_bind (rd_lift u8_read) (\<lambda>slot_mask.
    rd_bind (rd_list (SpdmDigestStruct_spdm_read ni) (slot_count slot_mask)) (\<lambda>ds.
    rd_pure \<lparr>dg_slot_mask = slot_mask,
      dg_digests = ds @ replicate (SPDM_MAX_SLOT_NUMBER - slot_count slot_mask) SpdmDigestStruct_default\<rparr>)))"

definition MAX_SPDM_CERT_PORTION_LEN :: nat where
  "MAX_SPDM_CERT_PORTION_LEN = 512"

record SpdmGetCertificateRequestPayload =
  gct_slot_id :: u8
  gct_offset :: u16
  gct_length :: u16

definition SpdmGetCertificateRequestPayload_spdm_encode ::
    "SpdmGetCertificateRequestPayload \<Rightarrow> SpdmStatus enc" where
  "SpdmGetCertificateRequestPayload_spdm_encode p = encs (map BUFFER_FULL_enc
    [u8_encode (gct_slot_id p), u8_encode 0, u16_encode (gct_offset p), u16_encode (gct_length p)])"

definition SpdmGetCertificateRequestPayload_spdm_read :: "SpdmGetCertificateRequestPayload rd" where
  "SpdmGetCertificateRequestPayload_spdm_read r = do {
     (s, r) \<leftarrow> u8_read r;
     (_, r) \<leftarrow> u8_read r;
     (off, r) \<leftarrow> u16_read r;
     (len, r) \<leftarrow> u16_read r;
     Some (\<lparr>gct_slot_id = s, gct_offset = off, gct_length = len\<rparr>, r)
   }"

record SpdmCertificateResponsePayload =
  ct_slot_id :: u8
  ct_portion_length :: u16
  ct_remainder_length :: u16
  ct_cert_chain :: bytes

definition SpdmCertificateResponsePayload_spdm_encode ::
    "SpdmCertificateResponsePayload \<Rightarrow> SpdmStatus enc" where
  "SpdmCertificateResponsePayload_spdm_encode p = encs (map BUFFER_FULL_enc
    ([u8_encode (ct_slot_id p), u8_encode 0, u16_encode (ct_portion_length p),
      u16_encode (ct_remainder_length p)] @
     map u8_encode (take (unat (ct_portion_length p)) (ct_cert_chain p))))"

definition SpdmCertificateResponsePayload_spdm_read :: "SpdmCertificateResponsePayload rd" where
  "SpdmCertificateResponsePayload_spdm_read r = do {
     (s, r) \<leftarrow> u8_read r;
     (_, r) \<leftarrow> u8_read r;
     (n, r) \<leftarrow> u16_read r;
     (m, r) \<leftarrow> u16_read r;
     (bs, r) \<leftarrow> read_into 0 MAX_SPDM_CERT_PORTION_LEN u8_read (unat n) r;
     Some (\<lparr>ct_slot_id = s, ct_portion_length = n, ct_remainder_length = m, ct_cert_chain = bs\<rparr>, r)
   }"

subsection \<open>Challenge\<close>

text \<open>The check on the summary type that challenge, key exchange and PSK exchange share.\<close>

definition summary_type_ok :: "SpdmNegotiateInfo \<Rightarrow> SpdmMeasurementSummaryHashType \<Rightarrow> bool" where
  "summary_type_ok ni t =
    (case t of
      SpdmMeasurementSummaryHashTypeNone \<Rightarrow> True
    | SpdmMeasurementSummaryHashTypeUnknown _ \<Rightarrow> False
    | _ \<Rightarrow> contains (rsp_capabilities_sel ni) SpdmResponseCap_MEAS_CAP_SIG
        \<or> contains (rsp_capabilities_sel ni) SpdmResponseCap_MEAS_CAP_NO_SIG)"

record SpdmChallengeRequestPayload =
  ch_slot_id :: u8
  ch_measurement_summary_hash_type :: SpdmMeasurementSummaryHashType
  ch_nonce :: SpdmNonceStruct

definition SpdmChallengeRequestPayload_spdm_encode :: "SpdmChallengeRequestPayload \<Rightarrow> SpdmStatus enc" where
  "SpdmChallengeRequestPayload_spdm_encode p = encs (map BUFFER_FULL_enc
    [u8_encode (ch_slot_id p),
     enum_u8_encode SpdmMeasurementSummaryHashType_get_u8 (ch_measurement_summary_hash_type p),
     SpdmNonceStruct_encode (ch_nonce p)])"

definition SpdmChallengeRequestPayload_spdm_read ::
    "SpdmNegotiateInfo \<Rightarrow> SpdmChallengeRequestPayload rd" where
  "SpdmChallengeRequestPayload_spdm_read ni r = do {
     (s, r) \<leftarrow> u8_read r;
     (t, r) \<leftarrow> enum_u8_read SpdmMeasurementSummaryHashType_of_u8 r;
     (if \<not> summary_type_ok ni t then None
      else do {
        (n, r) \<leftarrow> SpdmNonceStruct_read r;
        Some (\<lparr>ch_slot_id = s, ch_measurement_summary_hash_type = t, ch_nonce = n\<rparr>, r)
      })
   }"

type_synonym SpdmChallengeAuthAttribute = u8

definition SpdmChallengeAuthAttribute_all :: SpdmChallengeAuthAttribute where
  "SpdmChallengeAuthAttribute_all = 0x80"

record SpdmChallengeAuthResponsePayload =
  ca_slot_id :: u8
  ca_slot_mask :: u8
  ca_challenge_auth_attribute :: SpdmChallengeAuthAttribute
  ca_cert_chain_hash :: SpdmDigestStruct
  ca_nonce :: SpdmNonceStruct
  ca_measurement_summary_hash :: SpdmDigestStruct
  ca_opaque :: SpdmOpaqueStruct
  ca_signature :: SpdmSignatureStruct

definition SpdmChallengeAuthResponsePayload_spdm_encode ::
    "SpdmNegotiateInfo \<Rightarrow> bool \<Rightarrow> SpdmChallengeAuthResponsePayload \<Rightarrow> SpdmStatus enc" where
  "SpdmChallengeAuthResponsePayload_spdm_encode ni summary p = encs (
    [BUFFER_FULL_enc (u8_encode (ca_slot_id p + ca_challenge_auth_attribute p)),
     BUFFER_FULL_enc (u8_encode (ca_slot_mask p)),
     SpdmDigestStruct_spdm_encode ni (ca_cert_chain_hash p),
     BUFFER_FULL_enc (SpdmNonceStruct_encode (ca_nonce p))] @
    (if summary then [SpdmDigestStruct_spdm_encode ni (ca_measurement_summary_hash p)] else []) @
    [SpdmOpaqueStruct_spdm_encode (ca_opaque p), SpdmSignatureStruct_spdm_encode ni (ca_signature p)])"

definition optional_digest :: "SpdmNegotiateInfo \<Rightarrow> bool \<Rightarrow> SpdmDigestStruct rdp" where
  "optional_digest ni present =
    (if present then SpdmDigestStruct_spdm_read ni else rd_pure SpdmDigestStruct_default)"

definition SpdmChallengeAuthResponsePayload_spdm_read ::
    "SpdmNegotiateInfo \<Rightarrow> bool \<Rightarrow> SpdmChallengeAuthResponsePayload rdp" where
  "SpdmChallengeAuthResponsePayload_spdm_read ni summary =
    rd_bind (rd_lift u8_read) (\<lambda>param1.
    (case from_bits SpdmChallengeAuthAttribute_all (param1 AND 0xF0) of
      None \<Rightarrow> rd_none
    | Some attr \<Rightarrow>
        rd_bind (rd_lift u8_read) (\<lambda>slot_mask.
        rd_bind (SpdmDigestStruct_spdm_read ni) (\<lambda>chain_hash.
        rd_bind (rd_lift SpdmNonceStruct_read) (\<lambda>nonce.
        rd_bind (optional_digest ni summary) (\<lambda>summary_hash.
        rd_bind (rd_lift SpdmOpaqueStruct_spdm_read) (\<lambda>opaque.
        rd_bind (SpdmSignatureStruct_spdm_read ni) (\<lambda>signature.
        rd_pure \<lparr>ca_slot_id = param1 AND 0xF, ca_slot_mask = slot_mask,
          ca_challenge_auth_attribute = attr, ca_cert_chain_hash = chain_hash, ca_nonce = nonce,
          ca_measurement_summary_hash = summary_hash, ca_opaque = opaque, ca_signature = signature\<rparr>))))))))"

subsection \<open>Measurements\<close>

datatype SpdmDmtfMeasurementType =
    SpdmDmtfMeasurementRom
  | SpdmDmtfMeasurementFirmware
  | SpdmDmtfMeasurementHardwareConfig
  | SpdmDmtfMeasurementFirmwareConfig
  | SpdmDmtfMeasurementManifest
  | SpdmDmtfMeasurementStructuredRepresentationMode
  | SpdmDmtfMeasurementMutableFirmwareVersionNumber
  | SpdmDmtfMeasurementMutableFirmwareSecurityVersionNumber
  | SpdmDmtfMeasurementTypeUnknown u8

fun SpdmDmtfMeasurementType_get_u8 :: "SpdmDmtfMeasurementType \<Rightarrow> u8" where
  "SpdmDmtfMeasurementType_get_u8 SpdmDmtfMeasurementRom = 0"
| "SpdmDmtfMeasurementType_get_u8 SpdmDmtfMeasurementFirmware = 1"
| "SpdmDmtfMeasurementType_get_u8 SpdmDmtfMeasurementHardwareConfig = 2"
| "SpdmDmtfMeasurementType_get_u8 SpdmDmtfMeasurementFirmwareConfig = 3"
| "SpdmDmtfMeasurementType_get_u8 SpdmDmtfMeasurementManifest = 4"
| "SpdmDmtfMeasurementType_get_u8 SpdmDmtfMeasurementStructuredRepresentationMode = 5"
| "SpdmDmtfMeasurementType_get_u8 SpdmDmtfMeasurementMutableFirmwareVersionNumber = 6"
| "SpdmDmtfMeasurementType_get_u8 SpdmDmtfMeasurementMutableFirmwareSecurityVersionNumber = 7"
| "SpdmDmtfMeasurementType_get_u8 (SpdmDmtfMeasurementTypeUnknown v) = v"

datatype SpdmDmtfMeasurementRepresentation =
    SpdmDmtfMeasurementDigest
  | SpdmDmtfMeasurementRawBit
  | SpdmDmtfMeasurementRepresentationUnknown u8

fun SpdmDmtfMeasurementRepresentation_get_u8 :: "SpdmDmtfMeasurementRepresentation \<Rightarrow> u8" where
  "SpdmDmtfMeasurementRepresentation_get_u8 SpdmDmtfMeasurementDigest = 0"
| "SpdmDmtfMeasurementRepresentation_get_u8 SpdmDmtfMeasurementRawBit = 0x80"
| "SpdmDmtfMeasurementRepresentation_get_u8 (SpdmDmtfMeasurementRepresentationUnknown v) = v"

record SpdmDmtfMeasurementStructure =
  dm_type :: SpdmDmtfMeasurementType
  dm_representation :: SpdmDmtfMeasurementRepresentation
  dm_value_size :: u16
  dm_value :: bytes

record SpdmMeasurementBlockStructure =
  mb_index :: u8
  mb_measurement_specification :: SpdmMeasurementSpecification
  mb_measurement_size :: u16
  mb_measurement :: SpdmDmtfMeasurementStructure

record SpdmMeasurementRecordStructure =
  number_of_blocks :: u8
  measurement_record_length :: u24
  measurement_record_data :: bytes

definition MAX_SPDM_MEASUREMENT_VALUE_LEN :: nat where
  "MAX_SPDM_MEASUREMENT_VALUE_LEN = max_measurement_val_len config"

definition MAX_SPDM_MEASUREMENT_RECORD_SIZE :: nat where
  "MAX_SPDM_MEASUREMENT_RECORD_SIZE = max_measurement_record_size config"

definition SpdmMeasurementRecordStructure_default :: SpdmMeasurementRecordStructure where
  "SpdmMeasurementRecordStructure_default = \<lparr>number_of_blocks = 0, measurement_record_length = u24 0,
    measurement_record_data = replicate MAX_SPDM_MEASUREMENT_RECORD_SIZE 0\<rparr>"

definition SpdmDmtfMeasurementStructure_spdm_encode :: "SpdmDmtfMeasurementStructure \<Rightarrow> SpdmStatus enc" where
  "SpdmDmtfMeasurementStructure_spdm_encode m = encs (map BUFFER_FULL_enc
    ([u8_encode (SpdmDmtfMeasurementType_get_u8 (dm_type m) +
        SpdmDmtfMeasurementRepresentation_get_u8 (dm_representation m)),
      u16_encode (dm_value_size m)] @
     map u8_encode (take (unat (dm_value_size m)) (dm_value m))))"

text \<open>The types 5 to 7 exist as raw bits only; \<open>None\<close> is the early return of the reader.\<close>

definition dmtf_type_of :: "u8 \<Rightarrow> SpdmDmtfMeasurementRepresentation \<Rightarrow> SpdmDmtfMeasurementType option" where
  "dmtf_type_of v rep =
    (if v = 0 then Some SpdmDmtfMeasurementRom
     else if v = 1 then Some SpdmDmtfMeasurementFirmware
     else if v = 2 then Some SpdmDmtfMeasurementHardwareConfig
     else if v = 3 then Some SpdmDmtfMeasurementFirmwareConfig
     else if v = 4 then Some SpdmDmtfMeasurementManifest
     else if v = 5 then
       (if rep = SpdmDmtfMeasurementRawBit then Some SpdmDmtfMeasurementStructuredRepresentationMode else None)
     else if v = 6 then
       (if rep = SpdmDmtfMeasurementRawBit then Some SpdmDmtfMeasurementMutableFirmwareVersionNumber else None)
     else if v = 7 then
       (if rep = SpdmDmtfMeasurementRawBit then Some SpdmDmtfMeasurementMutableFirmwareSecurityVersionNumber
        else None)
     else Some (SpdmDmtfMeasurementTypeUnknown v))"

definition SpdmDmtfMeasurementStructure_spdm_read ::
    "SpdmNegotiateInfo \<Rightarrow> SpdmDmtfMeasurementStructure rdp" where
  "SpdmDmtfMeasurementStructure_spdm_read ni =
    rd_bind (rd_lift u8_read) (\<lambda>final_value.
    let rep = if final_value AND 0x80 = 0 then SpdmDmtfMeasurementDigest else SpdmDmtfMeasurementRawBit in
    (case dmtf_type_of (final_value AND 0x7F) rep of
      None \<Rightarrow> rd_none
    | Some t \<Rightarrow>
        rd_bind (rd_lift u16_read) (\<lambda>n.
        if unat n > MAX_SPDM_MEASUREMENT_VALUE_LEN then rd_none
        else
          let value = rd_bind (rd_lift (read_into 0 MAX_SPDM_MEASUREMENT_VALUE_LEN u8_read (unat n))) (\<lambda>v.
            rd_pure \<lparr>dm_type = t, dm_representation = rep, dm_value_size = n, dm_value = v\<rparr>)
          in if rep = SpdmDmtfMeasurementDigest
             then rd_size (SpdmMeasurementHashAlgo_get_size (measurement_hash_sel ni)) (\<lambda>sz.
               if n \<noteq> sz \<or> measurement_hash_sel ni = SpdmMeasurementHashAlgo_RAW_BIT_STREAM
               then rd_none else value)
             else value)))"

definition SpdmMeasurementBlockStructure_spdm_encode :: "SpdmMeasurementBlockStructure \<Rightarrow> SpdmStatus enc" where
  "SpdmMeasurementBlockStructure_spdm_encode b = encs
    [BUFFER_FULL_enc (u8_encode (mb_index b)),
     BUFFER_FULL_enc (SpdmMeasurementSpecification_encode (mb_measurement_specification b)),
     BUFFER_FULL_enc (u16_encode (mb_measurement_size b)),
     enc_map_err (\<lambda>_. SPDM_STATUS_BUFFER_FULL) (SpdmDmtfMeasurementStructure_spdm_encode (mb_measurement b))]"

definition SpdmMeasurementBlockStructure_spdm_read ::
    "SpdmNegotiateInfo \<Rightarrow> SpdmMeasurementBlockStructure rdp" where
  "SpdmMeasurementBlockStructure_spdm_read ni =
    rd_bind (rd_lift u8_read) (\<lambda>index.
    rd_bind (rd_lift SpdmMeasurementSpecification_read) (\<lambda>spec.
    if spec \<noteq> SpdmMeasurementSpecification_DMTF then rd_none
    else rd_bind (rd_lift u16_read) (\<lambda>msize.
    if unat msize > 3 + MAX_SPDM_MEASUREMENT_VALUE_LEN then rd_none
    else rd_bind (SpdmDmtfMeasurementStructure_spdm_read ni) (\<lambda>m.
    if msize \<noteq> 3 + dm_value_size m then rd_none
    else rd_pure \<lparr>mb_index = index, mb_measurement_specification = spec, mb_measurement_size = msize,
      mb_measurement = m\<rparr>))))"

text \<open>The loop of \<open>verify_measurement_record\<close>: whole blocks with increasing indices; \<open>Err\<close> is \<open>false\<close>.\<close>

fun verify_blocks :: "SpdmNegotiateInfo \<Rightarrow> nat \<Rightarrow> u8 \<Rightarrow> reader \<Rightarrow> (reader, unit) result" where
  "verify_blocks ni 0 cur r = Ok r"
| "verify_blocks ni (Suc n) cur r =
    (case SpdmMeasurementBlockStructure_spdm_read ni r of
      Ok (b, r) \<Rightarrow> if mb_index b \<le> cur then Err () else verify_blocks ni n (mb_index b) r
    | Err _ \<Rightarrow> Err ()
    | Panic \<Rightarrow> Panic)"

definition verify_measurement_record ::
    "SpdmNegotiateInfo \<Rightarrow> SpdmMeasurementRecordStructure \<Rightarrow> (bool, unit) result" where
  "verify_measurement_record ni m =
    (case verify_blocks ni (unat (number_of_blocks m)) 0
        (reader_init (take (unat (u24_get (measurement_record_length m))) (measurement_record_data m))) of
      Ok r \<Rightarrow> Ok (\<not> reader_any_left r)
    | Err _ \<Rightarrow> Ok False
    | Panic \<Rightarrow> Panic)"

definition SpdmMeasurementRecordStructure_spdm_encode ::
    "SpdmMeasurementRecordStructure \<Rightarrow> SpdmStatus enc" where
  "SpdmMeasurementRecordStructure_spdm_encode m = encs (map BUFFER_FULL_enc
    ([u8_encode (number_of_blocks m), u24_encode (measurement_record_length m)] @
     map u8_encode (take (unat (u24_get (measurement_record_length m))) (measurement_record_data m))))"

definition SpdmMeasurementRecordStructure_spdm_read ::
    "SpdmNegotiateInfo \<Rightarrow> SpdmMeasurementRecordStructure rdp" where
  "SpdmMeasurementRecordStructure_spdm_read ni =
    rd_bind (rd_lift u8_read) (\<lambda>blocks.
    rd_bind (rd_lift u24_read) (\<lambda>len.
    if unat (u24_get len) > MAX_SPDM_MEASUREMENT_RECORD_SIZE then rd_none
    else rd_bind (rd_lift (read_into 0 MAX_SPDM_MEASUREMENT_RECORD_SIZE u8_read (unat (u24_get len)))) (\<lambda>d.
    let m = \<lparr>number_of_blocks = blocks, measurement_record_length = len, measurement_record_data = d\<rparr> in
    (case verify_measurement_record ni m of
      Ok True \<Rightarrow> rd_pure m
    | Panic \<Rightarrow> (\<lambda>r. Panic)
    | _ \<Rightarrow> rd_none))))"

type_synonym SpdmMeasurementAttributes = u8

definition SIGNATURE_REQUESTED :: SpdmMeasurementAttributes where
  "SIGNATURE_REQUESTED = 1"

definition SpdmMeasurementAttributes_all :: SpdmMeasurementAttributes where
  "SpdmMeasurementAttributes_all = 3"

definition SpdmMeasurementAttributes_encode :: "SpdmMeasurementAttributes \<Rightarrow> EncodeErr enc" where
  "SpdmMeasurementAttributes_encode = u8_encode"

definition SpdmMeasurementAttributes_read :: "SpdmMeasurementAttributes rd" where
  "SpdmMeasurementAttributes_read r = do {
     (b, r) \<leftarrow> u8_read r;
     a \<leftarrow> from_bits SpdmMeasurementAttributes_all b;
     Some (a, r)
   }"

datatype SpdmMeasurementOperation =
    SpdmMeasurementQueryTotalNumber
  | SpdmMeasurementRequestAll
  | SpdmMeasurementOperationUnknown u8

fun SpdmMeasurementOperation_get_u8 :: "SpdmMeasurementOperation \<Rightarrow> u8" where
  "SpdmMeasurementOperation_get_u8 SpdmMeasurementQueryTotalNumber = 0"
| "SpdmMeasurementOperation_get_u8 SpdmMeasurementRequestAll = 0xFF"
| "SpdmMeasurementOperation_get_u8 (SpdmMeasurementOperationUnknown v) = v"

definition SpdmMeasurementOperation_of_u8 :: "u8 \<Rightarrow> SpdmMeasurementOperation" where
  "SpdmMeasurementOperation_of_u8 v =
    (if v = 0 then SpdmMeasurementQueryTotalNumber
     else if v = 0xFF then SpdmMeasurementRequestAll
     else SpdmMeasurementOperationUnknown v)"

record SpdmGetMeasurementsRequestPayload =
  gm_measurement_attributes :: SpdmMeasurementAttributes
  gm_measurement_operation :: SpdmMeasurementOperation
  gm_nonce :: SpdmNonceStruct
  gm_slot_id :: u8

definition SpdmGetMeasurementsRequestPayload_spdm_encode ::
    "SpdmNegotiateInfo \<Rightarrow> SpdmGetMeasurementsRequestPayload \<Rightarrow> SpdmStatus enc" where
  "SpdmGetMeasurementsRequestPayload_spdm_encode ni p = encs (map BUFFER_FULL_enc
    ([SpdmMeasurementAttributes_encode (gm_measurement_attributes p),
      enum_u8_encode SpdmMeasurementOperation_get_u8 (gm_measurement_operation p)] @
     (if contains (gm_measurement_attributes p) SIGNATURE_REQUESTED
      then SpdmNonceStruct_encode (gm_nonce p) #
        (if at_least SpdmVersion11 ni then [u8_encode (gm_slot_id p)] else [])
      else [])))"

definition SpdmGetMeasurementsRequestPayload_spdm_read ::
    "SpdmNegotiateInfo \<Rightarrow> SpdmGetMeasurementsRequestPayload rd" where
  "SpdmGetMeasurementsRequestPayload_spdm_read ni r = do {
     (attr, r) \<leftarrow> SpdmMeasurementAttributes_read r;
     (op, r) \<leftarrow> enum_u8_read SpdmMeasurementOperation_of_u8 r;
     (nonce, r) \<leftarrow> (if contains attr SIGNATURE_REQUESTED then SpdmNonceStruct_read r
       else Some (replicate SPDM_NONCE_SIZE 0, r));
     (s, r) \<leftarrow> (if contains attr SIGNATURE_REQUESTED \<and> at_least SpdmVersion11 ni then u8_read r
       else Some (0, r));
     Some (\<lparr>gm_measurement_attributes = attr, gm_measurement_operation = op, gm_nonce = nonce,
       gm_slot_id = s\<rparr>, r)
   }"

definition SpdmMeasurementContentChanged_all :: SpdmMeasurementContentChanged where
  "SpdmMeasurementContentChanged_all = 0x30"

record SpdmMeasurementsResponsePayload =
  ms_number_of_measurement :: u8
  ms_content_changed :: SpdmMeasurementContentChanged
  ms_slot_id :: u8
  ms_measurement_record :: SpdmMeasurementRecordStructure
  ms_nonce :: SpdmNonceStruct
  ms_opaque :: SpdmOpaqueStruct
  ms_signature :: SpdmSignatureStruct

definition SpdmMeasurementsResponsePayload_spdm_encode ::
    "SpdmNegotiateInfo \<Rightarrow> bool \<Rightarrow> SpdmMeasurementsResponsePayload \<Rightarrow> SpdmStatus enc" where
  "SpdmMeasurementsResponsePayload_spdm_encode ni with_sig p = encs (
    [BUFFER_FULL_enc (u8_encode (if ms_number_of_measurement p = 1 then 0 else ms_number_of_measurement p)),
     BUFFER_FULL_enc (u8_encode
       (if at_least SpdmVersion12 ni \<and> with_sig then ms_slot_id p OR ms_content_changed p
        else if at_least SpdmVersion11 ni \<and> with_sig then ms_slot_id p
        else 0)),
     SpdmMeasurementRecordStructure_spdm_encode (ms_measurement_record p),
     BUFFER_FULL_enc (SpdmNonceStruct_encode (ms_nonce p)),
     SpdmOpaqueStruct_spdm_encode (ms_opaque p)] @
    (if with_sig then [SpdmSignatureStruct_spdm_encode ni (ms_signature p)] else []))"

definition SpdmMeasurementsResponsePayload_spdm_read ::
    "SpdmNegotiateInfo \<Rightarrow> bool \<Rightarrow> SpdmMeasurementsResponsePayload rdp" where
  "SpdmMeasurementsResponsePayload_spdm_read ni with_sig =
    rd_bind (rd_lift u8_read) (\<lambda>n.
    rd_bind (rd_lift u8_read) (\<lambda>param2.
    (case from_bits SpdmMeasurementContentChanged_all (param2 AND 0x30) of
      None \<Rightarrow> rd_none
    | Some changed \<Rightarrow>
        rd_bind (SpdmMeasurementRecordStructure_spdm_read ni) (\<lambda>rec.
        rd_bind (rd_lift SpdmNonceStruct_read) (\<lambda>nonce.
        rd_bind (rd_lift SpdmOpaqueStruct_spdm_read) (\<lambda>opaque.
        rd_bind (if with_sig then SpdmSignatureStruct_spdm_read ni else rd_pure SpdmSignatureStruct_default) (\<lambda>sig.
        rd_pure \<lparr>ms_number_of_measurement = n, ms_content_changed = changed, ms_slot_id = param2 AND 0x0F,
          ms_measurement_record = rec, ms_nonce = nonce, ms_opaque = opaque, ms_signature = sig\<rparr>)))))))"

subsection \<open>Key exchange and finish\<close>

definition in_clear_text :: "SpdmNegotiateInfo \<Rightarrow> bool" where
  "in_clear_text ni \<longleftrightarrow>
    contains (req_capabilities_sel ni) SpdmRequestCap_HANDSHAKE_IN_THE_CLEAR_CAP \<and>
    contains (rsp_capabilities_sel ni) SpdmResponseCap_HANDSHAKE_IN_THE_CLEAR_CAP"

record SpdmKeyExchangeRequestPayload =
  kq_measurement_summary_hash_type :: SpdmMeasurementSummaryHashType
  kq_slot_id :: u8
  kq_req_session_id :: u16
  kq_session_policy :: u8
  kq_random :: SpdmRandomStruct
  kq_exchange :: SpdmDheExchangeStruct
  kq_opaque :: SpdmOpaqueStruct

definition SpdmKeyExchangeRequestPayload_spdm_encode ::
    "SpdmNegotiateInfo \<Rightarrow> SpdmKeyExchangeRequestPayload \<Rightarrow> SpdmStatus enc" where
  "SpdmKeyExchangeRequestPayload_spdm_encode ni p = encs (map BUFFER_FULL_enc
    [enum_u8_encode SpdmMeasurementSummaryHashType_get_u8 (kq_measurement_summary_hash_type p),
     u8_encode (kq_slot_id p),
     u16_encode (kq_req_session_id p),
     u8_encode (if at_least SpdmVersion12 ni then kq_session_policy p else 0),
     u8_encode 0,
     SpdmRandomStruct_encode (kq_random p)] @
    [SpdmDheExchangeStruct_spdm_encode (kq_exchange p), SpdmOpaqueStruct_spdm_encode (kq_opaque p)])"

definition SpdmKeyExchangeRequestPayload_spdm_read ::
    "SpdmNegotiateInfo \<Rightarrow> SpdmKeyExchangeRequestPayload rdp" where
  "SpdmKeyExchangeRequestPayload_spdm_read ni =
    rd_bind (rd_lift (enum_u8_read SpdmMeasurementSummaryHashType_of_u8)) (\<lambda>t.
    if \<not> summary_type_ok ni t then rd_none
    else rd_bind (rd_lift u8_read) (\<lambda>slot.
    rd_bind (rd_lift u16_read) (\<lambda>sid.
    rd_bind (rd_lift u8_read) (\<lambda>policy.
    rd_bind (rd_lift u8_read) (\<lambda>_.
    rd_bind (rd_lift SpdmRandomStruct_read) (\<lambda>random.
    rd_bind (SpdmDheExchangeStruct_spdm_read ni) (\<lambda>exchange.
    rd_bind (rd_lift SpdmOpaqueStruct_spdm_read) (\<lambda>opaque.
    rd_pure \<lparr>kq_measurement_summary_hash_type = t, kq_slot_id = slot, kq_req_session_id = sid,
      kq_session_policy = policy, kq_random = random, kq_exchange = exchange, kq_opaque = opaque\<rparr>))))))))"

definition SpdmKeyExchangeMutAuthAttributes_all :: SpdmKeyExchangeMutAuthAttributes where
  "SpdmKeyExchangeMutAuthAttributes_all = 7"

definition SpdmKeyExchangeMutAuthAttributes_encode ::
    "SpdmKeyExchangeMutAuthAttributes \<Rightarrow> EncodeErr enc" where
  "SpdmKeyExchangeMutAuthAttributes_encode = u8_encode"

definition SpdmKeyExchangeMutAuthAttributes_read :: "SpdmKeyExchangeMutAuthAttributes rd" where
  "SpdmKeyExchangeMutAuthAttributes_read r = do {
     (b, r) \<leftarrow> u8_read r;
     a \<leftarrow> from_bits SpdmKeyExchangeMutAuthAttributes_all b;
     Some (a, r)
   }"

record SpdmKeyExchangeResponsePayload =
  kr_heartbeat_period :: u8
  kr_rsp_session_id :: u16
  kr_mut_auth_req :: SpdmKeyExchangeMutAuthAttributes
  kr_req_slot_id :: u8
  kr_random :: SpdmRandomStruct
  kr_exchange :: SpdmDheExchangeStruct
  kr_measurement_summary_hash :: SpdmDigestStruct
  kr_opaque :: SpdmOpaqueStruct
  kr_signature :: SpdmSignatureStruct
  kr_verify_data :: SpdmDigestStruct

definition SpdmKeyExchangeResponsePayload_spdm_encode ::
    "SpdmNegotiateInfo \<Rightarrow> bool \<Rightarrow> SpdmKeyExchangeResponsePayload \<Rightarrow> SpdmStatus enc" where
  "SpdmKeyExchangeResponsePayload_spdm_encode ni summary p = encs (
    map BUFFER_FULL_enc
      [u8_encode (kr_heartbeat_period p),
       u8_encode 0,
       u16_encode (kr_rsp_session_id p),
       SpdmKeyExchangeMutAuthAttributes_encode (kr_mut_auth_req p),
       u8_encode (kr_req_slot_id p),
       SpdmRandomStruct_encode (kr_random p)] @
    [SpdmDheExchangeStruct_spdm_encode (kr_exchange p)] @
    (if summary then [SpdmDigestStruct_spdm_encode ni (kr_measurement_summary_hash p)] else []) @
    [SpdmOpaqueStruct_spdm_encode (kr_opaque p), SpdmSignatureStruct_spdm_encode ni (kr_signature p)] @
    (if in_clear_text ni then [] else [SpdmDigestStruct_spdm_encode ni (kr_verify_data p)]))"

definition SpdmKeyExchangeResponsePayload_spdm_read ::
    "SpdmNegotiateInfo \<Rightarrow> bool \<Rightarrow> SpdmKeyExchangeResponsePayload rdp" where
  "SpdmKeyExchangeResponsePayload_spdm_read ni summary =
    rd_bind (rd_lift u8_read) (\<lambda>period.
    rd_bind (rd_lift u8_read) (\<lambda>_.
    rd_bind (rd_lift u16_read) (\<lambda>sid.
    rd_bind (rd_lift SpdmKeyExchangeMutAuthAttributes_read) (\<lambda>mut_auth.
    rd_bind (rd_lift u8_read) (\<lambda>slot.
    if mut_auth \<noteq> 0 \<and> mut_auth \<noteq> 1 \<and> mut_auth \<noteq> 2 \<and> mut_auth \<noteq> 4 then rd_none
    else rd_bind (rd_lift SpdmRandomStruct_read) (\<lambda>random.
    rd_bind (SpdmDheExchangeStruct_spdm_read ni) (\<lambda>exchange.
    rd_bind (optional_digest ni summary) (\<lambda>summary_hash.
    rd_bind (rd_lift SpdmOpaqueStruct_spdm_read) (\<lambda>opaque.
    rd_bind (SpdmSignatureStruct_spdm_read ni) (\<lambda>sig.
    rd_bind (optional_digest ni (\<not> in_clear_text ni)) (\<lambda>verify_data.
    rd_pure \<lparr>kr_heartbeat_period = period, kr_rsp_session_id = sid, kr_mut_auth_req = mut_auth,
      kr_req_slot_id = slot, kr_random = random, kr_exchange = exchange,
      kr_measurement_summary_hash = summary_hash, kr_opaque = opaque, kr_signature = sig,
      kr_verify_data = verify_data\<rparr>)))))))))))"

type_synonym SpdmFinishRequestAttributes = u8

definition SIGNATURE_INCLUDED :: SpdmFinishRequestAttributes where
  "SIGNATURE_INCLUDED = 1"

definition SpdmFinishRequestAttributes_encode :: "SpdmFinishRequestAttributes \<Rightarrow> EncodeErr enc" where
  "SpdmFinishRequestAttributes_encode = u8_encode"

definition SpdmFinishRequestAttributes_read :: "SpdmFinishRequestAttributes rd" where
  "SpdmFinishRequestAttributes_read r = do {
     (b, r) \<leftarrow> u8_read r;
     a \<leftarrow> from_bits SIGNATURE_INCLUDED b;
     Some (a, r)
   }"

record SpdmFinishRequestPayload =
  fq_finish_request_attributes :: SpdmFinishRequestAttributes
  fq_req_slot_id :: u8
  fq_signature :: SpdmSignatureStruct
  fq_verify_data :: SpdmDigestStruct

definition SpdmFinishRequestPayload_spdm_encode ::
    "SpdmNegotiateInfo \<Rightarrow> SpdmFinishRequestPayload \<Rightarrow> SpdmStatus enc" where
  "SpdmFinishRequestPayload_spdm_encode ni p = encs (
    [BUFFER_FULL_enc (SpdmFinishRequestAttributes_encode (fq_finish_request_attributes p)),
     BUFFER_FULL_enc (u8_encode (fq_req_slot_id p))] @
    (if contains (fq_finish_request_attributes p) SIGNATURE_INCLUDED
     then [SpdmSignatureStruct_spdm_encode ni (fq_signature p)] else []) @
    [SpdmDigestStruct_spdm_encode ni (fq_verify_data p)])"

definition SpdmFinishRequestPayload_spdm_read ::
    "SpdmNegotiateInfo \<Rightarrow> SpdmFinishRequestPayload rdp" where
  "SpdmFinishRequestPayload_spdm_read ni =
    rd_bind (rd_lift SpdmFinishRequestAttributes_read) (\<lambda>attr.
    rd_bind (rd_lift u8_read) (\<lambda>slot.
    rd_bind (if contains attr SIGNATURE_INCLUDED then SpdmSignatureStruct_spdm_read ni
      else rd_pure SpdmSignatureStruct_default) (\<lambda>sig.
    rd_bind (SpdmDigestStruct_spdm_read ni) (\<lambda>verify_data.
    rd_pure \<lparr>fq_finish_request_attributes = attr, fq_req_slot_id = slot, fq_signature = sig,
      fq_verify_data = verify_data\<rparr>))))"

definition SpdmFinishResponsePayload_spdm_encode ::
    "SpdmNegotiateInfo \<Rightarrow> SpdmDigestStruct \<Rightarrow> SpdmStatus enc" where
  "SpdmFinishResponsePayload_spdm_encode ni verify_data = encs (
    [BUFFER_FULL_enc (u8_encode 0), BUFFER_FULL_enc (u8_encode 0)] @
    (if in_clear_text ni then [SpdmDigestStruct_spdm_encode ni verify_data] else []))"

definition SpdmFinishResponsePayload_spdm_read :: "SpdmNegotiateInfo \<Rightarrow> SpdmDigestStruct rdp" where
  "SpdmFinishResponsePayload_spdm_read ni =
    rd_bind (rd_lift u8_read) (\<lambda>_.
    rd_bind (rd_lift u8_read) (\<lambda>_.
    optional_digest ni (in_clear_text ni)))"

subsection \<open>PSK exchange and finish\<close>

record SpdmPskExchangeRequestPayload =
  pq_measurement_summary_hash_type :: SpdmMeasurementSummaryHashType
  pq_req_session_id :: u16
  pq_psk_hint :: SpdmPskHintStruct
  pq_psk_context :: SpdmPskContextStruct
  pq_opaque :: SpdmOpaqueStruct

definition SpdmPskExchangeRequestPayload_spdm_encode ::
    "SpdmPskExchangeRequestPayload \<Rightarrow> SpdmStatus enc" where
  "SpdmPskExchangeRequestPayload_spdm_encode p = encs (map BUFFER_FULL_enc
    ([enum_u8_encode SpdmMeasurementSummaryHashType_get_u8 (pq_measurement_summary_hash_type p),
      u8_encode 0,
      u16_encode (pq_req_session_id p),
      u16_encode (data_size (pq_psk_hint p)),
      u16_encode (data_size (pq_psk_context p)),
      u16_encode (data_size (pq_opaque p))] @
     map u8_encode (as_ref (pq_psk_hint p)) @
     map u8_encode (as_ref (pq_psk_context p)) @
     map u8_encode (as_ref (pq_opaque p))))"

definition u16_at_most :: "nat \<Rightarrow> u16 rd" where
  "u16_at_most cap r = do { (n, r) \<leftarrow> u16_read r; (if n > of_nat cap then None else Some (n, r)) }"

definition SpdmPskExchangeRequestPayload_spdm_read ::
    "SpdmNegotiateInfo \<Rightarrow> SpdmPskExchangeRequestPayload rd" where
  "SpdmPskExchangeRequestPayload_spdm_read ni r = do {
     (t, r) \<leftarrow> enum_u8_read SpdmMeasurementSummaryHashType_of_u8 r;
     (if \<not> summary_type_ok ni t then None
      else do {
        (_, r) \<leftarrow> u8_read r;
        (sid, r) \<leftarrow> u16_read r;
        (hn, r) \<leftarrow> u16_at_most MAX_SPDM_PSK_HINT_SIZE r;
        (cn, r) \<leftarrow> u16_at_most MAX_SPDM_PSK_CONTEXT_SIZE r;
        (on, r) \<leftarrow> u16_at_most MAX_SPDM_OPAQUE_SIZE r;
        (hint, r) \<leftarrow> read_sized MAX_SPDM_PSK_HINT_SIZE hn r;
        (ctx, r) \<leftarrow> read_sized MAX_SPDM_PSK_CONTEXT_SIZE cn r;
        (opaque, r) \<leftarrow> read_sized MAX_SPDM_OPAQUE_SIZE on r;
        Some (\<lparr>pq_measurement_summary_hash_type = t, pq_req_session_id = sid, pq_psk_hint = hint,
          pq_psk_context = ctx, pq_opaque = opaque\<rparr>, r)
      })
   }"

definition psk_without_context :: "SpdmNegotiateInfo \<Rightarrow> bool" where
  "psk_without_context ni \<longleftrightarrow>
    contains (rsp_capabilities_sel ni) SpdmResponseCap_PSK_CAP_WITHOUT_CONTEXT"

record SpdmPskExchangeResponsePayload =
  pr_heartbeat_period :: u8
  pr_rsp_session_id :: u16
  pr_measurement_summary_hash :: SpdmDigestStruct
  pr_psk_context :: SpdmPskContextStruct
  pr_opaque :: SpdmOpaqueStruct
  pr_verify_data :: SpdmDigestStruct

definition SpdmPskExchangeResponsePayload_spdm_encode ::
    "SpdmNegotiateInfo \<Rightarrow> bool \<Rightarrow> SpdmPskExchangeResponsePayload \<Rightarrow> SpdmStatus enc" where
  "SpdmPskExchangeResponsePayload_spdm_encode ni summary p = encs (
    map BUFFER_FULL_enc
      [u8_encode (pr_heartbeat_period p),
       u8_encode 0,
       u16_encode (pr_rsp_session_id p),
       u16_encode 0,
       u16_encode (if psk_without_context ni then 0 else data_size (pr_psk_context p)),
       u16_encode (data_size (pr_opaque p))] @
    (if summary then [SpdmDigestStruct_spdm_encode ni (pr_measurement_summary_hash p)] else []) @
    (if psk_without_context ni then [] else [full_bytes (as_ref (pr_psk_context p))]) @
    [full_bytes (as_ref (pr_opaque p)), SpdmDigestStruct_spdm_encode ni (pr_verify_data p)])"

definition SpdmPskExchangeResponsePayload_spdm_read ::
    "SpdmNegotiateInfo \<Rightarrow> bool \<Rightarrow> SpdmPskExchangeResponsePayload rdp" where
  "SpdmPskExchangeResponsePayload_spdm_read ni summary =
    rd_bind (rd_lift u8_read) (\<lambda>period.
    rd_bind (rd_lift u8_read) (\<lambda>_.
    rd_bind (rd_lift u16_read) (\<lambda>sid.
    rd_bind (rd_lift u16_read) (\<lambda>_.
    rd_bind (rd_lift u16_read) (\<lambda>cn.
    if psk_without_context ni \<and> cn \<noteq> 0 \<or> \<not> psk_without_context ni \<and> cn = 0 then rd_none
    else if cn > of_nat MAX_SPDM_PSK_CONTEXT_SIZE then rd_none
    else rd_bind (rd_lift (u16_at_most MAX_SPDM_OPAQUE_SIZE)) (\<lambda>on.
    rd_bind (optional_digest ni summary) (\<lambda>summary_hash.
    rd_bind (rd_lift (read_sized MAX_SPDM_PSK_CONTEXT_SIZE cn)) (\<lambda>ctx.
    rd_bind (rd_lift (read_sized MAX_SPDM_OPAQUE_SIZE on)) (\<lambda>opaque.
    rd_bind (SpdmDigestStruct_spdm_read ni) (\<lambda>verify_data.
    rd_pure \<lparr>pr_heartbeat_period = period, pr_rsp_session_id = sid,
      pr_measurement_summary_hash = summary_hash, pr_psk_context = ctx, pr_opaque = opaque,
      pr_verify_data = verify_data\<rparr>))))))))))"

definition SpdmPskFinishRequestPayload_spdm_encode ::
    "SpdmNegotiateInfo \<Rightarrow> SpdmDigestStruct \<Rightarrow> SpdmStatus enc" where
  "SpdmPskFinishRequestPayload_spdm_encode ni verify_data = encs
    [BUFFER_FULL_enc (u8_encode 0), BUFFER_FULL_enc (u8_encode 0), SpdmDigestStruct_spdm_encode ni verify_data]"

definition SpdmPskFinishRequestPayload_spdm_read :: "SpdmNegotiateInfo \<Rightarrow> SpdmDigestStruct rdp" where
  "SpdmPskFinishRequestPayload_spdm_read ni =
    rd_bind (rd_lift u8_read) (\<lambda>_.
    rd_bind (rd_lift u8_read) (\<lambda>_.
    SpdmDigestStruct_spdm_read ni))"

definition SpdmPskFinishResponsePayload_spdm_encode :: "SpdmStatus enc" where
  "SpdmPskFinishResponsePayload_spdm_encode = encs [BUFFER_FULL_enc (u8_encode 0), BUFFER_FULL_enc (u8_encode 0)]"

definition SpdmPskFinishResponsePayload_spdm_read :: "unit rd" where
  "SpdmPskFinishResponsePayload_spdm_read r = do { (_, r) \<leftarrow> u8_read r; (_, r) \<leftarrow> u8_read r; Some ((), r) }"

subsection \<open>Vendor defined messages\<close>

datatype RegistryOrStandardsBodyID =
    DMTF | TCG | USB | PCISIG | IANA | HDBASET | MIPI | CXL | JEDEC
  | RegistryOrStandardsBodyIDUnknown u16

fun RegistryOrStandardsBodyID_get_u16 :: "RegistryOrStandardsBodyID \<Rightarrow> u16" where
  "RegistryOrStandardsBodyID_get_u16 DMTF = 0"
| "RegistryOrStandardsBodyID_get_u16 TCG = 1"
| "RegistryOrStandardsBodyID_get_u16 USB = 2"
| "RegistryOrStandardsBodyID_get_u16 PCISIG = 3"
| "RegistryOrStandardsBodyID_get_u16 IANA = 4"
| "RegistryOrStandardsBodyID_get_u16 HDBASET = 5"
| "RegistryOrStandardsBodyID_get_u16 MIPI = 6"
| "RegistryOrStandardsBodyID_get_u16 CXL = 7"
| "RegistryOrStandardsBodyID_get_u16 JEDEC = 8"
| "RegistryOrStandardsBodyID_get_u16 (RegistryOrStandardsBodyIDUnknown v) = v"

definition RegistryOrStandardsBodyID_of_u16 :: "u16 \<Rightarrow> RegistryOrStandardsBodyID" where
  "RegistryOrStandardsBodyID_of_u16 v =
    (if v = 0 then DMTF else if v = 1 then TCG else if v = 2 then USB else if v = 3 then PCISIG
     else if v = 4 then IANA else if v = 5 then HDBASET else if v = 6 then MIPI else if v = 7 then CXL
     else if v = 8 then JEDEC else RegistryOrStandardsBodyIDUnknown v)"

fun get_default_vendor_id_len :: "RegistryOrStandardsBodyID \<Rightarrow> u16" where
  "get_default_vendor_id_len DMTF = 0"
| "get_default_vendor_id_len TCG = 2"
| "get_default_vendor_id_len USB = 2"
| "get_default_vendor_id_len PCISIG = 2"
| "get_default_vendor_id_len IANA = 4"
| "get_default_vendor_id_len HDBASET = 4"
| "get_default_vendor_id_len MIPI = 2"
| "get_default_vendor_id_len CXL = 2"
| "get_default_vendor_id_len JEDEC = 2"
| "get_default_vendor_id_len (RegistryOrStandardsBodyIDUnknown _) = 0"

definition MAX_SPDM_VENDOR_DEFINED_PAYLOAD_SIZE :: nat where
  "MAX_SPDM_VENDOR_DEFINED_PAYLOAD_SIZE = MAX_SPDM_MSG_SIZE - 7 - 2"

record VendorIDStruct =
  vi_len :: u8
  vi_vendor_id :: bytes

definition VendorIDStruct_encode :: "VendorIDStruct \<Rightarrow> EncodeErr enc" where
  "VendorIDStruct_encode v = encs (u8_encode (vi_len v) #
    map u8_encode (take (unat (vi_len v)) (vi_vendor_id v)))"

definition VendorIDStruct_read :: "VendorIDStruct rd" where
  "VendorIDStruct_read r = do {
     (n, r) \<leftarrow> u8_read r;
     (v, r) \<leftarrow> read_into 0 MAX_SPDM_VENDOR_DEFINED_VENDOR_ID_LEN u8_read (unat n) r;
     Some (\<lparr>vi_len = n, vi_vendor_id = v\<rparr>, r)
   }"

type_synonym VendorDefinedReqPayloadStruct = sized_data
type_synonym VendorDefinedRspPayloadStruct = sized_data

definition VendorDefinedReqPayloadStruct_encode :: "VendorDefinedReqPayloadStruct \<Rightarrow> EncodeErr enc" where
  "VendorDefinedReqPayloadStruct_encode p = encs (u16_encode (data_size p) # map u8_encode (as_ref p))"

definition VendorDefinedReqPayloadStruct_read :: "VendorDefinedReqPayloadStruct rd" where
  "VendorDefinedReqPayloadStruct_read r = do {
     (n, r) \<leftarrow> u16_read r;
     read_sized MAX_SPDM_VENDOR_DEFINED_PAYLOAD_SIZE n r
   }"

definition VendorDefinedRspPayloadStruct_encode :: "VendorDefinedRspPayloadStruct \<Rightarrow> EncodeErr enc" where
  "VendorDefinedRspPayloadStruct_encode p = encs (u16_encode (data_size p) # map u8_encode (as_ref p))"

definition VendorDefinedRspPayloadStruct_read :: "VendorDefinedRspPayloadStruct rd" where
  "VendorDefinedRspPayloadStruct_read r = do {
     (n, r) \<leftarrow> u16_read r;
     read_sized MAX_SPDM_VENDOR_DEFINED_PAYLOAD_SIZE n r
   }"

record SpdmVendorDefinedPayload =
  vd_standard_id :: RegistryOrStandardsBodyID
  vd_vendor_id :: VendorIDStruct
  vd_payload :: sized_data

definition SpdmVendorDefinedRequestPayload_spdm_encode :: "SpdmVendorDefinedPayload \<Rightarrow> SpdmStatus enc" where
  "SpdmVendorDefinedRequestPayload_spdm_encode p = encs (map BUFFER_FULL_enc
    [u8_encode 0, u8_encode 0, enum_u16_encode RegistryOrStandardsBodyID_get_u16 (vd_standard_id p),
     VendorIDStruct_encode (vd_vendor_id p), VendorDefinedReqPayloadStruct_encode (vd_payload p)])"

definition SpdmVendorDefinedRequestPayload_spdm_read :: "SpdmVendorDefinedPayload rd" where
  "SpdmVendorDefinedRequestPayload_spdm_read r = do {
     (_, r) \<leftarrow> u8_read r;
     (_, r) \<leftarrow> u8_read r;
     (s, r) \<leftarrow> enum_u16_read RegistryOrStandardsBodyID_of_u16 r;
     (v, r) \<leftarrow> VendorIDStruct_read r;
     (p, r) \<leftarrow> VendorDefinedReqPayloadStruct_read r;
     Some (\<lparr>vd_standard_id = s, vd_vendor_id = v, vd_payload = p\<rparr>, r)
   }"

definition SpdmVendorDefinedResponsePayload_spdm_encode :: "SpdmVendorDefinedPayload \<Rightarrow> SpdmStatus enc" where
  "SpdmVendorDefinedResponsePayload_spdm_encode p = encs (map BUFFER_FULL_enc
    [u8_encode 0, u8_encode 0, enum_u16_encode RegistryOrStandardsBodyID_get_u16 (vd_standard_id p),
     VendorIDStruct_encode (vd_vendor_id p), VendorDefinedRspPayloadStruct_encode (vd_payload p)])"

definition SpdmVendorDefinedResponsePayload_spdm_read :: "SpdmVendorDefinedPayload rd" where
  "SpdmVendorDefinedResponsePayload_spdm_read r = do {
     (_, r) \<leftarrow> u8_read r;
     (_, r) \<leftarrow> u8_read r;
     (s, r) \<leftarrow> enum_u16_read RegistryOrStandardsBodyID_of_u16 r;
     (v, r) \<leftarrow> VendorIDStruct_read r;
     (p, r) \<leftarrow> VendorDefinedRspPayloadStruct_read r;
     Some (\<lparr>vd_standard_id = s, vd_vendor_id = v, vd_payload = p\<rparr>, r)
   }"

section \<open>Codecs\<close>

lemma SPDM_MAX_SLOT_NUMBER_eq [simp]: "SPDM_MAX_SLOT_NUMBER = 8"
  by (simp add: SPDM_MAX_SLOT_NUMBER_def)

locale sized_codec =
  fixes encode :: "'a \<Rightarrow> 'e enc"
    and read :: "'a rdp"
    and image :: "'a \<Rightarrow> bytes"
    and valid :: "'a \<Rightarrow> bool"
  assumes encode_emits: "valid x \<Longrightarrow> emits (encode x) (image x)"
    and read_image: "valid x \<Longrightarrow> read (rd_at pre (image x @ post)) = Ok (x, rd_at (pre @ image x) post)"

sublocale codec \<subseteq> lifted: sized_codec encode "rd_lift read" image valid
  by unfold_locales (simp_all add: encode_emits read_image rd_lift_def)

text \<open>Transmission as for the other messages, for readers that can panic.\<close>

definition transmits_sized :: "'e enc \<Rightarrow> 'a rdp \<Rightarrow> 'a \<Rightarrow> bytes \<Rightarrow> bool" where
  "transmits_sized enc rd x bs \<longleftrightarrow>
    rd (reader_init bs) = Ok (x, rd_at bs []) \<and>
    (\<forall>buf. if length bs \<le> length buf
       then fst (enc (writer_init buf)) = Ok (length bs) \<and>
         writer_used_slice (snd (enc (writer_init buf))) = bs
       else \<exists>err. fst (enc (writer_init buf)) = Err err)"

context sized_codec
begin

lemma sized_transmission:
  assumes "valid x"
  shows "transmits_sized (encode x) read x (image x)"
  unfolding transmits_sized_def writer_init_wr_at reader_init_rd_at
proof (intro conjI allI)
  show "read (rd_at [] (image x)) = Ok (x, rd_at (image x) [])"
    using read_image [OF assms, of "[]" "[]"] by simp
  fix buf
  show "if length (image x) \<le> length buf
    then fst (encode x (wr_at [] buf)) = Ok (length (image x)) \<and>
      writer_used_slice (snd (encode x (wr_at [] buf))) = image x
    else \<exists>err. fst (encode x (wr_at [] buf)) = Err err"
    using emits_Ok [OF encode_emits [OF assms], of buf "[]"]
      emits_Err [OF encode_emits [OF assms], of buf "[]" "\<exists>err. fst (encode x (wr_at [] buf)) = Err err"]
    by (cases "length (image x) \<le> length buf") auto
qed

end

lemmas rdp_defs = rd_bind_def rd_lift_def rd_pure_def rd_none_def rd_size_def

lemma emits_full_bytes [wire]: "emits (full_bytes bs) bs"
proof -
  have "list_all2 emits (map u8_encode bs) (map (\<lambda>b. [b]) bs)"
    by (simp add: emits_u8 list_all2_map_emits)
  from emits_full_encs [OF this] show ?thesis by (simp add: full_bytes_def)
qed

text \<open>A value of the size \<open>sz\<close> in its fixed array of \<open>cap\<close> bytes.\<close>

definition fits_size :: "nat \<Rightarrow> u16 SpdmResult \<Rightarrow> sized_data \<Rightarrow> bool" where
  "fits_size cap sz d \<longleftrightarrow> sz = Ok (data_size d) \<and> zero_padded cap d"

abbreviation digest_ok :: "SpdmNegotiateInfo \<Rightarrow> SpdmDigestStruct \<Rightarrow> bool" where
  "digest_ok ni \<equiv> fits_size SPDM_MAX_HASH_SIZE (get_hash_size ni)"

abbreviation signature_ok :: "SpdmNegotiateInfo \<Rightarrow> SpdmSignatureStruct \<Rightarrow> bool" where
  "signature_ok ni \<equiv> fits_size SPDM_MAX_ASYM_KEY_SIZE (get_asym_key_size ni)"

abbreviation exchange_ok :: "SpdmNegotiateInfo \<Rightarrow> SpdmDheExchangeStruct \<Rightarrow> bool" where
  "exchange_ok ni \<equiv> fits_size SPDM_MAX_DHE_KEY_SIZE (get_dhe_key_size ni)"

lemma read_sized_negotiated:
  "fits_size cap sz d \<Longrightarrow> rd_size sz (\<lambda>n. rd_lift (read_sized cap n)) (rd_at pre (as_ref d @ post)) =
    Ok (d, rd_at (pre @ as_ref d) post)"
  by (simp add: fits_size_def rd_size_def rd_lift_def read_sized_image)

interpretation c_digest: sized_codec "SpdmDigestStruct_spdm_encode ni" "SpdmDigestStruct_spdm_read ni"
    as_ref "digest_ok ni" for ni
  by unfold_locales (simp_all add: SpdmDigestStruct_spdm_encode_def asserted_encode_def emits_full_bytes
      SpdmDigestStruct_spdm_read_def read_sized_negotiated, simp add: fits_size_def)

interpretation c_signature: sized_codec "SpdmSignatureStruct_spdm_encode ni" "SpdmSignatureStruct_spdm_read ni"
    as_ref "signature_ok ni" for ni
  by unfold_locales (simp_all add: SpdmSignatureStruct_spdm_encode_def asserted_encode_def emits_full_bytes
      SpdmSignatureStruct_spdm_read_def read_sized_negotiated, simp add: fits_size_def)

interpretation c_exchange: sized_codec SpdmDheExchangeStruct_spdm_encode "SpdmDheExchangeStruct_spdm_read ni"
    as_ref "exchange_ok ni" for ni
  by unfold_locales (simp_all add: SpdmDheExchangeStruct_spdm_encode_def emits_full_bytes
      SpdmDheExchangeStruct_spdm_read_def read_sized_negotiated)

subsection \<open>Digests and certificates\<close>

interpretation c_getdigests: codec "\<lambda>_. SpdmGetDigestsRequestPayload_spdm_encode"
    SpdmGetDigestsRequestPayload_spdm_read "\<lambda>_. [0, 0]" "\<lambda>_. True"
  by unfold_locales (simp_all add: SpdmGetDigestsRequestPayload_spdm_encode_def two_zeros
      SpdmGetDigestsRequestPayload_spdm_read_def)

definition digests_image :: "SpdmDigestsResponsePayload \<Rightarrow> bytes" where
  "digests_image p = [0, dg_slot_mask p] @
    concat (map as_ref (take (slot_count (dg_slot_mask p)) (dg_digests p)))"

definition digests_valid :: "SpdmNegotiateInfo \<Rightarrow> SpdmDigestsResponsePayload \<Rightarrow> bool" where
  "digests_valid ni p \<longleftrightarrow>
    length (dg_digests p) = SPDM_MAX_SLOT_NUMBER \<and>
    list_all (digest_ok ni) (take (slot_count (dg_slot_mask p)) (dg_digests p)) \<and>
    drop (slot_count (dg_slot_mask p)) (dg_digests p) =
      replicate (SPDM_MAX_SLOT_NUMBER - slot_count (dg_slot_mask p)) SpdmDigestStruct_default"

lemma slot_count_le: "slot_count m \<le> 8"
proof -
  have "slot_count m \<le> length [0..<8]" unfolding slot_count_def by (rule length_filter_le)
  then show ?thesis by simp
qed

lemma rd_list_image:
  assumes "\<And>x pre post. x \<in> set xs \<Longrightarrow> rd (rd_at pre (im x @ post)) = Ok (x, rd_at (pre @ im x) post)"
  shows "rd_list rd (length xs) (rd_at pre (concat (map im xs) @ post)) =
    Ok (xs, rd_at (pre @ concat (map im xs)) post)"
  using assms by (induction xs arbitrary: pre) (simp_all add: rdp_defs)

interpretation c_digests: sized_codec "SpdmDigestsResponsePayload_spdm_encode ni"
    "SpdmDigestsResponsePayload_spdm_read ni" digests_image "digests_valid ni" for ni
proof unfold_locales
  fix p pre post
  assume v: "digests_valid ni p"
  let ?n = "slot_count (dg_slot_mask p)"
  let ?ds = "take ?n (dg_digests p)"
  have ok: "digest_ok ni d" if "d \<in> set ?ds" for d
    using v that by (simp add: digests_valid_def list_all_iff)
  have "emits (SpdmDigestsResponsePayload_spdm_encode ni p)
      (concat ([[0], [dg_slot_mask p]] @ map as_ref ?ds))"
    unfolding SpdmDigestsResponsePayload_spdm_encode_def
    by (intro emits_encs list_all2_appendI)
      (simp_all add: emits_BUFFER_FULL emits_u8 c_digest.encode_emits ok list_all2_map_emits)
  then show "emits (SpdmDigestsResponsePayload_spdm_encode ni p) (digests_image p)"
    by (simp add: digests_image_def)
  have len: "length ?ds = ?n" using v slot_count_le by (simp add: digests_valid_def)
  have "rd_list (SpdmDigestStruct_spdm_read ni) ?n (rd_at pre' (concat (map as_ref ?ds) @ post)) =
      Ok (?ds, rd_at (pre' @ concat (map as_ref ?ds)) post)" for pre'
    using rd_list_image [of ?ds "SpdmDigestStruct_spdm_read ni" as_ref] ok len
    by (simp add: c_digest.read_image)
  moreover have "?ds @ replicate (SPDM_MAX_SLOT_NUMBER - ?n) SpdmDigestStruct_default = dg_digests p"
    using v unfolding digests_valid_def by (metis append_take_drop_id)
  ultimately show "SpdmDigestsResponsePayload_spdm_read ni (rd_at pre (digests_image p @ post)) =
      Ok (p, rd_at (pre @ digests_image p) post)"
    by (simp add: SpdmDigestsResponsePayload_spdm_read_def digests_image_def rdp_defs)
qed

interpretation c_getcert: codec SpdmGetCertificateRequestPayload_spdm_encode
    SpdmGetCertificateRequestPayload_spdm_read
    "\<lambda>p. [gct_slot_id p, 0] @ le_bytes 2 (gct_offset p) @ le_bytes 2 (gct_length p)" "\<lambda>_. True"
proof unfold_locales
  fix p :: SpdmGetCertificateRequestPayload
  show "emits (SpdmGetCertificateRequestPayload_spdm_encode p)
      ([gct_slot_id p, 0] @ le_bytes 2 (gct_offset p) @ le_bytes 2 (gct_length p))"
    using emits_full_encs [of "[u8_encode (gct_slot_id p), u8_encode 0, u16_encode (gct_offset p),
        u16_encode (gct_length p)]" "[[gct_slot_id p], [0], le_bytes 2 (gct_offset p), le_bytes 2 (gct_length p)]"]
    by (simp add: SpdmGetCertificateRequestPayload_spdm_encode_def emits_u8 emits_u16)
qed (simp add: SpdmGetCertificateRequestPayload_spdm_read_def)

definition cert_image :: "SpdmCertificateResponsePayload \<Rightarrow> bytes" where
  "cert_image p = [ct_slot_id p, 0] @ le_bytes 2 (ct_portion_length p) @ le_bytes 2 (ct_remainder_length p) @
    take (unat (ct_portion_length p)) (ct_cert_chain p)"

definition cert_valid :: "SpdmCertificateResponsePayload \<Rightarrow> bool" where
  "cert_valid p \<longleftrightarrow> zero_padded MAX_SPDM_CERT_PORTION_LEN
    \<lparr>data_size = ct_portion_length p, data = ct_cert_chain p\<rparr>"

lemma emits_cert: "emits (SpdmCertificateResponsePayload_spdm_encode p) (cert_image p)"
proof -
  have "emits (SpdmCertificateResponsePayload_spdm_encode p) (concat
    ([[ct_slot_id p], [0], le_bytes 2 (ct_portion_length p), le_bytes 2 (ct_remainder_length p)] @
     map (\<lambda>b. [b]) (take (unat (ct_portion_length p)) (ct_cert_chain p))))"
    unfolding SpdmCertificateResponsePayload_spdm_encode_def
    by (intro emits_full_encs list_all2_appendI list_all2_map_emits) (simp_all add: emits_u8 emits_u16)
  then show ?thesis by (simp add: cert_image_def)
qed

interpretation c_cert: codec SpdmCertificateResponsePayload_spdm_encode
    SpdmCertificateResponsePayload_spdm_read cert_image cert_valid
proof unfold_locales
  fix p pre post
  assume v: "cert_valid p"
  let ?d = "\<lparr>data_size = ct_portion_length p, data = ct_cert_chain p\<rparr>"
  have "read_into 0 MAX_SPDM_CERT_PORTION_LEN u8_read (unat (ct_portion_length p))
      (rd_at pre' (take (unat (ct_portion_length p)) (ct_cert_chain p) @ post)) =
    Some (ct_cert_chain p, rd_at (pre' @ take (unat (ct_portion_length p)) (ct_cert_chain p)) post)" for pre'
    using read_sized_image [OF v [unfolded cert_valid_def], of pre' post]
    by (auto simp: read_sized_def as_ref_def split: Option.bind_splits)
  then show "SpdmCertificateResponsePayload_spdm_read (rd_at pre (cert_image p @ post)) =
      Some (p, rd_at (pre @ cert_image p) post)"
    by (simp add: SpdmCertificateResponsePayload_spdm_read_def cert_image_def)
qed (rule emits_cert)

subsection \<open>Challenge\<close>

lemma summary_of_get:
  "summary_type_ok ni t \<Longrightarrow>
    SpdmMeasurementSummaryHashType_of_u8 (SpdmMeasurementSummaryHashType_get_u8 t) = t"
  by (cases t) (simp_all add: summary_type_ok_def SpdmMeasurementSummaryHashType_of_u8_def)

lemma summary_read [simp]:
  "SpdmMeasurementSummaryHashType_of_u8 (SpdmMeasurementSummaryHashType_get_u8 t) = t \<Longrightarrow>
    enum_u8_read SpdmMeasurementSummaryHashType_of_u8
      (rd_at pre (SpdmMeasurementSummaryHashType_get_u8 t # post)) =
    Some (t, rd_at (pre @ [SpdmMeasurementSummaryHashType_get_u8 t]) post)"
  by (simp add: enum_u8_read_def)

definition challenge_image :: "SpdmChallengeRequestPayload \<Rightarrow> bytes" where
  "challenge_image p = [ch_slot_id p,
    SpdmMeasurementSummaryHashType_get_u8 (ch_measurement_summary_hash_type p)] @ ch_nonce p"

interpretation c_challenge: codec SpdmChallengeRequestPayload_spdm_encode
    "SpdmChallengeRequestPayload_spdm_read ni" challenge_image
    "\<lambda>p. summary_type_ok ni (ch_measurement_summary_hash_type p) \<and> length (ch_nonce p) = SPDM_NONCE_SIZE" for ni
proof unfold_locales
  fix p :: SpdmChallengeRequestPayload
  assume v: "summary_type_ok ni (ch_measurement_summary_hash_type p) \<and> length (ch_nonce p) = SPDM_NONCE_SIZE"
  have "emits (SpdmChallengeRequestPayload_spdm_encode p) (concat [[ch_slot_id p],
      [SpdmMeasurementSummaryHashType_get_u8 (ch_measurement_summary_hash_type p)], ch_nonce p])"
    unfolding SpdmChallengeRequestPayload_spdm_encode_def
    using v by (intro emits_full_encs) (simp add: emits_u8 enum_u8_encode_def c_nonce.encode_emits)
  then show "emits (SpdmChallengeRequestPayload_spdm_encode p) (challenge_image p)"
    by (simp add: challenge_image_def)
  fix pre post
  show "SpdmChallengeRequestPayload_spdm_read ni (rd_at pre (challenge_image p @ post)) =
      Some (p, rd_at (pre @ challenge_image p) post)"
    using v summary_of_get [of ni "ch_measurement_summary_hash_type p"]
    by (simp add: SpdmChallengeRequestPayload_spdm_read_def challenge_image_def c_nonce.read_image)
qed

lemma nibble_cases:
  fixes s :: u8
  assumes "s < 16"
  shows "s \<in> set [0, 1, 2, 3, 4, 5, 6, 7, 8, 9, 10, 11, 12, 13, 14, 15]"
proof -
  have "unat s \<in> set [0..<16]" using assms by (simp add: word_less_nat_alt)
  moreover have "s = of_nat (unat s)" by simp
  ultimately have "s \<in> of_nat ` set [0..<16]" by blast
  then show ?thesis by (simp add: upt_rec)
qed

lemma auth_param1:
  fixes s a :: u8
  assumes "s < 16" "a = 0 \<or> a = 0x80"
  shows "(s + a) AND 0xF = s" "from_bits SpdmChallengeAuthAttribute_all ((s + a) AND 0xF0) = Some a"
  using nibble_cases [OF assms(1)] assms(2)
  by (auto simp: from_bits_def SpdmChallengeAuthAttribute_all_def)

definition chal_auth_image :: "bool \<Rightarrow> SpdmChallengeAuthResponsePayload \<Rightarrow> bytes" where
  "chal_auth_image summary p = [ca_slot_id p + ca_challenge_auth_attribute p, ca_slot_mask p] @
    as_ref (ca_cert_chain_hash p) @ ca_nonce p @
    (if summary then as_ref (ca_measurement_summary_hash p) else []) @
    le_bytes 2 (data_size (ca_opaque p)) @ as_ref (ca_opaque p) @ as_ref (ca_signature p)"

text \<open>A summary hash or verify data that is not transmitted is the default one.\<close>

definition optional_ok :: "SpdmNegotiateInfo \<Rightarrow> bool \<Rightarrow> SpdmDigestStruct \<Rightarrow> bool" where
  "optional_ok ni present d \<longleftrightarrow> (if present then digest_ok ni d else d = SpdmDigestStruct_default)"

lemma optional_digest_image:
  "optional_ok ni present d \<Longrightarrow>
    optional_digest ni present (rd_at pre ((if present then as_ref d else []) @ post)) =
      Ok (d, rd_at (pre @ (if present then as_ref d else [])) post)"
  by (simp add: optional_digest_def optional_ok_def c_digest.read_image rd_pure_def)

definition chal_auth_valid :: "SpdmNegotiateInfo \<Rightarrow> bool \<Rightarrow> SpdmChallengeAuthResponsePayload \<Rightarrow> bool" where
  "chal_auth_valid ni summary p \<longleftrightarrow>
    ca_slot_id p < 16 \<and> (ca_challenge_auth_attribute p = 0 \<or> ca_challenge_auth_attribute p = 0x80) \<and>
    digest_ok ni (ca_cert_chain_hash p) \<and> length (ca_nonce p) = SPDM_NONCE_SIZE \<and>
    optional_ok ni summary (ca_measurement_summary_hash p) \<and>
    zero_padded MAX_SPDM_OPAQUE_SIZE (ca_opaque p) \<and> signature_ok ni (ca_signature p)"

lemma emits_optional:
  "list_all2 emits (if b then [e] else []) (if b then [bs] else []) \<longleftrightarrow> (b \<longrightarrow> emits e bs)"
  by simp

interpretation c_chal_auth: sized_codec "SpdmChallengeAuthResponsePayload_spdm_encode ni summary"
    "SpdmChallengeAuthResponsePayload_spdm_read ni summary" "chal_auth_image summary"
    "chal_auth_valid ni summary" for ni summary
proof unfold_locales
  fix p pre post
  assume v: "chal_auth_valid ni summary p"
  have "emits (SpdmChallengeAuthResponsePayload_spdm_encode ni summary p) (concat
    ([[ca_slot_id p + ca_challenge_auth_attribute p], [ca_slot_mask p], as_ref (ca_cert_chain_hash p),
      ca_nonce p] @ (if summary then [as_ref (ca_measurement_summary_hash p)] else []) @
     [le_bytes 2 (data_size (ca_opaque p)) @ as_ref (ca_opaque p), as_ref (ca_signature p)]))"
    unfolding SpdmChallengeAuthResponsePayload_spdm_encode_def
    using v by (intro emits_encs list_all2_appendI)
      (auto simp: chal_auth_valid_def optional_ok_def emits_BUFFER_FULL emits_u8 c_digest.encode_emits
        c_nonce.encode_emits c_opaque_data.encode_emits c_signature.encode_emits)
  then show "emits (SpdmChallengeAuthResponsePayload_spdm_encode ni summary p) (chal_auth_image summary p)"
    by (cases summary) (simp_all add: chal_auth_image_def)
  show "SpdmChallengeAuthResponsePayload_spdm_read ni summary (rd_at pre (chal_auth_image summary p @ post)) =
      Ok (p, rd_at (pre @ chal_auth_image summary p) post)"
    using v auth_param1 [of "ca_slot_id p" "ca_challenge_auth_attribute p"]
      c_opaque_data.read_image [of "ca_opaque p"]
    by (simp add: SpdmChallengeAuthResponsePayload_spdm_read_def chal_auth_image_def chal_auth_valid_def
        rdp_defs c_digest.read_image c_nonce.read_image optional_digest_image c_signature.read_image)
qed

subsection \<open>Key exchange and finish\<close>

definition kex_req_image :: "SpdmNegotiateInfo \<Rightarrow> SpdmKeyExchangeRequestPayload \<Rightarrow> bytes" where
  "kex_req_image ni p = [SpdmMeasurementSummaryHashType_get_u8 (kq_measurement_summary_hash_type p),
    kq_slot_id p] @ le_bytes 2 (kq_req_session_id p) @
    [if at_least SpdmVersion12 ni then kq_session_policy p else 0, 0] @ kq_random p @
    as_ref (kq_exchange p) @ le_bytes 2 (data_size (kq_opaque p)) @ as_ref (kq_opaque p)"

definition kex_req_valid :: "SpdmNegotiateInfo \<Rightarrow> SpdmKeyExchangeRequestPayload \<Rightarrow> bool" where
  "kex_req_valid ni p \<longleftrightarrow>
    summary_type_ok ni (kq_measurement_summary_hash_type p) \<and>
    (at_least SpdmVersion12 ni \<or> kq_session_policy p = 0) \<and> length (kq_random p) = SPDM_RANDOM_SIZE \<and>
    exchange_ok ni (kq_exchange p) \<and> zero_padded MAX_SPDM_OPAQUE_SIZE (kq_opaque p)"

lemma emits_kex_req:
  assumes "length (kq_random p) = SPDM_RANDOM_SIZE" "zero_padded MAX_SPDM_OPAQUE_SIZE (kq_opaque p)"
  shows "emits (SpdmKeyExchangeRequestPayload_spdm_encode ni p) (kex_req_image ni p)"
proof -
  have "emits (SpdmKeyExchangeRequestPayload_spdm_encode ni p) (concat
    ([[SpdmMeasurementSummaryHashType_get_u8 (kq_measurement_summary_hash_type p)], [kq_slot_id p],
      le_bytes 2 (kq_req_session_id p), [if at_least SpdmVersion12 ni then kq_session_policy p else 0], [0],
      kq_random p] @ [as_ref (kq_exchange p), le_bytes 2 (data_size (kq_opaque p)) @ as_ref (kq_opaque p)]))"
    unfolding SpdmKeyExchangeRequestPayload_spdm_encode_def
    using assms by (intro emits_encs list_all2_appendI)
      (simp_all add: emits_BUFFER_FULL emits_u8 emits_u16 enum_u8_encode_def c_random.encode_emits
        SpdmDheExchangeStruct_spdm_encode_def emits_full_bytes c_opaque_data.encode_emits)
  then show ?thesis by (simp add: kex_req_image_def)
qed

interpretation c_kex_req: sized_codec "SpdmKeyExchangeRequestPayload_spdm_encode ni"
    "SpdmKeyExchangeRequestPayload_spdm_read ni" "kex_req_image ni" "kex_req_valid ni" for ni
proof unfold_locales
  fix p pre post
  assume v: "kex_req_valid ni p"
  then show "emits (SpdmKeyExchangeRequestPayload_spdm_encode ni p) (kex_req_image ni p)"
    by (simp add: emits_kex_req kex_req_valid_def)
  have p: "(if at_least SpdmVersion12 ni then kq_session_policy p else 0) = kq_session_policy p"
    using v by (auto simp: kex_req_valid_def)
  show "SpdmKeyExchangeRequestPayload_spdm_read ni (rd_at pre (kex_req_image ni p @ post)) =
      Ok (p, rd_at (pre @ kex_req_image ni p) post)"
    using v c_opaque_data.read_image [of "kq_opaque p"]
      summary_of_get [of ni "kq_measurement_summary_hash_type p"]
    unfolding kex_req_image_def p
    by (simp add: SpdmKeyExchangeRequestPayload_spdm_read_def kex_req_valid_def rdp_defs
        c_exchange.read_image c_random.read_image)
qed

definition kex_rsp_image :: "SpdmNegotiateInfo \<Rightarrow> bool \<Rightarrow> SpdmKeyExchangeResponsePayload \<Rightarrow> bytes" where
  "kex_rsp_image ni summary p = [kr_heartbeat_period p, 0] @ le_bytes 2 (kr_rsp_session_id p) @
    [kr_mut_auth_req p, kr_req_slot_id p] @ kr_random p @ as_ref (kr_exchange p) @
    (if summary then as_ref (kr_measurement_summary_hash p) else []) @
    le_bytes 2 (data_size (kr_opaque p)) @ as_ref (kr_opaque p) @ as_ref (kr_signature p) @
    (if \<not> in_clear_text ni then as_ref (kr_verify_data p) else [])"

definition kex_rsp_valid :: "SpdmNegotiateInfo \<Rightarrow> bool \<Rightarrow> SpdmKeyExchangeResponsePayload \<Rightarrow> bool" where
  "kex_rsp_valid ni summary p \<longleftrightarrow>
    kr_mut_auth_req p \<in> {0, 1, 2, 4} \<and> length (kr_random p) = SPDM_RANDOM_SIZE \<and>
    exchange_ok ni (kr_exchange p) \<and> optional_ok ni summary (kr_measurement_summary_hash p) \<and>
    zero_padded MAX_SPDM_OPAQUE_SIZE (kr_opaque p) \<and> signature_ok ni (kr_signature p) \<and>
    optional_ok ni (\<not> in_clear_text ni) (kr_verify_data p)"

lemma emits_kex_rsp:
  assumes "length (kr_random p) = SPDM_RANDOM_SIZE" "zero_padded MAX_SPDM_OPAQUE_SIZE (kr_opaque p)"
    "summary \<Longrightarrow> digest_ok ni (kr_measurement_summary_hash p)" "signature_ok ni (kr_signature p)"
    "\<not> in_clear_text ni \<Longrightarrow> digest_ok ni (kr_verify_data p)"
  shows "emits (SpdmKeyExchangeResponsePayload_spdm_encode ni summary p) (kex_rsp_image ni summary p)"
proof -
  have "emits (SpdmKeyExchangeResponsePayload_spdm_encode ni summary p) (concat
    ([[kr_heartbeat_period p], [0], le_bytes 2 (kr_rsp_session_id p), [kr_mut_auth_req p],
      [kr_req_slot_id p], kr_random p] @ [as_ref (kr_exchange p)] @
     (if summary then [as_ref (kr_measurement_summary_hash p)] else []) @
     [le_bytes 2 (data_size (kr_opaque p)) @ as_ref (kr_opaque p), as_ref (kr_signature p)] @
     (if in_clear_text ni then [] else [as_ref (kr_verify_data p)])))"
    unfolding SpdmKeyExchangeResponsePayload_spdm_encode_def
    using assms by (intro emits_encs list_all2_appendI)
      (auto simp: emits_BUFFER_FULL emits_u8 emits_u16 c_random.encode_emits emits_full_bytes
        SpdmKeyExchangeMutAuthAttributes_encode_def SpdmDheExchangeStruct_spdm_encode_def
        c_opaque_data.encode_emits c_digest.encode_emits c_signature.encode_emits)
  then show ?thesis
    by (cases summary; cases "in_clear_text ni") (simp_all add: kex_rsp_image_def)
qed

interpretation c_kex_rsp: sized_codec "SpdmKeyExchangeResponsePayload_spdm_encode ni summary"
    "SpdmKeyExchangeResponsePayload_spdm_read ni summary" "kex_rsp_image ni summary"
    "kex_rsp_valid ni summary" for ni summary
proof unfold_locales
  fix p pre post
  assume v: "kex_rsp_valid ni summary p"
  then show "emits (SpdmKeyExchangeResponsePayload_spdm_encode ni summary p) (kex_rsp_image ni summary p)"
    by (intro emits_kex_rsp) (simp_all add: kex_rsp_valid_def optional_ok_def)
  have "SpdmKeyExchangeMutAuthAttributes_read (rd_at pre' (kr_mut_auth_req p # post')) =
      Some (kr_mut_auth_req p, rd_at (pre' @ [kr_mut_auth_req p]) post')" for pre' post'
    using v by (auto simp: kex_rsp_valid_def SpdmKeyExchangeMutAuthAttributes_read_def from_bits_def
        SpdmKeyExchangeMutAuthAttributes_all_def)
  moreover have "\<not> (kr_mut_auth_req p \<noteq> 0 \<and> kr_mut_auth_req p \<noteq> 1 \<and> kr_mut_auth_req p \<noteq> 2 \<and> kr_mut_auth_req p \<noteq> 4)"
    using v by (simp add: kex_rsp_valid_def)
  moreover note opt = optional_digest_image [of ni "\<not> in_clear_text ni"] optional_digest_image [of ni summary]
  ultimately show "SpdmKeyExchangeResponsePayload_spdm_read ni summary
      (rd_at pre (kex_rsp_image ni summary p @ post)) = Ok (p, rd_at (pre @ kex_rsp_image ni summary p) post)"
    using v c_opaque_data.read_image [of "kr_opaque p"]
    by (simp add: SpdmKeyExchangeResponsePayload_spdm_read_def kex_rsp_image_def kex_rsp_valid_def rdp_defs
        c_exchange.read_image c_random.read_image c_signature.read_image opt)
qed

definition finish_req_image :: "SpdmFinishRequestPayload \<Rightarrow> bytes" where
  "finish_req_image p = [fq_finish_request_attributes p, fq_req_slot_id p] @
    (if contains (fq_finish_request_attributes p) SIGNATURE_INCLUDED then as_ref (fq_signature p) else []) @
    as_ref (fq_verify_data p)"

definition finish_req_valid :: "SpdmNegotiateInfo \<Rightarrow> SpdmFinishRequestPayload \<Rightarrow> bool" where
  "finish_req_valid ni p \<longleftrightarrow>
    fq_finish_request_attributes p AND SIGNATURE_INCLUDED = fq_finish_request_attributes p \<and>
    (if contains (fq_finish_request_attributes p) SIGNATURE_INCLUDED then signature_ok ni (fq_signature p)
     else fq_signature p = SpdmSignatureStruct_default) \<and>
    digest_ok ni (fq_verify_data p)"

interpretation c_finish_req: sized_codec "SpdmFinishRequestPayload_spdm_encode ni"
    "SpdmFinishRequestPayload_spdm_read ni" finish_req_image "finish_req_valid ni" for ni
proof unfold_locales
  fix p pre post
  assume v: "finish_req_valid ni p"
  let ?s = "contains (fq_finish_request_attributes p) SIGNATURE_INCLUDED"
  have "emits (SpdmFinishRequestPayload_spdm_encode ni p) (concat
    ([[fq_finish_request_attributes p], [fq_req_slot_id p]] @
     (if ?s then [as_ref (fq_signature p)] else []) @ [as_ref (fq_verify_data p)]))"
    unfolding SpdmFinishRequestPayload_spdm_encode_def
    using v by (intro emits_encs list_all2_appendI)
      (auto simp: finish_req_valid_def emits_BUFFER_FULL emits_u8 SpdmFinishRequestAttributes_encode_def
        c_digest.encode_emits c_signature.encode_emits)
  then show "emits (SpdmFinishRequestPayload_spdm_encode ni p) (finish_req_image p)"
    by (simp add: finish_req_image_def split: if_splits)
  have "SpdmFinishRequestAttributes_read (rd_at pre' (fq_finish_request_attributes p # post')) =
      Some (fq_finish_request_attributes p, rd_at (pre' @ [fq_finish_request_attributes p]) post')" for pre' post'
    using v by (simp add: finish_req_valid_def SpdmFinishRequestAttributes_read_def from_bits_self)
  then show "SpdmFinishRequestPayload_spdm_read ni (rd_at pre (finish_req_image p @ post)) =
      Ok (p, rd_at (pre @ finish_req_image p) post)"
    using v by (cases ?s) (simp_all add: SpdmFinishRequestPayload_spdm_read_def finish_req_image_def
        finish_req_valid_def rdp_defs c_digest.read_image c_signature.read_image)
qed

interpretation c_finish_rsp: sized_codec "SpdmFinishResponsePayload_spdm_encode ni"
    "SpdmFinishResponsePayload_spdm_read ni" "\<lambda>d. [0, 0] @ (if in_clear_text ni then as_ref d else [])"
    "optional_ok ni (in_clear_text ni)" for ni
proof unfold_locales
  fix d pre post
  assume v: "optional_ok ni (in_clear_text ni) d"
  have "emits (SpdmFinishResponsePayload_spdm_encode ni d)
      (concat ([[0], [0]] @ (if in_clear_text ni then [as_ref d] else [])))"
    unfolding SpdmFinishResponsePayload_spdm_encode_def
    using v by (intro emits_encs list_all2_appendI)
      (auto simp: optional_ok_def emits_BUFFER_FULL emits_u8 c_digest.encode_emits)
  then show "emits (SpdmFinishResponsePayload_spdm_encode ni d) ([0, 0] @ (if in_clear_text ni then as_ref d else []))"
    by (simp split: if_splits)
  show "SpdmFinishResponsePayload_spdm_read ni
      (rd_at pre (([0, 0] @ (if in_clear_text ni then as_ref d else [])) @ post)) =
    Ok (d, rd_at (pre @ [0, 0] @ (if in_clear_text ni then as_ref d else [])) post)"
    using optional_digest_image [OF v] by (simp add: SpdmFinishResponsePayload_spdm_read_def rdp_defs)
qed

subsection \<open>PSK exchange and finish\<close>

lemma u16_at_most_image [simp]:
  "unat n \<le> cap \<Longrightarrow> cap \<le> 0xFFFF \<Longrightarrow>
    u16_at_most cap (rd_at pre (le_bytes 2 n @ post)) = Some (n, rd_at (pre @ le_bytes 2 n) post)"
  by (simp add: u16_at_most_def word_less_nat_alt)

lemma psk_sizes [simp]:
  "MAX_SPDM_PSK_HINT_SIZE = 32" "MAX_SPDM_PSK_CONTEXT_SIZE = 64" "MAX_SPDM_OPAQUE_SIZE = 1024"
  by (simp_all add: MAX_SPDM_PSK_HINT_SIZE_def MAX_SPDM_PSK_CONTEXT_SIZE_def MAX_SPDM_OPAQUE_SIZE_def config_def)

definition psk_req_image :: "SpdmPskExchangeRequestPayload \<Rightarrow> bytes" where
  "psk_req_image p = [SpdmMeasurementSummaryHashType_get_u8 (pq_measurement_summary_hash_type p), 0] @
    le_bytes 2 (pq_req_session_id p) @ le_bytes 2 (data_size (pq_psk_hint p)) @
    le_bytes 2 (data_size (pq_psk_context p)) @ le_bytes 2 (data_size (pq_opaque p)) @
    as_ref (pq_psk_hint p) @ as_ref (pq_psk_context p) @ as_ref (pq_opaque p)"

definition psk_req_valid :: "SpdmNegotiateInfo \<Rightarrow> SpdmPskExchangeRequestPayload \<Rightarrow> bool" where
  "psk_req_valid ni p \<longleftrightarrow> summary_type_ok ni (pq_measurement_summary_hash_type p) \<and>
    zero_padded MAX_SPDM_PSK_HINT_SIZE (pq_psk_hint p) \<and>
    zero_padded MAX_SPDM_PSK_CONTEXT_SIZE (pq_psk_context p) \<and> zero_padded MAX_SPDM_OPAQUE_SIZE (pq_opaque p)"

lemma zero_padded_size: "zero_padded cap s \<Longrightarrow> unat (data_size s) \<le> cap"
  by (simp add: zero_padded_def sized_ok_def)

interpretation c_psk_req: codec SpdmPskExchangeRequestPayload_spdm_encode
    "SpdmPskExchangeRequestPayload_spdm_read ni" psk_req_image "psk_req_valid ni" for ni
proof unfold_locales
  fix p pre post
  assume v: "psk_req_valid ni p"
  have "emits (SpdmPskExchangeRequestPayload_spdm_encode p) (concat
    ([[SpdmMeasurementSummaryHashType_get_u8 (pq_measurement_summary_hash_type p)], [0],
      le_bytes 2 (pq_req_session_id p), le_bytes 2 (data_size (pq_psk_hint p)),
      le_bytes 2 (data_size (pq_psk_context p)), le_bytes 2 (data_size (pq_opaque p))] @
     map (\<lambda>b. [b]) (as_ref (pq_psk_hint p)) @ map (\<lambda>b. [b]) (as_ref (pq_psk_context p)) @
     map (\<lambda>b. [b]) (as_ref (pq_opaque p))))"
    unfolding SpdmPskExchangeRequestPayload_spdm_encode_def
    by (intro emits_full_encs list_all2_appendI list_all2_map_emits)
      (simp_all add: emits_u8 emits_u16 enum_u8_encode_def)
  then show "emits (SpdmPskExchangeRequestPayload_spdm_encode p) (psk_req_image p)"
    by (simp add: psk_req_image_def)
  show "SpdmPskExchangeRequestPayload_spdm_read ni (rd_at pre (psk_req_image p @ post)) =
      Some (p, rd_at (pre @ psk_req_image p) post)"
    using v zero_padded_size [of _ "pq_psk_hint p"] zero_padded_size [of _ "pq_psk_context p"]
      zero_padded_size [of _ "pq_opaque p"] summary_of_get [of ni "pq_measurement_summary_hash_type p"]
    by (simp add: SpdmPskExchangeRequestPayload_spdm_read_def psk_req_image_def psk_req_valid_def
        read_sized_image)
qed

definition psk_rsp_image :: "SpdmNegotiateInfo \<Rightarrow> bool \<Rightarrow> SpdmPskExchangeResponsePayload \<Rightarrow> bytes" where
  "psk_rsp_image ni summary p = [pr_heartbeat_period p, 0] @ le_bytes 2 (pr_rsp_session_id p) @
    le_bytes 2 (0 :: u16) @
    le_bytes 2 (if psk_without_context ni then 0 else data_size (pr_psk_context p)) @
    le_bytes 2 (data_size (pr_opaque p)) @
    (if summary then as_ref (pr_measurement_summary_hash p) else []) @
    (if psk_without_context ni then [] else as_ref (pr_psk_context p)) @
    as_ref (pr_opaque p) @ as_ref (pr_verify_data p)"

definition psk_rsp_valid :: "SpdmNegotiateInfo \<Rightarrow> bool \<Rightarrow> SpdmPskExchangeResponsePayload \<Rightarrow> bool" where
  "psk_rsp_valid ni summary p \<longleftrightarrow>
    (psk_without_context ni \<longleftrightarrow> data_size (pr_psk_context p) = 0) \<and>
    zero_padded MAX_SPDM_PSK_CONTEXT_SIZE (pr_psk_context p) \<and> zero_padded MAX_SPDM_OPAQUE_SIZE (pr_opaque p) \<and>
    optional_ok ni summary (pr_measurement_summary_hash p) \<and> digest_ok ni (pr_verify_data p)"

lemma emits_psk_rsp:
  assumes "summary \<Longrightarrow> digest_ok ni (pr_measurement_summary_hash p)" "digest_ok ni (pr_verify_data p)"
  shows "emits (SpdmPskExchangeResponsePayload_spdm_encode ni summary p) (psk_rsp_image ni summary p)"
proof -
  have "emits (SpdmPskExchangeResponsePayload_spdm_encode ni summary p) (concat
    ([[pr_heartbeat_period p], [0], le_bytes 2 (pr_rsp_session_id p), le_bytes 2 (0 :: u16),
      le_bytes 2 (if psk_without_context ni then 0 else data_size (pr_psk_context p)),
      le_bytes 2 (data_size (pr_opaque p))] @
     (if summary then [as_ref (pr_measurement_summary_hash p)] else []) @
     (if psk_without_context ni then [] else [as_ref (pr_psk_context p)]) @
     [as_ref (pr_opaque p), as_ref (pr_verify_data p)]))"
    unfolding SpdmPskExchangeResponsePayload_spdm_encode_def
    using assms by (intro emits_encs list_all2_appendI)
      (auto simp: emits_BUFFER_FULL emits_u8 emits_u16 emits_full_bytes c_digest.encode_emits)
  then show ?thesis
    by (cases summary; cases "psk_without_context ni") (simp_all add: psk_rsp_image_def)
qed

interpretation c_psk_rsp: sized_codec "SpdmPskExchangeResponsePayload_spdm_encode ni summary"
    "SpdmPskExchangeResponsePayload_spdm_read ni summary" "psk_rsp_image ni summary"
    "psk_rsp_valid ni summary" for ni summary
proof unfold_locales
  fix p pre post
  assume v: "psk_rsp_valid ni summary p"
  then show "emits (SpdmPskExchangeResponsePayload_spdm_encode ni summary p) (psk_rsp_image ni summary p)"
    by (intro emits_psk_rsp) (simp_all add: psk_rsp_valid_def optional_ok_def)
  have img: "psk_rsp_image ni summary p = [pr_heartbeat_period p, 0] @ le_bytes 2 (pr_rsp_session_id p) @
    le_bytes 2 (0 :: u16) @ le_bytes 2 (data_size (pr_psk_context p)) @ le_bytes 2 (data_size (pr_opaque p)) @
    (if summary then as_ref (pr_measurement_summary_hash p) else []) @ as_ref (pr_psk_context p) @
    as_ref (pr_opaque p) @ as_ref (pr_verify_data p)"
    using v by (auto simp: psk_rsp_image_def psk_rsp_valid_def as_ref_def)
  have "\<not> data_size (pr_psk_context p) > of_nat MAX_SPDM_PSK_CONTEXT_SIZE"
    using v zero_padded_size [of 64 "pr_psk_context p"] by (simp add: psk_rsp_valid_def word_less_nat_alt)
  moreover have "\<not> (psk_without_context ni \<and> data_size (pr_psk_context p) \<noteq> 0 \<or>
      \<not> psk_without_context ni \<and> data_size (pr_psk_context p) = 0)"
    using v by (auto simp: psk_rsp_valid_def)
  ultimately show "SpdmPskExchangeResponsePayload_spdm_read ni summary
      (rd_at pre (psk_rsp_image ni summary p @ post)) = Ok (p, rd_at (pre @ psk_rsp_image ni summary p) post)"
    unfolding img using v zero_padded_size [of _ "pr_opaque p"]
    by (simp add: SpdmPskExchangeResponsePayload_spdm_read_def psk_rsp_valid_def rdp_defs read_sized_image
        optional_digest_image c_digest.read_image)
qed

interpretation c_psk_finish_req: sized_codec "SpdmPskFinishRequestPayload_spdm_encode ni"
    "SpdmPskFinishRequestPayload_spdm_read ni" "\<lambda>d. [0, 0] @ as_ref d" "digest_ok ni" for ni
proof unfold_locales
  fix d pre post
  assume v: "digest_ok ni d"
  have "emits (SpdmPskFinishRequestPayload_spdm_encode ni d) (concat [[0], [0], as_ref d])"
    unfolding SpdmPskFinishRequestPayload_spdm_encode_def
    using v by (intro emits_encs) (simp add: emits_BUFFER_FULL emits_u8 c_digest.encode_emits)
  then show "emits (SpdmPskFinishRequestPayload_spdm_encode ni d) ([0, 0] @ as_ref d)" by simp
  show "SpdmPskFinishRequestPayload_spdm_read ni (rd_at pre (([0, 0] @ as_ref d) @ post)) =
      Ok (d, rd_at (pre @ [0, 0] @ as_ref d) post)"
    using v by (simp add: SpdmPskFinishRequestPayload_spdm_read_def rdp_defs c_digest.read_image)
qed

interpretation c_psk_finish_rsp: codec "\<lambda>_. SpdmPskFinishResponsePayload_spdm_encode"
    SpdmPskFinishResponsePayload_spdm_read "\<lambda>_. [0, 0]" "\<lambda>_. True"
  by unfold_locales (simp_all add: SpdmPskFinishResponsePayload_spdm_encode_def two_zeros
      SpdmPskFinishResponsePayload_spdm_read_def)

subsection \<open>Measurements\<close>

lemma low_bits:
  fixes v :: u8
  assumes "v < 0x80"
  shows "v AND 0x80 = 0" "v AND 0x7F = v" "(v + 0x80) AND 0x80 \<noteq> 0" "(v + 0x80) AND 0x7F = v"
proof -
  have v: "unat v < 128" using assms by (simp add: word_less_nat_alt)
  have s: "unat (v + 0x80) = unat v + 128" using v by (simp add: unat_word_ariths)
  have m: "w AND 0x7F = take_bit 7 w" for w :: u8 by (simp add: take_bit_eq_mask mask_eq_exp_minus_1)
  show "v AND 0x7F = v" "(v + 0x80) AND 0x7F = v"
    using v s by (simp_all add: m word_unat_eq_iff take_bit_eq_mod unat_mod)
  have b: "w AND 0x80 = 0 \<longleftrightarrow> even (unat w div 128)" for w :: u8
  proof -
    have "w AND 0x80 = 0 \<longleftrightarrow> \<not> bit w 7" using and_exp_eq_0_iff_not_bit [of w 7] by simp
    also have "\<dots> \<longleftrightarrow> \<not> bit (unat w) 7" by (simp add: bit_unsigned_iff)
    finally show ?thesis by (simp add: bit_iff_odd)
  qed
  show "v AND 0x80 = 0" "(v + 0x80) AND 0x80 \<noteq> 0" using v s by (simp_all add: b div_add_self2)
qed

definition dmtf_image :: "SpdmDmtfMeasurementStructure \<Rightarrow> bytes" where
  "dmtf_image m = [SpdmDmtfMeasurementType_get_u8 (dm_type m) +
      SpdmDmtfMeasurementRepresentation_get_u8 (dm_representation m)] @
    le_bytes 2 (dm_value_size m) @ take (unat (dm_value_size m)) (dm_value m)"

definition dmtf_valid :: "SpdmNegotiateInfo \<Rightarrow> SpdmDmtfMeasurementStructure \<Rightarrow> bool" where
  "dmtf_valid ni m \<longleftrightarrow>
    dm_representation m \<in> {SpdmDmtfMeasurementDigest, SpdmDmtfMeasurementRawBit} \<and>
    SpdmDmtfMeasurementType_get_u8 (dm_type m) < 0x80 \<and>
    dmtf_type_of (SpdmDmtfMeasurementType_get_u8 (dm_type m)) (dm_representation m) = Some (dm_type m) \<and>
    zero_padded MAX_SPDM_MEASUREMENT_VALUE_LEN \<lparr>data_size = dm_value_size m, data = dm_value m\<rparr> \<and>
    (dm_representation m = SpdmDmtfMeasurementDigest \<longrightarrow>
      SpdmMeasurementHashAlgo_get_size (measurement_hash_sel ni) = Ok (dm_value_size m) \<and>
      measurement_hash_sel ni \<noteq> SpdmMeasurementHashAlgo_RAW_BIT_STREAM)"

lemma emits_dmtf: "emits (SpdmDmtfMeasurementStructure_spdm_encode m) (dmtf_image m)"
proof -
  have "emits (SpdmDmtfMeasurementStructure_spdm_encode m) (concat
    ([[SpdmDmtfMeasurementType_get_u8 (dm_type m) +
       SpdmDmtfMeasurementRepresentation_get_u8 (dm_representation m)], le_bytes 2 (dm_value_size m)] @
     map (\<lambda>b. [b]) (take (unat (dm_value_size m)) (dm_value m))))"
    unfolding SpdmDmtfMeasurementStructure_spdm_encode_def
    by (intro emits_full_encs list_all2_appendI list_all2_map_emits) (simp_all add: emits_u8 emits_u16)
  then show ?thesis by (simp add: dmtf_image_def)
qed

text \<open>The payload bytes of a fixed array: \<open>read_into\<close> on the image of a zero padded buffer.\<close>

lemma read_into_padded:
  assumes "zero_padded cap \<lparr>data_size = n, data = d\<rparr>"
  shows "read_into 0 cap u8_read (unat n) (rd_at pre (take (unat n) d @ post)) =
    Some (d, rd_at (pre @ take (unat n) d) post)"
  using read_sized_image [OF assms, of pre post]
  by (auto simp: read_sized_def as_ref_def split: Option.bind_splits)

interpretation c_dmtf: sized_codec SpdmDmtfMeasurementStructure_spdm_encode
    "SpdmDmtfMeasurementStructure_spdm_read ni" dmtf_image "dmtf_valid ni" for ni
proof unfold_locales
  fix m pre post
  assume v: "dmtf_valid ni m"
  let ?t = "SpdmDmtfMeasurementType_get_u8 (dm_type m)"
  let ?b = "?t + SpdmDmtfMeasurementRepresentation_get_u8 (dm_representation m)"
  have t: "?t < 0x80" using v by (simp add: dmtf_valid_def)
  have rep: "dm_representation m = SpdmDmtfMeasurementDigest \<and> ?b AND 0x80 = 0 \<or>
      dm_representation m = SpdmDmtfMeasurementRawBit \<and> ?b AND 0x80 \<noteq> 0" "?b AND 0x7F = ?t"
    using v low_bits [OF t] by (auto simp: dmtf_valid_def)
  have "\<not> unat (dm_value_size m) > MAX_SPDM_MEASUREMENT_VALUE_LEN"
    using v by (simp add: dmtf_valid_def zero_padded_def sized_ok_def)
  moreover have "zero_padded MAX_SPDM_MEASUREMENT_VALUE_LEN \<lparr>data_size = dm_value_size m, data = dm_value m\<rparr>"
    using v by (simp add: dmtf_valid_def)
  ultimately show "SpdmDmtfMeasurementStructure_spdm_read ni (rd_at pre (dmtf_image m @ post)) =
      Ok (m, rd_at (pre @ dmtf_image m) post)"
    using v rep by (elim disjE conjE) (simp_all add: SpdmDmtfMeasurementStructure_spdm_read_def dmtf_image_def
        rdp_defs Let_def read_into_padded dmtf_valid_def del: read_into_u8)
qed (rule emits_dmtf)

definition block_image :: "SpdmMeasurementBlockStructure \<Rightarrow> bytes" where
  "block_image b = [mb_index b, mb_measurement_specification b] @ le_bytes 2 (mb_measurement_size b) @
    dmtf_image (mb_measurement b)"

definition block_valid :: "SpdmNegotiateInfo \<Rightarrow> SpdmMeasurementBlockStructure \<Rightarrow> bool" where
  "block_valid ni b \<longleftrightarrow> mb_measurement_specification b = SpdmMeasurementSpecification_DMTF \<and>
    mb_measurement_size b = 3 + dm_value_size (mb_measurement b) \<and> dmtf_valid ni (mb_measurement b)"

lemma MAX_SPDM_MEASUREMENT_VALUE_LEN_eq: "MAX_SPDM_MEASUREMENT_VALUE_LEN = 1024"
  by (simp add: MAX_SPDM_MEASUREMENT_VALUE_LEN_def config_def)

interpretation c_block: sized_codec SpdmMeasurementBlockStructure_spdm_encode
    "SpdmMeasurementBlockStructure_spdm_read ni" block_image "block_valid ni" for ni
proof unfold_locales
  fix b pre post
  assume v: "block_valid ni b"
  have "emits (SpdmMeasurementBlockStructure_spdm_encode b) (concat [[mb_index b],
      [mb_measurement_specification b], le_bytes 2 (mb_measurement_size b), dmtf_image (mb_measurement b)])"
    unfolding SpdmMeasurementBlockStructure_spdm_encode_def
    by (intro emits_encs) (simp add: emits_BUFFER_FULL emits_u8 emits_u16 emits_map_err emits_dmtf
        SpdmMeasurementSpecification_encode_def)
  then show "emits (SpdmMeasurementBlockStructure_spdm_encode b) (block_image b)"
    by (simp add: block_image_def)
  have n: "unat (dm_value_size (mb_measurement b)) \<le> 1024"
    using v by (simp add: block_valid_def dmtf_valid_def zero_padded_def sized_ok_def
        MAX_SPDM_MEASUREMENT_VALUE_LEN_eq)
  then have "\<not> unat (mb_measurement_size b) > 3 + MAX_SPDM_MEASUREMENT_VALUE_LEN"
    using v by (simp add: block_valid_def unat_word_ariths MAX_SPDM_MEASUREMENT_VALUE_LEN_eq)
  moreover have "SpdmMeasurementSpecification_read (rd_at pre' (1 # post')) = Some (1, rd_at (pre' @ [1]) post')"
    for pre' post'
    using c_ms.read_image [of 1 pre' post'] by (simp add: SpdmMeasurementSpecification_VALID_MASK_def)
  ultimately show "SpdmMeasurementBlockStructure_spdm_read ni (rd_at pre (block_image b @ post)) =
      Ok (b, rd_at (pre @ block_image b) post)"
    using v by (simp add: SpdmMeasurementBlockStructure_spdm_read_def block_image_def rdp_defs block_valid_def
        c_dmtf.read_image)
qed

text \<open>Blocks with strictly increasing indices, the first one above \<open>cur\<close>.\<close>

fun increasing_blocks :: "u8 \<Rightarrow> SpdmMeasurementBlockStructure list \<Rightarrow> bool" where
  "increasing_blocks cur [] \<longleftrightarrow> True"
| "increasing_blocks cur (b # bs) \<longleftrightarrow> cur < mb_index b \<and> increasing_blocks (mb_index b) bs"

lemma verify_blocks_image:
  assumes "list_all (block_valid ni) bs" "increasing_blocks cur bs"
  shows "verify_blocks ni (length bs) cur (rd_at pre (concat (map block_image bs) @ post)) =
    Ok (rd_at (pre @ concat (map block_image bs)) post)"
  using assms
proof (induction bs arbitrary: cur pre)
  case (Cons b bs)
  then have "\<not> mb_index b \<le> cur" "block_valid ni b" by (simp_all add: not_le)
  with Cons show ?case by (simp add: c_block.read_image)
qed simp

definition array_padded :: "nat \<Rightarrow> nat \<Rightarrow> bytes \<Rightarrow> bool" where
  "array_padded cap n d \<longleftrightarrow> length d = cap \<and> n \<le> cap \<and> drop n d = replicate (cap - n) 0"

lemma read_into_array:
  assumes "array_padded cap n d"
  shows "read_into 0 cap u8_read n (rd_at pre (take n d @ post)) = Some (d, rd_at (pre @ take n d) post)"
proof -
  have "take n d @ replicate (cap - n) 0 = d"
    using assms append_take_drop_id [of n d] by (simp add: array_padded_def)
  then show ?thesis using assms by (simp add: array_padded_def min_def)
qed

definition record_image :: "SpdmMeasurementRecordStructure \<Rightarrow> bytes" where
  "record_image m = [number_of_blocks m] @ le_bytes 3 (u24_get (measurement_record_length m)) @
    take (unat (u24_get (measurement_record_length m))) (measurement_record_data m)"

definition record_fits :: "SpdmMeasurementRecordStructure \<Rightarrow> bool" where
  "record_fits m \<longleftrightarrow> array_padded MAX_SPDM_MEASUREMENT_RECORD_SIZE
    (unat (u24_get (measurement_record_length m))) (measurement_record_data m)"

lemma emits_record: "emits (SpdmMeasurementRecordStructure_spdm_encode m) (record_image m)"
proof -
  have "emits (SpdmMeasurementRecordStructure_spdm_encode m) (concat
    ([[number_of_blocks m], le_bytes 3 (u24_get (measurement_record_length m))] @
     map (\<lambda>b. [b]) (take (unat (u24_get (measurement_record_length m))) (measurement_record_data m))))"
    unfolding SpdmMeasurementRecordStructure_spdm_encode_def
    by (intro emits_full_encs list_all2_appendI list_all2_map_emits) (simp_all add: emits_u8 emits_u24)
  then show ?thesis by (simp add: record_image_def)
qed

interpretation c_record: sized_codec SpdmMeasurementRecordStructure_spdm_encode
    "SpdmMeasurementRecordStructure_spdm_read ni" record_image
    "\<lambda>m. record_fits m \<and> verify_measurement_record ni m = Ok True" for ni
proof unfold_locales
  fix m pre post
  assume v: "record_fits m \<and> verify_measurement_record ni m = Ok True"
  let ?n = "unat (u24_get (measurement_record_length m))"
  have n: "?n \<le> MAX_SPDM_MEASUREMENT_RECORD_SIZE" using v by (simp add: record_fits_def array_padded_def)
  then have "?n < 2 ^ 24" by (simp add: MAX_SPDM_MEASUREMENT_RECORD_SIZE_def config_def)
  then have "drop_bit 24 (u24_get (measurement_record_length m)) = 0"
    by (simp add: word_unat_eq_iff drop_bit_eq_div unat_div)
  with v n show "SpdmMeasurementRecordStructure_spdm_read ni (rd_at pre (record_image m @ post)) =
      Ok (m, rd_at (pre @ record_image m) post)"
    by (cases m) (simp add: SpdmMeasurementRecordStructure_spdm_read_def record_image_def rdp_defs
        record_fits_def read_into_array Let_def del: read_into_u8)
qed (rule emits_record)

definition getmeas_image :: "SpdmNegotiateInfo \<Rightarrow> SpdmGetMeasurementsRequestPayload \<Rightarrow> bytes" where
  "getmeas_image ni p = [gm_measurement_attributes p,
      SpdmMeasurementOperation_get_u8 (gm_measurement_operation p)] @
    (if contains (gm_measurement_attributes p) SIGNATURE_REQUESTED
     then gm_nonce p @ (if at_least SpdmVersion11 ni then [gm_slot_id p] else []) else [])"

definition getmeas_valid :: "SpdmNegotiateInfo \<Rightarrow> SpdmGetMeasurementsRequestPayload \<Rightarrow> bool" where
  "getmeas_valid ni p \<longleftrightarrow>
    gm_measurement_attributes p AND SpdmMeasurementAttributes_all = gm_measurement_attributes p \<and>
    SpdmMeasurementOperation_of_u8 (SpdmMeasurementOperation_get_u8 (gm_measurement_operation p)) =
      gm_measurement_operation p \<and>
    (if contains (gm_measurement_attributes p) SIGNATURE_REQUESTED
     then length (gm_nonce p) = SPDM_NONCE_SIZE \<and> (at_least SpdmVersion11 ni \<or> gm_slot_id p = 0)
     else gm_nonce p = replicate SPDM_NONCE_SIZE 0 \<and> gm_slot_id p = 0)"

interpretation c_getmeas: codec "SpdmGetMeasurementsRequestPayload_spdm_encode ni"
    "SpdmGetMeasurementsRequestPayload_spdm_read ni" "getmeas_image ni" "getmeas_valid ni" for ni
proof unfold_locales
  fix p pre post
  assume v: "getmeas_valid ni p"
  let ?s = "contains (gm_measurement_attributes p) SIGNATURE_REQUESTED" and ?v = "at_least SpdmVersion11 ni"
  have "emits (SpdmGetMeasurementsRequestPayload_spdm_encode ni p) (concat
    ([[gm_measurement_attributes p], [SpdmMeasurementOperation_get_u8 (gm_measurement_operation p)]] @
     (if ?s then gm_nonce p # (if ?v then [[gm_slot_id p]] else []) else [])))"
    unfolding SpdmGetMeasurementsRequestPayload_spdm_encode_def
    using v by (intro emits_full_encs list_all2_appendI)
      (auto simp: emits_u8 enum_u8_encode_def SpdmMeasurementAttributes_encode_def c_nonce.encode_emits
        getmeas_valid_def)
  then show "emits (SpdmGetMeasurementsRequestPayload_spdm_encode ni p) (getmeas_image ni p)"
    by (cases ?s; cases ?v) (simp_all add: getmeas_image_def)
  have "SpdmMeasurementAttributes_read (rd_at pre' (gm_measurement_attributes p # post')) =
      Some (gm_measurement_attributes p, rd_at (pre' @ [gm_measurement_attributes p]) post')" for pre' post'
    using v by (simp add: getmeas_valid_def SpdmMeasurementAttributes_read_def from_bits_self)
  with v show "SpdmGetMeasurementsRequestPayload_spdm_read ni (rd_at pre (getmeas_image ni p @ post)) =
      Some (p, rd_at (pre @ getmeas_image ni p) post)"
    by (cases ?s; cases ?v) (simp_all add: SpdmGetMeasurementsRequestPayload_spdm_read_def getmeas_image_def
        enum_u8_read_def getmeas_valid_def c_nonce.read_image)
qed

definition meas_param2 :: "SpdmNegotiateInfo \<Rightarrow> bool \<Rightarrow> SpdmMeasurementsResponsePayload \<Rightarrow> u8" where
  "meas_param2 ni with_sig p =
    (if at_least SpdmVersion12 ni \<and> with_sig then ms_slot_id p OR ms_content_changed p
     else if at_least SpdmVersion11 ni \<and> with_sig then ms_slot_id p
     else 0)"

definition meas_image :: "SpdmNegotiateInfo \<Rightarrow> bool \<Rightarrow> SpdmMeasurementsResponsePayload \<Rightarrow> bytes" where
  "meas_image ni with_sig p =
    [if ms_number_of_measurement p = 1 then 0 else ms_number_of_measurement p, meas_param2 ni with_sig p] @
    record_image (ms_measurement_record p) @ ms_nonce p @
    le_bytes 2 (data_size (ms_opaque p)) @ as_ref (ms_opaque p) @
    (if with_sig then as_ref (ms_signature p) else [])"

definition meas_valid :: "SpdmNegotiateInfo \<Rightarrow> bool \<Rightarrow> SpdmMeasurementsResponsePayload \<Rightarrow> bool" where
  "meas_valid ni with_sig p \<longleftrightarrow>
    ms_number_of_measurement p \<noteq> 1 \<and>
    meas_param2 ni with_sig p AND 0x0F = ms_slot_id p \<and> meas_param2 ni with_sig p AND 0x30 = ms_content_changed p \<and>
    record_fits (ms_measurement_record p) \<and> verify_measurement_record ni (ms_measurement_record p) = Ok True \<and>
    length (ms_nonce p) = SPDM_NONCE_SIZE \<and> zero_padded MAX_SPDM_OPAQUE_SIZE (ms_opaque p) \<and>
    (if with_sig then signature_ok ni (ms_signature p) else ms_signature p = SpdmSignatureStruct_default)"

lemma emits_meas:
  assumes "length (ms_nonce p) = SPDM_NONCE_SIZE" "zero_padded MAX_SPDM_OPAQUE_SIZE (ms_opaque p)"
    "with_sig \<Longrightarrow> signature_ok ni (ms_signature p)"
  shows "emits (SpdmMeasurementsResponsePayload_spdm_encode ni with_sig p) (meas_image ni with_sig p)"
proof -
  have "emits (SpdmMeasurementsResponsePayload_spdm_encode ni with_sig p) (concat
    ([[if ms_number_of_measurement p = 1 then 0 else ms_number_of_measurement p], [meas_param2 ni with_sig p],
      record_image (ms_measurement_record p), ms_nonce p,
      le_bytes 2 (data_size (ms_opaque p)) @ as_ref (ms_opaque p)] @
     (if with_sig then [as_ref (ms_signature p)] else [])))"
    unfolding SpdmMeasurementsResponsePayload_spdm_encode_def meas_param2_def
    using assms by (intro emits_encs list_all2_appendI)
      (auto simp: emits_BUFFER_FULL emits_u8 emits_record c_nonce.encode_emits c_opaque_data.encode_emits
        c_signature.encode_emits)
  then show ?thesis by (cases with_sig) (simp_all add: meas_image_def)
qed

lemma from_bits_mask: "from_bits all (x AND all) = Some (x AND all)"
  by (simp add: from_bits_def and.assoc)

interpretation c_meas: sized_codec "SpdmMeasurementsResponsePayload_spdm_encode ni with_sig"
    "SpdmMeasurementsResponsePayload_spdm_read ni with_sig" "meas_image ni with_sig"
    "meas_valid ni with_sig" for ni with_sig
proof unfold_locales
  fix p pre post
  assume v: "meas_valid ni with_sig p"
  then show "emits (SpdmMeasurementsResponsePayload_spdm_encode ni with_sig p) (meas_image ni with_sig p)"
    by (intro emits_meas) (simp_all add: meas_valid_def)
  have "from_bits SpdmMeasurementContentChanged_all (meas_param2 ni with_sig p AND 0x30) = Some (ms_content_changed p)"
    using v from_bits_mask [of SpdmMeasurementContentChanged_all "meas_param2 ni with_sig p"]
    by (simp add: meas_valid_def SpdmMeasurementContentChanged_all_def)
  with v show "SpdmMeasurementsResponsePayload_spdm_read ni with_sig
      (rd_at pre (meas_image ni with_sig p @ post)) = Ok (p, rd_at (pre @ meas_image ni with_sig p) post)"
    using c_opaque_data.read_image [of "ms_opaque p"] c_record.read_image [of "ms_measurement_record p" ni]
    by (cases with_sig) (simp_all add: SpdmMeasurementsResponsePayload_spdm_read_def meas_image_def rdp_defs
        meas_valid_def c_nonce.read_image c_signature.read_image)
qed

subsection \<open>Vendor defined messages\<close>

lemma RegistryOrStandardsBodyID_get_of [simp]:
  "RegistryOrStandardsBodyID_get_u16 (RegistryOrStandardsBodyID_of_u16 v) = v"
  by (simp add: RegistryOrStandardsBodyID_of_u16_def)

interpretation e_registry: enum_u16 RegistryOrStandardsBodyID_get_u16 RegistryOrStandardsBodyID_of_u16
  by unfold_locales simp

definition vendor_image :: "SpdmVendorDefinedPayload \<Rightarrow> bytes" where
  "vendor_image p = [0, 0] @ le_bytes 2 (RegistryOrStandardsBodyID_get_u16 (vd_standard_id p)) @
    [vi_len (vd_vendor_id p)] @ take (unat (vi_len (vd_vendor_id p))) (vi_vendor_id (vd_vendor_id p)) @
    le_bytes 2 (data_size (vd_payload p)) @ as_ref (vd_payload p)"

definition vendor_valid :: "SpdmVendorDefinedPayload \<Rightarrow> bool" where
  "vendor_valid p \<longleftrightarrow>
    RegistryOrStandardsBodyID_of_u16 (RegistryOrStandardsBodyID_get_u16 (vd_standard_id p)) = vd_standard_id p \<and>
    array_padded MAX_SPDM_VENDOR_DEFINED_VENDOR_ID_LEN (unat (vi_len (vd_vendor_id p)))
      (vi_vendor_id (vd_vendor_id p)) \<and>
    zero_padded MAX_SPDM_VENDOR_DEFINED_PAYLOAD_SIZE (vd_payload p)"

lemma emits_bytes_list: "emits (encs (e # map u8_encode bs)) (b @ bs)" if "emits e b"
proof -
  have "list_all2 emits (e # map u8_encode bs) (b # map (\<lambda>b. [b]) bs)"
    using that by (simp add: emits_u8 list_all2_map_emits)
  from emits_encs [OF this] show ?thesis by simp
qed

lemma emits_vendor_payload:
  "emits (SpdmVendorDefinedRequestPayload_spdm_encode p) (vendor_image p)"
  "emits (SpdmVendorDefinedResponsePayload_spdm_encode p) (vendor_image p)"
proof -
  let ?bss = "[[0], [0], le_bytes 2 (RegistryOrStandardsBodyID_get_u16 (vd_standard_id p)),
    [vi_len (vd_vendor_id p)] @ take (unat (vi_len (vd_vendor_id p))) (vi_vendor_id (vd_vendor_id p)),
    le_bytes 2 (data_size (vd_payload p)) @ as_ref (vd_payload p)]"
  note parts = emits_u8 emits_u16 enum_u16_encode_def VendorIDStruct_encode_def
    VendorDefinedReqPayloadStruct_encode_def VendorDefinedRspPayloadStruct_encode_def
    emits_bytes_list [OF emits_u8, simplified] emits_bytes_list [OF emits_u16]
  have "emits (SpdmVendorDefinedRequestPayload_spdm_encode p) (concat ?bss)"
    unfolding SpdmVendorDefinedRequestPayload_spdm_encode_def by (intro emits_full_encs) (simp add: parts)
  moreover have "emits (SpdmVendorDefinedResponsePayload_spdm_encode p) (concat ?bss)"
    unfolding SpdmVendorDefinedResponsePayload_spdm_encode_def by (intro emits_full_encs) (simp add: parts)
  ultimately show "emits (SpdmVendorDefinedRequestPayload_spdm_encode p) (vendor_image p)"
      "emits (SpdmVendorDefinedResponsePayload_spdm_encode p) (vendor_image p)"
    by (simp_all add: vendor_image_def)
qed

lemma vendor_reads:
  assumes "vendor_valid p"
  shows "SpdmVendorDefinedRequestPayload_spdm_read (rd_at pre (vendor_image p @ post)) =
      Some (p, rd_at (pre @ vendor_image p) post)"
    "SpdmVendorDefinedResponsePayload_spdm_read (rd_at pre (vendor_image p @ post)) =
      Some (p, rd_at (pre @ vendor_image p) post)"
  using assms by (simp_all add: SpdmVendorDefinedRequestPayload_spdm_read_def vendor_image_def
      SpdmVendorDefinedResponsePayload_spdm_read_def enum_u16_read_def VendorIDStruct_read_def
      VendorDefinedReqPayloadStruct_read_def VendorDefinedRspPayloadStruct_read_def vendor_valid_def
      read_into_array read_sized_image del: read_into_u8)

interpretation c_vendor_req: codec SpdmVendorDefinedRequestPayload_spdm_encode
    SpdmVendorDefinedRequestPayload_spdm_read vendor_image vendor_valid
  by unfold_locales (simp_all add: emits_vendor_payload vendor_reads)

interpretation c_vendor_rsp: codec SpdmVendorDefinedResponsePayload_spdm_encode
    SpdmVendorDefinedResponsePayload_spdm_read vendor_image vendor_valid
  by unfold_locales (simp_all add: emits_vendor_payload vendor_reads)

section \<open>Properties\<close>


definition sample_sizes_info :: SpdmNegotiateInfo where
  "sample_sizes_info = sample_negotiate_info\<lparr>
    base_hash_sel := SpdmBaseHashAlgo_TPM_ALG_SHA_384, base_asym_sel := SpdmBaseAsymAlgo_TPM_ALG_ECDSA_ECC_NIST_P384,
    dhe_sel := SpdmDheAlgo_SECP_384_R1, measurement_hash_sel := SpdmMeasurementHashAlgo_TPM_ALG_SHA_384\<rparr>"

definition sample_sized :: "nat \<Rightarrow> u16 \<Rightarrow> sized_data" where
  "sample_sized cap n = \<lparr>data_size = n, data = replicate cap 0\<rparr>"

lemma sample_sized_size: "data_size (sample_sized cap n) = n"
  by (simp add: sample_sized_def)

lemma sample_sized_padded: "unat n \<le> cap \<Longrightarrow> zero_padded cap (sample_sized cap n)"
  by (simp add: zero_padded_def sized_ok_def sample_sized_def)

lemma sample_sizes:
  "get_hash_size sample_sizes_info = Ok 48" "get_asym_key_size sample_sizes_info = Ok 96"
  "get_dhe_key_size sample_sizes_info = Ok 96"
  by (simp_all add: get_hash_size_def get_asym_key_size_def get_dhe_key_size_def sample_sizes_info_def
      SpdmBaseHashAlgo_get_size_def SpdmBaseAsymAlgo_get_size_def SpdmDheAlgo_get_size_def)

lemma sample_fits:
  "digest_ok sample_sizes_info (sample_sized 64 48)" "signature_ok sample_sizes_info (sample_sized 512 96)"
  "exchange_ok sample_sizes_info (sample_sized 96 96)"
  by (simp_all add: fits_size_def sample_sizes sample_sized_padded) (simp_all add: sample_sized_def)

definition sample_block :: SpdmMeasurementBlockStructure where
  "sample_block = \<lparr>mb_index = 1, mb_measurement_specification = 1, mb_measurement_size = 51,
    mb_measurement = \<lparr>dm_type = SpdmDmtfMeasurementFirmware, dm_representation = SpdmDmtfMeasurementDigest,
      dm_value_size = 48, dm_value = replicate 1024 0\<rparr>\<rparr>"

lemma sample_block_valid: "block_valid sample_sizes_info sample_block"
  using sample_sized_padded [of 48 1024]
  by (simp add: block_valid_def sample_block_def dmtf_valid_def dmtf_type_of_def sample_sized_def
      MAX_SPDM_MEASUREMENT_VALUE_LEN_eq sample_sizes_info_def SpdmMeasurementHashAlgo_get_size_def)

text \<open>
  C25: A measurement record is accepted when its data consists of whole DMTF blocks that fit the
  negotiated measurement hash, as many as announced and with strictly increasing indices; such a record
  is read back unchanged.
\<close>

theorem measurement_record_accepted:
  assumes "list_all (block_valid ni) bs" and "increasing_blocks 0 bs"
    and "length bs < 256" and "n = length (concat (map block_image bs))" and "n \<le> MAX_SPDM_MEASUREMENT_RECORD_SIZE"
    and "m = \<lparr>number_of_blocks = of_nat (length bs), measurement_record_length = u24 (of_nat n),
      measurement_record_data = concat (map block_image bs) @ replicate (MAX_SPDM_MEASUREMENT_RECORD_SIZE - n) 0\<rparr>"
  shows "verify_measurement_record ni m = Ok True \<and>
    transmits_sized (SpdmMeasurementRecordStructure_spdm_encode m)
      (SpdmMeasurementRecordStructure_spdm_read ni) m (record_image m)"
proof -
  have n: "unat (of_nat n :: u32) = n"
    using assms(5) by (simp add: MAX_SPDM_MEASUREMENT_RECORD_SIZE_def config_def unat_of_nat)
  have b: "unat (of_nat (length bs) :: u8) = length bs" using assms(3) by (simp add: unat_of_nat)
  have "verify_measurement_record ni m = Ok True"
    using verify_blocks_image [OF assms(1,2), of "[]" "[]"]
    by (simp add: verify_measurement_record_def assms(6) n b reader_init_rd_at assms(4) [symmetric])
  moreover have "record_fits m"
    using assms(5) by (simp add: record_fits_def array_padded_def assms(6) n assms(4) [symmetric])
  ultimately show ?thesis using c_record.sized_transmission by simp
qed

theorem measurement_record_accepted_witness:
  "verify_measurement_record sample_sizes_info \<lparr>number_of_blocks = 1, measurement_record_length = u24 55,
    measurement_record_data = block_image sample_block @ replicate 3945 0\<rparr> = Ok True"
proof -
  have n: "length (block_image sample_block) = 55"
    by (simp add: block_image_def dmtf_image_def sample_block_def)
  have "increasing_blocks 0 [sample_block]" by (simp add: sample_block_def)
  then show ?thesis
    using measurement_record_accepted [of sample_sizes_info "[sample_block]" 55, OF _ _ _ _ _ refl]
      sample_block_valid n by (simp add: MAX_SPDM_MEASUREMENT_RECORD_SIZE_def config_def)
qed


text \<open>
  C24: The messages that set up a session (KEY_EXCHANGE, FINISH, PSK_EXCHANGE, PSK_FINISH with their
  responses) and the vendor defined messages survive encoding and decoding, with the optional fields
  (summary hash, verify data, PSK context, signature) that the negotiated capabilities call for.
\<close>

theorem session_messages_round_trip:
  assumes "kex_req_valid ni k" "kex_rsp_valid ni summary l" "finish_req_valid ni f"
    "optional_ok ni (in_clear_text ni) d" "psk_req_valid ni p" "psk_rsp_valid ni summary q" "digest_ok ni e"
    "vendor_valid v"
  shows "transmits_sized (SpdmKeyExchangeRequestPayload_spdm_encode ni k)
      (SpdmKeyExchangeRequestPayload_spdm_read ni) k (kex_req_image ni k) \<and>
    transmits_sized (SpdmKeyExchangeResponsePayload_spdm_encode ni summary l)
      (SpdmKeyExchangeResponsePayload_spdm_read ni summary) l (kex_rsp_image ni summary l) \<and>
    transmits_sized (SpdmFinishRequestPayload_spdm_encode ni f)
      (SpdmFinishRequestPayload_spdm_read ni) f (finish_req_image f) \<and>
    transmits_sized (SpdmFinishResponsePayload_spdm_encode ni d)
      (SpdmFinishResponsePayload_spdm_read ni) d ([0, 0] @ (if in_clear_text ni then as_ref d else [])) \<and>
    transmits (SpdmPskExchangeRequestPayload_spdm_encode p)
      (SpdmPskExchangeRequestPayload_spdm_read ni) p (psk_req_image p) \<and>
    transmits_sized (SpdmPskExchangeResponsePayload_spdm_encode ni summary q)
      (SpdmPskExchangeResponsePayload_spdm_read ni summary) q (psk_rsp_image ni summary q) \<and>
    transmits_sized (SpdmPskFinishRequestPayload_spdm_encode ni e)
      (SpdmPskFinishRequestPayload_spdm_read ni) e ([0, 0] @ as_ref e) \<and>
    transmits SpdmPskFinishResponsePayload_spdm_encode SpdmPskFinishResponsePayload_spdm_read () [0, 0] \<and>
    transmits (SpdmVendorDefinedRequestPayload_spdm_encode v)
      SpdmVendorDefinedRequestPayload_spdm_read v (vendor_image v) \<and>
    transmits (SpdmVendorDefinedResponsePayload_spdm_encode v)
      SpdmVendorDefinedResponsePayload_spdm_read v (vendor_image v)"
  using assms c_psk_finish_rsp.transmission [of "()"]
    c_finish_rsp.sized_transmission [of ni d] c_psk_finish_req.sized_transmission [of ni e]
  by (simp add: c_kex_req.sized_transmission c_kex_rsp.sized_transmission c_finish_req.sized_transmission
      c_psk_req.transmission c_psk_rsp.sized_transmission
      c_vendor_req.transmission c_vendor_rsp.transmission)

theorem session_messages_round_trip_witness:
  "transmits_sized (SpdmFinishRequestPayload_spdm_encode sample_sizes_info
      \<lparr>fq_finish_request_attributes = 0, fq_req_slot_id = 0xFF, fq_signature = SpdmSignatureStruct_default,
        fq_verify_data = sample_sized 64 48\<rparr>)
    (SpdmFinishRequestPayload_spdm_read sample_sizes_info)
      \<lparr>fq_finish_request_attributes = 0, fq_req_slot_id = 0xFF, fq_signature = SpdmSignatureStruct_default,
        fq_verify_data = sample_sized 64 48\<rparr>
    ([0, 0xFF] @ replicate 48 0)"
proof -
  let ?ni = sample_sizes_info
  let ?f = "\<lparr>fq_finish_request_attributes = 0, fq_req_slot_id = 0xFF,
    fq_signature = SpdmSignatureStruct_default, fq_verify_data = sample_sized 64 48\<rparr>"
  have clear: "\<not> in_clear_text ?ni"
    by (simp add: in_clear_text_def sample_sizes_info_def sample_negotiate_info_def contains_def)
  have with_context: "\<not> psk_without_context ?ni"
    by (simp add: psk_without_context_def sample_sizes_info_def sample_negotiate_info_def contains_def)
  have "kex_req_valid ?ni \<lparr>kq_measurement_summary_hash_type = SpdmMeasurementSummaryHashTypeNone, kq_slot_id = 0,
      kq_req_session_id = 0xFFFE, kq_session_policy = 0, kq_random = replicate 32 0,
      kq_exchange = sample_sized 96 96, kq_opaque = sample_sized 1024 0\<rparr>"
    by (simp add: kex_req_valid_def summary_type_ok_def sample_fits sample_sized_padded)
  moreover have "kex_rsp_valid ?ni False \<lparr>kr_heartbeat_period = 0, kr_rsp_session_id = 0xFFFE,
      kr_mut_auth_req = 0, kr_req_slot_id = 0, kr_random = replicate 32 0, kr_exchange = sample_sized 96 96,
      kr_measurement_summary_hash = SpdmDigestStruct_default, kr_opaque = sample_sized 1024 0,
      kr_signature = sample_sized 512 96, kr_verify_data = sample_sized 64 48\<rparr>"
    by (simp add: kex_rsp_valid_def sample_fits sample_sized_padded optional_ok_def clear)
  moreover have "finish_req_valid ?ni ?f"
    by (simp add: finish_req_valid_def contains_def SIGNATURE_INCLUDED_def sample_fits)
  moreover have "optional_ok ?ni (in_clear_text ?ni) SpdmDigestStruct_default"
    by (simp add: optional_ok_def clear)
  moreover have "psk_req_valid ?ni \<lparr>pq_measurement_summary_hash_type = SpdmMeasurementSummaryHashTypeNone,
      pq_req_session_id = 0, pq_psk_hint = sample_sized 32 0, pq_psk_context = sample_sized 64 32,
      pq_opaque = sample_sized 1024 0\<rparr>"
    by (simp add: psk_req_valid_def summary_type_ok_def sample_sized_padded)
  moreover have "psk_rsp_valid ?ni False \<lparr>pr_heartbeat_period = 0, pr_rsp_session_id = 0,
      pr_measurement_summary_hash = SpdmDigestStruct_default, pr_psk_context = sample_sized 64 32,
      pr_opaque = sample_sized 1024 0, pr_verify_data = sample_sized 64 48\<rparr>"
    using with_context
    by (simp add: psk_rsp_valid_def sample_fits sample_sized_padded optional_ok_def sample_sized_size)
  moreover have "vendor_valid \<lparr>vd_standard_id = DMTF, vd_vendor_id = \<lparr>vi_len = 0, vi_vendor_id = replicate 255 0\<rparr>,
      vd_payload = sample_sized 4087 0\<rparr>"
    by (simp add: vendor_valid_def RegistryOrStandardsBodyID_of_u16_def array_padded_def sample_sized_padded
        MAX_SPDM_VENDOR_DEFINED_VENDOR_ID_LEN_def MAX_SPDM_VENDOR_DEFINED_PAYLOAD_SIZE_def
        MAX_SPDM_MSG_SIZE_def config_def)
  ultimately have "transmits_sized (SpdmFinishRequestPayload_spdm_encode ?ni ?f)
      (SpdmFinishRequestPayload_spdm_read ?ni) ?f (finish_req_image ?f)"
    using session_messages_round_trip [of ?ni _ False _ ?f _ _ _ "sample_sized 64 48"] sample_fits(1) by blast
  then show ?thesis
    by (simp add: finish_req_image_def contains_def SIGNATURE_INCLUDED_def sample_sized_def as_ref_def)
qed

end
