(* ===== verification/Responder_Actions.thy ===== *)
theory Responder_Actions
  imports Responder Auth_Messages
begin

text \<open>
  The frame that the responder's authentication and session handlers share.

  \<^item> An \<open>act\<close> is a piece of a \<open>write_*_response\<close> function: it works on the writer and the common
    context and ends normally, returns early from the handler (\<open>Err\<close>), or panics. Both early exits
    and panics keep the writer and the context as they were left. In the handlers that return nothing
    the early exit carries no value; in those that return a result it carries the status.
  \<^item> \<open>refuse\<close> is the recurring step that writes an ERROR message and returns.
  \<^item> \<open>env\<close> holds the callbacks that a handler calls besides the hash and key functions: randomness,
    Diffie-Hellman, signing, measurements and the vendor's handler. Their results may differ from one
    message to the next, so each call of a handler has its own \<open>env\<close>.
  \<^item> The lemmas reason about acts with triples: \<open>valid_act\<close> has a precondition and a postcondition for the
    normal and for the early exit, \<open>safe\<close> instantiates it with what every handler keeps (the invariant of the
    context, a writer that holds a message of the expected kind, no new established session), and \<open>harmless\<close>
    names the changes of the context a handler may make.
\<close>

section \<open>Definitions\<close>

subsection \<open>Acts\<close>

type_synonym ('a, 'e, 'h) act =
  "writer \<Rightarrow> 'h SpdmContext \<Rightarrow> ('a, 'e) result \<times> writer \<times> 'h SpdmContext"

definition ret :: "'a \<Rightarrow> ('a, 'e, 'h) act" where
  "ret x w c = (Ok x, w, c)"

definition panics :: "('a, 'e, 'h) act" where
  "panics w c = (Panic, w, c)"

definition seq :: "('a, 'e, 'h) act \<Rightarrow> ('a \<Rightarrow> ('b, 'e, 'h) act) \<Rightarrow> ('b, 'e, 'h) act" where
  "seq m k w c =
    (case m w c of
      (Ok x, w, c) \<Rightarrow> k x w c
    | (Err e, w, c) \<Rightarrow> (Err e, w, c)
    | (Panic, w, c) \<Rightarrow> (Panic, w, c))"

definition ask :: "('h SpdmContext \<Rightarrow> ('a, 'e, 'h) act) \<Rightarrow> ('a, 'e, 'h) act" where
  "ask k w c = k c w c"

definition change :: "('h SpdmContext \<Rightarrow> 'h SpdmContext) \<Rightarrow> (unit, 'e, 'h) act" where
  "change g w c = (Ok (), w, g c)"

fun each :: "('b \<Rightarrow> (unit, 'e, 'h) act) \<Rightarrow> 'b list \<Rightarrow> (unit, 'e, 'h) act" where
  "each f [] = ret ()"
| "each f (x # xs) = seq (f x) (\<lambda>_. each f xs)"

text \<open>A result that the code unwraps, and one that it returns with \<open>?\<close>.\<close>

definition expect :: "('a, 'f) result \<Rightarrow> ('a, 'e, 'h) act" where
  "expect r w c = (case r of Ok x \<Rightarrow> (Ok x, w, c) | _ \<Rightarrow> (Panic, w, c))"

definition propagate ::
    "('h SpdmContext \<Rightarrow> 'a SpdmResult \<times> 'h SpdmContext) \<Rightarrow> ('a, SpdmStatus, 'h) act" where
  "propagate f w c = (case f c of (r, c) \<Rightarrow> (r, w, c))"

text \<open>\<open>self.write_spdm_error(code, 0, writer); return e;\<close>\<close>

definition refuse :: "SpdmErrorCode \<Rightarrow> 'e \<Rightarrow> ('a, 'e, 'h) act" where
  "refuse code e w c = (Err e, write_spdm_error code 0 w c, c)"

definition or_refuse :: "SpdmErrorCode \<Rightarrow> 'e \<Rightarrow> ('a, 'f) result \<Rightarrow> ('a, 'e, 'h) act" where
  "or_refuse code e r = (case r of Ok x \<Rightarrow> ret x | Err _ \<Rightarrow> refuse code e | Panic \<Rightarrow> panics)"

definition attempt ::
    "SpdmErrorCode \<Rightarrow> 'e \<Rightarrow> ('h SpdmContext \<Rightarrow> 'a SpdmResult \<times> 'h SpdmContext) \<Rightarrow> ('a, 'e, 'h) act" where
  "attempt code e f w c = (case f c of (r, c) \<Rightarrow> or_refuse code e r w c)"

text \<open>A call whose failure is handled by other steps.\<close>

definition recover ::
    "('h SpdmContext \<Rightarrow> 'a SpdmResult \<times> 'h SpdmContext) \<Rightarrow> ('a, 'e, 'h) act \<Rightarrow> ('a, 'e, 'h) act" where
  "recover f handler w c =
    (case f c of
      (Ok x, c) \<Rightarrow> (Ok x, w, c)
    | (Err _, c) \<Rightarrow> handler w c
    | (Panic, c) \<Rightarrow> (Panic, w, c))"

text \<open>The response is encoded; when that fails, an ERROR message follows what was written.\<close>

definition respond ::
    "'e \<Rightarrow> SpdmRequestResponseCode \<Rightarrow> ('h SpdmContext \<Rightarrow> SpdmStatus enc) \<Rightarrow> (unit, 'e, 'h) act" where
  "respond e code payload w c =
    (case SpdmMessage_spdm_encode (spdm_version_sel (negotiate_info c)) code (payload c) w of
      (Ok _, w) \<Rightarrow> (Ok (), w, c)
    | (Err _, w) \<Rightarrow> refuse SpdmErrorUnspecified e w c
    | (Panic, w) \<Rightarrow> (Panic, w, c))"

text \<open>
  Access to the writer: \<open>writer.used_slice()[..used - n]\<close> and
  \<open>writer.mut_used_slice()[used - n..used - n + bs.len()].copy_from_slice(bs)\<close>. Where \<open>n\<close> exceeds what
  was written the subtraction wraps and the slice is out of range.
\<close>

definition written_but :: "nat \<Rightarrow> (bytes, 'e, 'h) act" where
  "written_but n w c =
    (if n \<le> writer_used w then (Ok (take (writer_used w - n) (writer_used_slice w)), w, c) else (Panic, w, c))"

definition patch :: "nat \<Rightarrow> nat \<Rightarrow> bytes \<Rightarrow> (unit, 'e, 'h) act" where
  "patch n m bs w c =
    (if n \<le> writer_used w \<and> m \<le> n \<and> length bs = n - m
     then (Ok (), w\<lparr>w_buf := write_at (w_buf w) (writer_used w - n) bs\<rparr>, c)
     else (Panic, w, c))"

subsection \<open>The start of every handler\<close>

definition require_negotiated :: "'e \<Rightarrow> (unit, 'e, 'h) act" where
  "require_negotiated e = ask (\<lambda>c.
    if SpdmConnectionState_get_u8 (connection_state (runtime_info c))
      < SpdmConnectionState_get_u8 SpdmConnectionNegotiated
    then refuse SpdmErrorUnexpectedRequest e else ret ())"

definition read_header :: "'e \<Rightarrow> bytes \<Rightarrow> (SpdmMessageHeader \<times> reader, 'e, 'h) act" where
  "read_header e bs = ask (\<lambda>c.
    case SpdmMessageHeader_read (reader_init bs) of
      None \<Rightarrow> refuse SpdmErrorInvalidRequest e
    | Some (h, r) \<Rightarrow>
        if version h \<noteq> spdm_version_sel (negotiate_info c) then refuse SpdmErrorVersionMismatch e
        else ret (h, r))"

definition parse :: "'e \<Rightarrow> (SpdmNegotiateInfo \<Rightarrow> 'a rdp) \<Rightarrow> reader \<Rightarrow> ('a \<times> reader, 'e, 'h) act" where
  "parse e rd r = ask (\<lambda>c. or_refuse SpdmErrorInvalidRequest e (rd (negotiate_info c) r))"

definition has_my_chain :: "nat \<Rightarrow> 'h SpdmContext \<Rightarrow> bool" where
  "has_my_chain i c \<longleftrightarrow>
    i < length (my_cert_chain (provision_info c)) \<and> my_cert_chain (provision_info c) ! i \<noteq> None"

definition require_slot :: "'e \<Rightarrow> nat \<Rightarrow> (unit, 'e, 'h) act" where
  "require_slot e i = ask (\<lambda>c.
    if i \<ge> SPDM_MAX_SLOT_NUMBER then refuse SpdmErrorInvalidRequest e
    else if \<not> has_my_chain i c then refuse SpdmErrorInvalidRequest e else ret ())"

definition my_chain :: "nat \<Rightarrow> 'h SpdmContext \<Rightarrow> SpdmCertChainBuffer SpdmResult" where
  "my_chain i c = rbind (index_panic (my_cert_chain (provision_info c)) i) unwrap"

subsection \<open>Callbacks\<close>

record env =
  get_random :: "nat \<Rightarrow> bytes SpdmResult"
  generate_key_pair :: "SpdmDheAlgo \<Rightarrow>
    (SpdmDheExchangeStruct \<times> (SpdmDheExchangeStruct \<Rightarrow> SpdmDheFinalKeyStruct option)) option"
  asym_sign :: "SpdmBaseHashAlgo \<Rightarrow> SpdmBaseAsymAlgo \<Rightarrow> bytes \<Rightarrow> SpdmSignatureStruct option"
  measurement_collection :: "SpdmVersion \<Rightarrow> SpdmMeasurementSpecification \<Rightarrow> SpdmMeasurementHashAlgo \<Rightarrow>
    nat \<Rightarrow> SpdmMeasurementRecordStructure option"
  generate_measurement_summary_hash :: "SpdmVersion \<Rightarrow> SpdmBaseHashAlgo \<Rightarrow> SpdmMeasurementSpecification \<Rightarrow>
    SpdmMeasurementHashAlgo \<Rightarrow> SpdmMeasurementSummaryHashType \<Rightarrow> SpdmDigestStruct option"
  vendor_defined_request_handler :: "VendorDefinedReqPayloadStruct \<Rightarrow> VendorDefinedRspPayloadStruct SpdmResult"

text \<open>
  The measurement summary hash that challenge, key exchange and PSK exchange may carry: the request
  decides whether it is needed, and the callback must not return an empty one.
\<close>

definition needs_summary :: "SpdmMeasurementSummaryHashType \<Rightarrow> bool" where
  "needs_summary t \<longleftrightarrow> t = SpdmMeasurementSummaryHashTypeTcb \<or> t = SpdmMeasurementSummaryHashTypeAll"

definition take_summary_hash ::
    "env \<Rightarrow> 'e \<Rightarrow> SpdmMeasurementSummaryHashType \<Rightarrow> (SpdmDigestStruct, 'e, 'h) act" where
  "take_summary_hash en e t =
    (if needs_summary t
     then seq (change (upd_rt (need_measurement_summary_hash_update (\<lambda>_. True)))) (\<lambda>_.
       ask (\<lambda>c. let ni = negotiate_info c in
         case generate_measurement_summary_hash en (spdm_version_sel ni) (base_hash_sel ni)
             (measurement_specification_sel ni) (measurement_hash_sel ni) t of
           None \<Rightarrow> refuse SpdmErrorUnspecified e
         | Some h \<Rightarrow> if data_size h = 0 then refuse SpdmErrorUnspecified e else ret h))
     else seq (change (upd_rt (need_measurement_summary_hash_update (\<lambda>_. False)))) (\<lambda>_.
       ret SpdmDigestStruct_default))"

text \<open>
  Signing under SPDM 1.2: the prefix, the padding, the context string and the transcript hash. With the
  default feature \<open>hashed-transcript-data\<close> older versions cannot sign.
\<close>

fun sign_append :: "bytes list \<Rightarrow> managed_buffer \<Rightarrow> managed_buffer SpdmResult" where
  "sign_append [] m = Ok m"
| "sign_append (bs # bss) m =
    (case append_message bs m of
      (None, _) \<Rightarrow> Err SPDM_STATUS_BUFFER_FULL
    | (Some _, m) \<Rightarrow> sign_append bss m)"

definition message_to_sign ::
    "SpdmNegotiateInfo \<Rightarrow> bytes \<Rightarrow> bytes \<Rightarrow> SpdmDigestStruct \<Rightarrow> bytes SpdmResult" where
  "message_to_sign ni zeropad sign_context h =
    (if at_least SpdmVersion12 ni
     then rbind (sign_append
         [SPDM_VERSION_1_2_SIGNING_PREFIX_CONTEXT, zeropad, sign_context, as_ref h]
         (reset_message ManagedBuffer12Sign_default)) (\<lambda>m. Ok (mb_as_ref m))
     else Err SPDM_STATUS_INVALID_STATE_LOCAL)"

definition sign_hash ::
    "env \<Rightarrow> SpdmNegotiateInfo \<Rightarrow> bytes \<Rightarrow> bytes \<Rightarrow> SpdmDigestStruct \<Rightarrow> SpdmSignatureStruct SpdmResult" where
  "sign_hash en ni zeropad sign_context h =
    rbind (message_to_sign ni zeropad sign_context h) (\<lambda>m.
    ok_or SPDM_STATUS_CRYPTO_ERROR (asym_sign en (base_hash_sel ni) (base_asym_sel ni) m))"

subsection \<open>Running a handler\<close>

text \<open>
  A handler that returns nothing sends whatever was written. One that returns a result sends only after
  success: an early exit, and with it the ERROR message in the writer, is dropped.
\<close>

definition handle_act ::
    "'h platform \<Rightarrow> u32 option \<Rightarrow> (unit, unit, 'h) act \<Rightarrow> 'h ResponderContext \<Rightarrow>
      (unit SpdmResult \<times> 'h ResponderContext) option" where
  "handle_act p sid m rc =
    (case m send_writer (common rc) of
      (Panic, w, c) \<Rightarrow> Some (Panic, rc\<lparr>common := c\<rparr>)
    | (_, w, c) \<Rightarrow>
        (case sid of
          None \<Rightarrow> send_message p (writer_used_slice w) (rc\<lparr>common := c\<rparr>)
        | Some sid \<Rightarrow> send_secured_message p sid (writer_used_slice w) False (rc\<lparr>common := c\<rparr>)))"

definition handle_result ::
    "'h platform \<Rightarrow> u32 option \<Rightarrow> (unit, SpdmStatus, 'h) act \<Rightarrow> 'h ResponderContext \<Rightarrow>
      (unit SpdmResult \<times> 'h ResponderContext) option" where
  "handle_result p sid m rc =
    (case m send_writer (common rc) of
      (Panic, w, c) \<Rightarrow> Some (Panic, rc\<lparr>common := c\<rparr>)
    | (Err e, w, c) \<Rightarrow> Some (Err e, rc\<lparr>common := c\<rparr>)
    | (Ok _, w, c) \<Rightarrow>
        (case sid of
          None \<Rightarrow> send_message p (writer_used_slice w) (rc\<lparr>common := c\<rparr>)
        | Some sid \<Rightarrow> send_secured_message p sid (writer_used_slice w) False (rc\<lparr>common := c\<rparr>)))"

section \<open>Reasoning about acts\<close>

text \<open>
  \<open>valid_act P m Q E\<close>: from a writer and a context that satisfy \<open>P\<close>, a normal end of \<open>m\<close> satisfies \<open>Q\<close> and
  an early exit \<open>E\<close>. The rules follow the structure of an act; the collection \<open>act_rules\<close> applies them.
\<close>

named_theorems act_rules \<open>rules of the logic of acts\<close>

definition valid_act ::
    "(writer \<Rightarrow> 'h SpdmContext \<Rightarrow> bool) \<Rightarrow> ('a, 'e, 'h) act \<Rightarrow> ('a \<Rightarrow> writer \<Rightarrow> 'h SpdmContext \<Rightarrow> bool) \<Rightarrow>
      ('e \<Rightarrow> writer \<Rightarrow> 'h SpdmContext \<Rightarrow> bool) \<Rightarrow> bool" where
  "valid_act P m Q E \<longleftrightarrow> (\<forall>w c. P w c \<longrightarrow>
    (case m w c of
      (Ok x, w', c') \<Rightarrow> Q x w' c'
    | (Err e, w', c') \<Rightarrow> E e w' c'
    | (Panic, w', c') \<Rightarrow> True))"

lemma valid_actD:
  assumes "valid_act P m Q E" "P w c"
  shows "m w c = (Ok x, w', c') \<Longrightarrow> Q x w' c'" "m w c = (Err e, w', c') \<Longrightarrow> E e w' c'"
  using assms by (fastforce simp: valid_act_def)+

lemma valid_weaken:
  assumes "valid_act P m Q E" "\<And>w c. P' w c \<Longrightarrow> P w c" "\<And>x w c. Q x w c \<Longrightarrow> Q' x w c"
    "\<And>e w c. E e w c \<Longrightarrow> E' e w c"
  shows "valid_act P' m Q' E'"
  using assms by (fastforce simp: valid_act_def split: prod.splits result.splits)

lemma valid_conj:
  assumes "valid_act P m Q E" "valid_act P' m Q' E'"
  shows "valid_act (\<lambda>w c. P w c \<and> P' w c) m (\<lambda>x w c. Q x w c \<and> Q' x w c) (\<lambda>e w c. E e w c \<and> E' e w c)"
  using assms by (fastforce simp: valid_act_def split: prod.splits result.splits)

lemma valid_seq [act_rules]:
  assumes "valid_act P m R E" "\<And>x. valid_act (R x) (k x) Q E"
  shows "valid_act P (seq m k) Q E"
  unfolding valid_act_def
proof (intro allI impI)
  fix w c
  assume "P w c"
  then show "case seq m k w c of (Ok x, w', c') \<Rightarrow> Q x w' c' | (Err e, w', c') \<Rightarrow> E e w' c'
      | (Panic, w', c') \<Rightarrow> True"
  proof (cases "m w c")
    case (fields r w1 c1)
    show ?thesis
    proof (cases r)
      case (Ok x)
      with fields assms(1) \<open>P w c\<close> have "R x w1 c1" by (simp add: valid_actD(1))
      with assms(2) [of x] show ?thesis by (simp add: seq_def fields Ok valid_act_def)
    qed (use fields assms(1) \<open>P w c\<close> in \<open>simp_all add: seq_def valid_actD(2)\<close>)
  qed
qed

lemma valid_ret [act_rules]: "(\<And>w c. P w c \<Longrightarrow> Q x w c) \<Longrightarrow> valid_act P (ret x) Q E"
  by (simp add: valid_act_def ret_def)

lemma valid_panics [act_rules]: "valid_act P panics Q E"
  by (simp add: valid_act_def panics_def)

lemma valid_refuse [act_rules]:
  "(\<And>w c. P w c \<Longrightarrow> E e (write_spdm_error code 0 w c) c) \<Longrightarrow> valid_act P (refuse code e) Q E"
  by (simp add: valid_act_def refuse_def)

lemma valid_ask [act_rules]:
  "(\<And>c. valid_act (\<lambda>w c'. P w c' \<and> c' = c) (k c) Q E) \<Longrightarrow> valid_act P (ask k) Q E"
  by (simp add: valid_act_def ask_def)

lemma valid_change [act_rules]: "(\<And>w c. P w c \<Longrightarrow> Q () w (g c)) \<Longrightarrow> valid_act P (change g) Q E"
  by (simp add: valid_act_def change_def)

lemma valid_expect [act_rules]:
  "(\<And>x w c. r = Ok x \<Longrightarrow> P w c \<Longrightarrow> Q x w c) \<Longrightarrow> valid_act P (expect r) Q E"
  by (auto simp: valid_act_def expect_def split: result.splits)

lemma valid_or_refuse [act_rules]:
  assumes "\<And>x w c. r = Ok x \<Longrightarrow> P w c \<Longrightarrow> Q x w c"
    "\<And>w c. P w c \<Longrightarrow> E e (write_spdm_error code 0 w c) c"
  shows "valid_act P (or_refuse code e r) Q E"
  using assms by (auto simp: valid_act_def or_refuse_def ret_def refuse_def panics_def split: result.splits)

lemma valid_attempt [act_rules]:
  assumes "\<And>x w c c'. f c = (Ok x, c') \<Longrightarrow> P w c \<Longrightarrow> Q x w c'"
    "\<And>s w c c'. f c = (Err s, c') \<Longrightarrow> P w c \<Longrightarrow> E e (write_spdm_error code 0 w c') c'"
  shows "valid_act P (attempt code e f) Q E"
  using assms by (fastforce simp: valid_act_def attempt_def or_refuse_def ret_def refuse_def panics_def
      split: prod.splits result.splits)

lemma valid_recover:
  assumes "\<And>x w c c'. f c = (Ok x, c') \<Longrightarrow> P w c \<Longrightarrow> Q x w c'"
    "\<And>s w c c'. f c = (Err s, c') \<Longrightarrow> P w c \<Longrightarrow> R w c'" "valid_act R h Q E"
  shows "valid_act P (recover f h) Q E"
  unfolding valid_act_def recover_def
proof (intro allI impI)
  fix w c
  assume P: "P w c"
  obtain r c' where r: "f c = (r, c')" by force
  show "case case f c of (Ok x, c) \<Rightarrow> (Ok x, w, c) | (Err _, c) \<Rightarrow> h w c | (Panic, c) \<Rightarrow> (Panic, w, c) of
      (Ok x, w', c') \<Rightarrow> Q x w' c' | (Err e, w', c') \<Rightarrow> E e w' c' | (Panic, w', c') \<Rightarrow> True"
    using assms(3) assms(1,2) [OF _ P] r by (cases r) (simp_all add: valid_act_def)
qed

lemma valid_propagate [act_rules]:
  assumes "\<And>x w c c'. f c = (Ok x, c') \<Longrightarrow> P w c \<Longrightarrow> Q x w c'"
    "\<And>s w c c'. f c = (Err s, c') \<Longrightarrow> P w c \<Longrightarrow> E s w c'"
  shows "valid_act P (propagate f) Q E"
  using assms by (fastforce simp: valid_act_def propagate_def split: prod.splits result.splits)

lemma valid_each [act_rules]:
  assumes "\<And>x. x \<in> set xs \<Longrightarrow> valid_act P (f x) (\<lambda>_. P) E"
  shows "valid_act P (each f xs) (\<lambda>_. P) E"
  using assms
proof (induction xs)
  case (Cons x xs)
  have "valid_act P (f x) (\<lambda>_. P) E" using Cons.prems by simp
  moreover have "valid_act P (each f xs) (\<lambda>_. P) E" using Cons by simp
  ultimately show ?case unfolding each.simps by (rule valid_seq)
qed (simp add: valid_ret)

lemma valid_if [act_rules]:
  "(b \<Longrightarrow> valid_act P m Q E) \<Longrightarrow> (\<not> b \<Longrightarrow> valid_act P m' Q E) \<Longrightarrow> valid_act P (if b then m else m') Q E"
  by simp

lemma valid_let [act_rules]: "valid_act P (f x) Q E \<Longrightarrow> valid_act P (let y = x in f y) Q E"
  by simp

lemma valid_pair [act_rules]:
  "(\<And>a b. x = (a, b) \<Longrightarrow> valid_act P (f a b) Q E) \<Longrightarrow> valid_act P (case x of (a, b) \<Rightarrow> f a b) Q E"
  by (cases x) simp

lemma valid_fact: "(\<And>w c. P w c \<Longrightarrow> b) \<Longrightarrow> (b \<Longrightarrow> valid_act P m Q E) \<Longrightarrow> valid_act P m Q E"
  by (auto simp: valid_act_def)

subsection \<open>What the writer holds\<close>

text \<open>
  \<open>lengthens n e\<close>: the encoder \<open>e\<close> only appends, and appends at least \<open>n\<close> bytes when it succeeds.
  \<open>coded code n w\<close>: the writer holds a message of that code or an ERROR, with \<open>n\<close> bytes after the header.
\<close>

definition lengthens :: "nat \<Rightarrow> 'e enc \<Rightarrow> bool" where
  "lengthens n e \<longleftrightarrow> (\<forall>out room. \<exists>bs. length bs \<le> length room \<and>
    snd (e (wr_at out room)) = wr_at (out @ bs) (drop (length bs) room) \<and>
    (\<forall>m. fst (e (wr_at out room)) = Ok m \<longrightarrow> n \<le> length bs))"

definition coded :: "SpdmRequestResponseCode \<Rightarrow> nat \<Rightarrow> writer \<Rightarrow> bool" where
  "coded code n w \<longleftrightarrow> (\<exists>out room. w = wr_at out room \<and> n + 2 \<le> length out \<and>
    (out ! 1 = SpdmRequestResponseCode_get_u8 code \<or> out ! 1 = 0x7F))"

lemma lengthens_emits:
  assumes "emits e bs"
  shows "lengthens (length bs) e"
  unfolding lengthens_def
proof (intro allI)
  fix out room
  show "\<exists>cs. length cs \<le> length room \<and> snd (e (wr_at out room)) = wr_at (out @ cs) (drop (length cs) room) \<and>
      (\<forall>m. fst (e (wr_at out room)) = Ok m \<longrightarrow> length bs \<le> length cs)"
  proof (cases "length bs \<le> length room")
    case True
    then show ?thesis by (intro exI [of _ bs]) (simp add: emits_Ok [OF assms])
  next
    case False
    then obtain err k where "k \<le> length room"
        "e (wr_at out room) = (Err err, wr_at (out @ take k bs) (drop k room))"
      using emits_Err [OF assms] by (metis not_le)
    with False show ?thesis by (intro exI [of _ "take k bs"]) simp
  qed
qed

lemma lengthens_mono: "lengthens n e \<Longrightarrow> m \<le> n \<Longrightarrow> lengthens m e"
  unfolding lengthens_def by (meson le_trans)

lemma lengthens_panic: "lengthens n panic_enc"
  by (auto simp: lengthens_def panic_enc_def intro: exI [of _ "[]"])

lemma lengthens_Cons:
  assumes "lengthens n e" "lengthens m (encs es)"
  shows "lengthens (n + m) (encs (e # es))"
  unfolding lengthens_def
proof (intro allI)
  fix out room
  obtain bs where bs: "length bs \<le> length room" "snd (e (wr_at out room)) = wr_at (out @ bs) (drop (length bs) room)"
      "\<forall>k. fst (e (wr_at out room)) = Ok k \<longrightarrow> n \<le> length bs"
    using assms(1) unfolding lengthens_def by meson
  obtain cs where cs: "length cs \<le> length (drop (length bs) room)"
      "snd (encs es (wr_at (out @ bs) (drop (length bs) room))) =
        wr_at ((out @ bs) @ cs) (drop (length cs) (drop (length bs) room))"
      "\<forall>k. fst (encs es (wr_at (out @ bs) (drop (length bs) room))) = Ok k \<longrightarrow> m \<le> length cs"
    using assms(2) unfolding lengthens_def by meson
  show "\<exists>ds. length ds \<le> length room \<and>
      snd (encs (e # es) (wr_at out room)) = wr_at (out @ ds) (drop (length ds) room) \<and>
      (\<forall>k. fst (encs (e # es) (wr_at out room)) = Ok k \<longrightarrow> n + m \<le> length ds)"
  proof (cases "e (wr_at out room)")
    case (Pair r w)
    show ?thesis
    proof (cases r)
      case (Ok k)
      have w: "w = wr_at (out @ bs) (drop (length bs) room)" and "n \<le> length bs"
        using bs Pair Ok by auto
      then show ?thesis using bs(1) cs Pair Ok
        by (intro exI [of _ "bs @ cs"]) (auto simp: add.commute split: prod.splits result.splits)
    qed (use bs Pair in \<open>auto intro!: exI [of _ bs]\<close>)
  qed
qed

lemma lengthens_Nil: "lengthens 0 (encs [])"
  by (auto simp: lengthens_def intro: exI [of _ "[]"])

lemma lengthens_append:
  assumes "\<And>e. e \<in> set es \<Longrightarrow> lengthens 0 e" "lengthens n (encs fs)"
  shows "lengthens n (encs (es @ fs))"
  using assms
proof (induction es)
  case (Cons e es)
  have "lengthens 0 e" "lengthens n (encs (es @ fs))" using Cons by auto
  from lengthens_Cons [OF this] show ?case by (simp del: encs.simps)
qed simp

lemma lengthens_list: "(\<And>e. e \<in> set es \<Longrightarrow> lengthens 0 e) \<Longrightarrow> lengthens 0 (encs es)"
  using lengthens_append [of es 0 "[]"] lengthens_Nil by simp

lemma lengthens_0: "emits e bs \<Longrightarrow> lengthens 0 e"
  using lengthens_emits lengthens_mono by blast

lemma lengthens_BUFFER_FULL: "emits e bs \<Longrightarrow> lengthens 0 (BUFFER_FULL_enc e)"
  using emits_BUFFER_FULL lengthens_0 by blast

lemma lengthens_BUFFER_FULL_enc: "lengthens n e \<Longrightarrow> lengthens n (BUFFER_FULL_enc e)"
  by (simp add: lengthens_def BUFFER_FULL_enc_def enc_map_err_def case_prod_beta)

lemma lengthens_asserted:
  "lengthens (if sz = Ok (data_size d) then length (as_ref d) else n) (asserted_encode sz d)"
  using lengthens_emits [OF emits_full_bytes] by (simp add: asserted_encode_def lengthens_panic)

lemma write_spdm_error_extends:
  "\<exists>bs. write_spdm_error code d (wr_at out room) c = wr_at (out @ bs) (drop (length bs) room) \<and>
    length bs \<le> length room \<and> (4 \<le> length room \<longrightarrow> bs = error_message code d c)"
proof (cases "4 \<le> length room")
  case True
  then show ?thesis by (intro exI [of _ "error_message code d c"]) (simp add: write_spdm_error_at)
next
  case False
  have "emits (SpdmErrorResponsePayload_spdm_encode
      \<lparr>error_code = code, error_data = d, extended_data = SpdmErrorExtDataNone\<rparr>)
      (concat [[SpdmErrorCode_get_u8 code], [d], []])"
    unfolding SpdmErrorResponsePayload_spdm_encode_def
    by (rule emits_encs) (simp add: emits_BUFFER_FULL enum_u8_encode_def emits_u8 emits_encs_Nil)
  from lengthens_0 [OF emits_message [OF this]] show ?thesis
    using False unfolding lengthens_def write_spdm_error_def by blast
qed

lemma coded_error: "coded code n w \<Longrightarrow> coded code n (write_spdm_error e d w c)"
  using write_spdm_error_extends by (fastforce simp: coded_def nth_append)

lemma coded_mono: "coded code n w \<Longrightarrow> m \<le> n \<Longrightarrow> coded code m w"
  by (auto simp: coded_def)

lemma coded_blank_error: "coded code 2 (write_spdm_error e d send_writer c)"
proof -
  have "write_spdm_error e d send_writer c = wr_at (error_message e d c) (replicate 4092 0)"
    by (simp add: send_writer_at write_spdm_error_at)
  then show ?thesis unfolding coded_def by (auto simp: error_message_def)
qed

lemma coded_patch:
  assumes "coded code n w" "k \<le> n" "patch k m bs w c = (Ok (), w', c')"
  shows "coded code n w' \<and> c' = c"
proof -
  obtain out room where w: "w = wr_at out room" "n + 2 \<le> length out"
      "out ! 1 = SpdmRequestResponseCode_get_u8 code \<or> out ! 1 = 0x7F"
    using assms(1) unfolding coded_def by blast
  let ?i = "length out - k"
  have bs: "k \<le> length out" "m \<le> k" "length bs = k - m" "c' = c"
      "w' = w\<lparr>w_buf := write_at (w_buf w) ?i bs\<rparr>"
    using assms(3) by (auto simp: patch_def w(1) split: if_splits)
  let ?out = "write_at out ?i bs"
  have "?i + length bs \<le> length out" using bs by simp
  then have "write_at (out @ room) ?i bs = ?out @ room"
    by (simp add: write_at_eq)
  with bs have "w' = wr_at ?out room" by (simp add: w(1) wr_at_def)
  moreover have "?out ! 1 = out ! 1"
    using w(2) assms(2) bs(1-3) by (simp add: write_at_eq nth_append)
  ultimately show ?thesis using w bs(4) unfolding coded_def
    by (intro conjI exI [of _ ?out] exI [of _ room]) simp_all
qed

lemma SpdmMessage_encode_blank:
  assumes "lengthens n payload"
  shows "\<exists>w r. SpdmMessage_spdm_encode v code payload send_writer = (r, w) \<and> coded code 0 w \<and>
    (\<forall>m. r = Ok m \<longrightarrow> coded code n w)"
proof -
  let ?h = "[SpdmVersion_get_u8 v, SpdmRequestResponseCode_get_u8 code]"
  let ?room = "replicate 4094 (0 :: u8)"
  have "list_all2 emits [enum_u8_encode SpdmVersion_get_u8 v, enum_u8_encode SpdmRequestResponseCode_get_u8 code]
      [[SpdmVersion_get_u8 v], [SpdmRequestResponseCode_get_u8 code]]"
    by (simp add: enum_u8_encode_def emits_u8)
  from emits_BUFFER_FULL [OF emits_encs [OF this]]
  have "emits (BUFFER_FULL_enc (SpdmMessageHeader_encode \<lparr>version = v, request_response_code = code\<rparr>)) ?h"
    by (simp add: SpdmMessageHeader_encode_def)
  from emits_Ok [OF this, of "replicate 4096 0" "[]"]
  have h: "BUFFER_FULL_enc (SpdmMessageHeader_encode \<lparr>version = v, request_response_code = code\<rparr>) send_writer =
      (Ok 2, wr_at ?h ?room)"
    by (simp add: send_writer_at eval_nat_numeral)
  obtain bs where bs: "length bs \<le> length ?room" "snd (payload (wr_at ?h ?room)) = wr_at (?h @ bs) (drop (length bs) ?room)"
      "\<forall>m. fst (payload (wr_at ?h ?room)) = Ok m \<longrightarrow> n \<le> length bs"
    using assms unfolding lengthens_def by meson
  have "coded code k (wr_at (?h @ bs) (drop (length bs) ?room))" if "k \<le> length bs" for k
    using that unfolding coded_def by (intro exI conjI) (rule refl, simp_all)
  then show ?thesis using bs
    by (cases "payload (wr_at ?h ?room)") (auto simp: SpdmMessage_spdm_encode_def h split: result.splits)
qed

lemma valid_respond:
  assumes "\<And>c. I c \<Longrightarrow> lengthens n (payload c)"
  shows "valid_act (\<lambda>w c. w = send_writer \<and> I c) (respond e code payload)
    (\<lambda>_ w c. coded code n w \<and> I c) (\<lambda>_ w c. coded code 0 w \<and> I c)"
  unfolding valid_act_def
proof (intro allI impI)
  fix w c
  assume wc: "w = send_writer \<and> I c"
  obtain r w' where "SpdmMessage_spdm_encode (spdm_version_sel (negotiate_info c)) code (payload c) send_writer =
      (r, w')" "coded code 0 w'" "\<forall>m. r = Ok m \<longrightarrow> coded code n w'"
    using SpdmMessage_encode_blank [OF assms] wc by blast
  with wc show "case respond e code payload w c of
      (Ok x, w', c') \<Rightarrow> coded code n w' \<and> I c' | (Err e, w', c') \<Rightarrow> coded code 0 w' \<and> I c'
    | (Panic, w', c') \<Rightarrow> True"
    by (cases r) (simp_all add: respond_def refuse_def coded_error)
qed

lemma valid_seq_expect:
  "(\<And>x. r = Ok x \<Longrightarrow> valid_act P (k x) Q E) \<Longrightarrow> valid_act P (seq (expect r) k) Q E"
  by (cases r) (simp_all add: valid_act_def seq_def expect_def)

lemma valid_ask_same:
  "valid_act (\<lambda>w c'. W w \<and> c' = c) (ask k) Q E \<longleftrightarrow> valid_act (\<lambda>w c'. W w \<and> c' = c) (k c) Q E"
  by (simp add: valid_act_def ask_def)

lemma patch_no_exit: "patch k m bs w c \<noteq> (Err e, w', c')"
  by (simp add: patch_def)

lemma valid_written_but: "valid_act P (written_but n) (\<lambda>_. P) E"
  by (simp add: valid_act_def written_but_def)

lemma valid_patch:
  "k \<le> n \<Longrightarrow> valid_act (\<lambda>w c. coded code n w \<and> I c) (patch k m bs) (\<lambda>_ w c. coded code n w \<and> I c) E"
  by (auto simp: valid_act_def dest: coded_patch split: prod.splits result.splits)
     (auto simp: patch_def split: if_splits)

subsection \<open>What a handler leaves alone\<close>

text \<open>
  \<open>harmless new c c'\<close>: configuration, negotiated parameters, connection state and the negotiation
  transcript are the same and the session identifiers stay distinct. The scope \<open>new\<close> says what else may
  change: only opening a session names it as the last one (a handshake in the clear), and only
  \<open>Establishing\<close> admits that a session becomes established.
\<close>

datatype scope = Quiet | Opening | Establishing

definition harmless :: "scope \<Rightarrow> 'h SpdmContext \<Rightarrow> 'h SpdmContext \<Rightarrow> bool" where
  "harmless new c c' \<longleftrightarrow>
    config_info c' = config_info c \<and> provision_info c' = provision_info c \<and>
    (negotiate_info c')\<lparr>termination_policy_set := False\<rparr> = (negotiate_info c)\<lparr>termination_policy_set := False\<rparr> \<and>
    connection_state (runtime_info c') = connection_state (runtime_info c) \<and>
    message_a (runtime_info c') = message_a (runtime_info c) \<and>
    (new \<noteq> Opening \<longrightarrow> last_session_id (runtime_info c') = last_session_id (runtime_info c)) \<and>
    list_all2 (\<lambda>s s'. session_state s' = SpdmSessionEstablished \<longrightarrow>
      session_state s = SpdmSessionEstablished \<or> new = Establishing) (session c) (session c') \<and>
    (half_ids_inv False c \<longrightarrow> half_ids_inv False c')"

lemma harmless_refl [simp, intro]: "harmless new c c"
  by (simp add: harmless_def list_all2_refl)

lemma established_trans:
  assumes "list_all2 (\<lambda>s s'. session_state s' = SpdmSessionEstablished \<longrightarrow>
      session_state s = SpdmSessionEstablished \<or> new = Establishing) ss ss'"
    "list_all2 (\<lambda>s s'. session_state s' = SpdmSessionEstablished \<longrightarrow>
      session_state s = SpdmSessionEstablished \<or> new = Establishing) ss' ss''"
  shows "list_all2 (\<lambda>s s'. session_state s' = SpdmSessionEstablished \<longrightarrow>
      session_state s = SpdmSessionEstablished \<or> new = Establishing) ss ss''"
  by (rule list_all2_trans [OF _ assms]) blast

lemma harmless_trans: "harmless new c c' \<Longrightarrow> harmless new c' c'' \<Longrightarrow> harmless new c c''"
  unfolding harmless_def by (simp, rule established_trans) blast+

lemma negotiate_same_fields:
  assumes "(ni' :: SpdmNegotiateInfo)\<lparr>termination_policy_set := False\<rparr> = ni\<lparr>termination_policy_set := False\<rparr>"
  shows "ni' = ni\<lparr>termination_policy_set := termination_policy_set ni'\<rparr>"
  using assms by (cases ni; cases ni') simp

lemma harmless_negotiate:
  assumes "harmless new c c'"
  shows "negotiate_info c' = (negotiate_info c)\<lparr>termination_policy_set := termination_policy_set (negotiate_info c')\<rparr>"
  using assms by (intro negotiate_same_fields) (simp add: harmless_def)

text \<open>A change of a session that neither establishes nor renames it; it may free the entry.\<close>

definition not_establishing :: "('h SpdmSession \<Rightarrow> 'h SpdmSession) \<Rightarrow> bool" where
  "not_establishing f \<longleftrightarrow> (\<forall>s. (session_state (f s) = SpdmSessionEstablished \<longrightarrow>
    session_state s = SpdmSessionEstablished) \<and> (session_id (f s) = session_id s \<or> session_id (f s) = 0))"

lemma list_all2_update_first:
  "(\<And>x. Q x x) \<Longrightarrow> (\<And>x. P x \<Longrightarrow> Q x (f x)) \<Longrightarrow> list_all2 Q xs (update_first P f xs)"
  by (induction xs) (auto intro: list_all2_refl)

lemma half_ids_session:
  assumes "half_ids_inv r c" "\<And>s. session_id (f s) = session_id s \<or> session_id (f s) = 0"
  shows "half_ids_inv r (upd_session_via_id sid f c)"
  unfolding upd_session_via_id_def
  by (rule half_ids_kept [OF assms(1)]) (simp, rule list_all2_update_first, simp, rule assms(2))

lemma harmless_session:
  assumes "not_establishing f"
  shows "harmless new c (upd_session_via_id sid f c)"
proof -
  have "list_all2 (\<lambda>s s'. session_state s' = SpdmSessionEstablished \<longrightarrow>
      session_state s = SpdmSessionEstablished \<or> new = Establishing) (session c) (session (upd_session_via_id sid f c))"
    using assms by (auto simp: not_establishing_def upd_session_via_id_def intro!: list_all2_update_first)
  with half_ids_session [of False c f sid] assms show ?thesis
    by (simp add: harmless_def not_establishing_def) (simp add: upd_session_via_id_def)
qed

lemma update_first_const:
  assumes "get_session_via_id c sid = Some s"
  shows "upd_session_via_id sid (\<lambda>_. g s) c = upd_session_via_id sid g c"
proof -
  have "update_first P (\<lambda>_. g s) xs = update_first P g xs" if "List.find P xs = Some s" for P xs
    using that by (induction xs) (auto split: if_splits)
  with assms show ?thesis by (simp add: upd_session_via_id_def get_session_via_id_def)
qed

lemma on_session_eq:
  "snd (on_session sid none f c) = upd_session_via_id sid (snd \<circ> f) c"
proof (cases "get_session_via_id c sid")
  case (Some s)
  then show ?thesis using update_first_const [OF Some, of "snd \<circ> f"] by (simp add: on_session_def case_prod_beta)
qed (simp add: on_session_def st.upd_absent)

lemma harmless_on_session: "not_establishing (snd \<circ> f) \<Longrightarrow> harmless new c (snd (on_session sid none f c))"
  unfolding on_session_eq by (rule harmless_session)

lemma harmless_any_session:
  assumes "\<And>s. session_id (f s) = session_id s \<or> session_id (f s) = 0"
  shows "harmless Establishing c (upd_session_via_id sid f c)"
  using half_ids_session [OF _ assms, of False c sid]
  by (auto simp: harmless_def) (auto simp: upd_session_via_id_def intro!: list_all2_update_first)

abbreviation ident :: "'h SpdmSession \<Rightarrow> SpdmSessionState \<times> u32" where
  "ident s \<equiv> (session_state s, session_id s)"

lemma run_steps_ident:
  assumes "\<And>f s s'. f \<in> set fs \<Longrightarrow> f s = Ok s' \<Longrightarrow> ident s' = ident s"
  shows "ident (snd (run_steps fs s)) = ident s"
  using run_steps_invariant [of "\<lambda>s'. ident s' = ident s" s fs] assms by simp

lemma ident_not_establishing: "(\<And>s. ident (f s) = ident s) \<Longrightarrow> not_establishing f"
  by (simp add: not_establishing_def)

named_theorems harmless_rules \<open>operations that leave the protected parts of the context alone\<close>

lemma harmless_parts:
  assumes "config_info c' = config_info c" "negotiate_info c' = negotiate_info c" "session c' = session c"
    "provision_info c' = provision_info c"
    "connection_state (runtime_info c') = connection_state (runtime_info c)"
    "message_a (runtime_info c') = message_a (runtime_info c)"
    "last_session_id (runtime_info c') = last_session_id (runtime_info c)"
  shows "harmless new c c'"
  using assms by (simp add: harmless_def list_all2_refl half_ids_inv_def)

lemma harmless_resets [harmless_rules]:
  "harmless new c (reset_message_b c)" "harmless new c (reset_message_c c)"
  "harmless new c (set_local_used_cert_chain_slot_id i c)" "harmless Opening c (set_last_session_id sid' c)"
  "harmless new c (upd_rt (need_measurement_summary_hash_update f) c)"
  "harmless new c (upd_rt (need_measurement_signature_update f) c)"
  "harmless new c (upd_neg (termination_policy_set_update f) c)"
  by (simp_all add: harmless_parts reset_message_b_def reset_message_c_def
      set_local_used_cert_chain_slot_id_def)
    (simp_all add: harmless_def list_all2_refl half_ids_inv_def set_last_session_id_def)

lemma harmless_after_b: "harmless new c (reset_message_c (reset_message_b c))"
  by (rule harmless_trans [OF harmless_resets(1) harmless_resets(2)])

lemma harmless_reset_m [harmless_rules]: "harmless new c (reset_message_m sid c)"
  by (cases sid) (simp_all add: reset_message_m_def harmless_parts harmless_session not_establishing_def)

lemma harmless_reset_buffer [harmless_rules]: "harmless new c (reset_buffer_via_request_code code sid c)"
proof -
  let ?c = "if code \<noteq> SpdmRequestGetMeasurements then reset_message_m sid c else c"
  have c: "harmless new c ?c" by (simp add: harmless_rules)
  then have "harmless new c (reset_message_b ?c)" by (rule harmless_trans [OF _ harmless_resets(1)])
  moreover from this have "harmless new c (reset_message_c (reset_message_b ?c))"
    by (rule harmless_trans [OF _ harmless_resets(2)])
  moreover have "reset_buffer_via_request_code code sid c \<in>
      {?c, reset_message_b ?c, reset_message_c (reset_message_b ?c)}"
    unfolding reset_buffer_via_request_code_def Let_def by simp
  ultimately show ?thesis using c by fastforce
qed

lemma harmless_appends [harmless_rules]:
  "harmless new c (snd (append_message_b cr bs c))" "harmless new c (snd (append_message_c cr bs c))"
  by (simp_all add: append_message_b_def append_message_c_def harmless_parts split: prod.splits)

lemma harmless_append_m [harmless_rules]: "harmless new c (snd (append_message_m cr sid bs c))"
  by (cases sid) (simp_all add: append_message_m_def Let_def harmless_parts harmless_on_session
      not_establishing_def split: prod.splits)

lemma ident_appends:
  "ident (snd (session_append_k cr bs s)) = ident s" "ident (snd (session_append_f cr md bs s)) = ident s"
proof -
  show "ident (snd (session_append_k cr bs s)) = ident s"
    by (simp add: session_append_k_def Let_def split: prod.splits)
  show "ident (snd (session_append_f cr md bs s)) = ident s"
    unfolding session_append_f_def
    by (rule run_steps_ident) (auto simp: upd_th_def split: if_splits option.splits)
qed

lemma harmless_append_kf [harmless_rules]:
  "harmless new c (snd (append_message_k cr sid bs c))" "harmless new c (snd (append_message_f cr is_req sid bs c))"
proof -
  have "harmless new c (snd (on_session sid Panic (session_append_f cr md bs) c))" for md
    using ident_appends(2) [of cr md bs] by (intro harmless_on_session ident_not_establishing) simp
  then show "harmless new c (snd (append_message_f cr is_req sid bs c))"
    by (simp add: append_message_f_def split: option.splits result.splits)
  show "harmless new c (snd (append_message_k cr sid bs c))"
    unfolding append_message_k_def using ident_appends(1) [of cr bs]
    by (intro harmless_on_session ident_not_establishing) simp
qed

lemma ident_secrets:
  "ident (snd (set_dhe_secret cr v k s)) = ident s"
  "ident (snd (generate_handshake_secret cr v th s)) = ident s"
  "ident (snd (generate_data_secret cr v th s)) = ident s"
  "ident (snd (create_data_secret_update cr v b b' s)) = ident s"
  "ident (snd (activate_data_secret_update v b b' b'' s)) = ident s"
proof -
  show "ident (snd (set_dhe_secret cr v k s)) = ident s"
    by (simp add: set_dhe_secret_def Let_def split: result.splits) auto
  show "ident (snd (generate_handshake_secret cr v th s)) = ident s"
    unfolding generate_handshake_secret_def Let_def by (rule run_steps_ident) auto
  show "ident (snd (generate_data_secret cr v th s)) = ident s"
    unfolding generate_data_secret_def Let_def by (rule run_steps_ident) auto
  show "ident (snd (create_data_secret_update cr v b b' s)) = ident s"
    unfolding create_data_secret_update_def Let_def update_request_steps_def update_response_steps_def
    by (rule run_steps_ident) (auto split: if_splits)
  show "ident (snd (activate_data_secret_update v b b' b'' s)) = ident s"
    by (simp add: activate_data_secret_update_def Let_def)
qed

subsection \<open>Safe acts\<close>

text \<open>
  An act is safe between two phases of the writer (blank, or holding a message of the handler's code with
  some bytes after its header) when the context stays harmless with respect to the handler's first
  context \<open>c0\<close> and every early exit leaves a message of that code, or an ERROR, in the writer.
\<close>

named_theorems safe_rules \<open>rules for safe acts\<close>

datatype phase = Blank | Coded nat

fun in_phase :: "SpdmRequestResponseCode \<Rightarrow> phase \<Rightarrow> writer \<Rightarrow> bool" where
  "in_phase code Blank w \<longleftrightarrow> w = send_writer"
| "in_phase code (Coded n) w \<longleftrightarrow> coded code n w"

definition safe ::
    "'h SpdmContext \<Rightarrow> scope \<Rightarrow> SpdmRequestResponseCode \<Rightarrow> phase \<Rightarrow> ('a, 'e, 'h) act \<Rightarrow> phase \<Rightarrow> bool" where
  "safe c0 new code ph m ph' \<longleftrightarrow> valid_act (\<lambda>w c. in_phase code ph w \<and> harmless new c0 c) m
    (\<lambda>_ w c. in_phase code ph' w \<and> harmless new c0 c) (\<lambda>_ w c. coded code 0 w \<and> harmless new c0 c)"

lemma phase_error: "in_phase code ph w \<Longrightarrow> coded code 0 (write_spdm_error e d w c)"
  by (cases ph) (auto intro: coded_mono [OF coded_blank_error] coded_mono [OF coded_error])

lemma safe_seq [safe_rules]:
  "safe c0 new code ph m ph1 \<Longrightarrow> (\<And>x. safe c0 new code ph1 (k x) ph2) \<Longrightarrow> safe c0 new code ph (seq m k) ph2"
  unfolding safe_def by (blast intro: valid_seq)

lemma safe_ret [safe_rules]: "safe c0 new code ph (ret x) ph"
  unfolding safe_def by (blast intro: valid_ret)

lemma safe_panics [safe_rules]: "safe c0 new code ph panics ph'"
  unfolding safe_def by (blast intro: valid_panics)

lemma safe_refuse [safe_rules]: "safe c0 new code ph (refuse c e) ph'"
  unfolding safe_def by (blast intro: valid_refuse phase_error)

lemma safe_ask_given:
  "(\<And>c. harmless new c0 c \<Longrightarrow> safe c0 new code ph (k c) ph') \<Longrightarrow> safe c0 new code ph (ask k) ph'"
  unfolding safe_def valid_act_def ask_def by simp

lemma safe_ask [safe_rules]: "(\<And>c. safe c0 new code ph (k c) ph') \<Longrightarrow> safe c0 new code ph (ask k) ph'"
  by (rule safe_ask_given)

text \<open>An act whose context is known: the one that \<open>ask\<close> returned and that nothing has changed since.\<close>

definition pinned ::
    "'h SpdmContext \<Rightarrow> 'h SpdmContext \<Rightarrow> scope \<Rightarrow> SpdmRequestResponseCode \<Rightarrow> phase \<Rightarrow> ('a, 'e, 'h) act \<Rightarrow> phase \<Rightarrow> bool"
    where
  "pinned c c0 new code ph m ph' \<longleftrightarrow> valid_act (\<lambda>w c'. in_phase code ph w \<and> harmless new c0 c' \<and> c' = c) m
    (\<lambda>_ w c. in_phase code ph' w \<and> harmless new c0 c) (\<lambda>_ w c. coded code 0 w \<and> harmless new c0 c)"

lemma safe_ask_pinned: "(\<And>c. pinned c c0 new code ph (k c) ph') \<Longrightarrow> safe c0 new code ph (ask k) ph'"
  unfolding safe_def pinned_def by (intro valid_ask) simp

lemma pinned_safe: "safe c0 new code ph m ph' \<Longrightarrow> pinned c c0 new code ph m ph'"
  unfolding safe_def pinned_def by (erule valid_weaken) auto

lemma pinned_or_refuse:
  "(\<And>x. r = Ok x \<Longrightarrow> pinned c c0 new code ph (k x) ph') \<Longrightarrow> pinned c c0 new code ph (seq (or_refuse ec e r) k) ph'"
  unfolding pinned_def
  by (cases r) (auto simp: valid_act_def seq_def or_refuse_def ret_def refuse_def panics_def intro: phase_error)

lemma pinned_expect:
  "(\<And>x. r = Ok x \<Longrightarrow> pinned c c0 new code ph (k x) ph') \<Longrightarrow> pinned c c0 new code ph (seq (expect r) k) ph'"
  unfolding pinned_def by (cases r) (auto simp: valid_act_def seq_def expect_def)

lemma pinned_pair:
  "(\<And>a b. pinned c c0 new code ph (f a b) ph') \<Longrightarrow> pinned c c0 new code ph (case x of (a, b) \<Rightarrow> f a b) ph'"
  by (cases x) simp

lemma pinned_let: "pinned c c0 new code ph (f x) ph' \<Longrightarrow> pinned c c0 new code ph (let y = x in f y) ph'"
  by simp

lemma pinned_attempt:
  assumes "harmless new c (snd (f c))" "\<And>x. safe c0 new code ph (k x) ph'"
  shows "pinned c c0 new code ph (seq (attempt ec e f) k) ph'"
  unfolding pinned_def
proof (rule valid_seq)
  have "harmless new c0 c'" if "f c = (r, c')" "harmless new c0 c" for r c'
    using that assms(1) harmless_trans by fastforce
  then show "valid_act (\<lambda>w c'. in_phase code ph w \<and> harmless new c0 c' \<and> c' = c) (attempt ec e f)
      (\<lambda>_ w c. in_phase code ph w \<and> harmless new c0 c) (\<lambda>_ w c. coded code 0 w \<and> harmless new c0 c)"
    by (intro valid_attempt) (auto intro: phase_error)
qed (use assms(2) in \<open>simp add: safe_def\<close>)

lemma safe_change [safe_rules]: "(\<And>c. harmless new c (g c)) \<Longrightarrow> safe c0 new code ph (change g) ph"
  unfolding safe_def by (blast intro: valid_change harmless_trans)

lemma safe_expect [safe_rules]: "safe c0 new code ph (expect r) ph"
  unfolding safe_def by (blast intro: valid_expect)

lemma safe_or_refuse [safe_rules]: "safe c0 new code ph (or_refuse c e r) ph"
  unfolding safe_def by (blast intro: valid_or_refuse phase_error)

lemma safe_attempt [safe_rules]:
  assumes "\<And>c. harmless new c (snd (f c))"
  shows "safe c0 new code ph (attempt ec e f) ph"
proof -
  have "harmless new c c'" if "f c = (r, c')" for c r c' using assms [of c] that by simp
  then show ?thesis unfolding safe_def
    by (blast intro: valid_attempt phase_error harmless_trans)
qed

lemma safe_recover [safe_rules]:
  assumes "\<And>c. harmless new c (snd (f c))" "safe c0 new code ph h ph"
  shows "safe c0 new code ph (recover f h) ph"
proof -
  have "harmless new c c'" if "f c = (r, c')" for c r c' using assms(1) [of c] that by simp
  then show ?thesis unfolding safe_def
    by (intro valid_recover [OF _ _ assms(2) [unfolded safe_def]]) (auto intro: harmless_trans)
qed

lemma safe_propagate:
  assumes "\<And>c. harmless new c (snd (f c))"
  shows "safe c0 new code (Coded n) (propagate f) (Coded n)"
proof -
  have "harmless new c c'" if "f c = (r, c')" for c r c' using assms [of c] that by simp
  then show ?thesis unfolding safe_def
    by (intro valid_propagate) (auto intro: harmless_trans coded_mono)
qed

lemma safe_each [safe_rules]:
  "(\<And>x. safe c0 new code ph (f x) ph) \<Longrightarrow> safe c0 new code ph (each f xs) ph"
  unfolding safe_def by (blast intro: valid_each)

lemma safe_if [safe_rules]:
  "(b \<Longrightarrow> safe c0 new code ph m ph') \<Longrightarrow> (\<not> b \<Longrightarrow> safe c0 new code ph m' ph') \<Longrightarrow> safe c0 new code ph (if b then m else m') ph'"
  by simp

lemma safe_let [safe_rules]: "safe c0 new code ph (f x) ph' \<Longrightarrow> safe c0 new code ph (let y = x in f y) ph'"
  by simp

lemma safe_pair [safe_rules]:
  "(\<And>a b. safe c0 new code ph (f a b) ph') \<Longrightarrow> safe c0 new code ph (case x of (a, b) \<Rightarrow> f a b) ph'"
  by (cases x) simp

lemma safe_option [safe_rules]:
  "safe c0 new code ph m ph' \<Longrightarrow> (\<And>x. safe c0 new code ph (f x) ph') \<Longrightarrow>
    safe c0 new code ph (case r of None \<Rightarrow> m | Some x \<Rightarrow> f x) ph'"
  by (cases r) simp_all

lemma safe_result [safe_rules]:
  "(\<And>x. safe c0 new code ph (f x) ph') \<Longrightarrow> (\<And>e. safe c0 new code ph (g e) ph') \<Longrightarrow> safe c0 new code ph m ph' \<Longrightarrow>
    safe c0 new code ph (case r of Ok x \<Rightarrow> f x | Err e \<Rightarrow> g e | Panic \<Rightarrow> m) ph'"
  by (cases r) simp_all

lemma safe_respond:
  assumes "\<And>c. harmless new c0 c \<Longrightarrow> lengthens n (payload c)"
  shows "safe c0 new code Blank (respond e code payload) (Coded n)"
  unfolding safe_def using valid_respond [of "harmless new c0" n payload e code] assms by simp

lemma safe_written_but [safe_rules]: "safe c0 new code ph (written_but n) ph"
  unfolding safe_def by (blast intro: valid_written_but)

lemma safe_patch: "k \<le> n \<Longrightarrow> safe c0 new code (Coded n) (patch k m bs) (Coded n)"
  unfolding safe_def by (simp add: valid_patch)

lemma safe_weaken:
  assumes "safe c0 new code ph m (Coded n)" "k \<le> n"
  shows "safe c0 new code ph m (Coded k)"
  unfolding safe_def
  by (rule valid_weaken [OF assms(1) [unfolded safe_def]]) (use assms(2) coded_mono in auto)

lemma safe_start [safe_rules]:
  "safe c0 new code ph (require_negotiated e) ph" "safe c0 new code ph (read_header e bs) ph"
  "safe c0 new code ph (parse e rd r) ph" "safe c0 new code ph (require_slot e i) ph"
  unfolding require_negotiated_def read_header_def parse_def require_slot_def
  by (rule safe_rules)+

lemma safe_summary [safe_rules]: "safe c0 new code ph (take_summary_hash en e t) ph"
  unfolding take_summary_hash_def by (rule safe_rules harmless_rules)+

lemma safe_seq_expect:
  "(\<And>x. r = Ok x \<Longrightarrow> safe c0 new code ph (k x) ph') \<Longrightarrow> safe c0 new code ph (seq (expect r) k) ph'"
  by (cases r) (auto simp: safe_def valid_act_def seq_def expect_def)

lemma safeD:
  assumes "safe c new code Blank m (Coded n)" "m send_writer c = (r, w, c')" "r \<noteq> Panic"
  shows "coded code 0 w \<and> harmless new c c'"
  using valid_actD [OF assms(1) [unfolded safe_def], of send_writer c] assms(2,3)
  by (cases r) (auto dest: coded_mono)

subsection \<open>Lengths of what is encoded\<close>

lemma lengthens_parts:
  "lengthens 0 (BUFFER_FULL_enc (u8_encode v8))" "lengthens 0 (BUFFER_FULL_enc (u16_encode v16))"
  "lengthens 0 (BUFFER_FULL_enc (u24_encode v24))"
  "lengthens 0 (BUFFER_FULL_enc (SpdmNonceStruct_encode bs))" "lengthens 0 (BUFFER_FULL_enc (SpdmRandomStruct_encode bs))"
  "lengthens 0 (full_bytes bs)" "lengthens 0 (asserted_encode sz d)"
  by (auto intro: lengthens_BUFFER_FULL emits_u8 emits_u16 emits_u24 emits_encode_array
      lengthens_0 [OF emits_full_bytes] lengthens_panic
      simp: SpdmNonceStruct_encode_def SpdmRandomStruct_encode_def asserted_encode_def)

lemma lengthens_opaque: "lengthens 0 (SpdmOpaqueStruct_spdm_encode s)"
  unfolding SpdmOpaqueStruct_spdm_encode_def by (rule lengthens_list) (auto simp: lengthens_parts)

lemma lengthens_placeholder:
  assumes "unat n \<le> cap"
  shows "lengthens (unat n) (asserted_encode sz \<lparr>data_size = n, data = replicate cap b\<rparr>)"
  using lengthens_asserted [of sz "\<lparr>data_size = n, data = replicate cap b\<rparr>" "unat n"] assms
  by (auto simp: as_ref_def split: if_splits)

lemma lengthens_last:
  assumes "\<And>e. e \<in> set es \<Longrightarrow> lengthens 0 e" "lengthens n e"
  shows "lengthens n (encs (es @ [e]))"
  using lengthens_append [OF assms(1) lengthens_Cons [OF assms(2) lengthens_Nil]] by simp

lemma lengthens_optional:
  assumes "\<And>e. e \<in> set es \<Longrightarrow> lengthens 0 e" "lengthens n e"
  shows "lengthens (if b then n else 0) (encs (es @ (if b then [e] else [])))"
  using lengthens_last [OF assms] lengthens_list [OF assms(1)] by (cases b) (simp_all del: encs.simps)

lemma negotiated_sizes_bounded:
  "get_asym_key_size ni = Ok n \<Longrightarrow> unat n \<le> SPDM_MAX_ASYM_KEY_SIZE"
  "get_hash_size ni = Ok m \<Longrightarrow> unat m \<le> SPDM_MAX_HASH_SIZE"
  by (auto simp: get_asym_key_size_def get_hash_size_def SpdmBaseAsymAlgo_get_size_def
      SpdmBaseHashAlgo_get_size_def split: if_splits)

end
