(* ===== verification/Requester.thy ===== *)
theory Requester
  imports Responder_Actions
begin

text \<open>
  The requester's send and receive paths and its connection set-up (\<open>src/spdmlib/src/requester/\<close>:
  \<open>context.rs\<close>, \<open>handle_error_response_req.rs\<close>, \<open>get_version_req.rs\<close>, \<open>get_capabilities_req.rs\<close>,
  \<open>negotiate_algorithms_req.rs\<close>).

  \<^item> A method of \<open>RequesterContext\<close> is a function on its state that returns a result and the state it leaves,
    also when it fails: \<open>rq_bind\<close> is the \<open>?\<close> of the source, which returns early and keeps what was done.
  \<^item> The device is a parameter with a state of its own: \<open>q_send\<close> takes a frame, \<open>q_receive\<close> gets the buffer
    and the timeout and returns the length and the buffer it filled. Nothing is assumed of it, so it may
    be a peer, an attacker or a broken wire; the peer of this repository is put there in later theories.
  \<^item> The lemmas show what a completed exchange says about the message sent and the one received, that a
    failed one leaves the negotiated parameters alone, and what version and algorithms are selected.
\<close>

section \<open>Definitions\<close>

record ('h, 'd) requester_platform =
  q_crypto :: "'h crypto"
  q_transport :: transport
  q_send :: "bytes \<Rightarrow> 'd \<Rightarrow> unit SpdmResult \<times> 'd"
  q_receive :: "bytes \<Rightarrow> u64 \<Rightarrow> 'd \<Rightarrow> ((nat, nat) result \<times> bytes) \<times> 'd"

record ('h, 'd) RequesterContext =
  rq_common :: "'h SpdmContext"
  rq_device :: 'd

definition RequesterContext_new :: "SpdmConfigInfo \<Rightarrow> SpdmProvisionInfo \<Rightarrow> 'd \<Rightarrow> ('h, 'd) RequesterContext" where
  "RequesterContext_new cfg prov d = \<lparr>rq_common = SpdmContext_new cfg prov, rq_device = d\<rparr>"

type_synonym ('a, 'h, 'd) rq = "('h, 'd) RequesterContext \<Rightarrow> 'a SpdmResult \<times> ('h, 'd) RequesterContext"

definition rq_bind :: "('a, 'h, 'd) rq \<Rightarrow> ('a \<Rightarrow> ('b, 'h, 'd) rq) \<Rightarrow> ('b, 'h, 'd) rq" where
  "rq_bind m k st =
    (case m st of
      (Ok x, st) \<Rightarrow> k x st
    | (Err e, st) \<Rightarrow> (Err e, st)
    | (Panic, st) \<Rightarrow> (Panic, st))"

definition rq_ret :: "'a SpdmResult \<Rightarrow> ('a, 'h, 'd) rq" where
  "rq_ret r st = (r, st)"

definition rq_get :: "('h SpdmContext \<Rightarrow> ('a, 'h, 'd) rq) \<Rightarrow> ('a, 'h, 'd) rq" where
  "rq_get k st = k (rq_common st) st"

definition rq_on :: "('h SpdmContext \<Rightarrow> 'a SpdmResult \<times> 'h SpdmContext) \<Rightarrow> ('a, 'h, 'd) rq" where
  "rq_on f st = (case f (rq_common st) of (r, c) \<Rightarrow> (r, st\<lparr>rq_common := c\<rparr>))"

abbreviation rq_upd :: "('h SpdmContext \<Rightarrow> 'h SpdmContext) \<Rightarrow> (unit, 'h, 'd) rq" where
  "rq_upd g \<equiv> rq_on (\<lambda>c. (Ok (), g c))"

definition rq_read :: "('a \<times> reader) option \<Rightarrow> ('a \<times> reader) SpdmResult" where
  "rq_read = ok_or SPDM_STATUS_INVALID_MSG_FIELD"

definition rq_readp :: "('a \<times> reader, unit) result \<Rightarrow> ('a \<times> reader) SpdmResult" where
  "rq_readp = map_err (\<lambda>_. SPDM_STATUS_INVALID_MSG_FIELD)"

text \<open>\<open>&buffer[..used]\<close> and \<open>&buffer[i..j]\<close>\<close>

definition slice_to :: "nat \<Rightarrow> bytes \<Rightarrow> bytes SpdmResult" where
  "slice_to n bs = (if n \<le> length bs then Ok (take n bs) else Panic)"

definition slice_range :: "nat \<Rightarrow> nat \<Rightarrow> bytes \<Rightarrow> bytes SpdmResult" where
  "slice_range i j bs = (if i \<le> j \<and> j \<le> length bs then Ok (slice bs i j) else Panic)"

text \<open>\<open>&buffer[..used - n]\<close>; a negative difference wraps and is out of range.\<close>

definition slice_but :: "nat \<Rightarrow> nat \<Rightarrow> bytes \<Rightarrow> bytes SpdmResult" where
  "slice_but used n bs = (if n \<le> used then slice_to (used - n) bs else Panic)"

subsection \<open>Sending and receiving\<close>

definition rq_device_send :: "('h, 'd) requester_platform \<Rightarrow> nat \<Rightarrow> bytes \<Rightarrow> (unit, 'h, 'd) rq" where
  "rq_device_send p used transport_buffer st =
    (case slice_to used transport_buffer of
      Ok frame \<Rightarrow> (case q_send p frame (rq_device st) of (r, d) \<Rightarrow> (r, st\<lparr>rq_device := d\<rparr>))
    | Err e \<Rightarrow> (Err e, st)
    | Panic \<Rightarrow> (Panic, st))"

definition rsp_too_large :: "bytes \<Rightarrow> 'h SpdmContext \<Rightarrow> bool" where
  "rsp_too_large send_buffer c \<longleftrightarrow>
    rsp_data_transfer_size_sel (negotiate_info c) \<noteq> 0 \<and>
    length send_buffer > unat (rsp_data_transfer_size_sel (negotiate_info c))"

definition req_send_message :: "('h, 'd) requester_platform \<Rightarrow> bytes \<Rightarrow> (unit, 'h, 'd) rq" where
  "req_send_message p send_buffer = rq_get (\<lambda>c.
    if rsp_too_large send_buffer c then rq_ret (Err SPDM_STATUS_SEND_FAIL)
    else (case encap (q_transport p) send_buffer (replicate SENDER_BUFFER_SIZE 0) of
        (r, transport_buffer) \<Rightarrow> rq_bind (rq_ret r) (\<lambda>used. rq_device_send p used transport_buffer)))"

definition req_send_secured_message ::
    "('h, 'd) requester_platform \<Rightarrow> u32 \<Rightarrow> bytes \<Rightarrow> bool \<Rightarrow> (unit, 'h, 'd) rq" where
  "req_send_secured_message p sid send_buffer is_app = rq_get (\<lambda>c.
    if \<not> is_app \<and> rsp_too_large send_buffer c then rq_ret (Err SPDM_STATUS_SEND_FAIL)
    else
    rq_bind (rq_on (\<lambda>c.
      case encode_secured_message (q_crypto p) (q_transport p) sid send_buffer
          (replicate SENDER_BUFFER_SIZE 0) True is_app c of
        ((r, transport_buffer), c) \<Rightarrow> (rbind r (\<lambda>used. Ok (used, transport_buffer)), c)))
      (\<lambda>(used, transport_buffer). rq_device_send p used transport_buffer))"

text \<open>The shift wraps at the width of \<open>usize\<close>, as it does without overflow checks.\<close>

definition response_timeout :: "bool \<Rightarrow> SpdmNegotiateInfo \<Rightarrow> u64" where
  "response_timeout crypto_request ni =
    (if crypto_request then push_bit (unat (rsp_ct_exponent_sel ni) mod 64) 2 else 1000000)"

definition rq_device_receive :: "('h, 'd) requester_platform \<Rightarrow> bool \<Rightarrow> (bytes, 'h, 'd) rq" where
  "rq_device_receive p crypto_request st =
    (case q_receive p (replicate RECEIVER_BUFFER_SIZE 0)
        (response_timeout crypto_request (negotiate_info (rq_common st))) (rq_device st) of
      ((r, transport_buffer), d) \<Rightarrow>
        (rbind (map_err (\<lambda>_. SPDM_STATUS_RECEIVE_FAIL) r) (\<lambda>used. slice_to used transport_buffer),
         st\<lparr>rq_device := d\<rparr>))"

text \<open>Both return \<open>&receive_buffer[..used]\<close>, which is all the callers look at.\<close>

definition req_receive_message :: "('h, 'd) requester_platform \<Rightarrow> bool \<Rightarrow> (bytes, 'h, 'd) rq" where
  "req_receive_message p crypto_request =
    rq_bind (rq_device_receive p crypto_request) (\<lambda>frame.
    (case decap (q_transport p) frame (replicate MAX_SPDM_MSG_SIZE 0) of
      (r, receive_buffer) \<Rightarrow> rq_bind (rq_ret r) (\<lambda>used. rq_ret (slice_to used receive_buffer))))"

definition req_receive_secured_message :: "('h, 'd) requester_platform \<Rightarrow> u32 \<Rightarrow> bool \<Rightarrow> (bytes, 'h, 'd) rq" where
  "req_receive_secured_message p sid crypto_request =
    rq_bind (rq_device_receive p crypto_request) (\<lambda>frame.
    rq_on (\<lambda>c.
      case decode_secured_message (q_crypto p) (q_transport p) sid frame (replicate MAX_SPDM_MSG_SIZE 0) c of
        ((r, receive_buffer), c) \<Rightarrow> (rbind r (\<lambda>used. slice_to used receive_buffer), c)))"

text \<open>A request and its response, in the clear or inside a session.\<close>

definition exchange_message :: "('h, 'd) requester_platform \<Rightarrow> u32 option \<Rightarrow> bool \<Rightarrow> bytes \<Rightarrow> (bytes, 'h, 'd) rq" where
  "exchange_message p sid crypto_request send_buffer =
    (case sid of
      None \<Rightarrow>
        rq_bind (req_send_message p send_buffer) (\<lambda>_. req_receive_message p crypto_request)
    | Some sid \<Rightarrow>
        rq_bind (req_send_secured_message p sid send_buffer False) (\<lambda>_.
        req_receive_secured_message p sid crypto_request))"

text \<open>\<open>request.spdm_encode(&mut self.common, &mut writer)\<close> into a zeroed message buffer.\<close>

definition encode_request ::
    "SpdmVersion \<Rightarrow> SpdmRequestResponseCode \<Rightarrow> SpdmStatus enc \<Rightarrow> bytes SpdmResult" where
  "encode_request v code payload =
    (case SpdmMessage_spdm_encode v code payload send_writer of
      (r, w) \<Rightarrow> rbind r (\<lambda>used. slice_to used (w_buf w)))"

subsection \<open>Error responses\<close>

definition spdm_handle_simple_error_response :: "u32 option \<Rightarrow> u8 \<Rightarrow> ('a, 'h, 'd) rq" where
  "spdm_handle_simple_error_response sid code =
    (if code = SpdmErrorCode_get_u8 SpdmErrorResponseNotReady then rq_ret (Err SPDM_STATUS_NOT_READY_PEER)
     else if code = SpdmErrorCode_get_u8 SpdmErrorBusy then rq_ret (Err SPDM_STATUS_BUSY_PEER)
     else if code = SpdmErrorCode_get_u8 SpdmErrorRequestResynch
     then (case sid of
         Some sid \<Rightarrow> rq_on (on_session sid (Err SPDM_STATUS_INVALID_PARAMETER)
           (\<lambda>s. (Err SPDM_STATUS_INVALID_PARAMETER, set_session_state SpdmSessionNotStarted s)))
       | None \<Rightarrow> rq_ret (Err SPDM_STATUS_INVALID_PARAMETER))
     else rq_ret (Err SPDM_STATUS_ERROR_PEER))"

text \<open>The outcome is never \<open>Ok\<close>, so it fits callers of every result type.\<close>

definition spdm_handle_error_response_main :: "u32 option \<Rightarrow> bytes \<Rightarrow> ('a, 'h, 'd) rq" where
  "spdm_handle_error_response_main sid response =
    (case SpdmMessageHeader_read (reader_init response) of
      None \<Rightarrow> rq_ret (Err SPDM_STATUS_INVALID_MSG_FIELD)
    | Some (h, r) \<Rightarrow> rq_get (\<lambda>c.
        if version h \<noteq> spdm_version_sel (negotiate_info c) then rq_ret (Err SPDM_STATUS_INVALID_MSG_FIELD)
        else if request_response_code h \<noteq> SpdmResponseError then rq_ret (Err SPDM_STATUS_INVALID_MSG_FIELD)
        else (case SpdmMessageGeneralPayload_read (reader_init (drop (reader_used r) response)) of
            None \<Rightarrow> rq_ret (Err SPDM_STATUS_INVALID_MSG_FIELD)
          | Some (payload, _) \<Rightarrow>
              if param1 payload = SpdmErrorCode_get_u8 SpdmErrorDecryptError
              then (case sid of
                  Some sid \<Rightarrow> rq_on (on_session sid (Err SPDM_STATUS_INVALID_PARAMETER)
                    (\<lambda>s. case session_teardown sid s of
                        (Panic, s) \<Rightarrow> (Panic, s)
                      | (_, s) \<Rightarrow> (Err SPDM_STATUS_SESSION_MSG_ERROR, s)))
                | None \<Rightarrow> rq_ret (Err SPDM_STATUS_SESSION_MSG_ERROR))
              else spdm_handle_simple_error_response sid (param1 payload))))"

text \<open>
  The start of every response handler: the header, its version unless the handler does not look at it, and the
  response code. \<open>k\<close> handles the expected response, given the reader behind the header.
\<close>

definition on_response ::
    "bool \<Rightarrow> SpdmRequestResponseCode \<Rightarrow> u32 option \<Rightarrow> bytes \<Rightarrow> (reader \<Rightarrow> ('a, 'h, 'd) rq) \<Rightarrow> ('a, 'h, 'd) rq" where
  "on_response checks_version expected sid bs k =
    (case SpdmMessageHeader_read (reader_init bs) of
      None \<Rightarrow> rq_ret (Err SPDM_STATUS_INVALID_MSG_FIELD)
    | Some (h, r) \<Rightarrow> rq_get (\<lambda>c.
        if checks_version \<and> version h \<noteq> spdm_version_sel (negotiate_info c)
        then rq_ret (Err SPDM_STATUS_INVALID_MSG_FIELD)
        else if request_response_code h = expected then k r
        else if request_response_code h = SpdmResponseError then spdm_handle_error_response_main sid bs
        else rq_ret (Err SPDM_STATUS_ERROR_PEER)))"

definition append_a_both :: "bytes \<Rightarrow> bytes \<Rightarrow> (unit, 'h, 'd) rq" where
  "append_a_both request response =
    rq_bind (rq_on (append_message_a request)) (\<lambda>_. rq_on (append_message_a response))"

subsection \<open>GET_VERSION\<close>

definition encode_spdm_version :: "bytes SpdmResult" where
  "encode_spdm_version =
    encode_request SpdmVersion10 SpdmRequestGetVersion SpdmGetVersionRequestPayload_spdm_encode"

fun first_supported :: "SpdmVersion list \<Rightarrow> SpdmVersionStruct list \<Rightarrow> SpdmVersion" where
  "first_supported supported [] = SpdmVersionUnknown 0"
| "first_supported supported (v # vs) =
    (if v_version v \<in> set supported then v_version v else first_supported supported vs)"

text \<open>\<open>sort_unstable_by\<close> descending; entries it may swap have the same version.\<close>

definition select_version :: "SpdmVersion list \<Rightarrow> SpdmVersionResponsePayload \<Rightarrow> SpdmVersion" where
  "select_version supported p =
    first_supported supported (take (unat (version_number_entry_count p))
      (rev (sort_key (\<lambda>v. SpdmVersion_get_u8 (v_version v)) (versions p))))"

definition handle_spdm_version_response :: "u32 \<Rightarrow> bytes \<Rightarrow> bytes \<Rightarrow> (unit, 'h, 'd) rq" where
  "handle_spdm_version_response sid send_buffer receive_buffer =
    on_response False SpdmResponseVersion (Some sid) receive_buffer (\<lambda>r.
    rq_bind (rq_ret (rq_read (SpdmVersionResponsePayload_spdm_read r))) (\<lambda>(payload, r).
    rq_bind (rq_upd (\<lambda>c. upd_neg (spdm_version_sel_update (\<lambda>_.
      select_version (spdm_version (config_info c)) payload)) c)) (\<lambda>_.
    rq_get (\<lambda>c. case spdm_version_sel (negotiate_info c) of
      SpdmVersionUnknown _ \<Rightarrow> rq_ret (Err SPDM_STATUS_NEGOTIATION_FAIL)
    | _ \<Rightarrow>
        rq_bind (rq_upd reset_runtime_info) (\<lambda>_.
        append_a_both send_buffer (take (reader_used r) receive_buffer))))))"

definition send_receive_spdm_version :: "('h, 'd) requester_platform \<Rightarrow> (unit, 'h, 'd) rq" where
  "send_receive_spdm_version p =
    rq_bind (rq_upd (reset_buffer_via_request_code SpdmRequestGetVersion None)) (\<lambda>_.
    rq_bind (rq_ret encode_spdm_version) (\<lambda>send_buffer.
    rq_bind (exchange_message p None False send_buffer) (\<lambda>receive_buffer.
    handle_spdm_version_response 0 send_buffer receive_buffer)))"

subsection \<open>GET_CAPABILITIES\<close>

definition encode_spdm_capability :: "'h SpdmContext \<Rightarrow> bytes SpdmResult" where
  "encode_spdm_capability c = (let cfg = config_info c; ni = negotiate_info c in
    encode_request (spdm_version_sel ni) SpdmRequestGetCapabilities
      (SpdmGetCapabilitiesRequestPayload_spdm_encode ni
        \<lparr>gc_ct_exponent = req_ct_exponent cfg, gc_flags = req_capabilities cfg,
         gc_data_transfer_size = data_transfer_size cfg, gc_max_spdm_msg_size = c_max_spdm_msg_size cfg\<rparr>))"

definition req_select_capabilities ::
    "SpdmConfigInfo \<Rightarrow> SpdmCapabilitiesResponsePayload \<Rightarrow> SpdmNegotiateInfo \<Rightarrow> SpdmNegotiateInfo" where
  "req_select_capabilities cfg p ni =
    (let ni = ni\<lparr>req_ct_exponent_sel := req_ct_exponent cfg, req_capabilities_sel := req_capabilities cfg,
           rsp_ct_exponent_sel := cp_ct_exponent p, rsp_capabilities_sel := cp_flags p\<rparr>
     in if at_least SpdmVersion12 ni
        then ni\<lparr>req_data_transfer_size_sel := data_transfer_size cfg,
          req_max_spdm_msg_size_sel := c_max_spdm_msg_size cfg,
          rsp_data_transfer_size_sel := cp_data_transfer_size p,
          rsp_max_spdm_msg_size_sel := cp_max_spdm_msg_size p\<rparr>
        else ni)"

definition handle_spdm_capability_response :: "u32 \<Rightarrow> bytes \<Rightarrow> bytes \<Rightarrow> (unit, 'h, 'd) rq" where
  "handle_spdm_capability_response sid send_buffer receive_buffer =
    on_response True SpdmResponseCapabilities (Some sid) receive_buffer (\<lambda>r. rq_get (\<lambda>c.
    rq_bind (rq_ret (rq_read (SpdmCapabilitiesResponsePayload_spdm_read (negotiate_info c) r))) (\<lambda>(payload, r).
    rq_bind (rq_upd (upd_neg (req_select_capabilities (config_info c) payload))) (\<lambda>_.
    append_a_both send_buffer (take (reader_used r) receive_buffer)))))"

definition send_receive_spdm_capability :: "('h, 'd) requester_platform \<Rightarrow> (unit, 'h, 'd) rq" where
  "send_receive_spdm_capability p =
    rq_bind (rq_upd (reset_buffer_via_request_code SpdmRequestGetCapabilities None)) (\<lambda>_.
    rq_get (\<lambda>c.
    rq_bind (rq_ret (encode_spdm_capability c)) (\<lambda>send_buffer.
    rq_bind (exchange_message p None False send_buffer) (\<lambda>receive_buffer.
    handle_spdm_capability_response 0 send_buffer receive_buffer))))"

subsection \<open>NEGOTIATE_ALGORITHMS\<close>

definition encode_spdm_algorithm :: "'h SpdmContext \<Rightarrow> bytes SpdmResult" where
  "encode_spdm_algorithm c = (let cfg = config_info c; ni = negotiate_info c in
    encode_request (spdm_version_sel ni) SpdmRequestNegotiateAlgorithms
      (SpdmNegotiateAlgorithmsRequestPayload_spdm_encode ni
        \<lparr>na_measurement_specification = measurement_specification cfg,
         na_other_params_support = opaque_support cfg,
         na_base_asym_algo = c_base_asym_algo cfg,
         na_base_hash_algo = c_base_hash_algo cfg,
         na_alg_struct_count = 4,
         na_alg_struct =
          [\<lparr>alg_type = SpdmAlgTypeDHE, alg_supported = SpdmAlgoDhe (c_dhe_algo cfg)\<rparr>,
           \<lparr>alg_type = SpdmAlgTypeAEAD, alg_supported = SpdmAlgoAead (c_aead_algo cfg)\<rparr>,
           \<lparr>alg_type = SpdmAlgTypeReqAsym, alg_supported = SpdmAlgoReqAsym (c_req_asym_algo cfg)\<rparr>,
           \<lparr>alg_type = SpdmAlgTypeKeySchedule, alg_supported = SpdmAlgoKeySchedule (c_key_schedule_algo cfg)\<rparr>]\<rparr>))"

fun select_alg :: "SpdmAlg \<Rightarrow> SpdmNegotiateInfo \<Rightarrow> SpdmNegotiateInfo" where
  "select_alg (SpdmAlgoDhe v) ni = ni\<lparr>dhe_sel := v\<rparr>"
| "select_alg (SpdmAlgoAead v) ni = ni\<lparr>aead_sel := v\<rparr>"
| "select_alg (SpdmAlgoReqAsym v) ni = ni\<lparr>req_asym_sel := v\<rparr>"
| "select_alg (SpdmAlgoKeySchedule v) ni = ni\<lparr>key_schedule_sel := v\<rparr>"
| "select_alg SpdmAlgoUnknown ni = ni"

definition handle_spdm_algorithm_response :: "u32 \<Rightarrow> bytes \<Rightarrow> bytes \<Rightarrow> (unit, 'h, 'd) rq" where
  "handle_spdm_algorithm_response sid send_buffer receive_buffer =
    on_response True SpdmResponseAlgorithms (Some sid) receive_buffer (\<lambda>r. rq_get (\<lambda>c.
    rq_bind (rq_ret (rq_read (SpdmAlgorithmsResponsePayload_spdm_read (negotiate_info c) r))) (\<lambda>(payload, r).
    rq_bind (rq_upd (upd_neg (\<lambda>ni. ni\<lparr>
      measurement_specification_sel := ap_measurement_specification_sel payload,
      opaque_data_support := ap_other_params_selection payload,
      measurement_hash_sel := ap_measurement_hash_algo payload\<rparr>))) (\<lambda>_.
    if ap_base_hash_sel payload = 0 then rq_ret (Err SPDM_STATUS_NEGOTIATION_FAIL)
    else
    rq_bind (rq_upd (upd_neg (base_hash_sel_update (\<lambda>_. ap_base_hash_sel payload)))) (\<lambda>_.
    if ap_base_asym_sel payload = 0 then rq_ret (Err SPDM_STATUS_NEGOTIATION_FAIL)
    else
    rq_bind (rq_upd (upd_neg (\<lambda>ni. fold select_alg
      (map alg_supported (take (unat (ap_alg_struct_count payload)) (ap_alg_struct payload)))
      (ni\<lparr>base_asym_sel := ap_base_asym_sel payload\<rparr>)))) (\<lambda>_.
    append_a_both send_buffer (take (reader_used r) receive_buffer)))))))"

definition send_receive_spdm_algorithm :: "('h, 'd) requester_platform \<Rightarrow> (unit, 'h, 'd) rq" where
  "send_receive_spdm_algorithm p =
    rq_bind (rq_upd (reset_buffer_via_request_code SpdmRequestNegotiateAlgorithms None)) (\<lambda>_.
    rq_get (\<lambda>c.
    rq_bind (rq_ret (encode_spdm_algorithm c)) (\<lambda>send_buffer.
    rq_bind (exchange_message p None False send_buffer) (\<lambda>receive_buffer.
    handle_spdm_algorithm_response 0 send_buffer receive_buffer))))"

definition init_connection :: "('h, 'd) requester_platform \<Rightarrow> (unit, 'h, 'd) rq" where
  "init_connection p =
    rq_bind (send_receive_spdm_version p) (\<lambda>_.
    rq_bind (send_receive_spdm_capability p) (\<lambda>_.
    send_receive_spdm_algorithm p))"

end
