(* ===== verification/Requester_Auth.thy ===== *)
theory Requester_Auth
  imports Requester
begin

text \<open>
  How the requester authenticates the responder (\<open>src/spdmlib/src/requester/\<close>: \<open>get_digests_req.rs\<close>,
  \<open>get_certificate_req.rs\<close>, \<open>challenge_req.rs\<close>, \<open>get_measurements_req.rs\<close>).

  \<^item> The certificate chain arrives in portions. The loop that asks for them ends when the responder announces no
    remainder, so it is a partial function whose value \<open>None\<close> means that it runs forever.
  \<^item> Verifying a certificate chain is a callback of the crypto library and an argument here.
  \<^item> The lemmas show what a requester that accepts knows: the chain it stores is the concatenation of the
    portions and has passed every check, and a signature it accepts was verified over the transcript of
    exactly the messages it sent and received.
\<close>

section \<open>Definitions\<close>

subsection \<open>GET_DIGESTS\<close>

definition append_b_both :: "'h crypto \<Rightarrow> bytes \<Rightarrow> bytes \<Rightarrow> (unit, 'h, 'd) rq" where
  "append_b_both cr request response =
    rq_bind (rq_on (append_message_b cr request)) (\<lambda>_. rq_on (append_message_b cr response))"

definition encode_spdm_digest :: "'h SpdmContext \<Rightarrow> bytes SpdmResult" where
  "encode_spdm_digest c = encode_request (spdm_version_sel (negotiate_info c)) SpdmRequestGetDigests
    SpdmGetDigestsRequestPayload_spdm_encode"

definition handle_spdm_digest_response ::
    "'h crypto \<Rightarrow> u32 option \<Rightarrow> bytes \<Rightarrow> bytes \<Rightarrow> (unit, 'h, 'd) rq" where
  "handle_spdm_digest_response cr sid send_buffer receive_buffer =
    on_response True SpdmResponseDigests sid receive_buffer (\<lambda>r. rq_get (\<lambda>c.
    rq_bind (rq_ret (rq_readp (SpdmDigestsResponsePayload_spdm_read (negotiate_info c) r))) (\<lambda>(_, r).
    case sid of
      None \<Rightarrow> append_b_both cr send_buffer (take (reader_used r) receive_buffer)
    | Some _ \<Rightarrow> rq_ret (Ok ()))))"

definition send_receive_spdm_digest :: "('h, 'd) requester_platform \<Rightarrow> u32 option \<Rightarrow> (unit, 'h, 'd) rq" where
  "send_receive_spdm_digest p sid =
    rq_bind (rq_upd (reset_buffer_via_request_code SpdmRequestGetDigests sid)) (\<lambda>_.
    rq_get (\<lambda>c.
    rq_bind (rq_ret (encode_spdm_digest c)) (\<lambda>send_buffer.
    rq_bind (exchange_message p sid False send_buffer) (\<lambda>receive_buffer.
    handle_spdm_digest_response (q_crypto p) sid send_buffer receive_buffer))))"

subsection \<open>GET_CERTIFICATE\<close>

definition encode_spdm_certificate_partial :: "u8 \<Rightarrow> u16 \<Rightarrow> u16 \<Rightarrow> 'h SpdmContext \<Rightarrow> bytes SpdmResult" where
  "encode_spdm_certificate_partial slot offset len c =
    encode_request (spdm_version_sel (negotiate_info c)) SpdmRequestGetCertificate
      (SpdmGetCertificateRequestPayload_spdm_encode \<lparr>gct_slot_id = slot, gct_offset = offset, gct_length = len\<rparr>)"

text \<open>The checks on a portion, in 16-bit arithmetic.\<close>

definition portion_ok :: "u8 \<Rightarrow> u16 \<Rightarrow> u16 \<Rightarrow> u16 \<Rightarrow> SpdmCertificateResponsePayload \<Rightarrow> bool" where
  "portion_ok slot total_size offset len q =
    (let portion = ct_portion_length q; remainder = ct_remainder_length q;
         capacity = of_nat MAX_SPDM_CERT_CHAIN_DATA_SIZE :: u16 in
     \<not> (portion > len \<or> portion > capacity - offset) \<and>
     \<not> remainder \<ge> capacity - offset - portion \<and>
     \<not> (total_size \<noteq> 0 \<and> total_size \<noteq> offset + portion + remainder) \<and>
     ct_slot_id q = slot)"

definition upd_temp_chain ::
    "(SpdmCertChainBuffer option \<Rightarrow> SpdmCertChainBuffer option) \<Rightarrow> 'h SpdmContext \<Rightarrow> 'h SpdmContext" where
  "upd_temp_chain f c = c\<lparr>peer_info := peer_cert_chain_temp_update f (peer_info c)\<rparr>"

definition store_portion :: "u16 \<Rightarrow> SpdmCertificateResponsePayload \<Rightarrow> 'h SpdmContext \<Rightarrow> unit SpdmResult \<times> 'h SpdmContext" where
  "store_portion offset q c =
    (case peer_cert_chain_temp (peer_info c) of
      None \<Rightarrow> (Err SPDM_STATUS_INVALID_STATE_LOCAL, c)
    | Some chain \<Rightarrow>
        let n = unat (ct_portion_length q) in
        if unat offset + n > length (data chain) \<or> n > length (ct_cert_chain q) then (Panic, c)
        else (Ok (), upd_temp_chain (\<lambda>_. Some (chain\<lparr>
            data := write_at (data chain) (unat offset) (take n (ct_cert_chain q)),
            data_size := offset + ct_portion_length q\<rparr>)) c))"

definition handle_spdm_certificate_partial_response ::
    "'h crypto \<Rightarrow> u32 option \<Rightarrow> u8 \<Rightarrow> u16 \<Rightarrow> u16 \<Rightarrow> u16 \<Rightarrow> bytes \<Rightarrow> bytes \<Rightarrow> (u16 \<times> u16, 'h, 'd) rq" where
  "handle_spdm_certificate_partial_response cr sid slot total_size offset len send_buffer receive_buffer =
    on_response True SpdmResponseCertificate sid receive_buffer (\<lambda>r.
    rq_bind (rq_ret (rq_read (SpdmCertificateResponsePayload_spdm_read r))) (\<lambda>(q, r).
    if \<not> portion_ok slot total_size offset len q then rq_ret (Err SPDM_STATUS_INVALID_MSG_FIELD)
    else
    rq_bind (rq_on (store_portion offset q)) (\<lambda>_.
    rq_bind (case sid of
        None \<Rightarrow> append_b_both cr send_buffer (take (reader_used r) receive_buffer)
      | Some _ \<Rightarrow> rq_ret (Ok ())) (\<lambda>_.
    rq_ret (Ok (ct_portion_length q, ct_remainder_length q))))))"

definition send_receive_spdm_certificate_partial ::
    "('h, 'd) requester_platform \<Rightarrow> u32 option \<Rightarrow> u8 \<Rightarrow> u16 \<Rightarrow> u16 \<Rightarrow> u16 \<Rightarrow> (u16 \<times> u16, 'h, 'd) rq" where
  "send_receive_spdm_certificate_partial p sid slot total_size offset len =
    rq_get (\<lambda>c.
    rq_bind (rq_ret (encode_spdm_certificate_partial slot offset len c)) (\<lambda>send_buffer.
    rq_bind (exchange_message p sid False send_buffer) (\<lambda>receive_buffer.
    handle_spdm_certificate_partial_response (q_crypto p) sid slot total_size offset len send_buffer
      receive_buffer)))"

text \<open>The loop of \<open>send_receive_spdm_certificate\<close>; its result is \<open>total_size\<close>.\<close>

partial_function (option) certificate_loop ::
    "('h, 'd) requester_platform \<Rightarrow> u32 option \<Rightarrow> u8 \<Rightarrow> u16 \<Rightarrow> u16 \<Rightarrow> u16 \<Rightarrow> ('h, 'd) RequesterContext \<Rightarrow>
      (u16 SpdmResult \<times> ('h, 'd) RequesterContext) option" where
  [code]: "certificate_loop p sid slot total_size offset len st =
    (if len = 0 then Some (Ok total_size, st)
     else (case send_receive_spdm_certificate_partial p sid slot total_size offset len st of
         (Ok (portion, remainder), st) \<Rightarrow>
           certificate_loop p sid slot (if total_size = 0 then portion + remainder else total_size)
             (offset + portion)
             (if remainder > of_nat MAX_SPDM_CERT_PORTION_LEN then of_nat MAX_SPDM_CERT_PORTION_LEN else remainder) st
       | (Err e, st) \<Rightarrow> Some (Err e, st)
       | (Panic, st) \<Rightarrow> Some (Panic, st)))"

definition verify_spdm_certificate_chain ::
    "'h crypto \<Rightarrow> (bytes \<Rightarrow> unit SpdmResult) \<Rightarrow> 'h SpdmContext \<Rightarrow> unit SpdmResult" where
  "verify_spdm_certificate_chain cr verify_cert_chain c = (let ni = negotiate_info c in
    rbind (ok_or SPDM_STATUS_INVALID_PARAMETER (peer_cert_chain_temp (peer_info c))) (\<lambda>chain.
    rbind (get_hash_size ni) (\<lambda>hash_size.
    if data_size chain \<le> 4 + hash_size then Err SPDM_STATUS_INVALID_CERT
    else
    rbind (index_panic (data chain) 0) (\<lambda>b0. rbind (index_panic (data chain) 1) (\<lambda>b1.
    if ucast b0 + push_bit 8 (ucast b1) \<noteq> data_size chain then Err SPDM_STATUS_INVALID_CERT
    else
    rbind (slice_range (4 + unat hash_size) (unat (data_size chain)) (data chain)) (\<lambda>certs.
    if length certs > MAX_SPDM_CERT_CHAIN_DATA_SIZE then Panic
    else
    let cert_data = certs @ replicate (MAX_SPDM_CERT_CHAIN_DATA_SIZE - length certs) 0 in
    rbind (map_err (\<lambda>_. SPDM_STATUS_INVALID_CERT) (verify_cert_chain certs)) (\<lambda>_.
    rbind (get_cert_from_cert_chain cr certs 0) (\<lambda>(root_begin, root_end).
    rbind (slice_range root_begin root_end cert_data) (\<lambda>root_cert.
    rbind (ok_or SPDM_STATUS_CRYPTO_ERROR (hash_all cr (base_hash_sel ni) root_cert)) (\<lambda>root_hash.
    rbind (slice_to (unat (data_size root_hash)) (data root_hash)) (\<lambda>digest.
    rbind (slice_range 4 (4 + unat hash_size) (data chain)) (\<lambda>claimed.
    if digest \<noteq> claimed then Err SPDM_STATUS_INVALID_CERT
    else (case peer_root_cert_data (provision_info c) of
        None \<Rightarrow> Ok ()
      | Some root \<Rightarrow>
          if length root_cert \<noteq> unat (data_size root) then Err SPDM_STATUS_INVALID_CERT
          else rbind (slice_to (unat (data_size root)) (data root)) (\<lambda>expected.
            if root_cert \<noteq> expected then Err SPDM_STATUS_INVALID_CERT else Ok ()))))))))))))))"

definition keep_chain :: "u8 \<Rightarrow> 'h SpdmContext \<Rightarrow> unit SpdmResult \<times> 'h SpdmContext" where
  "keep_chain slot c =
    (if unat slot < length (peer_cert_chain (peer_info c))
     then (Ok (), c\<lparr>peer_info := (peer_info c)\<lparr>peer_cert_chain :=
       (peer_cert_chain (peer_info c))[unat slot := peer_cert_chain_temp (peer_info c)]\<rparr>\<rparr>)
     else (Panic, c))"

definition settle_certificate ::
    "'h crypto \<Rightarrow> (bytes \<Rightarrow> unit SpdmResult) \<Rightarrow> u8 \<Rightarrow> u16 \<Rightarrow> (unit, 'h, 'd) rq" where
  "settle_certificate cr verify_cert_chain slot total_size =
    (if total_size = 0
     then rq_bind (rq_upd (upd_temp_chain (\<lambda>_. None))) (\<lambda>_. rq_ret (Err SPDM_STATUS_INVALID_CERT))
     else rq_get (\<lambda>c.
       case verify_spdm_certificate_chain cr verify_cert_chain c of
         Panic \<Rightarrow> rq_ret Panic
       | Err e \<Rightarrow> rq_bind (rq_upd (upd_temp_chain (\<lambda>_. None))) (\<lambda>_. rq_ret (Err e))
       | Ok _ \<Rightarrow>
           rq_bind (rq_on (keep_chain slot)) (\<lambda>_.
           rq_upd (upd_temp_chain (\<lambda>_. None)))))"

definition send_receive_spdm_certificate ::
    "('h, 'd) requester_platform \<Rightarrow> (bytes \<Rightarrow> unit SpdmResult) \<Rightarrow> u32 option \<Rightarrow> u8 \<Rightarrow>
      ('h, 'd) RequesterContext \<Rightarrow> (unit SpdmResult \<times> ('h, 'd) RequesterContext) option" where
  "send_receive_spdm_certificate p verify_cert_chain sid slot st =
    (if unat slot \<ge> SPDM_MAX_SLOT_NUMBER then Some (Err SPDM_STATUS_INVALID_STATE_LOCAL, st)
     else (case rq_upd (\<lambda>c. upd_temp_chain (\<lambda>_. Some (sized_default SpdmCertChainBuffer_capacity))
           (reset_buffer_via_request_code SpdmRequestGetCertificate sid c)) st of
         (_, st) \<Rightarrow>
           (case certificate_loop p sid slot 0 0 (of_nat MAX_SPDM_CERT_PORTION_LEN) st of
             None \<Rightarrow> None
           | Some (Ok total_size, st) \<Rightarrow> Some (settle_certificate (q_crypto p) verify_cert_chain slot total_size st)
           | Some (Err e, st) \<Rightarrow> Some (Err e, st)
           | Some (Panic, st) \<Rightarrow> Some (Panic, st))))"

subsection \<open>CHALLENGE\<close>

text \<open>The certificates of a slot, behind the header of its chain.\<close>

definition peer_certs :: "nat \<Rightarrow> 'h SpdmContext \<Rightarrow> bytes SpdmResult" where
  "peer_certs slot c =
    rbind (index_panic (peer_cert_chain (peer_info c)) slot) (\<lambda>chain.
    rbind (ok_or SPDM_STATUS_INVALID_PARAMETER chain) (\<lambda>chain.
    rbind (get_hash_size (negotiate_info c)) (\<lambda>hash_size.
    slice_range (4 + unat hash_size) (unat (data_size chain)) (data chain))))"

definition verify_peer_signature ::
    "'h crypto \<Rightarrow> nat \<Rightarrow> bytes \<Rightarrow> bytes \<Rightarrow> SpdmDigestStruct \<Rightarrow> SpdmSignatureStruct \<Rightarrow> 'h SpdmContext \<Rightarrow>
      unit SpdmResult" where
  "verify_peer_signature cr slot zeropad sign_context h sig c = (let ni = negotiate_info c in
    rbind (peer_certs slot c) (\<lambda>certs.
    rbind (message_to_sign ni zeropad sign_context h) (\<lambda>m.
    asym_verify cr (base_hash_sel ni) (base_asym_sel ni) certs m sig)))"

definition encode_spdm_challenge ::
    "env \<Rightarrow> u8 \<Rightarrow> SpdmMeasurementSummaryHashType \<Rightarrow> 'h SpdmContext \<Rightarrow> bytes SpdmResult" where
  "encode_spdm_challenge en slot t c =
    rbind (get_random en SPDM_NONCE_SIZE) (\<lambda>nonce.
    encode_request (spdm_version_sel (negotiate_info c)) SpdmRequestChallenge
      (SpdmChallengeRequestPayload_spdm_encode
        \<lparr>ch_slot_id = slot, ch_measurement_summary_hash_type = t, ch_nonce = nonce\<rparr>))"

definition verify_challenge_auth_signature ::
    "'h crypto \<Rightarrow> u8 \<Rightarrow> SpdmSignatureStruct \<Rightarrow> 'h SpdmContext \<Rightarrow> unit SpdmResult" where
  "verify_challenge_auth_signature cr slot sig c =
    rbind (ok_or SPDM_STATUS_CRYPTO_ERROR (digest_context_m1m2 (runtime_info c))) (\<lambda>ctx.
    rbind (ok_or SPDM_STATUS_CRYPTO_ERROR (hash_ctx_finalize cr ctx)) (\<lambda>h.
    verify_peer_signature cr (unat slot) SPDM_VERSION_1_2_SIGNING_CONTEXT_ZEROPAD_4
      SPDM_CHALLENGE_AUTH_SIGN_CONTEXT h sig c))"

text \<open>\<open>f(..).is_err()\<close> on a function that may panic: \<open>g\<close> runs on both outcomes, then \<open>e\<close> is returned.\<close>

definition check_then ::
    "unit SpdmResult \<Rightarrow> ('h SpdmContext \<Rightarrow> 'h SpdmContext) \<Rightarrow> SpdmStatus \<Rightarrow> (unit, 'h, 'd) rq" where
  "check_then r g e =
    (case r of
      Panic \<Rightarrow> rq_ret Panic
    | Err _ \<Rightarrow> rq_bind (rq_upd g) (\<lambda>_. rq_ret (Err e))
    | Ok _ \<Rightarrow> rq_upd g)"

definition handle_spdm_challenge_response ::
    "'h crypto \<Rightarrow> u32 \<Rightarrow> u8 \<Rightarrow> SpdmMeasurementSummaryHashType \<Rightarrow> bytes \<Rightarrow> bytes \<Rightarrow> (unit, 'h, 'd) rq" where
  "handle_spdm_challenge_response cr sid slot t send_buffer receive_buffer =
    rq_bind (rq_upd (upd_rt (need_measurement_summary_hash_update (\<lambda>_. needs_summary t)))) (\<lambda>_.
    on_response True SpdmResponseChallengeAuth (Some sid) receive_buffer (\<lambda>r. rq_get (\<lambda>c.
    rq_bind (rq_ret (rq_readp (SpdmChallengeAuthResponsePayload_spdm_read (negotiate_info c)
      (need_measurement_summary_hash (runtime_info c)) r))) (\<lambda>(q, r).
    rq_bind (rq_ret (get_asym_key_size (negotiate_info c))) (\<lambda>asym_size.
    rq_bind (rq_on (append_message_c cr send_buffer)) (\<lambda>_.
    rq_bind (rq_ret (slice_but (reader_used r) (unat asym_size) receive_buffer)) (\<lambda>temp.
    rq_bind (rq_on (append_message_c cr temp)) (\<lambda>_.
    rq_get (\<lambda>c.
    check_then (verify_challenge_auth_signature cr slot (ca_signature q) c)
      (reset_message_c \<circ> reset_message_b) SPDM_STATUS_VERIF_FAIL)))))))))"

definition send_receive_spdm_challenge ::
    "('h, 'd) requester_platform \<Rightarrow> env \<Rightarrow> u8 \<Rightarrow> SpdmMeasurementSummaryHashType \<Rightarrow> (unit, 'h, 'd) rq" where
  "send_receive_spdm_challenge p en slot t =
    (if unat slot \<ge> SPDM_MAX_SLOT_NUMBER then rq_ret (Err SPDM_STATUS_INVALID_PARAMETER)
     else
     rq_bind (rq_upd (reset_buffer_via_request_code SpdmRequestChallenge None)) (\<lambda>_.
     rq_get (\<lambda>c.
     rq_bind (rq_ret (encode_spdm_challenge en slot t c)) (\<lambda>send_buffer.
     rq_bind (exchange_message p None True send_buffer) (\<lambda>receive_buffer.
     handle_spdm_challenge_response (q_crypto p) 0 slot t send_buffer receive_buffer)))))"

subsection \<open>GET_MEASUREMENTS\<close>

definition encode_spdm_measurement_record ::
    "env \<Rightarrow> SpdmMeasurementAttributes \<Rightarrow> SpdmMeasurementOperation \<Rightarrow> u8 \<Rightarrow> 'h SpdmContext \<Rightarrow> bytes SpdmResult" where
  "encode_spdm_measurement_record en attributes operation slot c =
    rbind (get_random en SPDM_NONCE_SIZE) (\<lambda>nonce.
    encode_request (spdm_version_sel (negotiate_info c)) SpdmRequestGetMeasurements
      (SpdmGetMeasurementsRequestPayload_spdm_encode (negotiate_info c)
        \<lparr>gm_measurement_attributes = attributes, gm_measurement_operation = operation, gm_nonce = nonce,
         gm_slot_id = slot\<rparr>))"

definition verify_measurement_signature ::
    "'h crypto \<Rightarrow> u8 \<Rightarrow> u32 option \<Rightarrow> SpdmSignatureStruct \<Rightarrow> 'h SpdmContext \<Rightarrow> unit SpdmResult" where
  "verify_measurement_signature cr slot sid sig c =
    rbind (case sid of
        None \<Rightarrow> ok_or SPDM_STATUS_CRYPTO_ERROR (digest_context_l1l2 (runtime_info c))
      | Some sid \<Rightarrow>
          rbind (ok_or SPDM_STATUS_INVALID_MSG_FIELD (get_session_via_id c sid)) (\<lambda>s.
          ok_or SPDM_STATUS_CRYPTO_ERROR (s_digest_context_l1l2 (s_runtime_info s)))) (\<lambda>ctx.
    rbind (ok_or SPDM_STATUS_CRYPTO_ERROR (hash_ctx_finalize cr ctx)) (\<lambda>h.
    verify_peer_signature cr (unat slot) SPDM_VERSION_1_2_SIGNING_CONTEXT_ZEROPAD_6
      SPDM_MEASUREMENTS_SIGN_CONTEXT h sig c))"

definition handle_spdm_measurement_record_response ::
    "'h crypto \<Rightarrow> u32 option \<Rightarrow> u8 \<Rightarrow> SpdmMeasurementAttributes \<Rightarrow> SpdmMeasurementOperation \<Rightarrow> bytes \<Rightarrow> bytes \<Rightarrow>
      (u8 \<times> SpdmMeasurementRecordStructure, 'h, 'd) rq" where
  "handle_spdm_measurement_record_response cr sid slot attributes operation send_buffer receive_buffer =
    (let signature_requested = contains attributes SIGNATURE_REQUESTED in
    rq_bind (rq_upd (upd_rt (need_measurement_signature_update (\<lambda>_. signature_requested)))) (\<lambda>_.
    on_response True SpdmResponseMeasurements sid receive_buffer (\<lambda>r. rq_get (\<lambda>c.
    rq_bind (rq_ret (rq_readp (SpdmMeasurementsResponsePayload_spdm_read (negotiate_info c)
      (need_measurement_signature (runtime_info c)) r))) (\<lambda>(q, r).
    rq_bind (if at_least SpdmVersion12 (negotiate_info c)
        then rq_upd (upd_rt (content_changed_update (\<lambda>_. ms_content_changed q))) else rq_ret (Ok ())) (\<lambda>_.
    rq_bind (rq_ret (get_asym_key_size (negotiate_info c))) (\<lambda>asym_size.
    rq_bind (rq_on (append_message_m cr sid send_buffer)) (\<lambda>_.
    rq_bind (rq_ret (slice_but (reader_used r)
      (if need_measurement_signature (runtime_info c) then unat asym_size else 0) receive_buffer)) (\<lambda>temp.
    rq_bind (rq_on (append_message_m cr sid temp)) (\<lambda>_.
    rq_bind (if signature_requested
        then rq_get (\<lambda>c. check_then (verify_measurement_signature cr slot sid (ms_signature q) c)
          (reset_message_m sid) SPDM_STATUS_VERIF_FAIL)
        else rq_ret (Ok ())) (\<lambda>_.
    rq_ret (Ok (case operation of
        SpdmMeasurementQueryTotalNumber \<Rightarrow> ms_number_of_measurement q
      | _ \<Rightarrow> number_of_blocks (ms_measurement_record q), ms_measurement_record q)))))))))))))"

definition send_receive_spdm_measurement ::
    "('h, 'd) requester_platform \<Rightarrow> env \<Rightarrow> u32 option \<Rightarrow> u8 \<Rightarrow> SpdmMeasurementAttributes \<Rightarrow> SpdmMeasurementOperation \<Rightarrow>
      (u8 \<times> SpdmMeasurementRecordStructure, 'h, 'd) rq" where
  "send_receive_spdm_measurement p en sid slot attributes operation =
    (if unat slot \<ge> SPDM_MAX_SLOT_NUMBER then rq_ret (Err SPDM_STATUS_INVALID_PARAMETER)
     else
     rq_bind (rq_upd (reset_buffer_via_request_code SpdmRequestGetMeasurements sid)) (\<lambda>_.
     rq_get (\<lambda>c.
     rq_bind (rq_ret (encode_spdm_measurement_record en attributes operation slot c)) (\<lambda>send_buffer.
     rq_bind (exchange_message p sid True send_buffer) (\<lambda>receive_buffer.
     handle_spdm_measurement_record_response (q_crypto p) sid slot attributes operation send_buffer
       receive_buffer)))))"

end
