(* ===== verification/Responder_Auth.thy ===== *)
theory Responder_Auth
  imports Responder_Actions
begin

text \<open>
  The responder's authentication handlers (\<open>src/spdmlib/src/responder/\<close>: \<open>digest_rsp.rs\<close>,
  \<open>certificate_rsp.rs\<close>, \<open>challenge_rsp.rs\<close>, \<open>measurement_rsp.rs\<close>).

  \<^item> Each \<open>write_*_response\<close> is an act that follows the source step by step. The response is encoded
    with placeholder digests and signatures, which are overwritten in the buffer before sending.
  \<^item> CHALLENGE and GET_MEASUREMENTS send an ERROR of their own when signing fails and then return, and
    their caller still sends what is in the writer: the acts return \<open>True\<close> in that case and
    \<open>handle_signed\<close> performs both sends.
  \<^item> The lemmas show the portions a requester is served, which transcript is signed, and that an
    authentication handler touches neither the sessions' state nor the negotiated parameters.
\<close>

section \<open>Definitions\<close>

subsection \<open>Digests\<close>

definition slot_mask_of :: "'h SpdmContext \<Rightarrow> u8" where
  "slot_mask_of c =
    foldl (\<lambda>m i. if has_my_chain i c then m OR push_bit i 1 else m) 0 [0..<SPDM_MAX_SLOT_NUMBER]"

definition append_outside_session ::
    "('h SpdmContext \<Rightarrow> unit SpdmResult \<times> 'h SpdmContext) \<Rightarrow> u32 option \<Rightarrow> (unit, unit, 'h) act" where
  "append_outside_session app sid =
    (case sid of None \<Rightarrow> attempt SpdmErrorUnspecified () app | Some _ \<Rightarrow> ret ())"

definition patch_digest :: "'h crypto \<Rightarrow> nat \<Rightarrow> (unit, unit, 'h) act" where
  "patch_digest cr i = ask (\<lambda>c.
    if has_my_chain i c
    then seq (expect (my_chain i c)) (\<lambda>chain.
      seq (expect (ok_or () (hash_all cr (base_hash_sel (negotiate_info c)) (as_ref chain)))) (\<lambda>h.
      patch (unat (data_size h)) 0 (as_ref h)))
    else ret ())"

definition respond_digests :: "'h crypto \<Rightarrow> (unit, unit, 'h) act" where
  "respond_digests cr = ask (\<lambda>c.
    seq (expect (get_hash_size (negotiate_info c))) (\<lambda>digest_size.
    seq (respond () SpdmResponseDigests (\<lambda>c. SpdmDigestsResponsePayload_spdm_encode (negotiate_info c)
        \<lparr>dg_slot_mask = slot_mask_of c,
         dg_digests = replicate SPDM_MAX_SLOT_NUMBER
           \<lparr>data_size = digest_size, data = replicate SPDM_MAX_HASH_SIZE 0xFF\<rparr>\<rparr>)) (\<lambda>_.
    each (patch_digest cr) [0..<SPDM_MAX_SLOT_NUMBER])))"

definition write_spdm_digest_response ::
    "'h crypto \<Rightarrow> u32 option \<Rightarrow> bytes \<Rightarrow> (unit, unit, 'h) act" where
  "write_spdm_digest_response cr sid bs =
    seq (require_negotiated ()) (\<lambda>_.
    seq (read_header () bs) (\<lambda>(_, r).
    seq (change (reset_buffer_via_request_code SpdmRequestGetDigests sid)) (\<lambda>_.
    seq (parse () (\<lambda>_. rd_lift SpdmGetDigestsRequestPayload_spdm_read) r) (\<lambda>(_, r).
    seq (append_outside_session (append_message_b cr (take (reader_used r) bs)) sid) (\<lambda>_.
    seq (respond_digests cr) (\<lambda>_.
    seq (written_but 0) (\<lambda>m.
    append_outside_session (append_message_b cr m) sid)))))))"

definition handle_spdm_digest ::
    "'h platform \<Rightarrow> bytes \<Rightarrow> u32 option \<Rightarrow> 'h ResponderContext \<Rightarrow>
      (unit SpdmResult \<times> 'h ResponderContext) option" where
  "handle_spdm_digest p bs sid = handle_act p sid (write_spdm_digest_response (p_crypto p) sid bs)"

subsection \<open>Certificates\<close>

definition certificate_portion ::
    "SpdmGetCertificateRequestPayload \<Rightarrow> SpdmCertChainBuffer \<Rightarrow> (SpdmCertificateResponsePayload, unit) result" where
  "certificate_portion q chain =
    (let len = min (gct_length q) (of_nat MAX_SPDM_CERT_PORTION_LEN); offset = gct_offset q
     in if offset > data_size chain then Err ()
        else let len = (if len > data_size chain - offset then data_size chain - offset else len)
          in if unat offset + unat len > length (data chain) then Panic
             else Ok \<lparr>ct_slot_id = gct_slot_id q, ct_portion_length = len,
               ct_remainder_length = data_size chain - (len + offset),
               ct_cert_chain = slice (data chain) (unat offset) (unat offset + unat len) @
                 replicate (MAX_SPDM_CERT_PORTION_LEN - unat len) 0\<rparr>)"

definition write_spdm_certificate_response ::
    "'h crypto \<Rightarrow> u32 option \<Rightarrow> bytes \<Rightarrow> (unit, unit, 'h) act" where
  "write_spdm_certificate_response cr sid bs =
    seq (require_negotiated ()) (\<lambda>_.
    seq (read_header () bs) (\<lambda>(_, r).
    seq (change (reset_buffer_via_request_code SpdmRequestGetCertificate sid)) (\<lambda>_.
    seq (parse () (\<lambda>_. rd_lift SpdmGetCertificateRequestPayload_spdm_read) r) (\<lambda>(q, r).
    if gct_slot_id q \<noteq> 0 then refuse SpdmErrorInvalidRequest ()
    else
    seq (append_outside_session (append_message_b cr (take (reader_used r) bs)) sid) (\<lambda>_.
    seq (require_slot () (unat (gct_slot_id q))) (\<lambda>_.
    ask (\<lambda>c.
    seq (expect (my_chain (unat (gct_slot_id q)) c)) (\<lambda>chain.
    seq (or_refuse SpdmErrorInvalidRequest () (certificate_portion q chain)) (\<lambda>payload.
    seq (respond () SpdmResponseCertificate (\<lambda>c. SpdmCertificateResponsePayload_spdm_encode payload)) (\<lambda>_.
    seq (written_but 0) (\<lambda>m.
    append_outside_session (append_message_b cr m) sid)))))))))))"

definition handle_spdm_certificate ::
    "'h platform \<Rightarrow> bytes \<Rightarrow> u32 option \<Rightarrow> 'h ResponderContext \<Rightarrow>
      (unit SpdmResult \<times> 'h ResponderContext) option" where
  "handle_spdm_certificate p bs sid = handle_act p sid (write_spdm_certificate_response (p_crypto p) sid bs)"

subsection \<open>Signed responses\<close>

text \<open>
  The end of both signed responses: the message without its signature goes to the transcript, which is
  then signed. \<open>True\<close> stands for the call of \<open>send_spdm_error\<close> before the early return.
\<close>

definition complete_signature ::
    "u16 \<Rightarrow> (bytes \<Rightarrow> 'h SpdmContext \<Rightarrow> unit SpdmResult \<times> 'h SpdmContext) \<Rightarrow>
      ('h SpdmContext \<Rightarrow> SpdmSignatureStruct SpdmResult) \<Rightarrow> ('h SpdmContext \<Rightarrow> 'h SpdmContext) \<Rightarrow>
      (bool, unit, 'h) act" where
  "complete_signature n app sign reset =
    seq (written_but (unat n)) (\<lambda>m.
    seq (attempt SpdmErrorUnspecified () (app m)) (\<lambda>_.
    ask (\<lambda>c. case sign c of
        Panic \<Rightarrow> panics
      | Err _ \<Rightarrow> ret True
      | Ok signature \<Rightarrow>
          seq (patch (unat n) 0 (as_ref signature)) (\<lambda>_.
          seq (change reset) (\<lambda>_. ret False)))))"

definition handle_signed ::
    "'h platform \<Rightarrow> u32 option \<Rightarrow> (bool, unit, 'h) act \<Rightarrow> 'h ResponderContext \<Rightarrow>
      (unit SpdmResult \<times> 'h ResponderContext) option" where
  "handle_signed p sid m rc =
    (case m send_writer (common rc) of
      (Panic, w, c) \<Rightarrow> Some (Panic, rc\<lparr>common := c\<rparr>)
    | (r, w, c) \<Rightarrow>
        let finish = (\<lambda>rc. case sid of
            None \<Rightarrow> send_message p (writer_used_slice w) rc
          | Some sid \<Rightarrow> send_secured_message p sid (writer_used_slice w) False rc)
        in if r = Ok True
           then (case send_spdm_error p SpdmErrorUnspecified 0 (rc\<lparr>common := c\<rparr>) of
               None \<Rightarrow> None
             | Some (Panic, rc) \<Rightarrow> Some (Panic, rc)
             | Some (_, rc) \<Rightarrow> finish rc)
           else finish (rc\<lparr>common := c\<rparr>))"

subsection \<open>Challenge\<close>

definition generate_challenge_auth_signature ::
    "'h crypto \<Rightarrow> env \<Rightarrow> 'h SpdmContext \<Rightarrow> SpdmSignatureStruct SpdmResult" where
  "generate_challenge_auth_signature cr en c =
    rbind (unwrap (digest_context_m1m2 (runtime_info c))) (\<lambda>h.
    rbind (ok_or SPDM_STATUS_CRYPTO_ERROR (hash_ctx_finalize cr h)) (\<lambda>message_m1m2_hash.
    sign_hash en (negotiate_info c) SPDM_VERSION_1_2_SIGNING_CONTEXT_ZEROPAD_4
      SPDM_CHALLENGE_AUTH_SIGN_CONTEXT message_m1m2_hash))"

definition write_spdm_challenge_response :: "'h crypto \<Rightarrow> env \<Rightarrow> bytes \<Rightarrow> (bool, unit, 'h) act" where
  "write_spdm_challenge_response cr en bs =
    seq (require_negotiated ()) (\<lambda>_.
    seq (read_header () bs) (\<lambda>(_, r).
    seq (change (reset_buffer_via_request_code SpdmRequestChallenge None)) (\<lambda>_.
    seq (parse () (\<lambda>ni. rd_lift (SpdmChallengeRequestPayload_spdm_read ni)) r) (\<lambda>(q, r).
    seq (take_summary_hash en () (ch_measurement_summary_hash_type q)) (\<lambda>summary_hash.
    seq (require_slot () (unat (ch_slot_id q))) (\<lambda>_.
    seq (attempt SpdmErrorUnspecified () (append_message_c cr (take (reader_used r) bs))) (\<lambda>_.
    ask (\<lambda>c.
    seq (expect (my_chain (unat (ch_slot_id q)) c)) (\<lambda>chain.
    seq (expect (ok_or () (hash_all cr (base_hash_sel (negotiate_info c)) (as_ref chain)))) (\<lambda>chain_hash.
    seq (or_refuse SpdmErrorUnspecified () (get_random en SPDM_NONCE_SIZE)) (\<lambda>nonce.
    seq (expect (get_asym_key_size (negotiate_info c))) (\<lambda>n.
    seq (respond () SpdmResponseChallengeAuth (\<lambda>c. SpdmChallengeAuthResponsePayload_spdm_encode
        (negotiate_info c) (need_measurement_summary_hash (runtime_info c))
        \<lparr>ca_slot_id = ch_slot_id q, ca_slot_mask = 1, ca_challenge_auth_attribute = 0,
         ca_cert_chain_hash = chain_hash, ca_nonce = nonce, ca_measurement_summary_hash = summary_hash,
         ca_opaque = sized_default MAX_SPDM_OPAQUE_SIZE,
         ca_signature = \<lparr>data_size = n, data = replicate SPDM_MAX_ASYM_KEY_SIZE 0xBB\<rparr>\<rparr>)) (\<lambda>_.
    complete_signature n (append_message_c cr) (generate_challenge_auth_signature cr en)
      (reset_message_c \<circ> reset_message_b))))))))))))))"

definition handle_spdm_challenge ::
    "'h platform \<Rightarrow> env \<Rightarrow> bytes \<Rightarrow> 'h ResponderContext \<Rightarrow> (unit SpdmResult \<times> 'h ResponderContext) option" where
  "handle_spdm_challenge p en bs = handle_signed p None (write_spdm_challenge_response (p_crypto p) en bs)"

subsection \<open>Measurements\<close>

definition generate_measurement_signature ::
    "'h crypto \<Rightarrow> env \<Rightarrow> u32 option \<Rightarrow> 'h SpdmContext \<Rightarrow> SpdmSignatureStruct SpdmResult" where
  "generate_measurement_signature cr en sid c =
    rbind (case sid of
        Some sid \<Rightarrow> rbind (unwrap (get_session_via_id c sid)) (\<lambda>s.
          unwrap (s_digest_context_l1l2 (s_runtime_info s)))
      | None \<Rightarrow> unwrap (digest_context_l1l2 (runtime_info c))) (\<lambda>h.
    rbind (ok_or SPDM_STATUS_CRYPTO_ERROR (hash_ctx_finalize cr h)) (\<lambda>message_l1l2_hash.
    sign_hash en (negotiate_info c) SPDM_VERSION_1_2_SIGNING_CONTEXT_ZEROPAD_6
      SPDM_MEASUREMENTS_SIGN_CONTEXT message_l1l2_hash))"

text \<open>The device's measurements: the number of blocks, and the record the operation asks for.\<close>

definition collect ::
    "env \<Rightarrow> SpdmNegotiateInfo \<Rightarrow> u8 \<Rightarrow> SpdmMeasurementRecordStructure SpdmResult" where
  "collect en ni index = unwrap (measurement_collection en (spdm_version_sel ni)
    (measurement_specification_sel ni) (measurement_hash_sel ni) (unat index))"

definition requested_record ::
    "env \<Rightarrow> SpdmNegotiateInfo \<Rightarrow> u8 \<Rightarrow> SpdmMeasurementOperation \<Rightarrow>
      (SpdmMeasurementRecordStructure, unit, 'h) act" where
  "requested_record en ni blocks op =
    (case op of
      SpdmMeasurementRequestAll \<Rightarrow> expect (collect en ni (SpdmMeasurementOperation_get_u8 op))
    | SpdmMeasurementOperationUnknown index \<Rightarrow>
        if index > blocks then refuse SpdmErrorInvalidRequest () else expect (collect en ni index)
    | SpdmMeasurementQueryTotalNumber \<Rightarrow> ret SpdmMeasurementRecordStructure_default)"

text \<open>The part of the handler between the request and the response: the signature size and the payload.\<close>

definition gather_measurement ::
    "'h crypto \<Rightarrow> env \<Rightarrow> u32 option \<Rightarrow> bytes \<Rightarrow> SpdmGetMeasurementsRequestPayload \<Rightarrow>
      (u16 \<times> SpdmMeasurementsResponsePayload, unit, 'h) act" where
  "gather_measurement cr en sid request q =
    ask (\<lambda>c. let ni = negotiate_info c; op = gm_measurement_operation q;
        with_sig = contains (gm_measurement_attributes q) SIGNATURE_REQUESTED in
    seq (expect (get_asym_key_size ni)) (\<lambda>n.
    seq (change (upd_rt (need_measurement_signature_update (\<lambda>_. with_sig)))) (\<lambda>_.
    seq (if with_sig then require_slot () (unat (gm_slot_id q))
      else if gm_slot_id q \<noteq> 0 then refuse SpdmErrorInvalidRequest () else ret ()) (\<lambda>_.
    seq (attempt SpdmErrorUnspecified () (append_message_m cr sid request)) (\<lambda>_.
    seq (expect (collect en ni (SpdmMeasurementOperation_get_u8 SpdmMeasurementQueryTotalNumber))) (\<lambda>device.
    seq (requested_record en ni (number_of_blocks device) op) (\<lambda>rec.
    seq (or_refuse SpdmErrorUnspecified () (get_random en SPDM_NONCE_SIZE)) (\<lambda>nonce.
    ret (n,
      \<lparr>ms_number_of_measurement =
         (if op = SpdmMeasurementRequestAll \<or> op = SpdmMeasurementQueryTotalNumber
          then number_of_blocks device else 1),
       ms_content_changed =
         (if runtime_content_change_support (config_info c) \<and> at_least SpdmVersion12 ni
          then content_changed (runtime_info c) else 0),
       ms_slot_id = gm_slot_id q, ms_measurement_record = rec, ms_nonce = nonce,
       ms_opaque = sized_default MAX_SPDM_OPAQUE_SIZE,
       ms_signature = \<lparr>data_size = n, data = replicate SPDM_MAX_ASYM_KEY_SIZE 0x60\<rparr>\<rparr>)))))))))"

text \<open>The measurement response and, when it was asked for, its signature.\<close>

definition respond_measurement ::
    "'h crypto \<Rightarrow> env \<Rightarrow> u32 option \<Rightarrow> bytes \<Rightarrow> SpdmGetMeasurementsRequestPayload \<Rightarrow> (bool, unit, 'h) act" where
  "respond_measurement cr en sid request q =
    seq (gather_measurement cr en sid request q) (\<lambda>(n, payload).
    seq (respond () SpdmResponseMeasurements (\<lambda>c. SpdmMeasurementsResponsePayload_spdm_encode
      (negotiate_info c) (need_measurement_signature (runtime_info c)) payload)) (\<lambda>_.
    if contains (gm_measurement_attributes q) SIGNATURE_REQUESTED
    then complete_signature n (append_message_m cr sid) (generate_measurement_signature cr en sid)
      (reset_message_m sid)
    else seq (written_but 0) (\<lambda>m.
      seq (attempt SpdmErrorUnspecified () (append_message_m cr sid m)) (\<lambda>_. ret False))))"

definition write_spdm_measurement_response ::
    "'h crypto \<Rightarrow> env \<Rightarrow> u32 option \<Rightarrow> bytes \<Rightarrow> (bool, unit, 'h) act" where
  "write_spdm_measurement_response cr en sid bs =
    seq (require_negotiated ()) (\<lambda>_.
    seq (read_header () bs) (\<lambda>(_, r).
    seq (change (reset_buffer_via_request_code SpdmRequestGetMeasurements sid)) (\<lambda>_.
    seq (parse () (\<lambda>ni. rd_lift (SpdmGetMeasurementsRequestPayload_spdm_read ni)) r) (\<lambda>(q, r).
    respond_measurement cr en sid (take (reader_used r) bs) q))))"

definition handle_spdm_measurement ::
    "'h platform \<Rightarrow> env \<Rightarrow> u32 option \<Rightarrow> bytes \<Rightarrow> 'h ResponderContext \<Rightarrow>
      (unit SpdmResult \<times> 'h ResponderContext) option" where
  "handle_spdm_measurement p en sid bs =
    handle_signed p sid (write_spdm_measurement_response (p_crypto p) en sid bs)"

section \<open>The handlers are safe\<close>

text \<open>The digest that the crypto callback returns has the size of its algorithm.\<close>

definition hash_size_law :: "'h crypto \<Rightarrow> bool" where
  "hash_size_law cr \<longleftrightarrow> (\<forall>a bs d. hash_all cr a bs = Some d \<longrightarrow> SpdmBaseHashAlgo_get_size a = Ok (data_size d))"

lemma safe_append_outside [safe_rules]:
  "(\<And>c. harmless new c (snd (app c))) \<Longrightarrow> safe c0 new code ph (append_outside_session app sid) ph"
  unfolding append_outside_session_def by (rule safe_rules | assumption)+

lemma slot_mask_bit:
  assumes "i < 8"
  shows "bit (slot_mask_of c) i \<longleftrightarrow> has_my_chain i c"
proof -
  have step: "bit (if has_my_chain j c then m OR push_bit j 1 else m) i \<longleftrightarrow> bit m i \<or> j = i \<and> has_my_chain i c"
    for j and m :: u8
    using assms by (auto simp: bit_or_iff bit_exp_iff)
  have "bit (foldl (\<lambda>m j. if has_my_chain j c then m OR push_bit j 1 else m) m js) i \<longleftrightarrow>
      bit m i \<or> i \<in> set js \<and> has_my_chain i c" for js and m :: u8
    by (induction js arbitrary: m) (simp, simp only: foldl_Cons step list.set insert_iff, blast)
  from this [of 0] show ?thesis using assms by (simp add: slot_mask_of_def)
qed

lemma slot_count_pos:
  assumes "i < 8" "has_my_chain i c"
  shows "0 < slot_count (slot_mask_of c)"
proof -
  have "bit (slot_mask_of c AND push_bit i 1) i"
    using assms by (simp add: bit_and_iff bit_exp_iff slot_mask_bit)
  then have "slot_mask_of c AND push_bit i 1 \<noteq> 0" by (metis bit_0_eq bot_apply bot_bool_def)
  with assms(1) have "filter (\<lambda>i. slot_mask_of c AND push_bit i 1 \<noteq> 0) [0..<8] \<noteq> []"
    by (auto simp: filter_empty_conv)
  then show ?thesis by (simp add: slot_count_def)
qed

lemma lengthens_digests:
  assumes "unat n \<le> SPDM_MAX_HASH_SIZE"
  shows "lengthens (if slot_count m = 0 then 0 else unat n) (SpdmDigestsResponsePayload_spdm_encode ni
    \<lparr>dg_slot_mask = m, dg_digests = replicate 8 \<lparr>data_size = n, data = replicate SPDM_MAX_HASH_SIZE b\<rparr>\<rparr>)"
proof -
  let ?d = "\<lparr>data_size = n, data = replicate SPDM_MAX_HASH_SIZE b\<rparr>"
  let ?hd = "[BUFFER_FULL_enc (u8_encode 0), BUFFER_FULL_enc (u8_encode m)]"
  let ?e = "asserted_encode (get_hash_size ni) ?d"
  have "take (slot_count m) (replicate 8 ?d) = replicate (slot_count m) ?d"
    using slot_count_le by (simp add: min_def)
  then have eq: "SpdmDigestsResponsePayload_spdm_encode ni \<lparr>dg_slot_mask = m, dg_digests = replicate 8 ?d\<rparr> =
      encs (?hd @ replicate (slot_count m) ?e)"
    by (simp add: SpdmDigestsResponsePayload_spdm_encode_def SpdmDigestStruct_spdm_encode_def)
  show ?thesis
  proof (cases "slot_count m")
    case 0
    have "lengthens 0 (encs ?hd)" by (rule lengthens_list) (auto simp: lengthens_parts)
    then show ?thesis unfolding eq by (simp add: 0 del: encs.simps)
  next
    case (Suc k)
    have "lengthens (unat n) (encs ((?hd @ replicate k ?e) @ [?e]))"
      using lengthens_placeholder [OF assms]
      by (intro lengthens_last) (auto simp: lengthens_parts dest: in_set_replicate [THEN iffD1])
    moreover have "replicate (Suc k) ?e = replicate k ?e @ [?e]" by (simp add: replicate_append_same)
    ultimately show ?thesis unfolding eq Suc by (simp del: encs.simps replicate.simps)
  qed
qed

lemma patch_digest_coded:
  assumes "hash_size_law cr" "get_hash_size (negotiate_info c) = Ok n" "i < 8"
    and k: "k = (if slot_count (slot_mask_of c) = 0 then 0 else unat n)"
  shows "valid_act (\<lambda>w c'. coded code k w \<and> c' = c) (patch_digest cr i) (\<lambda>_ w c'. coded code k w \<and> c' = c) E"
proof (cases "has_my_chain i c")
  case True
  have "unat (data_size h) \<le> k" if "hash_all cr (base_hash_sel (negotiate_info c)) bs = Some h" for bs h
    using that assms(1-3) slot_count_pos [OF assms(3) True] k by (auto simp: hash_size_law_def get_hash_size_def)
  then show ?thesis using True
    unfolding patch_digest_def
    by (auto simp: valid_ask_same intro!: valid_seq_expect valid_patch)
qed (simp add: patch_digest_def valid_ask_same valid_ret)

lemma safe_respond_digests [safe_rules]:
  assumes "hash_size_law cr"
  shows "safe c0 new SpdmResponseDigests Blank (respond_digests cr) (Coded 0)"
  unfolding safe_def respond_digests_def
proof (rule valid_ask)
  fix c :: "'a SpdmContext"
  let ?b = "\<lambda>n. seq (respond () SpdmResponseDigests (\<lambda>c. SpdmDigestsResponsePayload_spdm_encode (negotiate_info c)
        \<lparr>dg_slot_mask = slot_mask_of c, dg_digests = replicate SPDM_MAX_SLOT_NUMBER
           \<lparr>data_size = n, data = replicate SPDM_MAX_HASH_SIZE 0xFF\<rparr>\<rparr>)) (\<lambda>_.
      each (patch_digest cr) [0..<SPDM_MAX_SLOT_NUMBER])"
  have "valid_act (\<lambda>w c'. w = send_writer \<and> c' = c) (?b n)
      (\<lambda>_ w c'. coded SpdmResponseDigests 0 w \<and> c' = c) (\<lambda>_ w c'. coded SpdmResponseDigests 0 w \<and> c' = c)"
    if n: "get_hash_size (negotiate_info c) = Ok n" for n
  proof -
    let ?k = "if slot_count (slot_mask_of c) = 0 then 0 else unat n"
    have "valid_act (\<lambda>w c'. coded SpdmResponseDigests ?k w \<and> c' = c) (each (patch_digest cr) [0..<8])
        (\<lambda>_ w c'. coded SpdmResponseDigests ?k w \<and> c' = c) (\<lambda>_ w c'. coded SpdmResponseDigests 0 w \<and> c' = c)"
      by (rule valid_each) (auto intro: patch_digest_coded [OF assms n])
    then have "valid_act (\<lambda>w c'. coded SpdmResponseDigests ?k w \<and> c' = c) (each (patch_digest cr) [0..<8])
        (\<lambda>_ w c'. coded SpdmResponseDigests 0 w \<and> c' = c) (\<lambda>_ w c'. coded SpdmResponseDigests 0 w \<and> c' = c)"
      by (rule valid_weaken) (auto dest: coded_mono)
    then show ?thesis
      using lengthens_digests [OF negotiated_sizes_bounded(2) [OF n]]
      by (intro valid_seq [OF valid_respond [where n = ?k]]) simp_all
  qed
  then have "valid_act (\<lambda>w c'. w = send_writer \<and> c' = c) (seq (expect (get_hash_size (negotiate_info c))) ?b)
      (\<lambda>_ w c'. coded SpdmResponseDigests 0 w \<and> c' = c) (\<lambda>_ w c'. coded SpdmResponseDigests 0 w \<and> c' = c)"
    by (cases "get_hash_size (negotiate_info c)") (simp_all add: valid_act_def seq_def [of "expect _"] expect_def)
  then show "valid_act (\<lambda>w c'. (in_phase SpdmResponseDigests Blank w \<and> harmless new c0 c') \<and> c' = c)
      (seq (expect (get_hash_size (negotiate_info c))) ?b)
      (\<lambda>_ w c'. in_phase SpdmResponseDigests (Coded 0) w \<and> harmless new c0 c')
      (\<lambda>_ w c'. coded SpdmResponseDigests 0 w \<and> harmless new c0 c')"
    by (fastforce simp: valid_act_def split: prod.splits result.splits)
qed

lemma safe_digest:
  assumes "hash_size_law cr"
  shows "safe c0 new SpdmResponseDigests Blank (write_spdm_digest_response cr sid bs) (Coded 0)"
  unfolding write_spdm_digest_response_def by (rule safe_rules harmless_rules assms)+

lemma lengthens_certificate: "lengthens 0 (SpdmCertificateResponsePayload_spdm_encode p)"
  unfolding SpdmCertificateResponsePayload_spdm_encode_def by (rule lengthens_list) (auto simp: lengthens_parts)

lemma safe_certificate:
  "safe c0 new SpdmResponseCertificate Blank (write_spdm_certificate_response cr sid bs) (Coded 0)"
  unfolding write_spdm_certificate_response_def
  by (rule safe_rules safe_respond harmless_rules lengthens_certificate)+

lemma safe_complete_signature:
  assumes "\<And>c m. harmless new c (snd (app m c))" "\<And>c. harmless new c (reset c)"
  shows "safe c0 new code (Coded (unat n)) (complete_signature n app sign reset) (Coded 0)"
proof -
  have "safe c0 new code (Coded (unat n)) (complete_signature n app sign reset) (Coded (unat n))"
    unfolding complete_signature_def by (rule safe_rules assms safe_patch order_refl)+
  then show ?thesis by (rule safe_weaken) simp
qed

lemma lengthens_challenge:
  assumes "unat n \<le> SPDM_MAX_ASYM_KEY_SIZE"
    "ca_signature p = \<lparr>data_size = n, data = replicate SPDM_MAX_ASYM_KEY_SIZE b\<rparr>"
  shows "lengthens (unat n) (SpdmChallengeAuthResponsePayload_spdm_encode ni summary p)"
proof -
  let ?es = "[BUFFER_FULL_enc (u8_encode (ca_slot_id p + ca_challenge_auth_attribute p)),
     BUFFER_FULL_enc (u8_encode (ca_slot_mask p)),
     SpdmDigestStruct_spdm_encode ni (ca_cert_chain_hash p),
     BUFFER_FULL_enc (SpdmNonceStruct_encode (ca_nonce p))] @
    (if summary then [SpdmDigestStruct_spdm_encode ni (ca_measurement_summary_hash p)] else []) @
    [SpdmOpaqueStruct_spdm_encode (ca_opaque p)]"
  have "lengthens (unat n) (encs (?es @ [SpdmSignatureStruct_spdm_encode ni (ca_signature p)]))"
    using lengthens_placeholder [OF assms(1)] assms(2)
    by (intro lengthens_last) (auto simp: lengthens_parts lengthens_opaque SpdmDigestStruct_spdm_encode_def
        SpdmSignatureStruct_spdm_encode_def split: if_splits)
  then show ?thesis by (simp add: SpdmChallengeAuthResponsePayload_spdm_encode_def del: encs.simps)
qed

lemma safe_challenge:
  "safe c0 new SpdmResponseChallengeAuth Blank (write_spdm_challenge_response cr en bs) (Coded 0)"
  unfolding write_spdm_challenge_response_def
  by (rule safe_seq_expect safe_rules safe_respond safe_complete_signature lengthens_challenge
      negotiated_sizes_bounded(1) harmless_rules | assumption | simp add: harmless_after_b)+

lemma safe_requested_record [safe_rules]: "safe c0 new code ph (requested_record en ni blocks op) ph"
  unfolding requested_record_def by (cases op) (auto intro: safe_rules)

lemma safe_gather_measurement: "safe c0 new code Blank (gather_measurement cr en sid request q) Blank"
  unfolding gather_measurement_def by (rule safe_rules harmless_rules)+

text \<open>The flag that decides whether the response carries a signature is what the request asked for.\<close>

lemma need_signature_append_m [simp]:
  "need_measurement_signature (runtime_info (snd (append_message_m cr sid bs c))) =
    need_measurement_signature (runtime_info c)"
  by (cases sid) (auto simp: append_message_m_def on_session_def upd_session_via_id_def Let_def
      split: prod.splits option.splits)

lemma gather_measurement_keeps:
  assumes J: "J = (\<lambda>w c. need_measurement_signature (runtime_info c) = b)"
  shows "valid_act J (require_slot e i) (\<lambda>_. J) (\<lambda>_ _ _. True)"
    "valid_act J (attempt code e (append_message_m cr sid m)) (\<lambda>_. J) (\<lambda>_ _ _. True)"
    "valid_act J (requested_record en ni blocks op) (\<lambda>_. J) (\<lambda>_ _ _. True)"
    "valid_act J (or_refuse code e r) (\<lambda>_. J) (\<lambda>_ _ _. True)"
proof -
  show "valid_act J (require_slot e i) (\<lambda>_. J) (\<lambda>_ _ _. True)"
    unfolding require_slot_def by (auto intro!: act_rules)
  show "valid_act J (requested_record en ni blocks op) (\<lambda>_. J) (\<lambda>_ _ _. True)"
    by (cases op) (auto simp: requested_record_def intro!: act_rules)
  show "valid_act J (or_refuse code e r) (\<lambda>_. J) (\<lambda>_ _ _. True)" by (auto intro!: act_rules)
  show "valid_act J (attempt code e (append_message_m cr sid m)) (\<lambda>_. J) (\<lambda>_ _ _. True)"
    unfolding J using need_signature_append_m [of cr sid m] by (intro valid_attempt) (metis snd_conv, simp)
qed

lemma gather_measurement_flag:
  fixes q :: SpdmGetMeasurementsRequestPayload
  defines "b \<equiv> contains (gm_measurement_attributes q) SIGNATURE_REQUESTED"
  shows "valid_act (\<lambda>_ _. True) (gather_measurement cr en sid request q)
    (\<lambda>(n, p) w c. need_measurement_signature (runtime_info c) = b \<and> unat n \<le> SPDM_MAX_ASYM_KEY_SIZE \<and>
      ms_signature p = \<lparr>data_size = n, data = replicate SPDM_MAX_ASYM_KEY_SIZE 0x60\<rparr>)
    (\<lambda>_ _ _. True)"
proof -
  define J where J: "J = (\<lambda>(w :: writer) (c :: 'a SpdmContext). need_measurement_signature (runtime_info c) = b)"
  note keeps = gather_measurement_keeps [OF J]
  note step = valid_seq [where P = J and R = "\<lambda>_. J" and E = "\<lambda>_ _ _. True"]
  show ?thesis
    unfolding gather_measurement_def Let_def b_def [symmetric]
    apply (rule valid_ask, rule valid_seq_expect, rule valid_seq [where R = "\<lambda>_. J"])
     apply (rule valid_change, simp add: J)
    apply (rule step, rule valid_if, rule keeps, rule valid_if, rule valid_refuse, simp, rule valid_ret, assumption)
    apply (rule step, rule keeps)
    apply (rule valid_seq_expect, rule step, rule keeps, rule step, rule keeps, rule valid_ret)
    apply (simp add: J negotiated_sizes_bounded)
    done
qed

lemma lengthens_measurements:
  assumes "unat n \<le> SPDM_MAX_ASYM_KEY_SIZE"
    "ms_signature p = \<lparr>data_size = n, data = replicate SPDM_MAX_ASYM_KEY_SIZE b\<rparr>"
  shows "lengthens (if with_sig then unat n else 0) (SpdmMeasurementsResponsePayload_spdm_encode ni with_sig p)"
proof -
  let ?u = "if at_least SpdmVersion12 ni \<and> with_sig then ms_slot_id p OR ms_content_changed p
    else if at_least SpdmVersion11 ni \<and> with_sig then ms_slot_id p else 0"
  let ?es = "[BUFFER_FULL_enc (u8_encode (if ms_number_of_measurement p = 1 then 0 else ms_number_of_measurement p)),
     BUFFER_FULL_enc (u8_encode ?u), SpdmMeasurementRecordStructure_spdm_encode (ms_measurement_record p),
     BUFFER_FULL_enc (SpdmNonceStruct_encode (ms_nonce p)), SpdmOpaqueStruct_spdm_encode (ms_opaque p)]"
  have "lengthens 0 (SpdmMeasurementRecordStructure_spdm_encode (ms_measurement_record p))"
    unfolding SpdmMeasurementRecordStructure_spdm_encode_def by (rule lengthens_list) (auto simp: lengthens_parts)
  then have es: "lengthens 0 e" if "e \<in> set ?es" for e using that by (auto simp: lengthens_parts lengthens_opaque)
  have "lengthens (unat n) (SpdmSignatureStruct_spdm_encode ni (ms_signature p))"
    using lengthens_placeholder [OF assms(1)] assms(2) by (simp add: SpdmSignatureStruct_spdm_encode_def)
  then have "lengthens (if with_sig then unat n else 0)
      (encs (?es @ (if with_sig then [SpdmSignatureStruct_spdm_encode ni (ms_signature p)] else [])))"
    by (intro lengthens_optional es)
  then show ?thesis unfolding SpdmMeasurementsResponsePayload_spdm_encode_def .
qed

lemma safe_respond_measurement:
  fixes q :: SpdmGetMeasurementsRequestPayload
  shows "safe c0 new SpdmResponseMeasurements Blank (respond_measurement cr en sid request q) (Coded 0)"
  unfolding safe_def
proof -
  let ?H = "\<lambda>w c. w = send_writer \<and> harmless new c0 c"
  let ?E = "\<lambda>(e :: unit) w c. coded SpdmResponseMeasurements 0 w \<and> harmless new c0 c"
  let ?Q = "\<lambda>(x :: bool) w c. coded SpdmResponseMeasurements 0 w \<and> harmless new c0 c"
  define b where b: "b = contains (gm_measurement_attributes q) SIGNATURE_REQUESTED"
  let ?finish = "\<lambda>n. if b then complete_signature n (append_message_m cr sid) (generate_measurement_signature cr en sid)
      (reset_message_m sid)
    else seq (written_but 0) (\<lambda>m. seq (attempt SpdmErrorUnspecified () (append_message_m cr sid m)) (\<lambda>_. ret False))"
  have fin: "safe c0 new SpdmResponseMeasurements (Coded (if b then unat n else 0)) (?finish n) (Coded 0)" for n
    by (cases b) (simp_all, (rule safe_rules safe_complete_signature harmless_rules)+)
  have gather: "valid_act ?H (gather_measurement cr en sid request q)
      (\<lambda>(n, p) w c. ?H w c \<and> need_measurement_signature (runtime_info c) = b \<and> unat n \<le> SPDM_MAX_ASYM_KEY_SIZE \<and>
        ms_signature p = \<lparr>data_size = n, data = replicate SPDM_MAX_ASYM_KEY_SIZE 0x60\<rparr>) ?E"
    using valid_conj [OF safe_gather_measurement [unfolded safe_def] gather_measurement_flag]
    unfolding b by (rule valid_weaken) auto
  have "valid_act ?H (respond_measurement cr en sid request q) ?Q ?E"
    unfolding respond_measurement_def b [symmetric]
  proof (rule valid_seq [OF gather], clarify)
    fix n and p :: SpdmMeasurementsResponsePayload
    let ?P = "\<lambda>w c. ?H w c \<and> need_measurement_signature (runtime_info c) = b \<and> unat n \<le> SPDM_MAX_ASYM_KEY_SIZE \<and>
        ms_signature p = \<lparr>data_size = n, data = replicate SPDM_MAX_ASYM_KEY_SIZE 0x60\<rparr>"
    let ?I = "\<lambda>c. harmless new c0 c \<and> need_measurement_signature (runtime_info c) = b \<and> unat n \<le> SPDM_MAX_ASYM_KEY_SIZE \<and>
        ms_signature p = \<lparr>data_size = n, data = replicate SPDM_MAX_ASYM_KEY_SIZE 0x60\<rparr>"
    let ?respond = "respond () SpdmResponseMeasurements (\<lambda>c. SpdmMeasurementsResponsePayload_spdm_encode
      (negotiate_info c) (need_measurement_signature (runtime_info c)) p)"
    have "valid_act ?P ?respond
        (\<lambda>_ w c. coded SpdmResponseMeasurements (if b then unat n else 0) w \<and> harmless new c0 c) ?E"
      by (rule valid_weaken [OF valid_respond [where I = ?I and n = "if b then unat n else 0"]])
        (use lengthens_measurements in auto)
    from valid_seq [OF this, of "\<lambda>_. ?finish n" ?Q] fin [unfolded safe_def in_phase.simps]
    show "valid_act ?P (seq ?respond (\<lambda>_. ?finish n)) ?Q ?E" by blast
  qed
  then show "valid_act (\<lambda>w c. in_phase SpdmResponseMeasurements Blank w \<and> harmless new c0 c)
      (respond_measurement cr en sid request q)
      (\<lambda>_ w c. in_phase SpdmResponseMeasurements (Coded 0) w \<and> harmless new c0 c) ?E"
    by simp
qed

lemma safe_measurement:
  "safe c0 new SpdmResponseMeasurements Blank (write_spdm_measurement_response cr en sid bs) (Coded 0)"
  unfolding write_spdm_measurement_response_def
  by (rule safe_rules safe_respond_measurement harmless_rules)+

end
