(* ===== verification/Responder_Session.thy ===== *)
theory Responder_Session
  imports Responder_Auth
begin

text \<open>
  The responder's session handlers (\<open>src/spdmlib/src/responder/\<close>: \<open>key_exchange_rsp.rs\<close>,
  \<open>finish_rsp.rs\<close>, \<open>psk_exchange_rsp.rs\<close>, \<open>psk_finish_rsp.rs\<close>, \<open>heartbeat_rsp.rs\<close>, \<open>key_update_rsp.rs\<close>,
  \<open>end_session_rsp.rs\<close>, \<open>vendor_rsp.rs\<close>).

  \<^item> The four handshake handlers return a result; an early return carries the status of the source and
    keeps every change made to the session table before it.
  \<^item> A session is set up in the first free entry of the table, reached by the identifier 0, and from
    then on by its own identifier.
  \<^item> The lemmas show what a completed handshake has checked, which transcript its keys come from, and
    what each handler leaves of the other sessions.
\<close>

section \<open>Definitions\<close>

subsection \<open>Parts shared by the key exchanges\<close>

definition refuse_old_version :: "SpdmMessageHeader \<Rightarrow> (unit, SpdmStatus, 'h) act" where
  "refuse_old_version h =
    (if SpdmVersion_get_u8 (version h) < SpdmVersion_get_u8 SpdmVersion11
     then refuse SpdmErrorUnsupportedRequest SPDM_STATUS_INVALID_MSG_FIELD else ret ())"

definition version_selection :: "bytes \<Rightarrow> u8 \<Rightarrow> SpdmOpaqueStruct \<Rightarrow> SpdmOpaqueStruct" where
  "version_selection template v opaque = opaque\<lparr>
    data_size := of_nat (length template),
    data := (write_at (data opaque) 0 template)[length template - 1 := v]\<rparr>"

text \<open>The two nested loops over the offered and the local versions; there is no \<open>break\<close>.\<close>

fun match_versions ::
    "SpdmNegotiateInfo \<Rightarrow> (u8 \<times> u8) list \<Rightarrow> SpdmOpaqueStruct \<Rightarrow> (SpdmOpaqueStruct, SpdmErrorCode) result" where
  "match_versions ni [] opaque = Ok opaque"
| "match_versions ni ((offered, local_version) # ps) opaque =
    (if offered \<noteq> local_version then match_versions ni ps opaque
     else if \<not> at_least SpdmVersion12 ni
     then match_versions ni ps
       (version_selection RSP_DMTF_OPAQUE_DATA_VERSION_SELECTION_DSP0277 local_version opaque)
     else if opaque_data_support ni = SpdmOpaqueSupport_OPAQUE_DATA_FMT1
     then match_versions ni ps
       (version_selection RSP_DMTF_OPAQUE_DATA_VERSION_SELECTION_DSP0274_FMT1 local_version opaque)
     else Err SpdmErrorUnsupportedRequest)"

definition select_secured_version ::
    "SpdmConfigInfo \<Rightarrow> SpdmNegotiateInfo \<Rightarrow> SpdmOpaqueStruct \<Rightarrow> (SpdmOpaqueStruct, SpdmErrorCode) result" where
  "select_secured_version cfg ni opaque =
    (case rsp_get_dmtf_supported_secure_spdm_version_list ni opaque of
      None \<Rightarrow> Ok (sized_default MAX_SPDM_OPAQUE_SIZE)
    | Some l \<Rightarrow>
        if version_count l > of_nat MAX_SECURE_SPDM_VERSION_COUNT then Err SpdmErrorInvalidRequest
        else match_versions ni
          (List.product (map get_secure_spdm_version (take (unat (version_count l)) (versions_list l)))
            (secure_spdm_version cfg))
          (sized_default MAX_SPDM_OPAQUE_SIZE))"

definition answer_opaque :: "SpdmOpaqueStruct \<Rightarrow> (SpdmOpaqueStruct, SpdmStatus, 'h) act" where
  "answer_opaque opaque = ask (\<lambda>c.
    case select_secured_version (config_info c) (negotiate_info c) opaque of
      Ok answer \<Rightarrow> ret answer
    | Err code \<Rightarrow> refuse code SPDM_STATUS_INVALID_MSG_FIELD
    | Panic \<Rightarrow> panics)"

definition session_id_of :: "u16 \<Rightarrow> u16 \<Rightarrow> u32" where
  "session_id_of rsp req = push_bit 16 (ucast rsp) + ucast req"

definition crypto_params :: "SpdmNegotiateInfo \<Rightarrow> transport \<Rightarrow> 'h SpdmSession \<Rightarrow> 'h SpdmSession" where
  "crypto_params ni t s =
    set_transport_param (t_get_sequence_number_count t) (t_get_max_random_count t)
      (set_crypto_param (base_hash_sel ni) (dhe_sel ni) (aead_sel ni) (key_schedule_sel ni) s)"

definition append_k :: "'h crypto \<Rightarrow> u32 \<Rightarrow> bytes \<Rightarrow> (unit, SpdmStatus, 'h) act" where
  "append_k cr sid bs = attempt SpdmErrorUnspecified SPDM_STATUS_CRYPTO_ERROR (append_message_k cr sid bs)"

definition append_f :: "'h crypto \<Rightarrow> u32 \<Rightarrow> bytes \<Rightarrow> (unit, SpdmStatus, 'h) act" where
  "append_f cr sid bs = attempt SpdmErrorUnspecified SPDM_STATUS_CRYPTO_ERROR (append_message_f cr False sid bs)"

definition teardown_and_refuse :: "u32 \<Rightarrow> ('a, SpdmStatus, 'h) act" where
  "teardown_and_refuse sid =
    seq (change (snd \<circ> on_session sid Panic (session_teardown sid))) (\<lambda>_.
    refuse SpdmErrorUnspecified SPDM_STATUS_CRYPTO_ERROR)"

text \<open>\<open>get_immutable_session_via_id(session_id).unwrap()\<close> and the transcript hash of that session.\<close>

definition with_session :: "u32 \<Rightarrow> ('h SpdmSession \<Rightarrow> ('a, 'e, 'h) act) \<Rightarrow> ('a, 'e, 'h) act" where
  "with_session sid k = ask (\<lambda>c. seq (expect (ok_or () (get_session_via_id c sid))) k)"

definition transcript_hash ::
    "'h crypto \<Rightarrow> bool \<Rightarrow> u8 \<Rightarrow> bool \<Rightarrow> u32 \<Rightarrow> (SpdmDigestStruct, SpdmStatus, 'h) act" where
  "transcript_hash cr psk slot is_mut_auth sid = with_session sid (\<lambda>s. ask (\<lambda>c.
    or_refuse SpdmErrorUnspecified SPDM_STATUS_CRYPTO_ERROR
      (calc_rsp_transcript_hash cr c psk slot is_mut_auth s)))"

text \<open>The HMAC of the response, which becomes part of the transcript; on failure the session is torn down.\<close>

definition response_hmac ::
    "'h crypto \<Rightarrow> u32 \<Rightarrow> SpdmDigestStruct \<Rightarrow> (SpdmDigestStruct, SpdmStatus, 'h) act" where
  "response_hmac cr sid th = with_session sid (\<lambda>s.
    seq (recover (\<lambda>c. (generate_hmac_with_response_finished_key cr (as_ref th) s, c))
      (teardown_and_refuse sid)) (\<lambda>mac.
    seq (recover (append_message_k cr sid (as_ref mac)) (teardown_and_refuse sid)) (\<lambda>_.
    ret mac)))"

definition settle_session :: "SpdmOpaqueStruct \<Rightarrow> u8 \<Rightarrow> 'h SpdmSession \<Rightarrow> 'h SpdmSession" where
  "settle_session opaque period s =
    (let s = s\<lparr>heartbeat_period := period\<rparr>
     in if data_size opaque \<noteq> 0
        then s\<lparr>secure_spdm_version_sel := data opaque ! (unat (data_size opaque) - 1)\<rparr> else s)"

definition on_session_unwrapped :: "u32 \<Rightarrow> ('h SpdmSession \<Rightarrow> 'h SpdmSession) \<Rightarrow> (unit, SpdmStatus, 'h) act" where
  "on_session_unwrapped sid f = propagate (on_session sid Panic (\<lambda>s. (Ok (), f s)))"

subsection \<open>Key exchange\<close>

definition setup_dhe_session ::
    "'h crypto \<Rightarrow> transport \<Rightarrow> SpdmNegotiateInfo \<Rightarrow> ManagedBufferA \<Rightarrow> SpdmDigestStruct \<Rightarrow> u8 \<Rightarrow>
      SpdmDheFinalKeyStruct \<Rightarrow> u32 \<Rightarrow> 'h SpdmSession \<Rightarrow> unit SpdmResult \<times> 'h SpdmSession" where
  "setup_dhe_session cr t ni msg_a chain_hash slot final_key sid s =
    (case session_setup sid s of
      (Ok _, s) \<Rightarrow>
        (case set_dhe_secret cr (spdm_version_sel ni) final_key
            ((crypto_params ni t (s\<lparr>use_psk := False, slot_id := slot\<rparr>))\<lparr>mut_auth_requested := 0\<rparr>) of
          (Ok _, s) \<Rightarrow> (Ok (), s\<lparr>s_runtime_info := (s_runtime_info s)\<lparr>s_message_a := msg_a,
              rsp_cert_hash := Some chain_hash, req_cert_hash := None\<rparr>\<rparr>)
        | (Err e, s) \<Rightarrow> (Err e, snd (session_teardown sid s))
        | (Panic, s) \<Rightarrow> (Panic, s))
    | (_, s) \<Rightarrow> (Panic, s))"

text \<open>The key pair, the final key and the entry of the session table for the new session.\<close>

definition open_dhe_session ::
    "'h platform \<Rightarrow> env \<Rightarrow> SpdmKeyExchangeRequestPayload \<Rightarrow> (SpdmDheExchangeStruct \<times> u16, SpdmStatus, 'h) act" where
  "open_dhe_session p en q = ask (\<lambda>c. let cr = p_crypto p; ni = negotiate_info c in
    seq (expect (ok_or () (generate_key_pair en (dhe_sel ni)))) (\<lambda>(exchange, compute_final_key).
    seq (or_refuse SpdmErrorUnspecified SPDM_STATUS_CRYPTO_ERROR
      (ok_or () (compute_final_key (kq_exchange q)))) (\<lambda>final_key.
    seq (or_refuse SpdmErrorSessionLimitExceeded SPDM_STATUS_INVALID_STATE_LOCAL
      (get_next_half_session_id c False)) (\<lambda>rsp_session_id.
    seq (expect (get_certchain_hash_local cr c False (unat (kq_slot_id q)))) (\<lambda>chain_hash.
    seq (or_refuse SpdmErrorInvalidRequest SPDM_STATUS_INVALID_MSG_FIELD (ok_or () chain_hash)) (\<lambda>chain_hash.
    seq (or_refuse SpdmErrorSessionLimitExceeded SPDM_STATUS_INVALID_STATE_LOCAL
      (ok_or () (get_next_avaiable_session c))) (\<lambda>_.
    seq (attempt SpdmErrorUnspecified SPDM_STATUS_CRYPTO_ERROR (on_session 0 Panic
      (setup_dhe_session cr (p_transport p) ni (message_a (runtime_info c)) chain_hash (kq_slot_id q)
        final_key (session_id_of rsp_session_id (kq_req_session_id q))))) (\<lambda>_.
    ret (exchange, rsp_session_id)))))))))"

definition generate_key_exchange_rsp_signature ::
    "'h crypto \<Rightarrow> env \<Rightarrow> u8 \<Rightarrow> 'h SpdmSession \<Rightarrow> 'h SpdmContext \<Rightarrow> SpdmSignatureStruct SpdmResult" where
  "generate_key_exchange_rsp_signature cr en slot s c =
    rbind (calc_rsp_transcript_hash cr c False slot False s) (\<lambda>h.
    sign_hash en (negotiate_info c) SPDM_VERSION_1_2_SIGNING_CONTEXT_ZEROPAD_2
      SPDM_KEY_EXCHANGE_RESPONSE_SIGN_CONTEXT h)"

text \<open>The transcript and the handshake keys: the part after KEY_EXCHANGE_RSP has been encoded.\<close>

definition finish_key_exchange ::
    "'h crypto \<Rightarrow> env \<Rightarrow> bytes \<Rightarrow> u32 \<Rightarrow> u8 \<Rightarrow> nat \<Rightarrow> nat \<Rightarrow> (unit, SpdmStatus, 'h) act" where
  "finish_key_exchange cr en request sid slot asym_size hash_size =
    ask (\<lambda>c. let clear = in_clear_text (negotiate_info c); v = spdm_version_sel (negotiate_info c) in
    seq (append_k cr sid request) (\<lambda>_.
    seq (written_but (if clear then asym_size else hash_size + asym_size)) (\<lambda>m.
    seq (append_k cr sid m) (\<lambda>_.
    seq (with_session sid (\<lambda>s. ask (\<lambda>c. or_refuse SpdmErrorUnspecified SPDM_STATUS_CRYPTO_ERROR
      (generate_key_exchange_rsp_signature cr en slot s c)))) (\<lambda>signature.
    seq (append_k cr sid (as_ref signature)) (\<lambda>_.
    seq (transcript_hash cr False slot False sid) (\<lambda>th1.
    seq (propagate (on_session sid Panic (generate_handshake_secret cr v th1))) (\<lambda>_.
    if clear then ret ()
    else
    seq (transcript_hash cr False slot False sid) (\<lambda>th.
    seq (response_hmac cr sid th) (\<lambda>mac.
    seq (patch (hash_size + asym_size) hash_size (as_ref signature)) (\<lambda>_.
    patch hash_size 0 (as_ref mac))))))))))))"

definition write_spdm_key_exchange_response ::
    "'h platform \<Rightarrow> env \<Rightarrow> bytes \<Rightarrow> (unit, SpdmStatus, 'h) act" where
  "write_spdm_key_exchange_response p en bs = (let cr = p_crypto p in
    seq (require_negotiated SPDM_STATUS_INVALID_STATE_PEER) (\<lambda>_.
    seq (read_header SPDM_STATUS_INVALID_MSG_FIELD bs) (\<lambda>(h, r).
    seq (refuse_old_version h) (\<lambda>_.
    seq (change (reset_buffer_via_request_code SpdmRequestKeyExchange None)) (\<lambda>_.
    seq (parse SPDM_STATUS_INVALID_MSG_FIELD SpdmKeyExchangeRequestPayload_spdm_read r) (\<lambda>(q, r).
    seq (take_summary_hash en SPDM_STATUS_INVALID_MSG_FIELD (kq_measurement_summary_hash_type q)) (\<lambda>summary_hash.
    seq (change (upd_neg (termination_policy_set_update (\<lambda>_. kq_session_policy q AND 1 = 1)))) (\<lambda>_.
    seq (answer_opaque (kq_opaque q)) (\<lambda>return_opaque.
    seq (require_slot SPDM_STATUS_INVALID_MSG_FIELD (unat (kq_slot_id q))) (\<lambda>_.
    seq (change (set_local_used_cert_chain_slot_id (kq_slot_id q))) (\<lambda>_.
    seq (open_dhe_session p en q) (\<lambda>(exchange, rsp_session_id).
    let sid = session_id_of rsp_session_id (kq_req_session_id q) in
    ask (\<lambda>c. let ni = negotiate_info c in
    seq (or_refuse SpdmErrorUnspecified SPDM_STATUS_CRYPTO_ERROR (get_random en SPDM_RANDOM_SIZE)) (\<lambda>random.
    seq (expect (get_asym_key_size ni)) (\<lambda>asym_size.
    seq (expect (get_hash_size ni)) (\<lambda>hash_size.
    seq (respond SPDM_STATUS_INVALID_STATE_LOCAL SpdmResponseKeyExchangeRsp (\<lambda>c.
        SpdmKeyExchangeResponsePayload_spdm_encode (negotiate_info c)
          (need_measurement_summary_hash (runtime_info c))
          \<lparr>kr_heartbeat_period = c_heartbeat_period (config_info c), kr_rsp_session_id = rsp_session_id,
           kr_mut_auth_req = 0, kr_req_slot_id = 0, kr_random = random, kr_exchange = exchange,
           kr_measurement_summary_hash = summary_hash, kr_opaque = return_opaque,
           kr_signature = \<lparr>data_size = asym_size, data = replicate SPDM_MAX_ASYM_KEY_SIZE 0xBB\<rparr>,
           kr_verify_data = \<lparr>data_size = hash_size, data = replicate SPDM_MAX_HASH_SIZE 0xCC\<rparr>\<rparr>)) (\<lambda>_.
    seq (finish_key_exchange cr en (take (reader_used r) bs) sid (kq_slot_id q) (unat asym_size)
      (unat hash_size)) (\<lambda>_.
    seq (on_session_unwrapped sid (set_session_state SpdmSessionHandshaking \<circ>
      settle_session return_opaque (c_heartbeat_period (config_info c)))) (\<lambda>_.
    if in_clear_text ni then change (set_last_session_id (Some sid)) else ret ())))))))))))))))))))"

definition handle_spdm_key_exchange ::
    "'h platform \<Rightarrow> env \<Rightarrow> bytes \<Rightarrow> 'h ResponderContext \<Rightarrow> (unit SpdmResult \<times> 'h ResponderContext) option" where
  "handle_spdm_key_exchange p en bs = handle_result p None (write_spdm_key_exchange_response p en bs)"

subsection \<open>Finish\<close>

definition verify_finish_req_signature ::
    "'h crypto \<Rightarrow> SpdmSignatureStruct \<Rightarrow> 'h SpdmSession \<Rightarrow> 'h SpdmContext \<Rightarrow> unit SpdmResult" where
  "verify_finish_req_signature cr signature s c = (let ni = negotiate_info c in
    rbind (calc_rsp_transcript_hash cr c False (slot_id s) True s) (\<lambda>h.
    rbind (index_panic (peer_cert_chain (peer_info c)) (unat (peer_used_cert_chain_slot_id (runtime_info c)))) (\<lambda>chain.
    rbind (ok_or SPDM_STATUS_INVALID_PARAMETER chain) (\<lambda>chain.
    rbind (get_hash_size ni) (\<lambda>hash_size.
    let start = 4 + unat hash_size; stop = unat (data_size chain) in
    if start > stop \<or> stop > length (data chain) then Panic
    else
    rbind (message_to_sign ni SPDM_VERSION_1_2_SIGNING_CONTEXT_ZEROPAD_12 SPDM_FINISH_SIGN_CONTEXT h) (\<lambda>m.
    asym_verify cr (base_hash_sel ni) (base_asym_sel ni) (slice (data chain) start stop) m signature))))))"

definition check_mut_auth ::
    "'h crypto \<Rightarrow> u32 \<Rightarrow> SpdmFinishRequestPayload \<Rightarrow> (bool, SpdmStatus, 'h) act" where
  "check_mut_auth cr sid q = with_session sid (\<lambda>s.
    let is_mut_auth = (mut_auth_requested s \<noteq> 0);
        signed_request = contains (fq_finish_request_attributes q) SIGNATURE_INCLUDED in
    if is_mut_auth \<noteq> signed_request
    then refuse SpdmErrorInvalidRequest SPDM_STATUS_INVALID_MSG_FIELD
    else if is_mut_auth
    then
      seq (ask (\<lambda>c. or_refuse SpdmErrorDecryptError SPDM_STATUS_CRYPTO_ERROR
        (verify_finish_req_signature cr (fq_signature q) s c))) (\<lambda>_.
      seq (append_f cr sid (as_ref (fq_signature q))) (\<lambda>_. ret True))
    else ret False)"

text \<open>The HMAC of the request, over the transcript up to the HMAC itself.\<close>

definition verify_request_hmac ::
    "'h crypto \<Rightarrow> bool \<Rightarrow> bool \<Rightarrow> u32 \<Rightarrow> SpdmDigestStruct \<Rightarrow> (unit, SpdmStatus, 'h) act" where
  "verify_request_hmac cr psk is_mut_auth sid verify_data = with_session sid (\<lambda>s.
    seq (transcript_hash cr psk (if psk then INVALID_SLOT else slot_id s) is_mut_auth sid) (\<lambda>th.
    seq (or_refuse SpdmErrorDecryptError SPDM_STATUS_CRYPTO_ERROR
      (verify_hmac_with_request_finished_key cr (as_ref th) verify_data s)) (\<lambda>_.
    append_f cr sid (as_ref verify_data))))"

definition answer_finish :: "'h crypto \<Rightarrow> bool \<Rightarrow> u32 \<Rightarrow> nat \<Rightarrow> (unit, SpdmStatus, 'h) act" where
  "answer_finish cr is_mut_auth sid hash_size = ask (\<lambda>c.
    if in_clear_text (negotiate_info c)
    then
      seq (written_but hash_size) (\<lambda>m.
      seq (append_f cr sid m) (\<lambda>_.
      with_session sid (\<lambda>s.
      seq (transcript_hash cr False (slot_id s) is_mut_auth sid) (\<lambda>th.
      seq (or_refuse SpdmErrorUnspecified SPDM_STATUS_CRYPTO_ERROR
        (generate_hmac_with_response_finished_key cr (as_ref th) s)) (\<lambda>mac.
      seq (append_f cr sid (as_ref mac)) (\<lambda>_.
      patch hash_size 0 (as_ref mac)))))))
    else
      seq (written_but 0) (\<lambda>m.
      if length m < 4 then panics else append_f cr sid (take 4 m)))"

definition derive_data_secret ::
    "'h crypto \<Rightarrow> bool \<Rightarrow> u8 \<Rightarrow> bool \<Rightarrow> u32 \<Rightarrow> (unit, SpdmStatus, 'h) act" where
  "derive_data_secret cr psk slot is_mut_auth sid =
    seq (transcript_hash cr psk slot is_mut_auth sid) (\<lambda>th2.
    ask (\<lambda>c. propagate (on_session sid Panic
      (generate_data_secret cr (spdm_version_sel (negotiate_info c)) th2))))"

definition write_spdm_finish_response ::
    "'h crypto \<Rightarrow> u32 \<Rightarrow> bytes \<Rightarrow> (unit, SpdmStatus, 'h) act" where
  "write_spdm_finish_response cr sid bs =
    seq (read_header SPDM_STATUS_INVALID_MSG_FIELD bs) (\<lambda>(_, r).
    seq (change (reset_buffer_via_request_code SpdmRequestFinish (Some sid))) (\<lambda>_.
    seq (parse SPDM_STATUS_INVALID_MSG_FIELD SpdmFinishRequestPayload_spdm_read r) (\<lambda>(q, _).
    seq (append_f cr sid (take 4 bs)) (\<lambda>_.
    seq (check_mut_auth cr sid q) (\<lambda>is_mut_auth.
    ask (\<lambda>c.
    seq (expect (get_hash_size (negotiate_info c))) (\<lambda>hash_size.
    with_session sid (\<lambda>s.
    if use_psk s then refuse SpdmErrorInvalidRequest SPDM_STATUS_INVALID_MSG_FIELD
    else
    seq (verify_request_hmac cr False is_mut_auth sid (fq_verify_data q)) (\<lambda>_.
    seq (respond SPDM_STATUS_INVALID_STATE_LOCAL SpdmResponseFinishRsp (\<lambda>c.
      SpdmFinishResponsePayload_spdm_encode (negotiate_info c)
        \<lparr>data_size = hash_size, data = replicate SPDM_MAX_HASH_SIZE 0xCC\<rparr>)) (\<lambda>_.
    seq (answer_finish cr is_mut_auth sid (unat hash_size)) (\<lambda>_.
    derive_data_secret cr False (slot_id s) is_mut_auth sid)))))))))))"

definition handle_spdm_finish ::
    "'h platform \<Rightarrow> u32 \<Rightarrow> bytes \<Rightarrow> 'h ResponderContext \<Rightarrow> (unit SpdmResult \<times> 'h ResponderContext) option" where
  "handle_spdm_finish p sid bs rc =
    handle_result p (if in_clear_text (negotiate_info (common rc)) then None else Some sid)
      (write_spdm_finish_response (p_crypto p) sid bs) rc"

subsection \<open>PSK exchange\<close>

definition setup_psk_session ::
    "transport \<Rightarrow> SpdmNegotiateInfo \<Rightarrow> ManagedBufferA \<Rightarrow> SpdmPskHintStruct \<Rightarrow> u32 \<Rightarrow>
      'h SpdmSession \<Rightarrow> unit SpdmResult \<times> 'h SpdmSession" where
  "setup_psk_session t ni msg_a hint sid s =
    (case session_setup sid s of
      (Ok _, s) \<Rightarrow>
        (let s = crypto_params ni t (s\<lparr>use_psk := True\<rparr>)
         in (Ok (), s\<lparr>s_runtime_info := (s_runtime_info s)\<lparr>psk_hint := Some hint, s_message_a := msg_a,
           rsp_cert_hash := None, req_cert_hash := None\<rparr>\<rparr>))
    | (_, s) \<Rightarrow> (Panic, s))"

definition open_psk_session ::
    "'h platform \<Rightarrow> SpdmPskExchangeRequestPayload \<Rightarrow> (u16, SpdmStatus, 'h) act" where
  "open_psk_session p q = ask (\<lambda>c.
    seq (or_refuse SpdmErrorSessionLimitExceeded SPDM_STATUS_INVALID_STATE_LOCAL
      (get_next_half_session_id c False)) (\<lambda>rsp_session_id.
    seq (or_refuse SpdmErrorSessionLimitExceeded SPDM_STATUS_INVALID_STATE_LOCAL
      (ok_or () (get_next_avaiable_session c))) (\<lambda>_.
    seq (propagate (on_session 0 Panic (setup_psk_session (p_transport p) (negotiate_info c)
      (message_a (runtime_info c)) (pq_psk_hint q)
      (session_id_of rsp_session_id (pq_req_session_id q))))) (\<lambda>_.
    ret rsp_session_id))))"

definition finish_psk_exchange ::
    "'h crypto \<Rightarrow> bytes \<Rightarrow> u32 \<Rightarrow> nat \<Rightarrow> (unit, SpdmStatus, 'h) act" where
  "finish_psk_exchange cr request sid hash_size =
    ask (\<lambda>c. let v = spdm_version_sel (negotiate_info c) in
    seq (append_k cr sid request) (\<lambda>_.
    seq (written_but hash_size) (\<lambda>m.
    seq (append_k cr sid m) (\<lambda>_.
    seq (transcript_hash cr True INVALID_SLOT False sid) (\<lambda>th1.
    seq (propagate (on_session sid Panic (generate_handshake_secret cr v th1))) (\<lambda>_.
    seq (transcript_hash cr True INVALID_SLOT False sid) (\<lambda>th.
    seq (response_hmac cr sid th) (\<lambda>mac.
    patch hash_size 0 (as_ref mac)))))))))"

text \<open>
  Without a PSK context there is no PSK_FINISH: the data keys are derived at once. The code calls
  \<open>unwrap\<close> on that derivation, so an error there is a panic.
\<close>

definition skip_psk_finish :: "'h crypto \<Rightarrow> u32 \<Rightarrow> (unit, SpdmStatus, 'h) act" where
  "skip_psk_finish cr sid =
    seq (transcript_hash cr True 0 False sid) (\<lambda>th2.
    ask (\<lambda>c.
    seq (recover (on_session sid Panic (generate_data_secret cr (spdm_version_sel (negotiate_info c)) th2))
      panics) (\<lambda>_.
    on_session_unwrapped sid (set_session_state SpdmSessionEstablished))))"

definition write_spdm_psk_exchange_response ::
    "'h platform \<Rightarrow> env \<Rightarrow> bytes \<Rightarrow> (unit, SpdmStatus, 'h) act" where
  "write_spdm_psk_exchange_response p en bs = (let cr = p_crypto p in
    seq (require_negotiated SPDM_STATUS_INVALID_STATE_PEER) (\<lambda>_.
    seq (read_header SPDM_STATUS_INVALID_MSG_FIELD bs) (\<lambda>(h, r).
    seq (refuse_old_version h) (\<lambda>_.
    seq (change (reset_buffer_via_request_code SpdmRequestPskExchange None)) (\<lambda>_.
    seq (parse SPDM_STATUS_INVALID_MSG_FIELD (\<lambda>ni. rd_lift (SpdmPskExchangeRequestPayload_spdm_read ni)) r) (\<lambda>(q, r).
    seq (take_summary_hash en SPDM_STATUS_CRYPTO_ERROR (pq_measurement_summary_hash_type q)) (\<lambda>summary_hash.
    seq (answer_opaque (pq_opaque q)) (\<lambda>return_opaque.
    ask (\<lambda>c. let ni = negotiate_info c; without_context = psk_without_context ni in
    seq (if without_context
      then or_refuse SpdmErrorUnspecified SPDM_STATUS_CRYPTO_ERROR (get_random en MAX_SPDM_PSK_CONTEXT_SIZE)
      else ret (replicate MAX_SPDM_PSK_CONTEXT_SIZE 0)) (\<lambda>psk_context.
    seq (open_psk_session p q) (\<lambda>rsp_session_id.
    let sid = session_id_of rsp_session_id (pq_req_session_id q) in
    seq (expect (get_hash_size ni)) (\<lambda>hash_size.
    seq (respond SPDM_STATUS_INVALID_STATE_LOCAL SpdmResponsePskExchangeRsp (\<lambda>c.
        SpdmPskExchangeResponsePayload_spdm_encode (negotiate_info c)
          (need_measurement_summary_hash (runtime_info c))
          \<lparr>pr_heartbeat_period = c_heartbeat_period (config_info c), pr_rsp_session_id = rsp_session_id,
           pr_measurement_summary_hash = summary_hash,
           pr_psk_context = \<lparr>data_size = (if without_context then 0 else of_nat MAX_SPDM_PSK_CONTEXT_SIZE),
             data = psk_context\<rparr>,
           pr_opaque = return_opaque,
           pr_verify_data = \<lparr>data_size = hash_size, data = replicate SPDM_MAX_HASH_SIZE 0xCC\<rparr>\<rparr>)) (\<lambda>_.
    seq (finish_psk_exchange cr (take (reader_used r) bs) sid (unat hash_size)) (\<lambda>_.
    seq (on_session_unwrapped sid (set_session_state SpdmSessionHandshaking)) (\<lambda>_.
    seq (if without_context then skip_psk_finish cr sid else ret ()) (\<lambda>_.
    on_session_unwrapped sid
      (settle_session return_opaque (c_heartbeat_period (config_info c)))))))))))))))))))"

definition handle_spdm_psk_exchange ::
    "'h platform \<Rightarrow> env \<Rightarrow> bytes \<Rightarrow> 'h ResponderContext \<Rightarrow> (unit SpdmResult \<times> 'h ResponderContext) option" where
  "handle_spdm_psk_exchange p en bs = handle_result p None (write_spdm_psk_exchange_response p en bs)"

subsection \<open>PSK finish\<close>

definition write_spdm_psk_finish_response ::
    "'h crypto \<Rightarrow> u32 \<Rightarrow> bytes \<Rightarrow> (unit, SpdmStatus, 'h) act" where
  "write_spdm_psk_finish_response cr sid bs =
    seq (read_header SPDM_STATUS_INVALID_MSG_FIELD bs) (\<lambda>(_, r).
    seq (change (reset_buffer_via_request_code SpdmRequestPskFinish (Some sid))) (\<lambda>_.
    seq (parse SPDM_STATUS_INVALID_MSG_FIELD SpdmPskFinishRequestPayload_spdm_read r) (\<lambda>(verify_data, r).
    ask (\<lambda>c.
    seq (expect (get_hash_size (negotiate_info c))) (\<lambda>hash_size.
    with_session sid (\<lambda>s.
    if \<not> use_psk s then refuse SpdmErrorInvalidRequest SPDM_STATUS_INVALID_MSG_FIELD
    else if unat hash_size > reader_used r then panics
    else
    seq (append_f cr sid (take (reader_used r - unat hash_size) bs)) (\<lambda>_.
    seq (verify_request_hmac cr True False sid verify_data) (\<lambda>_.
    seq (respond SPDM_STATUS_INVALID_STATE_LOCAL SpdmResponsePskFinishRsp (\<lambda>_.
      SpdmPskFinishResponsePayload_spdm_encode)) (\<lambda>_.
    seq (written_but 0) (\<lambda>m.
    seq (append_f cr sid m) (\<lambda>_.
    derive_data_secret cr True 0 False sid)))))))))))"

definition handle_spdm_psk_finish ::
    "'h platform \<Rightarrow> u32 \<Rightarrow> bytes \<Rightarrow> 'h ResponderContext \<Rightarrow> (unit SpdmResult \<times> 'h ResponderContext) option" where
  "handle_spdm_psk_finish p sid bs =
    handle_result p (Some sid) (write_spdm_psk_finish_response (p_crypto p) sid bs)"

subsection \<open>Maintenance of a session\<close>

definition write_spdm_heartbeat_response :: "u32 \<Rightarrow> bytes \<Rightarrow> (unit, unit, 'h) act" where
  "write_spdm_heartbeat_response sid bs =
    seq (read_header () bs) (\<lambda>(_, r).
    seq (change (reset_buffer_via_request_code SpdmRequestHeartbeat (Some sid))) (\<lambda>_.
    seq (parse () (\<lambda>_. rd_lift SpdmHeartbeatRequestPayload_spdm_read) r) (\<lambda>_.
    respond () SpdmResponseHeartbeatAck (\<lambda>_. SpdmHeartbeatResponsePayload_spdm_encode))))"

definition handle_spdm_heartbeat ::
    "'h platform \<Rightarrow> u32 \<Rightarrow> bytes \<Rightarrow> 'h ResponderContext \<Rightarrow> (unit SpdmResult \<times> 'h ResponderContext) option" where
  "handle_spdm_heartbeat p sid bs = handle_act p (Some sid) (write_spdm_heartbeat_response sid bs)"

text \<open>\<open>let _ = session.f(...)\<close>: the result is dropped, a panic is not.\<close>

definition ignoring ::
    "('h SpdmContext \<Rightarrow> unit SpdmResult \<times> 'h SpdmContext) \<Rightarrow> (unit, 'e, 'h) act" where
  "ignoring f w c = (case f c of (Panic, c) \<Rightarrow> (Panic, w, c) | (_, c) \<Rightarrow> (Ok (), w, c))"

definition write_spdm_key_update_response :: "'h crypto \<Rightarrow> u32 \<Rightarrow> bytes \<Rightarrow> (unit, unit, 'h) act" where
  "write_spdm_key_update_response cr sid bs =
    seq (read_header () bs) (\<lambda>(_, r).
    seq (change (reset_buffer_via_request_code SpdmRequestKeyUpdate (Some sid))) (\<lambda>_.
    seq (parse () (\<lambda>_. rd_lift SpdmKeyUpdateRequestPayload_spdm_read) r) (\<lambda>(q, _).
    ask (\<lambda>c. let v = spdm_version_sel (negotiate_info c);
        create = (\<lambda>req rsp. ignoring (on_session sid Panic (create_data_secret_update cr v req rsp)));
        activate = (\<lambda>req rsp. ignoring (on_session sid Panic (activate_data_secret_update v req rsp True))) in
    seq (case key_update_operation q of
        SpdmUpdateSingleKey \<Rightarrow> create True False
      | SpdmUpdateAllKeys \<Rightarrow> seq (create True True) (\<lambda>_. activate True True)
      | SpdmVerifyNewKey \<Rightarrow> activate True False
      | _ \<Rightarrow> with_session sid (\<lambda>_. refuse SpdmErrorInvalidRequest ())) (\<lambda>_.
    respond () SpdmResponseKeyUpdateAck (\<lambda>_. SpdmKeyUpdateResponsePayload_spdm_encode q))))))"

definition handle_spdm_key_update ::
    "'h platform \<Rightarrow> u32 \<Rightarrow> bytes \<Rightarrow> 'h ResponderContext \<Rightarrow> (unit SpdmResult \<times> 'h ResponderContext) option" where
  "handle_spdm_key_update p sid bs =
    handle_act p (Some sid) (write_spdm_key_update_response (p_crypto p) sid bs)"

definition write_spdm_end_session_response :: "u32 \<Rightarrow> bytes \<Rightarrow> (unit, unit, 'h) act" where
  "write_spdm_end_session_response sid bs =
    seq (read_header () bs) (\<lambda>(_, r).
    seq (parse () (\<lambda>_. rd_lift SpdmEndSessionRequestPayload_spdm_read) r) (\<lambda>_.
    seq (change (reset_buffer_via_request_code SpdmRequestEndSession (Some sid))) (\<lambda>_.
    respond () SpdmResponseEndSessionAck (\<lambda>_. SpdmEndSessionResponsePayload_spdm_encode))))"

definition handle_spdm_end_session ::
    "'h platform \<Rightarrow> u32 \<Rightarrow> bytes \<Rightarrow> 'h ResponderContext \<Rightarrow> (unit SpdmResult \<times> 'h ResponderContext) option" where
  "handle_spdm_end_session p sid bs = handle_act p (Some sid) (write_spdm_end_session_response sid bs)"

definition respond_to_vendor_defined_request ::
    "env \<Rightarrow> VendorDefinedReqPayloadStruct \<Rightarrow> VendorDefinedRspPayloadStruct SpdmResult" where
  "respond_to_vendor_defined_request en = vendor_defined_request_handler en"

definition write_spdm_vendor_defined_response ::
    "env \<Rightarrow> u32 option \<Rightarrow> bytes \<Rightarrow> (unit, unit, 'h) act" where
  "write_spdm_vendor_defined_response en sid bs =
    seq (read_header () bs) (\<lambda>(_, r).
    seq (change (reset_buffer_via_request_code SpdmRequestVendorDefinedRequest sid)) (\<lambda>_.
    seq (parse () (\<lambda>_. rd_lift SpdmVendorDefinedRequestPayload_spdm_read) r) (\<lambda>(q, _).
    seq (or_refuse SpdmErrorUnspecified () (respond_to_vendor_defined_request en (vd_payload q))) (\<lambda>rsp_payload.
    respond () SpdmResponseVendorDefinedResponse (\<lambda>_.
      SpdmVendorDefinedResponsePayload_spdm_encode (q\<lparr>vd_payload := rsp_payload\<rparr>))))))"

definition handle_spdm_vendor_defined_request ::
    "'h platform \<Rightarrow> env \<Rightarrow> u32 option \<Rightarrow> bytes \<Rightarrow> 'h ResponderContext \<Rightarrow>
      (unit SpdmResult \<times> 'h ResponderContext) option" where
  "handle_spdm_vendor_defined_request p en sid bs =
    handle_act p sid (write_spdm_vendor_defined_response en sid bs)"

section \<open>What the handlers leave alone\<close>

lemma set_default_ident [simp]:
  "session_state (set_default s) = SpdmSessionNotStarted" "session_id (set_default s) = 0"
  by (simp_all add: set_default_def INVALID_SESSION_ID_def)

lemma session_id_settle [simp]:
  "session_id (settle_session opaque period s) = session_id s" "session_id (set_session_state st s) = session_id s"
  by (simp_all add: settle_session_def set_session_state_def Let_def)

lemma safe_propagate_total:
  assumes "\<And>c. harmless new c (snd (f c))" "\<And>c e. fst (f c) \<noteq> Err e"
  shows "safe c0 new code ph (propagate f) ph"
proof -
  have "harmless new c c'" if "f c = (r, c')" for c r c' using assms(1) [of c] that by simp
  moreover have "f c \<noteq> (Err e, c')" for c e c' using assms(2) [of c e] by auto
  ultimately show ?thesis unfolding safe_def
    by (intro valid_propagate) (auto intro: harmless_trans)
qed

lemma safe_with_session [safe_rules]:
  "(\<And>s. safe c0 new code ph (k s) ph') \<Longrightarrow> safe c0 new code ph (with_session sid k) ph'"
  unfolding with_session_def by (rule safe_rules | assumption)+

lemma safe_session_steps [safe_rules]:
  "safe c0 new code ph (append_k cr sid bs) ph" "safe c0 new code ph (append_f cr sid bs) ph"
  "safe c0 new code ph (transcript_hash cr psk slot is_mut_auth sid) ph"
  "safe c0 new code ph (refuse_old_version h) ph" "safe c0 new code ph (answer_opaque opaque) ph"
  unfolding append_k_def append_f_def transcript_hash_def refuse_old_version_def answer_opaque_def
  by (rule safe_rules harmless_rules)+

lemma safe_teardown [safe_rules]: "safe c0 new code ph (teardown_and_refuse sid) ph'"
  unfolding teardown_and_refuse_def
  by (rule safe_seq [OF safe_change safe_refuse])
    (simp add: harmless_on_session not_establishing_def session_teardown_def)

lemma safe_response_hmac [safe_rules]: "safe c0 new code ph (response_hmac cr sid th) ph"
  unfolding response_hmac_def by (rule safe_rules harmless_rules | simp)+

lemma safe_on_session_unwrapped:
  assumes "new = Establishing \<or> not_establishing f" "\<And>s. session_id (f s) = session_id s"
  shows "safe c0 new code ph (on_session_unwrapped sid f) ph"
  unfolding on_session_unwrapped_def
proof (rule safe_propagate_total)
  fix c
  have "harmless new c (snd (on_session sid Panic (\<lambda>s. (Ok (), f s)) c))" if "not_establishing f"
    using that by (intro harmless_on_session) (simp add: not_establishing_def)
  then show "harmless new c (snd (on_session sid Panic (\<lambda>s. (Ok (), f s)) c))"
    using assms harmless_any_session [of f c sid]
    by (auto simp: on_session_eq [of sid Panic "\<lambda>s. (Ok (), f s)", unfolded comp_def, simplified])
qed (simp add: on_session_def split: option.splits)

lemma harmless_in_clear_text: "harmless new c0 c \<Longrightarrow> in_clear_text (negotiate_info c) = in_clear_text (negotiate_info c0)"
  by (subst harmless_negotiate, assumption) (simp add: in_clear_text_def)

lemma lengthens_plain:
  "lengthens 0 SpdmPskFinishResponsePayload_spdm_encode" "lengthens 0 SpdmHeartbeatResponsePayload_spdm_encode"
  "lengthens 0 SpdmEndSessionResponsePayload_spdm_encode" "lengthens 0 (SpdmKeyUpdateResponsePayload_spdm_encode q)"
  "lengthens 0 (SpdmVendorDefinedResponsePayload_spdm_encode v)"
proof -
  show "lengthens 0 (SpdmKeyUpdateResponsePayload_spdm_encode q)"
    unfolding SpdmKeyUpdateResponsePayload_spdm_encode_def SpdmKeyUpdateRequestPayload_spdm_encode_def
    by (rule lengthens_list) (auto simp: lengthens_parts enum_u8_encode_def)
  have "lengthens 0 (VendorIDStruct_encode i)" "lengthens 0 (VendorDefinedRspPayloadStruct_encode p)" for i p
    unfolding VendorIDStruct_encode_def VendorDefinedRspPayloadStruct_encode_def
    by (rule lengthens_list; auto intro: lengthens_0 emits_u8 emits_u16)+
  then show "lengthens 0 (SpdmVendorDefinedResponsePayload_spdm_encode v)"
    unfolding SpdmVendorDefinedResponsePayload_spdm_encode_def
    by (intro lengthens_list) (auto simp: lengthens_parts enum_u16_encode_def intro: lengthens_BUFFER_FULL_enc)
qed (unfold SpdmPskFinishResponsePayload_spdm_encode_def SpdmHeartbeatResponsePayload_spdm_encode_def
    SpdmEndSessionResponsePayload_spdm_encode_def, (rule lengthens_list, auto simp: lengthens_parts)+)

lemma safe_heartbeat: "safe c0 new SpdmResponseHeartbeatAck Blank (write_spdm_heartbeat_response sid bs) (Coded 0)"
  unfolding write_spdm_heartbeat_response_def by (rule safe_rules safe_respond harmless_rules lengthens_plain)+

lemma safe_end_session:
  "safe c0 new SpdmResponseEndSessionAck Blank (write_spdm_end_session_response sid bs) (Coded 0)"
  unfolding write_spdm_end_session_response_def by (rule safe_rules safe_respond harmless_rules lengthens_plain)+

lemma safe_vendor_defined:
  "safe c0 new SpdmResponseVendorDefinedResponse Blank (write_spdm_vendor_defined_response en sid bs) (Coded 0)"
  unfolding write_spdm_vendor_defined_response_def by (rule safe_rules safe_respond harmless_rules lengthens_plain)+

lemma safe_ignoring:
  assumes "\<And>c. harmless new c (snd (f c))"
  shows "safe c0 new code ph (ignoring f) ph"
proof -
  have "harmless new c c'" if "f c = (r, c')" for c r c' using assms [of c] that by simp
  then show ?thesis unfolding safe_def valid_act_def ignoring_def
    by (auto intro: harmless_trans split: prod.splits result.splits)
qed

lemma safe_key_updates [safe_rules]:
  "safe c0 new code ph (ignoring (on_session sid Panic (create_data_secret_update cr v req rsp))) ph"
  "safe c0 new code ph (ignoring (on_session sid Panic (activate_data_secret_update v req rsp b))) ph"
  by (rule safe_ignoring, rule harmless_on_session, rule ident_not_establishing, simp add: ident_secrets [unfolded prod.inject])+

lemma safe_key_update_operation [safe_rules]:
  assumes "safe c0 new code ph m1 ph'" "safe c0 new code ph m2 ph'" "safe c0 new code ph m3 ph'" "safe c0 new code ph m4 ph'"
  shows "safe c0 new code ph (case op of SpdmUpdateSingleKey \<Rightarrow> m1 | SpdmUpdateAllKeys \<Rightarrow> m2
    | SpdmVerifyNewKey \<Rightarrow> m3 | SpdmKeyUpdateOperationUnknown _ \<Rightarrow> m4) ph'"
  using assms by (cases op) simp_all

lemma safe_key_update:
  "safe c0 new SpdmResponseKeyUpdateAck Blank (write_spdm_key_update_response cr sid bs) (Coded 0)"
  unfolding write_spdm_key_update_response_def by (rule safe_rules safe_respond harmless_rules lengthens_plain)+

text \<open>The handlers of the two exchanges and of their completion.\<close>

lemma safe_seq_respond:
  assumes "\<And>c. harmless new c0 c \<Longrightarrow> lengthens n (payload c)" "safe c0 new code (Coded n) (k ()) ph"
  shows "safe c0 new code Blank (seq (respond e code payload) k) ph"
proof (rule safe_seq [OF safe_respond [OF assms(1)]])
  show "safe c0 new code (Coded n) (k x) ph" for x using assms(2) by simp
qed

lemma safe_last:
  "safe c0 new code (Coded n) (ret x) (Coded 0)"
  "(\<And>c. harmless new c (g c)) \<Longrightarrow> safe c0 new code (Coded n) (change g) (Coded 0)"
  by (rule safe_weaken [OF safe_ret], simp, rule safe_weaken [OF safe_change], simp_all)

lemma half_session_id_of: "half_session_id False (session_id_of rsp req) = rsp"
proof -
  have "session_id_of rsp req = push_bit 16 (ucast rsp) OR ucast req"
    unfolding session_id_of_def by (rule disjunctive_add) (auto simp: bit_simps dest: bit_imp_le_length)
  moreover have m: "(0xFFFF :: u32) = mask 16" by (simp add: mask_eq_exp_minus_1)
  ultimately show ?thesis unfolding half_session_id_def Let_def m
    by (simp, intro bit_word_eqI) (auto simp: bit_simps simp del: take_bit_eq_mask dest: bit_imp_le_length)
qed

definition opens :: "u32 \<Rightarrow> ('h SpdmSession \<Rightarrow> 'h SpdmSession) \<Rightarrow> bool" where
  "opens sid f \<longleftrightarrow> (\<forall>s. (session_state (f s) = SpdmSessionEstablished \<longrightarrow> session_state s = SpdmSessionEstablished) \<and>
    (session_id s = 0 \<longrightarrow> session_id (f s) = sid \<or> session_id (f s) = 0))"

lemma harmless_open:
  assumes "get_next_half_session_id c False = Ok rsp" "opens (session_id_of rsp req) (snd \<circ> f)"
  shows "harmless new c (snd (on_session 0 none f c))"
proof -
  have "half_ids_inv False (upd_session_via_id 0 (snd \<circ> f) c)" if "half_ids_inv False c"
    using assms by (intro half_ids_open(1) [OF that, of "session_id_of rsp req"])
      (auto simp: half_session_id_of opens_def)
  moreover have "list_all2 (\<lambda>s s'. session_state s' = SpdmSessionEstablished \<longrightarrow>
      session_state s = SpdmSessionEstablished \<or> new = Establishing) (session c) (session (upd_session_via_id 0 (snd \<circ> f) c))"
    using assms(2) by (auto simp: opens_def upd_session_via_id_def intro!: list_all2_update_first)
  ultimately show ?thesis unfolding on_session_eq harmless_def by (auto simp: upd_session_via_id_def)
qed

lemma opens_setup:
  "opens sid (snd \<circ> setup_dhe_session cr t ni msg_a chain_hash slot final_key sid)"
  "opens sid (snd \<circ> setup_psk_session t ni msg_a hint sid)"
proof -
  have e: "session_state s' = session_state s \<and> session_id s' = session_id s" if "set_dhe_secret cr v k s = (r, s')" for v k s r s'
    using ident_secrets(1) [of cr v k s] that by simp
  show "opens sid (snd \<circ> setup_dhe_session cr t ni msg_a chain_hash slot final_key sid)"
    unfolding opens_def
    by (auto simp: setup_dhe_session_def session_setup_def session_teardown_def crypto_params_def
        set_transport_param_def set_crypto_param_def split: prod.splits result.splits dest!: e)
next
  show "opens sid (snd \<circ> setup_psk_session t ni msg_a hint sid)"
    by (auto simp: opens_def setup_psk_session_def session_setup_def Let_def crypto_params_def
        set_transport_param_def set_crypto_param_def split: prod.splits result.splits)
qed

lemma safe_open_dhe [safe_rules]: "safe c0 new code ph (open_dhe_session p en q) ph"
  unfolding open_dhe_session_def
  by (rule safe_ask_pinned pinned_let pinned_expect pinned_pair pinned_or_refuse pinned_attempt safe_ret
      harmless_open [OF _ opens_setup(1)] | assumption)+

lemma not_establishing_settle:
  "not_establishing (settle_session opaque period)"
  "not_establishing (set_session_state SpdmSessionHandshaking \<circ> settle_session opaque period)"
  "not_establishing (set_session_state SpdmSessionHandshaking)"
  by (simp_all add: not_establishing_def settle_session_def set_session_state_def Let_def)

lemma harmless_secrets [harmless_rules]:
  "harmless new c (snd (on_session sid Panic (generate_handshake_secret cr v th) c))"
  "harmless new c (snd (on_session sid Panic (generate_data_secret cr v th) c))"
  by (rule harmless_on_session, rule ident_not_establishing, simp add: ident_secrets [unfolded prod.inject])+

lemma lengthens_key_exchange:
  assumes "unat n \<le> SPDM_MAX_ASYM_KEY_SIZE" "unat m \<le> SPDM_MAX_HASH_SIZE"
    "in_clear_text ni = clear" "kr_signature p = \<lparr>data_size = n, data = replicate SPDM_MAX_ASYM_KEY_SIZE a\<rparr>"
    "kr_verify_data p = \<lparr>data_size = m, data = replicate SPDM_MAX_HASH_SIZE b\<rparr>"
  shows "lengthens (if clear then 0 else unat m + unat n)
    (SpdmKeyExchangeResponsePayload_spdm_encode ni summary p)"
proof -
  let ?s = "SpdmSignatureStruct_spdm_encode ni (kr_signature p)" and ?v = "SpdmDigestStruct_spdm_encode ni (kr_verify_data p)"
  let ?es = "map BUFFER_FULL_enc
      [u8_encode (kr_heartbeat_period p), u8_encode 0, u16_encode (kr_rsp_session_id p),
       SpdmKeyExchangeMutAuthAttributes_encode (kr_mut_auth_req p), u8_encode (kr_req_slot_id p),
       SpdmRandomStruct_encode (kr_random p)] @
    [SpdmDheExchangeStruct_spdm_encode (kr_exchange p)] @
    (if summary then [SpdmDigestStruct_spdm_encode ni (kr_measurement_summary_hash p)] else []) @
    [SpdmOpaqueStruct_spdm_encode (kr_opaque p)]"
  have es: "lengthens 0 e" if "e \<in> set ?es" for e
    using that by (auto simp: lengthens_parts lengthens_opaque SpdmDigestStruct_spdm_encode_def
        SpdmDheExchangeStruct_spdm_encode_def SpdmKeyExchangeMutAuthAttributes_encode_def split: if_splits)
  have s: "lengthens (unat n) ?s" and v: "lengthens (unat m) ?v"
    using lengthens_placeholder assms
    by (simp_all add: SpdmSignatureStruct_spdm_encode_def SpdmDigestStruct_spdm_encode_def)
  have "lengthens (unat n + unat m) (encs [?s, ?v])"
    using lengthens_Cons [OF s lengthens_Cons [OF v lengthens_Nil]] by (simp del: encs.simps)
  then have "lengthens (unat m + unat n) (encs (?es @ [?s, ?v]))"
    unfolding add.commute [of "unat m"] by (intro lengthens_append es)
  moreover have "lengthens 0 (encs (?es @ [?s]))" by (rule lengthens_last [OF es lengthens_mono [OF s]]) simp_all
  ultimately show ?thesis
    unfolding SpdmKeyExchangeResponsePayload_spdm_encode_def append_assoc assms(3) [symmetric] by simp
qed


lemma safe_finish_key_exchange:
  assumes "\<not> in_clear_text (negotiate_info c0) \<Longrightarrow> hash_size + asym_size \<le> n"
  shows "safe c0 new code (Coded n) (finish_key_exchange cr en request sid slot asym_size hash_size) (Coded n)"
proof -
  have size: "hash_size + asym_size \<le> n" "hash_size \<le> n" if "harmless new c0 c" "\<not> in_clear_text (negotiate_info c)" for c
    using assms that by (simp_all add: harmless_in_clear_text)
  show ?thesis unfolding finish_key_exchange_def
    by (rule safe_ask_given, (rule safe_rules safe_propagate harmless_rules | (rule safe_patch, erule (1) size))+)
qed

lemma safe_key_exchange:
  "safe c0 Opening SpdmResponseKeyExchangeRsp Blank (write_spdm_key_exchange_response p en bs) (Coded 0)"
  unfolding write_spdm_key_exchange_response_def
  by (rule safe_seq_respond safe_seq_expect safe_rules safe_finish_key_exchange safe_on_session_unwrapped safe_last
      disjI2 not_establishing_settle harmless_rules lengthens_key_exchange negotiated_sizes_bounded
      | assumption | erule harmless_in_clear_text | simp)+

lemma lengthens_finish:
  assumes "unat m \<le> SPDM_MAX_HASH_SIZE" "in_clear_text ni = clear"
  shows "lengthens (if clear then unat m else 0)
    (SpdmFinishResponsePayload_spdm_encode ni \<lparr>data_size = m, data = replicate SPDM_MAX_HASH_SIZE b\<rparr>)"
  unfolding SpdmFinishResponsePayload_spdm_encode_def assms(2)
  using lengthens_placeholder [OF assms(1)]
  by (intro lengthens_optional) (auto simp: lengthens_parts SpdmDigestStruct_spdm_encode_def)

lemma lengthens_psk_exchange:
  assumes "unat m \<le> SPDM_MAX_HASH_SIZE"
    "pr_verify_data p = \<lparr>data_size = m, data = replicate SPDM_MAX_HASH_SIZE b\<rparr>"
  shows "lengthens (unat m) (SpdmPskExchangeResponsePayload_spdm_encode ni summary p)"
proof -
  let ?es = "map BUFFER_FULL_enc
      [u8_encode (pr_heartbeat_period p), u8_encode 0, u16_encode (pr_rsp_session_id p), u16_encode 0,
       u16_encode (if psk_without_context ni then 0 else data_size (pr_psk_context p)),
       u16_encode (data_size (pr_opaque p))] @
    (if summary then [SpdmDigestStruct_spdm_encode ni (pr_measurement_summary_hash p)] else []) @
    (if psk_without_context ni then [] else [full_bytes (as_ref (pr_psk_context p))]) @
    [full_bytes (as_ref (pr_opaque p))]"
  have "lengthens (unat m) (encs (?es @ [SpdmDigestStruct_spdm_encode ni (pr_verify_data p)]))"
    using lengthens_placeholder [OF assms(1)] assms(2)
    by (intro lengthens_last) (auto simp: lengthens_parts SpdmDigestStruct_spdm_encode_def split: if_splits)
  then show ?thesis unfolding SpdmPskExchangeResponsePayload_spdm_encode_def append_assoc by (simp del: encs.simps)
qed

lemma safe_derive_data_secret: "safe c0 new code (Coded n) (derive_data_secret cr psk slot is_mut_auth sid) (Coded 0)"
proof -
  have "safe c0 new code (Coded n) (derive_data_secret cr psk slot is_mut_auth sid) (Coded n)"
    unfolding derive_data_secret_def by (rule safe_rules safe_propagate harmless_rules)+
  then show ?thesis by (rule safe_weaken) simp
qed

lemma safe_verify_request [safe_rules]:
  "safe c0 new code ph (verify_request_hmac cr psk is_mut_auth sid verify_data) ph"
  "safe c0 new code ph (check_mut_auth cr sid q) ph"
  unfolding verify_request_hmac_def check_mut_auth_def by (rule safe_rules)+

lemma safe_answer_finish:
  assumes "in_clear_text (negotiate_info c0) \<Longrightarrow> hash_size \<le> n"
  shows "safe c0 new code (Coded n) (answer_finish cr is_mut_auth sid hash_size) (Coded n)"
proof -
  have size: "hash_size \<le> n" if "harmless new c0 c" "in_clear_text (negotiate_info c)" for c
    using assms that by (simp_all add: harmless_in_clear_text)
  show ?thesis unfolding answer_finish_def
    by (rule safe_ask_given, (rule safe_rules | (rule safe_patch, erule (1) size))+)
qed

lemma safe_finish:
  "safe c0 new SpdmResponseFinishRsp Blank (write_spdm_finish_response cr sid bs) (Coded 0)"
  unfolding write_spdm_finish_response_def
  by (rule safe_seq_respond safe_seq_expect safe_rules harmless_rules lengthens_finish safe_answer_finish
      safe_derive_data_secret negotiated_sizes_bounded | assumption | erule harmless_in_clear_text | simp)+

lemma safe_psk_finish:
  "safe c0 new SpdmResponsePskFinishRsp Blank (write_spdm_psk_finish_response cr sid bs) (Coded 0)"
  unfolding write_spdm_psk_finish_response_def
  by (rule safe_seq_respond safe_rules harmless_rules lengthens_plain safe_derive_data_secret)+

lemma safe_finish_psk_exchange:
  "hash_size \<le> n \<Longrightarrow> safe c0 new code (Coded n) (finish_psk_exchange cr request sid hash_size) (Coded n)"
  unfolding finish_psk_exchange_def by (rule safe_rules safe_propagate harmless_rules safe_patch | assumption)+

lemma safe_skip_psk_finish: "new = Establishing \<Longrightarrow> safe c0 new code ph (skip_psk_finish cr sid) ph"
  unfolding skip_psk_finish_def
  by (rule safe_rules harmless_rules safe_on_session_unwrapped disjI1 session_id_settle | assumption)+

lemma pinned_propagate_total:
  assumes "harmless new c (snd (f c))" "\<And>e. fst (f c) \<noteq> Err e" "\<And>x. safe c0 new code ph (k x) ph'"
  shows "pinned c c0 new code ph (seq (propagate f) k) ph'"
  unfolding pinned_def
proof (rule valid_seq)
  have "harmless new c0 c'" if "f c = (r, c')" "harmless new c0 c" for r c'
    using that assms(1) harmless_trans by fastforce
  moreover have "f c \<noteq> (Err e, c')" for e c' using assms(2) [of e] by auto
  ultimately show "valid_act (\<lambda>w c'. in_phase code ph w \<and> harmless new c0 c' \<and> c' = c) (propagate f)
      (\<lambda>_ w c. in_phase code ph w \<and> harmless new c0 c) (\<lambda>_ w c. coded code 0 w \<and> harmless new c0 c)"
    by (intro valid_propagate) auto
qed (use assms(3) in \<open>simp add: safe_def\<close>)

lemma setup_psk_total: "fst (on_session 0 Panic (setup_psk_session t ni msg_a hint sid) c) \<noteq> Err e"
  by (simp add: on_session_def setup_psk_session_def Let_def split: option.splits result.splits prod.splits)

lemma safe_open_psk [safe_rules]: "safe c0 new code ph (open_psk_session p q) ph"
  unfolding open_psk_session_def
  by (rule safe_ask_pinned pinned_or_refuse pinned_propagate_total setup_psk_total safe_ret
      harmless_open [OF _ opens_setup(2)] | assumption)+

lemma safe_settle_last:
  "safe c0 new code (Coded n) (on_session_unwrapped sid (settle_session opaque period)) (Coded 0)"
  by (rule safe_weaken [OF safe_on_session_unwrapped]) (simp_all add: not_establishing_settle)

text \<open>
  A session becomes established while PSK_EXCHANGE is handled only without a PSK context, that is when
  the responder announced a PSK capability that needs no PSK_FINISH.
\<close>

lemma harmless_psk_without_context:
  "harmless new c0 c \<Longrightarrow> psk_without_context (negotiate_info c) = psk_without_context (negotiate_info c0)"
  by (subst harmless_negotiate, assumption) (simp add: psk_without_context_def)

lemma safe_psk_exchange:
  "safe c0 (if psk_without_context (negotiate_info c0) then Establishing else Quiet) SpdmResponsePskExchangeRsp Blank
    (write_spdm_psk_exchange_response p en bs) (Coded 0)"
  unfolding write_spdm_psk_exchange_response_def
  by (rule safe_seq_respond safe_seq_expect safe_ask_given safe_rules safe_finish_psk_exchange safe_skip_psk_finish
      safe_settle_last safe_on_session_unwrapped disjI2 not_establishing_settle harmless_rules lengthens_psk_exchange
      negotiated_sizes_bounded(2) | assumption | simp add: harmless_psk_without_context)+

end
