(* ===== verification/Requester_Session.thy ===== *)
theory Requester_Session
  imports Requester_Auth Responder_Session
begin

text \<open>
  The requester's sessions (\<open>src/spdmlib/src/requester/\<close>: \<open>key_exchange_req.rs\<close>, \<open>finish_req.rs\<close>,
  \<open>psk_exchange_req.rs\<close>, \<open>psk_finish_req.rs\<close>, \<open>heartbeat_req.rs\<close>, \<open>key_update_req.rs\<close>, \<open>end_session_req.rs\<close>,
  \<open>vendor_req.rs\<close>, and \<open>start_session\<close>, \<open>end_session\<close> of \<open>context.rs\<close>).

  \<^item> \<open>get_session_via_id(..).unwrap()\<close> and its immutable variant are \<open>rq_session\<close>; an entry that is not there
    makes it panic.
  \<^item> The key pair of a key exchange is an argument through \<open>env\<close>, as it is for the responder: the exchange data
    and the function that computes the final key from the peer's data.
  \<^item> Mutual authentication is modelled as far as the default build runs it: a responder may ask for it, and
    FINISH then carries a signature.
\<close>

section \<open>Definitions\<close>

definition rq_session :: "u32 \<Rightarrow> ('h SpdmSession \<Rightarrow> ('a, 'h, 'd) rq) \<Rightarrow> ('a, 'h, 'd) rq" where
  "rq_session sid k = rq_get (\<lambda>c.
    case get_session_via_id c sid of None \<Rightarrow> rq_ret Panic | Some s \<Rightarrow> k s)"

definition rq_transcript_hash :: "'h crypto \<Rightarrow> bool \<Rightarrow> u8 \<Rightarrow> bool \<Rightarrow> u32 \<Rightarrow> (SpdmDigestStruct, 'h, 'd) rq" where
  "rq_transcript_hash cr psk slot is_mut_auth sid =
    rq_session sid (\<lambda>s. rq_get (\<lambda>c. rq_ret (calc_req_transcript_hash cr c psk slot is_mut_auth s)))"

text \<open>\<open>let _ = get_session_via_id(session_id).unwrap().teardown(session_id)\<close>\<close>

definition rq_teardown :: "u32 \<Rightarrow> (unit, 'h, 'd) rq" where
  "rq_teardown sid = rq_on (on_session sid Panic (\<lambda>s. case session_teardown sid s of
      (Panic, s) \<Rightarrow> (Panic, s)
    | (_, s) \<Rightarrow> (Ok (), s)))"

text \<open>\<open>if f(..).is_err() \<open>{\<close> teardown; return Err(e) \<open>}\<close>\<close>\<close>

definition or_teardown :: "u32 \<Rightarrow> SpdmStatus \<Rightarrow> ('a, 'h, 'd) rq \<Rightarrow> ('a, 'h, 'd) rq" where
  "or_teardown sid e m st =
    (case m st of
      (Err _, st) \<Rightarrow> rq_bind (rq_teardown sid) (\<lambda>_. rq_ret (Err e)) st
    | r \<Rightarrow> r)"

text \<open>\<open>if res.is_err() \<open>{\<close> teardown; return Err(res.err().unwrap()) \<open>}\<close>\<close>\<close>

definition teardown_on_err :: "u32 \<Rightarrow> ('a, 'h, 'd) rq \<Rightarrow> ('a, 'h, 'd) rq" where
  "teardown_on_err sid m st =
    (case m st of
      (Err e, st) \<Rightarrow> rq_bind (rq_teardown sid) (\<lambda>_. rq_ret (Err e)) st
    | r \<Rightarrow> r)"

subsection \<open>KEY_EXCHANGE\<close>

text \<open>The opaque data that lists the supported secured message versions.\<close>

definition version_list_opaque :: "SpdmNegotiateInfo \<Rightarrow> SpdmOpaqueStruct SpdmResult" where
  "version_list_opaque ni =
    (if \<not> at_least SpdmVersion12 ni then Ok (opaque_of REQ_DMTF_OPAQUE_DATA_SUPPORT_VERSION_LIST_DSP0277)
     else if opaque_data_support ni = SpdmOpaqueSupport_OPAQUE_DATA_FMT1
     then Ok (opaque_of REQ_DMTF_OPAQUE_DATA_SUPPORT_VERSION_LIST_DSP0274_FMT1)
     else Err SPDM_STATUS_UNSUPPORTED_CAP)"

definition secured_version_of :: "SpdmNegotiateInfo \<Rightarrow> SpdmOpaqueStruct \<Rightarrow> u8" where
  "secured_version_of ni opaque =
    (case req_get_dmtf_secure_spdm_version_selection ni opaque of
      Some v \<Rightarrow> get_secure_spdm_version v
    | None \<Rightarrow> 0)"

definition encode_spdm_key_exchange ::
    "env \<Rightarrow> u16 \<Rightarrow> u8 \<Rightarrow> SpdmMeasurementSummaryHashType \<Rightarrow> 'h SpdmContext \<Rightarrow>
      ((SpdmDheExchangeStruct \<Rightarrow> SpdmDheFinalKeyStruct option) \<times> bytes) SpdmResult" where
  "encode_spdm_key_exchange en req_session_id slot t c = (let ni = negotiate_info c in
    rbind (get_random en SPDM_RANDOM_SIZE) (\<lambda>random.
    rbind (ok_or SPDM_STATUS_CRYPTO_ERROR (generate_key_pair en (dhe_sel ni))) (\<lambda>(exchange, compute_final_key).
    rbind (version_list_opaque ni) (\<lambda>opaque.
    rbind (encode_request (spdm_version_sel ni) SpdmRequestKeyExchange
      (SpdmKeyExchangeRequestPayload_spdm_encode ni
        \<lparr>kq_measurement_summary_hash_type = t, kq_slot_id = slot, kq_req_session_id = req_session_id,
         kq_session_policy = session_policy (config_info c), kq_random = random, kq_exchange = exchange,
         kq_opaque = opaque\<rparr>)) (\<lambda>send_buffer.
    Ok (compute_final_key, send_buffer))))))"

definition req_setup_dhe_session ::
    "'h crypto \<Rightarrow> transport \<Rightarrow> SpdmNegotiateInfo \<Rightarrow> ManagedBufferA \<Rightarrow> SpdmDigestStruct option \<Rightarrow>
      SpdmKeyExchangeMutAuthAttributes \<Rightarrow> SpdmDheFinalKeyStruct \<Rightarrow> u32 \<Rightarrow> 'h SpdmSession \<Rightarrow>
      unit SpdmResult \<times> 'h SpdmSession" where
  "req_setup_dhe_session cr t ni msg_a chain_hash mut_auth final_key sid s =
    (case session_setup sid s of
      (Ok _, s) \<Rightarrow>
        (case set_dhe_secret cr (spdm_version_sel ni) final_key
            (crypto_params ni t (s\<lparr>use_psk := False, mut_auth_requested := mut_auth\<rparr>)) of
          (Ok _, s) \<Rightarrow> (Ok (), s\<lparr>s_runtime_info := (s_runtime_info s)\<lparr>s_message_a := msg_a,
              rsp_cert_hash := chain_hash, req_cert_hash := None\<rparr>\<rparr>)
        | (Err e, s) \<Rightarrow> (Err e, s)
        | (Panic, s) \<Rightarrow> (Panic, s))
    | (Err e, s) \<Rightarrow> (Err e, s)
    | (Panic, s) \<Rightarrow> (Panic, s))"

definition verify_key_exchange_rsp_signature ::
    "'h crypto \<Rightarrow> u8 \<Rightarrow> SpdmSignatureStruct \<Rightarrow> 'h SpdmSession \<Rightarrow> 'h SpdmContext \<Rightarrow> unit SpdmResult" where
  "verify_key_exchange_rsp_signature cr slot sig s c =
    rbind (calc_req_transcript_hash cr c False slot False s) (\<lambda>h.
    verify_peer_signature cr (unat slot) SPDM_VERSION_1_2_SIGNING_CONTEXT_ZEROPAD_2
      SPDM_KEY_EXCHANGE_RESPONSE_SIGN_CONTEXT h sig c)"

definition req_settle_session :: "u8 \<Rightarrow> u8 \<Rightarrow> SpdmSessionState \<Rightarrow> 'h SpdmSession \<Rightarrow> 'h SpdmSession" where
  "req_settle_session secured_version period st s =
    set_session_state st (s\<lparr>secure_spdm_version_sel := secured_version, heartbeat_period := period\<rparr>)"

text \<open>Transcript, signature, handshake keys and HMAC of a session just set up; \<open>used\<close> bytes were read.\<close>

definition verify_key_exchange ::
    "'h crypto \<Rightarrow> u32 \<Rightarrow> u8 \<Rightarrow> bytes \<Rightarrow> bytes \<Rightarrow> nat \<Rightarrow> SpdmKeyExchangeResponsePayload \<Rightarrow> (unit, 'h, 'd) rq" where
  "verify_key_exchange cr sid slot send_buffer receive_buffer used q = rq_get (\<lambda>c.
    let ni = negotiate_info c; clear = in_clear_text ni in
    rq_bind (rq_ret (get_asym_key_size ni)) (\<lambda>asym_size.
    rq_bind (rq_ret (get_hash_size ni)) (\<lambda>hash_size.
    rq_bind (rq_on (append_message_k cr sid send_buffer)) (\<lambda>_.
    rq_bind (rq_ret (slice_but used (unat asym_size + (if clear then 0 else unat hash_size)) receive_buffer)) (\<lambda>temp.
    rq_bind (rq_on (append_message_k cr sid temp)) (\<lambda>_.
    rq_bind (rq_session sid (\<lambda>s. rq_get (\<lambda>c. rq_ret (map_err (\<lambda>_. SPDM_STATUS_VERIF_FAIL)
      (verify_key_exchange_rsp_signature cr slot (kr_signature q) s c))))) (\<lambda>_.
    rq_bind (rq_on (append_message_k cr sid (as_ref (kr_signature q)))) (\<lambda>_.
    rq_bind (rq_transcript_hash cr False slot False sid) (\<lambda>th1.
    rq_bind (rq_on (on_session sid Panic (generate_handshake_secret cr (spdm_version_sel ni) th1))) (\<lambda>_.
    if clear then rq_ret (Ok ())
    else
    rq_bind (rq_transcript_hash cr False slot False sid) (\<lambda>th.
    rq_bind (or_teardown sid SPDM_STATUS_VERIF_FAIL (rq_session sid (\<lambda>s.
      rq_ret (verify_hmac_with_response_finished_key cr (as_ref th) (kr_verify_data q) s)))) (\<lambda>_.
    or_teardown sid SPDM_STATUS_BUFFER_FULL
      (rq_on (append_message_k cr sid (as_ref (kr_verify_data q))))))))))))))))"

definition accept_key_exchange ::
    "('h, 'd) requester_platform \<Rightarrow> u16 \<Rightarrow> u8 \<Rightarrow> bytes \<Rightarrow> bytes \<Rightarrow> nat \<Rightarrow>
      (SpdmDheExchangeStruct \<Rightarrow> SpdmDheFinalKeyStruct option) \<Rightarrow> SpdmKeyExchangeResponsePayload \<Rightarrow> (u32, 'h, 'd) rq" where
  "accept_key_exchange p req_session_id slot send_buffer receive_buffer used compute_final_key q =
    rq_get (\<lambda>c. let cr = q_crypto p; ni = negotiate_info c; sid = session_id_of (kr_rsp_session_id q) req_session_id in
    rq_bind (rq_ret (ok_or SPDM_STATUS_CRYPTO_ERROR (compute_final_key (kr_exchange q)))) (\<lambda>final_key.
    rq_bind (rq_ret (get_certchain_hash_peer cr c False (unat slot))) (\<lambda>chain_hash.
    if Option.is_none chain_hash then rq_ret (Err SPDM_STATUS_INVALID_MSG_FIELD)
    else
    rq_bind (rq_ret (ok_or SPDM_STATUS_SESSION_NUMBER_EXCEED (get_next_avaiable_session c))) (\<lambda>_.
    rq_bind (rq_on (on_session 0 Panic (req_setup_dhe_session cr (q_transport p) ni (message_a (runtime_info c))
      chain_hash (kr_mut_auth_req q) final_key sid))) (\<lambda>_.
    rq_bind (verify_key_exchange cr sid slot send_buffer receive_buffer used q) (\<lambda>_.
    rq_bind (rq_on (on_session sid Panic (\<lambda>s. (Ok (), req_settle_session (secured_version_of ni (kr_opaque q))
      (kr_heartbeat_period q) SpdmSessionHandshaking s)))) (\<lambda>_.
    rq_bind (if in_clear_text ni then rq_upd (set_last_session_id (Some sid)) else rq_ret (Ok ())) (\<lambda>_.
    rq_ret (Ok sid)))))))))"

definition handle_spdm_key_exhcange_response ::
    "('h, 'd) requester_platform \<Rightarrow> u16 \<Rightarrow> u8 \<Rightarrow> bytes \<Rightarrow> bytes \<Rightarrow> SpdmMeasurementSummaryHashType \<Rightarrow>
      (SpdmDheExchangeStruct \<Rightarrow> SpdmDheFinalKeyStruct option) \<Rightarrow> (u32, 'h, 'd) rq" where
  "handle_spdm_key_exhcange_response p req_session_id slot send_buffer receive_buffer t compute_final_key =
    rq_bind (rq_upd (upd_rt (need_measurement_summary_hash_update (\<lambda>_. needs_summary t)))) (\<lambda>_.
    on_response True SpdmResponseKeyExchangeRsp None receive_buffer (\<lambda>r. rq_get (\<lambda>c.
    rq_bind (rq_ret (rq_readp (SpdmKeyExchangeResponsePayload_spdm_read (negotiate_info c)
      (need_measurement_summary_hash (runtime_info c)) r))) (\<lambda>(q, r).
    accept_key_exchange p req_session_id slot send_buffer receive_buffer (reader_used r) compute_final_key q))))"

definition send_receive_spdm_key_exchange ::
    "('h, 'd) requester_platform \<Rightarrow> env \<Rightarrow> u8 \<Rightarrow> SpdmMeasurementSummaryHashType \<Rightarrow> (u32, 'h, 'd) rq" where
  "send_receive_spdm_key_exchange p en slot t =
    (if unat slot \<ge> SPDM_MAX_SLOT_NUMBER then rq_ret (Err SPDM_STATUS_INVALID_PARAMETER)
     else
     rq_get (\<lambda>c.
     rq_bind (rq_ret (get_next_half_session_id c True)) (\<lambda>req_session_id.
     rq_bind (rq_upd (reset_buffer_via_request_code SpdmRequestKeyExchange None)) (\<lambda>_.
     rq_get (\<lambda>c.
     rq_bind (rq_ret (encode_spdm_key_exchange en req_session_id slot t c)) (\<lambda>(compute_final_key, send_buffer).
     rq_bind (exchange_message p None False send_buffer) (\<lambda>receive_buffer.
     handle_spdm_key_exhcange_response p req_session_id slot send_buffer receive_buffer t compute_final_key)))))))"

subsection \<open>FINISH\<close>

text \<open>\<open>buf[i..j].copy_from_slice(bs)\<close>\<close>

definition patch_at :: "nat \<Rightarrow> nat \<Rightarrow> bytes \<Rightarrow> bytes \<Rightarrow> bytes SpdmResult" where
  "patch_at i j bs buf =
    (if i \<le> j \<and> j \<le> length buf \<and> length bs = j - i then Ok (write_at buf i bs) else Panic)"

definition generate_finish_req_signature ::
    "'h crypto \<Rightarrow> env \<Rightarrow> 'h SpdmSession \<Rightarrow> 'h SpdmContext \<Rightarrow> SpdmSignatureStruct SpdmResult" where
  "generate_finish_req_signature cr en s c = (let ni = negotiate_info c in
    rbind (calc_req_transcript_hash cr c False INVALID_SLOT True s) (\<lambda>h.
    rbind (message_to_sign ni SPDM_VERSION_1_2_SIGNING_CONTEXT_ZEROPAD_12 SPDM_FINISH_SIGN_CONTEXT h) (\<lambda>m.
    rbind (ok_or SPDM_STATUS_CRYPTO_ERROR (asym_sign en (base_hash_sel ni) (base_asym_sel ni) m)) (\<lambda>sig.
    let slot = unat (local_used_cert_chain_slot_id (runtime_info c)) in
    rbind (index_panic (my_cert_chain (provision_info c)) slot) (\<lambda>mine.
    rbind (ok_or SPDM_STATUS_INVALID_PARAMETER mine) (\<lambda>mine.
    rbind (get_hash_size ni) (\<lambda>hash_size.
    rbind (index_panic (peer_cert_chain (peer_info c)) slot) (\<lambda>peer.
    rbind (ok_or SPDM_STATUS_INVALID_PARAMETER peer) (\<lambda>peer.
    rbind (slice_range (4 + unat hash_size) (unat (data_size peer)) (data mine)) (\<lambda>certs.
    (case asym_verify cr (base_hash_sel ni) (base_asym_sel ni) certs m sig of
      Ok _ \<Rightarrow> Ok sig
    | _ \<Rightarrow> Panic)))))))))))"

text \<open>The request is encoded into a zeroed message buffer and patched there.\<close>

definition encode_spdm_finish :: "'h crypto \<Rightarrow> env \<Rightarrow> u32 \<Rightarrow> u8 \<Rightarrow> (bytes, 'h, 'd) rq" where
  "encode_spdm_finish cr en sid req_slot = rq_get (\<lambda>c. let ni = negotiate_info c in
    rq_bind (rq_ret (ok_or SPDM_STATUS_INVALID_STATE_LOCAL (get_session_via_id c sid))) (\<lambda>s.
    let is_mut_auth = mut_auth_requested s \<noteq> 0 in
    rq_bind (rq_ret (if is_mut_auth then SpdmReqAsymAlgo_get_size (req_asym_sel ni) else Ok 0)) (\<lambda>sig_size.
    rq_bind (rq_ret (get_hash_size ni)) (\<lambda>hash_size.
    rq_bind (rq_ret (encode_request (spdm_version_sel ni) SpdmRequestFinish
      (SpdmFinishRequestPayload_spdm_encode ni
        \<lparr>fq_finish_request_attributes = if is_mut_auth then SIGNATURE_INCLUDED else 0,
         fq_req_slot_id = req_slot,
         fq_signature = SpdmSignatureStruct_default\<lparr>data_size := sig_size\<rparr>,
         fq_verify_data = \<lparr>data_size = hash_size, data = replicate SPDM_MAX_HASH_SIZE 0xCC\<rparr>\<rparr>))) (\<lambda>buf.
    rq_bind (rq_on (append_message_f cr True sid (take 4 buf))) (\<lambda>_.
    rq_get (\<lambda>c.
    rq_bind (rq_ret (ok_or SPDM_STATUS_INVALID_STATE_LOCAL (get_session_via_id c sid))) (\<lambda>s.
    rq_bind (if mut_auth_requested s \<noteq> 0
        then
          rq_bind (rq_ret (generate_finish_req_signature cr en s c)) (\<lambda>sig.
          rq_bind (rq_ret (patch_at 4 (4 + unat (data_size sig)) (as_ref sig)
            (buf @ replicate (MAX_SPDM_MSG_SIZE - length buf) 0))) (\<lambda>patched.
          rq_bind (rq_on (append_message_f cr True sid (as_ref sig))) (\<lambda>_.
          rq_ret (Ok (take (length buf) patched)))))
        else rq_ret (Ok buf)) (\<lambda>buf.
    rq_bind (rq_transcript_hash cr False req_slot is_mut_auth sid) (\<lambda>th.
    rq_bind (rq_session sid (\<lambda>s. rq_ret (generate_hmac_with_request_finished_key cr (as_ref th) s))) (\<lambda>mac.
    rq_bind (rq_on (append_message_f cr True sid (as_ref mac))) (\<lambda>_.
    rq_ret (if unat hash_size \<le> length buf
      then patch_at (length buf - unat hash_size) (length buf) (as_ref mac) buf else Panic)))))))))))))"

text \<open>The transcript after FINISH_RSP is hashed into the data keys; then the session is established.\<close>

definition req_derive_data_secret :: "'h crypto \<Rightarrow> bool \<Rightarrow> u8 \<Rightarrow> bool \<Rightarrow> u32 \<Rightarrow> (unit, 'h, 'd) rq" where
  "req_derive_data_secret cr psk slot is_mut_auth sid =
    rq_bind (rq_transcript_hash cr psk slot is_mut_auth sid) (\<lambda>th2. rq_get (\<lambda>c.
    rq_bind (rq_on (on_session sid Panic (generate_data_secret cr (spdm_version_sel (negotiate_info c)) th2))) (\<lambda>_.
    rq_on (on_session sid Panic (\<lambda>s. (Ok (), set_session_state SpdmSessionEstablished s))))))"

definition handle_spdm_finish_response :: "'h crypto \<Rightarrow> u32 \<Rightarrow> u8 \<Rightarrow> bytes \<Rightarrow> (unit, 'h, 'd) rq" where
  "handle_spdm_finish_response cr sid req_slot receive_buffer = rq_get (\<lambda>c.
    let ni = negotiate_info c; clear = in_clear_text ni in
    rq_bind (rq_ret (ok_or SPDM_STATUS_INVALID_STATE_LOCAL (get_session_via_id c sid))) (\<lambda>s.
    let is_mut_auth = mut_auth_requested s \<noteq> 0 in
    on_response False SpdmResponseFinishRsp (Some sid) receive_buffer (\<lambda>r.
    rq_bind (rq_ret (rq_readp (SpdmFinishResponsePayload_spdm_read ni r))) (\<lambda>(verify_data, r).
    rq_bind (rq_ret (get_hash_size ni)) (\<lambda>hash_size.
    rq_bind (if clear
        then
          rq_bind (rq_ret (slice_but (reader_used r) (unat hash_size) receive_buffer)) (\<lambda>temp.
          rq_bind (rq_on (append_message_f cr True sid temp)) (\<lambda>_.
          rq_bind (rq_transcript_hash cr False req_slot is_mut_auth sid) (\<lambda>th.
          rq_bind (rq_session sid (\<lambda>s. rq_ret (map_err (\<lambda>_. SPDM_STATUS_VERIF_FAIL)
            (verify_hmac_with_response_finished_key cr (as_ref th) verify_data s)))) (\<lambda>_.
          rq_on (append_message_f cr True sid (as_ref verify_data))))))
        else rq_on (append_message_f cr True sid (take (reader_used r) receive_buffer))) (\<lambda>_.
    rq_bind (req_derive_data_secret cr False req_slot is_mut_auth sid) (\<lambda>_.
    rq_upd (set_last_session_id None))))))))"

text \<open>The last step tears the session down only if it is still there.\<close>

definition finally_teardown :: "u32 \<Rightarrow> (unit, 'h, 'd) rq \<Rightarrow> (unit, 'h, 'd) rq" where
  "finally_teardown sid m st =
    (case m st of
      (Err e, st) \<Rightarrow>
        (case get_session_via_id (rq_common st) sid of
          None \<Rightarrow> (Err e, st)
        | Some _ \<Rightarrow> rq_bind (rq_teardown sid) (\<lambda>_. rq_ret (Err e)) st)
    | r \<Rightarrow> r)"

definition send_receive_spdm_finish ::
    "('h, 'd) requester_platform \<Rightarrow> env \<Rightarrow> u8 option \<Rightarrow> u32 \<Rightarrow> (unit, 'h, 'd) rq" where
  "send_receive_spdm_finish p en req_slot sid = rq_get (\<lambda>c. let clear = in_clear_text (negotiate_info c) in
    rq_bind (case req_slot of
        None \<Rightarrow> rq_ret (Ok 0)
      | Some i \<Rightarrow>
          if unat i \<ge> SPDM_MAX_SLOT_NUMBER then rq_ret (Err SPDM_STATUS_INVALID_STATE_LOCAL)
          else rq_bind (rq_ret (index_panic (my_cert_chain (provision_info c)) (unat i))) (\<lambda>chain.
            if Option.is_none chain then rq_ret (Err SPDM_STATUS_INVALID_STATE_LOCAL) else rq_ret (Ok i))) (\<lambda>slot.
    if Option.is_none (get_session_via_id c sid) then rq_ret (Err SPDM_STATUS_INVALID_PARAMETER)
    else
    rq_bind (rq_upd (reset_buffer_via_request_code SpdmRequestFinish (Some sid))) (\<lambda>_.
    rq_bind (teardown_on_err sid (encode_spdm_finish (q_crypto p) en sid slot)) (\<lambda>send_buffer.
    rq_bind (teardown_on_err sid (if clear then req_send_message p send_buffer
      else req_send_secured_message p sid send_buffer False)) (\<lambda>_.
    rq_bind (teardown_on_err sid (if clear then req_receive_message p False
      else req_receive_secured_message p sid False)) (\<lambda>receive_buffer.
    finally_teardown sid (handle_spdm_finish_response (q_crypto p) sid slot receive_buffer)))))))"

subsection \<open>PSK_EXCHANGE and PSK_FINISH\<close>

definition encode_spdm_psk_exchange ::
    "env \<Rightarrow> u16 \<Rightarrow> SpdmMeasurementSummaryHashType \<Rightarrow> SpdmPskHintStruct \<Rightarrow> 'h SpdmContext \<Rightarrow> bytes SpdmResult" where
  "encode_spdm_psk_exchange en half_sid t hint c = (let ni = negotiate_info c in
    rbind (get_random en MAX_SPDM_PSK_CONTEXT_SIZE) (\<lambda>psk_context.
    rbind (version_list_opaque ni) (\<lambda>opaque.
    rbind (get_hash_size ni) (\<lambda>hash_size.
    encode_request (spdm_version_sel ni) SpdmRequestPskExchange
      (SpdmPskExchangeRequestPayload_spdm_encode
        \<lparr>pq_measurement_summary_hash_type = t, pq_req_session_id = half_sid, pq_psk_hint = hint,
         pq_psk_context = \<lparr>data_size = hash_size, data = psk_context\<rparr>, pq_opaque = opaque\<rparr>)))))"

definition req_setup_psk_session ::
    "transport \<Rightarrow> SpdmNegotiateInfo \<Rightarrow> ManagedBufferA \<Rightarrow> SpdmPskHintStruct \<Rightarrow> u32 \<Rightarrow> 'h SpdmSession \<Rightarrow>
      unit SpdmResult \<times> 'h SpdmSession" where
  "req_setup_psk_session t ni msg_a hint sid s =
    (case session_setup sid s of
      (Ok _, s) \<Rightarrow>
        let s = crypto_params ni t (s\<lparr>use_psk := True\<rparr>)
        in (Ok (), s\<lparr>s_runtime_info := (s_runtime_info s)\<lparr>psk_hint := Some hint, s_message_a := msg_a,
              rsp_cert_hash := None, req_cert_hash := None\<rparr>\<rparr>)
    | (Err e, s) \<Rightarrow> (Err e, s)
    | (Panic, s) \<Rightarrow> (Panic, s))"

definition verify_psk_exchange ::
    "'h crypto \<Rightarrow> u32 \<Rightarrow> bytes \<Rightarrow> bytes \<Rightarrow> nat \<Rightarrow> SpdmPskExchangeResponsePayload \<Rightarrow> (unit, 'h, 'd) rq" where
  "verify_psk_exchange cr sid send_buffer receive_buffer used q = rq_get (\<lambda>c. let ni = negotiate_info c in
    rq_bind (rq_ret (get_hash_size ni)) (\<lambda>hash_size.
    rq_bind (rq_on (append_message_k cr sid send_buffer)) (\<lambda>_.
    rq_bind (rq_ret (slice_but used (unat hash_size) receive_buffer)) (\<lambda>temp.
    rq_bind (rq_on (append_message_k cr sid temp)) (\<lambda>_.
    rq_bind (rq_transcript_hash cr True INVALID_SLOT False sid) (\<lambda>th1.
    rq_bind (rq_on (on_session sid Panic (generate_handshake_secret cr (spdm_version_sel ni) th1))) (\<lambda>_.
    rq_bind (rq_transcript_hash cr True INVALID_SLOT False sid) (\<lambda>th.
    rq_bind (or_teardown sid SPDM_STATUS_VERIF_FAIL (rq_session sid (\<lambda>s.
      rq_ret (verify_hmac_with_response_finished_key cr (as_ref th) (pr_verify_data q) s)))) (\<lambda>_.
    or_teardown sid SPDM_STATUS_BUFFER_FULL
      (rq_on (append_message_k cr sid (as_ref (pr_verify_data q)))))))))))))"

definition accept_psk_exchange ::
    "('h, 'd) requester_platform \<Rightarrow> u16 \<Rightarrow> SpdmPskHintStruct \<Rightarrow> bytes \<Rightarrow> bytes \<Rightarrow> nat \<Rightarrow>
      SpdmPskExchangeResponsePayload \<Rightarrow> (u32, 'h, 'd) rq" where
  "accept_psk_exchange p half_sid hint send_buffer receive_buffer used q =
    rq_get (\<lambda>c. let cr = q_crypto p; ni = negotiate_info c; sid = session_id_of (pr_rsp_session_id q) half_sid in
    rq_bind (rq_ret (ok_or SPDM_STATUS_SESSION_NUMBER_EXCEED (get_next_avaiable_session c))) (\<lambda>_.
    rq_bind (rq_on (on_session 0 Panic (req_setup_psk_session (q_transport p) ni (message_a (runtime_info c)) hint
      sid))) (\<lambda>_.
    rq_bind (verify_psk_exchange cr sid send_buffer receive_buffer used q) (\<lambda>_.
    rq_bind (rq_on (on_session sid (Err SPDM_STATUS_INVALID_PARAMETER)
      (\<lambda>s. (Ok (), set_session_state SpdmSessionHandshaking s)))) (\<lambda>_.
    rq_bind (if psk_without_context ni then req_derive_data_secret cr True INVALID_SLOT False sid
      else rq_session sid (\<lambda>_. rq_ret (Ok ()))) (\<lambda>_.
    rq_bind (rq_on (on_session sid Panic (\<lambda>s. (Ok (), s\<lparr>
      secure_spdm_version_sel := secured_version_of ni (pr_opaque q),
      heartbeat_period := pr_heartbeat_period q\<rparr>)))) (\<lambda>_.
    rq_ret (Ok sid))))))))"

definition handle_spdm_psk_exchange_response ::
    "('h, 'd) requester_platform \<Rightarrow> u16 \<Rightarrow> SpdmMeasurementSummaryHashType \<Rightarrow> SpdmPskHintStruct \<Rightarrow> bytes \<Rightarrow> bytes \<Rightarrow>
      (u32, 'h, 'd) rq" where
  "handle_spdm_psk_exchange_response p half_sid t hint send_buffer receive_buffer =
    rq_bind (rq_upd (upd_rt (need_measurement_summary_hash_update (\<lambda>_. needs_summary t)))) (\<lambda>_.
    on_response True SpdmResponsePskExchangeRsp None receive_buffer (\<lambda>r. rq_get (\<lambda>c.
    rq_bind (rq_ret (rq_readp (SpdmPskExchangeResponsePayload_spdm_read (negotiate_info c)
      (need_measurement_summary_hash (runtime_info c)) r))) (\<lambda>(q, r).
    accept_psk_exchange p half_sid hint send_buffer receive_buffer (reader_used r) q))))"

definition send_receive_spdm_psk_exchange ::
    "('h, 'd) requester_platform \<Rightarrow> env \<Rightarrow> SpdmMeasurementSummaryHashType \<Rightarrow> SpdmPskHintStruct option \<Rightarrow>
      (u32, 'h, 'd) rq" where
  "send_receive_spdm_psk_exchange p en t hint =
    (let hint = (case hint of Some h \<Rightarrow> h | None \<Rightarrow> sized_default MAX_SPDM_PSK_HINT_SIZE) in
    rq_bind (rq_upd (reset_buffer_via_request_code SpdmRequestPskExchange None)) (\<lambda>_.
    rq_get (\<lambda>c.
    rq_bind (rq_ret (get_next_half_session_id c True)) (\<lambda>half_sid.
    rq_bind (rq_ret (encode_spdm_psk_exchange en half_sid t hint c)) (\<lambda>send_buffer.
    rq_bind (exchange_message p None False send_buffer) (\<lambda>receive_buffer.
    handle_spdm_psk_exchange_response p half_sid t hint send_buffer receive_buffer))))))"

definition encode_spdm_psk_finish :: "'h crypto \<Rightarrow> u32 \<Rightarrow> (bytes, 'h, 'd) rq" where
  "encode_spdm_psk_finish cr sid = rq_get (\<lambda>c. let ni = negotiate_info c in
    rq_bind (rq_ret (get_hash_size ni)) (\<lambda>hash_size.
    rq_bind (rq_ret (encode_request (spdm_version_sel ni) SpdmRequestPskFinish
      (SpdmPskFinishRequestPayload_spdm_encode ni
        \<lparr>data_size = hash_size, data = replicate SPDM_MAX_HASH_SIZE 0xCC\<rparr>))) (\<lambda>buf.
    rq_bind (rq_ret (slice_but (length buf) (unat hash_size) buf)) (\<lambda>temp.
    rq_bind (rq_on (append_message_f cr True sid temp)) (\<lambda>_.
    rq_bind (rq_transcript_hash cr True INVALID_SLOT False sid) (\<lambda>th.
    rq_bind (rq_session sid (\<lambda>s. rq_ret (generate_hmac_with_request_finished_key cr (as_ref th) s))) (\<lambda>mac.
    rq_bind (rq_on (append_message_f cr True sid (as_ref mac))) (\<lambda>_.
    rq_ret (patch_at (length buf - unat hash_size) (length buf) (as_ref mac) buf)))))))))"

definition handle_spdm_psk_finish_response :: "'h crypto \<Rightarrow> u32 \<Rightarrow> bytes \<Rightarrow> (unit, 'h, 'd) rq" where
  "handle_spdm_psk_finish_response cr sid receive_buffer =
    on_response True SpdmResponsePskFinishRsp (Some sid) receive_buffer (\<lambda>r.
    rq_bind (rq_ret (rq_read (SpdmPskFinishResponsePayload_spdm_read r))) (\<lambda>(_, r).
    rq_bind (rq_on (append_message_f cr True sid (take (reader_used r) receive_buffer))) (\<lambda>_.
    req_derive_data_secret cr True INVALID_SLOT False sid)))"

definition send_receive_spdm_psk_finish :: "('h, 'd) requester_platform \<Rightarrow> u32 \<Rightarrow> (unit, 'h, 'd) rq" where
  "send_receive_spdm_psk_finish p sid = rq_get (\<lambda>c.
    if Option.is_none (get_session_via_id c sid) then rq_ret (Err SPDM_STATUS_INVALID_PARAMETER)
    else
    rq_bind (rq_upd (reset_buffer_via_request_code SpdmRequestPskFinish (Some sid))) (\<lambda>_.
    rq_bind (teardown_on_err sid (encode_spdm_psk_finish (q_crypto p) sid)) (\<lambda>send_buffer.
    rq_bind (teardown_on_err sid (req_send_secured_message p sid send_buffer False)) (\<lambda>_.
    rq_bind (teardown_on_err sid (req_receive_secured_message p sid False)) (\<lambda>receive_buffer.
    finally_teardown sid (handle_spdm_psk_finish_response (q_crypto p) sid receive_buffer))))))"

subsection \<open>Inside a session\<close>

definition encode_spdm_heartbeat :: "'h SpdmContext \<Rightarrow> bytes SpdmResult" where
  "encode_spdm_heartbeat c = encode_request (spdm_version_sel (negotiate_info c)) SpdmRequestHeartbeat
    SpdmHeartbeatRequestPayload_spdm_encode"

definition handle_spdm_heartbeat_response :: "u32 \<Rightarrow> bytes \<Rightarrow> (unit, 'h, 'd) rq" where
  "handle_spdm_heartbeat_response sid receive_buffer =
    on_response True SpdmResponseHeartbeatAck (Some sid) receive_buffer (\<lambda>r.
    rq_bind (rq_ret (rq_read (SpdmHeartbeatResponsePayload_spdm_read r))) (\<lambda>_. rq_ret (Ok ())))"

definition send_receive_spdm_heartbeat :: "('h, 'd) requester_platform \<Rightarrow> u32 \<Rightarrow> (unit, 'h, 'd) rq" where
  "send_receive_spdm_heartbeat p sid =
    rq_bind (rq_upd (reset_buffer_via_request_code SpdmRequestHeartbeat (Some sid))) (\<lambda>_.
    rq_get (\<lambda>c.
    rq_bind (rq_ret (encode_spdm_heartbeat c)) (\<lambda>send_buffer.
    rq_bind (exchange_message p (Some sid) False send_buffer) (\<lambda>receive_buffer.
    handle_spdm_heartbeat_response sid receive_buffer))))"

definition encode_spdm_key_update_op :: "SpdmKeyUpdateOperation \<Rightarrow> u8 \<Rightarrow> 'h SpdmContext \<Rightarrow> bytes SpdmResult" where
  "encode_spdm_key_update_op operation t c =
    encode_request (spdm_version_sel (negotiate_info c)) SpdmRequestKeyUpdate
      (SpdmKeyUpdateRequestPayload_spdm_encode \<lparr>key_update_operation = operation, tag = t\<rparr>)"

definition handle_spdm_key_update_op_response :: "u32 \<Rightarrow> bool \<Rightarrow> bool \<Rightarrow> bytes \<Rightarrow> (unit, 'h, 'd) rq" where
  "handle_spdm_key_update_op_response sid update_requester update_responder receive_buffer =
    on_response True SpdmResponseKeyUpdateAck (Some sid) receive_buffer (\<lambda>r. rq_get (\<lambda>c.
    let rsp = SpdmKeyUpdateResponsePayload_spdm_read r in
    rq_bind (rq_on (on_session sid (Err SPDM_STATUS_INVALID_PARAMETER)
      (activate_data_secret_update (spdm_version_sel (negotiate_info c)) update_requester update_responder
        (\<not> Option.is_none rsp)))) (\<lambda>_.
    rq_ret (if Option.is_none rsp then Err SPDM_STATUS_INVALID_MSG_FIELD else Ok ()))))"

definition send_receive_spdm_key_update_op ::
    "('h, 'd) requester_platform \<Rightarrow> u32 \<Rightarrow> SpdmKeyUpdateOperation \<Rightarrow> u8 \<Rightarrow> (unit, 'h, 'd) rq" where
  "send_receive_spdm_key_update_op p sid operation t =
    rq_bind (rq_upd (reset_buffer_via_request_code SpdmRequestKeyUpdate (Some sid))) (\<lambda>_.
    rq_get (\<lambda>c.
    rq_bind (rq_ret (encode_spdm_key_update_op operation t c)) (\<lambda>send_buffer.
    rq_bind (req_send_secured_message p sid send_buffer False) (\<lambda>_.
    let update_requester = operation = SpdmUpdateSingleKey \<or> operation = SpdmUpdateAllKeys;
        update_responder = operation = SpdmUpdateAllKeys in
    rq_bind (rq_on (on_session sid (Err SPDM_STATUS_INVALID_PARAMETER)
      (create_data_secret_update (q_crypto p) (spdm_version_sel (negotiate_info c)) update_requester
        update_responder))) (\<lambda>_.
    rq_bind (req_receive_secured_message p sid False) (\<lambda>receive_buffer.
    handle_spdm_key_update_op_response sid update_requester update_responder receive_buffer))))))"

definition send_receive_spdm_key_update ::
    "('h, 'd) requester_platform \<Rightarrow> u32 \<Rightarrow> SpdmKeyUpdateOperation \<Rightarrow> (unit, 'h, 'd) rq" where
  "send_receive_spdm_key_update p sid operation =
    (if operation \<noteq> SpdmUpdateAllKeys \<and> operation \<noteq> SpdmUpdateSingleKey
     then rq_ret (Err SPDM_STATUS_INVALID_MSG_FIELD)
     else
     rq_bind (send_receive_spdm_key_update_op p sid operation 1) (\<lambda>_.
     send_receive_spdm_key_update_op p sid SpdmVerifyNewKey 2))"

definition encode_spdm_end_session :: "'h SpdmContext \<Rightarrow> bytes SpdmResult" where
  "encode_spdm_end_session c = encode_request (spdm_version_sel (negotiate_info c)) SpdmRequestEndSession
    (SpdmEndSessionRequestPayload_spdm_encode 0)"

definition handle_spdm_end_session_response :: "u32 \<Rightarrow> bytes \<Rightarrow> (unit, 'h, 'd) rq" where
  "handle_spdm_end_session_response sid receive_buffer =
    on_response True SpdmResponseEndSessionAck (Some sid) receive_buffer (\<lambda>r.
    rq_bind (rq_ret (rq_read (SpdmEndSessionResponsePayload_spdm_read r))) (\<lambda>_.
    rq_on (on_session sid (Err SPDM_STATUS_INVALID_PARAMETER) (session_teardown sid))))"

definition send_receive_spdm_end_session :: "('h, 'd) requester_platform \<Rightarrow> u32 \<Rightarrow> (unit, 'h, 'd) rq" where
  "send_receive_spdm_end_session p sid =
    rq_bind (rq_upd (reset_buffer_via_request_code SpdmRequestEndSession (Some sid))) (\<lambda>_.
    rq_get (\<lambda>c.
    rq_bind (rq_ret (encode_spdm_end_session c)) (\<lambda>send_buffer.
    rq_bind (exchange_message p (Some sid) False send_buffer) (\<lambda>receive_buffer.
    handle_spdm_end_session_response sid receive_buffer))))"

definition handle_spdm_vendor_defined_respond ::
    "u32 option \<Rightarrow> bytes \<Rightarrow> (VendorDefinedRspPayloadStruct, 'h, 'd) rq" where
  "handle_spdm_vendor_defined_respond sid receive_buffer =
    on_response True SpdmResponseVendorDefinedResponse sid receive_buffer (\<lambda>r.
    rq_bind (rq_ret (rq_read (SpdmVendorDefinedResponsePayload_spdm_read r))) (\<lambda>(q, _).
    rq_ret (Ok (vd_payload q))))"

definition send_spdm_vendor_defined_request ::
    "('h, 'd) requester_platform \<Rightarrow> u32 option \<Rightarrow> RegistryOrStandardsBodyID \<Rightarrow> VendorIDStruct \<Rightarrow>
      VendorDefinedReqPayloadStruct \<Rightarrow> (VendorDefinedRspPayloadStruct, 'h, 'd) rq" where
  "send_spdm_vendor_defined_request p sid standard_id vendor_id_struct req_payload =
    rq_bind (rq_upd (reset_buffer_via_request_code SpdmRequestVendorDefinedRequest sid)) (\<lambda>_.
    rq_bind (rq_upd reset_context) (\<lambda>_.
    rq_get (\<lambda>c.
    rq_bind (rq_ret (encode_request (spdm_version_sel (negotiate_info c)) SpdmRequestVendorDefinedRequest
      (SpdmVendorDefinedRequestPayload_spdm_encode
        \<lparr>vd_standard_id = standard_id, vd_vendor_id = vendor_id_struct, vd_payload = req_payload\<rparr>))) (\<lambda>send_buffer.
    rq_bind (exchange_message p sid False send_buffer) (\<lambda>receive_buffer.
    handle_spdm_vendor_defined_respond sid receive_buffer)))))"

subsection \<open>Starting and ending a session\<close>

definition start_session ::
    "('h, 'd) requester_platform \<Rightarrow> env \<Rightarrow> bool \<Rightarrow> u8 \<Rightarrow> SpdmMeasurementSummaryHashType \<Rightarrow> (u32, 'h, 'd) rq" where
  "start_session p en psk slot t =
    (if \<not> psk
     then
       rq_bind (send_receive_spdm_key_exchange p en slot t) (\<lambda>sid.
       rq_bind (send_receive_spdm_finish p en None sid) (\<lambda>_.
       rq_ret (Ok sid)))
     else
       rq_bind (send_receive_spdm_psk_exchange p en t None) (\<lambda>sid.
       rq_bind (send_receive_spdm_psk_finish p sid) (\<lambda>_.
       rq_ret (Ok sid))))"

definition end_session :: "('h, 'd) requester_platform \<Rightarrow> u32 \<Rightarrow> (unit, 'h, 'd) rq" where
  "end_session p sid = send_receive_spdm_end_session p sid"

end
