(* ===== verification/Responder_Dispatch.thy ===== *)
theory Responder_Dispatch
  imports Responder_Session
begin

text \<open>
  The responder's dispatcher (\<open>src/spdmlib/src/responder/context.rs\<close>): receiving a message, decoding it
  when it belongs to a session, choosing the handler by the request code and the state of the session,
  and handing application data to the application's callback.

  \<^item> What the device delivers is an argument of \<open>receive_message\<close>: the result of \<open>device_io.receive\<close> and
    the receive buffer it filled.
  \<^item> The application's callback is an argument too. It gets the whole context, so it returns the context
    as it leaves it.
  \<^item> The lemmas show that every message is answered or dropped in finitely many steps with the
    responder's invariant intact, that a session is established only by a completed handshake, and
    which requests a session accepts in which state.
\<close>

section \<open>Definitions\<close>

type_synonym 'h app_handler =
  "u32 \<Rightarrow> bytes \<Rightarrow> bytes \<Rightarrow> 'h ResponderContext \<Rightarrow> (bytes \<times> nat) SpdmResult \<times> 'h ResponderContext"

type_synonym received = "(nat, nat) result \<times> bytes"

text \<open>The result carries the buffer as the call leaves it, for the raw packet handler of the caller.\<close>

definition receive_message ::
    "'h platform \<Rightarrow> received \<Rightarrow> (nat \<times> bool, nat) result \<times> bytes" where
  "receive_message p rx =
    (case rx of
      (Err used, buf) \<Rightarrow> (Err used, buf)
    | (Panic, buf) \<Rightarrow> (Panic, buf)
    | (Ok used, buf) \<Rightarrow>
        if used > length buf then (Panic, buf)
        else (case t_decap (p_transport p) (take used buf) (replicate RECEIVER_BUFFER_SIZE 0) of
            (Err _, _) \<Rightarrow> (Err used, buf)
          | (Panic, _) \<Rightarrow> (Panic, buf)
          | (Ok (used, secured), transport_buffer) \<Rightarrow>
              if used > length buf \<or> used > length transport_buffer then (Panic, buf)
              else (Ok (used, secured), write_at buf 0 (take used transport_buffer))))"

definition unsupported :: "'h ResponderContext \<Rightarrow> (unit SpdmResult \<times> 'h ResponderContext) option" where
  "unsupported rc = Some (Err SPDM_STATUS_UNSUPPORTED_CAP, rc)"

definition dispatch_finish ::
    "'h platform \<Rightarrow> bytes \<Rightarrow> 'h ResponderContext \<Rightarrow> (unit SpdmResult \<times> 'h ResponderContext) option" where
  "dispatch_finish p bs rc = (let c = common rc in
    if in_clear_text (negotiate_info c)
    then (case last_session_id (runtime_info c) of
        Some sid \<Rightarrow>
          (case get_session_via_id c sid of
            Some s \<Rightarrow>
              if session_state s = SpdmSessionHandshaking then handle_spdm_finish p sid bs rc
              else handle_error_request p SpdmErrorUnexpectedRequest None bs rc
          | None \<Rightarrow> handle_error_request p SpdmErrorUnexpectedRequest None bs rc)
      | None \<Rightarrow> handle_error_request p SpdmErrorUnexpectedRequest None bs rc)
    else handle_error_request p SpdmErrorUnexpectedRequest None bs rc)"

definition dispatch_message ::
    "'h platform \<Rightarrow> env \<Rightarrow> bytes \<Rightarrow> 'h ResponderContext \<Rightarrow> (unit SpdmResult \<times> 'h ResponderContext) option" where
  "dispatch_message p en bs rc =
    (case SpdmMessageHeader_read (reader_init bs) of
      None \<Rightarrow> unsupported rc
    | Some (h, _) \<Rightarrow>
        (case request_response_code h of
          SpdmRequestGetVersion \<Rightarrow> handle_spdm_version p bs rc
        | SpdmRequestGetCapabilities \<Rightarrow> handle_spdm_capability p bs rc
        | SpdmRequestNegotiateAlgorithms \<Rightarrow> handle_spdm_algorithm p bs rc
        | SpdmRequestGetDigests \<Rightarrow> handle_spdm_digest p bs None rc
        | SpdmRequestGetCertificate \<Rightarrow> handle_spdm_certificate p bs None rc
        | SpdmRequestChallenge \<Rightarrow> handle_spdm_challenge p en bs rc
        | SpdmRequestGetMeasurements \<Rightarrow> handle_spdm_measurement p en None bs rc
        | SpdmRequestKeyExchange \<Rightarrow> handle_spdm_key_exchange p en bs rc
        | SpdmRequestPskExchange \<Rightarrow> handle_spdm_psk_exchange p en bs rc
        | SpdmRequestVendorDefinedRequest \<Rightarrow> handle_spdm_vendor_defined_request p en None bs rc
        | SpdmRequestFinish \<Rightarrow> dispatch_finish p bs rc
        | SpdmRequestPskFinish \<Rightarrow> handle_error_request p SpdmErrorUnexpectedRequest None bs rc
        | SpdmRequestHeartbeat \<Rightarrow> handle_error_request p SpdmErrorUnexpectedRequest None bs rc
        | SpdmRequestKeyUpdate \<Rightarrow> handle_error_request p SpdmErrorUnexpectedRequest None bs rc
        | SpdmRequestEndSession \<Rightarrow> handle_error_request p SpdmErrorUnexpectedRequest None bs rc
        | SpdmRequestResponseIfReady \<Rightarrow> handle_error_request p SpdmErrorUnsupportedRequest None bs rc
        | _ \<Rightarrow> unsupported rc))"

text \<open>The requests that a session in its handshake, and an established session, answers with an ERROR.\<close>

definition unexpected_in_handshake :: "SpdmRequestResponseCode set" where
  "unexpected_in_handshake =
    {SpdmRequestGetVersion, SpdmRequestGetCapabilities, SpdmRequestNegotiateAlgorithms,
     SpdmRequestGetDigests, SpdmRequestGetCertificate, SpdmRequestChallenge, SpdmRequestGetMeasurements,
     SpdmRequestKeyExchange, SpdmRequestPskExchange, SpdmRequestHeartbeat, SpdmRequestKeyUpdate,
     SpdmRequestEndSession}"

definition unexpected_in_session :: "SpdmRequestResponseCode set" where
  "unexpected_in_session =
    {SpdmRequestGetVersion, SpdmRequestGetCapabilities, SpdmRequestNegotiateAlgorithms,
     SpdmRequestChallenge, SpdmRequestKeyExchange, SpdmRequestPskExchange, SpdmRequestFinish,
     SpdmRequestPskFinish}"

definition dispatch_handshake ::
    "'h platform \<Rightarrow> env \<Rightarrow> u32 \<Rightarrow> bytes \<Rightarrow> 'h ResponderContext \<Rightarrow>
      (unit SpdmResult \<times> 'h ResponderContext) option" where
  "dispatch_handshake p en sid bs rc =
    (if in_clear_text (negotiate_info (common rc)) then unsupported rc
     else (case SpdmMessageHeader_read (reader_init bs) of
         None \<Rightarrow> unsupported rc
       | Some (h, _) \<Rightarrow> let code = request_response_code h in
           if code = SpdmRequestFinish then handle_spdm_finish p sid bs rc
           else if code = SpdmRequestPskFinish then handle_spdm_psk_finish p sid bs rc
           else if code = SpdmRequestVendorDefinedRequest
           then handle_spdm_vendor_defined_request p en (Some sid) bs rc
           else if code \<in> unexpected_in_handshake
           then handle_error_request p SpdmErrorUnexpectedRequest (Some sid) bs rc
           else if code = SpdmRequestResponseIfReady
           then handle_error_request p SpdmErrorUnsupportedRequest (Some sid) bs rc
           else unsupported rc))"

definition dispatch_established ::
    "'h platform \<Rightarrow> env \<Rightarrow> u32 \<Rightarrow> bytes \<Rightarrow> 'h ResponderContext \<Rightarrow>
      (unit SpdmResult \<times> 'h ResponderContext) option" where
  "dispatch_established p en sid bs rc =
    (case SpdmMessageHeader_read (reader_init bs) of
      None \<Rightarrow> unsupported rc
    | Some (h, _) \<Rightarrow> let code = request_response_code h in
        if code = SpdmRequestGetDigests then handle_spdm_digest p bs (Some sid) rc
        else if code = SpdmRequestGetCertificate then handle_spdm_certificate p bs (Some sid) rc
        else if code = SpdmRequestGetMeasurements then handle_spdm_measurement p en (Some sid) bs rc
        else if code = SpdmRequestHeartbeat then handle_spdm_heartbeat p sid bs rc
        else if code = SpdmRequestKeyUpdate then handle_spdm_key_update p sid bs rc
        else if code = SpdmRequestEndSession then handle_spdm_end_session p sid bs rc
        else if code = SpdmRequestVendorDefinedRequest
        then handle_spdm_vendor_defined_request p en (Some sid) bs rc
        else if code \<in> unexpected_in_session
        then handle_error_request p SpdmErrorUnexpectedRequest (Some sid) bs rc
        else if code = SpdmRequestResponseIfReady
        then handle_error_request p SpdmErrorUnsupportedRequest (Some sid) bs rc
        else unsupported rc)"

definition dispatch_secured_message ::
    "'h platform \<Rightarrow> env \<Rightarrow> u32 \<Rightarrow> bytes \<Rightarrow> 'h ResponderContext \<Rightarrow>
      (unit SpdmResult \<times> 'h ResponderContext) option" where
  "dispatch_secured_message p en sid bs rc =
    (case get_session_via_id (common rc) sid of
      None \<Rightarrow> unsupported rc
    | Some s \<Rightarrow>
        (case session_state s of
          SpdmSessionHandshaking \<Rightarrow> dispatch_handshake p en sid bs rc
        | SpdmSessionEstablished \<Rightarrow> dispatch_established p en sid bs rc
        | SpdmSessionNotStarted \<Rightarrow> unsupported rc
        | SpdmSessionStateUnknown _ \<Rightarrow> unsupported rc))"

definition dispatch_secured_app_message ::
    "'h platform \<Rightarrow> 'h app_handler \<Rightarrow> u32 \<Rightarrow> bytes \<Rightarrow> bytes \<Rightarrow> 'h ResponderContext \<Rightarrow>
      (unit SpdmResult \<times> 'h ResponderContext) option" where
  "dispatch_secured_app_message p app sid bs aux rc =
    (case app sid bs aux rc of
      (Ok (rsp_app_buffer, n), rc) \<Rightarrow>
        if n > length rsp_app_buffer then Some (Panic, rc)
        else send_secured_message p sid (take n rsp_app_buffer) True rc
    | (_, rc) \<Rightarrow> Some (Panic, rc))"

text \<open>\<open>Ok(... .is_ok())\<close>\<close>

definition dispatched ::
    "(unit SpdmResult \<times> 'h ResponderContext) option \<Rightarrow>
      ((bool, nat \<times> bytes) result \<times> 'h ResponderContext) option" where
  "dispatched = map_option (\<lambda>(r, rc). (case r of Ok _ \<Rightarrow> Ok True | Err _ \<Rightarrow> Ok False | Panic \<Rightarrow> Panic, rc))"

definition process_secured ::
    "'h platform \<Rightarrow> env \<Rightarrow> 'h app_handler \<Rightarrow> bytes \<Rightarrow> nat \<Rightarrow> bytes \<Rightarrow> 'h ResponderContext \<Rightarrow>
      ((bool, nat \<times> bytes) result \<times> 'h ResponderContext) option" where
  "process_secured p en app aux used buf rc =
    (case u32_read (reader_init (take used buf)) of
      None \<Rightarrow> Some (Err (used, buf), rc)
    | Some (sid, _) \<Rightarrow>
        (case on_session sid (Err SPDM_STATUS_INVALID_PARAMETER)
            (decode_spdm_secured_message (p_crypto p) (take used buf) RECEIVER_BUFFER_SIZE True) (common rc) of
          (Err _, c) \<Rightarrow> Some (Err (used, buf), rc\<lparr>common := c\<rparr>)
        | (Panic, c) \<Rightarrow> Some (Panic, rc\<lparr>common := c\<rparr>)
        | (Ok app_buffer, c) \<Rightarrow> let rc = rc\<lparr>common := c\<rparr> in
            (case t_decap_app (p_transport p) app_buffer (replicate MAX_SPDM_MSG_SIZE 0) of
              (Err _, _) \<Rightarrow> Some (Err (used, buf), rc)
            | (Panic, _) \<Rightarrow> Some (Panic, rc)
            | (Ok (n, is_app), spdm_buffer) \<Rightarrow>
                if n > length spdm_buffer then Some (Panic, rc)
                else dispatched
                  (if is_app then dispatch_secured_app_message p app sid (take n spdm_buffer) aux rc
                   else dispatch_secured_message p en sid (take n spdm_buffer) rc))))"

definition process_message ::
    "'h platform \<Rightarrow> env \<Rightarrow> 'h app_handler \<Rightarrow> received \<Rightarrow> bytes \<Rightarrow> 'h ResponderContext \<Rightarrow>
      ((bool, nat \<times> bytes) result \<times> 'h ResponderContext) option" where
  "process_message p en app rx aux rc =
    (case receive_message p rx of
      (Err used, buf) \<Rightarrow> Some (Err (used, buf), rc)
    | (Panic, buf) \<Rightarrow> Some (Panic, rc)
    | (Ok (used, secured), buf) \<Rightarrow>
        if secured then process_secured p en app aux used buf rc
        else dispatched (dispatch_message p en (take used buf) rc))"

section \<open>One message\<close>

text \<open>
  \<open>kept new c c'\<close>: the invariants of the responder survive, and a session that is established afterwards
  was established before or has an identifier that \<open>new\<close> admits.
\<close>

definition newly :: "(u32 \<Rightarrow> bool) \<Rightarrow> 'h SpdmSession list \<Rightarrow> 'h SpdmSession list \<Rightarrow> bool" where
  "newly new = list_all2 (\<lambda>s s'. session_state s' = SpdmSessionEstablished \<longrightarrow>
    session_state s = SpdmSessionEstablished \<or> new (session_id s'))"

definition kept :: "(u32 \<Rightarrow> bool) \<Rightarrow> 'h SpdmContext \<Rightarrow> 'h SpdmContext \<Rightarrow> bool" where
  "kept new c c' \<longleftrightarrow> (responder_inv c \<longrightarrow> responder_inv c') \<and>
    (half_ids_inv False c \<longrightarrow> half_ids_inv False c') \<and> newly new (session c) (session c')"

lemma newly_refl [simp]: "newly new ss ss"
  by (simp add: newly_def list_all2_refl)

lemma newly_trans: "newly (\<lambda>_. False) ss ss' \<Longrightarrow> newly new ss' ss'' \<Longrightarrow> newly new ss ss''"
  unfolding newly_def by (rule list_all2_trans [rotated], assumption, assumption) blast

lemma newly_mono: "newly new ss ss' \<Longrightarrow> (\<And>i. new i \<Longrightarrow> new' i) \<Longrightarrow> newly new' ss ss'"
  unfolding newly_def by (erule list_all2_mono) blast

lemma kept_refl [simp]: "kept new c c"
  by (simp add: kept_def)

lemma kept_trans: "kept (\<lambda>_. False) c c' \<Longrightarrow> kept new c' c'' \<Longrightarrow> kept new c c''"
  unfolding kept_def by (auto intro: newly_trans)

lemma kept_mono: "kept new c c' \<Longrightarrow> (\<And>i. new i \<Longrightarrow> new' i) \<Longrightarrow> kept new' c c'"
  unfolding kept_def by (auto intro: newly_mono)

lemma responder_inv_harmless:
  assumes "harmless new c c'"
  shows "responder_inv c' = responder_inv c"
proof -
  obtain b where "negotiate_info c' = (negotiate_info c)\<lparr>termination_policy_set := b\<rparr>"
    using harmless_negotiate [OF assms] by blast
  with assms show ?thesis
    by (simp add: harmless_def responder_inv_def a_ok_def state_at_least_def selection_ok_def)
qed

lemma kept_harmless: "harmless new c c' \<Longrightarrow> kept (\<lambda>_. new = Establishing) c c'"
  using responder_inv_harmless [of new c c'] by (auto simp: kept_def newly_def harmless_def)

lemma kept_opening: "harmless Opening c c' \<Longrightarrow> kept new c c'"
  using kept_harmless [of Opening c c'] kept_mono by blast

subsection \<open>Sending\<close>

lemma coded_message:
  assumes "coded code 0 w"
  obtains v x bs where "writer_used_slice w = v # x # bs" "x = SpdmRequestResponseCode_get_u8 code \<or> x = 0x7F"
proof -
  from assms obtain out room where "w = wr_at out room" "2 \<le> length out"
    "out ! 1 = SpdmRequestResponseCode_get_u8 code \<or> out ! 1 = 0x7F" by (auto simp: coded_def)
  then show thesis using that by (cases out; cases "tl out") auto
qed

lemma send_plain:
  assumes inv: "responder_inv (common rc)"
    and after: "\<And>r c'. after_send m (common rc) = (r, c') \<Longrightarrow> r \<noteq> Panic \<Longrightarrow> R (common rc) c'" and "R (common rc) (common rc)"
  shows "\<exists>r rc'. send_message p m rc = Some (r, rc') \<and> (r = Panic \<or> R (common rc) (common rc'))"
proof -
  have "send_message p m rc = Some (send_frame p (sized m (common rc)) rc)"
    using inv by (subst send_message_sized) (auto simp: too_large_def word_le_nat_alt responder_inv_def)
  moreover have "R (common rc) c'" if "after_send (sized m (common rc)) (common rc) = (r, c')" "r \<noteq> Panic" for r c'
    using that after assms(3) by (auto simp: sized_def split: if_splits)
  then have "fst (send_frame p (sized m (common rc)) rc) = Panic \<or>
      R (common rc) (common (snd (send_frame p (sized m (common rc)) rc)))"
    using assms(3) by (auto simp: send_frame_def device_send_def split: prod.split result.split)
  ultimately show ?thesis by (metis prod.collapse)
qed

lemma encode_secured_harmless:
  assumes "encode_secured_message cr tr sid m buf r is_app c = (x, c')"
  shows "harmless Opening c c'"
proof -
  have "not_establishing (snd \<circ> encode_spdm_secured_message cr b n r)" for b n
    by (auto simp: not_establishing_def encode_spdm_secured_message_def split: SpdmSessionState.split)
  from harmless_on_session [OF this] have "harmless Opening c c''"
    if "on_session sid none (encode_spdm_secured_message cr b n r) c = (y, c'')" for none b n y c''
    using that by (metis snd_conv)
  then show ?thesis using assms
    by (auto simp: encode_secured_message_def split: prod.splits result.splits)
qed

lemma after_secured_error [simp]: "after_send_secured sid (error_message code d c') c = (Ok (), c)"
  by (simp add: after_send_secured_def error_message_def)

lemma send_secured_frame_kept:
  fixes rc :: "'h ResponderContext"
  assumes "\<And>(c :: 'h SpdmContext) r c'. after_send_secured sid m c = (r, c') \<Longrightarrow> r \<noteq> Panic \<Longrightarrow> kept new c c'"
    and s: "send_secured_frame p sid m is_app rc = (r, rc')" "r \<noteq> Panic"
  shows "kept new (common rc) (common rc')"
proof -
  obtain x buf c where e: "encode_secured_message (p_crypto p) (p_transport p) sid m
      (replicate SENDER_BUFFER_SIZE 0) False is_app (common rc) = ((x, buf), c)" by (metis prod.exhaust)
  have h: "harmless Opening (common rc) c" using encode_secured_harmless [OF e] .
  show ?thesis
  proof (cases x)
    case (Ok used)
    have d: "device_send p (take used buf) (after_send_secured sid m) (rc\<lparr>common := c\<rparr>) = (r, rc')"
      using s(1) by (simp add: send_secured_frame_def e Ok)
    obtain r' c' where a: "after_send_secured sid m c = (r', c')" by force
    from d s(2) a have "common rc' = c \<or> (r' \<noteq> Panic \<and> common rc' = c')"
      by (auto simp: device_send_def split: result.splits)
    with assms(1) [OF a] have "kept new c (common rc')" by auto
    with kept_opening [OF h] show ?thesis by (rule kept_trans)
  qed (use s h in \<open>auto simp: send_secured_frame_def e intro: kept_opening\<close>)
qed

lemma send_secured:
  fixes rc :: "'h ResponderContext"
  assumes inv: "responder_inv (common rc)"
    and after: "\<And>(c :: 'h SpdmContext) r c'. after_send_secured sid m c = (r, c') \<Longrightarrow> r \<noteq> Panic \<Longrightarrow> kept new c c'"
  shows "\<exists>r rc'. send_secured_message p sid m is_app rc = Some (r, rc') \<and> (r = Panic \<or> kept new (common rc) (common rc'))"
proof -
  let ?m = "if is_app then m else sized m (common rc)"
  have "send_secured_message p sid m is_app rc = Some (send_secured_frame p sid ?m is_app rc)"
    using inv by (subst send_secured_message_sized) (auto simp: too_large_def word_le_nat_alt responder_inv_def)
  moreover have "kept new c c'" if "after_send_secured sid ?m c = (r, c')" "r \<noteq> Panic" for r and c c' :: "'h SpdmContext"
  proof (cases "?m = m")
    case False
    with that show ?thesis by (auto simp: sized_def split: if_splits)
  qed (use that after in simp)
  then have "kept new (common rc) (common rc')"
    if "send_secured_frame p sid ?m is_app rc = (r, rc')" "r \<noteq> Panic" for r rc'
    using that by (rule send_secured_frame_kept)
  ultimately show ?thesis by (metis prod.collapse)
qed

subsection \<open>Handlers\<close>

text \<open>What one handler promises: it returns, and unless it panics the invariants are kept.\<close>

definition serves ::
    "(u32 \<Rightarrow> bool) \<Rightarrow> 'h ResponderContext \<Rightarrow> (unit SpdmResult \<times> 'h ResponderContext) option \<Rightarrow> bool" where
  "serves new rc y \<longleftrightarrow> (\<exists>r rc'. y = Some (r, rc') \<and> (r = Panic \<or> kept new (common rc) (common rc')))"

lemma serves_mono: "serves new rc y \<Longrightarrow> (\<And>i. new i \<Longrightarrow> new' i) \<Longrightarrow> serves new' rc y"
  unfolding serves_def using kept_mono by blast

text \<open>The effect of sending a message of a given code outside and inside a session.\<close>

definition quiet_code :: "SpdmRequestResponseCode \<Rightarrow> bool" where
  "quiet_code code \<longleftrightarrow> SpdmRequestResponseCode_get_u8 code \<notin>
    SpdmRequestResponseCode_get_u8 ` {SpdmResponseVersion, SpdmResponseCapabilities, SpdmResponseAlgorithms, SpdmResponseDigests,
      SpdmResponseCertificate, SpdmResponseChallengeAuth, SpdmResponseFinishRsp}"

lemma after_send_quiet:
  assumes "quiet_code code" "x = SpdmRequestResponseCode_get_u8 code \<or> x = 0x7F"
  shows "after_send (v # x # bs) c = (Ok (), c)"
  using assms by (auto simp: after_send_def quiet_code_def)

lemma kept_raise:
  assumes "state_at_least SpdmConnectionNegotiated c" "state_at_least SpdmConnectionNegotiated (set_connection_state st c)"
  shows "kept new c (set_connection_state st c)"
proof -
  have "responder_inv c \<longrightarrow> responder_inv (set_connection_state st c)"
    using assms by (auto simp: responder_inv_def state_at_least_unat)
  then show ?thesis by (simp add: kept_def half_ids_inv_def)
qed

lemma after_send_raise:
  assumes "code \<in> {SpdmResponseDigests, SpdmResponseCertificate, SpdmResponseChallengeAuth}"
    "x = SpdmRequestResponseCode_get_u8 code \<or> x = 0x7F" "state_at_least SpdmConnectionNegotiated c"
    "after_send (v # x # bs) c = (r, c')"
  shows "kept new c c'"
  using assms(1,2,4) kept_raise [OF assms(3)]
  by (auto simp: after_send_def raise_connection_state_def state_at_least_unat)

definition finish_code :: "SpdmRequestResponseCode \<Rightarrow> bool" where
  "finish_code code \<longleftrightarrow> SpdmRequestResponseCode_get_u8 code \<in>
    SpdmRequestResponseCode_get_u8 ` {SpdmResponseFinishRsp, SpdmResponsePskFinishRsp}"

lemma kept_teardown:
  "on_session sid Panic (session_teardown sid) c = (r, c') \<Longrightarrow> kept new c c'"
  using harmless_on_session [of "session_teardown sid" Opening c sid Panic] kept_opening [of c c' new]
  by (simp add: not_establishing_def session_teardown_def)

lemma kept_establish:
  assumes "on_session sid Panic (\<lambda>s. (Ok (), set_session_state SpdmSessionEstablished s)) c = (r, c')"
  shows "kept (\<lambda>i. i = sid) c c'"
proof -
  have c': "c' = upd_session_via_id sid (set_session_state SpdmSessionEstablished) c"
    using on_session_eq [of sid Panic "\<lambda>s. (Ok (), set_session_state SpdmSessionEstablished s)" c] assms
    by (simp add: comp_def)
  have "harmless Establishing c c'" unfolding c' by (rule harmless_any_session) simp
  from kept_harmless [OF this] have "kept (\<lambda>_. True) c c'" by simp
  moreover have "newly (\<lambda>i. i = sid) (session c) (session c')"
    unfolding newly_def c' upd_session_via_id_def by (auto intro!: list_all2_update_first)
  ultimately show ?thesis by (simp add: kept_def)
qed

lemma after_secured:
  assumes "after_send_secured sid m c = (r, c')" "r \<noteq> Panic"
  shows "kept (\<lambda>i. i = sid) c c'"
  using assms
  by (auto simp: after_send_secured_def Let_def split: if_splits result.splits prod.splits
      intro: kept_teardown kept_establish)

lemma after_secured_coded:
  assumes "\<not> finish_code code" "x = SpdmRequestResponseCode_get_u8 code \<or> x = 0x7F"
    "after_send_secured sid (v # x # bs) c = (r, c')"
  shows "kept new c c'"
  using assms
  by (auto simp: after_send_secured_def finish_code_def Let_def split: if_splits result.splits prod.splits
      intro: kept_teardown)

text \<open>What was written is sent outside or inside a session.\<close>

lemma send_coded:
  assumes inv: "responder_inv (common rc)" and w: "coded code 0 w"
    and plain: "sid = None \<Longrightarrow> quiet_code code \<or>
      code \<in> {SpdmResponseDigests, SpdmResponseCertificate, SpdmResponseChallengeAuth} \<and>
      state_at_least SpdmConnectionNegotiated (common rc)"
    and secured: "sid \<noteq> None \<Longrightarrow> \<not> finish_code code"
  shows "serves new rc (case sid of
      None \<Rightarrow> send_message p (writer_used_slice w) rc
    | Some sid \<Rightarrow> send_secured_message p sid (writer_used_slice w) is_app rc)"
proof -
  from w obtain v x bs where m: "writer_used_slice w = v # x # bs"
    and x: "x = SpdmRequestResponseCode_get_u8 code \<or> x = 0x7F" by (rule coded_message)
  show ?thesis
  proof (cases sid)
    case None
    have "kept new (common rc) c'" if a: "after_send (v # x # bs) (common rc) = (r, c')" for r c'
      using plain [OF None]
    proof
      assume "quiet_code code"
      from after_send_quiet [OF this x, of v bs "common rc"] a show ?thesis by simp
    qed (use after_send_raise [OF _ x _ a] in blast)
    with send_plain [OF inv, of "v # x # bs" "kept new" p] show ?thesis by (auto simp: None m serves_def)
  next
    case (Some i)
    with send_secured [OF inv after_secured_coded [OF _ x]] secured show ?thesis by (simp add: m serves_def)
  qed
qed

lemma serves_harmless:
  assumes "harmless Opening (common rc) (common rc1)" "serves new rc1 y"
  shows "serves new rc y"
  using assms(2) kept_trans [OF kept_opening [OF assms(1)]] unfolding serves_def by auto

lemma serves_panic [simp]: "serves new rc (Some (Panic, rc'))"
  by (simp add: serves_def)

lemma refused_early:
  assumes "\<not> state_at_least SpdmConnectionNegotiated c"
  shows "seq (require_negotiated e) k w c = (Err e, write_spdm_error SpdmErrorUnexpectedRequest 0 w c, c)"
  using assms by (simp add: seq_def require_negotiated_def ask_def refuse_def state_at_least_def not_le)

text \<open>Where a response raises the connection state, its handler starts with the check of that state.\<close>

definition response_of :: "SpdmRequestResponseCode \<Rightarrow> u32 option \<Rightarrow> ('a, 'e, 'h) act \<Rightarrow> bool" where
  "response_of code sid m \<longleftrightarrow>
    (if sid = None then quiet_code code \<or>
       code \<in> {SpdmResponseDigests, SpdmResponseCertificate, SpdmResponseChallengeAuth} \<and>
       (\<exists>e k. m = seq (require_negotiated e) k)
     else \<not> finish_code code)"

lemma send_response:
  assumes inv: "responder_inv (common rc)" and s: "safe (common rc) Opening code Blank m (Coded 0)"
    and code: "response_of code sid m" and run: "m send_writer (common rc) = (r, w, common rc1)" "r \<noteq> Panic"
  shows "serves new rc (case sid of
      None \<Rightarrow> send_message p (writer_used_slice w) rc1
    | Some sid \<Rightarrow> send_secured_message p sid (writer_used_slice w) is_app rc1)"
proof -
  have h: "harmless Opening (common rc) (common rc1)" and w: "coded code 0 w" using safeD [OF s run] by auto
  have inv': "responder_inv (common rc1)" using inv responder_inv_harmless [OF h] by simp
  have st: "state_at_least SpdmConnectionNegotiated (common rc1) = state_at_least SpdmConnectionNegotiated (common rc)"
    using h by (simp add: harmless_def state_at_least_def)
  have "\<exists>code'. coded code' 0 w \<and> (sid = None \<longrightarrow> quiet_code code' \<or>
      code' \<in> {SpdmResponseDigests, SpdmResponseCertificate, SpdmResponseChallengeAuth} \<and>
      state_at_least SpdmConnectionNegotiated (common rc1)) \<and> (sid \<noteq> None \<longrightarrow> \<not> finish_code code')"
  proof (cases "sid = None \<and> \<not> quiet_code code \<and> \<not> state_at_least SpdmConnectionNegotiated (common rc)")
    case True
    with code obtain e k where "m = seq (require_negotiated e) k" by (auto simp: response_of_def)
    with refused_early [of "common rc" e k send_writer] True run(1)
    have "w = write_spdm_error SpdmErrorUnexpectedRequest 0 send_writer (common rc)" by (metis prod.inject)
    then have "coded SpdmResponseError 0 w" by (simp add: coded_mono [OF coded_blank_error])
    with True show ?thesis by (intro exI [of _ SpdmResponseError]) (auto simp: quiet_code_def)
  qed (use code w st in \<open>auto simp: response_of_def split: if_splits\<close>)
  then obtain code' where "coded code' 0 w" "sid = None \<Longrightarrow> quiet_code code' \<or>
      code' \<in> {SpdmResponseDigests, SpdmResponseCertificate, SpdmResponseChallengeAuth} \<and>
      state_at_least SpdmConnectionNegotiated (common rc1)" "sid \<noteq> None \<Longrightarrow> \<not> finish_code code'" by blast
  from send_coded [OF inv' this(1), of sid new p is_app] this(2,3) serves_harmless [OF h] show ?thesis by simp
qed

lemma serves_act:
  assumes "responder_inv (common rc)" "safe (common rc) Opening code Blank m (Coded 0)" "response_of code sid m"
  shows "serves new rc (handle_act p sid m rc)"
proof -
  obtain r w c where run: "m send_writer (common rc) = (r, w, c)" by (metis prod.exhaust)
  show ?thesis
    using send_response [OF assms, of r w "rc\<lparr>common := c\<rparr>" new p False] run by (cases r) (simp_all add: handle_act_def)
qed

lemma serves_result:
  assumes "responder_inv (common rc)" "safe (common rc) Opening code Blank m (Coded 0)" "response_of code sid m"
  shows "serves new rc (handle_result p sid m rc)"
proof -
  obtain r w c where run: "m send_writer (common rc) = (r, w, c)" by (metis prod.exhaust)
  show ?thesis
  proof (cases r)
    case (Err e)
    with safeD [OF assms(2) run] show ?thesis
      by (auto simp: handle_result_def run serves_def intro: kept_opening)
  qed (use send_response [OF assms, of r w "rc\<lparr>common := c\<rparr>" new p False] run in \<open>simp_all add: handle_result_def\<close>)
qed

lemma error_sent:
  assumes "responder_inv (common rc)"
  shows "\<exists>r rc'. send_spdm_error p code d rc = Some (r, rc') \<and> (r = Panic \<or> common rc' = common rc)"
proof -
  let ?m = "error_message code d (common rc)"
  have "writer_used_slice (write_spdm_error code d send_writer (common rc)) = ?m"
    by (simp add: send_writer_at write_spdm_error_at)
  moreover have "\<exists>r rc'. send_message p ?m rc = Some (r, rc') \<and> (r = Panic \<or> common rc' = common rc)"
    using send_plain [OF assms, of ?m "\<lambda>c c'. c' = c" p] by simp
  then obtain r rc' where "send_message p ?m rc = Some (r, rc')" "r = Panic \<or> common rc' = common rc" by blast
  ultimately show ?thesis by (cases r) (simp_all add: send_spdm_error_def)
qed

lemma serves_signed:
  assumes inv: "responder_inv (common rc)" and s: "safe (common rc) Opening code Blank m (Coded 0)"
    and code: "response_of code sid m"
  shows "serves new rc (handle_signed p sid m rc)"
proof -
  obtain r w c where run: "m send_writer (common rc) = (r, w, c)" by (metis prod.exhaust)
  show ?thesis
  proof (cases "r = Panic")
    case False
    have h: "harmless Opening (common rc) c" using safeD [OF s run False] by simp
    let ?send = "\<lambda>rc. case sid of None \<Rightarrow> send_message p (writer_used_slice w) rc
      | Some sid \<Rightarrow> send_secured_message p sid (writer_used_slice w) False rc"
    have send: "serves new rc (?send rc1)" if "common rc1 = c" for rc1
      using send_response [OF assms, of r w rc1 new p False] run False that by simp
    have "responder_inv (common (rc\<lparr>common := c\<rparr>))" using inv responder_inv_harmless [OF h] by simp
    from error_sent [OF this, of p SpdmErrorUnspecified 0] obtain r' rc' where
      e: "send_spdm_error p SpdmErrorUnspecified 0 (rc\<lparr>common := c\<rparr>) = Some (r', rc')" "r' = Panic \<or> common rc' = c"
      by auto
    show ?thesis
    proof (cases "r = Ok True")
      case True
      then show ?thesis using send [of rc'] e by (cases r') (simp_all add: handle_signed_def run)
    next
      case no_error: False
      with False send [of "rc\<lparr>common := c\<rparr>"] show ?thesis by (cases r) (simp_all add: handle_signed_def run)
    qed
  qed (simp add: handle_signed_def run)
qed

text \<open>The handlers of the negotiation leave the sessions alone, but for the restart by GET_VERSION.\<close>

lemma fail_with_session: "fail_with code w c = Ok (w', c') \<Longrightarrow> session c' = session c"
  by (simp add: fail_with_def)

lemma with_message_a_session:
  assumes "with_message_a bs w c k = Ok (w', c')"
  obtains c1 where "session c1 = session c" "k c1 = Ok (w', c') \<or> c' = c1"
proof (rule that)
  show "session (snd (append_message_a bs c)) = session c"
    by (simp add: append_message_a_def split: prod.splits option.splits)
  show "k (snd (append_message_a bs c)) = Ok (w', c') \<or> c' = snd (append_message_a bs c)"
    using assms by (auto simp: with_message_a_def fail_with_def split: prod.splits result.splits)
qed

lemma respond_a_session:
  assumes "respond_a code v payload w c = Ok (w', c')"
  shows "session c' = session c"
  using assms by (auto simp: respond_a_def with_response_def fail_with_def split: prod.splits result.splits
      elim!: with_message_a_session)

lemma reset_plain_session [simp]: "session (reset_buffer_via_request_code code None c) = session c"
  by (simp add: reset_buffer_via_request_code_def Let_def reset_message_m_def reset_message_b_def reset_message_c_def)

lemma construct_session: "construct_my_cert_chain cr c = (r, c') \<Longrightarrow> session c' = session c"
  using construct_same_but_chains [of c cr] by (auto simp: same_but_chains_def)

lemma negotiation_sessions:
  shows "write_error_response code bs w c = Ok (w', c') \<Longrightarrow> session c' = session c"
    and "write_spdm_version_response bs w c = Ok (w', c') \<Longrightarrow>
      session c' = session c \<or> session c' = map set_default (session c)"
    and "write_spdm_capability_response bs w c = Ok (w', c') \<Longrightarrow> session c' = session c"
    and "write_spdm_algorithm cr bs w c = Ok (w', c') \<Longrightarrow> session c' = session c"
proof -
  show "write_error_response code bs w c = Ok (w', c') \<Longrightarrow> session c' = session c"
    by (auto simp: write_error_response_def fail_with_def split: option.splits if_splits)
  show "write_spdm_version_response bs w c = Ok (w', c') \<Longrightarrow>
      session c' = session c \<or> session c' = map set_default (session c)"
    by (auto simp: write_spdm_version_response_def fail_with_def reset_context_def Let_def reset_peer_info_def
        reset_negotiate_info_def reset_runtime_info_def
        split: option.splits if_splits list.splits elim!: with_message_a_session dest!: respond_a_session)
  show "write_spdm_capability_response bs w c = Ok (w', c') \<Longrightarrow> session c' = session c"
    by (auto simp: write_spdm_capability_response_def fail_with_def Let_def
        split: option.splits if_splits elim!: with_message_a_session dest!: respond_a_session)
  show "write_spdm_algorithm cr bs w c = Ok (w', c') \<Longrightarrow> session c' = session c"
    by (auto simp: write_spdm_algorithm_def fail_with_def Let_def
        split: option.splits if_splits prod.splits result.splits elim!: with_message_a_session
        dest!: respond_a_session construct_session)
qed

lemma kept_default:
  assumes "session c' = session c \<or> session c' = map set_default (session c)" "responder_inv c'"
  shows "kept new c c'"
  using assms by (auto simp: kept_def newly_def half_ids_inv_def list_all2_map2 intro: list_all2_refl)

lemma after_send_sessions:
  assumes "m ! 1 \<noteq> SpdmRequestResponseCode_get_u8 SpdmResponseFinishRsp" "after_send m c = (r, c')"
  shows "session c' = session c"
  using assms by (auto simp: after_send_def raise_connection_state_def Let_def split: if_splits)

lemma error_message_code [simp]: "error_message code d c ! Suc 0 = 0x7F"
  by (simp add: error_message_def)

lemma no_finish_response:
  assumes "responder_inv c"
  shows "write_error_response code bs send_writer c = Ok (w, c') \<Longrightarrow> writer_used_slice w ! 1 \<noteq> 0x65"
    and "write_spdm_version_response bs send_writer c = Ok (w, c') \<Longrightarrow> writer_used_slice w ! 1 \<noteq> 0x65"
    and "write_spdm_capability_response bs send_writer c = Ok (w, c') \<Longrightarrow> writer_used_slice w ! 1 \<noteq> 0x65"
    and "write_spdm_algorithm cr bs send_writer c = Ok (w, c') \<Longrightarrow> writer_used_slice w ! 1 \<noteq> 0x65"
proof -
  have a: "a_ok c" and len: "length (spdm_version (config_info c)) = 3" using assms by (simp_all add: responder_inv_def)
  show "writer_used_slice w ! 1 \<noteq> 0x65" if "write_error_response code bs send_writer c = Ok (w, c')"
    using that by (auto simp: write_error_response_def fail_with_def send_writer_at write_spdm_error_at
        split: option.splits if_splits)
  show "writer_used_slice w ! 1 \<noteq> 0x65" if "write_spdm_version_response bs send_writer c = Ok (w, c')"
  proof -
    from that [unfolded write_spdm_version_response_written [OF len], THEN written_eq_Ok]
    have "writer_used_slice w = version_message (config_info c) \<or> (\<exists>code. writer_used_slice w = error_message code 0 c)"
      by (auto split: list.splits if_splits)
    then show ?thesis by (auto simp: version_message_def)
  qed
  show "writer_used_slice w ! 1 \<noteq> 0x65" if "write_spdm_capability_response bs send_writer c = Ok (w, c')"
    using assms that
  proof (cases rule: capability_cases)
    case (response c2 k)
    then show ?thesis by (auto simp: logged_def capability_message_def split: if_splits)
  qed simp
  show "writer_used_slice w ! 1 \<noteq> 0x65" if "write_spdm_algorithm cr bs send_writer c = Ok (w, c')"
    using assms that
  proof (cases rule: algorithm_cases)
    case (response c4 k other)
    then show ?thesis by (auto simp: logged_def algorithm_message_def split: if_splits)
  qed simp
qed

context responder_handler
begin

text \<open>A handler of the negotiation keeps or resets the sessions.\<close>

lemma serves_plain:
  fixes rc :: "'h ResponderContext"
  assumes inv: "responder_inv (common rc)"
    and sessions: "\<And>w c'. respond send_writer (common rc) = Ok (w, c') \<Longrightarrow>
      (session c' = session (common rc) \<or> session c' = map set_default (session (common rc))) \<and>
      writer_used_slice w ! 1 \<noteq> 0x65"
  shows "serves new rc (send_written p None respond rc)"
proof (cases "respond send_writer (common rc)")
  case (Ok wc)
  obtain w c' where wc: "wc = (w, c')" by force
  with Ok sendable inv obtain c'' where c': "responder_inv c'"
      "after_send (writer_used_slice w) c' = (Ok (), c'')" "responder_inv c''" by blast
  have k: "kept new (common rc) c'" using sessions Ok wc c'(1) by (blast intro: kept_default)
  have "session c'' = session c'" using after_send_sessions [OF _ c'(2)] sessions Ok wc by simp
  then have "kept new (common rc) c''" using sessions Ok wc c'(3) by (auto intro: kept_default)
  with send_plain [of "rc\<lparr>common := c'\<rparr>" "writer_used_slice w" "\<lambda>_. kept new (common rc)" p] c' k
  show ?thesis by (auto simp: serves_def send_written_def Ok wc)
qed (use inv in \<open>auto simp: send_written_def serves_def\<close>)

end

lemma serves_negotiation:
  assumes "responder_inv (common rc)"
  shows "serves new rc (handle_spdm_version p bs rc)" "serves new rc (handle_spdm_capability p bs rc)"
    "serves new rc (handle_spdm_algorithm p bs rc)" "serves new rc (handle_error_request p code None bs rc)"
proof -
  note facts = negotiation_sessions no_finish_response [OF assms]
  show "serves new rc (handle_spdm_version p bs rc)"
    unfolding handle_spdm_version_def 
    by (rule h_version.serves_plain [OF assms], rule conjI, erule facts(2), erule facts(6))
  show "serves new rc (handle_spdm_capability p bs rc)"
    unfolding handle_spdm_capability_def 
    by (rule h_capability.serves_plain [OF assms], rule conjI, erule disjI1 [OF facts(3)], erule facts(7))
  show "serves new rc (handle_spdm_algorithm p bs rc)"
    unfolding handle_spdm_algorithm_def 
    by (rule h_algorithm.serves_plain [OF assms], rule conjI, erule disjI1 [OF facts(4)], erule facts(8))
  show "serves new rc (handle_error_request p code None bs rc)"
    unfolding handle_error_request_def 
    by (rule h_error.serves_plain [OF assms], rule conjI, erule disjI1 [OF facts(1)], erule facts(5))
qed

lemma serves_error_secured:
  assumes "responder_inv (common rc)"
  shows "serves new rc (handle_error_request p code (Some sid) bs rc)"
proof -
  have "\<exists>w. write_error_response code bs send_writer (common rc) = Ok (w, common rc) \<and> coded SpdmResponseError 0 w"
    unfolding write_error_response_def fail_with_def
    by (simp add: coded_mono [OF coded_blank_error] split: option.split prod.split)
  then obtain w where w: "write_error_response code bs send_writer (common rc) = Ok (w, common rc)"
    "coded SpdmResponseError 0 w" by blast
  from send_coded [OF assms w(2), of "Some sid" new p False] w show ?thesis
    by (simp add: handle_error_request_def send_written_def finish_code_def)
qed

text \<open>The handlers of authentication and of sessions, but for those that complete a handshake.\<close>

lemma serves_auth:
  assumes inv: "responder_inv (common rc)" and law: "hash_size_law (p_crypto p)"
  shows "serves new rc (handle_spdm_digest p bs sid rc)" "serves new rc (handle_spdm_certificate p bs sid rc)"
    "serves new rc (handle_spdm_challenge p en bs rc)" "serves new rc (handle_spdm_measurement p en sid bs rc)"
proof -
  show "serves new rc (handle_spdm_digest p bs sid rc)"
    unfolding handle_spdm_digest_def
    by (rule serves_act [OF inv safe_digest [OF law]])
      (auto simp: response_of_def finish_code_def write_spdm_digest_response_def)
  show "serves new rc (handle_spdm_certificate p bs sid rc)"
    unfolding handle_spdm_certificate_def
    by (rule serves_act [OF inv safe_certificate])
      (auto simp: response_of_def finish_code_def write_spdm_certificate_response_def)
  show "serves new rc (handle_spdm_challenge p en bs rc)"
    unfolding handle_spdm_challenge_def
    by (rule serves_signed [OF inv safe_challenge]) (auto simp: response_of_def write_spdm_challenge_response_def)
  show "serves new rc (handle_spdm_measurement p en sid bs rc)"
    unfolding handle_spdm_measurement_def
    by (rule serves_signed [OF inv safe_measurement]) (auto simp: response_of_def quiet_code_def finish_code_def)
qed

lemma serves_session:
  assumes inv: "responder_inv (common rc)"
  shows "serves new rc (handle_spdm_key_exchange p en bs rc)" "serves new rc (handle_spdm_heartbeat p i bs rc)"
    "serves new rc (handle_spdm_key_update p i bs rc)" "serves new rc (handle_spdm_end_session p i bs rc)"
    "serves new rc (handle_spdm_vendor_defined_request p en sid bs rc)"
  unfolding handle_spdm_key_exchange_def handle_spdm_heartbeat_def handle_spdm_key_update_def
    handle_spdm_end_session_def handle_spdm_vendor_defined_request_def
  by (rule serves_act [OF inv] serves_result [OF inv] safe_key_exchange safe_heartbeat safe_key_update
      safe_end_session safe_vendor_defined | simp add: response_of_def quiet_code_def finish_code_def)+

text \<open>The handlers that complete a handshake.\<close>

lemma kept_last_session [simp]: "kept new c (set_last_session_id x c') = kept new c c'"
  by (simp add: kept_def set_last_session_id_def responder_inv_def half_ids_inv_def a_ok_def state_at_least_def)

lemma after_send_finish:
  assumes "x = SpdmRequestResponseCode_get_u8 SpdmResponseFinishRsp \<or> x = 0x7F"
    "last_session_id (runtime_info c) = Some sid" "after_send (v # x # bs) c = (r, c')" "r \<noteq> Panic"
  shows "kept (\<lambda>i. i = sid) c c'"
  using assms by (auto simp: after_send_def split: prod.splits result.splits dest!: kept_establish)

lemma send_finish:
  assumes inv: "responder_inv (common rc)" and w: "coded code 0 w"
    and clear: "sid' = None \<Longrightarrow> code = SpdmResponseFinishRsp \<and> last_session_id (runtime_info (common rc)) = Some sid"
    and secured: "\<And>i. sid' = Some i \<Longrightarrow> i = sid"
  shows "serves (\<lambda>i. i = sid) rc (case sid' of
      None \<Rightarrow> send_message p (writer_used_slice w) rc
    | Some i \<Rightarrow> send_secured_message p i (writer_used_slice w) False rc)"
proof (cases sid')
  case None
  from w obtain v x bs where "writer_used_slice w = v # x # bs"
    "x = SpdmRequestResponseCode_get_u8 code \<or> x = 0x7F" by (rule coded_message)
  with send_plain [OF inv, of "v # x # bs" "kept (\<lambda>i. i = sid)" p]
    after_send_finish [of x "common rc" sid v bs] clear [OF None] None
  show ?thesis by (simp add: serves_def)
next
  case (Some i)
  have "\<exists>r rc'. send_secured_message p sid (writer_used_slice w) False rc = Some (r, rc') \<and>
      (r = Panic \<or> kept (\<lambda>i. i = sid) (common rc) (common rc'))"
    by (rule send_secured [OF inv after_secured])
  with secured [OF Some] Some show ?thesis by (simp add: serves_def)
qed

lemma serves_completion:
  assumes inv: "responder_inv (common rc)" and s: "safe (common rc) Quiet code Blank m (Coded 0)"
    and clear: "sid' = None \<Longrightarrow> code = SpdmResponseFinishRsp \<and> last_session_id (runtime_info (common rc)) = Some sid"
    and secured: "\<And>i. sid' = Some i \<Longrightarrow> i = sid"
  shows "serves (\<lambda>i. i = sid \<and> fst (m send_writer (common rc)) = Ok ()) rc (handle_result p sid' m rc)"
proof -
  obtain r w c where run: "m send_writer (common rc) = (r, w, c)" by (metis prod.exhaust)
  show ?thesis
  proof (cases r)
    case (Ok u)
    have h: "harmless Quiet (common rc) c" and w: "coded code 0 w" using safeD [OF s run] Ok by auto
    have k: "kept (\<lambda>_. False) (common rc) c" using kept_harmless [OF h] by simp
    let ?rc = "rc\<lparr>common := c\<rparr>"
    have "serves (\<lambda>i. i = sid) ?rc (case sid' of
        None \<Rightarrow> send_message p (writer_used_slice w) ?rc
      | Some i \<Rightarrow> send_secured_message p i (writer_used_slice w) False ?rc)"
      using inv responder_inv_harmless [OF h] clear secured h
      by (intro send_finish [OF _ w]) (simp_all add: harmless_def)
    then have "serves (\<lambda>i. i = sid) rc (handle_result p sid' m rc)"
      using kept_trans [OF k] by (auto simp: serves_def handle_result_def run Ok)
    then show ?thesis by (rule serves_mono) (simp add: run Ok)
  next
    case (Err e)
    with safeD [OF s run] kept_harmless [of Quiet "common rc" c] show ?thesis
      by (auto simp: serves_def handle_result_def run elim: kept_mono)
  qed (simp add: handle_result_def run)
qed

lemma serves_finish:
  assumes "responder_inv (common rc)"
    "in_clear_text (negotiate_info (common rc)) \<Longrightarrow> last_session_id (runtime_info (common rc)) = Some sid"
  shows "serves (\<lambda>i. i = sid \<and> fst (write_spdm_finish_response (p_crypto p) sid bs send_writer (common rc)) = Ok ())
    rc (handle_spdm_finish p sid bs rc)"
  unfolding handle_spdm_finish_def
  by (rule serves_completion [OF assms(1) safe_finish]) (use assms(2) in \<open>auto split: if_splits\<close>)

lemma serves_psk_finish:
  assumes "responder_inv (common rc)"
  shows "serves (\<lambda>i. i = sid \<and> fst (write_spdm_psk_finish_response (p_crypto p) sid bs send_writer (common rc)) = Ok ())
    rc (handle_spdm_psk_finish p sid bs rc)"
  unfolding handle_spdm_psk_finish_def by (rule serves_completion [OF assms safe_psk_finish]) auto

lemma serves_psk_exchange:
  assumes inv: "responder_inv (common rc)"
  shows "serves (\<lambda>_. psk_without_context (negotiate_info (common rc))) rc (handle_spdm_psk_exchange p en bs rc)"
proof -
  let ?m = "write_spdm_psk_exchange_response p en bs" and ?new = "\<lambda>_. psk_without_context (negotiate_info (common rc))"
  obtain r w c where run: "?m send_writer (common rc) = (r, w, c)" by (metis prod.exhaust)
  show ?thesis
  proof (cases "r = Panic")
    case False
    from safeD [OF safe_psk_exchange run False]
    have h: "harmless (if psk_without_context (negotiate_info (common rc)) then Establishing else Quiet) (common rc) c"
      and w: "coded SpdmResponsePskExchangeRsp 0 w" by auto
    have k: "kept ?new (common rc) c" using kept_harmless [OF h] by (rule kept_mono) (simp split: if_splits)
    from w obtain v x bs where m: "writer_used_slice w = v # x # bs"
      and x: "x = SpdmRequestResponseCode_get_u8 SpdmResponsePskExchangeRsp \<or> x = 0x7F" by (rule coded_message)
    have "after_send (v # x # bs) c = (Ok (), c)" by (rule after_send_quiet [OF _ x]) (simp add: quiet_code_def)
    with send_plain [of "rc\<lparr>common := c\<rparr>" "v # x # bs" "\<lambda>c c'. c' = c" p] inv responder_inv_harmless [OF h]
    have "\<exists>r' rc'. send_message p (v # x # bs) (rc\<lparr>common := c\<rparr>) = Some (r', rc') \<and> (r' = Panic \<or> common rc' = c)"
      by simp
    with False k show ?thesis
      by (cases r) (auto simp: serves_def handle_spdm_psk_exchange_def handle_result_def run m)
  qed (simp add: handle_spdm_psk_exchange_def handle_result_def run)
qed

section \<open>The dispatcher\<close>

text \<open>The request code of a message, and the completion of a handshake by a message for a session.\<close>

definition request_code :: "bytes \<Rightarrow> SpdmRequestResponseCode option" where
  "request_code bs = map_option (request_response_code \<circ> fst) (SpdmMessageHeader_read (reader_init bs))"

definition completes_handshake :: "'h platform \<Rightarrow> bytes \<Rightarrow> 'h SpdmContext \<Rightarrow> u32 \<Rightarrow> bool" where
  "completes_handshake p bs c sid \<longleftrightarrow>
    request_code bs = Some SpdmRequestFinish \<and>
      fst (write_spdm_finish_response (p_crypto p) sid bs send_writer c) = Ok () \<or>
    request_code bs = Some SpdmRequestPskFinish \<and>
      fst (write_spdm_psk_finish_response (p_crypto p) sid bs send_writer c) = Ok () \<or>
    request_code bs = Some SpdmRequestPskExchange \<and> psk_without_context (negotiate_info c)"

lemma serves_unsupported [simp]: "serves new rc (unsupported rc)"
  by (simp add: serves_def unsupported_def)

lemma serves_dispatch_message:
  assumes inv: "responder_inv (common rc)" and law: "hash_size_law (p_crypto p)"
  shows "serves (completes_handshake p bs (common rc)) rc (dispatch_message p en bs rc)"
proof (cases "SpdmMessageHeader_read (reader_init bs)")
  case (Some hr)
  obtain h r where hr: "hr = (h, r)" by force
  have code: "request_code bs = Some (request_response_code h)" by (simp add: request_code_def Some hr)
  let ?new = "completes_handshake p bs (common rc)"
  note auth = serves_auth [OF inv law, of ?new] and neg = serves_negotiation [OF inv, of ?new]
    and sess = serves_session [OF inv, of ?new]
  have psk: "serves ?new rc (handle_spdm_psk_exchange p en bs rc)" if "request_response_code h = SpdmRequestPskExchange"
    using that code by (intro serves_mono [OF serves_psk_exchange [OF inv]]) (simp add: completes_handshake_def)
  have "serves ?new rc (handle_spdm_finish p sid bs rc)"
    if "request_response_code h = SpdmRequestFinish" "last_session_id (runtime_info (common rc)) = Some sid" for sid
    using that code by (intro serves_mono [OF serves_finish [OF inv]]) (auto simp: completes_handshake_def)
  then have fin: "serves ?new rc (dispatch_finish p bs rc)" if "request_response_code h = SpdmRequestFinish"
    using that neg by (simp add: dispatch_finish_def Let_def split: option.split)
  show ?thesis
    using auth neg sess psk fin by (simp add: dispatch_message_def Some hr split: SpdmRequestResponseCode.split)
qed (simp add: dispatch_message_def)

lemma serves_dispatch_secured:
  assumes inv: "responder_inv (common rc)" and law: "hash_size_law (p_crypto p)"
  shows "serves (\<lambda>i. i = sid \<and> completes_handshake p bs (common rc) i) rc (dispatch_secured_message p en sid bs rc)"
proof -
  let ?new = "\<lambda>i. i = sid \<and> completes_handshake p bs (common rc) i"
  note auth = serves_auth [OF inv law, of ?new] and err = serves_error_secured [OF inv, of ?new]
    and sess = serves_session [OF inv, of ?new]
  have fin: "serves ?new rc (handle_spdm_finish p sid bs rc)"
    if "request_code bs = Some SpdmRequestFinish" "\<not> in_clear_text (negotiate_info (common rc))"
    using that by (intro serves_mono [OF serves_finish [OF inv]]) (auto simp: completes_handshake_def)
  have psk: "serves ?new rc (handle_spdm_psk_finish p sid bs rc)" if "request_code bs = Some SpdmRequestPskFinish"
    using that by (intro serves_mono [OF serves_psk_finish [OF inv]]) (auto simp: completes_handshake_def)
  have "serves ?new rc (dispatch_handshake p en sid bs rc)"
    using fin psk err sess
    by (cases "SpdmMessageHeader_read (reader_init bs)") (auto simp: dispatch_handshake_def request_code_def Let_def)
  moreover have "serves ?new rc (dispatch_established p en sid bs rc)"
    using auth err sess by (simp add: dispatch_established_def Let_def split: option.split)
  ultimately show ?thesis
    by (simp add: dispatch_secured_message_def split: option.split SpdmSessionState.split)
qed

text \<open>
  The application's callback is expected to leave the protocol state alone: it may use the context but not
  change configuration, negotiation or sessions.
\<close>

definition app_law :: "'h app_handler \<Rightarrow> bool" where
  "app_law app \<longleftrightarrow> (\<forall>sid bs aux rc. harmless Quiet (common rc) (common (snd (app sid bs aux rc))))"

text \<open>A response of the application that looks like FINISH_RSP or PSK_FINISH_RSP to the code that sends it.\<close>

definition finish_lookalike :: "'h app_handler \<Rightarrow> u32 \<Rightarrow> bytes \<Rightarrow> bytes \<Rightarrow> 'h ResponderContext \<Rightarrow> bool" where
  "finish_lookalike app sid bs aux rc \<longleftrightarrow>
    (\<exists>out n. fst (app sid bs aux rc) = Ok (out, n) \<and> 2 \<le> n \<and> n \<le> length out \<and>
      out ! 1 \<in> SpdmRequestResponseCode_get_u8 ` {SpdmResponseFinishRsp, SpdmResponsePskFinishRsp})"

lemma after_secured_other:
  assumes "m ! 1 \<notin> SpdmRequestResponseCode_get_u8 ` {SpdmResponseFinishRsp, SpdmResponsePskFinishRsp}"
    "after_send_secured sid m c = (r, c')"
  shows "kept new c c'"
  using assms
  by (auto simp: after_send_secured_def Let_def split: if_splits result.splits prod.splits intro: kept_teardown)

lemma serves_app:
  assumes inv: "responder_inv (common rc)" and law: "app_law app"
  shows "serves (\<lambda>i. i = sid \<and> finish_lookalike app sid bs aux rc) rc (dispatch_secured_app_message p app sid bs aux rc)"
proof -
  let ?new = "\<lambda>i. i = sid \<and> finish_lookalike app sid bs aux rc"
  obtain x rc1 where a: "app sid bs aux rc = (x, rc1)" by force
  have h: "harmless Quiet (common rc) (common rc1)" using law a unfolding app_law_def by (metis snd_conv)
  have inv1: "responder_inv (common rc1)" using inv responder_inv_harmless [OF h] by simp
  have k: "kept (\<lambda>_. False) (common rc) (common rc1)" using kept_harmless [OF h] by simp
  show ?thesis
  proof (cases "\<exists>out n. x = Ok (out, n) \<and> n \<le> length out")
    case True
    then obtain out n where x: "x = Ok (out, n)" "n \<le> length out" by blast
    have "kept ?new c c'" if "after_send_secured sid (take n out) c = (r, c')" "r \<noteq> Panic" for r and c c' :: "'a SpdmContext"
    proof (cases "finish_lookalike app sid bs aux rc")
      case True
      with after_secured [OF that] show ?thesis by simp
    next
      case False
      have "\<not> length (take n out) \<le> 1" using that by (auto simp: after_send_secured_def)
      with False x have "take n out ! 1 \<notin> SpdmRequestResponseCode_get_u8 ` {SpdmResponseFinishRsp, SpdmResponsePskFinishRsp}"
        by (auto simp: finish_lookalike_def a)
      from after_secured_other [OF this that(1)] show ?thesis .
    qed
    then have "\<exists>r rc'. send_secured_message p sid (take n out) True rc1 = Some (r, rc') \<and>
        (r = Panic \<or> kept ?new (common rc1) (common rc'))" by (rule send_secured [OF inv1])
    with kept_trans [OF k] x show ?thesis by (auto simp: serves_def dispatch_secured_app_message_def a)
  qed (auto simp: dispatch_secured_app_message_def a split: result.split)
qed

text \<open>What the device delivered: a request outside a session, or one decoded in a session.\<close>

definition plain_request :: "'h platform \<Rightarrow> received \<Rightarrow> bytes \<Rightarrow> bool" where
  "plain_request p rx bs \<longleftrightarrow> (\<exists>used buf. receive_message p rx = (Ok (used, False), buf) \<and> bs = take used buf)"

definition secured_request ::
    "'h platform \<Rightarrow> received \<Rightarrow> 'h SpdmContext \<Rightarrow> u32 \<Rightarrow> bool \<Rightarrow> bytes \<Rightarrow> 'h SpdmContext \<Rightarrow> bool" where
  "secured_request p rx c0 sid is_app bs c \<longleftrightarrow> (\<exists>used buf r app_buffer n spdm_buffer.
    receive_message p rx = (Ok (used, True), buf) \<and> u32_read (reader_init (take used buf)) = Some (sid, r) \<and>
    on_session sid (Err SPDM_STATUS_INVALID_PARAMETER)
      (decode_spdm_secured_message (p_crypto p) (take used buf) RECEIVER_BUFFER_SIZE True) c0 = (Ok app_buffer, c) \<and>
    t_decap_app (p_transport p) app_buffer (replicate MAX_SPDM_MSG_SIZE 0) = (Ok (n, is_app), spdm_buffer) \<and>
    n \<le> length spdm_buffer \<and> bs = take n spdm_buffer)"

definition establishes ::
    "'h platform \<Rightarrow> 'h app_handler \<Rightarrow> received \<Rightarrow> bytes \<Rightarrow> 'h ResponderContext \<Rightarrow> u32 \<Rightarrow> bool" where
  "establishes p app rx aux rc sid \<longleftrightarrow>
    (\<exists>bs. plain_request p rx bs \<and> completes_handshake p bs (common rc) sid) \<or>
    (\<exists>bs c. secured_request p rx (common rc) sid False bs c \<and> completes_handshake p bs c sid) \<or>
    (\<exists>bs c. secured_request p rx (common rc) sid True bs c \<and> finish_lookalike app sid bs aux (rc\<lparr>common := c\<rparr>))"

lemma decode_harmless:
  "on_session sid none (decode_spdm_secured_message cr bs n r) c = (x, c') \<Longrightarrow> harmless Quiet c c'"
proof -
  assume d: "on_session sid none (decode_spdm_secured_message cr bs n r) c = (x, c')"
  have "not_establishing (snd \<circ> decode_spdm_secured_message cr bs n r)"
    by (auto simp: not_establishing_def decode_spdm_secured_message_def split: SpdmSessionState.split)
  from harmless_on_session [OF this, of Quiet c sid none] d show ?thesis by simp
qed

lemma dispatched_serves:
  assumes "serves new rc y"
  shows "\<exists>r rc'. dispatched y = Some (r, rc') \<and> (r = Panic \<or> kept new (common rc) (common rc'))"
proof -
  from assms obtain r rc' where "y = Some (r, rc')" "r = Panic \<or> kept new (common rc) (common rc')"
    by (auto simp: serves_def)
  then show ?thesis by (cases r) (auto simp: dispatched_def)
qed

lemma process_secured_kept:
  assumes inv: "responder_inv (common rc)" and law: "hash_size_law (p_crypto p)" "app_law app"
    and rx: "receive_message p rx = (Ok (used, True), buf)"
  shows "\<exists>r rc'. process_secured p en app aux used buf rc = Some (r, rc') \<and>
    (r = Panic \<or> kept (establishes p app rx aux rc) (common rc) (common rc'))"
proof (cases "u32_read (reader_init (take used buf))")
  case (Some x)
  obtain sid rd where x: "x = (sid, rd)" by force
  let ?new = "establishes p app rx aux rc"
  obtain d c where d: "on_session sid (Err SPDM_STATUS_INVALID_PARAMETER)
      (decode_spdm_secured_message (p_crypto p) (take used buf) RECEIVER_BUFFER_SIZE True) (common rc) = (d, c)"
    by force
  have h: "harmless Quiet (common rc) c" by (rule decode_harmless [OF d])
  have k: "kept (\<lambda>_. False) (common rc) c" using kept_harmless [OF h] by simp
  have k': "kept ?new (common rc) c" using k by (rule kept_mono) simp
  let ?rc = "rc\<lparr>common := c\<rparr>"
  have inv': "responder_inv (common ?rc)" using inv responder_inv_harmless [OF h] by simp
  show ?thesis
  proof (cases d)
    case (Ok app_buffer)
    obtain e spdm_buffer where e: "t_decap_app (p_transport p) app_buffer (replicate MAX_SPDM_MSG_SIZE 0) = (e, spdm_buffer)"
      by force
    have "\<exists>r rc'. dispatched (if is_app then dispatch_secured_app_message p app sid (take n spdm_buffer) aux ?rc
          else dispatch_secured_message p en sid (take n spdm_buffer) ?rc) = Some (r, rc') \<and>
        (r = Panic \<or> kept ?new (common rc) (common rc'))"
      if "e = Ok (n, is_app)" "n \<le> length spdm_buffer" for n is_app
    proof -
      have q: "secured_request p rx (common rc) sid is_app (take n spdm_buffer) c"
        using that rx Some x d Ok e unfolding secured_request_def by blast
      have "serves ?new ?rc (if is_app then dispatch_secured_app_message p app sid (take n spdm_buffer) aux ?rc
          else dispatch_secured_message p en sid (take n spdm_buffer) ?rc)"
      proof (cases is_app)
        case True
        then show ?thesis using q
          by (simp, intro serves_mono [OF serves_app [OF inv' law(2)]]) (auto simp: establishes_def)
      next
        case False
        then show ?thesis using q
          by (simp, intro serves_mono [OF serves_dispatch_secured [OF inv' law(1)]]) (auto simp: establishes_def)
      qed
      from dispatched_serves [OF this] kept_trans [OF k] show ?thesis by auto
    qed
    with k' show ?thesis
      by (cases e) (auto simp: process_secured_def Some x d Ok e Let_def simp del: MAX_SPDM_MSG_SIZE_eq split: if_splits)
  qed (use k' in \<open>simp_all add: process_secured_def Some x d\<close>)
qed (simp add: process_secured_def)

lemma process_message_kept:
  assumes "responder_inv (common rc)" "hash_size_law (p_crypto p)" "app_law app"
  shows "\<exists>r rc'. process_message p en app rx aux rc = Some (r, rc') \<and>
    (r = Panic \<or> kept (establishes p app rx aux rc) (common rc) (common rc'))"
proof -
  obtain x buf where rx: "receive_message p rx = (x, buf)" by force
  show ?thesis
  proof (cases x)
    case (Ok us)
    obtain used secured where us: "us = (used, secured)" by force
    show ?thesis
    proof (cases secured)
      case True
      with process_secured_kept [OF assms, of rx used buf] rx Ok us show ?thesis by (simp add: process_message_def)
    next
      case False
      have "serves (establishes p app rx aux rc) rc (dispatch_message p en (take used buf) rc)"
        using rx Ok us False by (intro serves_mono [OF serves_dispatch_message [OF assms(1,2)]])
          (auto simp: establishes_def plain_request_def)
      from dispatched_serves [OF this] rx Ok us False show ?thesis by (simp add: process_message_def)
    qed
  qed (simp_all add: process_message_def rx)
qed

section \<open>The responder as a whole\<close>

text \<open>
  The states that a responder reaches from its creation by processing messages, whatever the device
  delivers and whatever the callbacks return.
\<close>

inductive responder_reaches ::
    "'h platform \<Rightarrow> 'h app_handler \<Rightarrow> SpdmConfigInfo \<Rightarrow> SpdmProvisionInfo \<Rightarrow> 'h ResponderContext \<Rightarrow> bool"
  for p app cfg prov where
  created: "responder_reaches p app cfg prov (ResponderContext_new cfg prov)"
| processed: "responder_reaches p app cfg prov rc \<Longrightarrow>
    process_message p en app rx aux rc = Some (r, rc') \<Longrightarrow> r \<noteq> Panic \<Longrightarrow> responder_reaches p app cfg prov rc'"

lemma reaches_inv:
  assumes "responder_reaches p app cfg prov rc" "length (spdm_version cfg) = 3"
    "hash_size_law (p_crypto p)" "app_law app"
  shows "responder_inv (common rc) \<and> half_ids_inv False (common rc)"
  using assms
proof induction
  case created
  then show ?case
    by (simp add: ResponderContext_new_def responder_inv_new)
       (simp add: half_ids_inv_def SpdmContext_new_def SpdmSession_new_def INVALID_SESSION_ID_def)
next
  case (processed rc en rx aux r rc')
  with process_message_kept [of rc p app en rx aux] show ?case by (auto simp: kept_def)
qed

lemma distinct_ids:
  assumes "half_ids_inv False c" "i < length (session c)" "j < length (session c)" "i \<noteq> j"
    "session_id (session c ! i) = session_id (session c ! j)"
  shows "session_id (session c ! i) = 0"
proof (rule ccontr)
  assume "session_id (session c ! i) \<noteq> 0"
  with assms have "INITIAL_SESSION_ID - of_nat i = INITIAL_SESSION_ID - (of_nat j :: u16)"
    unfolding half_ids_inv_def by metis
  with initial_ids(2) [of i j] assms show False by (simp add: half_ids_inv_def)
qed

section \<open>A sample responder\<close>

text \<open>Callbacks that satisfy the laws: one hash algorithm, no signing key, an application that echoes.\<close>

definition sha256_crypto :: "(SpdmBaseHashAlgo \<times> bytes) crypto" where
  "sha256_crypto = sample_crypto\<lparr>hash_all := (\<lambda>a bs. if a = 1 then Some (sample_digest bs) else None)\<rparr>"

definition sha256_platform :: "(SpdmBaseHashAlgo \<times> bytes) platform" where
  "sha256_platform = sample_platform\<lparr>p_crypto := sha256_crypto\<rparr>"

definition sample_env :: env where
  "sample_env = \<lparr>
    get_random = (\<lambda>n. Ok (replicate n 7)),
    generate_key_pair = (\<lambda>a. Some (\<lparr>data_size = 64, data = replicate 512 3\<rparr>,
      \<lambda>peer. Some \<lparr>data_size = 32, data = replicate 512 4\<rparr>)),
    asym_sign = (\<lambda>h a bs. Some \<lparr>data_size = 64, data = replicate 512 9\<rparr>),
    measurement_collection = (\<lambda>v s a i. None),
    generate_measurement_summary_hash = (\<lambda>v b s a t. None),
    vendor_defined_request_handler = (\<lambda>q. Err SPDM_STATUS_UNSUPPORTED_CAP)\<rparr>"

definition sample_app :: "(SpdmBaseHashAlgo \<times> bytes) app_handler" where
  "sample_app sid bs aux rc = (Ok (bs, length bs), rc)"

lemma sample_responder_laws:
  "hash_size_law (p_crypto sha256_platform)" "app_law sample_app" "length (spdm_version sample_config) = 3"
  by (auto simp: hash_size_law_def sha256_platform_def sha256_crypto_def sample_digest_def app_law_def sample_app_def
      sample_config_def SpdmBaseHashAlgo_get_size_def)

section \<open>Properties\<close>

text \<open>
  C4: In every state that the responder reaches, whatever was received before and whatever the
  randomness, signing, measurement, vendor and application callbacks returned, processing the next message
  never runs on forever (it ends in an outcome or in a panic of the code); and the state is consistent: once negotiated, each algorithm in force is a single one of those
  configured, the negotiation transcript fits its buffer, and no two sessions share an identifier.
\<close>

theorem responder_always_returns:
  assumes "responder_reaches p app cfg prov rc" "length (spdm_version cfg) = 3"
    and "hash_size_law (p_crypto p)" "app_law app"
  shows "(\<exists>r rc'. process_message p en app rx aux rc = Some (r, rc')) \<and>
    (SpdmConnectionState_get_u8 SpdmConnectionNegotiated
        \<le> SpdmConnectionState_get_u8 (connection_state (runtime_info (common rc))) \<longrightarrow>
      selection_ok (config_info (common rc)) (negotiate_info (common rc))) \<and>
    length (mb_as_ref (message_a (runtime_info (common rc)))) \<le> MAX_MANAGED_BUFFER_A_SIZE \<and>
    (\<forall>i j. i < j \<and> j < length (session (common rc)) \<longrightarrow>
      session_id (session (common rc) ! i) = session_id (session (common rc) ! j) \<longrightarrow>
      session_id (session (common rc) ! i) = 0)"
proof -
  have inv: "responder_inv (common rc)" "half_ids_inv False (common rc)" using reaches_inv [OF assms] by simp_all
  from process_message_kept [OF inv(1) assms(3,4), of en rx aux]
  have "\<exists>r rc'. process_message p en app rx aux rc = Some (r, rc')" by blast
  moreover have "length (mb_as_ref (message_a (runtime_info (common rc)))) \<le> MAX_MANAGED_BUFFER_A_SIZE"
    using inv(1) by (simp add: responder_inv_def a_ok_def mb_as_ref_def mb_ok_def)
  moreover have "session_id (session (common rc) ! i) = 0" if "i < j" "j < length (session (common rc))"
      "session_id (session (common rc) ! i) = session_id (session (common rc) ! j)" for i j
    using distinct_ids [OF inv(2), of i j] that by simp
  ultimately show ?thesis using inv(1) unfolding responder_inv_def state_at_least_def by blast
qed

theorem responder_always_returns_witness:
  "(\<exists>r rc'. process_message sha256_platform sample_env sample_app (Ok 5, [5, 0x10, 0x84, 0, 0]) []
    sample_responder = Some (r, rc')) \<and>
   length (mb_as_ref (message_a (runtime_info (common sample_responder)))) \<le> MAX_MANAGED_BUFFER_A_SIZE"
  using responder_always_returns [OF responder_reaches.created sample_responder_laws(3,1,2)]
  unfolding sample_responder_def by blast

end
