(* ===== verification/Session_Transcript.thy ===== *)
theory Session_Transcript
  imports Spdm_Context
begin

text \<open>
  The running transcript of a session, for both roles. Whatever hash contexts the crypto callback uses, the
  messages fed to the session's context form one byte sequence: \<open>log_of\<close> reads it off, \<open>session_log\<close> says that
  a session still is the one it was, with that sequence as its transcript. The lemmas show how each operation
  of \<open>src/spdmlib/src/common/mod.rs\<close> extends the sequence, and that a transcript hash is the hash of it.
\<close>

section \<open>The same session with another transcript\<close>

definition same_session :: "'h SpdmSession \<Rightarrow> 'h SpdmSession \<Rightarrow> bool" where
  "same_session s s' \<longleftrightarrow> (\<exists>d e f. s' = s\<lparr>s_runtime_info := (s_runtime_info s)\<lparr>digest_context_th := d,
    s_digest_context_l1l2 := e, message_f_initialized := f\<rparr>\<rparr>)"

lemma same_sessionI:
  "same_session s (s\<lparr>s_runtime_info := (s_runtime_info s)\<lparr>digest_context_th := d, s_digest_context_l1l2 := e,
    message_f_initialized := f\<rparr>\<rparr>)"
  by (auto simp: same_session_def)

lemma same_session_refl [simp]: "same_session s s"
  using same_sessionI [of s "message_f_initialized (s_runtime_info s)" "s_digest_context_l1l2 (s_runtime_info s)"
      "digest_context_th (s_runtime_info s)"] by simp

lemma same_session_step:
  assumes "same_session s s'"
  shows "same_session s (s'\<lparr>s_runtime_info := (s_runtime_info s')\<lparr>s_digest_context_l1l2 := e\<rparr>\<rparr>)"
    "same_session s (set_th d s')" "same_session s (set_f_init s')"
proof -
  obtain d1 e1 f1 where s': "s' = s\<lparr>s_runtime_info := (s_runtime_info s)\<lparr>digest_context_th := d1,
      s_digest_context_l1l2 := e1, message_f_initialized := f1\<rparr>\<rparr>"
    using assms by (auto simp: same_session_def)
  show "same_session s (s'\<lparr>s_runtime_info := (s_runtime_info s')\<lparr>s_digest_context_l1l2 := e\<rparr>\<rparr>)"
    using same_sessionI [of s f1 e d1] by (cases "s_runtime_info s") (simp add: s')
  show "same_session s (set_th d s')"
    using same_sessionI [of s f1 e1 d] by (cases "s_runtime_info s") (simp add: s' set_th_def)
  show "same_session s (set_f_init s')"
    using same_sessionI [of s True e1 d1] by (cases "s_runtime_info s") (simp add: s' set_f_init_def)
qed

lemma same_session_fields:
  assumes "same_session s s'"
  shows "session_id s' = session_id s" "session_state s' = session_state s" "use_psk s' = use_psk s"
    "mut_auth_requested s' = mut_auth_requested s" "crypto_param s' = crypto_param s"
    "handshake_secret s' = handshake_secret s" "application_secret s' = application_secret s"
    "dhe_secret_root s' = dhe_secret_root s" "slot_id s' = slot_id s" "th_prefix s' = th_prefix s"
    "psk_hint (s_runtime_info s') = psk_hint (s_runtime_info s)"
  using assms by (auto simp: same_session_def th_prefix_def)

section \<open>The transcript\<close>

text \<open>Before the first message the transcript is what precedes the key exchange.\<close>

definition log_of ::
    "('h \<Rightarrow> SpdmBaseHashAlgo \<times> bytes) \<Rightarrow> 'h SpdmSession \<Rightarrow> SpdmBaseHashAlgo \<times> bytes" where
  "log_of fed s = (case digest_context_th (s_runtime_info s) of
    None \<Rightarrow> (base_hash_algo (crypto_param s), th_prefix s) | Some h \<Rightarrow> fed h)"

definition session_log ::
    "('h \<Rightarrow> SpdmBaseHashAlgo \<times> bytes) \<Rightarrow> u32 \<Rightarrow> 'h SpdmSession \<Rightarrow> SpdmBaseHashAlgo \<Rightarrow> bytes \<Rightarrow>
      'h SpdmContext \<Rightarrow> bool" where
  "session_log fed sid s a l c \<longleftrightarrow>
    (\<exists>s'. get_session_via_id c sid = Some s' \<and> same_session s s' \<and> log_of fed s' = (a, l))"

lemma session_logE:
  assumes "session_log fed sid s a l c"
  obtains s' where "get_session_via_id c sid = Some s'" "same_session s s'" "log_of fed s' = (a, l)"
  using assms by (auto simp: session_log_def)

lemma session_log_start:
  "get_session_via_id c sid = Some s \<Longrightarrow> log_of fed s = (a, l) \<Longrightarrow> session_log fed sid s a l c"
  by (auto simp: session_log_def)

text \<open>KEY_EXCHANGE, PSK_EXCHANGE and their responses extend the transcript.\<close>

lemma session_log_k:
  assumes law: "hash_ctx_law cr fed" and l: "session_log fed sid s a l c"
    and app: "append_message_k cr sid bs c = (Ok (), c')"
  shows "session_log fed sid s a (l @ bs) c' \<and> (\<exists>ss. c' = c\<lparr>session := ss\<rparr>)"
proof -
  from l obtain s' where s': "get_session_via_id c sid = Some s'" "same_session s s'" "log_of fed s' = (a, l)"
    by (rule session_logE)
  from append_message_k_step [OF law s'(1) app] obtain h ss where
    "c' = c\<lparr>session := ss\<rparr>" "get_session_via_id c' sid = Some (set_th (Some h) s')"
    "fed h = (case digest_context_th (s_runtime_info s') of
        None \<Rightarrow> (base_hash_algo (crypto_param s'), th_prefix s' @ bs)
      | Some h0 \<Rightarrow> (fst (fed h0), snd (fed h0) @ bs))" by blast
  with s' same_session_step(2) [OF s'(2), of "Some h"] show ?thesis
    by (auto simp: session_log_def log_of_def split: option.splits)
qed

text \<open>FINISH, PSK_FINISH and their responses do, unless mutual authentication adds a certificate chain.\<close>

lemma session_log_f:
  assumes law: "hash_ctx_law cr fed" and l: "session_log fed sid s a l c"
    and m: "use_psk s \<or> mut_auth_requested s = 0"
    and app: "append_message_f cr r sid bs c = (Ok (), c')"
  shows "session_log fed sid s a (l @ bs) c' \<and> (\<exists>ss. c' = c\<lparr>session := ss\<rparr>)"
proof -
  from l obtain s' where s': "get_session_via_id c sid = Some s'" "same_session s s'" "log_of fed s' = (a, l)"
    by (rule session_logE)
  from app s'(1) obtain h where h: "digest_context_th (s_runtime_info s') = Some h"
    by (cases "digest_context_th (s_runtime_info s')") (auto simp: append_message_f_def)
  have "mut_cert_digest cr r c s' = Ok None"
    using m same_session_fields [OF s'(2)] by (auto simp: mut_cert_digest_def)
  with append_message_f_step [OF law s'(1) h app] obtain h' ss where
    "c' = c\<lparr>session := ss\<rparr>" "get_session_via_id c' sid = Some (set_f_init (set_th (Some h') s'))"
    "fed h' = (fst (fed h), snd (fed h) @ bs)" by (auto simp: opt_bytes_def split: if_splits)
  with s' h same_session_step(3) [OF same_session_step(2) [OF s'(2)], of "Some h'"] show ?thesis
    by (auto simp: session_log_def log_of_def)
qed

lemma session_log_hash:
  assumes law: "hash_ctx_law cr fed" and l: "session_log fed sid s a l c"
    and "get_session_via_id c sid = Some s'" "calc_transcript_hash cr s' = Ok th"
  shows "hash_all cr a l = Some th"
proof -
  from assms(3,4) l obtain h where "digest_context_th (s_runtime_info s') = Some h" "hash_ctx_finalize cr h = Some th"
    "log_of fed s' = (a, l)"
    by (auto simp: calc_transcript_hash_def session_log_def split: option.splits)
  with law show ?thesis by (auto simp: hash_ctx_law_def log_of_def)
qed

lemma get_session_upd_rt: "get_session_via_id (upd_rt f c) sid = get_session_via_id c sid"
  by (simp add: get_session_via_id_def)

lemma session_log_reset:
  assumes "session_log fed sid s a l c"
  shows "session_log fed sid s a l (reset_buffer_via_request_code code sid' c)"
proof -
  from assms obtain s' where s': "get_session_via_id c sid = Some s'" "same_session s s'" "log_of fed s' = (a, l)"
    by (rule session_logE)
  let ?f = "\<lambda>s. s\<lparr>s_runtime_info := (s_runtime_info s)\<lparr>s_digest_context_l1l2 := None\<rparr>\<rparr>"
  have "get_session_via_id (reset_message_m sid' c) sid = Some (if sid' = Some sid then ?f s' else s')"
    using s'(1) by (cases sid') (auto simp: reset_message_m_def st.get_upd get_session_upd_rt)
  moreover have "log_of fed (?f s') = (a, l)" using s'(3) by (simp add: log_of_def th_prefix_def split: option.splits)
  ultimately have "session_log fed sid s a l (reset_message_m sid' c)"
    using s' same_session_step(1) [OF s'(2), of None] by (auto simp: session_log_def)
  with assms show ?thesis
    by (simp add: reset_buffer_via_request_code_def Let_def session_log_def reset_message_b_def reset_message_c_def
        get_session_via_id_def)
qed

lemma append_k_started:
  assumes law: "hash_ctx_law cr fed" and app: "append_message_k cr sid bs c = (Ok (), c')"
    and s': "get_session_via_id c' sid = Some s'"
  shows "digest_context_th (s_runtime_info s') \<noteq> None"
proof (cases "get_session_via_id c sid")
  case None
  with app show ?thesis by (simp add: append_message_k_def on_session_def)
next
  case (Some s)
  from append_message_k_step [OF law Some app] s' show ?thesis by (auto simp: set_th_def)
qed

lemma session_log_cong:
  "session_log fed sid s a l c \<Longrightarrow> session c' = session c \<Longrightarrow> session_log fed sid s a l c'"
  by (simp add: session_log_def get_session_via_id_def)

section \<open>Key material\<close>

text \<open>
  Two sessions agree when every operation that derives keys or computes a HMAC does the same on both. The
  handshake keys are compared without their sequence numbers, which differ while a message is under way.
\<close>

definition hs_keys where
  "hs_keys h = (request_handshake_secret h, response_handshake_secret h, request_finished_key h, response_finished_key h,
    encryption_key (hs_request_direction h), salt (hs_request_direction h),
    encryption_key (hs_response_direction h), salt (hs_response_direction h))"

definition keys_agree :: "'h SpdmSession \<Rightarrow> 'h SpdmSession \<Rightarrow> bool" where
  "keys_agree s t \<longleftrightarrow> use_psk s = use_psk t \<and> crypto_param s = crypto_param t \<and>
    dhe_secret_root s = dhe_secret_root t \<and> hs_keys (handshake_secret s) = hs_keys (handshake_secret t) \<and>
    application_secret s = application_secret t \<and> application_secret_backup s = application_secret_backup t \<and>
    psk_hint (s_runtime_info s) = psk_hint (s_runtime_info t)"

lemma keys_agree_refl [simp]: "keys_agree s s"
  by (simp add: keys_agree_def)

lemma keys_agree_sym: "keys_agree s t \<Longrightarrow> keys_agree t s"
  by (simp add: keys_agree_def)

lemma keys_agree_trans: "keys_agree s t \<Longrightarrow> keys_agree t u \<Longrightarrow> keys_agree s u"
  by (simp add: keys_agree_def)

lemma same_session_agree: "same_session s s' \<Longrightarrow> keys_agree s s'"
  by (auto simp: same_session_def keys_agree_def)

lemma hmac_agree:
  assumes "keys_agree s t"
  shows "generate_hmac_with_request_finished_key cr m s = generate_hmac_with_request_finished_key cr m t"
    "generate_hmac_with_response_finished_key cr m s = generate_hmac_with_response_finished_key cr m t"
    "verify_hmac_with_request_finished_key cr m mac s = verify_hmac_with_request_finished_key cr m mac t"
    "verify_hmac_with_response_finished_key cr m mac s = verify_hmac_with_response_finished_key cr m mac t"
  using assms by (simp_all add: keys_agree_def hs_keys_def generate_hmac_with_request_finished_key_def
      generate_hmac_with_response_finished_key_def verify_hmac_with_request_finished_key_def
      verify_hmac_with_response_finished_key_def)

lemma run_steps_agree:
  assumes "\<And>f s t s'. f \<in> set fs \<Longrightarrow> R s t \<Longrightarrow> f s = Ok s' \<Longrightarrow> \<exists>t'. f t = Ok t' \<and> R s' t'"
    and "R s t" "run_steps fs s = (Ok (), s')"
  shows "\<exists>t'. run_steps fs t = (Ok (), t') \<and> R s' t'"
  using assms
proof (induction fs arbitrary: s t)
  case (Cons f fs)
  from Cons.prems(3) obtain s1 where s1: "f s = Ok s1" "run_steps fs s1 = (Ok (), s')"
    by (auto split: result.splits)
  from Cons.prems(1) [of f s t s1] Cons.prems(2) s1(1) obtain t1 where t1: "f t = Ok t1" "R s1 t1" by auto
  from Cons.IH [OF _ t1(2) s1(2)] Cons.prems(1) t1(1) show ?case by simp
qed simp

lemma secrets_agree:
  assumes "keys_agree s t"
  shows "generate_handshake_secret cr v th s = (Ok (), s') \<Longrightarrow>
      \<exists>t'. generate_handshake_secret cr v th t = (Ok (), t') \<and> keys_agree s' t'"
    "generate_data_secret cr v th s = (Ok (), s') \<Longrightarrow>
      \<exists>t'. generate_data_secret cr v th t = (Ok (), t') \<and> keys_agree s' t'"
    "create_data_secret_update cr v b b' s = (Ok (), s') \<Longrightarrow>
      \<exists>t'. create_data_secret_update cr v b b' t = (Ok (), t') \<and> keys_agree s' t'"
proof -
  have p: "crypto_param t = crypto_param s" using assms by (simp add: keys_agree_def)
  show "\<exists>t'. generate_handshake_secret cr v th t = (Ok (), t') \<and> keys_agree s' t'"
    if "generate_handshake_secret cr v th s = (Ok (), s')"
    using that unfolding generate_handshake_secret_def Let_def p
    by (rule run_steps_agree [where R = keys_agree, OF _ assms, rotated]) (auto simp: keys_agree_def hs_keys_def hs_key_or_none_def
        set_key_salt_def split: option.splits prod.splits)
  show "\<exists>t'. generate_data_secret cr v th t = (Ok (), t') \<and> keys_agree s' t'"
    if "generate_data_secret cr v th s = (Ok (), s')"
    using that unfolding generate_data_secret_def Let_def p
    by (rule run_steps_agree [where R = keys_agree, OF _ assms, rotated]) (auto simp: keys_agree_def hs_keys_def ms_key_or_none_def)
  show "\<exists>t'. create_data_secret_update cr v b b' t = (Ok (), t') \<and> keys_agree s' t'"
    if "create_data_secret_update cr v b b' s = (Ok (), s')"
    using that unfolding create_data_secret_update_def Let_def p update_request_steps_def update_response_steps_def
    by (rule run_steps_agree [where R = keys_agree, OF _ assms, rotated]) (auto simp: keys_agree_def hs_keys_def split: if_splits)
qed

lemma dhe_secret_agree:
  assumes "keys_agree s t" "set_dhe_secret cr v k s = (Ok (), s')"
  shows "\<exists>t'. set_dhe_secret cr v k t = (Ok (), t') \<and> keys_agree s' t'"
proof -
  let ?f = "\<lambda>s. s\<lparr>dhe_secret_root := (dhe_secret_root s)\<lparr>dhe_secret := k\<rparr>\<rparr>"
  have a: "keys_agree (?f s) (?f t)" and p: "crypto_param (?f t) = crypto_param (?f s)"
    using assms(1) by (simp_all add: keys_agree_def)
  from assms(2) show ?thesis
    unfolding set_dhe_secret_def Let_def p
    by (rule run_steps_agree [where R = keys_agree, OF _ a, rotated]) (auto simp: keys_agree_def hs_keys_def)
qed

text \<open>Deriving secrets leaves identity, parameters and transcript of the session alone.\<close>

definition frame :: "'h SpdmSession \<Rightarrow> 'h SpdmSession \<Rightarrow> bool" where
  "frame s s' \<longleftrightarrow> session_id s' = session_id s \<and> session_state s' = session_state s \<and> use_psk s' = use_psk s \<and>
    mut_auth_requested s' = mut_auth_requested s \<and> crypto_param s' = crypto_param s \<and>
    transport_param s' = transport_param s \<and> s_runtime_info s' = s_runtime_info s \<and> slot_id s' = slot_id s"

lemma frame_log: "frame s s' \<Longrightarrow> log_of fed s' = log_of fed s"
  by (simp add: frame_def log_of_def th_prefix_def split: option.splits)

lemma frame_secrets:
  "frame s (snd (set_dhe_secret cr v k s))" "frame s (snd (generate_handshake_secret cr v th s))"
  "frame s (snd (generate_data_secret cr v th s))" "frame s (snd (create_data_secret_update cr v b b' s))"
  "frame s (snd (activate_data_secret_update v b b' b'' s))"
proof -
  show "frame s (snd (set_dhe_secret cr v k s))"
    unfolding set_dhe_secret_def Let_def by (rule run_steps_invariant) (auto simp: frame_def)
  show "frame s (snd (generate_handshake_secret cr v th s))"
    unfolding generate_handshake_secret_def Let_def by (rule run_steps_invariant) (auto simp: frame_def)
  show "frame s (snd (generate_data_secret cr v th s))"
    unfolding generate_data_secret_def Let_def by (rule run_steps_invariant) (auto simp: frame_def)
  show "frame s (snd (create_data_secret_update cr v b b' s))"
    unfolding create_data_secret_update_def Let_def update_request_steps_def update_response_steps_def
    by (rule run_steps_invariant) (auto simp: frame_def split: if_splits)
  show "frame s (snd (activate_data_secret_update v b b' b'' s))"
    by (simp add: activate_data_secret_update_def Let_def frame_def)
qed

text \<open>A step on the session that keeps its frame keeps its transcript.\<close>

lemma session_log_step:
  assumes l: "session_log fed sid s a l c" and r: "on_session sid none f c = (Ok u, c')"
    and fr: "\<And>s. frame s (snd (f s))"
  obtains s1 s2 ss where "same_session s s1" "f s1 = (Ok u, s2)" "get_session_via_id c' sid = Some s2"
    "session_log fed sid s2 a l c'" "c' = c\<lparr>session := ss\<rparr>"
proof -
  from l obtain s1 where s1: "get_session_via_id c sid = Some s1" "same_session s s1" "log_of fed s1 = (a, l)"
    by (rule session_logE)
  have "session_id (snd (f s1)) = sid" using fr [of s1] s1(1) by (simp add: st.get_key frame_def)
  from on_session_OkE [OF r s1(1) this] obtain s2 ss where s2: "f s1 = (Ok u, s2)"
    "get_session_via_id c' sid = Some s2" "c' = c\<lparr>session := ss\<rparr>" by blast
  moreover have "log_of fed s2 = (a, l)" using frame_log [OF fr [of s1], of fed] s1(3) s2(1) by simp
  ultimately show thesis using s1(2) that session_log_start [of c' sid s2] by blast
qed

section \<open>A new session\<close>

lemma find_opened:
  assumes "List.find (\<lambda>x. k x = i) xs = None" "List.find (\<lambda>x. k x = z) xs = Some x" "k (f x) = i"
  shows "List.find (\<lambda>x. k x = i) (update_first (\<lambda>x. k x = z) f xs) = Some (f x)"
  using assms by (induction xs) (auto split: if_splits)

lemma get_session_opened:
  "get_session_via_id c sid = None \<Longrightarrow> get_session_via_id c 0 = Some s \<Longrightarrow> session_id (f s) = sid \<Longrightarrow>
    get_session_via_id (upd_session_via_id 0 f c) sid = Some (f s)"
  by (simp add: get_session_via_id_def upd_session_via_id_def find_opened)

end
