(* ===== verification/Responder_Handshake.thy ===== *)
theory Responder_Handshake
  imports Responder_Dispatch Session_Transcript
begin

text \<open>
  What a completed handshake of the responder has established: the transcript that keys and HMACs are
  computed from is the sequence of messages exchanged, FINISH and PSK_FINISH succeed only for a peer that
  computed the HMAC under the session's finished key, and no session becomes established otherwise.
\<close>

section \<open>Acts that end normally\<close>

named_theorems act_Ok \<open>when an act ends normally\<close>

lemma seq_Ok [act_Ok]:
  "seq m k w c = (Ok x, w', c') \<longleftrightarrow> (\<exists>y w1 c1. m w c = (Ok y, w1, c1) \<and> k y w1 c1 = (Ok x, w', c'))"
  by (auto simp: seq_def split: prod.splits result.splits)

lemma simple_Ok [act_Ok]:
  "ret y w c = (Ok x, w', c') \<longleftrightarrow> x = y \<and> w' = w \<and> c' = c"
  "ask k w c = k c w c"
  "change g w c = (Ok u, w', c') \<longleftrightarrow> w' = w \<and> c' = g c"
  "expect r w c = (Ok x, w', c') \<longleftrightarrow> r = Ok x \<and> w' = w \<and> c' = c"
  "or_refuse code e r w c = (Ok x, w', c') \<longleftrightarrow> r = Ok x \<and> w' = w \<and> c' = c"
  "attempt code e f w c = (Ok x, w', c') \<longleftrightarrow> f c = (Ok x, c') \<and> w' = w"
  "propagate f w c = (Ok x, w', c') \<longleftrightarrow> f c = (Ok x, c') \<and> w' = w"
  "panics w c \<noteq> (Ok x, w', c')" "refuse code e w c \<noteq> (Ok x, w', c')"
  "teardown_and_refuse sid w c \<noteq> (Ok x, w', c')"
  by (auto simp: ret_def ask_def change_def expect_def or_refuse_def attempt_def propagate_def refuse_def panics_def
      teardown_and_refuse_def seq_def split: result.splits prod.splits)

lemma with_session_Ok [act_Ok]:
  "with_session sid k w c = (Ok x, w', c') \<longleftrightarrow>
    (\<exists>s. get_session_via_id c sid = Some s \<and> k s w c = (Ok x, w', c'))"
  by (simp add: with_session_def act_Ok)

lemma session_steps_Ok [act_Ok]:
  "append_k cr sid bs w c = (Ok x, w', c') \<longleftrightarrow> append_message_k cr sid bs c = (Ok x, c') \<and> w' = w"
  "append_f cr sid bs w c = (Ok x, w', c') \<longleftrightarrow> append_message_f cr False sid bs c = (Ok x, c') \<and> w' = w"
  "transcript_hash cr psk slot is_mut_auth sid w c = (Ok th, w', c') \<longleftrightarrow>
    (\<exists>s. get_session_via_id c sid = Some s \<and> calc_transcript_hash cr s = Ok th \<and> w' = w \<and> c' = c)"
  "parse e rd r w c = (Ok y, w', c') \<longleftrightarrow> rd (negotiate_info c) r = Ok y \<and> w' = w \<and> c' = c"
  "on_session_unwrapped sid f w c = (Ok u, w', c') \<longleftrightarrow>
    w' = w \<and> get_session_via_id c sid \<noteq> None \<and> c' = upd_session_via_id sid f c"
  by (auto simp: append_k_def append_f_def transcript_hash_def calc_rsp_transcript_hash_def parse_def
      on_session_unwrapped_def act_Ok on_session_def update_first_const split: option.splits)

lemma read_header_Ok [act_Ok]:
  "read_header e bs w c = (Ok y, w', c') \<longleftrightarrow>
    SpdmMessageHeader_read (reader_init bs) = Some y \<and> version (fst y) = spdm_version_sel (negotiate_info c) \<and>
    w' = w \<and> c' = c"
  by (auto simp: read_header_def act_Ok split: option.splits)

lemma written_Ok [act_Ok]:
  "written_but n (wr_at out room) c = (Ok m, w', c') \<longleftrightarrow>
    n \<le> length out \<and> m = take (length out - n) out \<and> w' = wr_at out room \<and> c' = c"
  by (auto simp: written_but_def)

lemma patch_Ok [act_Ok]:
  "patch n m bs (wr_at out room) c = (Ok u, w', c') \<longleftrightarrow>
    n \<le> length out \<and> m \<le> n \<and> length bs = n - m \<and> c' = c \<and>
    w' = wr_at (take (length out - n) out @ bs @ drop (length out - m) out) room"
proof -
  have "(wr_at out room)\<lparr>w_buf := write_at (w_buf (wr_at out room)) (length out - n) bs\<rparr> =
      wr_at (take (length out - n) out @ bs @ drop (length out - m) out) room"
    if "n \<le> length out" "m \<le> n" "length bs = n - m"
    using that by (simp add: wr_at_def write_at_eq)
  then show ?thesis by (auto simp: patch_def)
qed

lemma respond_Ok:
  assumes "respond e code payload send_writer c = (Ok u, w', c')" "lengthens n (payload c)"
  obtains out room where "w' = wr_at out room" "n + 2 \<le> length out" "c' = c"
proof -
  have "valid_act (\<lambda>w c'. w = send_writer \<and> c' = c) (respond e code payload)
      (\<lambda>_ w c'. coded code n w \<and> c' = c) (\<lambda>_ w c'. coded code 0 w \<and> c' = c)"
    by (rule valid_respond) (simp add: assms(2))
  from valid_actD(1) [OF this _ assms(1)] that show thesis by (auto simp: coded_def)
qed

lemma respond_exact:
  assumes "respond e code payload send_writer c = (Ok u, w', c')" "emits (payload c) bs" "length bs \<le> 4094"
  shows "\<exists>room. c' = c \<and>
    w' = wr_at ([SpdmVersion_get_u8 (spdm_version_sel (negotiate_info c)), SpdmRequestResponseCode_get_u8 code] @ bs) room"
  using assms(1,3) emits_Ok [OF emits_message [OF assms(2)], where room = "replicate 4096 0" and out = "[]"]
  by (auto simp: respond_def send_writer_at)

text \<open>\<open>writes e bs\<close>: an encoder that may panic, but never succeeds with other bytes than \<open>bs\<close>.\<close>

definition writes :: "'e enc \<Rightarrow> bytes \<Rightarrow> bool" where
  "writes e bs \<longleftrightarrow> (\<forall>out room n w. e (wr_at out room) = (Ok n, w) \<longrightarrow>
    n = length bs \<and> length bs \<le> length room \<and> w = wr_at (out @ bs) (drop (length bs) room))"

lemma writes_emits:
  assumes "emits e bs"
  shows "writes e bs"
  unfolding writes_def
proof (intro allI impI)
  fix out room n w
  assume e: "e (wr_at out room) = (Ok n, w)"
  show "n = length bs \<and> length bs \<le> length room \<and> w = wr_at (out @ bs) (drop (length bs) room)"
  proof (cases "length bs \<le> length room")
    case True
    with emits_Ok [OF assms True, of out] e show ?thesis by simp
  next
    case False
    with emits_Err [OF assms, of room out] e show ?thesis by auto
  qed
qed

lemma writes_asserted: "writes (asserted_encode sz d) (as_ref d)"
proof (cases "sz = Ok (data_size d)")
  case True
  then have "asserted_encode sz d = full_bytes (as_ref d)" by (simp add: asserted_encode_def)
  then show ?thesis by (simp only: writes_emits [OF emits_full_bytes])
qed (simp add: asserted_encode_def panic_enc_def writes_def)

lemma writes_encs: "list_all2 writes es bss \<Longrightarrow> writes (encs es) (concat bss)"
proof (induction es bss rule: list_all2_induct)
  case Nil
  then show ?case by (simp add: writes_def)
next
  case (Cons e es bs bss)
  show ?case unfolding writes_def
  proof (intro allI impI)
    fix out room n w
    assume "encs (e # es) (wr_at out room) = (Ok n, w)"
    then obtain k w1 m where 1: "e (wr_at out room) = (Ok k, w1)" "encs es w1 = (Ok m, w)" "n = k + m"
      by (auto split: prod.splits result.splits)
    with Cons(1) have "k = length bs" "length bs \<le> length room" "w1 = wr_at (out @ bs) (drop (length bs) room)"
      unfolding writes_def by blast+
    with 1 Cons(3) [unfolded writes_def, rule_format, of "out @ bs" "drop (length bs) room" m w]
    show "n = length (concat (bs # bss)) \<and> length (concat (bs # bss)) \<le> length room \<and>
        w = wr_at (out @ concat (bs # bss)) (drop (length (concat (bs # bss))) room)" by (auto simp: add.commute)
  qed
qed

lemma encs_Ok_each:
  "encs es w = (Ok n, w') \<Longrightarrow> e \<in> set es \<Longrightarrow> \<exists>w1 k w2. e w1 = (Ok k, w2)"
  by (induction es arbitrary: w n) (auto split: prod.splits result.splits)

lemma respond_encoded:
  assumes "respond e code payload w c = (Ok u, w', c')"
  shows "\<exists>w1 n w2. payload c w1 = (Ok n, w2)"
proof -
  from assms obtain n w2 where "SpdmMessage_spdm_encode (spdm_version_sel (negotiate_info c)) code (payload c) w = (Ok n, w2)"
    by (auto simp: respond_def simple_Ok split: prod.splits result.splits)
  then show ?thesis unfolding SpdmMessage_spdm_encode_def by (rule encs_Ok_each) simp
qed

lemma writes_message:
  assumes "writes payload bs"
  shows "writes (SpdmMessage_spdm_encode v code payload) ([SpdmVersion_get_u8 v, SpdmRequestResponseCode_get_u8 code] @ bs)"
proof -
  let ?h = "BUFFER_FULL_enc (SpdmMessageHeader_encode \<lparr>version = v, request_response_code = code\<rparr>)"
  let ?hs = "[SpdmVersion_get_u8 v, SpdmRequestResponseCode_get_u8 code]"
  have "list_all2 emits [enum_u8_encode SpdmVersion_get_u8 v, enum_u8_encode SpdmRequestResponseCode_get_u8 code]
      (map (\<lambda>b. [b]) ?hs)" by (simp add: enum_u8_encode_def emits_u8)
  from emits_BUFFER_FULL [OF emits_encs [OF this]] have "emits ?h ?hs" by (simp add: SpdmMessageHeader_encode_def)
  then have "list_all2 writes [?h, payload] [?hs, bs]" using assms by (simp add: writes_emits)
  from writes_encs [OF this] show ?thesis by (simp add: SpdmMessage_spdm_encode_def)
qed

lemma respond_writes:
  assumes "respond e code payload send_writer c = (Ok u, w', c')" "writes (payload c) bs"
  shows "\<exists>room. c' = c \<and>
    w' = wr_at ([SpdmVersion_get_u8 (spdm_version_sel (negotiate_info c)), SpdmRequestResponseCode_get_u8 code] @ bs) room"
  using writes_message [OF assms(2), of "spdm_version_sel (negotiate_info c)" code, unfolded writes_def, rule_format,
      of "[]" "replicate 4096 0"] assms(1)
  by (auto simp: respond_def send_writer_at simple_Ok split: prod.splits result.splits)

section \<open>Requests as read\<close>

lemma read_sized_rd_at:
  assumes "read_sized cap n (rd_at pre post) = Some (d, r)" "unat n \<le> cap"
  shows "unat n \<le> length post \<and> as_ref d = take (unat n) post \<and>
    r = rd_at (pre @ take (unat n) post) (drop (unat n) post)"
  using assms by (auto simp: read_sized_def as_ref_def split: if_splits)

lemma read_byte_rd_at:
  "u8_read (rd_at pre post) = Some (b, r) \<longleftrightarrow> (\<exists>bs. post = b # bs \<and> r = rd_at (pre @ [b]) bs)"
  by (cases post) (auto simp: u8_read_def reader_take_rd_at decode_u8_def)

lemma header_rd_at:
  assumes "SpdmMessageHeader_read (reader_init bs) = Some (h, r)"
  obtains v x rest where "bs = v # x # rest" "r = rd_at [v, x] rest"
  using assms
  by (auto simp: SpdmMessageHeader_read_def reader_init_rd_at enum_u8_read_def read_byte_rd_at split: Option.bind_splits)

lemma finish_request_read:
  assumes "SpdmFinishRequestPayload_spdm_read ni (rd_at [v, x] rest) = Ok (q, r)"
    "\<not> contains (fq_finish_request_attributes q) SIGNATURE_INCLUDED" "get_hash_size ni = Ok n"
  shows "2 + unat n \<le> length rest" "as_ref (fq_verify_data q) = take (unat n) (drop 2 rest)"
  using assms negotiated_sizes_bounded(2) [OF assms(3)]
  by (auto simp: SpdmFinishRequestPayload_spdm_read_def rdp_defs SpdmFinishRequestAttributes_read_def read_byte_rd_at
      SpdmDigestStruct_spdm_read_def split: result.splits option.splits if_splits Option.bind_splits prod.splits
      dest!: read_sized_rd_at)

section \<open>Steps of the handshake\<close>

lemma append_f_Ok:
  assumes "hash_ctx_law cr fed" "session_log fed sid s a l c" "use_psk s \<or> mut_auth_requested s = 0"
    "append_f cr sid bs w c = (Ok u, w', c')"
  shows "w' = w \<and> session_log fed sid s a (l @ bs) c' \<and> (\<exists>ss. c' = c\<lparr>session := ss\<rparr>)"
  using session_log_f [OF assms(1,2,3)] assms(4) by (auto simp: act_Ok)

lemma append_k_Ok:
  assumes "hash_ctx_law cr fed" "session_log fed sid s a l c" "append_k cr sid bs w c = (Ok u, w', c')"
  shows "w' = w \<and> session_log fed sid s a (l @ bs) c' \<and> (\<exists>ss. c' = c\<lparr>session := ss\<rparr>)"
  using session_log_k [OF assms(1,2)] assms(3) by (auto simp: act_Ok)

lemma transcript_hash_Ok:
  assumes "hash_ctx_law cr fed" "session_log fed sid s a l c"
    "transcript_hash cr psk slot ma sid w c = (Ok th, w', c')"
  shows "w' = w \<and> c' = c \<and> hash_all cr a l = Some th"
  using session_log_hash [OF assms(1,2)] assms(3) by (auto simp: act_Ok)

lemma hmac_same_session:
  assumes "same_session s s'"
  shows "verify_hmac_with_request_finished_key cr th mac s' = verify_hmac_with_request_finished_key cr th mac s"
    "generate_hmac_with_response_finished_key cr th s' = generate_hmac_with_response_finished_key cr th s"
  using same_session_fields [OF assms]
  by (simp_all add: verify_hmac_with_request_finished_key_def generate_hmac_with_response_finished_key_def)

lemma verify_request_hmac_Ok:
  assumes law: "hash_ctx_law cr fed" and l: "session_log fed sid s a l c"
    and m: "use_psk s \<or> mut_auth_requested s = 0"
    and v: "verify_request_hmac cr psk ma sid vd w c = (Ok u, w', c')"
  shows "w' = w \<and> session_log fed sid s a (l @ as_ref vd) c' \<and> (\<exists>ss. c' = c\<lparr>session := ss\<rparr>) \<and>
    (\<exists>th. hash_all cr a l = Some th \<and> verify_hmac_with_request_finished_key cr (as_ref th) vd s = Ok ())"
proof -
  from v obtain s' th w1 c1 where s': "get_session_via_id c sid = Some s'"
    and th: "transcript_hash cr psk (if psk then INVALID_SLOT else slot_id s') ma sid w c = (Ok th, w1, c1)"
    and h: "verify_hmac_with_request_finished_key cr (as_ref th) vd s' = Ok ()"
    and f: "append_f cr sid (as_ref vd) w1 c1 = (Ok u, w', c')"
    unfolding verify_request_hmac_def with_session_Ok by (auto simp: seq_Ok simple_Ok)
  have same: "same_session s s'" using l s' by (auto simp: session_log_def)
  from transcript_hash_Ok [OF law l th] have 1: "w1 = w" "c1 = c" "hash_all cr a l = Some th" by simp_all
  from append_f_Ok [OF law l m] f 1 h same show ?thesis by (auto simp: hmac_same_session)
qed

lemma answer_finish_Ok:
  assumes law: "hash_ctx_law cr fed" and l: "session_log fed sid s a l c"
    and m: "use_psk s \<or> mut_auth_requested s = 0"
    and f: "answer_finish cr ma sid n (wr_at out room) c = (Ok u, w', c')"
    and out: "\<not> in_clear_text (negotiate_info c) \<Longrightarrow> length out = 4"
  shows "\<exists>out'. w' = wr_at out' room \<and> session_log fed sid s a (l @ out') c' \<and> (\<exists>ss. c' = c\<lparr>session := ss\<rparr>) \<and>
    (\<not> in_clear_text (negotiate_info c) \<longrightarrow> out' = out)"
proof (cases "in_clear_text (negotiate_info c)")
  case True
  let ?m = "take (length out - n) out"
  from f True obtain c1 s1 th mac c2 w1 w2 w3 c3 where
    1: "append_f cr sid ?m (wr_at out room) c = (Ok (), w1, c1)" and n: "n \<le> length out"
    and s1: "get_session_via_id c1 sid = Some s1"
    and th: "transcript_hash cr False (slot_id s1) ma sid w1 c1 = (Ok th, w2, c2)"
    and f2: "append_f cr sid (as_ref mac) w2 c2 = (Ok (), w3, c3)" and p: "patch n 0 (as_ref mac) w3 c3 = (Ok u :: unit SpdmResult, w', c')"
    unfolding answer_finish_def by (auto simp: seq_Ok simple_Ok with_session_Ok written_Ok)
  from append_f_Ok [OF law l m 1] obtain ss where a1: "w1 = wr_at out room" "session_log fed sid s a (l @ ?m) c1"
    "c1 = c\<lparr>session := ss\<rparr>" by blast
  from transcript_hash_Ok [OF law a1(2) th] have a2: "w2 = w1" "c2 = c1" by simp_all
  from append_f_Ok [OF law a1(2) m f2 [unfolded a2]] a1 p True show ?thesis
    by (auto simp: patch_Ok intro!: exI [of _ "?m @ as_ref mac"])
next
  case False
  from f False out obtain w1 where "append_f cr sid out w1 c = (Ok u, w', c')" "w1 = wr_at out room"
    unfolding answer_finish_def by (auto simp: seq_Ok simple_Ok written_Ok split: if_splits)
  with append_f_Ok [OF law l m] show ?thesis by blast
qed

lemma derive_data_secret_Ok:
  assumes law: "hash_ctx_law cr fed" and l: "session_log fed sid s a l c"
    and d: "derive_data_secret cr psk slot ma sid w c = (Ok u, w', c')"
  shows "w' = w \<and> (\<exists>th2 s1 s2. hash_all cr a l = Some th2 \<and> same_session s s1 \<and>
    generate_data_secret cr (spdm_version_sel (negotiate_info c)) th2 s1 = (Ok (), s2) \<and>
    get_session_via_id c' sid = Some s2)"
proof -
  let ?v = "spdm_version_sel (negotiate_info c)"
  from d obtain th w1 c1 where th: "transcript_hash cr psk slot ma sid w c = (Ok th, w1, c1)"
    and d': "propagate (on_session sid Panic
      (generate_data_secret cr (spdm_version_sel (negotiate_info c1)) th)) w1 c1 = (Ok u, w', c')"
    unfolding derive_data_secret_def by (auto simp: seq_Ok simple_Ok)
  from transcript_hash_Ok [OF law l th] have 1: "w1 = w" "c1 = c" "hash_all cr a l = Some th" by simp_all
  have d1: "on_session sid Panic (generate_data_secret cr ?v th) c = (Ok (), c')" "w' = w"
    using d' 1 by (auto simp: simple_Ok)
  from session_log_step [OF l d1(1) frame_secrets(3)] 1 d1(2) show ?thesis by blast
qed

section \<open>FINISH\<close>

lemma finish_response_emits:
  assumes "get_hash_size ni = Ok n"
  shows "emits (SpdmFinishResponsePayload_spdm_encode ni \<lparr>data_size = n, data = replicate SPDM_MAX_HASH_SIZE b\<rparr>)
    ([0, 0] @ (if in_clear_text ni then replicate (unat n) b else []))"
proof -
  let ?d = "\<lparr>data_size = n, data = replicate SPDM_MAX_HASH_SIZE b\<rparr>"
  have "emits (SpdmDigestStruct_spdm_encode ni ?d) (replicate (unat n) b)"
    using assms negotiated_sizes_bounded(2) [OF assms] emits_full_bytes [of "as_ref ?d"]
    by (simp add: SpdmDigestStruct_spdm_encode_def asserted_encode_def as_ref_def min_def)
  then have "emits (SpdmFinishResponsePayload_spdm_encode ni ?d)
      (concat ([[0], [0]] @ (if in_clear_text ni then [replicate (unat n) b] else [])))"
    unfolding SpdmFinishResponsePayload_spdm_encode_def
    by (intro emits_encs list_all2_appendI) (auto simp: emits_BUFFER_FULL emits_u8)
  then show ?thesis by (simp split: if_splits)
qed

lemma finish_completed:
  assumes law: "hash_ctx_law cr fed" and s: "get_session_via_id c sid = Some s" and m: "mut_auth_requested s = 0"
    and l: "log_of fed s = (a, l)"
    and f: "write_spdm_finish_response cr sid bs send_writer c = (Ok u, w, c')"
  shows "\<exists>n vd th th2 s1 s2. get_hash_size (negotiate_info c) = Ok n \<and> \<not> use_psk s \<and>
    (\<not> in_clear_text (negotiate_info c) \<longrightarrow>
      writer_used_slice w = [SpdmVersion_get_u8 (spdm_version_sel (negotiate_info c)), 0x65, 0, 0]) \<and>
    4 + unat n \<le> length bs \<and> as_ref vd = take (unat n) (drop 4 bs) \<and>
    hash_all cr a (l @ take 4 bs) = Some th \<and>
    verify_hmac_with_request_finished_key cr (as_ref th) vd s = Ok () \<and>
    hash_all cr a (l @ take (4 + unat n) bs @ writer_used_slice w) = Some th2 \<and>
    same_session s s1 \<and>
    generate_data_secret cr (spdm_version_sel (negotiate_info c)) th2 s1 = (Ok (), s2) \<and>
    get_session_via_id c' sid = Some s2"
proof -
  let ?c0 = "reset_buffer_via_request_code SpdmRequestFinish (Some sid) c"
  from f obtain h r q r' w2 c2 ma w3 c3 n s3 w4 c4 w5 c5 w6 c6 where
    h: "SpdmMessageHeader_read (reader_init bs) = Some (h, r)" and
    q: "SpdmFinishRequestPayload_spdm_read (negotiate_info ?c0) r = Ok (q, r')" and
    f1: "append_f cr sid (take 4 bs) send_writer ?c0 = (Ok (), w2, c2)" and
    ma: "check_mut_auth cr sid q w2 c2 = (Ok ma, w3, c3)" and
    n: "get_hash_size (negotiate_info c3) = Ok n" and
    s3: "get_session_via_id c3 sid = Some s3" "\<not> use_psk s3" and
    v: "verify_request_hmac cr False ma sid (fq_verify_data q) w3 c3 = (Ok (), w4, c4)" and
    rs: "respond SPDM_STATUS_INVALID_STATE_LOCAL SpdmResponseFinishRsp (\<lambda>c.
      SpdmFinishResponsePayload_spdm_encode (negotiate_info c)
        \<lparr>data_size = n, data = replicate SPDM_MAX_HASH_SIZE 0xCC\<rparr>) w4 c4 = (Ok (), w5, c5)" and
    an: "answer_finish cr ma sid (unat n) w5 c5 = (Ok (), w6, c6)" and
    d: "derive_data_secret cr False (slot_id s3) ma sid w6 c6 = (Ok u, w, c')"
    unfolding write_spdm_finish_response_def
    by (auto simp: seq_Ok simple_Ok with_session_Ok read_header_Ok session_steps_Ok(4) split: if_splits)
  have ni0: "negotiate_info ?c0 = negotiate_info c"
    by (simp add: reset_buffer_via_request_code_def reset_message_m_def reset_message_b_def reset_message_c_def
        upd_session_via_id_def Let_def)
  have "session_log fed sid s a l ?c0" by (intro session_log_reset session_log_start s l)
  from append_f_Ok [OF law this disjI2 [OF m] f1] obtain ss where
    1: "w2 = send_writer" "session_log fed sid s a (l @ take 4 bs) c2" "c2 = ?c0\<lparr>session := ss\<rparr>" by blast
  from 1(2) m ma have 2: "w3 = w2" "c3 = c2" "\<not> ma" "\<not> contains (fq_finish_request_attributes q) SIGNATURE_INCLUDED"
    by (auto simp: check_mut_auth_def with_session_Ok session_log_def simple_Ok same_session_fields Let_def
        split: if_splits)
  have psk: "\<not> use_psk s" using 1(2) 2(2) s3 by (auto simp: session_log_def same_session_fields)
  obtain b x rest where bs: "bs = b # x # rest" "r = rd_at [b, x] rest" using header_rd_at [OF h] by blast
  have n': "get_hash_size (negotiate_info c) = Ok n" using n 1(3) 2(2) ni0 by simp
  note rd = finish_request_read [OF q [unfolded ni0 bs(2)] 2(4) n']
  from verify_request_hmac_Ok [OF law 1(2) disjI2 [OF m] v [unfolded 2]] obtain th ss' where
    3: "w4 = send_writer" "session_log fed sid s a ((l @ take 4 bs) @ as_ref (fq_verify_data q)) c4"
      "c4 = c2\<lparr>session := ss'\<rparr>" "hash_all cr a (l @ take 4 bs) = Some th"
      "verify_hmac_with_request_finished_key cr (as_ref th) (fq_verify_data q) s = Ok ()"
    using 1(1) by blast
  have ni4: "negotiate_info c4 = negotiate_info c" using 3(3) 1(3) ni0 by simp
  have n4: "get_hash_size (negotiate_info c4) = Ok n" using ni4 n' by simp
  let ?out = "[0, 0] @ (if in_clear_text (negotiate_info c4) then replicate (unat n) (0xCC :: u8) else [])"
  have "length ?out \<le> 4094" using negotiated_sizes_bounded(2) [OF n'] by simp
  from respond_exact [OF rs [unfolded 3(1)] finish_response_emits [OF n4] this] obtain room where
    4: "c5 = c4" "w5 = wr_at ([SpdmVersion_get_u8 (spdm_version_sel (negotiate_info c4)),
      SpdmRequestResponseCode_get_u8 SpdmResponseFinishRsp] @ ?out) room"
    by blast
  from answer_finish_Ok [OF law 3(2) disjI2 [OF m] an [unfolded 4]] obtain out ss'' where
    5: "w6 = wr_at out room" "session_log fed sid s a (((l @ take 4 bs) @ as_ref (fq_verify_data q)) @ out) c6"
      "c6 = c4\<lparr>session := ss''\<rparr>"
      "\<not> in_clear_text (negotiate_info c) \<longrightarrow> out = [SpdmVersion_get_u8 (spdm_version_sel (negotiate_info c)), 0x65, 0, 0]"
    by (auto simp: ni4)
  from derive_data_secret_Ok [OF law 5(2) d] 5 ni4 have "\<exists>th2 s1 s2.
      hash_all cr a (((l @ take 4 bs) @ as_ref (fq_verify_data q)) @ writer_used_slice w) = Some th2 \<and>
      same_session s s1 \<and> generate_data_secret cr (spdm_version_sel (negotiate_info c)) th2 s1 = (Ok (), s2) \<and>
      get_session_via_id c' sid = Some s2" by simp
  moreover have "drop 4 bs = drop 2 rest" using bs(1) by (simp add: numeral_eq_Suc)
  with rd bs(1) have "take 4 bs @ as_ref (fq_verify_data q) = take (4 + unat n) bs" "4 + unat n \<le> length bs"
      "as_ref (fq_verify_data q) = take (unat n) (drop 4 bs)" by (simp_all add: take_add)
  moreover have "\<not> in_clear_text (negotiate_info c) \<longrightarrow>
      writer_used_slice w = [SpdmVersion_get_u8 (spdm_version_sel (negotiate_info c)), 0x65, 0, 0]"
    using 5(1,4) derive_data_secret_Ok [OF law 5(2) d] by simp
  ultimately show ?thesis using n' psk 3(4,5) by (metis append.assoc)
qed

section \<open>PSK_FINISH\<close>

lemma psk_finish_request_read:
  assumes "SpdmPskFinishRequestPayload_spdm_read ni (rd_at [v, x] rest) = Ok (vd, r)" "get_hash_size ni = Ok n"
  shows "2 + unat n \<le> length rest" "as_ref vd = take (unat n) (drop 2 rest)" "reader_used r = 4 + unat n"
  using assms negotiated_sizes_bounded(2) [OF assms(2)]
  by (auto simp: SpdmPskFinishRequestPayload_spdm_read_def rdp_defs read_byte_rd_at
      SpdmDigestStruct_spdm_read_def split: result.splits option.splits if_splits Option.bind_splits prod.splits
      dest!: read_sized_rd_at)

lemma psk_finish_response_emits: "emits SpdmPskFinishResponsePayload_spdm_encode [0, 0]"
  using c_psk_finish_rsp.encode_emits by simp

lemma psk_finish_completed:
  assumes law: "hash_ctx_law cr fed" and s: "get_session_via_id c sid = Some s"
    and l: "log_of fed s = (a, l)"
    and f: "write_spdm_psk_finish_response cr sid bs send_writer c = (Ok u, w, c')"
  shows "\<exists>n vd th th2 s1 s2. get_hash_size (negotiate_info c) = Ok n \<and> use_psk s \<and>
    4 + unat n \<le> length bs \<and> as_ref vd = take (unat n) (drop 4 bs) \<and>
    hash_all cr a (l @ take 4 bs) = Some th \<and>
    verify_hmac_with_request_finished_key cr (as_ref th) vd s = Ok () \<and>
    hash_all cr a (l @ take (4 + unat n) bs @ writer_used_slice w) = Some th2 \<and>
    same_session s s1 \<and>
    generate_data_secret cr (spdm_version_sel (negotiate_info c)) th2 s1 = (Ok (), s2) \<and>
    get_session_via_id c' sid = Some s2"
proof -
  let ?c0 = "reset_buffer_via_request_code SpdmRequestPskFinish (Some sid) c"
  from f obtain h r vd r' n s0 w2 c2 w3 c3 w4 c4 w5 c5 m where
    h: "SpdmMessageHeader_read (reader_init bs) = Some (h, r)" and
    q: "SpdmPskFinishRequestPayload_spdm_read (negotiate_info ?c0) r = Ok (vd, r')" and
    n: "get_hash_size (negotiate_info ?c0) = Ok n" and
    s0: "get_session_via_id ?c0 sid = Some s0" "use_psk s0" and
    f1: "append_f cr sid (take (reader_used r' - unat n) bs) send_writer ?c0 = (Ok (), w2, c2)" and
    v: "verify_request_hmac cr True False sid vd w2 c2 = (Ok (), w3, c3)" and
    rs: "respond SPDM_STATUS_INVALID_STATE_LOCAL SpdmResponsePskFinishRsp
      (\<lambda>_. SpdmPskFinishResponsePayload_spdm_encode) w3 c3 = (Ok (), w4, c4)" and
    m: "written_but 0 w4 c4 = (Ok m :: bytes SpdmResult, w4, c4)" and
    f2: "append_f cr sid m w4 c4 = (Ok (), w5, c5)" and
    d: "derive_data_secret cr True 0 False sid w5 c5 = (Ok u, w, c')"
    unfolding write_spdm_psk_finish_response_def
    by (auto simp: seq_Ok simple_Ok with_session_Ok read_header_Ok session_steps_Ok(4) written_but_def split: if_splits)
  have ni0: "negotiate_info ?c0 = negotiate_info c"
    by (simp add: reset_buffer_via_request_code_def reset_message_m_def reset_message_b_def reset_message_c_def
        upd_session_via_id_def Let_def)
  have 0: "session_log fed sid s a l ?c0" by (intro session_log_reset session_log_start s l)
  have psk: "use_psk s" using 0 s0 by (auto simp: session_log_def same_session_fields)
  obtain b x rest where bs: "bs = b # x # rest" "r = rd_at [b, x] rest" using header_rd_at [OF h] by blast
  have n': "get_hash_size (negotiate_info c) = Ok n" using n ni0 by simp
  note rd = psk_finish_request_read [OF q [unfolded ni0 bs(2)] n']
  from append_f_Ok [OF law 0 disjI1 [OF psk] f1] rd(3) obtain ss where
    1: "w2 = send_writer" "session_log fed sid s a (l @ take 4 bs) c2" "c2 = ?c0\<lparr>session := ss\<rparr>" by auto
  from verify_request_hmac_Ok [OF law 1(2) disjI1 [OF psk] v] obtain th ss' where
    2: "w3 = send_writer" "session_log fed sid s a ((l @ take 4 bs) @ as_ref vd) c3" "c3 = c2\<lparr>session := ss'\<rparr>"
      "hash_all cr a (l @ take 4 bs) = Some th" "verify_hmac_with_request_finished_key cr (as_ref th) vd s = Ok ()"
    using 1(1) by blast
  from respond_exact [OF rs [unfolded 2(1)] psk_finish_response_emits] obtain room out where
    3: "c4 = c3" "w4 = wr_at out room" by auto
  with m have "m = out" by (auto simp: written_Ok)
  with append_f_Ok [OF law 2(2) disjI1 [OF psk]] f2 3 obtain ss'' where
    4: "w5 = wr_at out room" "session_log fed sid s a (((l @ take 4 bs) @ as_ref vd) @ out) c5"
      "c5 = c3\<lparr>session := ss''\<rparr>" by blast
  from derive_data_secret_Ok [OF law 4(2) d] 4 2(3) 1(3) ni0 have "\<exists>th2 s1 s2.
      hash_all cr a (((l @ take 4 bs) @ as_ref vd) @ writer_used_slice w) = Some th2 \<and>
      same_session s s1 \<and> generate_data_secret cr (spdm_version_sel (negotiate_info c)) th2 s1 = (Ok (), s2) \<and>
      get_session_via_id c' sid = Some s2" by simp
  moreover have "drop 4 bs = drop 2 rest" using bs(1) by (simp add: numeral_eq_Suc)
  with rd bs(1) have "take 4 bs @ as_ref vd = take (4 + unat n) bs" "4 + unat n \<le> length bs"
      "as_ref vd = take (unat n) (drop 4 bs)" by (simp_all add: take_add)
  ultimately show ?thesis using n' psk 2(4,5) by (metis append.assoc)
qed

section \<open>The key exchanges\<close>

lemma recover_Ok:
  assumes "\<And>w c w' c'. handler w c \<noteq> (Ok x, w', c')"
  shows "recover f handler w c = (Ok x, w', c') \<longleftrightarrow> f c = (Ok x, c') \<and> w' = w"
  using assms by (auto simp: recover_def split: prod.splits result.splits)

lemma response_hmac_Ok:
  assumes law: "hash_ctx_law cr fed" and l: "session_log fed sid s a l c"
    and r: "response_hmac cr sid th w c = (Ok mac, w', c')"
  shows "w' = w \<and> generate_hmac_with_response_finished_key cr (as_ref th) s = Ok mac \<and>
    session_log fed sid s a (l @ as_ref mac) c' \<and> (\<exists>ss. c' = c\<lparr>session := ss\<rparr>)"
proof -
  from r obtain s' where s': "get_session_via_id c sid = Some s'"
    and "generate_hmac_with_response_finished_key cr (as_ref th) s' = Ok mac"
    and k: "append_message_k cr sid (as_ref mac) c = (Ok (), c')" "w' = w"
    unfolding response_hmac_def with_session_Ok by (auto simp: seq_Ok simple_Ok recover_Ok)
  moreover have "same_session s s'" using l s' by (auto simp: session_log_def)
  ultimately show ?thesis using session_log_k [OF law l k(1)] by (auto simp: hmac_same_session)
qed

lemma handshake_secret_step:
  assumes l: "session_log fed sid s a l c"
    and r: "propagate (on_session sid Panic (generate_handshake_secret cr v th)) w c = (Ok u, w', c')"
  shows "w' = w \<and> (\<exists>s1 s2. same_session s s1 \<and> generate_handshake_secret cr v th s1 = (Ok (), s2) \<and>
    session_log fed sid s2 a l c') \<and> (\<exists>ss. c' = c\<lparr>session := ss\<rparr>)"
proof -
  have r': "on_session sid Panic (generate_handshake_secret cr v th) c = (Ok (), c')" "w' = w"
    using r by (auto simp: simple_Ok)
  from session_log_step [OF l r'(1) frame_secrets(2)] r'(2) show ?thesis by blast
qed

text \<open>
  The transcript and the keys at the end of KEY_EXCHANGE: \<open>m\<close> is the response up to its signature.
\<close>

lemma finish_key_exchange_Ok:
  assumes law: "hash_ctx_law cr fed" and l: "session_log fed sid s a l c"
    and f: "finish_key_exchange cr en request sid slot asym_size hash_size (wr_at out room) c = (Ok u, w', c')"
    and clear: "clear = in_clear_text (negotiate_info c)"
    and m: "m = take (length out - (if clear then asym_size else hash_size + asym_size)) out"
  shows "\<exists>h sig th1 s1 s2 s' out'. hash_all cr a (l @ request @ m) = Some h \<and>
    sign_hash en (negotiate_info c) SPDM_VERSION_1_2_SIGNING_CONTEXT_ZEROPAD_2
      SPDM_KEY_EXCHANGE_RESPONSE_SIGN_CONTEXT h = Ok sig \<and>
    hash_all cr a (l @ request @ m @ as_ref sig) = Some th1 \<and> same_session s s1 \<and>
    generate_handshake_secret cr (spdm_version_sel (negotiate_info c)) th1 s1 = (Ok (), s2) \<and>
    same_session s2 s' \<and> get_session_via_id c' sid = Some s' \<and> (\<exists>ss. c' = c\<lparr>session := ss\<rparr>) \<and>
    w' = wr_at out' room \<and>
    (if clear then out' = out \<and> log_of fed s' = (a, l @ request @ m @ as_ref sig)
     else \<exists>mac. generate_hmac_with_response_finished_key cr (as_ref th1) s2 = Ok mac \<and>
       length (as_ref sig) = asym_size \<and> length (as_ref mac) = hash_size \<and> out' = m @ as_ref sig @ as_ref mac \<and>
       log_of fed s' = (a, l @ request @ out') \<and> digest_context_th (s_runtime_info s') \<noteq> None)"
proof -
  let ?v = "spdm_version_sel (negotiate_info c)"
  let ?n = "if clear then asym_size else hash_size + asym_size"
  let ?tail = "\<lambda>sg. if clear then ret () else
      seq (transcript_hash cr False slot False sid) (\<lambda>th.
      seq (response_hmac cr sid th) (\<lambda>mac.
      seq (patch (hash_size + asym_size) hash_size (as_ref sg)) (\<lambda>_.
      patch hash_size 0 (as_ref mac))))"
  from f obtain w1 c1 where k1: "append_k cr sid request (wr_at out room) c = (Ok (), w1, c1)"
    by (auto simp: finish_key_exchange_def Let_def seq_Ok simple_Ok)
  from append_k_Ok [OF law l k1] have w1: "w1 = wr_at out room"
    and l1: "session_log fed sid s a (l @ request) c1" and c1: "\<exists>ss. c1 = c\<lparr>session := ss\<rparr>" by auto
  from f k1 obtain w2 c2 sg s0 w3 c3 th1 w4 c4 w5 c5 where n: "?n \<le> length out" and
    k2: "append_k cr sid m (wr_at out room) c1 = (Ok (), w2, c2)" and
    sg: "get_session_via_id c2 sid = Some s0"
      "generate_key_exchange_rsp_signature cr en slot s0 c2 = Ok sg" and
    k3: "append_k cr sid (as_ref sg) w2 c2 = (Ok (), w3, c3)" and
    th: "transcript_hash cr False slot False sid w3 c3 = (Ok th1, w4, c4)" and
    hs: "propagate (on_session sid Panic (generate_handshake_secret cr ?v th1)) w4 c4 = (Ok (), w5, c5)" and
    rest: "?tail sg w5 c5 = (Ok u, w', c')"
    unfolding finish_key_exchange_def Let_def seq_Ok simple_Ok with_session_Ok w1 written_Ok clear [symmetric]
    by (clarsimp simp: m simple_Ok with_session_Ok written_Ok simp del: if_split)
  from append_k_Ok [OF law l1 k2] have w2: "w2 = wr_at out room"
    and l2: "session_log fed sid s a (l @ request @ m) c2" and c2: "\<exists>ss. c2 = c\<lparr>session := ss\<rparr>"
    using c1 by auto
  from sg obtain h where h: "hash_all cr a (l @ request @ m) = Some h"
    "sign_hash en (negotiate_info c) SPDM_VERSION_1_2_SIGNING_CONTEXT_ZEROPAD_2
      SPDM_KEY_EXCHANGE_RESPONSE_SIGN_CONTEXT h = Ok sg"
    using session_log_hash [OF law l2 sg(1)] c2
    by (auto simp: generate_key_exchange_rsp_signature_def calc_rsp_transcript_hash_def)
  from append_k_Ok [OF law l2 k3] have w3: "w3 = wr_at out room"
    and l3: "session_log fed sid s a (l @ request @ m @ as_ref sg) c3" and c3: "\<exists>ss. c3 = c\<lparr>session := ss\<rparr>"
    using c2 w2 by auto
  from transcript_hash_Ok [OF law l3 th] have th1: "w4 = wr_at out room" "c4 = c3"
    "hash_all cr a (l @ request @ m @ as_ref sg) = Some th1" using w3 by auto
  from hs th1(2) have hs3: "propagate (on_session sid Panic (generate_handshake_secret cr ?v th1)) w4 c3 = (Ok (), w5, c5)"
    by simp
  from handshake_secret_step [OF l3 hs3] obtain s1 s2 where
    s: "same_session s s1" "generate_handshake_secret cr ?v th1 s1 = (Ok (), s2)" and
    l5: "session_log fed sid s2 a (l @ request @ m @ as_ref sg) c5" by blast
  from handshake_secret_step [OF l3 hs3] th1(1) c3 have
    c5: "w5 = wr_at out room" "\<exists>ss. c5 = c\<lparr>session := ss\<rparr>" by auto
  show ?thesis
  proof (cases clear)
    case True
    with rest have "w' = wr_at out room" "c' = c5" by (auto simp: simple_Ok c5)
    with l5 h th1(3) s c5(2) True show ?thesis unfolding session_log_def by auto
  next
    case False
    with rest obtain th w6 c6 mac w7 c7 w8 c8 where
      t: "transcript_hash cr False slot False sid w5 c5 = (Ok th, w6, c6)"
      "response_hmac cr sid th w6 c6 = (Ok mac, w7, c7)"
      "patch (hash_size + asym_size) hash_size (as_ref sg) w7 c7 = (Ok () :: unit SpdmResult, w8, c8)"
      "patch hash_size 0 (as_ref mac) w8 c8 = (Ok u :: unit SpdmResult, w', c')"
      by (auto simp: seq_Ok)
    from transcript_hash_Ok [OF law l5 t(1)] th1(3) c5 have t6: "w6 = wr_at out room" "c6 = c5" "th = th1" by auto
    from response_hmac_Ok [OF law l5, of th w6 mac w7 c7] t(2) t6 c5(2) have
      "w7 = wr_at out room" "generate_hmac_with_response_finished_key cr (as_ref th1) s2 = Ok mac" and
      l7: "session_log fed sid s2 a (l @ request @ m @ as_ref sg @ as_ref mac) c7" "\<exists>ss. c7 = c\<lparr>session := ss\<rparr>"
      by auto
    moreover from this t(3,4) n False have "c' = c7" "w' = wr_at (m @ as_ref sg @ as_ref mac) room"
        "length (as_ref sg) = asym_size" "length (as_ref mac) = hash_size"
      by (auto simp: patch_Ok m)
    moreover have "digest_context_th (s_runtime_info s') \<noteq> None" if "get_session_via_id c7 sid = Some s'" for s'
      using t(2) append_k_started [OF law _ that] unfolding response_hmac_def with_session_Ok by (auto simp: seq_Ok simple_Ok recover_Ok)
    ultimately show ?thesis using h th1(3) s False unfolding session_log_def by auto
  qed
qed

lemma writes_kex_rsp: "writes (SpdmKeyExchangeResponsePayload_spdm_encode ni summary p) (kex_rsp_image ni summary p)"
proof -
  have o: "writes (SpdmOpaqueStruct_spdm_encode s) (le_bytes 2 (data_size s) @ as_ref s)" for s
  proof -
    have "list_all2 emits (u16_encode (data_size s) # map u8_encode (as_ref s))
        (le_bytes 2 (data_size s) # map (\<lambda>b. [b]) (as_ref s))"
      by (simp add: emits_u16 list_all2_map_emits emits_u8)
    from emits_full_encs [OF this] show ?thesis
      unfolding SpdmOpaqueStruct_spdm_encode_def by (intro writes_emits) (simp add: concat_map_singleton)
  qed
  have "writes (SpdmKeyExchangeResponsePayload_spdm_encode ni summary p) (concat
    ([[kr_heartbeat_period p], [0], le_bytes 2 (kr_rsp_session_id p), [kr_mut_auth_req p],
      [kr_req_slot_id p], kr_random p] @ [as_ref (kr_exchange p)] @
     (if summary then [as_ref (kr_measurement_summary_hash p)] else []) @
     [le_bytes 2 (data_size (kr_opaque p)) @ as_ref (kr_opaque p), as_ref (kr_signature p)] @
     (if in_clear_text ni then [] else [as_ref (kr_verify_data p)])))"
    unfolding SpdmKeyExchangeResponsePayload_spdm_encode_def
    by (intro writes_encs list_all2_appendI)
      (auto simp: writes_emits emits_BUFFER_FULL emits_u8 emits_u16 emits_encode_array SpdmRandomStruct_encode_def emits_full_bytes
        SpdmKeyExchangeMutAuthAttributes_encode_def SpdmDheExchangeStruct_spdm_encode_def
        SpdmDigestStruct_spdm_encode_def SpdmSignatureStruct_spdm_encode_def o writes_asserted)
  then show ?thesis
    by (cases summary; cases "in_clear_text ni") (simp_all add: kex_rsp_image_def)
qed

lemma setup_dhe_Ok:
  assumes "setup_dhe_session cr t ni msg_a chain_hash slot k sid s = (Ok u, s')"
  shows "session_id s' = sid" "\<not> use_psk s'" "mut_auth_requested s' = 0" "slot_id s' = slot"
    "session_state s' = SpdmSessionNotStarted"
    "log_of fed s' = (base_hash_sel ni, mb_as_ref msg_a @ as_ref chain_hash)"
proof -
  let ?s1 = "(crypto_params ni t ((set_default s)\<lparr>session_id := sid, use_psk := False, slot_id := slot\<rparr>))
    \<lparr>mut_auth_requested := 0\<rparr>"
  from assms obtain s2 where s2: "set_dhe_secret cr (spdm_version_sel ni) k ?s1 = (Ok (), s2)"
    "s' = s2\<lparr>s_runtime_info := (s_runtime_info s2)\<lparr>s_message_a := msg_a, rsp_cert_hash := Some chain_hash,
      req_cert_hash := None\<rparr>\<rparr>"
    by (auto simp: setup_dhe_session_def session_setup_def split: if_splits prod.splits result.splits)
  have "frame ?s1 s2" using frame_secrets(1) [of ?s1 cr "spdm_version_sel ni" k] s2(1) by simp
  then show "session_id s' = sid" "\<not> use_psk s'" "mut_auth_requested s' = 0" "slot_id s' = slot"
    "session_state s' = SpdmSessionNotStarted"
    "log_of fed s' = (base_hash_sel ni, mb_as_ref msg_a @ as_ref chain_hash)"
    by (simp_all add: s2(2) frame_def crypto_params_def set_default_def set_crypto_param_def set_transport_param_def
        log_of_def th_prefix_def SpdmSessionRuntimeInfo_default_def)
qed

lemma open_dhe_Ok:
  assumes inv: "half_ids_inv False c"
    and f: "open_dhe_session p en q w c = (Ok (exchange, rsp), w', c')"
  defines "sid \<equiv> session_id_of rsp (kq_req_session_id q)" and "ni \<equiv> negotiate_info c"
  shows "w' = w \<and> (\<exists>ss. c' = c\<lparr>session := ss\<rparr>) \<and> get_session_via_id c sid = None \<and> sid \<noteq> 0 \<and>
    (\<exists>final key chain s0 s. generate_key_pair en (dhe_sel ni) = Some (exchange, final) \<and>
      final (kq_exchange q) = Some key \<and>
      get_certchain_hash_local (p_crypto p) c False (unat (kq_slot_id q)) = Ok (Some chain) \<and>
      setup_dhe_session (p_crypto p) (p_transport p) ni (message_a (runtime_info c)) chain (kq_slot_id q) key sid s0 =
        (Ok (), s) \<and> get_session_via_id c' sid = Some s)"
proof -
  let ?f = "\<lambda>chain key. setup_dhe_session (p_crypto p) (p_transport p) ni (message_a (runtime_info c)) chain
    (kq_slot_id q) key sid"
  from f obtain final key chain where
    k: "generate_key_pair en (dhe_sel ni) = Some (exchange, final)" "final (kq_exchange q) = Some key" and
    rsp: "get_next_half_session_id c False = Ok rsp" and
    ch: "get_certchain_hash_local (p_crypto p) c False (unat (kq_slot_id q)) = Ok (Some chain)" and
    o: "on_session 0 Panic (?f chain key) c = (Ok (), c')" and w: "w' = w"
    by (auto simp: open_dhe_session_def seq_Ok simple_Ok Let_def ni_def sid_def split: prod.splits option.splits)
  from o obtain s0 s where s: "get_session_via_id c 0 = Some s0" "?f chain key s0 = (Ok (), s)"
    "c' = upd_session_via_id 0 (\<lambda>_. s) c"
    by (auto simp: on_session_def split: option.splits prod.splits)
  have half: "get_next_half_session_id c False = Ok (half_session_id False sid)"
    by (simp add: rsp sid_def half_session_id_of)
  have new: "get_session_via_id c sid = None" "sid \<noteq> 0"
    using half_ids_open(2,3) [OF inv half, of "\<lambda>s. s"] by auto
  have "get_session_via_id c' sid = Some s"
    using get_session_opened [OF new(1) s(1), of "\<lambda>_. s"] setup_dhe_Ok(1) [OF s(2)] s(3) by simp
  with k ch s new w show ?thesis by (auto simp: upd_session_via_id_def)
qed

lemma match_versions_sized:
  "match_versions ni ps opaque = Ok ro \<Longrightarrow> sized_ok MAX_SPDM_OPAQUE_SIZE opaque \<Longrightarrow> sized_ok MAX_SPDM_OPAQUE_SIZE ro"
proof (induction ps arbitrary: opaque)
  case (Cons v ps)
  have "sized_ok MAX_SPDM_OPAQUE_SIZE (version_selection t b opaque)" if "length t \<le> 1024" for t b
    using Cons.prems(2) that by (simp add: version_selection_def sized_ok_def unat_of_nat take_bit_nat_eq_self)
  with Cons show ?case by (cases v) (auto simp: RSP_DMTF_OPAQUE_DATA_VERSION_SELECTION_DSP0277_def
      RSP_DMTF_OPAQUE_DATA_VERSION_SELECTION_DSP0274_FMT1_def split: if_splits)
qed simp

lemma select_secured_version_sized:
  "select_secured_version cfg ni opaque = Ok ro \<Longrightarrow> sized_ok MAX_SPDM_OPAQUE_SIZE ro"
  by (auto simp: select_secured_version_def sized_ok_def sized_default_def split: option.splits if_splits
      dest!: match_versions_sized)

lemma guards_Ok:
  "require_negotiated e w c = (Ok u, w', c') \<Longrightarrow> w' = w \<and> c' = c"
  "refuse_old_version h w c = (Ok u, w', c') \<Longrightarrow> w' = w \<and> c' = c"
  "require_slot e slot w c = (Ok u, w', c') \<Longrightarrow> w' = w \<and> c' = c"
  "answer_opaque opaque w c = (Ok ro, w', c') \<Longrightarrow> w' = w \<and> c' = c \<and> sized_ok MAX_SPDM_OPAQUE_SIZE ro"
  "take_summary_hash en e t w c = (Ok sh, w', c') \<Longrightarrow>
    w' = w \<and> c' = upd_rt (need_measurement_summary_hash_update (\<lambda>_. needs_summary t)) c \<and>
      (needs_summary t \<longrightarrow> (\<exists>v a m mh. generate_measurement_summary_hash en v a m mh t = Some sh))"
  by (auto simp: require_negotiated_def refuse_old_version_def require_slot_def answer_opaque_def take_summary_hash_def
      act_Ok Let_def needs_summary_def split: if_splits result.splits option.splits dest: select_secured_version_sized)

lemma open_dhe_frame:
  "open_dhe_session p en q w c = (Ok x, w', c') \<Longrightarrow> w' = w \<and> (\<exists>ss. c' = c\<lparr>session := ss\<rparr>)"
  by (auto simp: open_dhe_session_def seq_Ok simple_Ok Let_def on_session_def upd_session_via_id_def case_prod_beta
      split: option.splits)

text \<open>The stages of a completed KEY_EXCHANGE.\<close>

lemma key_exchange_stages:
  assumes f: "write_spdm_key_exchange_response p en bs send_writer c = (Ok u, w, c')"
    and sec: "\<not> in_clear_text (negotiate_info c)"
  obtains r q r' sh ro c3 ex rsp c4 random asym hash w5 c5 w6 c6 where
    "SpdmMessageHeader_read (reader_init bs) = Some r"
    "SpdmKeyExchangeRequestPayload_spdm_read (negotiate_info c) (snd r) = Ok (q, r')"
    "open_dhe_session p en q send_writer c3 = (Ok (ex, rsp), send_writer, c4)"
    "session c3 = session c" "\<not> in_clear_text (negotiate_info c3)"
    "get_asym_key_size (negotiate_info c4) = Ok asym" "get_hash_size (negotiate_info c4) = Ok hash"
    "get_random en SPDM_RANDOM_SIZE = Ok random" "sized_ok MAX_SPDM_OPAQUE_SIZE ro"
    "negotiate_info c3 = (negotiate_info c)\<lparr>termination_policy_set := (kq_session_policy q AND 1 = 1)\<rparr>"
    "message_a (runtime_info c3) = message_a (runtime_info c)" "provision_info c3 = provision_info c"
    "need_measurement_summary_hash (runtime_info c3) = needs_summary (kq_measurement_summary_hash_type q)"
    "needs_summary (kq_measurement_summary_hash_type q) \<longrightarrow>
      (\<exists>v a m mh t. generate_measurement_summary_hash en v a m mh t = Some sh)"
    "respond SPDM_STATUS_INVALID_STATE_LOCAL SpdmResponseKeyExchangeRsp (\<lambda>c.
        SpdmKeyExchangeResponsePayload_spdm_encode (negotiate_info c)
          (need_measurement_summary_hash (runtime_info c))
          \<lparr>kr_heartbeat_period = c_heartbeat_period (config_info c), kr_rsp_session_id = rsp,
           kr_mut_auth_req = 0, kr_req_slot_id = 0, kr_random = random, kr_exchange = ex,
           kr_measurement_summary_hash = sh, kr_opaque = ro,
           kr_signature = \<lparr>data_size = asym, data = replicate SPDM_MAX_ASYM_KEY_SIZE 0xBB\<rparr>,
           kr_verify_data = \<lparr>data_size = hash, data = replicate SPDM_MAX_HASH_SIZE 0xCC\<rparr>\<rparr>) send_writer c4 =
      (Ok (), w5, c5)"
    "finish_key_exchange (p_crypto p) en (take (reader_used r') bs) (session_id_of rsp (kq_req_session_id q))
      (kq_slot_id q) (unat asym) (unat hash) w5 c5 = (Ok (), w6, c6)"
    "on_session_unwrapped (session_id_of rsp (kq_req_session_id q)) (set_session_state SpdmSessionHandshaking \<circ>
      settle_session ro (c_heartbeat_period (config_info c4))) w6 c6 = (Ok (), w, c')"
proof -
  let ?c1 = "reset_buffer_via_request_code SpdmRequestKeyExchange None c"
  have c1: "negotiate_info ?c1 = negotiate_info c" "session ?c1 = session c"
      "message_a (runtime_info ?c1) = message_a (runtime_info c)" "provision_info ?c1 = provision_info c"
    by (simp_all add: reset_buffer_via_request_code_def reset_message_m_def reset_message_b_def reset_message_c_def Let_def)
  have pol: "in_clear_text (termination_policy_set_update g ni) = in_clear_text ni" for g ni
    by (simp add: in_clear_text_def)
  show thesis
    using f sec unfolding write_spdm_key_exchange_response_def Let_def
    apply (clarsimp simp: seq_Ok simple_Ok read_header_Ok session_steps_Ok(4) c1 pol dest!: guards_Ok)
    apply (frule open_dhe_frame)
    apply (clarsimp simp: pol simple_Ok set_local_used_cert_chain_slot_id_def)
    apply (rule that)
    apply (assumption | simp add: pol c1 | blast)+
    done
qed

lemma kex_rsp_split:
  assumes "\<not> in_clear_text ni"
  obtains front where "\<And>sig mac. kex_rsp_image ni summary (P\<lparr>kr_signature := sig, kr_verify_data := mac\<rparr>) =
    front @ as_ref sig @ as_ref mac"
  using assms by (intro that [of "[kr_heartbeat_period P, 0] @ le_bytes 2 (kr_rsp_session_id P) @
    [kr_mut_auth_req P, kr_req_slot_id P] @ kr_random P @ as_ref (kr_exchange P) @
    (if summary then as_ref (kr_measurement_summary_hash P) else []) @
    le_bytes 2 (data_size (kr_opaque P)) @ as_ref (kr_opaque P)"]) (simp add: kex_rsp_image_def)

lemma settle_Ok:
  assumes "get_session_via_id c sid = Some s"
    "on_session_unwrapped sid (set_session_state st \<circ> settle_session ro period) w c = (Ok u, w', c')"
  shows "w' = w \<and> (\<exists>ss. c' = c\<lparr>session := ss\<rparr>) \<and> (\<exists>s'. get_session_via_id c' sid = Some s' \<and> keys_agree s s' \<and>
    mut_auth_requested s' = mut_auth_requested s \<and> session_state s' = st \<and> log_of fed s' = log_of fed s \<and>
    digest_context_th (s_runtime_info s') = digest_context_th (s_runtime_info s))"
proof -
  let ?s = "(set_session_state st \<circ> settle_session ro period) s"
  have c': "w' = w" "c' = upd_session_via_id sid (set_session_state st \<circ> settle_session ro period) c"
    using assms(2) by (auto simp: session_steps_Ok)
  have "session_id ?s = sid" using st.get_key [OF assms(1)]
    by (simp add: set_session_state_def settle_session_def Let_def)
  with assms(1) c' have "get_session_via_id c' sid = Some ?s" by (simp add: st.get_upd_same)
  moreover have "keys_agree s ?s" "mut_auth_requested ?s = mut_auth_requested s" "session_state ?s = st"
      "log_of fed ?s = log_of fed s" "digest_context_th (s_runtime_info ?s) = digest_context_th (s_runtime_info s)"
    by (auto simp: set_session_state_def settle_session_def Let_def keys_agree_def log_of_def th_prefix_def
        split: option.splits)
  ultimately show ?thesis using c' by (auto simp: upd_session_via_id_def)
qed

text \<open>
  The answer to a session just opened. The response is the encoding of a payload whose signature is over the
  transcript up to the signature and whose verify data is the HMAC of the transcript up to itself.
\<close>

definition env_law :: "env \<Rightarrow> bool" where
  "env_law en \<longleftrightarrow> (\<forall>n bs. get_random en n = Ok bs \<longrightarrow> length bs = n) \<and>
    (\<forall>a e f. generate_key_pair en a = Some (e, f) \<longrightarrow>
      SpdmDheAlgo_get_size a = Ok (data_size e) \<and> sized_ok SPDM_MAX_DHE_KEY_SIZE e) \<and>
    (\<forall>v a m mh t d. generate_measurement_summary_hash en v a m mh t = Some d \<longrightarrow> sized_ok SPDM_MAX_HASH_SIZE d)"

definition of_size :: "nat \<Rightarrow> u16 SpdmResult \<Rightarrow> sized_data \<Rightarrow> bool" where
  "of_size cap sz d \<longleftrightarrow> sz = Ok (of_nat (length (as_ref d))) \<and> length (as_ref d) \<le> cap"

definition kex_rsp_sized :: "SpdmNegotiateInfo \<Rightarrow> bool \<Rightarrow> SpdmKeyExchangeResponsePayload \<Rightarrow> bool" where
  "kex_rsp_sized ni summary P \<longleftrightarrow> kr_mut_auth_req P = 0 \<and> length (kr_random P) = SPDM_RANDOM_SIZE \<and>
    of_size SPDM_MAX_DHE_KEY_SIZE (get_dhe_key_size ni) (kr_exchange P) \<and>
    (summary \<longrightarrow> of_size SPDM_MAX_HASH_SIZE (get_hash_size ni) (kr_measurement_summary_hash P)) \<and>
    of_size MAX_SPDM_OPAQUE_SIZE (Ok (data_size (kr_opaque P))) (kr_opaque P) \<and>
    of_size SPDM_MAX_ASYM_KEY_SIZE (get_asym_key_size ni) (kr_signature P) \<and>
    of_size SPDM_MAX_HASH_SIZE (get_hash_size ni) (kr_verify_data P)"

lemma of_size_sized: "sized_ok cap d \<Longrightarrow> cap \<le> 0xFFFF \<Longrightarrow> sz = Ok (data_size d) \<Longrightarrow> of_size cap sz d"
  by (auto simp: of_size_def sized_ok_def as_ref_def min_absorb2)

lemma of_size_length:
  "sz = Ok n \<Longrightarrow> length (as_ref d) = unat n \<Longrightarrow> unat n \<le> cap \<Longrightarrow> of_size cap sz d"
  by (simp add: of_size_def)

lemma kex_rsp_sizedI:
  assumes en: "env_law en" and sz: "get_asym_key_size ni = Ok asz" "get_hash_size ni = Ok hsz"
    and P: "kr_mut_auth_req P = 0" "get_random en SPDM_RANDOM_SIZE = Ok (kr_random P)"
      "generate_key_pair en (dhe_sel ni) = Some (kr_exchange P, final)" "sized_ok MAX_SPDM_OPAQUE_SIZE (kr_opaque P)"
      "length (as_ref (kr_signature P)) = unat asz" "length (as_ref (kr_verify_data P)) = unat hsz"
    and sh: "summary \<longrightarrow> (\<exists>v a m mh t. generate_measurement_summary_hash en v a m mh t = Some (kr_measurement_summary_hash P))"
      "summary \<longrightarrow> get_hash_size ni = Ok (data_size (kr_measurement_summary_hash P))"
  shows "kex_rsp_sized ni summary P"
proof -
  have e: "get_dhe_key_size ni = Ok (data_size (kr_exchange P))" "sized_ok SPDM_MAX_DHE_KEY_SIZE (kr_exchange P)"
    using en P(3) unfolding env_law_def get_dhe_key_size_def by blast+
  have h: "summary \<longrightarrow> sized_ok SPDM_MAX_HASH_SIZE (kr_measurement_summary_hash P)"
    using en sh(1) unfolding env_law_def by blast
  have "length (kr_random P) = SPDM_RANDOM_SIZE" using en P(2) unfolding env_law_def by blast
  moreover have "summary \<longrightarrow> of_size SPDM_MAX_HASH_SIZE (get_hash_size ni) (kr_measurement_summary_hash P)"
    using of_size_sized [OF _ _ sh(2) [rule_format], where cap = SPDM_MAX_HASH_SIZE] h by simp
  moreover have "of_size SPDM_MAX_DHE_KEY_SIZE (get_dhe_key_size ni) (kr_exchange P)"
    by (rule of_size_sized [OF e(2) _ e(1)]) simp
  moreover have "of_size MAX_SPDM_OPAQUE_SIZE (Ok (data_size (kr_opaque P))) (kr_opaque P)"
    by (rule of_size_sized [OF P(4) _ refl]) simp
  ultimately show ?thesis unfolding kex_rsp_sized_def
    using of_size_length [OF sz(1) P(5) negotiated_sizes_bounded(1) [OF sz(1)]]
      of_size_length [OF sz(2) P(6) negotiated_sizes_bounded(2) [OF sz(2)]] P(1) by simp
qed

lemma kex_rsp_summary_size:
  assumes "SpdmKeyExchangeResponsePayload_spdm_encode ni True P w = (Ok n, w')"
  shows "get_hash_size ni = Ok (data_size (kr_measurement_summary_hash P))"
proof -
  have "\<exists>w1 k w2. SpdmDigestStruct_spdm_encode ni (kr_measurement_summary_hash P) w1 = (Ok k, w2)"
    using assms unfolding SpdmKeyExchangeResponsePayload_spdm_encode_def by (rule encs_Ok_each) simp
  then show ?thesis
    by (auto simp: SpdmDigestStruct_spdm_encode_def asserted_encode_def panic_enc_def split: if_splits)
qed

lemma key_exchange_answered:
  assumes law: "hash_ctx_law cr fed" and s1: "get_session_via_id c sid = Some s1" "log_of fed s1 = (a, l)"
    and ni: "ni = negotiate_info c" "\<not> in_clear_text ni" "get_asym_key_size ni = Ok asz" "get_hash_size ni = Ok hsz"
    and P: "kr_signature P = \<lparr>data_size = asz, data = replicate SPDM_MAX_ASYM_KEY_SIZE 0xBB\<rparr>"
      "kr_verify_data P = \<lparr>data_size = hsz, data = replicate SPDM_MAX_HASH_SIZE 0xCC\<rparr>"
    and rs: "respond SPDM_STATUS_INVALID_STATE_LOCAL SpdmResponseKeyExchangeRsp payload send_writer c = (Ok (), w5, c5)"
      "payload c = SpdmKeyExchangeResponsePayload_spdm_encode ni summary P"
    and fin: "finish_key_exchange cr en request sid slot (unat asz) (unat hsz) w5 c5 = (Ok (), w6, c6)"
    and se: "on_session_unwrapped sid (set_session_state SpdmSessionHandshaking \<circ> settle_session ro period) w6 c6 =
      (Ok (), w, c')"
  shows "\<exists>sig mac m h th1 s1' s2 s'. (\<exists>ss. c' = c\<lparr>session := ss\<rparr>) \<and>
      writer_used_slice w = [SpdmVersion_get_u8 (spdm_version_sel ni), 0x64] @
        kex_rsp_image ni summary (P\<lparr>kr_signature := sig, kr_verify_data := mac\<rparr>) \<and>
      writer_used_slice w = m @ as_ref sig @ as_ref mac \<and>
      hash_all cr a (l @ request @ m) = Some h \<and>
      sign_hash en ni SPDM_VERSION_1_2_SIGNING_CONTEXT_ZEROPAD_2 SPDM_KEY_EXCHANGE_RESPONSE_SIGN_CONTEXT h = Ok sig \<and>
      hash_all cr a (l @ request @ m @ as_ref sig) = Some th1 \<and> same_session s1 s1' \<and>
      generate_handshake_secret cr (spdm_version_sel ni) th1 s1' = (Ok (), s2) \<and>
      generate_hmac_with_response_finished_key cr (as_ref th1) s2 = Ok mac \<and>
      length (as_ref sig) = unat asz \<and> length (as_ref mac) = unat hsz \<and>
      (summary \<longrightarrow> get_hash_size ni = Ok (data_size (kr_measurement_summary_hash P))) \<and>
      get_session_via_id c' sid = Some s' \<and> keys_agree s2 s' \<and> mut_auth_requested s' = mut_auth_requested s1 \<and>
      session_state s' = SpdmSessionHandshaking \<and> log_of fed s' = (a, l @ request @ writer_used_slice w) \<and>
      digest_context_th (s_runtime_info s') \<noteq> None"
proof -
  let ?hd = "[SpdmVersion_get_u8 (spdm_version_sel ni), SpdmRequestResponseCode_get_u8 SpdmResponseKeyExchangeRsp]"
  obtain front where fr: "\<And>sig mac. kex_rsp_image ni summary (P\<lparr>kr_signature := sig, kr_verify_data := mac\<rparr>) =
      front @ as_ref sig @ as_ref mac"
    using kex_rsp_split [OF ni(2)] by blast
  have len: "length (as_ref (kr_signature P)) = unat asz" "length (as_ref (kr_verify_data P)) = unat hsz"
    using negotiated_sizes_bounded(1) [OF ni(3)] negotiated_sizes_bounded(2) [OF ni(4)] by (simp_all add: P as_ref_def)
  have img: "kex_rsp_image ni summary P = front @ as_ref (kr_signature P) @ as_ref (kr_verify_data P)"
    using fr [of "kr_verify_data P" "kr_signature P"] by simp
  from respond_writes [OF rs(1), of "kex_rsp_image ni summary P"] rs(2) ni(1) obtain room where c5: "c5 = c"
    "w5 = wr_at (?hd @ kex_rsp_image ni summary P) room" by (auto simp: writes_kex_rsp)
  have sec: "False = in_clear_text (negotiate_info c)" using ni by simp
  have m: "?hd @ front = take (length (?hd @ kex_rsp_image ni summary P) -
      (if False then unat asz else unat hsz + unat asz)) (?hd @ kex_rsp_image ni summary P)"
    by (simp add: img len)
  from finish_key_exchange_Ok [OF law session_log_start [OF s1] fin [unfolded c5] sec m]
  obtain h sig th1 s1' s2 s' mac ss where
    1: "hash_all cr a (l @ request @ ?hd @ front) = Some h"
    "sign_hash en ni SPDM_VERSION_1_2_SIGNING_CONTEXT_ZEROPAD_2 SPDM_KEY_EXCHANGE_RESPONSE_SIGN_CONTEXT h = Ok sig"
    "hash_all cr a (l @ request @ (?hd @ front) @ as_ref sig) = Some th1" and
    2: "same_session s1 s1'" "generate_handshake_secret cr (spdm_version_sel ni) th1 s1' = (Ok (), s2)"
    "generate_hmac_with_response_finished_key cr (as_ref th1) s2 = Ok mac" and
    3: "same_session s2 s'" "get_session_via_id c6 sid = Some s'" "c6 = c\<lparr>session := ss\<rparr>"
    "w6 = wr_at ((?hd @ front) @ as_ref sig @ as_ref mac) room"
    "log_of fed s' = (a, l @ request @ (?hd @ front) @ as_ref sig @ as_ref mac)"
    "digest_context_th (s_runtime_info s') \<noteq> None" and
    len': "length (as_ref sig) = unat asz" "length (as_ref mac) = unat hsz"
    unfolding if_False ni(1) [symmetric] by blast
  have "mut_auth_requested s2 = mut_auth_requested s1'"
    using frame_secrets(2) [of s1' cr "spdm_version_sel ni" th1] 2(2) by (simp add: frame_def)
  with 2(1) 3(1) have ma: "mut_auth_requested s' = mut_auth_requested s1" by (simp add: same_session_fields)
  from settle_Ok [OF 3(2) se, of fed] obtain ss' s'' where
    4: "w = w6" "c' = c6\<lparr>session := ss'\<rparr>" "get_session_via_id c' sid = Some s''" "keys_agree s' s''"
    "mut_auth_requested s'' = mut_auth_requested s'" "session_state s'' = SpdmSessionHandshaking"
    "log_of fed s'' = log_of fed s'" "digest_context_th (s_runtime_info s'') \<noteq> None" using 3(6) by auto
  have w: "writer_used_slice w = (?hd @ front) @ as_ref sig @ as_ref mac" using 4(1) 3(4) by simp
  have "keys_agree s2 s''" using keys_agree_trans [OF same_session_agree [OF 3(1)] 4(4)] .
  moreover have "c' = c\<lparr>session := ss'\<rparr>" using 3(3) 4(2) by simp
  moreover have "writer_used_slice w = [SpdmVersion_get_u8 (spdm_version_sel ni), 0x64] @
      kex_rsp_image ni summary (P\<lparr>kr_signature := sig, kr_verify_data := mac\<rparr>)" by (simp add: w fr)
  moreover have "mut_auth_requested s'' = mut_auth_requested s1" using ma 4(5) by simp
  moreover have "log_of fed s'' = (a, l @ request @ writer_used_slice w)" by (simp only: 4(7) 3(5) w)
  moreover have "summary \<longrightarrow> get_hash_size ni = Ok (data_size (kr_measurement_summary_hash P))"
    using respond_encoded [OF rs(1)] kex_rsp_summary_size rs(2) by (metis (full_types))
  ultimately show ?thesis using 1 2 4(3,6,8) w len' by blast
qed

lemma key_exchange_completed:
  assumes law: "hash_ctx_law (p_crypto p) fed" and inv: "half_ids_inv False c" and en: "env_law en"
    and f: "write_spdm_key_exchange_response p en bs send_writer c = (Ok u, w, c')"
    and sec: "\<not> in_clear_text (negotiate_info c)"
    and defs: "cr = p_crypto p" "ni = negotiate_info c'" "response = writer_used_slice w"
  shows "\<exists>q r final key chain P m h th1 s0 s1 s1' s2 s'.
    SpdmKeyExchangeRequestPayload_spdm_read (negotiate_info c) (rd_at (take 2 bs) (drop 2 bs)) = Ok (q, r) \<and>
    generate_key_pair en (dhe_sel ni) = Some (kr_exchange P, final) \<and> final (kq_exchange q) = Some key \<and>
    get_certchain_hash_local cr c' False (unat (kq_slot_id q)) = Ok (Some chain) \<and>
    ni = (negotiate_info c)\<lparr>termination_policy_set := (kq_session_policy q AND 1 = 1)\<rparr> \<and>
    message_a (runtime_info c') = message_a (runtime_info c) \<and> provision_info c' = provision_info c \<and>
    need_measurement_summary_hash (runtime_info c') = needs_summary (kq_measurement_summary_hash_type q) \<and>
    kex_rsp_sized ni (need_measurement_summary_hash (runtime_info c')) P \<and>
    (let sid = session_id_of (kr_rsp_session_id P) (kq_req_session_id q);
         pre = mb_as_ref (message_a (runtime_info c')) @ as_ref chain @ take (reader_used r) bs in
      get_session_via_id c sid = None \<and> sid \<noteq> 0 \<and>
      response = [SpdmVersion_get_u8 (spdm_version_sel ni), 0x64] @
        kex_rsp_image ni (need_measurement_summary_hash (runtime_info c')) P \<and>
      response = m @ as_ref (kr_signature P) @ as_ref (kr_verify_data P) \<and>
      hash_all cr (base_hash_sel ni) (pre @ m) = Some h \<and>
      sign_hash en ni SPDM_VERSION_1_2_SIGNING_CONTEXT_ZEROPAD_2 SPDM_KEY_EXCHANGE_RESPONSE_SIGN_CONTEXT h =
        Ok (kr_signature P) \<and>
      hash_all cr (base_hash_sel ni) (pre @ m @ as_ref (kr_signature P)) = Some th1 \<and>
      setup_dhe_session cr (p_transport p) ni (message_a (runtime_info c')) chain (kq_slot_id q) key sid s0 =
        (Ok (), s1) \<and> same_session s1 s1' \<and>
      generate_handshake_secret cr (spdm_version_sel ni) th1 s1' = (Ok (), s2) \<and>
      generate_hmac_with_response_finished_key cr (as_ref th1) s2 = Ok (kr_verify_data P) \<and>
      get_session_via_id c' sid = Some s' \<and> keys_agree s2 s' \<and> \<not> use_psk s' \<and> mut_auth_requested s' = 0 \<and>
      session_state s' = SpdmSessionHandshaking \<and> log_of fed s' = (base_hash_sel ni, pre @ response) \<and>
      digest_context_th (s_runtime_info s') \<noteq> None)"
proof -
  obtain r q r' sh ro c3 ex rsp c4 random asz hsz w5 c5 w6 c6 where
    h: "SpdmMessageHeader_read (reader_init bs) = Some r" and
    q: "SpdmKeyExchangeRequestPayload_spdm_read (negotiate_info c) (snd r) = Ok (q, r')" and
    o: "open_dhe_session p en q send_writer c3 = (Ok (ex, rsp), send_writer, c4)" and
    c3: "session c3 = session c" "\<not> in_clear_text (negotiate_info c3)" and
    sz: "get_asym_key_size (negotiate_info c4) = Ok asz" "get_hash_size (negotiate_info c4) = Ok hsz" and
    rd: "get_random en SPDM_RANDOM_SIZE = Ok random" "sized_ok MAX_SPDM_OPAQUE_SIZE ro" and
    fr: "negotiate_info c3 = (negotiate_info c)\<lparr>termination_policy_set := (kq_session_policy q AND 1 = 1)\<rparr>"
      "message_a (runtime_info c3) = message_a (runtime_info c)" "provision_info c3 = provision_info c"
      "need_measurement_summary_hash (runtime_info c3) = needs_summary (kq_measurement_summary_hash_type q)" and
    sh: "needs_summary (kq_measurement_summary_hash_type q) \<longrightarrow>
      (\<exists>v a m mh t. generate_measurement_summary_hash en v a m mh t = Some sh)" and
    rs: "respond SPDM_STATUS_INVALID_STATE_LOCAL SpdmResponseKeyExchangeRsp (\<lambda>c.
        SpdmKeyExchangeResponsePayload_spdm_encode (negotiate_info c)
          (need_measurement_summary_hash (runtime_info c))
          \<lparr>kr_heartbeat_period = c_heartbeat_period (config_info c), kr_rsp_session_id = rsp,
           kr_mut_auth_req = 0, kr_req_slot_id = 0, kr_random = random, kr_exchange = ex,
           kr_measurement_summary_hash = sh, kr_opaque = ro,
           kr_signature = \<lparr>data_size = asz, data = replicate SPDM_MAX_ASYM_KEY_SIZE 0xBB\<rparr>,
           kr_verify_data = \<lparr>data_size = hsz, data = replicate SPDM_MAX_HASH_SIZE 0xCC\<rparr>\<rparr>) send_writer c4 =
      (Ok (), w5, c5)" and
    fin: "finish_key_exchange (p_crypto p) en (take (reader_used r') bs) (session_id_of rsp (kq_req_session_id q))
      (kq_slot_id q) (unat asz) (unat hsz) w5 c5 = (Ok (), w6, c6)" and
    se: "on_session_unwrapped (session_id_of rsp (kq_req_session_id q)) (set_session_state SpdmSessionHandshaking \<circ>
      settle_session ro (c_heartbeat_period (config_info c4))) w6 c6 = (Ok (), w, c')"
    by (rule key_exchange_stages [OF f sec])
  let ?sid = "session_id_of rsp (kq_req_session_id q)"
  have rd': "snd r = rd_at (take 2 bs) (drop 2 bs)"
    using h header_rd_at [of bs "fst r" "snd r"] by (force simp: numeral_2_eq_2)
  have "half_ids_inv False c3" using inv c3(1) by (simp add: half_ids_inv_def)
  from open_dhe_Ok [OF this o] obtain ss4 final key chain s0 s1 where
    c4: "c4 = c3\<lparr>session := ss4\<rparr>" "get_session_via_id c3 ?sid = None" "?sid \<noteq> 0" and
    k: "generate_key_pair en (dhe_sel (negotiate_info c3)) = Some (ex, final)" "final (kq_exchange q) = Some key"
    "get_certchain_hash_local (p_crypto p) c3 False (unat (kq_slot_id q)) = Ok (Some chain)" and
    s1: "setup_dhe_session (p_crypto p) (p_transport p) (negotiate_info c3) (message_a (runtime_info c3)) chain
      (kq_slot_id q) key ?sid s0 = (Ok (), s1)" "get_session_via_id c4 ?sid = Some s1"
    by blast
  have ni: "negotiate_info c4 = negotiate_info c3" "runtime_info c4 = runtime_info c3" using c4(1) by simp_all
  note d = setup_dhe_Ok [OF s1(1)]
  let ?P = "\<lparr>kr_heartbeat_period = c_heartbeat_period (config_info c4), kr_rsp_session_id = rsp,
           kr_mut_auth_req = 0, kr_req_slot_id = 0, kr_random = random, kr_exchange = ex,
           kr_measurement_summary_hash = sh, kr_opaque = ro,
           kr_signature = \<lparr>data_size = asz, data = replicate SPDM_MAX_ASYM_KEY_SIZE 0xBB\<rparr>,
           kr_verify_data = \<lparr>data_size = hsz, data = replicate SPDM_MAX_HASH_SIZE 0xCC\<rparr>\<rparr>"
  have pl: "kr_signature ?P = \<lparr>data_size = asz, data = replicate SPDM_MAX_ASYM_KEY_SIZE 0xBB\<rparr>"
      "kr_verify_data ?P = \<lparr>data_size = hsz, data = replicate SPDM_MAX_HASH_SIZE 0xCC\<rparr>"
    and sec4: "\<not> in_clear_text (negotiate_info c4)" using c3(2) ni(1) by simp_all
  from key_exchange_answered [OF law s1(2) d(6) refl sec4 sz pl rs refl fin se]
  obtain ss sig mac m h th1 s1' s2 s' where
    1: "c' = c4\<lparr>session := ss\<rparr>" and
    2: "writer_used_slice w = [SpdmVersion_get_u8 (spdm_version_sel (negotiate_info c4)), 0x64] @
        kex_rsp_image (negotiate_info c4) (need_measurement_summary_hash (runtime_info c4))
          (?P\<lparr>kr_signature := sig, kr_verify_data := mac\<rparr>)"
    "writer_used_slice w = m @ as_ref sig @ as_ref mac" and
    3: "hash_all (p_crypto p) (base_hash_sel (negotiate_info c3))
        ((mb_as_ref (message_a (runtime_info c3)) @ as_ref chain) @ take (reader_used r') bs @ m) = Some h"
      "sign_hash en (negotiate_info c4) SPDM_VERSION_1_2_SIGNING_CONTEXT_ZEROPAD_2
        SPDM_KEY_EXCHANGE_RESPONSE_SIGN_CONTEXT h = Ok sig"
      "hash_all (p_crypto p) (base_hash_sel (negotiate_info c3))
        ((mb_as_ref (message_a (runtime_info c3)) @ as_ref chain) @ take (reader_used r') bs @ m @ as_ref sig) = Some th1" and
    4: "same_session s1 s1'" "generate_handshake_secret (p_crypto p) (spdm_version_sel (negotiate_info c4)) th1 s1' = (Ok (), s2)"
      "generate_hmac_with_response_finished_key (p_crypto p) (as_ref th1) s2 = Ok mac" and
    len: "length (as_ref sig) = unat asz" "length (as_ref mac) = unat hsz"
      "need_measurement_summary_hash (runtime_info c4) \<longrightarrow> get_hash_size (negotiate_info c4) = Ok (data_size sh)" and
    5: "get_session_via_id c' ?sid = Some s'" "keys_agree s2 s'" "mut_auth_requested s' = mut_auth_requested s1"
      "session_state s' = SpdmSessionHandshaking" "log_of fed s' = (base_hash_sel (negotiate_info c3),
        (mb_as_ref (message_a (runtime_info c3)) @ as_ref chain) @ take (reader_used r') bs @ writer_used_slice w)"
      "digest_context_th (s_runtime_info s') \<noteq> None"
    by (elim exE conjE) (rule that, (assumption | simp)+)
  have c': "negotiate_info c' = negotiate_info c3" "runtime_info c' = runtime_info c3"
    "get_certchain_hash_local (p_crypto p) c' = get_certchain_hash_local (p_crypto p) c3"
    "provision_info c' = provision_info c3"
    by (simp_all add: 1 c4(1) get_certchain_hash_local_def fun_eq_iff)
  have sized: "kex_rsp_sized (negotiate_info c3) (need_measurement_summary_hash (runtime_info c3))
      (?P\<lparr>kr_signature := sig, kr_verify_data := mac\<rparr>)"
    by (rule kex_rsp_sizedI [OF en sz [unfolded ni]], unfold SpdmKeyExchangeResponsePayload.simps fr(4))
      (use rd k(1) len sh in \<open>simp_all add: ni fr(4)\<close>)
  have "use_psk s2 = use_psk s1'" using frame_secrets(2) [of s1' "p_crypto p" "spdm_version_sel (negotiate_info c4)" th1] 4(2)
    by (simp add: frame_def)
  then have psk: "\<not> use_psk s'" using 5(2) 4(1) d(2) by (simp add: keys_agree_def same_session_fields)
  have none: "get_session_via_id c ?sid = None" using c4(2) c3(1) by (simp add: get_session_via_id_def)
  have ma: "mut_auth_requested s' = 0" using 5(3) d(3) by simp
  have P: "kr_exchange (?P\<lparr>kr_signature := sig, kr_verify_data := mac\<rparr>) = ex"
    "kr_rsp_session_id (?P\<lparr>kr_signature := sig, kr_verify_data := mac\<rparr>) = rsp"
    "kr_signature (?P\<lparr>kr_signature := sig, kr_verify_data := mac\<rparr>) = sig"
    "kr_verify_data (?P\<lparr>kr_signature := sig, kr_verify_data := mac\<rparr>) = mac" by simp_all
  show ?thesis
    unfolding defs c' Let_def
    by (rule exI [of _ q], rule exI [of _ r'], rule exI [of _ final], rule exI [of _ key], rule exI [of _ chain],
        rule exI [of _ "?P\<lparr>kr_signature := sig, kr_verify_data := mac\<rparr>"], rule exI [of _ m], rule exI [of _ h],
        rule exI [of _ th1], rule exI [of _ s0], rule exI [of _ s1], rule exI [of _ s1'], rule exI [of _ s2],
        rule exI [of _ s'], unfold P, intro conjI)
      (fact | use 2 3 4 5 q rd' ni in \<open>simp only: append_assoc\<close>)+
qed

end
