(* ===== verification/Requester_Handshake.thy ===== *)
theory Requester_Handshake
  imports Requester_Session Responder_Handshake
begin

text \<open>
  What a requester knows after a completed handshake. The lemmas follow the transcript through
  \<open>handle_spdm_key_exhcange_response\<close>, \<open>send_receive_spdm_finish\<close> and their PSK counterparts: which messages
  were hashed, over which hash the responder's signature and HMAC were verified, and from which hash the keys
  were derived.
\<close>

section \<open>Successful runs\<close>

named_theorems rq_Ok

lemma rq_bind_Ok [rq_Ok]:
  "rq_bind m k st = (Ok x, st') \<longleftrightarrow> (\<exists>y st1. m st = (Ok y, st1) \<and> k y st1 = (Ok x, st'))"
  by (auto simp: rq_bind_def split: prod.splits result.splits)

lemma rq_simple_Ok [rq_Ok]:
  "rq_ret r st = (Ok x, st') \<longleftrightarrow> r = Ok x \<and> st' = st"
  "rq_get k st = k (rq_common st) st"
  "rq_on f st = (Ok x, st') \<longleftrightarrow> (\<exists>c. f (rq_common st) = (Ok x, c) \<and> st' = st\<lparr>rq_common := c\<rparr>)"
  by (auto simp: rq_ret_def rq_get_def rq_on_def split: prod.splits)

lemma rq_session_Ok [rq_Ok]:
  "rq_session sid k st = (Ok x, st') \<longleftrightarrow>
    (\<exists>s. get_session_via_id (rq_common st) sid = Some s \<and> k s st = (Ok x, st'))"
  by (auto simp: rq_session_def rq_Ok split: option.splits)

lemma error_response_not_Ok [rq_Ok]:
  "spdm_handle_simple_error_response sid code st \<noteq> (Ok x, st')"
  "spdm_handle_error_response_main sid bs st \<noteq> (Ok x, st')"
proof -
  show s: "spdm_handle_simple_error_response sid code st \<noteq> (Ok x, st')" for code
    by (auto simp: spdm_handle_simple_error_response_def rq_Ok on_session_def split: option.splits if_splits)
  show "spdm_handle_error_response_main sid bs st \<noteq> (Ok x, st')"
    using s by (auto simp: spdm_handle_error_response_main_def rq_Ok on_session_def
        split: option.splits if_splits prod.splits result.splits)
qed

lemma on_response_Ok [rq_Ok]:
  "on_response checks expected sid bs k st = (Ok x, st') \<longleftrightarrow>
    (\<exists>h r. SpdmMessageHeader_read (reader_init bs) = Some (h, r) \<and>
      (checks \<longrightarrow> version h = spdm_version_sel (negotiate_info (rq_common st))) \<and>
      request_response_code h = expected \<and> k r st = (Ok x, st'))"
  by (auto simp: on_response_def rq_Ok split: option.splits if_splits)

lemma or_teardown_Ok [rq_Ok]:
  "or_teardown sid e m st = (Ok x, st') \<longleftrightarrow> m st = (Ok x, st')"
  "teardown_on_err sid m st = (Ok x, st') \<longleftrightarrow> m st = (Ok x, st')"
  "finally_teardown sid m' st = (Ok u, st') \<longleftrightarrow> m' st = (Ok u, st')"
  by (auto simp: or_teardown_def teardown_on_err_def finally_teardown_def rq_Ok
      split: prod.splits result.splits option.splits)

section \<open>Transcript steps\<close>

lemma rq_append_k_Ok:
  assumes "hash_ctx_law cr fed" "session_log fed sid s a l (rq_common st)"
    "rq_on (append_message_k cr sid bs) st = (Ok u, st')"
  shows "session_log fed sid s a (l @ bs) (rq_common st') \<and> (\<exists>ss. st' = st\<lparr>rq_common := (rq_common st)\<lparr>session := ss\<rparr>\<rparr>)"
  using session_log_k [OF assms(1,2)] assms(3) by (auto simp: rq_Ok)

lemma rq_append_f_Ok:
  assumes "hash_ctx_law cr fed" "session_log fed sid s a l (rq_common st)" "use_psk s \<or> mut_auth_requested s = 0"
    "rq_on (append_message_f cr r sid bs) st = (Ok u, st')"
  shows "session_log fed sid s a (l @ bs) (rq_common st') \<and> (\<exists>ss. st' = st\<lparr>rq_common := (rq_common st)\<lparr>session := ss\<rparr>\<rparr>)"
  using session_log_f [OF assms(1,2,3)] assms(4) by (fastforce simp: rq_Ok)

lemma rq_transcript_hash_Ok:
  assumes "hash_ctx_law cr fed" "session_log fed sid s a l (rq_common st)"
    "rq_transcript_hash cr psk slot ma sid st = (Ok th, st')"
  shows "st' = st \<and> hash_all cr a l = Some th"
  using session_log_hash [OF assms(1,2)] assms(3)
  by (auto simp: rq_Ok rq_transcript_hash_def calc_req_transcript_hash_def)

lemma rq_secret_Ok:
  assumes "session_log fed sid s a l (rq_common st)" "rq_on (on_session sid none f) st = (Ok u, st')"
    "\<And>s. frame s (snd (f s))"
  shows "\<exists>s1 s2 ss. same_session s s1 \<and> f s1 = (Ok u, s2) \<and> get_session_via_id (rq_common st') sid = Some s2 \<and>
    session_log fed sid s2 a l (rq_common st') \<and> st' = st\<lparr>rq_common := (rq_common st)\<lparr>session := ss\<rparr>\<rparr>"
proof -
  from assms(2) obtain c' where c': "on_session sid none f (rq_common st) = (Ok u, c')" "st' = st\<lparr>rq_common := c'\<rparr>"
    by (auto simp: rq_Ok)
  have st': "rq_common st' = c'" by (simp add: c'(2))
  obtain s1 s2 ss where "same_session s s1" "f s1 = (Ok u, s2)" "get_session_via_id c' sid = Some s2"
    "session_log fed sid s2 a l c'" "c' = (rq_common st)\<lparr>session := ss\<rparr>"
    by (rule session_log_step [OF assms(1) c'(1) assms(3)])
  with c'(2) show ?thesis unfolding st' by blast
qed

lemma verify_peer_signature_sessions:
  "verify_peer_signature cr slot z sc h sig (c\<lparr>session := ss\<rparr>) = verify_peer_signature cr slot z sc h sig c"
  by (simp add: verify_peer_signature_def peer_certs_def)

lemma slice_but_Ok: "slice_but used n bs = Ok m \<longleftrightarrow> n \<le> used \<and> used - n \<le> length bs \<and> m = take (used - n) bs"
  by (auto simp: slice_but_def slice_to_def)

section \<open>KEY_EXCHANGE\<close>

text \<open>
  The checks on a response to which a session was opened: the signature over the transcript up to it, then the
  HMAC over the transcript up to it, with the keys derived from that transcript.
\<close>

lemma verify_key_exchange_Ok:
  assumes law: "hash_ctx_law cr fed" and l: "session_log fed sid s a l (rq_common st)"
    and ni: "ni = negotiate_info (rq_common st)" "\<not> in_clear_text ni" "get_asym_key_size ni = Ok asz" "get_hash_size ni = Ok hsz"
    and v: "verify_key_exchange cr sid slot request response used q st = (Ok u, st')"
    and m: "m = take (used - (unat asz + unat hsz)) response"
  shows "\<exists>h th1 s1 s2 s' ss. unat asz + unat hsz \<le> used \<and> hash_all cr a (l @ request @ m) = Some h \<and>
    verify_peer_signature cr (unat slot) SPDM_VERSION_1_2_SIGNING_CONTEXT_ZEROPAD_2
      SPDM_KEY_EXCHANGE_RESPONSE_SIGN_CONTEXT h (kr_signature q) (rq_common st) = Ok () \<and>
    hash_all cr a (l @ request @ m @ as_ref (kr_signature q)) = Some th1 \<and> same_session s s1 \<and>
    generate_handshake_secret cr (spdm_version_sel ni) th1 s1 = (Ok (), s2) \<and>
    verify_hmac_with_response_finished_key cr (as_ref th1) (kr_verify_data q) s2 = Ok () \<and>
    get_session_via_id (rq_common st') sid = Some s' \<and> same_session s2 s' \<and>
    log_of fed s' = (a, l @ request @ m @ as_ref (kr_signature q) @ as_ref (kr_verify_data q)) \<and>
    digest_context_th (s_runtime_info s') \<noteq> None \<and> st' = st\<lparr>rq_common := (rq_common st)\<lparr>session := ss\<rparr>\<rparr>"
proof -
  from v obtain st1 st2 s0 st3 th1 st4 st5 th st6 s6 where
    k1: "rq_on (append_message_k cr sid request) st = (Ok (), st1)" and n: "unat asz + unat hsz \<le> used" and
    k2: "rq_on (append_message_k cr sid m) st1 = (Ok (), st2)" and
    s0: "get_session_via_id (rq_common st2) sid = Some s0"
      "verify_key_exchange_rsp_signature cr slot (kr_signature q) s0 (rq_common st2) = Ok ()" and
    k3: "rq_on (append_message_k cr sid (as_ref (kr_signature q))) st2 = (Ok (), st3)" and
    t1: "rq_transcript_hash cr False slot False sid st3 = (Ok th1, st4)" and
    hs: "rq_on (on_session sid Panic (generate_handshake_secret cr (spdm_version_sel ni) th1)) st4 = (Ok (), st5)" and
    t2: "rq_transcript_hash cr False slot False sid st5 = (Ok th, st6)" and
    s6: "get_session_via_id (rq_common st6) sid = Some s6"
      "verify_hmac_with_response_finished_key cr (as_ref th) (kr_verify_data q) s6 = Ok ()" and
    k4: "rq_on (append_message_k cr sid (as_ref (kr_verify_data q))) st6 = (Ok u, st')"
    unfolding verify_key_exchange_def Let_def rq_simple_Ok(2) ni(1) [symmetric] rq_bind_Ok rq_simple_Ok(1)
      or_teardown_Ok rq_session_Ok
    using ni(2,3,4)
    by (simp add: rq_bind_Ok rq_simple_Ok(1) or_teardown_Ok rq_session_Ok slice_but_Ok m [symmetric])
      (elim exE conjE, rule that, (assumption | simp)+)
  from rq_append_k_Ok [OF law l k1] obtain ss1 where l1: "session_log fed sid s a (l @ request) (rq_common st1)"
    and st1: "st1 = st\<lparr>rq_common := (rq_common st)\<lparr>session := ss1\<rparr>\<rparr>" by blast
  from rq_append_k_Ok [OF law l1 k2] obtain ss2 where l2: "session_log fed sid s a (l @ request @ m) (rq_common st2)"
    and st2: "st2 = st\<lparr>rq_common := (rq_common st)\<lparr>session := ss2\<rparr>\<rparr>" using st1 by auto
  from s0 obtain h where h: "hash_all cr a (l @ request @ m) = Some h"
    "verify_peer_signature cr (unat slot) SPDM_VERSION_1_2_SIGNING_CONTEXT_ZEROPAD_2
      SPDM_KEY_EXCHANGE_RESPONSE_SIGN_CONTEXT h (kr_signature q) (rq_common st) = Ok ()"
    using session_log_hash [OF law l2 s0(1)] st2
    by (auto simp: verify_key_exchange_rsp_signature_def calc_req_transcript_hash_def verify_peer_signature_sessions)
  from rq_append_k_Ok [OF law l2 k3] obtain ss3 where
    l3: "session_log fed sid s a (l @ request @ m @ as_ref (kr_signature q)) (rq_common st3)"
    and st3: "st3 = st\<lparr>rq_common := (rq_common st)\<lparr>session := ss3\<rparr>\<rparr>" using st2 by auto
  from rq_transcript_hash_Ok [OF law l3 t1] have t1': "st4 = st3"
    "hash_all cr a (l @ request @ m @ as_ref (kr_signature q)) = Some th1" by simp_all
  from rq_secret_Ok [OF l3 hs [unfolded t1'(1)] frame_secrets(2)] st3 obtain s1 s2 ss5 where
    s: "same_session s s1" "generate_handshake_secret cr (spdm_version_sel ni) th1 s1 = (Ok (), s2)" and
    l5: "session_log fed sid s2 a (l @ request @ m @ as_ref (kr_signature q)) (rq_common st5)" and
    st5: "st5 = st\<lparr>rq_common := (rq_common st)\<lparr>session := ss5\<rparr>\<rparr>" by auto
  from rq_transcript_hash_Ok [OF law l5 t2] t1'(2) have t2': "st6 = st5" "th = th1" by simp_all
  have "same_session s2 s6" using l5 s6(1) t2'(1) by (auto simp: session_log_def)
  then have mac: "verify_hmac_with_response_finished_key cr (as_ref th1) (kr_verify_data q) s2 = Ok ()"
    using s6(2) t2'(2) hmac_agree(4) [OF same_session_agree] by metis
  from rq_append_k_Ok [OF law l5 k4 [unfolded t2'(1)]] obtain ss where
    l6: "session_log fed sid s2 a (l @ request @ m @ as_ref (kr_signature q) @ as_ref (kr_verify_data q)) (rq_common st')"
    and st': "st' = st\<lparr>rq_common := (rq_common st)\<lparr>session := ss\<rparr>\<rparr>" using st5 by auto
  from l6 obtain s' where "get_session_via_id (rq_common st') sid = Some s'" "same_session s2 s'"
    "log_of fed s' = (a, l @ request @ m @ as_ref (kr_signature q) @ as_ref (kr_verify_data q))"
    by (rule session_logE)
  moreover from this(1) have "digest_context_th (s_runtime_info s') \<noteq> None"
    using k4 append_k_started [OF law] by (auto simp: rq_Ok)
  ultimately show ?thesis using n h t1'(2) s mac st' by blast
qed

lemma half_session_id_of_req: "half_session_id True (session_id_of rsp req) = req"
proof -
  have "session_id_of rsp req = push_bit 16 (ucast rsp) OR ucast req"
    unfolding session_id_of_def by (rule disjunctive_add) (auto simp: bit_simps dest: bit_imp_le_length)
  moreover have m: "(0xFFFF :: u32) = mask 16" by (simp add: mask_eq_exp_minus_1)
  ultimately show ?thesis unfolding half_session_id_def Let_def m
    by (simp, intro bit_word_eqI) (auto simp: bit_simps simp del: take_bit_eq_mask dest: bit_imp_le_length)
qed

lemma req_setup_dhe_Ok:
  assumes "req_setup_dhe_session cr t ni msg_a chain_hash ma k sid s = (Ok u, s')"
  shows "session_id s' = sid" "\<not> use_psk s'" "mut_auth_requested s' = ma" "session_state s' = SpdmSessionNotStarted"
    "log_of fed s' = (base_hash_sel ni, mb_as_ref msg_a @ (case chain_hash of None \<Rightarrow> [] | Some h \<Rightarrow> as_ref h))"
proof -
  let ?s1 = "crypto_params ni t ((set_default s)\<lparr>session_id := sid, use_psk := False, mut_auth_requested := ma\<rparr>)"
  from assms obtain s2 where s2: "set_dhe_secret cr (spdm_version_sel ni) k ?s1 = (Ok (), s2)"
    "s' = s2\<lparr>s_runtime_info := (s_runtime_info s2)\<lparr>s_message_a := msg_a, rsp_cert_hash := chain_hash,
      req_cert_hash := None\<rparr>\<rparr>"
    by (auto simp: req_setup_dhe_session_def session_setup_def split: if_splits prod.splits result.splits)
  have "frame ?s1 s2" using frame_secrets(1) [of ?s1 cr "spdm_version_sel ni" k] s2(1) by simp
  then show "session_id s' = sid" "\<not> use_psk s'" "mut_auth_requested s' = ma"
    "session_state s' = SpdmSessionNotStarted"
    "log_of fed s' = (base_hash_sel ni, mb_as_ref msg_a @ (case chain_hash of None \<Rightarrow> [] | Some h \<Rightarrow> as_ref h))"
    by (simp_all add: s2(2) frame_def crypto_params_def set_default_def set_crypto_param_def set_transport_param_def
        log_of_def th_prefix_def SpdmSessionRuntimeInfo_default_def)
qed

lemma rq_open_Ok:
  assumes inv: "half_ids_inv True c" and rid: "get_next_half_session_id c True = Ok rid"
    and o: "on_session 0 Panic f c = (Ok u, c')" and f: "\<And>s s'. f s = (Ok u, s') \<Longrightarrow> session_id s' = session_id_of rsp rid"
  shows "\<exists>s0 s1 ss. f s0 = (Ok u, s1) \<and> c' = c\<lparr>session := ss\<rparr> \<and> get_session_via_id c (session_id_of rsp rid) = None \<and>
    session_id_of rsp rid \<noteq> 0 \<and> get_session_via_id c' (session_id_of rsp rid) = Some s1"
proof -
  let ?sid = "session_id_of rsp rid"
  from o obtain s0 s where s: "get_session_via_id c 0 = Some s0" "f s0 = (Ok u, s)"
    "c' = upd_session_via_id 0 (\<lambda>_. s) c"
    by (auto simp: on_session_def split: option.splits prod.splits)
  have half: "get_next_half_session_id c True = Ok (half_session_id True ?sid)"
    by (simp add: rid half_session_id_of_req)
  have new: "get_session_via_id c ?sid = None" "?sid \<noteq> 0"
    using half_ids_open(2,3) [OF inv half, of "\<lambda>s. s"] by auto
  have "get_session_via_id c' ?sid = Some s"
    using get_session_opened [OF new(1) s(1), of "\<lambda>_. s"] f [OF s(2)] s(3) by simp
  with s new show ?thesis by (auto simp: upd_session_via_id_def)
qed

text \<open>
  A requester that accepts a KEY_EXCHANGE_RSP has opened a session with a fresh identifier, has verified the
  responder's signature over message A, the certificate chain hash, its own request and the response up to the
  signature, and the HMAC with the finished key derived from that transcript.
\<close>

lemma key_exchange_accepted:
  assumes law: "hash_ctx_law (q_crypto p) fed" and inv: "half_ids_inv True (rq_common st)"
    and rid: "get_next_half_session_id (rq_common st) True = Ok rid"
    and k: "handle_spdm_key_exhcange_response p rid slot request response t final st = (Ok sid, st')"
    and sec: "\<not> in_clear_text (negotiate_info (rq_common st))"
    and defs: "cr = q_crypto p" "c = rq_common st" "ni = negotiate_info c"
  shows "\<exists>q r key chain asz hsz m h th1 s0 s1 s1' s2 s' ss.
    SpdmKeyExchangeResponsePayload_spdm_read ni (needs_summary t) (rd_at (take 2 response) (drop 2 response)) = Ok (q, r) \<and>
    sid = session_id_of (kr_rsp_session_id q) rid \<and> get_session_via_id c sid = None \<and> sid \<noteq> 0 \<and>
    final (kr_exchange q) = Some key \<and> get_certchain_hash_peer cr c False (unat slot) = Ok (Some chain) \<and>
    get_asym_key_size ni = Ok asz \<and> get_hash_size ni = Ok hsz \<and> unat asz + unat hsz \<le> reader_used r \<and>
    m = take (reader_used r - (unat asz + unat hsz)) response \<and>
    (let pre = mb_as_ref (message_a (runtime_info c)) @ as_ref chain @ request in
      hash_all cr (base_hash_sel ni) (pre @ m) = Some h \<and>
      verify_peer_signature cr (unat slot) SPDM_VERSION_1_2_SIGNING_CONTEXT_ZEROPAD_2
        SPDM_KEY_EXCHANGE_RESPONSE_SIGN_CONTEXT h (kr_signature q) c = Ok () \<and>
      hash_all cr (base_hash_sel ni) (pre @ m @ as_ref (kr_signature q)) = Some th1 \<and>
      req_setup_dhe_session cr (q_transport p) ni (message_a (runtime_info c)) (Some chain) (kr_mut_auth_req q) key sid s0 =
        (Ok (), s1) \<and> same_session s1 s1' \<and>
      generate_handshake_secret cr (spdm_version_sel ni) th1 s1' = (Ok (), s2) \<and>
      verify_hmac_with_response_finished_key cr (as_ref th1) (kr_verify_data q) s2 = Ok () \<and>
      get_session_via_id (rq_common st') sid = Some s' \<and> keys_agree s2 s' \<and> \<not> use_psk s' \<and>
      mut_auth_requested s' = kr_mut_auth_req q \<and> session_state s' = SpdmSessionHandshaking \<and>
      log_of fed s' = (base_hash_sel ni, pre @ m @ as_ref (kr_signature q) @ as_ref (kr_verify_data q)) \<and>
      digest_context_th (s_runtime_info s') \<noteq> None) \<and>
    rq_common st' = (upd_rt (need_measurement_summary_hash_update (\<lambda>_. needs_summary t)) c)\<lparr>session := ss\<rparr> \<and>
    rq_device st' = rq_device st"
proof -
  let ?c0 = "upd_rt (need_measurement_summary_hash_update (\<lambda>_. needs_summary t)) c"
  let ?st0 = "st\<lparr>rq_common := ?c0\<rparr>"
  from k obtain h0 r0 q r where h0: "SpdmMessageHeader_read (reader_init response) = Some (h0, r0)" and
    q: "SpdmKeyExchangeResponsePayload_spdm_read ni (needs_summary t) r0 = Ok (q, r)" and
    a: "accept_key_exchange p rid slot request response (reader_used r) final q ?st0 = (Ok sid, st')"
    unfolding handle_spdm_key_exhcange_response_def defs
    by (auto simp: rq_Ok rq_readp_def split: result.splits)
  have r0: "r0 = rd_at (take 2 response) (drop 2 response)"
    using header_rd_at [OF h0] by (force simp: numeral_2_eq_2)
  let ?sid = "session_id_of (kr_rsp_session_id q) rid"
  let ?mk = "\<lambda>chain key. req_setup_dhe_session cr (q_transport p) ni (message_a (runtime_info c)) (Some chain)
    (kr_mut_auth_req q) key ?sid"
  from a sec obtain key chain c1 st2 c3 where key: "final (kr_exchange q) = Some key" and
    chain: "get_certchain_hash_peer cr ?c0 False (unat slot) = Ok (Some chain)" and
    o: "on_session 0 Panic (?mk chain key) ?c0 = (Ok (), c1)" and
    v: "verify_key_exchange cr ?sid slot request response (reader_used r) q (st\<lparr>rq_common := c1\<rparr>) = (Ok (), st2)" and
    se: "on_session ?sid Panic (\<lambda>s. (Ok (), req_settle_session (secured_version_of ni (kr_opaque q))
      (kr_heartbeat_period q) SpdmSessionHandshaking s)) (rq_common st2) = (Ok (), c3)" and
    st': "st' = st2\<lparr>rq_common := c3\<rparr>" "sid = ?sid"
    unfolding accept_key_exchange_def defs Let_def
    by (auto simp: rq_Ok Option.is_none_def split: if_splits)
  have inv0: "half_ids_inv True ?c0" "get_next_half_session_id ?c0 True = Ok rid"
    using inv rid defs(2) by (simp_all add: half_ids_inv_def get_next_half_session_id_def)
  from rq_open_Ok [OF inv0 o] req_setup_dhe_Ok(1) obtain s0 s1 ss1 where
    s1: "?mk chain key s0 = (Ok (), s1)" "c1 = ?c0\<lparr>session := ss1\<rparr>" "get_session_via_id ?c0 ?sid = None" "?sid \<noteq> 0"
      "get_session_via_id c1 ?sid = Some s1" by blast
  note d = req_setup_dhe_Ok [OF s1(1)]
  have ni1: "ni = negotiate_info (rq_common (st\<lparr>rq_common := c1\<rparr>))" "\<not> in_clear_text ni"
    using s1(2) sec defs by simp_all
  from v ni1(1) obtain asz hsz where sz: "get_asym_key_size ni = Ok asz" "get_hash_size ni = Ok hsz"
    by (auto simp: verify_key_exchange_def rq_Ok Let_def)
  let ?m = "take (reader_used r - (unat asz + unat hsz)) response"
  let ?l = "mb_as_ref (message_a (runtime_info c)) @ as_ref chain"
  have l1: "session_log fed ?sid s1 (base_hash_sel ni) ?l (rq_common (st\<lparr>rq_common := c1\<rparr>))"
    using session_log_start [OF s1(5) d(5), of fed] by simp
  from verify_key_exchange_Ok [OF law l1 ni1 sz v [unfolded defs(1)] refl] obtain h th1 s1' s2 s3 ss where
    2: "unat asz + unat hsz \<le> reader_used r" "hash_all cr (base_hash_sel ni) (?l @ request @ ?m) = Some h"
    "verify_peer_signature cr (unat slot) SPDM_VERSION_1_2_SIGNING_CONTEXT_ZEROPAD_2
      SPDM_KEY_EXCHANGE_RESPONSE_SIGN_CONTEXT h (kr_signature q) c1 = Ok ()"
    "hash_all cr (base_hash_sel ni) (?l @ request @ ?m @ as_ref (kr_signature q)) = Some th1" and
    3: "same_session s1 s1'" "generate_handshake_secret cr (spdm_version_sel ni) th1 s1' = (Ok (), s2)"
    "verify_hmac_with_response_finished_key cr (as_ref th1) (kr_verify_data q) s2 = Ok ()" and
    4: "get_session_via_id (rq_common st2) ?sid = Some s3" "same_session s2 s3"
    "log_of fed s3 = (base_hash_sel ni, ?l @ request @ ?m @ as_ref (kr_signature q) @ as_ref (kr_verify_data q))"
    "digest_context_th (s_runtime_info s3) \<noteq> None" "st2 = st\<lparr>rq_common := c1\<lparr>session := ss\<rparr>\<rparr>" by (auto simp: defs(1))
  let ?s' = "req_settle_session (secured_version_of ni (kr_opaque q)) (kr_heartbeat_period q) SpdmSessionHandshaking s3"
  have settle: "session_id ?s' = session_id s3" "keys_agree s3 ?s'" "mut_auth_requested ?s' = mut_auth_requested s3"
    "session_state ?s' = SpdmSessionHandshaking" "log_of fed ?s' = log_of fed s3" "use_psk ?s' = use_psk s3"
    "digest_context_th (s_runtime_info ?s') \<noteq> None"
    using 4(4) by (auto simp: req_settle_session_def set_session_state_def keys_agree_def log_of_def th_prefix_def
        split: option.splits)
  from on_session_OkE [OF se 4(1)] settle(1) st.get_key [OF 4(1)] obtain ss' where
    5: "c3 = (rq_common st2)\<lparr>session := ss'\<rparr>" "get_session_via_id c3 ?sid = Some ?s'" by auto
  have fr: "frame s1' s2" using frame_secrets(2) [of s1' cr "spdm_version_sel ni" th1] 3(2) by simp
  have "\<not> use_psk ?s'" "mut_auth_requested ?s' = kr_mut_auth_req q"
    using settle(3,6) fr 3(1) 4(2) d(2,3) by (simp_all add: frame_def same_session_fields)
  moreover have "keys_agree s2 ?s'" by (rule keys_agree_trans [OF same_session_agree [OF 4(2)] settle(2)])
  moreover have "verify_peer_signature cr (unat slot) SPDM_VERSION_1_2_SIGNING_CONTEXT_ZEROPAD_2
      SPDM_KEY_EXCHANGE_RESPONSE_SIGN_CONTEXT h (kr_signature q) c = Ok ()"
    using 2(3) s1(2) by (simp add: verify_peer_signature_def peer_certs_def)
  moreover have "get_certchain_hash_peer cr c False (unat slot) = Ok (Some chain)"
    using chain by (simp add: get_certchain_hash_peer_def)
  moreover have "get_session_via_id c ?sid = None" using s1(3) by (simp add: get_session_via_id_def)
  moreover have "rq_common st' = ?c0\<lparr>session := ss'\<rparr>" "rq_device st' = rq_device st"
    using st'(1) 5(1) 4(5) s1(2) by simp_all
  moreover have "log_of fed ?s' = (base_hash_sel ni, (?l @ request) @ ?m @ as_ref (kr_signature q) @ as_ref (kr_verify_data q))"
    using settle(5) 4(3) by simp
  moreover have "get_session_via_id (rq_common st') ?sid = Some ?s'" using st'(1) 5(2) by simp
  ultimately show ?thesis
    using q [unfolded r0] st'(2) s1(1,4) key sz 2(1,2,4) 3 settle(4,7) unfolding Let_def append_assoc
    by blast
qed

section \<open>FINISH\<close>

lemma encode_request_writes:
  assumes "encode_request v code payload = Ok bs" "writes payload m"
  shows "bs = [SpdmVersion_get_u8 v, SpdmRequestResponseCode_get_u8 code] @ m"
proof -
  let ?m = "[SpdmVersion_get_u8 v, SpdmRequestResponseCode_get_u8 code] @ m"
  note w = writes_message [OF assms(2), of v code, unfolded writes_def, rule_format,
      of "[]" "replicate MAX_SPDM_MSG_SIZE 0"]
  from assms(1) obtain n w where e: "SpdmMessage_spdm_encode v code payload send_writer = (Ok n, w)"
    "slice_to n (w_buf w) = Ok bs" by (auto simp: encode_request_def split: prod.splits result.splits)
  with w [of n w] have "n = length ?m" "w = wr_at ?m (drop (length ?m) (replicate MAX_SPDM_MSG_SIZE 0))"
    by (simp_all add: send_writer_at)
  with e(2) show ?thesis by (simp add: slice_to_def wr_at_def split: if_splits)
qed

lemma writes_finish_req:
  assumes "\<not> contains (fq_finish_request_attributes p) SIGNATURE_INCLUDED"
  shows "writes (SpdmFinishRequestPayload_spdm_encode ni p) (finish_req_image p)"
proof -
  have "list_all2 writes (map BUFFER_FULL_enc [SpdmFinishRequestAttributes_encode (fq_finish_request_attributes p),
      u8_encode (fq_req_slot_id p)] @ [SpdmDigestStruct_spdm_encode ni (fq_verify_data p)])
     [[fq_finish_request_attributes p], [fq_req_slot_id p], as_ref (fq_verify_data p)]"
    by (simp add: writes_emits emits_BUFFER_FULL emits_u8 SpdmFinishRequestAttributes_encode_def
        SpdmDigestStruct_spdm_encode_def writes_asserted)
  from writes_encs [OF this] assms show ?thesis
    by (simp add: SpdmFinishRequestPayload_spdm_encode_def finish_req_image_def)
qed

text \<open>
  The request is sent with the HMAC of the transcript up to the request's four header bytes, under the
  requester's finished key; header and HMAC join the transcript.
\<close>

lemma finish_sent:
  assumes law: "hash_ctx_law cr fed" and l: "session_log fed sid s a l (rq_common st)" and m: "mut_auth_requested s = 0"
    and e: "encode_spdm_finish cr en sid slot st = (Ok bs, st')" and ni: "ni = negotiate_info (rq_common st)"
  shows "\<exists>n th mac ss. get_hash_size ni = Ok n \<and>
    bs = [SpdmVersion_get_u8 (spdm_version_sel ni), 0xE5, 0, slot] @ as_ref mac \<and> length (as_ref mac) = unat n \<and>
    hash_all cr a (l @ take 4 bs) = Some th \<and> generate_hmac_with_request_finished_key cr (as_ref th) s = Ok mac \<and>
    session_log fed sid s a (l @ bs) (rq_common st') \<and> st' = st\<lparr>rq_common := (rq_common st)\<lparr>session := ss\<rparr>\<rparr>"
proof -
  let ?P = "\<lambda>n. \<lparr>fq_finish_request_attributes = 0, fq_req_slot_id = slot,
         fq_signature = SpdmSignatureStruct_default\<lparr>data_size := 0\<rparr>,
         fq_verify_data = \<lparr>data_size = n, data = replicate SPDM_MAX_HASH_SIZE 0xCC\<rparr>\<rparr>"
  have ma: "mut_auth_requested s' = 0"
    if "session_log fed sid s a l' c" "get_session_via_id c sid = Some s'" for s' l' c
    using that m by (auto simp: session_log_def same_session_fields)
  from l obtain s1 where s1: "get_session_via_id (rq_common st) sid = Some s1" by (rule session_logE)
  from e ma [OF l s1] s1 obtain n buf st1 where
    n: "get_hash_size ni = Ok n" and
    b: "encode_request (spdm_version_sel ni) SpdmRequestFinish (SpdmFinishRequestPayload_spdm_encode ni (?P n)) = Ok buf" and
    f1: "rq_on (append_message_f cr True sid (take 4 buf)) st = (Ok (), st1)"
    unfolding encode_spdm_finish_def ni Let_def by (auto simp: rq_bind_Ok rq_simple_Ok(1,2))
  from rq_append_f_Ok [OF law l disjI2 [OF m] f1] obtain ss1 where
    l1: "session_log fed sid s a (l @ take 4 buf) (rq_common st1)" "st1 = st\<lparr>rq_common := (rq_common st)\<lparr>session := ss1\<rparr>\<rparr>"
    by blast
  from l1(1) obtain s2 where s2: "get_session_via_id (rq_common st1) sid = Some s2" by (rule session_logE)
  from e obtain th st2 mac st3 where
    th: "rq_transcript_hash cr False slot False sid st1 = (Ok th, st2)" and
    mac: "rq_session sid (\<lambda>s. rq_ret (generate_hmac_with_request_finished_key cr (as_ref th) s)) st2 = (Ok mac, st3)" and
    f2: "rq_on (append_message_f cr True sid (as_ref mac)) st3 = (Ok (), st')" and
    p: "unat n \<le> length buf" "patch_at (length buf - unat n) (length buf) (as_ref mac) buf = Ok bs"
    unfolding encode_spdm_finish_def Let_def
    by (auto simp: rq_bind_Ok rq_simple_Ok(1,2) ni [symmetric] n b f1 s1 s2 ma [OF l s1] ma [OF l1(1) s2] split: if_splits)
  have P: "\<not> contains (fq_finish_request_attributes (?P n)) SIGNATURE_INCLUDED" by (simp add: contains_def SIGNATURE_INCLUDED_def)
  have buf: "buf = [SpdmVersion_get_u8 (spdm_version_sel ni), 0xE5, 0, slot] @ replicate (unat n) 0xCC"
    using encode_request_writes [OF b writes_finish_req [OF P]] P negotiated_sizes_bounded(2) [OF n]
    by (simp add: finish_req_image_def as_ref_def min_absorb2)
  then have bs: "bs = [SpdmVersion_get_u8 (spdm_version_sel ni), 0xE5, 0, slot] @ as_ref mac" "length (as_ref mac) = unat n"
    using p(2) by (simp_all add: patch_at_def write_at_eq split: if_splits)
  from rq_transcript_hash_Ok [OF law l1(1) th] have h: "st2 = st1" "hash_all cr a (l @ take 4 buf) = Some th" by simp_all
  from mac h(1) l1(1) have g: "st3 = st1" "generate_hmac_with_request_finished_key cr (as_ref th) s = Ok mac"
    by (auto simp: rq_Ok session_log_def) (metis hmac_agree(1) same_session_agree)
  from rq_append_f_Ok [OF law l1(1) disjI2 [OF m] f2 [unfolded g(1)]] obtain ss where
    "session_log fed sid s a ((l @ take 4 buf) @ as_ref mac) (rq_common st')"
    "st' = st1\<lparr>rq_common := (rq_common st1)\<lparr>session := ss\<rparr>\<rparr>" by blast
  then show ?thesis using n bs h(2) g(2) l1(2) buf by (intro exI [of _ n] exI [of _ th] exI [of _ mac] exI [of _ ss]) simp
qed

text \<open>The data keys come from the transcript that ends with the response.\<close>

lemma req_derive_data_secret_Ok:
  assumes law: "hash_ctx_law cr fed" and l: "session_log fed sid s a l (rq_common st)"
    and d: "req_derive_data_secret cr psk slot ma sid st = (Ok u, st')"
  shows "\<exists>th2 s1 s2 s' ss. hash_all cr a l = Some th2 \<and> same_session s s1 \<and>
    generate_data_secret cr (spdm_version_sel (negotiate_info (rq_common st))) th2 s1 = (Ok (), s2) \<and>
    get_session_via_id (rq_common st') sid = Some s' \<and> keys_agree s2 s' \<and> log_of fed s' = (a, l) \<and>
    session_state s' = SpdmSessionEstablished \<and> st' = st\<lparr>rq_common := (rq_common st)\<lparr>session := ss\<rparr>\<rparr>"
proof -
  let ?v = "spdm_version_sel (negotiate_info (rq_common st))"
  let ?set = "\<lambda>s :: 'a SpdmSession. (Ok () :: unit SpdmResult, set_session_state SpdmSessionEstablished s)"
  from d obtain th2 st1 st2 where th: "rq_transcript_hash cr psk slot ma sid st = (Ok th2, st1)" and
    g: "rq_on (on_session sid Panic (generate_data_secret cr (spdm_version_sel (negotiate_info (rq_common st1))) th2)) st1 =
      (Ok (), st2)" and e: "rq_on (on_session sid Panic ?set) st2 = (Ok u, st')"
    unfolding req_derive_data_secret_def by (auto simp: rq_bind_Ok rq_simple_Ok(2))
  from rq_transcript_hash_Ok [OF law l th] have h: "st1 = st" "hash_all cr a l = Some th2" by simp_all
  from rq_secret_Ok [OF l g [unfolded h(1)] frame_secrets(3)] obtain s1 s2 ss1 where
    1: "same_session s s1" "generate_data_secret cr ?v th2 s1 = (Ok (), s2)" "get_session_via_id (rq_common st2) sid = Some s2"
      "session_log fed sid s2 a l (rq_common st2)" "st2 = st\<lparr>rq_common := (rq_common st)\<lparr>session := ss1\<rparr>\<rparr>"
    by blast
  from 1(3,4) have l2: "log_of fed s2 = (a, l)" by (auto simp: session_log_def)
  let ?s = "set_session_state SpdmSessionEstablished s2"
  have sid: "session_id s2 = sid" using st.get_key [OF 1(3)] .
  from e 1(3) have st': "st' = st2\<lparr>rq_common := upd_session_via_id sid (\<lambda>_. ?s) (rq_common st2)\<rparr>"
    by (auto simp: rq_Ok on_session_def)
  then have "get_session_via_id (rq_common st') sid = Some ?s"
    using 1(3) sid by (simp add: st.get_upd_same set_session_state_def)
  moreover have "keys_agree s2 ?s" "log_of fed ?s = log_of fed s2" "session_state ?s = SpdmSessionEstablished"
    by (simp_all add: set_session_state_def keys_agree_def log_of_def th_prefix_def split: option.splits)
  moreover have "\<exists>ss. st' = st\<lparr>rq_common := (rq_common st)\<lparr>session := ss\<rparr>\<rparr>"
    by (simp add: st' 1(5) upd_session_via_id_def) (rule exI, rule refl)
  ultimately show ?thesis using h(2) 1(1,2) l2 by metis
qed

lemma finish_received:
  assumes law: "hash_ctx_law cr fed" and l: "session_log fed sid s a l (rq_common st)" and m: "mut_auth_requested s = 0"
    and f: "handle_spdm_finish_response cr sid slot response st = (Ok u, st')"
    and ni: "ni = negotiate_info (rq_common st)" "\<not> in_clear_text ni"
  shows "\<exists>th2 s1 s2 s' ss. 4 \<le> length response \<and> hash_all cr a (l @ take 4 response) = Some th2 \<and> same_session s s1 \<and>
    generate_data_secret cr (spdm_version_sel ni) th2 s1 = (Ok (), s2) \<and>
    get_session_via_id (rq_common st') sid = Some s' \<and> keys_agree s2 s' \<and> log_of fed s' = (a, l @ take 4 response) \<and>
    session_state s' = SpdmSessionEstablished \<and>
    rq_common st' = (set_last_session_id None (rq_common st))\<lparr>session := ss\<rparr> \<and> rq_device st' = rq_device st"
proof -
  from f ni obtain h r0 vd r st1 ma st2 where h: "SpdmMessageHeader_read (reader_init response) = Some (h, r0)" and
    rd: "SpdmFinishResponsePayload_spdm_read ni r0 = Ok (vd, r)" and
    f1: "rq_on (append_message_f cr True sid (take (reader_used r) response)) st = (Ok (), st1)" and
    d: "req_derive_data_secret cr False slot ma sid st1 = (Ok (), st2)" and
    u: "rq_upd (set_last_session_id None) st2 = (Ok u, st')"
    unfolding handle_spdm_finish_response_def Let_def
    by (auto simp: rq_bind_Ok rq_simple_Ok(1,2) on_response_Ok rq_readp_def split: result.splits)
  obtain v x rest where b: "response = v # x # rest" "r0 = rd_at [v, x] rest" using header_rd_at [OF h] by blast
  from rd ni(2) obtain y z rest' where rest: "rest = y # z # rest'" "r = rd_at [v, x, y, z] rest'"
    by (auto simp: SpdmFinishResponsePayload_spdm_read_def rdp_defs b(2) read_byte_rd_at optional_digest_def
        split: option.splits)
  have t: "take (reader_used r) response = take 4 response" "4 \<le> length response" by (simp_all add: b(1) rest)
  from rq_append_f_Ok [OF law l disjI2 [OF m] f1] obtain ss1 where
    1: "session_log fed sid s a (l @ take 4 response) (rq_common st1)"
      "st1 = st\<lparr>rq_common := (rq_common st)\<lparr>session := ss1\<rparr>\<rparr>" unfolding t by blast
  from req_derive_data_secret_Ok [OF law 1(1) d] obtain th2 s1 s2 s' ss where
    2: "hash_all cr a (l @ take 4 response) = Some th2" "same_session s s1"
      "generate_data_secret cr (spdm_version_sel (negotiate_info (rq_common st1))) th2 s1 = (Ok (), s2)"
      "get_session_via_id (rq_common st2) sid = Some s'" "keys_agree s2 s'" "log_of fed s' = (a, l @ take 4 response)"
      "session_state s' = SpdmSessionEstablished" "st2 = st1\<lparr>rq_common := (rq_common st1)\<lparr>session := ss\<rparr>\<rparr>"
    by blast
  have "rq_common st' = (set_last_session_id None (rq_common st))\<lparr>session := ss\<rparr>" "rq_device st' = rq_device st"
    using u by (auto simp: rq_Ok 2(8) 1(2) set_last_session_id_def)
  moreover have "get_session_via_id (rq_common st') sid = Some s'"
    using 2(4) by (simp add: calculation(1) get_session_via_id_def 2(8) 1(2))
  moreover have "negotiate_info (rq_common st1) = ni" by (simp add: 1(2) ni(1))
  ultimately show ?thesis using 2 t(2) by metis
qed

end
