(* ===== verification/Key_Agreement.thy ===== *)
theory Key_Agreement
  imports Requester_Handshake
begin

text \<open>
  Requester and responder together: the two ends of a handshake hold the same keys.

  \<^item> \<open>peers\<close> relates the contexts of the two ends after the connection is set up: the same algorithms and
    capabilities in force, the same transcript of the negotiation, and the certificate chain that the requester
    retrieved is the one that the responder has.
  \<^item> \<open>dhe_law\<close> is what Diffie-Hellman promises: the final key that one end computes from the other's exchange data
    is the final key that the other end computes.
\<close>

section \<open>Definitions\<close>

definition same_algorithms :: "SpdmNegotiateInfo \<Rightarrow> SpdmNegotiateInfo \<Rightarrow> bool" where
  "same_algorithms n m \<longleftrightarrow> spdm_version_sel n = spdm_version_sel m \<and> base_hash_sel n = base_hash_sel m \<and>
    base_asym_sel n = base_asym_sel m \<and> dhe_sel n = dhe_sel m \<and> aead_sel n = aead_sel m \<and>
    key_schedule_sel n = key_schedule_sel m \<and> opaque_data_support n = opaque_data_support m \<and>
    req_capabilities_sel n = req_capabilities_sel m \<and> rsp_capabilities_sel n = rsp_capabilities_sel m"

definition peers :: "nat \<Rightarrow> 'h SpdmContext \<Rightarrow> 'h SpdmContext \<Rightarrow> bool" where
  "peers slot cq cr \<longleftrightarrow> same_algorithms (negotiate_info cq) (negotiate_info cr) \<and>
    mb_as_ref (message_a (runtime_info cq)) = mb_as_ref (message_a (runtime_info cr)) \<and>
    slot < length (peer_cert_chain (peer_info cq)) \<and> slot < length (my_cert_chain (provision_info cr)) \<and>
    peer_cert_chain (peer_info cq) ! slot = my_cert_chain (provision_info cr) ! slot"

definition dhe_law :: "env \<Rightarrow> env \<Rightarrow> bool" where
  "dhe_law en1 en2 \<longleftrightarrow> (\<forall>a e1 f1 e2 f2 x1 x2. generate_key_pair en1 a = Some (e1, f1) \<and>
    generate_key_pair en2 a = Some (e2, f2) \<and> as_ref x1 = as_ref e1 \<and> as_ref x2 = as_ref e2 \<longrightarrow> f1 x2 = f2 x1)"

text \<open>
  The two ends of a session: the same keys, the same transcript, which is started, no mutual authentication. The relation also
  links a context with itself after messages of the session were protected or opened.
\<close>

definition linked ::
    "('h \<Rightarrow> SpdmBaseHashAlgo \<times> bytes) \<Rightarrow> u32 \<Rightarrow> 'h SpdmContext \<Rightarrow> 'h SpdmContext \<Rightarrow> bool" where
  "linked fed sid c c' \<longleftrightarrow> (\<exists>s s'. get_session_via_id c sid = Some s \<and> get_session_via_id c' sid = Some s' \<and>
    mut_auth_requested s = 0 \<and> mut_auth_requested s' = 0 \<and> keys_agree s s' \<and> log_of fed s = log_of fed s' \<and>
    digest_context_th (s_runtime_info s) \<noteq> None \<and> digest_context_th (s_runtime_info s') \<noteq> None)"

definition state_of :: "u32 \<Rightarrow> 'h SpdmContext \<Rightarrow> SpdmSessionState option" where
  "state_of sid c = map_option session_state (get_session_via_id c sid)"

text \<open>A structure as the peer reads it: the same bytes, zero beyond them.\<close>

definition repad :: "nat \<Rightarrow> sized_data \<Rightarrow> sized_data" where
  "repad cap d = \<lparr>data_size = of_nat (length (as_ref d)), data = as_ref d @ replicate (cap - length (as_ref d)) 0\<rparr>"

definition kex_rsp_received :: "bool \<Rightarrow> SpdmKeyExchangeResponsePayload \<Rightarrow> SpdmKeyExchangeResponsePayload" where
  "kex_rsp_received summary P = P\<lparr>kr_exchange := repad SPDM_MAX_DHE_KEY_SIZE (kr_exchange P),
    kr_measurement_summary_hash :=
      (if summary then repad SPDM_MAX_HASH_SIZE (kr_measurement_summary_hash P) else SpdmDigestStruct_default),
    kr_opaque := repad MAX_SPDM_OPAQUE_SIZE (kr_opaque P),
    kr_signature := repad SPDM_MAX_ASYM_KEY_SIZE (kr_signature P),
    kr_verify_data := repad SPDM_MAX_HASH_SIZE (kr_verify_data P)\<rparr>"

section \<open>Messages as they arrive\<close>

lemma as_ref_repad: "length (as_ref d) \<le> cap \<Longrightarrow> cap \<le> 0xFFFF \<Longrightarrow> as_ref (repad cap d) = as_ref d"
  by (simp add: repad_def as_ref_def [of "repad cap d", unfolded repad_def])

lemma data_size_repad [simp]: "data_size (repad cap d) = of_nat (length (as_ref d))"
  by (simp add: repad_def)

lemma repad_fits:
  assumes "of_size cap sz d" "cap \<le> 0xFFFF"
  shows "fits_size cap sz (repad cap d)"
  using assms by (auto simp: of_size_def fits_size_def zero_padded_def sized_ok_def repad_def)

lemma kex_rsp_arrives:
  assumes P: "kex_rsp_sized ni summary P" and sec: "\<not> in_clear_text ni"
  shows "SpdmKeyExchangeResponsePayload_spdm_read ni summary (rd_at pre (kex_rsp_image ni summary P)) =
    Ok (kex_rsp_received summary P, rd_at (pre @ kex_rsp_image ni summary P) [])"
proof -
  let ?q = "kex_rsp_received summary P"
  note s = P [unfolded kex_rsp_sized_def]
  have "data_size (kr_opaque P) = of_nat (length (as_ref (kr_opaque P)))"
    "as_ref (repad SPDM_MAX_DHE_KEY_SIZE (kr_exchange P)) = as_ref (kr_exchange P)"
    "summary \<longrightarrow> as_ref (repad SPDM_MAX_HASH_SIZE (kr_measurement_summary_hash P)) = as_ref (kr_measurement_summary_hash P)"
    "as_ref (repad MAX_SPDM_OPAQUE_SIZE (kr_opaque P)) = as_ref (kr_opaque P)"
    "as_ref (repad SPDM_MAX_ASYM_KEY_SIZE (kr_signature P)) = as_ref (kr_signature P)"
    "as_ref (repad SPDM_MAX_HASH_SIZE (kr_verify_data P)) = as_ref (kr_verify_data P)"
    using s by (simp_all add: of_size_def as_ref_repad)
  then have img: "kex_rsp_image ni summary ?q = kex_rsp_image ni summary P"
    using sec by (cases summary) (simp_all add: kex_rsp_image_def kex_rsp_received_def)
  have "fits_size MAX_SPDM_OPAQUE_SIZE (Ok (data_size (kr_opaque P))) (repad MAX_SPDM_OPAQUE_SIZE (kr_opaque P))"
    using s by (intro repad_fits) simp_all
  then have "zero_padded MAX_SPDM_OPAQUE_SIZE (repad MAX_SPDM_OPAQUE_SIZE (kr_opaque P))" by (simp only: fits_size_def)
  then have "kex_rsp_valid ni summary ?q"
    using s sec by (simp add: kex_rsp_valid_def kex_rsp_received_def optional_ok_def repad_fits)
  from c_kex_rsp.read_image [OF this, of pre "[]"] img show ?thesis by simp
qed

lemma kex_rsp_received_fields:
  assumes "kex_rsp_sized ni summary P" "get_asym_key_size ni = Ok asz" "get_hash_size ni = Ok hsz"
  shows "as_ref (kr_signature (kex_rsp_received summary P)) = as_ref (kr_signature P)"
    "as_ref (kr_verify_data (kex_rsp_received summary P)) = as_ref (kr_verify_data P)"
    "as_ref (kr_exchange (kex_rsp_received summary P)) = as_ref (kr_exchange P)"
    "kr_rsp_session_id (kex_rsp_received summary P) = kr_rsp_session_id P"
    "kr_mut_auth_req (kex_rsp_received summary P) = 0"
    "unat asz + unat hsz = length (as_ref (kr_signature P)) + length (as_ref (kr_verify_data P))"
  using assms by (auto simp: kex_rsp_sized_def kex_rsp_received_def of_size_def as_ref_repad)

lemma kex_req_read:
  assumes "summary_type_ok ni (kq_measurement_summary_hash_type P)"
    and P: "length (kq_random P) = SPDM_RANDOM_SIZE" "of_size SPDM_MAX_DHE_KEY_SIZE (get_dhe_key_size ni) (kq_exchange P)"
      "zero_padded MAX_SPDM_OPAQUE_SIZE (kq_opaque P)"
  shows "SpdmKeyExchangeRequestPayload_spdm_read ni (rd_at pre (kex_req_image ni P)) =
    Ok (P\<lparr>kq_exchange := repad SPDM_MAX_DHE_KEY_SIZE (kq_exchange P),
        kq_session_policy := if at_least SpdmVersion12 ni then kq_session_policy P else 0\<rparr>,
      rd_at (pre @ kex_req_image ni P) [])"
proof -
  let ?q = "P\<lparr>kq_exchange := repad SPDM_MAX_DHE_KEY_SIZE (kq_exchange P),
      kq_session_policy := if at_least SpdmVersion12 ni then kq_session_policy P else 0\<rparr>"
  have "as_ref (repad SPDM_MAX_DHE_KEY_SIZE (kq_exchange P)) = as_ref (kq_exchange P)"
    using P(2) by (simp add: of_size_def as_ref_repad)
  then have img: "kex_req_image ni ?q = kex_req_image ni P" by (simp add: kex_req_image_def)
  have "kex_req_valid ni ?q" using assms by (simp add: kex_req_valid_def repad_fits)
  from c_kex_req.read_image [OF this, of pre "[]"] img show ?thesis by simp
qed

lemma kex_req_arrives:
  assumes "SpdmKeyExchangeRequestPayload_spdm_read ni (rd_at pre (kex_req_image ni P)) = Ok (q, r)"
    and t: "SpdmMeasurementSummaryHashType_of_u8 (SpdmMeasurementSummaryHashType_get_u8 (kq_measurement_summary_hash_type P)) =
      kq_measurement_summary_hash_type P"
    and P: "length (kq_random P) = SPDM_RANDOM_SIZE" "of_size SPDM_MAX_DHE_KEY_SIZE (get_dhe_key_size ni) (kq_exchange P)"
      "zero_padded MAX_SPDM_OPAQUE_SIZE (kq_opaque P)"
  shows "q = P\<lparr>kq_exchange := repad SPDM_MAX_DHE_KEY_SIZE (kq_exchange P),
      kq_session_policy := if at_least SpdmVersion12 ni then kq_session_policy P else 0\<rparr> \<and>
    r = rd_at (pre @ kex_req_image ni P) []"
proof -
  have "summary_type_ok ni (kq_measurement_summary_hash_type P)"
  proof (rule ccontr)
    assume "\<not> ?thesis"
    with assms(1) t show False
      by (simp add: SpdmKeyExchangeRequestPayload_spdm_read_def kex_req_image_def rdp_defs)
  qed
  from kex_req_read [OF this P, of pre] assms(1) show ?thesis by simp
qed

lemma kex_req_sent:
  assumes e: "encode_spdm_key_exchange en rid slot t c = Ok (final, bs)" and en: "env_law en"
    and ni: "ni = negotiate_info c"
  obtains P where "bs = [SpdmVersion_get_u8 (spdm_version_sel ni), 0xE4] @ kex_req_image ni P"
    "generate_key_pair en (dhe_sel ni) = Some (kq_exchange P, final)"
    "kq_measurement_summary_hash_type P = t" "kq_slot_id P = slot" "kq_req_session_id P = rid"
    "length (kq_random P) = SPDM_RANDOM_SIZE" "of_size SPDM_MAX_DHE_KEY_SIZE (get_dhe_key_size ni) (kq_exchange P)"
    "zero_padded MAX_SPDM_OPAQUE_SIZE (kq_opaque P)" "version_list_opaque ni = Ok (kq_opaque P)"
proof -
  from e obtain random exchange opaque where g: "get_random en SPDM_RANDOM_SIZE = Ok random"
    "generate_key_pair en (dhe_sel ni) = Some (exchange, final)" "version_list_opaque ni = Ok opaque"
    and b: "encode_request (spdm_version_sel ni) SpdmRequestKeyExchange (SpdmKeyExchangeRequestPayload_spdm_encode ni
        \<lparr>kq_measurement_summary_hash_type = t, kq_slot_id = slot, kq_req_session_id = rid,
         kq_session_policy = session_policy (config_info c), kq_random = random, kq_exchange = exchange,
         kq_opaque = opaque\<rparr>) = Ok bs"
    unfolding encode_spdm_key_exchange_def Let_def ni by (auto simp: rbind_eq_Ok ok_or_eq_Ok)
  have l: "length random = SPDM_RANDOM_SIZE" "SpdmDheAlgo_get_size (dhe_sel ni) = Ok (data_size exchange)"
    "sized_ok SPDM_MAX_DHE_KEY_SIZE exchange" using en g unfolding env_law_def by blast+
  have "of_size SPDM_MAX_DHE_KEY_SIZE (get_dhe_key_size ni) exchange"
    using l by (intro of_size_sized) (simp_all add: get_dhe_key_size_def)
  moreover have "zero_padded MAX_SPDM_OPAQUE_SIZE opaque"
    using g(3) by (auto simp: version_list_opaque_def zero_padded_def opaque_of_def sized_ok_def
        REQ_DMTF_OPAQUE_DATA_SUPPORT_VERSION_LIST_DSP0277_def
        REQ_DMTF_OPAQUE_DATA_SUPPORT_VERSION_LIST_DSP0274_FMT1_def split: if_splits)
  ultimately show thesis
    using encode_request_writes [OF b writes_emits [OF emits_kex_req]] l(1) g(2,3)
    by (intro that [of "\<lparr>kq_measurement_summary_hash_type = t, kq_slot_id = slot, kq_req_session_id = rid,
         kq_session_policy = session_policy (config_info c), kq_random = random, kq_exchange = exchange,
         kq_opaque = opaque\<rparr>"]) simp_all
qed

section \<open>Key exchange\<close>

lemma same_algorithms_policy [simp]:
  "same_algorithms n (m\<lparr>termination_policy_set := b\<rparr>) = same_algorithms n m"
  by (simp add: same_algorithms_def)

lemma same_algorithms_sizes:
  assumes "same_algorithms n m"
  shows "get_hash_size n = get_hash_size m" "get_asym_key_size n = get_asym_key_size m"
    "get_dhe_key_size n = get_dhe_key_size m" "in_clear_text n = in_clear_text m" "at_least v n = at_least v m"
    "summary_type_ok n = summary_type_ok m"
  using assms by (simp_all add: same_algorithms_def get_hash_size_def get_asym_key_size_def get_dhe_key_size_def
      in_clear_text_def at_least_def summary_type_ok_def fun_eq_iff split: SpdmMeasurementSummaryHashType.splits)

lemma same_algorithms_kex:
  assumes "same_algorithms n m"
  shows "SpdmKeyExchangeRequestPayload_spdm_read n = SpdmKeyExchangeRequestPayload_spdm_read m"
    "SpdmKeyExchangeResponsePayload_spdm_read n = SpdmKeyExchangeResponsePayload_spdm_read m"
    "kex_req_image n = kex_req_image m" "kex_rsp_image n = kex_rsp_image m" "kex_rsp_sized n = kex_rsp_sized m"
  using same_algorithms_sizes [OF assms]
  by (simp_all add: SpdmKeyExchangeRequestPayload_spdm_read_def SpdmKeyExchangeResponsePayload_spdm_read_def
      SpdmDheExchangeStruct_spdm_read_def SpdmSignatureStruct_spdm_read_def SpdmDigestStruct_spdm_read_def
      optional_digest_def kex_req_image_def kex_rsp_image_def kex_rsp_sized_def fun_eq_iff cong: if_cong)

lemma setups_agree:
  assumes n: "same_algorithms nq nr"
    and q: "req_setup_dhe_session cr tq nq aq (Some chain) ma k sid s0 = (Ok (), s)"
    and r: "setup_dhe_session cr tr nr ar chain' slot k sid' s0' = (Ok (), s')"
  shows "keys_agree s s'"
proof -
  let ?q = "crypto_params nq tq ((set_default s0)\<lparr>session_id := sid, use_psk := False, mut_auth_requested := ma\<rparr>)"
  let ?r = "(crypto_params nr tr ((set_default s0')\<lparr>session_id := sid', use_psk := False, slot_id := slot\<rparr>))
    \<lparr>mut_auth_requested := 0\<rparr>"
  have v: "spdm_version_sel nq = spdm_version_sel nr" using n by (simp add: same_algorithms_def)
  from q obtain s1 where s1: "set_dhe_secret cr (spdm_version_sel nr) k ?q = (Ok (), s1)" "keys_agree s s1"
    by (auto simp: req_setup_dhe_session_def session_setup_def v keys_agree_def
        split: if_splits prod.splits result.splits)
  from r obtain s1' where s1': "set_dhe_secret cr (spdm_version_sel nr) k ?r = (Ok (), s1')" "keys_agree s1' s'"
    by (auto simp: setup_dhe_session_def session_setup_def keys_agree_def
        split: if_splits prod.splits result.splits)
  have "keys_agree ?q ?r" using n
    by (simp add: keys_agree_def crypto_params_def set_default_def set_crypto_param_def set_transport_param_def
        same_algorithms_def)
  from dhe_secret_agree [OF this s1(1)] s1'(1) have "keys_agree s1 s1'" by auto
  with s1(2) s1'(2) show ?thesis by (blast intro: keys_agree_trans)
qed

lemma peers_chain:
  assumes "peers slot cq cr"
  shows "get_certchain_hash_peer c cq False slot = get_certchain_hash_local c cr False slot"
  using assms by (simp add: peers_def same_algorithms_def get_certchain_hash_peer_def get_certchain_hash_local_def
      index_panic_def)

text \<open>The responder's half, in terms of the requester's context.\<close>

lemma key_exchange_answer_view:
  assumes law: "hash_ctx_law cr fed" "p_crypto pr = cr" "env_law enr"
    and ctx: "peers (unat slot) c c0" "half_ids_inv False c0" "\<not> in_clear_text n" "n = negotiate_info c"
    and Q: "request = [SpdmVersion_get_u8 (spdm_version_sel n), 0xE4] @ kex_req_image n Q"
      "SpdmMeasurementSummaryHashType_of_u8 (SpdmMeasurementSummaryHashType_get_u8 (kq_measurement_summary_hash_type Q)) =
        kq_measurement_summary_hash_type Q" "kq_slot_id Q = slot" "length (kq_random Q) = SPDM_RANDOM_SIZE"
      "of_size SPDM_MAX_DHE_KEY_SIZE (get_dhe_key_size n) (kq_exchange Q)" "zero_padded MAX_SPDM_OPAQUE_SIZE (kq_opaque Q)"
    and rsp: "write_spdm_key_exchange_response pr enr request send_writer c0 = (Ok u, w, c1)"
    and defs: "response = writer_used_slice w" "summary = needs_summary (kq_measurement_summary_hash_type Q)"
  obtains final P key chain m h th1 s0 s1 s1' s2 s' where
    "generate_key_pair enr (dhe_sel n) = Some (kr_exchange P, final)"
    "final (repad SPDM_MAX_DHE_KEY_SIZE (kq_exchange Q)) = Some key"
    "get_certchain_hash_peer cr c False (unat slot) = Ok (Some chain)"
    "kex_rsp_sized n summary P"
    "response = [SpdmVersion_get_u8 (spdm_version_sel n), 0x64] @ kex_rsp_image n summary P"
    "response = m @ as_ref (kr_signature P) @ as_ref (kr_verify_data P)"
    "hash_all cr (base_hash_sel n) ((mb_as_ref (message_a (runtime_info c)) @ as_ref chain @ request) @
      m @ as_ref (kr_signature P)) = Some th1"
    "setup_dhe_session cr (p_transport pr) (negotiate_info c1) (message_a (runtime_info c1)) chain slot key
        (session_id_of (kr_rsp_session_id P) (kq_req_session_id Q)) s0 = (Ok (), s1)" "same_session s1 s1'"
    "generate_handshake_secret cr (spdm_version_sel n) th1 s1' = (Ok (), s2)"
    "get_session_via_id c1 (session_id_of (kr_rsp_session_id P) (kq_req_session_id Q)) = Some s'" "keys_agree s2 s'"
    "mut_auth_requested s' = 0" "session_state s' = SpdmSessionHandshaking"
    "log_of fed s' = (base_hash_sel n, (mb_as_ref (message_a (runtime_info c)) @ as_ref chain @ request) @ response)"
    "same_algorithms n (negotiate_info c1)"
    "hash_all cr (base_hash_sel n) ((mb_as_ref (message_a (runtime_info c)) @ as_ref chain @ request) @ m) = Some h"
    "sign_hash enr (negotiate_info c1) SPDM_VERSION_1_2_SIGNING_CONTEXT_ZEROPAD_2
      SPDM_KEY_EXCHANGE_RESPONSE_SIGN_CONTEXT h = Ok (kr_signature P)"
    "generate_hmac_with_response_finished_key cr (as_ref th1) s2 = Ok (kr_verify_data P)"
    "digest_context_th (s_runtime_info s') \<noteq> None"
proof -
  have n0: "same_algorithms n (negotiate_info c0)" using ctx by (simp add: peers_def)
  then have sec: "\<not> in_clear_text (negotiate_info c0)" using ctx(3) same_algorithms_sizes by blast
  obtain q r final key chain P m h th1 s0 s1 s1' s2 s' where
    q: "SpdmKeyExchangeRequestPayload_spdm_read (negotiate_info c0) (rd_at (take 2 request) (drop 2 request)) = Ok (q, r)" and
    k: "generate_key_pair enr (dhe_sel (negotiate_info c1)) = Some (kr_exchange P, final)" "final (kq_exchange q) = Some key"
      "get_certchain_hash_local cr c1 False (unat (kq_slot_id q)) = Ok (Some chain)" and
    n1: "negotiate_info c1 = (negotiate_info c0)\<lparr>termination_policy_set := (kq_session_policy q AND 1 = 1)\<rparr>"
      "message_a (runtime_info c1) = message_a (runtime_info c0)" "provision_info c1 = provision_info c0"
      "need_measurement_summary_hash (runtime_info c1) = needs_summary (kq_measurement_summary_hash_type q)" and
    P: "kex_rsp_sized (negotiate_info c1) (need_measurement_summary_hash (runtime_info c1)) P" and
    R: "response = [SpdmVersion_get_u8 (spdm_version_sel (negotiate_info c1)), 0x64] @
        kex_rsp_image (negotiate_info c1) (need_measurement_summary_hash (runtime_info c1)) P"
      "response = m @ as_ref (kr_signature P) @ as_ref (kr_verify_data P)" and
    H: "hash_all cr (base_hash_sel (negotiate_info c1)) ((mb_as_ref (message_a (runtime_info c1)) @ as_ref chain @
          take (reader_used r) request) @ m @ as_ref (kr_signature P)) = Some th1"
      "setup_dhe_session cr (p_transport pr) (negotiate_info c1) (message_a (runtime_info c1)) chain (kq_slot_id q) key
        (session_id_of (kr_rsp_session_id P) (kq_req_session_id q)) s0 = (Ok (), s1)" "same_session s1 s1'"
      "generate_handshake_secret cr (spdm_version_sel (negotiate_info c1)) th1 s1' = (Ok (), s2)"
      "hash_all cr (base_hash_sel (negotiate_info c1)) ((mb_as_ref (message_a (runtime_info c1)) @ as_ref chain @
          take (reader_used r) request) @ m) = Some h" and
    G: "sign_hash enr (negotiate_info c1) SPDM_VERSION_1_2_SIGNING_CONTEXT_ZEROPAD_2
        SPDM_KEY_EXCHANGE_RESPONSE_SIGN_CONTEXT h = Ok (kr_signature P)"
      "generate_hmac_with_response_finished_key cr (as_ref th1) s2 = Ok (kr_verify_data P)" and
    S: "get_session_via_id c1 (session_id_of (kr_rsp_session_id P) (kq_req_session_id q)) = Some s'" "keys_agree s2 s'"
      "mut_auth_requested s' = 0" "session_state s' = SpdmSessionHandshaking"
      "log_of fed s' = (base_hash_sel (negotiate_info c1),
        (mb_as_ref (message_a (runtime_info c1)) @ as_ref chain @ take (reader_used r) request) @ response)"
      "digest_context_th (s_runtime_info s') \<noteq> None"
    using key_exchange_completed [OF _ ctx(2) law(3) rsp sec, of fed, unfolded law(2), OF law(1) refl refl defs(1)]
    unfolding Let_def by (elim exE conjE) (rule that)
  have n: "same_algorithms n (negotiate_info c1)" using n0 n1(1) by simp
  have "take 2 request = [SpdmVersion_get_u8 (spdm_version_sel n), 0xE4]" "drop 2 request = kex_req_image n Q"
    by (simp_all add: Q(1))
  with q have "SpdmKeyExchangeRequestPayload_spdm_read n
      (rd_at [SpdmVersion_get_u8 (spdm_version_sel n), 0xE4] (kex_req_image n Q)) = Ok (q, r)"
    by (simp add: same_algorithms_kex [OF n0])
  from kex_req_arrives [OF this Q(2,4-6)] have q': "q = Q\<lparr>kq_exchange := repad SPDM_MAX_DHE_KEY_SIZE (kq_exchange Q),
      kq_session_policy := if at_least SpdmVersion12 n then kq_session_policy Q else 0\<rparr>"
    "take (reader_used r) request = request" by (simp_all add: Q(1))
  have f: "kq_exchange q = repad SPDM_MAX_DHE_KEY_SIZE (kq_exchange Q)" "kq_slot_id q = slot"
    "kq_req_session_id q = kq_req_session_id Q" "need_measurement_summary_hash (runtime_info c1) = summary"
    using Q(3) n1(4) by (simp_all add: q'(1) defs(2))
  have "peers (unat slot) c c1" using ctx(1) n n1 unfolding ctx(4) by (simp add: peers_def)
  note chain = peers_chain [OF this]
  have v: "spdm_version_sel (negotiate_info c1) = spdm_version_sel n" "dhe_sel (negotiate_info c1) = dhe_sel n"
    "base_hash_sel (negotiate_info c1) = base_hash_sel n" using n by (simp_all add: same_algorithms_def)
  have a: "mb_as_ref (message_a (runtime_info c1)) = mb_as_ref (message_a (runtime_info c))"
    using ctx(1) n1(2) by (simp add: peers_def)
  show thesis
    by (rule that [of P final key chain m th1 s0 s1 s1' s2 s' h])
      (fact n R(2) H(3) S(2-4,6) G | use k P R(1) H S(1,5) in \<open>simp only: f q'(2) a v chain same_algorithms_kex [OF n]\<close>)+
qed

lemma key_exchange_agree:
  assumes law: "hash_ctx_law cr fed" "q_crypto pq = cr" "p_crypto pr = cr" "dhe_law enq enr" "env_law enq" "env_law enr"
    and ctx: "peers (unat slot) c c0" "half_ids_inv True c" "half_ids_inv False c0" "\<not> in_clear_text (negotiate_info c)"
      "rq_common st = c" "get_next_half_session_id c True = Ok rid"
    and t: "t \<in> {SpdmMeasurementSummaryHashTypeNone, SpdmMeasurementSummaryHashTypeTcb, SpdmMeasurementSummaryHashTypeAll}"
    and req: "encode_spdm_key_exchange enq rid slot t c = Ok (final, request)"
    and rsp: "write_spdm_key_exchange_response pr enr request send_writer c0 = (Ok u, w, c1)"
    and acc: "handle_spdm_key_exhcange_response pq rid slot request (writer_used_slice w) t final st = (Ok sid, st')"
  shows "linked fed sid (rq_common st') c1 \<and> state_of sid (rq_common st') = Some SpdmSessionHandshaking \<and>
    state_of sid c1 = Some SpdmSessionHandshaking \<and>
    same_algorithms (negotiate_info (rq_common st')) (negotiate_info c1)"
proof -
  let ?n = "negotiate_info c" and ?rsp = "writer_used_slice w" and ?sum = "needs_summary t"
  obtain Q where Q: "request = [SpdmVersion_get_u8 (spdm_version_sel ?n), 0xE4] @ kex_req_image ?n Q"
    "generate_key_pair enq (dhe_sel ?n) = Some (kq_exchange Q, final)"
    "kq_measurement_summary_hash_type Q = t" "kq_slot_id Q = slot" "kq_req_session_id Q = rid"
    "length (kq_random Q) = SPDM_RANDOM_SIZE" "of_size SPDM_MAX_DHE_KEY_SIZE (get_dhe_key_size ?n) (kq_exchange Q)"
    "zero_padded MAX_SPDM_OPAQUE_SIZE (kq_opaque Q)" "version_list_opaque ?n = Ok (kq_opaque Q)"
    by (rule kex_req_sent [OF req law(5) refl])
  have t': "SpdmMeasurementSummaryHashType_of_u8 (SpdmMeasurementSummaryHashType_get_u8 (kq_measurement_summary_hash_type Q)) =
      kq_measurement_summary_hash_type Q" using t by (auto simp: Q(3) SpdmMeasurementSummaryHashType_of_u8_def)
  obtain finr P key chain m h th1 s0 s1 s1' s2 s' where
    k: "generate_key_pair enr (dhe_sel ?n) = Some (kr_exchange P, finr)"
      "finr (repad SPDM_MAX_DHE_KEY_SIZE (kq_exchange Q)) = Some key"
      "get_certchain_hash_peer cr c False (unat slot) = Ok (Some chain)" and
    P: "kex_rsp_sized ?n ?sum P" "?rsp = [SpdmVersion_get_u8 (spdm_version_sel ?n), 0x64] @ kex_rsp_image ?n ?sum P"
      "?rsp = m @ as_ref (kr_signature P) @ as_ref (kr_verify_data P)" and
    H: "hash_all cr (base_hash_sel ?n) ((mb_as_ref (message_a (runtime_info c)) @ as_ref chain @ request) @
        m @ as_ref (kr_signature P)) = Some th1"
      "setup_dhe_session cr (p_transport pr) (negotiate_info c1) (message_a (runtime_info c1)) chain slot key
        (session_id_of (kr_rsp_session_id P) rid) s0 = (Ok (), s1)" "same_session s1 s1'"
      "generate_handshake_secret cr (spdm_version_sel ?n) th1 s1' = (Ok (), s2)" and
    S: "get_session_via_id c1 (session_id_of (kr_rsp_session_id P) rid) = Some s'" "keys_agree s2 s'"
      "mut_auth_requested s' = 0" "session_state s' = SpdmSessionHandshaking"
      "log_of fed s' = (base_hash_sel ?n, (mb_as_ref (message_a (runtime_info c)) @ as_ref chain @ request) @ ?rsp)" and
    n: "same_algorithms ?n (negotiate_info c1)" and
    "hash_all cr (base_hash_sel ?n) ((mb_as_ref (message_a (runtime_info c)) @ as_ref chain @ request) @ m) = Some h"
    "sign_hash enr (negotiate_info c1) SPDM_VERSION_1_2_SIGNING_CONTEXT_ZEROPAD_2
      SPDM_KEY_EXCHANGE_RESPONSE_SIGN_CONTEXT h = Ok (kr_signature P)"
    "generate_hmac_with_response_finished_key cr (as_ref th1) s2 = Ok (kr_verify_data P)" and
    D: "digest_context_th (s_runtime_info s') \<noteq> None"
    by (rule key_exchange_answer_view [OF law(1,3,6) ctx(1,3,4) refl Q(1) t' Q(4,6-8) rsp refl refl, unfolded Q(3,5)])
  let ?q = "kex_rsp_received ?sum P"
  have d: "take 2 ?rsp = [SpdmVersion_get_u8 (spdm_version_sel ?n), 0x64]" "drop 2 ?rsp = kex_rsp_image ?n ?sum P"
    by (simp_all add: P(2))
  obtain q r key' chain' asz hsz m' h th1' t0 t1 t1' t2 s ss where
    q: "SpdmKeyExchangeResponsePayload_spdm_read ?n ?sum (rd_at (take 2 ?rsp) (drop 2 ?rsp)) = Ok (q, r)"
      "sid = session_id_of (kr_rsp_session_id q) rid" "final (kr_exchange q) = Some key'"
      "get_certchain_hash_peer cr c False (unat slot) = Ok (Some chain')" and
    z: "get_asym_key_size ?n = Ok asz" "get_hash_size ?n = Ok hsz" "m' = take (reader_used r - (unat asz + unat hsz)) ?rsp" and
    H': "hash_all cr (base_hash_sel ?n) ((mb_as_ref (message_a (runtime_info c)) @ as_ref chain' @ request) @
        m' @ as_ref (kr_signature q)) = Some th1'"
      "req_setup_dhe_session cr (q_transport pq) ?n (message_a (runtime_info c)) (Some chain') (kr_mut_auth_req q) key' sid t0 =
        (Ok (), t1)" "same_session t1 t1'" "generate_handshake_secret cr (spdm_version_sel ?n) th1' t1' = (Ok (), t2)" and
    S': "get_session_via_id (rq_common st') sid = Some s" "keys_agree t2 s"
      "mut_auth_requested s = kr_mut_auth_req q" "session_state s = SpdmSessionHandshaking"
      "log_of fed s = (base_hash_sel ?n, (mb_as_ref (message_a (runtime_info c)) @ as_ref chain' @ request) @
        m' @ as_ref (kr_signature q) @ as_ref (kr_verify_data q))"
      "digest_context_th (s_runtime_info s) \<noteq> None" and
    C: "rq_common st' = (upd_rt (need_measurement_summary_hash_update (\<lambda>_. ?sum)) c)\<lparr>session := ss\<rparr>"
    using key_exchange_accepted [OF _ _ _ acc _ refl refl refl, of fed, unfolded law(2) ctx(5), OF law(1) ctx(2,6,4)]
    unfolding Let_def by (elim exE conjE) (rule that)
  have qr: "q = ?q" "r = rd_at ?rsp []" using q(1) kex_rsp_arrives [OF P(1) ctx(4)] unfolding d P(2) by simp_all
  note f = kex_rsp_received_fields [OF P(1) z(1,2), folded qr(1)]
  have m: "m' = m" unfolding z(3) f(6) qr(2) by (simp add: P(3))
  have sid: "sid = session_id_of (kr_rsp_session_id P) rid" and c: "chain' = chain" using q(2,4) k(3) f(4) by simp_all
  have "as_ref (repad SPDM_MAX_DHE_KEY_SIZE (kq_exchange Q)) = as_ref (kq_exchange Q)"
    using Q(7) by (simp add: of_size_def as_ref_repad)
  then have "final (kr_exchange q) = finr (repad SPDM_MAX_DHE_KEY_SIZE (kq_exchange Q))"
    using law(4) Q(2) k(1) f(3) unfolding dhe_law_def by blast
  then have key: "key' = key" using q(3) k(2) by simp
  have th: "th1' = th1" using H(1) H'(1) unfolding c m f(1) by simp
  have "keys_agree t1' s1'"
    using setups_agree [OF n H'(2) [unfolded key c] H(2)] same_session_agree [OF H(3)] same_session_agree [OF H'(3)]
    by (blast intro: keys_agree_trans keys_agree_sym)
  from secrets_agree(1) [OF this H'(4)] H(4) have "keys_agree t2 s2" unfolding th by auto
  with S(2) S'(2) have "keys_agree s s'" by (blast intro: keys_agree_trans keys_agree_sym)
  moreover have "log_of fed s = log_of fed s'" unfolding S(5) S'(5) c m f(1,2) by (simp add: P(3))
  ultimately show ?thesis using S S' D f(5) n C unfolding sid linked_def state_of_def by simp
qed

section \<open>Finish\<close>

lemma linked_log:
  assumes "linked fed sid c c'" "get_session_via_id c sid = Some s" "log_of fed s = (a, l)"
  obtains s' where "get_session_via_id c' sid = Some s'" "keys_agree s s'" "log_of fed s' = (a, l)"
    "mut_auth_requested s' = 0"
  using assms by (auto simp: linked_def)

lemma finish_agree:
  assumes law: "hash_ctx_law cr fed" and n: "same_algorithms (negotiate_info (rq_common st)) (negotiate_info c0)"
      "\<not> in_clear_text (negotiate_info (rq_common st))"
    and before: "linked fed sid (rq_common st) c0"
    and req: "encode_spdm_finish cr en sid slot st = (Ok request, st1)"
    and rsp: "write_spdm_finish_response cr sid request send_writer c0 = (Ok u, w, c1)"
    and sent: "linked fed sid (rq_common st1) (rq_common st2)" "negotiate_info (rq_common st2) = negotiate_info (rq_common st1)"
    and acc: "handle_spdm_finish_response cr sid slot (writer_used_slice w) st2 = (Ok v, st3)"
  shows "\<exists>s s'. get_session_via_id (rq_common st3) sid = Some s \<and> get_session_via_id c1 sid = Some s' \<and>
    session_state s = SpdmSessionEstablished \<and> keys_agree s s'"
proof -
  let ?n = "negotiate_info (rq_common st)"
  obtain s0 s0' a l where s: "get_session_via_id (rq_common st) sid = Some s0" "get_session_via_id c0 sid = Some s0'"
    "mut_auth_requested s0 = 0" "mut_auth_requested s0' = 0" "keys_agree s0 s0'" "log_of fed s0 = (a, l)" "log_of fed s0' = (a, l)"
    using before by (cases "log_of fed (the (get_session_via_id c0 sid))") (auto simp: linked_def)
  from finish_sent [OF law session_log_start [OF s(1,6)] s(3) req refl] obtain z mac ss where
    q: "get_hash_size ?n = Ok z" "request = [SpdmVersion_get_u8 (spdm_version_sel ?n), 0xE5, 0, slot] @ as_ref mac"
      "length (as_ref mac) = unat z" "session_log fed sid s0 a (l @ request) (rq_common st1)"
      "st1 = st\<lparr>rq_common := (rq_common st)\<lparr>session := ss\<rparr>\<rparr>" by blast
  have sz: "get_hash_size (negotiate_info c0) = Ok z" "\<not> in_clear_text (negotiate_info c0)"
    "spdm_version_sel (negotiate_info c0) = spdm_version_sel ?n"
    using n q(1) same_algorithms_sizes [OF n(1)] by (simp_all add: same_algorithms_def)
  from finish_completed [OF law s(2,4,7) rsp] sz obtain th2 s1 s2 where
    r: "writer_used_slice w = [SpdmVersion_get_u8 (spdm_version_sel ?n), 0x65, 0, 0]"
      "hash_all cr a (l @ take (4 + unat z) request @ writer_used_slice w) = Some th2" "same_session s0' s1"
      "generate_data_secret cr (spdm_version_sel ?n) th2 s1 = (Ok (), s2)" "get_session_via_id c1 sid = Some s2"
    by auto
  from q(4) obtain t0 where t0: "get_session_via_id (rq_common st1) sid = Some t0" "same_session s0 t0"
    "log_of fed t0 = (a, l @ request)" by (rule session_logE)
  from linked_log [OF sent(1) t0(1,3)] obtain t1 where t1: "get_session_via_id (rq_common st2) sid = Some t1"
    "keys_agree t0 t1" "log_of fed t1 = (a, l @ request)" "mut_auth_requested t1 = 0" by blast
  have n2: "negotiate_info (rq_common st2) = ?n" using sent(2) by (simp add: q(5))
  from finish_received [OF law session_log_start [OF t1(1,3)] t1(4) acc refl] n(2) n2 obtain th2' t2 t3 t where
    f: "hash_all cr a ((l @ request) @ take 4 (writer_used_slice w)) = Some th2'" "same_session t1 t2"
      "generate_data_secret cr (spdm_version_sel ?n) th2' t2 = (Ok (), t3)" "get_session_via_id (rq_common st3) sid = Some t"
      "keys_agree t3 t" "session_state t = SpdmSessionEstablished" by auto
  have "th2' = th2" using f(1) r(2) q(2,3) by (simp add: r(1))
  moreover have "keys_agree t2 s1"
    using same_session_agree [OF t0(2)] t1(2) same_session_agree [OF f(2)] s(5) same_session_agree [OF r(3)]
    by (blast intro: keys_agree_trans keys_agree_sym)
  ultimately have "keys_agree t3 s2" using secrets_agree(2) [OF _ f(3), of s1] r(4) by auto
  then show ?thesis using f(4-6) r(5) by (blast intro: keys_agree_trans keys_agree_sym)
qed

end
