(* ===== verification/Handshake_Progress.thy ===== *)
theory Handshake_Progress
  imports Key_Agreement
begin

text \<open>
  Honest runs get through. When the cryptographic callbacks work for the negotiated algorithms (\<open>crypto_works\<close>),
  no step of a handshake between a requester and a responder that know each other fails: the request is answered,
  the answer is accepted, and the FINISH exchange establishes the session. Together with the agreement of
  \<open>Key_Agreement\<close> both ends then hold the same keys.
\<close>

section \<open>Definitions\<close>

text \<open>
  What the callbacks promise for the hash algorithm \<open>a\<close>, whose digests have \<open>n\<close> bytes: they do not fail, they
  return values of the sizes asked for, and a HMAC that was generated verifies.
\<close>

definition secret_ok :: "sized_data \<Rightarrow> bool" where
  "secret_ok d \<longleftrightarrow> 0 < data_size d \<and> data_size d \<le> 64"

definition crypto_works :: "'h crypto \<Rightarrow> SpdmBaseHashAlgo \<Rightarrow> u16 \<Rightarrow> bool" where
  "crypto_works cr a n \<longleftrightarrow> SpdmBaseHashAlgo_get_size a = Ok n \<and>
    (\<forall>bs. \<exists>d. hash_all cr a bs = Some d \<and> data_size d = n \<and> sized_ok SPDM_MAX_HASH_SIZE d) \<and>
    (\<exists>h. hash_ctx_init cr a = Some h) \<and> (\<forall>h bs. \<exists>h'. hash_ctx_update cr h bs = Ok h') \<and>
    (\<forall>k bs. \<exists>d. hmac cr a k bs = Some d \<and> data_size d = n \<and> sized_ok SPDM_MAX_HASH_SIZE d \<and>
      (\<forall>mac. as_ref mac = as_ref d \<longrightarrow> hmac_verify cr a k bs mac = Ok ())) \<and>
    (\<forall>sl ikm. \<exists>prk. hkdf_extract cr a sl ikm = Some prk \<and> secret_ok prk) \<and>
    (\<forall>prk info m. 0 < m \<and> m \<le> 64 \<longrightarrow> (\<exists>okm. hkdf_expand cr a prk info m = Some okm \<and> data_size okm = m))"

section \<open>Key derivation\<close>

lemma secret_ok_from_hkdf:
  "secret_ok d \<Longrightarrow> \<exists>x. from_hkdf SPDM_MAX_HASH_SIZE d = Some x \<and> secret_ok x"
  by (auto simp: from_hkdf_def secret_ok_def)

lemma works_hash:
  assumes "crypto_works cr a n"
  obtains d where "hash_all cr a bs = Some d" "data_size d = n" "sized_ok SPDM_MAX_HASH_SIZE d"
  using assms unfolding crypto_works_def by blast

lemma works_extract:
  assumes "crypto_works cr a n"
  obtains prk where "hkdf_extract cr a sl ikm = Some prk" "secret_ok prk"
  using assms unfolding crypto_works_def by metis

lemma works_size:
  assumes "crypto_works cr a n"
  shows "SpdmBaseHashAlgo_get_size a = Ok n" "0 < n" "n \<le> 64"
  using assms by (auto simp: crypto_works_def SpdmBaseHashAlgo_get_size_def split: if_splits)

lemma expand_ikm_works:
  assumes "crypto_works cr a n" "secret_ok (ikm_inner ikm)" "0 < m" "m \<le> 64"
  shows "\<exists>okm. expand_ikm cr a ikm info m = Some okm \<and> data_size okm = m"
proof -
  from secret_ok_from_hkdf [OF assms(2)] obtain prk where
    "SpdmHkdfPseudoRandomKey_from_input_keying_material ikm = Some prk"
    by (auto simp: SpdmHkdfPseudoRandomKey_from_input_keying_material_def)
  with assms show ?thesis by (simp add: expand_ikm_def crypto_works_def)
qed

lemma derive_handshake_secret_works:
  assumes "crypto_works cr a n"
  shows "\<exists>x. derive_handshake_secret cr v a k = Ok (Some x) \<and> secret_ok x"
proof -
  obtain prk where "hkdf_extract cr a (take (unat n) SALT_0) (Ikm_DheFinalKey k) = Some prk" "secret_ok prk"
    by (rule works_extract [OF assms])
  with secret_ok_from_hkdf [OF this(2)] works_size(1) [OF assms] show ?thesis
    by (simp add: derive_handshake_secret_def SpdmHandshakeSecretStruct_from_spdm_hkdf_prk_def)
qed

lemma derive_master_secret_works:
  assumes w: "crypto_works cr a n" and k: "secret_ok k"
  shows "\<exists>x. derive_master_secret cr v a k = Ok (Some x) \<and> secret_ok x"
proof -
  note z = works_size [OF w]
  have b: "bin_str n v BIN_STR0_LABEL None = Some (bin_str_layout n v BIN_STR0_LABEL None)"
    by (rule bin_str_Some) (simp_all add: key_labels_def)
  from expand_ikm_works [OF w, of "Ikm_HandshakeSecret k" n "bin_str_layout n v BIN_STR0_LABEL None"] k z obtain salt1
    where s: "expand_ikm cr a (Ikm_HandshakeSecret k) (bin_str_layout n v BIN_STR0_LABEL None) n = Some salt1" by auto
  obtain prk where p: "hkdf_extract cr a (as_ref salt1)
      (Ikm_ZeroFilled \<lparr>data_size = n, data = replicate SPDM_MAX_HASH_SIZE 0\<rparr>) = Some prk" "secret_ok prk"
    by (rule works_extract [OF w])
  with secret_ok_from_hkdf [OF this(2)] z(1) b s show ?thesis
    by (simp add: derive_master_secret_def SpdmMasterSecretStruct_from_spdm_hkdf_prk_def)
qed

text \<open>The derivations by a label and at most the transcript hash; without a pre-shared key.\<close>

lemma derive_labelled_works:
  assumes w: "crypto_works cr a n" and k: "secret_ok k" and th: "length th \<le> 64"
  shows "\<exists>x. derive_request_handshake_secret cr False v a (Some k) hint th = Ok (Some x) \<and> secret_ok x"
    "\<exists>x. derive_response_handshake_secret cr False v a (Some k) hint th = Ok (Some x) \<and> secret_ok x"
    "\<exists>x. derive_finished_key cr v a k = Ok (Some x) \<and> secret_ok x"
    "\<exists>x. derive_request_data_secret cr False v a (Some k) hint th = Ok (Some x) \<and> secret_ok x"
    "\<exists>x. derive_response_data_secret cr False v a (Some k) hint th = Ok (Some x) \<and> secret_ok x"
    "\<exists>x. derive_export_master_secret cr False v a (Some k) hint = Ok (Some x) \<and> secret_ok x"
proof -
  note z = works_size [OF w]
  have b: "bin_str m v l (Some th) = Some (bin_str_layout m v l (Some th))" "bin_str m v l None = Some (bin_str_layout m v l None)"
    if "l \<in> set key_labels" for m l
    using that th by (simp_all add: bin_str_Some)
  have e: "\<exists>okm. expand_ikm cr a ikm info n = Some okm \<and> data_size okm = n" if "ikm_inner ikm = k" for ikm info
    using expand_ikm_works [OF w _ z(2,3)] k that by simp
  have f: "\<exists>x. from_hkdf SPDM_MAX_HASH_SIZE okm = Some x \<and> secret_ok x" if "data_size okm = n" for okm
    using secret_ok_from_hkdf [of okm] z(2,3) that by (simp add: secret_ok_def)
  have l: "BIN_STR1_LABEL \<in> set key_labels" "BIN_STR2_LABEL \<in> set key_labels" "BIN_STR3_LABEL \<in> set key_labels"
    "BIN_STR4_LABEL \<in> set key_labels" "BIN_STR7_LABEL \<in> set key_labels" "BIN_STR8_LABEL \<in> set key_labels"
    by (simp_all add: key_labels_def)
  note d = z(1) b [OF l(1)] b [OF l(2)] b [OF l(3)] b [OF l(4)] b [OF l(5)] b [OF l(6)] expand_key_or_psk_def
  have c: "\<exists>x okm. expand_ikm cr a ikm info n = Some okm \<and> from_hkdf SPDM_MAX_HASH_SIZE okm = Some x \<and> secret_ok x"
    if "ikm_inner ikm = k" for ikm info
    using e [OF that] f by blast
  show "\<exists>x. derive_request_handshake_secret cr False v a (Some k) hint th = Ok (Some x) \<and> secret_ok x"
    using c [of "Ikm_HandshakeSecret k"]
    by (simp add: derive_request_handshake_secret_def d SpdmDirectionHandshakeSecretStruct_from_spdm_hkdf_okm_def) metis
  show "\<exists>x. derive_response_handshake_secret cr False v a (Some k) hint th = Ok (Some x) \<and> secret_ok x"
    using c [of "Ikm_HandshakeSecret k"]
    by (simp add: derive_response_handshake_secret_def d SpdmDirectionHandshakeSecretStruct_from_spdm_hkdf_okm_def) metis
  show "\<exists>x. derive_finished_key cr v a k = Ok (Some x) \<and> secret_ok x"
    using c [of "Ikm_DirectionHandshakeSecret k"]
    by (simp add: derive_finished_key_def d SpdmFinishedKeyStruct_from_spdm_hkdf_okm_def) metis
  show "\<exists>x. derive_request_data_secret cr False v a (Some k) hint th = Ok (Some x) \<and> secret_ok x"
    using c [of "Ikm_MasterSecret k"]
    by (simp add: derive_request_data_secret_def d SpdmDirectionDataSecretStruct_from_spdm_hkdf_okm_def) metis
  show "\<exists>x. derive_response_data_secret cr False v a (Some k) hint th = Ok (Some x) \<and> secret_ok x"
    using c [of "Ikm_MasterSecret k"]
    by (simp add: derive_response_data_secret_def d SpdmDirectionDataSecretStruct_from_spdm_hkdf_okm_def) metis
  show "\<exists>x. derive_export_master_secret cr False v a (Some k) hint = Ok (Some x) \<and> secret_ok x"
    using c [of "Ikm_MasterSecret k"]
    by (simp add: derive_export_master_secret_def d SpdmExportMasterSecretStruct_from_spdm_hkdf_okm_def) metis
qed

lemma derive_aead_key_iv_works:
  assumes w: "crypto_works cr a n" and k: "secret_ok (ikm_inner (major_ikm key))"
    and z: "SpdmAeadAlgo_get_key_size aead = Ok ks" "SpdmAeadAlgo_get_iv_size aead = Ok ivs"
  shows "\<exists>x. derive_aead_key_iv cr v a aead key = Ok (Some x)"
proof -
  have b: "bin_str m v BIN_STR5_LABEL None = Some (bin_str_layout m v BIN_STR5_LABEL None)"
    "bin_str m v BIN_STR6_LABEL None = Some (bin_str_layout m v BIN_STR6_LABEL None)" for m
    by (simp_all add: bin_str_Some key_labels_def)
  obtain o1 where 1: "expand_ikm cr a (major_ikm key) (bin_str_layout ks v BIN_STR5_LABEL None) (of_nat SPDM_MAX_AEAD_KEY_SIZE) =
      Some o1" "data_size o1 = 32"
    using expand_ikm_works [OF w k, of "of_nat SPDM_MAX_AEAD_KEY_SIZE"] by auto
  obtain o2 where 2: "expand_ikm cr a (major_ikm key) (bin_str_layout ivs v BIN_STR6_LABEL None) (of_nat SPDM_MAX_AEAD_IV_SIZE) =
      Some o2" "data_size o2 = 12"
    using expand_ikm_works [OF w k, of "of_nat SPDM_MAX_AEAD_IV_SIZE"] by auto
  have "\<exists>x. from_hkdf SPDM_MAX_AEAD_KEY_SIZE o1 = Some x" "\<exists>x. from_hkdf SPDM_MAX_AEAD_IV_SIZE o2 = Some x"
    using 1(2) 2(2) by (simp_all add: from_hkdf_def)
  with 1 2 z b show ?thesis
    by (auto simp: derive_aead_key_iv_def SpdmAeadKeyStruct_from_spdm_hkdf_okm_def SpdmAeadIvStruct_from_spdm_hkdf_okm_def)
qed

text \<open>A session that can derive keys: its algorithms are the ones that work and its root secrets are in place.\<close>

definition keyed :: "SpdmBaseHashAlgo \<Rightarrow> 'h SpdmSession \<Rightarrow> bool" where
  "keyed a s \<longleftrightarrow> \<not> use_psk s \<and> base_hash_algo (crypto_param s) = a \<and>
    (\<exists>ks. SpdmAeadAlgo_get_key_size (aead_algo (crypto_param s)) = Ok ks) \<and>
    (\<exists>ivs. SpdmAeadAlgo_get_iv_size (aead_algo (crypto_param s)) = Ok ivs) \<and>
    secret_ok (root_handshake_secret (dhe_secret_root s)) \<and> secret_ok (root_master_secret (dhe_secret_root s))"

lemma keyed_agree: "keyed a s \<Longrightarrow> keys_agree s s' \<Longrightarrow> keyed a s'"
  by (simp add: keyed_def keys_agree_def)

lemma set_dhe_secret_works:
  assumes "crypto_works cr a n" "base_hash_algo (crypto_param s) = a"
  shows "\<exists>s'. set_dhe_secret cr v k s = (Ok (), s') \<and>
    secret_ok (root_handshake_secret (dhe_secret_root s')) \<and> secret_ok (root_master_secret (dhe_secret_root s'))"
proof -
  obtain hs where hs: "derive_handshake_secret cr v a k = Ok (Some hs)" "secret_ok hs"
    using derive_handshake_secret_works [OF assms(1)] by blast
  obtain ms where "derive_master_secret cr v a hs = Ok (Some ms)" "secret_ok ms"
    using derive_master_secret_works [OF assms(1) hs(2)] by blast
  with hs assms(2) show ?thesis by (simp add: set_dhe_secret_def Let_def or_crypto_error_def)
qed

lemma handshake_secret_works:
  assumes w: "crypto_works cr a n" and s: "keyed a s" and th: "length (as_ref th) \<le> 64"
  shows "\<exists>s'. generate_handshake_secret cr v th s = (Ok (), s') \<and> keyed a s'"
proof -
  let ?k = "root_handshake_secret (dhe_secret_root s)" and ?h = "psk_hint (s_runtime_info s)"
  from s obtain ks ivs where z: "\<not> use_psk s" "base_hash_algo (crypto_param s) = a"
    "SpdmAeadAlgo_get_key_size (aead_algo (crypto_param s)) = Ok ks" "SpdmAeadAlgo_get_iv_size (aead_algo (crypto_param s)) = Ok ivs"
    "secret_ok ?k" by (auto simp: keyed_def)
  obtain x1 where 1: "derive_request_handshake_secret cr False v a (Some ?k) ?h (as_ref th) = Ok (Some x1)" "secret_ok x1"
    using derive_labelled_works(1) [OF w z(5) th] by blast
  obtain x2 where 2: "derive_response_handshake_secret cr False v a (Some ?k) ?h (as_ref th) = Ok (Some x2)" "secret_ok x2"
    using derive_labelled_works(2) [OF w z(5) th] by blast
  obtain x3 x4 where 3: "derive_finished_key cr v a x1 = Ok (Some x3)" "derive_finished_key cr v a x2 = Ok (Some x4)"
    using derive_labelled_works(3) [OF w 1(2) th] derive_labelled_works(3) [OF w 2(2) th] by blast
  obtain x5 x6 where 4:
    "derive_aead_key_iv cr v a (aead_algo (crypto_param s)) (Major_DirectionHandshakeSecret x1) = Ok (Some x5)"
    "derive_aead_key_iv cr v a (aead_algo (crypto_param s)) (Major_DirectionHandshakeSecret x2) = Ok (Some x6)"
    using derive_aead_key_iv_works [OF w _ z(3,4), where key = "Major_DirectionHandshakeSecret x1" and v = v]
      derive_aead_key_iv_works [OF w _ z(3,4), where key = "Major_DirectionHandshakeSecret x2" and v = v] 1(2) 2(2) by auto
  show ?thesis using s z(1,2) 1(1) 2(1) 3 4
    by (simp add: generate_handshake_secret_def Let_def or_crypto_error_def hs_key_or_none_def keyed_def)
qed

lemma data_secret_works:
  assumes w: "crypto_works cr a n" and s: "keyed a s" and th: "length (as_ref th) \<le> 64"
  shows "\<exists>s'. generate_data_secret cr v th s = (Ok (), s')"
proof -
  let ?k = "root_master_secret (dhe_secret_root s)" and ?h = "psk_hint (s_runtime_info s)"
  from s obtain ks ivs where z: "\<not> use_psk s" "base_hash_algo (crypto_param s) = a"
    "SpdmAeadAlgo_get_key_size (aead_algo (crypto_param s)) = Ok ks" "SpdmAeadAlgo_get_iv_size (aead_algo (crypto_param s)) = Ok ivs"
    "secret_ok ?k" by (auto simp: keyed_def)
  obtain x1 where 1: "derive_request_data_secret cr False v a (Some ?k) ?h (as_ref th) = Ok (Some x1)" "secret_ok x1"
    using derive_labelled_works(4) [OF w z(5) th] by blast
  obtain x2 where 2: "derive_response_data_secret cr False v a (Some ?k) ?h (as_ref th) = Ok (Some x2)" "secret_ok x2"
    using derive_labelled_works(5) [OF w z(5) th] by blast
  obtain x3 where 3: "derive_export_master_secret cr False v a (Some ?k) ?h = Ok (Some x3)"
    using derive_labelled_works(6) [OF w z(5) th] by blast
  obtain x5 x6 where 4:
    "derive_aead_key_iv cr v a (aead_algo (crypto_param s)) (Major_DirectionDataSecret x1) = Ok (Some x5)"
    "derive_aead_key_iv cr v a (aead_algo (crypto_param s)) (Major_DirectionDataSecret x2) = Ok (Some x6)"
    using derive_aead_key_iv_works [OF w _ z(3,4), where key = "Major_DirectionDataSecret x1" and v = v]
      derive_aead_key_iv_works [OF w _ z(3,4), where key = "Major_DirectionDataSecret x2" and v = v] 1(2) 2(2) by auto
  show ?thesis using z(1,2) 1(1) 2(1) 3 4
    by (simp add: generate_data_secret_def Let_def or_crypto_error_def ms_key_or_none_def)
qed

section \<open>Transcripts\<close>

text \<open>As \<open>session_log\<close>, for a session whose running hash is started.\<close>

definition running ::
    "('h \<Rightarrow> SpdmBaseHashAlgo \<times> bytes) \<Rightarrow> u32 \<Rightarrow> 'h SpdmSession \<Rightarrow> SpdmBaseHashAlgo \<Rightarrow> bytes \<Rightarrow>
      'h SpdmContext \<Rightarrow> bool" where
  "running fed sid s a l c \<longleftrightarrow> session_log fed sid s a l c \<and>
    (\<forall>s'. get_session_via_id c sid = Some s' \<longrightarrow> digest_context_th (s_runtime_info s') \<noteq> None)"

lemma running_log: "running fed sid s a l c \<Longrightarrow> session_log fed sid s a l c"
  by (simp add: running_def)

lemma feeds_work:
  assumes "crypto_works cr a n"
  shows "\<exists>h'. run_steps (map (feed cr) bss) (Some h) = (Ok (), Some h')"
proof (induction bss arbitrary: h)
  case (Cons bs bss)
  have "\<exists>h'. hash_ctx_update cr h bs = Ok h'" using assms unfolding crypto_works_def by metis
  then show ?case using Cons by (auto simp: feed_def)
qed simp

lemma digest_append_works:
  assumes "crypto_works cr a n"
  shows "\<exists>h. digest_append cr a e pre bs d = (Ok (), Some h)"
proof -
  obtain h0 where "hash_ctx_init cr a = Some h0" using assms unfolding crypto_works_def by metis
  then show ?thesis using feeds_work [OF assms, of "pre @ [bs]" h0] feeds_work [OF assms, of "[bs]"]
    by (cases d) (simp_all add: digest_append_def open_digest_def)
qed

lemma append_k_runs:
  assumes law: "hash_ctx_law cr fed" and w: "crypto_works cr a n" and s: "base_hash_algo (crypto_param s) = a"
    and l: "session_log fed sid s a l c"
  shows "\<exists>ss. append_message_k cr sid bs c = (Ok (), c\<lparr>session := ss\<rparr>) \<and>
    running fed sid s a (l @ bs) (c\<lparr>session := ss\<rparr>)"
proof -
  from l obtain s' where s': "get_session_via_id c sid = Some s'" "same_session s s'" by (rule session_logE)
  then have "base_hash_algo (crypto_param s') = a" using s by (simp add: same_session_fields)
  with digest_append_works [OF w] obtain h where h: "session_append_k cr bs s' = (Ok (), set_th (Some h) s')"
    by (metis session_append_k_eq fst_conv snd_conv)
  let ?c = "upd_session_via_id sid (\<lambda>_. set_th (Some h) s') c"
  have a: "append_message_k cr sid bs c = (Ok (), ?c)" using s'(1) h by (simp add: append_message_k_def on_session_def)
  have "get_session_via_id ?c sid = Some (set_th (Some h) s')" using s'(1) st.get_key [OF s'(1)] by (simp add: st.get_upd_same)
  with session_log_k [OF law l a] a show ?thesis by (auto simp: running_def set_th_def)
qed

lemma append_f_runs:
  assumes law: "hash_ctx_law cr fed" and w: "crypto_works cr a n" and m: "mut_auth_requested s = 0"
    and l: "running fed sid s a l c"
  shows "\<exists>ss. append_message_f cr r sid bs c = (Ok (), c\<lparr>session := ss\<rparr>) \<and>
    running fed sid s a (l @ bs) (c\<lparr>session := ss\<rparr>)"
proof -
  from running_log [OF l] obtain s' where s': "get_session_via_id c sid = Some s'" "same_session s s'" by (rule session_logE)
  with l obtain h where h: "digest_context_th (s_runtime_info s') = Some h" by (auto simp: running_def)
  obtain h' where h': "hash_ctx_update cr h bs = Ok h'" using w unfolding crypto_works_def by metis
  have "mut_auth_requested s' = 0" using s'(2) m by (simp add: same_session_fields)
  then have md: "mut_cert_digest cr r c s' = Ok None" by (simp add: mut_cert_digest_def)
  let ?s = "s'\<lparr>s_runtime_info := (s_runtime_info s')\<lparr>message_f_initialized := True, digest_context_th := Some h'\<rparr>\<rparr>"
  let ?c = "upd_session_via_id sid (\<lambda>_. ?s) c"
  have "session_append_f cr None bs s' = (Ok (), ?s)"
    using h h' by (cases "s_runtime_info s'") (simp add: session_append_f_def upd_th_def feed_def)
  then have a: "append_message_f cr r sid bs c = (Ok (), ?c)"
    using s'(1) h md by (simp add: append_message_f_def on_session_def)
  have "get_session_via_id ?c sid = Some ?s" using s'(1) st.get_key [OF s'(1)] by (simp add: st.get_upd_same)
  with session_log_f [OF law running_log [OF l] disjI2 [OF m] a] a show ?thesis by (auto simp: running_def)
qed

lemma hash_runs:
  assumes law: "hash_ctx_law cr fed" and w: "crypto_works cr a n" and l: "running fed sid s a l c"
  obtains s' th where "get_session_via_id c sid = Some s'" "same_session s s'" "calc_transcript_hash cr s' = Ok th"
    "hash_all cr a l = Some th" "length (as_ref th) = unat n" "length (as_ref th) \<le> 64"
proof -
  from running_log [OF l] obtain s' where s': "get_session_via_id c sid = Some s'" "same_session s s'" "log_of fed s' = (a, l)"
    by (rule session_logE)
  with l obtain h where h: "digest_context_th (s_runtime_info s') = Some h" by (auto simp: running_def)
  obtain d where d: "hash_all cr a l = Some d" "data_size d = n" "sized_ok SPDM_MAX_HASH_SIZE d" by (rule works_hash [OF w])
  have "fed h = (a, l)" using s'(3) h by (simp add: log_of_def)
  then have "calc_transcript_hash cr s' = Ok d"
    using law h d(1) by (simp add: calc_transcript_hash_def hash_ctx_law_def)
  moreover have "length (as_ref d) = unat n" "length (as_ref d) \<le> 64"
    using d(2,3) by (auto simp: as_ref_def sized_ok_def)
  ultimately show thesis using that s'(1,2) d(1) by blast
qed

section \<open>The responder's half of the key exchange\<close>

text \<open>The signing key answers, and what it signed verifies under the certificates \<open>certs\<close>.\<close>

definition signing_works :: "env \<Rightarrow> 'h crypto \<Rightarrow> SpdmBaseHashAlgo \<Rightarrow> SpdmBaseAsymAlgo \<Rightarrow> bytes \<Rightarrow> bool" where
  "signing_works en cr a b certs \<longleftrightarrow> (\<forall>m. \<exists>sig asz. asym_sign en a b m = Some sig \<and> SpdmBaseAsymAlgo_get_size b = Ok asz \<and>
    length (as_ref sig) = unat asz \<and>
    (\<forall>sig'. as_ref sig' = as_ref sig \<longrightarrow> asym_verify cr a b certs m sig' = Ok ()))"

lemma sign_append_fits:
  "mb_ok k m \<Longrightarrow> length (mb_as_ref m) + length (concat bss) \<le> k \<Longrightarrow>
    \<exists>m'. sign_append bss m = Ok m' \<and> mb_as_ref m' = mb_as_ref m @ concat bss"
proof (induction bss arbitrary: m)
  case (Cons bs bss)
  from mb.append_fits [OF Cons.prems(1), of bs] Cons.prems(2) obtain m1 where
    1: "append_message bs m = (Some (length bs), m1)" "mb_as_ref m1 = mb_as_ref m @ bs" "mb_ok k m1" by auto
  from Cons.IH [OF 1(3)] 1 Cons.prems(2) show ?case by auto
qed simp

lemma message_to_sign_works:
  assumes "at_least SpdmVersion12 ni" "length (as_ref h) \<le> 64"
  shows "\<exists>m. message_to_sign ni SPDM_VERSION_1_2_SIGNING_CONTEXT_ZEROPAD_2 SPDM_KEY_EXCHANGE_RESPONSE_SIGN_CONTEXT h = Ok m"
proof -
  let ?bss = "[SPDM_VERSION_1_2_SIGNING_PREFIX_CONTEXT, SPDM_VERSION_1_2_SIGNING_CONTEXT_ZEROPAD_2,
    SPDM_KEY_EXCHANGE_RESPONSE_SIGN_CONTEXT, as_ref h]"
  have "length (SPDM_VERSION_1_2_SIGNING_PREFIX_CONTEXT @ SPDM_VERSION_1_2_SIGNING_CONTEXT_ZEROPAD_2 @
      SPDM_KEY_EXCHANGE_RESPONSE_SIGN_CONTEXT) = 100" by code_simp
  then have "length (mb_as_ref (reset_message ManagedBuffer12Sign_default)) + length (concat ?bss) \<le> MAX_MANAGED_BUFFER_12SIGN_SIZE"
    using assms(2) by (simp add: MAX_MANAGED_BUFFER_12SIGN_SIZE_def mb_as_ref_def reset_message_def)
  moreover have "mb_ok MAX_MANAGED_BUFFER_12SIGN_SIZE (reset_message ManagedBuffer12Sign_default)"
    unfolding ManagedBuffer12Sign_default_def using mb.reset_empty mb_default_ok by blast
  ultimately show ?thesis using sign_append_fits assms(1) by (fastforce simp: message_to_sign_def)
qed

text \<open>A step that derives keys from the transcript.\<close>

lemma secret_runs:
  assumes l: "running fed sid s a l c" and f: "\<forall>s1. same_session s s1 \<longrightarrow> (\<exists>s2. f s1 = (Ok (), s2))"
    and fr: "\<And>s. frame s (snd (f s))"
  shows "\<exists>s1 s2 ss. on_session sid Panic f c = (Ok (), c\<lparr>session := ss\<rparr>) \<and> same_session s s1 \<and> f s1 = (Ok (), s2) \<and>
    running fed sid s2 a l (c\<lparr>session := ss\<rparr>)"
proof -
  from running_log [OF l] obtain s1 where s1: "get_session_via_id c sid = Some s1" "same_session s s1" by (rule session_logE)
  from f s1(2) obtain s2 where s2: "f s1 = (Ok (), s2)" by blast
  let ?c = "upd_session_via_id sid (\<lambda>_. s2) c"
  have o: "on_session sid Panic f c = (Ok (), ?c)" using s1(1) s2 by (simp add: on_session_def)
  from session_log_step [OF running_log [OF l] o fr] obtain t1 t2 ss where
    t: "f t1 = (Ok (), t2)" "get_session_via_id ?c sid = Some t2" "session_log fed sid t2 a l ?c" "?c = c\<lparr>session := ss\<rparr>"
    by metis
  have "frame s1 s2" using fr [of s1] s2 by simp
  then have "session_id s2 = sid" "s_runtime_info s2 = s_runtime_info s1"
    using st.get_key [OF s1(1)] by (simp_all add: frame_def)
  then have "get_session_via_id ?c sid = Some s2" "digest_context_th (s_runtime_info s2) \<noteq> None"
    using s1(1) l by (simp_all add: st.get_upd_same running_def)
  then have "running fed sid s2 a l ?c" using t(2,3) by (simp add: running_def)
  with o t(4) s1(2) s2 show ?thesis by metis
qed

lemma hmac_works:
  assumes "crypto_works cr a n" "base_hash_algo (crypto_param s) = a"
  obtains mac where "generate_hmac_with_response_finished_key cr m s = Ok mac" "length (as_ref mac) = unat n"
    "\<And>mac'. as_ref mac' = as_ref mac \<Longrightarrow> verify_hmac_with_response_finished_key cr m mac' s = Ok ()"
proof -
  obtain d where d: "hmac cr a (as_ref (response_finished_key (handshake_secret s))) m = Some d" "data_size d = n"
    "sized_ok SPDM_MAX_HASH_SIZE d"
    "\<forall>mac. as_ref mac = as_ref d \<longrightarrow> hmac_verify cr a (as_ref (response_finished_key (handshake_secret s))) m mac = Ok ()"
    using assms(1) unfolding crypto_works_def by metis
  then have "length (as_ref d) = unat n" by (simp add: as_ref_def sized_ok_def)
  moreover have "generate_hmac_with_response_finished_key cr m s = Ok d"
    using d(1) assms(2) by (simp add: generate_hmac_with_response_finished_key_def)
  moreover have "verify_hmac_with_response_finished_key cr m mac' s = Ok ()" if "as_ref mac' = as_ref d" for mac'
    using d(4) that assms(2) unfolding verify_hmac_with_response_finished_key_def by blast
  ultimately show thesis using that by blast
qed

lemma finish_key_exchange_runs:
  assumes law: "hash_ctx_law cr fed" and w: "crypto_works cr a n" and s: "keyed a s" and l: "session_log fed sid s a l c"
    and sg: "signing_works en cr (base_hash_sel (negotiate_info c)) (base_asym_sel (negotiate_info c)) certs"
    and ni: "\<not> in_clear_text (negotiate_info c)" "at_least SpdmVersion12 (negotiate_info c)"
      "get_asym_key_size (negotiate_info c) = Ok asz"
    and out: "unat n + unat asz \<le> length out"
  shows "\<exists>w' c'. finish_key_exchange cr en request sid slot (unat asz) (unat n) (wr_at out room) c = (Ok (), w', c') \<and>
    get_session_via_id c' sid \<noteq> None"
proof -
  let ?m = "take (length out - (unat n + unat asz)) out"
  have h: "base_hash_algo (crypto_param s) = a" using s by (simp add: keyed_def)
  obtain ss1 where 1: "append_message_k cr sid request c = (Ok (), c\<lparr>session := ss1\<rparr>)"
    "running fed sid s a (l @ request) (c\<lparr>session := ss1\<rparr>)" using append_k_runs [OF law w h l] by blast
  obtain ss2 where 2: "append_message_k cr sid ?m (c\<lparr>session := ss1\<rparr>) = (Ok (), c\<lparr>session := ss2\<rparr>)"
    "running fed sid s a (l @ request @ ?m) (c\<lparr>session := ss2\<rparr>)"
    using append_k_runs [OF law w h running_log [OF 1(2)], of ?m] by auto
  obtain s1 th0 where t0: "get_session_via_id (c\<lparr>session := ss2\<rparr>) sid = Some s1" "calc_transcript_hash cr s1 = Ok th0"
    "length (as_ref th0) \<le> 64" by (rule hash_runs [OF law w 2(2)])
  obtain m where m: "message_to_sign (negotiate_info c) SPDM_VERSION_1_2_SIGNING_CONTEXT_ZEROPAD_2
      SPDM_KEY_EXCHANGE_RESPONSE_SIGN_CONTEXT th0 = Ok m" using message_to_sign_works [OF ni(2) t0(3)] by blast
  obtain sig where sig: "asym_sign en (base_hash_sel (negotiate_info c)) (base_asym_sel (negotiate_info c)) m = Some sig"
    "length (as_ref sig) = unat asz" using sg ni(3) unfolding signing_works_def get_asym_key_size_def
    by (metis result.inject(1))
  have g: "generate_key_exchange_rsp_signature cr en slot s1 (c\<lparr>session := ss2\<rparr>) = Ok sig"
    using t0(2) m sig(1) by (simp add: generate_key_exchange_rsp_signature_def calc_rsp_transcript_hash_def sign_hash_def)
  obtain ss3 where 3: "append_message_k cr sid (as_ref sig) (c\<lparr>session := ss2\<rparr>) = (Ok (), c\<lparr>session := ss3\<rparr>)"
    "running fed sid s a (l @ request @ ?m @ as_ref sig) (c\<lparr>session := ss3\<rparr>)"
    using append_k_runs [OF law w h running_log [OF 2(2)], of "as_ref sig"] by auto
  obtain s2 th1 where t1: "get_session_via_id (c\<lparr>session := ss3\<rparr>) sid = Some s2" "calc_transcript_hash cr s2 = Ok th1"
    "length (as_ref th1) \<le> 64" by (rule hash_runs [OF law w 3(2)])
  let ?v = "spdm_version_sel (negotiate_info c)"
  have "\<forall>s1. same_session s s1 \<longrightarrow> (\<exists>s2. generate_handshake_secret cr ?v th1 s1 = (Ok (), s2))"
    using handshake_secret_works [OF w keyed_agree [OF s same_session_agree] t1(3)] by blast
  from secret_runs [OF 3(2) this frame_secrets(2)] obtain t2 t3 ss4 where
    4: "on_session sid Panic (generate_handshake_secret cr ?v th1) (c\<lparr>session := ss3\<rparr>) = (Ok (), c\<lparr>session := ss4\<rparr>)"
      "same_session s t2" "generate_handshake_secret cr ?v th1 t2 = (Ok (), t3)"
      "running fed sid t3 a (l @ request @ ?m @ as_ref sig) (c\<lparr>session := ss4\<rparr>)"
    by auto
  have k: "keyed a t3"
    using handshake_secret_works [OF w keyed_agree [OF s same_session_agree [OF 4(2)]] t1(3), of ?v] 4(3) by simp
  obtain s4 th where t4: "get_session_via_id (c\<lparr>session := ss4\<rparr>) sid = Some s4" "same_session t3 s4"
    "calc_transcript_hash cr s4 = Ok th" by (rule hash_runs [OF law w 4(4)])
  have h4: "base_hash_algo (crypto_param t3) = a" "base_hash_algo (crypto_param s4) = a"
    using k t4(2) by (simp_all add: keyed_def same_session_fields)
  obtain mac where mac: "generate_hmac_with_response_finished_key cr (as_ref th) s4 = Ok mac" "length (as_ref mac) = unat n"
    by (rule hmac_works [OF w h4(2)])
  obtain ss5 where 5: "append_message_k cr sid (as_ref mac) (c\<lparr>session := ss4\<rparr>) = (Ok (), c\<lparr>session := ss5\<rparr>)"
    "running fed sid t3 a (l @ request @ ?m @ as_ref sig @ as_ref mac) (c\<lparr>session := ss5\<rparr>)"
    using append_k_runs [OF law w h4(1) running_log [OF 4(4)], of "as_ref mac"] by auto
  from running_log [OF 5(2)] have "get_session_via_id (c\<lparr>session := ss5\<rparr>) sid \<noteq> None" by (auto elim: session_logE)
  then show ?thesis
    using 1(1) 2(1) t0(1) g 3(1) t1(1,2) 4(1) t4(1,3) mac 5(1) sig(2) out ni(1)
    by (simp add: finish_key_exchange_def Let_def seq_Ok simple_Ok with_session_Ok session_steps_Ok written_Ok
        response_hmac_def recover_Ok patch_Ok)
qed

definition aead_known :: "SpdmNegotiateInfo \<Rightarrow> bool" where
  "aead_known ni \<longleftrightarrow> (\<exists>ks. SpdmAeadAlgo_get_key_size (aead_sel ni) = Ok ks) \<and>
    (\<exists>ivs. SpdmAeadAlgo_get_iv_size (aead_sel ni) = Ok ivs)"

lemma dhe_keyed:
  assumes w: "crypto_works cr (base_hash_sel ni) n" and a: "aead_known ni"
    and s: "\<not> use_psk s" "base_hash_algo (crypto_param s) = base_hash_sel ni" "aead_algo (crypto_param s) = aead_sel ni"
  shows "\<exists>s'. set_dhe_secret cr v k s = (Ok (), s') \<and> keyed (base_hash_sel ni) s'"
proof -
  from set_dhe_secret_works [OF w s(2), of v k] obtain s' where s': "set_dhe_secret cr v k s = (Ok (), s')"
    "secret_ok (root_handshake_secret (dhe_secret_root s'))" "secret_ok (root_master_secret (dhe_secret_root s'))" by blast
  have "frame s s'" using frame_secrets(1) [of s cr v k] s'(1) by simp
  with s' s a show ?thesis by (auto simp: keyed_def frame_def aead_known_def)
qed

lemma crypto_params_simps [simp]:
  "use_psk (crypto_params ni t s) = use_psk s" "base_hash_algo (crypto_param (crypto_params ni t s)) = base_hash_sel ni"
  "aead_algo (crypto_param (crypto_params ni t s)) = aead_sel ni"
  by (simp_all add: crypto_params_def set_crypto_param_def set_transport_param_def)

lemma setup_dhe_runs:
  assumes w: "crypto_works cr (base_hash_sel ni) n" and a: "aead_known ni" and s: "session_id s = 0"
  shows "\<exists>s'. setup_dhe_session cr t ni msg_a chain slot k sid s = (Ok (), s') \<and> keyed (base_hash_sel ni) s'"
    "\<exists>s'. req_setup_dhe_session cr t ni msg_a chain' ma k sid s = (Ok (), s') \<and> keyed (base_hash_sel ni) s'"
proof -
  let ?s = "(crypto_params ni t ((set_default s)\<lparr>session_id := sid, use_psk := False, slot_id := slot\<rparr>))\<lparr>mut_auth_requested := 0\<rparr>"
  let ?q = "crypto_params ni t ((set_default s)\<lparr>session_id := sid, use_psk := False, mut_auth_requested := ma\<rparr>)"
  obtain s1 where "set_dhe_secret cr (spdm_version_sel ni) k ?s = (Ok (), s1)" "keyed (base_hash_sel ni) s1"
    using dhe_keyed [OF w a, of ?s] by auto
  then show "\<exists>s'. setup_dhe_session cr t ni msg_a chain slot k sid s = (Ok (), s') \<and> keyed (base_hash_sel ni) s'"
    using s by (simp add: setup_dhe_session_def session_setup_def INVALID_SESSION_ID_def keyed_def)
  obtain s2 where "set_dhe_secret cr (spdm_version_sel ni) k ?q = (Ok (), s2)" "keyed (base_hash_sel ni) s2"
    using dhe_keyed [OF w a, of ?q] by auto
  then show "\<exists>s'. req_setup_dhe_session cr t ni msg_a chain' ma k sid s = (Ok (), s') \<and> keyed (base_hash_sel ni) s'"
    using s by (simp add: req_setup_dhe_session_def session_setup_def INVALID_SESSION_ID_def keyed_def)
qed

lemma next_half_loop_free: "\<exists>s \<in> set ss. session_id s = 0 \<Longrightarrow> \<exists>i. next_half_loop r k ss = Ok i"
proof (induction ss arbitrary: k)
  case (Cons s ss)
  then show ?case by (cases "session_id s = 0") (auto simp: half_session_id_def INVALID_HALF_SESSION_ID_def)
qed simp

lemma free_half_id:
  assumes "get_session_via_id c 0 = Some s" "length (session c) = MAX_SPDM_SESSION_COUNT"
  shows "\<exists>i. get_next_half_session_id c r = Ok i"
proof -
  have "\<exists>s \<in> set (session c). session_id s = 0" using assms(1)
    by (auto simp: get_session_via_id_def find_Some_iff)
  then show ?thesis using assms(2) next_half_loop_free by (simp add: get_next_half_session_id_def)
qed

lemma certchain_hash_works:
  assumes "crypto_works cr (base_hash_sel (negotiate_info c)) n" "i < length (my_cert_chain (provision_info c))"
    "my_cert_chain (provision_info c) ! i = Some chain"
  shows "\<exists>d. get_certchain_hash_local cr c False i = Ok (Some d)"
proof -
  obtain d where "hash_all cr (base_hash_sel (negotiate_info c)) (as_ref chain) = Some d" "sized_ok SPDM_MAX_HASH_SIZE d"
    by (rule works_hash [OF assms(1)])
  moreover from this have "length (as_ref d) \<le> SPDM_MAX_HASH_SIZE" by (simp add: as_ref_def sized_ok_def)
  ultimately show ?thesis using assms(2,3) by (simp add: get_certchain_hash_local_def index_panic_def sized_from_def)
qed

lemma open_dhe_runs:
  assumes inv: "half_ids_inv False c" and w: "crypto_works (p_crypto p) (base_hash_sel (negotiate_info c)) n"
    and a: "aead_known (negotiate_info c)"
    and k: "generate_key_pair en (dhe_sel (negotiate_info c)) = Some (ex, final)" "final (kq_exchange q) = Some key"
    and ch: "unat (kq_slot_id q) < length (my_cert_chain (provision_info c))"
      "my_cert_chain (provision_info c) ! unat (kq_slot_id q) = Some chain"
    and free: "get_session_via_id c 0 = Some s0"
  shows "\<exists>rsp ss s. open_dhe_session p en q wr c = (Ok (ex, rsp), wr, c\<lparr>session := ss\<rparr>) \<and>
    get_session_via_id (c\<lparr>session := ss\<rparr>) (session_id_of rsp (kq_req_session_id q)) = Some s \<and>
    keyed (base_hash_sel (negotiate_info c)) s \<and> (\<exists>l. log_of fed s = (base_hash_sel (negotiate_info c), l))"
proof -
  let ?n = "negotiate_info c"
  obtain rsp where rsp: "get_next_half_session_id c False = Ok rsp"
    using free_half_id [OF free] inv by (auto simp: half_ids_inv_def)
  obtain d where d: "get_certchain_hash_local (p_crypto p) c False (unat (kq_slot_id q)) = Ok (Some d)"
    using certchain_hash_works [OF w ch] by blast
  let ?sid = "session_id_of rsp (kq_req_session_id q)"
  obtain s where s: "setup_dhe_session (p_crypto p) (p_transport p) ?n (message_a (runtime_info c)) d (kq_slot_id q) key ?sid s0 =
      (Ok (), s)" "keyed (base_hash_sel ?n) s" using setup_dhe_runs(1) [OF w a st.get_key [OF free]] by blast
  let ?c = "upd_session_via_id 0 (\<lambda>_. s) c"
  have "open_dhe_session p en q wr c = (Ok (ex, rsp), wr, ?c)"
    using k rsp d free s(1)
    by (simp add: open_dhe_session_def seq_Ok simple_Ok Let_def get_next_avaiable_session_def on_session_def)
  moreover have "\<exists>ss. ?c = c\<lparr>session := ss\<rparr>" using open_dhe_frame [OF calculation] by blast
  moreover have "get_session_via_id ?c ?sid = Some s"
  proof -
    have half: "get_next_half_session_id c False = Ok (half_session_id False ?sid)" by (simp add: rsp half_session_id_of)
    then have "get_session_via_id c ?sid = None" using half_ids_open(2) [OF inv half, of "\<lambda>s. s"] by auto
    from get_session_opened [OF this free, of "\<lambda>_. s"] setup_dhe_Ok(1) [OF s(1)] show ?thesis by simp
  qed
  ultimately show ?thesis using s(2) setup_dhe_Ok(6) [OF s(1), of fed] by metis
qed

text \<open>The response fits the send buffer, with the placeholders for the signature and the HMAC.\<close>

lemma emits_asserted: "sz = Ok (data_size d) \<Longrightarrow> emits (asserted_encode sz d) (as_ref d)"
  by (simp add: asserted_encode_def emits_full_bytes)

lemma emits_opaque: "emits (SpdmOpaqueStruct_spdm_encode d) (le_bytes 2 (data_size d) @ as_ref d)"
proof -
  have "list_all2 emits (u16_encode (data_size d) # map u8_encode (as_ref d))
      (le_bytes 2 (data_size d) # map (\<lambda>b. [b]) (as_ref d))"
    by (simp add: emits_u16 emits_u8 list_all2_map_emits)
  from emits_full_encs [OF this] show ?thesis by (simp add: SpdmOpaqueStruct_spdm_encode_def)
qed

lemma emits_kex_rsp_sized:
  assumes "length (kr_random P) = SPDM_RANDOM_SIZE" "get_asym_key_size ni = Ok (data_size (kr_signature P))"
    "get_hash_size ni = Ok (data_size (kr_verify_data P))"
    "summary \<longrightarrow> get_hash_size ni = Ok (data_size (kr_measurement_summary_hash P))"
  shows "emits (SpdmKeyExchangeResponsePayload_spdm_encode ni summary P) (kex_rsp_image ni summary P)"
proof -
  have "emits (SpdmKeyExchangeResponsePayload_spdm_encode ni summary P) (concat
    ([[kr_heartbeat_period P], [0], le_bytes 2 (kr_rsp_session_id P), [kr_mut_auth_req P],
      [kr_req_slot_id P], kr_random P] @ [as_ref (kr_exchange P)] @
     (if summary then [as_ref (kr_measurement_summary_hash P)] else []) @
     [le_bytes 2 (data_size (kr_opaque P)) @ as_ref (kr_opaque P), as_ref (kr_signature P)] @
     (if in_clear_text ni then [] else [as_ref (kr_verify_data P)])))"
    unfolding SpdmKeyExchangeResponsePayload_spdm_encode_def
    using assms by (intro emits_encs list_all2_appendI)
      (simp_all add: emits_BUFFER_FULL emits_u8 emits_u16 c_random.encode_emits emits_full_bytes emits_opaque
        SpdmKeyExchangeMutAuthAttributes_encode_def SpdmDheExchangeStruct_spdm_encode_def
        SpdmDigestStruct_spdm_encode_def SpdmSignatureStruct_spdm_encode_def emits_asserted)
  then show ?thesis
    by (cases summary; cases "in_clear_text ni") (simp_all add: kex_rsp_image_def)
qed

lemma respond_runs:
  assumes "emits (payload c) bs" "length bs + 2 \<le> MAX_SPDM_MSG_SIZE"
  shows "\<exists>room. respond e code payload send_writer c = (Ok (),
    wr_at ([SpdmVersion_get_u8 (spdm_version_sel (negotiate_info c)), SpdmRequestResponseCode_get_u8 code] @ bs) room, c)"
proof -
  let ?v = "spdm_version_sel (negotiate_info c)"
  have "SpdmMessage_spdm_encode ?v code (payload c) (wr_at [] (replicate MAX_SPDM_MSG_SIZE 0)) = (Ok (length bs + 2),
      wr_at ([SpdmVersion_get_u8 ?v, SpdmRequestResponseCode_get_u8 code] @ bs) (replicate (4096 - (length bs + 2)) 0))"
    using emits_Ok [OF emits_message [OF assms(1), of ?v code], of "replicate MAX_SPDM_MSG_SIZE 0" "[]"] assms(2) by simp
  then show ?thesis by (auto simp: respond_def send_writer_at)
qed

lemma match_versions_fmt1:
  "opaque_data_support ni = SpdmOpaqueSupport_OPAQUE_DATA_FMT1 \<Longrightarrow> \<exists>ro. match_versions ni ps opaque = Ok ro"
  by (induction ps arbitrary: opaque) auto

lemma select_secured_version_runs:
  assumes "at_least SpdmVersion12 ni" "opaque_data_support ni = SpdmOpaqueSupport_OPAQUE_DATA_FMT1"
  shows "\<exists>ro. select_secured_version cfg ni (opaque_of REQ_DMTF_OPAQUE_DATA_SUPPORT_VERSION_LIST_DSP0274_FMT1) = Ok ro"
proof -
  have "opaque_data_support ni = OPAQUE_DATA_FMT1" using assms(2)
    by (simp add: OPAQUE_DATA_FMT1_def)
  then have "\<exists>l. rsp_get_dmtf_supported_secure_spdm_version_list ni
        (opaque_of REQ_DMTF_OPAQUE_DATA_SUPPORT_VERSION_LIST_DSP0274_FMT1) = Some l \<and> version_count l = 2"
    using assms(1) by (simp add: rsp_get_dmtf_supported_secure_spdm_version_list_def as_ref_opaque_of
        REQ_DMTF_OPAQUE_DATA_SUPPORT_VERSION_LIST_DSP0274_FMT1_def opaque_reads read_list_few)
  then show ?thesis using match_versions_fmt1 [OF assms(2)]
    by (auto simp: select_secured_version_def MAX_SECURE_SPDM_VERSION_COUNT_def)
qed

lemma key_exchange_stages_run:
  assumes law: "hash_ctx_law (p_crypto p) fed" "env_law en" and w: "crypto_works (p_crypto p) (base_hash_sel ni) n"
    and sg: "signing_works en (p_crypto p) (base_hash_sel ni) (base_asym_sel ni) certs"
    and ni: "ni = negotiate_info c" "\<not> in_clear_text ni" "at_least SpdmVersion12 ni" "aead_known ni" "get_asym_key_size ni = Ok asz"
    and c: "half_ids_inv False c" "get_session_via_id c 0 = Some s0" "\<not> need_measurement_summary_hash (runtime_info c)"
      "has_my_chain (unat (kq_slot_id q)) c"
    and en: "get_random en SPDM_RANDOM_SIZE = Ok random" "generate_key_pair en (dhe_sel ni) = Some (ex, final)"
      "final (kq_exchange q) = Some key" "sized_ok MAX_SPDM_OPAQUE_SIZE ro"
  shows "\<exists>rsp ss w5 w6 c6. open_dhe_session p en q send_writer c = (Ok (ex, rsp), send_writer, c\<lparr>session := ss\<rparr>) \<and>
    respond SPDM_STATUS_INVALID_STATE_LOCAL SpdmResponseKeyExchangeRsp (\<lambda>c.
        SpdmKeyExchangeResponsePayload_spdm_encode (negotiate_info c) (need_measurement_summary_hash (runtime_info c))
          \<lparr>kr_heartbeat_period = c_heartbeat_period (config_info c), kr_rsp_session_id = rsp,
           kr_mut_auth_req = 0, kr_req_slot_id = 0, kr_random = random, kr_exchange = ex,
           kr_measurement_summary_hash = SpdmDigestStruct_default, kr_opaque = ro,
           kr_signature = \<lparr>data_size = asz, data = replicate SPDM_MAX_ASYM_KEY_SIZE 0xBB\<rparr>,
           kr_verify_data = \<lparr>data_size = n, data = replicate SPDM_MAX_HASH_SIZE 0xCC\<rparr>\<rparr>)
      send_writer (c\<lparr>session := ss\<rparr>) = (Ok (), w5, c\<lparr>session := ss\<rparr>) \<and>
    finish_key_exchange (p_crypto p) en request (session_id_of rsp (kq_req_session_id q)) (kq_slot_id q) (unat asz) (unat n)
      w5 (c\<lparr>session := ss\<rparr>) = (Ok (), w6, c6) \<and>
    get_session_via_id c6 (session_id_of rsp (kq_req_session_id q)) \<noteq> None"
proof -
  obtain chain where ch: "unat (kq_slot_id q) < length (my_cert_chain (provision_info c))"
    "my_cert_chain (provision_info c) ! unat (kq_slot_id q) = Some chain" using c(4) by (auto simp: has_my_chain_def)
  obtain rsp ss s l where o: "open_dhe_session p en q send_writer c = (Ok (ex, rsp), send_writer, c\<lparr>session := ss\<rparr>)"
    and s: "get_session_via_id (c\<lparr>session := ss\<rparr>) (session_id_of rsp (kq_req_session_id q)) = Some s"
      "keyed (base_hash_sel ni) s" "log_of fed s = (base_hash_sel ni, l)"
    using open_dhe_runs [OF c(1) w [unfolded ni(1)] ni(4) [unfolded ni(1)] en(2) [unfolded ni(1)] en(3) ch c(2), of send_writer fed]
    unfolding ni(1) by blast
  let ?P = "\<lparr>kr_heartbeat_period = c_heartbeat_period (config_info c), kr_rsp_session_id = rsp,
           kr_mut_auth_req = 0, kr_req_slot_id = 0, kr_random = random, kr_exchange = ex,
           kr_measurement_summary_hash = SpdmDigestStruct_default, kr_opaque = ro,
           kr_signature = \<lparr>data_size = asz, data = replicate SPDM_MAX_ASYM_KEY_SIZE 0xBB\<rparr>,
           kr_verify_data = \<lparr>data_size = n, data = replicate SPDM_MAX_HASH_SIZE 0xCC\<rparr>\<rparr>"
  have hsz: "get_hash_size ni = Ok n" using works_size(1) [OF w] by (simp add: get_hash_size_def)
  have "sized_ok SPDM_MAX_DHE_KEY_SIZE ex" using law(2) en(2) unfolding env_law_def by blast
  then have b: "length random = 32" "unat asz \<le> 512" "unat n \<le> 64" "length (as_ref ex) \<le> 512" "length (as_ref ro) \<le> 1024"
    using law(2) en(1,4) negotiated_sizes_bounded(1) [OF ni(5)] negotiated_sizes_bounded(2) [OF hsz]
    unfolding env_law_def by (auto simp: as_ref_def sized_ok_def MAX_SPDM_OPAQUE_SIZE_def)
  have e: "emits (SpdmKeyExchangeResponsePayload_spdm_encode ni False ?P) (kex_rsp_image ni False ?P)"
    using hsz ni(5) b(1) by (intro emits_kex_rsp_sized) simp_all
  have len: "length (kex_rsp_image ni False ?P) + 2 \<le> MAX_SPDM_MSG_SIZE"
      "unat n + unat asz \<le> length (kex_rsp_image ni False ?P)"
    using b ni(2) by (simp_all add: kex_rsp_image_def as_ref_def)
  let ?payload = "\<lambda>c'. SpdmKeyExchangeResponsePayload_spdm_encode (negotiate_info c') (need_measurement_summary_hash (runtime_info c'))
    (?P\<lparr>kr_heartbeat_period := c_heartbeat_period (config_info c')\<rparr>)"
  have "emits (?payload (c\<lparr>session := ss\<rparr>)) (kex_rsp_image ni False ?P)" using e c(3) ni(1) by simp
  from respond_runs [of ?payload, OF this len(1), of SPDM_STATUS_INVALID_STATE_LOCAL SpdmResponseKeyExchangeRsp] obtain room where
    rs: "respond SPDM_STATUS_INVALID_STATE_LOCAL SpdmResponseKeyExchangeRsp ?payload send_writer (c\<lparr>session := ss\<rparr>) =
      (Ok (), wr_at ([SpdmVersion_get_u8 (spdm_version_sel ni), 0x64] @ kex_rsp_image ni False ?P) room, c\<lparr>session := ss\<rparr>)"
    unfolding ni(1) by auto
  let ?n = "negotiate_info (c\<lparr>session := ss\<rparr>)"
  have "signing_works en (p_crypto p) (base_hash_sel ?n) (base_asym_sel ?n) certs" "\<not> in_clear_text ?n"
    "at_least SpdmVersion12 ?n" "get_asym_key_size ?n = Ok asz" using sg ni by simp_all
  note fin = finish_key_exchange_runs [OF law(1) w s(2) session_log_start [OF s(1,3)] this]
  let ?out = "[SpdmVersion_get_u8 (spdm_version_sel ni), 0x64] @ kex_rsp_image ni False ?P"
  obtain w6 c6 where "finish_key_exchange (p_crypto p) en request (session_id_of rsp (kq_req_session_id q)) (kq_slot_id q)
      (unat asz) (unat n) (wr_at ?out room) (c\<lparr>session := ss\<rparr>) = (Ok (), w6, c6)"
    "get_session_via_id c6 (session_id_of rsp (kq_req_session_id q)) \<noteq> None"
    using fin [of ?out request "kq_slot_id q" room] len(2) by auto
  with o rs show ?thesis
    by (intro exI [of _ rsp] exI [of _ ss] exI [of _ "wr_at ?out room"] exI [of _ w6] exI [of _ c6]) simp
qed

lemma key_exchange_answer_runs:
  assumes law: "hash_ctx_law (p_crypto p) fed" "env_law en"
    and w: "crypto_works (p_crypto p) (base_hash_sel (negotiate_info c)) n"
    and sg: "signing_works en (p_crypto p) (base_hash_sel (negotiate_info c)) (base_asym_sel (negotiate_info c)) certs"
    and ni: "\<not> in_clear_text (negotiate_info c)" "at_least SpdmVersion12 (negotiate_info c)" "aead_known (negotiate_info c)"
    and c: "half_ids_inv False c" "get_session_via_id c 0 = Some s0"
      "SpdmConnectionState_get_u8 SpdmConnectionNegotiated \<le> SpdmConnectionState_get_u8 (connection_state (runtime_info c))"
    and en: "get_random en SPDM_RANDOM_SIZE = Ok random" "generate_key_pair en (dhe_sel (negotiate_info c)) = Some (ex, final)"
    and q: "SpdmMessageHeader_read (reader_init bs) = Some (h, r)" "version h = spdm_version_sel (negotiate_info c)"
      "SpdmKeyExchangeRequestPayload_spdm_read (negotiate_info c) r = Ok (q, r')"
      "final (kq_exchange q) = Some key" "\<not> needs_summary (kq_measurement_summary_hash_type q)"
      "version_list_opaque (negotiate_info c) = Ok (kq_opaque q)"
      "unat (kq_slot_id q) < SPDM_MAX_SLOT_NUMBER" "has_my_chain (unat (kq_slot_id q)) c"
  shows "\<exists>w c'. write_spdm_key_exchange_response p en bs send_writer c = (Ok (), w, c')"
proof -
  let ?ni = "(negotiate_info c)\<lparr>termination_policy_set := (kq_session_policy q AND 1 = 1)\<rparr>"
  let ?c1 = "reset_buffer_via_request_code SpdmRequestKeyExchange None c"
  let ?c2 = "upd_rt (need_measurement_summary_hash_update (\<lambda>_. False)) ?c1"
  let ?c3 = "upd_neg (termination_policy_set_update (\<lambda>_. kq_session_policy q AND 1 = 1)) ?c2"
  let ?c4 = "set_local_used_cert_chain_slot_id (kq_slot_id q) ?c3"
  have c1: "negotiate_info ?c1 = negotiate_info c" "session ?c1 = session c" "config_info ?c1 = config_info c"
      "provision_info ?c1 = provision_info c"
    by (simp_all add: reset_buffer_via_request_code_def reset_message_m_def reset_message_b_def reset_message_c_def Let_def)
  have pol: "in_clear_text ?ni = in_clear_text (negotiate_info c)" "at_least v ?ni = at_least v (negotiate_info c)"
    "aead_known ?ni = aead_known (negotiate_info c)" "get_asym_key_size ?ni = get_asym_key_size (negotiate_info c)"
    "get_hash_size ?ni = get_hash_size (negotiate_info c)" for v
    by (simp_all add: in_clear_text_def at_least_def aead_known_def get_asym_key_size_def get_hash_size_def)
  have c4: "negotiate_info ?c4 = ?ni" "half_ids_inv False ?c4" "get_session_via_id ?c4 0 = Some s0"
    "has_my_chain (unat (kq_slot_id q)) ?c4" "config_info ?c4 = config_info c"
    "\<not> need_measurement_summary_hash (runtime_info ?c4)"
    using c c1 q(8) by (simp_all add: set_local_used_cert_chain_slot_id_def half_ids_inv_def get_session_via_id_def has_my_chain_def)
  obtain ro where ro: "select_secured_version (config_info c) ?ni (kq_opaque q) = Ok ro"
    using select_secured_version_runs [of ?ni "config_info c"] q(6) ni(2) pol(2)
    by (auto simp: version_list_opaque_def split: if_splits)
  obtain asz where asz: "get_asym_key_size (negotiate_info c) = Ok asz"
    using sg unfolding signing_works_def get_asym_key_size_def by blast
  have hsz: "get_hash_size (negotiate_info c) = Ok n" using works_size(1) [OF w] by (simp add: get_hash_size_def)
  have ni': "crypto_works (p_crypto p) (base_hash_sel ?ni) n" "signing_works en (p_crypto p) (base_hash_sel ?ni) (base_asym_sel ?ni) certs"
    "generate_key_pair en (dhe_sel ?ni) = Some (ex, final)" "get_asym_key_size ?ni = Ok asz" using w sg en(2) asz pol by simp_all
  obtain rsp ss w5 w6 c6 where
    o: "open_dhe_session p en q send_writer ?c4 = (Ok (ex, rsp), send_writer, ?c4\<lparr>session := ss\<rparr>)"
    "respond SPDM_STATUS_INVALID_STATE_LOCAL SpdmResponseKeyExchangeRsp (\<lambda>c.
        SpdmKeyExchangeResponsePayload_spdm_encode (negotiate_info c) (need_measurement_summary_hash (runtime_info c))
          \<lparr>kr_heartbeat_period = c_heartbeat_period (config_info c), kr_rsp_session_id = rsp,
           kr_mut_auth_req = 0, kr_req_slot_id = 0, kr_random = random, kr_exchange = ex,
           kr_measurement_summary_hash = SpdmDigestStruct_default, kr_opaque = ro,
           kr_signature = \<lparr>data_size = asz, data = replicate SPDM_MAX_ASYM_KEY_SIZE 0xBB\<rparr>,
           kr_verify_data = \<lparr>data_size = n, data = replicate SPDM_MAX_HASH_SIZE 0xCC\<rparr>\<rparr>)
      send_writer (?c4\<lparr>session := ss\<rparr>) = (Ok (), w5, ?c4\<lparr>session := ss\<rparr>)"
    "finish_key_exchange (p_crypto p) en (take (reader_used r') bs) (session_id_of rsp (kq_req_session_id q)) (kq_slot_id q)
      (unat asz) (unat n) w5 (?c4\<lparr>session := ss\<rparr>) = (Ok (), w6, c6)"
    "get_session_via_id c6 (session_id_of rsp (kq_req_session_id q)) \<noteq> None"
    using key_exchange_stages_run [OF law ni'(1,2) c4(1) [symmetric] ni(1-3) [folded pol(1-3)] ni'(4) c4(2,3,6,4) en(1) ni'(3) q(4)
        select_secured_version_sized [OF ro], of "take (reader_used r') bs"] by (elim exE conjE) (rule that)
  have "\<not> SpdmVersion_get_u8 (spdm_version_sel (negotiate_info c)) < 0x11" using ni(2)
    by (cases "spdm_version_sel (negotiate_info c)") (simp_all add: at_least_def word_le_nat_alt word_less_nat_alt)
  then show ?thesis
    using o q(1-3,5,7,8) c(3) c1 ni(1) pol(1) c4(1,5) en(1) hsz [folded pol(5)] ni'(4) ro
    by (simp add: write_spdm_key_exchange_response_def Let_def seq_Ok simple_Ok read_header_Ok session_steps_Ok
        require_negotiated_def refuse_old_version_def take_summary_hash_def answer_opaque_def require_slot_def
        has_my_chain_def linorder_not_less)
qed

end
