(* ===== verification/Honest_Run.thy ===== *)
theory Honest_Run
  imports Handshake_Progress
begin

text \<open>
  The two ends of an honest key exchange: the requester's request is answered and the answer is accepted, so that
  both ends hold the same keys in a session that is in its handshake.
\<close>

section \<open>The requester's half\<close>

lemma encode_request_runs:
  assumes "emits payload m" "length m + 2 \<le> MAX_SPDM_MSG_SIZE"
  shows "encode_request v code payload = Ok ([SpdmVersion_get_u8 v, SpdmRequestResponseCode_get_u8 code] @ m)"
  using emits_Ok [OF emits_message [OF assms(1), of v code], of "replicate MAX_SPDM_MSG_SIZE 0" "[]"] assms(2)
  by (simp add: encode_request_def send_writer_at slice_to_def wr_at_def)

lemma encode_key_exchange_runs:
  assumes en: "env_law en" "get_random en SPDM_RANDOM_SIZE = Ok random"
      "generate_key_pair en (dhe_sel (negotiate_info c)) = Some (ex, final)"
    and ni: "version_list_opaque (negotiate_info c) = Ok opaque"
  shows "\<exists>request. encode_spdm_key_exchange en rid slot t c = Ok (final, request)"
proof -
  let ?ni = "negotiate_info c"
  let ?P = "\<lparr>kq_measurement_summary_hash_type = t, kq_slot_id = slot, kq_req_session_id = rid,
         kq_session_policy = session_policy (config_info c), kq_random = random, kq_exchange = ex, kq_opaque = opaque\<rparr>"
  have l: "length random = SPDM_RANDOM_SIZE" "sized_ok SPDM_MAX_DHE_KEY_SIZE ex"
    using en unfolding env_law_def by blast+
  have z: "zero_padded MAX_SPDM_OPAQUE_SIZE opaque"
    using ni by (auto simp: version_list_opaque_def zero_padded_def opaque_of_def sized_ok_def
        REQ_DMTF_OPAQUE_DATA_SUPPORT_VERSION_LIST_DSP0277_def
        REQ_DMTF_OPAQUE_DATA_SUPPORT_VERSION_LIST_DSP0274_FMT1_def split: if_splits)
  then have "length (as_ref opaque) \<le> 1024" "length (as_ref ex) \<le> SPDM_MAX_DHE_KEY_SIZE"
    using l(2) by (simp_all add: zero_padded_def sized_ok_def as_ref_def MAX_SPDM_OPAQUE_SIZE_def)
  then have "length (kex_req_image ?ni ?P) + 2 \<le> MAX_SPDM_MSG_SIZE" using l(1) by (simp add: kex_req_image_def)
  from encode_request_runs [OF emits_kex_req this, of "spdm_version_sel ?ni" SpdmRequestKeyExchange] l(1) z en(2,3) ni
  show ?thesis by (simp add: encode_spdm_key_exchange_def Let_def)
qed

lemma verify_key_exchange_runs:
  assumes law: "hash_ctx_law cr fed" and w: "crypto_works cr a n" and s: "keyed a s"
    and l: "session_log fed sid s a l (rq_common st)"
    and ni: "ni = negotiate_info (rq_common st)" "\<not> in_clear_text ni" "get_asym_key_size ni = Ok asz" "get_hash_size ni = Ok n"
    and rsp: "response = m @ as_ref (kr_signature q) @ as_ref (kr_verify_data q)"
      "length (as_ref (kr_signature q)) = unat asz" "length (as_ref (kr_verify_data q)) = unat n"
    and sig: "\<forall>h. hash_all cr a (l @ request @ m) = Some h \<longrightarrow>
      verify_peer_signature cr (unat slot) SPDM_VERSION_1_2_SIGNING_CONTEXT_ZEROPAD_2
        SPDM_KEY_EXCHANGE_RESPONSE_SIGN_CONTEXT h (kr_signature q) (rq_common st) = Ok ()"
    and mac: "\<forall>th1 s1 s2 s3. hash_all cr a (l @ request @ m @ as_ref (kr_signature q)) = Some th1 \<and> same_session s s1 \<and>
      generate_handshake_secret cr (spdm_version_sel ni) th1 s1 = (Ok (), s2) \<and> same_session s2 s3 \<longrightarrow>
      verify_hmac_with_response_finished_key cr (as_ref th1) (kr_verify_data q) s3 = Ok ()"
  shows "\<exists>ss. verify_key_exchange cr sid slot request response (length response) q st =
      (Ok (), st\<lparr>rq_common := (rq_common st)\<lparr>session := ss\<rparr>\<rparr>) \<and>
    get_session_via_id ((rq_common st)\<lparr>session := ss\<rparr>) sid \<noteq> None"
proof -
  let ?c = "rq_common st" and ?sig = "as_ref (kr_signature q)" and ?mac = "as_ref (kr_verify_data q)"
  have h: "base_hash_algo (crypto_param s) = a" using s by (simp add: keyed_def)
  obtain ss1 where 1: "append_message_k cr sid request ?c = (Ok (), ?c\<lparr>session := ss1\<rparr>)"
    "running fed sid s a (l @ request) (?c\<lparr>session := ss1\<rparr>)" using append_k_runs [OF law w h l] by blast
  obtain ss2 where 2: "append_message_k cr sid m (?c\<lparr>session := ss1\<rparr>) = (Ok (), ?c\<lparr>session := ss2\<rparr>)"
    "running fed sid s a (l @ request @ m) (?c\<lparr>session := ss2\<rparr>)"
    using append_k_runs [OF law w h running_log [OF 1(2)], of m] by auto
  obtain s1 th0 where t0: "get_session_via_id (?c\<lparr>session := ss2\<rparr>) sid = Some s1" "calc_transcript_hash cr s1 = Ok th0"
    "hash_all cr a (l @ request @ m) = Some th0" by (rule hash_runs [OF law w 2(2)])
  have v: "verify_key_exchange_rsp_signature cr slot (kr_signature q) s1 (?c\<lparr>session := ss2\<rparr>) = Ok ()"
    using t0 sig by (simp add: verify_key_exchange_rsp_signature_def calc_req_transcript_hash_def verify_peer_signature_sessions)
  obtain ss3 where 3: "append_message_k cr sid ?sig (?c\<lparr>session := ss2\<rparr>) = (Ok (), ?c\<lparr>session := ss3\<rparr>)"
    "running fed sid s a (l @ request @ m @ ?sig) (?c\<lparr>session := ss3\<rparr>)"
    using append_k_runs [OF law w h running_log [OF 2(2)], of ?sig] by auto
  obtain s2 th1 where t1: "get_session_via_id (?c\<lparr>session := ss3\<rparr>) sid = Some s2" "calc_transcript_hash cr s2 = Ok th1"
    "hash_all cr a (l @ request @ m @ ?sig) = Some th1" "length (as_ref th1) \<le> 64" by (rule hash_runs [OF law w 3(2)])
  let ?v = "spdm_version_sel ni"
  have "\<forall>s1. same_session s s1 \<longrightarrow> (\<exists>s2. generate_handshake_secret cr ?v th1 s1 = (Ok (), s2))"
    using handshake_secret_works [OF w keyed_agree [OF s same_session_agree] t1(4)] by blast
  from secret_runs [OF 3(2) this frame_secrets(2)] obtain t2 t3 ss4 where
    4: "on_session sid Panic (generate_handshake_secret cr ?v th1) (?c\<lparr>session := ss3\<rparr>) = (Ok (), ?c\<lparr>session := ss4\<rparr>)"
      "same_session s t2" "generate_handshake_secret cr ?v th1 t2 = (Ok (), t3)"
      "running fed sid t3 a (l @ request @ m @ ?sig) (?c\<lparr>session := ss4\<rparr>)"
    by auto
  have "keyed a t3"
    using handshake_secret_works [OF w keyed_agree [OF s same_session_agree [OF 4(2)]] t1(4), of ?v] 4(3) by simp
  then have h3: "base_hash_algo (crypto_param t3) = a" by (simp add: keyed_def)
  obtain s4 th where t4: "get_session_via_id (?c\<lparr>session := ss4\<rparr>) sid = Some s4" "same_session t3 s4"
    "calc_transcript_hash cr s4 = Ok th" "hash_all cr a (l @ request @ m @ ?sig) = Some th" by (rule hash_runs [OF law w 4(4)])
  have hm: "verify_hmac_with_response_finished_key cr (as_ref th) (kr_verify_data q) s4 = Ok ()"
    using mac t1(3) 4(2,3) t4(2,4) by auto
  obtain ss5 where 5: "append_message_k cr sid ?mac (?c\<lparr>session := ss4\<rparr>) = (Ok (), ?c\<lparr>session := ss5\<rparr>)"
    "running fed sid t3 a (l @ request @ m @ ?sig @ ?mac) (?c\<lparr>session := ss5\<rparr>)"
    using append_k_runs [OF law w h3 running_log [OF 4(4)], of ?mac] by auto
  from running_log [OF 5(2)] have "get_session_via_id (?c\<lparr>session := ss5\<rparr>) sid \<noteq> None" by (auto elim: session_logE)
  then show ?thesis
    using 1(1) 2(1) t0(1) v 3(1) t1(1,2) 4(1) t4(1,3) hm 5(1) ni rsp
    by (intro exI [of _ ss5])
      (simp add: verify_key_exchange_def Let_def rq_Ok slice_but_Ok rq_transcript_hash_def calc_req_transcript_hash_def)
qed

text \<open>The response is accepted when its signature and its HMAC are those of the requester's own transcript.\<close>

lemma key_exchange_accept_runs:
  assumes law: "hash_ctx_law cr fed" "cr = q_crypto p" and w: "crypto_works cr (base_hash_sel ni) n"
    and ctx: "c = rq_common st" "ni = negotiate_info c" "half_ids_inv True c" "get_next_half_session_id c True = Ok rid"
      "get_session_via_id c 0 = Some s0" "\<not> in_clear_text ni" "aead_known ni" "get_asym_key_size ni = Ok asz"
    and rsp: "SpdmMessageHeader_read (reader_init response) = Some (\<lparr>version = spdm_version_sel ni,
        request_response_code = SpdmResponseKeyExchangeRsp\<rparr>, r)"
      "SpdmKeyExchangeResponsePayload_spdm_read ni (needs_summary t) r = Ok (q, rd_at response [])"
      "response = m @ as_ref (kr_signature q) @ as_ref (kr_verify_data q)"
      "length (as_ref (kr_signature q)) = unat asz" "length (as_ref (kr_verify_data q)) = unat n"
    and key: "final (kr_exchange q) = Some key" "get_certchain_hash_peer cr c False (unat slot) = Ok (Some chain)"
    and pre: "pre = mb_as_ref (message_a (runtime_info c)) @ as_ref chain" "sid = session_id_of (kr_rsp_session_id q) rid"
    and sig: "\<forall>h. hash_all cr (base_hash_sel ni) (pre @ request @ m) = Some h \<longrightarrow>
      verify_peer_signature cr (unat slot) SPDM_VERSION_1_2_SIGNING_CONTEXT_ZEROPAD_2
        SPDM_KEY_EXCHANGE_RESPONSE_SIGN_CONTEXT h (kr_signature q) c = Ok ()"
    and mac: "\<forall>th1 s s1 s2 s3. hash_all cr (base_hash_sel ni) (pre @ request @ m @ as_ref (kr_signature q)) = Some th1 \<and>
      req_setup_dhe_session cr (q_transport p) ni (message_a (runtime_info c)) (Some chain) (kr_mut_auth_req q) key sid s0 =
        (Ok (), s) \<and> same_session s s1 \<and> generate_handshake_secret cr (spdm_version_sel ni) th1 s1 = (Ok (), s2) \<and>
      same_session s2 s3 \<longrightarrow> verify_hmac_with_response_finished_key cr (as_ref th1) (kr_verify_data q) s3 = Ok ()"
  shows "\<exists>st'. handle_spdm_key_exhcange_response p rid slot request response t final st = (Ok sid, st')"
proof -
  let ?c = "upd_rt (need_measurement_summary_hash_update (\<lambda>_. needs_summary t)) c"
  let ?mk = "req_setup_dhe_session cr (q_transport p) ni (message_a (runtime_info c)) (Some chain) (kr_mut_auth_req q) key sid"
  obtain s where s: "?mk s0 = (Ok (), s)" "keyed (base_hash_sel ni) s"
    using setup_dhe_runs(2) [OF w ctx(7) st.get_key [OF ctx(5)]] by blast
  let ?c1 = "upd_session_via_id 0 (\<lambda>_. s) ?c"
  have free: "get_session_via_id ?c 0 = Some s0" using ctx(5) by (simp add: get_session_via_id_def)
  have o: "on_session 0 Panic ?mk ?c = (Ok (), ?c1)" using free s(1) by (simp add: on_session_def)
  have inv: "half_ids_inv True ?c" "get_next_half_session_id ?c True = Ok rid"
    using ctx(3,4) by (simp_all add: half_ids_inv_def get_next_half_session_id_def)
  from rq_open_Ok [OF inv o] req_setup_dhe_Ok(1) pre(2) obtain ss1 where
    c1: "?c1 = ?c\<lparr>session := ss1\<rparr>" "get_session_via_id ?c sid = None" by blast
  have s1: "get_session_via_id ?c1 sid = Some s"
    using get_session_opened [OF c1(2) free, of "\<lambda>_. s"] req_setup_dhe_Ok(1) [OF s(1)] by simp
  let ?st = "st\<lparr>rq_common := ?c1\<rparr>"
  have l: "session_log fed sid s (base_hash_sel ni) pre (rq_common ?st)"
    using session_log_start [OF s1] req_setup_dhe_Ok(5) [OF s(1), of fed] pre(1) by simp
  have n1: "ni = negotiate_info (rq_common ?st)" using c1(1) ctx(2) by simp
  have "verify_peer_signature cr (unat slot) z sc h sg (rq_common ?st) = verify_peer_signature cr (unat slot) z sc h sg c"
    for z sc h sg using c1(1) by (simp add: verify_peer_signature_def peer_certs_def)
  note sig' = sig [folded this]
  have hsz: "get_hash_size ni = Ok n" using works_size(1) [OF w] by (simp add: get_hash_size_def)
  have mac': "\<forall>th1 s1 s2 s3. hash_all cr (base_hash_sel ni) (pre @ request @ m @ as_ref (kr_signature q)) = Some th1 \<and>
      same_session s s1 \<and> generate_handshake_secret cr (spdm_version_sel ni) th1 s1 = (Ok (), s2) \<and> same_session s2 s3 \<longrightarrow>
      verify_hmac_with_response_finished_key cr (as_ref th1) (kr_verify_data q) s3 = Ok ()" using mac s(1) by blast
  obtain ss2 where v: "verify_key_exchange cr sid slot request response (length response) q ?st =
      (Ok (), ?st\<lparr>rq_common := (rq_common ?st)\<lparr>session := ss2\<rparr>\<rparr>)"
    "get_session_via_id ((rq_common ?st)\<lparr>session := ss2\<rparr>) sid \<noteq> None"
    using verify_key_exchange_runs [OF law(1) w s(2) l n1 ctx(6,8) hsz rsp(3-5) sig' mac'] by (elim exE conjE) (rule that)
  have ch: "get_certchain_hash_peer cr ?c False (unat slot) = Ok (Some chain)"
    using key(2) by (simp add: get_certchain_hash_peer_def)
  have "accept_key_exchange p rid slot request response (reader_used (rd_at response [])) final q (st\<lparr>rq_common := ?c\<rparr>) =
      (Ok sid, st\<lparr>rq_common := upd_session_via_id sid (req_settle_session (secured_version_of ni (kr_opaque q))
        (kr_heartbeat_period q) SpdmSessionHandshaking) (?c1\<lparr>session := ss2\<rparr>)\<rparr>)"
    unfolding accept_key_exchange_def Let_def
    using v o ch key(1) ctx(2,6) pre(2) free law(2)
    by (auto simp: rq_Ok Option.is_none_def get_next_avaiable_session_def on_session_def update_first_const)
  then show ?thesis using rsp(1,2) ctx(1,2)
    unfolding handle_spdm_key_exhcange_response_def by (simp add: rq_Ok rq_readp_def)
qed

section \<open>The exchange\<close>

text \<open>Random numbers and key pairs are available, and the responder accepts the requester's exchange data.\<close>

definition can_exchange :: "env \<Rightarrow> env \<Rightarrow> SpdmDheAlgo \<Rightarrow> bool" where
  "can_exchange enq enr d \<longleftrightarrow> (\<exists>rq rr e1 f1 e2 f2. get_random enq SPDM_RANDOM_SIZE = Ok rq \<and> get_random enr SPDM_RANDOM_SIZE = Ok rr \<and>
    generate_key_pair enq d = Some (e1, f1) \<and> generate_key_pair enr d = Some (e2, f2) \<and>
    (\<forall>x. as_ref x = as_ref e1 \<longrightarrow> f2 x \<noteq> None))"

text \<open>A context that can open one more session, with the parameters of SPDM 1.2 secured messages in force.\<close>

definition can_open :: "bool \<Rightarrow> 'h SpdmContext \<Rightarrow> bool" where
  "can_open requester c \<longleftrightarrow> half_ids_inv requester c \<and> get_session_via_id c 0 \<noteq> None \<and>
    SpdmConnectionState_get_u8 SpdmConnectionNegotiated \<le> SpdmConnectionState_get_u8 (connection_state (runtime_info c)) \<and>
    spdm_version_sel (negotiate_info c) = SpdmVersion12 \<and> \<not> in_clear_text (negotiate_info c) \<and> aead_known (negotiate_info c) \<and>
    opaque_data_support (negotiate_info c) = SpdmOpaqueSupport_OPAQUE_DATA_FMT1"

lemma key_exchange_answered_runs:
  assumes law: "hash_ctx_law cr fed" "p_crypto pr = cr" "env_law enq" "env_law enr"
    and w: "can_exchange enq enr (dhe_sel (negotiate_info c))" "crypto_works cr (base_hash_sel (negotiate_info c)) n"
      "signing_works enr cr (base_hash_sel (negotiate_info c)) (base_asym_sel (negotiate_info c)) certs"
      "peer_certs (unat slot) c = Ok certs"
    and ctx: "peers (unat slot) c c0" "can_open True c" "can_open False c0" "unat slot < SPDM_MAX_SLOT_NUMBER"
      "get_next_half_session_id c True = Ok rid"
    and req: "encode_spdm_key_exchange enq rid slot SpdmMeasurementSummaryHashTypeNone c = Ok (final, request)"
  shows "\<exists>w c1. write_spdm_key_exchange_response pr enr request send_writer c0 = (Ok (), w, c1)"
proof -
  let ?n = "negotiate_info c"
  obtain Q where Q: "request = [SpdmVersion_get_u8 (spdm_version_sel ?n), 0xE4] @ kex_req_image ?n Q"
    "generate_key_pair enq (dhe_sel ?n) = Some (kq_exchange Q, final)"
    "kq_measurement_summary_hash_type Q = SpdmMeasurementSummaryHashTypeNone" "kq_slot_id Q = slot" "kq_req_session_id Q = rid"
    "length (kq_random Q) = SPDM_RANDOM_SIZE" "of_size SPDM_MAX_DHE_KEY_SIZE (get_dhe_key_size ?n) (kq_exchange Q)"
    "zero_padded MAX_SPDM_OPAQUE_SIZE (kq_opaque Q)" "version_list_opaque ?n = Ok (kq_opaque Q)"
    by (rule kex_req_sent [OF req law(3) refl])
  have n: "same_algorithms ?n (negotiate_info c0)" using ctx(1) by (simp add: peers_def)
  have v: "spdm_version_sel ?n = SpdmVersion12" "spdm_version_sel (negotiate_info c0) = SpdmVersion12"
    "base_hash_sel (negotiate_info c0) = base_hash_sel ?n" "base_asym_sel (negotiate_info c0) = base_asym_sel ?n"
    "dhe_sel (negotiate_info c0) = dhe_sel ?n" "version_list_opaque (negotiate_info c0) = version_list_opaque ?n"
    using n ctx(2) by (simp_all add: same_algorithms_def can_open_def version_list_opaque_def at_least_def)
  let ?q = "Q\<lparr>kq_exchange := repad SPDM_MAX_DHE_KEY_SIZE (kq_exchange Q),
      kq_session_policy := if at_least SpdmVersion12 ?n then kq_session_policy Q else 0\<rparr>"
  have h: "SpdmMessageHeader_read (reader_init request) = Some (\<lparr>version = SpdmVersion12,
      request_response_code = SpdmRequestKeyExchange\<rparr>, rd_at [0x12, 0xE4] (kex_req_image ?n Q))"
    unfolding Q(1) by (simp add: SpdmMessageHeader_read_init v(1) SpdmVersion_of_u8_def SpdmRequestResponseCode_of_u8_def)
  have rd: "SpdmKeyExchangeRequestPayload_spdm_read (negotiate_info c0) (rd_at [0x12, 0xE4] (kex_req_image ?n Q)) =
      Ok (?q, rd_at ([0x12, 0xE4] @ kex_req_image ?n Q) [])"
    using kex_req_read [OF _ Q(6-8), of "[0x12, 0xE4]"] Q(3)
    by (simp add: same_algorithms_kex [OF n, symmetric] summary_type_ok_def)
  have ex: "as_ref (kq_exchange ?q) = as_ref (kq_exchange Q)" using Q(7) by (simp add: of_size_def as_ref_repad)
  obtain random e2 f2 key where e: "get_random enr SPDM_RANDOM_SIZE = Ok random"
    "generate_key_pair enr (dhe_sel (negotiate_info c0)) = Some (e2, f2)" "f2 (kq_exchange ?q) = Some key"
    using w(1) Q(2) ex unfolding can_exchange_def v(5) by (metis option.inject prod.inject not_Some_eq)
  have ch: "has_my_chain (unat (kq_slot_id ?q)) c0"
    using ctx(1) w(4) Q(4) by (auto simp: has_my_chain_def peers_def peer_certs_def index_panic_def rbind_eq_Ok ok_or_eq_Ok)
  from ctx(3) obtain s0 where c0: "half_ids_inv False c0" "get_session_via_id c0 0 = Some s0"
    "SpdmConnectionState_get_u8 SpdmConnectionNegotiated \<le> SpdmConnectionState_get_u8 (connection_state (runtime_info c0))"
    "\<not> in_clear_text (negotiate_info c0)" "at_least SpdmVersion12 (negotiate_info c0)" "aead_known (negotiate_info c0)"
    by (auto simp: can_open_def at_least_def)
  show ?thesis
    by (rule key_exchange_answer_runs [where fed = fed and n = n and certs = certs, OF _ law(4) _ _ c0(4-6,1-3) e(1,2) h _ rd e(3)])
      (use law w v Q ch ctx(4) in \<open>simp_all add: needs_summary_def\<close>)
qed

lemma signature_accepted:
  assumes sg: "signing_works en cr (base_hash_sel n) (base_asym_sel n) certs" and c: "n = negotiate_info c" "peer_certs slot c = Ok certs"
    and m: "same_algorithms n m" "sign_hash en m z sc h = Ok sig" "as_ref sig' = as_ref sig"
  shows "verify_peer_signature cr slot z sc h sig' c = Ok ()"
proof -
  have s: "base_hash_sel m = base_hash_sel n" "base_asym_sel m = base_asym_sel n" "at_least v m = at_least v n" for v
    using m(1) same_algorithms_sizes(5) by (simp_all add: same_algorithms_def at_least_def)
  from m(2) obtain bs where "message_to_sign n z sc h = Ok bs" "asym_sign en (base_hash_sel n) (base_asym_sel n) bs = Some sig"
    by (auto simp: sign_hash_def message_to_sign_def s rbind_eq_Ok ok_or_eq_Ok split: if_splits)
  moreover from this(2) sg m(3) have "asym_verify cr (base_hash_sel n) (base_asym_sel n) certs bs sig' = Ok ()"
    unfolding signing_works_def by (metis option.inject)
  ultimately show ?thesis using c by (simp add: verify_peer_signature_def)
qed

lemma hmac_accepted:
  assumes "crypto_works cr a n" "base_hash_algo (crypto_param s) = a" "keys_agree s s'"
    and "generate_hmac_with_response_finished_key cr m s' = Ok mac" "as_ref mac' = as_ref mac"
  shows "verify_hmac_with_response_finished_key cr m mac' s = Ok ()"
proof -
  obtain mac1 where "generate_hmac_with_response_finished_key cr m s = Ok mac1"
    "\<And>mac'. as_ref mac' = as_ref mac1 \<Longrightarrow> verify_hmac_with_response_finished_key cr m mac' s = Ok ()"
    using hmac_works [OF assms(1,2), of m] by metis
  with hmac_agree(2) [OF assms(3)] assms(4,5) show ?thesis by simp
qed

lemma key_exchange_accepted_runs:
  assumes law: "hash_ctx_law cr fed" "q_crypto pq = cr" "p_crypto pr = cr" "dhe_law enq enr" "env_law enq" "env_law enr"
    and w: "crypto_works cr (base_hash_sel (negotiate_info c)) n"
      "signing_works enr cr (base_hash_sel (negotiate_info c)) (base_asym_sel (negotiate_info c)) certs"
      "peer_certs (unat slot) c = Ok certs"
    and ctx: "peers (unat slot) c c0" "can_open True c" "half_ids_inv False c0" "rq_common st = c" "get_next_half_session_id c True = Ok rid"
    and t: "t = SpdmMeasurementSummaryHashTypeNone"
    and req: "encode_spdm_key_exchange enq rid slot t c = Ok (final, request)"
    and rsp: "write_spdm_key_exchange_response pr enr request send_writer c0 = (Ok u, w, c1)"
  shows "\<exists>sid st'. handle_spdm_key_exhcange_response pq rid slot request (writer_used_slice w) t final st = (Ok sid, st')"
proof -
  let ?n = "negotiate_info c" and ?rsp = "writer_used_slice w" and ?sum = "needs_summary t"
  from ctx(2) obtain s00 where c: "half_ids_inv True c" "get_session_via_id c 0 = Some s00" "spdm_version_sel ?n = SpdmVersion12"
    "\<not> in_clear_text ?n" "aead_known ?n" by (auto simp: can_open_def)
  obtain Q where Q: "request = [SpdmVersion_get_u8 (spdm_version_sel ?n), 0xE4] @ kex_req_image ?n Q"
    "generate_key_pair enq (dhe_sel ?n) = Some (kq_exchange Q, final)"
    "kq_measurement_summary_hash_type Q = t" "kq_slot_id Q = slot" "kq_req_session_id Q = rid"
    "length (kq_random Q) = SPDM_RANDOM_SIZE" "of_size SPDM_MAX_DHE_KEY_SIZE (get_dhe_key_size ?n) (kq_exchange Q)"
    "zero_padded MAX_SPDM_OPAQUE_SIZE (kq_opaque Q)" "version_list_opaque ?n = Ok (kq_opaque Q)"
    by (rule kex_req_sent [OF req law(5) refl])
  have t': "SpdmMeasurementSummaryHashType_of_u8 (SpdmMeasurementSummaryHashType_get_u8 (kq_measurement_summary_hash_type Q)) =
      kq_measurement_summary_hash_type Q" by (simp add: t Q(3) SpdmMeasurementSummaryHashType_of_u8_def)
  obtain finr P key chain m h th1 s0 s1 s1' s2 s' where
    k: "generate_key_pair enr (dhe_sel ?n) = Some (kr_exchange P, finr)"
      "finr (repad SPDM_MAX_DHE_KEY_SIZE (kq_exchange Q)) = Some key"
      "get_certchain_hash_peer cr c False (unat slot) = Ok (Some chain)" and
    P: "kex_rsp_sized ?n ?sum P" "?rsp = [SpdmVersion_get_u8 (spdm_version_sel ?n), 0x64] @ kex_rsp_image ?n ?sum P"
      "?rsp = m @ as_ref (kr_signature P) @ as_ref (kr_verify_data P)" and
    H: "hash_all cr (base_hash_sel ?n) ((mb_as_ref (message_a (runtime_info c)) @ as_ref chain @ request) @
        m @ as_ref (kr_signature P)) = Some th1"
      "setup_dhe_session cr (p_transport pr) (negotiate_info c1) (message_a (runtime_info c1)) chain slot key
        (session_id_of (kr_rsp_session_id P) rid) s0 = (Ok (), s1)" "same_session s1 s1'"
      "generate_handshake_secret cr (spdm_version_sel ?n) th1 s1' = (Ok (), s2)" and
    "get_session_via_id c1 (session_id_of (kr_rsp_session_id P) rid) = Some s'" "keys_agree s2 s'"
      "mut_auth_requested s' = 0" "session_state s' = SpdmSessionHandshaking"
      "log_of fed s' = (base_hash_sel ?n, (mb_as_ref (message_a (runtime_info c)) @ as_ref chain @ request) @ ?rsp)" and
    n: "same_algorithms ?n (negotiate_info c1)" and
    G: "hash_all cr (base_hash_sel ?n) ((mb_as_ref (message_a (runtime_info c)) @ as_ref chain @ request) @ m) = Some h"
      "sign_hash enr (negotiate_info c1) SPDM_VERSION_1_2_SIGNING_CONTEXT_ZEROPAD_2
        SPDM_KEY_EXCHANGE_RESPONSE_SIGN_CONTEXT h = Ok (kr_signature P)"
      "generate_hmac_with_response_finished_key cr (as_ref th1) s2 = Ok (kr_verify_data P)"
      "digest_context_th (s_runtime_info s') \<noteq> None"
    by (rule key_exchange_answer_view [OF law(1,3,6) ctx(1,3) c(4) refl Q(1) t' Q(4,6-8) rsp refl refl, unfolded Q(3,5)])
  let ?q = "kex_rsp_received ?sum P" and ?pre = "mb_as_ref (message_a (runtime_info c)) @ as_ref chain"
  let ?sid = "session_id_of (kr_rsp_session_id ?q) rid"
  have hsz: "get_hash_size ?n = Ok n" using works_size(1) [OF w(1)] by (simp add: get_hash_size_def)
  obtain asz where asz: "get_asym_key_size ?n = Ok asz" using w(2) unfolding signing_works_def get_asym_key_size_def by blast
  note f = kex_rsp_received_fields [OF P(1) asz hsz]
  have len: "length (as_ref (kr_signature ?q)) = unat asz" "length (as_ref (kr_verify_data ?q)) = unat n"
    using P(1) asz hsz by (auto simp: f(1,2) kex_rsp_sized_def of_size_def)
  have hd: "SpdmMessageHeader_read (reader_init ?rsp) = Some (\<lparr>version = spdm_version_sel ?n,
      request_response_code = SpdmResponseKeyExchangeRsp\<rparr>, rd_at [0x12, 0x64] (kex_rsp_image ?n ?sum P))"
    unfolding P(2) by (simp add: SpdmMessageHeader_read_init c(3) SpdmVersion_of_u8_def SpdmRequestResponseCode_of_u8_def)
  have rd: "SpdmKeyExchangeResponsePayload_spdm_read ?n ?sum (rd_at [0x12, 0x64] (kex_rsp_image ?n ?sum P)) = Ok (?q, rd_at ?rsp [])"
    using kex_rsp_arrives [OF P(1) c(4), of "[0x12, 0x64]"] by (simp add: P(2) c(3))
  have "as_ref (repad SPDM_MAX_DHE_KEY_SIZE (kq_exchange Q)) = as_ref (kq_exchange Q)"
    using Q(7) by (simp add: of_size_def as_ref_repad)
  then have key: "final (kr_exchange ?q) = Some key"
    using law(4) Q(2) k(1,2) f(3) unfolding dhe_law_def by metis
  have sig: "\<forall>h. hash_all cr (base_hash_sel ?n) (?pre @ request @ m) = Some h \<longrightarrow>
      verify_peer_signature cr (unat slot) SPDM_VERSION_1_2_SIGNING_CONTEXT_ZEROPAD_2
        SPDM_KEY_EXCHANGE_RESPONSE_SIGN_CONTEXT h (kr_signature ?q) c = Ok ()"
    using G(1) signature_accepted [OF w(2) refl w(3) n G(2) f(1)] by simp
  have mac: "verify_hmac_with_response_finished_key cr (as_ref th1') (kr_verify_data ?q) t3 = Ok ()"
    if "hash_all cr (base_hash_sel ?n) (?pre @ request @ m @ as_ref (kr_signature ?q)) = Some th1'"
      "req_setup_dhe_session cr (q_transport pq) ?n (message_a (runtime_info c)) (Some chain) (kr_mut_auth_req ?q) key ?sid s00 =
        (Ok (), t0)" "same_session t0 t1" "generate_handshake_secret cr (spdm_version_sel ?n) th1' t1 = (Ok (), t2)"
      "same_session t2 t3" for th1' t0 t1 t2 t3
  proof -
    have th: "th1' = th1" using that(1) H(1) f(1) by simp
    have "keys_agree t1 s1'"
      using setups_agree [OF n that(2) H(2)] same_session_agree [OF that(3)] same_session_agree [OF H(3)]
      by (blast intro: keys_agree_trans keys_agree_sym)
    from secrets_agree(1) [OF this that(4)] H(4) have "keys_agree t2 s2" unfolding th by auto
    then have a: "keys_agree t3 s2" using same_session_agree [OF that(5)] by (blast intro: keys_agree_trans keys_agree_sym)
    have "keyed (base_hash_sel ?n) t0" using setup_dhe_runs(2) [OF w(1) c(5) st.get_key [OF c(2)]] that(2) by (metis prod.inject)
    moreover have "frame t1 t2" using frame_secrets(2) [of t1 cr "spdm_version_sel ?n" th1'] that(4) by simp
    ultimately have "base_hash_algo (crypto_param t3) = base_hash_sel ?n"
      using that(3,5) by (simp add: keyed_def frame_def same_session_fields)
    from hmac_accepted [OF w(1) this a G(3) f(2)] show ?thesis unfolding th .
  qed
  have "?rsp = m @ as_ref (kr_signature ?q) @ as_ref (kr_verify_data ?q)" using P(3) f(1,2) by simp
  from key_exchange_accept_runs [where m = m and p = pq and slot = slot and final = final and pre = ?pre and request = request,
      OF law(1) law(2) [symmetric] w(1) ctx(4) [symmetric] refl c(1) ctx(5) c(2,4,5) asz hd rd this len key k(3) refl refl sig] mac
  show ?thesis by blast
qed

lemma key_exchange_completes:
  assumes law: "hash_ctx_law cr fed" "q_crypto pq = cr" "p_crypto pr = cr" "dhe_law enq enr" "env_law enq" "env_law enr"
    and w: "can_exchange enq enr (dhe_sel (negotiate_info c))" "crypto_works cr (base_hash_sel (negotiate_info c)) n"
      "signing_works enr cr (base_hash_sel (negotiate_info c)) (base_asym_sel (negotiate_info c)) certs"
      "peer_certs (unat slot) c = Ok certs"
    and ctx: "peers (unat slot) c c0" "can_open True c" "can_open False c0" "unat slot < SPDM_MAX_SLOT_NUMBER" "rq_common st = c"
    and t: "t = SpdmMeasurementSummaryHashTypeNone"
  shows "\<exists>rid final request w c1 sid st'. get_next_half_session_id c True = Ok rid \<and>
    encode_spdm_key_exchange enq rid slot t c = Ok (final, request) \<and>
    write_spdm_key_exchange_response pr enr request send_writer c0 = (Ok (), w, c1) \<and>
    handle_spdm_key_exhcange_response pq rid slot request (writer_used_slice w) t final st = (Ok sid, st')"
proof -
  let ?n = "negotiate_info c"
  from ctx(2) obtain s0 where c: "half_ids_inv True c" "get_session_via_id c 0 = Some s0" "spdm_version_sel ?n = SpdmVersion12"
    "\<not> in_clear_text ?n" "aead_known ?n" "version_list_opaque ?n = Ok (opaque_of REQ_DMTF_OPAQUE_DATA_SUPPORT_VERSION_LIST_DSP0274_FMT1)"
    by (auto simp: can_open_def version_list_opaque_def at_least_def)
  obtain rid where rid: "get_next_half_session_id c True = Ok rid"
    using free_half_id [OF c(2)] c(1) by (auto simp: half_ids_inv_def)
  obtain random ex final where e: "get_random enq SPDM_RANDOM_SIZE = Ok random" "generate_key_pair enq (dhe_sel ?n) = Some (ex, final)"
    using w(1) by (auto simp: can_exchange_def)
  obtain request where req: "encode_spdm_key_exchange enq rid slot t c = Ok (final, request)"
    using encode_key_exchange_runs [OF law(5) e c(6)] by blast
  obtain w c1 where rsp: "write_spdm_key_exchange_response pr enr request send_writer c0 = (Ok (), w, c1)"
    using key_exchange_answered_runs [OF law(1,3,5,6) w ctx(1-4) rid req [unfolded t]] by blast
  have "half_ids_inv False c0" using ctx(3) by (simp add: can_open_def)
  from key_exchange_accepted_runs [OF law w(2-4) ctx(1,2) this ctx(5) rid t req rsp] rid req rsp show ?thesis by blast
qed

end
