(* ===== verification/Honest_Finish.thy ===== *)
theory Honest_Finish
  imports Honest_Run
begin

text \<open>
  The FINISH exchange of an honest run: between two ends that hold the same keys and the same transcript the
  request is sent, answered and accepted, and the session is established.
\<close>

section \<open>Definitions\<close>

text \<open>A session in its handshake: keys and transcript are there, no mutual authentication.\<close>

definition live ::
    "('h \<Rightarrow> SpdmBaseHashAlgo \<times> bytes) \<Rightarrow> u32 \<Rightarrow> SpdmBaseHashAlgo \<Rightarrow> 'h SpdmContext \<Rightarrow> bool" where
  "live fed sid a c \<longleftrightarrow> (\<exists>s. get_session_via_id c sid = Some s \<and> keyed a s \<and> mut_auth_requested s = 0 \<and>
    fst (log_of fed s) = a \<and> digest_context_th (s_runtime_info s) \<noteq> None)"

section \<open>The request\<close>

lemma request_hmac_works:
  assumes "crypto_works cr a n" "base_hash_algo (crypto_param s) = a"
  obtains mac where "generate_hmac_with_request_finished_key cr m s = Ok mac" "length (as_ref mac) = unat n"
    "\<And>mac'. as_ref mac' = as_ref mac \<Longrightarrow> verify_hmac_with_request_finished_key cr m mac' s = Ok ()"
proof -
  obtain d where d: "hmac cr a (as_ref (request_finished_key (handshake_secret s))) m = Some d" "data_size d = n"
    "sized_ok SPDM_MAX_HASH_SIZE d"
    "\<forall>mac. as_ref mac = as_ref d \<longrightarrow> hmac_verify cr a (as_ref (request_finished_key (handshake_secret s))) m mac = Ok ()"
    using assms(1) unfolding crypto_works_def by metis
  then have "length (as_ref d) = unat n" by (simp add: as_ref_def sized_ok_def)
  moreover have "generate_hmac_with_request_finished_key cr m s = Ok d"
    using d(1) assms(2) by (simp add: generate_hmac_with_request_finished_key_def)
  moreover have "verify_hmac_with_request_finished_key cr m mac' s = Ok ()" if "as_ref mac' = as_ref d" for mac'
    using d(4) that assms(2) unfolding verify_hmac_with_request_finished_key_def by blast
  ultimately show thesis using that by blast
qed

lemma live_running:
  assumes "live fed sid a c" "get_session_via_id c sid = Some s"
  shows "running fed sid s a (snd (log_of fed s)) c" "keyed a s" "mut_auth_requested s = 0"
  using assms session_log_start [OF assms(2), of fed a "snd (log_of fed s)"] by (auto simp: live_def running_def prod_eq_iff)

lemma running_live:
  assumes "running fed sid s a l c" "keyed a s" "mut_auth_requested s = 0"
  shows "live fed sid a c"
proof -
  from running_log [OF assms(1)] obtain s' where s': "get_session_via_id c sid = Some s'" "same_session s s'" by (rule session_logE)
  with assms keyed_agree [OF assms(2) same_session_agree [OF s'(2)]] show ?thesis
    by (auto simp: live_def running_def same_session_fields session_log_def)
qed

lemma emits_finish_req:
  assumes "get_hash_size ni = Ok n"
  shows "emits (SpdmFinishRequestPayload_spdm_encode ni \<lparr>fq_finish_request_attributes = 0, fq_req_slot_id = slot,
      fq_signature = SpdmSignatureStruct_default\<lparr>data_size := 0\<rparr>,
      fq_verify_data = \<lparr>data_size = n, data = replicate SPDM_MAX_HASH_SIZE 0xCC\<rparr>\<rparr>)
    ([0, slot] @ replicate (unat n) 0xCC)"
proof -
  have "emits (SpdmDigestStruct_spdm_encode ni \<lparr>data_size = n, data = replicate SPDM_MAX_HASH_SIZE 0xCC\<rparr>) (replicate (unat n) 0xCC)"
    using assms negotiated_sizes_bounded(2) [OF assms] emits_asserted [of "get_hash_size ni" "\<lparr>data_size = n, data = replicate 64 0xCC\<rparr>"]
    by (simp add: SpdmDigestStruct_spdm_encode_def as_ref_def min_def)
  then have "list_all2 emits (map BUFFER_FULL_enc [SpdmFinishRequestAttributes_encode 0, u8_encode slot] @
      [SpdmDigestStruct_spdm_encode ni \<lparr>data_size = n, data = replicate SPDM_MAX_HASH_SIZE 0xCC\<rparr>])
     [[0], [slot], replicate (unat n) 0xCC]"
    by (simp add: emits_BUFFER_FULL emits_u8 SpdmFinishRequestAttributes_encode_def)
  from emits_encs [OF this] show ?thesis
    by (simp add: SpdmFinishRequestPayload_spdm_encode_def contains_def SIGNATURE_INCLUDED_def)
qed

lemma finish_encode_runs:
  assumes law: "hash_ctx_law cr fed" and w: "crypto_works cr a n"
    and s: "running fed sid s a l (rq_common st)" "keyed a s" "mut_auth_requested s = 0"
    and ni: "base_hash_sel (negotiate_info (rq_common st)) = a"
  shows "\<exists>request st1. encode_spdm_finish cr en sid slot st = (Ok request, st1) \<and> live fed sid a (rq_common st1)"
proof -
  let ?c = "rq_common st" and ?v = "SpdmVersion_get_u8 (spdm_version_sel (negotiate_info (rq_common st)))"
  have hsz: "get_hash_size (negotiate_info ?c) = Ok n" using works_size(1) [OF w] ni by (simp add: get_hash_size_def)
  have n: "unat n \<le> 64" using negotiated_sizes_bounded(2) [OF hsz] by simp
  let ?buf = "[?v, 0xE5, 0, slot] @ replicate (unat n) 0xCC"
  note b = encode_request_runs [OF emits_finish_req [OF hsz, of slot], of "spdm_version_sel (negotiate_info ?c)" SpdmRequestFinish]
  have ma: "mut_auth_requested s' = 0" if "running fed sid s a l' c" "get_session_via_id c sid = Some s'" for s' l' c
    using that s(3) running_log by (fastforce simp: session_log_def same_session_fields)
  obtain s1 where s1: "get_session_via_id ?c sid = Some s1" using running_log [OF s(1)] by (rule session_logE)
  obtain ss1 where 1: "append_message_f cr True sid (take 4 ?buf) ?c = (Ok (), ?c\<lparr>session := ss1\<rparr>)"
    "running fed sid s a (l @ take 4 ?buf) (?c\<lparr>session := ss1\<rparr>)" using append_f_runs [OF law w s(3,1)] by blast
  obtain s2 th where t: "get_session_via_id (?c\<lparr>session := ss1\<rparr>) sid = Some s2" "same_session s s2" "calc_transcript_hash cr s2 = Ok th"
    by (rule hash_runs [OF law w 1(2)])
  have "base_hash_algo (crypto_param s2) = a" using s(2) t(2) by (simp add: keyed_def same_session_fields)
  then obtain mac where mac: "generate_hmac_with_request_finished_key cr (as_ref th) s2 = Ok mac" "length (as_ref mac) = unat n"
    by (rule request_hmac_works [OF w])
  obtain ss2 where 2: "append_message_f cr True sid (as_ref mac) (?c\<lparr>session := ss1\<rparr>) = (Ok (), ?c\<lparr>session := ss2\<rparr>)"
    "running fed sid s a ((l @ take 4 ?buf) @ as_ref mac) (?c\<lparr>session := ss2\<rparr>)"
    using append_f_runs [OF law w s(3) 1(2), of True "as_ref mac"] by auto
  have "live fed sid a (?c\<lparr>session := ss2\<rparr>)" by (rule running_live [OF 2(2) s(2,3)])
  moreover have "encode_spdm_finish cr en sid slot st =
      (Ok ([?v, 0xE5, 0, slot] @ as_ref mac), st\<lparr>rq_common := ?c\<lparr>session := ss2\<rparr>\<rparr>)"
    using s1 ma [OF s(1) s1] hsz b n 1(1) t(1,3) ma [OF 1(2) t(1)] mac 2(1)
    by (simp add: encode_spdm_finish_def Let_def rq_bind_Ok rq_simple_Ok rq_session_Ok rq_transcript_hash_def calc_req_transcript_hash_def
        patch_at_def write_at_eq)
  ultimately show ?thesis by auto
qed

section \<open>The answer\<close>

lemma running_reset:
  assumes "running fed sid s a l c"
  shows "running fed sid s a l (reset_buffer_via_request_code code sid' c)"
proof -
  from running_log [OF assms] obtain s' where s': "get_session_via_id c sid = Some s'" by (rule session_logE)
  let ?f = "\<lambda>s. s\<lparr>s_runtime_info := (s_runtime_info s)\<lparr>s_digest_context_l1l2 := None\<rparr>\<rparr>"
  have m: "get_session_via_id (reset_message_m sid' c) sid = Some (if sid' = Some sid then ?f s' else s')"
    using s' by (cases sid') (auto simp: reset_message_m_def st.get_upd get_session_upd_rt)
  have "session (reset_message_b c1) = session c1" "session (reset_message_c c1) = session c1" for c1 :: "'a SpdmContext"
    by (simp_all add: reset_message_b_def reset_message_c_def)
  then have "session (reset_buffer_via_request_code code sid' c) = session c \<or>
      session (reset_buffer_via_request_code code sid' c) = session (reset_message_m sid' c)"
    by (simp add: reset_buffer_via_request_code_def Let_def)
  then have "get_session_via_id (reset_buffer_via_request_code code sid' c) sid \<in> {Some s', Some (?f s')}"
    using s' m by (auto simp: get_session_via_id_def)
  moreover have "digest_context_th (s_runtime_info s') \<noteq> None" using assms s' by (simp add: running_def)
  ultimately show ?thesis using session_log_reset [OF running_log [OF assms]] by (auto simp: running_def)
qed

lemma reset_buffer_info [simp]: "negotiate_info (reset_buffer_via_request_code code sid c) = negotiate_info c"
  by (cases sid) (simp_all add: reset_buffer_via_request_code_def reset_message_m_def reset_message_b_def reset_message_c_def
      upd_session_via_id_def Let_def)

lemma finish_answer_runs:
  assumes law: "hash_ctx_law cr fed" and w: "crypto_works cr a n"
    and s: "running fed sid s a l c" "keyed a s" "mut_auth_requested s = 0"
    and ni: "base_hash_sel (negotiate_info c) = a" "\<not> in_clear_text (negotiate_info c)" "spdm_version_sel (negotiate_info c) = SpdmVersion12"
    and req: "request = [0x12, 0xE5, 0, slot] @ as_ref mac" "length (as_ref mac) = unat n"
    and mac: "\<forall>th mac'. hash_all cr a (l @ take 4 request) = Some th \<and> as_ref mac' = as_ref mac \<longrightarrow>
      verify_hmac_with_request_finished_key cr (as_ref th) mac' s = Ok ()"
  shows "\<exists>w c'. write_spdm_finish_response cr sid request send_writer c = (Ok (), w, c')"
proof -
  let ?c = "reset_buffer_via_request_code SpdmRequestFinish (Some sid) c"
  have hsz: "get_hash_size (negotiate_info c) = Ok n" using works_size(1) [OF w] ni by (simp add: get_hash_size_def)
  have n: "unat n \<le> 64" using negotiated_sizes_bounded(2) [OF hsz] by simp
  have h: "SpdmMessageHeader_read (reader_init request) = Some (\<lparr>version = SpdmVersion12, request_response_code = SpdmRequestFinish\<rparr>,
      rd_at [0x12, 0xE5] ([0, slot] @ as_ref mac))"
    unfolding req(1) by (simp add: SpdmMessageHeader_read_init SpdmVersion_of_u8_def SpdmRequestResponseCode_of_u8_def)
  let ?q = "\<lparr>fq_finish_request_attributes = 0, fq_req_slot_id = slot, fq_signature = SpdmSignatureStruct_default,
      fq_verify_data = repad SPDM_MAX_HASH_SIZE mac\<rparr>"
  have vd: "as_ref (repad SPDM_MAX_HASH_SIZE mac) = as_ref mac" using n req(2) by (simp add: as_ref_repad)
  have "digest_ok (negotiate_info c) (repad SPDM_MAX_HASH_SIZE mac)"
    using hsz req(2) n by (intro repad_fits of_size_length) simp_all
  then have "finish_req_valid (negotiate_info c) ?q" by (simp add: finish_req_valid_def contains_def SIGNATURE_INCLUDED_def)
  from c_finish_req.read_image [OF this, of "[0x12, 0xE5]" "[]"] obtain r where
    rd: "SpdmFinishRequestPayload_spdm_read (negotiate_info c) (rd_at [0x12, 0xE5] ([0, slot] @ as_ref mac)) = Ok (?q, r)"
    using vd by (simp add: finish_req_image_def contains_def SIGNATURE_INCLUDED_def)
  obtain ss1 where 1: "append_message_f cr False sid (take 4 request) ?c = (Ok (), ?c\<lparr>session := ss1\<rparr>)"
    "running fed sid s a (l @ take 4 request) (?c\<lparr>session := ss1\<rparr>)"
    using append_f_runs [OF law w s(3) running_reset [OF s(1)]] by blast
  obtain s1 th where t1: "get_session_via_id (?c\<lparr>session := ss1\<rparr>) sid = Some s1" "same_session s s1" "calc_transcript_hash cr s1 = Ok th"
    "hash_all cr a (l @ take 4 request) = Some th" by (rule hash_runs [OF law w 1(2)])
  have s1: "mut_auth_requested s1 = 0" "\<not> use_psk s1" using t1(2) s(2,3) by (simp_all add: same_session_fields keyed_def)
  have v: "verify_hmac_with_request_finished_key cr (as_ref th) (repad SPDM_MAX_HASH_SIZE mac) s1 = Ok ()"
    using mac t1(4) vd hmac_agree(3) [OF same_session_agree [OF t1(2)]] by metis
  obtain ss2 where 2: "append_message_f cr False sid (as_ref mac) (?c\<lparr>session := ss1\<rparr>) = (Ok (), ?c\<lparr>session := ss2\<rparr>)"
    "running fed sid s a ((l @ take 4 request) @ as_ref mac) (?c\<lparr>session := ss2\<rparr>)"
    using append_f_runs [OF law w s(3) 1(2), of False "as_ref mac"] by auto
  let ?payload = "\<lambda>c'. SpdmFinishResponsePayload_spdm_encode (negotiate_info c') \<lparr>data_size = n, data = replicate SPDM_MAX_HASH_SIZE 0xCC\<rparr>"
  have "emits (?payload (?c\<lparr>session := ss2\<rparr>)) [0, 0]" using finish_response_emits [OF hsz, of "0xCC"] ni(2) by simp
  from respond_runs [of ?payload, OF this, of SPDM_STATUS_INVALID_STATE_LOCAL SpdmResponseFinishRsp] ni(3) obtain room where
    rs: "respond SPDM_STATUS_INVALID_STATE_LOCAL SpdmResponseFinishRsp ?payload send_writer (?c\<lparr>session := ss2\<rparr>) =
      (Ok (), wr_at [0x12, 0x65, 0, 0] room, ?c\<lparr>session := ss2\<rparr>)" by auto
  obtain ss3 where 3: "append_message_f cr False sid [0x12, 0x65, 0, 0] (?c\<lparr>session := ss2\<rparr>) = (Ok (), ?c\<lparr>session := ss3\<rparr>)"
    "running fed sid s a (((l @ take 4 request) @ as_ref mac) @ [0x12, 0x65, 0, 0]) (?c\<lparr>session := ss3\<rparr>)"
    using append_f_runs [OF law w s(3) 2(2), of False "[0x12, 0x65, 0, 0]"] by auto
  obtain s3 th2 where t3: "get_session_via_id (?c\<lparr>session := ss3\<rparr>) sid = Some s3" "calc_transcript_hash cr s3 = Ok th2"
    "length (as_ref th2) \<le> 64" by (rule hash_runs [OF law w 3(2)])
  have "\<forall>s1. same_session s s1 \<longrightarrow> (\<exists>s2. generate_data_secret cr SpdmVersion12 th2 s1 = (Ok (), s2))"
    using data_secret_works [OF w keyed_agree [OF s(2) same_session_agree] t3(3)] by blast
  from secret_runs [OF 3(2) this frame_secrets(3)] obtain ss4 where
    4: "on_session sid Panic (generate_data_secret cr SpdmVersion12 th2) (?c\<lparr>session := ss3\<rparr>) = (Ok (), ?c\<lparr>session := ss4\<rparr>)" by auto
  have "Ex Not" by (rule exI [of _ False]) simp
  then show ?thesis
    using h ni rd 1(1) t1(1,3) s1 hsz v vd 2(1) rs 3(1) t3(1,2) 4
    by (simp add: write_spdm_finish_response_def check_mut_auth_def verify_request_hmac_def answer_finish_def derive_data_secret_def
        Let_def seq_Ok simple_Ok with_session_Ok session_steps_Ok read_header_Ok written_Ok contains_def SIGNATURE_INCLUDED_def)
qed

section \<open>The established session\<close>

lemma finish_accept_runs:
  assumes law: "hash_ctx_law cr fed" and w: "crypto_works cr a n"
    and s: "running fed sid s a l (rq_common st)" "keyed a s" "mut_auth_requested s = 0"
    and ni: "base_hash_sel (negotiate_info (rq_common st)) = a" "\<not> in_clear_text (negotiate_info (rq_common st))"
  shows "\<exists>st'. handle_spdm_finish_response cr sid slot [v, 0x65, 0, 0] st = (Ok (), st')"
proof -
  let ?c = "rq_common st" and ?rsp = "[v, 0x65, 0, 0]" and ?v = "spdm_version_sel (negotiate_info (rq_common st))"
  have hsz: "get_hash_size (negotiate_info ?c) = Ok n" using works_size(1) [OF w] ni by (simp add: get_hash_size_def)
  have h: "SpdmMessageHeader_read (reader_init ?rsp) = Some (\<lparr>version = SpdmVersion_of_u8 v, request_response_code = SpdmResponseFinishRsp\<rparr>,
      rd_at [v, 0x65] [0, 0])"
    by (simp add: SpdmMessageHeader_read_init SpdmRequestResponseCode_of_u8_def)
  have rd: "SpdmFinishResponsePayload_spdm_read (negotiate_info ?c) (rd_at [v, 0x65] [0, 0]) =
      Ok (SpdmDigestStruct_default, rd_at ?rsp [])"
    using ni(2) by (simp add: SpdmFinishResponsePayload_spdm_read_def rdp_defs optional_digest_def)
  obtain s0 where s0: "get_session_via_id ?c sid = Some s0" using running_log [OF s(1)] by (rule session_logE)
  obtain ss1 where 1: "append_message_f cr True sid ?rsp ?c = (Ok (), ?c\<lparr>session := ss1\<rparr>)"
    "running fed sid s a (l @ ?rsp) (?c\<lparr>session := ss1\<rparr>)" using append_f_runs [OF law w s(3,1)] by blast
  obtain s1 th2 where t1: "get_session_via_id (?c\<lparr>session := ss1\<rparr>) sid = Some s1" "calc_transcript_hash cr s1 = Ok th2"
    "length (as_ref th2) \<le> 64" by (rule hash_runs [OF law w 1(2)])
  have "\<forall>s1. same_session s s1 \<longrightarrow> (\<exists>s2. generate_data_secret cr ?v th2 s1 = (Ok (), s2))"
    using data_secret_works [OF w keyed_agree [OF s(2) same_session_agree] t1(3)] by blast
  from secret_runs [OF 1(2) this frame_secrets(3)] obtain s2 ss2 where
    2: "on_session sid Panic (generate_data_secret cr ?v th2) (?c\<lparr>session := ss1\<rparr>) = (Ok (), ?c\<lparr>session := ss2\<rparr>)"
      "running fed sid s2 a (l @ ?rsp) (?c\<lparr>session := ss2\<rparr>)" by auto
  obtain s3 where s3: "get_session_via_id (?c\<lparr>session := ss2\<rparr>) sid = Some s3" using running_log [OF 2(2)] by (rule session_logE)
  show ?thesis
    using s0 h rd hsz ni(2) 1(1) t1(1,2) 2(1) s3
    by (simp add: handle_spdm_finish_response_def req_derive_data_secret_def Let_def rq_bind_Ok rq_simple_Ok rq_session_Ok on_response_Ok
        rq_readp_def rq_transcript_hash_def calc_req_transcript_hash_def on_session_def)
qed

lemma finish_completes:
  fixes st :: "('h, 'd) RequesterContext"
  assumes law: "hash_ctx_law cr fed" and w: "crypto_works cr (base_hash_sel (negotiate_info (rq_common st))) n"
    and ni: "same_algorithms (negotiate_info (rq_common st)) (negotiate_info c0)"
      "\<not> in_clear_text (negotiate_info (rq_common st))" "spdm_version_sel (negotiate_info (rq_common st)) = SpdmVersion12"
    and ends: "linked fed sid (rq_common st) c0" "a = base_hash_sel (negotiate_info (rq_common st))"
      "live fed sid a (rq_common st)" "live fed sid a c0"
  shows "\<exists>request st1 w c1. encode_spdm_finish cr en sid slot st = (Ok request, st1) \<and>
    write_spdm_finish_response cr sid request send_writer c0 = (Ok (), w, c1) \<and> live fed sid a (rq_common st1) \<and>
    negotiate_info (rq_common st1) = negotiate_info (rq_common st) \<and>
    (\<forall>st2 :: ('h, 'd) RequesterContext. linked fed sid (rq_common st1) (rq_common st2) \<and> live fed sid a (rq_common st2) \<and>
        negotiate_info (rq_common st2) = negotiate_info (rq_common st1) \<longrightarrow>
      (\<exists>st3. handle_spdm_finish_response cr sid slot (writer_used_slice w) st2 = (Ok (), st3)))"
proof -
  let ?n = "negotiate_info (rq_common st)"
  obtain s s' where s: "get_session_via_id (rq_common st) sid = Some s" "get_session_via_id c0 sid = Some s'" "keys_agree s s'"
    "log_of fed s = log_of fed s'" using ends(1) by (auto simp: linked_def)
  note q = live_running [OF ends(3) s(1)] and r = live_running [OF ends(4) s(2)]
  have l: "log_of fed s = (a, snd (log_of fed s))" using ends(3) s(1) by (auto simp: live_def prod_eq_iff)
  have v: "base_hash_sel (negotiate_info c0) = a" "\<not> in_clear_text (negotiate_info c0)" "spdm_version_sel (negotiate_info c0) = SpdmVersion12"
    "get_hash_size ?n = Ok n"
    using ni same_algorithms_sizes [OF ni(1)] ends(2) works_size(1) [OF w] by (simp_all add: same_algorithms_def get_hash_size_def)
  obtain request st1 where e: "encode_spdm_finish cr en sid slot st = (Ok request, st1)" "live fed sid a (rq_common st1)"
    using finish_encode_runs [OF law w [folded ends(2)] q ends(2) [symmetric]] by blast
  from finish_sent [OF law running_log [OF q(1)] q(3) e(1) refl] obtain th mac ss where
    m: "request = [SpdmVersion_get_u8 (spdm_version_sel ?n), 0xE5, 0, slot] @ as_ref mac" "length (as_ref mac) = unat n"
      "hash_all cr a (snd (log_of fed s) @ take 4 request) = Some th" "generate_hmac_with_request_finished_key cr (as_ref th) s = Ok mac"
      "st1 = st\<lparr>rq_common := (rq_common st)\<lparr>session := ss\<rparr>\<rparr>"
    using v(4) by auto
  have "verify_hmac_with_request_finished_key cr (as_ref th') mac' s' = Ok ()"
    if "hash_all cr a (snd (log_of fed s') @ take 4 request) = Some th'" "as_ref mac' = as_ref mac" for th' mac'
  proof -
    have th: "th' = th" using that(1) m(3) s(4) by simp
    have "base_hash_algo (crypto_param s') = a" using r(2) by (simp add: keyed_def)
    then obtain mac1 where "generate_hmac_with_request_finished_key cr (as_ref th) s' = Ok mac1"
      "\<And>mac'. as_ref mac' = as_ref mac1 \<Longrightarrow> verify_hmac_with_request_finished_key cr (as_ref th) mac' s' = Ok ()"
      using request_hmac_works [OF w [folded ends(2)]] by metis
    with hmac_agree(1) [OF s(3)] m(4) that(2) show ?thesis by (simp add: th)
  qed
  then obtain w c1 where rsp: "write_spdm_finish_response cr sid request send_writer c0 = (Ok (), w, c1)"
    using finish_answer_runs [OF law w [folded ends(2)] r v(1-3) _ m(2), of request slot] m(1) ni(3) by auto
  have "writer_used_slice w = [0x12, 0x65, 0, 0]"
    using finish_completed [OF law s(2) r(3) l [unfolded s(4)] rsp] v by auto
  moreover have "\<exists>st3. handle_spdm_finish_response cr sid slot [0x12, 0x65, 0, 0] st2 = (Ok (), st3)"
    if st2: "live fed sid a (rq_common st2)" "negotiate_info (rq_common st2) = negotiate_info (rq_common st1)" for st2
  proof -
    obtain s2 where "get_session_via_id (rq_common st2) sid = Some s2" using st2(1) by (auto simp: live_def)
    note r2 = live_running [OF st2(1) this]
    have "negotiate_info (rq_common st2) = ?n" using st2(2) m(5) by simp
    with finish_accept_runs [OF law w [folded ends(2)] r2] ni(2) ends(2) show ?thesis by simp
  qed
  ultimately show ?thesis using e rsp m(5) by auto
qed

section \<open>The whole handshake\<close>

lemma live_linked: "live fed sid a c \<Longrightarrow> linked fed sid c c"
  by (auto simp: live_def linked_def)

lemma linked_live:
  assumes "linked fed sid c c'" "live fed sid a c"
  shows "live fed sid a c'"
  using assms keyed_agree by (fastforce simp: live_def linked_def)

text \<open>A requester that accepted a KEY_EXCHANGE_RSP has what FINISH needs.\<close>

lemma key_exchange_live:
  assumes law: "hash_ctx_law cr fed" "q_crypto pq = cr" and w: "crypto_works cr (base_hash_sel (negotiate_info c)) n"
    and ctx: "can_open True c" "rq_common st = c" "get_next_half_session_id c True = Ok rid"
    and acc: "handle_spdm_key_exhcange_response pq rid slot request response t final st = (Ok sid, st')"
    and l: "linked fed sid (rq_common st') c1"
  shows "live fed sid (base_hash_sel (negotiate_info c)) (rq_common st') \<and> negotiate_info (rq_common st') = negotiate_info c"
proof -
  have c: "half_ids_inv True c" "\<not> in_clear_text (negotiate_info c)" "aead_known (negotiate_info c)"
    using ctx(1) by (auto simp: can_open_def)
  obtain ma key chain th1 s0 s1 s1' s2 s' l' ss b where
    q: "req_setup_dhe_session cr (q_transport pq) (negotiate_info c) (message_a (runtime_info c)) (Some chain) ma key sid s0 =
        (Ok (), s1)" "same_session s1 s1'" "generate_handshake_secret cr (spdm_version_sel (negotiate_info c)) th1 s1' = (Ok (), s2)"
      "get_session_via_id (rq_common st') sid = Some s'" "keys_agree s2 s'" "log_of fed s' = (base_hash_sel (negotiate_info c), l')"
      "rq_common st' = (upd_rt (need_measurement_summary_hash_update (\<lambda>_. needs_summary t)) c)\<lparr>session := ss\<rparr>"
      "hash_all cr (base_hash_sel (negotiate_info c)) b = Some th1"
    using key_exchange_accepted [OF _ _ _ acc _ refl refl refl, of fed, unfolded law(2) ctx(2), OF law(1) c(1) ctx(3) c(2)]
    unfolding Let_def by (elim exE conjE) (rule that)
  have "session_id s0 = 0" using q(1)
    by (auto simp: req_setup_dhe_session_def session_setup_def INVALID_SESSION_ID_def split: if_splits prod.splits result.splits)
  then have "keyed (base_hash_sel (negotiate_info c)) s1" using setup_dhe_runs(2) [OF w c(3)] q(1) by (metis prod.inject)
  then have k: "keyed (base_hash_sel (negotiate_info c)) s1'" by (rule keyed_agree [OF _ same_session_agree [OF q(2)]])
  obtain d where "hash_all cr (base_hash_sel (negotiate_info c)) b = Some d" "sized_ok SPDM_MAX_HASH_SIZE d" by (rule works_hash [OF w])
  then have "length (as_ref th1) \<le> 64" using q(8) by (simp add: as_ref_def sized_ok_def)
  from handshake_secret_works [OF w k this] q(3) have "keyed (base_hash_sel (negotiate_info c)) s2" by (metis prod.inject)
  then have "keyed (base_hash_sel (negotiate_info c)) s'" by (rule keyed_agree [OF _ q(5)])
  then show ?thesis using q(4,6,7) l by (auto simp: live_def linked_def)
qed

lemma handshake_runs:
  fixes st :: "('h, 'd) RequesterContext"
  assumes law: "hash_ctx_law cr fed" "q_crypto pq = cr" "p_crypto pr = cr" "dhe_law enq enr" "env_law enq" "env_law enr"
    and w: "can_exchange enq enr (dhe_sel (negotiate_info c))" "crypto_works cr (base_hash_sel (negotiate_info c)) n"
      "signing_works enr cr (base_hash_sel (negotiate_info c)) (base_asym_sel (negotiate_info c)) certs"
      "peer_certs (unat slot) c = Ok certs"
    and ctx: "peers (unat slot) c c0" "can_open True c" "can_open False c0" "unat slot < SPDM_MAX_SLOT_NUMBER" "rq_common st = c"
    and t: "t = SpdmMeasurementSummaryHashTypeNone"
  shows "\<exists>rid final request w c1 sid st1 finish st2 w2 c2 st3 s s'.
    get_next_half_session_id c True = Ok rid \<and> encode_spdm_key_exchange enq rid slot t c = Ok (final, request) \<and>
    write_spdm_key_exchange_response pr enr request send_writer c0 = (Ok (), w, c1) \<and>
    handle_spdm_key_exhcange_response pq rid slot request (writer_used_slice w) t final st = (Ok sid, st1) \<and>
    encode_spdm_finish cr enq sid req_slot st1 = (Ok finish, st2) \<and>
    write_spdm_finish_response cr sid finish send_writer c1 = (Ok (), w2, c2) \<and>
    handle_spdm_finish_response cr sid req_slot (writer_used_slice w2) st2 = (Ok (), st3) \<and>
    get_session_via_id (rq_common st3) sid = Some s \<and> get_session_via_id c2 sid = Some s' \<and>
    session_state s = SpdmSessionEstablished \<and> keys_agree s s'"
proof -
  let ?a = "base_hash_sel (negotiate_info c)"
  obtain rid final request w c1 sid st1 where
    k: "get_next_half_session_id c True = Ok rid" "encode_spdm_key_exchange enq rid slot t c = Ok (final, request)"
      "write_spdm_key_exchange_response pr enr request send_writer c0 = (Ok (), w, c1)"
      "handle_spdm_key_exhcange_response pq rid slot request (writer_used_slice w) t final st = (Ok sid, st1)"
    using key_exchange_completes [OF law w ctx t] by blast
  have c: "half_ids_inv True c" "half_ids_inv False c0" "\<not> in_clear_text (negotiate_info c)" "spdm_version_sel (negotiate_info c) = SpdmVersion12"
    using ctx(2,3) by (auto simp: can_open_def)
  have "t \<in> {SpdmMeasurementSummaryHashTypeNone, SpdmMeasurementSummaryHashTypeTcb, SpdmMeasurementSummaryHashTypeAll}" by (simp add: t)
  from key_exchange_agree [OF law ctx(1) c(1-3) ctx(5) k(1) this k(2-4)] have
    l: "linked fed sid (rq_common st1) c1" "same_algorithms (negotiate_info (rq_common st1)) (negotiate_info c1)" by auto
  from key_exchange_live [OF law(1,2) w(2) ctx(2,5) k(1,4) l(1)] have
    n: "live fed sid ?a (rq_common st1)" "negotiate_info (rq_common st1) = negotiate_info c" by auto
  have a: "?a = base_hash_sel (negotiate_info (rq_common st1))" by (simp add: n(2))
  obtain finish st2 w2 c2 where
    f: "encode_spdm_finish cr enq sid req_slot st1 = (Ok finish, st2)"
      "write_spdm_finish_response cr sid finish send_writer c1 = (Ok (), w2, c2)" "live fed sid ?a (rq_common st2)" and
    h: "\<forall>st :: ('h, 'd) RequesterContext. linked fed sid (rq_common st2) (rq_common st) \<and> live fed sid ?a (rq_common st) \<and>
        negotiate_info (rq_common st) = negotiate_info (rq_common st2) \<longrightarrow>
      (\<exists>st3. handle_spdm_finish_response cr sid req_slot (writer_used_slice w2) st = (Ok (), st3))"
    using finish_completes [OF law(1) w(2) [folded n(2)] l(2) c(3,4) [folded n(2)] l(1) a n(1) linked_live [OF l(1) n(1)], of enq req_slot]
    by (elim exE conjE) (rule that)
  from h [rule_format, OF conjI [OF live_linked [OF f(3)] conjI [OF f(3) refl]]] obtain st3 where
    g: "handle_spdm_finish_response cr sid req_slot (writer_used_slice w2) st2 = (Ok (), st3)" by blast
  from finish_agree [OF law(1) l(2) c(3) [folded n(2)] l(1) f(1,2) live_linked [OF f(3)] refl g] k f(1,2) g show ?thesis
    by metis
qed

end
