(* ===== verification/Handshake.thy ===== *)
theory Handshake
  imports Honest_Finish
begin

text \<open>
  The handshake of a session, requester and responder together: its theorems, with two sample contexts that
  satisfy their hypotheses.
\<close>

section \<open>Sample ends\<close>

text \<open>A requester and a responder after negotiation, with one certificate chain; elliptic curves, one hash.\<close>

definition honest_env :: env where
  "honest_env = sample_env\<lparr>
    generate_key_pair := (\<lambda>a. if a = 8 then Some (\<lparr>data_size = 64, data = replicate SPDM_MAX_DHE_KEY_SIZE 3\<rparr>,
      \<lambda>peer. Some \<lparr>data_size = 32, data = replicate SPDM_MAX_DHE_KEY_SIZE 4\<rparr>) else None)\<rparr>"

definition honest_chain :: SpdmCertChainBuffer where
  "honest_chain = \<lparr>data_size = 40, data = replicate 40 1\<rparr>"

definition honest_info :: SpdmNegotiateInfo where
  "honest_info = SpdmNegotiateInfo_default\<lparr>spdm_version_sel := SpdmVersion12, base_hash_sel := 1, base_asym_sel := 0x10,
    dhe_sel := 8, aead_sel := 2, key_schedule_sel := 1, opaque_data_support := 2\<rparr>"

definition honest_responder :: "(SpdmBaseHashAlgo \<times> bytes) SpdmContext" where
  "honest_responder = (SpdmContext_new sample_config \<lparr>my_cert_chain_data = replicate 8 None,
      my_cert_chain = Some honest_chain # replicate 7 None, peer_root_cert_data = None\<rparr>)
    \<lparr>negotiate_info := honest_info, runtime_info := SpdmRuntimeInfo_default\<lparr>connection_state := SpdmConnectionNegotiated\<rparr>\<rparr>"

definition honest_requester :: "(SpdmBaseHashAlgo \<times> bytes) SpdmContext" where
  "honest_requester = (SpdmContext_new sample_config \<lparr>my_cert_chain_data = replicate 8 None,
      my_cert_chain = replicate 8 None, peer_root_cert_data = None\<rparr>)
    \<lparr>negotiate_info := honest_info, runtime_info := SpdmRuntimeInfo_default\<lparr>connection_state := SpdmConnectionNegotiated\<rparr>,
     peer_info := \<lparr>peer_cert_chain = Some honest_chain # replicate 7 None, peer_cert_chain_temp = None\<rparr>\<rparr>"

definition honest_state :: "(SpdmBaseHashAlgo \<times> bytes, unit) RequesterContext" where
  "honest_state = \<lparr>rq_common = honest_requester, rq_device = ()\<rparr>"

definition honest_platform :: "(SpdmBaseHashAlgo \<times> bytes, unit) requester_platform" where
  "honest_platform = \<lparr>q_crypto = sample_crypto, q_transport = MctpTransportEncap, q_send = (\<lambda>_ d. (Ok (), d)),
    q_receive = (\<lambda>bs _ d. ((Err 0, bs), d))\<rparr>"

lemma honest_callbacks:
  "dhe_law honest_env honest_env" "env_law honest_env" "can_exchange honest_env honest_env 8"
  "crypto_works sample_crypto 1 32" "signing_works honest_env sample_crypto 1 0x10 certs"
proof -
  show "dhe_law honest_env honest_env" by (auto simp: dhe_law_def honest_env_def split: if_splits)
  show "env_law honest_env"
    by (auto simp: env_law_def honest_env_def sample_env_def SpdmDheAlgo_get_size_def sized_ok_def split: if_splits)
  show "can_exchange honest_env honest_env 8" by (auto simp: can_exchange_def honest_env_def sample_env_def)
  show "crypto_works sample_crypto 1 32"
    by (auto simp: crypto_works_def sample_crypto_def sample_digest_def sample_secret_def sized_ok_def secret_ok_def
        SpdmBaseHashAlgo_get_size_def)
  show "signing_works honest_env sample_crypto 1 0x10 certs"
    by (auto simp: signing_works_def honest_env_def sample_env_def sample_crypto_def SpdmBaseAsymAlgo_get_size_def as_ref_def)
qed

lemma honest_ends:
  "peers 0 honest_requester honest_responder" "can_open True honest_requester" "can_open False honest_responder"
  "peer_certs 0 honest_requester = Ok (replicate 4 1)"
proof -
  have i: "aead_known honest_info" "\<not> in_clear_text honest_info" "get_hash_size honest_info = Ok 32"
    by (simp_all add: aead_known_def honest_info_def SpdmAeadAlgo_get_key_size_def SpdmAeadAlgo_get_iv_size_def in_clear_text_def
        contains_def SpdmNegotiateInfo_default_def get_hash_size_def SpdmBaseHashAlgo_get_size_def)
  have s: "half_ids_inv r c" "get_session_via_id c 0 = Some SpdmSession_new"
    if "session c = replicate MAX_SPDM_SESSION_COUNT SpdmSession_new" for r and c :: "(SpdmBaseHashAlgo \<times> bytes) SpdmContext"
    using that by (simp add: half_ids_inv_def SpdmSession_new_def INVALID_SESSION_ID_def)
      (use that in \<open>simp add: get_session_via_id_def SpdmSession_new_def INVALID_SESSION_ID_def MAX_SPDM_SESSION_COUNT_def
        config_def numeral_eq_Suc\<close>)
  have c: "session honest_requester = replicate MAX_SPDM_SESSION_COUNT SpdmSession_new" "negotiate_info honest_requester = honest_info"
    "session honest_responder = replicate MAX_SPDM_SESSION_COUNT SpdmSession_new" "negotiate_info honest_responder = honest_info"
    "connection_state (runtime_info honest_requester) = SpdmConnectionNegotiated"
    "connection_state (runtime_info honest_responder) = SpdmConnectionNegotiated"
    "spdm_version_sel honest_info = SpdmVersion12" "opaque_data_support honest_info = 2"
    by (simp_all add: honest_requester_def honest_responder_def SpdmContext_new_def honest_info_def)
  show "peers 0 honest_requester honest_responder"
    by (simp add: peers_def same_algorithms_def honest_requester_def honest_responder_def SpdmContext_new_def)
  show "can_open True honest_requester" "can_open False honest_responder"
    using i(1,2) c s [OF c(1)] s [OF c(3)] by (simp_all add: can_open_def)
  show "peer_certs 0 honest_requester = Ok (replicate 4 1)"
    using i(3) by (simp add: peer_certs_def honest_requester_def SpdmContext_new_def index_panic_def honest_chain_def slice_range_def
        Spdm_Prelude.slice_def)
qed

section \<open>Agreement\<close>

text \<open>
  C1: Key agreement. When a requester accepts the responder's answer to its KEY_EXCHANGE, both have a session
  under the same identifier, in its handshake, with the same keys and the same transcript; the algorithms in
  force are the same. The two ends share the negotiation (\<open>peers\<close>), and Diffie-Hellman gives both the same
  secret (\<open>dhe_law\<close>).
\<close>

theorem key_exchange_agreement:
  assumes "hash_ctx_law cr fed" "q_crypto pq = cr" "p_crypto pr = cr" "dhe_law enq enr" "env_law enq" "env_law enr"
    and "peers (unat slot) c c0" "half_ids_inv True c" "half_ids_inv False c0" "\<not> in_clear_text (negotiate_info c)"
      "rq_common st = c" "get_next_half_session_id c True = Ok rid"
    and "t \<in> {SpdmMeasurementSummaryHashTypeNone, SpdmMeasurementSummaryHashTypeTcb, SpdmMeasurementSummaryHashTypeAll}"
    and "encode_spdm_key_exchange enq rid slot t c = Ok (final, request)"
    and "write_spdm_key_exchange_response pr enr request send_writer c0 = (Ok u, w, c1)"
    and "handle_spdm_key_exhcange_response pq rid slot request (writer_used_slice w) t final st = (Ok sid, st')"
  shows "linked fed sid (rq_common st') c1 \<and> state_of sid (rq_common st') = Some SpdmSessionHandshaking \<and>
    state_of sid c1 = Some SpdmSessionHandshaking \<and> same_algorithms (negotiate_info (rq_common st')) (negotiate_info c1)"
  by (rule key_exchange_agree [OF assms])

lemma honest_values:
  "hash_ctx_law sample_crypto (\<lambda>h. h)" "q_crypto honest_platform = sample_crypto" "p_crypto sample_platform = sample_crypto"
  "dhe_sel (negotiate_info honest_requester) = 8" "base_hash_sel (negotiate_info honest_requester) = 1"
  "base_asym_sel (negotiate_info honest_requester) = 0x10" "rq_common honest_state = honest_requester"
  "\<not> in_clear_text (negotiate_info honest_requester)"
  using sample_laws(1) honest_ends(2)
  by (simp_all add: honest_platform_def sample_platform_def honest_requester_def honest_info_def honest_state_def can_open_def)

lemmas honest_run = honest_values(1-3) honest_callbacks(1,2) honest_callbacks(2)
  honest_callbacks(3) [folded honest_values(4)] honest_callbacks(4) [folded honest_values(5)]
  honest_callbacks(5) [folded honest_values(5,6)] honest_ends(4,1-3)

theorem key_exchange_agreement_witness:
  "\<exists>rid final request w c1 sid st'. get_next_half_session_id honest_requester True = Ok rid \<and>
    encode_spdm_key_exchange honest_env rid 0 SpdmMeasurementSummaryHashTypeNone honest_requester = Ok (final, request) \<and>
    write_spdm_key_exchange_response sample_platform honest_env request send_writer honest_responder = (Ok (), w, c1) \<and>
    handle_spdm_key_exhcange_response honest_platform rid 0 request (writer_used_slice w)
      SpdmMeasurementSummaryHashTypeNone final honest_state = (Ok sid, st') \<and>
    linked (\<lambda>h. h) sid (rq_common st') c1 \<and> state_of sid c1 = Some SpdmSessionHandshaking"
proof -
  have z: "unat (0 :: u8) = 0" by simp
  from key_exchange_completes [OF honest_run [folded z] _ honest_values(7) refl] obtain rid final request w c1 sid st' where
    k: "get_next_half_session_id honest_requester True = Ok rid"
      "encode_spdm_key_exchange honest_env rid 0 SpdmMeasurementSummaryHashTypeNone honest_requester = Ok (final, request)"
      "write_spdm_key_exchange_response sample_platform honest_env request send_writer honest_responder = (Ok (), w, c1)"
      "handle_spdm_key_exhcange_response honest_platform rid 0 request (writer_used_slice w)
        SpdmMeasurementSummaryHashTypeNone final honest_state = (Ok sid, st')" by auto
  have "half_ids_inv True honest_requester" "half_ids_inv False honest_responder" using honest_ends(2,3) by (simp_all add: can_open_def)
  from key_exchange_agreement [OF honest_run(1-6) honest_ends(1) [folded z] this honest_values(8,7) k(1) _ k(2-4)] k show ?thesis by blast
qed

text \<open>
  C2: The FINISH exchange keeps the agreement. From two ends with the same handshake keys and transcript, a FINISH
  that is answered and whose answer is accepted leaves both ends with the same data keys, and the requester's
  session is established. Between request and answer the requester's session may have protected messages
  (the hypotheses on \<open>st2\<close>).
\<close>

theorem finish_agreement:
  assumes "hash_ctx_law cr fed" "same_algorithms (negotiate_info (rq_common st)) (negotiate_info c0)"
      "\<not> in_clear_text (negotiate_info (rq_common st))" "linked fed sid (rq_common st) c0"
    and "encode_spdm_finish cr en sid slot st = (Ok request, st1)"
    and "write_spdm_finish_response cr sid request send_writer c0 = (Ok u, w, c1)"
    and "linked fed sid (rq_common st1) (rq_common st2)" "negotiate_info (rq_common st2) = negotiate_info (rq_common st1)"
    and "handle_spdm_finish_response cr sid slot (writer_used_slice w) st2 = (Ok v, st3)"
  shows "\<exists>s s'. get_session_via_id (rq_common st3) sid = Some s \<and> get_session_via_id c1 sid = Some s' \<and>
    session_state s = SpdmSessionEstablished \<and> keys_agree s s'"
  by (rule finish_agree [OF assms])

theorem finish_agreement_witness:
  "\<exists>sid st c0 request st1 w c1 st3 s s'. rq_device st = () \<and>
    encode_spdm_finish sample_crypto honest_env sid 0 st = (Ok request, st1) \<and>
    write_spdm_finish_response sample_crypto sid request send_writer c0 = (Ok (), w, c1) \<and>
    handle_spdm_finish_response sample_crypto sid 0 (writer_used_slice w) st1 = (Ok (), st3) \<and>
    get_session_via_id (rq_common st3) sid = Some s \<and> get_session_via_id c1 sid = Some s' \<and>
    session_state s = SpdmSessionEstablished \<and> keys_agree s s'"
proof -
  have z: "unat (0 :: u8) = 0" by simp
  let ?a = "base_hash_sel (negotiate_info honest_requester)"
  from key_exchange_completes [OF honest_run [folded z] _ honest_values(7) refl] obtain rid final request w c0 sid st where
    k: "get_next_half_session_id honest_requester True = Ok rid"
      "encode_spdm_key_exchange honest_env rid 0 SpdmMeasurementSummaryHashTypeNone honest_requester = Ok (final, request)"
      "write_spdm_key_exchange_response sample_platform honest_env request send_writer honest_responder = (Ok (), w, c0)"
      "handle_spdm_key_exhcange_response honest_platform rid 0 request (writer_used_slice w)
        SpdmMeasurementSummaryHashTypeNone final honest_state = (Ok sid, st)" by auto
  have i: "half_ids_inv True honest_requester" "half_ids_inv False honest_responder"
    "spdm_version_sel (negotiate_info honest_requester) = SpdmVersion12" using honest_ends(2,3) by (simp_all add: can_open_def)
  from key_exchange_agree [OF honest_run(1-6) honest_ends(1) [folded z] i(1,2) honest_values(8,7) k(1) _ k(2-4)] have
    l: "linked (\<lambda>h. h) sid (rq_common st) c0" "same_algorithms (negotiate_info (rq_common st)) (negotiate_info c0)" by auto
  from key_exchange_live [OF honest_run(1,2,8) honest_ends(2) honest_values(7) k(1,4) l(1)] have
    n: "live (\<lambda>h. h) sid ?a (rq_common st)" "negotiate_info (rq_common st) = negotiate_info honest_requester" by auto
  have a: "?a = base_hash_sel (negotiate_info (rq_common st))" by (simp add: n(2))
  obtain finish st1 w1 c1 where
    f: "encode_spdm_finish sample_crypto honest_env sid 0 st = (Ok finish, st1)"
      "write_spdm_finish_response sample_crypto sid finish send_writer c0 = (Ok (), w1, c1)" "live (\<lambda>h. h) sid ?a (rq_common st1)" and
    h: "\<forall>st2 :: (SpdmBaseHashAlgo \<times> bytes, unit) RequesterContext. linked (\<lambda>h. h) sid (rq_common st1) (rq_common st2) \<and>
        live (\<lambda>h. h) sid ?a (rq_common st2) \<and> negotiate_info (rq_common st2) = negotiate_info (rq_common st1) \<longrightarrow>
      (\<exists>st3. handle_spdm_finish_response sample_crypto sid 0 (writer_used_slice w1) st2 = (Ok (), st3))"
    using finish_completes [OF honest_values(1) honest_run(8) [folded n(2)] l(2) honest_values(8) [folded n(2)] i(3) [folded n(2)] l(1) a n(1)
        linked_live [OF l(1) n(1)], of honest_env 0] by (elim exE conjE) (rule that)
  from h live_linked [OF f(3)] f(3) obtain st3 where
    g: "handle_spdm_finish_response sample_crypto sid 0 (writer_used_slice w1) st1 = (Ok (), st3)" by blast
  from finish_agreement [OF honest_values(1) l(2) honest_values(8) [folded n(2)] l(1) f(1,2) live_linked [OF f(3)] refl g] f(1,2) g
  show ?thesis by (metis old.unit.exhaust)
qed

text \<open>
  C3: An honest handshake completes. With callbacks that work for the algorithms in force and two ends that can
  open a session, no step fails: the requester's KEY_EXCHANGE is answered, the answer is accepted, its FINISH is
  answered and accepted; then the requester's session is established and both ends hold the same data keys.
\<close>

theorem handshake_completes:
  fixes st :: "('h, 'd) RequesterContext"
  assumes "hash_ctx_law cr fed" "q_crypto pq = cr" "p_crypto pr = cr" "dhe_law enq enr" "env_law enq" "env_law enr"
    and "can_exchange enq enr (dhe_sel (negotiate_info c))" "crypto_works cr (base_hash_sel (negotiate_info c)) n"
      "signing_works enr cr (base_hash_sel (negotiate_info c)) (base_asym_sel (negotiate_info c)) certs"
      "peer_certs (unat slot) c = Ok certs"
    and "peers (unat slot) c c0" "can_open True c" "can_open False c0" "unat slot < SPDM_MAX_SLOT_NUMBER" "rq_common st = c"
    and "t = SpdmMeasurementSummaryHashTypeNone"
  shows "\<exists>rid final request w c1 sid st1 finish st2 w2 c2 st3 s s'.
    get_next_half_session_id c True = Ok rid \<and> encode_spdm_key_exchange enq rid slot t c = Ok (final, request) \<and>
    write_spdm_key_exchange_response pr enr request send_writer c0 = (Ok (), w, c1) \<and>
    handle_spdm_key_exhcange_response pq rid slot request (writer_used_slice w) t final st = (Ok sid, st1) \<and>
    encode_spdm_finish cr enq sid req_slot st1 = (Ok finish, st2) \<and>
    write_spdm_finish_response cr sid finish send_writer c1 = (Ok (), w2, c2) \<and>
    handle_spdm_finish_response cr sid req_slot (writer_used_slice w2) st2 = (Ok (), st3) \<and>
    get_session_via_id (rq_common st3) sid = Some s \<and> get_session_via_id c2 sid = Some s' \<and>
    session_state s = SpdmSessionEstablished \<and> keys_agree s s'"
  by (rule handshake_runs [OF assms])

theorem handshake_completes_witness:
  "\<exists>final request w c1 sid st1 finish st2 w2 c2 st3 s.
    encode_spdm_key_exchange honest_env 0xFFFD 0 SpdmMeasurementSummaryHashTypeNone honest_requester = Ok (final, request) \<and>
    write_spdm_key_exchange_response sample_platform honest_env request send_writer honest_responder = (Ok (), w, c1) \<and>
    handle_spdm_key_exhcange_response honest_platform 0xFFFD 0 request (writer_used_slice w)
      SpdmMeasurementSummaryHashTypeNone final honest_state = (Ok sid, st1) \<and>
    encode_spdm_finish sample_crypto honest_env sid 0 st1 = (Ok finish, st2) \<and>
    write_spdm_finish_response sample_crypto sid finish send_writer c1 = (Ok (), w2, c2) \<and>
    handle_spdm_finish_response sample_crypto sid 0 (writer_used_slice w2) st2 = (Ok (), st3) \<and>
    get_session_via_id (rq_common st3) sid = Some s \<and> session_state s = SpdmSessionEstablished"
proof -
  have z: "unat (0 :: u8) = 0" by simp
  have "get_next_half_session_id honest_requester True = Ok 0xFFFD"
    by (simp add: get_next_half_session_id_def honest_requester_def SpdmContext_new_def MAX_SPDM_SESSION_COUNT_def config_def
        SpdmSession_new_def half_session_id_def INVALID_HALF_SESSION_ID_def INVALID_SESSION_ID_def INITIAL_SESSION_ID_def numeral_eq_Suc)
  with handshake_completes [OF honest_run [folded z] _ honest_values(7) refl, of 0] show ?thesis by auto
qed

end
