(* ===== verification/Cert_Format.thy ===== *)
theory Cert_Format
  imports Algo "HOL-Library.Sublist"
begin

text \<open>
  The check of the format of a certificate chain, \<open>spdmlib/src/crypto/x509v3.rs\<close>.

  \<^item> The code walks over DER encoded bytes with \<open>usize\<close> offsets taken from the bytes themselves, so
    here \<open>usize\<close> is a 64-bit word. Whether an addition that overflows panics or wraps is decided by
    the build profile: \<open>chk\<close> stands for its \<open>overflow-checks\<close>.
  \<^item> \<open>advance\<close> is the idiom \<open>walker += f(&data[walker..])?\<close>. The loop over the certificates may not
    end; it is a partial function, and not returning is the value \<open>None\<close>.
  \<^item> \<open>is_tlv\<close> and \<open>x509_cert\<close> say what the bytes of an element and of a certificate are. The lemmas show
    that every chain of such certificates is accepted, in both profiles, with its number of
    certificates; that with overflow checks an accepted chain is cut into certificates of three elements
    each, the last one with the object identifier of the negotiated algorithm, and that the check
    always returns; and that without overflow checks there is a chain on which it never returns.
\<close>

section \<open>Definitions\<close>

subsection \<open>Offsets into a slice\<close>

definition usize_add :: "bool \<Rightarrow> u64 \<Rightarrow> u64 \<Rightarrow> u64 SpdmResult" where
  "usize_add chk a b = (if chk \<and> unat a + unat b \<ge> 2 ^ 64 then Panic else Ok (a + b))"

definition data_len :: "bytes \<Rightarrow> u64" where
  "data_len bs = of_nat (length bs)"

definition data_from :: "bytes \<Rightarrow> u64 \<Rightarrow> bytes SpdmResult" where
  "data_from bs w = (if unat w \<le> length bs then Ok (drop (unat w) bs) else Panic)"

definition advance :: "bool \<Rightarrow> (bytes \<Rightarrow> u64 SpdmResult) \<Rightarrow> bytes \<Rightarrow> u64 \<Rightarrow> u64 SpdmResult" where
  "advance chk f bs w = rbind (data_from bs w) (\<lambda>d. rbind (f d) (usize_add chk w))"

subsection \<open>Elements\<close>

definition ASN1_TAG_SEQUENCE :: u8 where
  "ASN1_TAG_SEQUENCE = 0x0 OR 0x20 OR 0x10"

definition ASN1_LENGTH_MULTI_OCTET_MASK :: u8 where
  "ASN1_LENGTH_MULTI_OCTET_MASK = 0x80"

definition ASN1_TAG_NUMBER_INTEGER :: u8 where
  "ASN1_TAG_NUMBER_INTEGER = 0x2"

definition ASN1_TAG_NUMBER_OBJECT_IDENTIFIER :: u8 where
  "ASN1_TAG_NUMBER_OBJECT_IDENTIFIER = 0x6"

definition X509V3_VERSION :: u8 where
  "X509V3_VERSION = 2"

definition check_tag_is_sequence :: "bytes \<Rightarrow> unit SpdmResult" where
  "check_tag_is_sequence bs =
    (if bs = [] then Err SPDM_STATUS_VERIF_FAIL
     else if bs ! 0 = ASN1_TAG_SEQUENCE then Ok ()
     else Err SPDM_STATUS_VERIF_FAIL)"

text \<open>The store \<open>length[i] = *b\<close> panics from the ninth octet on.\<close>

definition check_length :: "bytes \<Rightarrow> (u64 \<times> u64) SpdmResult" where
  "check_length bs =
    (if length bs < 1 then Err SPDM_STATUS_VERIF_FAIL
     else if bs ! 0 AND ASN1_LENGTH_MULTI_OCTET_MASK = 0 then Ok (ucast (bs ! 0), 1)
     else
       let length_count = bs ! 0 - ASN1_LENGTH_MULTI_OCTET_MASK in
       if length bs < unat length_count + 1 \<or> length_count = 0 then Err SPDM_STATUS_VERIF_FAIL
       else if unat length_count > 8 then Panic
       else Ok (from_le_bytes (write_at (replicate 8 0) 0 (rev (slice bs 1 (unat length_count + 1)))),
         ucast length_count + 1))"

definition check_version :: "bytes \<Rightarrow> u64 SpdmResult" where
  "check_version bs =
    (if length bs < 5 \<or> bs ! 0 \<noteq> 0x80 OR 0x20 \<or> bs ! 1 \<noteq> 3 \<or> bs ! 2 \<noteq> ASN1_TAG_NUMBER_INTEGER \<or> bs ! 3 \<noteq> 1
     then Err SPDM_STATUS_VERIF_FAIL
     else if bs ! 4 = X509V3_VERSION then Ok 5
     else Err SPDM_STATUS_VERIF_FAIL)"

definition object_identifiers_are_same :: "bytes \<Rightarrow> bytes \<Rightarrow> bool" where
  "object_identifiers_are_same a b \<longleftrightarrow> length a = length b \<and> list_all (\<lambda>(x, y). x = y) (zip a b)"

definition check_object_identifier :: "bytes \<Rightarrow> bytes option \<Rightarrow> u64 SpdmResult" where
  "check_object_identifier bs oid =
    (if length bs < 2 \<or> bs ! 0 \<noteq> ASN1_TAG_NUMBER_OBJECT_IDENTIFIER then Err SPDM_STATUS_VERIF_FAIL
     else
       let oid_length = bs ! 1 in
       if length bs < unat oid_length + 2 \<or> oid_length \<ge> 0x80 then Err SPDM_STATUS_VERIF_FAIL
       else
         (case oid of
           Some oid \<Rightarrow>
             if object_identifiers_are_same (slice bs 2 (2 + unat oid_length)) oid
             then Ok (ucast oid_length + 2) else Err SPDM_STATUS_VERIF_FAIL
         | None \<Rightarrow> Ok (ucast oid_length + 2)))"

definition check_and_skip_common_tag :: "bool \<Rightarrow> bytes \<Rightarrow> u64 SpdmResult" where
  "check_and_skip_common_tag chk bs =
    (if length bs < 1 then Err SPDM_STATUS_VERIF_FAIL
     else
       rbind (check_length (drop 1 bs)) (\<lambda>(payload_length, bytes_consumed).
       rbind (usize_add chk 1 bytes_consumed) (\<lambda>n.
       rbind (usize_add chk n payload_length) (\<lambda>n.
       if data_len bs < n then Err SPDM_STATUS_VERIF_FAIL else Ok n))))"

definition check_and_skip_common_sequence :: "bool \<Rightarrow> bytes \<Rightarrow> u64 SpdmResult" where
  "check_and_skip_common_sequence chk bs =
    (if length bs < 1 \<or> bs ! 0 \<noteq> ASN1_TAG_SEQUENCE then Err SPDM_STATUS_VERIF_FAIL
     else
       rbind (check_length (drop 1 bs)) (\<lambda>(payload_length, bytes_consumed).
       rbind (usize_add chk 1 bytes_consumed) (\<lambda>n.
       rbind (usize_add chk n payload_length) (\<lambda>n.
       if data_len bs < n then Err SPDM_STATUS_VERIF_FAIL else Ok n))))"

definition check_name :: "bool \<Rightarrow> bytes \<Rightarrow> u64 SpdmResult" where
  "check_name chk bs = check_and_skip_common_sequence chk bs"

definition check_validity :: "bool \<Rightarrow> bytes \<Rightarrow> u64 SpdmResult" where
  "check_validity chk bs = check_and_skip_common_sequence chk bs"

definition check_public_key_info :: "bool \<Rightarrow> bytes \<Rightarrow> u64 SpdmResult" where
  "check_public_key_info chk bs = check_and_skip_common_sequence chk bs"

subsection \<open>Certificates\<close>

definition OID_RSA_SHA256RSA :: bytes where
  "OID_RSA_SHA256RSA = [0x2a, 0x86, 0x48, 0x86, 0xf7, 0x0d, 0x01, 0x01, 0x0b]"

definition OID_RSA_SHA384RSA :: bytes where
  "OID_RSA_SHA384RSA = [0x2a, 0x86, 0x48, 0x86, 0xf7, 0x0d, 0x01, 0x01, 0x0c]"

definition OID_RSA_SHA512RSA :: bytes where
  "OID_RSA_SHA512RSA = [0x2a, 0x86, 0x48, 0x86, 0xf7, 0x0d, 0x01, 0x01, 0x0d]"

definition OID_ECDSA_SHA256 :: bytes where
  "OID_ECDSA_SHA256 = [0x2a, 0x86, 0x48, 0xce, 0x3d, 0x04, 0x03, 0x02]"

definition OID_ECDSA_SHA384 :: bytes where
  "OID_ECDSA_SHA384 = [0x2a, 0x86, 0x48, 0xce, 0x3d, 0x04, 0x03, 0x03]"

definition get_oid_by_base_asym_algo :: "SpdmBaseAsymAlgo \<Rightarrow> bytes option" where
  "get_oid_by_base_asym_algo a =
    (if a = SpdmBaseAsymAlgo_TPM_ALG_RSASSA_2048 then Some OID_RSA_SHA256RSA
     else if a = SpdmBaseAsymAlgo_TPM_ALG_RSAPSS_2048 then Some OID_RSA_SHA256RSA
     else if a = SpdmBaseAsymAlgo_TPM_ALG_RSASSA_3072 then Some OID_RSA_SHA384RSA
     else if a = SpdmBaseAsymAlgo_TPM_ALG_RSAPSS_3072 then Some OID_RSA_SHA384RSA
     else if a = SpdmBaseAsymAlgo_TPM_ALG_ECDSA_ECC_NIST_P256 then Some OID_ECDSA_SHA256
     else if a = SpdmBaseAsymAlgo_TPM_ALG_RSASSA_4096 then Some OID_RSA_SHA512RSA
     else if a = SpdmBaseAsymAlgo_TPM_ALG_RSAPSS_4096 then Some OID_RSA_SHA512RSA
     else if a = SpdmBaseAsymAlgo_TPM_ALG_ECDSA_ECC_NIST_P384 then Some OID_ECDSA_SHA384
     else None)"

definition check_tbs_certificate :: "bool \<Rightarrow> bytes \<Rightarrow> SpdmBaseAsymAlgo \<Rightarrow> bool \<Rightarrow> u64 SpdmResult" where
  "check_tbs_certificate chk bs a is_leaf_cert =
    rbind (check_tag_is_sequence bs) (\<lambda>_.
    rbind (data_from bs 1) (\<lambda>d.
    rbind (check_length d) (\<lambda>(tbs_length, bytes_consumed).
    rbind (usize_add chk 1 bytes_consumed) (\<lambda>length_before_tbs.
    rbind (usize_add chk length_before_tbs tbs_length) (\<lambda>stop.
    if data_len bs < stop then Err SPDM_STATUS_VERIF_FAIL
    else
    rbind (advance chk check_version bs length_before_tbs) (\<lambda>t.
    rbind (advance chk (check_and_skip_common_tag chk) bs t) (\<lambda>t.
    rbind (data_from bs t) (\<lambda>d.
    rbind (check_tag_is_sequence d) (\<lambda>_.
    rbind (usize_add chk t 1) (\<lambda>t.
    rbind (data_from bs t) (\<lambda>d.
    rbind (check_length d) (\<lambda>(signature_id_length, bytes_consumed).
    rbind (usize_add chk t bytes_consumed) (\<lambda>t.
    rbind (data_from bs t) (\<lambda>d.
    rbind (check_object_identifier d (if is_leaf_cert then get_oid_by_base_asym_algo a else None)) (\<lambda>_.
    rbind (usize_add chk t signature_id_length) (\<lambda>t.
    rbind (advance chk (check_name chk) bs t) (\<lambda>t.
    rbind (advance chk (check_validity chk) bs t) (\<lambda>t.
    rbind (advance chk (check_name chk) bs t) (\<lambda>t.
    rbind (data_from bs t) (\<lambda>d.
    rbind (check_public_key_info chk d) (\<lambda>_.
    usize_add chk length_before_tbs tbs_length)))))))))))))))))))))"

definition check_signature_algorithm :: "bool \<Rightarrow> bytes \<Rightarrow> SpdmBaseAsymAlgo \<Rightarrow> bool \<Rightarrow> u64 SpdmResult" where
  "check_signature_algorithm chk bs a is_leaf_cert =
    rbind (check_tag_is_sequence bs) (\<lambda>_.
    rbind (data_from bs 1) (\<lambda>d.
    rbind (check_length d) (\<lambda>(signature_id_length, bytes_consumed).
    rbind (usize_add chk 1 bytes_consumed) (\<lambda>s.
    rbind (data_from bs s) (\<lambda>d.
    rbind (check_object_identifier d (if is_leaf_cert then get_oid_by_base_asym_algo a else None)) (\<lambda>_.
    usize_add chk s signature_id_length))))))"

definition check_signature_value :: "bool \<Rightarrow> bytes \<Rightarrow> SpdmBaseAsymAlgo \<Rightarrow> u64 SpdmResult" where
  "check_signature_value chk bs a = check_and_skip_common_tag chk bs"

definition check_cert_format :: "bool \<Rightarrow> bytes \<Rightarrow> SpdmBaseAsymAlgo \<Rightarrow> u64 SpdmResult" where
  "check_cert_format chk cert a =
    rbind (check_tag_is_sequence cert) (\<lambda>_.
    rbind (data_from cert 1) (\<lambda>d.
    rbind (check_length d) (\<lambda>(body_size, bytes_consumed).
    rbind (usize_add chk 1 bytes_consumed) (\<lambda>c_walker.
    rbind (usize_add chk c_walker body_size) (\<lambda>stop.
    let is_leaf_cert = (data_len cert = stop) in
    rbind (advance chk (\<lambda>d. check_tbs_certificate chk d a is_leaf_cert) cert c_walker) (\<lambda>c_walker.
    rbind (advance chk (\<lambda>d. check_signature_algorithm chk d a is_leaf_cert) cert c_walker) (\<lambda>c_walker.
    rbind (advance chk (\<lambda>d. check_signature_value chk d a) cert c_walker) (\<lambda>c_walker.
    if c_walker = stop then Ok c_walker else Err SPDM_STATUS_VERIF_FAIL))))))))"

partial_function (option) check_cert_chain_loop ::
    "bool \<Rightarrow> bytes \<Rightarrow> SpdmBaseAsymAlgo \<Rightarrow> u64 \<Rightarrow> u64 \<Rightarrow> u64 SpdmResult option" where
  "check_cert_chain_loop chk chain a cc_walker cert_count =
    (if cc_walker < data_len chain
     then
       (case advance chk (\<lambda>d. check_cert_format chk d a) chain cc_walker of
         Ok cc_walker \<Rightarrow>
           (case usize_add chk cert_count 1 of
             Ok cert_count \<Rightarrow> check_cert_chain_loop chk chain a cc_walker cert_count
           | Err e \<Rightarrow> Some (Err e)
           | Panic \<Rightarrow> Some Panic)
       | Err e \<Rightarrow> Some (Err e)
       | Panic \<Rightarrow> Some Panic)
     else Some (if cc_walker = data_len chain then Ok cert_count else Err SPDM_STATUS_VERIF_FAIL))"

definition check_cert_chain_format :: "bool \<Rightarrow> bytes \<Rightarrow> SpdmBaseAsymAlgo \<Rightarrow> u64 SpdmResult option" where
  "check_cert_chain_format chk chain a = check_cert_chain_loop chk chain a 0 0"


subsection \<open>What the bytes mean\<close>

text \<open>The length octets of an element, in the short or in the long form, and the element with a given content.\<close>

definition le_value :: "bytes \<Rightarrow> nat" where
  "le_value bs = foldr (\<lambda>b n. unat b + 256 * n) bs 0"

definition der_length :: "bytes \<Rightarrow> nat \<Rightarrow> bool" where
  "der_length hdr n \<longleftrightarrow>
    (case hdr of
      [] \<Rightarrow> False
    | b # os \<Rightarrow>
        if b < 0x80 then os = [] \<and> unat b = n
        else unat b = 128 + length os \<and> length os \<in> {1..8} \<and> le_value (rev os) = n)"

definition is_tlv :: "u8 \<Rightarrow> bytes \<Rightarrow> bytes \<Rightarrow> bool" where
  "is_tlv tag body e \<longleftrightarrow> (\<exists>hdr. der_length hdr (length body) \<and> e = tag # hdr @ body)"

text \<open>A certificate with the object identifier \<open>oid\<close>, if one is given, in both algorithm fields.\<close>

definition x509_alg :: "bytes option \<Rightarrow> bytes \<Rightarrow> bool" where
  "x509_alg oid e \<longleftrightarrow>
    (\<exists>x params. is_tlv 0x30 (0x06 # of_nat (length x) # x @ params) e \<and> length x < 128 \<and> (oid = None \<or> oid = Some x))"

definition x509_tbs :: "bytes option \<Rightarrow> bytes \<Rightarrow> bool" where
  "x509_tbs oid e \<longleftrightarrow>
    (\<exists>serial alg issuer validity subject key extensions tag b1 b2 b3 b4 b5.
      is_tlv 0x30 ([0xA0, 3, 2, 1, 2] @ serial @ alg @ issuer @ validity @ subject @ key @ extensions) e \<and>
      is_tlv tag b1 serial \<and> x509_alg oid alg \<and> is_tlv 0x30 b2 issuer \<and> is_tlv 0x30 b3 validity \<and>
      is_tlv 0x30 b4 subject \<and> is_tlv 0x30 b5 key)"

definition x509_cert :: "bytes option \<Rightarrow> bytes \<Rightarrow> bool" where
  "x509_cert oid e \<longleftrightarrow>
    (\<exists>tbs alg sig tag b. is_tlv 0x30 (tbs @ alg @ sig) e \<and> x509_tbs oid tbs \<and> x509_alg oid alg \<and> is_tlv tag b sig)"

text \<open>
  What an accepted certificate is known to be: three elements that fill it exactly, the first with the
  version, the second with the object identifier. The code reads those from the rest of the chain,
  not from the element they belong to.
\<close>

definition cert_parts :: "bytes option \<Rightarrow> bytes \<Rightarrow> bytes \<Rightarrow> bool" where
  "cert_parts oid rest e \<longleftrightarrow>
    (\<exists>tbs alg sig b1 b2 b3 tag. is_tlv 0x30 (tbs @ alg @ sig) e \<and> is_tlv 0x30 b1 tbs \<and> is_tlv 0x30 b2 alg \<and>
      is_tlv tag b3 sig \<and> prefix [0xA0, 3, 2, 1, 2] (b1 @ alg @ sig @ rest) \<and>
      (\<forall>x. oid = Some x \<longrightarrow> prefix (0x06 # of_nat (length x) # x) (b2 @ sig @ rest)))"

text \<open>Chains: the object identifier is asked of the last certificate only.\<close>

fun x509_chain :: "bytes option \<Rightarrow> bytes list \<Rightarrow> bool" where
  "x509_chain oid [] \<longleftrightarrow> True"
| "x509_chain oid (c # cs) \<longleftrightarrow> x509_cert (if cs = [] then oid else None) c \<and> x509_chain oid cs"

fun chain_parts :: "bytes option \<Rightarrow> bytes list \<Rightarrow> bool" where
  "chain_parts oid [] \<longleftrightarrow> True"
| "chain_parts oid (c # cs) \<longleftrightarrow> cert_parts (if cs = [] then oid else None) (concat cs) c \<and> chain_parts oid cs"

section \<open>Length octets\<close>

lemma le_value_simps [simp]: "le_value [] = 0" "le_value (b # bs) = unat b + 256 * le_value bs"
  by (simp_all add: le_value_def)

lemma le_value_zeros [simp]: "le_value (bs @ replicate n 0) = le_value bs"
proof -
  have "le_value (replicate n 0) = 0" by (induction n) simp_all
  then show ?thesis by (induction bs) simp_all
qed

lemma le_value_less: "le_value bs < 256 ^ length bs"
proof (induction bs)
  case (Cons b bs)
  have "unat b < 256" using unsigned_less [of b] by simp
  with Cons show ?case by simp
qed simp

lemma ucast_or_push: "(ucast (b :: u8) :: u64) OR push_bit 8 w = ucast b + 256 * w"
proof -
  have "(ucast b :: u64) AND push_bit 8 w = 0"
    by (rule bit_word_eqI) (auto simp: bit_simps dest: bit_imp_le_length)
  then have "(ucast b :: u64) OR push_bit 8 w = ucast b + push_bit 8 w"
    by (metis word_plus_and_or add_0)
  then show ?thesis by (simp add: push_bit_eq_mult mult.commute)
qed

lemma from_le_bytes_value: "(from_le_bytes bs :: u64) = of_nat (le_value bs)"
  by (induction bs) (simp_all add: ucast_or_push)

lemma short_form: "b AND ASN1_LENGTH_MULTI_OCTET_MASK = 0 \<longleftrightarrow> b < 0x80"
proof -
  have "bit (unat b) 7 \<longleftrightarrow> bit b 7" by (simp add: bit_unsigned_iff)
  then have "b AND 2 ^ 7 = 0 \<longleftrightarrow> \<not> odd (unat b div 2 ^ 7)"
    by (simp only: and_exp_eq_0_iff_not_bit bit_iff_odd [of "unat b"])
  moreover have "unat b < 256" using unsigned_less [of b] by simp
  then have "unat b div 2 ^ 7 = (if unat b < 128 then 0 else 1)" by (simp add: div_nat_eqI)
  ultimately show ?thesis by (simp add: ASN1_LENGTH_MULTI_OCTET_MASK_def word_less_nat_alt)
qed

lemma long_form: "\<not> b < 0x80 \<Longrightarrow> unat (b - ASN1_LENGTH_MULTI_OCTET_MASK) = unat b - 128"
  by (simp add: ASN1_LENGTH_MULTI_OCTET_MASK_def unat_sub word_le_nat_alt not_less)

lemma check_length_long:
  assumes "\<not> b < 0x80"
  shows "check_length (b # os) = Ok (n, k) \<longleftrightarrow>
    unat b - 128 \<in> {1..8} \<and> unat b - 128 \<le> length os \<and> n = of_nat (le_value (rev (take (unat b - 128) os))) \<and>
    k = of_nat (unat b - 127)"
proof -
  let ?c = "unat b - 128" and ?w = "b - ASN1_LENGTH_MULTI_OCTET_MASK"
  have c: "unat ?w = ?c" by (rule long_form) fact
  have z: "?w = 0 \<longleftrightarrow> ?c = 0" by (metis c unat_eq_0)
  have k: "(ucast ?w :: u64) + 1 = of_nat (?c + 1)" by (simp flip: c)
  have s: "write_at (replicate 8 0) 0 (rev (slice (b # os) (Suc 0) (Suc ?c))) = rev (take ?c os) @ replicate (8 - ?c) 0"
    if "?c \<le> 8" "?c \<le> length os" using that by (simp add: slice_def write_at_eq)
  have "128 \<le> unat b" using assms by (simp add: word_less_nat_alt)
  then have e: "unat b - 127 = ?c + 1" by simp
  have "check_length (b # os) =
    (if length os < ?c \<or> ?c = 0 then Err SPDM_STATUS_VERIF_FAIL else if ?c > 8 then Panic
     else Ok (of_nat (le_value (rev (take ?c os))), of_nat (?c + 1)))"
    unfolding check_length_def Let_def short_form nth_Cons_0 c z k
    by (simp add: assms from_le_bytes_value s not_less)
  then show ?thesis by (auto simp: e)
qed

lemma unat_ucast_u64 [simp]: "unat (ucast (b :: u8) :: u64) = unat b"
proof -
  have "unat b < 2 ^ 64" using unsigned_less [of b, where ?'a = nat] by simp
  then show ?thesis by (simp add: unsigned_ucast_eq take_bit_nat_eq_self)
qed

lemma data_len_short [simp]: "data_len [] = 0" "data_len [b] = 1"
  by (simp_all add: data_len_def)

lemma check_length_Ok:
  "check_length bs = Ok (n, k) \<longleftrightarrow> (\<exists>hdr rest. bs = hdr @ rest \<and> der_length hdr (unat n) \<and> k = data_len hdr)"
    (is "?l \<longleftrightarrow> ?r")
proof (cases bs)
  case (Cons b os)
  have nil: "\<not> der_length [] m" for m by (simp add: der_length_def)
  have r: "?r \<longleftrightarrow> (\<exists>xs ys. os = xs @ ys \<and> der_length (b # xs) (unat n) \<and> k = data_len (b # xs))"
    unfolding Cons Cons_eq_append_conv using nil by blast
  show ?thesis
  proof (cases "b < 0x80")
    case True
    then have "?l \<longleftrightarrow> n = ucast b \<and> k = 1" by (auto simp: Cons check_length_def short_form)
    also have "n = ucast b \<longleftrightarrow> unat n = unat b"
      by (simp only: word_unat_eq_iff unat_ucast_u64)
    finally show ?thesis using True unfolding r by (auto simp: der_length_def)
  next
    case False
    then have b: "128 \<le> unat b" by (simp add: word_less_nat_alt)
    have le: "unat (of_nat (le_value (rev os)) :: u64) = le_value (rev os)" if "length os \<le> 8" for os
    proof -
      have "le_value (rev os) < 256 ^ length os" using le_value_less [of "rev os"] by simp
      also have "\<dots> \<le> 256 ^ 8" using that by (rule power_increasing) simp
      finally show ?thesis by (simp add: unat_of_nat)
    qed
    have "?l \<longleftrightarrow> (\<exists>xs ys. os = xs @ ys \<and> unat b = 128 + length xs \<and> length xs \<in> {1..8} \<and>
        le_value (rev xs) = unat n \<and> k = of_nat (Suc (length xs)))" (is "_ \<longleftrightarrow> ?m")
    proof
      assume ?l
      then have "unat b - 128 \<in> {1..8}" "unat b - 128 \<le> length os"
        "n = of_nat (le_value (rev (take (unat b - 128) os)))" "k = of_nat (unat b - 127)"
        by (simp_all add: Cons check_length_long [OF False])
      moreover have "unat b - 127 = Suc (unat b - 128)" using b by simp
      ultimately show ?m using b
        by (intro exI [of _ "take (unat b - 128) os"] exI [of _ "drop (unat b - 128) os"]) (simp add: le min_def)
    next
      assume ?m
      then obtain xs ys where m: "os = xs @ ys" "unat b = 128 + length xs" "length xs \<in> {1..8}"
        "le_value (rev xs) = unat n" "k = of_nat (Suc (length xs))" by blast
      then have "n = of_nat (le_value (rev xs))" by simp
      with m show ?l by (simp add: Cons check_length_long [OF False])
    qed
    also have "\<dots> \<longleftrightarrow> ?r" using False unfolding r by (auto simp: der_length_def data_len_def)
    finally show ?thesis .
  qed
qed (simp add: check_length_def der_length_def)

section \<open>Well-formed chains are accepted\<close>

text \<open>The walker after a prefix of the data is the length of the prefix.\<close>

lemma unat_data_len: "length bs < 2 ^ 64 \<Longrightarrow> unat (data_len bs) = length bs"
  by (simp add: data_len_def unat_of_nat)

lemma data_len_append: "data_len (a @ b) = data_len a + data_len b"
  by (simp add: data_len_def)

lemma data_len_eq_iff: "length a < 2 ^ 64 \<Longrightarrow> length b < 2 ^ 64 \<Longrightarrow> data_len a = data_len b \<longleftrightarrow> length a = length b"
  by (metis unat_data_len data_len_def)

lemma data_from_at: "length (pre @ post) < 2 ^ 64 \<Longrightarrow> data_from (pre @ post) (data_len pre) = Ok post"
  by (simp add: data_from_def unat_data_len)

lemma data_from_tag: "data_from (tag # post) 1 = Ok post"
  by (simp add: data_from_def)

lemma usize_add_at: "length (a @ b) < 2 ^ 64 \<Longrightarrow> usize_add chk (data_len a) (data_len b) = Ok (data_len (a @ b))"
  by (simp add: usize_add_def unat_data_len data_len_append)

lemma usize_add_tag: "length (tag # b) < 2 ^ 64 \<Longrightarrow> usize_add chk 1 (data_len b) = Ok (data_len (tag # b))"
  using usize_add_at [of "[tag]" b] by simp

lemma advance_at:
  "f (e @ rest) = Ok (data_len e) \<Longrightarrow> length (pre @ e @ rest) < 2 ^ 64 \<Longrightarrow>
    advance chk f (pre @ e @ rest) (data_len pre) = Ok (data_len (pre @ e))"
  by (simp add: advance_def data_from_at usize_add_at)

lemma check_length_at:
  "der_length hdr (length body) \<Longrightarrow> length body < 2 ^ 64 \<Longrightarrow> check_length (hdr @ rest) = Ok (data_len body, data_len hdr)"
  unfolding check_length_Ok by (auto simp: unat_data_len)

lemma data_len_not_less: "length (e @ rest) < 2 ^ 64 \<Longrightarrow> \<not> data_len (e @ rest) < data_len e"
  by (simp add: word_less_nat_alt unat_data_len)

lemma skip_tag_at:
  assumes "is_tlv tag body e" "length (e @ rest) < 2 ^ 64"
  shows "check_and_skip_common_tag chk (e @ rest) = Ok (data_len e)"
proof -
  obtain hdr where e: "der_length hdr (length body)" "e = tag # hdr @ body"
    using assms(1) by (auto simp: is_tlv_def)
  then have "length (tag # hdr) < 2 ^ 64" "length ((tag # hdr) @ body) < 2 ^ 64" "length body < 2 ^ 64"
    using assms(2) by simp_all
  note n = usize_add_tag [OF this(1)] usize_add_at [OF this(2)] check_length_at [OF e(1) this(3), of "body @ rest"]
  show ?thesis using n data_len_not_less [OF assms(2)] by (simp add: check_and_skip_common_tag_def e(2))
qed

lemma skip_sequence_at:
  assumes "is_tlv 0x30 body e" "length (e @ rest) < 2 ^ 64"
  shows "check_and_skip_common_sequence chk (e @ rest) = Ok (data_len e)"
proof -
  have "check_and_skip_common_sequence chk (e @ rest) = check_and_skip_common_tag chk (e @ rest)"
    using assms(1) by (auto simp: is_tlv_def check_and_skip_common_sequence_def check_and_skip_common_tag_def ASN1_TAG_SEQUENCE_def)
  then show ?thesis by (simp add: skip_tag_at [OF assms])
qed

lemma same_identifiers: "object_identifiers_are_same a b \<longleftrightarrow> a = b"
  by (auto simp: object_identifiers_are_same_def list_all_iff list_eq_iff_zip_eq split: prod.splits)

lemma oid_at:
  assumes "length x < 128" "oid = None \<or> oid = Some x"
  shows "\<exists>n. check_object_identifier (0x06 # of_nat (length x) # x @ rest) oid = Ok n"
proof -
  have l: "unat (of_nat (length x) :: u8) = length x" using assms(1) by (simp add: unat_of_nat)
  then have "\<not> 0x80 \<le> (of_nat (length x) :: u8)" using assms(1) by (simp add: word_le_nat_alt)
  with l assms(2) show ?thesis
    by (auto simp: check_object_identifier_def ASN1_TAG_NUMBER_OBJECT_IDENTIFIER_def same_identifiers slice_def)
qed

text \<open>The algorithm field of a certificate, up to its end.\<close>

lemma alg_at:
  assumes "x509_alg oid e" "length (e @ rest) < 2 ^ 64"
  obtains hdr body n where "e = 0x30 # hdr @ body" "check_length (hdr @ body @ rest) = Ok (data_len body, data_len hdr)"
    "check_object_identifier (body @ rest) oid = Ok n"
proof -
  obtain x params hdr where e: "der_length hdr (length (0x06 # of_nat (length x) # x @ params))"
      "e = 0x30 # hdr @ 0x06 # of_nat (length x) # x @ params" "length x < 128" "oid = None \<or> oid = Some x"
    using assms(1) by (auto simp: x509_alg_def is_tlv_def)
  obtain n where "check_object_identifier (0x06 # of_nat (length x) # x @ params @ rest) oid = Ok n"
    using oid_at [OF e(3,4)] by blast
  moreover have "length (0x06 # of_nat (length x) # x @ params) < 2 ^ 64" using assms(2) by (simp add: e(2))
  ultimately show ?thesis
    using that [OF e(2)] check_length_at [OF e(1), of "(0x06 # of_nat (length x) # x @ params) @ rest"] by simp
qed

lemma check_tag_at [simp]: "check_tag_is_sequence (0x30 # bs) = Ok ()"
  by (simp add: check_tag_is_sequence_def ASN1_TAG_SEQUENCE_def)

lemma signature_algorithm_at:
  assumes "x509_alg (if leaf then get_oid_by_base_asym_algo a else None) e" "length (e @ rest) < 2 ^ 64"
  shows "check_signature_algorithm chk (e @ rest) a leaf = Ok (data_len e)"
proof -
  obtain hdr body n where
    e: "e = 0x30 # hdr @ body" "check_length (hdr @ body @ rest) = Ok (data_len body, data_len hdr)"
      "check_object_identifier (body @ rest) (if leaf then get_oid_by_base_asym_algo a else None) = Ok n"
    by (rule alg_at [OF assms])
  have "length (0x30 # hdr) < 2 ^ 64" "length ((0x30 # hdr) @ body) < 2 ^ 64" "length ((0x30 # hdr) @ body @ rest) < 2 ^ 64"
    using assms(2) by (simp_all add: e(1))
  note n = usize_add_tag [OF this(1)] usize_add_at [OF this(2)] data_from_at [OF this(3)]
  show ?thesis using n e(2,3) by (simp add: check_signature_algorithm_def e(1) data_from_tag)
qed

lemma check_version_at: "check_version ([0xA0, 3, 2, 1, 2] @ rest) = Ok (data_len [0xA0, 3, 2, 1, 2])"
  by (simp add: check_version_def ASN1_TAG_NUMBER_INTEGER_def X509V3_VERSION_def data_len_def numeral_eq_Suc)

text \<open>The algorithm identifier in the middle of a certificate body, whatever \<open>k\<close> comes after it.\<close>

lemma alg_steps:
  assumes "x509_alg oid alg" "length (pre @ alg @ post) < 2 ^ 64"
  shows "rbind (data_from (pre @ alg @ post) (data_len pre)) (\<lambda>d.
    rbind (check_tag_is_sequence d) (\<lambda>_.
    rbind (usize_add chk (data_len pre) 1) (\<lambda>t.
    rbind (data_from (pre @ alg @ post) t) (\<lambda>d.
    rbind (check_length d) (\<lambda>(signature_id_length, bytes_consumed).
    rbind (usize_add chk t bytes_consumed) (\<lambda>t.
    rbind (data_from (pre @ alg @ post) t) (\<lambda>d.
    rbind (check_object_identifier d oid) (\<lambda>_.
    rbind (usize_add chk t signature_id_length) k)))))))) = k (data_len (pre @ alg))"
proof -
  obtain ah ab n where al: "alg = 0x30 # ah @ ab" "check_length (ah @ ab @ post) = Ok (data_len ab, data_len ah)"
      "check_object_identifier (ab @ post) oid = Ok n"
    by (rule alg_at [OF assms(1), of post]) (use assms(2) in simp)
  let ?p = "pre @ [0x30]"
  have 1: "data_from (pre @ alg @ post) (data_len pre) = Ok (alg @ post)" by (rule data_from_at) fact
  have 2: "usize_add chk (data_len pre) (data_len [0x30]) = Ok (data_len ?p)"
    by (rule usize_add_at) (use assms(2) al(1) in simp)
  have 3: "data_from (?p @ ah @ ab @ post) (data_len ?p) = Ok (ah @ ab @ post)"
    by (rule data_from_at) (use assms(2) al(1) in simp)
  have 4: "usize_add chk (data_len ?p) (data_len ah) = Ok (data_len (?p @ ah))"
    by (rule usize_add_at) (use assms(2) al(1) in simp)
  have 5: "data_from ((?p @ ah) @ ab @ post) (data_len (?p @ ah)) = Ok (ab @ post)"
    by (rule data_from_at) (use assms(2) al(1) in simp)
  have 6: "usize_add chk (data_len (?p @ ah)) (data_len ab) = Ok (data_len ((?p @ ah) @ ab))"
    by (rule usize_add_at) (use assms(2) al(1) in simp)
  show ?thesis using 1 2 3 4 5 6 al by simp
qed

text \<open>The fields of the certificate body one after the other, each at its walker.\<close>

lemma tbs_walk:
  assumes e: "e = 0x30 # hdr @ v @ serial @ alg @ issuer @ validity @ subject @ key @ extensions" "length (e @ rest) < 2 ^ 64"
    and h: "der_length hdr (length (v @ serial @ alg @ issuer @ validity @ subject @ key @ extensions))"
    and v: "\<And>r. check_version (v @ r) = Ok (data_len v)" and s: "is_tlv tag b1 serial"
    and alg: "x509_alg (if leaf then get_oid_by_base_asym_algo a else None) alg"
    and q: "is_tlv 0x30 b2 issuer" "is_tlv 0x30 b3 validity" "is_tlv 0x30 b4 subject" "is_tlv 0x30 b5 key"
  shows "check_tbs_certificate chk (e @ rest) a leaf = Ok (data_len e)"
proof -
  let ?b = "v @ serial @ alg @ issuer @ validity @ subject @ key @ extensions"
  let ?r = "key @ extensions @ rest" and ?h = "0x30 # hdr" and ?skip = "check_and_skip_common_sequence chk"
  have l: "check_length (hdr @ ?b @ rest) = Ok (data_len ?b, data_len hdr)" by (rule check_length_at [OF h]) (use e in simp)
  have 1: "advance chk check_version (?h @ v @ serial @ alg @ issuer @ validity @ subject @ ?r) (data_len ?h) = Ok (data_len (?h @ v))"
    by (rule advance_at, rule v) (use e in simp)
  have 2: "advance chk (check_and_skip_common_tag chk) ((?h @ v) @ serial @ alg @ issuer @ validity @ subject @ ?r)
      (data_len (?h @ v)) = Ok (data_len ((?h @ v) @ serial))"
    by (rule advance_at, rule skip_tag_at [OF s]) (use e in simp_all)
  define oid where "oid = (if leaf then get_oid_by_base_asym_algo a else None)"
  note 3 = alg_steps [OF alg [folded oid_def], of "?h @ v @ serial" "issuer @ validity @ subject @ ?r" chk]
  let ?p = "?h @ v @ serial @ alg"
  have 4: "advance chk ?skip (?p @ issuer @ validity @ subject @ ?r) (data_len ?p) = Ok (data_len (?p @ issuer))"
    by (rule advance_at, rule skip_sequence_at [OF q(1)]) (use e in simp_all)
  have 5: "advance chk ?skip ((?p @ issuer) @ validity @ subject @ ?r) (data_len (?p @ issuer)) = Ok (data_len ((?p @ issuer) @ validity))"
    by (rule advance_at, rule skip_sequence_at [OF q(2)]) (use e in simp_all)
  have 6: "advance chk ?skip ((?p @ issuer @ validity) @ subject @ ?r) (data_len (?p @ issuer @ validity)) =
      Ok (data_len ((?p @ issuer @ validity) @ subject))"
    by (rule advance_at, rule skip_sequence_at [OF q(3)]) (use e in simp_all)
  have 7: "data_from ((?p @ issuer @ validity @ subject) @ ?r) (data_len (?p @ issuer @ validity @ subject)) = Ok ?r"
    by (rule data_from_at) (use e in simp)
  have 8: "?skip (key @ extensions @ rest) = Ok (data_len key)"
    by (rule skip_sequence_at [OF q(4)]) (use e in simp)
  have 9: "usize_add chk 1 (data_len hdr) = Ok (data_len ?h)" "usize_add chk (data_len ?h) (data_len ?b) = Ok (data_len (?h @ ?b))"
    by (rule usize_add_tag usize_add_at, use e in simp)+
  have fn: "check_name chk = ?skip" "check_validity chk = ?skip"
    by (simp_all add: fun_eq_iff check_name_def check_validity_def)
  show ?thesis
    unfolding check_tbs_certificate_def check_public_key_info_def fn oid_def [symmetric]
    using l 1 2 4 5 6 7 8 9 e(2) data_len_not_less [OF e(2)]
    by (simp add: e(1) data_from_tag 3 [simplified] del: rbind_eq_Ok)
qed

lemma tbs_at:
  assumes "x509_tbs (if leaf then get_oid_by_base_asym_algo a else None) e" "length (e @ rest) < 2 ^ 64"
  shows "check_tbs_certificate chk (e @ rest) a leaf = Ok (data_len e)"
  using assms(1) unfolding x509_tbs_def is_tlv_def [of "0x30" _ e]
  by (elim exE conjE) (rule tbs_walk [OF _ assms(2) _ check_version_at])

lemma cert_at:
  assumes "x509_cert (if rest = [] then get_oid_by_base_asym_algo a else None) e" "length (e @ rest) < 2 ^ 64"
  shows "check_cert_format chk (e @ rest) a = Ok (data_len e)"
proof -
  let ?leaf = "rest = []"
  obtain hdr tbs alg sig tag b where
    e: "der_length hdr (length (tbs @ alg @ sig))" "e = 0x30 # hdr @ tbs @ alg @ sig" "is_tlv tag b sig" and
    t: "x509_tbs (if ?leaf then get_oid_by_base_asym_algo a else None) tbs" and
    g: "x509_alg (if ?leaf then get_oid_by_base_asym_algo a else None) alg"
    using assms(1) unfolding x509_cert_def is_tlv_def [of "0x30" _ e] by blast
  let ?h = "0x30 # hdr"
  have l: "check_length (hdr @ (tbs @ alg @ sig) @ rest) = Ok (data_len (tbs @ alg @ sig), data_len hdr)"
    by (rule check_length_at [OF e(1)]) (use assms(2) e(2) in simp)
  have 1: "usize_add chk 1 (data_len hdr) = Ok (data_len ?h)"
    "usize_add chk (data_len ?h) (data_len (tbs @ alg @ sig)) = Ok (data_len (?h @ tbs @ alg @ sig))"
    by (rule usize_add_tag usize_add_at, use assms(2) e(2) in simp)+
  have 2: "data_len (e @ rest) = data_len e \<longleftrightarrow> ?leaf" by (subst data_len_eq_iff) (use assms(2) in simp_all)
  have 3: "advance chk (\<lambda>d. check_tbs_certificate chk d a ?leaf) (?h @ tbs @ alg @ sig @ rest) (data_len ?h) = Ok (data_len (?h @ tbs))"
    by (rule advance_at, rule tbs_at [OF t]) (use assms(2) e(2) in simp_all)
  have 4: "advance chk (\<lambda>d. check_signature_algorithm chk d a ?leaf) ((?h @ tbs) @ alg @ sig @ rest) (data_len (?h @ tbs)) =
      Ok (data_len ((?h @ tbs) @ alg))"
    by (rule advance_at, rule signature_algorithm_at [OF g]) (use assms(2) e(2) in simp_all)
  have 5: "advance chk (\<lambda>d. check_signature_value chk d a) ((?h @ tbs @ alg) @ sig @ rest) (data_len (?h @ tbs @ alg)) =
      Ok (data_len ((?h @ tbs @ alg) @ sig))"
    by (rule advance_at, unfold check_signature_value_def, rule skip_tag_at [OF e(3)]) (use assms(2) e(2) in simp_all)
  show ?thesis unfolding check_cert_format_def Let_def using l 1 2 3 4 5 by (simp add: e(2) data_from_tag)
qed

lemma x509_cert_not_Nil: "x509_cert oid c \<Longrightarrow> c \<noteq> []"
  by (auto simp: x509_cert_def is_tlv_def)

lemma x509_chain_length: "x509_chain oid cs \<Longrightarrow> length cs \<le> length (concat cs)"
proof (induction cs)
  case (Cons c cs)
  then obtain b c' where "c = b # c'" using x509_cert_not_Nil by (cases c) auto
  with Cons show ?case by simp
qed simp

lemma concat_chain_Nil: "x509_chain oid cs \<Longrightarrow> concat cs = [] \<longleftrightarrow> cs = []"
  by (cases cs) (auto dest: x509_cert_not_Nil)

lemma data_len_less_iff: "length (a @ b) < 2 ^ 64 \<Longrightarrow> data_len a < data_len (a @ b) \<longleftrightarrow> b \<noteq> []"
  by (simp add: word_less_nat_alt unat_data_len)

lemma chain_at:
  assumes "x509_chain (get_oid_by_base_asym_algo a) cs" "length (pre @ concat cs) < 2 ^ 64" "n + length cs < 2 ^ 64"
  shows "check_cert_chain_loop chk (pre @ concat cs) a (data_len pre) (of_nat n) = Some (Ok (of_nat (n + length cs)))"
  using assms
proof (induction cs arbitrary: pre n)
  case (Cons c cs)
  let ?bs = "pre @ c @ concat cs"
  have c: "x509_cert (if concat cs = [] then get_oid_by_base_asym_algo a else None) c"
    using Cons.prems(1) concat_chain_Nil [of "get_oid_by_base_asym_algo a" cs] by simp
  have "advance chk (\<lambda>d. check_cert_format chk d a) ?bs (data_len pre) = Ok (data_len (pre @ c))"
    by (rule advance_at, rule cert_at [OF c]) (use Cons.prems(2) in simp_all)
  moreover have "data_len pre < data_len ?bs"
    using data_len_less_iff [of pre "c @ concat cs"] x509_cert_not_Nil [OF c] Cons.prems(2) by simp
  moreover have "usize_add chk (of_nat n) 1 = Ok (of_nat (Suc n))"
    using usize_add_at [of "replicate n 0" "[0]" chk] Cons.prems(3) by (simp add: data_len_def)
  moreover have "check_cert_chain_loop chk ((pre @ c) @ concat cs) a (data_len (pre @ c)) (of_nat (Suc n)) =
      Some (Ok (of_nat (Suc n + length cs)))" by (rule Cons.IH) (use Cons.prems in simp_all)
  ultimately show ?case by (subst check_cert_chain_loop.simps) (simp del: of_nat_Suc)
qed (subst check_cert_chain_loop.simps, simp)

section \<open>Accepted chains with overflow checks\<close>

lemma usize_add_checked: "usize_add True a b = Ok c \<longleftrightarrow> unat a + unat b < 2 ^ 64 \<and> c = a + b"
  by (auto simp: usize_add_def)

lemma unat_usize_add: "usize_add True a b = Ok c \<Longrightarrow> unat c = unat a + unat b"
  by (auto simp: usize_add_checked unat_plus_if')

lemma data_from_Ok:
  assumes "data_from bs w = Ok d"
  obtains pre where "bs = pre @ d" "unat w = length pre"
  using assms that [of "take (unat w) bs"] by (auto simp: data_from_def split: if_splits)

lemma skip_tag_Ok:
  assumes "check_and_skip_common_tag True bs = Ok n" "length bs < 2 ^ 64"
  obtains e rest tag body where "bs = e @ rest" "is_tlv tag body e" "unat n = length e"
proof (cases bs)
  case (Cons tag bs')
  obtain p k m where "check_length bs' = Ok (p, k)" "usize_add True 1 k = Ok m" "usize_add True m p = Ok n" "\<not> data_len bs < n"
    using assms(1) by (auto simp: Cons check_and_skip_common_tag_def split: if_splits)
  then obtain hdr r where h: "bs' = hdr @ r" "der_length hdr (unat p)" "k = data_len hdr" "unat n = 1 + unat k + unat p"
    "unat n \<le> length bs"
    by (auto simp: check_length_Ok unat_usize_add word_less_nat_alt unat_data_len [OF assms(2)])
  then have k: "unat k = length hdr" using assms(2) by (simp add: Cons unat_data_len)
  then have "unat p \<le> length r" using h Cons by simp
  then have "bs = (tag # hdr @ take (unat p) r) @ drop (unat p) r" "is_tlv tag (take (unat p) r) (tag # hdr @ take (unat p) r)"
    "unat n = length (tag # hdr @ take (unat p) r)"
    using h k by (auto simp: Cons is_tlv_def min_def)
  then show ?thesis by (rule that)
qed (use assms in \<open>simp add: check_and_skip_common_tag_def\<close>)

lemma oid_Ok:
  assumes "check_object_identifier bs (Some x) = Ok n"
  shows "prefix (0x06 # of_nat (length x) # x) bs"
proof -
  obtain l r where bs: "bs = 0x06 # l # r" "unat l \<le> length r" "take (unat l) r = x"
    using assms
    by (cases bs; cases "tl bs") (auto simp: check_object_identifier_def Let_def same_identifiers slice_def
        ASN1_TAG_NUMBER_OBJECT_IDENTIFIER_def split: if_splits)
  then have "length x = unat l" by auto
  then show ?thesis using bs by (auto simp: take_is_prefix)
qed

lemma check_tag_Ok: "check_tag_is_sequence bs = Ok u \<longleftrightarrow> (\<exists>r. bs = 0x30 # r)"
  by (cases bs) (auto simp: check_tag_is_sequence_def ASN1_TAG_SEQUENCE_def)

text \<open>The head of a sequence: its tag, its length octets and the value of them.\<close>

lemma sequence_head:
  assumes "check_tag_is_sequence bs = Ok u" "data_from bs 1 = Ok d" "check_length d = Ok (m, k)"
    "usize_add True 1 k = Ok w" "length bs < 2 ^ 64"
  obtains hdr r where "bs = 0x30 # hdr @ r" "der_length hdr (unat m)" "unat w = Suc (length hdr)"
proof -
  obtain d' where "bs = 0x30 # d'" using assms(1) by (auto simp: check_tag_Ok)
  then have bs: "bs = 0x30 # d" using assms(2) by (simp add: data_from_def)
  obtain hdr r where h: "d = hdr @ r" "der_length hdr (unat m)" "k = data_len hdr" using assms(3) by (auto simp: check_length_Ok)
  then have "unat w = Suc (length hdr)" using unat_usize_add [OF assms(4)] assms(5) by (simp add: bs unat_data_len)
  with bs h show ?thesis by (intro that [of hdr r]) simp_all
qed

lemma advance_Ok:
  assumes "advance True f bs w = Ok w'"
  obtains pre d n where "bs = pre @ d" "unat w = length pre" "f d = Ok n" "unat w' = length pre + unat n"
  using assms by (auto simp: advance_def dest!: unat_usize_add elim!: data_from_Ok)

lemma check_version_Ok: "check_version bs = Ok n \<Longrightarrow> prefix [0xA0, 3, 2, 1, 2] bs"
  by (auto simp: check_version_def ASN1_TAG_NUMBER_INTEGER_def X509V3_VERSION_def numeral_eq_Suc
      not_less Suc_le_length_iff split: if_splits)

lemma tbs_Ok:
  assumes "check_tbs_certificate True bs a leaf = Ok n" "length bs < 2 ^ 64"
  obtains e rest body where "bs = e @ rest" "is_tlv 0x30 body e" "unat n = length e" "prefix [0xA0, 3, 2, 1, 2] (body @ rest)"
proof -
  from assms(1) obtain u d m k w t where t: "check_tag_is_sequence bs = Ok u" "data_from bs 1 = Ok d" "check_length d = Ok (m, k)"
      "usize_add True 1 k = Ok w" "usize_add True w m = Ok n" "\<not> data_len bs < n" "advance True check_version bs w = Ok t"
    unfolding check_tbs_certificate_def by (auto split: if_splits)
  obtain hdr r where h: "bs = 0x30 # hdr @ r" "der_length hdr (unat m)" "unat w = Suc (length hdr)"
    by (rule sequence_head [OF t(1-4) assms(2)])
  obtain pre d' n' where p: "bs = pre @ d'" "unat w = length pre" "check_version d' = Ok n'" by (rule advance_Ok [OF t(7)])
  then have "d' = r" using h by (metis append_Cons append_eq_append_conv length_Cons)
  then have v: "prefix [0xA0, 3, 2, 1, 2] r" using check_version_Ok p(3) by simp
  have n: "unat n = Suc (length hdr) + unat m" "unat n \<le> length bs"
    using unat_usize_add [OF t(5)] h(3) t(6) by (simp_all add: word_less_nat_alt unat_data_len [OF assms(2)])
  then have "unat m \<le> length r" by (simp add: h(1))
  then show ?thesis using h n v
    by (intro that [of "0x30 # hdr @ take (unat m) r" "drop (unat m) r" "take (unat m) r"]) (auto simp: is_tlv_def min_def)
qed

lemma signature_algorithm_Ok:
  assumes "check_signature_algorithm True bs a leaf = Ok n" "length bs < 2 ^ 64"
  obtains hdr m r where "bs = 0x30 # hdr @ r" "der_length hdr m" "unat n = Suc (length hdr) + m"
    "\<And>x. leaf \<Longrightarrow> get_oid_by_base_asym_algo a = Some x \<Longrightarrow> prefix (0x06 # of_nat (length x) # x) r"
proof -
  from assms(1) obtain u d m k w d' i where t: "check_tag_is_sequence bs = Ok u" "data_from bs 1 = Ok d" "check_length d = Ok (m, k)"
      "usize_add True 1 k = Ok w" "data_from bs w = Ok d'" "usize_add True w m = Ok n"
      "check_object_identifier d' (if leaf then get_oid_by_base_asym_algo a else None) = Ok i"
    unfolding check_signature_algorithm_def by auto
  obtain hdr r where h: "bs = 0x30 # hdr @ r" "der_length hdr (unat m)" "unat w = Suc (length hdr)"
    by (rule sequence_head [OF t(1-4) assms(2)])
  have "d' = r" using t(5) h by (simp add: data_from_def split: if_splits)
  then show ?thesis using h t(7) unat_usize_add [OF t(6)] by (intro that [of hdr r "unat m"]) (auto intro: oid_Ok)
qed

text \<open>Where a walker of known size stands in the data.\<close>

lemma advance_from:
  assumes "advance True f bs w = Ok w'" "bs = pre @ d" "unat w = length pre"
  shows "\<exists>n. f d = Ok n \<and> unat w' = length pre + unat n"
proof -
  obtain pre' d' n where "bs = pre' @ d'" "unat w = length pre'" "f d' = Ok n" "unat w' = length pre' + unat n"
    by (rule advance_Ok [OF assms(1)])
  with assms(2,3) show ?thesis by auto
qed

lemma cert_Ok:
  assumes "check_cert_format True bs a = Ok n" "length bs < 2 ^ 64"
  obtains e rest where "bs = e @ rest" "e \<noteq> []" "unat n = length e"
    "cert_parts (if rest = [] then get_oid_by_base_asym_algo a else None) rest e"
proof -
  define leaf where "leaf = (data_len bs = n)"
  from assms(1) obtain u d m k w w1 w2 where
    t: "check_tag_is_sequence bs = Ok u" "data_from bs 1 = Ok d" "check_length d = Ok (m, k)" "usize_add True 1 k = Ok w" and
    s: "usize_add True w m = Ok n" "advance True (\<lambda>d. check_tbs_certificate True d a leaf) bs w = Ok w1"
      "advance True (\<lambda>d. check_signature_algorithm True d a leaf) bs w1 = Ok w2"
      "advance True (\<lambda>d. check_signature_value True d a) bs w2 = Ok n"
    unfolding check_cert_format_def leaf_def by (auto simp: Let_def split: if_splits)
  obtain hdr r where h: "bs = 0x30 # hdr @ r" "der_length hdr (unat m)" "unat w = Suc (length hdr)"
    by (rule sequence_head [OF t assms(2)])
  obtain n1 where n1: "check_tbs_certificate True r a leaf = Ok n1" "unat w1 = Suc (length hdr) + unat n1"
    using advance_from [OF s(2), of "0x30 # hdr" r] h(1,3) by auto
  obtain tbs r1 b1 where tb: "r = tbs @ r1" "is_tlv 0x30 b1 tbs" "unat n1 = length tbs" "prefix [0xA0, 3, 2, 1, 2] (b1 @ r1)"
    by (rule tbs_Ok [OF n1(1)]) (use assms(2) h(1) in simp_all)
  obtain n2 where n2: "check_signature_algorithm True r1 a leaf = Ok n2" "unat w2 = Suc (length hdr + length tbs) + unat n2"
    using advance_from [OF s(3), of "0x30 # hdr @ tbs" r1] h(1) tb(1,3) n1(2) by auto
  obtain ah am ar where al: "r1 = 0x30 # ah @ ar" "der_length ah am" "unat n2 = Suc (length ah) + am"
    "\<And>x. leaf \<Longrightarrow> get_oid_by_base_asym_algo a = Some x \<Longrightarrow> prefix (0x06 # of_nat (length x) # x) ar"
    by (rule signature_algorithm_Ok [OF n2(1)]) (use assms(2) h(1) tb(1) in simp_all)
  have "unat w2 \<le> length bs" using s(4) by (auto elim: advance_Ok)
  then have "am \<le> length ar" using n2(2) al(1,3) h(1) tb(1) by simp
  then obtain b2 r2 where b2: "ar = b2 @ r2" "length b2 = am" by (metis append_take_drop_id length_take min.absorb2)
  let ?alg = "0x30 # ah @ b2"
  obtain n3 where n3: "check_and_skip_common_tag True r2 = Ok n3" "unat n = length (0x30 # hdr @ tbs @ ?alg) + unat n3"
    using advance_from [OF s(4), of "0x30 # hdr @ tbs @ ?alg" r2] h(1) tb(1) al(1,3) n2(2) b2
    by (auto simp: check_signature_value_def)
  obtain sig rest tag b3 where sg: "r2 = sig @ rest" "is_tlv tag b3 sig" "unat n3 = length sig"
    by (rule skip_tag_Ok [OF n3(1)]) (use assms(2) h(1) tb(1) al(1) b2 in simp_all)
  let ?e = "0x30 # hdr @ tbs @ ?alg @ sig"
  have e: "bs = ?e @ rest" "unat n = length ?e" using h(1) tb(1) al(1) b2 sg(1,3) n3(2) by simp_all
  have m: "unat m = length (tbs @ ?alg @ sig)" using unat_usize_add [OF s(1)] h(3) e(2) by simp
  have l: "leaf \<longleftrightarrow> rest = []"
    unfolding leaf_def word_unat_eq_iff unat_data_len [OF assms(2)] e(2) by (simp add: e(1))
  have "is_tlv 0x30 (tbs @ ?alg @ sig) ?e" "is_tlv 0x30 b2 ?alg" using h(2) m al(2) b2(2) by (auto simp: is_tlv_def)
  moreover have "prefix [0xA0, 3, 2, 1, 2] (b1 @ ?alg @ sig @ rest)" using tb(4) al(1) b2(1) sg(1) by simp
  moreover have "(if rest = [] then get_oid_by_base_asym_algo a else None) = Some x \<longrightarrow>
      prefix (0x06 # of_nat (length x) # x) (b2 @ sig @ rest)" for x using al(4) [of x] l b2(1) sg(1) by simp
  ultimately have "cert_parts (if rest = [] then get_oid_by_base_asym_algo a else None) rest ?e"
    unfolding cert_parts_def using tb(2) sg(2) by blast
  with e show ?thesis by (intro that [of ?e rest]) simp_all
qed

lemma chain_parts_Nil: "chain_parts oid cs \<Longrightarrow> concat cs = [] \<longleftrightarrow> cs = []"
  by (cases cs) (auto simp: cert_parts_def is_tlv_def)

lemma chain_Ok:
  assumes "check_cert_chain_loop True bs a w n = Some (Ok m)" "length bs < 2 ^ 64" "bs = pre @ post" "unat w = length pre"
  shows "\<exists>cs. post = concat cs \<and> chain_parts (get_oid_by_base_asym_algo a) cs \<and> unat m = unat n + length cs"
  using assms
proof (induction "length post" arbitrary: pre post w n rule: less_induct)
  case less
  show ?case
  proof (cases "post = []")
    case True
    then have "\<not> w < data_len bs" "w = data_len bs"
      using less.prems(2-4) by (simp_all add: word_less_nat_alt word_unat_eq_iff unat_data_len)
    then have "n = m" using less.prems(1) by (subst (asm) check_cert_chain_loop.simps) simp
    with True show ?thesis by (intro exI [of _ "[]"]) simp
  next
    case False
    then have "w < data_len bs" using less.prems(2-4) by (simp add: word_less_nat_alt unat_data_len)
    then obtain w' n' where s: "advance True (\<lambda>d. check_cert_format True d a) bs w = Ok w'" "usize_add True n 1 = Ok n'"
      "check_cert_chain_loop True bs a w' n' = Some (Ok m)"
      using less.prems(1) by (subst (asm) check_cert_chain_loop.simps) (auto split: result.splits)
    obtain k where k: "check_cert_format True post a = Ok k" "unat w' = length pre + unat k"
      using advance_from [OF s(1) less.prems(3,4)] by auto
    obtain e rest where e: "post = e @ rest" "e \<noteq> []" "unat k = length e"
      "cert_parts (if rest = [] then get_oid_by_base_asym_algo a else None) rest e"
      by (rule cert_Ok [OF k(1)]) (use less.prems(2,3) in simp)
    have "\<exists>cs. rest = concat cs \<and> chain_parts (get_oid_by_base_asym_algo a) cs \<and> unat m = unat n' + length cs"
      by (rule less.hyps [OF _ s(3) less.prems(2), of rest "pre @ e"]) (use e k less.prems in auto)
    then obtain cs where cs: "rest = concat cs" "chain_parts (get_oid_by_base_asym_algo a) cs" "unat m = unat n' + length cs" by blast
    have "unat n' = unat n + 1" using unat_usize_add [OF s(2)] by simp
    with e cs chain_parts_Nil [OF cs(2)] show ?thesis by (intro exI [of _ "e # cs"]) auto
  qed
qed

lemma chain_returns:
  assumes "length bs < 2 ^ 64"
  shows "\<exists>r. check_cert_chain_loop True bs a w n = Some r"
proof (induction "length bs - unat w" arbitrary: w n rule: less_induct)
  case less
  show ?case
  proof (cases "w < data_len bs")
    case True
    have "\<exists>r. check_cert_chain_loop True bs a w' n' = Some r"
      if step: "advance True (\<lambda>d. check_cert_format True d a) bs w = Ok w'" for w' n'
    proof -
      obtain pre d k where p: "bs = pre @ d" "unat w = length pre" "check_cert_format True d a = Ok k" "unat w' = length pre + unat k"
        by (rule advance_Ok [OF step])
      obtain e rest where "d = e @ rest" "e \<noteq> []" "unat k = length e"
        by (rule cert_Ok [OF p(3)]) (use assms p(1) in simp)
      then have "length bs - unat w' < length bs - unat w"
        using p True by (simp add: word_less_nat_alt unat_data_len [OF assms] diff_less_mono2)
      then show ?thesis by (rule less.hyps)
    qed
    with True show ?thesis by (subst check_cert_chain_loop.simps) (auto split: result.splits)
  qed (subst check_cert_chain_loop.simps, simp)
qed

section \<open>Chains that crash or hang the check\<close>

text \<open>
  A certificate whose lengths add up to zero modulo \<open>2 ^ 64\<close>: without overflow checks it is found
  well formed and of size zero, so the loop over the chain stays where it is.
\<close>

definition endless_cert :: bytes where
  "endless_cert =
    [0x30, 0x88, 0xFF, 0xFF, 0xFF, 0xFF, 0xFF, 0xFF, 0xFF, 0xF6] @
    [0x30, 0x14, 0xA0, 3, 2, 1, 2, 2, 1, 1, 0x30, 2, 6, 0, 0x30, 0, 0x30, 0, 0x30, 0, 0x30, 0] @
    [0x30, 0x88, 0xFF, 0xFF, 0xFF, 0xFF, 0xFF, 0xFF, 0xFF, 0xD6, 6, 0]"

lemma endless_cert_format: "check_cert_format False endless_cert a = Ok 0"
  by code_simp

lemma endless_loop: "check_cert_chain_loop False endless_cert a 0 n = None"
proof -
  have s: "advance False (\<lambda>d. check_cert_format False d a) endless_cert 0 = Ok 0" for a
    by (simp add: advance_def data_from_def endless_cert_format usize_add_def)
  have l: "0 < data_len endless_cert" by code_simp
  have "\<not> (\<not> chk \<and> bs = endless_cert \<and> w = 0)" if step: "check_cert_chain_loop chk bs a w n = Some y" for chk bs w y
    by (rule check_cert_chain_loop.raw_induct [where P = "\<lambda>chk bs a w n y. \<not> (\<not> chk \<and> bs = endless_cert \<and> w = 0)", OF _ step])
      (fastforce simp: s l usize_add_def)
  then show ?thesis by (metis not_Some_eq)
qed

lemma nine_octets: "check_cert_format chk (0x30 # 0x89 # replicate 9 b) a = Panic"
proof -
  have "check_length (0x89 # replicate 9 b) = Panic"
    by (simp add: check_length_def ASN1_LENGTH_MULTI_OCTET_MASK_def Let_def)
  then show ?thesis by (simp add: check_cert_format_def data_from_tag)
qed

text \<open>A certificate with the algorithm identifier of ECDSA with SHA-256, of 47 bytes.\<close>

definition sample_alg :: bytes where
  "sample_alg = 0x30 # [10] @ 0x06 # 8 # OID_ECDSA_SHA256 @ []"

definition sample_tbs :: bytes where
  "sample_tbs = 0x30 # [28] @ [0xA0, 3, 2, 1, 2] @ [2, 1, 1] @ sample_alg @ [0x30, 0] @ [0x30, 0] @ [0x30, 0] @ [0x30, 0] @ []"

definition sample_cert :: bytes where
  "sample_cert = 0x30 # [45] @ sample_tbs @ sample_alg @ [3, 1, 0]"

lemma short_tlv: "length body < 128 \<Longrightarrow> is_tlv tag body (tag # [of_nat (length body)] @ body)"
  unfolding is_tlv_def by (rule exI [of _ "[of_nat (length body)]"]) (simp add: der_length_def unat_of_nat word_less_nat_alt)

lemma sample_alg_ok: "oid = None \<or> oid = Some OID_ECDSA_SHA256 \<Longrightarrow> x509_alg oid sample_alg"
  using short_tlv [of "0x06 # 8 # OID_ECDSA_SHA256" "0x30"] unfolding x509_alg_def
  by (intro exI [of _ OID_ECDSA_SHA256] exI [of _ "[]"]) (simp add: sample_alg_def OID_ECDSA_SHA256_def)

lemma sample_parts_ok:
  assumes "oid = None \<or> oid = Some OID_ECDSA_SHA256" "der_length hdr 45"
  shows "x509_cert oid (0x30 # hdr @ sample_tbs @ sample_alg @ [3, 1, 0])"
proof -
  have alg: "x509_alg oid sample_alg" by (rule sample_alg_ok) fact
  let ?b = "[0xA0, 3, 2, 1, 2] @ [2, 1, 1] @ sample_alg @ [0x30, 0] @ [0x30, 0] @ [0x30, 0] @ [0x30, 0] @ []"
  have len: "length sample_alg = 12" by (simp add: sample_alg_def OID_ECDSA_SHA256_def)
  have e: "is_tlv 2 [1] [2, 1, 1]" "is_tlv 0x30 [] [0x30, 0]" "is_tlv 3 [0] [3, 1, 0]"
    using short_tlv [of "[1]" 2] short_tlv [of "[]" "0x30"] short_tlv [of "[0]" 3] by simp_all
  have "is_tlv 0x30 ?b sample_tbs" using short_tlv [of ?b "0x30"] by (simp add: len sample_tbs_def)
  then have "x509_tbs oid sample_tbs" unfolding x509_tbs_def using e(1,2) alg by blast
  moreover have "length (sample_tbs @ sample_alg @ [3, 1, 0]) = 45" by (simp add: sample_tbs_def len)
  then have "is_tlv 0x30 (sample_tbs @ sample_alg @ [3, 1, 0]) (0x30 # hdr @ sample_tbs @ sample_alg @ [3, 1, 0])"
    unfolding is_tlv_def using assms(2) by metis
  ultimately show ?thesis unfolding x509_cert_def using e(3) alg by blast
qed

lemma sample_cert_ok: "oid = None \<or> oid = Some OID_ECDSA_SHA256 \<Longrightarrow> x509_cert oid sample_cert"
  using sample_parts_ok [of oid "[45]"] by (simp add: sample_cert_def der_length_def)

lemma sample_chain: "x509_chain (get_oid_by_base_asym_algo SpdmBaseAsymAlgo_TPM_ALG_ECDSA_ECC_NIST_P256) [sample_cert, sample_cert]"
  by (simp add: sample_cert_ok get_oid_by_base_asym_algo_def)

lemma sample_chain_length: "length (concat [sample_cert, sample_cert]) < 2 ^ 63"
  by (simp add: sample_cert_def sample_tbs_def sample_alg_def OID_ECDSA_SHA256_def)

section \<open>Properties\<close>

text \<open>
  C12: Every well-formed certificate chain is accepted, in a build with overflow checks and in one without. A chain
  of X.509 version 3 certificates, the last one with the object identifier of the negotiated algorithm in both
  of its algorithm fields, passes the format check, which returns the number of certificates.
\<close>

theorem cert_chain_accepted:
  assumes "x509_chain (get_oid_by_base_asym_algo a) cs" "length (concat cs) < 2 ^ 63"
  shows "check_cert_chain_format chk (concat cs) a = Some (Ok (of_nat (length cs)))"
proof -
  have "length cs \<le> length (concat cs)" by (rule x509_chain_length [OF assms(1)])
  then show ?thesis
    using chain_at [OF assms(1), of "[]" 0 chk] assms(2) by (simp add: check_cert_chain_format_def)
qed

theorem cert_chain_accepted_witness:
  "check_cert_chain_format False (sample_cert @ sample_cert) SpdmBaseAsymAlgo_TPM_ALG_ECDSA_ECC_NIST_P256 = Some (Ok 2)"
  using cert_chain_accepted [OF sample_chain sample_chain_length] by simp



text \<open>
  C17: With overflow checks, the format check returns on every input: with a count, with an error or with a panic.
\<close>

theorem cert_check_returns:
  assumes "length chain < 2 ^ 63"
  shows "\<exists>r. check_cert_chain_format True chain a = Some r"
  using chain_returns [of chain a 0 0] assms by (simp add: check_cert_chain_format_def)

theorem cert_check_returns_witness:
  "\<exists>r. check_cert_chain_format True endless_cert SpdmBaseAsymAlgo_TPM_ALG_ECDSA_ECC_NIST_P256 = Some r"
  by (rule cert_check_returns) (simp add: endless_cert_def)

text \<open>
  C14: A certificate chain of the peer can stop the check for good. In a build without overflow checks (the release
  profile) the length fields of \<open>endless_cert\<close> make the offsets wrap, a certificate of size zero is found, and the
  loop never ends; in every build, length octets that announce nine bytes panic.
\<close>

theorem cert_check_hangs_or_panics:
  "check_cert_chain_format False endless_cert a = None \<and>
    check_cert_chain_format chk (0x30 # 0x89 # replicate 9 b) a = Some Panic"
proof
  show "check_cert_chain_format False endless_cert a = None"
    by (simp add: check_cert_chain_format_def endless_loop)
  have "0 < data_len (0x30 # 0x89 # replicate 9 b)" by (simp add: data_len_def)
  then show "check_cert_chain_format chk (0x30 # 0x89 # replicate 9 b) a = Some Panic"
    unfolding check_cert_chain_format_def
    by (subst check_cert_chain_loop.simps) (simp only: if_True advance_def data_from_def unat_0 le0 drop0 rbind.simps nine_octets result.case)
qed

end
