(* ===== verification/Ring_Verify.thy ===== *)
theory Ring_Verify
  imports Protocol_Data Cert_Format
begin

text \<open>
  The verification of signatures that the feature \<open>spdm-ring\<close> registers:
  \<open>spdmlib/src/crypto/spdm_ring/asym_verify_impl.rs\<close> and \<open>get_cert_from_cert_chain\<close> of
  \<open>spdmlib/src/crypto/spdm_ring/cert_operation_impl.rs\<close>.

  \<^item> The crate webpki is a parameter: \<open>end_entity\<close> reads a certificate, \<open>verify_signature\<close> checks a
    signature with its key. Nothing is assumed of them.
  \<^item> The two loops over a certificate chain, \<open>check_cert_chain_format\<close> and the search for the
    leaf, agree: the key that verifies a signature is that of the last certificate of the chain, the
    one whose object identifier was compared with the negotiated algorithm.
  \<^item> A raw ECDSA signature is re-encoded as a DER sequence of two integers. The lemmas show that
    both integers keep their value, are encoded with the least number of bytes and are not negative.
\<close>

section \<open>Definitions\<close>

subsection \<open>The leaf certificate\<close>

function get_cert_loop :: "bytes \<Rightarrow> int \<Rightarrow> nat \<Rightarrow> int \<Rightarrow> (nat \<times> nat) SpdmResult" where
  "get_cert_loop chain index offset this_index =
    (if offset > length chain then Panic
     else if length (drop offset chain) < 4 then Err SPDM_STATUS_INVALID_CERT
     else if chain ! offset \<noteq> 0x30 \<or> chain ! (offset + 1) \<noteq> 0x82 then Err SPDM_STATUS_INVALID_CERT
     else
       let this_cert_len = unat (chain ! (offset + 2)) * 256 + unat (chain ! (offset + 3)) + 4 in
       if this_cert_len > length chain - offset then Err SPDM_STATUS_INVALID_CERT
       else if this_index = index then Ok (offset, offset + this_cert_len)
       else if offset + this_cert_len = length chain \<and> index = - 1 then Ok (offset, offset + this_cert_len)
       else get_cert_loop chain index (offset + this_cert_len) (this_index + 1))"
  by pat_completeness auto

termination
  by (relation "measure (\<lambda>(chain, _, offset, _). length chain - offset)") auto

declare get_cert_loop.simps [simp del]

definition ring_get_cert_from_cert_chain :: "bytes \<Rightarrow> int \<Rightarrow> (nat \<times> nat) SpdmResult" where
  "ring_get_cert_from_cert_chain chain index = get_cert_loop chain index 0 0"

subsection \<open>ECDSA signatures\<close>

text \<open>\<open>der_signature[i..j].copy_from_slice(src)\<close>\<close>

definition copy_into :: "nat \<Rightarrow> nat \<Rightarrow> bytes \<Rightarrow> bytes \<Rightarrow> bytes SpdmResult" where
  "copy_into i j src buf =
    (if i \<le> j \<and> j \<le> length buf \<and> j - i = length src then Ok (write_at buf i src) else Panic)"

text \<open>One integer of the DER signature: tag, size, a zero if the first bit is set, the bytes.\<close>

definition put_integer :: "nat \<Rightarrow> nat \<Rightarrow> nat \<Rightarrow> bytes \<Rightarrow> bytes \<Rightarrow> bytes SpdmResult" where
  "put_integer i der_size r_size r buf =
    (let buf = buf[i := 0x02, i + 1 := of_nat der_size] in
     if r ! 0 < 0x80 then copy_into (i + 2) (i + 2 + r_size) r buf
     else copy_into (i + 3) (i + 3 + r_size) r (buf[i + 2 := 0]))"

definition leading_zeros :: "bytes \<Rightarrow> nat" where
  "leading_zeros bs = length (takeWhile (\<lambda>b. b = 0) bs)"

definition ecc_signature_bin_to_der :: "bytes \<Rightarrow> bytes \<Rightarrow> nat SpdmResult \<times> bytes" where
  "ecc_signature_bin_to_der signature der_signature =
    (let sign_size = length signature;
         half_size = sign_size div 2;
         r_index = leading_zeros (take half_size signature);
         r_size = half_size - r_index;
         r = slice signature r_index half_size;
         s_index = leading_zeros (slice signature half_size (half_size + half_size));
         s_size = half_size - s_index;
         s = slice signature (half_size + s_index) sign_size in
     if r_size = 0 \<or> s_size = 0 then (Ok 0, der_signature)
     else
       let der_r_size = (if r ! 0 < 0x80 then r_size else r_size + 1);
           der_s_size = (if s ! 0 < 0x80 then s_size else s_size + 1);
           der_sign_size = der_r_size + der_s_size + 6 in
       if length der_signature < der_sign_size then (Err SPDM_STATUS_VERIF_FAIL, der_signature)
       else if der_r_size > 255 \<or> der_s_size > 255 \<or> der_sign_size > 255
       then (Err SPDM_STATUS_VERIF_FAIL, der_signature)
       else
         (case rbind (put_integer 2 der_r_size r_size r (der_signature[0 := 0x30, 1 := of_nat (der_sign_size - 2)]))
             (put_integer (4 + der_r_size) der_s_size s_size s) of
           Ok buf \<Rightarrow> (Ok der_sign_size, buf)
         | Err e \<Rightarrow> (Err e, der_signature)
         | Panic \<Rightarrow> (Panic, der_signature)))"

subsection \<open>Verification\<close>

datatype webpki_algorithm =
    ECDSA_P256_SHA256
  | ECDSA_P384_SHA256
  | ECDSA_P256_SHA384
  | ECDSA_P384_SHA384
  | RSA_PKCS1_2048_8192_SHA256
  | RSA_PKCS1_2048_8192_SHA384
  | RSA_PKCS1_2048_8192_SHA512
  | RSA_PSS_2048_8192_SHA256_LEGACY_KEY
  | RSA_PSS_2048_8192_SHA384_LEGACY_KEY
  | RSA_PSS_2048_8192_SHA512_LEGACY_KEY

record 'c webpki =
  end_entity :: "bytes \<Rightarrow> 'c option"
  verify_signature :: "'c \<Rightarrow> webpki_algorithm \<Rightarrow> bytes \<Rightarrow> bytes \<Rightarrow> bool"

definition is_ecdsa :: "SpdmBaseAsymAlgo \<Rightarrow> bool" where
  "is_ecdsa a \<longleftrightarrow> a \<in> {SpdmBaseAsymAlgo_TPM_ALG_ECDSA_ECC_NIST_P256, SpdmBaseAsymAlgo_TPM_ALG_ECDSA_ECC_NIST_P384}"

definition is_rsassa :: "SpdmBaseAsymAlgo \<Rightarrow> bool" where
  "is_rsassa a \<longleftrightarrow> a \<in> {SpdmBaseAsymAlgo_TPM_ALG_RSASSA_2048, SpdmBaseAsymAlgo_TPM_ALG_RSASSA_3072,
    SpdmBaseAsymAlgo_TPM_ALG_RSASSA_4096}"

definition is_rsapss :: "SpdmBaseAsymAlgo \<Rightarrow> bool" where
  "is_rsapss a \<longleftrightarrow> a \<in> {SpdmBaseAsymAlgo_TPM_ALG_RSAPSS_2048, SpdmBaseAsymAlgo_TPM_ALG_RSAPSS_3072,
    SpdmBaseAsymAlgo_TPM_ALG_RSAPSS_4096}"

text \<open>The match on hash and signature algorithm; \<open>None\<close> is its arm \<open>panic!()\<close>.\<close>

definition ring_algorithm :: "SpdmBaseHashAlgo \<Rightarrow> SpdmBaseAsymAlgo \<Rightarrow> webpki_algorithm option" where
  "ring_algorithm h a =
    (if h = SpdmBaseHashAlgo_TPM_ALG_SHA_256 \<and> a = SpdmBaseAsymAlgo_TPM_ALG_ECDSA_ECC_NIST_P256 then Some ECDSA_P256_SHA256
     else if h = SpdmBaseHashAlgo_TPM_ALG_SHA_256 \<and> a = SpdmBaseAsymAlgo_TPM_ALG_ECDSA_ECC_NIST_P384 then Some ECDSA_P384_SHA256
     else if h = SpdmBaseHashAlgo_TPM_ALG_SHA_384 \<and> a = SpdmBaseAsymAlgo_TPM_ALG_ECDSA_ECC_NIST_P256 then Some ECDSA_P256_SHA384
     else if h = SpdmBaseHashAlgo_TPM_ALG_SHA_384 \<and> a = SpdmBaseAsymAlgo_TPM_ALG_ECDSA_ECC_NIST_P384 then Some ECDSA_P384_SHA384
     else if h = SpdmBaseHashAlgo_TPM_ALG_SHA_256 \<and> is_rsassa a then Some RSA_PKCS1_2048_8192_SHA256
     else if h = SpdmBaseHashAlgo_TPM_ALG_SHA_256 \<and> is_rsapss a then Some RSA_PSS_2048_8192_SHA256_LEGACY_KEY
     else if h = SpdmBaseHashAlgo_TPM_ALG_SHA_384 \<and> is_rsassa a then Some RSA_PKCS1_2048_8192_SHA384
     else if h = SpdmBaseHashAlgo_TPM_ALG_SHA_384 \<and> is_rsapss a then Some RSA_PSS_2048_8192_SHA384_LEGACY_KEY
     else if h = SpdmBaseHashAlgo_TPM_ALG_SHA_512 \<and> is_rsassa a then Some RSA_PKCS1_2048_8192_SHA512
     else if h = SpdmBaseHashAlgo_TPM_ALG_SHA_512 \<and> is_rsapss a then Some RSA_PSS_2048_8192_SHA512_LEGACY_KEY
     else None)"

definition verified :: "bool \<Rightarrow> unit SpdmResult" where
  "verified ok = (if ok then Ok () else Err SPDM_STATUS_VERIF_FAIL)"

text \<open>What happens once the chain has passed the format check.\<close>

definition verify_with_leaf ::
    "'c webpki \<Rightarrow> webpki_algorithm \<Rightarrow> SpdmBaseAsymAlgo \<Rightarrow> bytes \<Rightarrow> bytes \<Rightarrow> SpdmSignatureStruct \<Rightarrow> unit SpdmResult" where
  "verify_with_leaf wp alg a chain msg signature =
    rbind (ring_get_cert_from_cert_chain chain (- 1)) (\<lambda>(leaf_begin, leaf_end).
    case end_entity wp (slice chain leaf_begin leaf_end) of
      None \<Rightarrow> Err SPDM_STATUS_INVALID_CERT
    | Some cert \<Rightarrow>
        if is_ecdsa a
        then
          (case ecc_signature_bin_to_der (as_ref signature) (replicate (96 + 8) 0) of
            (Ok n, der) \<Rightarrow> verified (verify_signature wp cert alg msg (take n der))
          | (Err e, _) \<Rightarrow> Err e
          | (Panic, _) \<Rightarrow> Panic)
        else if is_rsassa a \<or> is_rsapss a then verified (verify_signature wp cert alg msg (as_ref signature))
        else Err SPDM_STATUS_VERIF_FAIL)"

definition ring_asym_verify ::
    "bool \<Rightarrow> 'c webpki \<Rightarrow> SpdmBaseHashAlgo \<Rightarrow> SpdmBaseAsymAlgo \<Rightarrow> bytes \<Rightarrow> bytes \<Rightarrow> SpdmSignatureStruct \<Rightarrow>
      unit SpdmResult option" where
  "ring_asym_verify chk wp h a chain msg signature =
    (case SpdmBaseAsymAlgo_get_size a of
      Ok n \<Rightarrow>
        if data_size signature \<noteq> n then Some (Err SPDM_STATUS_VERIF_FAIL)
        else
          (case ring_algorithm h a of
            None \<Rightarrow> Some Panic
          | Some alg \<Rightarrow>
              (case check_cert_chain_format chk chain a of
                None \<Rightarrow> None
              | Some (Ok _) \<Rightarrow> Some (verify_with_leaf wp alg a chain msg signature)
              | Some (Err e) \<Rightarrow> Some (Err e)
              | Some Panic \<Rightarrow> Some Panic))
    | Err e \<Rightarrow> Some (Err e)
    | Panic \<Rightarrow> Some Panic)"

section \<open>The leaf certificate\<close>

definition long_form_cert :: "bytes \<Rightarrow> bool" where
  "long_form_cert c \<longleftrightarrow> (\<exists>hi lo body. c = 0x30 # 0x82 # hi # lo # body \<and> length body = unat hi * 256 + unat lo)"

text \<open>One iteration of the search, at a certificate.\<close>

lemma get_cert_step:
  assumes "long_form_cert c"
  shows "get_cert_loop (pre @ c @ rest) index (length pre) k =
    (if k = index \<or> rest = [] \<and> index = - 1 then Ok (length pre, length (pre @ c))
     else get_cert_loop (pre @ c @ rest) index (length (pre @ c)) (k + 1))"
proof -
  obtain hi lo body where c: "c = 0x30 # 0x82 # hi # lo # body" "length body = unat hi * 256 + unat lo"
    using assms by (auto simp: long_form_cert_def)
  then have l: "unat hi * 256 + unat lo + 4 = length c" by simp
  have n: "(pre @ c @ rest) ! length pre = 0x30" "(pre @ c @ rest) ! (length pre + 1) = 0x82"
    "(pre @ c @ rest) ! (length pre + 2) = hi" "(pre @ c @ rest) ! (length pre + 3) = lo" by (simp_all add: c nth_append)
  show ?thesis by (subst get_cert_loop.simps) (unfold n l Let_def, use l in auto)
qed

lemma get_leaf:
  assumes "cs \<noteq> []" "list_all long_form_cert cs" "0 \<le> k"
  shows "get_cert_loop (pre @ concat cs) (- 1) (length pre) k =
    Ok (length (pre @ concat (butlast cs)), length (pre @ concat cs))"
  using assms
proof (induction cs arbitrary: pre k rule: list_nonempty_induct)
  case (single c)
  then show ?case using get_cert_step [of c pre "[]" "- 1" k] by simp
next
  case (cons c cs)
  have "concat cs \<noteq> []" using cons.hyps cons.prems(1) by (cases cs) (auto simp: long_form_cert_def)
  then have "get_cert_loop (pre @ c @ concat cs) (- 1) (length pre) k =
      get_cert_loop (pre @ c @ concat cs) (- 1) (length (pre @ c)) (k + 1)"
    using get_cert_step [of c pre "concat cs" "- 1" k] cons.prems by auto
  with cons.IH [of "k + 1" "pre @ c"] cons.prems cons.hyps show ?case by simp
qed

text \<open>On a chain that the format check has cut, the search finds the last certificate or fails.\<close>

lemma cut_long_form:
  assumes "chain_parts oid (c # cs)" "prefix [0x30, 0x82] (c @ concat cs)"
  shows "long_form_cert c"
proof -
  have "\<exists>body. is_tlv 0x30 body c" using assms(1) unfolding chain_parts.simps cert_parts_def by blast
  then obtain hdr body where c: "der_length hdr (length body)" "c = 0x30 # hdr @ body"
    unfolding is_tlv_def by blast
  then obtain b os where h: "hdr = b # os" by (cases hdr) (auto simp: der_length_def)
  with assms(2) c have "b = 0x82" by simp
  with c h have "length os = 2" "le_value (rev os) = length body" by (auto simp: der_length_def)
  then obtain hi lo where "os = [hi, lo]" by (auto simp: numeral_eq_Suc length_Suc_conv)
  with c h \<open>b = 0x82\<close> \<open>le_value (rev os) = length body\<close> show ?thesis by (auto simp: long_form_cert_def)
qed

lemma two_bytes: "2 \<le> length xs \<Longrightarrow> prefix [xs ! 0, xs ! 1] xs"
  by (cases xs; cases "tl xs") auto

lemma cut_leaf:
  assumes "get_cert_loop (pre @ concat cs) (- 1) (length pre) k = Ok (i, j)" "chain_parts oid cs" "0 \<le> k"
  shows "cs \<noteq> [] \<and> slice (pre @ concat cs) i j = last cs"
  using assms
proof (induction cs arbitrary: pre k)
  case (Cons c cs)
  let ?bs = "pre @ c @ concat cs"
  have "4 \<le> length (c @ concat cs)" "?bs ! length pre = 0x30" "?bs ! (length pre + 1) = 0x82"
    using Cons.prems(1) by (subst (asm) get_cert_loop.simps, auto simp: Let_def split: if_splits)+
  then have "prefix [0x30, 0x82] (c @ concat cs)"
    using two_bytes [of "c @ concat cs"] nth_append_length_plus [of pre "c @ concat cs" 0]
      nth_append_length_plus [of pre "c @ concat cs" 1] by simp
  then have c: "long_form_cert c" by (rule cut_long_form [OF Cons.prems(2)])
  show ?case
  proof (cases "concat cs = []")
    case True
    then have "cs = []" using chain_parts_Nil [of oid cs] Cons.prems(2) by simp
    with Cons.prems(1) get_cert_step [OF c, of pre "[]" "- 1" k] show ?thesis by (auto simp: slice_def)
  next
    case False
    then have "get_cert_loop ?bs (- 1) (length pre) k = get_cert_loop ?bs (- 1) (length (pre @ c)) (k + 1)"
      using get_cert_step [OF c, of pre "concat cs" "- 1" k] Cons.prems(3) by auto
    with Cons.prems Cons.IH [of "pre @ c" "k + 1"] show ?thesis by auto
  qed
qed (simp add: get_cert_loop.simps)

section \<open>DER signatures\<close>

text \<open>The integer that a string of bytes, most significant first, stands for, and its encoding.\<close>

definition int_bytes :: "bytes \<Rightarrow> bytes" where
  "int_bytes r = (if r ! 0 < 0x80 then r else 0 # r)"

definition der_integer :: "bytes \<Rightarrow> nat \<Rightarrow> bool" where
  "der_integer e v \<longleftrightarrow> e \<noteq> [] \<and> e ! 0 < 0x80 \<and> (1 < length e \<and> e ! 0 = 0 \<longrightarrow> 0x80 \<le> e ! 1) \<and> le_value (rev e) = v"

definition significant :: "bytes \<Rightarrow> bytes" where
  "significant bs = dropWhile (\<lambda>b. b = 0) bs"

lemma drop_leading_zeros: "drop (leading_zeros bs) bs = significant bs"
  by (simp add: leading_zeros_def significant_def dropWhile_eq_drop)

lemma length_significant: "length (significant bs) = length bs - leading_zeros bs"
  by (simp flip: drop_leading_zeros)

lemma length_significant_le: "length (significant bs) \<le> length bs"
  by (simp add: length_significant)

lemma le_value_significant: "le_value (rev (significant bs)) = le_value (rev bs)"
proof (induction bs)
  case (Cons b bs)
  then show ?case using le_value_zeros [of "rev bs" 1] by (simp add: significant_def)
qed (simp add: significant_def)

lemma der_integer_significant:
  assumes "le_value (rev bs) \<noteq> 0"
  shows "significant bs \<noteq> []" "der_integer (int_bytes (significant bs)) (le_value (rev bs))"
proof -
  show n: "significant bs \<noteq> []" using assms le_value_significant [of bs] by auto
  then have "significant bs ! 0 \<noteq> 0" using hd_dropWhile [of "\<lambda>b. b = 0" bs] by (simp add: significant_def hd_conv_nth)
  with n show "der_integer (int_bytes (significant bs)) (le_value (rev bs))"
    using le_value_zeros [of "rev (significant bs)" 1]
    by (auto simp: der_integer_def int_bytes_def le_value_significant not_less)
qed

lemma length_int_bytes: "length (int_bytes r) \<le> length r + 1" "length (int_bytes r) = (if r ! 0 < 0x80 then length r else length r + 1)"
  by (simp_all add: int_bytes_def)

lemma put_integer_eq:
  "i + 2 + length (int_bytes r) \<le> length buf \<Longrightarrow>
    put_integer i n (length r) r buf = Ok (write_at buf i (0x02 # of_nat n # int_bytes r))"
  by (cases "r ! 0 < 0x80") (simp_all add: put_integer_def copy_into_def int_bytes_def Let_def eval_nat_numeral)

definition der_signature_bytes :: "bytes \<Rightarrow> bytes \<Rightarrow> bytes" where
  "der_signature_bytes r s = (let body = 0x02 # of_nat (length (int_bytes r)) # int_bytes r @ 0x02 # of_nat (length (int_bytes s)) # int_bytes s
     in 0x30 # of_nat (length body) # body)"

lemma ecc_der_eq:
  assumes "length x = length y" "significant x \<noteq> []" "significant y \<noteq> []"
    and "length (der_signature_bytes (significant x) (significant y)) \<le> length buf" "length x \<le> 120"
  shows "ecc_signature_bin_to_der (x @ y) buf =
    (Ok (length (der_signature_bytes (significant x) (significant y))),
     write_at buf 0 (der_signature_bytes (significant x) (significant y)))"
proof -
  let ?r = "significant x" and ?s = "significant y"
  have r: "slice (x @ y) (leading_zeros x) (length x) = ?r"
    by (simp add: slice_def flip: drop_leading_zeros)
  have s: "slice (x @ y) (length x + leading_zeros y) (length (x @ y)) = ?s"
    by (simp add: slice_def flip: drop_leading_zeros)
  have y: "slice (x @ y) (length x) (length x + length x) = y" using assms(1) by (simp add: slice_def)
  have l: "length x - leading_zeros x = length ?r" "length x - leading_zeros y = length ?s"
    by (simp_all add: length_significant assms(1))
  have b: "length (int_bytes ?r) \<le> 121" "length (int_bytes ?s) \<le> 121"
    using length_int_bytes(1) [of ?r] length_int_bytes(1) [of ?s] length_significant_le [of x] length_significant_le [of y] assms(1,5) by auto
  let ?R = "int_bytes ?r" and ?S = "int_bytes ?s"
  let ?X = "0x02 # of_nat (length ?R) # ?R" and ?Y = "0x02 # of_nat (length ?S) # ?S"
  have h: "length (x @ y) div 2 = length x" and tx: "take (length x) (x @ y) = x" using assms(1) by simp_all
  have d: "der_signature_bytes ?r ?s = 0x30 # of_nat (length ?R + length ?S + 4) # ?X @ ?Y" "length (der_signature_bytes ?r ?s) = length ?R + length ?S + 6"
    by (simp_all add: der_signature_bytes_def Let_def)
  let ?b = "buf[0 := 0x30, 1 := of_nat (length ?R + length ?S + 6 - 2)]"
  have p: "put_integer 2 (length ?R) (length ?r) ?r ?b = Ok (write_at ?b 2 ?X)"
    "put_integer (4 + length ?R) (length ?S) (length ?s) ?s (write_at ?b 2 ?X) = Ok (write_at (write_at ?b 2 ?X) (4 + length ?R) ?Y)"
    by (rule put_integer_eq, use assms(4) d(2) in simp)+
  have w: "write_at (write_at ?b 2 ?X) (4 + length ?R) ?Y = write_at buf 0 (der_signature_bytes ?r ?s)"
    using write_at_append [of ?b 2 ?X ?Y] by (simp add: d(1) eval_nat_numeral)
  show ?thesis
    unfolding ecc_signature_bin_to_der_def Let_def h tx r y s l length_int_bytes(2) [symmetric] p rbind.simps w result.case d(2)
    using assms(2-4) b d(2) by simp
qed

text \<open>The bytes of a DER signature with the integers \<open>v\<close> and \<open>w\<close>.\<close>

definition ecdsa_der :: "nat \<Rightarrow> nat \<Rightarrow> bytes \<Rightarrow> bool" where
  "ecdsa_der v w e \<longleftrightarrow> (\<exists>x y r s. is_tlv 0x30 (x @ y) e \<and> is_tlv 2 r x \<and> is_tlv 2 s y \<and> der_integer r v \<and> der_integer s w)"

lemma ecdsa_der_significant:
  assumes "le_value (rev x) \<noteq> 0" "le_value (rev y) \<noteq> 0" "length x \<le> 48" "length y \<le> 48"
  shows "ecdsa_der (le_value (rev x)) (le_value (rev y)) (der_signature_bytes (significant x) (significant y))"
    and "length (der_signature_bytes (significant x) (significant y)) \<le> 104"
proof -
  let ?r = "int_bytes (significant x)" and ?s = "int_bytes (significant y)"
  have l: "length ?r \<le> 49" "length ?s \<le> 49"
    using length_int_bytes(1) [of "significant x"] length_int_bytes(1) [of "significant y"]
      length_significant_le [of x] length_significant_le [of y] assms(3,4) by auto
  then show "length (der_signature_bytes (significant x) (significant y)) \<le> 104" by (simp add: der_signature_bytes_def Let_def)
  let ?b = "(2 # [of_nat (length ?r)] @ ?r) @ 2 # [of_nat (length ?s)] @ ?s"
  have "is_tlv 2 ?r (2 # [of_nat (length ?r)] @ ?r)" "is_tlv 2 ?s (2 # [of_nat (length ?s)] @ ?s)"
    "is_tlv 0x30 ?b (0x30 # [of_nat (length ?b)] @ ?b)"
    by (rule short_tlv, use l in simp)+
  moreover have "der_signature_bytes (significant x) (significant y) = 0x30 # [of_nat (length ?b)] @ ?b"
    by (simp add: der_signature_bytes_def Let_def)
  ultimately show "ecdsa_der (le_value (rev x)) (le_value (rev y)) (der_signature_bytes (significant x) (significant y))"
    unfolding ecdsa_der_def using der_integer_significant(2) [OF assms(1)] der_integer_significant(2) [OF assms(2)] by metis
qed

lemma ecc_der_value:
  assumes "length x = length y" "length x \<le> 48" "le_value (rev x) \<noteq> 0" "le_value (rev y) \<noteq> 0" "length buf = 104"
  shows "\<exists>n buf'. ecc_signature_bin_to_der (x @ y) buf = (Ok n, buf') \<and>
    ecdsa_der (le_value (rev x)) (le_value (rev y)) (take n buf')"
proof -
  let ?d = "der_signature_bytes (significant x) (significant y)"
  have d: "ecdsa_der (le_value (rev x)) (le_value (rev y)) ?d" "length ?d \<le> 104"
    using ecdsa_der_significant [OF assms(3,4)] assms(1,2) by auto
  have "ecc_signature_bin_to_der (x @ y) buf = (Ok (length ?d), write_at buf 0 ?d)"
    by (rule ecc_der_eq [OF assms(1) der_integer_significant(1) [OF assms(3)] der_integer_significant(1) [OF assms(4)]])
      (use d(2) assms(2,5) in simp_all)
  moreover have "take (length ?d) (write_at buf 0 ?d) = ?d" using d(2) assms(5) by (simp add: write_at_eq)
  ultimately show ?thesis using d(1) by auto
qed

lemma ecdsa_sizes:
  assumes "is_ecdsa a" "SpdmBaseAsymAlgo_get_size a = Ok n"
  shows "unat n = 64 \<or> unat n = 96"
  using assms by (auto simp: is_ecdsa_def SpdmBaseAsymAlgo_get_size_def)

definition halves :: "bytes \<Rightarrow> bytes \<times> bytes" where
  "halves bs = (take (length bs div 2) bs, drop (length bs div 2) bs)"

lemma ecc_der_halves:
  assumes "ecc_signature_bin_to_der bs (replicate (96 + 8) 0) = (Ok n, der)" "length bs = 64 \<or> length bs = 96"
    and "halves bs = (x, y)" "le_value (rev x) \<noteq> 0" "le_value (rev y) \<noteq> 0"
  shows "ecdsa_der (le_value (rev x)) (le_value (rev y)) (take n der)"
proof -
  have h: "bs = x @ y" "length x = length y" "length x \<le> 48"
    using assms(2,3) by (auto simp: halves_def)
  then show ?thesis using ecc_der_value [OF h(2,3) assms(4,5), of "replicate (96 + 8) 0"] assms(1) by auto
qed

text \<open>A certificate in the form that the search for the leaf asks for.\<close>

definition sample_leaf :: bytes where
  "sample_leaf = 0x30 # [0x82, 0, 45] @ sample_tbs @ sample_alg @ [3, 1, 0]"

definition sample_webpki :: "unit webpki" where
  "sample_webpki = \<lparr>end_entity = (\<lambda>_. Some ()), verify_signature = (\<lambda>_ _ _ _. True)\<rparr>"

definition sample_signature :: SpdmSignatureStruct where
  "sample_signature = \<lparr>data_size = 64, data = replicate SPDM_MAX_ASYM_KEY_SIZE 1\<rparr>"

lemma sample_verify:
  "ring_asym_verify True sample_webpki SpdmBaseHashAlgo_TPM_ALG_SHA_256 SpdmBaseAsymAlgo_TPM_ALG_ECDSA_ECC_NIST_P256
    sample_leaf [] sample_signature = Some (Ok ())"
proof -
  have "x509_cert (Some OID_ECDSA_SHA256) sample_leaf"
    using sample_parts_ok [of "Some OID_ECDSA_SHA256" "[0x82, 0, 45]"] by (simp add: sample_leaf_def der_length_def)
  moreover have len: "length sample_leaf = 49" by (simp add: sample_leaf_def sample_tbs_def sample_alg_def OID_ECDSA_SHA256_def)
  ultimately have c: "check_cert_chain_format True sample_leaf SpdmBaseAsymAlgo_TPM_ALG_ECDSA_ECC_NIST_P256 = Some (Ok 1)"
    using chain_at [of SpdmBaseAsymAlgo_TPM_ALG_ECDSA_ECC_NIST_P256 "[sample_leaf]" "[]" 0 True]
    by (simp add: check_cert_chain_format_def get_oid_by_base_asym_algo_def)
  have "long_form_cert sample_leaf" using len by (simp add: long_form_cert_def sample_leaf_def)
  then have l: "ring_get_cert_from_cert_chain sample_leaf (- 1) = Ok (0, 49)"
    using get_leaf [of "[sample_leaf]" 0 "[]"] len by (simp add: ring_get_cert_from_cert_chain_def)
  have s: "as_ref sample_signature = replicate 32 1 @ replicate 32 1"
    by (simp add: as_ref_def sample_signature_def flip: replicate_add)
  have "le_value (replicate (Suc 31) 1) \<noteq> 0" by (simp only: replicate_Suc le_value_simps) simp
  moreover have "Suc 31 = 32" by simp
  ultimately have "le_value (rev (replicate 32 1)) \<noteq> 0" by (simp only: rev_replicate not_False_eq_True)
  then obtain n der where "ecc_signature_bin_to_der (as_ref sample_signature) (replicate (96 + 8) 0) = (Ok n, der)"
    using ecc_der_value [of "replicate 32 1" "replicate 32 1" "replicate (96 + 8) 0"] by (auto simp: s)
  then have "verify_with_leaf sample_webpki ECDSA_P256_SHA256 SpdmBaseAsymAlgo_TPM_ALG_ECDSA_ECC_NIST_P256 sample_leaf [] sample_signature = Ok ()"
    by (simp add: verify_with_leaf_def l sample_webpki_def is_ecdsa_def verified_def)
  then show ?thesis by (simp add: ring_asym_verify_def c SpdmBaseAsymAlgo_get_size_def ring_algorithm_def sample_signature_def)
qed

section \<open>Properties\<close>

text \<open>
  C18: A raw ECDSA signature is handed to webpki as the DER signature of the same two numbers. For the sizes of P-256
  and P-384 the conversion succeeds in the buffer of 104 bytes, and its result is a sequence of two integers, each
  of the value of its half of the raw signature, not negative and of least length.
\<close>

theorem ecdsa_signature_converted:
  assumes "length x = length y" "length x \<le> 48" "le_value (rev x) \<noteq> 0" "le_value (rev y) \<noteq> 0"
  shows "\<exists>n der. ecc_signature_bin_to_der (x @ y) (replicate 104 0) = (Ok n, der) \<and>
    ecdsa_der (le_value (rev x)) (le_value (rev y)) (take n der)"
  by (rule ecc_der_value [OF assms]) simp

theorem ecdsa_signature_converted_witness:
  "\<exists>n der. ecc_signature_bin_to_der ([0, 0x80] @ [1, 2]) (replicate 104 0) = (Ok n, der) \<and> ecdsa_der 0x80 0x102 (take n der)"
  using ecdsa_signature_converted [of "[0, 0x80]" "[1, 2]"] by simp

text \<open>
  C11: A signature is accepted only under the key of the leaf certificate. When the verification of a signature
  succeeds (in a build with overflow checks), the chain was cut into certificates, the last of which carries the object
  identifier of the negotiated algorithm, and webpki accepted the message under that last certificate with the algorithm
  that belongs to the negotiated hash and signature algorithms.
\<close>

theorem signature_accepted_by_leaf:
  assumes "ring_asym_verify True wp h a chain msg sig = Some (Ok ())" "length chain < 2 ^ 63"
    and "sized_ok SPDM_MAX_ASYM_KEY_SIZE sig" "halves (as_ref sig) = (x, y)"
  shows "\<exists>cs cert alg raw. chain = concat cs \<and> cs \<noteq> [] \<and> chain_parts (get_oid_by_base_asym_algo a) cs \<and>
    end_entity wp (last cs) = Some cert \<and> ring_algorithm h a = Some alg \<and> verify_signature wp cert alg msg raw \<and>
    (if is_ecdsa a
     then le_value (rev x) \<noteq> 0 \<and> le_value (rev y) \<noteq> 0 \<longrightarrow> ecdsa_der (le_value (rev x)) (le_value (rev y)) raw
     else raw = as_ref sig)"
proof -
  from assms(1) obtain alg n where c: "check_cert_chain_format True chain a = Some (Ok n)" "ring_algorithm h a = Some alg"
    and v: "verify_with_leaf wp alg a chain msg sig = Ok ()" and g: "SpdmBaseAsymAlgo_get_size a = Ok (data_size sig)"
    by (auto simp: ring_asym_verify_def split: result.splits option.splits if_splits)
  obtain cs where cs: "chain = concat cs" "chain_parts (get_oid_by_base_asym_algo a) cs"
    using chain_Ok [of chain a 0 0 n "[]" chain] c(1) assms(2) by (auto simp: check_cert_chain_format_def)
  from v obtain i j cert where l: "ring_get_cert_from_cert_chain chain (- 1) = Ok (i, j)" "end_entity wp (slice chain i j) = Some cert"
    by (auto simp: verify_with_leaf_def split: option.splits)
  have "cs \<noteq> []" "slice chain i j = last cs"
    using cut_leaf [of "[]" cs 0 i j] l(1) cs by (simp_all add: ring_get_cert_from_cert_chain_def)
  moreover have "length (as_ref sig) = 64 \<or> length (as_ref sig) = 96" if "is_ecdsa a"
    using ecdsa_sizes [OF that g] assms(3) by (auto simp: as_ref_def sized_ok_def)
  then have "\<exists>raw. verify_signature wp cert alg msg raw \<and> (if is_ecdsa a
     then le_value (rev x) \<noteq> 0 \<and> le_value (rev y) \<noteq> 0 \<longrightarrow> ecdsa_der (le_value (rev x)) (le_value (rev y)) raw
     else raw = as_ref sig)"
    using v l ecc_der_halves [OF _ _ assms(4)]
    by (fastforce simp: verify_with_leaf_def verified_def split: if_splits prod.splits result.splits)
  ultimately show ?thesis using cs c(2) l(2) by metis
qed

theorem signature_accepted_by_leaf_witness:
  "\<exists>cs. sample_leaf = concat cs \<and> cs \<noteq> [] \<and> chain_parts (Some OID_ECDSA_SHA256) cs"
proof -
  have "length sample_leaf < 2 ^ 63" by (simp add: sample_leaf_def sample_tbs_def sample_alg_def OID_ECDSA_SHA256_def)
  moreover have "sized_ok SPDM_MAX_ASYM_KEY_SIZE sample_signature" by (simp add: sized_ok_def sample_signature_def)
  ultimately obtain cs where "sample_leaf = concat cs" "cs \<noteq> []"
    "chain_parts (get_oid_by_base_asym_algo SpdmBaseAsymAlgo_TPM_ALG_ECDSA_ECC_NIST_P256) cs"
    using signature_accepted_by_leaf [OF sample_verify] by (metis surj_pair)
  then show ?thesis by (auto simp: get_oid_by_base_asym_algo_def)
qed

end
