(* ===== verification/Spec2Isabelle.thy ===== *)
theory Spec2Isabelle
  imports Handshake Ring_Verify
begin

text \<open>
  Verification development of rust-spdm, an implementation in Rust of the DMTF Security Protocol
  and Data Model (SPDM 1.0 to 1.2), its codec crate and its transport bindings.
\<close>

end
